(* ===== verification/Prelude.thy ===== *)
theory Prelude
  imports Main "HOL-Library.AList" "HOL-Library.Multiset" "HOL-Library.Product_Lexorder"
    "HOL-Library.List_Lexorder"
begin

text \<open>
  What every component of the development shares: Python's exceptions as values, Python's
  insertion-ordered dictionaries as association lists (a key keeps the position of its first
  insertion, an assignment to a present key replaces the value in place), grouping
  (\<open>d.setdefault(k, []).append(x)\<close>), counting (\<open>counts[k] += 1\<close>) and
  first-occurrence deduplication, each with the lemmas the components rest on.
\<close>

declare map_of_eq_Some_iff [simp del]

section \<open>Exceptions\<close>

datatype py_error = ValueError | OverflowError | KeyError | IndexError

type_synonym 'a py_result = "py_error + 'a"

text \<open>The next statement after one that may raise; \<open>'e\<close> is the errors of the component.\<close>

fun bind_result :: "'e + 'a \<Rightarrow> ('a \<Rightarrow> 'e + 'b) \<Rightarrow> 'e + 'b" where
  "bind_result (Inl e) f = Inl e"
| "bind_result (Inr x) f = f x"

text \<open>A loop that appends one result per item, stopped by the first exception.\<close>

fun traverse :: "('a \<Rightarrow> 'e + 'b) \<Rightarrow> 'a list \<Rightarrow> 'e + 'b list" where
  "traverse f [] = Inr []"
| "traverse f (x # xs) =
     bind_result (f x) (\<lambda>y. bind_result (traverse f xs) (\<lambda>ys. Inr (y # ys)))"

text \<open>A loop whose body may raise.\<close>

fun fold_result :: "('s \<Rightarrow> 'a \<Rightarrow> 'e + 's) \<Rightarrow> 's \<Rightarrow> 'a list \<Rightarrow> 'e + 's" where
  "fold_result f s [] = Inr s"
| "fold_result f s (x # xs) = bind_result (f s x) (\<lambda>s. fold_result f s xs)"

lemma bind_result_Inr [simp]:
  "bind_result r f = Inr y \<longleftrightarrow> (\<exists>x. r = Inr x \<and> f x = Inr y)"
  by (cases r) auto

lemma fold_result_invariant:
  assumes "fold_result f s xs = Inr t" "P s"
    and "\<And>s x t. x \<in> set xs \<Longrightarrow> P s \<Longrightarrow> f s x = Inr t \<Longrightarrow> P t"
  shows "P t"
  using assms
proof (induction xs arbitrary: s)
  case (Cons x xs)
  then obtain s' where s': "f s x = Inr s'" "fold_result f s' xs = Inr t" by auto
  have "P s'" using Cons.prems(2,3) s'(1) by auto
  with Cons.IH [OF s'(2)] Cons.prems(3) show ?case by auto
qed simp

lemma Inl_neq_bind: "bind_result r f = Inl e \<longleftrightarrow> r = Inl e \<or> (\<exists>x. r = Inr x \<and> f x = Inl e)"
  by (cases r) auto

lemma bind_result_assoc:
  "bind_result (bind_result r f) g = bind_result r (\<lambda>x. bind_result (f x) g)"
  by (cases r) auto

lemma fold_result_append: "fold_result f s (xs @ ys) = bind_result (fold_result f s xs) (\<lambda>s. fold_result f s ys)"
  by (induction xs arbitrary: s) (auto simp: bind_result_assoc)

lemma traverse_Inr: "traverse f xs = Inr ys \<longleftrightarrow> list_all2 (\<lambda>x y. f x = Inr y) xs ys"
  by (induction xs arbitrary: ys) (auto simp: list_all2_Cons1)

lemma traverse_total:
  "(\<And>x. x \<in> set xs \<Longrightarrow> \<exists>y. f x = Inr y) \<Longrightarrow> \<exists>ys. traverse f xs = Inr ys"
  by (induction xs) fastforce+

lemma traverse_map:
  "traverse f xs = Inr ys \<Longrightarrow> (\<And>x y. x \<in> set xs \<Longrightarrow> f x = Inr y \<Longrightarrow> g y = h x) \<Longrightarrow> map g ys = map h xs"
  by (induction xs arbitrary: ys) fastforce+

lemma traverse_mem:
  "traverse f xs = Inr ys \<Longrightarrow> y \<in> set ys \<Longrightarrow> \<exists>x \<in> set xs. f x = Inr y"
  by (induction xs arbitrary: ys) fastforce+

named_theorems dict_simps \<open>facts on insertion-ordered dictionaries\<close>

section \<open>Insertion-ordered dictionaries\<close>

type_synonym ('k, 'v) pydict = "('k \<times> 'v) list"

definition dict_setdefault :: "'k \<Rightarrow> 'v \<Rightarrow> ('k, 'v) pydict \<Rightarrow> ('k, 'v) pydict" where
  "dict_setdefault k v d = (case map_of d k of None \<Rightarrow> AList.update k v d | Some _ \<Rightarrow> d)"

definition dict_append :: "'k \<Rightarrow> 'v \<Rightarrow> ('k, 'v list) pydict \<Rightarrow> ('k, 'v list) pydict" where
  "dict_append k x d =
     AList.update k ((case map_of d k of None \<Rightarrow> [] | Some xs \<Rightarrow> xs) @ [x]) d"

definition group_by :: "('a \<Rightarrow> 'k) \<Rightarrow> 'a list \<Rightarrow> ('k, 'a list) pydict" where
  "group_by f xs = foldl (\<lambda>d x. dict_append (f x) x d) [] xs"

definition count_bump :: "('k, nat) pydict \<Rightarrow> 'k \<Rightarrow> ('k, nat) pydict" where
  "count_bump d k = AList.update k (Suc (case map_of d k of None \<Rightarrow> 0 | Some n \<Rightarrow> n)) d"

definition count_into :: "('k, nat) pydict \<Rightarrow> 'k list \<Rightarrow> ('k, nat) pydict" where
  "count_into d ks = foldl count_bump d ks"

definition zero_counts :: "'k list \<Rightarrow> ('k, nat) pydict" where
  "zero_counts order = map (\<lambda>k. (k, 0)) order"

definition dict_count :: "('k, nat) pydict \<Rightarrow> 'k \<Rightarrow> nat" where
  "dict_count d k = (case map_of d k of None \<Rightarrow> 0 | Some n \<Rightarrow> n)"

definition dict_total :: "('k, nat) pydict \<Rightarrow> nat" where
  "dict_total d = sum_list (map snd d)"

fun dedup :: "'a list \<Rightarrow> 'a list" where
  "dedup [] = []"
| "dedup (x # xs) = x # filter (\<lambda>y. y \<noteq> x) (dedup xs)"

subsection \<open>First-occurrence deduplication\<close>

lemma set_dedup [simp]: "set (dedup xs) = set xs"
  by (induction xs) auto

lemma distinct_dedup [simp]: "distinct (dedup xs)"
  by (induction xs) auto

lemma dedup_snoc: "dedup (xs @ [x]) = dedup xs @ (if x \<in> set xs then [] else [x])"
  by (induction xs) auto

lemma dedup_distinct: "distinct xs \<Longrightarrow> dedup xs = xs"
  by (induction xs) (auto simp: filter_id_conv)

lemma length_dedup: "length (dedup xs) = card (set xs)"
  by (metis distinct_card distinct_dedup set_dedup)

subsection \<open>Dictionary updates\<close>

lemma map_fst_update:
  "map fst (AList.update k v d) = (if k \<in> fst ` set d then map fst d else map fst d @ [k])"
  by (induction d) auto

lemma distinct_keys_update [simp]:
  "distinct (map fst (AList.update k v d)) = distinct (map fst d)"
  by (auto simp: map_fst_update)

lemma map_fst_setdefault:
  "map fst (dict_setdefault k v d) = (if k \<in> fst ` set d then map fst d else map fst d @ [k])"
  by (auto simp: dict_setdefault_def map_fst_update split: option.splits
      dest: map_of_SomeD) (metis map_of_eq_None_iff option.distinct(1))+

lemma map_of_setdefault:
  "map_of (dict_setdefault k v d) k' =
     (if k' = k then Some (case map_of d k of None \<Rightarrow> v | Some w \<Rightarrow> w) else map_of d k')"
  by (simp add: dict_setdefault_def update_conv' split: option.splits)

lemma map_of_distinct_iff:
  "distinct (map fst d) \<Longrightarrow> map_of d k = Some v \<longleftrightarrow> (k, v) \<in> set d"
  by (simp add: map_of_eq_Some_iff)

lemma dict_eqI:
  assumes "map fst d = map fst e" and "distinct (map fst d)" and "\<And>k. map_of d k = map_of e k"
  shows "d = e"
proof -
  have len: "length d = length e"
    using assms(1) by (metis length_map)
  moreover have "d ! i = e ! i" if "i < length d" for i
  proof -
    have fst_i: "fst (d ! i) = fst (e ! i)"
      using assms(1) that len by (metis nth_map)
    have "map_of d (fst (d ! i)) = Some (snd (d ! i))"
      using assms(2) that by (intro map_of_is_SomeI) auto
    moreover have "map_of e (fst (e ! i)) = Some (snd (e ! i))"
      using assms(1,2) that len by (intro map_of_is_SomeI) auto
    ultimately have "snd (d ! i) = snd (e ! i)"
      using assms(3) fst_i by simp
    with fst_i show ?thesis by (rule prod_eqI)
  qed
  ultimately show ?thesis by (rule nth_equalityI)
qed

lemma map_of_map_snd: "map_of (map (\<lambda>(k, v). (k, g v)) d) k = map_option g (map_of d k)"
  by (induction d) auto

lemma map_fst_map_snd [simp]: "map fst (map (\<lambda>(k, v). (k, g v)) d) = map fst d"
  by (induction d) auto

lemma card_two_iff: "finite A \<Longrightarrow> card A > 1 \<longleftrightarrow> (\<exists>x \<in> A. \<exists>y \<in> A. x \<noteq> y)"
  using card_le_Suc0_iff_eq [of A] by (auto simp flip: not_le)

subsection \<open>Grouping\<close>

lemma group_by_Nil [simp]: "group_by f [] = []"
  by (simp add: group_by_def)

lemma group_by_snoc: "group_by f (xs @ [x]) = dict_append (f x) x (group_by f xs)"
  by (simp add: group_by_def)

lemma map_of_append_dict:
  "map_of (dict_append k x d) k' =
     (if k' = k then Some ((case map_of d k of None \<Rightarrow> [] | Some xs \<Rightarrow> xs) @ [x]) else map_of d k')"
  by (simp add: dict_append_def update_conv')

lemma keys_group_by [dict_simps]: "map fst (group_by f xs) = dedup (map f xs)"
proof (induction xs rule: rev_induct)
  case Nil
  show ?case by simp
next
  case (snoc x xs)
  have "fst ` set (group_by f xs) = f ` set xs"
    using arg_cong [OF snoc.IH, of set] by simp
  then show ?case
    by (auto simp: group_by_snoc dict_append_def map_fst_update dedup_snoc snoc.IH)
qed

lemma distinct_group_by [simp]: "distinct (map fst (group_by f xs))"
  by (simp add: keys_group_by)

lemma lookup_group_by [dict_simps]:
  "map_of (group_by f xs) k =
     (if k \<in> f ` set xs then Some (filter (\<lambda>x. f x = k) xs) else None)"
proof (induction xs arbitrary: k rule: rev_induct)
  case Nil
  show ?case by simp
next
  case (snoc x xs)
  have "f x \<notin> f ` set xs \<Longrightarrow> filter (\<lambda>y. f y = f x) xs = []"
    by (auto simp: filter_empty_conv intro: rev_image_eqI)
  then show ?case
    by (auto simp: group_by_snoc map_of_append_dict snoc.IH)
qed

lemma group_by_entry:
  "(k, g) \<in> set (group_by f xs) \<longleftrightarrow> k \<in> f ` set xs \<and> g = filter (\<lambda>x. f x = k) xs"
  using map_of_distinct_iff [OF distinct_group_by, of f xs k g]
  by (auto simp: lookup_group_by split: if_splits)

lemma group_by_eq:
  "group_by f xs = map (\<lambda>k. (k, filter (\<lambda>x. f x = k) xs)) (dedup (map f xs))"
proof (rule nth_equalityI)
  have keys: "map fst (group_by f xs) = dedup (map f xs)"
    by (rule keys_group_by)
  from arg_cong [OF this, of length]
  show len: "length (group_by f xs)
      = length (map (\<lambda>k. (k, filter (\<lambda>x. f x = k) xs)) (dedup (map f xs)))"
    by simp
  fix i assume i: "i < length (group_by f xs)"
  obtain k g where kg: "group_by f xs ! i = (k, g)" by fastforce
  with i have "(k, g) \<in> set (group_by f xs)"
    by (metis nth_mem)
  then have g: "g = filter (\<lambda>x. f x = k) xs"
    by (simp add: group_by_entry)
  have "k = dedup (map f xs) ! i"
    using i kg keys by (metis fst_conv nth_map)
  with kg g i len show "group_by f xs ! i
      = map (\<lambda>k. (k, filter (\<lambda>x. f x = k) xs)) (dedup (map f xs)) ! i"
    by simp
qed

lemma length_group_by: "length (group_by f xs) = card (f ` set xs)"
  by (metis keys_group_by length_dedup length_map list.set_map)

lemma update_map_values:
  "AList.update k (g v) (map (\<lambda>(k, v). (k, g v)) d) = map (\<lambda>(k, v). (k, g v)) (AList.update k v d)"
  by (induction d) auto

text \<open>Grouping a projection is projecting the groups.\<close>

lemma dict_append_map:
  "dict_append k (f x) (map (\<lambda>(k, g). (k, map f g)) d) = map (\<lambda>(k, g). (k, map f g)) (dict_append k x d)"
  unfolding dict_append_def map_of_map_snd
  by (cases "map_of d k") (simp_all flip: update_map_values)

lemma sum_dict_append:
  "(\<Sum>(k, g)\<leftarrow>dict_append k x d. length (filter P g))
     = (\<Sum>(k, g)\<leftarrow>d. length (filter P g)) + (if P x then 1 else 0)"
  unfolding dict_append_def by (induction d) auto

lemma sum_group_by: "(\<Sum>(k, g)\<leftarrow>group_by f xs. length (filter P g)) = length (filter P xs)"
  by (induction xs rule: rev_induct) (simp_all add: group_by_snoc sum_dict_append)

lemma sum_list_sort_key:
  fixes g :: "'a \<Rightarrow> nat"
  shows "sum_list (map g (sort_key f xs)) = sum_list (map g xs)"
  by (simp flip: sum_mset_sum_list)

lemma distinct_map_sort_key: "distinct (map g (sort_key f xs)) = distinct (map g xs)"
  by (metis (no_types) mset_map mset_sort mset_eq_imp_distinct_iff)

subsection \<open>Counting\<close>

lemma sum_list_update_bump:
  "sum_list (map snd (AList.update k (Suc (case map_of d k of None \<Rightarrow> 0 | Some n \<Rightarrow> n)) d))
     = Suc (sum_list (map snd d))"
  by (induction d) auto

lemma dict_total_bump [simp]: "dict_total (count_bump d k) = Suc (dict_total d)"
  by (simp add: dict_total_def count_bump_def sum_list_update_bump)

lemma dict_total_into [dict_simps]: "dict_total (count_into d ks) = dict_total d + length ks"
  by (induction ks arbitrary: d) (simp_all add: count_into_def)

lemma dict_total_zero [simp]: "dict_total (zero_counts order) = 0"
  by (induction order) (simp_all add: dict_total_def zero_counts_def)

lemma dict_count_bump:
  "dict_count (count_bump d k) k' = dict_count d k' + (if k' = k then 1 else 0)"
  by (simp add: dict_count_def count_bump_def update_conv')

lemma dict_count_into [dict_simps]:
  "dict_count (count_into d ks) k = dict_count d k + count_list ks k"
  by (induction ks arbitrary: d) (simp_all add: count_into_def dict_count_bump)

lemma dict_count_zero [simp]: "dict_count (zero_counts order) k = 0"
proof -
  have "map_of (zero_counts order) k = None \<or> map_of (zero_counts order) k = Some 0"
    by (induction order) (auto simp: zero_counts_def)
  then show ?thesis by (auto simp: dict_count_def)
qed

lemma keys_count_bump:
  "map fst (count_bump d k) = (if k \<in> fst ` set d then map fst d else map fst d @ [k])"
  by (simp add: count_bump_def map_fst_update)

lemma keys_count_into:
  "set ks \<subseteq> set (map fst d) \<Longrightarrow> map fst (count_into d ks) = map fst d"
proof (induction ks arbitrary: d)
  case Nil
  then show ?case by (simp add: count_into_def)
next
  case (Cons k ks)
  then have keys: "map fst (count_bump d k) = map fst d"
    by (auto simp: keys_count_bump)
  with Cons.prems have "set ks \<subseteq> set (map fst (count_bump d k))"
    by (simp del: list.set_map)
  then have "map fst (count_into (count_bump d k) ks) = map fst (count_bump d k)"
    by (rule Cons.IH)
  with keys show ?case by (simp add: count_into_def)
qed

lemma map_fst_zero [simp]: "map fst (zero_counts order) = order"
  by (induction order) (simp_all add: zero_counts_def)

lemma distinct_keys_count_into [simp]:
  "distinct (map fst d) \<Longrightarrow> distinct (map fst (count_into d ks))"
  by (induction ks arbitrary: d) (simp_all add: count_into_def count_bump_def)

lemma dict_count_entry:
  "distinct (map fst d) \<Longrightarrow> (k, n) \<in> set d \<Longrightarrow> dict_count d k = n"
  by (simp add: dict_count_def)

lemma set_keys_count_into:
  "fst ` set (count_into d ks) = fst ` set d \<union> set ks"
proof (induction ks arbitrary: d)
  case Nil
  then show ?case by (simp add: count_into_def)
next
  case (Cons k ks)
  have "fst ` set (count_bump d k) = insert k (fst ` set d)"
    using arg_cong [OF keys_count_bump, of set d k] by (auto split: if_splits)
  with Cons.IH [of "count_bump d k"] show ?case
    by (simp add: count_into_def)
qed

lemma sum_count_list:
  "distinct ks \<Longrightarrow> set xs \<subseteq> set ks \<Longrightarrow> (\<Sum>k\<leftarrow>ks. count_list xs k) = length xs"
proof (induction xs)
  case Nil
  then show ?case by simp
next
  case (Cons x xs)
  have "(\<Sum>k\<leftarrow>ks. count_list (x # xs) k) = (\<Sum>k\<leftarrow>ks. count_list xs k + (if k = x then 1 else 0))"
    by (rule arg_cong [where f = sum_list]) auto
  also have "\<dots> = (\<Sum>k\<leftarrow>ks. count_list xs k) + (\<Sum>k\<leftarrow>ks. if k = x then 1 else 0)"
    by (rule sum_list_addf)
  also have "(\<Sum>k\<leftarrow>ks. if k = x then 1 else 0 :: nat) = 1"
    using Cons.prems by (subst sum_list_distinct_conv_sum_set) (auto simp: sum.If_cases)
  finally show ?case using Cons by simp
qed

lemma count_list_filter: "count_list xs k = length (filter (\<lambda>x. x = k) xs)"
  by (induction xs) auto

section \<open>The only element of a list that\<close>

lemma find_SomeD: "find P xs = Some x \<Longrightarrow> x \<in> set xs \<and> P x"
  by (induction xs) (auto split: if_splits)

lemma find_unique:
  assumes "\<And>x y. x \<in> set xs \<Longrightarrow> y \<in> set xs \<Longrightarrow> P x \<Longrightarrow> P y \<Longrightarrow> x = y"
  shows "find P xs = Some x \<longleftrightarrow> x \<in> set xs \<and> P x"
proof
  show "find P xs = Some x \<Longrightarrow> x \<in> set xs \<and> P x" by (rule find_SomeD)
next
  assume x: "x \<in> set xs \<and> P x"
  then have "find P xs \<noteq> None" by (auto simp: find_None_iff)
  then obtain y where "find P xs = Some y" by blast
  with find_SomeD [OF this] x assms show "find P xs = Some x" by metis
qed

lemma filter_unique:
  assumes "distinct xs" and "\<And>x y. x \<in> set xs \<Longrightarrow> y \<in> set xs \<Longrightarrow> P x \<Longrightarrow> P y \<Longrightarrow> x = y"
  shows "filter P xs = (case find P xs of None \<Rightarrow> [] | Some x \<Rightarrow> [x])"
  using assms
proof (induction xs)
  case (Cons a xs)
  show ?case
  proof (cases "P a")
    case True
    have "\<not> P x" if "x \<in> set xs" for x
    proof
      assume "P x"
      then have "x = a" using Cons.prems(2) [of x a] True that by simp
      with that Cons.prems(1) show False by simp
    qed
    then have "filter P xs = []" by (auto simp: filter_empty_conv)
    with True show ?thesis by simp
  next
    case False
    then show ?thesis using Cons by simp
  qed
qed simp

section \<open>Order-insensitive facts\<close>

lemma count_list_mset: "mset xs = mset ys \<Longrightarrow> count_list xs k = count_list ys k"
  by (metis count_mset)

lemma length_filter_mset_eq:
  "mset xs = mset ys \<Longrightarrow> length (filter P xs) = length (filter P ys)"
  by (metis mset_filter size_mset)

lemma card_eq_length_group:
  "card (f ` set xs) = length (dedup (map f xs))"
  by (simp add: length_dedup)

lemma sort_key_mset_eq:
  assumes "mset xs = mset ys" and "inj_on f (set xs)"
  shows "sort_key f xs = sort_key f ys"
proof (rule properties_for_sort_key [symmetric])
  show "mset (sort_key f xs) = mset ys" using assms(1) by simp
  show "sorted (map f (sort_key f xs))" by simp
next
  fix k assume "k \<in> set (sort_key f xs)"
  have s: "set xs = set ys" using assms(1) by (metis set_mset_mset)
  show "filter (\<lambda>x. f k = f x) (sort_key f xs) = filter (\<lambda>x. f k = f x) ys"
  proof -
    have "k \<in> set xs" using \<open>k \<in> set (sort_key f xs)\<close> by simp
    then have a: "\<And>x. x \<in> set xs \<Longrightarrow> (f k = f x) = (x = k)"
      using assms(2) by (auto simp: inj_on_def)
    have "filter (\<lambda>x. f k = f x) (sort_key f xs) = filter (\<lambda>x. x = k) (sort_key f xs)"
      by (rule filter_cong) (auto simp: a)
    moreover have "filter (\<lambda>x. f k = f x) ys = filter (\<lambda>x. x = k) ys"
      by (rule filter_cong) (auto simp: a s)
    moreover have "filter (\<lambda>x. x = k) zs = replicate (count (mset zs) k) k" for zs
      by (induction zs) auto
    ultimately show ?thesis using assms(1) by simp
  qed
qed

end
