(* ===== verification/PyText.thy ===== *)
theory PyText
  imports Prelude
begin

text \<open>
  Python \<open>str\<close> values as lists of Unicode code points, with the methods the program
  uses: \<open>strip\<close>, \<open>lower\<close>, \<open>casefold\<close>, \<open>in\<close>, \<open>startswith\<close>,
  \<open>endswith\<close>, the whitespace-run substitution \<open>re.sub(r"\s+", " ", s)\<close> and
  \<open>unicodedata.normalize("NFKD", s)\<close>. The character database itself (case mappings,
  decompositions, combining classes) is data the interpreter ships, so it is a record
  \<open>ucd\<close> passed to every function that consults it; the algorithms over it are written
  out. \<open>ascii_tables\<close> states what the Unicode standard fixes for ASCII and is the only
  thing the lemmas assume of the tables; \<open>latin_ucd\<close> gives the Latin-1 part of them and
  is the instance every concrete evaluation uses.
\<close>

type_synonym pystr = "nat list"

definition lit :: "string \<Rightarrow> pystr" where
  "lit s = map of_char s"

lemma lit_simps [simp]:
  "lit [] = []" "lit (c # cs) = of_char c # lit cs"
  by (simp_all add: lit_def)

section \<open>Whitespace\<close>

text \<open>\<open>str.isspace\<close>, the class both \<open>str.strip()\<close> and the pattern \<open>\s\<close> use.\<close>

definition is_space :: "nat \<Rightarrow> bool" where
  "is_space c \<longleftrightarrow> (9 \<le> c \<and> c \<le> 13) \<or> (28 \<le> c \<and> c \<le> 32) \<or> c = 133 \<or> c = 160 \<or> c = 5760
     \<or> (8192 \<le> c \<and> c \<le> 8202) \<or> c = 8232 \<or> c = 8233 \<or> c = 8239 \<or> c = 8287 \<or> c = 12288"

definition strip_by :: "(nat \<Rightarrow> bool) \<Rightarrow> pystr \<Rightarrow> pystr" where
  "strip_by p s = rev (dropWhile p (rev (dropWhile p s)))"

definition strip :: "pystr \<Rightarrow> pystr" where
  "strip s = strip_by is_space s"

text \<open>\<open>re.sub("[...]+", " ", s)\<close>: every run of the class becomes one space.\<close>

function collapse :: "(nat \<Rightarrow> bool) \<Rightarrow> pystr \<Rightarrow> pystr" where
  "collapse p [] = []"
| "collapse p (c # cs) = (if p c then 32 # collapse p (dropWhile p cs) else c # collapse p cs)"
  by pat_completeness auto
termination
  by (relation "measure (\<lambda>(p, s). length s)") (auto simp: le_imp_less_Suc length_dropWhile_le)

definition starts_with :: "pystr \<Rightarrow> pystr \<Rightarrow> bool" where
  "starts_with p s \<longleftrightarrow> take (length p) s = p"

definition ends_with :: "pystr \<Rightarrow> pystr \<Rightarrow> bool" where
  "ends_with p s \<longleftrightarrow> starts_with (rev p) (rev s)"

fun contains :: "pystr \<Rightarrow> pystr \<Rightarrow> bool" where
  "contains p [] = (p = [])"
| "contains p (c # cs) = (starts_with p (c # cs) \<or> contains p cs)"

text \<open>\<open>s.split(c)\<close> and \<open>s.partition(c)\<close> for a separator of one character.\<close>

fun split_char :: "nat \<Rightarrow> pystr \<Rightarrow> pystr list" where
  "split_char c [] = [[]]"
| "split_char c (x # xs) =
     (if x = c then [] # split_char c xs
      else case split_char c xs of [] \<Rightarrow> [[x]] | y # ys \<Rightarrow> (x # y) # ys)"

definition partition_char :: "nat \<Rightarrow> pystr \<Rightarrow> pystr \<times> bool \<times> pystr" where
  "partition_char c s = (takeWhile (\<lambda>x. x \<noteq> c) s, c \<in> set s, tl (dropWhile (\<lambda>x. x \<noteq> c) s))"

text \<open>\<open>s.split()\<close> on whitespace and \<open>" ".join\<close>.\<close>

function py_split :: "pystr \<Rightarrow> pystr list" where
  "py_split s =
     (let t = dropWhile is_space s
      in if t = [] then []
         else takeWhile (\<lambda>c. \<not> is_space c) t # py_split (dropWhile (\<lambda>c. \<not> is_space c) t))"
  by pat_completeness auto
termination
proof (relation "measure length", simp)
  fix s t assume t: "t = dropWhile is_space s" "t \<noteq> []"
  then have "\<not> is_space (hd t)" using hd_dropWhile by metis
  with t(2) have "length (dropWhile (\<lambda>c. \<not> is_space c) t) < length t"
    by (cases t) (simp_all add: le_imp_less_Suc length_dropWhile_le)
  also have "length t \<le> length s" by (simp add: t length_dropWhile_le)
  finally show "(dropWhile (\<lambda>c. \<not> is_space c) t, s) \<in> measure length" by simp
qed

declare py_split.simps [simp del]

fun join_space :: "pystr list \<Rightarrow> pystr" where
  "join_space [] = []"
| "join_space [w] = w"
| "join_space (w # ws) = w @ 32 # join_space ws"

section \<open>The character database\<close>

record ucd =
  ucd_fold :: "nat \<Rightarrow> nat list"
  ucd_lower :: "nat list \<Rightarrow> nat \<Rightarrow> nat list \<Rightarrow> nat list"
  ucd_decomp :: "nat \<Rightarrow> nat list"
  ucd_ccc :: "nat \<Rightarrow> nat"
  ucd_word :: "nat \<Rightarrow> bool"
  ucd_digit :: "nat \<Rightarrow> nat option"

text \<open>
  \<open>ucd_lower\<close> sees the text before the character (reversed) and after it, because the
  lower-case mapping of the Greek capital sigma depends on both.
\<close>

fun lower_from :: "ucd \<Rightarrow> nat list \<Rightarrow> pystr \<Rightarrow> pystr" where
  "lower_from u before [] = []"
| "lower_from u before (c # cs) = ucd_lower u before c cs @ lower_from u (c # before) cs"

definition lower :: "ucd \<Rightarrow> pystr \<Rightarrow> pystr" where
  "lower u s = lower_from u [] s"

definition casefold :: "ucd \<Rightarrow> pystr \<Rightarrow> pystr" where
  "casefold u s = concat (map (ucd_fold u) s)"

text \<open>
  NFKD: full compatibility decomposition of each character, then canonical ordering: each
  maximal run of combining characters is sorted stably by combining class.
\<close>

function canonical_order :: "(nat \<Rightarrow> nat) \<Rightarrow> pystr \<Rightarrow> pystr" where
  "canonical_order ccc [] = []"
| "canonical_order ccc (c # cs) =
     (if ccc c = 0 then c # canonical_order ccc cs
      else sort_key ccc (c # takeWhile (\<lambda>x. ccc x \<noteq> 0) cs)
             @ canonical_order ccc (dropWhile (\<lambda>x. ccc x \<noteq> 0) cs))"
  by pat_completeness auto
termination
  by (relation "measure (\<lambda>(ccc, s). length s)") (auto simp: le_imp_less_Suc length_dropWhile_le)

definition nfkd :: "ucd \<Rightarrow> pystr \<Rightarrow> pystr" where
  "nfkd u s = canonical_order (ucd_ccc u) (concat (map (ucd_decomp u) s))"

definition drop_marks :: "ucd \<Rightarrow> pystr \<Rightarrow> pystr" where
  "drop_marks u s = filter (\<lambda>c. ucd_ccc u c = 0) s"

section \<open>Lemmas on stripping and collapsing\<close>

lemma set_dropWhile_sub: "set (dropWhile p s) \<subseteq> set s"
  by (induction s) auto

lemma dropWhile_idem: "dropWhile p (dropWhile p s) = dropWhile p s"
  by (induction s) auto

lemma hd_dropWhile_not: "dropWhile p s \<noteq> [] \<Longrightarrow> \<not> p (hd (dropWhile p s))"
  by (rule hd_dropWhile)

lemma strip_by_Nil [simp]: "strip_by p [] = []"
  by (simp add: strip_by_def)

lemma strip_Nil [simp]: "strip [] = []"
  by (simp add: strip_def)

lemma strip_by_hd: "strip_by p s \<noteq> [] \<Longrightarrow> \<not> p (hd (strip_by p s))"
proof -
  assume ne: "strip_by p s \<noteq> []"
  let ?t = "dropWhile p s"
  obtain ys where ys: "?t = strip_by p s @ ys"
    by (metis rev_append rev_rev_ident strip_by_def takeWhile_dropWhile_id)
  with ne have "hd ?t = hd (strip_by p s)" and "?t \<noteq> []"
    by auto
  then show ?thesis using hd_dropWhile [of p s] by metis
qed

lemma strip_by_last: "strip_by p s \<noteq> [] \<Longrightarrow> \<not> p (last (strip_by p s))"
  using hd_dropWhile [of p "rev (dropWhile p s)"] by (simp add: strip_by_def last_rev)

lemma strip_by_fixed:
  "s = [] \<or> (\<not> p (hd s) \<and> \<not> p (last s)) \<Longrightarrow> strip_by p s = s"
proof (cases s)
  case Nil
  then show ?thesis by simp
next
  case (Cons c cs)
  assume "s = [] \<or> (\<not> p (hd s) \<and> \<not> p (last s))"
  with Cons have "\<not> p c" "\<not> p (last s)" by auto
  moreover from this Cons have "dropWhile p (rev s) = rev s"
    by (cases "rev s") (auto simp: last_rev hd_rev simp flip: hd_rev)
  ultimately show ?thesis using Cons by (simp add: strip_by_def)
qed

lemma strip_by_idem [simp]: "strip_by p (strip_by p s) = strip_by p s"
  using strip_by_hd [of p s] strip_by_last [of p s] by (intro strip_by_fixed) auto

lemma strip_idem [simp]: "strip (strip s) = strip s"
  by (simp add: strip_def)

lemma strip_by_empty_iff: "strip_by p s = [] \<longleftrightarrow> (\<forall>c \<in> set s. p c)"
proof
  assume "strip_by p s = []"
  then have "\<forall>c \<in> set (dropWhile p s). p c"
    unfolding strip_by_def by (metis Nil_is_rev_conv dropWhile_eq_Nil_conv set_rev)
  then have "dropWhile p s = []"
    using hd_dropWhile [of p s] by (metis list.set_sel(1))
  then show "\<forall>c \<in> set s. p c" by simp
next
  assume "\<forall>c \<in> set s. p c"
  then have "dropWhile p s = []" by simp
  then show "strip_by p s = []" by (simp add: strip_by_def del: dropWhile_eq_Nil_conv)
qed

lemma set_strip_by: "set (strip_by p s) \<subseteq> set s"
  using set_dropWhile_sub [of p "rev (dropWhile p s)"] set_dropWhile_sub [of p s]
  by (simp add: strip_by_def)

lemma strip_by_prefix:
  "\<forall>c \<in> set w. p c \<Longrightarrow> strip_by p (w @ s) = strip_by p s"
  by (simp add: strip_by_def dropWhile_append2)

lemma strip_by_suffix:
  assumes "\<forall>c \<in> set w. p c"
  shows "strip_by p (s @ w) = strip_by p s"
proof (cases "\<forall>c \<in> set s. p c")
  case True
  with assms have "strip_by p (s @ w) = []" "strip_by p s = []"
    by (auto simp: strip_by_empty_iff)
  then show ?thesis by simp
next
  case False
  then have "dropWhile p (s @ w) = dropWhile p s @ w"
    by (auto simp: dropWhile_append)
  moreover have "dropWhile p (rev w @ z) = dropWhile p z" for z
    using assms by (intro dropWhile_append2) auto
  ultimately show ?thesis by (simp add: strip_by_def)
qed

lemma strip_surround:
  "\<forall>c \<in> set w. is_space c \<Longrightarrow> \<forall>c \<in> set v. is_space c \<Longrightarrow> strip (w @ s @ v) = strip s"
  using strip_by_prefix [of w is_space "s @ v"] strip_by_suffix [of v is_space s]
  by (simp add: strip_def)

lemma collapse_no_class:
  "\<not> p 32 \<or> p 32 \<Longrightarrow> \<forall>c \<in> set s. \<not> p c \<Longrightarrow> collapse p s = s"
  by (induction s) auto

lemma collapse_eq_Nil [simp]: "collapse p s = [] \<longleftrightarrow> s = []"
  by (cases s) auto

lemma set_collapse: "set (collapse p s) \<subseteq> insert 32 (set s)"
proof (induction p s rule: collapse.induct)
  case (2 p c cs)
  then show ?case
    using set_dropWhileD [of _ p cs] by (auto split: if_splits)
qed simp

lemma collapse_class_space:
  "p 32 \<Longrightarrow> c \<in> set (collapse p s) \<Longrightarrow> p c \<Longrightarrow> c = 32"
  by (induction p s rule: collapse.induct) (auto split: if_splits)

text \<open>Collapsed text has no two adjacent class characters, so collapsing it again changes nothing.\<close>

fun no_double :: "(nat \<Rightarrow> bool) \<Rightarrow> pystr \<Rightarrow> bool" where
  "no_double p (c # d # cs) = (\<not> (p c \<and> p d) \<and> no_double p (d # cs))"
| "no_double p _ = True"

lemma no_double_collapse: "p 32 \<Longrightarrow> no_double p (collapse p s)"
proof (induction p s rule: collapse.induct)
  case (1 p)
  show ?case by simp
next
  case (2 p c cs)
  show ?case
  proof (cases "p c")
    case True
    show ?thesis
    proof (cases "dropWhile p cs")
      case Nil
      with True show ?thesis by (simp del: dropWhile_eq_Nil_conv)
    next
      case (Cons d ds)
      then have "\<not> p d" using hd_dropWhile [of p cs] by simp
      with 2 True Cons show ?thesis by simp
    qed
  next
    case False
    with 2 have "no_double p (collapse p cs)" by simp
    with False show ?thesis by (cases "collapse p cs") simp_all
  qed
qed

lemma collapse_fixed:
  "\<forall>c \<in> set s. p c \<longrightarrow> c = 32 \<Longrightarrow> no_double p s \<Longrightarrow> collapse p s = s"
proof (induction p s rule: no_double.induct)
  case (1 p c d cs)
  then show ?case by auto
qed auto

lemma collapse_idem: "p 32 \<Longrightarrow> collapse p (collapse p s) = collapse p s"
  by (intro collapse_fixed) (auto simp: no_double_collapse intro: collapse_class_space)

lemma no_double_tl: "no_double p (c # s) \<Longrightarrow> no_double p s"
  by (cases s) auto

lemma no_double_append: "no_double p (s @ t) \<Longrightarrow> no_double p s \<and> no_double p t"
  by (induction p s rule: no_double.induct) (auto dest: no_double_tl)

lemma strip_by_infix: "\<exists>w v. s = w @ strip_by p s @ v"
proof -
  have "s = takeWhile p s @ dropWhile p s" by simp
  moreover have "dropWhile p s = strip_by p s @ rev (takeWhile p (rev (dropWhile p s)))"
    by (metis rev_append rev_rev_ident strip_by_def takeWhile_dropWhile_id)
  ultimately show ?thesis by metis
qed

lemma no_double_strip: "no_double p s \<Longrightarrow> no_double p (strip_by p s)"
  using strip_by_infix [of s p] no_double_append by metis

lemma length_collapse: "length (collapse p s) \<le> length s"
proof (induction p s rule: collapse.induct)
  case (2 p c cs)
  then show ?case using length_dropWhile_le [of p cs] by (cases "p c") (auto intro: order_trans)
qed simp

lemma last_dropWhile: "s \<noteq> [] \<Longrightarrow> \<not> p (last s) \<Longrightarrow> dropWhile p s \<noteq> [] \<and> last (dropWhile p s) = last s"
  by (induction s) (auto split: if_splits)

lemma last_collapse: "s \<noteq> [] \<Longrightarrow> \<not> p (last s) \<Longrightarrow> last (collapse p s) = last s"
proof (induction p s rule: collapse.induct)
  case (2 p c cs)
  show ?case
  proof (cases "cs = []")
    case False
    with 2 have "\<not> p (last cs)" by simp
    with False last_dropWhile [of cs p] 2 show ?thesis by (cases "p c") auto
  qed (use 2 in simp)
qed simp

text \<open>Trimmed text stays trimmed when its runs are collapsed.\<close>

lemma strip_collapse_strip: "strip_by p (collapse p (strip_by p s)) = collapse p (strip_by p s)"
proof (cases "strip_by p s")
  case Nil
  then show ?thesis by simp
next
  case (Cons c cs)
  then have "\<not> p c" "\<not> p (last (c # cs))" using strip_by_hd [of p s] strip_by_last [of p s] by auto
  moreover from this have "last (collapse p (c # cs)) = last (c # cs)" by (intro last_collapse) auto
  ultimately show ?thesis using Cons by (intro strip_by_fixed) auto
qed

lemma collapse_strip_idem:
  "p 32 \<Longrightarrow> collapse p (strip_by p (collapse p (strip_by p s))) = collapse p (strip_by p s)"
  by (simp add: strip_collapse_strip collapse_idem)

section \<open>Lemmas on decomposition and marks\<close>

lemma filter_sort_key_zero:
  "\<forall>x \<in> set xs. \<not> P x \<Longrightarrow> filter P (sort_key f xs) = []"
  by (simp add: filter_empty_conv)

lemma filter_canonical_order:
  "filter (\<lambda>c. ccc c = 0) (canonical_order ccc s) = filter (\<lambda>c. ccc c = 0) s"
proof (induction ccc s rule: canonical_order.induct)
  case (1 ccc)
  show ?case by simp
next
  case (2 ccc c cs)
  have "filter (\<lambda>c. ccc c = 0) cs = filter (\<lambda>c. ccc c = 0) (dropWhile (\<lambda>x. ccc x \<noteq> 0) cs)"
    by (induction cs) auto
  moreover have "filter (\<lambda>c. ccc c = 0) (sort_key ccc (c # takeWhile (\<lambda>x. ccc x \<noteq> 0) cs)) = []"
    if "ccc c \<noteq> 0"
    using that by (intro filter_sort_key_zero) (auto dest: set_takeWhileD)
  ultimately show ?case using 2 by (cases "ccc c = 0") simp_all
qed

text \<open>Dropping the combining marks makes the canonical ordering invisible.\<close>

lemma drop_marks_nfkd:
  "drop_marks u (nfkd u s) = drop_marks u (concat (map (ucd_decomp u) s))"
  by (simp add: drop_marks_def nfkd_def filter_canonical_order)

section \<open>What the standard fixes for ASCII\<close>

definition ascii_lower :: "nat \<Rightarrow> nat" where
  "ascii_lower c = (if 65 \<le> c \<and> c \<le> 90 then c + 32 else c)"

definition is_ascii :: "pystr \<Rightarrow> bool" where
  "is_ascii s \<longleftrightarrow> (\<forall>c \<in> set s. c < 128)"

locale ascii_tables =
  fixes u :: ucd
  assumes fold_ascii: "c < 128 \<Longrightarrow> ucd_fold u c = [ascii_lower c]"
    and lower_ascii: "c < 128 \<Longrightarrow> ucd_lower u bs c as = [ascii_lower c]"
    and decomp_ascii: "c < 128 \<Longrightarrow> ucd_decomp u c = [c]"
    and ccc_ascii: "c < 128 \<Longrightarrow> ucd_ccc u c = 0"
    and digit_ascii: "c < 128 \<Longrightarrow> ucd_digit u c = (if 48 \<le> c \<and> c \<le> 57 then Some (c - 48) else None)"
begin

lemma casefold_of_ascii: "is_ascii s \<Longrightarrow> casefold u s = map ascii_lower s"
  by (induction s) (simp_all add: casefold_def is_ascii_def fold_ascii)

lemma lower_from_of_ascii: "is_ascii s \<Longrightarrow> lower_from u bs s = map ascii_lower s"
  by (induction s arbitrary: bs) (simp_all add: is_ascii_def lower_ascii)

lemma lower_of_ascii: "is_ascii s \<Longrightarrow> lower u s = map ascii_lower s"
  by (simp add: lower_def lower_from_of_ascii)

lemma decomp_of_ascii: "is_ascii s \<Longrightarrow> concat (map (ucd_decomp u) s) = s"
  by (induction s) (simp_all add: is_ascii_def decomp_ascii)

lemma marks_of_ascii: "is_ascii s \<Longrightarrow> drop_marks u (nfkd u s) = s"
  by (simp add: drop_marks_nfkd decomp_of_ascii)
    (auto simp: drop_marks_def filter_id_conv is_ascii_def ccc_ascii)

end

section \<open>The Latin-1 tables\<close>

definition latin_fold :: "nat \<Rightarrow> nat list" where
  "latin_fold c =
     (if 65 \<le> c \<and> c \<le> 90 then [c + 32]
      else if c = 181 then [956]
      else if 192 \<le> c \<and> c \<le> 222 \<and> c \<noteq> 215 then [c + 32]
      else if c = 223 then [115, 115] else [c])"

definition latin_lower :: "nat list \<Rightarrow> nat \<Rightarrow> nat list \<Rightarrow> nat list" where
  "latin_lower before c after =
     (if 65 \<le> c \<and> c \<le> 90 \<or> 192 \<le> c \<and> c \<le> 222 \<and> c \<noteq> 215 then [c + 32] else [c])"

definition latin_decomp :: "nat \<Rightarrow> nat list" where
  "latin_decomp c =
     (case map_of
        [(160, [32]), (168, [32, 776]), (170, [97]), (175, [32, 772]), (178, [50]), (179, [51]),
         (180, [32, 769]), (181, [956]), (184, [32, 807]), (185, [49]), (186, [111]),
         (188, [49, 8260, 52]), (189, [49, 8260, 50]), (190, [51, 8260, 52]),
         (192, [65, 768]), (193, [65, 769]), (194, [65, 770]), (195, [65, 771]), (196, [65, 776]),
         (197, [65, 778]), (199, [67, 807]), (200, [69, 768]), (201, [69, 769]), (202, [69, 770]),
         (203, [69, 776]), (204, [73, 768]), (205, [73, 769]), (206, [73, 770]), (207, [73, 776]),
         (209, [78, 771]), (210, [79, 768]), (211, [79, 769]), (212, [79, 770]), (213, [79, 771]),
         (214, [79, 776]), (217, [85, 768]), (218, [85, 769]), (219, [85, 770]), (220, [85, 776]),
         (221, [89, 769]), (224, [97, 768]), (225, [97, 769]), (226, [97, 770]), (227, [97, 771]),
         (228, [97, 776]), (229, [97, 778]), (231, [99, 807]), (232, [101, 768]), (233, [101, 769]),
         (234, [101, 770]), (235, [101, 776]), (236, [105, 768]), (237, [105, 769]),
         (238, [105, 770]), (239, [105, 776]), (241, [110, 771]), (242, [111, 768]),
         (243, [111, 769]), (244, [111, 770]), (245, [111, 771]), (246, [111, 776]),
         (249, [117, 768]), (250, [117, 769]), (251, [117, 770]), (252, [117, 776]),
         (253, [121, 769]), (255, [121, 776])] c
      of Some ds \<Rightarrow> ds | None \<Rightarrow> [c])"

definition latin_ccc :: "nat \<Rightarrow> nat" where
  "latin_ccc c = (if c = 807 then 202 else if 768 \<le> c \<and> c \<le> 788 then 230 else 0)"

definition latin_word :: "nat \<Rightarrow> bool" where
  "latin_word c \<longleftrightarrow> (48 \<le> c \<and> c \<le> 57) \<or> (65 \<le> c \<and> c \<le> 90) \<or> c = 95 \<or> (97 \<le> c \<and> c \<le> 122)
     \<or> c = 170 \<or> c = 178 \<or> c = 179 \<or> c = 181 \<or> c = 185 \<or> c = 186 \<or> (188 \<le> c \<and> c \<le> 190)
     \<or> (192 \<le> c \<and> c \<le> 255 \<and> c \<noteq> 215 \<and> c \<noteq> 247) \<or> c = 956"

definition latin_digit :: "nat \<Rightarrow> nat option" where
  "latin_digit c = (if 48 \<le> c \<and> c \<le> 57 then Some (c - 48) else None)"

definition latin_ucd :: ucd where
  "latin_ucd = \<lparr>ucd_fold = latin_fold, ucd_lower = latin_lower, ucd_decomp = latin_decomp,
     ucd_ccc = latin_ccc, ucd_word = latin_word, ucd_digit = latin_digit\<rparr>"

lemma latin_ucd_sel [simp]:
  "ucd_fold latin_ucd = latin_fold" "ucd_lower latin_ucd = latin_lower"
  "ucd_decomp latin_ucd = latin_decomp" "ucd_ccc latin_ucd = latin_ccc"
  "ucd_word latin_ucd = latin_word" "ucd_digit latin_ucd = latin_digit"
  by (simp_all add: latin_ucd_def)

interpretation latin: ascii_tables latin_ucd
proof
  fix c :: nat and bs as :: "nat list"
  assume c: "c < 128"
  show "ucd_fold latin_ucd c = [ascii_lower c]" "ucd_lower latin_ucd bs c as = [ascii_lower c]"
    using c by (auto simp: latin_fold_def latin_lower_def ascii_lower_def)
  show "ucd_decomp latin_ucd c = [c]"
    using c by (auto simp: latin_decomp_def split: option.splits if_splits)
  show "ucd_ccc latin_ucd c = 0"
    using c by (simp add: latin_ccc_def)
  show "ucd_digit latin_ucd c = (if 48 \<le> c \<and> c \<le> 57 then Some (c - 48) else None)"
    using c by (simp add: latin_digit_def)
qed

end
