(* ===== verification/Utf8.thy ===== *)
theory Utf8
  imports PyText
begin

text \<open>
  UTF-8 as Python decodes it with \<open>errors="replace"\<close> and encodes it, and that what is encoded decodes
  back.
\<close>

section \<open>Decoding\<close>

definition replacement :: nat where "replacement = 65533"

text \<open>
  UTF-8: the lead byte fixes how many bytes follow and the range of the first of them; an ill-formed
  sequence gives one replacement character for its longest well-formed start.
\<close>

definition utf8_lead :: "nat \<Rightarrow> (nat \<times> nat \<times> nat \<times> nat) option" where
  "utf8_lead b =
     (if 194 \<le> b \<and> b \<le> 223 then Some (1, 128, 191, b - 192)
      else if b = 224 then Some (2, 160, 191, 0)
      else if b = 237 then Some (2, 128, 159, 13)
      else if 225 \<le> b \<and> b \<le> 239 then Some (2, 128, 191, b - 224)
      else if b = 240 then Some (3, 144, 191, 0)
      else if b = 244 then Some (3, 128, 143, 4)
      else if 241 \<le> b \<and> b \<le> 243 then Some (3, 128, 191, b - 240)
      else None)"

fun utf8_rest :: "nat \<Rightarrow> nat \<Rightarrow> nat \<Rightarrow> nat \<Rightarrow> nat list \<Rightarrow> nat \<times> nat list" where
  "utf8_rest 0 lo hi acc bs = (acc, bs)"
| "utf8_rest (Suc n) lo hi acc [] = (replacement, [])"
| "utf8_rest (Suc n) lo hi acc (b # bs) =
     (if lo \<le> b \<and> b \<le> hi then utf8_rest n 128 191 (acc * 64 + (b - 128)) bs else (replacement, b # bs))"

lemma utf8_rest_shorter: "length (snd (utf8_rest n lo hi acc bs)) \<le> length bs"
  by (induction n lo hi acc bs rule: utf8_rest.induct) auto

function utf8_decode :: "nat list \<Rightarrow> pystr" where
  "utf8_decode [] = []"
| "utf8_decode (b # bs) =
     (if b < 128 then b # utf8_decode bs
      else case utf8_lead b of
             None \<Rightarrow> replacement # utf8_decode bs
           | Some (n, lo, hi, acc) \<Rightarrow> (case utf8_rest n lo hi acc bs of (c, rest) \<Rightarrow> c # utf8_decode rest))"
  by pat_completeness auto
termination
proof (relation "measure length", simp_all)
  fix bs :: "nat list" and n lo hi acc c rest
  assume "(c, rest) = utf8_rest n lo hi acc bs"
  then show "length rest < Suc (length bs)" using utf8_rest_shorter [of n lo hi acc bs] by (metis le_imp_less_Suc snd_conv)
qed

section \<open>Encoding\<close>

definition utf8_char :: "nat \<Rightarrow> nat list" where
  "utf8_char c =
     (if c < 128 then [c]
      else if c < 2048 then [192 + c div 64, 128 + c mod 64]
      else if c < 65536 then [224 + c div 4096, 128 + c div 64 mod 64, 128 + c mod 64]
      else [240 + c div 262144, 128 + c div 4096 mod 64, 128 + c div 64 mod 64, 128 + c mod 64])"

definition utf8_encode :: "pystr \<Rightarrow> nat list" where
  "utf8_encode s = concat (map utf8_char s)"

definition scalar :: "nat \<Rightarrow> bool" where
  "scalar c \<longleftrightarrow> c < 1114112 \<and> \<not> (55296 \<le> c \<and> c \<le> 57343)"

text \<open>\<open>str.encode("utf-8")\<close>; a lone surrogate has no encoding.\<close>

definition utf8_strict :: "pystr \<Rightarrow> nat list option" where
  "utf8_strict s = (if list_all scalar s then Some (utf8_encode s) else None)"

section \<open>Encoding decodes back\<close>

lemma utf8_decode_ascii: "\<forall>b \<in> set bs. b < 128 \<Longrightarrow> utf8_decode bs = bs"
  by (induction bs) auto

lemma utf8_decode_ascii_append: "\<forall>b \<in> set bs. b < 128 \<Longrightarrow> utf8_decode (bs @ cs) = bs @ utf8_decode cs"
  by (induction bs) auto

lemma utf8_step:
  "128 \<le> b \<Longrightarrow> utf8_lead b = Some (n, lo, hi, acc) \<Longrightarrow> utf8_rest n lo hi acc bs = (c, rest)
    \<Longrightarrow> utf8_decode (b # bs) = c # utf8_decode rest"
  by simp

lemma utf8_two:
  assumes "128 \<le> c" "c < 2048"
  shows "utf8_decode ((192 + c div 64) # (128 + c mod 64) # bs) = c # utf8_decode bs"
proof -
  define a b where "a = c div 64" and "b = c mod 64"
  have c: "c = a * 64 + b" by (simp add: a_def b_def)
  have r: "2 \<le> a" "a < 32" "b < 64" using assms by (auto simp: a_def b_def)
  have lead: "utf8_lead (192 + a) = Some (1, 128, 191, a)" using r by (simp add: utf8_lead_def)
  have rest: "utf8_rest 1 128 191 a ((128 + b) # bs) = (c, bs)" using r by (simp add: c)
  show ?thesis
    unfolding a_def [symmetric] b_def [symmetric] by (rule utf8_step [OF _ lead rest]) simp
qed

lemma utf8_three:
  assumes "2048 \<le> c" "c < 65536" "scalar c"
  shows "utf8_decode ((224 + c div 4096) # (128 + c div 64 mod 64) # (128 + c mod 64) # bs) = c # utf8_decode bs"
proof -
  define a b d where "a = c div 4096" and "b = c div 64 mod 64" and "d = c mod 64"
  have "c div 4096 = c div 64 div 64" by (simp flip: div_mult2_eq)
  then have "a * 64 + b = c div 64" by (simp add: a_def b_def)
  then have c: "c = (a * 64 + b) * 64 + d" by (simp add: d_def)
  have r: "a < 16" "b < 64" "d < 64" using assms(2) by (auto simp: a_def b_def d_def)
  have lo: "a = 0 \<Longrightarrow> 32 \<le> b" using assms(1) r c by simp
  have hi: "a = 13 \<Longrightarrow> b < 32" using assms(3) r c by (auto simp: scalar_def)
  define l h where "l = (if a = 0 then 160 else 128 :: nat)" and "h = (if a = 13 then 159 else 191 :: nat)"
  have lead: "utf8_lead (224 + a) = Some (Suc (Suc 0), l, h, a)"
    using r(1) by (auto simp: utf8_lead_def l_def h_def)
  have lh: "l \<le> 128 + b" "128 + b \<le> h" using r lo hi by (auto simp: l_def h_def)
  then have rest: "utf8_rest (Suc (Suc 0)) l h a ((128 + b) # (128 + d) # bs) = (c, bs)" using r by (simp add: c)
  show ?thesis
    unfolding a_def [symmetric] b_def [symmetric] d_def [symmetric] by (rule utf8_step [OF _ lead rest]) simp
qed

lemma utf8_four:
  assumes "65536 \<le> c" "c < 1114112"
  shows "utf8_decode ((240 + c div 262144) # (128 + c div 4096 mod 64) # (128 + c div 64 mod 64) # (128 + c mod 64) # bs)
    = c # utf8_decode bs"
proof -
  define a b d e where "a = c div 262144" and "b = c div 4096 mod 64" and "d = c div 64 mod 64" and "e = c mod 64"
  have "c div 262144 = c div 64 div 64 div 64" "c div 4096 = c div 64 div 64" by (simp_all flip: div_mult2_eq)
  then have "a * 64 + b = c div 64 div 64" by (simp add: a_def b_def)
  then have "(a * 64 + b) * 64 + d = c div 64" by (simp add: d_def)
  then have c: "c = ((a * 64 + b) * 64 + d) * 64 + e" by (simp add: e_def)
  have r: "a < 5" "b < 64" "d < 64" "e < 64" using assms(2) by (auto simp: a_def b_def d_def e_def)
  have lo: "a = 0 \<Longrightarrow> 16 \<le> b" using assms(1) r c by simp
  have hi: "a = 4 \<Longrightarrow> b < 16" using assms(2) r c by simp
  define l h where "l = (if a = 0 then 144 else 128 :: nat)" and "h = (if a = 4 then 143 else 191 :: nat)"
  have lead: "utf8_lead (240 + a) = Some (Suc (Suc (Suc 0)), l, h, a)"
    using r(1) by (auto simp: utf8_lead_def l_def h_def)
  have lh: "l \<le> 128 + b" "128 + b \<le> h" using r lo hi by (auto simp: l_def h_def)
  then have rest: "utf8_rest (Suc (Suc (Suc 0))) l h a ((128 + b) # (128 + d) # (128 + e) # bs) = (c, bs)"
    using r by (simp add: c)
  show ?thesis
    unfolding a_def [symmetric] b_def [symmetric] d_def [symmetric] e_def [symmetric]
    by (rule utf8_step [OF _ lead rest]) simp
qed

lemma utf8_decode_char: "scalar c \<Longrightarrow> utf8_decode (utf8_char c @ bs) = c # utf8_decode bs"
  using utf8_two [of c bs] utf8_three [of c bs] utf8_four [of c bs]
  by (auto simp: utf8_char_def scalar_def simp del: utf8_decode.simps(2)) simp

lemma utf8_decode_encode_append:
  "\<forall>c \<in> set s. scalar c \<Longrightarrow> utf8_decode (utf8_encode s @ bs) = s @ utf8_decode bs"
  by (induction s) (simp_all add: utf8_encode_def utf8_decode_char del: utf8_decode.simps(2))

lemma utf8_decode_encode: "\<forall>c \<in> set s. scalar c \<Longrightarrow> utf8_decode (utf8_encode s) = s"
  using utf8_decode_encode_append [of s "[]"] by simp

lemma utf8_strict_back: "utf8_strict s = Some bs \<Longrightarrow> utf8_decode bs = s"
  by (auto simp: utf8_strict_def list_all_iff utf8_decode_encode split: if_splits)

end
