(* ===== verification/PyDate.thy ===== *)
theory PyDate
  imports PyText
begin

text \<open>
  \<open>datetime.date\<close>: the proleptic Gregorian calendar from 0001-01-01 to 9999-12-31.
  A date is its year, month and day; \<open>valid_date\<close> is the constructor's check; comparison is
  lexicographic; \<open>toordinal\<close> and \<open>weekday\<close> are the library's formulas;
  \<open>next_day\<close> is \<open>day + timedelta(days=1)\<close>, whose \<open>None\<close> is the
  \<open>OverflowError\<close> past 9999-12-31. The locale \<open>day_line\<close> is what date arithmetic
  relies on of a calendar: a successor that walks the ordinals one by one.
\<close>

datatype date = Date (d_year: int) (d_month: int) (d_day: int)

instantiation date :: linorder
begin

definition less_eq_date :: "date \<Rightarrow> date \<Rightarrow> bool" where
  "less_eq_date a b \<longleftrightarrow> d_year a < d_year b \<or> d_year a = d_year b \<and>
     (d_month a < d_month b \<or> d_month a = d_month b \<and> d_day a \<le> d_day b)"

definition less_date :: "date \<Rightarrow> date \<Rightarrow> bool" where
  "less_date a b \<longleftrightarrow> d_year a < d_year b \<or> d_year a = d_year b \<and>
     (d_month a < d_month b \<or> d_month a = d_month b \<and> d_day a < d_day b)"

instance
  by standard (auto simp: less_eq_date_def less_date_def date.expand)

end

definition leap :: "int \<Rightarrow> bool" where
  "leap y \<longleftrightarrow> y mod 4 = 0 \<and> (y mod 100 \<noteq> 0 \<or> y mod 400 = 0)"

definition days_in_month :: "int \<Rightarrow> int \<Rightarrow> int" where
  "days_in_month y m =
     (if m = 2 then (if leap y then 29 else 28)
      else if m = 4 \<or> m = 6 \<or> m = 9 \<or> m = 11 then 30 else 31)"

definition valid_date :: "date \<Rightarrow> bool" where
  "valid_date d \<longleftrightarrow> 1 \<le> d_year d \<and> d_year d \<le> 9999 \<and> 1 \<le> d_month d \<and> d_month d \<le> 12
     \<and> 1 \<le> d_day d \<and> d_day d \<le> days_in_month (d_year d) (d_month d)"

definition days_before_year :: "int \<Rightarrow> int" where
  "days_before_year y = (y - 1) * 365 + (y - 1) div 4 - (y - 1) div 100 + (y - 1) div 400"

definition days_before_month :: "int \<Rightarrow> int \<Rightarrow> int" where
  "days_before_month y m =
     (if m \<le> 1 then 0 else if m = 2 then 31 else
      (if m = 3 then 59 else if m = 4 then 90 else if m = 5 then 120 else if m = 6 then 151
       else if m = 7 then 181 else if m = 8 then 212 else if m = 9 then 243
       else if m = 10 then 273 else if m = 11 then 304 else 334) + (if leap y then 1 else 0))"

definition toordinal :: "date \<Rightarrow> int" where
  "toordinal d = days_before_year (d_year d) + days_before_month (d_year d) (d_month d) + d_day d"

definition weekday :: "date \<Rightarrow> int" where
  "weekday d = (toordinal d + 6) mod 7"

definition next_day :: "date \<Rightarrow> date option" where
  "next_day d =
     (if d_day d < days_in_month (d_year d) (d_month d)
        then Some (Date (d_year d) (d_month d) (d_day d + 1))
      else if d_month d < 12 then Some (Date (d_year d) (d_month d + 1) 1)
      else if d_year d < 9999 then Some (Date (d_year d + 1) 1 1)
      else None)"

definition max_date :: date where
  "max_date = Date 9999 12 31"

text \<open>What is left of the calendar after a date, for the termination of day loops.\<close>

definition days_left :: "date \<Rightarrow> nat \<times> nat \<times> nat" where
  "days_left d = (nat (9999 - d_year d), nat (12 - d_month d),
     nat (days_in_month (d_year d) (d_month d) - d_day d))"

lemma next_day_left:
  "next_day d = Some e \<Longrightarrow> (days_left e, days_left d) \<in> less_than <*lex*> less_than <*lex*> less_than"
  by (auto simp: next_day_def days_left_def split: if_splits)

section \<open>The successor walks the ordinals\<close>

lemma div_pred:
  fixes y k :: int
  assumes "0 < k"
  shows "y div k = (y - 1) div k + (if y mod k = 0 then 1 else 0)"
proof -
  define q r where "q = (y - 1) div k" and "r = (y - 1) mod k"
  have y: "y = k * q + (r + 1)" and r: "0 \<le> r" "r < k"
    using assms by (simp_all add: q_def r_def)
  show ?thesis
  proof (cases "r + 1 = k")
    case True
    with y have y': "y = k * (q + 1)" by (simp add: algebra_simps)
    with assms have "y div k = q + 1" "y mod k = 0" by simp_all
    then show ?thesis by (simp add: q_def)
  next
    case False
    with r have "0 \<le> r + 1" "r + 1 < k" by simp_all
    with y assms have "y div k = q" "y mod k = r + 1"
      by (simp_all add: int_div_pos_eq int_mod_pos_eq)
    with r show ?thesis by (simp flip: q_def)
  qed
qed

lemma month_cases:
  "1 \<le> (m::int) \<Longrightarrow> m \<le> 12 \<Longrightarrow> m = 1 \<or> m = 2 \<or> m = 3 \<or> m = 4 \<or> m = 5 \<or> m = 6
     \<or> m = 7 \<or> m = 8 \<or> m = 9 \<or> m = 10 \<or> m = 11 \<or> m = 12"
proof -
  assume "1 \<le> m" "m \<le> 12"
  then have "m \<in> {1..12}" by simp
  also have "{1..12} = {1,2,3,4,5,6,7,8,9,10,11,12::int}" by (auto simp: simp_from_to)
  finally show ?thesis by simp
qed

lemma leap_mods: "(y::int) mod 400 = 0 \<Longrightarrow> y mod 100 = 0" "(y::int) mod 100 = 0 \<Longrightarrow> y mod 4 = 0"
  using dvd_trans [of 100 400 y] dvd_trans [of 4 100 y] by (auto simp flip: dvd_eq_mod_eq_0)

lemma days_before_year_Suc:
  "days_before_year (y + 1) = days_before_year y + 365 + (if leap y then 1 else 0)"
proof -
  define a b c where "a = (y - 1) div 4" and "b = (y - 1) div 100" and "c = (y - 1) div 400"
  have q: "y div 4 = a + (if y mod 4 = 0 then 1 else 0)"
    "y div 100 = b + (if y mod 100 = 0 then 1 else 0)"
    "y div 400 = c + (if y mod 400 = 0 then 1 else 0)"
    unfolding a_def b_def c_def by (rule div_pred, simp)+
  have "days_before_year (y + 1) = y * 365 + y div 4 - y div 100 + y div 400"
    "days_before_year y = (y - 1) * 365 + a - b + c"
    unfolding days_before_year_def a_def b_def c_def by simp_all
  then show ?thesis
    using leap_mods [of y] unfolding q leap_def
    by (cases "y mod 4 = 0"; cases "y mod 100 = 0"; cases "y mod 400 = 0"; simp)
qed

lemma days_before_month_Suc:
  assumes "1 \<le> m" "m < 12"
  shows "days_before_month y (m + 1) = days_before_month y m + days_in_month y m"
proof -
  from assms have "m \<le> 12" by simp
  from month_cases [OF assms(1) this] assms(2) show ?thesis
    by (elim disjE) (simp_all add: days_before_month_def days_in_month_def)
qed

lemma days_before_month_12: "days_before_month y 12 + 31 = 365 + (if leap y then 1 else 0)"
  by (simp add: days_before_month_def)

lemma days_in_month_ge: "28 \<le> days_in_month y m" "days_in_month y m \<le> 31"
  by (auto simp: days_in_month_def)

lemma valid_next_day:
  assumes "valid_date d" "next_day d = Some e"
  shows "valid_date e"
  using assms days_in_month_ge(1)[of "d_year d" "d_month d + 1"] days_in_month_ge(1)[of "d_year d + 1" 1]
  by (auto simp: next_day_def valid_date_def split: if_splits)

lemma toordinal_next_day:
  assumes "valid_date d" "next_day d = Some e"
  shows "toordinal e = toordinal d + 1"
proof -
  obtain y m k where d: "d = Date y m k" by (cases d)
  from assms d have v: "1 \<le> m" "m \<le> 12" "1 \<le> k" "k \<le> days_in_month y m"
    by (auto simp: valid_date_def)
  consider "k < days_in_month y m" | "k = days_in_month y m" "m < 12"
    | "k = days_in_month y m" "m = 12"
    using v by linarith
  then show ?thesis
  proof cases
    case 1
    then show ?thesis using assms(2) d by (auto simp: next_day_def toordinal_def)
  next
    case 2
    then show ?thesis using assms(2) d v
      by (auto simp: next_day_def toordinal_def days_before_month_Suc split: if_splits)
  next
    case 3
    then have "e = Date (y + 1) 1 1" "k = 31"
      using assms(2) d by (auto simp: next_day_def days_in_month_def split: if_splits)
    then show ?thesis using d 3 days_before_month_12 [of y]
      by (simp add: toordinal_def days_before_year_Suc days_before_month_def)
  qed
qed

lemma next_day_None: "valid_date d \<Longrightarrow> next_day d = None \<Longrightarrow> d = max_date"
  by (cases d) (auto simp: next_day_def valid_date_def max_date_def days_in_month_def split: if_splits)

lemma next_day_max: "next_day max_date = None"
  by (simp add: next_day_def max_date_def days_in_month_def)

section \<open>Order and ordinals agree\<close>

lemma days_before_year_mono: "a < b \<Longrightarrow> days_before_year a + 365 + (if leap a then 1 else 0) \<le> days_before_year b"
proof (induction "nat (b - a)" arbitrary: b)
  case 0
  then show ?case by simp
next
  case (Suc n)
  show ?case
  proof (cases "b = a + 1")
    case True
    then show ?thesis by (simp add: days_before_year_Suc)
  next
    case False
    with Suc have "days_before_year a + 365 + (if leap a then 1 else 0) \<le> days_before_year (b - 1)"
      by (intro Suc.hyps) auto
    with days_before_year_Suc [of "b - 1"] show ?thesis by simp
  qed
qed

lemma days_before_month_mono:
  assumes "1 \<le> a" "a < b" "b \<le> 12"
  shows "days_before_month y a + days_in_month y a \<le> days_before_month y b"
proof -
  have step: "1 \<le> c \<Longrightarrow> c < 12 \<Longrightarrow> days_before_month y c \<le> days_before_month y (c + 1)" for c
    using days_in_month_ge(1) [of y c] by (simp add: days_before_month_Suc)
  have "days_before_month y (a + 1) \<le> days_before_month y (a + 1 + int n)"
    if "a + 1 + int n \<le> 12" for n
    using that
  proof (induction n)
    case (Suc n)
    then show ?case using step [of "a + 1 + int n"] assms(1) by (simp add: algebra_simps)
  qed simp
  from this [of "nat (b - (a + 1))"] assms show ?thesis
    by (simp add: days_before_month_Suc)
qed

lemma day_of_year_bounds:
  assumes "valid_date d"
  shows "1 \<le> days_before_month (d_year d) (d_month d) + d_day d"
    and "days_before_month (d_year d) (d_month d) + d_day d \<le> 365 + (if leap (d_year d) then 1 else 0)"
proof -
  from assms have v: "1 \<le> d_month d" "d_month d \<le> 12" "1 \<le> d_day d"
    "d_day d \<le> days_in_month (d_year d) (d_month d)"
    by (simp_all add: valid_date_def)
  have "days_before_month y m + days_in_month y m \<le> days_before_month y 12 + 31"
    if "1 \<le> m" "m \<le> 12" for y m
    using that days_before_month_mono [of m 12 y] days_in_month_ge(2) [of y m]
    by (cases "m = 12") auto
  from this [OF v(1,2), of "d_year d"] v
  show "days_before_month (d_year d) (d_month d) + d_day d \<le> 365 + (if leap (d_year d) then 1 else 0)"
    using days_before_month_12 [of "d_year d"] by simp
  have "0 \<le> days_before_month y m" for y m
    by (simp add: days_before_month_def)
  with v show "1 \<le> days_before_month (d_year d) (d_month d) + d_day d"
    by (simp add: add_nonneg_pos order_trans [OF _ add_increasing])
qed

lemma toordinal_less:
  assumes "valid_date a" "valid_date b" "a < b"
  shows "toordinal a < toordinal b"
proof -
  consider "d_year a < d_year b" | "d_year a = d_year b" "d_month a < d_month b"
    | "d_year a = d_year b" "d_month a = d_month b" "d_day a < d_day b"
    using assms(3) by (auto simp: less_date_def)
  then show ?thesis
  proof cases
    case 1
    with days_before_year_mono [of "d_year a" "d_year b"] day_of_year_bounds [OF assms(1)]
      day_of_year_bounds [OF assms(2)]
    show ?thesis by (simp add: toordinal_def)
  next
    case 2
    with assms days_before_month_mono [of "d_month a" "d_month b" "d_year a"]
    show ?thesis by (auto simp: toordinal_def valid_date_def)
  next
    case 3
    then show ?thesis by (simp add: toordinal_def)
  qed
qed

lemma toordinal_less_iff:
  "valid_date a \<Longrightarrow> valid_date b \<Longrightarrow> toordinal a < toordinal b \<longleftrightarrow> a < b"
  using toordinal_less [of a b] toordinal_less [of b a] by (metis less_linear order_less_asym)

lemma toordinal_inj: "valid_date a \<Longrightarrow> valid_date b \<Longrightarrow> toordinal a = toordinal b \<Longrightarrow> a = b"
  using toordinal_less [of a b] toordinal_less [of b a] by (metis less_linear order_less_irrefl)

lemma le_max_date: "valid_date d \<Longrightarrow> d \<le> max_date"
  by (auto simp: valid_date_def less_eq_date_def max_date_def days_in_month_def split: if_splits)

lemma valid_max_date: "valid_date max_date"
  by (simp add: valid_date_def max_date_def days_in_month_def)

section \<open>The interface of day arithmetic\<close>

text \<open>
  A line of days: \<open>ok\<close> days have ordinals, order and ordinals agree, and the successor of
  a day is the next ordinal; only the last day has none. Counting loops rest on this alone.
\<close>

locale day_line =
  fixes nxt :: "'d::linorder \<Rightarrow> 'd option"
    and ord :: "'d \<Rightarrow> int"
    and ok :: "'d \<Rightarrow> bool"
    and final :: 'd
  assumes ok_next: "ok d \<Longrightarrow> nxt d = Some e \<Longrightarrow> ok e"
    and ord_next: "ok d \<Longrightarrow> nxt d = Some e \<Longrightarrow> ord e = ord d + 1"
    and ord_less: "ok d \<Longrightarrow> ok e \<Longrightarrow> ord d < ord e \<longleftrightarrow> d < e"
    and next_None: "ok d \<Longrightarrow> nxt d = None \<Longrightarrow> d = final"
    and ok_final: "ok final"
    and le_final: "ok d \<Longrightarrow> d \<le> final"
begin

lemma ord_eq: "ok d \<Longrightarrow> ok e \<Longrightarrow> ord d = ord e \<longleftrightarrow> d = e"
  by (metis less_irrefl linorder_neqE ord_less)

lemma next_greater: "ok d \<Longrightarrow> nxt d = Some e \<Longrightarrow> d < e"
  using ord_next ok_next ord_less by (metis less_add_one)

lemma next_is_next: "ok d \<Longrightarrow> nxt d = Some e \<Longrightarrow> ok x \<Longrightarrow> d < x \<longleftrightarrow> e \<le> x"
proof -
  assume d: "ok d" "nxt d = Some e" and x: "ok x"
  have "d < x \<longleftrightarrow> ord d < ord x" using d x by (simp add: ord_less)
  also have "\<dots> \<longleftrightarrow> \<not> ord x < ord e" using ord_next [OF d] by linarith
  also have "\<dots> \<longleftrightarrow> e \<le> x" using d x by (simp add: ord_less ok_next not_less)
  finally show ?thesis .
qed

lemma next_exists: "ok d \<Longrightarrow> ok x \<Longrightarrow> d < x \<Longrightarrow> \<exists>e. nxt d = Some e"
  using next_None le_final by (metis leD not_None_eq)

text \<open>The days after \<open>a\<close> up to and including \<open>b\<close>.\<close>

definition span :: "'d \<Rightarrow> 'd \<Rightarrow> 'd set" where
  "span a b = {d. ok d \<and> a < d \<and> d \<le> b}"

lemma span_empty: "b \<le> a \<Longrightarrow> span a b = {}"
  by (auto simp: span_def)

lemma finite_span:
  assumes "ok a" "ok b"
  shows "finite (span a b)"
proof (rule finite_imageD)
  have "ord ` span a b \<subseteq> {ord a..ord b}"
  proof
    fix n assume "n \<in> ord ` span a b"
    then obtain d where d: "n = ord d" "ok d" "a < d" "d \<le> b" by (auto simp: span_def)
    with assms have "ord a < ord d" "\<not> ord b < ord d" by (auto simp: ord_less)
    with d show "n \<in> {ord a..ord b}" by simp
  qed
  then show "finite (ord ` span a b)" by (rule finite_subset) simp
  show "inj_on ord (span a b)" by (auto simp: inj_on_def span_def ord_eq)
qed

lemma span_next:
  assumes "ok a" "nxt a = Some e" "ok b" "e \<le> b"
  shows "span a b = insert e (span e b)"
  using assms next_is_next [OF assms(1,2)] ok_next [OF assms(1,2)]
  by (auto simp: span_def)

lemma card_span_next:
  assumes "ok a" "nxt a = Some e" "ok b" "e \<le> b"
  shows "card {d \<in> span a b. P d} = (if P e then 1 else 0) + card {d \<in> span e b. P d}"
proof -
  have "{d \<in> span a b. P d} = (if P e then insert e {d \<in> span e b. P d} else {d \<in> span e b. P d})"
    using span_next [OF assms] by auto
  moreover have "e \<notin> {d \<in> span e b. P d}" by (simp add: span_def)
  moreover have "finite {d \<in> span e b. P d}"
    using finite_span [OF ok_next [OF assms(1,2)] assms(3)] by simp
  ultimately show ?thesis by (cases "P e") simp_all
qed

lemma card_span_mono:
  assumes "ok a" "ok b" "ok c" "b \<le> c"
  shows "card {d \<in> span a b. P d} \<le> card {d \<in> span a c. P d}"
proof (rule card_mono)
  show "finite {d \<in> span a c. P d}" using finite_span [of a c] assms by simp
  show "{d \<in> span a b. P d} \<subseteq> {d \<in> span a c. P d}" using assms(4) by (auto simp: span_def)
qed

lemma card_span_less:
  assumes "ok a" "ok b" "ok c" "b < c" "a < c" "P c"
  shows "card {d \<in> span a b. P d} < card {d \<in> span a c. P d}"
proof (rule psubset_card_mono)
  show "finite {d \<in> span a c. P d}" using finite_span [of a c] assms by simp
  have "c \<in> {d \<in> span a c. P d}" "c \<notin> {d \<in> span a b. P d}" using assms by (auto simp: span_def)
  then show "{d \<in> span a b. P d} \<subset> {d \<in> span a c. P d}" using assms(4) by (auto simp: span_def)
qed

end

interpretation dates: day_line next_day toordinal valid_date max_date
  by unfold_locales
    (simp_all add: valid_next_day toordinal_next_day toordinal_less_iff next_day_None
      valid_max_date le_max_date)

section \<open>ISO text\<close>

definition digit2 :: "int \<Rightarrow> pystr" where
  "digit2 n = [48 + nat (n div 10 mod 10), 48 + nat (n mod 10)]"

definition digit4 :: "int \<Rightarrow> pystr" where
  "digit4 n = [48 + nat (n div 1000 mod 10), 48 + nat (n div 100 mod 10),
     48 + nat (n div 10 mod 10), 48 + nat (n mod 10)]"

definition isoformat :: "date \<Rightarrow> pystr" where
  "isoformat d = digit4 (d_year d) @ [45] @ digit2 (d_month d) @ [45] @ digit2 (d_day d)"

definition strftime_dmy :: "date \<Rightarrow> pystr" where
  "strftime_dmy d = digit2 (d_day d) @ [45] @ digit2 (d_month d) @ [45] @ digit4 (d_year d)"

definition ascii_digit :: "nat \<Rightarrow> bool" where
  "ascii_digit c \<longleftrightarrow> 48 \<le> c \<and> c \<le> 57"

fun digits_value :: "int \<Rightarrow> pystr \<Rightarrow> int" where
  "digits_value acc [] = acc"
| "digits_value acc (c # cs) = digits_value (acc * 10 + (int c - 48)) cs"

text \<open>\<open>date.fromisoformat\<close> on a ten-character \<open>YYYY-MM-DD\<close> text; \<open>None\<close> is its \<open>ValueError\<close>.\<close>

definition fromisoformat :: "pystr \<Rightarrow> date option" where
  "fromisoformat s =
     (let ds = take 4 s @ take 2 (drop 5 s) @ drop 8 s;
          d = Date (digits_value 0 (take 4 s)) (digits_value 0 (take 2 (drop 5 s)))
                (digits_value 0 (drop 8 s))
      in if length s = 10 \<and> s ! 4 = 45 \<and> s ! 7 = 45 \<and> (\<forall>c \<in> set ds. ascii_digit c) \<and> valid_date d
         then Some d else None)"

lemma digits_value_digit2: "0 \<le> n \<Longrightarrow> n < 100 \<Longrightarrow> digits_value 0 (digit2 n) = n"
proof -
  assume "0 \<le> n" "n < 100"
  then have "0 \<le> n div 10" "n div 10 < 10" by linarith+
  then have "n div 10 mod 10 = n div 10" by (simp only: mod_pos_pos_trivial)
  then have "(n div 10 mod 10) * 10 + n mod 10 = n" by (simp only: div_mult_mod_eq)
  moreover have "0 \<le> n div 10 mod 10" "0 \<le> n mod 10" by simp_all
  ultimately show ?thesis by (simp add: digit2_def)
qed

lemma digits_value_digit4: "0 \<le> n \<Longrightarrow> n < 10000 \<Longrightarrow> digits_value 0 (digit4 n) = n"
proof -
  assume n: "0 \<le> n" "n < 10000"
  define a b where "a = n div 10" and "b = n div 10 div 10"
  have q: "n div 100 = b" "n div 1000 = b div 10"
    by (simp_all add: b_def flip: zdiv_zmult2_eq)
  have "0 \<le> n div 1000"
    using n(1) by (simp only: pos_imp_zdiv_nonneg_iff zero_less_numeral)
  moreover have "n div 1000 < 10"
    using n(2) by linarith
  ultimately have "b div 10 mod 10 = b div 10"
    by (simp only: q(2) mod_pos_pos_trivial)
  then have "((b div 10 mod 10 * 10 + b mod 10) * 10 + a mod 10) * 10 + n mod 10 = n"
    by (simp only: a_def b_def div_mult_mod_eq)
  then show ?thesis
    by (simp add: digit4_def q flip: a_def)
qed

lemma digit_ascii [simp]: "c \<in> set (digit2 n) \<Longrightarrow> ascii_digit c" "c \<in> set (digit4 n) \<Longrightarrow> ascii_digit c"
  by (auto simp: digit2_def digit4_def ascii_digit_def nat_le_iff)

lemma length_digits [simp]: "length (digit2 n) = 2" "length (digit4 n) = 4"
  by (simp_all add: digit2_def digit4_def)

lemma isoformat_parts:
  "take 4 (isoformat d) = digit4 (d_year d)" "take 2 (drop 5 (isoformat d)) = digit2 (d_month d)"
  "drop 8 (isoformat d) = digit2 (d_day d)" "length (isoformat d) = 10"
  "isoformat d ! 4 = 45" "isoformat d ! 7 = 45"
  by (simp_all add: isoformat_def digit2_def digit4_def)

lemma fromisoformat_isoformat: "valid_date d \<Longrightarrow> fromisoformat (isoformat d) = Some d"
proof -
  assume v: "valid_date d"
  then have "0 \<le> d_year d" "d_year d < 10000" "0 \<le> d_month d" "d_month d < 100"
    "0 \<le> d_day d" "d_day d < 100"
    using days_in_month_ge(2) [of "d_year d" "d_month d"] by (auto simp: valid_date_def)
  then show ?thesis
    using v by (simp add: fromisoformat_def isoformat_parts digits_value_digit4 digits_value_digit2
        ball_Un Let_def)
qed

lemma fromisoformat_valid: "fromisoformat s = Some d \<Longrightarrow> valid_date d"
  by (auto simp: fromisoformat_def Let_def split: if_splits)

lemma set_isoformat: "c \<in> set (isoformat d) \<Longrightarrow> ascii_digit c \<or> c = 45"
  by (auto simp: isoformat_def)

end
