(* ===== verification/PmfField.thy ===== *)
theory PmfField
  imports Complex_Main PyDate
begin

text \<open>
  The cell values a worksheet or a database row holds, and the PMF-level part of
  \<open>transelec_ingestion/resumen_layout.py\<close>: \<open>_comparable\<close>,
  \<open>resolve_pmf_field\<close>, \<open>value_or_unread_text\<close> and the chronology rules. One field is
  resolved for one plan (PMF) from the rows that carry it; rows that disagree are a conflict and
  nothing is chosen.
\<close>

section \<open>Cell values\<close>

text \<open>
  A Python float is a finite rational, an infinity or a NaN; \<open>Time\<close> is hour, minute, second
  and microsecond; \<open>VDelta\<close> a duration in microseconds. The constructor is the value's type,
  so two values of different constructors are never the same dictionary key here, as in the
  source, which tags each key with its type name.
\<close>

datatype pyfloat = Fin rat | PosInf | NegInf | NaN

datatype pytime = Time nat nat nat nat

datatype pyval = VNone | VBool bool | VInt int | VFloat pyfloat | VStr pystr
  | VDate date | VDateTime date pytime | VTime pytime | VDelta int

definition is_blank :: "pyval \<Rightarrow> bool" where
  "is_blank v = (case v of VNone \<Rightarrow> True | VStr s \<Rightarrow> strip s = [] | _ \<Rightarrow> False)"

definition comparable_cell :: "pyval \<Rightarrow> pyval" where
  "comparable_cell v =
     (if is_blank v then VNone
      else case v of
        VStr s \<Rightarrow> VStr (strip s)
      | VDateTime d t \<Rightarrow> (if t = Time 0 0 0 0 then VDate d else v)
      | _ \<Rightarrow> v)"

section \<open>Resolving one field of one plan\<close>

datatype pmf_status = PValue | PBlank | PConflict

record pmf_variant =
  pv_value :: pyval
  pv_rows :: "int list"

record pmf_field_value =
  pf_status :: pmf_status
  pf_value :: pyval
  pf_rows :: "int list"
  pf_variants :: "pmf_variant list"

text \<open>
  A NaN equals only itself, so as a dictionary key each NaN of a table is a key of its own: its row
  stands for it. Every other key is the value with its type.
\<close>

type_synonym value_key = "pyval \<times> int option"

definition value_key :: "int \<times> pyval \<Rightarrow> value_key" where
  "value_key e = (let key = comparable_cell (snd e) in (key, if key = VFloat NaN then Some (fst e) else None))"

definition add_entry :: "(value_key, int list) pydict \<Rightarrow> int \<times> pyval \<Rightarrow> (value_key, int list) pydict" where
  "add_entry d e =
     (let key = value_key e in if fst key = VNone then d else dict_append key (fst e) d)"

definition rows_by_value :: "(int \<times> pyval) list \<Rightarrow> (value_key, int list) pydict" where
  "rows_by_value entries = foldl add_entry [] entries"

definition value_variants :: "(int \<times> pyval) list \<Rightarrow> pmf_variant list" where
  "value_variants entries =
     map (\<lambda>(key, rows). \<lparr>pv_value = fst key, pv_rows = sort rows\<rparr>)
       (sort_key (\<lambda>(key, rows). Min (set rows)) (rows_by_value entries))"

definition resolve_pmf_field :: "(int \<times> pyval) list \<Rightarrow> pmf_field_value" where
  "resolve_pmf_field entries =
     (let variants = value_variants entries
      in case variants of
        [] \<Rightarrow> \<lparr>pf_status = PBlank, pf_value = VNone, pf_rows = [], pf_variants = []\<rparr>
      | [only] \<Rightarrow> \<lparr>pf_status = PValue, pf_value = pv_value only, pf_rows = pv_rows only,
          pf_variants = variants\<rparr>
      | _ \<Rightarrow> \<lparr>pf_status = PConflict, pf_value = VNone,
          pf_rows = sort (concat (map pv_rows variants)), pf_variants = variants\<rparr>)"

section \<open>Text kept beside an unread date cell\<close>

text \<open>The persisted \<open>source_text_dates\<close>: field name to \<open>{"raw", "resolution", "parsed"}\<close>.\<close>

type_synonym evidence = "(string, pyval) pydict"
type_synonym text_dates = "(string, evidence) pydict"

definition ev_get :: "evidence \<Rightarrow> string \<Rightarrow> pyval" where
  "ev_get ev k = (case map_of ev k of None \<Rightarrow> VNone | Some v \<Rightarrow> v)"

definition value_or_unread_text :: "pyval \<Rightarrow> text_dates \<Rightarrow> string \<Rightarrow> pyval" where
  "value_or_unread_text v tds name =
     (if v = VNone then
        (case map_of tds name of
          None \<Rightarrow> v
        | Some ev \<Rightarrow>
            (if ev_get ev ''parsed'' = VNone
             then (case ev_get ev ''raw'' of VStr s \<Rightarrow> VStr s | _ \<Rightarrow> VNone)
             else v))
      else v)"

section \<open>Chronology rules\<close>

definition as_date :: "pyval \<Rightarrow> date option" where
  "as_date v = (case v of VDateTime d t \<Rightarrow> Some d | VDate d \<Rightarrow> Some d | _ \<Rightarrow> None)"

definition chronology_rules :: "(string \<times> string \<times> string) list" where
  "chronology_rules =
     [(''fecha_solicitud'', ''fecha_corta'', ''cronologia_corta_antes_de_solicitud''),
      (''fecha_corta'', ''fecha_termino'', ''cronologia_termino_antes_de_corta''),
      (''fecha_solicitud'', ''fecha_termino'', ''cronologia_termino_antes_de_solicitud'')]"

definition breaks_rule :: "(string, pyval) pydict \<Rightarrow> string \<times> string \<times> string \<Rightarrow> bool" where
  "breaks_rule values rule =
     (case (as_date (ev_get values (fst rule)), as_date (ev_get values (fst (snd rule)))) of
        (Some first, Some second) \<Rightarrow> \<not> first \<le> second
      | _ \<Rightarrow> False)"

definition chronology_flags :: "(string, pyval) pydict \<Rightarrow> string list" where
  "chronology_flags values =
     map (\<lambda>(_, _, code). code) (filter (breaks_rule values) chronology_rules)"

section \<open>What the resolution computes\<close>

definition filled :: "(int \<times> pyval) list \<Rightarrow> (int \<times> pyval) list" where
  "filled entries = filter (\<lambda>e. \<not> is_blank (snd e)) entries"

lemma comparable_VNone_iff [simp]: "comparable_cell v = VNone \<longleftrightarrow> is_blank v"
  by (auto simp: comparable_cell_def is_blank_def split: pyval.splits)

lemma comparable_idem [simp]: "comparable_cell (comparable_cell v) = comparable_cell v"
  by (auto simp: comparable_cell_def is_blank_def split: pyval.splits)

lemma blank_comparable [simp]: "is_blank (comparable_cell v) = is_blank v"
  by (auto simp: comparable_cell_def is_blank_def split: pyval.splits)

lemma filled_snoc: "filled (es @ [e]) = filled es @ (if is_blank (snd e) then [] else [e])"
  by (simp add: filled_def)

lemma fst_value_key [simp]: "fst (value_key e) = comparable_cell (snd e)"
  by (simp add: value_key_def Let_def)

lemma value_key_eq:
  "value_key e = value_key e' \<longleftrightarrow> comparable_cell (snd e) = comparable_cell (snd e')
     \<and> (comparable_cell (snd e) = VFloat NaN \<longrightarrow> fst e = fst e')"
  by (auto simp: value_key_def Let_def)

lemma rows_by_value_eq:
  "rows_by_value es = map (\<lambda>(k, g). (k, map fst g)) (group_by value_key (filled es))"
proof (induction es rule: rev_induct)
  case Nil
  show ?case by (simp add: rows_by_value_def filled_def)
next
  case (snoc e es)
  have step: "rows_by_value (es @ [e]) = add_entry (rows_by_value es) e"
    by (simp add: rows_by_value_def)
  show ?case
    by (simp add: step snoc.IH add_entry_def filled_snoc group_by_snoc dict_append_map)
qed

lemma rows_by_value_keys:
  "map fst (rows_by_value es) = dedup (map value_key (filled es))"
  by (simp add: rows_by_value_eq case_prod_unfold comp_def flip: keys_group_by)

lemma map_sort_key: "map g (sort_key (\<lambda>x. f (g x)) xs) = sort_key f (map g xs)"
proof -
  have ins: "map g (insort_key (\<lambda>x. f (g x)) x ys) = insort_key f (g x) (map g ys)" for x ys
    by (induction ys) auto
  show ?thesis by (induction xs) (simp_all add: ins)
qed

lemma value_variants_alt:
  "value_variants es = map (\<lambda>(k, rows). \<lparr>pv_value = fst k, pv_rows = rows\<rparr>)
     (sort_key (\<lambda>(k, rows). Min (set rows)) (map (\<lambda>(k, rows). (k, sort rows)) (rows_by_value es)))"
proof -
  have eq: "(\<lambda>(k, rows). Min (set rows)) = (\<lambda>p. (\<lambda>(k, rows). Min (set rows)) ((\<lambda>(k, rows). (k, sort rows)) p))"
    by (auto simp: fun_eq_iff)
  show ?thesis
    unfolding value_variants_def
    by (subst eq) (simp add: case_prod_unfold flip: map_sort_key)
qed

lemma set_value_variants:
  "set (value_variants es) =
     (\<lambda>k. \<lparr>pv_value = fst k, pv_rows = sort (map fst (filter (\<lambda>e. value_key e = k) (filled es)))\<rparr>)
       ` (value_key ` set (filled es))"
  by (force simp: value_variants_def rows_by_value_eq group_by_eq)

lemma length_value_variants:
  "length (value_variants es) = card (value_key ` set (filled es))"
  by (simp add: value_variants_def rows_by_value_eq length_group_by)

lemma mset_rows_by_value: "mset (concat (map snd (rows_by_value es))) = mset (map fst (filled es))"
proof (induction es rule: rev_induct)
  case Nil
  show ?case by (simp add: rows_by_value_def filled_def)
next
  case (snoc e es)
  have upd: "mset (concat (map snd (dict_append k x d))) = mset (concat (map snd d)) + {#x#}"
    for k and x :: int and d :: "(value_key, int list) pydict"
    unfolding dict_append_def by (induction d) (auto simp: update_conv')
  show ?case
    using snoc.IH by (simp add: rows_by_value_def add_entry_def filled_snoc upd Let_def)
qed

lemma mset_variant_rows:
  "mset (concat (map pv_rows (value_variants es))) = mset (map fst (filled es))"
proof -
  have sorted_sum: "sum_list (map f (sort_key k xs)) = sum_list (map f xs)"
    for f :: "'a \<Rightarrow> int multiset" and k :: "'a \<Rightarrow> int" and xs
    by (simp flip: sum_mset_sum_list)
  have "mset (concat (map pv_rows (value_variants es))) = mset (concat (map snd (rows_by_value es)))"
    by (simp add: value_variants_def mset_concat case_prod_unfold comp_def sorted_sum)
  then show ?thesis by (simp add: mset_rows_by_value)
qed

lemma sort_mset_cong: "mset xs = mset (ys :: int list) \<Longrightarrow> sort xs = sort ys"
  by (metis properties_for_sort mset_sort sorted_sort)

lemma sorted_variant_rows: "v \<in> set (value_variants es) \<Longrightarrow> sorted (pv_rows v)"
  by (auto simp: value_variants_def)

lemma resolve_rows: "pf_rows (resolve_pmf_field es) = sort (map fst (filled es))"
proof -
  have m: "sort (concat (map pv_rows (value_variants es))) = sort (map fst (filled es))"
    by (rule sort_mset_cong) (rule mset_variant_rows)
  show ?thesis
  proof (cases "value_variants es")
    case Nil
    then show ?thesis using m by (simp add: resolve_pmf_field_def)
  next
    case (Cons v vs)
    then have "v \<in> set (value_variants es)" by simp
    then have "sorted (pv_rows v)" by (rule sorted_variant_rows)
    then have s: "sort (pv_rows v) = pv_rows v" by (rule sorted_sort_id)
    show ?thesis
      using m s Cons by (cases vs) (simp_all add: resolve_pmf_field_def Let_def)
  qed
qed

lemma resolve_cases:
  "pf_status (resolve_pmf_field es) =
     (let n = card (value_key ` set (filled es))
      in if n = 0 then PBlank else if n = 1 then PValue else PConflict)"
  unfolding length_value_variants [symmetric] resolve_pmf_field_def Let_def
  by (simp split: list.splits)

lemma resolve_value:
  "pf_value (resolve_pmf_field es) =
     (if pf_status (resolve_pmf_field es) = PValue
      then comparable_cell (snd (hd (filled es))) else VNone)"
proof (cases "pf_status (resolve_pmf_field es) = PValue")
  case True
  then obtain v where v: "value_variants es = [v]"
    by (auto simp: resolve_pmf_field_def Let_def split: list.splits)
  have "filled es \<noteq> []"
  proof
    assume "filled es = []"
    then have "set (value_variants es) = {}" by (simp add: set_value_variants)
    with v show False by simp
  qed
  then have "hd (filled es) \<in> set (filled es)" by simp
  then have "comparable_cell (snd (hd (filled es))) \<in> pv_value ` set (value_variants es)"
    by (force simp: set_value_variants)
  with v have "pv_value v = comparable_cell (snd (hd (filled es)))" by simp
  then show ?thesis using True v by (simp add: resolve_pmf_field_def)
next
  case False
  then show ?thesis by (auto simp: resolve_pmf_field_def Let_def split: list.splits)
qed

lemma resolve_PValue_iff:
  "pf_status (resolve_pmf_field es) = PValue \<longleftrightarrow>
     filled es \<noteq> [] \<and> (\<forall>e \<in> set (filled es). comparable_cell (snd e) = comparable_cell (snd (hd (filled es))))
       \<and> (comparable_cell (snd (hd (filled es))) = VFloat NaN \<longrightarrow> (\<forall>e \<in> set (filled es). fst e = fst (hd (filled es))))"
proof (cases "filled es")
  case Nil
  then show ?thesis by (simp add: resolve_cases)
next
  case (Cons e0 rest)
  let ?c = value_key
  have "card (?c ` set (filled es)) = 1 \<longleftrightarrow> (\<forall>e \<in> set (filled es). ?c e = ?c e0)"
  proof
    assume "card (?c ` set (filled es)) = 1"
    then obtain x where "?c ` set (filled es) = {x}" by (auto simp: card_1_singleton_iff)
    then show "\<forall>e \<in> set (filled es). ?c e = ?c e0" using Cons by (metis image_eqI list.set_intros(1) singletonD)
  next
    assume "\<forall>e \<in> set (filled es). ?c e = ?c e0"
    then have "?c ` set (filled es) = {?c e0}" using Cons by auto
    then show "card (?c ` set (filled es)) = 1" by simp
  qed
  moreover have "card (?c ` set (filled es)) \<noteq> 0" using Cons by simp
  ultimately show ?thesis using Cons by (auto simp: resolve_cases Let_def value_key_eq)
qed

lemma resolve_PBlank_iff:
  "pf_status (resolve_pmf_field es) = PBlank \<longleftrightarrow> (\<forall>e \<in> set es. is_blank (snd e))"
  by (simp add: resolve_cases Let_def filled_def filter_empty_conv) (metis snd_conv prod.collapse)

section \<open>Properties\<close>

text \<open>
  C30. A field of a plan resolves to a value exactly when some row carries one and all rows that
  carry one agree (after trimming text and folding midnight datetimes; a NaN agrees with no other
  row's); to blank exactly when no
  row carries one; otherwise to a conflict, for which no value is chosen. In every case the
  reported rows are exactly the rows that carry a value, sorted: blank rows never count.
\<close>

theorem resolve_pmf_field_correct:
  "(pf_status (resolve_pmf_field es) = PBlank \<longleftrightarrow> (\<forall>e \<in> set es. is_blank (snd e)))
   \<and> (pf_status (resolve_pmf_field es) = PValue \<longleftrightarrow>
        (\<exists>e \<in> set es. \<not> is_blank (snd e))
        \<and> (\<forall>e \<in> set es. is_blank (snd e) \<or> comparable_cell (snd e) = pf_value (resolve_pmf_field es))
        \<and> (pf_value (resolve_pmf_field es) = VFloat NaN \<longrightarrow> card (set (pf_rows (resolve_pmf_field es))) = 1))
   \<and> (pf_status (resolve_pmf_field es) \<noteq> PValue \<longleftrightarrow> pf_value (resolve_pmf_field es) = VNone)
   \<and> pf_rows (resolve_pmf_field es) = sort (map fst (filter (\<lambda>e. \<not> is_blank (snd e)) es))"
proof -
  let ?r = "resolve_pmf_field es"
  have in_filled: "e \<in> set (filled es) \<longleftrightarrow> e \<in> set es \<and> \<not> is_blank (snd e)" for e
    by (simp add: filled_def)
  have hd_filled: "comparable_cell (snd (hd (filled es))) \<noteq> VNone" if "filled es \<noteq> []"
    using that in_filled [of "hd (filled es)"] by simp
  have none: "pf_status ?r \<noteq> PValue \<longleftrightarrow> pf_value ?r = VNone"
    using hd_filled by (cases "pf_status ?r = PValue") (simp_all add: resolve_value, metis resolve_PValue_iff)
  have "pf_status ?r = PValue \<longleftrightarrow> (\<exists>e \<in> set es. \<not> is_blank (snd e))
      \<and> (\<forall>e \<in> set es. is_blank (snd e) \<or> comparable_cell (snd e) = pf_value ?r)
      \<and> (pf_value ?r = VFloat NaN \<longrightarrow> card (set (pf_rows ?r)) = 1)" (is "_ = ?R")
  proof
    assume v: "pf_status ?r = PValue"
    then have "pf_value ?r = comparable_cell (snd (hd (filled es)))" by (simp add: resolve_value)
    moreover have "filled es \<noteq> []" "\<forall>e \<in> set (filled es). comparable_cell (snd e) = comparable_cell (snd (hd (filled es)))"
      using v unfolding resolve_PValue_iff by blast+
    moreover have "pf_value ?r = VFloat NaN \<longrightarrow> card (set (pf_rows ?r)) = 1"
    proof
      assume "pf_value ?r = VFloat NaN"
      then have nan: "comparable_cell (snd (hd (filled es))) = VFloat NaN" using v by (simp add: resolve_value)
      note agree = v [unfolded resolve_PValue_iff]
      note ne = agree [THEN conjunct1] and one = agree [THEN conjunct2, THEN conjunct2, rule_format, OF nan]
      have "fst ` set (filled es) \<subseteq> {fst (hd (filled es))}" using one by (intro image_subsetI) (simp only: singleton_iff)
      moreover have "fst (hd (filled es)) \<in> fst ` set (filled es)" using ne by simp
      ultimately have "fst ` set (filled es) = {fst (hd (filled es))}" by (intro equalityI) simp_all
      then show "card (set (pf_rows ?r)) = 1" by (simp add: resolve_rows)
    qed
    ultimately show ?R using in_filled by (metis list.set_sel(1))
  next
    assume ?R
    then have "pf_value ?r \<noteq> VNone" by (metis comparable_VNone_iff)
    with none show "pf_status ?r = PValue" by blast
  qed
  with none show ?thesis
    by (simp add: resolve_PBlank_iff resolve_rows filled_def)
qed

theorem resolve_pmf_field_correct_witness:
  "pf_status (resolve_pmf_field [(4, VStr (lit ''b'')), (2, VNone), (3, VStr (lit ''a''))]) \<noteq> PBlank
   \<and> pf_rows (resolve_pmf_field [(4, VStr (lit ''b'')), (2, VNone), (3, VStr (lit ''a''))]) = [3, 4]"
  using resolve_pmf_field_correct [of "[(4, VStr (lit ''b'')), (2, VNone), (3, VStr (lit ''a''))]"]
  by (simp add: is_blank_def strip_def strip_by_def is_space_def)

definition sorted_rows_by_value :: "(int \<times> pyval) list \<Rightarrow> (value_key, int list) pydict" where
  "sorted_rows_by_value es = map (\<lambda>(k, rows). (k, sort rows)) (rows_by_value es)"

lemma sorted_rows_by_value_eq:
  "sorted_rows_by_value es =
     map (\<lambda>k. (k, sort (map fst (filter (\<lambda>e. value_key e = k) (filled es)))))
       (dedup (map value_key (filled es)))"
  by (simp add: sorted_rows_by_value_def rows_by_value_eq group_by_eq)

lemma sorted_rows_entry:
  assumes "(k, r) \<in> set (sorted_rows_by_value es)"
  shows "\<exists>e \<in> set (filled es). fst e = Min (set r) \<and> value_key e = k
    \<and> r = sort (map fst (filter (\<lambda>e. value_key e = k) (filled es)))"
proof -
  let ?c = value_key
  have k: "k \<in> ?c ` set (filled es)" and r: "r = sort (map fst (filter (\<lambda>e. ?c e = k) (filled es)))"
    using assms unfolding sorted_rows_by_value_eq by auto
  from k obtain e where "e \<in> set (filled es)" "?c e = k" by blast
  with r have "fst e \<in> set r" by simp
  then have "Min (set r) \<in> set r" by (intro Min_in) auto
  with r obtain e' where "e' \<in> set (filled es)" "?c e' = k" "fst e' = Min (set r)" by auto
  with r show ?thesis by blast
qed

lemma sorted_rows_inj:
  assumes "distinct (map fst es)"
  shows "inj_on (\<lambda>(k, rows). Min (set rows)) (set (sorted_rows_by_value es))"
proof (rule inj_onI, clarify)
  fix k1 r1 k2 r2
  assume "(k1, r1) \<in> set (sorted_rows_by_value es)" "(k2, r2) \<in> set (sorted_rows_by_value es)"
    and "Min (set r1) = Min (set r2)"
  then obtain e1 e2 where
    "e1 \<in> set (filled es)" "e2 \<in> set (filled es)" "fst e1 = fst e2"
    "value_key e1 = k1" "value_key e2 = k2"
    and r: "r1 = sort (map fst (filter (\<lambda>e. value_key e = k1) (filled es)))"
      "r2 = sort (map fst (filter (\<lambda>e. value_key e = k2) (filled es)))"
    using sorted_rows_entry by metis
  moreover have "inj_on fst (set (filled es))"
    using assms by (auto simp: filled_def distinct_map intro: inj_on_subset)
  ultimately have "k1 = k2" by (auto dest: inj_onD)
  with r show "k1 = k2 \<and> r1 = r2" by simp
qed

lemma sorted_rows_mset:
  assumes "mset es = mset es'"
  shows "mset (sorted_rows_by_value es) = mset (sorted_rows_by_value es')"
proof -
  let ?c = value_key
  have fm: "mset (filled es) = mset (filled es')"
    using assms by (simp add: filled_def mset_filter)
  then have fs: "set (filled es) = set (filled es')" by (metis set_mset_mset)
  have "sort (map fst (filter (\<lambda>e. ?c e = k) (filled es))) = sort (map fst (filter (\<lambda>e. ?c e = k) (filled es')))" for k
    using fm by (intro sort_mset_cong) (simp add: mset_filter)
  moreover have "mset (dedup (map ?c (filled es))) = mset (dedup (map ?c (filled es')))"
    by (simp add: set_eq_iff_mset_eq_distinct [THEN iffD1] fs)
  ultimately show ?thesis by (simp add: sorted_rows_by_value_eq)
qed

text \<open>
  The resolution does not depend on the order in which the rows are read, as long as row
  numbers identify rows.
\<close>

theorem resolve_pmf_field_order:
  assumes "mset es = mset es'" and "distinct (map fst es)"
  shows "resolve_pmf_field es = resolve_pmf_field es'"
proof -
  have "value_variants es = value_variants es'"
    using sort_key_mset_eq [OF sorted_rows_mset [OF assms(1)] sorted_rows_inj [OF assms(2)]]
    unfolding value_variants_alt sorted_rows_by_value_def by simp
  then show ?thesis by (simp add: resolve_pmf_field_def)
qed

theorem resolve_pmf_field_order_witness:
  "resolve_pmf_field [(4, VStr (lit '' Juan'')), (2, VNone), (3, VStr (lit ''Juan''))]
     = resolve_pmf_field [(2, VNone), (3, VStr (lit ''Juan'')), (4, VStr (lit '' Juan''))]"
  by (rule resolve_pmf_field_order) simp_all

end
