(* ===== verification/PyFloat.thy ===== *)
theory PyFloat
  imports PmfField
begin

text \<open>
  Python's \<open>float\<close>: IEEE binary64 with round-to-nearest-even, over the values of
  \<open>pyfloat\<close>. A finite float is the rational it denotes, so the two zeros are one value.
  \<open>py_sum\<close> is \<open>sum\<close> of CPython 3.12 and later, which carries a compensation term.
\<close>

fun ilog2 :: "nat \<Rightarrow> nat" where
  "ilog2 n = (if n < 2 then 0 else Suc (ilog2 (n div 2)))"

declare ilog2.simps [simp del]

text \<open>The largest \<open>e\<close> with \<open>2 ^ e \<le> q\<close>, for positive \<open>q\<close>.\<close>

definition rat_exp :: "rat \<Rightarrow> int" where
  "rat_exp q =
     (if 1 \<le> q then int (ilog2 (nat \<lfloor>q\<rfloor>))
      else - (let n = nat \<lceil>1 / q\<rceil> in if n \<le> 1 then 0 else int (Suc (ilog2 (n - 1)))))"

definition pow2 :: "int \<Rightarrow> rat" where
  "pow2 e = (if 0 \<le> e then 2 ^ nat e else 1 / 2 ^ nat (- e))"

definition round_even :: "rat \<Rightarrow> int" where
  "round_even q =
     (let f = \<lfloor>q\<rfloor>; r = q - of_int f
      in if r < 1 / 2 then f else if r > 1 / 2 then f + 1 else if even f then f else f + 1)"

definition round_double :: "rat \<Rightarrow> pyfloat" where
  "round_double q =
     (if q = 0 then Fin 0
      else (let e = max (rat_exp \<bar>q\<bar>) (- 1022); s = pow2 (e - 52);
                v = of_int (round_even (q / s)) * s
            in if v \<ge> pow2 1024 then PosInf else if v \<le> - pow2 1024 then NegInf else Fin v))"

fun fl_neg :: "pyfloat \<Rightarrow> pyfloat" where
  "fl_neg (Fin a) = Fin (- a)"
| "fl_neg PosInf = NegInf"
| "fl_neg NegInf = PosInf"
| "fl_neg NaN = NaN"

fun fl_add :: "pyfloat \<Rightarrow> pyfloat \<Rightarrow> pyfloat" where
  "fl_add (Fin a) (Fin b) = round_double (a + b)"
| "fl_add NaN y = NaN"
| "fl_add x NaN = NaN"
| "fl_add PosInf NegInf = NaN"
| "fl_add NegInf PosInf = NaN"
| "fl_add PosInf y = PosInf"
| "fl_add x PosInf = PosInf"
| "fl_add NegInf y = NegInf"
| "fl_add x NegInf = NegInf"

definition fl_sub :: "pyfloat \<Rightarrow> pyfloat \<Rightarrow> pyfloat" where
  "fl_sub x y = fl_add x (fl_neg y)"

text \<open>True division of two ints, the second not zero: the rounded quotient.\<close>

definition int_truediv :: "int \<Rightarrow> int \<Rightarrow> pyfloat" where
  "int_truediv a b = round_double (of_int a / of_int b)"

definition fl_mul_int :: "pyfloat \<Rightarrow> int \<Rightarrow> pyfloat" where
  "fl_mul_int x n =
     (case x of
        Fin a \<Rightarrow> round_double (a * of_int n)
      | NaN \<Rightarrow> NaN
      | _ \<Rightarrow> (if n = 0 then NaN else if n > 0 then x else fl_neg x))"

definition fl_finite :: "pyfloat \<Rightarrow> bool" where
  "fl_finite x = (case x of Fin _ \<Rightarrow> True | _ \<Rightarrow> False)"

text \<open>\<open>fabs(x) >= fabs(y)\<close>, false when either is NaN.\<close>

definition fl_abs_ge :: "pyfloat \<Rightarrow> pyfloat \<Rightarrow> bool" where
  "fl_abs_ge x y =
     (case (x, y) of
        (NaN, _) \<Rightarrow> False | (_, NaN) \<Rightarrow> False
      | (Fin a, Fin b) \<Rightarrow> \<bar>a\<bar> \<ge> \<bar>b\<bar> | (Fin _, _) \<Rightarrow> False | _ \<Rightarrow> True)"

definition sum_step :: "pyfloat \<times> pyfloat \<Rightarrow> pyfloat \<Rightarrow> pyfloat \<times> pyfloat" where
  "sum_step acc x =
     (let hi = fst acc; t = fl_add hi x
      in (t, fl_add (snd acc)
              (if fl_abs_ge hi x then fl_add (fl_sub hi t) x else fl_add (fl_sub x t) hi)))"

definition py_sum :: "pyfloat list \<Rightarrow> pyfloat" where
  "py_sum xs =
     (case foldl sum_step (Fin 0, Fin 0) xs of
        (hi, lo) \<Rightarrow> if lo \<noteq> Fin 0 \<and> fl_finite lo then fl_add hi lo else hi)"

text \<open>\<open><\<close> and \<open><=\<close>, false when either is NaN.\<close>

definition fl_less :: "pyfloat \<Rightarrow> pyfloat \<Rightarrow> bool" where
  "fl_less x y =
     (case (x, y) of
        (NaN, _) \<Rightarrow> False | (_, NaN) \<Rightarrow> False
      | (Fin a, Fin b) \<Rightarrow> a < b
      | (NegInf, _) \<Rightarrow> y \<noteq> NegInf | (PosInf, _) \<Rightarrow> False
      | (Fin _, z) \<Rightarrow> z = PosInf)"

definition fl_le :: "pyfloat \<Rightarrow> pyfloat \<Rightarrow> bool" where
  "fl_le x y \<longleftrightarrow> fl_less x y \<or> x = y \<and> x \<noteq> NaN"

text \<open>\<open>x / y\<close> for \<open>y\<close> above zero or NaN.\<close>

definition fl_div :: "pyfloat \<Rightarrow> pyfloat \<Rightarrow> pyfloat" where
  "fl_div x y =
     (case (x, y) of
        (NaN, _) \<Rightarrow> NaN | (_, NaN) \<Rightarrow> NaN
      | (Fin a, Fin b) \<Rightarrow> round_double (a / b)
      | (Fin a, _) \<Rightarrow> Fin 0
      | (z, Fin b) \<Rightarrow> z
      | _ \<Rightarrow> NaN)"

section \<open>Rounding keeps bounds\<close>

lemma round_even_mono_int: "q \<le> of_int n \<Longrightarrow> round_even q \<le> n"
  using floor_correct [of q] by (auto simp: round_even_def Let_def) linarith+

lemma round_even_ge_int: "of_int n \<le> q \<Longrightarrow> n \<le> round_even q"
  using le_floor_iff [of n q] by (auto simp: round_even_def Let_def)

lemma pow2_pos: "0 < pow2 e"
  by (simp add: pow2_def)

lemma ilog2_le: "0 < n \<Longrightarrow> 2 ^ ilog2 n \<le> n"
proof (induction n rule: ilog2.induct)
  case (1 n)
  show ?case
  proof (cases "n < 2")
    case True
    with 1 show ?thesis by (simp add: ilog2.simps [of n])
  next
    case False
    then have "2 ^ ilog2 (n div 2) \<le> n div 2" by (intro "1.IH") auto
    with False show ?thesis by (simp add: ilog2.simps [of n])
  qed
qed

lemma rat_exp_bound:
  assumes "0 < q" "q < 2 ^ m"
  shows "rat_exp q < int m"
proof (cases "1 \<le> q")
  case True
  then have "0 < nat \<lfloor>q\<rfloor>" by simp
  then have "(2::nat) ^ ilog2 (nat \<lfloor>q\<rfloor>) \<le> nat \<lfloor>q\<rfloor>" by (rule ilog2_le)
  then have "(2::int) ^ ilog2 (nat \<lfloor>q\<rfloor>) \<le> \<lfloor>q\<rfloor>"
    using True by (simp add: nat_le_eq_zle flip: of_nat_le_iff [where 'a = int])
  also have "\<lfloor>q\<rfloor> < 2 ^ m" using assms(2) by (simp add: floor_less_iff)
  finally have "ilog2 (nat \<lfloor>q\<rfloor>) < m" by simp
  with True show ?thesis by (simp add: rat_exp_def)
next
  case False
  with assms have "1 < 1 / q" by simp
  then have "\<not> nat \<lceil>1 / q\<rceil> \<le> 1" by (simp add: nat_le_iff not_le)
  with False show ?thesis by (simp only: rat_exp_def Let_def if_False)
qed

text \<open>An integer of at most 53 bits is a bound that rounding respects.\<close>

lemma round_double_le:
  assumes "0 \<le> q" "q \<le> of_int n" "n < 2 ^ 52"
  shows "\<exists>v. round_double q = Fin v \<and> 0 \<le> v \<and> v \<le> of_int n"
proof (cases "q = 0")
  case True
  with assms show ?thesis by (simp add: round_double_def)
next
  case False
  define e where "e = max (rat_exp \<bar>q\<bar>) (- 1022)"
  define s where "s = pow2 (e - 52)"
  define v where "v = of_int (round_even (q / s)) * s"
  have "(of_int n :: rat) < of_int (2 ^ 52)" using assms(3) by (simp only: of_int_less_iff)
  then have nn: "(of_int n :: rat) < 2 ^ 52" by simp
  then have "q < 2 ^ 52" using assms(2) by (rule le_less_trans [rotated])
  then have "rat_exp \<bar>q\<bar> < 52" using rat_exp_bound [of q 52] assms(1) False by simp
  then have e: "e < 52" by (simp add: e_def)
  then have s: "s = 1 / 2 ^ nat (52 - e)" by (simp add: s_def pow2_def)
  have "0 < s" by (simp add: s_def pow2_pos)
  have "(of_int n :: rat) / s = of_int (n * 2 ^ nat (52 - e))" by (simp add: s)
  moreover have "q / s \<le> of_int n / s" using assms(2) \<open>0 < s\<close> by (simp add: divide_right_mono)
  ultimately have "round_even (q / s) \<le> n * 2 ^ nat (52 - e)" by (simp add: round_even_mono_int)
  then have "(of_int (round_even (q / s)) :: rat) \<le> of_int n / s"
    using \<open>of_int n / s = _\<close> by (simp only: of_int_le_iff)
  then have le: "v \<le> of_int n" using \<open>0 < s\<close> by (simp add: v_def pos_le_divide_eq)
  have "0 \<le> round_even (q / s)" using assms(1) \<open>0 < s\<close> by (intro round_even_ge_int) simp
  then have ge: "0 \<le> v" using \<open>0 < s\<close> by (simp add: v_def)
  have big: "(2::rat) ^ 52 \<le> pow2 1024" by (simp add: pow2_def)
  have "round_double q = Fin v"
    using False le ge nn big pow2_pos [of 1024]
    by (auto simp: round_double_def Let_def simp flip: e_def s_def v_def)
  with le ge show ?thesis by simp
qed

text \<open>A share in percent, \<open>a / b * 100\<close>, stays between 0 and 100.\<close>

lemma percentage_bounds:
  assumes "0 \<le> a" "a \<le> b" "0 < b"
  shows "\<exists>v. fl_mul_int (int_truediv a b) 100 = Fin v \<and> 0 \<le> v \<and> v \<le> 100"
proof -
  have "(of_int a :: rat) / of_int b \<le> of_int 1" "0 \<le> (of_int a :: rat) / of_int b"
    using assms by (simp_all add: divide_le_eq_1)
  then obtain w where w: "int_truediv a b = Fin w" "0 \<le> w" "w \<le> 1"
    using round_double_le [of "of_int a / of_int b" 1] by (auto simp: int_truediv_def)
  then have "0 \<le> w * 100" "w * 100 \<le> of_int 100" by simp_all
  from round_double_le [OF this] w(1) show ?thesis by (simp add: fl_mul_int_def)
qed

end
