(* ===== verification/Rollups.thy ===== *)
theory Rollups
  imports PyText
begin

text \<open>
  \<open>transelec_ingestion/status_rollups.py\<close>: the comparison key \<open>normalized_label\<close>, the
  shared first-row-wins deduplication and the three named status bases over it
  (\<open>estado_resumido_first_row\<close>, \<open>pending_priority_legacy\<close>, \<open>owner_stage_legacy\<close>),
  the pending-stage heuristic and the two display bucketings. The three bases share one contract,
  the locale \<open>rollup_basis\<close>: each reads one value off each key's winning row.
\<close>

section \<open>Rows and enumerations\<close>

datatype bucket3 = B_aprobado | B_en_tramite | B_pendiente_o_tachado

datatype hero = H_aprobado | H_en_tramite | H_pendiente | H_tachado | H_sin_estado

datatype pending_stage_t = S_preparacion | S_recurso_rechazo | S_otros

datatype group_key = K_pmf | K_predio

record rolled_row =
  rr_number :: int
  rr_pmf :: pystr
  rr_predio :: pystr
  rr_estado :: "pystr option"
  rr_resumido :: "pystr option"
  rr_ingreso :: "pystr option"
  rr_propietario :: "pystr option"

definition row_key :: "group_key \<Rightarrow> rolled_row \<Rightarrow> pystr" where
  "row_key key row = (case key of K_pmf \<Rightarrow> rr_pmf row | K_predio \<Rightarrow> rr_predio row)"

section \<open>normalized_label\<close>

definition normalized_label :: "ucd \<Rightarrow> pystr option \<Rightarrow> pystr option" where
  "normalized_label u value =
     (case value of
        None \<Rightarrow> None
      | Some s \<Rightarrow>
          (let decomposed = nfkd u (casefold u (strip s));
               stripped = drop_marks u decomposed;
               collapsed = strip (collapse is_space stripped)
           in if collapsed = [] then None else Some collapsed))"

section \<open>Distinct values and conflicts per key\<close>

definition add_distinct ::
  "ucd \<Rightarrow> group_key \<Rightarrow> (pystr, (pystr option, pystr option) pydict) pydict \<Rightarrow> rolled_row
     \<Rightarrow> (pystr, (pystr option, pystr option) pydict) pydict" where
  "add_distinct u key seen row =
     (let g = row_key key row;
          seen' = dict_setdefault g [] seen;
          bucket = (case map_of seen' g of None \<Rightarrow> [] | Some b \<Rightarrow> b)
      in AList.update g
           (dict_setdefault (normalized_label u (rr_resumido row)) (rr_resumido row) bucket) seen')"

definition distinct_estado_resumido ::
  "ucd \<Rightarrow> group_key \<Rightarrow> rolled_row list \<Rightarrow> (pystr, pystr option list) pydict" where
  "distinct_estado_resumido u key rows =
     map (\<lambda>(g, bucket). (g, map snd bucket))
       (foldl (add_distinct u key) [] (sort_key rr_number rows))"

definition estado_resumido_conflicts ::
  "ucd \<Rightarrow> group_key \<Rightarrow> rolled_row list \<Rightarrow> (pystr, pystr option list) pydict" where
  "estado_resumido_conflicts u key rows =
     filter (\<lambda>(g, values). length values > 1) (distinct_estado_resumido u key rows)"

section \<open>First row wins\<close>

definition win_step ::
  "group_key \<Rightarrow> (pystr, rolled_row) pydict \<Rightarrow> rolled_row \<Rightarrow> (pystr, rolled_row) pydict" where
  "win_step key winners row =
     (case map_of winners (row_key key row) of
        None \<Rightarrow> AList.update (row_key key row) row winners
      | Some current \<Rightarrow>
          (if rr_number row < rr_number current then AList.update (row_key key row) row winners
           else winners))"

definition first_row_wins :: "group_key \<Rightarrow> rolled_row list \<Rightarrow> (pystr, rolled_row) pydict" where
  "first_row_wins key rows = foldl (win_step key) [] rows"

section \<open>The three bases\<close>

definition blank_text :: "pystr option \<Rightarrow> bool" where
  "blank_text v = (case v of None \<Rightarrow> True | Some s \<Rightarrow> strip s = [])"

definition estado_resumido_first_row ::
  "group_key \<Rightarrow> rolled_row list \<Rightarrow> (pystr, pystr option) pydict" where
  "estado_resumido_first_row key rows =
     map (\<lambda>(k, row). (k, rr_resumido row)) (first_row_wins key rows)"

definition says_rechaz :: "ucd \<Rightarrow> pystr option \<Rightarrow> bool" where
  "says_rechaz u estado =
     (case estado of None \<Rightarrow> False | Some s \<Rightarrow> contains (lit ''rechaz'') (lower u s))"

definition is_pending_row :: "ucd \<Rightarrow> rolled_row \<Rightarrow> bool" where
  "is_pending_row u row \<longleftrightarrow> blank_text (rr_ingreso row) \<or> says_rechaz u (rr_estado row)"

definition pending_priority_legacy :: "ucd \<Rightarrow> group_key \<Rightarrow> rolled_row list \<Rightarrow> (pystr, bool) pydict" where
  "pending_priority_legacy u key rows =
     map (\<lambda>(k, row). (k, is_pending_row u row)) (first_row_wins key rows)"

definition owner_stage_from_row :: "ucd \<Rightarrow> rolled_row \<Rightarrow> pystr option" where
  "owner_stage_from_row u row =
     (if says_rechaz u (rr_estado row) then Some (lit ''Rechazado'') else rr_resumido row)"

definition owner_stage_legacy ::
  "ucd \<Rightarrow> group_key \<Rightarrow> rolled_row list \<Rightarrow> (pystr, pystr option) pydict" where
  "owner_stage_legacy u key rows =
     map (\<lambda>(k, row). (k, owner_stage_from_row u row)) (first_row_wins key rows)"

section \<open>Stages and buckets\<close>

definition text_or_empty :: "pystr option \<Rightarrow> pystr" where
  "text_or_empty v = (case v of None \<Rightarrow> [] | Some s \<Rightarrow> s)"

definition pending_stage :: "ucd \<Rightarrow> pystr option \<Rightarrow> pending_stage_t" where
  "pending_stage u estado =
     (let normalized = lower u (text_or_empty estado)
      in if contains (lit ''prepar'') normalized then S_preparacion
         else if contains (lit ''recurso'') normalized \<and> contains (lit ''rechaz'') normalized
           then S_recurso_rechazo
         else S_otros)"

text \<open>The accented spelling of "en tramite" the source lists beside it (a with acute, U+00E1).\<close>

definition en_tramite_acute :: pystr where
  "en_tramite_acute = lit ''en tr'' @ [225] @ lit ''mite''"

definition bucket_3way :: "ucd \<Rightarrow> pystr option \<Rightarrow> bucket3" where
  "bucket_3way u estado_resumido =
     (let normalized = lower u (strip (text_or_empty estado_resumido))
      in if normalized = lit ''aprobado'' then B_aprobado
         else if normalized = lit ''en tramite'' \<or> normalized = en_tramite_acute then B_en_tramite
         else B_pendiente_o_tachado)"

definition hero_states :: "(pystr, hero) pydict" where
  "hero_states =
     [(lit ''aprobado'', H_aprobado), (lit ''en tramite'', H_en_tramite),
      (en_tramite_acute, H_en_tramite), (lit ''pendiente'', H_pendiente),
      (lit ''tachado'', H_tachado)]"

definition hero_state :: "ucd \<Rightarrow> pystr option \<Rightarrow> hero" where
  "hero_state u estado_resumido =
     (case map_of hero_states (lower u (strip (text_or_empty estado_resumido))) of
        None \<Rightarrow> H_sin_estado | Some h \<Rightarrow> h)"

section \<open>What first-row-wins computes\<close>

lemma first_row_wins_snoc: "first_row_wins key (rows @ [r]) = win_step key (first_row_wins key rows) r"
  by (simp add: first_row_wins_def)

lemma first_row_wins_Nil [simp]: "first_row_wins key [] = []"
  by (simp add: first_row_wins_def)

lemma keys_first_row_wins: "map fst (first_row_wins key rows) = dedup (map (row_key key) rows)"
proof (induction rows rule: rev_induct)
  case Nil
  show ?case by simp
next
  case (snoc r rows)
  have keys: "fst ` set (first_row_wins key rows) = row_key key ` set rows"
    using arg_cong [OF snoc.IH, of set] by simp
  have "map_of (first_row_wins key rows) (row_key key r) = None
      \<longleftrightarrow> row_key key r \<notin> row_key key ` set rows"
    using keys by (simp add: map_of_eq_None_iff)
  then show ?case
    using keys snoc.IH
    by (auto simp: first_row_wins_snoc win_step_def map_fst_update dedup_snoc split: option.splits)
qed

lemma distinct_first_row_wins [simp]: "distinct (map fst (first_row_wins key rows))"
  by (simp add: keys_first_row_wins)

lemma length_first_row_wins: "length (first_row_wins key rows) = card (row_key key ` set rows)"
  by (metis keys_first_row_wins length_dedup length_map list.set_map)

text \<open>The winner of a key is the leftmost row among those with the key's smallest number.\<close>

definition is_winner :: "group_key \<Rightarrow> rolled_row list \<Rightarrow> rolled_row \<Rightarrow> bool" where
  "is_winner key rows w \<longleftrightarrow> w \<in> set rows
     \<and> (\<forall>r \<in> set rows. row_key key r = row_key key w \<longrightarrow> rr_number w \<le> rr_number r)"

lemma win_lookup:
  "map_of (first_row_wins key rows) k = Some w \<Longrightarrow> row_key key w = k \<and> is_winner key rows w"
proof (induction rows arbitrary: k w rule: rev_induct)
  case Nil
  then show ?case by simp
next
  case (snoc r rows)
  let ?m = "map_of (first_row_wins key rows)"
  have none: "?m (row_key key r) = None \<Longrightarrow> x \<in> set rows \<Longrightarrow> row_key key x \<noteq> row_key key r" for x
    using arg_cong [OF keys_first_row_wins [of key rows], of set]
    by (simp add: map_of_eq_None_iff) (metis image_eqI)
  show ?case
  proof (cases "?m (row_key key r)")
    case None
    with snoc.prems snoc.IH none show ?thesis
      by (auto simp: first_row_wins_snoc win_step_def update_conv' is_winner_def split: if_splits)
  next
    case (Some c)
    with snoc.IH have c: "row_key key c = row_key key r" "is_winner key rows c" by blast+
    show ?thesis
    proof (cases "k = row_key key r")
      case True
      with Some snoc.prems have "w = (if rr_number r < rr_number c then r else c)"
        by (auto simp: first_row_wins_snoc win_step_def update_conv' split: if_splits)
      with c True show ?thesis
        unfolding is_winner_def by (cases "rr_number r < rr_number c") auto
    next
      case False
      with Some snoc.prems have "?m k = Some w"
        by (auto simp: first_row_wins_snoc win_step_def update_conv' split: if_splits)
      with snoc.IH False show ?thesis by (auto simp: is_winner_def)
    qed
  qed
qed

lemma win_entry:
  "(k, w) \<in> set (first_row_wins key rows) \<Longrightarrow> row_key key w = k \<and> is_winner key rows w"
  using win_lookup [of key rows k w] by simp

lemma win_exists: "r \<in> set rows \<Longrightarrow> \<exists>w. map_of (first_row_wins key rows) (row_key key r) = Some w"
  using arg_cong [OF keys_first_row_wins [of key rows], of set]
  by (metis image_eqI list.set_map map_of_eq_None_iff not_None_eq set_dedup)

text \<open>With row numbers that identify rows, the winner does not depend on the order of the rows.\<close>

lemma first_row_wins_mset:
  assumes "mset rows = mset rows'" and "distinct (map rr_number rows)"
  shows "mset (first_row_wins key rows) = mset (first_row_wins key rows')"
proof -
  have s: "set rows = set rows'" using assms(1) by (metis set_mset_mset)
  have inj: "inj_on rr_number (set rows)" using assms(2) by (simp add: distinct_map)
  have "map_of (first_row_wins key rows) k = map_of (first_row_wins key rows') k" for k
  proof (cases "k \<in> row_key key ` set rows")
    case True
    then obtain w w' where
      w: "map_of (first_row_wins key rows) k = Some w" and w': "map_of (first_row_wins key rows') k = Some w'"
      using win_exists s by (metis image_iff)
    from win_lookup [OF w] win_lookup [OF w'] have "rr_number w = rr_number w'"
      "w \<in> set rows" "w' \<in> set rows"
      by (auto simp: is_winner_def s intro: order_antisym)
    with inj have "w = w'" by (auto dest: inj_onD)
    with w w' show ?thesis by simp
  next
    case False
    then have "k \<notin> fst ` set (first_row_wins key rows)" "k \<notin> fst ` set (first_row_wins key rows')"
      using arg_cong [OF keys_first_row_wins, of set key rows]
        arg_cong [OF keys_first_row_wins, of set key rows'] s by auto
    then show ?thesis by (simp add: map_of_eq_None_iff [THEN iffD2])
  qed
  then have "map_of (first_row_wins key rows) = map_of (first_row_wins key rows')" by blast
  then have "set (first_row_wins key rows) = set (first_row_wins key rows')"
    by (metis distinct_first_row_wins map_of_inject_set)
  then show ?thesis
    by (metis distinct_first_row_wins distinct_map set_eq_iff_mset_eq_distinct)
qed

section \<open>The contract the bases share\<close>

locale rollup_basis =
  fixes basis :: "group_key \<Rightarrow> rolled_row list \<Rightarrow> (pystr, 'v) pydict"
    and of_row :: "rolled_row \<Rightarrow> 'v"
  assumes reads_winner: "basis key rows = map (\<lambda>(k, row). (k, of_row row)) (first_row_wins key rows)"
begin

lemma keys_basis: "map fst (basis key rows) = dedup (map (row_key key) rows)"
  by (simp add: reads_winner case_prod_unfold comp_def flip: keys_first_row_wins)

lemma distinct_basis: "distinct (map fst (basis key rows))"
  by (simp add: keys_basis)

lemma length_basis: "length (basis key rows) = card (row_key key ` set rows)"
  by (simp add: reads_winner length_first_row_wins)

lemma basis_entry:
  "(k, v) \<in> set (basis key rows) \<Longrightarrow> \<exists>w. is_winner key rows w \<and> row_key key w = k \<and> v = of_row w"
  by (auto simp: reads_winner dest: win_entry)

lemma basis_order:
  "mset rows = mset rows' \<Longrightarrow> distinct (map rr_number rows)
     \<Longrightarrow> mset (basis key rows) = mset (basis key rows')"
  by (simp add: reads_winner first_row_wins_mset)

lemma basis_lookup:
  "map_of (basis key rows) k = map_option of_row (map_of (first_row_wins key rows) k)"
  unfolding reads_winner by (induction "first_row_wins key rows" rule: list.induct) (auto simp: map_of_map)

lemma basis_values: "map snd (basis key rows) = map of_row (map snd (first_row_wins key rows))"
  by (simp add: reads_winner case_prod_unfold)

end

interpretation resumido: rollup_basis estado_resumido_first_row rr_resumido
  by unfold_locales (simp add: estado_resumido_first_row_def)

interpretation pending: rollup_basis "pending_priority_legacy u" "is_pending_row u" for u
  by unfold_locales (simp add: pending_priority_legacy_def)

interpretation owner: rollup_basis "owner_stage_legacy u" "owner_stage_from_row u" for u
  by unfold_locales (simp add: owner_stage_legacy_def)

section \<open>Distinct values per key\<close>

definition bucket_of :: "ucd \<Rightarrow> rolled_row list \<Rightarrow> (pystr option, pystr option) pydict" where
  "bucket_of u rows =
     foldl (\<lambda>b row. dict_setdefault (normalized_label u (rr_resumido row)) (rr_resumido row) b) [] rows"

lemma keys_bucket_of:
  "map fst (bucket_of u rows) = dedup (map (\<lambda>r. normalized_label u (rr_resumido r)) rows)"
proof (induction rows rule: rev_induct)
  case Nil
  show ?case by (simp add: bucket_of_def)
next
  case (snoc r rows)
  have "fst ` set (bucket_of u rows) = (\<lambda>r. normalized_label u (rr_resumido r)) ` set rows"
    using arg_cong [OF snoc.IH, of set] by simp
  then show ?case using snoc.IH
    by (auto simp: bucket_of_def map_fst_setdefault dedup_snoc)
qed

lemma length_bucket_of:
  "length (bucket_of u rows) = card ((\<lambda>r. normalized_label u (rr_resumido r)) ` set rows)"
  by (metis keys_bucket_of length_dedup length_map list.set_map)

lemma add_distinct_keys:
  "map fst (add_distinct u key seen r)
     = (if row_key key r \<in> fst ` set seen then map fst seen else map fst seen @ [row_key key r])"
  by (auto simp: add_distinct_def Let_def map_fst_update map_fst_setdefault)
    (metis image_eqI list.set_map map_fst_setdefault set_append Un_iff list.set_intros(1) fst_conv)+

lemma add_distinct_lookup:
  "map_of (add_distinct u key seen r) g =
     (if g = row_key key r
      then Some (dict_setdefault (normalized_label u (rr_resumido r)) (rr_resumido r)
             (case map_of seen g of None \<Rightarrow> [] | Some b \<Rightarrow> b))
      else map_of seen g)"
  by (simp add: add_distinct_def Let_def update_conv' map_of_setdefault)

lemma distinct_fold:
  "foldl (add_distinct u key) [] rows
     = map (\<lambda>(g, rs). (g, bucket_of u rs)) (group_by (row_key key) rows)"
proof (induction rows rule: rev_induct)
  case Nil
  show ?case by simp
next
  case (snoc r rows)
  let ?d = "foldl (add_distinct u key) [] rows" and ?g = "group_by (row_key key)"
  let ?F = "map (\<lambda>(g, rs). (g, bucket_of u rs))"
  have keys: "map fst (?F (?g rs)) = dedup (map (row_key key) rs)" for rs
    by (simp only: map_fst_map_snd keys_group_by)
  have in_keys: "fst ` set ?d = row_key key ` set rows"
    using arg_cong [OF keys [of rows], of set] unfolding snoc.IH by (simp only: set_map set_dedup)
  have k: "map fst (add_distinct u key ?d r) = map fst (?F (?g (rows @ [r])))"
    unfolding add_distinct_keys in_keys keys
    using keys [of rows] snoc.IH by (auto simp: dedup_snoc)
  have l: "map_of (add_distinct u key ?d r) g = map_of (?F (?g (rows @ [r]))) g" for g
  proof -
    have dl: "map_of ?d g = map_option (bucket_of u) (map_of (?g rows) g)"
      unfolding snoc.IH by (rule map_of_map_snd)
    have fl: "map_of (?F (?g (rows @ [r]))) g = map_option (bucket_of u) (map_of (?g (rows @ [r])) g)"
      by (rule map_of_map_snd)
    have none: "g \<notin> row_key key ` set rows \<Longrightarrow> filter (\<lambda>x. row_key key x = g) rows = []"
      by (auto simp: filter_empty_conv)
    have snoc_bucket: "bucket_of u (rs @ [r])
        = dict_setdefault (normalized_label u (rr_resumido r)) (rr_resumido r) (bucket_of u rs)" for rs
      by (simp add: bucket_of_def)
    show ?thesis
      unfolding add_distinct_lookup dl fl lookup_group_by
      using none by (auto simp: snoc_bucket) (simp_all add: bucket_of_def)
  qed
  have "distinct (map fst (add_distinct u key ?d r))"
    unfolding k keys by simp
  from dict_eqI [OF k this l] show ?case by simp
qed

lemma distinct_estado_entry:
  "(g, values) \<in> set (distinct_estado_resumido u key rows) \<Longrightarrow>
     g \<in> row_key key ` set rows
     \<and> length values = card ((\<lambda>r. normalized_label u (rr_resumido r)) ` {r \<in> set rows. row_key key r = g})"
  by (auto simp: distinct_estado_resumido_def distinct_fold group_by_eq length_bucket_of
      image_iff set_filter)

lemma keys_distinct_estado:
  "map fst (distinct_estado_resumido u key rows) = dedup (map (row_key key) (sort_key rr_number rows))"
  by (simp add: distinct_estado_resumido_def distinct_fold case_prod_unfold comp_def flip: keys_group_by)

section \<open>Properties\<close>

text \<open>
  First row wins: every key of the rows gets exactly one winner, in the order the keys are
  first met; the winner is one of the key's rows and no row of the key has a smaller source row
  number.
\<close>

theorem first_row_wins_correct:
  "map fst (first_row_wins key rows) = dedup (map (row_key key) rows)
   \<and> (\<forall>(k, w) \<in> set (first_row_wins key rows). row_key key w = k \<and> w \<in> set rows
        \<and> (\<forall>r \<in> set rows. row_key key r = k \<longrightarrow> rr_number w \<le> rr_number r))"
  using win_entry [of _ _ key rows] by (fastforce simp: keys_first_row_wins is_winner_def)

definition demo_row :: "int \<Rightarrow> string \<Rightarrow> string \<Rightarrow> rolled_row" where
  "demo_row n pmf resumido = \<lparr>rr_number = n, rr_pmf = lit pmf, rr_predio = lit pmf,
     rr_estado = Some (lit ''En evaluacion''), rr_resumido = Some (lit resumido),
     rr_ingreso = None, rr_propietario = None\<rparr>"

theorem first_row_wins_correct_witness:
  "map fst (first_row_wins K_pmf [demo_row 9 ''P'' ''Aprobado'', demo_row 2 ''P'' ''Tachado''])
     = [lit ''P'']"
  using first_row_wins_correct [of K_pmf "[demo_row 9 ''P'' ''Aprobado'', demo_row 2 ''P'' ''Tachado'']"]
  by (simp add: demo_row_def row_key_def)

text \<open>
  None of the three status bases depends on the order in which rows are read: with distinct
  source row numbers, a permutation of the rows gives the same entries in each basis.
\<close>

theorem status_bases_order:
  assumes "mset rows = mset rows'" and "distinct (map rr_number rows)"
  shows "mset (estado_resumido_first_row key rows) = mset (estado_resumido_first_row key rows')
    \<and> mset (pending_priority_legacy u key rows) = mset (pending_priority_legacy u key rows')
    \<and> mset (owner_stage_legacy u key rows) = mset (owner_stage_legacy u key rows')"
  using resumido.basis_order [OF assms] pending.basis_order [OF assms] owner.basis_order [OF assms]
  by blast

theorem status_bases_order_witness:
  "mset (pending_priority_legacy latin_ucd K_pmf [demo_row 9 ''P'' ''Aprobado'', demo_row 2 ''P'' ''Tachado''])
     = mset (pending_priority_legacy latin_ucd K_pmf [demo_row 2 ''P'' ''Tachado'', demo_row 9 ''P'' ''Aprobado''])"
  using status_bases_order [of "[demo_row 9 ''P'' ''Aprobado'', demo_row 2 ''P'' ''Tachado'']"
      "[demo_row 2 ''P'' ''Tachado'', demo_row 9 ''P'' ''Aprobado'']" K_pmf latin_ucd]
  by (simp add: demo_row_def)

lemma conflict_keys:
  "k \<in> fst ` set (estado_resumido_conflicts u key rows) \<longleftrightarrow>
     (\<exists>r \<in> set rows. \<exists>r' \<in> set rows. row_key key r = k \<and> row_key key r' = k
        \<and> normalized_label u (rr_resumido r) \<noteq> normalized_label u (rr_resumido r'))"
proof -
  let ?n = "\<lambda>r. normalized_label u (rr_resumido r)" and ?R = "{r \<in> set rows. row_key key r = k}"
  have card: "card (?n ` ?R) > 1 \<longleftrightarrow> (\<exists>r \<in> ?R. \<exists>r' \<in> ?R. ?n r \<noteq> ?n r')"
    by (subst card_two_iff) auto
  have "k \<in> fst ` set (estado_resumido_conflicts u key rows) \<longleftrightarrow>
      k \<in> fst ` set (distinct_estado_resumido u key rows) \<and> card (?n ` ?R) > 1"
    unfolding estado_resumido_conflicts_def
    by (force dest: distinct_estado_entry)
  also have "k \<in> fst ` set (distinct_estado_resumido u key rows) \<longleftrightarrow> k \<in> row_key key ` set rows"
    using arg_cong [OF keys_distinct_estado [of u key rows], of set] by simp
  finally show ?thesis unfolding card by auto
qed

lemma conflict_entry:
  "(k, vals) \<in> set (estado_resumido_conflicts u key rows) \<Longrightarrow>
     length vals = card ((\<lambda>r. normalized_label u (rr_resumido r)) ` {r \<in> set rows. row_key key r = k})"
  by (auto simp: estado_resumido_conflicts_def dest: distinct_estado_entry)

lemma distinct_conflicts: "distinct (map fst (estado_resumido_conflicts u key rows))"
  unfolding estado_resumido_conflicts_def
  by (rule distinct_map_filter) (simp add: keys_distinct_estado)

text \<open>
  A key is reported as conflicting exactly when two of its rows carry \<open>Estado resumido\<close>
  values that differ as labels, that is after folding case, accents and whitespace.
\<close>

theorem conflicts_exactly:
  "k \<in> fst ` set (estado_resumido_conflicts u key rows) \<longleftrightarrow>
     (\<exists>r \<in> set rows. \<exists>r' \<in> set rows. row_key key r = k \<and> row_key key r' = k
        \<and> normalized_label u (rr_resumido r) \<noteq> normalized_label u (rr_resumido r'))"
  by (rule conflict_keys)

lemma ascii_lower_idem [simp]: "ascii_lower (ascii_lower c) = ascii_lower c"
  by (simp add: ascii_lower_def)

lemma normalized_label_ascii:
  assumes "ascii_tables u" and "is_ascii s"
  shows "normalized_label u (Some s) =
    (let t = strip (collapse is_space (map ascii_lower (strip s))) in if t = [] then None else Some t)"
proof -
  have "is_ascii (strip s)"
    using assms(2) set_strip_by [of is_space s] by (auto simp: is_ascii_def strip_def)
  moreover from this have "is_ascii (map ascii_lower (strip s))"
    by (auto simp: is_ascii_def ascii_lower_def)
  ultimately show ?thesis
    using assms(1) by (simp add: normalized_label_def Let_def ascii_tables.casefold_of_ascii
        ascii_tables.marks_of_ascii)
qed


theorem conflicts_exactly_witness:
  "lit ''P'' \<in> fst ` set (estado_resumido_conflicts latin_ucd K_pmf
     [demo_row 9 ''P'' ''Aprobado'', demo_row 2 ''P'' ''Tachado''])"
  unfolding conflicts_exactly
  by (rule bexI [of _ "demo_row 9 ''P'' ''Aprobado''"], rule bexI [of _ "demo_row 2 ''P'' ''Tachado''"])
    (simp_all add: demo_row_def row_key_def normalized_label_def nfkd_def casefold_def drop_marks_def
      strip_def strip_by_def is_space_def latin_fold_def latin_decomp_def latin_ccc_def)

lemma map_ascii_space: "is_space (ascii_lower c) = is_space c"
  by (auto simp: ascii_lower_def is_space_def)

lemma strip_map_lower: "strip (map ascii_lower s) = map ascii_lower (strip s)"
  by (simp add: strip_def strip_by_def dropWhile_map comp_def map_ascii_space rev_map)

lemma collapse_map_lower: "collapse is_space (map ascii_lower s) = map ascii_lower (collapse is_space s)"
proof (induction is_space s rule: collapse.induct)
  case (2 c cs)
  then show ?case
    by (simp add: map_ascii_space dropWhile_map comp_def) (simp add: ascii_lower_def)
qed simp

lemma normal_form_facts:
  assumes "t = strip (collapse is_space r)" and "map ascii_lower r = r"
  shows "map ascii_lower t = t \<and> strip t = t \<and> collapse is_space t = t"
proof -
  have sp: "is_space 32" by (simp add: is_space_def)
  have "\<forall>c \<in> set t. is_space c \<longrightarrow> c = 32"
    using assms(1) set_strip_by [of is_space "collapse is_space r"] collapse_class_space [of is_space _ r] sp
    by (auto simp: strip_def)
  moreover have "no_double is_space t"
    using assms(1) no_double_strip no_double_collapse sp by (simp add: strip_def)
  ultimately have "collapse is_space t = t" by (rule collapse_fixed)
  moreover have "map ascii_lower t = t"
    using assms by (simp flip: strip_map_lower collapse_map_lower)
  ultimately show ?thesis using assms(1) by simp
qed

text \<open>
  On ASCII labels (every table that agrees with the standard there) the comparison key is a
  normal form: it ignores letter case and surrounding whitespace, and the key of a label is
  non-empty, lower case, trimmed, free of repeated whitespace, and its own key.
\<close>

theorem normalized_label_normal_form:
  assumes "ascii_tables u" and "is_ascii s"
  shows "normalized_label u (Some (map ascii_lower s)) = normalized_label u (Some s)
    \<and> (is_ascii w \<and> is_ascii v \<and> (\<forall>c \<in> set (w @ v). is_space c)
        \<longrightarrow> normalized_label u (Some (w @ s @ v)) = normalized_label u (Some s))
    \<and> (\<forall>t. normalized_label u (Some s) = Some t \<longrightarrow> t \<noteq> [] \<and> map ascii_lower t = t
        \<and> strip t = t \<and> collapse is_space t = t \<and> normalized_label u (Some t) = Some t)"
proof (intro conjI allI impI)
  have "is_ascii (map ascii_lower s)"
    using assms(2) by (auto simp: is_ascii_def ascii_lower_def)
  then show "normalized_label u (Some (map ascii_lower s)) = normalized_label u (Some s)"
    using assms by (simp add: normalized_label_ascii strip_map_lower comp_def)
next
  assume ws: "is_ascii w \<and> is_ascii v \<and> (\<forall>c \<in> set (w @ v). is_space c)"
  then have "is_ascii (w @ s @ v)" using assms(2) by (auto simp: is_ascii_def)
  moreover have "strip (w @ s @ v) = strip s" using ws by (intro strip_surround) auto
  ultimately show "normalized_label u (Some (w @ s @ v)) = normalized_label u (Some s)"
    using assms by (simp only: normalized_label_ascii)
next
  fix t
  assume "normalized_label u (Some s) = Some t"
  then have t: "t = strip (collapse is_space (map ascii_lower (strip s)))" and ne: "t \<noteq> []"
    using assms by (auto simp: normalized_label_ascii Let_def split: if_splits)
  have low: "map ascii_lower (map ascii_lower (strip s)) = map ascii_lower (strip s)"
    by (simp add: comp_def)
  note nf = normal_form_facts [OF t low]
  show "t \<noteq> []" by (rule ne)
  show "map ascii_lower t = t" "strip t = t" "collapse is_space t = t"
    using nf by blast+
  have "set t \<subseteq> insert 32 (ascii_lower ` set s)"
    using t set_strip_by [of is_space "collapse is_space (map ascii_lower (strip s))"]
      set_collapse [of is_space "map ascii_lower (strip s)"] set_strip_by [of is_space s]
    by (fastforce simp: strip_def)
  then have "is_ascii t" using assms(2) by (auto simp: is_ascii_def ascii_lower_def)
  then show "normalized_label u (Some t) = Some t"
    using assms(1) nf ne by (simp add: normalized_label_ascii)
qed

theorem normalized_label_normal_form_witness:
  "normalized_label latin_ucd (Some (lit ''en tramite'')) = normalized_label latin_ucd (Some (lit ''En TRAMITE''))
   \<and> normalized_label latin_ucd (Some ([9] @ lit ''En TRAMITE'' @ [32])) = normalized_label latin_ucd (Some (lit ''En TRAMITE''))"
proof -
  have s: "is_ascii (lit ''En TRAMITE'')" by (simp add: is_ascii_def)
  note nf = normalized_label_normal_form [OF latin.ascii_tables_axioms s]
  have "map ascii_lower (lit ''En TRAMITE'') = lit ''en tramite''" by (simp add: ascii_lower_def)
  moreover have "is_ascii [9] \<and> is_ascii [32] \<and> (\<forall>c \<in> set ([9] @ [32]). is_space c)"
    by (simp add: is_ascii_def is_space_def)
  ultimately show ?thesis using nf [of "[9]" "[32]"] by metis
qed

end
