(* ===== verification/Lifecycle.thy ===== *)
theory Lifecycle
  imports Rollups
begin

text \<open>
  \<open>transelec_ingestion/lifecycle_view.py\<close> (\<open>lifecycle_pmf_v1\<close>): where each plan stands in
  CONAF's process, read off its first row. The group comes from the folded \<open>Estado
  resumido\<close>, the step inside \<open>en_tramite\<close> from \<open>Estado\<close>; anything the basis does not
  know is \<open>sin_clasificar\<close> with its reason.
\<close>

datatype life_group = G_aprobado | G_en_tramite | G_descartado | G_desistido | G_sin_clasificar

datatype life_step = St_sin_ingreso | St_en_evaluacion | St_rechazado_esperando_recurso
  | St_en_recurso_reposicion | St_en_recurso_jerarquico

datatype life_reason = R_resumido_desconocido | R_estado_desconocido | R_no_coinciden

datatype life_flag = Filas_no_coinciden

definition group_order :: "life_group list" where
  "group_order = [G_aprobado, G_en_tramite, G_descartado, G_desistido, G_sin_clasificar]"

definition step_order :: "life_step list" where
  "step_order = [St_sin_ingreso, St_en_evaluacion, St_rechazado_esperando_recurso,
     St_en_recurso_reposicion, St_en_recurso_jerarquico]"

definition closed_groups :: "life_group list" where
  "closed_groups = [G_aprobado, G_descartado, G_desistido]"

definition group_by_resumido :: "(pystr, life_group) pydict" where
  "group_by_resumido =
     [(lit ''aprobado'', G_aprobado), (lit ''en tramite'', G_en_tramite),
      (lit ''rechazado'', G_en_tramite), (lit ''descartado'', G_descartado),
      (lit ''desistido'', G_desistido)]"

record life_row =
  lr_number :: int
  lr_pmf :: pystr
  lr_estado :: "pystr option"
  lr_resumido :: "pystr option"
  lr_ingreso :: "pystr option"
  lr_ingreso2 :: "pystr option"

record pmf_lifecycle =
  pl_pmf :: pystr
  pl_number :: int
  pl_group :: life_group
  pl_step :: "life_step option"
  pl_reason :: "life_reason option"
  pl_flags :: "life_flag list"

record lifecycle_summary =
  ls_total :: nat
  ls_groups :: "(life_group, nat) pydict"
  ls_steps :: "(life_step, nat) pydict"
  ls_pmfs :: "pmf_lifecycle list"

text \<open>
  \<open>re.compile(r"\bw\b").search(s)\<close>: a word boundary lies between a word character and a
  non-word character or an end of the text.
\<close>

definition at_boundary :: "ucd \<Rightarrow> bool \<Rightarrow> pystr \<Rightarrow> bool" where
  "at_boundary u prev rest \<longleftrightarrow> prev \<noteq> (case rest of [] \<Rightarrow> False | c # _ \<Rightarrow> ucd_word u c)"

fun word_search :: "ucd \<Rightarrow> pystr \<Rightarrow> bool \<Rightarrow> pystr \<Rightarrow> bool" where
  "word_search u w prev [] = False"
| "word_search u w prev (c # cs) =
     (at_boundary u prev (c # cs) \<and> starts_with w (c # cs)
        \<and> at_boundary u (ucd_word u (last w)) (drop (length w) (c # cs))
      \<or> word_search u w (ucd_word u c) cs)"

definition says_approved :: "ucd \<Rightarrow> pystr option \<Rightarrow> bool" where
  "says_approved u estado =
     (case estado of None \<Rightarrow> False | Some s \<Rightarrow> word_search u (lit ''aprobado'') False s)"

definition group_label :: "life_group \<Rightarrow> pystr" where
  "group_label g = (case g of
      G_aprobado \<Rightarrow> lit ''aprobado'' | G_en_tramite \<Rightarrow> lit ''en_tramite''
    | G_descartado \<Rightarrow> lit ''descartado'' | G_desistido \<Rightarrow> lit ''desistido''
    | G_sin_clasificar \<Rightarrow> lit ''sin_clasificar'')"

definition contradiction :: "ucd \<Rightarrow> life_group \<Rightarrow> pystr option \<Rightarrow> bool" where
  "contradiction u grp estado =
     (if grp = G_aprobado then \<not> says_approved u estado
      else if says_approved u estado then True
      else if grp = G_descartado \<or> grp = G_desistido then estado \<noteq> Some (group_label grp)
      else False)"

definition life_step_of :: "life_row \<Rightarrow> pystr option \<Rightarrow> life_step option" where
  "life_step_of row estado =
     (if blank_text (lr_ingreso row) \<and> blank_text (lr_ingreso2 row) then Some St_sin_ingreso
      else if estado = Some (lit ''en evaluacion'') then Some St_en_evaluacion
      else if estado = Some (lit ''rechazado'')
           \<or> (case estado of None \<Rightarrow> False
              | Some s \<Rightarrow> starts_with (lit ''recurso'') s \<and> ends_with (lit ''rechazado'') s)
        then Some St_rechazado_esperando_recurso
      else if estado = Some (lit ''recurso reposicion'') then Some St_en_recurso_reposicion
      else if estado = Some (lit ''recurso jerarquico'') then Some St_en_recurso_jerarquico
      else None)"

definition classify_first_row ::
  "ucd \<Rightarrow> life_row \<Rightarrow> life_group \<times> life_step option \<times> life_reason option" where
  "classify_first_row u row =
     (case map_of group_by_resumido (text_or_empty (normalized_label u (lr_resumido row))) of
        None \<Rightarrow> (G_sin_clasificar, None, Some R_resumido_desconocido)
      | Some grp \<Rightarrow>
          (let estado = normalized_label u (lr_estado row)
           in if contradiction u grp estado then (G_sin_clasificar, None, Some R_no_coinciden)
              else if grp \<noteq> G_en_tramite then (grp, None, None)
              else (case life_step_of row estado of
                  None \<Rightarrow> (G_sin_clasificar, None, Some R_estado_desconocido)
                | Some step \<Rightarrow> (G_en_tramite, Some step, None))))"

definition lifecycle_entry :: "ucd \<Rightarrow> pystr \<times> life_row list \<Rightarrow> pmf_lifecycle" where
  "lifecycle_entry u g =
     (let first = arg_min_list lr_number (snd g);
          c = classify_first_row u first;
          disagree = card (set (map (\<lambda>r. normalized_label u (lr_estado r)) (snd g))) > 1
                   \<or> card (set (map (\<lambda>r. normalized_label u (lr_resumido r)) (snd g))) > 1
      in \<lparr>pl_pmf = fst g, pl_number = lr_number first, pl_group = fst c, pl_step = fst (snd c),
          pl_reason = snd (snd c), pl_flags = (if disagree then [Filas_no_coinciden] else [])\<rparr>)"

definition build_lifecycle :: "ucd \<Rightarrow> life_row list \<Rightarrow> lifecycle_summary" where
  "build_lifecycle u rows =
     (let pmfs = sort_key pl_number (map (lifecycle_entry u) (group_by lr_pmf rows))
      in \<lparr>ls_total = length pmfs,
          ls_groups = count_into (zero_counts group_order) (map pl_group pmfs),
          ls_steps = count_into (zero_counts step_order)
            (concat (map (\<lambda>e. case pl_step e of None \<Rightarrow> [] | Some s \<Rightarrow> [s]) pmfs)),
          ls_pmfs = pmfs\<rparr>)"

section \<open>Classification\<close>

lemma classify_shape:
  "classify_first_row u row = (g, s, r) \<Longrightarrow>
     (s \<noteq> None \<longleftrightarrow> g = G_en_tramite) \<and> (r \<noteq> None \<longleftrightarrow> g = G_sin_clasificar)"
  by (auto simp: classify_first_row_def Let_def group_by_resumido_def dest: sym
      split: option.splits if_splits)

text \<open>
  The classification of a plan's first row, branch by branch, from the folded labels alone:
  approved only when both columns say so, withdrawn or discarded only when both columns carry
  that very label, in progress (with a step) only when the row does not say approved, and
  unclassified otherwise, always with a reason and never with a step.
\<close>

theorem classify_first_row_correct:
  assumes "classify_first_row u row = (g, s, r)"
    and "R = normalized_label u (lr_resumido row)" and "E = normalized_label u (lr_estado row)"
  shows "(g = G_aprobado \<longleftrightarrow> R = Some (lit ''aprobado'') \<and> says_approved u E)
    \<and> (g = G_descartado \<longleftrightarrow> R = Some (lit ''descartado'') \<and> E = Some (lit ''descartado'') \<and> \<not> says_approved u E)
    \<and> (g = G_desistido \<longleftrightarrow> R = Some (lit ''desistido'') \<and> E = Some (lit ''desistido'') \<and> \<not> says_approved u E)
    \<and> (g = G_en_tramite \<longleftrightarrow> (R = Some (lit ''en tramite'') \<or> R = Some (lit ''rechazado''))
         \<and> \<not> says_approved u E \<and> life_step_of row E \<noteq> None)
    \<and> s = (if g = G_en_tramite then life_step_of row E else None)
    \<and> (r = None \<longleftrightarrow> g \<noteq> G_sin_clasificar)"
  using assms
  by (cases R; auto simp: classify_first_row_def Let_def group_by_resumido_def text_or_empty_def
      contradiction_def group_label_def split: option.splits if_splits; metis)

definition demo_life :: "int \<Rightarrow> string \<Rightarrow> string \<Rightarrow> string \<Rightarrow> life_row" where
  "demo_life n pmf estado resumido = \<lparr>lr_number = n, lr_pmf = lit pmf,
     lr_estado = Some (lit estado), lr_resumido = Some (lit resumido),
     lr_ingreso = Some (lit ''123''), lr_ingreso2 = None\<rparr>"

lemmas eval_label = normalized_label_def nfkd_def casefold_def drop_marks_def strip_def strip_by_def
  is_space_def latin_fold_def latin_decomp_def latin_ccc_def

theorem classify_first_row_correct_witness:
  "fst (classify_first_row latin_ucd (demo_life 4 ''P1'' ''En  Evaluacion'' ''En Tramite'')) = G_en_tramite"
proof -
  let ?row = "demo_life 4 ''P1'' ''En  Evaluacion'' ''En Tramite''"
  have R: "Some (lit ''en tramite'') = normalized_label latin_ucd (lr_resumido ?row)"
    and E: "Some (lit ''en evaluacion'') = normalized_label latin_ucd (lr_estado ?row)"
    by (simp_all add: demo_life_def eval_label)
  have a: "\<not> says_approved latin_ucd (Some (lit ''en evaluacion''))"
    by (simp add: says_approved_def starts_with_def)
  have s: "life_step_of ?row (Some (lit ''en evaluacion'')) \<noteq> None"
    by (simp add: life_step_of_def)
  obtain g s r where c: "classify_first_row latin_ucd ?row = (g, s, r)" by (metis prod_cases3)
  from classify_first_row_correct [OF c R E] a s c show ?thesis by simp
qed

section \<open>Summary\<close>

lemma all_groups: "set (map pl_group es) \<subseteq> set group_order"
proof -
  have "g \<in> set group_order" for g by (cases g) (simp_all add: group_order_def)
  then show ?thesis by blast
qed

lemma entry_shape:
  "(pl_step (lifecycle_entry u g) \<noteq> None \<longleftrightarrow> pl_group (lifecycle_entry u g) = G_en_tramite)
   \<and> (pl_reason (lifecycle_entry u g) \<noteq> None \<longleftrightarrow> pl_group (lifecycle_entry u g) = G_sin_clasificar)"
  using classify_shape [of u "arg_min_list lr_number (snd g)"
      "fst (classify_first_row u (arg_min_list lr_number (snd g)))"
      "fst (snd (classify_first_row u (arg_min_list lr_number (snd g))))"
      "snd (snd (classify_first_row u (arg_min_list lr_number (snd g))))"]
  by (simp add: lifecycle_entry_def Let_def)

lemma pmfs_of_lifecycle:
  "ls_pmfs (build_lifecycle u rows) = sort_key pl_number (map (lifecycle_entry u) (group_by lr_pmf rows))"
  by (simp add: build_lifecycle_def Let_def)

lemma pmf_entry_shape:
  "e \<in> set (ls_pmfs (build_lifecycle u rows)) \<Longrightarrow>
     (pl_step e \<noteq> None \<longleftrightarrow> pl_group e = G_en_tramite) \<and> (pl_reason e \<noteq> None \<longleftrightarrow> pl_group e = G_sin_clasificar)"
proof -
  assume "e \<in> set (ls_pmfs (build_lifecycle u rows))"
  then obtain g where "e = lifecycle_entry u g" by (auto simp: pmfs_of_lifecycle)
  then show ?thesis using entry_shape [of u g] by simp
qed

lemma length_steps:
  "(\<forall>e \<in> set es. pl_step e \<noteq> None \<longleftrightarrow> pl_group e = G_en_tramite) \<Longrightarrow>
     length (concat (map (\<lambda>e. case pl_step e of None \<Rightarrow> [] | Some s \<Rightarrow> [s]) es))
       = count_list (map pl_group es) G_en_tramite"
  by (induction es) (auto split: option.splits)

text \<open>
  The lifecycle summary is a partition: every plan of the rows is counted in exactly one
  group, the group counts add up to the number of distinct plans, the step counts add up to the
  plans in progress, and the plans are listed once each, ordered by their first source row.
\<close>

theorem lifecycle_partition:
  "map fst (ls_groups (build_lifecycle u rows)) = group_order
   \<and> dict_total (ls_groups (build_lifecycle u rows)) = card (lr_pmf ` set rows)
   \<and> dict_total (ls_steps (build_lifecycle u rows)) = dict_count (ls_groups (build_lifecycle u rows)) G_en_tramite
   \<and> ls_total (build_lifecycle u rows) = card (lr_pmf ` set rows)
   \<and> mset (map pl_pmf (ls_pmfs (build_lifecycle u rows))) = mset (dedup (map lr_pmf rows))
   \<and> sorted (map pl_number (ls_pmfs (build_lifecycle u rows)))"
proof -
  let ?L = "build_lifecycle u rows"
  have len: "length (ls_pmfs ?L) = card (lr_pmf ` set rows)"
    by (simp add: pmfs_of_lifecycle length_group_by)
  have groups: "ls_groups ?L = count_into (zero_counts group_order) (map pl_group (ls_pmfs ?L))"
    and total: "ls_total ?L = length (ls_pmfs ?L)"
    by (simp_all add: build_lifecycle_def Let_def)
  have steps: "ls_steps ?L = count_into (zero_counts step_order)
      (concat (map (\<lambda>e. case pl_step e of None \<Rightarrow> [] | Some s \<Rightarrow> [s]) (ls_pmfs ?L)))"
    by (simp add: build_lifecycle_def Let_def)
  have "length (concat (map (\<lambda>e. case pl_step e of None \<Rightarrow> [] | Some s \<Rightarrow> [s]) (ls_pmfs ?L)))
      = count_list (map pl_group (ls_pmfs ?L)) G_en_tramite"
    using pmf_entry_shape [of _ u rows] by (intro length_steps) blast
  moreover have "map fst (ls_groups ?L) = group_order"
    unfolding groups using all_groups [of "ls_pmfs ?L"] by (subst keys_count_into) simp_all
  moreover have "map pl_pmf (map (lifecycle_entry u) gs) = map fst gs" for gs
    by (simp add: lifecycle_entry_def Let_def)
  then have "mset (map pl_pmf (ls_pmfs ?L)) = mset (dedup (map lr_pmf rows))"
    by (metis keys_group_by mset_map mset_sort pmfs_of_lifecycle)
  ultimately show ?thesis
    by (simp add: groups steps total len dict_total_into dict_count_into)
      (simp add: pmfs_of_lifecycle)
qed

lemma arg_min_list_in: "xs \<noteq> [] \<Longrightarrow> arg_min_list f xs \<in> set xs"
  by (induction f xs rule: arg_min_list.induct) (auto simp: Let_def)

lemma arg_min_list_le: "x \<in> set xs \<Longrightarrow> f (arg_min_list f xs) \<le> f x"
proof (induction f xs rule: arg_min_list.induct)
  case (2 f y z zs)
  then show ?case by (auto simp: Let_def)
qed auto

lemma arg_min_list_mset:
  assumes "mset xs = mset ys" and "inj_on f (set xs)"
  shows "arg_min_list f xs = arg_min_list f ys"
proof (cases "xs = []")
  case True
  then show ?thesis using assms(1) by simp
next
  case False
  have s: "set xs = set ys" using assms(1) by (metis set_mset_mset)
  with False have "ys \<noteq> []" by auto
  with False s have "arg_min_list f xs \<in> set xs" "arg_min_list f ys \<in> set xs"
    using arg_min_list_in by metis+
  moreover from this s have "f (arg_min_list f xs) = f (arg_min_list f ys)"
    using arg_min_list_le by (metis order_antisym)
  ultimately show ?thesis using assms(2) by (auto dest: inj_onD)
qed

lemma lifecycle_entry_mset:
  "mset rs = mset rs' \<Longrightarrow> inj_on lr_number (set rs)
     \<Longrightarrow> lifecycle_entry u (k, rs) = lifecycle_entry u (k, rs')"
  using arg_min_list_mset [of rs rs' lr_number] mset_eq_setD [of rs rs']
  by (simp add: lifecycle_entry_def)

text \<open>
  The whole summary is independent of the order in which the rows arrive: with distinct source
  row numbers, a permutation of the rows gives the very same result.
\<close>

theorem lifecycle_order:
  assumes "mset rows = mset rows'" and "distinct (map lr_number rows)"
  shows "build_lifecycle u rows = build_lifecycle u rows'"
proof -
  let ?E = "\<lambda>rows. map (\<lambda>k. lifecycle_entry u (k, filter (\<lambda>r. lr_pmf r = k) rows)) (dedup (map lr_pmf rows))"
  have s: "set rows = set rows'" using assms(1) by (metis set_mset_mset)
  have inj: "inj_on lr_number (set rows)" using assms(2) by (simp add: distinct_map)
  have E: "map (lifecycle_entry u) (group_by lr_pmf rows) = ?E rows" for rows
    by (simp add: group_by_eq)
  have "mset (dedup (map lr_pmf rows)) = mset (dedup (map lr_pmf rows'))"
    by (simp add: set_eq_iff_mset_eq_distinct [THEN iffD1] s)
  moreover have "lifecycle_entry u (k, filter (\<lambda>r. lr_pmf r = k) rows)
      = lifecycle_entry u (k, filter (\<lambda>r. lr_pmf r = k) rows')" for k
    using assms(1) inj by (intro lifecycle_entry_mset) (auto simp: mset_filter intro: inj_on_subset)
  ultimately have m: "mset (?E rows) = mset (?E rows')" by simp
  have "inj_on pl_number (set (?E rows))"
  proof (rule inj_onI)
    fix x y assume xy: "x \<in> set (?E rows)" "y \<in> set (?E rows)" "pl_number x = pl_number y"
    have num: "\<exists>r \<in> set rows. lr_number r = pl_number z \<and> z = lifecycle_entry u (lr_pmf r, filter (\<lambda>q. lr_pmf q = lr_pmf r) rows)"
      if z: "z \<in> set (?E rows)" for z
    proof -
      from z obtain k where k: "k \<in> lr_pmf ` set rows"
        and zk: "z = lifecycle_entry u (k, filter (\<lambda>r. lr_pmf r = k) rows)" by auto
      let ?rs = "filter (\<lambda>r. lr_pmf r = k) rows"
      from k have "?rs \<noteq> []" by (auto simp: filter_empty_conv)
      then have "arg_min_list lr_number ?rs \<in> set ?rs" by (rule arg_min_list_in)
      then show ?thesis unfolding zk
        by (intro bexI [of _ "arg_min_list lr_number ?rs"]) (auto simp: lifecycle_entry_def Let_def)
    qed
    from num [OF xy(1)] obtain a where a: "a \<in> set rows" "lr_number a = pl_number x"
      "x = lifecycle_entry u (lr_pmf a, filter (\<lambda>q. lr_pmf q = lr_pmf a) rows)" by blast
    from num [OF xy(2)] obtain b where b: "b \<in> set rows" "lr_number b = pl_number y"
      "y = lifecycle_entry u (lr_pmf b, filter (\<lambda>q. lr_pmf q = lr_pmf b) rows)" by blast
    have "lr_number a = lr_number b" using a(2) b(2) xy(3) by simp
    with inj have "a = b" using a(1) b(1) by (rule inj_onD)
    with a(3) b(3) show "x = y" by simp
  qed
  then have "sort_key pl_number (?E rows) = sort_key pl_number (?E rows')"
    by (rule sort_key_mset_eq [OF m])
  then show ?thesis by (simp add: build_lifecycle_def E)
qed

theorem lifecycle_order_witness:
  "build_lifecycle latin_ucd [demo_life 9 ''P1'' ''Aprobado'' ''Aprobado'', demo_life 4 ''P1'' ''x'' ''y'']
     = build_lifecycle latin_ucd [demo_life 4 ''P1'' ''x'' ''y'', demo_life 9 ''P1'' ''Aprobado'' ''Aprobado'']"
  by (rule lifecycle_order) (simp_all add: demo_life_def)

end
