(* ===== verification/Plazo.thy ===== *)
theory Plazo
  imports PmfField
begin

text \<open>
  \<open>transelec_ingestion/plazo_conaf.py\<close> (\<open>plazo_conaf_90_habiles_v1\<close>): CONAF's term of 90
  business days. The clock starts at the plan's most recent ingreso; the 90th business day after it
  is the deadline; the traffic light compares it with today. Holidays are the caller's function,
  a parameter here. The day loops rest on the calendar's contract (\<open>day_line\<close>, interpreted as
  \<open>dates\<close>).
\<close>

section \<open>Data\<close>

definition plazo_habiles :: int where "plazo_habiles = 90"
definition por_vencer_umbral :: int where "por_vencer_umbral = 10"

datatype plazo_estado = Z_vencido | Z_por_vencer | Z_en_plazo | Z_sin_fecha | Z_sin_fecha_texto
  | Z_conflicto | Z_no_aplica

definition plazo_estado_order :: "plazo_estado list" where
  "plazo_estado_order = [Z_vencido, Z_por_vencer, Z_en_plazo, Z_sin_fecha, Z_sin_fecha_texto,
     Z_conflicto, Z_no_aplica]"

datatype plazo_field = Fecha_ingreso_2 | Fecha_ingreso | Fecha_90_dias

datatype cruce_t = C_coincide | C_difiere | C_sin_dato | C_sin_calculo

definition base_fields :: "plazo_field list" where
  "base_fields = [Fecha_ingreso_2, Fecha_ingreso]"

record plazo_row =
  zr_number :: int
  zr_pmf :: pystr
  zr_resumido :: "pystr option"
  zr_ingreso :: "date option"
  zr_ingreso2 :: "date option"
  zr_90_dias :: "date option"
  zr_text_dates :: text_dates

record pmf_plazo =
  zp_pmf :: pystr
  zp_number :: int
  zp_estado :: plazo_estado
  zp_base_field :: "plazo_field option"
  zp_base_date :: "date option"
  zp_base_rows :: "int list"
  zp_deadline :: "date option"
  zp_elapsed :: "int option"
  zp_remaining :: "int option"
  zp_planilla_90 :: "date option"
  zp_cruce :: cruce_t
  zp_diferencia :: "int option"
  zp_legacy :: bool

record plazo_summary =
  zs_observed_on :: date
  zs_total :: nat
  zs_estados :: "(plazo_estado, nat) pydict"
  zs_difiere :: nat
  zs_legacy_rows :: nat
  zs_pmfs :: "pmf_plazo list"

section \<open>Business days\<close>

definition is_business_day :: "date \<Rightarrow> (date \<Rightarrow> bool) \<Rightarrow> bool" where
  "is_business_day d hol \<longleftrightarrow> weekday d < 5 \<and> \<not> hol d"

text \<open>
  \<open>while found < count: day += timedelta(days=1); ...\<close>; the addition raises past 9999-12-31,
  which is also why the loop ends.
\<close>

function add_loop :: "(date \<Rightarrow> bool) \<Rightarrow> int \<Rightarrow> int \<Rightarrow> date \<Rightarrow> date py_result" where
  "add_loop hol cnt found day =
     (if found < cnt then
        (case next_day day of
           None \<Rightarrow> Inl OverflowError
         | Some d \<Rightarrow> add_loop hol cnt (if is_business_day d hol then found + 1 else found) d)
      else Inr day)"
  by auto
termination
  by (relation "inv_image (less_than <*lex*> less_than <*lex*> less_than) (\<lambda>(_, _, _, d). days_left d)")
    (auto simp: next_day_left)

declare add_loop.simps [simp del]

definition add_business_days :: "date \<Rightarrow> int \<Rightarrow> (date \<Rightarrow> bool) \<Rightarrow> date py_result" where
  "add_business_days start cnt hol =
     (if cnt < 1 then Inl ValueError else add_loop hol cnt 0 start)"

function between_loop :: "(date \<Rightarrow> bool) \<Rightarrow> date \<Rightarrow> int \<Rightarrow> date \<Rightarrow> int py_result" where
  "between_loop hol end_day cnt day =
     (if day < end_day then
        (case next_day day of
           None \<Rightarrow> Inl OverflowError
         | Some d \<Rightarrow> between_loop hol end_day (if is_business_day d hol then cnt + 1 else cnt) d)
      else Inr cnt)"
  by auto
termination
  by (relation "inv_image (less_than <*lex*> less_than <*lex*> less_than) (\<lambda>(_, _, _, d). days_left d)")
    (auto simp: next_day_left)

declare between_loop.simps [simp del]

definition business_days_between :: "date \<Rightarrow> date \<Rightarrow> (date \<Rightarrow> bool) \<Rightarrow> int py_result" where
  "business_days_between start end_day hol = between_loop hol end_day 0 start"

section \<open>Dates of a plan\<close>

definition plazo_field_name :: "plazo_field \<Rightarrow> string" where
  "plazo_field_name f = (case f of Fecha_ingreso_2 \<Rightarrow> ''fecha_ingreso_2''
     | Fecha_ingreso \<Rightarrow> ''fecha_ingreso'' | Fecha_90_dias \<Rightarrow> ''fecha_90_dias'')"

definition plazo_attr :: "plazo_row \<Rightarrow> plazo_field \<Rightarrow> pyval" where
  "plazo_attr row f =
     (case (case f of Fecha_ingreso_2 \<Rightarrow> zr_ingreso2 row | Fecha_ingreso \<Rightarrow> zr_ingreso row
        | Fecha_90_dias \<Rightarrow> zr_90_dias row) of None \<Rightarrow> VNone | Some d \<Rightarrow> VDate d)"

definition date_value :: "plazo_row \<Rightarrow> plazo_field \<Rightarrow> pyval" where
  "date_value row f = value_or_unread_text (plazo_attr row f) (zr_text_dates row) (plazo_field_name f)"

definition plazo_resolve :: "plazo_row list \<Rightarrow> plazo_field \<Rightarrow> pmf_field_value" where
  "plazo_resolve rows f = resolve_pmf_field (map (\<lambda>row. (zr_number row, date_value row f)) rows)"

text \<open>\<open>isinstance(v, dt.date)\<close>; the rows hold dates or text, never datetimes.\<close>

definition date_of_val :: "pyval \<Rightarrow> date option" where
  "date_of_val v = (case v of VDate d \<Rightarrow> Some d | _ \<Rightarrow> None)"

fun base_loop :: "plazo_row list \<Rightarrow> plazo_field list
    \<Rightarrow> plazo_estado option \<times> plazo_field option \<times> date option \<times> int list" where
  "base_loop rows [] = (Some Z_sin_fecha, None, None, [])"
| "base_loop rows (name # names) =
     (let r = plazo_resolve rows name
      in if pf_status r = PBlank then base_loop rows names
         else if pf_status r = PConflict then (Some Z_conflicto, Some name, None, pf_rows r)
         else (case date_of_val (pf_value r) of
             Some d \<Rightarrow> (None, Some name, Some d, pf_rows r)
           | None \<Rightarrow> (Some Z_sin_fecha_texto, Some name, None, pf_rows r)))"

definition plazo_base :: "plazo_row list
    \<Rightarrow> plazo_estado option \<times> plazo_field option \<times> date option \<times> int list" where
  "plazo_base rows = base_loop rows base_fields"

definition plazo_cruce :: "plazo_row list \<Rightarrow> date option \<Rightarrow> cruce_t \<times> date option \<times> int option" where
  "plazo_cruce rows deadline =
     (let r = plazo_resolve rows Fecha_90_dias;
          planilla = (if pf_status r = PValue then date_of_val (pf_value r) else None)
      in case deadline of
           None \<Rightarrow> (C_sin_calculo, planilla, None)
         | Some dl \<Rightarrow>
             (case planilla of
                None \<Rightarrow> (C_sin_dato, None, None)
              | Some p \<Rightarrow>
                  (let difference = toordinal p - toordinal dl
                   in (if difference = 0 then C_coincide else C_difiere, planilla, Some difference))))"

definition is_legacy_vencido :: "plazo_row \<Rightarrow> date \<Rightarrow> bool" where
  "is_legacy_vencido row today =
     (if strip (case zr_resumido row of None \<Rightarrow> [] | Some s \<Rightarrow> s) = lit ''Aprobado'' then False
      else (case zr_90_dias row of None \<Rightarrow> False | Some d \<Rightarrow> d < today))"

section \<open>One entry per plan\<close>

text \<open>The base and the deadline counted from it; an overflowing count is an unreadable ingreso.\<close>

definition plazo_deadline :: "plazo_row list \<Rightarrow> (date \<Rightarrow> bool)
    \<Rightarrow> (plazo_estado option \<times> date option \<times> date option) py_result" where
  "plazo_deadline facts hol =
     (case plazo_base facts of (blocked, _, base_date, _) \<Rightarrow>
        (case base_date of
           None \<Rightarrow> Inr (blocked, None, None)
         | Some b \<Rightarrow>
             (case add_business_days b plazo_habiles hol of
                Inr dl \<Rightarrow> Inr (blocked, Some b, Some dl)
              | Inl OverflowError \<Rightarrow> Inr (Some Z_sin_fecha_texto, None, None)
              | Inl e \<Rightarrow> Inl e)))"

definition plazo_light :: "date \<Rightarrow> (date \<Rightarrow> bool) \<Rightarrow> bool
    \<Rightarrow> plazo_estado option \<times> date option \<times> date option
    \<Rightarrow> (plazo_estado \<times> int option \<times> int option) py_result" where
  "plazo_light today hol is_closed bdd =
     (if is_closed then Inr (Z_no_aplica, None, None)
      else case bdd of
        (None, Some b, Some dl) \<Rightarrow>
          bind_result (business_days_between b today hol) (\<lambda>elapsed.
            let remaining = plazo_habiles - elapsed
            in Inr (if today > dl then Z_vencido
                    else if remaining \<le> por_vencer_umbral then Z_por_vencer
                    else Z_en_plazo, Some elapsed, Some remaining))
      | (blocked, _, _) \<Rightarrow>
          Inr (case blocked of None \<Rightarrow> Z_sin_fecha | Some e \<Rightarrow> e, None, None))"

definition plazo_entry :: "date \<Rightarrow> (date \<Rightarrow> bool) \<Rightarrow> pystr set \<Rightarrow> (pystr, plazo_row list) pydict
    \<Rightarrow> pystr \<times> plazo_row list \<Rightarrow> pmf_plazo py_result" where
  "plazo_entry today hol closed_pmfs every item =
     (case item of (pmf, scoped) \<Rightarrow>
        let facts = (case map_of every pmf of None \<Rightarrow> scoped
               | Some rs \<Rightarrow> (if rs = [] then scoped else rs))
        in case plazo_base facts of (_, base_field, _, base_rows) \<Rightarrow>
          bind_result (plazo_deadline facts hol) (\<lambda>(blocked, base_date, deadline).
            case plazo_cruce facts deadline of (cruce, planilla, difference) \<Rightarrow>
              bind_result (plazo_light today hol (pmf \<in> closed_pmfs) (blocked, base_date, deadline))
                (\<lambda>(estado, elapsed, remaining).
                  Inr \<lparr>zp_pmf = pmf, zp_number = zr_number (hd scoped), zp_estado = estado,
                    zp_base_field = base_field, zp_base_date = base_date, zp_base_rows = base_rows,
                    zp_deadline = deadline, zp_elapsed = elapsed, zp_remaining = remaining,
                    zp_planilla_90 = planilla, zp_cruce = cruce, zp_diferencia = difference,
                    zp_legacy = list_ex (\<lambda>row. is_legacy_vencido row today) scoped\<rparr>)))"

definition build_plazos :: "plazo_row list \<Rightarrow> plazo_row list option \<Rightarrow> date \<Rightarrow> (date \<Rightarrow> bool)
    \<Rightarrow> pystr set \<Rightarrow> plazo_summary py_result" where
  "build_plazos rows pmf_rows today hol closed_pmfs =
     (let scope = group_by zr_pmf (sort_key zr_number rows);
          every = group_by zr_pmf (case pmf_rows of None \<Rightarrow> rows | Some rs \<Rightarrow> rs)
      in bind_result (traverse (plazo_entry today hol closed_pmfs every) scope) (\<lambda>pmfs.
           Inr \<lparr>zs_observed_on = today, zs_total = length pmfs,
             zs_estados = count_into (zero_counts plazo_estado_order) (map zp_estado pmfs),
             zs_difiere = length (filter (\<lambda>e. zp_cruce e = C_difiere) pmfs),
             zs_legacy_rows = length (filter (\<lambda>row. is_legacy_vencido row today) rows),
             zs_pmfs = pmfs\<rparr>))"

section \<open>What the day loops compute\<close>

definition business_days :: "(date \<Rightarrow> bool) \<Rightarrow> date \<Rightarrow> date \<Rightarrow> date set" where
  "business_days hol a b = {d. valid_date d \<and> a < d \<and> d \<le> b \<and> is_business_day d hol}"

lemma business_days_span: "business_days hol a b = {d \<in> dates.span a b. is_business_day d hol}"
  by (auto simp: business_days_def dates.span_def)

lemma card_business_next:
  "valid_date a \<Longrightarrow> next_day a = Some e \<Longrightarrow> valid_date b \<Longrightarrow> e \<le> b \<Longrightarrow>
     card (business_days hol a b) = (if is_business_day e hol then 1 else 0) + card (business_days hol e b)"
  unfolding business_days_span by (rule dates.card_span_next)

lemma business_days_empty [simp]: "business_days hol a a = {}"
  by (auto simp: business_days_def)

lemma add_loop_correct:
  assumes "valid_date day" and "found \<le> cnt"
  shows "(\<forall>e. add_loop hol cnt found day = Inr e \<longrightarrow> valid_date e \<and> day \<le> e
            \<and> found + int (card (business_days hol day e)) = cnt
            \<and> (found < cnt \<longrightarrow> day < e \<and> is_business_day e hol))
    \<and> (\<forall>x. add_loop hol cnt found day = Inl x \<longrightarrow> x = OverflowError
            \<and> found + int (card (business_days hol day max_date)) < cnt)"
  using assms
proof (induction hol cnt found day rule: add_loop.induct)
  case (1 hol cnt found day)
  show ?case
  proof (cases "found < cnt")
    case False
    with "1.prems" have f: "found = cnt" by simp
    have "add_loop hol cnt cnt day = Inr day" by (simp add: add_loop.simps [of hol cnt cnt])
    with "1.prems" f show ?thesis by simp
  next
    case lt: True
    show ?thesis
    proof (cases "next_day day")
      case None
      then have "day = max_date" using 1 next_day_None by blast
      with None lt show ?thesis by (simp add: add_loop.simps [of hol cnt found])
    next
      case (Some d)
      let ?f = "if is_business_day d hol then found + 1 else found"
      have loop: "add_loop hol cnt found day = add_loop hol cnt ?f d"
        using lt Some by (simp add: add_loop.simps [of hol cnt found day])
      have v: "valid_date d" and g: "day < d"
        using 1 Some valid_next_day dates.next_greater by blast+
      have "?f \<le> cnt" using lt by simp
      note IH = "1.IH" [OF lt Some v this]
      have one: "add_loop hol cnt cnt d = Inr d" by (simp add: add_loop.simps)
      show ?thesis unfolding loop
      proof (intro conjI allI impI)
        fix e assume e: "add_loop hol cnt ?f d = Inr e"
        with IH have h: "valid_date e" "d \<le> e" "?f + int (card (business_days hol d e)) = cnt"
          "?f < cnt \<longrightarrow> d < e \<and> is_business_day e hol" by blast+
        show "valid_date e" "day \<le> e" "day < e" using h g by auto
        show "found + int (card (business_days hol day e)) = cnt"
          using h card_business_next [OF 1(2) Some h(1,2), of hol] by (auto split: if_splits)
        show "is_business_day e hol"
        proof (cases "?f < cnt")
          case True
          with h show ?thesis by blast
        next
          case False
          with lt have "is_business_day d hol" "?f = cnt" by (auto split: if_splits)
          with e one show ?thesis by simp
        qed
      next
        fix x assume "add_loop hol cnt ?f d = Inl x"
        with IH have h: "x = OverflowError" "?f + int (card (business_days hol d max_date)) < cnt" by blast+
        show "x = OverflowError" by (rule h)
        show "found + int (card (business_days hol day max_date)) < cnt"
          using h card_business_next [OF 1(2) Some valid_max_date le_max_date [OF v], of hol]
          by (auto split: if_splits)
      qed
    qed
  qed
qed

lemma between_loop_correct:
  "valid_date day \<Longrightarrow> valid_date end_day \<Longrightarrow>
     between_loop hol end_day cnt day = Inr (cnt + int (card (business_days hol day end_day)))"
proof (induction hol end_day cnt day rule: between_loop.induct)
  case (1 hol end_day cnt day)
  show ?case
  proof (cases "day < end_day")
    case False
    then have "business_days hol day end_day = {}" by (auto simp: business_days_def)
    with False show ?thesis by (simp add: between_loop.simps)
  next
    case lt: True
    obtain d where d: "next_day day = Some d" using dates.next_exists 1 lt by blast
    have v: "valid_date d" using 1 d valid_next_day by blast
    have le: "d \<le> end_day" using lt 1 d dates.next_is_next by blast
    have "between_loop hol end_day cnt day
        = between_loop hol end_day (if is_business_day d hol then cnt + 1 else cnt) d"
      using lt d by (simp add: between_loop.simps [of hol end_day cnt day])
    also have "\<dots> = Inr ((if is_business_day d hol then cnt + 1 else cnt)
        + int (card (business_days hol d end_day)))"
      by (rule "1.IH" [OF lt d v "1.prems"(2)])
    finally show ?thesis
      using card_business_next [OF "1.prems"(1) d "1.prems"(2) le, of hol] by simp
  qed
qed

lemma between_correct:
  "valid_date start \<Longrightarrow> valid_date end_day \<Longrightarrow>
     business_days_between start end_day hol = Inr (int (card (business_days hol start end_day)))"
  by (simp add: business_days_between_def between_loop_correct)

lemma add_Inr:
  assumes "valid_date start" and "add_business_days start cnt hol = Inr e"
  shows "valid_date e \<and> start < e \<and> is_business_day e hol \<and> int (card (business_days hol start e)) = cnt"
  using add_loop_correct [OF assms(1), of 0 cnt hol] assms(2)
  by (auto simp: add_business_days_def split: if_splits)

lemma add_Inl:
  assumes "valid_date start" and "add_business_days start cnt hol = Inl x" and "1 \<le> cnt"
  shows "x = OverflowError \<and> int (card (business_days hol start max_date)) < cnt"
  using add_loop_correct [OF assms(1), of 0 cnt hol] assms(2,3)
  by (auto simp: add_business_days_def split: if_splits)

lemma card_business_mono:
  "valid_date a \<Longrightarrow> valid_date b \<Longrightarrow> valid_date c \<Longrightarrow> b \<le> c \<Longrightarrow>
     card (business_days hol a b) \<le> card (business_days hol a c)"
  unfolding business_days_span by (rule dates.card_span_mono)

lemma card_business_less:
  "valid_date a \<Longrightarrow> valid_date b \<Longrightarrow> valid_date c \<Longrightarrow> b < c \<Longrightarrow> a < c \<Longrightarrow> is_business_day c hol \<Longrightarrow>
     card (business_days hol a b) < card (business_days hol a c)"
  unfolding business_days_span by (rule dates.card_span_less)

lemma add_unique:
  assumes "valid_date start" "valid_date e" "is_business_day e hol" "start < e"
    and "int (card (business_days hol start e)) = cnt"
  shows "add_business_days start cnt hol = Inr e"
proof (cases "add_business_days start cnt hol")
  case (Inl x)
  have "e \<in> business_days hol start e" using assms by (simp add: business_days_def)
  moreover have "finite (business_days hol start e)"
    unfolding business_days_span using dates.finite_span [OF assms(1,2)] by simp
  ultimately have "card (business_days hol start e) > 0" using card_gt_0_iff by blast
  then have "1 \<le> cnt" using assms(5) by linarith
  from add_Inl [OF assms(1) Inl this] card_business_mono [OF assms(1,2) valid_max_date le_max_date, of hol]
  show ?thesis using assms(2,5) by simp
next
  case (Inr f)
  from add_Inr [OF assms(1) Inr] have f: "valid_date f" "start < f" "is_business_day f hol"
    "card (business_days hol start f) = card (business_days hol start e)" using assms(5) by auto
  have "f = e"
    using card_business_less [OF assms(1) f(1) assms(2) _ assms(4) assms(3)]
      card_business_less [OF assms(1,2) f(1) _ f(2) f(3)] f(4)
    by (metis less_irrefl linorder_neqE)
  with Inr show ?thesis by simp
qed

section \<open>Properties of the day count\<close>

text \<open>
  C1. \<open>add_business_days\<close> returns exactly the \<open>count\<close>-th business day after the start: a
  date is returned if and only if it is a business day after the start and the business days after
  the start up to it number \<open>count\<close>. The start itself never counts, the loop always ends, and
  it fails only by leaving the calendar: exactly when fewer than \<open>count\<close> business days remain
  up to 9999-12-31.
\<close>

theorem add_business_days_exact:
  assumes "valid_date start" and "1 \<le> cnt"
  shows "(add_business_days start cnt hol = Inr e \<longleftrightarrow> valid_date e \<and> start < e
            \<and> is_business_day e hol \<and> int (card (business_days hol start e)) = cnt)
    \<and> (add_business_days start cnt hol = Inl OverflowError \<longleftrightarrow>
         int (card (business_days hol start max_date)) < cnt)
    \<and> add_business_days start cnt hol \<noteq> Inl ValueError"
proof -
  let ?r = "add_business_days start cnt hol"
  have 1: "?r = Inr e \<longleftrightarrow> valid_date e \<and> start < e \<and> is_business_day e hol
      \<and> int (card (business_days hol start e)) = cnt"
    using add_Inr [OF assms(1)] add_unique [OF assms(1)] by blast
  have 2: "?r = Inl x \<Longrightarrow> x = OverflowError \<and> int (card (business_days hol start max_date)) < cnt" for x
    using add_Inl [OF assms(1) _ assms(2)] by blast
  have 3: "\<not> int (card (business_days hol start max_date)) < cnt" if "?r = Inr f" for f
  proof -
    from add_Inr [OF assms(1) that] have f: "valid_date f" "int (card (business_days hol start f)) = cnt"
      by blast+
    from card_business_mono [OF assms(1) f(1) valid_max_date le_max_date [OF f(1)], of hol] f(2)
    show ?thesis by linarith
  qed
  show ?thesis using 1 2 3 by (cases ?r) auto
qed

text \<open>
  \<open>business_days_between\<close> never raises on calendar dates, counts exactly the business
  days after the start up to and including the end (none when the end is not after the start), and
  undoes \<open>add_business_days\<close>.
\<close>

theorem business_days_between_exact:
  assumes "valid_date start" and "valid_date end_day"
  shows "business_days_between start end_day hol = Inr (int (card (business_days hol start end_day)))
    \<and> (end_day \<le> start \<longrightarrow> business_days_between start end_day hol = Inr 0)
    \<and> (\<forall>n e. add_business_days start n hol = Inr e \<longrightarrow> business_days_between start e hol = Inr n)"
proof -
  have "business_days hol start end_day = {}" if "end_day \<le> start"
    using that by (auto simp: business_days_def)
  then show ?thesis
    using assms add_Inr [OF assms(1)] by (auto simp: between_correct)
qed


definition no_holidays :: "date \<Rightarrow> bool" where
  "no_holidays d = False"

theorem add_business_days_exact_witness:
  "is_business_day (Date 2026 1 5) no_holidays
   \<and> int (card (business_days no_holidays (Date 2026 1 2) (Date 2026 1 5))) = 1"
proof -
  have v: "valid_date (Date 2026 1 2)" by (simp add: valid_date_def days_in_month_def)
  have "add_business_days (Date 2026 1 2) 1 no_holidays = Inr (Date 2026 1 5)" by code_simp
  with add_business_days_exact [OF v, of 1 no_holidays "Date 2026 1 5"] show ?thesis by simp
qed

theorem business_days_between_exact_witness:
  "business_days_between (Date 2026 1 5) (Date 2026 1 2) no_holidays = Inr 0"
proof -
  have v: "valid_date (Date 2026 1 5)" "valid_date (Date 2026 1 2)"
    by (simp_all add: valid_date_def days_in_month_def)
  have "Date 2026 1 2 \<le> Date 2026 1 5" by (simp add: less_eq_date_def)
  with business_days_between_exact [OF v, of no_holidays] show ?thesis by blast
qed

section \<open>The base of a plan\<close>

definition plazo_dates_ok :: "plazo_row \<Rightarrow> bool" where
  "plazo_dates_ok row \<longleftrightarrow> (\<forall>d. zr_ingreso row = Some d \<or> zr_ingreso2 row = Some d
     \<or> zr_90_dias row = Some d \<longrightarrow> valid_date d)"

lemma date_value_date: "date_of_val (comparable_cell (date_value row f)) = Some d \<Longrightarrow> plazo_attr row f = VDate d"
  by (auto simp: date_value_def value_or_unread_text_def date_of_val_def comparable_cell_def is_blank_def
      plazo_attr_def split: pyval.splits if_splits option.splits plazo_field.splits)

lemma plazo_attr_valid: "plazo_dates_ok row \<Longrightarrow> plazo_attr row f = VDate d \<Longrightarrow> valid_date d"
  by (auto simp: plazo_attr_def plazo_dates_ok_def split: plazo_field.splits option.splits)

lemma resolve_date:
  assumes "date_of_val (pf_value (plazo_resolve rows f)) = Some d"
  shows "\<exists>row \<in> set rows. plazo_attr row f = VDate d"
proof -
  let ?es = "map (\<lambda>row. (zr_number row, date_value row f)) rows"
  have st: "pf_status (resolve_pmf_field ?es) = PValue"
    using assms by (cases "pf_status (resolve_pmf_field ?es) = PValue")
      (simp_all add: plazo_resolve_def resolve_value date_of_val_def)
  then have ne: "filled ?es \<noteq> []" by (simp add: resolve_PValue_iff)
  then have "hd (filled ?es) \<in> set ?es" by (metis filled_def filter_is_subset list.set_sel(1) subsetD)
  then obtain row where row: "row \<in> set rows" "hd (filled ?es) = (zr_number row, date_value row f)" by auto
  have "date_of_val (comparable_cell (date_value row f)) = Some d"
    using assms st row(2) by (simp add: plazo_resolve_def resolve_value)
  with row(1) date_value_date show ?thesis by blast
qed

lemma plazo_base_date:
  assumes "plazo_base rows = (blocked, field, Some b, nums)"
  shows "blocked = None \<and> (\<exists>row \<in> set rows. \<exists>f. plazo_attr row f = VDate b)"
proof -
  have "base_loop rows names = (blocked, field, Some b, nums) \<Longrightarrow>
      blocked = None \<and> (\<exists>f. date_of_val (pf_value (plazo_resolve rows f)) = Some b)" for names
    by (induction names) (auto simp: Let_def split: if_splits option.splits)
  then show ?thesis using assms resolve_date by (metis plazo_base_def)
qed

lemma plazo_base_valid:
  assumes "\<forall>row \<in> set rows. plazo_dates_ok row" and "plazo_base rows = (blocked, field, Some b, nums)"
  shows "valid_date b"
  using plazo_base_date [OF assms(2)] assms(1) plazo_attr_valid by blast

text \<open>\<open>facts\<close>: the rows the dates of a plan are read from.\<close>

definition plazo_facts :: "(pystr, plazo_row list) pydict \<Rightarrow> pystr \<times> plazo_row list \<Rightarrow> plazo_row list" where
  "plazo_facts every item =
     (case map_of every (fst item) of None \<Rightarrow> snd item | Some rs \<Rightarrow> (if rs = [] then snd item else rs))"

lemma plazo_habiles_pos: "\<not> plazo_habiles < 1" "1 \<le> plazo_habiles"
  by (simp_all add: plazo_habiles_def)

lemma plazo_deadline_cases:
  assumes "\<forall>row \<in> set facts. plazo_dates_ok row"
  obtains blocked where "plazo_deadline facts hol = Inr (blocked, None, None)"
  | b dl where "plazo_deadline facts hol = Inr (None, Some b, Some dl)" "valid_date b"
      "add_business_days b plazo_habiles hol = Inr dl"
proof -
  obtain blocked field bd nums where base: "plazo_base facts = (blocked, field, bd, nums)" by (metis prod_cases4)
  show thesis
  proof (cases bd)
    case None
    with base show thesis by (intro that(1)) (simp add: plazo_deadline_def)
  next
    case (Some b)
    with base have v: "valid_date b" and bl: "blocked = None"
      using plazo_base_valid [OF assms] plazo_base_date by blast+
    show thesis
    proof (cases "add_business_days b plazo_habiles hol")
      case (Inl x)
      then have "x = OverflowError" using add_Inl [OF v _ plazo_habiles_pos(2)] by blast
      with base Some Inl show thesis by (intro that(1)) (simp add: plazo_deadline_def)
    next
      case (Inr dl)
      with base Some bl v show thesis by (intro that(2)) (simp_all add: plazo_deadline_def)
    qed
  qed
qed

lemma plazo_light_total:
  assumes "\<forall>row \<in> set facts. plazo_dates_ok row" and "valid_date today"
    and "plazo_deadline facts hol = Inr bdd"
  shows "\<exists>r. plazo_light today hol c bdd = Inr r"
  using plazo_deadline_cases [OF assms(1), of hol] assms(2,3)
  by cases (auto simp: plazo_light_def between_correct Let_def split: option.splits)

lemma plazo_entry_eq:
  "plazo_entry today hol closed_pmfs every item =
     bind_result (plazo_deadline (plazo_facts every item) hol) (\<lambda>bdd.
       bind_result (plazo_light today hol (fst item \<in> closed_pmfs) bdd) (\<lambda>(estado, elapsed, remaining).
         case plazo_cruce (plazo_facts every item) (snd (snd bdd)) of (cruce, planilla, difference) \<Rightarrow>
         Inr \<lparr>zp_pmf = fst item, zp_number = zr_number (hd (snd item)), zp_estado = estado,
              zp_base_field = fst (snd (plazo_base (plazo_facts every item))),
              zp_base_date = fst (snd bdd),
              zp_base_rows = snd (snd (snd (plazo_base (plazo_facts every item)))),
              zp_deadline = snd (snd bdd), zp_elapsed = elapsed, zp_remaining = remaining,
              zp_planilla_90 = planilla, zp_cruce = cruce, zp_diferencia = difference,
              zp_legacy = list_ex (\<lambda>row. is_legacy_vencido row today) (snd item)\<rparr>))"
  by (simp add: plazo_entry_def plazo_facts_def Let_def case_prod_unfold)

lemma plazo_entry_total:
  assumes "\<forall>row \<in> set (plazo_facts every item). plazo_dates_ok row" and "valid_date today"
  shows "\<exists>e. plazo_entry today hol closed_pmfs every item = Inr e"
proof -
  obtain bdd where b: "plazo_deadline (plazo_facts every item) hol = Inr bdd"
    using plazo_deadline_cases [OF assms(1), of hol] by cases blast+
  with plazo_light_total [OF assms b] obtain r where
    "plazo_light today hol (fst item \<in> closed_pmfs) bdd = Inr r" by blast
  with b show ?thesis by (simp add: plazo_entry_eq case_prod_unfold)
qed

lemma plazo_entry_pmf:
  "plazo_entry today hol closed_pmfs every item = Inr e \<Longrightarrow> zp_pmf e = fst item"
  by (auto simp: plazo_entry_eq case_prod_unfold)

lemma plazo_entry_fields:
  assumes "plazo_entry today hol closed_pmfs every item = Inr e"
  shows "\<exists>bdd. plazo_deadline (plazo_facts every item) hol = Inr bdd
    \<and> plazo_light today hol (fst item \<in> closed_pmfs) bdd = Inr (zp_estado e, zp_elapsed e, zp_remaining e)
    \<and> zp_base_date e = fst (snd bdd) \<and> zp_deadline e = snd (snd bdd)
    \<and> zp_base_field e = fst (snd (plazo_base (plazo_facts every item)))
    \<and> zp_base_rows e = snd (snd (snd (plazo_base (plazo_facts every item))))
    \<and> zp_cruce e = fst (plazo_cruce (plazo_facts every item) (snd (snd bdd)))
    \<and> zp_planilla_90 e = fst (snd (plazo_cruce (plazo_facts every item) (snd (snd bdd))))
    \<and> zp_diferencia e = snd (snd (plazo_cruce (plazo_facts every item) (snd (snd bdd))))"
  using assms by (auto simp: plazo_entry_eq case_prod_unfold)

lemma plazo_facts_sub:
  assumes "item \<in> set (group_by zr_pmf (sort_key zr_number rows))"
  shows "set (plazo_facts (group_by zr_pmf rs) item) \<subseteq> set rows \<union> set rs"
proof -
  obtain k g where "item = (k, g)" by (cases item)
  with assms have "set (snd item) \<subseteq> set rows" by (auto simp: group_by_entry)
  then show ?thesis
    by (auto simp: plazo_facts_def lookup_group_by split: if_splits)
qed

lemma plazo_facts_all:
  "fst item \<in> zr_pmf ` set rs \<Longrightarrow>
     plazo_facts (group_by zr_pmf rs) item = filter (\<lambda>r. zr_pmf r = fst item) rs"
  by (auto simp: plazo_facts_def lookup_group_by filter_empty_conv)

section \<open>The summary\<close>

definition every_row :: "plazo_row list \<Rightarrow> plazo_row list option \<Rightarrow> plazo_row list" where
  "every_row rows pmf_rows = (case pmf_rows of None \<Rightarrow> rows | Some rs \<Rightarrow> rs)"

lemma build_plazos_Inr:
  "build_plazos rows pmf_rows today hol closed_pmfs = Inr S \<longleftrightarrow>
     (\<exists>pmfs. traverse (plazo_entry today hol closed_pmfs (group_by zr_pmf (every_row rows pmf_rows)))
         (group_by zr_pmf (sort_key zr_number rows)) = Inr pmfs
      \<and> S = \<lparr>zs_observed_on = today, zs_total = length pmfs,
             zs_estados = count_into (zero_counts plazo_estado_order) (map zp_estado pmfs),
             zs_difiere = length (filter (\<lambda>e. zp_cruce e = C_difiere) pmfs),
             zs_legacy_rows = length (filter (\<lambda>row. is_legacy_vencido row today) rows),
             zs_pmfs = pmfs\<rparr>)"
  by (auto simp: build_plazos_def every_row_def Let_def)

lemma build_entry:
  assumes "build_plazos rows pmf_rows today hol closed_pmfs = Inr S" and "e \<in> set (zs_pmfs S)"
  obtains item where "item \<in> set (group_by zr_pmf (sort_key zr_number rows))" "fst item = zp_pmf e"
    "plazo_entry today hol closed_pmfs (group_by zr_pmf (every_row rows pmf_rows)) item = Inr e"
  using assms traverse_mem plazo_entry_pmf by (fastforce simp: build_plazos_Inr)

definition plazo_rows_ok :: "plazo_row list \<Rightarrow> plazo_row list option \<Rightarrow> bool" where
  "plazo_rows_ok rows pmf_rows \<longleftrightarrow> (\<forall>r \<in> set rows \<union> set (every_row rows pmf_rows). plazo_dates_ok r)"

lemma facts_ok:
  assumes "plazo_rows_ok rows pmf_rows" and "item \<in> set (group_by zr_pmf (sort_key zr_number rows))"
  shows "\<forall>row \<in> set (plazo_facts (group_by zr_pmf (every_row rows pmf_rows)) item). plazo_dates_ok row"
  using plazo_facts_sub [OF assms(2), of "every_row rows pmf_rows"] assms(1)
  by (auto simp: plazo_rows_ok_def)

lemma build_pmfs:
  assumes "plazo_rows_ok rows pmf_rows" and "valid_date today"
  shows "\<exists>S. build_plazos rows pmf_rows today hol closed_pmfs = Inr S
    \<and> map zp_pmf (zs_pmfs S) = dedup (map zr_pmf (sort_key zr_number rows))"
proof -
  let ?items = "group_by zr_pmf (sort_key zr_number rows)"
  let ?f = "plazo_entry today hol closed_pmfs (group_by zr_pmf (every_row rows pmf_rows))"
  have "\<exists>pmfs. traverse ?f ?items = Inr pmfs"
    using plazo_entry_total [OF facts_ok [OF assms(1)] assms(2)] by (intro traverse_total) blast
  then obtain pmfs where p: "traverse ?f ?items = Inr pmfs" by blast
  have "map zp_pmf pmfs = dedup (map zr_pmf (sort_key zr_number rows))"
    using traverse_map [OF p, of zp_pmf fst] plazo_entry_pmf by (simp add: keys_group_by)
  with p show ?thesis by (simp add: build_plazos_Inr)
qed

text \<open>
  On calendar dates the summary never fails, however late or contradictory the dates are: each
  plan of the filtered rows gets one entry, in the order of its first source row, every entry falls
  in one of the seven states, and the state counts add up to the number of plans.
\<close>

theorem build_plazos_total:
  assumes "plazo_rows_ok rows pmf_rows" and "valid_date today"
  shows "\<exists>S. build_plazos rows pmf_rows today hol closed_pmfs = Inr S
    \<and> map zp_pmf (zs_pmfs S) = dedup (map zr_pmf (sort_key zr_number rows))
    \<and> map fst (zs_estados S) = plazo_estado_order
    \<and> (\<forall>z \<in> set plazo_estado_order. dict_count (zs_estados S) z = length (filter (\<lambda>e. zp_estado e = z) (zs_pmfs S)))
    \<and> dict_total (zs_estados S) = card (zr_pmf ` set rows) \<and> zs_total S = card (zr_pmf ` set rows)"
proof -
  from build_pmfs [OF assms] obtain S where
    b: "build_plazos rows pmf_rows today hol closed_pmfs = Inr S"
    and keys: "map zp_pmf (zs_pmfs S) = dedup (map zr_pmf (sort_key zr_number rows))" by blast
  define pmfs where "pmfs = zs_pmfs S"
  with b have S: "build_plazos rows pmf_rows today hol closed_pmfs = Inr S" "zs_pmfs S = pmfs"
    "zs_estados S = count_into (zero_counts plazo_estado_order) (map zp_estado pmfs)" "zs_total S = length pmfs"
    by (auto simp: build_plazos_Inr)
  have keys: "map zp_pmf pmfs = dedup (map zr_pmf (sort_key zr_number rows))"
    using keys by (simp add: pmfs_def)
  have len: "length pmfs = card (zr_pmf ` set rows)"
    using arg_cong [OF keys, of length] by (simp add: length_dedup)
  have all: "z \<in> set plazo_estado_order" for z
    by (cases z) (simp_all add: plazo_estado_order_def)
  then have "map fst (zs_estados S) = plazo_estado_order"
    unfolding S(3) by (subst keys_count_into) auto
  moreover have "dict_count (zs_estados S) z = length (filter (\<lambda>e. zp_estado e = z) pmfs)" for z
    by (simp add: S(3) dict_count_into count_list_filter filter_map comp_def)
  moreover have "dict_total (zs_estados S) = length pmfs" by (simp add: S(3) dict_total_into)
  ultimately show ?thesis using S keys len by auto
qed

lemma base_loop_blocked:
  "base_loop rows names = (blocked, field, bd, nums) \<Longrightarrow>
     (case bd of None \<Rightarrow> blocked = Some Z_sin_fecha \<or> blocked = Some Z_sin_fecha_texto \<or> blocked = Some Z_conflicto
      | Some b \<Rightarrow> blocked = None)"
  by (induction names) (auto simp: Let_def dest: sym split: if_splits option.splits)

lemma plazo_deadline_blocked:
  "plazo_deadline facts hol = Inr (blocked, None, None) \<Longrightarrow>
     blocked = Some Z_sin_fecha \<or> blocked = Some Z_sin_fecha_texto \<or> blocked = Some Z_conflicto"
  using base_loop_blocked [of facts base_fields]
  by (fastforce simp: plazo_deadline_def plazo_base_def split: option.splits prod.splits sum.splits py_error.splits)

text \<open>What the traffic light shows for a plan whose deadline was counted.\<close>

definition light_agrees :: "date \<Rightarrow> (date \<Rightarrow> bool) \<Rightarrow> pmf_plazo \<Rightarrow> date \<Rightarrow> bool" where
  "light_agrees today hol e dl \<longleftrightarrow>
     (case zp_base_date e of None \<Rightarrow> False | Some b \<Rightarrow>
        (let n = int (card (business_days hol b today))
         in is_business_day dl hol \<and> int (card (business_days hol b dl)) = plazo_habiles
            \<and> zp_elapsed e = Some n \<and> zp_remaining e = Some (plazo_habiles - n)
            \<and> (zp_estado e = Z_vencido \<longleftrightarrow> dl < today)
            \<and> (zp_estado e = Z_por_vencer \<longleftrightarrow> today \<le> dl \<and> plazo_habiles - n \<le> por_vencer_umbral)
            \<and> (zp_estado e = Z_en_plazo \<longleftrightarrow> today \<le> dl \<and> plazo_habiles - n > por_vencer_umbral)
            \<and> (if today \<le> dl then 0 \<le> plazo_habiles - n else plazo_habiles - n \<le> 0)))"

lemma plazo_light_agrees:
  assumes "valid_date b" "valid_date today" "add_business_days b plazo_habiles hol = Inr dl"
    and "zp_base_date e = Some b"
    and "plazo_light today hol False (None, Some b, Some dl) = Inr (zp_estado e, zp_elapsed e, zp_remaining e)"
  shows "light_agrees today hol e dl"
proof -
  from add_Inr [OF assms(1,3)] have dl: "valid_date dl" "is_business_day dl hol"
    "int (card (business_days hol b dl)) = plazo_habiles" by blast+
  have "today \<le> dl \<Longrightarrow> card (business_days hol b today) \<le> card (business_days hol b dl)"
    "\<not> today \<le> dl \<Longrightarrow> card (business_days hol b dl) \<le> card (business_days hol b today)"
    using card_business_mono assms(1,2) dl(1) by (metis linear)+
  moreover have "por_vencer_umbral < plazo_habiles \<or> True" by simp
  ultimately show ?thesis
    using assms dl by (auto simp: light_agrees_def plazo_light_def between_correct Let_def split: if_splits)
qed

text \<open>
  C24. The traffic light. A closed plan is always \<open>no_aplica\<close>. Any other plan without a
  deadline is in one of the three blocked states and shows no day counts. With a deadline, that
  deadline is the 90th business day after the base date, the elapsed days are the business days
  since the base, the plan is overdue exactly when today is past the deadline, about to expire
  exactly when at most 10 business days remain, and the remaining days are negative only for
  overdue plans.
\<close>

theorem traffic_light:
  assumes "build_plazos rows pmf_rows today hol closed_pmfs = Inr S" and "e \<in> set (zs_pmfs S)"
    and "plazo_rows_ok rows pmf_rows" and "valid_date today"
  shows "(zp_estado e = Z_no_aplica \<longleftrightarrow> zp_pmf e \<in> closed_pmfs)
    \<and> (zp_pmf e \<notin> closed_pmfs \<longrightarrow>
        (case zp_deadline e of
           None \<Rightarrow> zp_estado e \<in> {Z_sin_fecha, Z_sin_fecha_texto, Z_conflicto}
             \<and> zp_elapsed e = None \<and> zp_remaining e = None \<and> zp_base_date e = None
         | Some dl \<Rightarrow> light_agrees today hol e dl))"
proof -
  obtain item where item: "item \<in> set (group_by zr_pmf (sort_key zr_number rows))" "fst item = zp_pmf e"
    and e: "plazo_entry today hol closed_pmfs (group_by zr_pmf (every_row rows pmf_rows)) item = Inr e"
    using build_entry [OF assms(1,2)] by blast
  let ?facts = "plazo_facts (group_by zr_pmf (every_row rows pmf_rows)) item"
  note ok = facts_ok [OF assms(3) item(1)]
  obtain bdd where bdd: "plazo_deadline ?facts hol = Inr bdd"
    and light: "plazo_light today hol (zp_pmf e \<in> closed_pmfs) bdd = Inr (zp_estado e, zp_elapsed e, zp_remaining e)"
    and dates: "zp_base_date e = fst (snd bdd)" "zp_deadline e = snd (snd bdd)"
    using plazo_entry_fields [OF e] item(2) by auto
  from ok show ?thesis
  proof (cases rule: plazo_deadline_cases [of ?facts hol])
    case (1 blocked)
    with plazo_deadline_blocked [OF 1] bdd light dates show ?thesis
      by (auto simp: plazo_light_def split: if_splits)
  next
    case (2 b dl)
    show ?thesis
    proof (cases "zp_pmf e \<in> closed_pmfs")
      case True
      with light show ?thesis by (simp add: plazo_light_def)
    next
      case False
      with 2 bdd light dates have agrees: "light_agrees today hol e dl"
        using assms(4) by (intro plazo_light_agrees) auto
      moreover have "zp_estado e \<noteq> Z_no_aplica"
        using light False 2 bdd by (auto simp: plazo_light_def Let_def split: if_splits)
      ultimately show ?thesis using False 2 bdd dates by simp
    qed
  qed
qed

lemma plazo_base_second:
  assumes "r \<in> set facts" and "\<not> is_blank (date_value r Fecha_ingreso_2)"
  shows "\<exists>bl bd. plazo_base facts = (bl, Some Fecha_ingreso_2, bd,
           sort (map zr_number (filter (\<lambda>r. \<not> is_blank (date_value r Fecha_ingreso_2)) facts)))
    \<and> (\<forall>b. bd = Some b \<longrightarrow> (\<forall>q \<in> set facts. is_blank (date_value q Fecha_ingreso_2) \<or> zr_ingreso2 q = Some b))"
proof -
  let ?es = "map (\<lambda>row. (zr_number row, date_value row Fecha_ingreso_2)) facts"
  let ?R = "plazo_resolve facts Fecha_ingreso_2"
  have ne: "pf_status ?R \<noteq> PBlank"
    using assms by (force simp: plazo_resolve_def resolve_PBlank_iff)
  have rows: "pf_rows ?R = sort (map zr_number (filter (\<lambda>r. \<not> is_blank (date_value r Fecha_ingreso_2)) facts))"
    by (simp add: plazo_resolve_def resolve_rows filled_def filter_map comp_def)
  have agree: "is_blank (date_value q Fecha_ingreso_2) \<or> zr_ingreso2 q = Some b"
    if st: "pf_status ?R = PValue" and b: "date_of_val (pf_value ?R) = Some b" and q: "q \<in> set facts" for b q
  proof (cases "is_blank (date_value q Fecha_ingreso_2)")
    case False
    with q have f: "(zr_number q, date_value q Fecha_ingreso_2) \<in> set (filled ?es)" by (auto simp: filled_def)
    from st have all: "\<forall>e \<in> set (filled ?es). comparable_cell (snd e) = comparable_cell (snd (hd (filled ?es)))"
      unfolding plazo_resolve_def resolve_PValue_iff by blast
    have "pf_value ?R = comparable_cell (snd (hd (filled ?es)))"
      using st by (simp add: plazo_resolve_def resolve_value)
    with bspec [OF all f] have "comparable_cell (date_value q Fecha_ingreso_2) = pf_value ?R" by simp
    with b have "plazo_attr q Fecha_ingreso_2 = VDate b" by (metis date_value_date)
    then show ?thesis by (simp add: plazo_attr_def split: option.splits)
  qed simp
  show ?thesis
  proof (cases "pf_status ?R = PConflict")
    case True
    then show ?thesis by (simp add: plazo_base_def base_fields_def Let_def rows)
  next
    case False
    with ne have "pf_status ?R = PValue" by (cases "pf_status ?R") auto
    with agree show ?thesis
      by (auto simp: plazo_base_def base_fields_def Let_def rows split: option.splits)
  qed
qed

text \<open>
  The older ingreso never stands in for a newer one: once any row of the plan carries a second
  ingreso, as a date or as text the importer could not read, the base is the second ingreso, the
  reported rows are exactly those that carry it, and a base date is chosen only when all of them
  carry that very date.
\<close>

theorem newest_ingreso_decides:
  assumes "build_plazos rows (Some every) today hol closed_pmfs = Inr S" and "e \<in> set (zs_pmfs S)"
    and "r \<in> set every" and "zr_pmf r = zp_pmf e" and "\<not> is_blank (date_value r Fecha_ingreso_2)"
  shows "zp_base_field e = Some Fecha_ingreso_2
    \<and> zp_base_rows e = sort (map zr_number (filter (\<lambda>q. zr_pmf q = zp_pmf e
          \<and> \<not> is_blank (date_value q Fecha_ingreso_2)) every))
    \<and> (\<forall>b. zp_base_date e = Some b \<longrightarrow> (\<forall>q \<in> set every. zr_pmf q = zp_pmf e \<longrightarrow>
          is_blank (date_value q Fecha_ingreso_2) \<or> zr_ingreso2 q = Some b))"
proof -
  obtain item where item: "fst item = zp_pmf e"
    and e: "plazo_entry today hol closed_pmfs (group_by zr_pmf every) item = Inr e"
    using build_entry [OF assms(1,2)] by (metis every_row_def option.simps(5))
  let ?facts = "filter (\<lambda>q. zr_pmf q = zp_pmf e) every"
  have facts: "plazo_facts (group_by zr_pmf every) item = ?facts"
    using plazo_facts_all [of item every] assms(3,4) item by force
  have "r \<in> set ?facts" using assms(3,4) by simp
  from plazo_base_second [OF this assms(5)] obtain bl bd where
    base: "plazo_base ?facts = (bl, Some Fecha_ingreso_2, bd,
           sort (map zr_number (filter (\<lambda>r. \<not> is_blank (date_value r Fecha_ingreso_2)) ?facts)))"
    and agree: "\<forall>b. bd = Some b \<longrightarrow> (\<forall>q \<in> set ?facts. is_blank (date_value q Fecha_ingreso_2) \<or> zr_ingreso2 q = Some b)"
    by blast
  from plazo_entry_fields [OF e] facts base obtain bdd where
    d: "plazo_deadline ?facts hol = Inr bdd" "zp_base_date e = fst (snd bdd)" by auto
  then have "zp_base_date e = Some b \<Longrightarrow> bd = Some b" for b
    using base by (auto simp: plazo_deadline_def split: option.splits sum.splits py_error.splits)
  moreover have "zp_base_field e = Some Fecha_ingreso_2"
    "zp_base_rows e = sort (map zr_number (filter (\<lambda>r. \<not> is_blank (date_value r Fecha_ingreso_2)) ?facts))"
    using plazo_entry_fields [OF e] facts base by auto
  ultimately show ?thesis using agree by (simp add: conj_commute)
qed

text \<open>
  An unrelated filter never moves a deadline: two filtered scopes over the same plans' rows
  give a plan they share the same entry, up to its first visible row and the row-level legacy flag.
\<close>

theorem filter_independent:
  assumes "build_plazos rows (Some every) today hol closed_pmfs = Inr S" and "e \<in> set (zs_pmfs S)"
    and "build_plazos rows' (Some every) today hol closed_pmfs = Inr S'" and "e' \<in> set (zs_pmfs S')"
    and "zp_pmf e = zp_pmf e'" and "zp_pmf e \<in> zr_pmf ` set every"
  shows "e\<lparr>zp_number := 0, zp_legacy := False\<rparr> = e'\<lparr>zp_number := 0, zp_legacy := False\<rparr>"
proof -
  obtain item where item: "fst item = zp_pmf e"
    "plazo_entry today hol closed_pmfs (group_by zr_pmf every) item = Inr e"
    using build_entry [OF assms(1,2)] by (metis every_row_def option.simps(5))
  obtain item' where item': "fst item' = zp_pmf e'"
    "plazo_entry today hol closed_pmfs (group_by zr_pmf every) item' = Inr e'"
    using build_entry [OF assms(3,4)] by (metis every_row_def option.simps(5))
  have "plazo_facts (group_by zr_pmf every) item = plazo_facts (group_by zr_pmf every) item'"
    using plazo_facts_all [of item every] plazo_facts_all [of item' every] item(1) item'(1) assms(5,6) by simp
  moreover have "zp_pmf e = fst item" "zp_pmf e' = fst item'" using item item' by simp_all
  ultimately show ?thesis
    using plazo_entry_fields [OF item(2)] plazo_entry_fields [OF item'(2)] assms(5)
    by (cases e; cases e') auto
qed


section \<open>Concrete plans\<close>

definition demo_plazo :: "int \<Rightarrow> string \<Rightarrow> date option \<Rightarrow> date option \<Rightarrow> plazo_row" where
  "demo_plazo n pmf ingreso ingreso2 = \<lparr>zr_number = n, zr_pmf = lit pmf,
     zr_resumido = Some (lit ''En tramite''), zr_ingreso = ingreso, zr_ingreso2 = ingreso2,
     zr_90_dias = None, zr_text_dates = []\<rparr>"

definition demo_plans :: "plazo_row list" where
  "demo_plans = [demo_plazo 4 ''P1'' (Some (Date 2026 1 2)) (Some (Date 2026 3 2)),
     demo_plazo 5 ''P2'' (Some (Date 9999 12 1)) None]"

lemma demo_plans_ok: "r \<in> set demo_plans \<Longrightarrow> plazo_dates_ok r"
proof -
  have v: "valid_date (Date 2026 1 2)" "valid_date (Date 2026 3 2)" "valid_date (Date 9999 12 1)"
    by (simp_all add: valid_date_def days_in_month_def)
  assume "r \<in> set demo_plans"
  then show ?thesis using v by (auto simp: demo_plans_def demo_plazo_def plazo_dates_ok_def)
qed

lemma demo_rows_ok: "plazo_rows_ok demo_plans None" "plazo_rows_ok demo_plans (Some demo_plans)"
  by (simp_all add: plazo_rows_ok_def every_row_def demo_plans_ok)

lemma demo_pmfs: "zr_pmf ` set demo_plans = {lit ''P1'', lit ''P2''}"
  by (simp add: demo_plans_def demo_plazo_def)

lemma demo_today: "valid_date (Date 2026 3 9)"
  by (simp add: valid_date_def days_in_month_def)

theorem build_plazos_total_witness:
  "\<exists>S. build_plazos demo_plans None (Date 2026 3 9) no_holidays {} = Inr S \<and> zs_total S = 2"
  using build_plazos_total [OF demo_rows_ok(1) demo_today, of no_holidays "{}"]
  by (auto simp: demo_pmfs)

lemma demo_entry:
  assumes "set rows \<subseteq> set demo_plans" and "lit ''P1'' \<in> zr_pmf ` set rows"
  obtains S e where "build_plazos rows (Some demo_plans) (Date 2026 3 9) no_holidays C = Inr S"
    "e \<in> set (zs_pmfs S)" "zp_pmf e = lit ''P1''"
proof -
  from assms(1) have "plazo_rows_ok rows (Some demo_plans)"
    by (auto simp: plazo_rows_ok_def every_row_def demo_plans_ok)
  from build_pmfs [OF this demo_today, of no_holidays C] obtain S where
    S: "build_plazos rows (Some demo_plans) (Date 2026 3 9) no_holidays C = Inr S"
    "map zp_pmf (zs_pmfs S) = dedup (map zr_pmf (sort_key zr_number rows))" by blast
  from arg_cong [OF S(2), of set] assms(2) have "lit ''P1'' \<in> zp_pmf ` set (zs_pmfs S)" by simp
  with S(1) that show thesis by (metis imageE)
qed

theorem traffic_light_witness:
  "\<exists>S e. build_plazos demo_plans (Some demo_plans) (Date 2026 3 9) no_holidays {lit ''P1''} = Inr S
     \<and> e \<in> set (zs_pmfs S) \<and> zp_estado e = Z_no_aplica"
proof -
  obtain S e where "build_plazos demo_plans (Some demo_plans) (Date 2026 3 9) no_holidays {lit ''P1''} = Inr S"
    "e \<in> set (zs_pmfs S)" "zp_pmf e = lit ''P1''" by (rule demo_entry [OF subset_refl]) (simp add: demo_pmfs)
  with traffic_light [OF this(1,2) demo_rows_ok(2) demo_today] show ?thesis by blast
qed

lemma demo_second: "demo_plazo 4 ''P1'' (Some (Date 2026 1 2)) (Some (Date 2026 3 2)) \<in> set demo_plans"
  "\<not> is_blank (date_value (demo_plazo 4 ''P1'' (Some (Date 2026 1 2)) (Some (Date 2026 3 2))) Fecha_ingreso_2)"
  by (simp_all add: demo_plans_def demo_plazo_def is_blank_def date_value_def value_or_unread_text_def
      plazo_attr_def)

theorem newest_ingreso_decides_witness:
  "\<exists>S e. build_plazos demo_plans (Some demo_plans) (Date 2026 3 9) no_holidays {} = Inr S
     \<and> e \<in> set (zs_pmfs S) \<and> zp_base_field e = Some Fecha_ingreso_2"
proof -
  obtain S e where "build_plazos demo_plans (Some demo_plans) (Date 2026 3 9) no_holidays {} = Inr S"
    "e \<in> set (zs_pmfs S)" and "zp_pmf e = lit ''P1''" by (rule demo_entry [OF subset_refl]) (simp add: demo_pmfs)
  moreover from this(3) have "zr_pmf (demo_plazo 4 ''P1'' (Some (Date 2026 1 2)) (Some (Date 2026 3 2))) = zp_pmf e"
    by (simp add: demo_plazo_def)
  ultimately show ?thesis
    using newest_ingreso_decides [OF _ _ demo_second(1) _ demo_second(2)] by blast
qed

theorem filter_independent_witness:
  "\<exists>S e S' e'. build_plazos demo_plans (Some demo_plans) (Date 2026 3 9) no_holidays {} = Inr S
     \<and> build_plazos (take 1 demo_plans) (Some demo_plans) (Date 2026 3 9) no_holidays {} = Inr S'
     \<and> e \<in> set (zs_pmfs S) \<and> e' \<in> set (zs_pmfs S') \<and> zp_deadline e = zp_deadline e'"
proof -
  obtain S e where e: "build_plazos demo_plans (Some demo_plans) (Date 2026 3 9) no_holidays {} = Inr S"
    "e \<in> set (zs_pmfs S)" "zp_pmf e = lit ''P1''" by (rule demo_entry [OF subset_refl]) (simp add: demo_pmfs)
  have "lit ''P1'' \<in> zr_pmf ` set (take 1 demo_plans)" by (simp add: demo_plans_def demo_plazo_def)
  then obtain S' e' where e': "build_plazos (take 1 demo_plans) (Some demo_plans) (Date 2026 3 9) no_holidays {} = Inr S'"
    "e' \<in> set (zs_pmfs S')" "zp_pmf e' = lit ''P1''" by (rule demo_entry [OF set_take_subset])
  have "zp_pmf e = zp_pmf e'" "zp_pmf e \<in> zr_pmf ` set demo_plans" using e e' by (simp_all add: demo_pmfs)
  from arg_cong [OF filter_independent [OF e(1,2) e'(1,2) this], of zp_deadline] e(1,2) e'(1,2)
  show ?thesis by auto
qed

end
