(* ===== verification/Pending.thy ===== *)
theory Pending
  imports Rollups PyFloat
begin

text \<open>
  \<open>transelec_ingestion/pending_view.py\<close>: the pending-priority section. The rows are reduced to
  one winner per plan, the winners that are pending are split into three stages, and the share of
  pending plans is a float percentage.
\<close>

record pending_row =
  pr_number :: int
  pr_pmf :: pystr
  pr_predio :: pystr
  pr_estado :: "pystr option"
  pr_resumido :: "pystr option"
  pr_ingreso :: "pystr option"

definition pending_as_rolled :: "pending_row \<Rightarrow> rolled_row" where
  "pending_as_rolled row = \<lparr>rr_number = pr_number row, rr_pmf = pr_pmf row, rr_predio = pr_predio row,
     rr_estado = pr_estado row, rr_resumido = pr_resumido row, rr_ingreso = pr_ingreso row,
     rr_propietario = None\<rparr>"

record stage_counts =
  sc_preparacion :: nat
  sc_recurso_rechazo :: nat
  sc_otros :: nat

record pending_pmf =
  pq_pmf :: pystr
  pq_number :: int
  pq_stage :: pending_stage_t

record pending_result =
  pe_pending :: nat
  pe_total :: nat
  pe_percentage :: pyfloat
  pe_stages :: stage_counts
  pe_rows :: "pending_pmf list"

definition stage_step :: "ucd \<Rightarrow> stage_counts \<times> pending_pmf list \<Rightarrow> pystr \<times> rolled_row
    \<Rightarrow> stage_counts \<times> pending_pmf list" where
  "stage_step u acc item =
     (let counts = fst acc; stage = pending_stage u (rr_estado (snd item));
          counts' = (case stage of
              S_preparacion \<Rightarrow> counts\<lparr>sc_preparacion := sc_preparacion counts + 1\<rparr>
            | S_recurso_rechazo \<Rightarrow> counts\<lparr>sc_recurso_rechazo := sc_recurso_rechazo counts + 1\<rparr>
            | S_otros \<Rightarrow> counts\<lparr>sc_otros := sc_otros counts + 1\<rparr>)
      in (counts', snd acc @ [\<lparr>pq_pmf = fst item, pq_number = rr_number (snd item), pq_stage = stage\<rparr>]))"

definition build_pending :: "ucd \<Rightarrow> pending_row list \<Rightarrow> pending_result" where
  "build_pending u rows =
     (let representative = first_row_wins K_pmf (map pending_as_rolled rows);
          total = length representative;
          pending_rows = filter (\<lambda>(pmf, row). is_pending_row u row) representative;
          acc = foldl (stage_step u)
            (\<lparr>sc_preparacion = 0, sc_recurso_rechazo = 0, sc_otros = 0\<rparr>, []) pending_rows;
          n = length pending_rows
      in \<lparr>pe_pending = n, pe_total = total,
          pe_percentage = (if total = 0 then Fin 0
            else fl_mul_int (int_truediv (int n) (int total)) 100),
          pe_stages = fst acc, pe_rows = sort_key pq_number (snd acc)\<rparr>)"

section \<open>What the loop computes\<close>

definition pending_entry :: "ucd \<Rightarrow> pystr \<times> rolled_row \<Rightarrow> pending_pmf" where
  "pending_entry u item =
     \<lparr>pq_pmf = fst item, pq_number = rr_number (snd item), pq_stage = pending_stage u (rr_estado (snd item))\<rparr>"

lemma stage_loop:
  "foldl (stage_step u) (c, ps) items =
     (\<lparr>sc_preparacion = sc_preparacion c + count_list (map (\<lambda>i. pq_stage (pending_entry u i)) items) S_preparacion,
       sc_recurso_rechazo = sc_recurso_rechazo c + count_list (map (\<lambda>i. pq_stage (pending_entry u i)) items) S_recurso_rechazo,
       sc_otros = sc_otros c + count_list (map (\<lambda>i. pq_stage (pending_entry u i)) items) S_otros\<rparr>,
      ps @ map (pending_entry u) items)"
proof (induction items arbitrary: c ps)
  case Nil
  show ?case by simp
next
  case (Cons i items)
  let ?s = "pq_stage (pending_entry u i)"
  have "stage_step u (c, ps) i = ((case ?s of
        S_preparacion \<Rightarrow> c\<lparr>sc_preparacion := sc_preparacion c + 1\<rparr>
      | S_recurso_rechazo \<Rightarrow> c\<lparr>sc_recurso_rechazo := sc_recurso_rechazo c + 1\<rparr>
      | S_otros \<Rightarrow> c\<lparr>sc_otros := sc_otros c + 1\<rparr>), ps @ [pending_entry u i])"
    by (simp add: stage_step_def pending_entry_def Let_def)
  then show ?case
    by (cases ?s) (simp_all add: Cons.IH)
qed

lemma stage_total:
  "count_list ss S_preparacion + count_list ss S_recurso_rechazo + count_list ss S_otros = length ss"
proof (induction ss)
  case (Cons s ss)
  then show ?case by (cases s) simp_all
qed simp

definition pending_winners :: "ucd \<Rightarrow> pending_row list \<Rightarrow> (pystr \<times> rolled_row) list" where
  "pending_winners u rows =
     filter (\<lambda>(pmf, row). is_pending_row u row) (first_row_wins K_pmf (map pending_as_rolled rows))"

lemma build_pending_eq:
  "build_pending u rows =
     (let ws = pending_winners u rows; ss = map (\<lambda>i. pq_stage (pending_entry u i)) ws; t = card (pr_pmf ` set rows)
      in \<lparr>pe_pending = length ws, pe_total = t,
          pe_percentage = (if t = 0 then Fin 0 else fl_mul_int (int_truediv (int (length ws)) (int t)) 100),
          pe_stages = \<lparr>sc_preparacion = count_list ss S_preparacion,
            sc_recurso_rechazo = count_list ss S_recurso_rechazo, sc_otros = count_list ss S_otros\<rparr>,
          pe_rows = sort_key pq_number (map (pending_entry u) ws)\<rparr>)"
proof -
  have "row_key K_pmf ` set (map pending_as_rolled rows) = pr_pmf ` set rows"
    by (force simp: row_key_def pending_as_rolled_def)
  then have "length (first_row_wins K_pmf (map pending_as_rolled rows)) = card (pr_pmf ` set rows)"
    by (simp only: length_first_row_wins)
  then show ?thesis
    by (simp add: build_pending_def pending_winners_def Let_def stage_loop del: length_0_conv)
qed

lemma pending_winners_le: "length (pending_winners u rows) \<le> card (pr_pmf ` set rows)"
proof -
  have "row_key K_pmf ` set (map pending_as_rolled rows) = pr_pmf ` set rows"
    by (force simp: row_key_def pending_as_rolled_def)
  then show ?thesis
    unfolding pending_winners_def
    by (metis length_filter_le length_first_row_wins)
qed

lemma distinct_pending_winners: "distinct (map fst (pending_winners u rows))"
  unfolding pending_winners_def by (rule distinct_map_filter) simp

text \<open>
  The pending section is consistent: it lists every plan whose winning row is pending exactly
  once, in source order, each with its stage; the three stage counts add up to the number of
  pending plans; and the percentage is a float between 0 and 100, 0 for no rows.
\<close>

theorem build_pending_correct:
  "pe_pending (build_pending u rows) = length (pe_rows (build_pending u rows))
   \<and> pe_pending (build_pending u rows) = sc_preparacion (pe_stages (build_pending u rows))
        + sc_recurso_rechazo (pe_stages (build_pending u rows)) + sc_otros (pe_stages (build_pending u rows))
   \<and> pe_total (build_pending u rows) = card (pr_pmf ` set rows)
   \<and> distinct (map pq_pmf (pe_rows (build_pending u rows)))
   \<and> sorted (map pq_number (pe_rows (build_pending u rows)))
   \<and> (\<forall>e. e \<in> set (pe_rows (build_pending u rows)) \<longleftrightarrow>
        (\<exists>w. map_of (first_row_wins K_pmf (map pending_as_rolled rows)) (pq_pmf e) = Some w
          \<and> is_pending_row u w \<and> pq_number e = rr_number w \<and> pq_stage e = pending_stage u (rr_estado w)))
   \<and> (\<exists>v. pe_percentage (build_pending u rows) = Fin v \<and> 0 \<le> v \<and> v \<le> 100)"
proof -
  let ?B = "build_pending u rows" and ?ws = "pending_winners u rows"
  let ?ss = "map (\<lambda>i. pq_stage (pending_entry u i)) ?ws"
  have st: "length ?ws = count_list ?ss S_preparacion + count_list ?ss S_recurso_rechazo + count_list ?ss S_otros"
    using stage_total [of ?ss] by simp
  have pmfs: "map pq_pmf (map (pending_entry u) ?ws) = map fst ?ws"
    by (simp add: pending_entry_def)
  have "distinct (map pq_pmf (sort_key pq_number (map (pending_entry u) ?ws)))"
    using distinct_pending_winners [of u rows] pmfs
    by (simp only: distinct_map_sort_key)
  moreover have "(e \<in> pending_entry u ` set ?ws) \<longleftrightarrow>
      (\<exists>w. map_of (first_row_wins K_pmf (map pending_as_rolled rows)) (pq_pmf e) = Some w
        \<and> is_pending_row u w \<and> pq_number e = rr_number w \<and> pq_stage e = pending_stage u (rr_estado w))" for e
    unfolding pending_winners_def by (cases e) (force simp: pending_entry_def map_of_distinct_iff)
  moreover have "\<exists>v. pe_percentage ?B = Fin v \<and> 0 \<le> v \<and> v \<le> 100"
    using percentage_bounds [of "int (length ?ws)" "int (card (pr_pmf ` set rows))"] pending_winners_le [of u rows]
    by (cases "card (pr_pmf ` set rows) = 0") (simp_all add: build_pending_eq Let_def)
  ultimately show ?thesis
    using st by (simp add: build_pending_eq Let_def)
qed

end
