(* ===== verification/OwnerStatus.thy ===== *)
theory OwnerStatus
  imports Rollups
begin

text \<open>
  \<open>transelec_ingestion/owner_status_view.py\<close>: the owner-status table. One winner per property
  (\<open>predio_group_key\<close>), counted by (owner type, owner stage) and sorted by both labels.
\<close>

record owner_row =
  or_number :: int
  or_predio :: pystr
  or_pmf :: pystr
  or_propietario :: "pystr option"
  or_estado :: "pystr option"
  or_resumido :: "pystr option"
  or_ingreso :: "pystr option"

definition owner_as_rolled :: "owner_row \<Rightarrow> rolled_row" where
  "owner_as_rolled row = \<lparr>rr_number = or_number row, rr_pmf = or_pmf row, rr_predio = or_predio row,
     rr_estado = or_estado row, rr_resumido = or_resumido row, rr_ingreso = or_ingreso row,
     rr_propietario = or_propietario row\<rparr>"

record owner_status_row =
  os_propietario :: "pystr option"
  os_stage :: "pystr option"
  os_count :: nat

record owner_status_result =
  ow_rows :: "owner_status_row list"
  ow_total :: nat

definition owner_key :: "ucd \<Rightarrow> rolled_row \<Rightarrow> pystr option \<times> pystr option" where
  "owner_key u row = (rr_propietario row, owner_stage_from_row u row)"

definition build_owner_status :: "ucd \<Rightarrow> owner_row list \<Rightarrow> owner_status_result" where
  "build_owner_status u rows =
     (let representative = first_row_wins K_predio (map owner_as_rolled rows);
          counts = count_into [] (map (owner_key u) (map snd representative))
      in \<lparr>ow_rows = map (\<lambda>((p, s), n). \<lparr>os_propietario = p, os_stage = s, os_count = n\<rparr>)
            (sort_key (\<lambda>((p, s), n). (text_or_empty p, text_or_empty s)) counts),
          ow_total = length representative\<rparr>)"

section \<open>Counts\<close>

definition owner_winners :: "owner_row list \<Rightarrow> rolled_row list" where
  "owner_winners rows = map snd (first_row_wins K_predio (map owner_as_rolled rows))"

lemma length_owner_winners: "length (owner_winners rows) = card (or_predio ` set rows)"
proof -
  have "row_key K_predio ` set (map owner_as_rolled rows) = or_predio ` set rows"
    by (force simp: row_key_def owner_as_rolled_def)
  then show ?thesis by (simp add: owner_winners_def length_first_row_wins)
qed

definition owner_counts :: "ucd \<Rightarrow> owner_row list \<Rightarrow> (pystr option \<times> pystr option, nat) pydict" where
  "owner_counts u rows = count_into [] (map (owner_key u) (owner_winners rows))"

lemma owner_counts_lookup: "dict_count (owner_counts u rows) k = count_list (map (owner_key u) (owner_winners rows)) k"
  by (simp add: owner_counts_def dict_count_into) (simp add: dict_count_def)

lemma owner_counts_keys: "fst ` set (owner_counts u rows) = owner_key u ` set (owner_winners rows)"
  by (simp add: owner_counts_def set_keys_count_into)

lemma distinct_owner_counts: "distinct (map fst (owner_counts u rows))"
  by (simp add: owner_counts_def)

lemma build_owner_rows:
  "ow_rows (build_owner_status u rows) = map (\<lambda>((p, s), n). \<lparr>os_propietario = p, os_stage = s, os_count = n\<rparr>)
     (sort_key (\<lambda>((p, s), n). (text_or_empty p, text_or_empty s)) (owner_counts u rows))"
  by (simp add: build_owner_status_def owner_counts_def owner_winners_def Let_def)

text \<open>
  The owner table counts every property exactly once: its rows have distinct (owner type,
  stage) pairs sorted by their labels, each count is the number of properties whose winning row has
  that owner type and stage, and the counts add up to the number of distinct properties.
\<close>

theorem build_owner_status_correct:
  "distinct (map (\<lambda>r. (os_propietario r, os_stage r)) (ow_rows (build_owner_status u rows)))
   \<and> sorted (map (\<lambda>r. (text_or_empty (os_propietario r), text_or_empty (os_stage r)))
        (ow_rows (build_owner_status u rows)))
   \<and> (\<forall>r \<in> set (ow_rows (build_owner_status u rows)). os_count r > 0 \<and> os_count r =
        length (filter (\<lambda>w. owner_key u w = (os_propietario r, os_stage r))
          (map snd (first_row_wins K_predio (map owner_as_rolled rows)))))
   \<and> sum_list (map os_count (ow_rows (build_owner_status u rows))) = card (or_predio ` set rows)
   \<and> ow_total (build_owner_status u rows) = card (or_predio ` set rows)"
proof -
  let ?c = "owner_counts u rows" and ?k = "\<lambda>((p, s), n::nat). (text_or_empty p, text_or_empty s)"
  let ?R = "ow_rows (build_owner_status u rows)"
  have keys: "map (\<lambda>r. (os_propietario r, os_stage r)) ?R = map fst (sort_key ?k ?c)"
    by (simp add: build_owner_rows case_prod_unfold)
  have 1: "distinct (map (\<lambda>r. (os_propietario r, os_stage r)) ?R)"
    unfolding keys using distinct_owner_counts [of u rows]
    by (simp only: distinct_map_sort_key)
  have "map (\<lambda>r. (text_or_empty (os_propietario r), text_or_empty (os_stage r))) ?R = map ?k (sort_key ?k ?c)"
    by (simp add: build_owner_rows case_prod_unfold)
  then have 2: "sorted (map (\<lambda>r. (text_or_empty (os_propietario r), text_or_empty (os_stage r))) ?R)"
    by (simp only: sorted_sort_key)
  have 3: "os_count r > 0 \<and> os_count r = length (filter (\<lambda>w. owner_key u w = (os_propietario r, os_stage r)) (owner_winners rows))"
    if "r \<in> set ?R" for r
  proof -
    from that obtain k n where e: "(k, n) \<in> set ?c" and r: "r = \<lparr>os_propietario = fst k, os_stage = snd k, os_count = n\<rparr>"
      by (auto simp: build_owner_rows)
    have "n = count_list (map (owner_key u) (owner_winners rows)) k"
      using dict_count_entry [OF distinct_owner_counts e] by (simp add: owner_counts_lookup)
    moreover have "k \<in> owner_key u ` set (owner_winners rows)"
      using e owner_counts_keys by (metis fst_conv image_eqI)
    then have "count_list (map (owner_key u) (owner_winners rows)) k > 0"
      by (metis count_list_0_iff gr0I list.set_map)
    ultimately show ?thesis using r by (simp add: count_list_filter filter_map comp_def)
  qed
  have "sum_list (map os_count ?R) = dict_total ?c"
    by (simp add: build_owner_rows case_prod_unfold comp_def dict_total_def sum_list_sort_key)
  also have "\<dots> = length (owner_winners rows)"
    by (simp add: owner_counts_def dict_total_into) (simp add: dict_total_def)
  finally have 4: "sum_list (map os_count ?R) = card (or_predio ` set rows)"
    by (simp only: length_owner_winners)
  have "ow_total (build_owner_status u rows) = length (owner_winners rows)"
    by (simp add: build_owner_status_def owner_winners_def Let_def)
  then have "ow_total (build_owner_status u rows) = card (or_predio ` set rows)"
    by (simp only: length_owner_winners)
  with 1 2 3 4 show ?thesis unfolding owner_winners_def by blast
qed


definition demo_owner :: "int \<Rightarrow> string \<Rightarrow> string \<Rightarrow> owner_row" where
  "demo_owner n predio estado = \<lparr>or_number = n, or_predio = lit predio, or_pmf = lit ''P1'',
     or_propietario = Some (lit ''BNUP''), or_estado = Some (lit estado), or_resumido = None,
     or_ingreso = None\<rparr>"

theorem build_owner_status_correct_witness:
  "sum_list (map os_count (ow_rows (build_owner_status latin_ucd
     [demo_owner 4 ''A'' ''Rechazado'', demo_owner 5 ''B'' ''x'', demo_owner 6 ''A'' ''x'']))) = 2"
  using build_owner_status_correct [of latin_ucd
      "[demo_owner 4 ''A'' ''Rechazado'', demo_owner 5 ''B'' ''x'', demo_owner 6 ''A'' ''x'']"]
  by (simp add: demo_owner_def card_insert_if)

end
