(* ===== verification/Summary.thy ===== *)
theory Summary
  imports Rollups PyFloat
begin

text \<open>
  \<open>transelec_ingestion/summary_view.py\<close>: the figures behind \<open>GET /transelec/summary\<close>, all
  computed from one filtered row list: the indicators, the two charts, the status hero, the
  per-company partition, the label breakdown, the conflicts and the reforestation labels. The fixed
  texts of the response (basis identifiers, definitions, "not available" literals) carry no
  behaviour and are left out of the records.
\<close>

section \<open>Data\<close>

record summary_row =
  sr_number :: int
  sr_pmf :: pystr
  sr_predio :: pystr
  sr_estado :: "pystr option"
  sr_resumido :: "pystr option"
  sr_ingreso :: "pystr option"
  sr_propietario :: "pystr option"
  sr_predio_ref :: "pystr option"
  sr_id_predio :: "pystr option"
  sr_superficie :: "pyfloat option"
  sr_rol :: "pystr option"
  sr_empresa :: "pystr option"
  sr_rol_ref :: "pystr option"

definition summary_as_rolled :: "summary_row \<Rightarrow> rolled_row" where
  "summary_as_rolled row = \<lparr>rr_number = sr_number row, rr_pmf = sr_pmf row, rr_predio = sr_predio row,
     rr_estado = sr_estado row, rr_resumido = sr_resumido row, rr_ingreso = sr_ingreso row,
     rr_propietario = sr_propietario row\<rparr>"

record bucket_counts =
  bc_aprobado :: nat
  bc_en_tramite :: nat
  bc_pendiente_o_tachado :: nat

record hero_counts =
  hc_aprobado :: nat
  hc_en_tramite :: nat
  hc_pendiente :: nat
  hc_tachado :: nat
  hc_sin_estado :: nat

record labelled_count =
  lc_label :: "pystr option"
  lc_normalized :: "pystr option"
  lc_count :: nat

record empresa_breakdown =
  eb_empresa :: "pystr option"
  eb_pmf_count :: nat
  eb_estado :: hero_counts

record resumido_conflict =
  cf_pmf :: pystr
  cf_valores :: "pystr option list"
  cf_canonico :: "pystr option"
  cf_detalle :: "pystr option"
  cf_number :: int

record reforestacion =
  rf_labels :: "pystr list"
  rf_count :: nat
  rf_rol_ref_count :: nat
  rf_sentinel_rows :: nat
  rf_compuestas :: "pystr list"

record summary_result =
  su_rows :: nat
  su_pmf :: nat
  su_predio :: nat
  su_rol :: nat
  su_surface :: pyfloat
  su_aprobados :: nat
  su_en_tramite :: nat
  su_pendientes :: nat
  su_servidumbre :: nat
  su_avance_predio :: bucket_counts
  su_avance_pmf :: bucket_counts
  su_hero_predio :: hero_counts
  su_hero_pmf :: hero_counts
  su_detalle :: "labelled_count list"
  su_valores :: "(hero, pystr list) pydict"
  su_empresas :: "empresa_breakdown list"
  su_reforestacion :: reforestacion
  su_sin_id :: nat
  su_sin_ingreso :: nat
  su_conflictos :: "resumido_conflict list"

section \<open>Counters\<close>

definition count_bucket :: "bucket_counts \<Rightarrow> bucket3 \<Rightarrow> bucket_counts" where
  "count_bucket c b = (case b of
      B_aprobado \<Rightarrow> c\<lparr>bc_aprobado := bc_aprobado c + 1\<rparr>
    | B_en_tramite \<Rightarrow> c\<lparr>bc_en_tramite := bc_en_tramite c + 1\<rparr>
    | B_pendiente_o_tachado \<Rightarrow> c\<lparr>bc_pendiente_o_tachado := bc_pendiente_o_tachado c + 1\<rparr>)"

definition bucket_counts_of :: "ucd \<Rightarrow> pystr option list \<Rightarrow> bucket_counts" where
  "bucket_counts_of u vals =
     foldl (\<lambda>c v. count_bucket c (bucket_3way u v))
       \<lparr>bc_aprobado = 0, bc_en_tramite = 0, bc_pendiente_o_tachado = 0\<rparr> vals"

definition hero_order :: "hero list" where
  "hero_order = [H_aprobado, H_en_tramite, H_pendiente, H_tachado, H_sin_estado]"

definition hero_counts_of :: "ucd \<Rightarrow> pystr option list \<Rightarrow> hero_counts" where
  "hero_counts_of u vals =
     (let counts = count_into (zero_counts hero_order) (map (hero_state u) vals)
      in \<lparr>hc_aprobado = dict_count counts H_aprobado, hc_en_tramite = dict_count counts H_en_tramite,
          hc_pendiente = dict_count counts H_pendiente, hc_tachado = dict_count counts H_tachado,
          hc_sin_estado = dict_count counts H_sin_estado\<rparr>)"

definition label_step :: "ucd \<Rightarrow> (pystr option, labelled_count) pydict \<Rightarrow> pystr option
    \<Rightarrow> (pystr option, labelled_count) pydict" where
  "label_step u buckets v =
     (let key = normalized_label u v
      in case map_of buckets key of
           None \<Rightarrow> AList.update key \<lparr>lc_label = v, lc_normalized = key, lc_count = 1\<rparr> buckets
         | Some current \<Rightarrow> AList.update key \<lparr>lc_label = lc_label current, lc_normalized = key,
             lc_count = lc_count current + 1\<rparr> buckets)"

definition labelled_counts :: "ucd \<Rightarrow> pystr option list \<Rightarrow> labelled_count list" where
  "labelled_counts u vals =
     sort_key (\<lambda>item. (- int (lc_count item), text_or_empty (lc_label item)))
       (map snd (foldl (label_step u) [] vals))"

section \<open>Companies, conflicts and labels\<close>

text \<open>The dict comprehension keyed by row number: the last row of a number stays.\<close>

definition empresa_of :: "summary_row list \<Rightarrow> rolled_row \<Rightarrow> pystr option" where
  "empresa_of rows w =
     (case map_of (rev (map (\<lambda>row. (sr_number row, sr_empresa row)) rows)) (rr_number w) of
        None \<Rightarrow> None | Some e \<Rightarrow> e)"

definition empresa_step :: "ucd \<Rightarrow> summary_row list
    \<Rightarrow> (pystr option, pystr option) pydict \<times> (pystr option, pystr option list) pydict \<Rightarrow> rolled_row
    \<Rightarrow> (pystr option, pystr option) pydict \<times> (pystr option, pystr option list) pydict" where
  "empresa_step u rows acc w =
     (let raw = empresa_of rows w; key = normalized_label u raw
      in (dict_setdefault key raw (fst acc), dict_append key (rr_resumido w) (snd acc)))"

definition empresa_breakdown_of :: "ucd \<Rightarrow> summary_row list \<Rightarrow> rolled_row list
    \<Rightarrow> empresa_breakdown list py_result" where
  "empresa_breakdown_of u rows representative =
     (case foldl (empresa_step u rows) ([], []) representative of (labels, grouped) \<Rightarrow>
        bind_result (traverse (\<lambda>(key, states).
            case map_of labels key of
              None \<Rightarrow> Inl KeyError
            | Some label \<Rightarrow> Inr \<lparr>eb_empresa = label, eb_pmf_count = length states,
                eb_estado = hero_counts_of u states\<rparr>) grouped)
          (\<lambda>items. Inr (sort_key (\<lambda>item. (- int (eb_pmf_count item), text_or_empty (eb_empresa item))) items)))"

definition summary_conflicts :: "ucd \<Rightarrow> rolled_row list \<Rightarrow> (pystr, rolled_row) pydict
    \<Rightarrow> resumido_conflict list py_result" where
  "summary_conflicts u rolled representative =
     traverse (\<lambda>(pmf, valores).
         case map_of representative pmf of
           None \<Rightarrow> Inl KeyError
         | Some w \<Rightarrow> Inr \<lparr>cf_pmf = pmf, cf_valores = valores, cf_canonico = rr_resumido w,
             cf_detalle = rr_estado w, cf_number = rr_number w\<rparr>)
       (sort_key fst (estado_resumido_conflicts u K_pmf rolled))"

definition distinct_step :: "ucd \<Rightarrow> (pystr option, pystr) pydict \<Rightarrow> pystr option
    \<Rightarrow> (pystr option, pystr) pydict" where
  "distinct_step u seen v =
     (case v of
        None \<Rightarrow> seen
      | Some s \<Rightarrow> if strip s = [] then seen
          else dict_setdefault (normalized_label u v) (strip s) seen)"

definition distinct_labels :: "ucd \<Rightarrow> pystr option list \<Rightarrow> pystr list" where
  "distinct_labels u vals = sort (map snd (foldl (distinct_step u) [] vals))"

text \<open>\<open>re.compile(r"\s\+\s|\s+y\s+|/").search\<close>: a slash, or a plus or a y between spaces.\<close>

fun composite_label :: "pystr \<Rightarrow> bool" where
  "composite_label [] = False"
| "composite_label (c # cs) =
     (c = 47
      \<or> is_space c \<and> (case cs of d # e # _ \<Rightarrow> (d = 43 \<or> d = 121) \<and> is_space e | _ \<Rightarrow> False)
      \<or> composite_label cs)"

definition sentinel_label :: "ucd \<Rightarrow> pystr option" where
  "sentinel_label u = normalized_label u (Some (lit ''Sin reforestacion''))"

definition ref_step :: "ucd \<Rightarrow> nat \<times> pystr option list \<Rightarrow> summary_row \<Rightarrow> nat \<times> pystr option list" where
  "ref_step u acc row =
     (if normalized_label u (sr_predio_ref row) = sentinel_label u then (fst acc + 1, snd acc)
      else (fst acc, snd acc @ [sr_predio_ref row]))"

definition build_reforestacion :: "ucd \<Rightarrow> summary_row list \<Rightarrow> reforestacion" where
  "build_reforestacion u rows =
     (case foldl (ref_step u) (0, []) rows of (sentinel_rows, predio_refs) \<Rightarrow>
        let labels = distinct_labels u predio_refs
        in \<lparr>rf_labels = labels, rf_count = length labels,
            rf_rol_ref_count = length (distinct_labels u (map sr_rol_ref rows)),
            rf_sentinel_rows = sentinel_rows,
            rf_compuestas = filter composite_label labels\<rparr>)"

definition valores_step :: "ucd \<Rightarrow> (hero, (pystr, unit) pydict) pydict \<Rightarrow> summary_row
    \<Rightarrow> (hero, (pystr, unit) pydict) pydict" where
  "valores_step u valores row =
     (let raw = strip (text_or_empty (sr_resumido row))
      in if raw = [] then valores
         else (let h = hero_state u (sr_resumido row);
                   spellings = (case map_of valores h of None \<Rightarrow> [] | Some d \<Rightarrow> d)
               in AList.update h (AList.update raw () spellings) valores))"

definition estado_resumido_valores :: "ucd \<Rightarrow> summary_row list \<Rightarrow> (hero, pystr list) pydict" where
  "estado_resumido_valores u rows =
     map (\<lambda>(state, spellings). (state, sort (map fst spellings))) (foldl (valores_step u) [] rows)"

section \<open>The summary\<close>

definition folded_state :: "ucd \<Rightarrow> pystr option \<Rightarrow> pystr" where
  "folded_state u v = lower u (strip (text_or_empty v))"

definition is_servidumbre :: "ucd \<Rightarrow> summary_row \<Rightarrow> bool" where
  "is_servidumbre u row =
     (case sr_propietario row of None \<Rightarrow> False | Some t \<Rightarrow> contains (lit ''servidumbre'') (lower u t))"

definition somes :: "'a option list \<Rightarrow> 'a list" where
  "somes xs = concat (map (\<lambda>x. case x of None \<Rightarrow> [] | Some v \<Rightarrow> [v]) xs)"

definition build_summary :: "ucd \<Rightarrow> summary_row list \<Rightarrow> summary_result py_result" where
  "build_summary u rows =
     (let rolled = map summary_as_rolled rows;
          representative = first_row_wins K_pmf rolled;
          pmf_status = map snd (estado_resumido_first_row K_pmf rolled);
          predio_status = map snd (estado_resumido_first_row K_predio rolled);
          refo = build_reforestacion u rows
      in bind_result (empresa_breakdown_of u rows (map snd representative)) (\<lambda>empresas.
         bind_result (summary_conflicts u rolled representative) (\<lambda>conflicts.
         Inr \<lparr>su_rows = length rows,
           su_pmf = card (set (map sr_pmf rows)),
           su_predio = card (set (map sr_predio rows)),
           su_rol = card (set (somes (map sr_rol rows))),
           su_surface = py_sum (somes (map sr_superficie rows)),
           su_aprobados = length (filter (\<lambda>v. folded_state u v = lit ''aprobado'') pmf_status),
           su_en_tramite = length (filter (\<lambda>v. folded_state u v = lit ''en tramite''
             \<or> folded_state u v = en_tramite_acute) pmf_status),
           su_pendientes = length (filter id (map snd (pending_priority_legacy u K_pmf rolled))),
           su_servidumbre = card (set (map sr_predio (filter (is_servidumbre u) rows))),
           su_avance_predio = bucket_counts_of u predio_status,
           su_avance_pmf = bucket_counts_of u pmf_status,
           su_hero_predio = hero_counts_of u predio_status,
           su_hero_pmf = hero_counts_of u pmf_status,
           su_detalle = labelled_counts u (map rr_estado (map snd representative)),
           su_valores = estado_resumido_valores u rows,
           su_empresas = empresas,
           su_reforestacion = refo,
           su_sin_id = length (filter (\<lambda>row. blank_text (sr_id_predio row)) rows),
           su_sin_ingreso = length (filter (\<lambda>w. blank_text (rr_ingreso w)) (map snd representative)),
           su_conflictos = conflicts\<rparr>)))"


section \<open>The counters count\<close>

lemma bucket_counts_eq:
  "bucket_counts_of u vals =
     \<lparr>bc_aprobado = count_list (map (bucket_3way u) vals) B_aprobado,
      bc_en_tramite = count_list (map (bucket_3way u) vals) B_en_tramite,
      bc_pendiente_o_tachado = count_list (map (bucket_3way u) vals) B_pendiente_o_tachado\<rparr>"
proof -
  have "foldl (\<lambda>c v. count_bucket c (bucket_3way u v)) c vals =
     \<lparr>bc_aprobado = bc_aprobado c + count_list (map (bucket_3way u) vals) B_aprobado,
      bc_en_tramite = bc_en_tramite c + count_list (map (bucket_3way u) vals) B_en_tramite,
      bc_pendiente_o_tachado = bc_pendiente_o_tachado c + count_list (map (bucket_3way u) vals) B_pendiente_o_tachado\<rparr>" for c
  proof (induction vals arbitrary: c)
    case (Cons v vals)
    then show ?case by (cases "bucket_3way u v") (simp_all add: count_bucket_def)
  qed simp
  then show ?thesis by (simp add: bucket_counts_of_def)
qed

definition bucket_total :: "bucket_counts \<Rightarrow> nat" where
  "bucket_total c = bc_aprobado c + bc_en_tramite c + bc_pendiente_o_tachado c"

fun hero_get :: "hero \<Rightarrow> hero_counts \<Rightarrow> nat" where
  "hero_get H_aprobado c = hc_aprobado c"
| "hero_get H_en_tramite c = hc_en_tramite c"
| "hero_get H_pendiente c = hc_pendiente c"
| "hero_get H_tachado c = hc_tachado c"
| "hero_get H_sin_estado c = hc_sin_estado c"

definition hero_total :: "hero_counts \<Rightarrow> nat" where
  "hero_total c = (\<Sum>h\<leftarrow>hero_order. hero_get h c)"

lemma bucket_total_eq [simp]: "bucket_total (bucket_counts_of u vals) = length vals"
proof -
  have "count_list bs B_aprobado + count_list bs B_en_tramite + count_list bs B_pendiente_o_tachado = length bs" for bs
  proof (induction bs)
    case (Cons b bs)
    then show ?case by (cases b) simp_all
  qed simp
  from this [of "map (bucket_3way u) vals"] show ?thesis by (simp add: bucket_counts_eq bucket_total_def)
qed

lemma hero_get_counts: "hero_get h (hero_counts_of u vals) = length (filter (\<lambda>v. hero_state u v = h) vals)"
  by (cases h) (simp_all add: hero_counts_of_def Let_def dict_count_into count_list_filter filter_map comp_def)

lemma hero_total_eq [simp]: "hero_total (hero_counts_of u vals) = length vals"
proof -
  have "set (map (hero_state u) vals) \<subseteq> set hero_order"
  proof -
    have "h \<in> set hero_order" for h by (cases h) (simp_all add: hero_order_def)
    then show ?thesis by blast
  qed
  moreover have "distinct hero_order" by (simp add: hero_order_def)
  ultimately have "(\<Sum>h\<leftarrow>hero_order. count_list (map (hero_state u) vals) h) = length vals"
    by (simp only: sum_count_list length_map)
  then show ?thesis
    by (simp add: hero_total_def hero_get_counts count_list_filter filter_map comp_def)
qed

lemma hero_aprobado_iff: "hero_state u v = H_aprobado \<longleftrightarrow> folded_state u v = lit ''aprobado''"
  by (auto simp: hero_state_def hero_states_def folded_state_def en_tramite_acute_def split: option.splits if_splits)

lemma hero_en_tramite_iff:
  "hero_state u v = H_en_tramite \<longleftrightarrow> folded_state u v = lit ''en tramite'' \<or> folded_state u v = en_tramite_acute"
  by (auto simp: hero_state_def hero_states_def folded_state_def en_tramite_acute_def split: option.splits if_splits)

lemma bucket_aprobado_iff: "bucket_3way u v = B_aprobado \<longleftrightarrow> hero_state u v = H_aprobado"
  by (simp add: hero_aprobado_iff) (simp add: bucket_3way_def folded_state_def Let_def)

lemma bucket_en_tramite_iff: "bucket_3way u v = B_en_tramite \<longleftrightarrow> hero_state u v = H_en_tramite"
  by (simp add: hero_en_tramite_iff)
    (auto simp: bucket_3way_def folded_state_def Let_def en_tramite_acute_def)

lemma labelled_total: "(\<Sum>c\<leftarrow>labelled_counts u vals. lc_count c) = length vals"
proof -
  have upd: "map_of b k = Some c \<Longrightarrow> (\<Sum>x\<leftarrow>AList.update k c' b. lc_count (snd x)) + lc_count c
      = (\<Sum>x\<leftarrow>b. lc_count (snd x)) + lc_count c'" for b k c c'
    by (induction b) (auto split: if_splits)
  have new: "map_of b k = None \<Longrightarrow> (\<Sum>x\<leftarrow>AList.update k c' b. lc_count (snd x))
      = (\<Sum>x\<leftarrow>b. lc_count (snd x)) + lc_count c'" for b k c'
    by (induction b) (auto split: if_splits)
  have step: "(\<Sum>x\<leftarrow>label_step u b v. lc_count (snd x)) = Suc (\<Sum>x\<leftarrow>b. lc_count (snd x))" for b v
  proof (cases "map_of b (normalized_label u v)")
    case None
    then show ?thesis by (simp add: label_step_def Let_def new)
  next
    case (Some c)
    from upd [OF Some, of "\<lparr>lc_label = lc_label c, lc_normalized = normalized_label u v, lc_count = lc_count c + 1\<rparr>"]
    show ?thesis using Some by (simp add: label_step_def Let_def)
  qed
  have "(\<Sum>x\<leftarrow>foldl (label_step u) b vals. lc_count (snd x)) = (\<Sum>x\<leftarrow>b. lc_count (snd x)) + length vals" for b
    by (induction vals arbitrary: b) (simp_all add: step)
  from this [of "[]"] show ?thesis by (simp add: labelled_counts_def sum_list_sort_key comp_def)
qed

section \<open>Companies\<close>

definition empresa_key :: "ucd \<Rightarrow> summary_row list \<Rightarrow> rolled_row \<Rightarrow> pystr option" where
  "empresa_key u rows w = normalized_label u (empresa_of rows w)"

lemma empresa_fold:
  "snd (foldl (empresa_step u rows) ([], []) ws) =
       map (\<lambda>(k, g). (k, map rr_resumido g)) (group_by (empresa_key u rows) ws)
   \<and> map fst (fst (foldl (empresa_step u rows) ([], []) ws)) = map fst (group_by (empresa_key u rows) ws)"
proof (induction ws rule: rev_induct)
  case Nil
  show ?case by simp
next
  case (snoc w ws)
  let ?acc = "foldl (empresa_step u rows) ([], []) ws" and ?g = "group_by (empresa_key u rows) ws"
  have st: "snd (empresa_step u rows a w) = dict_append (empresa_key u rows w) (rr_resumido w) (snd a)"
    "fst (empresa_step u rows a w) = dict_setdefault (empresa_key u rows w) (empresa_of rows w) (fst a)" for a
    by (simp_all add: empresa_step_def empresa_key_def Let_def)
  have s: "snd (empresa_step u rows ?acc w) = map (\<lambda>(k, g). (k, map rr_resumido g)) (dict_append (empresa_key u rows w) w ?g)"
    unfolding st conjunct1 [OF snoc.IH] by (rule dict_append_map)
  have keys: "fst ` set (fst ?acc) = fst ` set ?g"
    using arg_cong [OF conjunct2 [OF snoc.IH], of set] by simp
  have "map fst (fst (empresa_step u rows ?acc w)) = map fst (dict_append (empresa_key u rows w) w ?g)"
    unfolding st map_fst_setdefault dict_append_def map_fst_update keys conjunct2 [OF snoc.IH] ..
  with s show ?case by (simp add: group_by_snoc)
qed

lemma empresa_total:
  obtains items where "empresa_breakdown_of u rows ws = Inr items"
    and "(\<Sum>e\<leftarrow>items. eb_pmf_count e) = length ws"
    and "\<forall>h. (\<Sum>e\<leftarrow>items. hero_get h (eb_estado e)) = length (filter (\<lambda>w. hero_state u (rr_resumido w) = h) ws)"
    and "sorted (map (\<lambda>e. - int (eb_pmf_count e)) items)"
proof -
  obtain L G where LG: "foldl (empresa_step u rows) ([], []) ws = (L, G)" by fastforce
  let ?grp = "group_by (empresa_key u rows) ws"
  from empresa_fold [of u rows ws] LG have G: "G = map (\<lambda>(k, g). (k, map rr_resumido g)) ?grp"
    and L: "map fst L = map fst ?grp" by simp_all
  let ?f = "\<lambda>(key, states). case map_of L key of None \<Rightarrow> Inl KeyError
            | Some label \<Rightarrow> Inr \<lparr>eb_empresa = label, eb_pmf_count = length states, eb_estado = hero_counts_of u states\<rparr>"
  have "\<exists>e. ?f x = Inr e" if "x \<in> set G" for x
  proof -
    from that have "fst x \<in> fst ` set ?grp" by (force simp: G)
    then have "fst x \<in> fst ` set L" using arg_cong [OF L, of set] by simp
    then obtain l where "map_of L (fst x) = Some l" by (metis map_of_eq_None_iff not_None_eq)
    then show ?thesis by (cases x) simp
  qed
  then obtain items where t: "traverse ?f G = Inr items" using traverse_total [of G ?f] by blast
  have fe: "?f x = Inr e \<Longrightarrow> eb_pmf_count e = length (snd x) \<and> eb_estado e = hero_counts_of u (snd x)" for x e
    by (cases x) (auto split: option.splits)
  have c: "map eb_pmf_count items = map (\<lambda>x. length (snd x)) G"
    by (rule traverse_map [OF t]) (simp add: fe)
  have h: "map (\<lambda>e. hero_get h (eb_estado e)) items = map (\<lambda>x. hero_get h (hero_counts_of u (snd x))) G" for h
    by (rule traverse_map [OF t]) (simp add: fe)
  have all: "length xs = length (filter (\<lambda>_. True) xs)" for xs :: "rolled_row list" by simp
  have "(\<Sum>x\<leftarrow>G. length (snd x)) = length ws"
    using sum_group_by [of "\<lambda>_. True" "empresa_key u rows" ws] by (simp add: G comp_def case_prod_unfold)
  moreover have "(\<Sum>x\<leftarrow>G. hero_get h (hero_counts_of u (snd x))) = length (filter (\<lambda>w. hero_state u (rr_resumido w) = h) ws)" for h
    using sum_group_by [of "\<lambda>w. hero_state u (rr_resumido w) = h" "empresa_key u rows" ws]
    by (simp add: G comp_def case_prod_unfold hero_get_counts filter_map)
  moreover let ?k = "\<lambda>item. (- int (eb_pmf_count item), text_or_empty (eb_empresa item))"
  have "sorted (map fst (map ?k (sort_key ?k items)))"
  proof -
    have "sorted (map ?k (sort_key ?k items))" by simp
    then show ?thesis by (auto simp: sorted_iff_nth_mono less_eq_prod_def intro: order_less_imp_le)
  qed
  ultimately show thesis
    by (intro that [of "sort_key ?k items"])
      (simp_all add: empresa_breakdown_of_def LG t sum_list_sort_key c h comp_def)
qed


section \<open>Conflicts\<close>

lemma summary_keys:
  "row_key K_pmf ` set (map summary_as_rolled rows) = sr_pmf ` set rows"
  "row_key K_predio ` set (map summary_as_rolled rows) = sr_predio ` set rows"
  by (force simp: row_key_def summary_as_rolled_def)+

lemma summary_winner:
  assumes "map_of (first_row_wins K_pmf (map summary_as_rolled rows)) p = Some w"
  shows "\<exists>q \<in> set rows. w = summary_as_rolled q \<and> sr_pmf q = p
    \<and> (\<forall>r \<in> set rows. sr_pmf r = p \<longrightarrow> sr_number q \<le> sr_number r)"
  using win_lookup [OF assms] by (auto simp: is_winner_def row_key_def summary_as_rolled_def)

lemma summary_conflicts_total:
  assumes "representative = first_row_wins K_pmf (map summary_as_rolled rows)"
  shows "\<exists>cs. summary_conflicts u (map summary_as_rolled rows) representative = Inr cs"
  unfolding summary_conflicts_def
proof (rule traverse_total)
  fix x assume "x \<in> set (sort_key fst (estado_resumido_conflicts u K_pmf (map summary_as_rolled rows)))"
  then have "fst x \<in> fst ` set (estado_resumido_conflicts u K_pmf (map summary_as_rolled rows))" by simp
  then obtain r where "r \<in> set (map summary_as_rolled rows)" "row_key K_pmf r = fst x"
    by (auto simp: conflict_keys)
  then obtain w where "map_of representative (fst x) = Some w" using win_exists assms by metis
  then show "\<exists>y. (case x of (pmf, valores) \<Rightarrow> case map_of representative pmf of None \<Rightarrow> Inl KeyError
      | Some w \<Rightarrow> Inr \<lparr>cf_pmf = pmf, cf_valores = valores, cf_canonico = rr_resumido w,
          cf_detalle = rr_estado w, cf_number = rr_number w\<rparr>) = Inr y"
    by (cases x) simp
qed

definition summary_labels :: "ucd \<Rightarrow> summary_row list \<Rightarrow> pystr \<Rightarrow> pystr option set" where
  "summary_labels u rows p = (\<lambda>r. normalized_label u (sr_resumido r)) ` {r \<in> set rows. sr_pmf r = p}"

lemma summary_labels_rolled:
  "(\<lambda>r. normalized_label u (rr_resumido r)) ` {r \<in> set (map summary_as_rolled rows). row_key K_pmf r = p}
     = summary_labels u rows p"
  by (force simp: summary_labels_def row_key_def summary_as_rolled_def)

lemma summary_conflicts_facts:
  assumes "summary_conflicts u (map summary_as_rolled rows)
      (first_row_wins K_pmf (map summary_as_rolled rows)) = Inr cs"
  shows "map cf_pmf cs = sort (map fst (estado_resumido_conflicts u K_pmf (map summary_as_rolled rows)))"
    and "\<forall>c \<in> set cs. length (cf_valores c) = card (summary_labels u rows (cf_pmf c))
      \<and> (\<exists>q \<in> set rows. sr_pmf q = cf_pmf c \<and> sr_number q = cf_number c \<and> sr_resumido q = cf_canonico c
           \<and> (\<forall>r \<in> set rows. sr_pmf r = cf_pmf c \<longrightarrow> sr_number q \<le> sr_number r))"
proof -
  note t = assms [unfolded summary_conflicts_def]
  have "map cf_pmf cs = map fst (sort_key fst (estado_resumido_conflicts u K_pmf (map summary_as_rolled rows)))"
    by (rule traverse_map [OF t]) (auto split: option.splits)
  then show "map cf_pmf cs = sort (map fst (estado_resumido_conflicts u K_pmf (map summary_as_rolled rows)))"
    by (simp only: map_sort_key [of fst "\<lambda>x. x"])
  show "\<forall>c \<in> set cs. length (cf_valores c) = card (summary_labels u rows (cf_pmf c))
      \<and> (\<exists>q \<in> set rows. sr_pmf q = cf_pmf c \<and> sr_number q = cf_number c \<and> sr_resumido q = cf_canonico c
           \<and> (\<forall>r \<in> set rows. sr_pmf r = cf_pmf c \<longrightarrow> sr_number q \<le> sr_number r))"
  proof
    fix c assume "c \<in> set cs"
    from traverse_mem [OF t this] obtain p vals w where
      e: "(p, vals) \<in> set (estado_resumido_conflicts u K_pmf (map summary_as_rolled rows))"
      and w: "map_of (first_row_wins K_pmf (map summary_as_rolled rows)) p = Some w"
      and c: "c = \<lparr>cf_pmf = p, cf_valores = vals, cf_canonico = rr_resumido w, cf_detalle = rr_estado w, cf_number = rr_number w\<rparr>"
      by (auto split: option.splits)
    have "length vals = card (summary_labels u rows p)"
      using conflict_entry [OF e] by (simp only: summary_labels_rolled)
    with summary_winner [OF w] c
    show "length (cf_valores c) = card (summary_labels u rows (cf_pmf c))
      \<and> (\<exists>q \<in> set rows. sr_pmf q = cf_pmf c \<and> sr_number q = cf_number c \<and> sr_resumido q = cf_canonico c
           \<and> (\<forall>r \<in> set rows. sr_pmf r = cf_pmf c \<longrightarrow> sr_number q \<le> sr_number r))"
      by (auto simp: summary_as_rolled_def)
  qed
qed

section \<open>Properties\<close>

lemma summary_statuses:
  "length (map snd (estado_resumido_first_row K_pmf (map summary_as_rolled rows))) = card (sr_pmf ` set rows)"
  "length (map snd (estado_resumido_first_row K_predio (map summary_as_rolled rows))) = card (sr_predio ` set rows)"
  "length (map snd (first_row_wins K_pmf (map summary_as_rolled rows))) = card (sr_pmf ` set rows)"
  using resumido.length_basis [of _ "map summary_as_rolled rows"] length_first_row_wins [of _ "map summary_as_rolled rows"]
  by (simp_all only: length_map summary_keys)

text \<open>
  C34. The summary is always computed, whatever the rows, and its figures reconcile: the status
  hero and the chart of the plans each add up to the number of plans, those of the properties to
  the number of properties, the detailed breakdown to the number of plans, and the companies
  partition the plans, in total and within every status.
\<close>

theorem build_summary_partition:
  "\<exists>S. build_summary u rows = Inr S
    \<and> su_pmf S = card (sr_pmf ` set rows) \<and> su_predio S = card (sr_predio ` set rows)
    \<and> hero_total (su_hero_pmf S) = su_pmf S \<and> bucket_total (su_avance_pmf S) = su_pmf S
    \<and> hero_total (su_hero_predio S) = su_predio S \<and> bucket_total (su_avance_predio S) = su_predio S
    \<and> (\<Sum>c\<leftarrow>su_detalle S. lc_count c) = su_pmf S
    \<and> (\<Sum>e\<leftarrow>su_empresas S. eb_pmf_count e) = su_pmf S
    \<and> (\<forall>h. (\<Sum>e\<leftarrow>su_empresas S. hero_get h (eb_estado e)) = hero_get h (su_hero_pmf S))"
proof -
  let ?rolled = "map summary_as_rolled rows"
  let ?ws = "map snd (first_row_wins K_pmf ?rolled)"
  obtain items where e: "empresa_breakdown_of u rows ?ws = Inr items" "(\<Sum>e\<leftarrow>items. eb_pmf_count e) = length ?ws"
    "\<forall>h. (\<Sum>e\<leftarrow>items. hero_get h (eb_estado e)) = length (filter (\<lambda>w. hero_state u (rr_resumido w) = h) ?ws)"
    and "sorted (map (\<lambda>e. - int (eb_pmf_count e)) items)"
    by (rule empresa_total [of u rows ?ws])
  obtain cs where c: "summary_conflicts u ?rolled (first_row_wins K_pmf ?rolled) = Inr cs"
    using summary_conflicts_total by blast
  have status: "map snd (estado_resumido_first_row K_pmf ?rolled) = map rr_resumido ?ws"
    by (rule resumido.basis_values)
  have "hero_get h (hero_counts_of u (map snd (estado_resumido_first_row K_pmf ?rolled)))
      = length (filter (\<lambda>w. hero_state u (rr_resumido w) = h) ?ws)" for h
    unfolding status hero_get_counts by (simp add: filter_map comp_def)
  with e c show ?thesis
    by (simp add: build_summary_def Let_def labelled_total summary_statuses [simplified length_map])
qed

text \<open>
  The indicators, the chart and the status hero never disagree: the approved and in-progress
  plans counted by the indicators are those of the hero and of the chart, and the chart's third
  bucket is the rest of the hero.
\<close>

theorem summary_kpis_agree:
  assumes "build_summary u rows = Inr S"
  shows "su_aprobados S = hc_aprobado (su_hero_pmf S) \<and> bc_aprobado (su_avance_pmf S) = hc_aprobado (su_hero_pmf S)
    \<and> su_en_tramite S = hc_en_tramite (su_hero_pmf S) \<and> bc_en_tramite (su_avance_pmf S) = hc_en_tramite (su_hero_pmf S)
    \<and> bc_aprobado (su_avance_predio S) = hc_aprobado (su_hero_predio S)
    \<and> bc_en_tramite (su_avance_predio S) = hc_en_tramite (su_hero_predio S)
    \<and> bc_pendiente_o_tachado (su_avance_pmf S) = hc_pendiente (su_hero_pmf S) + hc_tachado (su_hero_pmf S)
        + hc_sin_estado (su_hero_pmf S)"
proof -
  have hero: "hc_aprobado (hero_counts_of u vs) = length (filter (\<lambda>v. hero_state u v = H_aprobado) vs)"
    "hc_en_tramite (hero_counts_of u vs) = length (filter (\<lambda>v. hero_state u v = H_en_tramite) vs)" for vs
    using hero_get_counts [of H_aprobado] hero_get_counts [of H_en_tramite] by simp_all
  have bucket: "bc_aprobado (bucket_counts_of u vs) = length (filter (\<lambda>v. hero_state u v = H_aprobado) vs)"
    "bc_en_tramite (bucket_counts_of u vs) = length (filter (\<lambda>v. hero_state u v = H_en_tramite) vs)" for vs
    by (simp_all add: bucket_counts_eq count_list_filter filter_map comp_def bucket_aprobado_iff bucket_en_tramite_iff)
  have rest: "bc_pendiente_o_tachado (bucket_counts_of u vs) = hc_pendiente (hero_counts_of u vs)
      + hc_tachado (hero_counts_of u vs) + hc_sin_estado (hero_counts_of u vs)" for vs
    using bucket_total_eq [of u vs] hero_total_eq [of u vs]
    by (simp add: bucket_total_def hero_total_def hero_order_def hero bucket)
  show ?thesis
    using assms by (auto simp: build_summary_def Let_def hero bucket rest hero_aprobado_iff hero_en_tramite_iff)
qed

text \<open>
  The conflict list is exactly the plans whose rows disagree on \<open>Estado resumido\<close> as
  labels, once each and in code-point order; each entry carries one spelling per distinct label and
  the value the headline kept, that of the plan's first source row.
\<close>

theorem summary_conflicts_exact:
  assumes "build_summary u rows = Inr S"
  shows "sorted (map cf_pmf (su_conflictos S)) \<and> distinct (map cf_pmf (su_conflictos S))
    \<and> (\<forall>p. p \<in> cf_pmf ` set (su_conflictos S) \<longleftrightarrow>
        (\<exists>r \<in> set rows. \<exists>r' \<in> set rows. sr_pmf r = p \<and> sr_pmf r' = p
           \<and> normalized_label u (sr_resumido r) \<noteq> normalized_label u (sr_resumido r')))
    \<and> (\<forall>c \<in> set (su_conflictos S). length (cf_valores c) = card (summary_labels u rows (cf_pmf c))
      \<and> (\<exists>q \<in> set rows. sr_pmf q = cf_pmf c \<and> sr_number q = cf_number c \<and> sr_resumido q = cf_canonico c
           \<and> (\<forall>r \<in> set rows. sr_pmf r = cf_pmf c \<longrightarrow> sr_number q \<le> sr_number r)))"
proof -
  let ?rolled = "map summary_as_rolled rows"
  from assms have c: "summary_conflicts u ?rolled (first_row_wins K_pmf ?rolled) = Inr (su_conflictos S)"
    by (auto simp: build_summary_def Let_def)
  note keys = summary_conflicts_facts(1) [OF c]
  have "p \<in> cf_pmf ` set (su_conflictos S) \<longleftrightarrow> p \<in> fst ` set (estado_resumido_conflicts u K_pmf ?rolled)" for p
    using arg_cong [OF keys, of set] by simp
  moreover have "p \<in> fst ` set (estado_resumido_conflicts u K_pmf ?rolled) \<longleftrightarrow>
      (\<exists>r \<in> set rows. \<exists>r' \<in> set rows. sr_pmf r = p \<and> sr_pmf r' = p
           \<and> normalized_label u (sr_resumido r) \<noteq> normalized_label u (sr_resumido r'))" for p
    unfolding conflict_keys by (simp add: row_key_def summary_as_rolled_def)
  moreover have "sorted (map cf_pmf (su_conflictos S))" "distinct (map cf_pmf (su_conflictos S))"
    unfolding keys using distinct_conflicts by simp_all
  ultimately show ?thesis using summary_conflicts_facts(2) [OF c] by simp
qed

definition demo_summary :: "int \<Rightarrow> string \<Rightarrow> string \<Rightarrow> summary_row" where
  "demo_summary n pmf resumido = \<lparr>sr_number = n, sr_pmf = lit pmf, sr_predio = lit pmf, sr_estado = None,
     sr_resumido = Some (lit resumido), sr_ingreso = None, sr_propietario = None, sr_predio_ref = None,
     sr_id_predio = None, sr_superficie = Some (Fin (1 / 2)), sr_rol = None, sr_empresa = None, sr_rol_ref = None\<rparr>"

lemma build_summary_total: "\<exists>S. build_summary u rows = Inr S"
proof -
  obtain items where "empresa_breakdown_of u rows (map snd (first_row_wins K_pmf (map summary_as_rolled rows))) = Inr items"
    by (rule empresa_total)
  with summary_conflicts_total [OF refl, of u rows] show ?thesis by (auto simp: build_summary_def Let_def)
qed

theorem summary_kpis_agree_witness:
  "\<exists>S. build_summary latin_ucd [demo_summary 4 ''P1'' ''Aprobado''] = Inr S
     \<and> su_aprobados S = hc_aprobado (su_hero_pmf S)"
proof -
  obtain S where S: "build_summary latin_ucd [demo_summary 4 ''P1'' ''Aprobado''] = Inr S"
    using build_summary_total by blast
  with summary_kpis_agree [OF S] show ?thesis by blast
qed

theorem summary_conflicts_exact_witness:
  "\<exists>S. build_summary latin_ucd [demo_summary 4 ''P1'' ''Aprobado'', demo_summary 5 ''P1'' ''Tachado''] = Inr S
     \<and> lit ''P1'' \<in> cf_pmf ` set (su_conflictos S)"
proof -
  obtain S where S: "build_summary latin_ucd [demo_summary 4 ''P1'' ''Aprobado'', demo_summary 5 ''P1'' ''Tachado''] = Inr S"
    using build_summary_total by blast
  have "normalized_label latin_ucd (Some (lit ''Aprobado'')) \<noteq> normalized_label latin_ucd (Some (lit ''Tachado''))"
    by (simp add: normalized_label_def nfkd_def casefold_def drop_marks_def strip_def strip_by_def
        is_space_def latin_fold_def latin_decomp_def latin_ccc_def)
  then have "lit ''P1'' \<in> cf_pmf ` set (su_conflictos S)"
    using summary_conflicts_exact [OF S] by (simp add: demo_summary_def)
  with S show ?thesis by blast
qed

end
