(* ===== verification/Aef.thy ===== *)
theory Aef
  imports PmfField
begin

text \<open>
  \<open>transelec_ingestion/aef_view.py\<close>: the AEF tracking view. Five fields describe a plan and
  are written on one of its rows; each is resolved over all rows of the plan, a disagreement is a
  conflict without a value, and row-level counts stay row-level.
\<close>

section \<open>Data\<close>

datatype aef_field = A_aef | A_quien_solicita | A_fecha_solicitud | A_fecha_corta | A_fecha_termino

definition aef_tracking_fields :: "aef_field list" where
  "aef_tracking_fields = [A_aef, A_quien_solicita, A_fecha_solicitud, A_fecha_corta, A_fecha_termino]"

record aef_row =
  ar_number :: int
  ar_pmf :: pystr
  ar_aef :: "pystr option"
  ar_quien :: "pystr option"
  ar_solicitud :: "date option"
  ar_corta :: "date option"
  ar_termino :: "date option"
  ar_text_dates :: text_dates

record label_count =
  la_label :: "pystr option"
  la_count :: nat

record pmf_aef =
  pa_pmf :: pystr
  pa_total_rows :: nat
  pa_rows_tracking :: nat
  pa_rows_aef :: nat
  pa_numbers :: "int list"
  pa_fields :: "(aef_field, pmf_field_value) pydict"
  pa_flags :: "string list"

record aef_summary =
  as_rows :: nat
  as_pmf :: nat
  as_rows_tracking :: nat
  as_rows_aef :: nat
  as_rows_quien :: nat
  as_rows_solicitud :: nat
  as_rows_corta :: nat
  as_rows_termino :: nat
  as_pmf_tracking :: nat
  as_pmf_aef :: nat
  as_pmf_conflict :: nat
  as_conflicts_by_field :: "(aef_field, nat) pydict"
  as_rows_chronology :: nat
  as_pmf_chronology :: nat
  as_por_aef :: "label_count list"
  as_por_solicitante :: "label_count list"
  as_pmf_por_aef :: "label_count list"
  as_pmf_por_solicitante :: "label_count list"
  as_pmfs :: "pmf_aef list"
  as_tracked_numbers :: "int list"

section \<open>Rows\<close>

definition aef_field_name :: "aef_field \<Rightarrow> string" where
  "aef_field_name f = (case f of A_aef \<Rightarrow> ''aef'' | A_quien_solicita \<Rightarrow> ''quien_solicita''
     | A_fecha_solicitud \<Rightarrow> ''fecha_solicitud'' | A_fecha_corta \<Rightarrow> ''fecha_corta''
     | A_fecha_termino \<Rightarrow> ''fecha_termino'')"

definition text_val :: "pystr option \<Rightarrow> pyval" where
  "text_val v = (case v of None \<Rightarrow> VNone | Some s \<Rightarrow> VStr s)"

definition date_val :: "date option \<Rightarrow> pyval" where
  "date_val v = (case v of None \<Rightarrow> VNone | Some d \<Rightarrow> VDate d)"

definition aef_attr :: "aef_row \<Rightarrow> aef_field \<Rightarrow> pyval" where
  "aef_attr row f = (case f of A_aef \<Rightarrow> text_val (ar_aef row) | A_quien_solicita \<Rightarrow> text_val (ar_quien row)
     | A_fecha_solicitud \<Rightarrow> date_val (ar_solicitud row) | A_fecha_corta \<Rightarrow> date_val (ar_corta row)
     | A_fecha_termino \<Rightarrow> date_val (ar_termino row))"

definition val_present :: "pyval \<Rightarrow> bool" where
  "val_present v = (case v of VNone \<Rightarrow> False | VStr s \<Rightarrow> strip s \<noteq> [] | _ \<Rightarrow> True)"

definition tracking_value :: "aef_row \<Rightarrow> aef_field \<Rightarrow> pyval" where
  "tracking_value row f = value_or_unread_text (aef_attr row f) (ar_text_dates row) (aef_field_name f)"

definition has_tracking :: "aef_row \<Rightarrow> bool" where
  "has_tracking row = list_ex (\<lambda>f. val_present (tracking_value row f)) aef_tracking_fields"

definition row_chronology_flags :: "aef_row \<Rightarrow> string list" where
  "row_chronology_flags row = chronology_flags
     [(''fecha_solicitud'', date_val (ar_solicitud row)), (''fecha_corta'', date_val (ar_corta row)),
      (''fecha_termino'', date_val (ar_termino row))]"

section \<open>Label counts\<close>

text \<open>The values are texts or blanks; \<open>Counter\<close> keeps the order of first occurrence.\<close>

definition label_of_val :: "pyval \<Rightarrow> pystr option" where
  "label_of_val v = (if val_present v then (case v of VStr s \<Rightarrow> Some (strip s) | _ \<Rightarrow> None) else None)"

definition label_counts :: "ucd \<Rightarrow> pyval list \<Rightarrow> label_count list" where
  "label_counts u vals =
     map (\<lambda>(l, n). \<lparr>la_label = l, la_count = n\<rparr>)
       (sort_key (\<lambda>(l, n). (l = None, - int n, casefold u (case l of None \<Rightarrow> [] | Some s \<Rightarrow> s)))
         (count_into [] (map label_of_val vals)))"

section \<open>One record per plan\<close>

definition aef_fields :: "aef_row list \<Rightarrow> (aef_field, pmf_field_value) pydict" where
  "aef_fields pmf_rows =
     map (\<lambda>f. (f, resolve_pmf_field (map (\<lambda>row. (ar_number row, tracking_value row f)) pmf_rows)))
       aef_tracking_fields"

definition field_of :: "(aef_field, pmf_field_value) pydict \<Rightarrow> aef_field \<Rightarrow> pmf_field_value" where
  "field_of fs f = the (map_of fs f)"

definition agreed_dates :: "(aef_field, pmf_field_value) pydict \<Rightarrow> (string, pyval) pydict" where
  "agreed_dates fs =
     map (\<lambda>f. (aef_field_name f, pf_value (field_of fs f)))
       (filter (\<lambda>f. pf_status (field_of fs f) = PValue) [A_fecha_solicitud, A_fecha_corta, A_fecha_termino])"

definition build_pmf_record :: "pystr \<Rightarrow> aef_row list \<Rightarrow> pmf_aef" where
  "build_pmf_record pmf pmf_rows =
     (let fs = aef_fields pmf_rows
      in \<lparr>pa_pmf = pmf, pa_total_rows = length pmf_rows,
          pa_rows_tracking = length (filter has_tracking pmf_rows),
          pa_rows_aef = length (filter (\<lambda>row. val_present (text_val (ar_aef row))) pmf_rows),
          pa_numbers = map ar_number pmf_rows, pa_fields = fs,
          pa_flags = chronology_flags (agreed_dates fs)\<rparr>)"

definition has_conflict :: "pmf_aef \<Rightarrow> bool" where
  "has_conflict r = list_ex (\<lambda>(f, v). pf_status v = PConflict) (pa_fields r)"

definition pmf_has_tracking :: "pmf_aef \<Rightarrow> bool" where
  "pmf_has_tracking r \<longleftrightarrow> pa_rows_tracking r > 0"

definition pmf_label_counts :: "ucd \<Rightarrow> pmf_aef list \<Rightarrow> aef_field \<Rightarrow> label_count list" where
  "pmf_label_counts u records f =
     label_counts u (map (\<lambda>r. pf_value (field_of (pa_fields r) f))
       (filter (\<lambda>r. pf_status (field_of (pa_fields r) f) \<noteq> PConflict) records))"

definition scope_step :: "(pystr, aef_row list) pydict \<Rightarrow> aef_row \<Rightarrow> (pystr, aef_row list) pydict" where
  "scope_step by_pmf row =
     (case map_of by_pmf (ar_pmf row) of None \<Rightarrow> by_pmf | Some _ \<Rightarrow> dict_append (ar_pmf row) row by_pmf)"

definition build_aef_summary :: "ucd \<Rightarrow> aef_row list \<Rightarrow> aef_row list option \<Rightarrow> aef_summary" where
  "build_aef_summary u rows pmf_rows =
     (let tracked = filter has_tracking rows;
          in_scope = dedup (map ar_pmf rows);
          by_pmf = foldl scope_step (map (\<lambda>pmf. (pmf, [])) in_scope)
            (case pmf_rows of None \<Rightarrow> rows | Some rs \<Rightarrow> rs);
          records = map (\<lambda>(pmf, rs). build_pmf_record pmf rs) by_pmf;
          tracked_records = filter pmf_has_tracking records
      in \<lparr>as_rows = length rows, as_pmf = length in_scope, as_rows_tracking = length tracked,
          as_rows_aef = length (filter (\<lambda>row. val_present (text_val (ar_aef row))) rows),
          as_rows_quien = length (filter (\<lambda>row. val_present (text_val (ar_quien row))) rows),
          as_rows_solicitud = length (filter (\<lambda>row. val_present (tracking_value row A_fecha_solicitud)) rows),
          as_rows_corta = length (filter (\<lambda>row. val_present (tracking_value row A_fecha_corta)) rows),
          as_rows_termino = length (filter (\<lambda>row. val_present (tracking_value row A_fecha_termino)) rows),
          as_pmf_tracking = length tracked_records,
          as_pmf_aef = length (filter (\<lambda>r. pf_status (field_of (pa_fields r) A_aef) \<noteq> PBlank) records),
          as_pmf_conflict = length (filter has_conflict records),
          as_conflicts_by_field =
            map (\<lambda>f. (f, length (filter (\<lambda>r. pf_status (field_of (pa_fields r) f) = PConflict) records)))
              aef_tracking_fields,
          as_rows_chronology = length (filter (\<lambda>row. row_chronology_flags row \<noteq> []) tracked),
          as_pmf_chronology = length (filter (\<lambda>r. pa_flags r \<noteq> []) records),
          as_por_aef = label_counts u (map (\<lambda>row. text_val (ar_aef row)) tracked),
          as_por_solicitante = label_counts u (map (\<lambda>row. text_val (ar_quien row)) tracked),
          as_pmf_por_aef = pmf_label_counts u tracked_records A_aef,
          as_pmf_por_solicitante = pmf_label_counts u tracked_records A_quien_solicita,
          as_pmfs = tracked_records,
          as_tracked_numbers = map ar_number tracked\<rparr>)"

section \<open>What the view computes\<close>

lemma val_present_iff: "val_present v \<longleftrightarrow> \<not> is_blank v"
  by (auto simp: val_present_def is_blank_def split: pyval.splits)

lemma label_total: "(\<Sum>c\<leftarrow>label_counts u vals. la_count c) = length vals"
proof -
  have "(\<Sum>c\<leftarrow>label_counts u vals. la_count c) = dict_total (count_into [] (map label_of_val vals))"
    by (simp add: label_counts_def case_prod_unfold comp_def dict_total_def sum_list_sort_key)
  then show ?thesis by (simp add: dict_total_into) (simp add: dict_total_def)
qed

lemma all_fields: "f \<in> set aef_tracking_fields"
  by (cases f) (simp_all add: aef_tracking_fields_def)

lemma field_of_fields [simp]:
  "field_of (aef_fields rs) f = resolve_pmf_field (map (\<lambda>row. (ar_number row, tracking_value row f)) rs)"
  unfolding field_of_def aef_fields_def using all_fields [of f]
  by (simp add: map_of_map_restrict restrict_map_def)

lemma not_blank_tracked:
  assumes "pf_status (field_of (pa_fields (build_pmf_record pmf rs)) f) \<noteq> PBlank"
  shows "pmf_has_tracking (build_pmf_record pmf rs)"
proof -
  from assms obtain row where "row \<in> set rs" "\<not> is_blank (tracking_value row f)"
    by (auto simp: build_pmf_record_def Let_def resolve_PBlank_iff)
  then have "row \<in> set (filter has_tracking rs)"
    using all_fields [of f] by (auto simp: has_tracking_def list_ex_iff val_present_iff)
  then have "filter has_tracking rs \<noteq> []" by force
  then show ?thesis by (simp add: pmf_has_tracking_def build_pmf_record_def Let_def)
qed

definition scope_rows :: "aef_row list \<Rightarrow> aef_row list option \<Rightarrow> aef_row list" where
  "scope_rows rows pmf_rows = (case pmf_rows of None \<Rightarrow> rows | Some rs \<Rightarrow> rs)"

lemma scope_fold:
  "distinct ks \<Longrightarrow> foldl scope_step (map (\<lambda>k. (k, [])) ks) rs
     = map (\<lambda>k. (k, filter (\<lambda>r. ar_pmf r = k) rs)) ks"
proof (induction rs rule: rev_induct)
  case Nil
  show ?case by simp
next
  case (snoc r rs)
  let ?d = "map (\<lambda>k. (k, filter (\<lambda>r. ar_pmf r = k) rs)) ks"
  have look: "map_of ?d k = (if k \<in> set ks then Some (filter (\<lambda>r. ar_pmf r = k) rs) else None)" for k
    by (simp add: map_of_map_restrict restrict_map_def)
  have upd: "AList.update k (f k @ [r]) (map (\<lambda>k. (k, f k)) ks) = map (\<lambda>j. (j, if j = k then f k @ [r] else f j)) ks"
    if "k \<in> set ks" "distinct ks" for k and f :: "pystr \<Rightarrow> aef_row list"
    using that by (induction ks) auto
  show ?case
    using snoc.IH [OF snoc.prems] upd [OF _ snoc.prems, of "ar_pmf r" "\<lambda>k. filter (\<lambda>r. ar_pmf r = k) rs"]
    by (auto simp: scope_step_def look dict_append_def)
qed

definition aef_records :: "aef_row list \<Rightarrow> aef_row list option \<Rightarrow> pmf_aef list" where
  "aef_records rows pmf_rows =
     map (\<lambda>k. build_pmf_record k (filter (\<lambda>r. ar_pmf r = k) (scope_rows rows pmf_rows))) (dedup (map ar_pmf rows))"

lemma records_eq:
  "map (\<lambda>(pmf, rs). build_pmf_record pmf rs)
     (foldl scope_step (map (\<lambda>pmf. (pmf, [])) (dedup (map ar_pmf rows)))
        (case pmf_rows of None \<Rightarrow> rows | Some rs \<Rightarrow> rs)) = aef_records rows pmf_rows"
  by (simp add: scope_fold aef_records_def flip: scope_rows_def)

lemma summary_fields:
  "as_pmfs (build_aef_summary u rows pmf_rows) = filter pmf_has_tracking (aef_records rows pmf_rows)"
  "as_conflicts_by_field (build_aef_summary u rows pmf_rows) =
     map (\<lambda>f. (f, length (filter (\<lambda>r. pf_status (field_of (pa_fields r) f) = PConflict) (aef_records rows pmf_rows)))) aef_tracking_fields"
  "as_pmf_por_aef (build_aef_summary u rows pmf_rows) = pmf_label_counts u (filter pmf_has_tracking (aef_records rows pmf_rows)) A_aef"
  "as_pmf_tracking (build_aef_summary u rows pmf_rows) = length (filter pmf_has_tracking (aef_records rows pmf_rows))"
  "as_pmf_por_solicitante (build_aef_summary u rows pmf_rows)
     = pmf_label_counts u (filter pmf_has_tracking (aef_records rows pmf_rows)) A_quien_solicita"
  by (simp_all only: build_aef_summary_def Let_def records_eq aef_summary.select_convs)

lemma conflict_count:
  "map_of (as_conflicts_by_field (build_aef_summary u rows pmf_rows)) f
     = Some (length (filter (\<lambda>r. pf_status (field_of (pa_fields r) f) = PConflict) (aef_records rows pmf_rows)))"
  using all_fields [of f] by (simp add: summary_fields map_of_map_restrict restrict_map_def)

lemma conflict_is_tracked:
  "r \<in> set (aef_records rows pmf_rows) \<Longrightarrow> pf_status (field_of (pa_fields r) f) = PConflict \<Longrightarrow> pmf_has_tracking r"
proof -
  assume "r \<in> set (aef_records rows pmf_rows)" and c: "pf_status (field_of (pa_fields r) f) = PConflict"
  then obtain k rs where "r = build_pmf_record k rs" by (auto simp: aef_records_def)
  then show ?thesis using c not_blank_tracked [of k rs f] by simp
qed

lemma filter_split:
  "(\<And>x. x \<in> set xs \<Longrightarrow> P x \<Longrightarrow> Q x) \<Longrightarrow>
     length (filter (\<lambda>x. \<not> P x) (filter Q xs)) + length (filter P xs) = length (filter Q xs)"
  by (induction xs) auto

lemma pmf_labels_and_conflicts:
  "(\<Sum>c\<leftarrow>pmf_label_counts u (filter pmf_has_tracking (aef_records rows pmf_rows)) f. la_count c)
     + length (filter (\<lambda>r. pf_status (field_of (pa_fields r) f) = PConflict) (aef_records rows pmf_rows))
   = length (filter pmf_has_tracking (aef_records rows pmf_rows))"
  unfolding pmf_label_counts_def label_total length_map
  by (rule filter_split) (rule conflict_is_tracked)

text \<open>
  Every tracked plan is accounted for exactly once: the plan-level label counts of a field and
  the plans in conflict on it add up to the plans with tracking, the row-level label counts add up
  to the tracked rows, and the tracked plans are listed once each.
\<close>

theorem aef_counts_reconcile:
  "(\<Sum>c\<leftarrow>as_pmf_por_aef (build_aef_summary u rows pmf_rows). la_count c)
       + the (map_of (as_conflicts_by_field (build_aef_summary u rows pmf_rows)) A_aef)
     = as_pmf_tracking (build_aef_summary u rows pmf_rows)
   \<and> (\<Sum>c\<leftarrow>as_pmf_por_solicitante (build_aef_summary u rows pmf_rows). la_count c)
       + the (map_of (as_conflicts_by_field (build_aef_summary u rows pmf_rows)) A_quien_solicita)
     = as_pmf_tracking (build_aef_summary u rows pmf_rows)
   \<and> (\<Sum>c\<leftarrow>as_por_aef (build_aef_summary u rows pmf_rows). la_count c) = as_rows_tracking (build_aef_summary u rows pmf_rows)
   \<and> as_pmf_tracking (build_aef_summary u rows pmf_rows) = length (as_pmfs (build_aef_summary u rows pmf_rows))
   \<and> distinct (map pa_pmf (as_pmfs (build_aef_summary u rows pmf_rows)))"
proof -
  have "map pa_pmf (aef_records rows pmf_rows) = dedup (map ar_pmf rows)"
    by (simp add: aef_records_def build_pmf_record_def comp_def Let_def)
  then have "distinct (map pa_pmf (filter pmf_has_tracking (aef_records rows pmf_rows)))"
    using distinct_map_filter [of pa_pmf "aef_records rows pmf_rows"] by simp
  moreover have "(\<Sum>c\<leftarrow>as_por_aef (build_aef_summary u rows pmf_rows). la_count c) = as_rows_tracking (build_aef_summary u rows pmf_rows)"
    by (simp add: build_aef_summary_def Let_def label_total)
  ultimately show ?thesis
    unfolding conflict_count option.sel
    unfolding summary_fields pmf_labels_and_conflicts by blast
qed

text \<open>
  A plan's record does not depend on the filter: over the same plan rows, whichever rows a
  filter kept, a listed plan has the record built from all of its rows; a row-level filter decides
  only which plans are listed.
\<close>

theorem aef_filter_independent:
  "set (as_pmfs (build_aef_summary u rows (Some every))) =
     {build_pmf_record k (filter (\<lambda>r. ar_pmf r = k) every) | k.
        k \<in> ar_pmf ` set rows \<and> (\<exists>r \<in> set every. ar_pmf r = k \<and> has_tracking r)}"
proof -
  have "pmf_has_tracking (build_pmf_record k (filter (\<lambda>r. ar_pmf r = k) every))
      \<longleftrightarrow> (\<exists>r \<in> set every. ar_pmf r = k \<and> has_tracking r)" for k
    by (auto simp: pmf_has_tracking_def build_pmf_record_def Let_def filter_empty_conv)
  then show ?thesis by (auto simp: summary_fields aef_records_def scope_rows_def)
qed

end
