(* ===== verification/FieldSpecs.thy ===== *)
theory FieldSpecs
  imports PyText
begin

text \<open>
  The field registry of \<open>transelec_ingestion/resumen_layout.py\<close>: one entry per business
  field of the \<open>Resumen\<close> table, with its header, what its absence means and its kind, in
  the order of the source. Field names are identifiers of the program (\<open>string\<close>); headers
  and aliases are source texts (\<open>pystr\<close>).
\<close>

datatype tier = T_identity | T_required | T_expected | T_optional

datatype field_kind = K_text | K_number | K_date

record field_spec_t =
  fs_name :: string
  fs_header :: pystr
  fs_tier :: tier
  fs_kind :: field_kind
  fs_aliases :: "pystr list"

definition field_spec :: "string \<Rightarrow> pystr \<Rightarrow> tier \<Rightarrow> field_kind \<Rightarrow> pystr list \<Rightarrow> field_spec_t" where
  "field_spec name header t kind aliases =
     \<lparr>fs_name = name, fs_header = header, fs_tier = t, fs_kind = kind, fs_aliases = aliases\<rparr>"

definition field_specs :: "field_spec_t list" where
  "field_specs =
    [field_spec ''aef'' (lit ''AEF'') T_optional K_text [lit ''Estado AEF''],
     field_spec ''quien_solicita'' (lit ''Quien solicita'') T_optional K_text [lit ''Solicitante'', lit ''Solicitado por''],
     field_spec ''fecha_solicitud'' (lit ''Fecha solicitud'') T_optional K_date [lit ''Fecha de solicitud''],
     field_spec ''fecha_corta'' (lit ''Fecha corta'') T_optional K_date [lit ''Fecha de corta''],
     field_spec ''fecha_termino'' (lit ''Fecha termino'') T_optional K_date [lit ''Fecha de termino''],
     field_spec ''predio_ref'' (lit ''Predio Ref'') T_expected K_text [],
     field_spec ''rol_ref'' (lit ''Rol Ref'') T_expected K_text [],
     field_spec ''area_ref'' (lit ''N'' @ [176] @ lit '' Area de Ref'') T_expected K_text [],
     field_spec ''pmf'' (lit ''PMF'') T_identity K_text [],
     field_spec ''carpeta_source'' (lit ''Carpeta'') T_expected K_text [lit ''Carpeta origen''],
     field_spec ''pas'' (lit ''PAS'') T_expected K_text [],
     field_spec ''estado'' (lit ''Estado'') T_required K_text [],
     field_spec ''estado_resumido'' (lit ''Estado resumido'') T_required K_text [],
     field_spec ''tipo_rechazo'' (lit ''Tipo de rechazo'') T_expected K_text [],
     field_spec ''reingreso_tec'' (lit ''Reingreso_Tec'') T_expected K_text [],
     field_spec ''reingreso_legal'' (lit ''Reingreso_Legal'') T_expected K_text [],
     field_spec ''reingreso_recrep'' (lit ''Reingreso_RecRep'') T_expected K_text [],
     field_spec ''tipo_propietario'' (lit ''Tipo de propietario'') T_required K_text [],
     field_spec ''id_transelec'' (lit ''ID TRANSELEC'') T_expected K_text [],
     field_spec ''rol'' (lit ''Rol'') T_identity K_text [],
     field_spec ''numero_predio'' (lit ''N Predio'') T_identity K_text [],
     field_spec ''numero_area_corta'' (lit ''N Area de Corta'') T_expected K_text [],
     field_spec ''superficie_corta'' (lit ''Superficie de corta'') T_required K_number [],
     field_spec ''superficie_total_corta'' (lit ''Superficie de total de corta'') T_expected K_number [lit ''Superficie total de corta''],
     field_spec ''fecha_ingreso'' (lit ''Fecha de ingreso'') T_expected K_date [lit ''Fecha de ingreso1''],
     field_spec ''numero_ingreso'' (lit ''N Ingreso'') T_required K_text [lit ''N Ingreso1''],
     field_spec ''fecha_90_dias'' (lit ''90 dias'') T_expected K_date [],
     field_spec ''hoy'' (lit ''Hoy'') T_expected K_text [],
     field_spec ''fecha_ingreso_2'' (lit ''Fecha de ingreso2'') T_optional K_date [],
     field_spec ''numero_ingreso_2'' (lit ''N Ingreso2'') T_optional K_text [],
     field_spec ''empresa'' (lit ''Empresa'') T_required K_text [],
     field_spec ''id_predio_unico_ii'' (lit ''ID_Predio_UnicoII'') T_expected K_text [],
     field_spec ''id_pmf'' (lit ''ID_PMF'') T_expected K_text [],
     field_spec ''id_predio_unico'' (lit ''ID_Predo_Unico'') T_identity K_text [lit ''ID_Predio_Unico''],
     field_spec ''tramite'' (lit ''Tramite'') T_expected K_text [],
     field_spec ''carpeta_normalizada'' (lit ''Carpeta'') T_expected K_text [lit ''Carpeta normalizada''],
     field_spec ''sector'' (lit ''Sector'') T_expected K_text []]"

definition field_by_name :: "(string, field_spec_t) pydict" where
  "field_by_name = map (\<lambda>spec. (fs_name spec, spec)) field_specs"

definition aef_tracking_names :: "string list" where
  "aef_tracking_names = [''aef'', ''quien_solicita'', ''fecha_solicitud'', ''fecha_corta'', ''fecha_termino'']"

definition ingreso_2_fields :: "string list" where
  "ingreso_2_fields = [''fecha_ingreso_2'', ''numero_ingreso_2'']"

text \<open>\<open>xlsx_contract.RESUMEN_COLUMNS\<close>: the legacy 30-column table.\<close>

definition resumen_columns :: "(pystr \<times> string) list" where
  "resumen_columns =
     map (\<lambda>spec. (fs_header spec, fs_name spec))
       (filter (\<lambda>spec. fs_name spec \<notin> set aef_tracking_names \<and> fs_name spec \<notin> set ingreso_2_fields)
         field_specs)"

definition current_resumen_columns :: "(pystr \<times> string) list" where
  "current_resumen_columns = map (\<lambda>spec. (fs_header spec, fs_name spec)) field_specs"

lemma distinct_field_names: "distinct (map fs_name field_specs)"
  by code_simp

lemma resumen_columns_30: "length resumen_columns = 30 \<and> distinct (map snd resumen_columns)"
  by code_simp

end
