(* ===== verification/PyValue.thy ===== *)
theory PyValue
  imports PyFloat
begin

text \<open>
  Text of Python values and back: \<open>str\<close> of numbers, times and cell values, equality of cell
  values as set members, and \<open>float\<close> of a text. \<open>py_str\<close> is \<open>str\<close> of the values
  whose text only the interpreter fixes: floats and durations.
\<close>

section \<open>Values to text\<close>

fun nat_digits :: "nat \<Rightarrow> pystr" where
  "nat_digits n = (if n < 10 then [48 + n] else nat_digits (n div 10) @ [48 + n mod 10])"

declare nat_digits.simps [simp del]

definition int_str :: "int \<Rightarrow> pystr" where
  "int_str i = (if i < 0 then 45 # nat_digits (nat (- i)) else nat_digits (nat i))"

definition digits6 :: "nat \<Rightarrow> pystr" where
  "digits6 n = map (\<lambda>k. 48 + n div 10 ^ k mod 10) [5, 4, 3, 2, 1, 0]"

fun time_iso :: "pytime \<Rightarrow> pystr" where
  "time_iso (Time h m s us) =
     digit2 (int h) @ [58] @ digit2 (int m) @ [58] @ digit2 (int s) @ (if us = 0 then [] else 46 # digits6 us)"

definition str_value :: "(pyval \<Rightarrow> pystr) \<Rightarrow> pyval \<Rightarrow> pystr" where
  "str_value py_str v =
     (case v of
        VNone \<Rightarrow> lit ''None''
      | VBool b \<Rightarrow> (if b then lit ''True'' else lit ''False'')
      | VInt i \<Rightarrow> int_str i
      | VStr s \<Rightarrow> s
      | VDate d \<Rightarrow> isoformat d
      | VDateTime d t \<Rightarrow> isoformat d @ [32] @ time_iso t
      | VTime t \<Rightarrow> time_iso t
      | _ \<Rightarrow> py_str v)"

text \<open>\<open>str(int(x)) if isinstance(x, float) and x.is_integer() else str(x)\<close>.\<close>

definition integral_str :: "(pyval \<Rightarrow> pystr) \<Rightarrow> pyval \<Rightarrow> pystr" where
  "integral_str py_str v =
     (case v of VFloat (Fin q) \<Rightarrow> (if of_int \<lfloor>q\<rfloor> = q then int_str \<lfloor>q\<rfloor> else py_str v) | _ \<Rightarrow> str_value py_str v)"

section \<open>Equality of set members\<close>

text \<open>
  Numbers of any type are equal by value; a NaN equals only itself, so it is told apart by the
  place it comes from.
\<close>

definition eq_key :: "nat \<Rightarrow> pyval \<Rightarrow> pyval \<times> nat" where
  "eq_key place v =
     (case v of
        VBool b \<Rightarrow> (VFloat (Fin (if b then 1 else 0)), 0)
      | VInt i \<Rightarrow> (VFloat (Fin (of_int i)), 0)
      | VFloat NaN \<Rightarrow> (v, Suc place)
      | _ \<Rightarrow> (v, 0))"

section \<open>Text to float\<close>

text \<open>Decimal digits of any script become ASCII digits and other spaces plain ones.\<close>

definition float_char :: "ucd \<Rightarrow> nat \<Rightarrow> nat" where
  "float_char u c =
     (if c < 128 then c else if is_space c then 32
      else case ucd_digit u c of Some d \<Rightarrow> 48 + d | None \<Rightarrow> 63)"

definition float_space :: "nat \<Rightarrow> bool" where
  "float_space c \<longleftrightarrow> c = 32 \<or> (9 \<le> c \<and> c \<le> 13)"

fun underscores_ok :: "bool \<Rightarrow> pystr \<Rightarrow> bool" where
  "underscores_ok digit [] = True"
| "underscores_ok digit (c # cs) =
     (if c = 95 then digit \<and> cs \<noteq> [] \<and> ascii_digit (hd cs) \<and> underscores_ok False cs
      else underscores_ok (ascii_digit c) cs)"

definition sign_split :: "pystr \<Rightarrow> bool \<times> pystr" where
  "sign_split s = (if s \<noteq> [] \<and> hd s = 45 then (True, tl s) else if s \<noteq> [] \<and> hd s = 43 then (False, tl s) else (False, s))"

definition float_exponent :: "pystr \<Rightarrow> int option" where
  "float_exponent r =
     (if r = [] then Some 0
      else if hd r \<noteq> 101 \<and> hd r \<noteq> 69 then None
      else (let (neg, ds) = sign_split (tl r)
            in if ds = [] \<or> \<not> list_all ascii_digit ds then None
               else Some (if neg then - digits_value 0 ds else digits_value 0 ds)))"

definition float_decimal :: "bool \<Rightarrow> pystr \<Rightarrow> pyfloat option" where
  "float_decimal neg t =
     (let ip = takeWhile ascii_digit t; r = dropWhile ascii_digit t;
          fp = (if r \<noteq> [] \<and> hd r = 46 then takeWhile ascii_digit (tl r) else []);
          r2 = (if r \<noteq> [] \<and> hd r = 46 then dropWhile ascii_digit (tl r) else r)
      in if ip @ fp = [] then None
         else map_option (\<lambda>e. let m = of_int (digits_value 0 (ip @ fp)); k = e - int (length fp);
                               q = (if 0 \<le> k then m * 10 ^ nat k else m / 10 ^ nat (- k))
                           in round_double (if neg then - q else q)) (float_exponent r2))"

definition float_ascii :: "pystr \<Rightarrow> pyfloat option" where
  "float_ascii s =
     (let (neg, t) = sign_split s; w = map ascii_lower t
      in if w = lit ''inf'' \<or> w = lit ''infinity'' then Some (if neg then NegInf else PosInf)
         else if w = lit ''nan'' then Some NaN
         else float_decimal neg t)"

text \<open>\<open>float(s)\<close>; \<open>None\<close> is its \<open>ValueError\<close>.\<close>

definition float_of_text :: "ucd \<Rightarrow> pystr \<Rightarrow> pyfloat option" where
  "float_of_text u s =
     (let t = strip_by float_space (map (float_char u) s)
      in if \<not> underscores_ok False t then None else float_ascii (filter (\<lambda>c. c \<noteq> 95) t))"

section \<open>Digits of a number\<close>

lemma digits_value_append: "digits_value a (xs @ ys) = digits_value (digits_value a xs) ys"
  by (induction xs arbitrary: a) auto

lemma nat_digits_ascii: "c \<in> set (nat_digits n) \<Longrightarrow> ascii_digit c"
  by (induction n rule: nat_digits.induct)
    (subst (asm) (2) nat_digits.simps, auto simp: ascii_digit_def split: if_splits)

lemma nat_digits_not_Nil [simp]: "nat_digits n \<noteq> []"
  by (subst nat_digits.simps) simp

lemma digits_value_nat_digits: "digits_value 0 (nat_digits n) = int n"
proof (induction n rule: nat_digits.induct)
  case (1 n)
  show ?case
  proof (cases "n < 10")
    case True
    then show ?thesis by (subst nat_digits.simps) simp
  next
    case False
    then have "digits_value 0 (nat_digits n) = int (n div 10) * 10 + int (n mod 10)"
      using 1 by (subst nat_digits.simps) (simp add: digits_value_append)
    then show ?thesis by (metis div_mult_mod_eq of_nat_add of_nat_mult of_nat_numeral)
  qed
qed

lemma underscores_ok_digits: "\<forall>c \<in> set s. c \<noteq> 95 \<Longrightarrow> underscores_ok d s"
  by (induction s arbitrary: d) auto

text \<open>An integer written out reads back as its double.\<close>

lemma float_of_int_str: "float_of_text u (int_str i) = Some (round_double (of_int i))"
proof -
  let ?ds = "nat_digits (nat \<bar>i\<bar>)"
  have s: "int_str i = (if i < 0 then [45] else []) @ ?ds" by (simp add: int_str_def)
  have d: "ascii_digit c" if "c \<in> set ?ds" for c using nat_digits_ascii that .
  have map: "map (float_char u) (int_str i) = int_str i"
  proof (rule map_idI)
    fix c assume "c \<in> set (int_str i)"
    then have "c < 128" unfolding s using d [of c] by (auto simp: ascii_digit_def split: if_splits)
    then show "float_char u c = c" by (simp add: float_char_def)
  qed
  have "\<not> float_space c" if "c \<in> set (int_str i)" for c
    using that d [of c] unfolding s by (auto simp: float_space_def ascii_digit_def split: if_splits)
  then have strip: "strip_by float_space (int_str i) = int_str i"
    by (intro strip_by_fixed) (auto simp: s intro!: hd_in_set last_in_set)
  have no_us: "\<forall>c \<in> set (int_str i). c \<noteq> 95" unfolding s using d [of 95] by (auto simp: ascii_digit_def)
  obtain c cs where cs: "?ds = c # cs" by (cases ?ds) simp_all
  have c: "ascii_digit c" using d cs by simp
  have split: "sign_split (int_str i) = (i < 0, ?ds)"
    unfolding s using c by (auto simp: sign_split_def cs ascii_digit_def)
  have tw: "takeWhile ascii_digit ?ds = ?ds" "dropWhile ascii_digit ?ds = []" using d by simp_all
  have "map ascii_lower ?ds = ?ds" by (rule map_idI) (use d in \<open>fastforce simp: ascii_lower_def ascii_digit_def\<close>)
  moreover have "?ds \<noteq> lit ''inf'' \<and> ?ds \<noteq> lit ''infinity'' \<and> ?ds \<noteq> lit ''nan''"
    using c by (auto simp: cs ascii_digit_def)
  ultimately have "float_ascii (int_str i) = float_decimal (i < 0) ?ds" by (simp add: float_ascii_def split)
  also have "\<dots> = Some (round_double (of_int i))"
    unfolding float_decimal_def tw by (auto simp: float_exponent_def digits_value_nat_digits Let_def)
  finally have "float_ascii (int_str i) = Some (round_double (of_int i))" .
  then show ?thesis
    using no_us by (simp add: float_of_text_def map strip underscores_ok_digits filter_id_conv Let_def)
qed

end
