(* ===== verification/FieldOverrides.thy ===== *)
theory FieldOverrides
  imports FieldSpecs PmfField
begin

text \<open>
  \<open>transelec_ingestion/field_overrides.py\<close>: which fields a dashboard user may edit, how a
  submitted value is parsed, and the one rule for comparing an edited value with the planilla's
  cell. A value is blank, a text or a date; a cell is compared by its signature, which sets at most
  one of its two sides.
\<close>

section \<open>Data\<close>

datatype edit_kind = Edit_text | Edit_date

record editable_field =
  ef_name :: string
  ef_kind :: edit_kind
  ef_label :: pystr

datatype cell_value = CNone | CText pystr | CDate date

type_synonym signature = "pystr option \<times> date option"

datatype override_error = Bad_date_format | Not_in_calendar | Control_characters | Too_long

definition max_text_length :: nat where "max_text_length = 500"

definition editable_names :: "string list" where
  "editable_names = [''estado'', ''estado_resumido'', ''tipo_rechazo'', ''reingreso_tec'',
     ''reingreso_legal'', ''reingreso_recrep'', ''fecha_ingreso'', ''numero_ingreso'',
     ''fecha_90_dias'', ''fecha_ingreso_2'', ''numero_ingreso_2'']"

text \<open>\<open>None\<close> for the \<open>KeyError\<close> and the \<open>RuntimeError\<close> of a broken contract.\<close>

definition editable :: "string \<Rightarrow> editable_field option" where
  "editable name =
     (case map_of field_by_name name of
        None \<Rightarrow> None
      | Some spec \<Rightarrow>
          (case fs_kind spec of
             K_text \<Rightarrow> Some \<lparr>ef_name = name, ef_kind = Edit_text, ef_label = fs_header spec\<rparr>
           | K_date \<Rightarrow> Some \<lparr>ef_name = name, ef_kind = Edit_date, ef_label = fs_header spec\<rparr>
           | K_number \<Rightarrow> None))"

definition editable_fields :: "editable_field option list" where
  "editable_fields = map editable editable_names"

section \<open>Text rules\<close>

text \<open>\<open>_SPACE = " \t\r\n\f\v\u00a0"\<close>.\<close>

definition edit_space :: "nat \<Rightarrow> bool" where
  "edit_space c \<longleftrightarrow> c = 32 \<or> c = 9 \<or> c = 13 \<or> c = 10 \<or> c = 12 \<or> c = 11 \<or> c = 160"

text \<open>\<open>_CONTROL = [\x00-\x08\x0e-\x1f\x7f]\<close>.\<close>

definition control_char :: "nat \<Rightarrow> bool" where
  "control_char c \<longleftrightarrow> c \<le> 8 \<or> (14 \<le> c \<and> c \<le> 31) \<or> c = 127"

definition normalize_text :: "pystr option \<Rightarrow> pystr option" where
  "normalize_text v =
     (case v of
        None \<Rightarrow> None
      | Some s \<Rightarrow> (let collapsed = collapse edit_space (strip_by edit_space s)
                  in if collapsed = [] then None else Some collapsed))"

text \<open>
  \<open>_ISO_DATE.match\<close>: four, two and two digits (of any script, as \<open>\d\<close> reads them) between
  hyphens; \<open>$\<close> also allows a final newline.
\<close>

definition iso_date_match :: "ucd \<Rightarrow> pystr \<Rightarrow> bool" where
  "iso_date_match u s =
     (let t = (if length s = 11 \<and> last s = 10 then butlast s else s)
      in length t = 10 \<and> t ! 4 = 45 \<and> t ! 7 = 45
         \<and> list_all (\<lambda>i. ucd_digit u (t ! i) \<noteq> None) [0, 1, 2, 3, 5, 6, 8, 9])"

definition parse_edit_date :: "ucd \<Rightarrow> pystr \<Rightarrow> override_error + date" where
  "parse_edit_date u raw =
     (let t = strip_by edit_space raw
      in if \<not> iso_date_match u t then Inl Bad_date_format
         else (case fromisoformat t of None \<Rightarrow> Inl Not_in_calendar | Some d \<Rightarrow> Inr d))"

section \<open>Values\<close>

definition blank_edit :: "pystr option \<Rightarrow> bool" where
  "blank_edit raw = (case raw of None \<Rightarrow> True | Some s \<Rightarrow> strip_by edit_space s = [])"

definition text_value :: "pystr option \<Rightarrow> cell_value" where
  "text_value t = (case t of None \<Rightarrow> CNone | Some s \<Rightarrow> CText s)"

definition parse_value :: "ucd \<Rightarrow> editable_field \<Rightarrow> pystr option \<Rightarrow> override_error + cell_value" where
  "parse_value u f raw =
     (case raw of
        None \<Rightarrow> Inr CNone
      | Some s \<Rightarrow>
          (if strip_by edit_space s = [] then Inr CNone
           else if ef_kind f = Edit_date then map_sum id CDate (parse_edit_date u s)
           else if list_ex control_char s then Inl Control_characters
           else (let t = normalize_text raw
                 in if (case t of None \<Rightarrow> False | Some x \<Rightarrow> length x > max_text_length) then Inl Too_long
                    else Inr (text_value t))))"

definition comparable_edit :: "ucd \<Rightarrow> editable_field \<Rightarrow> pystr option \<Rightarrow> override_error + cell_value" where
  "comparable_edit u f raw =
     (case raw of
        None \<Rightarrow> Inr CNone
      | Some s \<Rightarrow>
          (if strip_by edit_space s = [] then Inr CNone
           else if ef_kind f = Edit_date then map_sum id CDate (parse_edit_date u s)
           else Inr (text_value (normalize_text raw))))"

text \<open>A database value of the field's kind; \<open>str\<close> of a text is the text.\<close>

definition shown_value :: "editable_field \<Rightarrow> cell_value \<Rightarrow> cell_value" where
  "shown_value f v =
     (case v of
        CNone \<Rightarrow> CNone
      | CDate d \<Rightarrow> (if ef_kind f = Edit_date then CDate d else text_value (normalize_text (Some (isoformat d))))
      | CText s \<Rightarrow> (if ef_kind f = Edit_date then CText s else text_value (normalize_text (Some s))))"

definition text_side :: "cell_value \<Rightarrow> pystr option" where
  "text_side v = (case v of CText s \<Rightarrow> Some s | _ \<Rightarrow> None)"

definition date_side :: "cell_value \<Rightarrow> date option" where
  "date_side v = (case v of CDate d \<Rightarrow> Some d | _ \<Rightarrow> None)"

definition value_signature :: "editable_field \<Rightarrow> cell_value \<Rightarrow> signature" where
  "value_signature f v =
     (if ef_kind f = Edit_date then (None, date_side v) else (normalize_text (text_side v), None))"

text \<open>\<open>evidence.get("raw")\<close>, a text in every stored evidence.\<close>

definition evidence_raw :: "text_dates \<Rightarrow> string \<Rightarrow> pystr option" where
  "evidence_raw tds name =
     (case map_of tds name of
        None \<Rightarrow> None
      | Some ev \<Rightarrow> (case ev_get ev ''raw'' of VStr s \<Rightarrow> Some s | _ \<Rightarrow> None))"

definition cell_signature :: "editable_field \<Rightarrow> cell_value \<Rightarrow> text_dates \<Rightarrow> signature" where
  "cell_signature f v tds =
     (if ef_kind f = Edit_date then
        (case date_side v of
           Some d \<Rightarrow> (None, Some d)
         | None \<Rightarrow> (normalize_text (evidence_raw tds (ef_name f)), None))
      else (normalize_text (text_side v), None))"

definition display_signature :: "signature \<Rightarrow> pystr option" where
  "display_signature sig = (case snd sig of Some d \<Rightarrow> Some (isoformat d) | None \<Rightarrow> fst sig)"

definition note_text :: "pystr \<Rightarrow> date \<Rightarrow> signature \<Rightarrow> pystr" where
  "note_text author edited_on planilla =
     (let before = (case snd planilla of
            Some d \<Rightarrow> strftime_dmy d
          | None \<Rightarrow> (case fst planilla of None \<Rightarrow> lit ''(vac'' @ [237] @ lit ''a)''
              | Some t \<Rightarrow> (if t = [] then lit ''(vac'' @ [237] @ lit ''a)'' else t)))
      in lit ''web '' @ [183] @ lit '' '' @ author @ lit '' '' @ [183] @ lit '' ''
           @ strftime_dmy edited_on @ lit '' '' @ [183] @ lit '' antes: '' @ before)"

section \<open>Normal form of a text\<close>

lemma edit_space_32 [simp]: "edit_space 32"
  by (simp add: edit_space_def)

lemma normalize_Some:
  "normalize_text (Some s) = Some t \<longleftrightarrow> t = collapse edit_space (strip_by edit_space s) \<and> t \<noteq> []"
  by (auto simp: normalize_text_def Let_def)

lemma normalize_None [simp]: "normalize_text None = None"
  by (simp add: normalize_text_def)

lemma normalize_text_idem [simp]: "normalize_text (normalize_text v) = normalize_text v"
proof (cases "normalize_text v")
  case (Some t)
  then obtain s where t: "t = collapse edit_space (strip_by edit_space s)" "t \<noteq> []"
    by (cases v) (auto simp: normalize_Some)
  have "collapse edit_space (strip_by edit_space t) = t"
    unfolding t(1) by (rule collapse_strip_idem) simp
  with Some t(2) show ?thesis by (simp add: normalize_Some)
qed simp

lemma normalize_chars: "normalize_text (Some s) = Some t \<Longrightarrow> set t \<subseteq> insert 32 (set s)"
  using set_collapse [of edit_space "strip_by edit_space s"] set_strip_by [of edit_space s]
  by (auto simp: normalize_Some)

lemma normalize_not_blank: "normalize_text (Some s) = Some t \<Longrightarrow> strip_by edit_space t \<noteq> []"
  by (auto simp: normalize_Some strip_collapse_strip)

lemma normalize_space_set: "normalize_text (Some s) = Some t \<Longrightarrow> c \<in> set t \<Longrightarrow> edit_space c \<Longrightarrow> c = 32"
  using collapse_class_space [of edit_space c] by (auto simp: normalize_Some)

section \<open>Parsed values\<close>

definition stored_ok :: "editable_field \<Rightarrow> cell_value \<Rightarrow> bool" where
  "stored_ok f v = (case v of
      CNone \<Rightarrow> True
    | CDate d \<Rightarrow> ef_kind f = Edit_date \<and> valid_date d
    | CText t \<Rightarrow> ef_kind f = Edit_text \<and> normalize_text (Some t) = Some t \<and> length t \<le> max_text_length
        \<and> \<not> list_ex control_char t)"

lemma parse_edit_date_valid: "parse_edit_date u s = Inr d \<Longrightarrow> valid_date d"
  by (auto simp: parse_edit_date_def Let_def fromisoformat_valid split: if_splits option.splits)

lemma parse_value_stored:
  assumes "parse_value u f raw = Inr v"
  shows "stored_ok f v"
proof (cases raw)
  case None
  with assms show ?thesis by (simp add: parse_value_def stored_ok_def)
next
  case (Some s)
  show ?thesis
  proof (cases "ef_kind f")
    case Edit_date
    with assms Some show ?thesis
      by (cases "parse_edit_date u s")
        (auto simp: parse_value_def stored_ok_def parse_edit_date_valid split: if_splits)
  next
    case Edit_text
    show ?thesis
    proof (cases "normalize_text raw")
      case None
      with assms Some Edit_text show ?thesis
        by (auto simp: parse_value_def stored_ok_def text_value_def Let_def split: if_splits)
    next
      case (Some t)
      have "normalize_text (Some t) = Some t" using normalize_text_idem [of raw] Some by simp
      moreover have "\<not> list_ex control_char s \<Longrightarrow> \<not> list_ex control_char t"
        using normalize_chars Some \<open>raw = Some s\<close> by (fastforce simp: list_ex_iff control_char_def)
      ultimately show ?thesis
        using assms Some \<open>raw = Some s\<close> Edit_text
        by (auto simp: parse_value_def stored_ok_def text_value_def Let_def split: if_splits)
    qed
  qed
qed

lemma iso_date_match_isoformat:
  assumes "ascii_tables u" and "valid_date d"
  shows "iso_date_match u (isoformat d)"
proof -
  have "ascii_digit (isoformat d ! i)" if "i \<in> set [0, 1, 2, 3, 5, 6, 8, 9::nat]" for i
    using that by (auto simp: isoformat_def digit2_def digit4_def ascii_digit_def nat_le_iff)
  then have "ucd_digit u (isoformat d ! i) \<noteq> None" if "i \<in> set [0, 1, 2, 3, 5, 6, 8, 9::nat]" for i
    using that ascii_tables.digit_ascii [OF assms(1), of "isoformat d ! i"] by (fastforce simp: ascii_digit_def)
  then show ?thesis
    by (simp add: iso_date_match_def isoformat_parts Let_def)
qed

lemma strip_isoformat: "strip_by edit_space (isoformat d) = isoformat d"
proof -
  have "\<not> edit_space c" if "c \<in> set (isoformat d)" for c
    using set_isoformat [OF that] by (auto simp: edit_space_def ascii_digit_def)
  moreover have "isoformat d \<noteq> []" by (simp add: isoformat_def digit4_def)
  ultimately show ?thesis by (intro strip_by_fixed) auto
qed

text \<open>What is stored reads back as itself.\<close>

lemma stored_roundtrip:
  assumes "ascii_tables u" and "stored_ok f v"
  shows "parse_value u f (display_signature (value_signature f v)) = Inr v
    \<and> comparable_edit u f (display_signature (value_signature f v)) = Inr v"
proof (cases v)
  case CNone
  then show ?thesis
    by (simp add: value_signature_def display_signature_def date_side_def text_side_def
        parse_value_def comparable_edit_def)
next
  case (CDate d)
  with assms have f: "ef_kind f = Edit_date" and d: "valid_date d" by (simp_all add: stored_ok_def)
  have "isoformat d \<noteq> []" by (simp add: isoformat_def digit4_def)
  moreover have "parse_edit_date u (isoformat d) = Inr d"
    by (simp add: parse_edit_date_def strip_isoformat iso_date_match_isoformat [OF assms(1) d]
        fromisoformat_isoformat [OF d])
  ultimately show ?thesis using CDate f
    by (simp add: value_signature_def display_signature_def date_side_def parse_value_def
        comparable_edit_def strip_isoformat)
next
  case (CText t)
  with assms have t: "ef_kind f = Edit_text" "normalize_text (Some t) = Some t" "\<not> length t > max_text_length"
    "\<not> list_ex control_char t" by (simp_all add: stored_ok_def)
  with CText normalize_not_blank [OF t(2)] show ?thesis
    by (simp add: value_signature_def display_signature_def text_side_def parse_value_def
        comparable_edit_def text_value_def)
qed

lemma parse_comparable:
  "parse_value u f raw = Inr v \<Longrightarrow> comparable_edit u f raw = Inr v"
  by (auto simp: parse_value_def comparable_edit_def Let_def split: option.splits if_splits)

lemma shown_stored: "stored_ok f v \<Longrightarrow> shown_value f v = v"
  by (auto simp: stored_ok_def shown_value_def text_value_def split: cell_value.splits)

lemma stored_signature: "stored_ok f v \<Longrightarrow> cell_signature f v [] = value_signature f v"
  by (auto simp: stored_ok_def cell_signature_def value_signature_def date_side_def text_side_def
      evidence_raw_def split: cell_value.splits option.splits)

text \<open>
  C35. A submitted value that is accepted survives being stored: it is of the field's kind, a date
  of the calendar or a text of at most 500 characters in normal form without control characters;
  its display form parses and compares back to the same value; comparing the submission itself
  gives the same value; and reading the stored value shows it unchanged.
\<close>

theorem edit_value_roundtrip:
  assumes "ascii_tables u" and "parse_value u f raw = Inr v"
  shows "stored_ok f v
    \<and> parse_value u f (display_signature (value_signature f v)) = Inr v
    \<and> comparable_edit u f (display_signature (value_signature f v)) = Inr v
    \<and> comparable_edit u f raw = Inr v \<and> shown_value f v = v
    \<and> cell_signature f v [] = value_signature f v"
  using parse_value_stored [OF assms(2)] stored_roundtrip [OF assms(1)] parse_comparable [OF assms(2)]
    shown_stored stored_signature by blast

definition demo_edit :: editable_field where
  "demo_edit = \<lparr>ef_name = ''estado'', ef_kind = Edit_text, ef_label = lit ''Estado''\<rparr>"

theorem edit_value_roundtrip_witness:
  "parse_value latin_ucd demo_edit (Some (lit ''Aprobado'')) = Inr (CText (lit ''Aprobado''))"
proof -
  have p: "parse_value latin_ucd demo_edit (Some ([160] @ lit ''Aprobado'' @ [32])) = Inr (CText (lit ''Aprobado''))"
    by (simp add: parse_value_def demo_edit_def strip_by_def edit_space_def control_char_def
        normalize_text_def text_value_def max_text_length_def)
  from edit_value_roundtrip [OF latin.ascii_tables_axioms p] show ?thesis
    by (simp add: value_signature_def display_signature_def demo_edit_def text_side_def normalize_text_def
        strip_by_def edit_space_def)
qed

text \<open>
  The text rule is a normal form: normalising twice changes nothing, blank texts and only they
  become empty, and a normalised text is trimmed, has only plain spaces and never two in a row.
\<close>

theorem normalize_text_normal_form:
  "normalize_text (normalize_text v) = normalize_text v
   \<and> (normalize_text (Some s) = None \<longleftrightarrow> (\<forall>c \<in> set s. edit_space c))
   \<and> (\<forall>t. normalize_text v = Some t \<longrightarrow> t \<noteq> [] \<and> \<not> edit_space (hd t) \<and> \<not> edit_space (last t)
        \<and> (\<forall>c \<in> set t. edit_space c \<longrightarrow> c = 32) \<and> no_double edit_space t)"
proof (intro conjI allI impI)
  show "normalize_text (normalize_text v) = normalize_text v" by simp
  show "normalize_text (Some s) = None \<longleftrightarrow> (\<forall>c \<in> set s. edit_space c)"
    by (simp add: normalize_text_def Let_def strip_by_empty_iff)
next
  fix t assume "normalize_text v = Some t"
  then obtain s where s: "normalize_text (Some s) = Some t" by (cases v) auto
  then have t: "t = collapse edit_space (strip_by edit_space s)" and ne: "t \<noteq> []"
    unfolding normalize_Some by blast+
  have st: "strip_by edit_space t = t" unfolding t by (rule strip_collapse_strip)
  show "t \<noteq> []" by (rule ne)
  show "\<not> edit_space (hd t)" using strip_by_hd [of edit_space t] st ne by simp
  show "\<not> edit_space (last t)" using strip_by_last [of edit_space t] st ne by simp
  show "\<forall>c \<in> set t. edit_space c \<longrightarrow> c = 32" using normalize_space_set [OF s] by blast
  show "no_double edit_space t" unfolding t by (rule no_double_collapse) simp
qed

theorem normalize_text_normal_form_witness:
  "normalize_text (Some [160, 9]) = None"
  using normalize_text_normal_form [of None "[160, 9]"] by (simp add: edit_space_def)

end
