(* ===== verification/CsvExport.thy ===== *)
theory CsvExport
  imports FieldSpecs PyValue Utf8
begin

text \<open>
  \<open>transelec_ingestion/csv_export.py\<close>: the CSV export, its twenty columns, the neutralisation
  of formula prefixes and the rendering through \<open>csv.writer\<close> (delimiter \<open>;\<close>, minimal
  quoting, CR LF) with a byte-order mark in UTF-8. \<open>py_str\<close> is \<open>str\<close> of the values whose
  text only the interpreter fixes: non-integral floats, times and durations.
\<close>

section \<open>Columns\<close>

definition reserved_column :: string where
  "reserved_column = ''_observacion_auxiliar_reserved_v1''"

definition export_fields :: "(string \<times> pystr) list" where
  "export_fields =
     [(''pmf'', lit ''PMF''), (''predio_ref'', lit ''Predio Ref''), (''carpeta_source'', lit ''Carpeta PMF''),
      (''carpeta_normalizada'', lit ''Carpeta normalizada''), (''pas'', lit ''PAS''),
      (''estado_resumido'', lit ''Estado resumido''), (''tipo_rechazo'', lit ''Tipo de rechazo''),
      (''tipo_propietario'', lit ''Tipo de propietario''), (''rol'', lit ''Rol''),
      (''numero_predio'', lit ''N Predio''), (''numero_area_corta'', lit ''N Area de Corta''),
      (''superficie_corta'', lit ''Superficie de corta''), (''fecha_ingreso'', lit ''Fecha de ingreso''),
      (''numero_ingreso'', lit ''N Ingreso''), (''fecha_ingreso_2'', lit ''Fecha de ingreso2''),
      (''numero_ingreso_2'', lit ''N Ingreso2''), (''empresa'', lit ''Empresa''),
      (''id_predio_unico'', lit ''ID_Predo_Unico''), (''sector'', lit ''Sector''),
      (reserved_column, lit ''Observaci'' @ [243] @ lit ''n auxiliar'')]"

record export_row =
  er_values :: "(string, pyval) pydict"
  er_text_dates :: text_dates

section \<open>Cells\<close>

text \<open>\<open>=\<close>, \<open>+\<close>, \<open>-\<close>, \<open>@\<close>, tab and carriage return.\<close>

definition dangerous_leading :: "nat list" where
  "dangerous_leading = [61, 43, 45, 64, 9, 13]"

definition neutralize_formula_injection :: "pystr \<Rightarrow> pystr" where
  "neutralize_formula_injection v = (if v \<noteq> [] \<and> hd v \<in> set dangerous_leading then 39 # v else v)"

definition render_cell :: "(pyval \<Rightarrow> pystr) \<Rightarrow> pyval \<Rightarrow> pystr" where
  "render_cell py_str v =
     (case v of
        VNone \<Rightarrow> []
      | VBool b \<Rightarrow> neutralize_formula_injection (if b then lit ''True'' else lit ''False'')
      | VInt i \<Rightarrow> neutralize_formula_injection (int_str i)
      | VFloat (Fin q) \<Rightarrow> neutralize_formula_injection (if of_int \<lfloor>q\<rfloor> = q then int_str \<lfloor>q\<rfloor> else py_str v)
      | VStr s \<Rightarrow> neutralize_formula_injection s
      | VDate d \<Rightarrow> neutralize_formula_injection (isoformat d)
      | VDateTime d t \<Rightarrow> neutralize_formula_injection (isoformat d @ [84] @ time_iso t)
      | _ \<Rightarrow> neutralize_formula_injection (py_str v))"

text \<open>\<open>str(evidence.get("raw") or "")\<close>.\<close>

definition raw_text :: "(pyval \<Rightarrow> pystr) \<Rightarrow> pyval \<Rightarrow> pystr" where
  "raw_text py_str v =
     (case v of
        VNone \<Rightarrow> []
      | VStr s \<Rightarrow> s
      | VBool b \<Rightarrow> (if b then lit ''True'' else [])
      | VInt i \<Rightarrow> (if i = 0 then [] else int_str i)
      | VFloat x \<Rightarrow> (if x = Fin 0 then [] else py_str v)
      | VDelta d \<Rightarrow> (if d = 0 then [] else py_str v)
      | _ \<Rightarrow> py_str v)"

definition render_row_cell :: "(pyval \<Rightarrow> pystr) \<Rightarrow> export_row \<Rightarrow> string \<Rightarrow> pystr" where
  "render_row_cell py_str row column =
     (if column = reserved_column then []
      else (let v = ev_get (er_values row) column
            in case map_of (er_text_dates row) column of
                 Some evidence \<Rightarrow>
                   (if v = VNone \<and> evidence \<noteq> [] \<and> ev_get evidence ''parsed'' = VNone
                    then neutralize_formula_injection (raw_text py_str (ev_get evidence ''raw''))
                    else render_cell py_str v)
               | None \<Rightarrow> render_cell py_str v))"

section \<open>csv.writer\<close>

text \<open>Minimal quoting: a field with the delimiter, a quote or a line break is quoted, quotes doubled.\<close>

definition csv_special :: "nat \<Rightarrow> bool" where
  "csv_special c \<longleftrightarrow> c = 59 \<or> c = 34 \<or> c = 13 \<or> c = 10"

definition csv_quote :: "pystr \<Rightarrow> pystr" where
  "csv_quote s = concat (map (\<lambda>c. if c = 34 then [34, 34] else [c]) s)"

definition csv_field :: "pystr \<Rightarrow> pystr" where
  "csv_field s = (if list_ex csv_special s then 34 # csv_quote s @ [34] else s)"

fun csv_join :: "pystr list \<Rightarrow> pystr" where
  "csv_join [] = []"
| "csv_join [f] = csv_field f"
| "csv_join (f # fs) = csv_field f @ 59 # csv_join fs"

text \<open>A row whose only field is empty is written quoted.\<close>

definition csv_row :: "pystr list \<Rightarrow> pystr" where
  "csv_row fs = (if fs = [[]] then [34, 34] else csv_join fs) @ [13, 10]"

definition export_table :: "(pyval \<Rightarrow> pystr) \<Rightarrow> export_row list \<Rightarrow> pystr list list" where
  "export_table py_str rows =
     map snd export_fields # map (\<lambda>row. map (\<lambda>(column, _). render_row_cell py_str row column) export_fields) rows"

definition export_text :: "(pyval \<Rightarrow> pystr) \<Rightarrow> export_row list \<Rightarrow> pystr" where
  "export_text py_str rows = concat (map csv_row (export_table py_str rows))"

definition render_transelec_export_csv :: "(pyval \<Rightarrow> pystr) \<Rightarrow> export_row list \<Rightarrow> nat list option" where
  "render_transelec_export_csv py_str rows = utf8_strict (65279 # export_text py_str rows)"

section \<open>Reading it back\<close>

text \<open>
  The reader of a \<open>;\<close>-separated file with \<open>"\<close> quoting, as \<open>csv.reader\<close> and
  spreadsheets read it: the reference the writer is checked against.
\<close>

datatype csv_mode = M_start | M_plain | M_quoted | M_quote

definition skip_lf :: "nat \<Rightarrow> pystr \<Rightarrow> pystr" where
  "skip_lf c s = (if c = 13 then (case s of [] \<Rightarrow> [] | x # t \<Rightarrow> (if x = 10 then t else s)) else s)"

lemma length_skip_lf: "length (skip_lf c s) \<le> length s"
  by (auto simp: skip_lf_def split: list.splits)

function csv_read :: "csv_mode \<Rightarrow> pystr \<Rightarrow> pystr list \<Rightarrow> pystr \<Rightarrow> pystr list list" where
  "csv_read m f r [] = (if m = M_start \<and> r = [] then [] else [rev (rev f # r)])"
| "csv_read m f r (c # cs) =
     (if m = M_quoted then (if c = 34 then csv_read M_quote f r cs else csv_read M_quoted (c # f) r cs)
      else if m = M_start \<and> c = 34 then csv_read M_quoted [] r cs
      else if m = M_quote \<and> c = 34 then csv_read M_quoted (34 # f) r cs
      else if c = 59 then csv_read M_start [] (rev f # r) cs
      else if c = 13 \<or> c = 10 then rev (rev f # r) # csv_read M_start [] [] (skip_lf c cs)
      else csv_read M_plain (c # f) r cs)"
  by pat_completeness auto
termination
  by (relation "measure (\<lambda>(m, f, r, s). length s)") (auto simp: length_skip_lf le_imp_less_Suc)

lemma read_plain:
  "\<not> list_ex csv_special s \<Longrightarrow> m = M_plain \<or> (m = M_start \<and> s \<noteq> []) \<Longrightarrow>
     csv_read m f r (s @ t) = csv_read M_plain (rev s @ f) r t"
  by (induction s arbitrary: f m) (auto simp: csv_special_def)

lemma read_quoted: "csv_read M_quoted f r (csv_quote s @ t) = csv_read M_quoted (rev s @ f) r t"
  by (induction s arbitrary: f) (simp_all add: csv_quote_def)

lemma read_field:
  "csv_read M_start [] r (csv_field s @ 59 # t) = csv_read M_start [] (s # r) t"
  "csv_read M_start [] r (csv_field s @ 13 # 10 # t) = rev (s # r) # csv_read M_start [] [] t"
proof -
  have plain: "csv_read M_start [] r (s @ c # t) = csv_read M_plain (rev s) r (c # t)"
    if "\<not> list_ex csv_special s" "s \<noteq> []" for c t
    using read_plain [of s M_start "[]" r "c # t"] that by simp
  show "csv_read M_start [] r (csv_field s @ 59 # t) = csv_read M_start [] (s # r) t"
    using plain by (cases "s = []") (auto simp: csv_field_def read_quoted)
  show "csv_read M_start [] r (csv_field s @ 13 # 10 # t) = rev (s # r) # csv_read M_start [] [] t"
    using plain by (cases "s = []") (auto simp: csv_field_def read_quoted skip_lf_def)
qed

lemma read_join:
  "fs \<noteq> [] \<Longrightarrow> csv_read M_start [] r (csv_join fs @ 13 # 10 # t) = (rev r @ fs) # csv_read M_start [] [] t"
  by (induction fs arbitrary: r rule: csv_join.induct) (simp_all add: read_field)

lemma read_rows:
  "\<forall>fs \<in> set rows. length fs \<ge> 2 \<Longrightarrow> csv_read M_start [] [] (concat (map csv_row rows)) = rows"
proof (induction rows)
  case (Cons fs rows)
  then have "fs \<noteq> []" "fs \<noteq> [[]]" by auto
  with Cons show ?case by (simp add: csv_row_def read_join)
qed simp

lemma length_export_fields: "length export_fields = 20"
  by (simp add: export_fields_def)

lemma export_table_rows: "fs \<in> set (export_table py_str rows) \<Longrightarrow> length fs = 20"
  by (auto simp: export_table_def length_export_fields)

lemma row_scalar: "list_all scalar (csv_row fs) \<longleftrightarrow> (\<forall>f \<in> set fs. list_all scalar f)"
proof -
  have s: "scalar 34" "scalar 59" "scalar 13" "scalar 10" by (simp_all add: scalar_def)
  have q: "list_all scalar (csv_quote s) \<longleftrightarrow> list_all scalar s" for s
    by (induction s) (auto simp: csv_quote_def s)
  have f: "list_all scalar (csv_field s) \<longleftrightarrow> list_all scalar s" for s
    by (simp add: csv_field_def q s)
  have "list_all scalar (csv_join fs) \<longleftrightarrow> (\<forall>f \<in> set fs. list_all scalar f)"
    by (induction fs rule: csv_join.induct) (simp_all add: f s)
  then show ?thesis by (simp add: csv_row_def s)
qed

text \<open>
  C4. The exported file is UTF-8 behind a byte-order mark, and what a spreadsheet reads from its
  bytes is exactly the table: a header of twenty labels and one row of twenty cells per source row,
  whatever characters the cells hold (delimiters, quotes, line breaks), the last column of every row
  blank. It fails to encode exactly when a cell holds a character that has no encoding.
\<close>

theorem export_reads_back:
  "(case render_transelec_export_csv py_str rows of
      None \<Rightarrow> \<exists>fs \<in> set (export_table py_str rows). \<exists>cell \<in> set fs. \<exists>c \<in> set cell. \<not> scalar c
    | Some bytes \<Rightarrow> take 3 bytes = [239, 187, 191]
        \<and> csv_read M_start [] [] (utf8_decode (drop 3 bytes)) = export_table py_str rows)
   \<and> (\<forall>fs \<in> set (export_table py_str rows). length fs = 20)
   \<and> (\<forall>fs \<in> set (tl (export_table py_str rows)). last fs = [])"
proof (intro conjI ballI)
  have read: "csv_read M_start [] [] (export_text py_str rows) = export_table py_str rows"
    unfolding export_text_def by (rule read_rows) (auto dest: export_table_rows)
  have bom: "scalar 65279" "utf8_char 65279 = [239, 187, 191]" by (simp_all add: scalar_def utf8_char_def)
  have chars: "list_all scalar (export_text py_str rows) \<longleftrightarrow> (\<forall>fs \<in> set (export_table py_str rows). \<forall>f \<in> set fs. list_all scalar f)"
    using row_scalar by (auto simp: export_text_def list_all_iff)
  show "case render_transelec_export_csv py_str rows of
      None \<Rightarrow> \<exists>fs \<in> set (export_table py_str rows). \<exists>cell \<in> set fs. \<exists>c \<in> set cell. \<not> scalar c
    | Some bytes \<Rightarrow> take 3 bytes = [239, 187, 191]
        \<and> csv_read M_start [] [] (utf8_decode (drop 3 bytes)) = export_table py_str rows"
  proof (cases "list_all scalar (export_text py_str rows)")
    case True
    then have "utf8_decode (utf8_encode (export_text py_str rows)) = export_text py_str rows"
      by (intro utf8_decode_encode) (simp add: list_all_iff)
    with True bom read show ?thesis by (simp add: render_transelec_export_csv_def utf8_strict_def utf8_encode_def)
  next
    case False
    then have "\<exists>fs \<in> set (export_table py_str rows). \<exists>cell \<in> set fs. \<exists>c \<in> set cell. \<not> scalar c"
      using chars by (auto simp: list_all_iff)
    with False show ?thesis by (simp add: render_transelec_export_csv_def utf8_strict_def)
  qed
  show "length fs = 20" if "fs \<in> set (export_table py_str rows)" for fs
    using that by (rule export_table_rows)
  show "last fs = []" if "fs \<in> set (tl (export_table py_str rows))" for fs
  proof -
    from that obtain row where "fs = map (\<lambda>(column, _). render_row_cell py_str row column) export_fields"
      by (auto simp: export_table_def)
    then show ?thesis by (simp add: export_fields_def render_row_cell_def)
  qed
qed

definition demo_export :: export_row where
  "demo_export = \<lparr>er_values = [(''pmf'', VStr (lit ''=1;2''))], er_text_dates = []\<rparr>"

theorem export_reads_back_witness:
  "\<exists>bytes. render_transelec_export_csv (\<lambda>_. []) [demo_export] = Some bytes
    \<and> length (csv_read M_start [] [] (utf8_decode (drop 3 bytes))) = 2"
proof -
  have "\<forall>fs \<in> set (export_table (\<lambda>_. []) [demo_export]). \<forall>cell \<in> set fs. \<forall>c \<in> set cell. scalar c"
    by (simp add: export_table_def export_fields_def demo_export_def scalar_def render_row_cell_def render_cell_def ev_get_def
        neutralize_formula_injection_def dangerous_leading_def reserved_column_def)
  with export_reads_back [of "\<lambda>_. []" "[demo_export]"]
  show ?thesis by (auto simp: export_table_def split: option.splits)
qed

lemma neutralize_safe: "neutralize_formula_injection v = [] \<or> hd (neutralize_formula_injection v) \<notin> set dangerous_leading"
  by (auto simp: neutralize_formula_injection_def dangerous_leading_def)

lemma render_cell_safe: "render_cell py_str v = [] \<or> hd (render_cell py_str v) \<notin> set dangerous_leading"
  using neutralize_safe by (auto simp: render_cell_def split: pyval.splits pyfloat.splits)

text \<open>
  C37. No cell of the export can start a formula: every cell that a spreadsheet reads back is empty
  or begins with a character other than an equals sign, plus, minus, at sign, tab or carriage
  return, for every row, including raw text kept beside an unread date; a cell that needed no
  protection is exported unchanged.
\<close>

theorem export_cells_safe:
  "(\<forall>fs \<in> set (csv_read M_start [] [] (export_text py_str rows)). \<forall>cell \<in> set fs.
      cell = [] \<or> hd cell \<notin> set dangerous_leading)
   \<and> (s = [] \<or> hd s \<notin> set dangerous_leading \<longrightarrow> render_cell py_str (VStr s) = s)
   \<and> tl (neutralize_formula_injection (61 # s)) = 61 # s"
proof (intro conjI ballI impI)
  fix fs cell
  assume fs: "fs \<in> set (csv_read M_start [] [] (export_text py_str rows))" and cell: "cell \<in> set fs"
  have "csv_read M_start [] [] (export_text py_str rows) = export_table py_str rows"
    unfolding export_text_def by (rule read_rows) (auto dest: export_table_rows)
  with fs consider "fs = map snd export_fields"
    | row where "fs = map (\<lambda>(column, _). render_row_cell py_str row column) export_fields"
    by (auto simp: export_table_def)
  then show "cell = [] \<or> hd cell \<notin> set dangerous_leading"
  proof cases
    case 1
    with cell show ?thesis by (auto simp: export_fields_def dangerous_leading_def)
  next
    case 2
    with cell obtain column where "cell = render_row_cell py_str row column" by auto
    then show ?thesis
      using render_cell_safe neutralize_safe
      by (auto simp: render_row_cell_def Let_def split: option.splits)
  qed
qed (auto simp: render_cell_def neutralize_formula_injection_def dangerous_leading_def)

theorem export_cells_safe_witness:
  "render_cell (\<lambda>_. []) (VStr (lit ''PMF-1'')) = lit ''PMF-1''
   \<and> tl (neutralize_formula_injection (61 # lit ''1+1'')) = 61 # lit ''1+1''"
  using export_cells_safe [of "\<lambda>_. []" "[demo_export]" "lit ''PMF-1''"]
    export_cells_safe [of "\<lambda>_. []" "[demo_export]" "lit ''1+1''"]
  by (simp add: dangerous_leading_def)

end
