(* ===== verification/TextDate.thy ===== *)
theory TextDate
  imports PyValue
begin

text \<open>
  Text in a date column (\<open>classify_text_date\<close> of \<open>resumen_layout.py\<close>): one date written
  with a Spanish month word is read, several dates, a dash and anything else are kept as text. The
  regular expressions are matchers at a position, as \<open>re\<close> tries them; \<open>findall\<close> is the
  left-to-right scan over them.
\<close>

datatype text_date_resolution = R_parsed_spanish_long | R_multiple_dates | R_placeholder | R_unrecognized

record text_date_evidence =
  td_raw :: pystr
  td_resolution :: text_date_resolution
  td_parsed :: "date option"

definition fold_text :: "ucd \<Rightarrow> pystr \<Rightarrow> pystr" where
  "fold_text u v = strip (collapse is_space (casefold u (drop_marks u (nfkd u v))))"

definition is_digit :: "ucd \<Rightarrow> nat \<Rightarrow> bool" where
  "is_digit u c \<longleftrightarrow> ucd_digit u c \<noteq> None"

text \<open>\<open>int\<close> of a text of decimal digits.\<close>

definition int_of_digits :: "ucd \<Rightarrow> pystr \<Rightarrow> int" where
  "int_of_digits u s = digits_value 0 (map (\<lambda>c. case ucd_digit u c of Some d \<Rightarrow> 48 + d | None \<Rightarrow> 48) s)"

definition az :: "nat \<Rightarrow> bool" where
  "az c \<longleftrightarrow> 97 \<le> c \<and> c \<le> 122"

text \<open>
  \<open>(\d{1,2}) de ([a-z]+) de (\d{4})\<close>: the groups and what is left. A digit is not a space and
  a space not a letter, so the greedy reading is the only one.
\<close>

definition long_date_at :: "ucd \<Rightarrow> pystr \<Rightarrow> (pystr \<times> pystr \<times> pystr \<times> pystr) option" where
  "long_date_at u s =
     (let day = takeWhile (is_digit u) (take 2 s); r1 = drop (length day) s;
          r2 = drop 4 r1; month = takeWhile az r2; r3 = drop (length month) r2;
          r4 = drop 4 r3; year = take 4 r4
      in if day \<noteq> [] \<and> starts_with (lit '' de '') r1 \<and> month \<noteq> [] \<and> starts_with (lit '' de '') r3
            \<and> length year = 4 \<and> list_all (is_digit u) year
         then Some (day, month, year, drop 4 r4) else None)"

definition date_sep :: "nat \<Rightarrow> bool" where
  "date_sep c \<longleftrightarrow> c = 45 \<or> c = 47 \<or> c = 46"

text \<open>
  \<open>(?<!\d)\d{1,2}[-/.]\d{1,2}[-/.](?:\d{4}|\d{2})(?!\d)\<close>: how many characters it takes, 0 when it
  does not match.
\<close>

definition numeric_date_at :: "ucd \<Rightarrow> nat option \<Rightarrow> pystr \<Rightarrow> nat" where
  "numeric_date_at u before s =
     (let a = takeWhile (is_digit u) (take 2 s); r1 = drop (length a) s;
          b = takeWhile (is_digit u) (take 2 (tl r1)); r2 = drop (length b) (tl r1);
          y = takeWhile (is_digit u) (tl r2)
      in if (case before of None \<Rightarrow> True | Some c \<Rightarrow> \<not> is_digit u c)
            \<and> a \<noteq> [] \<and> r1 \<noteq> [] \<and> date_sep (hd r1) \<and> b \<noteq> [] \<and> r2 \<noteq> [] \<and> date_sep (hd r2)
            \<and> (length y = 4 \<or> length y = 2)
         then length a + length b + length y + 2 else 0)"

definition long_date_length :: "ucd \<Rightarrow> nat option \<Rightarrow> pystr \<Rightarrow> nat" where
  "long_date_length u before s =
     (case long_date_at u s of None \<Rightarrow> 0 | Some (_, _, _, rest) \<Rightarrow> length s - length rest)"

text \<open>\<open>len(pattern.findall(s))\<close> for a pattern that takes at least one character.\<close>

function count_matches :: "(nat option \<Rightarrow> pystr \<Rightarrow> nat) \<Rightarrow> nat option \<Rightarrow> pystr \<Rightarrow> nat" where
  "count_matches m before [] = 0"
| "count_matches m before (c # cs) =
     (let n = m before (c # cs)
      in if n = 0 then count_matches m (Some c) cs
         else Suc (count_matches m (Some ((c # cs) ! (n - 1))) (drop (n - 1) cs)))"
  by pat_completeness auto
termination
  by (relation "measure (\<lambda>(m, before, s). length s)") auto

definition spanish_months :: "(pystr, int) pydict" where
  "spanish_months =
     [(lit ''enero'', 1), (lit ''febrero'', 2), (lit ''marzo'', 3), (lit ''abril'', 4), (lit ''mayo'', 5),
      (lit ''junio'', 6), (lit ''julio'', 7), (lit ''agosto'', 8), (lit ''septiembre'', 9),
      (lit ''setiembre'', 9), (lit ''octubre'', 10), (lit ''noviembre'', 11), (lit ''diciembre'', 12)]"

definition placeholder_char :: "nat \<Rightarrow> bool" where
  "placeholder_char c \<longleftrightarrow> c = 45 \<or> (8208 \<le> c \<and> c \<le> 8213)"

definition long_date_value :: "ucd \<Rightarrow> pystr \<Rightarrow> date option" where
  "long_date_value u s =
     (case long_date_at u s of
        Some (day, month, year, []) \<Rightarrow>
          (case map_of spanish_months month of
             None \<Rightarrow> None
           | Some m \<Rightarrow> (let d = Date (int_of_digits u year) m (int_of_digits u day)
                       in if valid_date d then Some d else None))
      | _ \<Rightarrow> None)"

definition classify_text_date :: "ucd \<Rightarrow> pystr \<Rightarrow> text_date_evidence" where
  "classify_text_date u v =
     (let raw = strip v; folded = fold_text u raw;
          tokens = count_matches (long_date_length u) None folded + count_matches (numeric_date_at u) None folded
      in if folded \<noteq> [] \<and> list_all placeholder_char folded then
           \<lparr>td_raw = raw, td_resolution = R_placeholder, td_parsed = None\<rparr>
         else if tokens \<ge> 2 then \<lparr>td_raw = raw, td_resolution = R_multiple_dates, td_parsed = None\<rparr>
         else (case long_date_value u folded of
             Some d \<Rightarrow> \<lparr>td_raw = raw, td_resolution = R_parsed_spanish_long, td_parsed = Some d\<rparr>
           | None \<Rightarrow> \<lparr>td_raw = raw, td_resolution = R_unrecognized, td_parsed = None\<rparr>))"

section \<open>Matchers\<close>

lemma take_takeWhile_append: "\<lbrakk>\<forall>c \<in> set a. p c; length a \<le> 2; r \<noteq> []; \<not> p (hd r)\<rbrakk> \<Longrightarrow> takeWhile p (take 2 (a @ r)) = a"
  by (cases r; cases a; cases "tl a") (auto simp: takeWhile_append take_Cons')

lemma takeWhile_take_split: "s = takeWhile p (take n s) @ drop (length (takeWhile p (take n s))) s"
proof -
  have "takeWhile p (take n s) = take (length (takeWhile p (take n s))) s"
    by (metis length_take min.cobounded1 min.absorb1 takeWhile_eq_take take_take length_takeWhile_le)
  then show ?thesis by (metis append_take_drop_id)
qed

lemma numeric_needs_sep: "numeric_date_at u before s \<noteq> 0 \<Longrightarrow> \<exists>c \<in> set s. date_sep c"
proof -
  assume "numeric_date_at u before s \<noteq> 0"
  then obtain r where "r = drop (length (takeWhile (is_digit u) (take 2 s))) s" "r \<noteq> []" "date_sep (hd r)"
    by (auto simp: numeric_date_at_def Let_def split: if_splits)
  then show ?thesis by (metis hd_in_set in_set_dropD)
qed

lemma count_numeric_none: "\<forall>c \<in> set s. \<not> date_sep c \<Longrightarrow> count_matches (numeric_date_at u) before s = 0"
proof (induction s arbitrary: before)
  case (Cons c cs)
  then have "numeric_date_at u before (c # cs) = 0" using numeric_needs_sep by blast
  with Cons show ?case by simp
qed simp

text \<open>The one text a long date has.\<close>

definition long_text :: "pystr \<Rightarrow> pystr \<Rightarrow> pystr \<Rightarrow> pystr" where
  "long_text day month year = day @ lit '' de '' @ month @ lit '' de '' @ year"

lemma starts_with_split: "starts_with p s \<longleftrightarrow> (\<exists>r. s = p @ r)"
  by (metis append_take_drop_id append_eq_conv_conj starts_with_def)

lemma long_date_at_split:
  assumes "long_date_at u s = Some (day, month, year, rest)"
  shows "s = long_text day month year @ rest" "day \<noteq> []" "length day \<le> 2" "\<forall>c \<in> set day. is_digit u c"
    "month \<noteq> []" "\<forall>c \<in> set month. az c" "length year = 4" "\<forall>c \<in> set year. is_digit u c"
proof -
  define r1 where "r1 = drop (length (takeWhile (is_digit u) (take 2 s))) s"
  define r2 where "r2 = drop 4 r1"
  define r3 where "r3 = drop (length (takeWhile az r2)) r2"
  have d: "day = takeWhile (is_digit u) (take 2 s)" "month = takeWhile az r2" "year = take 4 (drop 4 r3)"
    "rest = drop 4 (drop 4 r3)" "starts_with (lit '' de '') r1" "starts_with (lit '' de '') r3"
    and ok: "day \<noteq> []" "month \<noteq> []" "length year = 4" "list_all (is_digit u) year"
    using assms unfolding long_date_at_def Let_def r1_def [symmetric] r2_def [symmetric] r3_def [symmetric]
    by (auto simp only: option.inject prod.inject option.distinct split: if_splits)
  have "s = day @ r1"
    unfolding d(1) r1_def by (rule takeWhile_take_split)
  moreover have "r1 = lit '' de '' @ r2" using d(5) unfolding r2_def by (auto simp: starts_with_split)
  moreover have "r2 = month @ r3" unfolding d(2) r3_def by (metis append_take_drop_id takeWhile_eq_take)
  moreover have "r3 = lit '' de '' @ year @ rest" using d(6) unfolding d(3,4) by (auto simp: starts_with_split)
  ultimately show "s = long_text day month year @ rest" by (simp add: long_text_def)
  show "day \<noteq> []" "month \<noteq> []" "length year = 4" by (rule ok)+
  show "length day \<le> 2" unfolding d(1) using length_takeWhile_le [of "is_digit u" "take 2 s"] by simp
  show "\<forall>c \<in> set day. is_digit u c" "\<forall>c \<in> set month. az c" unfolding d(1,2) using set_takeWhileD by metis+
  show "\<forall>c \<in> set year. is_digit u c" using ok(4) by (simp add: list_all_iff)
qed

lemma month_letters: "(month, m) \<in> set spanish_months \<Longrightarrow> month \<noteq> [] \<and> (\<forall>c \<in> set month. az c)"
  by (auto simp: spanish_months_def az_def)

lemma map_of_spanish_months: "(month, m) \<in> set spanish_months \<longleftrightarrow> map_of spanish_months month = Some m"
  by (rule map_of_eq_Some_iff [symmetric]) (simp add: spanish_months_def)

text \<open>A long date, in any decimal digits and in ASCII ones.\<close>

definition long_date_parts :: "ucd \<Rightarrow> pystr \<Rightarrow> pystr \<Rightarrow> pystr \<Rightarrow> bool" where
  "long_date_parts u day month year \<longleftrightarrow> ascii_tables u
     \<and> (\<forall>c \<in> set day. is_digit u c) \<and> day \<noteq> [] \<and> length day \<le> 2
     \<and> (\<forall>c \<in> set month. az c) \<and> month \<noteq> []
     \<and> (\<forall>c \<in> set year. is_digit u c) \<and> length year = 4"

definition spanish_date :: "ucd \<Rightarrow> pystr \<Rightarrow> pystr \<Rightarrow> pystr \<Rightarrow> bool" where
  "spanish_date u day month year \<longleftrightarrow> ascii_tables u
     \<and> (\<forall>c \<in> set day. ascii_digit c) \<and> day \<noteq> [] \<and> length day \<le> 2
     \<and> (\<forall>c \<in> set month. az c) \<and> month \<noteq> []
     \<and> (\<forall>c \<in> set year. ascii_digit c) \<and> length year = 4"

lemma digit_iff: "ascii_tables u \<Longrightarrow> c < 128 \<Longrightarrow> is_digit u c \<longleftrightarrow> ascii_digit c"
  using ascii_tables.digit_ascii [of u c] by (simp add: is_digit_def ascii_digit_def)

lemma ascii_digits: "ascii_tables u \<Longrightarrow> \<forall>c \<in> set s. ascii_digit c \<Longrightarrow> \<forall>c \<in> set s. is_digit u c"
  using digit_iff by (auto simp: ascii_digit_def)

lemma chars_long_text:
  "spanish_date u day month year \<Longrightarrow> c \<in> set (long_text day month year) \<Longrightarrow> ascii_digit c \<or> az c \<or> c = 32"
  by (auto simp: spanish_date_def long_text_def az_def)

lemma word_not_space: "ascii_digit c \<or> az c \<Longrightarrow> \<not> is_space c"
  by (auto simp: ascii_digit_def az_def is_space_def)

lemma strip_long_text:
  assumes "spanish_date u day month year"
  shows "strip (long_text day month year) = long_text day month year"
proof -
  have "hd (long_text day month year) \<in> set day" "last (long_text day month year) \<in> set year"
    using assms by (cases "year = []"; auto simp: long_text_def spanish_date_def)+
  then have "\<not> is_space (hd (long_text day month year))" "\<not> is_space (last (long_text day month year))"
    using assms word_not_space unfolding spanish_date_def by blast+
  then show ?thesis by (simp add: strip_def strip_by_fixed)
qed

lemma collapse_word: "\<forall>c \<in> set w. \<not> p c \<Longrightarrow> collapse p (w @ s) = w @ collapse p s"
  by (induction w) auto

lemma collapse_sep: "p c \<Longrightarrow> s \<noteq> [] \<Longrightarrow> \<not> p (hd s) \<Longrightarrow> collapse p (c # s) = 32 # collapse p s"
  by (cases s) auto

lemma collapse_long_text:
  assumes "spanish_date u day month year"
  shows "collapse is_space (long_text day month year) = long_text day month year"
proof -
  have w: "\<forall>c \<in> set day. \<not> is_space c" "\<forall>c \<in> set month. \<not> is_space c" "\<forall>c \<in> set year. \<not> is_space c"
    and ne: "month \<noteq> []" "year \<noteq> []"
    using assms word_not_space by (auto simp: spanish_date_def)
  have de: "\<not> is_space 100" "\<not> is_space 101" "is_space 32" by (simp_all add: is_space_def)
  have "collapse is_space (32 # 100 # 101 # 32 # x @ y) = 32 # 100 # 101 # 32 # x @ collapse is_space y"
    if "x \<noteq> []" "\<forall>c \<in> set x. \<not> is_space c" for x y
  proof -
    have "dropWhile is_space (x @ y) = x @ y" using that by (cases x) simp_all
    then show ?thesis using de collapse_word [OF that(2)] by simp
  qed
  from this [OF ne(1) w(2)] this [OF ne(2) w(3), of "[]"] show ?thesis
    by (simp add: long_text_def collapse_word w(1) del: collapse.simps(2))
qed

lemma spanish_long_date: "spanish_date u day month year \<Longrightarrow> long_date_parts u day month year"
  using ascii_digits [of u day] ascii_digits [of u year] by (simp add: spanish_date_def long_date_parts_def)

text \<open>An ASCII text that is a long date but for the case of its letters folds to that date.\<close>

lemma fold_any_case:
  assumes "spanish_date u day month year" and "is_ascii s" and "map ascii_lower s = long_text day month year"
    and "\<forall>c \<in> set w. is_space c" "\<forall>c \<in> set z. is_space c"
  shows "fold_text u (strip (w @ s @ z)) = long_text day month year"
proof -
  have u: "ascii_tables u" using assms(1) by (simp add: spanish_date_def)
  have "\<not> is_space c" if "ascii_digit (ascii_lower c)" for c
    using that by (auto simp: ascii_digit_def ascii_lower_def is_space_def split: if_splits)
  moreover have ends: "hd (long_text day month year) \<in> set day" "last (long_text day month year) \<in> set year" "s \<noteq> []"
    using assms(1,3) by (cases "year = []"; auto simp: long_text_def spanish_date_def)+
  moreover have "ascii_lower (hd s) = hd (long_text day month year)" "ascii_lower (last s) = last (long_text day month year)"
    using ends(3) unfolding assms(3) [symmetric] by (simp_all add: hd_map last_map)
  ultimately have "\<not> is_space (hd s)" "\<not> is_space (last s)" using assms(1) unfolding spanish_date_def by metis+
  then have "strip s = s" by (simp add: strip_def strip_by_fixed)
  then show ?thesis using collapse_long_text [OF assms(1)] strip_long_text [OF assms(1)]
    by (simp add: strip_surround [OF assms(4,5)] fold_text_def ascii_tables.marks_of_ascii [OF u assms(2)]
        ascii_tables.casefold_of_ascii [OF u assms(2)] assms(3))
qed

lemma long_date_at_text:
  assumes "long_date_parts u day month year"
  shows "long_date_at u (long_text day month year) = Some (day, month, year, [])"
proof -
  have d: "\<forall>c \<in> set day. is_digit u c" "\<forall>c \<in> set year. is_digit u c" "\<not> is_digit u 32"
    using assms digit_iff [of u 32] by (auto simp: long_date_parts_def ascii_digit_def)
  have a: "day \<noteq> []" "length day \<le> 2" "month \<noteq> []" "\<forall>c \<in> set month. az c" "length year = 4"
    using assms by (simp_all add: long_date_parts_def)
  have "takeWhile (is_digit u) (take 2 (long_text day month year)) = day"
    unfolding long_text_def using d a(2) by (intro take_takeWhile_append) auto
  moreover have "takeWhile az (month @ 32 # r) = month" for r
    using a(4) by (simp add: takeWhile_append az_def)
  ultimately show ?thesis using a(1,3,5) d(2)
    by (simp add: long_date_at_def Let_def long_text_def starts_with_def list_all_iff del: drop_drop)
qed

lemma count_long_text:
  assumes "long_date_parts u day month year"
  shows "count_matches (long_date_length u) None (long_text day month year) = 1"
proof -
  obtain c cs where T: "long_text day month year = c # cs"
    using assms by (cases day) (simp_all add: long_text_def long_date_parts_def)
  have "long_date_length u None (c # cs) = Suc (length cs)"
    using long_date_at_text [OF assms] by (simp add: long_date_length_def T)
  then show ?thesis unfolding T by (simp add: Let_def)
qed

lemma classify_long_text:
  assumes "long_date_parts u day month year" and "fold_text u (strip v) = long_text day month year"
    and "map_of spanish_months month = Some m" "valid_date (Date (int_of_digits u year) m (int_of_digits u day))"
  shows "td_parsed (classify_text_date u v) = Some (Date (int_of_digits u year) m (int_of_digits u day))"
proof -
  let ?T = "long_text day month year"
  have "is_digit u c \<or> az c \<or> c = 32" if "c \<in> set ?T" for c
    using assms(1) that by (auto simp: long_date_parts_def long_text_def az_def)
  moreover have "\<not> is_digit u c" if "date_sep c" for c
    using assms(1) that digit_iff [of u c] by (auto simp: long_date_parts_def date_sep_def ascii_digit_def)
  ultimately have "count_matches (numeric_date_at u) None ?T = 0"
    by (intro count_numeric_none) (fastforce simp: date_sep_def az_def)
  moreover have "100 \<in> set ?T" "\<not> placeholder_char 100" by (simp_all add: long_text_def placeholder_char_def)
  then have "\<not> list_all placeholder_char ?T" unfolding list_all_iff by blast
  moreover have "long_date_value u ?T = Some (Date (int_of_digits u year) m (int_of_digits u day))"
    using assms(3,4) by (simp add: long_date_value_def long_date_at_text [OF assms(1)])
  ultimately show ?thesis
    by (simp add: classify_text_date_def assms(2) count_long_text [OF assms(1)] Let_def)
qed

lemma int_of_ascii_digits:
  assumes "ascii_tables u" "\<forall>c \<in> set s. ascii_digit c"
  shows "int_of_digits u s = digits_value 0 s"
proof -
  have "map (\<lambda>c. case ucd_digit u c of Some d \<Rightarrow> 48 + d | None \<Rightarrow> 48) s = s"
    using assms(2) ascii_tables.digit_ascii [OF assms(1)] by (intro map_idI) (auto simp: ascii_digit_def)
  then show ?thesis by (simp add: int_of_digits_def)
qed

lemma nat_digits_short: "n < 100 \<Longrightarrow> length (nat_digits n) \<le> 2"
  by (subst nat_digits.simps, subst nat_digits.simps) auto

text \<open>
  C40. A date is read from text exactly when the text is one: folded (compatibility forms, accents, case
  and blanks aside), the whole of it is one or two digits, a Spanish month word and four digits, which
  name a calendar day, and that day is the date. In particular every calendar date written in any mix of
  capital and small letters, its day with or without a leading zero and with blanks around it, is read
  back.
\<close>

theorem classify_text_date_exact:
  assumes "ascii_tables u"
  shows "(td_parsed (classify_text_date u v) = Some d \<longleftrightarrow> valid_date d
      \<and> (\<exists>day month year. strip (collapse is_space (casefold u (drop_marks u (nfkd u (strip v)))))
            = day @ lit '' de '' @ month @ lit '' de '' @ year
          \<and> day \<noteq> [] \<and> length day \<le> 2 \<and> length year = 4 \<and> list_all (is_digit u) (day @ year)
          \<and> (month, d_month d) \<in> set spanish_months \<and> int_of_digits u day = d_day d \<and> int_of_digits u year = d_year d))
    \<and> (td_resolution (classify_text_date u v) = R_parsed_spanish_long \<longleftrightarrow> td_parsed (classify_text_date u v) \<noteq> None)
    \<and> (valid_date d \<and> (month, d_month d) \<in> set spanish_months \<and> day \<in> {digit2 (d_day d), nat_digits (nat (d_day d))}
        \<and> is_ascii s \<and> map ascii_lower s = day @ lit '' de '' @ month @ lit '' de '' @ digit4 (d_year d)
        \<and> (\<forall>c \<in> set (w @ z). is_space c) \<longrightarrow> td_parsed (classify_text_date u (w @ s @ z)) = Some d)"
proof (intro conjI impI iffI)
  assume "td_parsed (classify_text_date u v) = Some d"
  then have p: "long_date_value u (fold_text u (strip v)) = Some d"
    by (auto simp: classify_text_date_def Let_def split: if_splits option.splits)
  then obtain day month year m where m: "long_date_at u (fold_text u (strip v)) = Some (day, month, year, [])"
    "map_of spanish_months month = Some m" "d = Date (int_of_digits u year) m (int_of_digits u day)" "valid_date d"
    by (auto simp: long_date_value_def Let_def split: option.splits list.splits if_splits)
  note split = long_date_at_split [OF m(1)]
  show "valid_date d" by (rule m(4))
  show "\<exists>day month year. strip (collapse is_space (casefold u (drop_marks u (nfkd u (strip v)))))
            = day @ lit '' de '' @ month @ lit '' de '' @ year
      \<and> day \<noteq> [] \<and> length day \<le> 2 \<and> length year = 4 \<and> list_all (is_digit u) (day @ year)
      \<and> (month, d_month d) \<in> set spanish_months \<and> int_of_digits u day = d_day d \<and> int_of_digits u year = d_year d"
  proof (intro exI conjI)
    show "strip (collapse is_space (casefold u (drop_marks u (nfkd u (strip v))))) = day @ lit '' de '' @ month @ lit '' de '' @ year"
      using split(1) by (simp add: fold_text_def long_text_def)
    show "day \<noteq> []" "length day \<le> 2" "length year = 4" "list_all (is_digit u) (day @ year)"
      using split(2-4,7,8) by (auto simp: list_all_iff)
    show "(month, d_month d) \<in> set spanish_months" "int_of_digits u day = d_day d" "int_of_digits u year = d_year d"
      using m(2) by (simp_all add: m(3) map_of_spanish_months)
  qed
next
  assume "valid_date d \<and> (\<exists>day month year. strip (collapse is_space (casefold u (drop_marks u (nfkd u (strip v)))))
            = day @ lit '' de '' @ month @ lit '' de '' @ year
      \<and> day \<noteq> [] \<and> length day \<le> 2 \<and> length year = 4 \<and> list_all (is_digit u) (day @ year)
      \<and> (month, d_month d) \<in> set spanish_months \<and> int_of_digits u day = d_day d \<and> int_of_digits u year = d_year d)"
  then obtain day month year where v: "valid_date d" "fold_text u (strip v) = long_text day month year"
    "day \<noteq> []" "length day \<le> 2" "length year = 4" "list_all (is_digit u) (day @ year)"
    "(month, d_month d) \<in> set spanish_months" "int_of_digits u day = d_day d" "int_of_digits u year = d_year d"
    by (auto simp: fold_text_def long_text_def)
  then have "long_date_parts u day month year" using assms month_letters by (simp add: long_date_parts_def list_all_iff)
  from classify_long_text [OF this v(2)] v(1,7-9) show "td_parsed (classify_text_date u v) = Some d"
    unfolding map_of_spanish_months by (cases d) simp
next
  assume a: "valid_date d \<and> (month, d_month d) \<in> set spanish_months \<and> day \<in> {digit2 (d_day d), nat_digits (nat (d_day d))}
    \<and> is_ascii s \<and> map ascii_lower s = day @ lit '' de '' @ month @ lit '' de '' @ digit4 (d_year d) \<and> (\<forall>c \<in> set (w @ z). is_space c)"
  have bounds: "0 \<le> d_day d" "d_day d < 100" "0 \<le> d_year d" "d_year d < 10000"
    using a days_in_month_ge(2) [of "d_year d" "d_month d"] by (auto simp: valid_date_def)
  have year: "digits_value 0 (digit4 (d_year d)) = d_year d" using bounds by (intro digits_value_digit4) auto
  have day: "\<forall>c \<in> set day. ascii_digit c" "day \<noteq> []" "length day \<le> 2" "digits_value 0 day = d_day d"
    using a bounds nat_digits_ascii nat_digits_short [of "nat (d_day d)"] digits_value_digit2 digits_value_nat_digits
    by (auto simp: digit2_def [of "d_day d"] ascii_digit_def nat_digits_not_Nil [THEN not_sym])
  have sd: "spanish_date u day month (digit4 (d_year d))"
    using a assms day month_letters by (auto simp: spanish_date_def)
  have m: "map_of spanish_months month = Some (d_month d)" using a map_of_spanish_months by blast
  have f: "fold_text u (strip (w @ s @ z)) = long_text day month (digit4 (d_year d))"
    using a by (intro fold_any_case [OF sd]) (auto simp: long_text_def)
  have "Date (int_of_digits u (digit4 (d_year d))) (d_month d) (int_of_digits u day) = d"
    using int_of_ascii_digits [OF assms] day year by (cases d) simp
  with classify_long_text [OF spanish_long_date [OF sd] f m] a show "td_parsed (classify_text_date u (w @ s @ z)) = Some d"
    by simp
qed (auto simp: classify_text_date_def Let_def split: if_splits option.splits)

theorem classify_text_date_exact_witness:
  "td_parsed (classify_text_date latin_ucd ([160] @ lit ''13 DE Noviembre de 2024'' @ [])) = Some (Date 2024 11 13)"
proof -
  have "valid_date (Date 2024 11 13)" "(lit ''noviembre'', 11) \<in> set spanish_months"
    by (simp_all add: valid_date_def days_in_month_def spanish_months_def)
  moreover have "map ascii_lower (lit ''13 DE Noviembre de 2024'') = digit2 13 @ lit '' de '' @ lit ''noviembre'' @ lit '' de '' @ digit4 2024"
    "is_ascii (lit ''13 DE Noviembre de 2024'')"
    by (simp_all add: digit2_def digit4_def ascii_lower_def is_ascii_def)
  ultimately show ?thesis
    using classify_text_date_exact [OF latin.ascii_tables_axioms, of "[]" "Date 2024 11 13" "lit ''noviembre''" "digit2 13"
        "lit ''13 DE Noviembre de 2024''" "[160]" "[]"]
    by (simp add: is_space_def)
qed

end
