(* ===== verification/Headers.thy ===== *)
theory Headers
  imports FieldSpecs PyValue
begin

text \<open>
  The header side of \<open>transelec_ingestion/resumen_layout.py\<close>: the form a header is recognised
  by, the alias index, spreadsheet column letters, the report records, the search for the header row
  and the binding of the two columns that are both headed \<open>Carpeta\<close>. The Spanish messages and
  notes of the report carry no behaviour and are left out of the records.
\<close>

section \<open>Header text\<close>

definition header_dash :: "nat \<Rightarrow> bool" where
  "header_dash c \<longleftrightarrow> c = 95 \<or> c = 45 \<or> c = 47"

definition fold_header :: "ucd \<Rightarrow> pystr \<Rightarrow> pystr" where
  "fold_header u s =
     (let t = drop_marks u (nfkd u (filter (\<lambda>c. c \<noteq> 176 \<and> c \<noteq> 186) s));
          t = filter (\<lambda>c. c \<noteq> 46) (casefold u t)
      in strip (collapse is_space (collapse header_dash t)))"

definition normalize_header :: "ucd \<Rightarrow> (pyval \<Rightarrow> pystr) \<Rightarrow> pyval \<Rightarrow> pystr" where
  "normalize_header u py_str v = (if v = VNone then [] else fold_header u (integral_str py_str v))"

definition bare_carpeta :: string where "bare_carpeta = ''carpeta''"

definition carpeta_fields :: "string list" where
  "carpeta_fields = [''carpeta_source'', ''carpeta_normalizada'']"

text \<open>\<open>None\<close> is the \<open>RuntimeError\<close> of a header claimed by two fields.\<close>

definition alias_step :: "ucd \<Rightarrow> string \<Rightarrow> (pystr, string) pydict option \<Rightarrow> pystr \<Rightarrow> (pystr, string) pydict option" where
  "alias_step u field acc name =
     (case acc of
        None \<Rightarrow> None
      | Some index \<Rightarrow>
          (let key = fold_header u name
           in if key = lit bare_carpeta then Some index
              else (case map_of index key of
                  Some existing \<Rightarrow> (if existing \<noteq> field then None else Some (AList.update key field index))
                | None \<Rightarrow> Some (AList.update key field index))))"

definition build_alias_index :: "ucd \<Rightarrow> (pystr, string) pydict option" where
  "build_alias_index u =
     foldl (\<lambda>acc spec. foldl (alias_step u (fs_name spec)) acc (fs_header spec # fs_aliases spec)) (Some []) field_specs"

definition alias_index :: "ucd \<Rightarrow> (pystr, string) pydict" where
  "alias_index u = (case build_alias_index u of Some index \<Rightarrow> index | None \<Rightarrow> [])"

definition recognize :: "ucd \<Rightarrow> (pyval \<Rightarrow> pystr) \<Rightarrow> pyval \<Rightarrow> string option" where
  "recognize u py_str v =
     (let key = normalize_header u py_str v
      in if key = [] then None
         else if key = lit bare_carpeta then Some bare_carpeta
         else map_of (alias_index u) key)"

section \<open>Column letters\<close>

function letters_loop :: "nat \<Rightarrow> pystr \<Rightarrow> pystr" where
  "letters_loop n acc =
     (if n = 0 then acc else letters_loop ((n - 1) div 26) ((65 + (n - 1) mod 26) # acc))"
  by pat_completeness auto
termination
  by (relation "measure fst") (auto intro: le_less_trans [OF div_le_dividend])

declare letters_loop.simps [simp del]

definition column_letter :: "nat \<Rightarrow> pystr" where
  "column_letter index = letters_loop (index + 1) []"

definition column_index :: "pystr \<Rightarrow> int" where
  "column_index letters = foldl (\<lambda>index c. index * 26 + (int c - 65 + 1)) 0 letters - 1"

section \<open>Report\<close>

datatype severity = Sev_info | Sev_warning | Sev_error

record layout_issue =
  li_code :: string
  li_severity :: severity
  li_field :: "string option"
  li_columns :: "pystr list"
  li_rows :: "nat list"
  li_count :: nat

datatype column_status = C_mapped | C_duplicate_ignored | C_unrecognized_ignored | C_unlabeled_data_ignored | C_separator

record column_decision =
  cd_column :: pystr
  cd_header :: "pystr option"
  cd_status :: column_status
  cd_field :: "string option"

definition issue :: "string \<Rightarrow> severity \<Rightarrow> string option \<Rightarrow> pystr list \<Rightarrow> layout_issue" where
  "issue code severity field columns =
     \<lparr>li_code = code, li_severity = severity, li_field = field, li_columns = columns, li_rows = [], li_count = 0\<rparr>"

section \<open>The grid\<close>

type_synonym grid = "pyval list list"

definition cell_at :: "grid \<Rightarrow> nat \<Rightarrow> nat \<Rightarrow> pyval" where
  "cell_at g row column = (let vs = g ! row in if column < length vs then vs ! column else VNone)"

definition header_text :: "(pyval \<Rightarrow> pystr) \<Rightarrow> pyval \<Rightarrow> pystr option" where
  "header_text py_str v =
     (if is_blank v then None
      else Some (take 80 (case v of
          VFloat (Fin q) \<Rightarrow> (if of_int \<lfloor>q\<rfloor> = q then int_str \<lfloor>q\<rfloor> else strip (py_str v))
        | _ \<Rightarrow> strip (str_value py_str v))))"

definition capped :: "nat option \<Rightarrow> nat list \<Rightarrow> nat list \<times> nat" where
  "capped limit rows =
     (let ordered = sort (remdups rows)
      in (case limit of None \<Rightarrow> ordered | Some n \<Rightarrow> take n ordered, length ordered))"

definition row_fields :: "ucd \<Rightarrow> (pyval \<Rightarrow> pystr) \<Rightarrow> pyval list \<Rightarrow> string list" where
  "row_fields u py_str vs = remdups (concat (map (\<lambda>v. case recognize u py_str v of None \<Rightarrow> [] | Some f \<Rightarrow> [f]) vs))"

definition header_scores :: "ucd \<Rightarrow> (pyval \<Rightarrow> pystr) \<Rightarrow> grid \<Rightarrow> (nat \<times> nat) list" where
  "header_scores u py_str g =
     concat (map (\<lambda>row. let recognized = row_fields u py_str (g ! row)
                        in if ''pmf'' \<in> set recognized \<and> 5 \<le> length recognized then [(length recognized, row)] else [])
       [0..<min 15 (length g)])"

definition detect_header_row :: "ucd \<Rightarrow> (pyval \<Rightarrow> pystr) \<Rightarrow> grid \<Rightarrow> layout_issue + nat" where
  "detect_header_row u py_str g =
     (let scored = header_scores u py_str g
      in if scored = [] then Inl (issue ''encabezado_no_encontrado'' Sev_error (Some ''pmf'') [])
         else (let best = Max (set (map fst scored));
                   best_rows = map snd (filter (\<lambda>(score, _). score = best) scored)
               in if length best_rows > 1
                  then Inl ((issue ''encabezado_ambiguo'' Sev_error None [])
                         \<lparr>li_rows := map Suc best_rows, li_count := length best_rows\<rparr>)
                  else Inr (hd best_rows)))"

section \<open>The two \<open>Carpeta\<close> columns\<close>

fun nearest_in :: "(nat \<Rightarrow> string option) \<Rightarrow> nat list \<Rightarrow> string option" where
  "nearest_in recognized [] = None"
| "nearest_in recognized (c # cs) =
     (case recognized c of
        Some f \<Rightarrow> (if f \<noteq> bare_carpeta then Some f else nearest_in recognized cs)
      | None \<Rightarrow> nearest_in recognized cs)"

definition nearest_left :: "nat \<Rightarrow> nat list \<Rightarrow> (nat \<Rightarrow> string option) \<Rightarrow> string option" where
  "nearest_left column business recognized =
     nearest_in recognized (rev (takeWhile (\<lambda>c. c \<noteq> column) (sort business)))"

definition nearest_right :: "nat \<Rightarrow> nat list \<Rightarrow> (nat \<Rightarrow> string option) \<Rightarrow> string option" where
  "nearest_right column business recognized =
     nearest_in recognized (tl (dropWhile (\<lambda>c. c \<noteq> column) (sort business)))"

definition carpeta_field :: "nat list \<Rightarrow> (nat \<Rightarrow> string option) \<Rightarrow> nat \<Rightarrow> string option" where
  "carpeta_field business recognized column =
     (let left = nearest_left column business recognized; right = nearest_right column business recognized;
          is_source = (left = Some ''pmf''); is_normalized = (left = Some ''tramite'' \<or> right = Some ''sector'')
      in if is_source = is_normalized then None
         else Some (if is_source then ''carpeta_source'' else ''carpeta_normalizada''))"

text \<open>One pass over the candidates, then every field claimed twice is taken back.\<close>

definition carpeta_claims :: "nat list \<Rightarrow> nat list \<Rightarrow> (nat \<Rightarrow> string option) \<Rightarrow> (nat, string) pydict" where
  "carpeta_claims candidates business recognized =
     concat (map (\<lambda>c. case carpeta_field business recognized c of None \<Rightarrow> [] | Some f \<Rightarrow> [(c, f)]) candidates)"

definition resolve_carpeta_columns :: "nat list \<Rightarrow> nat list \<Rightarrow> (nat \<Rightarrow> string option)
    \<Rightarrow> (nat, string) pydict \<times> layout_issue list" where
  "resolve_carpeta_columns candidates business recognized =
     (let claims = carpeta_claims candidates business recognized;
          unclear = filter (\<lambda>c. carpeta_field business recognized c = None) candidates;
          by_field = map (\<lambda>(f, entries). (f, map fst entries)) (group_by snd claims);
          doubled = filter (\<lambda>(_, columns). length columns > 1) by_field
      in (filter (\<lambda>(_, f). f \<notin> fst ` set doubled) claims,
          map (\<lambda>c. issue ''carpeta_ambigua'' Sev_error None [column_letter c]) unclear
            @ map (\<lambda>(f, columns). issue ''carpeta_ambigua'' Sev_error (Some f) (map column_letter (sort columns))) doubled))"

section \<open>Column letters and indices\<close>

definition column_value :: "pystr \<Rightarrow> int" where
  "column_value letters = foldl (\<lambda>index c. index * 26 + (int c - 65 + 1)) 0 letters"

lemma column_value_snoc: "column_value (s @ [c]) = column_value s * 26 + (int c - 64)"
  by (simp add: column_value_def)

lemma letters_loop_append: "letters_loop n acc = letters_loop n [] @ acc"
proof (induction n arbitrary: acc rule: less_induct)
  case (less n)
  show ?case
  proof (cases "n = 0")
    case False
    then have "(n - 1) div 26 < n" by (auto intro: le_less_trans [OF div_le_dividend])
    from less.IH [OF this, of "[65 + (n - 1) mod 26]"] less.IH [OF this, of "(65 + (n - 1) mod 26) # acc"] False
    show ?thesis by (subst (1 2) letters_loop.simps) simp
  qed (simp add: letters_loop.simps)
qed

lemma letters_loop_snoc: "0 < n \<Longrightarrow> letters_loop n [] = letters_loop ((n - 1) div 26) [] @ [65 + (n - 1) mod 26]"
  by (subst letters_loop.simps) (simp add: letters_loop_append [of _ "[_]"])

definition letters :: "pystr \<Rightarrow> bool" where
  "letters s \<longleftrightarrow> (\<forall>c \<in> set s. 65 \<le> c \<and> c \<le> 90)"

lemma letters_loop_value: "column_value (letters_loop n []) = int n \<and> letters (letters_loop n [])"
proof (induction n rule: less_induct)
  case (less n)
  show ?case
  proof (cases "n = 0")
    case True
    then show ?thesis by (simp add: letters_loop.simps column_value_def letters_def)
  next
    case False
    then have "(n - 1) div 26 < n" by (auto intro: le_less_trans [OF div_le_dividend])
    note IH = less.IH [OF this]
    have "int ((n - 1) div 26) * 26 + int ((n - 1) mod 26) + 1 = int n"
      using False div_mult_mod_eq [of "n - 1" 26] by linarith
    moreover have "(n - 1) mod 26 < 26" by simp
    ultimately show ?thesis using IH False
      by (auto simp: letters_loop_snoc column_value_snoc letters_def)
  qed
qed

lemma letters_loop_inverse: "letters s \<Longrightarrow> 0 \<le> column_value s \<and> letters_loop (nat (column_value s)) [] = s"
proof (induction s rule: rev_induct)
  case Nil
  then show ?case by (simp add: column_value_def letters_loop.simps)
next
  case (snoc c s)
  define v where "v = nat (column_value s)"
  from snoc have c: "65 \<le> c" "c \<le> 90" and s: "letters_loop v [] = s" "column_value s = int v"
    by (simp_all add: letters_def v_def)
  have n: "nat (column_value (s @ [c])) = 26 * v + (c - 64)" using c s(2) by (simp add: column_value_snoc nat_eq_iff)
  have m: "26 * v + (c - 64) - 1 = 26 * v + (c - 65)" using c by simp
  obtain k where k: "c = 65 + k" using c(1) le_Suc_ex by blast
  with c(2) have "k < 26" by simp
  have "(26 * v + (c - 65)) div 26 = v" "(26 * v + (c - 65)) mod 26 = c - 65" using k \<open>k < 26\<close> by simp_all
  then have "letters_loop (26 * v + (c - 64)) [] = s @ [c]"
    using c s(1) by (subst letters_loop_snoc) (simp_all add: m)
  then show ?case using n s(2) c by (simp add: column_value_snoc)
qed

text \<open>
  Column letters and column numbers are inverse to each other: the letters of a zero-based index
  read back as the index, every non-empty word of capital letters is the name of exactly the column
  its index says, and names consist of capital letters only.
\<close>

theorem column_letter_roundtrip:
  "column_index (column_letter n) = int n \<and> letters (column_letter n) \<and> column_letter n \<noteq> []
   \<and> (letters s \<and> s \<noteq> [] \<longrightarrow> 0 \<le> column_index s \<and> column_letter (nat (column_index s)) = s)"
proof (intro conjI impI)
  show "column_index (column_letter n) = int n" "letters (column_letter n)"
    using letters_loop_value [of "n + 1"] by (simp_all add: column_index_def column_letter_def column_value_def)
  show "column_letter n \<noteq> []" by (simp add: column_letter_def letters_loop_snoc)
next
  assume s: "letters s \<and> s \<noteq> []"
  then obtain t c where t: "s = t @ [c]" by (cases s rule: rev_cases) auto
  have "0 \<le> column_value t" using s t letters_loop_inverse [of t] by (simp add: letters_def)
  then have pos: "1 \<le> column_value s" using s t by (simp add: column_value_snoc letters_def)
  have idx: "column_index s = column_value s - 1" by (simp add: column_index_def column_value_def)
  with pos show "0 \<le> column_index s" by simp
  have "nat (column_index s) + 1 = nat (column_value s)" using pos idx by simp
  then show "column_letter (nat (column_index s)) = s"
    using s letters_loop_inverse [of s] by (simp only: column_letter_def)
qed

theorem column_letter_roundtrip_witness: "column_letter (nat (column_index (lit ''AB''))) = lit ''AB''"
  using column_letter_roundtrip [of 0 "lit ''AB''"] by (simp add: letters_def)

section \<open>The alias index\<close>

definition ascii_header :: "pystr \<Rightarrow> pystr" where
  "ascii_header s =
     strip (collapse is_space (collapse header_dash
       (filter (\<lambda>c. c \<noteq> 46) (map ascii_lower (filter (\<lambda>c. c \<noteq> 176 \<and> c \<noteq> 186) s)))))"

lemmas ascii_header_defs = ascii_header_def strip_def strip_by_def is_space_def header_dash_def ascii_lower_def

lemma fold_header_ascii:
  "ascii_tables u \<Longrightarrow> is_ascii (filter (\<lambda>c. c \<noteq> 176 \<and> c \<noteq> 186) s) \<Longrightarrow> fold_header u s = ascii_header s"
  by (simp add: fold_header_def ascii_header_def ascii_tables.marks_of_ascii ascii_tables.casefold_of_ascii)

definition alias_pairs :: "(string \<times> pystr) list" where
  "alias_pairs = concat (map (\<lambda>spec. map (Pair (fs_name spec)) (fs_header spec # fs_aliases spec)) field_specs)"

lemma foldl_nested:
  "foldl (\<lambda>acc x. foldl (f (a x)) acc (b x)) z xs = foldl (\<lambda>acc (k, y). f k acc y) z (concat (map (\<lambda>x. map (Pair (a x)) (b x)) xs))"
proof (induction xs arbitrary: z)
  case (Cons x xs)
  have "foldl (\<lambda>acc (k, y). f k acc y) z (map (Pair (a x)) ys) = foldl (f (a x)) z ys" for ys z
    by (induction ys arbitrary: z) auto
  with Cons show ?case by simp
qed simp

lemma build_alias_pairs: "build_alias_index u = foldl (\<lambda>acc (f, n). alias_step u f acc n) (Some []) alias_pairs"
  unfolding build_alias_index_def alias_pairs_def by (rule foldl_nested)

lemma is_ascii_list_all: "is_ascii s = list_all (\<lambda>c. c < 128) s"
  by (simp add: is_ascii_def list_all_iff)

lemmas alias_table = alias_pairs_def field_specs_def field_spec_def

lemma alias_names_ascii: "list_all (\<lambda>(f, n). is_ascii (filter (\<lambda>c. c \<noteq> 176 \<and> c \<noteq> 186) n)) alias_pairs"
  by (simp add: alias_table is_ascii_list_all)

lemma alias_keys_distinct:
  "distinct (filter (\<lambda>k. k \<noteq> lit bare_carpeta) (map (\<lambda>(f, n). ascii_header n) alias_pairs))"
  by (simp add: alias_table ascii_header_defs bare_carpeta_def)

lemma alias_fold:
  "foldl (\<lambda>acc (f, n). alias_step u f acc n) (Some []) pairs = Some index \<Longrightarrow>
    map_of index k = Some f \<longleftrightarrow> k \<noteq> lit bare_carpeta \<and> (\<exists>n. (f, n) \<in> set pairs \<and> k = fold_header u n)"
proof (induction pairs arbitrary: index f rule: rev_induct)
  case Nil
  then show ?case by simp
next
  case (snoc p pairs)
  obtain g n where p: "p = (g, n)" by (cases p)
  let ?key = "fold_header u n"
  from snoc.prems obtain prev where prev: "foldl (\<lambda>acc (f, n). alias_step u f acc n) (Some []) pairs = Some prev"
    and step: "alias_step u g (Some prev) n = Some index"
    by (auto simp: p alias_step_def split: option.splits)
  note IH = snoc.IH [OF prev]
  show ?case
  proof (cases "?key = lit bare_carpeta")
    case True
    with step have "index = prev" by (simp add: alias_step_def)
    with IH True show ?thesis by (auto simp: p)
  next
    case False
    with step have idx: "index = AList.update ?key g prev" and fresh: "map_of prev ?key \<in> {None, Some g}"
      by (auto simp: alias_step_def Let_def split: option.splits if_splits)
    show ?thesis
    proof (cases "k = ?key")
      case True
      have "map_of index k = Some g" using True by (simp add: idx update_conv')
      moreover have "f = g" if "(f, m) \<in> set pairs" "k = fold_header u m" for m
        using IH [of f] that True False fresh by auto
      ultimately show ?thesis using True False by (auto simp: p)
    next
      case False
      then have "map_of index k = map_of prev k" by (simp add: idx update_conv')
      with IH False show ?thesis by (auto simp: p)
    qed
  qed
qed

lemma alias_fold_total:
  "distinct (filter (\<lambda>k. k \<noteq> lit bare_carpeta) (map (\<lambda>(f, n). fold_header u n) pairs)) \<Longrightarrow>
    foldl (\<lambda>acc (f, n). alias_step u f acc n) (Some []) pairs \<noteq> None"
proof (induction pairs rule: rev_induct)
  case (snoc p pairs)
  obtain g n where p: "p = (g, n)" by (cases p)
  from snoc obtain prev where prev: "foldl (\<lambda>acc (f, n). alias_step u f acc n) (Some []) pairs = Some prev" by auto
  have "map_of prev (fold_header u n) = None" if "fold_header u n \<noteq> lit bare_carpeta"
  proof (rule ccontr)
    assume "map_of prev (fold_header u n) \<noteq> None"
    then obtain f m where "(f, m) \<in> set pairs" "fold_header u n = fold_header u m"
      using alias_fold [OF prev, of "fold_header u n"] by auto
    then have "fold_header u n \<in> set (filter (\<lambda>k. k \<noteq> lit bare_carpeta) (map (\<lambda>(f, n). fold_header u n) pairs))"
      using that by force
    with snoc.prems that show False by (simp add: p)
  qed
  with prev show ?case by (simp add: p alias_step_def Let_def split: option.splits)
qed simp

lemma build_alias_total:
  assumes "ascii_tables u"
  shows "build_alias_index u \<noteq> None"
proof -
  have "fold_header u n = ascii_header n" if "(f, n) \<in> set alias_pairs" for f n
    using that alias_names_ascii fold_header_ascii [OF assms] by (auto simp: list_all_iff)
  then have "map (\<lambda>(f, n). fold_header u n) alias_pairs = map (\<lambda>(f, n). ascii_header n) alias_pairs"
    by (intro map_cong) auto
  with alias_keys_distinct show ?thesis unfolding build_alias_pairs by (intro alias_fold_total) (simp only:)
qed

lemma recognize_iff:
  assumes "ascii_tables u"
  shows "recognize u py_str v = Some f \<longleftrightarrow>
    normalize_header u py_str v \<noteq> []
    \<and> (if normalize_header u py_str v = lit bare_carpeta then f = bare_carpeta
       else (\<exists>spec \<in> set field_specs. f = fs_name spec
          \<and> (\<exists>name \<in> set (fs_header spec # fs_aliases spec). normalize_header u py_str v = fold_header u name)))"
proof -
  obtain index where index: "build_alias_index u = Some index"
    using build_alias_total [OF assms] by auto
  have "(f, n) \<in> set alias_pairs \<longleftrightarrow> (\<exists>spec \<in> set field_specs. f = fs_name spec \<and> n \<in> set (fs_header spec # fs_aliases spec))" for n
    by (auto simp: alias_pairs_def)
  then show ?thesis
    using alias_fold [OF index [unfolded build_alias_pairs], of "normalize_header u py_str v" f]
    by (auto simp: recognize_def Let_def alias_index_def index)
qed

text \<open>
  A header is recognised exactly when it folds to the canonical header or a documented alias of a
  field, and then as that field and no other: no text is claimed by two fields, and the bare
  \<open>Carpeta\<close> is never one of them.
\<close>

theorem recognize_exact:
  assumes "ascii_tables u"
  shows "recognize u py_str v = Some f \<longleftrightarrow>
    normalize_header u py_str v \<noteq> []
    \<and> (if normalize_header u py_str v = lit bare_carpeta then f = bare_carpeta
       else (\<exists>spec \<in> set field_specs. f = fs_name spec
          \<and> (\<exists>name \<in> set (fs_header spec # fs_aliases spec). normalize_header u py_str v = fold_header u name)))"
  by (rule recognize_iff [OF assms])

theorem recognize_exact_witness:
  "recognize latin_ucd (\<lambda>_. []) (VStr (lit ''fecha_de INGRESO'')) = Some ''fecha_ingreso''"
proof -
  let ?v = "VStr (lit ''fecha_de INGRESO'')"
  have "is_ascii (filter (\<lambda>c. c \<noteq> 176 \<and> c \<noteq> 186) (lit ''fecha_de INGRESO''))"
    "is_ascii (filter (\<lambda>c. c \<noteq> 176 \<and> c \<noteq> 186) (lit ''Fecha de ingreso''))" by (simp_all add: is_ascii_def)
  note ascii = this [THEN fold_header_ascii [OF latin.ascii_tables_axioms]]
  have "ascii_header (lit ''fecha_de INGRESO'') = lit ''fecha de ingreso''"
    "ascii_header (lit ''Fecha de ingreso'') = lit ''fecha de ingreso''" by (simp_all add: ascii_header_defs)
  then have n: "normalize_header latin_ucd (\<lambda>_. []) ?v = lit ''fecha de ingreso''"
    "fold_header latin_ucd (lit ''Fecha de ingreso'') = lit ''fecha de ingreso''"
    using ascii by (simp_all add: normalize_header_def integral_str_def str_value_def)
  have "\<exists>spec \<in> set field_specs. ''fecha_ingreso'' = fs_name spec
      \<and> (\<exists>name \<in> set (fs_header spec # fs_aliases spec). lit ''fecha de ingreso'' = fold_header latin_ucd name)"
    using n(2) by (intro bexI [of _ "field_spec ''fecha_ingreso'' (lit ''Fecha de ingreso'') T_expected K_date [lit ''Fecha de ingreso1'']"])
      (simp_all add: field_specs_def field_spec_def)
  then show ?thesis
    using recognize_exact [OF latin.ascii_tables_axioms, of "\<lambda>_. []" ?v "''fecha_ingreso''"] n(1)
    by (simp add: bare_carpeta_def)
qed

end
