(* ===== verification/Layout.thy ===== *)
theory Layout
  imports Headers TextDate
begin

text \<open>
  \<open>resolve_resumen_layout\<close> of \<open>transelec_ingestion/resumen_layout.py\<close>, phase by phase: the
  blocks of columns, the decision on every column, duplicated and missing fields, and the rows with
  their cell checks. Problems become issues; the caller refuses a report with an error.
\<close>

section \<open>Blocks of columns\<close>

record cell_evidence =
  ce_formula :: bool
  ce_cached :: bool
  ce_error :: bool

type_synonym formula_cells = "nat \<times> nat \<Rightarrow> cell_evidence option"

record auxiliary_region =
  ar_first :: pystr
  ar_last :: pystr
  ar_count :: nat

definition grid_width :: "grid \<Rightarrow> nat" where
  "grid_width g = foldr (\<lambda>vs n. max (length vs) n) g 0"

definition has_data :: "grid \<Rightarrow> nat \<Rightarrow> nat \<Rightarrow> bool" where
  "has_data g h c = list_ex (\<lambda>r. \<not> is_blank (cell_at g r c)) [Suc h..<length g]"

definition blank_column :: "(pyval \<Rightarrow> pystr) \<Rightarrow> grid \<Rightarrow> nat \<Rightarrow> nat \<Rightarrow> bool" where
  "blank_column py_str g h c \<longleftrightarrow> header_text py_str (cell_at g h c) = None \<and> \<not> has_data g h c"

definition block_step :: "(nat \<Rightarrow> bool) \<Rightarrow> nat list list \<times> nat list \<Rightarrow> nat \<Rightarrow> nat list list \<times> nat list" where
  "block_step blank acc c =
     (let (blocks, current) = acc
      in if blank c then (if current \<noteq> [] then (blocks @ [current], []) else (blocks, current))
         else (blocks, current @ [c]))"

definition column_blocks :: "(nat \<Rightarrow> bool) \<Rightarrow> nat \<Rightarrow> nat list list" where
  "column_blocks blank width =
     (let (blocks, current) = foldl (block_step blank) ([], []) [0..<width]
      in if current \<noteq> [] then blocks @ [current] else blocks)"

definition block_fields :: "(nat \<Rightarrow> string option) \<Rightarrow> nat list \<Rightarrow> string list" where
  "block_fields recognized block =
     concat (map (\<lambda>c. case recognized c of Some f \<Rightarrow> (if f \<noteq> bare_carpeta then [f] else []) | None \<Rightarrow> []) block)"

record joined =
  jn_business :: "nat list"
  jn_fields :: "string list"
  jn_joined :: "nat list list"
  jn_aux :: "nat list list"

definition join_step :: "(nat \<Rightarrow> string option) \<Rightarrow> joined \<Rightarrow> nat list \<Rightarrow> joined" where
  "join_step recognized j block =
     (let new = filter (\<lambda>f. f \<notin> set (jn_fields j)) (block_fields recognized block)
      in if new \<noteq> [] then j\<lparr>jn_business := jn_business j @ block, jn_fields := jn_fields j @ new, jn_joined := jn_joined j @ [block]\<rparr>
         else j\<lparr>jn_aux := jn_aux j @ [block]\<rparr>)"

text \<open>The first block with a PMF header is the table; \<open>None\<close> is the assertion that there is one.\<close>

definition join_blocks :: "(nat \<Rightarrow> string option) \<Rightarrow> nat list list \<Rightarrow> joined option" where
  "join_blocks recognized blocks =
     (let no_pmf = (\<lambda>b. ''pmf'' \<notin> set (block_fields recognized b))
      in case dropWhile no_pmf blocks of
           [] \<Rightarrow> None
         | main # rest \<Rightarrow> Some (foldl (join_step recognized)
             \<lparr>jn_business = main, jn_fields = block_fields recognized main, jn_joined = [], jn_aux = []\<rparr>
             (takeWhile no_pmf blocks @ rest)))"

definition region_of :: "nat list \<Rightarrow> auxiliary_region" where
  "region_of block = \<lparr>ar_first = column_letter (hd block), ar_last = column_letter (last block), ar_count = length block\<rparr>"

definition block_issues :: "(nat \<Rightarrow> bool) \<Rightarrow> joined \<Rightarrow> layout_issue list" where
  "block_issues blank j =
     (let business = sort (jn_business j)
      in (if jn_joined j = [] then []
          else [issue ''columna_vacia_intermedia'' Sev_warning None
                  (map column_letter (filter (\<lambda>c. c \<notin> set business \<and> blank c) [hd business..<Suc (last business)]))])
         @ (if jn_aux j = [] then []
            else [issue ''region_auxiliar_ignorada'' Sev_info None (map (\<lambda>b. column_letter (hd b)) (jn_aux j))]))"

section \<open>Column decisions\<close>

type_synonym decisions = "(nat, column_decision) pydict"

definition decide :: "nat \<Rightarrow> pystr option \<Rightarrow> column_status \<Rightarrow> string option \<Rightarrow> decisions \<Rightarrow> decisions" where
  "decide c header status field d =
     AList.update c \<lparr>cd_column = column_letter c, cd_header = header, cd_status = status, cd_field = field\<rparr> d"

record column_groups =
  cg_groups :: "(string, nat list) pydict"
  cg_decisions :: decisions
  cg_issues :: "layout_issue list"

definition data_rows :: "grid \<Rightarrow> nat \<Rightarrow> nat list" where
  "data_rows g h = [Suc h..<length g]"

definition group_columns :: "(pyval \<Rightarrow> pystr) \<Rightarrow> grid \<Rightarrow> nat \<Rightarrow> (nat \<Rightarrow> string option) \<Rightarrow> nat list \<Rightarrow> column_groups" where
  "group_columns py_str g h recognized business =
     (let header = (\<lambda>c. header_text py_str (cell_at g h c));
          candidates = filter (\<lambda>c. recognized c = Some bare_carpeta) business;
          named = filter (\<lambda>c. recognized c \<noteq> None \<and> recognized c \<noteq> Some bare_carpeta) business;
          unlabeled = filter (\<lambda>c. recognized c = None \<and> header c = None) business;
          unrecognized = filter (\<lambda>c. recognized c = None \<and> header c \<noteq> None) business;
          (assigned, carpeta_issues) = resolve_carpeta_columns candidates business recognized;
          d1 = foldl (\<lambda>d c. if header c = None then decide c None C_unlabeled_data_ignored None d
                            else decide c (header c) C_unrecognized_ignored None d) []
                 (filter (\<lambda>c. recognized c = None) business);
          d2 = foldl (\<lambda>d c. decide c (header c) C_unrecognized_ignored None d) d1
                 (filter (\<lambda>c. c \<notin> fst ` set assigned) candidates);
          rows = map Suc (filter (\<lambda>r. list_ex (\<lambda>c. \<not> is_blank (cell_at g r c)) unlabeled) (data_rows g h))
      in \<lparr>cg_groups = foldl (\<lambda>d (c, f). dict_append f c d) (group_by (\<lambda>c. the (recognized c)) named) assigned,
          cg_decisions = d2,
          cg_issues = carpeta_issues
            @ (if unrecognized = [] then [] else [issue ''columna_no_reconocida'' Sev_info None (map column_letter unrecognized)])
            @ (if unlabeled = [] then []
               else [(issue ''columna_sin_encabezado'' Sev_warning None (map column_letter unlabeled))
                       \<lparr>li_rows := fst (capped (Some 50) rows), li_count := snd (capped (Some 50) rows)\<rparr>])\<rparr>)"

section \<open>Duplicated headers\<close>

definition values_differ :: "grid \<Rightarrow> nat \<Rightarrow> nat list \<Rightarrow> bool" where
  "values_differ g r columns \<longleftrightarrow>
     length (remdups (map (\<lambda>c. eq_key c (comparable_cell (cell_at g r c))) columns)) > 1"

record chosen =
  ch_columns :: "(string, nat) pydict"
  ch_decisions :: decisions
  ch_issues :: "layout_issue list"

definition choose_step :: "(pyval \<Rightarrow> pystr) \<Rightarrow> grid \<Rightarrow> nat \<Rightarrow> chosen \<Rightarrow> string \<times> nat list \<Rightarrow> chosen" where
  "choose_step py_str g h ch entry =
     (let (field, unsorted) = entry; columns = sort unsorted; primary = hd columns;
          header = (\<lambda>c. header_text py_str (cell_at g h c));
          conflicting = map Suc (filter (\<lambda>r. values_differ g r columns) (data_rows g h));
          ignore = (\<lambda>d cs. foldl (\<lambda>d c. decide c (header c) C_duplicate_ignored (Some field) d) d cs)
      in if length columns > 1 \<and> conflicting \<noteq> [] then
           ch\<lparr>ch_decisions := ignore (ch_decisions ch) columns,
              ch_issues := ch_issues ch @ [(issue ''encabezado_duplicado_conflictivo'' Sev_error (Some field) (map column_letter columns))
                \<lparr>li_rows := fst (capped (Some 50) conflicting), li_count := snd (capped (Some 50) conflicting)\<rparr>]\<rparr>
         else
           ch\<lparr>ch_columns := AList.update field primary (ch_columns ch),
              ch_decisions := decide primary (header primary) C_mapped (Some field)
                (if length columns > 1 then ignore (ch_decisions ch) (tl columns) else ch_decisions ch),
              ch_issues := ch_issues ch @ (if length columns > 1
                then [issue ''encabezado_duplicado_identico'' Sev_warning (Some field) (map column_letter columns)] else [])\<rparr>)"

definition separators :: "(nat \<Rightarrow> bool) \<Rightarrow> nat \<Rightarrow> nat list \<Rightarrow> nat list" where
  "separators blank width business =
     (if business = [] then []
      else filter (\<lambda>c. c < width \<and> c \<notin> set business \<and> blank c) [hd business..<last business + 2])"

section \<open>Missing fields\<close>

definition missing_issue :: "field_spec_t \<Rightarrow> layout_issue" where
  "missing_issue spec =
     (case fs_tier spec of
        T_identity \<Rightarrow> issue ''columna_esencial_ausente'' Sev_error (Some (fs_name spec)) []
      | T_required \<Rightarrow> issue ''columna_esencial_ausente'' Sev_error (Some (fs_name spec)) []
      | T_expected \<Rightarrow> issue ''columna_esperada_ausente'' Sev_warning (Some (fs_name spec)) []
      | T_optional \<Rightarrow> issue ''columna_opcional_ausente'' Sev_info (Some (fs_name spec)) [])"

definition missing_step :: "(string, nat) pydict \<Rightarrow> layout_issue list \<Rightarrow> field_spec_t \<Rightarrow> layout_issue list" where
  "missing_step columns issues spec =
     (if fs_name spec \<in> fst ` set columns then issues
      else if list_ex (\<lambda>i. li_field i = Some (fs_name spec) \<and> li_severity i = Sev_error) issues then issues
      else if fs_name spec \<in> set carpeta_fields \<and> list_ex (\<lambda>i. li_code i = ''carpeta_ambigua'') issues then issues
      else issues @ [missing_issue spec])"

record layout_columns =
  lc_columns :: "(string, nat) pydict"
  lc_decisions :: "column_decision list"
  lc_regions :: "auxiliary_region list"
  lc_issues :: "layout_issue list"

definition resolve_columns :: "ucd \<Rightarrow> (pyval \<Rightarrow> pystr) \<Rightarrow> grid \<Rightarrow> nat \<Rightarrow> layout_columns option" where
  "resolve_columns u py_str g h =
     (let width = grid_width g; recognized = (\<lambda>c. recognize u py_str (cell_at g h c)); blank = blank_column py_str g h
      in map_option (\<lambda>j.
           let business = sort (jn_business j);
               cg = group_columns py_str g h recognized business;
               ch = foldl (choose_step py_str g h)
                 \<lparr>ch_columns = [], ch_decisions = cg_decisions cg, ch_issues = block_issues blank j @ cg_issues cg\<rparr> (cg_groups cg);
               d = foldl (\<lambda>d c. decide c None C_separator None d) (ch_decisions ch) (separators blank width business)
           in \<lparr>lc_columns = ch_columns ch, lc_decisions = map (\<lambda>c. the (map_of d c)) (sort (map fst d)),
               lc_regions = map region_of (jn_aux j), lc_issues = foldl (missing_step (ch_columns ch)) (ch_issues ch) field_specs\<rparr>)
         (join_blocks recognized (column_blocks blank width)))"

end
