(* ===== verification/LayoutColumns.thy ===== *)
theory LayoutColumns
  imports Layout
begin

text \<open>
  What \<open>resolve_resumen_layout\<close> guarantees about columns: the header row it accepts, the table
  it cuts out of the worksheet, and the column it chooses for each field.
\<close>

section \<open>Recognition needs a visible header\<close>

text \<open>The tables map white space to white space, as Unicode does.\<close>

definition space_tables :: "ucd \<Rightarrow> bool" where
  "space_tables u \<longleftrightarrow> (\<forall>c. is_space c \<longrightarrow> (\<forall>d \<in> set (ucd_decomp u c). is_space d) \<and> (\<forall>d \<in> set (ucd_fold u c). is_space d))"

lemma latin_decomp_id: "c < 160 \<or> 255 < c \<Longrightarrow> latin_decomp c = [c]"
  unfolding latin_decomp_def by (subst map_of_eq_None_iff [THEN iffD2]) auto

lemma space_tables_latin: "space_tables latin_ucd"
  unfolding space_tables_def
proof (intro allI impI)
  fix c assume s: "is_space c"
  have "c = 160 \<or> latin_decomp c = [c]"
    using s by (cases "c = 160") (auto simp: is_space_def intro!: latin_decomp_id)
  moreover have "latin_fold c = [c]" using s by (auto simp: is_space_def latin_fold_def)
  moreover have "latin_decomp 160 = [32]" by (simp add: latin_decomp_def)
  moreover have "is_space 32" by (simp add: is_space_def)
  ultimately show "(\<forall>d \<in> set (ucd_decomp latin_ucd c). is_space d) \<and> (\<forall>d \<in> set (ucd_fold latin_ucd c). is_space d)"
    using s by auto
qed

lemma space_collapse: "\<forall>c \<in> set s. is_space c \<Longrightarrow> \<forall>c \<in> set (collapse p s). is_space c"
proof
  fix c assume "\<forall>c \<in> set s. is_space c" "c \<in> set (collapse p s)"
  moreover have "is_space 32" by (simp add: is_space_def)
  ultimately show "is_space c" using set_collapse [of p s] by auto
qed

lemma casefold_space:
  assumes "space_tables u"
  shows "\<forall>c \<in> set t. is_space c \<Longrightarrow> \<forall>c \<in> set (casefold u t). is_space c"
  using assms unfolding casefold_def space_tables_def set_concat set_map by blast

lemma fold_header_blank:
  assumes "space_tables u" "\<forall>c \<in> set s. is_space c"
  shows "fold_header u s = []"
proof -
  let ?t = "filter (\<lambda>c. c \<noteq> 176 \<and> c \<noteq> 186) s"
  have "set (drop_marks u (nfkd u ?t)) \<subseteq> (\<Union>c \<in> set s. set (ucd_decomp u c))"
    unfolding drop_marks_nfkd by (auto simp: drop_marks_def)
  then have "\<forall>c \<in> set (drop_marks u (nfkd u ?t)). is_space c"
    using assms unfolding space_tables_def by blast
  then have "\<forall>c \<in> set (casefold u (drop_marks u (nfkd u ?t))). is_space c"
    by (rule casefold_space [OF assms(1)])
  then have "\<forall>c \<in> set (filter (\<lambda>c. c \<noteq> 46) (casefold u (drop_marks u (nfkd u ?t)))). is_space c" by simp
  note sp = this [THEN space_collapse, of header_dash, THEN space_collapse, of is_space]
  show ?thesis unfolding fold_header_def Let_def strip_def strip_by_empty_iff by (rule sp)
qed

lemma recognize_visible:
  assumes "space_tables u" "recognize u py_str v = Some f"
  shows "header_text py_str v \<noteq> None"
proof
  assume "header_text py_str v = None"
  then have "is_blank v" by (simp add: header_text_def split: if_splits)
  then have "normalize_header u py_str v = []"
    using fold_header_blank [OF assms(1)]
    by (auto simp: is_blank_def normalize_header_def integral_str_def str_value_def strip_def strip_by_empty_iff
        split: pyval.splits)
  with assms(2) show False by (simp add: recognize_def)
qed

section \<open>The header row\<close>

lemma row_fields_iff: "f \<in> set (row_fields u py_str vs) \<longleftrightarrow> (\<exists>v \<in> set vs. recognize u py_str v = Some f)"
proof -
  have "f \<in> set (case o1 of None \<Rightarrow> [] | Some f \<Rightarrow> [f]) \<longleftrightarrow> o1 = Some f" for o1 :: "string option"
    by (cases o1) auto
  then show ?thesis by (simp add: row_fields_def)
qed

lemma header_scores_iff:
  "(n, r) \<in> set (header_scores u py_str g) \<longleftrightarrow> r < 15 \<and> r < length g \<and> n = length (row_fields u py_str (g ! r))
    \<and> ''pmf'' \<in> set (row_fields u py_str (g ! r)) \<and> 5 \<le> n"
  by (auto simp: header_scores_def Let_def split: if_splits)

lemma detect_header_row_Inr:
  assumes "detect_header_row u py_str g = Inr h"
  shows "h < 15 \<and> h < length g \<and> ''pmf'' \<in> set (row_fields u py_str (g ! h)) \<and> 5 \<le> length (row_fields u py_str (g ! h))
    \<and> (\<forall>r < length g. r < 15 \<and> r \<noteq> h \<and> ''pmf'' \<in> set (row_fields u py_str (g ! r)) \<longrightarrow>
        length (row_fields u py_str (g ! r)) < length (row_fields u py_str (g ! h)))"
proof -
  let ?S = "header_scores u py_str g"
  define best where "best = Max (set (map fst ?S))"
  define rows where "rows = map snd (filter (\<lambda>(score, _). score = best) ?S)"
  from assms have ne: "?S \<noteq> []" and one: "\<not> length rows > 1" and h: "h = hd rows"
    by (auto simp: detect_header_row_def Let_def best_def rows_def split: if_splits)
  have le: "n \<le> best" if "(n, r) \<in> set ?S" for n r
    unfolding best_def using that by (intro Max_ge) (auto intro: rev_image_eqI)
  have "best \<in> set (map fst ?S)" unfolding best_def using ne by (intro Max_in) auto
  then have "rows \<noteq> []" by (auto simp: rows_def filter_empty_conv)
  with one h have rows: "rows = [h]" by (cases rows) auto
  then have hS: "(best, h) \<in> set ?S" by (auto simp: rows_def filter_eq_Cons_iff map_eq_Cons_conv)
  have "length (row_fields u py_str (g ! r)) < best"
    if "r < length g" "r < 15" "r \<noteq> h" "''pmf'' \<in> set (row_fields u py_str (g ! r))" for r
  proof (cases "5 \<le> length (row_fields u py_str (g ! r))")
    case True
    then have r: "(length (row_fields u py_str (g ! r)), r) \<in> set ?S" using that by (simp add: header_scores_iff)
    moreover have "(best, r) \<notin> set ?S"
    proof
      assume "(best, r) \<in> set ?S"
      then have "r \<in> set rows" by (force simp: rows_def)
      with rows that(3) show False by simp
    qed
    ultimately show ?thesis using le [OF r] by (metis le_neq_implies_less)
  next
    case False
    then show ?thesis using hS by (simp add: header_scores_iff)
  qed
  with hS show ?thesis by (auto simp: header_scores_iff)
qed

section \<open>The table\<close>

lemma column_blocks_split:
  "concat (column_blocks blank w) = filter (\<lambda>c. \<not> blank c) [0..<w] \<and> [] \<notin> set (column_blocks blank w)"
proof -
  have "case foldl (block_step blank) ([], []) [0..<w] of (blocks, current) \<Rightarrow>
      concat blocks @ current = filter (\<lambda>c. \<not> blank c) [0..<w] \<and> [] \<notin> set blocks"
    by (induction w) (auto simp: block_step_def split: prod.splits if_splits)
  then show ?thesis by (auto simp: column_blocks_def split: prod.splits)
qed

lemma block_fields_iff:
  "f \<in> set (block_fields recognized b) \<longleftrightarrow> f \<noteq> bare_carpeta \<and> (\<exists>c \<in> set b. recognized c = Some f)"
proof -
  have "f \<in> set (case o1 of Some f \<Rightarrow> (if f \<noteq> bare_carpeta then [f] else []) | None \<Rightarrow> []) \<longleftrightarrow> f \<noteq> bare_carpeta \<and> o1 = Some f"
    for o1 :: "string option" by (cases o1) auto
  then show ?thesis by (auto simp: block_fields_def)
qed

lemma join_fold:
  "mset (jn_business (foldl (join_step rec) j bs) @ concat (jn_aux (foldl (join_step rec) j bs)))
    = mset (jn_business j @ concat (jn_aux j) @ concat bs)"
  "set (jn_business j) \<subseteq> set (jn_business (foldl (join_step rec) j bs))"
proof -
  show "mset (jn_business (foldl (join_step rec) j bs) @ concat (jn_aux (foldl (join_step rec) j bs)))
    = mset (jn_business j @ concat (jn_aux j) @ concat bs)"
    by (induction bs arbitrary: j) (simp_all add: join_step_def Let_def ac_simps)
  have "set (jn_business j) \<subseteq> set (jn_business (join_step rec j b))" for j b by (auto simp: join_step_def Let_def)
  then show "set (jn_business j) \<subseteq> set (jn_business (foldl (join_step rec) j bs))"
    by (induction bs arbitrary: j) (simp, metis foldl_Cons order_trans)
qed

lemma join_blocks_business:
  assumes "join_blocks recognized blocks = Some j"
  shows "mset (jn_business j) \<subseteq># mset (concat blocks)" and "\<exists>c \<in> set (jn_business j). recognized c = Some ''pmf''"
proof -
  let ?no = "\<lambda>b. ''pmf'' \<notin> set (block_fields recognized b)"
  obtain main rest where d: "dropWhile ?no blocks = main # rest"
    and j: "j = foldl (join_step recognized) \<lparr>jn_business = main, jn_fields = block_fields recognized main, jn_joined = [], jn_aux = []\<rparr>
      (takeWhile ?no blocks @ rest)"
    using assms by (auto simp: join_blocks_def Let_def split: list.splits)
  have "blocks = takeWhile ?no blocks @ main # rest" using d by (metis takeWhile_dropWhile_id)
  then have "mset (concat blocks) = mset (concat (takeWhile ?no blocks)) + mset main + mset (concat rest)"
    by (metis concat.simps(2) concat_append mset_append add.assoc)
  then show "mset (jn_business j) \<subseteq># mset (concat blocks)"
    using join_fold(1) [of recognized "\<lparr>jn_business = main, jn_fields = block_fields recognized main, jn_joined = [], jn_aux = []\<rparr>" "takeWhile ?no blocks @ rest"]
    unfolding j by (simp add: ac_simps) (metis mset_subset_eq_add_left)
  have "''pmf'' \<in> set (block_fields recognized main)" using d by (metis dropWhile_eq_Cons_conv)
  then show "\<exists>c \<in> set (jn_business j). recognized c = Some ''pmf''"
    using join_fold(2) [where j = "\<lparr>jn_business = main, jn_fields = block_fields recognized main, jn_joined = [], jn_aux = []\<rparr>" and bs = "takeWhile ?no blocks @ rest" and rec = recognized]
    unfolding j by (auto simp: block_fields_iff)
qed

lemma join_blocks_total:
  assumes "c \<in> set (concat blocks)" "recognized c = Some ''pmf''"
  shows "join_blocks recognized blocks \<noteq> None"
proof -
  obtain b where b: "b \<in> set blocks" "c \<in> set b" using assms(1) by auto
  then have "''pmf'' \<in> set (block_fields recognized b)" using assms(2) by (auto simp: block_fields_iff bare_carpeta_def)
  then have "dropWhile (\<lambda>b. ''pmf'' \<notin> set (block_fields recognized b)) blocks \<noteq> []" using b(1) by auto
  then show ?thesis by (auto simp: join_blocks_def Let_def split: list.splits)
qed

text \<open>
  The table without the loops that cut it out. Columns with no blank one between them are in one run;
  the table is the run of the first PMF header, and every other run that names a field which neither
  the run of the PMF nor a run further left names.
\<close>

definition same_run :: "(nat \<Rightarrow> bool) \<Rightarrow> nat \<Rightarrow> nat \<Rightarrow> bool" where
  "same_run blank c d \<longleftrightarrow> (\<forall>e. min c d \<le> e \<and> e \<le> max c d \<longrightarrow> \<not> blank e)"

definition names_field :: "(nat \<Rightarrow> string option) \<Rightarrow> (nat \<Rightarrow> bool) \<Rightarrow> nat \<Rightarrow> string \<Rightarrow> nat \<Rightarrow> bool" where
  "names_field recognized blank w f c \<longleftrightarrow> c < w \<and> \<not> blank c \<and> recognized c = Some f \<and> f \<noteq> bare_carpeta"

definition in_table :: "(nat \<Rightarrow> string option) \<Rightarrow> (nat \<Rightarrow> bool) \<Rightarrow> nat \<Rightarrow> nat \<Rightarrow> bool" where
  "in_table recognized blank w c \<longleftrightarrow> c < w \<and> \<not> blank c
     \<and> (\<exists>m. names_field recognized blank w ''pmf'' m \<and> (\<forall>k < m. \<not> names_field recognized blank w ''pmf'' k)
          \<and> (same_run blank c m
             \<or> (\<exists>f d. same_run blank c d \<and> names_field recognized blank w f d
                  \<and> (\<forall>e. names_field recognized blank w f e \<longrightarrow> \<not> same_run blank e m \<and> (c \<le> e \<or> same_run blank e c)))))"

lemma same_run_sym: "same_run blank c d = same_run blank d c"
  by (simp add: same_run_def min.commute max.commute)

lemma same_run_sub: "same_run blank c d \<Longrightarrow> min c d \<le> e \<Longrightarrow> e \<le> max c d \<Longrightarrow> same_run blank c e"
  unfolding same_run_def by (metis le_trans max.bounded_iff max.cobounded1 min.bounded_iff min.cobounded1 max_def min_def)

lemma same_run_ends: "same_run blank c d \<Longrightarrow> \<not> blank c \<and> \<not> blank d"
  unfolding same_run_def by (meson max.cobounded1 max.cobounded2 min.cobounded1 min.cobounded2)

lemma same_run_Suc: "\<not> blank (Suc n) \<Longrightarrow> c \<le> n \<Longrightarrow> same_run blank c (Suc n) = same_run blank c n"
  by (auto simp: same_run_def le_Suc_eq)

lemma same_run_refl: "same_run blank c c = (\<not> blank c)"
  by (auto simp: same_run_def)

definition runs_upto :: "(nat \<Rightarrow> bool) \<Rightarrow> nat \<Rightarrow> nat list \<Rightarrow> bool" where
  "runs_upto blank n b \<longleftrightarrow> (\<forall>c \<in> set b. \<forall>d < n. \<not> blank d \<longrightarrow> (d \<in> set b \<longleftrightarrow> same_run blank c d))"

lemma runs_blank: "runs_upto blank n b \<Longrightarrow> blank n \<Longrightarrow> runs_upto blank (Suc n) b"
  by (auto simp: runs_upto_def less_Suc_eq)

lemma runs_closed:
  assumes "runs_upto blank n b" "\<forall>c \<in> set b. c < n" "n > 0 \<and> \<not> blank (n - 1) \<Longrightarrow> n - 1 \<notin> set b"
  shows "runs_upto blank (Suc n) b"
  unfolding runs_upto_def
proof (intro ballI allI impI)
  fix c d assume c: "c \<in> set b" and d: "d < Suc n" "\<not> blank d"
  show "(d \<in> set b) = same_run blank c d"
  proof (cases "d = n")
    case True
    obtain k where n: "n = Suc k" using assms(2) c by (cases n) auto
    have "\<not> same_run blank c k"
    proof
      assume r: "same_run blank c k"
      then have "\<not> blank k" using same_run_ends by blast
      with r assms(1) c n have "k \<in> set b" by (auto simp: runs_upto_def)
      with assms(3) n \<open>\<not> blank k\<close> show False by simp
    qed
    moreover have "c \<le> k" "d \<notin> set b" using assms(2) c n True by auto
    ultimately show ?thesis using same_run_Suc [of blank k c] d(2) True n by simp
  next
    case False
    then show ?thesis using assms(1) c d by (simp add: runs_upto_def)
  qed
qed

lemma runs_grow:
  assumes "runs_upto blank n b" "\<forall>c \<in> set b. c < n \<and> \<not> blank c" "\<not> blank n"
    "b = [] \<longleftrightarrow> n = 0 \<or> blank (n - 1)" "b \<noteq> [] \<Longrightarrow> n - 1 \<in> set b"
  shows "runs_upto blank (Suc n) (b @ [n])"
proof -
  have with_n: "same_run blank c n \<longleftrightarrow> c \<in> set b" if c: "c < n" "\<not> blank c" for c
  proof (cases n)
    case (Suc k)
    have r: "same_run blank c n = same_run blank c k" using same_run_Suc [of blank k c] assms(3) c Suc by auto
    show ?thesis
    proof (cases "b = []")
      case True
      then have "blank k" using assms(4) Suc by simp
      then have "\<not> same_run blank c k" using same_run_ends by blast
      with r True show ?thesis by simp
    next
      case False
      then have "k \<in> set b" "\<not> blank k" using assms(4,5) Suc by auto
      then have "c \<in> set b \<longleftrightarrow> same_run blank k c" using assms(1) c by (simp add: runs_upto_def)
      with r show ?thesis by (simp add: same_run_sym)
    qed
  qed (use c in simp)
  show ?thesis
    unfolding runs_upto_def
  proof (intro ballI allI impI)
    fix c d assume c: "c \<in> set (b @ [n])" and d: "d < Suc n" "\<not> blank d"
    consider "c = n" "d = n" | "c = n" "d < n" | "c \<in> set b" "d = n" | "c \<in> set b" "d < n" using c d by (auto simp: less_Suc_eq)
    then show "(d \<in> set (b @ [n])) = same_run blank c d"
    proof cases
      case 1
      then show ?thesis using assms(3) by (simp add: same_run_refl)
    next
      case 2
      then show ?thesis using with_n [of d] d by (simp add: same_run_sym)
    next
      case 3
      then show ?thesis using with_n [of c] assms(2) by auto
    next
      case 4
      then show ?thesis using assms(1) d by (simp add: runs_upto_def)
    qed
  qed
qed

lemma block_state:
  "case foldl (block_step blank) ([], []) [0..<n] of (blocks, current) \<Rightarrow>
      (\<forall>b \<in> set blocks. runs_upto blank n b) \<and> runs_upto blank n current
      \<and> concat blocks @ current = filter (\<lambda>c. \<not> blank c) [0..<n]
      \<and> (current = [] \<longleftrightarrow> n = 0 \<or> blank (n - 1)) \<and> (current \<noteq> [] \<longrightarrow> n - 1 \<in> set current)"
proof (induction n)
  case (Suc n)
  obtain blocks current where f: "foldl (block_step blank) ([], []) [0..<n] = (blocks, current)" by (metis surj_pair)
  with Suc have IH: "\<forall>b \<in> set blocks. runs_upto blank n b" "runs_upto blank n current"
    "concat blocks @ current = filter (\<lambda>c. \<not> blank c) [0..<n]" "current = [] \<longleftrightarrow> n = 0 \<or> blank (n - 1)" "current \<noteq> [] \<longrightarrow> n - 1 \<in> set current"
    by simp_all
  have "set (concat blocks @ current) = {c. c < n \<and> \<not> blank c}" unfolding IH(3) by auto
  then have inside: "\<forall>c \<in> set current. c < n \<and> \<not> blank c" "\<forall>b \<in> set blocks. \<forall>c \<in> set b. c < n" by auto
  have "distinct (concat blocks @ current)" unfolding IH(3) by simp
  then have apart: "b \<in> set blocks \<Longrightarrow> c \<in> set current \<Longrightarrow> c \<notin> set b" for b c by auto
  have e: "runs_upto blank (Suc n) []" by (simp add: runs_upto_def)
  have nxt: "foldl (block_step blank) ([], []) [0..<Suc n] = block_step blank (blocks, current) n" by (simp add: f)
  show ?case
  proof (cases "blank n")
    case True
    then have "block_step blank (blocks, current) n = (if current \<noteq> [] then blocks @ [current] else blocks, [])"
      by (simp add: block_step_def)
    then show ?thesis using IH(1-3) e runs_blank [of blank n] True unfolding nxt
      by (cases "current = []") (simp_all add: ball_Un)
  next
    case False
    have "runs_upto blank (Suc n) b" if b: "b \<in> set blocks" for b
    proof (rule runs_closed)
      show "n > 0 \<and> \<not> blank (n - 1) \<Longrightarrow> n - 1 \<notin> set b" using IH(4,5) apart [OF b, of "n - 1"] by auto
    qed (use IH(1) inside b in auto)
    moreover have "runs_upto blank (Suc n) (current @ [n])"
      by (rule runs_grow) (use IH inside False in auto)
    moreover have "block_step blank (blocks, current) n = (blocks, current @ [n])" using False by (simp add: block_step_def)
    ultimately show ?thesis using IH(3) False unfolding nxt by simp
  qed
qed (simp add: runs_upto_def)

lemma blocks_are_runs: "b \<in> set (column_blocks blank w) \<Longrightarrow> runs_upto blank w b"
  using block_state [of blank w] by (auto simp: column_blocks_def split: prod.splits if_splits)

lemma blocks_in_order:
  assumes "column_blocks blank w = xs @ b # ys" "x \<in> set xs" "c \<in> set x" "d \<in> set b"
  shows "c < d"
proof -
  have "sorted_wrt (<) (concat (column_blocks blank w))"
    using column_blocks_split [of blank w] by (simp add: sorted_wrt_filter)
  then show ?thesis using assms by (auto simp: sorted_wrt_append)
qed

lemma join_fold_fields:
  "set (jn_fields (foldl (join_step rec) j bs)) = set (jn_fields j) \<union> (\<Union>b \<in> set bs. set (block_fields rec b))"
  by (induction bs arbitrary: j) (auto simp: join_step_def Let_def filter_empty_conv)

lemma join_fold_columns:
  "c \<in> set (jn_business (foldl (join_step rec) j bs)) \<longleftrightarrow> c \<in> set (jn_business j)
     \<or> (\<exists>xs b ys. bs = xs @ b # ys \<and> c \<in> set b
         \<and> (\<exists>f \<in> set (block_fields rec b). f \<notin> set (jn_fields j) \<and> (\<forall>x \<in> set xs. f \<notin> set (block_fields rec x))))"
    (is "_ \<longleftrightarrow> _ \<or> ?D bs")
proof (induction bs rule: rev_induct)
  case (snoc b bs)
  let ?j = "foldl (join_step rec) j bs"
  have step: "c \<in> set (jn_business (join_step rec ?j b)) \<longleftrightarrow> c \<in> set (jn_business ?j)
      \<or> c \<in> set b \<and> (\<exists>f \<in> set (block_fields rec b). f \<notin> set (jn_fields ?j))"
    by (auto simp: join_step_def Let_def filter_empty_conv)
  have "?D (bs @ [b]) \<longleftrightarrow> ?D bs \<or> c \<in> set b
      \<and> (\<exists>f \<in> set (block_fields rec b). f \<notin> set (jn_fields j) \<and> (\<forall>x \<in> set bs. f \<notin> set (block_fields rec x)))"
  proof
    assume "?D (bs @ [b])"
    then obtain xs b' ys where d: "bs @ [b] = xs @ b' # ys" "c \<in> set b'"
      "\<exists>f \<in> set (block_fields rec b'). f \<notin> set (jn_fields j) \<and> (\<forall>x \<in> set xs. f \<notin> set (block_fields rec x))" by blast
    then show "?D bs \<or> c \<in> set b
      \<and> (\<exists>f \<in> set (block_fields rec b). f \<notin> set (jn_fields j) \<and> (\<forall>x \<in> set bs. f \<notin> set (block_fields rec x)))"
    proof (cases ys rule: rev_cases)
      case (snoc zs z)
      with d(1) have "bs = xs @ b' # zs" by simp
      with d(2,3) show ?thesis by blast
    next
      case Nil
      with d show ?thesis by auto
    qed
  next
    assume "?D bs \<or> c \<in> set b
      \<and> (\<exists>f \<in> set (block_fields rec b). f \<notin> set (jn_fields j) \<and> (\<forall>x \<in> set bs. f \<notin> set (block_fields rec x)))"
    then show "?D (bs @ [b])" by (metis append.assoc append_Cons)
  qed
  then show ?case using snoc by (auto simp: step join_fold_fields)
qed simp

lemma join_blocks_table:
  assumes "join_blocks rec (column_blocks blank w) = Some j"
  shows "c \<in> set (jn_business j) \<longleftrightarrow> in_table rec blank w c"
proof -
  define bs where "bs = column_blocks blank w"
  let ?no = "\<lambda>b. ''pmf'' \<notin> set (block_fields rec b)"
  define T where "T = takeWhile ?no bs"
  obtain main rest where d: "dropWhile ?no bs = main # rest"
    and j: "j = foldl (join_step rec) \<lparr>jn_business = main, jn_fields = block_fields rec main, jn_joined = [], jn_aux = []\<rparr> (T @ rest)"
    using assms by (auto simp: join_blocks_def Let_def T_def bs_def split: list.splits)
  have bs: "bs = T @ main # rest" using d by (metis T_def takeWhile_dropWhile_id)
  have pm: "''pmf'' \<in> set (block_fields rec main)" using d by (metis dropWhile_eq_Cons_conv)
  have pT: "''pmf'' \<notin> set (block_fields rec x)" if "x \<in> set T" for x using that set_takeWhileD [of x ?no bs] by (simp add: T_def)
  have cc: "concat bs = filter (\<lambda>c. \<not> blank c) [0..<w]" using column_blocks_split [of blank w] by (simp add: bs_def)
  have el: "(\<exists>b \<in> set bs. k \<in> set b) \<longleftrightarrow> k < w \<and> \<not> blank k" for k
    using arg_cong [OF cc, of set] by auto
  have fi: "f \<in> set (block_fields rec b) \<longleftrightarrow> (\<exists>k \<in> set b. names_field rec blank w f k)" if "b \<in> set bs" for f b
    using that el unfolding block_fields_iff names_field_def by blast
  have ru: "k \<in> set b \<longleftrightarrow> same_run blank c k" if "b \<in> set bs" "c \<in> set b" "k < w" "\<not> blank k" for b c k
    using blocks_are_runs [of b blank w] that by (simp add: bs_def runs_upto_def)
  have srt: "sorted_wrt (<) (concat T @ main @ concat rest)" using cc by (simp add: bs sorted_wrt_filter)
  then have srt2: "sorted_wrt (<) (concat (T @ rest))" by (auto simp: sorted_wrt_append) blast
  have before: "k < l" if "T @ rest = xs @ b # ys" "x \<in> set xs" "k \<in> set x" "l \<in> set b" for xs b ys x k l
    using srt2 that by (auto simp: that(1) sorted_wrt_append simp del: concat_append) (auto simp: sorted_wrt_append)
  define m where "m = (LEAST k. names_field rec blank w ''pmf'' k)"
  obtain k where k: "k \<in> set main" "names_field rec blank w ''pmf'' k" using pm fi [of main] by (auto simp: bs)
  have mn: "names_field rec blank w ''pmf'' m" unfolding m_def by (rule LeastI) (rule k(2))
  have least: "\<not> names_field rec blank w ''pmf'' l" if "l < m" for l using that not_less_Least unfolding m_def by blast
  have mk: "m \<le> k" unfolding m_def by (rule Least_le) (rule k(2))
  obtain b where b: "b \<in> set bs" "m \<in> set b" using mn el [of m] by (auto simp: names_field_def)
  have mm: "m \<in> set main"
  proof -
    have "b \<notin> set T" using pT fi [OF b(1)] b(2) mn by blast
    moreover have "m > k" if "b \<in> set rest" using srt that b(2) k(1) by (auto simp: sorted_wrt_append)
    ultimately show ?thesis using b mk by (auto simp: bs)
  qed
  have main: "c \<in> set main \<longleftrightarrow> c < w \<and> \<not> blank c \<and> same_run blank c m" for c
    using ru [of main m c] mm el [of c] same_run_sym [of blank c m] by (auto simp: bs)
  have other: "(\<exists>xs b ys. T @ rest = xs @ b # ys \<and> c \<in> set b
         \<and> (\<exists>f \<in> set (block_fields rec b). f \<notin> set (block_fields rec main) \<and> (\<forall>x \<in> set xs. f \<notin> set (block_fields rec x))))
      \<longleftrightarrow> c < w \<and> \<not> blank c \<and> (\<exists>f d. same_run blank c d \<and> names_field rec blank w f d
                  \<and> (\<forall>e. names_field rec blank w f e \<longrightarrow> \<not> same_run blank e m \<and> (c \<le> e \<or> same_run blank e c)))"
    if nm: "c \<notin> set main"
  proof
    assume "\<exists>xs b ys. T @ rest = xs @ b # ys \<and> c \<in> set b
         \<and> (\<exists>f \<in> set (block_fields rec b). f \<notin> set (block_fields rec main) \<and> (\<forall>x \<in> set xs. f \<notin> set (block_fields rec x)))"
    then obtain xs b ys f where s: "T @ rest = xs @ b # ys" "c \<in> set b" "f \<in> set (block_fields rec b)"
      "f \<notin> set (block_fields rec main)" "\<forall>x \<in> set xs. f \<notin> set (block_fields rec x)" by blast
    have "set (T @ rest) = insert b (set xs \<union> set ys)" unfolding s(1) by auto
    then have sub: "set bs = insert main (insert b (set xs \<union> set ys))" by (auto simp: bs)
    then have bb: "b \<in> set bs" by simp
    obtain d where d: "d \<in> set b" "names_field rec blank w f d" using s(3) fi [OF bb] by blast
    have c: "c < w \<and> \<not> blank c" using el [of c] bb s(2) by blast
    have "same_run blank c d" using ru [OF bb s(2), of d] d by (simp add: names_field_def)
    moreover have "\<not> same_run blank e m \<and> (c \<le> e \<or> same_run blank e c)" if e: "names_field rec blank w f e" for e
    proof -
      obtain b' where b': "b' \<in> set bs" "e \<in> set b'" using el [of e] e by (auto simp: names_field_def)
      have "f \<in> set (block_fields rec b')" using fi [OF b'(1)] b'(2) e by blast
      then have "b' = b \<or> b' \<in> set ys" using b'(1) sub s(4,5) by auto
      moreover have "c < e" if "b' \<in> set ys"
      proof -
        obtain us vs where "ys = us @ b' # vs" using \<open>b' \<in> set ys\<close> by (auto simp: in_set_conv_decomp)
        then have "T @ rest = (xs @ b # us) @ b' # vs" using s(1) by simp
        from before [OF this _ s(2) b'(2)] show ?thesis by simp
      qed
      moreover have "e \<notin> set main" using fi [of main] s(4) e by (auto simp: bs)
      ultimately show ?thesis using main [of e] e ru [OF b'(1,2), of c] c s(2) by (auto simp: names_field_def)
    qed
    ultimately show "c < w \<and> \<not> blank c \<and> (\<exists>f d. same_run blank c d \<and> names_field rec blank w f d
                  \<and> (\<forall>e. names_field rec blank w f e \<longrightarrow> \<not> same_run blank e m \<and> (c \<le> e \<or> same_run blank e c)))"
      using c d(2) by blast
  next
    assume "c < w \<and> \<not> blank c \<and> (\<exists>f d. same_run blank c d \<and> names_field rec blank w f d
                  \<and> (\<forall>e. names_field rec blank w f e \<longrightarrow> \<not> same_run blank e m \<and> (c \<le> e \<or> same_run blank e c)))"
    then obtain f d where c: "c < w" "\<not> blank c" and d: "same_run blank c d" "names_field rec blank w f d"
      and all: "\<And>e. names_field rec blank w f e \<Longrightarrow> \<not> same_run blank e m \<and> (c \<le> e \<or> same_run blank e c)" by blast
    obtain b where b: "b \<in> set bs" "c \<in> set b" using el [of c] c by blast
    then have "b \<in> set (T @ rest)" using nm by (auto simp: bs)
    then obtain xs ys where s: "T @ rest = xs @ b # ys" by (auto simp only: in_set_conv_decomp)
    have "d \<in> set b" using ru [OF b, of d] d by (simp add: names_field_def)
    then have fb: "f \<in> set (block_fields rec b)" using fi [OF b(1)] d(2) by blast
    have "f \<notin> set (block_fields rec main)"
      using fi [of main f] main all by (auto simp: bs names_field_def)
    moreover have "f \<notin> set (block_fields rec x)" if x: "x \<in> set xs" for x
    proof
      have "x \<in> set (T @ rest)" unfolding s using x by simp
      then have xb: "x \<in> set bs" by (auto simp: bs)
      assume "f \<in> set (block_fields rec x)"
      then obtain e where e: "e \<in> set x" "names_field rec blank w f e" using fi [OF xb] by blast
      have "e < c" by (rule before [OF s x e(1) b(2)])
      with all [OF e(2)] have "same_run blank e c" by auto
      then have "c \<in> set x" using ru [OF xb e(1) c] by simp
      from before [OF s x this b(2)] show False by simp
    qed
    ultimately show "\<exists>xs b ys. T @ rest = xs @ b # ys \<and> c \<in> set b
         \<and> (\<exists>f \<in> set (block_fields rec b). f \<notin> set (block_fields rec main) \<and> (\<forall>x \<in> set xs. f \<notin> set (block_fields rec x)))"
      using s b(2) fb by blast
  qed
  have uniq: "(\<exists>l. names_field rec blank w ''pmf'' l \<and> (\<forall>k < l. \<not> names_field rec blank w ''pmf'' k) \<and> P l) \<longleftrightarrow> P m" for P
    using mn least by (metis linorder_neqE_nat)
  show ?thesis
  proof (cases "c \<in> set main")
    case True
    with main [of c] show ?thesis unfolding j join_fold_columns in_table_def uniq by simp
  next
    case False
    with main [of c] other [OF False] show ?thesis unfolding j join_fold_columns in_table_def uniq joined.select_convs by blast
  qed
qed

definition table_columns :: "ucd \<Rightarrow> (pyval \<Rightarrow> pystr) \<Rightarrow> grid \<Rightarrow> nat \<Rightarrow> nat list" where
  "table_columns u py_str g h =
     filter (in_table (\<lambda>c. recognize u py_str (cell_at g h c)) (blank_column py_str g h) (grid_width g)) [0..<grid_width g]"

lemma table_columns_business:
  assumes "join_blocks (\<lambda>c. recognize u py_str (cell_at g h c)) (column_blocks (blank_column py_str g h) (grid_width g)) = Some j"
  shows "sort (jn_business j) = table_columns u py_str g h"
proof (rule sorted_distinct_set_unique)
  have "mset (jn_business j) \<subseteq># mset (filter (\<lambda>c. \<not> blank_column py_str g h c) [0..<grid_width g])"
    using join_blocks_business(1) [OF assms] column_blocks_split [of "blank_column py_str g h" "grid_width g"] by simp
  then show "distinct (sort (jn_business j))"
    by (metis distinct_sort distinct_filter distinct_upt mset_subset_eq_exists_conv mset_append ex_mset distinct_append mset_eq_imp_distinct_iff)
  show "set (sort (jn_business j)) = set (table_columns u py_str g h)"
    using join_blocks_table [OF assms] by (auto simp: table_columns_def in_table_def)
qed (simp_all add: table_columns_def sorted_wrt_filter)

lemma grid_width_ge: "r < length g \<Longrightarrow> length (g ! r) \<le> grid_width g"
  unfolding grid_width_def by (induction g arbitrary: r) (auto simp: nth_Cons split: nat.splits intro: le_max_iff_disj [THEN iffD2])

text \<open>The search for the header row guarantees the table, so the assertion of the code holds.\<close>

lemma resolve_columns_total:
  assumes "space_tables u" "detect_header_row u py_str g = Inr h"
  shows "resolve_columns u py_str g h \<noteq> None"
proof -
  have h: "h < length g" "''pmf'' \<in> set (row_fields u py_str (g ! h))" using detect_header_row_Inr [OF assms(2)] by blast+
  then obtain v where "v \<in> set (g ! h)" "recognize u py_str v = Some ''pmf''" by (auto simp: row_fields_iff)
  then obtain c where c: "c < length (g ! h)" "recognize u py_str (g ! h ! c) = Some ''pmf''"
    by (auto simp: in_set_conv_nth)
  then have cell: "cell_at g h c = g ! h ! c" by (simp add: cell_at_def)
  have "\<not> blank_column py_str g h c"
    using recognize_visible [OF assms(1) c(2)] by (simp add: blank_column_def cell)
  then have "c \<in> set (concat (column_blocks (blank_column py_str g h) (grid_width g)))"
    using c(1) grid_width_ge [OF h(1)] by (simp only: column_blocks_split) auto
  then have "join_blocks (\<lambda>c. recognize u py_str (cell_at g h c)) (column_blocks (blank_column py_str g h) (grid_width g)) \<noteq> None"
    by (rule join_blocks_total) (simp add: cell c(2))
  then show ?thesis by (auto simp: resolve_columns_def Let_def)
qed

section \<open>Grouping the columns\<close>

lemma carpeta_assigned:
  assumes "resolve_carpeta_columns candidates business recognized = (assigned, issues)" "distinct candidates"
  shows "distinct (map fst assigned)" "(c, f) \<in> set assigned \<Longrightarrow> c \<in> set candidates \<and> carpeta_field business recognized c = Some f"
proof -
  let ?claims = "carpeta_claims candidates business recognized"
  have sub: "assigned = filter (\<lambda>(c, f). f \<notin> fst ` set (filter (\<lambda>(_, columns). length columns > 1)
      (map (\<lambda>(f, entries). (f, map fst entries)) (group_by snd ?claims)))) ?claims"
    using assms(1) by (simp add: resolve_carpeta_columns_def Let_def)
  have claims: "map fst ?claims = filter (\<lambda>c. carpeta_field business recognized c \<noteq> None) candidates"
    unfolding carpeta_claims_def by (induction candidates) (auto split: option.splits)
  have mem: "(c, f) \<in> set ?claims \<longleftrightarrow> c \<in> set candidates \<and> carpeta_field business recognized c = Some f" for c f
    unfolding carpeta_claims_def by (induction candidates) (auto split: option.splits)
  show "distinct (map fst assigned)" unfolding sub
    by (rule distinct_map_filter) (simp add: claims assms(2))
  show "(c, f) \<in> set assigned \<Longrightarrow> c \<in> set candidates \<and> carpeta_field business recognized c = Some f"
    unfolding sub using mem by auto
qed

text \<open>The groups are the columns of each field, in the order the fields are first met.\<close>

definition claimed :: "(nat \<Rightarrow> string option) \<Rightarrow> nat list \<Rightarrow> (nat \<times> string) list" where
  "claimed recognized business =
     map (\<lambda>c. (c, the (recognized c))) (filter (\<lambda>c. recognized c \<noteq> None \<and> recognized c \<noteq> Some bare_carpeta) business)
     @ fst (resolve_carpeta_columns (filter (\<lambda>c. recognized c = Some bare_carpeta) business) business recognized)"

lemma groups_of_pairs:
  "foldl (\<lambda>d (c, f). dict_append f c d) [] ps = map (\<lambda>(f, es). (f, map fst es)) (group_by snd ps)"
proof (induction ps rule: rev_induct)
  case (snoc p ps)
  then show ?case by (cases p) (simp add: group_by_snoc dict_append_map [where f = fst, symmetric])
qed simp

lemma group_columns_groups:
  "cg_groups (group_columns py_str g h recognized business)
    = map (\<lambda>(f, es). (f, map fst es)) (group_by snd (claimed recognized business))"
proof -
  let ?named = "filter (\<lambda>c. recognized c \<noteq> None \<and> recognized c \<noteq> Some bare_carpeta) business"
  have "group_by (\<lambda>c. the (recognized c)) ?named = foldl (\<lambda>d (c, f). dict_append f c d) [] (map (\<lambda>c. (c, the (recognized c))) ?named)"
    by (simp add: group_by_def foldl_map)
  then show ?thesis unfolding groups_of_pairs [symmetric]
    by (simp add: group_columns_def claimed_def Let_def split: prod.splits)
qed

lemma claimed_distinct:
  assumes "distinct business"
  shows "distinct (map fst (claimed recognized business))"
    and "(c, f) \<in> set (claimed recognized business) \<Longrightarrow> c \<in> set business
      \<and> (recognized c = Some f \<and> f \<noteq> bare_carpeta \<or> recognized c = Some bare_carpeta \<and> carpeta_field business recognized c = Some f)"
proof -
  let ?cand = "filter (\<lambda>c. recognized c = Some bare_carpeta) business"
  obtain assigned issues where r: "resolve_carpeta_columns ?cand business recognized = (assigned, issues)" by fastforce
  have dc: "distinct ?cand" using assms by simp
  note a = carpeta_assigned [OF r dc]
  have "map fst (claimed recognized business)
      = filter (\<lambda>c. recognized c \<noteq> None \<and> recognized c \<noteq> Some bare_carpeta) business @ map fst assigned"
    by (simp add: claimed_def r comp_def)
  moreover have "c \<in> set ?cand" if "c \<in> set (map fst assigned)" for c using that a(2) by fastforce
  ultimately show "distinct (map fst (claimed recognized business))" using assms a(1) by auto
  show "(c, f) \<in> set (claimed recognized business) \<Longrightarrow> c \<in> set business
      \<and> (recognized c = Some f \<and> f \<noteq> bare_carpeta \<or> recognized c = Some bare_carpeta \<and> carpeta_field business recognized c = Some f)"
    using a(2) by (auto simp: claimed_def r)
qed

section \<open>Choosing one column per field\<close>

definition undecided :: "grid \<Rightarrow> nat \<Rightarrow> nat list \<Rightarrow> bool" where
  "undecided g h columns \<longleftrightarrow> length columns > 1 \<and> list_ex (\<lambda>r. values_differ g r (sort columns)) (data_rows g h)"

lemma choose_step_columns:
  "ch_columns (choose_step py_str g h ch (f, cs))
    = (if undecided g h cs then ch_columns ch else AList.update f (hd (sort cs)) (ch_columns ch))"
  "set (ch_issues ch) \<subseteq> set (ch_issues (choose_step py_str g h ch (f, cs)))"
  "undecided g h cs \<Longrightarrow> \<exists>i \<in> set (ch_issues (choose_step py_str g h ch (f, cs))). li_severity i = Sev_error \<and> li_field i = Some f"
  by (auto simp: choose_step_def undecided_def Let_def filter_empty_conv list_ex_iff issue_def)

lemma mem_map_filter:
  "(f, c) \<in> set (map (\<lambda>(f, cs). (f, F cs)) (filter (\<lambda>(f, cs). Q cs) G)) \<Longrightarrow> \<exists>k. (f, k) \<in> set G \<and> Q k \<and> c = F k"
  by auto

lemma update_fresh: "k \<notin> fst ` set d \<Longrightarrow> AList.update k v d = d @ [(k, v)]"
  by (induction d) auto

lemma choose_issues: "set (ch_issues ch) \<subseteq> set (ch_issues (foldl (choose_step py_str g h) ch G))"
proof (induction G arbitrary: ch)
  case (Cons e G)
  have "set (ch_issues ch) \<subseteq> set (ch_issues (choose_step py_str g h ch e))"
    by (cases e) (simp add: choose_step_columns)
  with Cons show ?case by (metis foldl_Cons order_trans)
qed simp

lemma choose_all:
  assumes "distinct (map fst G)" "fst ` set G \<inter> fst ` set (ch_columns ch) = {}"
  shows "ch_columns (foldl (choose_step py_str g h) ch G)
      = ch_columns ch @ map (\<lambda>(f, cs). (f, hd (sort cs))) (filter (\<lambda>(f, cs). \<not> undecided g h cs) G)"
  using assms
proof (induction G arbitrary: ch)
  case (Cons e G)
  obtain f cs where e: "e = (f, cs)" by (cases e)
  let ?ch = "choose_step py_str g h ch (f, cs)"
  have upd: "ch_columns ?ch = (if undecided g h cs then ch_columns ch else ch_columns ch @ [(f, hd (sort cs))])"
    using Cons.prems(2) by (simp add: choose_step_columns update_fresh e)
  then have "fst ` set G \<inter> fst ` set (ch_columns ?ch) = {}" using Cons.prems by (auto simp: e)
  from Cons.IH [OF _ this] Cons.prems(1) upd show ?case by (simp add: e)
qed simp

section \<open>Missing fields\<close>

lemma missing_mono: "set issues \<subseteq> set (foldl (missing_step columns) issues specs)"
proof (induction specs arbitrary: issues)
  case (Cons spec specs)
  have "set issues \<subseteq> set (missing_step columns issues spec)" by (auto simp: missing_step_def)
  with Cons show ?case by (metis foldl_Cons order_trans)
qed simp

definition essential :: "field_spec_t \<Rightarrow> bool" where
  "essential spec \<longleftrightarrow> fs_tier spec = T_identity \<or> fs_tier spec = T_required"

lemma missing_essential:
  assumes "spec \<in> set specs" "essential spec" "fs_name spec \<notin> set carpeta_fields" "fs_name spec \<notin> fst ` set columns"
  shows "\<exists>i \<in> set (foldl (missing_step columns) issues specs). li_severity i = Sev_error"
  using assms(1)
proof (induction specs arbitrary: issues)
  case (Cons s specs)
  show ?case
  proof (cases "s = spec")
    case True
    have "\<exists>i \<in> set (missing_step columns issues spec). li_severity i = Sev_error"
      using assms(2-4) by (auto simp: missing_step_def missing_issue_def essential_def issue_def list_ex_iff split: tier.splits)
    then show ?thesis using missing_mono True by (simp, blast)
  next
    case False
    with Cons show ?thesis by simp
  qed
qed simp

lemma essential_not_carpeta: "spec \<in> set field_specs \<Longrightarrow> essential spec \<Longrightarrow> fs_name spec \<notin> set carpeta_fields"
proof -
  have "list_all (\<lambda>spec. essential spec \<longrightarrow> fs_name spec \<notin> set carpeta_fields) field_specs"
    by (simp add: field_specs_def field_spec_def essential_def carpeta_fields_def)
  then show "spec \<in> set field_specs \<Longrightarrow> essential spec \<Longrightarrow> fs_name spec \<notin> set carpeta_fields" by (auto simp: list_all_iff)
qed

section \<open>The columns that are read\<close>

lemma values_agree:
  assumes "\<not> undecided g h cs" "c \<in> set cs" "c' \<in> set cs" "r \<in> set (data_rows g h)"
  shows "eq_key c (comparable_cell (cell_at g r c)) = eq_key c' (comparable_cell (cell_at g r c'))"
proof (cases "length cs > 1")
  case True
  let ?keys = "map (\<lambda>c. eq_key c (comparable_cell (cell_at g r c))) (sort cs)"
  have "\<not> values_differ g r (sort cs)" using assms(1,4) True by (auto simp: undecided_def list_ex_iff)
  then have "card (set ?keys) \<le> 1" by (simp add: values_differ_def length_remdups_card_conv)
  moreover have "eq_key c (comparable_cell (cell_at g r c)) \<in> set ?keys" "eq_key c' (comparable_cell (cell_at g r c')) \<in> set ?keys"
    using assms(2,3) by auto
  ultimately show ?thesis by (metis card_le_Suc0_iff_eq One_nat_def List.finite_set)
next
  case False
  then show ?thesis using assms(2,3) by (cases cs) auto
qed

lemma values_disagree:
  assumes "undecided g h cs"
  shows "\<exists>c \<in> set cs. \<exists>c' \<in> set cs. \<exists>r \<in> set (data_rows g h).
    eq_key c (comparable_cell (cell_at g r c)) \<noteq> eq_key c' (comparable_cell (cell_at g r c'))"
proof (rule ccontr)
  assume n: "\<not> ?thesis"
  obtain r where r: "r \<in> set (data_rows g h)" "values_differ g r (sort cs)" using assms by (auto simp: undecided_def list_ex_iff)
  let ?keys = "map (\<lambda>c. eq_key c (comparable_cell (cell_at g r c))) (sort cs)"
  have eq: "eq_key c (comparable_cell (cell_at g r c)) = eq_key c' (comparable_cell (cell_at g r c'))" if "c \<in> set cs" "c' \<in> set cs" for c c'
    using n r(1) that by meson
  have "\<forall>x \<in> set ?keys. \<forall>y \<in> set ?keys. x = y"
  proof (intro ballI)
    fix x y assume "x \<in> set ?keys" "y \<in> set ?keys"
    then obtain c c' where "c \<in> set cs" "c' \<in> set cs" "x = eq_key c (comparable_cell (cell_at g r c))"
      "y = eq_key c' (comparable_cell (cell_at g r c'))" by auto
    then show "x = y" using eq [of c c'] by (simp only: simp_thms)
  qed
  then have "card (set ?keys) \<le> 1" using card_le_Suc0_iff_eq [OF List.finite_set, of ?keys] by (simp only: One_nat_def)
  with r(2) show False by (simp add: values_differ_def length_remdups_card_conv)
qed

lemma hd_sort_le: "c \<in> set cs \<Longrightarrow> hd (sort cs) \<in> set cs \<and> hd (sort cs) \<le> (c :: nat)"
proof -
  assume c: "c \<in> set cs"
  then have "sort cs \<noteq> []" by (metis empty_iff list.set(1) set_sort)
  then obtain x xs where x: "sort cs = x # xs" by (cases "sort cs") auto
  then have "sorted (x # xs)" "set (x # xs) = set cs" by (metis sorted_sort, metis set_sort)
  with c x show ?thesis by auto
qed

text \<open>What the choice keeps of the groups.\<close>

lemma chosen_columns:
  assumes "distinct business"
    and "ch = foldl (choose_step py_str g h) \<lparr>ch_columns = [], ch_decisions = d, ch_issues = is\<rparr>
      (cg_groups (group_columns py_str g h recognized business))"
  shows "distinct (map fst (ch_columns ch))" "distinct (map snd (ch_columns ch))"
    and "(f, c) \<in> set (ch_columns ch) \<Longrightarrow> (c, f) \<in> set (claimed recognized business)
      \<and> (\<forall>c'. (c', f) \<in> set (claimed recognized business) \<longrightarrow> c \<le> c'
          \<and> (\<forall>r \<in> set (data_rows g h). eq_key c (comparable_cell (cell_at g r c)) = eq_key c' (comparable_cell (cell_at g r c'))))"
    and "(k, f) \<in> set (claimed recognized business) \<Longrightarrow> f \<notin> fst ` set (ch_columns ch) \<Longrightarrow>
      \<exists>c c'. (c, f) \<in> set (claimed recognized business) \<and> (c', f) \<in> set (claimed recognized business)
        \<and> (\<exists>r \<in> set (data_rows g h). eq_key c (comparable_cell (cell_at g r c)) \<noteq> eq_key c' (comparable_cell (cell_at g r c')))"
proof -
  let ?G = "map (\<lambda>(f, es). (f, map fst es)) (group_by snd (claimed recognized business))"
  have G: "distinct (map fst ?G)" by (simp add: keys_group_by case_prod_beta comp_def)
  have cols: "ch_columns ch = map (\<lambda>(f, cs). (f, hd (sort cs))) (filter (\<lambda>(f, cs). \<not> undecided g h cs) ?G)"
    unfolding assms(2) group_columns_groups using choose_all [OF G] by simp
  have ent: "cs = map fst (filter (\<lambda>e. snd e = f) (claimed recognized business)) \<and> cs \<noteq> []" if mem: "(f, cs) \<in> set ?G" for f cs
  proof -
    obtain es where es: "cs = map fst es" "(f, es) \<in> set (group_by snd (claimed recognized business))" using mem by auto
    then obtain e where "e \<in> set (claimed recognized business)" "snd e = f" "es = filter (\<lambda>e. snd e = f) (claimed recognized business)"
      by (auto simp: group_by_entry)
    then have "e \<in> set es" "cs = map fst (filter (\<lambda>e. snd e = f) (claimed recognized business))" using es(1) by simp_all
    with es(1) show ?thesis by (metis list.map_disc_iff empty_iff list.set(1))
  qed
  have cs: "c \<in> set cs \<longleftrightarrow> (c, f) \<in> set (claimed recognized business)" if "(f, cs) \<in> set ?G" for f cs c
    using ent [OF that] by force
  show "distinct (map fst (ch_columns ch))"
    unfolding cols using G by (simp add: case_prod_beta comp_def distinct_map_filter)
  show pc: "(f, c) \<in> set (ch_columns ch) \<Longrightarrow> (c, f) \<in> set (claimed recognized business)
      \<and> (\<forall>c'. (c', f) \<in> set (claimed recognized business) \<longrightarrow> c \<le> c'
          \<and> (\<forall>r \<in> set (data_rows g h). eq_key c (comparable_cell (cell_at g r c)) = eq_key c' (comparable_cell (cell_at g r c'))))" for f c
  proof -
    assume "(f, c) \<in> set (ch_columns ch)"
    then obtain k where k: "(f, k) \<in> set ?G" "\<not> undecided g h k" "c = hd (sort k)"
      unfolding cols using mem_map_filter [of f c "\<lambda>cs. hd (sort cs)" "\<lambda>cs. \<not> undecided g h cs" ?G] by blast
    have "k \<noteq> []" using ent [OF k(1)] by blast
    then have "c \<in> set k" using hd_sort_le [of "hd k" k] k(3) by auto
    then show ?thesis using cs [OF k(1)] hd_sort_le [of _ k] k(3) values_agree [OF k(2)] by blast
  qed
  show "\<exists>c c'. (c, f) \<in> set (claimed recognized business) \<and> (c', f) \<in> set (claimed recognized business)
        \<and> (\<exists>r \<in> set (data_rows g h). eq_key c (comparable_cell (cell_at g r c)) \<noteq> eq_key c' (comparable_cell (cell_at g r c')))"
    if k: "(k, f) \<in> set (claimed recognized business)" "f \<notin> fst ` set (ch_columns ch)"
  proof -
    have "f \<in> set (map fst (group_by snd (claimed recognized business)))"
      unfolding keys_group_by using k(1) by force
    then obtain cs where m: "(f, cs) \<in> set ?G" by force
    have "undecided g h cs"
    proof (rule ccontr)
      assume "\<not> undecided g h cs"
      with m have "(f, hd (sort cs)) \<in> set (ch_columns ch)" unfolding cols by force
      with k(2) show False by force
    qed
    from values_disagree [OF this] cs [OF m] show ?thesis by blast
  qed
  have "inj_on snd (set (ch_columns ch))"
  proof (rule inj_onI)
    fix a b assume ab: "a \<in> set (ch_columns ch)" "b \<in> set (ch_columns ch)" "snd a = snd b"
    have "(snd a, fst a) \<in> set (claimed recognized business)" "(snd b, fst b) \<in> set (claimed recognized business)"
      using pc [of "fst a" "snd a", THEN conjunct1] pc [of "fst b" "snd b", THEN conjunct1] ab(1,2) by simp_all
    with ab(3) claimed_distinct(1) [OF assms(1), of recognized] have "fst a = fst b" by (metis eq_key_imp_eq_value)
    with ab(3) show "a = b" by (simp add: prod_eq_iff)
  qed
  moreover have "distinct (ch_columns ch)" using \<open>distinct (map fst (ch_columns ch))\<close> by (simp add: distinct_map)
  ultimately show "distinct (map snd (ch_columns ch))" by (simp add: distinct_map)
qed

lemma columns_essential:
  assumes "resolve_columns u py_str g h = Some lc" "list_all (\<lambda>i. li_severity i \<noteq> Sev_error) (lc_issues lc)"
    and "spec \<in> set field_specs" "essential spec"
  shows "fs_name spec \<in> fst ` set (lc_columns lc)"
proof -
  obtain issues where "lc_issues lc = foldl (missing_step (lc_columns lc)) issues field_specs"
    using assms(1) by (auto simp: resolve_columns_def Let_def)
  then show ?thesis
    using missing_essential [OF assms(3,4) essential_not_carpeta [OF assms(3,4)]] assms(2) unfolding list_all_iff by metis
qed


lemma recognize_name:
  assumes "ascii_tables u" "spec \<in> set field_specs" "name \<in> set (fs_header spec # fs_aliases spec)"
    and "ascii_header name \<noteq> []" "ascii_header name \<noteq> lit bare_carpeta"
  shows "recognize u py_str (VStr name) = Some (fs_name spec)"
proof -
  have "(fs_name spec, name) \<in> set alias_pairs" using assms(2,3) by (auto simp: alias_pairs_def)
  then have "fold_header u name = ascii_header name"
    using alias_names_ascii fold_header_ascii [OF assms(1)] by (auto simp: list_all_iff)
  then have n: "normalize_header u py_str (VStr name) = ascii_header name" "fold_header u name = ascii_header name"
    by (simp_all add: normalize_header_def integral_str_def str_value_def)
  show ?thesis unfolding recognize_iff [OF assms(1)] n(1) if_not_P [OF assms(5)]
    using assms(2-4) n(2) by (intro conjI bexI [of _ spec] bexI [of _ name]) simp_all
qed


end
