(* ===== verification/LayoutRows.thy ===== *)
theory LayoutRows
  imports Layout
begin

text \<open>
  The rows of \<open>resolve_resumen_layout\<close>: every cell of every data row is checked against its
  field's kind and the formula evidence, the findings are collected per field, and the result is
  the report and, when no finding is an error, the resolved rows.
\<close>

section \<open>Rows\<close>

record resolved_row =
  rw_number :: nat
  rw_values :: "(string, pyval) pydict"
  rw_text_dates :: "(string, text_date_evidence) pydict"

definition effective_value :: "resolved_row \<Rightarrow> string \<Rightarrow> pyval" where
  "effective_value r name =
     (case map_of (rw_text_dates r) name of
        Some ev \<Rightarrow> (case td_parsed ev of Some d \<Rightarrow> VDate d | None \<Rightarrow> VStr (td_raw ev))
      | None \<Rightarrow> ev_get (rw_values r) name)"

definition excel_error_values :: "pystr list" where
  "excel_error_values = map lit [''#N/A'', ''#REF!'', ''#VALUE!'', ''#DIV/0!'', ''#NAME?'', ''#NUM!'', ''#NULL!'', ''#SPILL!'', ''#CALC!'']"

text \<open>\<open>float(str(value).strip())\<close> succeeds; the text of a date, time or duration never is a number.\<close>

definition is_number_like :: "ucd \<Rightarrow> pyval \<Rightarrow> bool" where
  "is_number_like u v =
     (case v of
        VInt _ \<Rightarrow> True
      | VFloat _ \<Rightarrow> True
      | VStr s \<Rightarrow> float_of_text u (strip s) \<noteq> None
      | _ \<Rightarrow> False)"

definition is_date_value :: "pyval \<Rightarrow> bool" where
  "is_date_value v = (case v of VDate _ \<Rightarrow> True | VDateTime _ _ \<Rightarrow> True | _ \<Rightarrow> False)"

definition kind_of :: "string \<Rightarrow> field_kind" where
  "kind_of name = (case map_of field_by_name name of Some spec \<Rightarrow> fs_kind spec | None \<Rightarrow> K_text)"

record row_findings =
  rf_without_pmf :: "nat list"
  rf_filled :: "(string, nat) pydict"
  rf_bad_dates :: "(string, nat list) pydict"
  rf_text_dates :: "(string \<times> text_date_resolution, nat list) pydict"
  rf_bad_numbers :: "(string, nat list) pydict"
  rf_errors :: "(string, nat list) pydict"
  rf_uncached :: "(string, nat list) pydict"
  rf_cached :: "(string, nat) pydict"

record row_state =
  rs_mapped :: "(string, pyval) pydict"
  rs_text_dates :: "(string, text_date_evidence) pydict"
  rs_findings :: row_findings

definition note_formula :: "string \<Rightarrow> nat \<Rightarrow> cell_evidence option \<Rightarrow> row_findings \<Rightarrow> row_findings" where
  "note_formula name r evidence fnd =
     (case evidence of
        None \<Rightarrow> fnd
      | Some ev \<Rightarrow>
          (if ce_formula ev \<and> ce_cached ev then fnd\<lparr>rf_cached := count_bump (rf_cached fnd) name\<rparr>
           else if ce_formula ev then fnd\<lparr>rf_uncached := dict_append name (Suc r) (rf_uncached fnd)\<rparr>
           else fnd))"

text \<open>One cell of one row, in the order of the checks.\<close>

definition cell_step :: "ucd \<Rightarrow> formula_cells \<Rightarrow> grid \<Rightarrow> nat \<Rightarrow> row_state \<Rightarrow> string \<times> nat \<Rightarrow> row_state" where
  "cell_step u fc g r st entry =
     (let (name, column) = entry; v = cell_at g r column; evidence = fc (r, column);
          drop_value = (\<lambda>st. st\<lparr>rs_mapped := AList.update name VNone (rs_mapped st)\<rparr>);
          find_error = (\<lambda>fnd. fnd\<lparr>rf_errors := dict_append name (Suc r) (rf_errors fnd)\<rparr>);
          fnd = note_formula name r evidence (rs_findings st);
          filled = fnd\<lparr>rf_filled := count_bump (rf_filled fnd) name\<rparr>
      in if (case evidence of Some ev \<Rightarrow> ce_error ev | None \<Rightarrow> False) then
           drop_value (st\<lparr>rs_findings := find_error (rs_findings st)\<rparr>)
         else if is_blank v then drop_value (st\<lparr>rs_findings := fnd\<rparr>)
         else if (case v of VStr s \<Rightarrow> strip s \<in> set excel_error_values | _ \<Rightarrow> False) then
           drop_value (st\<lparr>rs_findings := find_error fnd\<rparr>)
         else if kind_of name = K_date \<and> \<not> is_date_value v then
           (case v of
              VStr s \<Rightarrow>
                (let ev = classify_text_date u s
                 in st\<lparr>rs_text_dates := AList.update name ev (rs_text_dates st),
                       rs_findings := filled\<lparr>rf_text_dates := dict_append (name, td_resolution ev) (Suc r) (rf_text_dates filled)\<rparr>\<rparr>)
            | _ \<Rightarrow> st\<lparr>rs_findings := filled\<lparr>rf_bad_dates := dict_append name (Suc r) (rf_bad_dates filled)\<rparr>\<rparr>)
         else if kind_of name = K_number \<and> \<not> is_number_like u v then
           st\<lparr>rs_findings := filled\<lparr>rf_bad_numbers := dict_append name (Suc r) (rf_bad_numbers filled)\<rparr>\<rparr>
         else st\<lparr>rs_findings := filled\<rparr>)"

definition chronology_issues :: "nat \<Rightarrow> (string, pyval) pydict \<Rightarrow> (string, nat) pydict \<Rightarrow> layout_issue list" where
  "chronology_issues number values columns =
     map (\<lambda>(earlier, later, code).
            (issue code Sev_warning (Some later)
               (map (\<lambda>name. column_letter (the (map_of columns name)))
                  (filter (\<lambda>name. name \<in> fst ` set columns) [earlier, later])))
              \<lparr>li_rows := [number], li_count := 1\<rparr>)
       (filter (\<lambda>(_, _, code). code \<in> set (chronology_flags values)) chronology_rules)"

record rows_state =
  rv_rows :: "resolved_row list"
  rv_findings :: row_findings
  rv_issues :: "layout_issue list"

definition row_step :: "ucd \<Rightarrow> formula_cells \<Rightarrow> grid \<Rightarrow> (string, nat) pydict \<Rightarrow> rows_state \<Rightarrow> nat \<Rightarrow> rows_state" where
  "row_step u fc g columns rs r =
     (let mapped = map (\<lambda>(name, c). (name, cell_at g r c)) columns
      in if list_all (\<lambda>(_, v). is_blank v) mapped then rs
         else if is_blank (cell_at g r (the (map_of columns ''pmf''))) then
           rs\<lparr>rv_findings := (rv_findings rs)\<lparr>rf_without_pmf := rf_without_pmf (rv_findings rs) @ [Suc r]\<rparr>\<rparr>
         else
           (let st = foldl (cell_step u fc g r) \<lparr>rs_mapped = mapped, rs_text_dates = [], rs_findings = rv_findings rs\<rparr> columns;
                row = \<lparr>rw_number = Suc r,
                       rw_values = map (\<lambda>spec. (fs_name spec, ev_get (rs_mapped st) (fs_name spec))) field_specs,
                       rw_text_dates = rs_text_dates st\<rparr>
            in \<lparr>rv_rows = rv_rows rs @ [row], rv_findings = rs_findings st,
                rv_issues = rv_issues rs @ chronology_issues (Suc r)
                  (map (\<lambda>name. (name, effective_value row name)) aef_tracking_names) columns\<rparr>))"

definition no_findings :: "(string, nat) pydict \<Rightarrow> row_findings" where
  "no_findings columns = \<lparr>rf_without_pmf = [], rf_filled = map (\<lambda>(name, _). (name, 0)) columns, rf_bad_dates = [],
     rf_text_dates = [], rf_bad_numbers = [], rf_errors = [], rf_uncached = [], rf_cached = []\<rparr>"

definition read_rows :: "ucd \<Rightarrow> formula_cells \<Rightarrow> grid \<Rightarrow> nat \<Rightarrow> (string, nat) pydict \<Rightarrow> layout_issue list \<Rightarrow> rows_state" where
  "read_rows u fc g h columns issues =
     foldl (row_step u fc g columns)
       \<lparr>rv_rows = [], rv_findings = no_findings columns, rv_issues = issues\<rparr> (data_rows g h)"

section \<open>Findings as issues\<close>

definition rows_issue :: "string \<Rightarrow> severity \<Rightarrow> nat option \<Rightarrow> (string, nat) pydict \<Rightarrow> string \<Rightarrow> nat list \<Rightarrow> layout_issue" where
  "rows_issue code severity limit columns name rows =
     (issue code severity (Some name) [column_letter (the (map_of columns name))])
       \<lparr>li_rows := fst (capped limit rows), li_count := snd (capped limit rows)\<rparr>"

definition text_date_issue :: "text_date_resolution \<Rightarrow> string \<times> severity" where
  "text_date_issue r =
     (case r of
        R_parsed_spanish_long \<Rightarrow> (''fecha_texto_interpretada'', Sev_info)
      | R_multiple_dates \<Rightarrow> (''fecha_texto_multiple'', Sev_warning)
      | R_placeholder \<Rightarrow> (''fecha_texto_guion'', Sev_warning)
      | R_unrecognized \<Rightarrow> (''fecha_no_reconocida'', Sev_warning))"

definition finding_issues :: "(string, nat) pydict \<Rightarrow> row_findings \<Rightarrow> layout_issue list" where
  "finding_issues columns f =
     (if rf_without_pmf f = [] then [] else [rows_issue ''fila_sin_pmf'' Sev_warning (Some 50) columns ''pmf'' (rf_without_pmf f)])
     @ map (\<lambda>((name, res), rows). rows_issue (fst (text_date_issue res)) (snd (text_date_issue res)) None columns name rows) (rf_text_dates f)
     @ map (\<lambda>(name, rows). rows_issue ''fecha_no_reconocida'' Sev_warning (Some 50) columns name rows) (rf_bad_dates f)
     @ map (\<lambda>(name, rows). rows_issue ''numero_no_reconocido'' Sev_warning (Some 50) columns name rows) (rf_bad_numbers f)
     @ map (\<lambda>(name, rows). rows_issue ''error_de_formula'' Sev_warning (Some 50) columns name rows) (rf_errors f)
     @ map (\<lambda>(name, rows). rows_issue ''formula_sin_valor'' Sev_warning (Some 50) columns name rows) (rf_uncached f)
     @ map (\<lambda>(name, n). (issue ''columna_con_formulas'' Sev_info (Some name) [column_letter (the (map_of columns name))])
              \<lparr>li_count := n\<rparr>) (rf_cached f)"

text \<open>A plan is a PMF value; equal numbers of different types are one plan.\<close>

definition rows_by_pmf :: "resolved_row list \<Rightarrow> (pyval \<times> nat, resolved_row list) pydict" where
  "rows_by_pmf rows = group_by (\<lambda>r. eq_key (rw_number r) (comparable_cell (ev_get (rw_values r) ''pmf''))) rows"

definition pmf_conflict_rows :: "resolved_row list \<Rightarrow> string \<Rightarrow> nat list list" where
  "pmf_conflict_rows rows name =
     concat (map (\<lambda>(_, rs). let f = resolve_pmf_field (map (\<lambda>r. (int (rw_number r), effective_value r name)) rs)
                             in if pf_status f = PConflict then [map nat (pf_rows f)] else []) (rows_by_pmf rows))"

definition pmf_conflict_issues :: "resolved_row list \<Rightarrow> (string, nat) pydict \<Rightarrow> layout_issue list" where
  "pmf_conflict_issues rows columns =
     concat (map (\<lambda>name. let affected = pmf_conflict_rows rows name
                         in if affected = [] then [] else [rows_issue ''aef_conflicto_pmf'' Sev_warning None columns name (concat affected)])
       (filter (\<lambda>name. name \<in> fst ` set columns) aef_tracking_names))"

section \<open>The resolution\<close>

record field_coverage =
  fc_field :: string
  fc_header :: pystr
  fc_tier :: tier
  fc_column :: "pystr option"
  fc_filled :: nat

record layout_report =
  lr_header_row :: "nat option"
  lr_business_rows :: nat
  lr_columns :: "column_decision list"
  lr_fields :: "field_coverage list"
  lr_regions :: "auxiliary_region list"
  lr_issues :: "layout_issue list"

record layout_resolution =
  lx_report :: layout_report
  lx_rows :: "resolved_row list"

definition severity_count :: "severity \<Rightarrow> layout_report \<Rightarrow> nat" where
  "severity_count s rep = length (filter (\<lambda>i. li_severity i = s) (lr_issues rep))"

definition has_errors :: "layout_report \<Rightarrow> bool" where
  "has_errors rep \<longleftrightarrow> severity_count Sev_error rep > 0"

definition first_error :: "layout_report \<Rightarrow> layout_issue option" where
  "first_error rep = find (\<lambda>i. li_severity i = Sev_error) (lr_issues rep)"

definition mapped_fields :: "layout_report \<Rightarrow> string list" where
  "mapped_fields rep = map fc_field (filter (\<lambda>c. fc_column c \<noteq> None) (lr_fields rep))"

definition coverage_of :: "(string, nat) pydict \<Rightarrow> (string, nat) pydict \<Rightarrow> field_coverage list" where
  "coverage_of columns counts =
     map (\<lambda>spec. \<lparr>fc_field = fs_name spec, fc_header = fs_header spec, fc_tier = fs_tier spec,
            fc_column = map_option column_letter (map_of columns (fs_name spec)),
            fc_filled = (case map_of counts (fs_name spec) of Some n \<Rightarrow> n | None \<Rightarrow> 0)\<rparr>) field_specs"

definition any_error :: "layout_issue list \<Rightarrow> bool" where
  "any_error issues \<longleftrightarrow> list_ex (\<lambda>i. li_severity i = Sev_error) issues"

text \<open>\<open>None\<close> is the assertion that the header row gives a PMF column.\<close>

definition resolve_resumen_layout :: "ucd \<Rightarrow> (pyval \<Rightarrow> pystr) \<Rightarrow> formula_cells \<Rightarrow> grid \<Rightarrow> layout_resolution option" where
  "resolve_resumen_layout u py_str fc g =
     (case detect_header_row u py_str g of
        Inl i \<Rightarrow> Some \<lparr>lx_report = \<lparr>lr_header_row = None, lr_business_rows = 0, lr_columns = [], lr_fields = coverage_of [] [],
                 lr_regions = [], lr_issues = [i]\<rparr>, lx_rows = []\<rparr>
      | Inr h \<Rightarrow>
          map_option (\<lambda>lc.
            let cols = lc_columns lc;
                report = (\<lambda>n counts issues. \<lparr>lr_header_row = Some (Suc h), lr_business_rows = n, lr_columns = lc_decisions lc,
                  lr_fields = coverage_of cols counts, lr_regions = lc_regions lc, lr_issues = issues\<rparr>)
            in if any_error (lc_issues lc) then \<lparr>lx_report = report 0 [] (lc_issues lc), lx_rows = []\<rparr>
               else (let rv = read_rows u fc g h cols (lc_issues lc); rows = rv_rows rv;
                         issues = rv_issues rv @ finding_issues cols (rv_findings rv) @ pmf_conflict_issues rows cols
                           @ (if rows = [] then [issue ''sin_filas_con_pmf'' Sev_error (Some ''pmf'')
                                [column_letter (the (map_of cols ''pmf''))]] else []);
                         rep = report (length rows) (rf_filled (rv_findings rv)) issues
                     in \<lparr>lx_report = rep, lx_rows = (if has_errors rep then [] else rows)\<rparr>))
            (resolve_columns u py_str g h))"

section \<open>The worksheet\<close>

definition find_resumen_sheet :: "ucd \<Rightarrow> pystr list \<Rightarrow> layout_issue + pystr" where
  "find_resumen_sheet u names =
     (case filter (\<lambda>n. fold_header u n = lit ''resumen'') names of
        [] \<Rightarrow> Inl (issue ''hoja_resumen_ausente'' Sev_error None [])
      | [n] \<Rightarrow> Inr n
      | _ \<Rightarrow> Inl (issue ''hoja_resumen_ambigua'' Sev_error None []))"

end
