(* ===== verification/LayoutGate.thy ===== *)
theory LayoutGate
  imports LayoutColumns LayoutRows
begin

text \<open>
  What \<open>resolve_resumen_layout\<close> guarantees about rows and about the report as a gate: each row is
  the cells of its columns, nothing is dropped in silence, and a report with an error yields no row.
\<close>

section \<open>One row\<close>

definition dropped :: "formula_cells \<Rightarrow> grid \<Rightarrow> nat \<Rightarrow> nat \<Rightarrow> bool" where
  "dropped fc g r c \<longleftrightarrow>
     (case fc (r, c) of Some ev \<Rightarrow> ce_error ev | None \<Rightarrow> False) \<or> is_blank (cell_at g r c)
     \<or> (case cell_at g r c of VStr s \<Rightarrow> strip s \<in> set excel_error_values | _ \<Rightarrow> False)"

definition clean_cell :: "formula_cells \<Rightarrow> grid \<Rightarrow> nat \<Rightarrow> nat \<Rightarrow> pyval" where
  "clean_cell fc g r c = (if dropped fc g r c then VNone else cell_at g r c)"

definition cell_text_date :: "ucd \<Rightarrow> formula_cells \<Rightarrow> grid \<Rightarrow> nat \<Rightarrow> string \<Rightarrow> nat \<Rightarrow> text_date_evidence option" where
  "cell_text_date u fc g r name c =
     (case clean_cell fc g r c of
        VStr s \<Rightarrow> (if kind_of name = K_date then Some (classify_text_date u s) else None)
      | _ \<Rightarrow> None)"

lemma cell_step_values:
  "rs_mapped (cell_step u fc g r st (n, c)) = (if dropped fc g r c then AList.update n VNone (rs_mapped st) else rs_mapped st)"
  by (simp add: cell_step_def dropped_def Let_def split: pyval.splits)

lemma cell_step_text_dates:
  "rs_text_dates (cell_step u fc g r st (n, c))
    = (case cell_text_date u fc g r n c of Some ev \<Rightarrow> AList.update n ev (rs_text_dates st) | None \<Rightarrow> rs_text_dates st)"
  by (simp add: cell_step_def cell_text_date_def clean_cell_def dropped_def is_date_value_def Let_def split: pyval.splits)

lemma cell_step_without_pmf [simp]:
  "rf_without_pmf (rs_findings (cell_step u fc g r st e)) = rf_without_pmf (rs_findings st)"
proof -
  have "rf_without_pmf (note_formula n r ev f) = rf_without_pmf f" for n ev f
    by (simp add: note_formula_def split: option.splits)
  then show ?thesis by (cases e) (simp add: cell_step_def Let_def split: pyval.splits)
qed

lemma row_values:
  assumes "distinct (map fst cols)"
  shows "map_of (rs_mapped (foldl (cell_step u fc g r) st cols)) n
    = (case map_of cols n of Some c \<Rightarrow> if dropped fc g r c then Some VNone else map_of (rs_mapped st) n
       | None \<Rightarrow> map_of (rs_mapped st) n)"
  using assms
proof (induction cols arbitrary: st)
  case (Cons e cols)
  obtain m c where e: "e = (m, c)" by (cases e)
  have "map_of cols m = None" using Cons.prems by (simp add: e map_of_eq_None_iff)
  with Cons show ?case by (auto simp: e cell_step_values update_conv' split: option.splits)
qed simp

lemma row_text_dates:
  assumes "distinct (map fst cols)"
  shows "map_of (rs_text_dates (foldl (cell_step u fc g r) st cols)) n
    = (case map_of cols n of None \<Rightarrow> map_of (rs_text_dates st) n
       | Some c \<Rightarrow> (case cell_text_date u fc g r n c of Some ev \<Rightarrow> Some ev | None \<Rightarrow> map_of (rs_text_dates st) n))"
  using assms
proof (induction cols arbitrary: st)
  case (Cons e cols)
  obtain m c where e: "e = (m, c)" by (cases e)
  have "map_of cols m = None" using Cons.prems by (simp add: e map_of_eq_None_iff)
  with Cons show ?case by (auto simp: e cell_step_text_dates update_conv' split: option.splits)
qed simp

lemma row_without_pmf [simp]:
  "rf_without_pmf (rs_findings (foldl (cell_step u fc g r) st cols)) = rf_without_pmf (rs_findings st)"
  by (induction cols arbitrary: st) simp_all

section \<open>All rows\<close>

definition kept :: "grid \<Rightarrow> nat \<Rightarrow> nat \<Rightarrow> bool" where
  "kept g pmf r \<longleftrightarrow> \<not> is_blank (cell_at g r pmf)"

definition lost :: "grid \<Rightarrow> (string, nat) pydict \<Rightarrow> nat \<Rightarrow> nat \<Rightarrow> bool" where
  "lost g cols pmf r \<longleftrightarrow> is_blank (cell_at g r pmf) \<and> (\<exists>(n, c) \<in> set cols. \<not> is_blank (cell_at g r c))"

definition row_ok :: "ucd \<Rightarrow> formula_cells \<Rightarrow> grid \<Rightarrow> (string, nat) pydict \<Rightarrow> resolved_row \<Rightarrow> bool" where
  "row_ok u fc g cols row \<longleftrightarrow>
     (\<forall>spec \<in> set field_specs.
        ev_get (rw_values row) (fs_name spec) = (case map_of cols (fs_name spec) of None \<Rightarrow> VNone
          | Some c \<Rightarrow> clean_cell fc g (rw_number row - 1) c)
        \<and> map_of (rw_text_dates row) (fs_name spec) = (case map_of cols (fs_name spec) of None \<Rightarrow> None
          | Some c \<Rightarrow> cell_text_date u fc g (rw_number row - 1) (fs_name spec) c))"

lemma ev_get_specs: "spec \<in> set field_specs \<Longrightarrow> ev_get (map (\<lambda>spec. (fs_name spec, f (fs_name spec))) field_specs) (fs_name spec) = f (fs_name spec)"
proof -
  assume "spec \<in> set field_specs"
  then have "map_of (map (\<lambda>spec. (fs_name spec, f (fs_name spec))) field_specs) (fs_name spec) = Some (f (fs_name spec))"
    using distinct_field_names by (intro map_of_is_SomeI) (auto simp: comp_def)
  then show ?thesis by (simp add: ev_get_def)
qed

lemma row_step_cases:
  assumes "distinct (map fst cols)" "map_of cols ''pmf'' = Some pmf"
  shows "kept g pmf r \<Longrightarrow> \<exists>row. rv_rows (row_step u fc g cols rs r) = rv_rows rs @ [row] \<and> rw_number row = Suc r \<and> row_ok u fc g cols row"
    and "\<not> kept g pmf r \<Longrightarrow> rv_rows (row_step u fc g cols rs r) = rv_rows rs"
    and "rf_without_pmf (rv_findings (row_step u fc g cols rs r))
      = rf_without_pmf (rv_findings rs) @ (if lost g cols pmf r then [Suc r] else [])"
proof -
  let ?mapped = "map (\<lambda>(name, c). (name, cell_at g r c)) cols"
  have pmf: "(''pmf'', pmf) \<in> set cols" using assms(2) by (rule map_of_SomeD)
  have blank: "list_all (\<lambda>(_, v). is_blank v) ?mapped \<longleftrightarrow> \<not> (\<exists>(n, c) \<in> set cols. \<not> is_blank (cell_at g r c))"
    by (auto simp: list_all_iff)
  have the: "the (map_of cols ''pmf'') = pmf" using assms(2) by simp
  show "\<not> kept g pmf r \<Longrightarrow> rv_rows (row_step u fc g cols rs r) = rv_rows rs"
    by (simp add: row_step_def Let_def the kept_def)
  show "rf_without_pmf (rv_findings (row_step u fc g cols rs r))
      = rf_without_pmf (rv_findings rs) @ (if lost g cols pmf r then [Suc r] else [])"
    using pmf by (auto simp: row_step_def Let_def the blank lost_def)
  assume k: "kept g pmf r"
  then have nb: "\<not> list_all (\<lambda>(_, v). is_blank v) ?mapped" "\<not> is_blank (cell_at g r pmf)"
    unfolding blank using pmf k by (auto simp: kept_def)
  define st where "st = foldl (cell_step u fc g r) \<lparr>rs_mapped = ?mapped, rs_text_dates = [], rs_findings = rv_findings rs\<rparr> cols"
  define row where "row = \<lparr>rw_number = Suc r, rw_values = map (\<lambda>spec. (fs_name spec, ev_get (rs_mapped st) (fs_name spec))) field_specs,
    rw_text_dates = rs_text_dates st\<rparr>"
  have "map_of ?mapped n = map_option (cell_at g r) (map_of cols n)" for n by (rule map_of_map_snd)
  then have "ev_get (rs_mapped st) n = (case map_of cols n of None \<Rightarrow> VNone | Some c \<Rightarrow> clean_cell fc g r c)"
    "map_of (rs_text_dates st) n = (case map_of cols n of None \<Rightarrow> None | Some c \<Rightarrow> cell_text_date u fc g r n c)" for n
    unfolding st_def ev_get_def row_values [OF assms(1)] row_text_dates [OF assms(1)]
    by (auto simp: clean_cell_def split: option.splits)
  moreover have "rw_number row - 1 = r" "rw_text_dates row = rs_text_dates st"
    "rw_values row = map (\<lambda>spec. (fs_name spec, ev_get (rs_mapped st) (fs_name spec))) field_specs" by (simp_all add: row_def)
  ultimately have "row_ok u fc g cols row"
    unfolding row_ok_def using ev_get_specs [of _ "ev_get (rs_mapped st)"] by (simp only:) simp
  moreover have "rv_rows (row_step u fc g cols rs r) = rv_rows rs @ [row]"
    using nb by (simp add: row_step_def Let_def the st_def row_def)
  ultimately show "\<exists>row. rv_rows (row_step u fc g cols rs r) = rv_rows rs @ [row] \<and> rw_number row = Suc r \<and> row_ok u fc g cols row"
    by (intro exI [of _ row]) (simp add: row_def)
qed

lemma rows_fold:
  assumes "distinct (map fst cols)" "map_of cols ''pmf'' = Some pmf"
  shows "\<forall>row \<in> set (rv_rows rs). row_ok u fc g cols row \<Longrightarrow>
    map rw_number (rv_rows (foldl (row_step u fc g cols) rs rows)) = map rw_number (rv_rows rs) @ map Suc (filter (kept g pmf) rows)
    \<and> (\<forall>row \<in> set (rv_rows (foldl (row_step u fc g cols) rs rows)). row_ok u fc g cols row)
    \<and> rf_without_pmf (rv_findings (foldl (row_step u fc g cols) rs rows))
      = rf_without_pmf (rv_findings rs) @ map Suc (filter (lost g cols pmf) rows)"
proof (induction rows arbitrary: rs)
  case (Cons r rows)
  note step = row_step_cases [OF assms, where r = r and rs = rs and u = u and fc = fc and g = g]
  show ?case
  proof (cases "kept g pmf r")
    case True
    with step(1) obtain row where row: "rv_rows (row_step u fc g cols rs r) = rv_rows rs @ [row]" "rw_number row = Suc r"
      "row_ok u fc g cols row" by blast
    then have "\<forall>row \<in> set (rv_rows (row_step u fc g cols rs r)). row_ok u fc g cols row" using Cons.prems by auto
    from Cons.IH [OF this] True row step(3) show ?thesis by simp
  next
    case False
    with step(2) Cons.prems have "\<forall>row \<in> set (rv_rows (row_step u fc g cols rs r)). row_ok u fc g cols row" by simp
    from Cons.IH [OF this] False step(2,3) show ?thesis by simp
  qed
qed simp

text \<open>
  C23. The rows read are exactly the cells: one row per data row with a PMF, in order and under its
  worksheet number; every field holds the cell of its column, emptied only for a blank, an Excel
  error text or a cell whose stored value is an error; text in a date column is classified; and
  every data row with data but no PMF is reported.
\<close>

theorem read_rows_exact:
  assumes "distinct (map fst cols)" and "map_of cols ''pmf'' = Some pmf"
  shows "map rw_number (rv_rows (read_rows u fc g h cols issues)) = map Suc (filter (\<lambda>r. \<not> is_blank (cell_at g r pmf)) (data_rows g h))
    \<and> (\<forall>row \<in> set (rv_rows (read_rows u fc g h cols issues)). row_ok u fc g cols row)
    \<and> rf_without_pmf (rv_findings (read_rows u fc g h cols issues)) = map Suc (filter (lost g cols pmf) (data_rows g h))"
  unfolding read_rows_def
  using rows_fold [OF assms, of "\<lparr>rv_rows = [], rv_findings = no_findings cols, rv_issues = issues\<rparr>" u fc g "data_rows g h"]
  by (simp add: no_findings_def kept_def [abs_def])

theorem read_rows_exact_witness:
  "map rw_number (rv_rows (read_rows latin_ucd (\<lambda>_. None) [[VStr (lit ''PMF'')], [VStr (lit ''P1'')], [VNone]] 0 [(''pmf'', 0)] [])) = [2]"
  using read_rows_exact [of "[(''pmf'', 0)]" 0 latin_ucd "\<lambda>_. None" "[[VStr (lit ''PMF'')], [VStr (lit ''P1'')], [VNone]]" 0 "[]"]
  by (simp add: data_rows_def cell_at_def is_blank_def strip_def strip_by_def is_space_def upt_rec)

section \<open>The gate\<close>

lemma has_errors_any: "has_errors rep \<longleftrightarrow> any_error (lr_issues rep)"
  by (auto simp: has_errors_def severity_count_def any_error_def list_ex_iff filter_empty_conv)

lemma resolve_shape:
  assumes "space_tables u"
  obtains (no_header) i where "detect_header_row u py_str g = Inl i" "li_severity i = Sev_error"
      "\<exists>res. resolve_resumen_layout u py_str fc g = Some res \<and> lx_rows res = [] \<and> lr_issues (lx_report res) = [i]
        \<and> lr_header_row (lx_report res) = None \<and> lr_business_rows (lx_report res) = 0"
    | (columns) h lc where "detect_header_row u py_str g = Inr h" "resolve_columns u py_str g h = Some lc" "any_error (lc_issues lc)"
      "\<exists>res. resolve_resumen_layout u py_str fc g = Some res \<and> lx_rows res = [] \<and> lr_issues (lx_report res) = lc_issues lc
        \<and> lr_header_row (lx_report res) = Some (Suc h) \<and> lr_business_rows (lx_report res) = 0"
    | (rows) h lc where "detect_header_row u py_str g = Inr h" "resolve_columns u py_str g h = Some lc" "\<not> any_error (lc_issues lc)"
      "\<exists>res. resolve_resumen_layout u py_str fc g = Some res
        \<and> lx_rows res = (if has_errors (lx_report res) then [] else rv_rows (read_rows u fc g h (lc_columns lc) (lc_issues lc)))
        \<and> lr_business_rows (lx_report res) = length (rv_rows (read_rows u fc g h (lc_columns lc) (lc_issues lc)))
        \<and> lr_header_row (lx_report res) = Some (Suc h)
        \<and> (rv_rows (read_rows u fc g h (lc_columns lc) (lc_issues lc)) = [] \<longrightarrow> has_errors (lx_report res))"
proof (cases "detect_header_row u py_str g")
  case (Inl i)
  then have "li_severity i = Sev_error" by (auto simp: detect_header_row_def Let_def issue_def split: if_splits)
  with Inl show thesis by (intro no_header) (auto simp: resolve_resumen_layout_def)
next
  case (Inr h)
  then obtain lc where lc: "resolve_columns u py_str g h = Some lc" using resolve_columns_total [OF assms] by blast
  show thesis
  proof (cases "any_error (lc_issues lc)")
    case True
    with Inr lc show thesis by (intro columns) (auto simp: resolve_resumen_layout_def Let_def)
  next
    case False
    with Inr lc show thesis
      by (intro rows) (auto simp: resolve_resumen_layout_def Let_def has_errors_any any_error_def issue_def)
  qed
qed

text \<open>
  C17. The resolution is a gate and never raises for a layout problem: it always returns a report; a
  report with an error carries no row; a report without one has a header row, a column for every
  identity and required field, and at least one row, and its rows are exactly those read from its
  columns, as many as it says.
\<close>

theorem layout_gate:
  assumes "space_tables u"
  shows "\<exists>res. resolve_resumen_layout u py_str fc g = Some res
    \<and> (has_errors (lx_report res) \<longrightarrow> lx_rows res = [])
    \<and> (\<not> has_errors (lx_report res) \<longrightarrow>
        (\<exists>h lc. lr_header_row (lx_report res) = Some (Suc h) \<and> resolve_columns u py_str g h = Some lc
          \<and> (\<forall>spec \<in> set field_specs. essential spec \<longrightarrow> fs_name spec \<in> fst ` set (lc_columns lc))
          \<and> lx_rows res = rv_rows (read_rows u fc g h (lc_columns lc) (lc_issues lc))
          \<and> lx_rows res \<noteq> [] \<and> lr_business_rows (lx_report res) = length (lx_rows res)))"
  using assms
proof (cases rule: resolve_shape [of u py_str g fc])
  case (no_header i)
  then show ?thesis by (auto simp: has_errors_any any_error_def)
next
  case (columns h lc)
  then show ?thesis by (auto simp: has_errors_any)
next
  case (rows h lc)
  have "\<forall>spec \<in> set field_specs. essential spec \<longrightarrow> fs_name spec \<in> fst ` set (lc_columns lc)"
    using columns_essential [OF rows(2)] rows(3) by (simp add: any_error_def list_all_iff list_ex_iff)
  with rows(2,4) show ?thesis by auto
qed

theorem layout_gate_witness:
  "\<exists>res. resolve_resumen_layout latin_ucd (\<lambda>_. []) (\<lambda>_. None) [] = Some res \<and> lx_rows res = []"
  using layout_gate [OF space_tables_latin, of "\<lambda>_. []" "\<lambda>_. None" "[]"]
  by (auto simp: resolve_resumen_layout_def detect_header_row_def header_scores_def)

end
