(* ===== verification/Json.thy ===== *)
theory Json
  imports PyValue
begin

text \<open>
  What \<open>json.loads\<close> and the database driver make of a JSON text, with Python's \<open>==\<close>.
\<close>

section \<open>JSON values\<close>

text \<open>What \<open>jsonb\<close> decodes to, with Python's \<open>==\<close>: numbers and booleans compare by value.\<close>

datatype json = JNull | JBool bool | JInt int | JFloat pyfloat | JStr pystr | JList "json list"
  | JObj "(pystr \<times> json) list"

definition json_number :: "json \<Rightarrow> pyfloat option" where
  "json_number j =
     (case j of JBool b \<Rightarrow> Some (Fin (if b then 1 else 0)) | JInt i \<Rightarrow> Some (Fin (of_int i))
      | JFloat x \<Rightarrow> Some x | _ \<Rightarrow> None)"

lemma json_size_elem: "x \<in> set xs \<Longrightarrow> size x < size (JList xs)"
  by (induction xs) auto

lemma json_size_entry: "(k, v) \<in> set d \<Longrightarrow> size v < size (JObj d)"
  by (induction d) auto

function json_eq :: "json \<Rightarrow> json \<Rightarrow> bool" where
  "json_eq x y =
     (case (x, y) of
        (JNull, JNull) \<Rightarrow> True
      | (JStr s, JStr t) \<Rightarrow> s = t
      | (JList xs, JList ys) \<Rightarrow> length xs = length ys \<and> list_all (\<lambda>(a, b). json_eq a b) (zip xs ys)
      | (JObj d, JObj e) \<Rightarrow> length d = length e \<and>
          list_all (\<lambda>(k, v). case map_of e k of Some w \<Rightarrow> json_eq v w | None \<Rightarrow> False) d
      | _ \<Rightarrow> (case (json_number x, json_number y) of
                 (Some a, Some b) \<Rightarrow> a = b \<and> a \<noteq> NaN | _ \<Rightarrow> False))"
  by pat_completeness auto

termination
  by (relation "measure (\<lambda>(x, y). size x)") (auto dest: set_zip_leftD json_size_elem json_size_entry)

declare json_eq.simps [simp del]

end
