(* ===== verification/Access.thy ===== *)
theory Access
  imports Json
begin

text \<open>
  Who may do what on the platform: the roles of \<open>app/access.py\<close>, the configured grants of
  \<open>app/config.py\<close>, the tables of \<open>app/access_repository.py\<close>, \<open>app/audit.py\<close> and
  \<open>app/session_store.py\<close> with their operations, and the checks of \<open>app/deps.py\<close> and
  \<open>app/routers/access_admin.py\<close>. Each operation is one transaction; an error leaves the tables as
  they were. SHA-256 is a parameter.
\<close>

section \<open>Roles\<close>

datatype role = Admin | Operator | Viewer

datatype action = View | Upload | Process | Retry | Publish | Edit | Approve | Manage_access

definition allowed :: "(role \<times> action) list" where
  "allowed =
     [(Admin, View), (Admin, Upload), (Admin, Process), (Admin, Retry), (Admin, Publish), (Admin, Edit),
      (Admin, Manage_access), (Admin, Approve), (Operator, View), (Operator, Upload), (Operator, Process),
      (Operator, Retry), (Operator, Publish), (Operator, Edit), (Viewer, View)]"

definition can :: "role option \<Rightarrow> action \<Rightarrow> bool" where
  "can r a = (case r of None \<Rightarrow> False | Some r \<Rightarrow> (r, a) \<in> set allowed)"

section \<open>Configured grants\<close>

datatype app_env = Development | Test | Staging | Production

datatype api_error = Bad_request | Not_authenticated | Forbidden | Not_found | Unprocessable | Unavailable
  | Config_error | Integrity_error | Multiple_results | No_result | Dev_auth_disabled | Type_error | Value_error

record settings =
  cf_env :: app_env
  cf_workspace :: pystr
  cf_transelec_admin :: "pystr option"
  cf_bootstrap_admins :: "pystr option"
  cf_external :: "pystr option"
  cf_admin_tenant :: "pystr option"
  cf_admin_object :: "pystr option"
  cf_encryption_key :: "pystr option"
  cf_csrf_origins :: "pystr option"

definition product_keys :: "pystr list" where
  "product_keys = [lit ''lidar'', lit ''forestry'', lit ''transelect'']"

definition config_entries :: "pystr option \<Rightarrow> pystr list" where
  "config_entries value =
     filter (\<lambda>e. e \<noteq> []) (map strip (split_char 44 (case value of Some v \<Rightarrow> v | None \<Rightarrow> [])))"

definition parse_admin_entry :: "ucd \<Rightarrow> pystr \<Rightarrow> api_error + pystr \<times> pystr" where
  "parse_admin_entry u entry =
     (case partition_char 58 entry of (product, sep, email) \<Rightarrow>
        let product = strip product; email = strip email
        in if \<not> sep \<or> email = [] \<or> 64 \<notin> set email then Inl Config_error
           else if product \<notin> set product_keys then Inl Config_error
           else Inr (product, casefold u email))"

definition parse_bootstrap_admins :: "ucd \<Rightarrow> pystr option \<Rightarrow> api_error + (pystr \<times> pystr) list" where
  "parse_bootstrap_admins u value = traverse (parse_admin_entry u) (config_entries value)"

definition external_role :: "pystr \<Rightarrow> role option" where
  "external_role s =
     (if s = lit ''operator'' then Some Operator else if s = lit ''viewer'' then Some Viewer else None)"

definition parse_external_entry :: "ucd \<Rightarrow> (pystr \<times> role \<times> pystr) list \<Rightarrow> pystr
    \<Rightarrow> api_error + (pystr \<times> role \<times> pystr) list" where
  "parse_external_entry u entries entry =
     (case map strip (split_char 58 entry) of
        [product, role, email] \<Rightarrow>
          if product = [] \<or> role = [] \<or> email = [] \<or> 64 \<notin> set email then Inl Config_error
          else if product \<notin> set product_keys then Inl Config_error
          else (case external_role (casefold u role) of
                  None \<Rightarrow> Inl Config_error
                | Some r \<Rightarrow>
                    if (product, casefold u email) \<in> set (map (\<lambda>(p, _, e). (p, e)) entries) then Inl Config_error
                    else Inr (entries @ [(product, r, casefold u email)]))
      | _ \<Rightarrow> Inl Config_error)"

definition parse_external_accounts :: "ucd \<Rightarrow> pystr option \<Rightarrow> api_error + (pystr \<times> role \<times> pystr) list" where
  "parse_external_accounts u value = fold_result (parse_external_entry u) [] (config_entries value)"

definition external_account_emails :: "ucd \<Rightarrow> settings \<Rightarrow> api_error + pystr list" where
  "external_account_emails u cf =
     bind_result (parse_external_accounts u (cf_external cf)) (\<lambda>es. Inr (map (\<lambda>(_, _, e). e) es))"

text \<open>What \<open>Settings\<close> validates when it is built.\<close>

definition settings_valid :: "ucd \<Rightarrow> settings \<Rightarrow> bool" where
  "settings_valid u cf \<longleftrightarrow> (\<exists>x. parse_bootstrap_admins u (cf_bootstrap_admins cf) = Inr x)
     \<and> (\<exists>x. parse_external_accounts u (cf_external cf) = Inr x)"

section \<open>Tables\<close>

record app_user =
  au_id :: int
  au_kind :: pystr
  au_key :: pystr
  au_display :: pystr
  au_email :: "pystr option"

datatype grant_via = Via_bootstrap_email | Via_bootstrap_config | Via_external_config | Via_admin_api

datatype audit_event =
    Grant_changed "int option" pystr int "role option" role grant_via
  | Session_created int

record session =
  ss_hash :: pystr
  ss_user :: int
  ss_expires :: int
  ss_seen :: int

record graph_grant =
  gg_access :: pystr
  gg_refresh :: pystr
  gg_scope :: pystr
  gg_expires :: int
  gg_granted :: int

record platform =
  pl_users :: "app_user list"
  pl_grants :: "(int \<times> pystr, role) pydict"
  pl_audit :: "audit_event list"
  pl_sessions :: "session list"
  pl_dev :: "(pystr, pystr) pydict"
  pl_graph :: "(int, graph_grant) pydict"
  pl_next :: int
  pl_now :: int

section \<open>Users and grants\<close>

definition user_by_identity :: "platform \<Rightarrow> pystr \<Rightarrow> pystr \<Rightarrow> app_user option" where
  "user_by_identity pl kind key = find (\<lambda>r. au_kind r = kind \<and> au_key r = key) (pl_users pl)"

text \<open>The tables refuse a text without a character other than the space: \<open>btrim(x) <> ''\<close>.\<close>

definition blank_text :: "pystr \<Rightarrow> bool" where
  "blank_text s = (strip_by (\<lambda>c. c = 32) s = [])"

text \<open>
  An \<open>INSERT ... ON CONFLICT DO NOTHING\<close> checks the constraints first. The identity column may
  skip numbers in the database; here it does not.
\<close>

definition resolve_or_create_app_user :: "pystr \<Rightarrow> pystr \<Rightarrow> pystr \<Rightarrow> pystr option \<Rightarrow> platform
    \<Rightarrow> api_error + app_user \<times> platform" where
  "resolve_or_create_app_user kind key display email pl =
     (if blank_text kind \<or> blank_text key \<or> blank_text display
         \<or> (case email of Some e \<Rightarrow> blank_text e | None \<Rightarrow> False)
      then Inl Integrity_error
      else case user_by_identity pl kind key of
        Some r \<Rightarrow> Inr (r, pl)
      | None \<Rightarrow>
          let r = \<lparr>au_id = pl_next pl, au_kind = kind, au_key = key, au_display = display, au_email = email\<rparr>
          in Inr (r, pl\<lparr>pl_users := pl_users pl @ [r], pl_next := pl_next pl + 1\<rparr>))"

definition get_app_user_by_email :: "platform \<Rightarrow> pystr \<Rightarrow> api_error + app_user option" where
  "get_app_user_by_email pl email =
     (case filter (\<lambda>r. au_email r = Some email) (pl_users pl) of
        [] \<Rightarrow> Inr None | [r] \<Rightarrow> Inr (Some r) | _ \<Rightarrow> Inl Multiple_results)"

definition grant_product_role :: "int \<Rightarrow> pystr \<Rightarrow> role \<Rightarrow> platform \<Rightarrow> api_error + platform" where
  "grant_product_role uid product r pl =
     (if product \<notin> set product_keys \<or> uid \<notin> set (map au_id (pl_users pl)) then Inl Integrity_error
      else Inr (pl\<lparr>pl_grants := AList.update (uid, product) r (pl_grants pl)\<rparr>))"

definition get_product_role :: "platform \<Rightarrow> int \<Rightarrow> pystr \<Rightarrow> role option" where
  "get_product_role pl uid product = map_of (pl_grants pl) (uid, product)"

definition list_grants_for_user :: "platform \<Rightarrow> int \<Rightarrow> (pystr \<times> role) list" where
  "list_grants_for_user pl uid =
     sort_key fst (map (\<lambda>((_, p), r). (p, r)) (filter (\<lambda>((i, _), _). i = uid) (pl_grants pl)))"

definition product_has_admin :: "platform \<Rightarrow> pystr \<Rightarrow> bool" where
  "product_has_admin pl product = list_ex (\<lambda>((_, p), r). p = product \<and> r = Admin) (pl_grants pl)"

definition other_identity_holds_email :: "ucd \<Rightarrow> platform \<Rightarrow> pystr \<Rightarrow> pystr \<Rightarrow> pystr \<Rightarrow> bool" where
  "other_identity_holds_email u pl kind key email =
     list_ex (\<lambda>r. au_kind r = kind \<and> au_key r \<noteq> key
                \<and> (case au_email r of Some e \<Rightarrow> lower u e = casefold u (strip email) | None \<Rightarrow> False))
       (pl_users pl)"

definition record_audit_event :: "audit_event \<Rightarrow> platform \<Rightarrow> platform" where
  "record_audit_event e pl = pl\<lparr>pl_audit := pl_audit pl @ [e]\<rparr>"

section \<open>Bootstrap grants\<close>

definition grant_all :: "int \<Rightarrow> role \<Rightarrow> pystr list \<Rightarrow> platform \<Rightarrow> api_error + platform" where
  "grant_all uid r products pl = fold_result (\<lambda>pl p. grant_product_role uid p r pl) pl products"

definition maybe_grant_bootstrap_admin :: "settings \<Rightarrow> pystr \<Rightarrow> pystr \<Rightarrow> int \<Rightarrow> platform
    \<Rightarrow> api_error + bool \<times> platform" where
  "maybe_grant_bootstrap_admin cf tenant object uid pl =
     (case (cf_admin_tenant cf, cf_admin_object cf) of
        (Some t, Some o') \<Rightarrow>
          if t = [] \<or> o' = [] then Inr (False, pl)
          else if t \<noteq> tenant \<or> o' \<noteq> object then Inr (False, pl)
          else if list_grants_for_user pl uid \<noteq> [] then Inr (False, pl)
          else bind_result (grant_all uid Admin product_keys pl) (\<lambda>pl. Inr (True, pl))
      | _ \<Rightarrow> Inr (False, pl))"

definition maybe_grant_transelec_bootstrap_admin :: "ucd \<Rightarrow> settings \<Rightarrow> pystr \<Rightarrow> int \<Rightarrow> platform
    \<Rightarrow> api_error + bool \<times> platform" where
  "maybe_grant_transelec_bootstrap_admin u cf email uid pl =
     (case cf_transelec_admin cf of
        None \<Rightarrow> Inr (False, pl)
      | Some configured \<Rightarrow>
          if configured = [] then Inr (False, pl)
          else if casefold u (strip configured) \<noteq> casefold u (strip email) then Inr (False, pl)
          else if list_grants_for_user pl uid \<noteq> [] then Inr (False, pl)
          else bind_result (grant_product_role uid (lit ''transelect'') Admin pl) (\<lambda>pl.
                 Inr (True, record_audit_event
                   (Grant_changed None (lit ''transelect'') uid None Admin Via_bootstrap_email) pl)))"

definition configured_admin_step :: "pystr \<Rightarrow> int \<Rightarrow> pystr list \<times> platform \<Rightarrow> pystr \<times> pystr
    \<Rightarrow> api_error + pystr list \<times> platform" where
  "configured_admin_step email uid gp entry =
     (case (gp, entry) of ((granted, pl), (product, configured)) \<Rightarrow>
        if configured \<noteq> email then Inr (granted, pl)
        else if get_product_role pl uid product \<noteq> None then Inr (granted, pl)
        else if product_has_admin pl product then Inr (granted, pl)
        else bind_result (grant_product_role uid product Admin pl) (\<lambda>pl.
               Inr (granted @ [product],
                    record_audit_event (Grant_changed None product uid None Admin Via_bootstrap_config) pl)))"

definition maybe_grant_configured_product_admins :: "ucd \<Rightarrow> settings \<Rightarrow> pystr \<Rightarrow> int \<Rightarrow> platform
    \<Rightarrow> api_error + pystr list \<times> platform" where
  "maybe_grant_configured_product_admins u cf email uid pl =
     bind_result (parse_bootstrap_admins u (cf_bootstrap_admins cf)) (\<lambda>entries.
       fold_result (configured_admin_step (casefold u (strip email)) uid) ([], pl) entries)"

definition external_step :: "pystr \<Rightarrow> int \<Rightarrow> pystr list \<times> platform \<Rightarrow> pystr \<times> role \<times> pystr
    \<Rightarrow> api_error + pystr list \<times> platform" where
  "external_step email uid gp entry =
     (case (gp, entry) of ((granted, pl), (product, r, configured)) \<Rightarrow>
        if configured \<noteq> email then Inr (granted, pl)
        else if get_product_role pl uid product \<noteq> None then Inr (granted, pl)
        else bind_result (grant_product_role uid product r pl) (\<lambda>pl.
               Inr (granted @ [product],
                    record_audit_event (Grant_changed None product uid None r Via_external_config) pl)))"

definition maybe_grant_external_accounts :: "ucd \<Rightarrow> settings \<Rightarrow> pystr \<Rightarrow> int \<Rightarrow> platform
    \<Rightarrow> api_error + pystr list \<times> platform" where
  "maybe_grant_external_accounts u cf email uid pl =
     bind_result (parse_external_accounts u (cf_external cf)) (\<lambda>entries.
       fold_result (external_step (casefold u (strip email)) uid) ([], pl) entries)"

section \<open>Sessions\<close>

definition create_session :: "(pystr \<Rightarrow> pystr) \<Rightarrow> pystr \<Rightarrow> int \<Rightarrow> int \<Rightarrow> platform \<Rightarrow> api_error + platform" where
  "create_session sha256 secret uid ttl pl =
     (if blank_text (sha256 secret) \<or> sha256 secret \<in> set (map ss_hash (pl_sessions pl))
         \<or> uid \<notin> set (map au_id (pl_users pl))
      then Inl Integrity_error
      else Inr (pl\<lparr>pl_sessions := pl_sessions pl @
             [\<lparr>ss_hash = sha256 secret, ss_user = uid, ss_expires = pl_now pl + ttl, ss_seen = pl_now pl\<rparr>]\<rparr>))"

definition resolve_session :: "(pystr \<Rightarrow> pystr) \<Rightarrow> pystr \<Rightarrow> platform \<Rightarrow> int option \<times> platform" where
  "resolve_session sha256 secret pl =
     (let live = (\<lambda>s. ss_hash s = sha256 secret \<and> ss_expires s > pl_now pl)
      in (map_option ss_user (find live (pl_sessions pl)),
          pl\<lparr>pl_sessions := map (\<lambda>s. if live s then s\<lparr>ss_seen := pl_now pl\<rparr> else s) (pl_sessions pl)\<rparr>))"

definition clear_session :: "(pystr \<Rightarrow> pystr) \<Rightarrow> pystr \<Rightarrow> platform \<Rightarrow> platform" where
  "clear_session sha256 secret pl =
     pl\<lparr>pl_sessions := filter (\<lambda>s. ss_hash s \<noteq> sha256 secret) (pl_sessions pl)\<rparr>"

section \<open>Checks of a request\<close>

definition ensure_can :: "platform \<Rightarrow> int \<Rightarrow> pystr \<Rightarrow> action \<Rightarrow> api_error + role" where
  "ensure_can pl uid product a =
     (let r = get_product_role pl uid product
      in if \<not> can r a then Inl Forbidden else Inr (the r))"

definition is_external :: "ucd \<Rightarrow> settings \<Rightarrow> app_user \<Rightarrow> api_error + bool" where
  "is_external u cf r =
     (let email = casefold u (strip (case au_email r of Some e \<Rightarrow> e | None \<Rightarrow> []))
      in bind_result (external_account_emails u cf) (\<lambda>emails.
           if email \<in> set emails then Inr True
           else Inr (au_kind r = lit ''google''
                     \<and> \<not> ends_with (64 # casefold u (strip (cf_workspace cf))) email)))"

definition external_grant_allowed :: "ucd \<Rightarrow> settings \<Rightarrow> pystr \<Rightarrow> pystr \<Rightarrow> role \<Rightarrow> api_error + bool" where
  "external_grant_allowed u cf email product r =
     (if r = Admin then Inr False
      else bind_result (parse_external_accounts u (cf_external cf)) (\<lambda>entries.
             Inr (product \<in> set (map fst (filter (\<lambda>(_, _, e). e = casefold u (strip email)) entries)))))"

text \<open>\<open>POST /auth/admin/product-grants/{product_key}\<close>, after the session and the CSRF checks.\<close>

definition grant_product_role_by_email :: "ucd \<Rightarrow> settings \<Rightarrow> int \<Rightarrow> pystr \<Rightarrow> pystr \<Rightarrow> role \<Rightarrow> platform
    \<Rightarrow> api_error + platform" where
  "grant_product_role_by_email u cf caller product email r pl =
     bind_result (ensure_can pl caller product Manage_access) (\<lambda>_.
     bind_result (get_app_user_by_email pl email) (\<lambda>found.
       case found of
         None \<Rightarrow> Inl Not_found
       | Some target \<Rightarrow>
           bind_result (is_external u cf target) (\<lambda>external.
           bind_result (if external
                        then external_grant_allowed u cf (case au_email target of Some e \<Rightarrow> e | None \<Rightarrow> []) product r
                        else Inr True) (\<lambda>ok.
             if \<not> ok then Inl Forbidden
             else bind_result (grant_product_role (au_id target) product r pl) (\<lambda>pl'.
                    Inr (record_audit_event (Grant_changed (Some caller) product (au_id target)
                           (get_product_role pl (au_id target) product) r Via_admin_api) pl'))))))"

end
