(* ===== verification/Jobs.thy ===== *)
theory Jobs
  imports PyText Access
begin

text \<open>
  \<open>app/jobs.py\<close>, the durable job queue, with the guard of \<open>app/execution.py\<close>, the worker step
  of \<open>app/worker.py\<close> and the retry of a failed job in \<open>app/routers/ingestion.py\<close>. The state is the two tables the functions touch and the
  database clock; each operation is one transaction. \<open>FOR UPDATE SKIP LOCKED\<close> is the set of
  job ids other transactions hold, passed to the claim. Among jobs of one creation instant the
  order is the table's.
\<close>

section \<open>Tables\<close>

datatype job_status = J_queued | J_running | J_succeeded | J_failed

datatype attempt_status = A_running | A_succeeded | A_failed

record job =
  jb_id :: int
  jb_run :: int
  jb_product :: pystr
  jb_status :: job_status
  jb_attempts :: int
  jb_max :: int
  jb_error :: "pystr option"
  jb_created :: int
  jb_started :: "int option"
  jb_finished :: "int option"
  jb_owner :: "pystr option"
  jb_expires :: "int option"

record attempt =
  at_job :: int
  at_number :: int
  at_worker :: pystr
  at_status :: attempt_status
  at_error :: "pystr option"
  at_finished :: "int option"

record queue =
  qu_now :: int
  qu_jobs :: "job list"
  qu_attempts :: "attempt list"
  qu_next :: int

record claimed_job =
  cj_id :: int
  cj_run :: int
  cj_product :: pystr
  cj_attempts :: int
  cj_snapshot :: int
  cj_key :: "pystr option"

section \<open>Operations\<close>

definition update_job :: "int \<Rightarrow> (job \<Rightarrow> job) \<Rightarrow> queue \<Rightarrow> queue" where
  "update_job i f q = q\<lparr>qu_jobs := map (\<lambda>j. if jb_id j = i then f j else j) (qu_jobs q)\<rparr>"

definition find_job :: "int \<Rightarrow> queue \<Rightarrow> job option" where
  "find_job i q = find (\<lambda>j. jb_id j = i) (qu_jobs q)"

definition enqueue_processing_job :: "int \<Rightarrow> pystr \<Rightarrow> queue \<Rightarrow> int \<times> queue" where
  "enqueue_processing_job run product q =
     (qu_next q,
      q\<lparr>qu_jobs := qu_jobs q @ [\<lparr>jb_id = qu_next q, jb_run = run, jb_product = product,
            jb_status = J_queued, jb_attempts = 0, jb_max = 3, jb_error = None,
            jb_created = qu_now q, jb_started = None, jb_finished = None, jb_owner = None,
            jb_expires = None\<rparr>],
        qu_next := qu_next q + 1\<rparr>)"

definition claimable :: "int \<Rightarrow> job \<Rightarrow> bool" where
  "claimable now j \<longleftrightarrow> jb_status j = J_queued
     \<or> jb_status j = J_running \<and> (case jb_expires j of None \<Rightarrow> False | Some t \<Rightarrow> t < now)"

definition next_claim :: "int set \<Rightarrow> queue \<Rightarrow> job option" where
  "next_claim locked q =
     (case sort_key jb_created (filter (\<lambda>j. claimable (qu_now q) j \<and> jb_id j \<notin> locked) (qu_jobs q)) of
        [] \<Rightarrow> None | j # _ \<Rightarrow> Some j)"

definition lease :: "pystr \<Rightarrow> int \<Rightarrow> int \<Rightarrow> job \<Rightarrow> job" where
  "lease worker secs now j =
     j\<lparr>jb_status := J_running, jb_owner := Some worker, jb_expires := Some (now + secs),
       jb_started := (case jb_started j of None \<Rightarrow> Some now | Some t \<Rightarrow> Some t),
       jb_attempts := jb_attempts j + 1\<rparr>"

text \<open>\<open>ON CONFLICT (processing_job_id, attempt_number) DO NOTHING\<close>.\<close>

definition insert_attempt :: "int \<Rightarrow> int \<Rightarrow> pystr \<Rightarrow> queue \<Rightarrow> queue" where
  "insert_attempt i n worker q =
     (if list_ex (\<lambda>a. at_job a = i \<and> at_number a = n) (qu_attempts q) then q
      else q\<lparr>qu_attempts := qu_attempts q @ [\<lparr>at_job = i, at_number = n, at_worker = worker,
             at_status = A_running, at_error = None, at_finished = None\<rparr>]\<rparr>)"

text \<open>
  \<open>snapshots\<close> is the join of ingestion run and source snapshot; a missing row raises and the
  transaction is rolled back.
\<close>

definition claim_next_job :: "(int \<Rightarrow> (int \<times> pystr option) option) \<Rightarrow> int set \<Rightarrow> pystr \<Rightarrow> int \<Rightarrow> queue
    \<Rightarrow> (claimed_job option \<times> queue) py_result" where
  "claim_next_job snapshots locked worker secs q =
     (case next_claim locked q of
        None \<Rightarrow> Inr (None, q)
      | Some j \<Rightarrow>
          (let q1 = update_job (jb_id j) (lease worker secs (qu_now q)) q; n = jb_attempts j + 1
           in case snapshots (jb_run j) of
                None \<Rightarrow> Inl KeyError
              | Some (snap, key) \<Rightarrow>
                  Inr (Some \<lparr>cj_id = jb_id j, cj_run = jb_run j, cj_product = jb_product j,
                         cj_attempts = n, cj_snapshot = snap, cj_key = key\<rparr>,
                       insert_attempt (jb_id j) n worker q1)))"

definition close_attempts :: "int \<Rightarrow> pystr \<Rightarrow> (attempt \<Rightarrow> attempt) \<Rightarrow> queue \<Rightarrow> queue" where
  "close_attempts i worker f q =
     q\<lparr>qu_attempts := map (\<lambda>a. if at_job a = i \<and> at_worker a = worker \<and> at_status a = A_running
         then f a else a) (qu_attempts q)\<rparr>"

definition complete_job :: "int \<Rightarrow> pystr \<Rightarrow> queue \<Rightarrow> queue" where
  "complete_job i worker q =
     close_attempts i worker (\<lambda>a. a\<lparr>at_status := A_succeeded, at_finished := Some (qu_now q)\<rparr>)
       (update_job i (\<lambda>j. j\<lparr>jb_status := J_succeeded, jb_finished := Some (qu_now q),
          jb_owner := None, jb_expires := None\<rparr>) q)"

definition failed_row :: "int \<Rightarrow> pystr \<Rightarrow> job_status \<Rightarrow> job \<Rightarrow> job" where
  "failed_row now err status j =
     j\<lparr>jb_status := status, jb_error := Some (take 2000 err), jb_owner := None, jb_expires := None,
       jb_finished := (if status = J_failed then Some now else None)\<rparr>"

definition failed_attempt :: "int \<Rightarrow> pystr \<Rightarrow> attempt \<Rightarrow> attempt" where
  "failed_attempt now err a =
     a\<lparr>at_status := A_failed, at_finished := Some now, at_error := Some (take 2000 err)\<rparr>"

definition fail_job :: "int \<Rightarrow> pystr \<Rightarrow> pystr \<Rightarrow> queue \<Rightarrow> queue py_result" where
  "fail_job i worker err q =
     (case find_job i q of
        None \<Rightarrow> Inl KeyError
      | Some job \<Rightarrow>
          Inr (close_attempts i worker (failed_attempt (qu_now q) err)
            (update_job i (failed_row (qu_now q) err
               (if jb_attempts job \<ge> jb_max job then J_failed else J_queued)) q)))"

definition fail_job_terminal :: "int \<Rightarrow> pystr \<Rightarrow> pystr \<Rightarrow> queue \<Rightarrow> queue" where
  "fail_job_terminal i worker err q =
     close_attempts i worker (failed_attempt (qu_now q) err) (update_job i (failed_row (qu_now q) err J_failed) q)"

definition expired :: "int \<Rightarrow> job \<Rightarrow> bool" where
  "expired now j \<longleftrightarrow> jb_status j = J_running \<and> (case jb_expires j of None \<Rightarrow> False | Some t \<Rightarrow> t < now)"

definition reap_stale_leases :: "queue \<Rightarrow> nat \<times> queue" where
  "reap_stale_leases q =
     (length (filter (expired (qu_now q)) (qu_jobs q)),
      q\<lparr>qu_jobs := map (\<lambda>j. if expired (qu_now q) j
          then j\<lparr>jb_status := J_queued, jb_owner := None, jb_expires := None\<rparr> else j) (qu_jobs q)\<rparr>)"

text \<open>
  \<open>POST /jobs/{job_id}/retry\<close> behind its session and token: \<open>role\<close> is what the caller holds on a
  product. It keeps the finish time of the failure and returns the product and job of its audit event.
\<close>

datatype retry_refusal = Job_not_found | Retry_not_permitted | Only_failed_jobs

definition retry_job :: "(pystr \<Rightarrow> role option) \<Rightarrow> int \<Rightarrow> queue \<Rightarrow> retry_refusal + queue \<times> (pystr \<times> int)" where
  "retry_job role i q =
     (case find_job i q of
        None \<Rightarrow> Inl Job_not_found
      | Some j \<Rightarrow>
          if role (jb_product j) = None then Inl Job_not_found
          else if \<not> can (role (jb_product j)) Retry then Inl Retry_not_permitted
          else if jb_status j \<noteq> J_failed then Inl Only_failed_jobs
          else Inr (update_job i (\<lambda>j. j\<lparr>jb_status := J_queued, jb_error := None, jb_max := jb_max j + 1\<rparr>) q, (jb_product j, i)))"

section \<open>The worker\<close>

definition job_is_within_staging_limits :: "pystr \<Rightarrow> int \<Rightarrow> int \<Rightarrow> bool \<times> pystr option" where
  "job_is_within_staging_limits product byte_size max_bytes =
     (if product = lit ''lidar'' then (False, Some (lit ''not processed in staging''))
      else if byte_size > max_bytes then (False, Some (lit ''exceeds staging execution size limit''))
      else (True, None))"

text \<open>
  One worker step: claim, then inspect what the store holds. \<open>inspect\<close> is the product's
  inspector with the artifact write, an exception text or success.
\<close>

definition run_one_job :: "(int \<Rightarrow> (int \<times> pystr option) option) \<Rightarrow> (pystr \<Rightarrow> bool)
    \<Rightarrow> (pystr \<Rightarrow> pystr \<Rightarrow> pystr + unit) \<Rightarrow> int set \<Rightarrow> pystr \<Rightarrow> queue \<Rightarrow> (bool \<times> queue) py_result" where
  "run_one_job snapshots exists inspect locked worker q =
     bind_result (claim_next_job snapshots locked worker 120 q) (\<lambda>(claimed, q1).
       case claimed of
         None \<Rightarrow> Inr (False, q1)
       | Some c \<Rightarrow>
           (case cj_key c of
              None \<Rightarrow> bind_result (fail_job (cj_id c) worker
                        (lit ''Source snapshot has no object_storage_key.'') q1) (\<lambda>q2. Inr (True, q2))
            | Some key \<Rightarrow>
                (if \<not> exists key then
                   Inr (True, fail_job_terminal (cj_id c) worker
                     (lit ''source object unavailable (ephemeral storage cycled)'') q1)
                 else (case inspect (cj_product c) key of
                     Inr _ \<Rightarrow> Inr (True, complete_job (cj_id c) worker q1)
                   | Inl err \<Rightarrow> bind_result (fail_job (cj_id c) worker err q1) (\<lambda>q2. Inr (True, q2))))))"

text \<open>The staging adapter: refuse the oldest queued job outright, or run the worker step.\<close>

definition run_one_guarded :: "(int \<Rightarrow> (int \<times> pystr option) option) \<Rightarrow> (pystr \<Rightarrow> bool)
    \<Rightarrow> (pystr \<Rightarrow> pystr \<Rightarrow> pystr + unit) \<Rightarrow> (int \<Rightarrow> int) \<Rightarrow> int \<Rightarrow> int set \<Rightarrow> queue \<Rightarrow> (bool \<times> queue) py_result" where
  "run_one_guarded snapshots exists inspect byte_size max_bytes locked q =
     (case sort_key jb_created (filter (\<lambda>j. jb_status j = J_queued) (qu_jobs q)) of
        [] \<Rightarrow> run_one_job snapshots exists inspect locked (lit ''staging-inprocess'') q
      | j # _ \<Rightarrow>
          (case job_is_within_staging_limits (jb_product j) (byte_size (jb_run j)) max_bytes of
             (False, Some reason) \<Rightarrow>
               Inr (True, fail_job_terminal (jb_id j) (lit ''staging-inprocess'') reason q)
           | _ \<Rightarrow> run_one_job snapshots exists inspect locked (lit ''staging-inprocess'') q))"

section \<open>Steps\<close>

inductive queue_step :: "queue \<Rightarrow> queue \<Rightarrow> bool" where
  Enqueue: "queue_step q (snd (enqueue_processing_job run product q))"
| Claim: "claim_next_job snapshots locked worker secs q = Inr (c, q') \<Longrightarrow> queue_step q q'"
| Complete: "queue_step q (complete_job i worker q)"
| Fail: "fail_job i worker err q = Inr q' \<Longrightarrow> queue_step q q'"
| Fail_terminal: "queue_step q (fail_job_terminal i worker err q)"
| Reap: "queue_step q (snd (reap_stale_leases q))"
| Retry: "retry_job role i q = Inr (q', e) \<Longrightarrow> queue_step q q'"
| Tick: "0 \<le> d \<Longrightarrow> queue_step q (q\<lparr>qu_now := qu_now q + d\<rparr>)"

inductive queue_reachable :: "queue \<Rightarrow> bool" where
  Empty: "queue_reachable \<lparr>qu_now = t, qu_jobs = [], qu_attempts = [], qu_next = 1\<rparr>"
| Step: "queue_reachable q \<Longrightarrow> queue_step q q' \<Longrightarrow> queue_reachable q'"


section \<open>The invariant\<close>

definition job_ok :: "job \<Rightarrow> bool" where
  "job_ok j \<longleftrightarrow>
     (jb_status j = J_running \<longrightarrow> jb_owner j \<noteq> None \<and> jb_expires j \<noteq> None \<and> jb_started j \<noteq> None \<and> 1 \<le> jb_attempts j)
     \<and> (jb_status j \<noteq> J_running \<longrightarrow> jb_owner j = None \<and> jb_expires j = None)
     \<and> (jb_status j = J_succeeded \<or> jb_status j = J_failed \<longrightarrow> jb_finished j \<noteq> None)
     \<and> 0 \<le> jb_attempts j \<and> 1 \<le> jb_max j"

definition attempts_of :: "int \<Rightarrow> queue \<Rightarrow> int list" where
  "attempts_of i q = map at_number (filter (\<lambda>a. at_job a = i) (qu_attempts q))"

text \<open>The newest attempt of a job is open and belongs to the owner of its lease.\<close>

definition open_attempt :: "queue \<Rightarrow> job \<Rightarrow> bool" where
  "open_attempt q j \<longleftrightarrow> (\<exists>a \<in> set (qu_attempts q). at_job a = jb_id j \<and> at_number a = jb_attempts j
     \<and> at_status a = A_running \<and> jb_owner j = Some (at_worker a))"

definition queue_ok :: "queue \<Rightarrow> bool" where
  "queue_ok q \<longleftrightarrow> distinct (map jb_id (qu_jobs q))
     \<and> (\<forall>j \<in> set (qu_jobs q). jb_id j < qu_next q \<and> job_ok j \<and> attempts_of (jb_id j) q = [1..jb_attempts j]
          \<and> (jb_status j = J_running \<longrightarrow> open_attempt q j))
     \<and> (\<forall>a \<in> set (qu_attempts q). at_job a \<in> jb_id ` set (qu_jobs q) \<and> (at_status a = A_running \<longleftrightarrow> at_finished a = None))"

text \<open>A change of job rows that keeps ids and attempt counts and leases nothing, and one that closes
  attempts of a job that does not run.\<close>

lemma map_jobs_ok:
  assumes "queue_ok q" and "\<And>j. jb_id (g j) = jb_id j \<and> jb_attempts (g j) = jb_attempts j"
    and "\<And>j. job_ok j \<Longrightarrow> job_ok (g j)" and "\<And>j. jb_status (g j) = J_running \<Longrightarrow> g j = j"
  shows "queue_ok (q\<lparr>qu_jobs := map g (qu_jobs q)\<rparr>)"
proof -
  have "jb_id \<circ> g = jb_id" by (simp add: fun_eq_iff assms(2))
  moreover have "attempts_of i (q\<lparr>qu_jobs := js\<rparr>) = attempts_of i q" for i js by (simp add: attempts_of_def)
  moreover have "jb_id ` set (map g (qu_jobs q)) = jb_id ` set (qu_jobs q)" using assms(2) by (force simp: image_iff)
  moreover have "open_attempt (q\<lparr>qu_jobs := js\<rparr>) j = open_attempt q j" for js j by (simp add: open_attempt_def)
  moreover have "jb_status (g j) = J_running \<longrightarrow> open_attempt q (g j)" if "j \<in> set (qu_jobs q)" for j
    using assms(1,4) that by (metis queue_ok_def)
  ultimately show ?thesis using assms(1-3) unfolding queue_ok_def by auto
qed

lemma close_attempts_ok:
  assumes ok: "queue_ok q" and keys: "\<And>a. at_job (f a) = at_job a \<and> at_number (f a) = at_number a"
    and closed: "\<And>a. at_status (f a) \<noteq> A_running \<and> at_finished (f a) \<noteq> None"
    and idle: "\<And>j. j \<in> set (qu_jobs q) \<Longrightarrow> jb_id j = i \<Longrightarrow> jb_status j \<noteq> J_running"
  shows "queue_ok (close_attempts i worker f q)"
proof -
  let ?g = "\<lambda>a. if at_job a = i \<and> at_worker a = worker \<and> at_status a = A_running then f a else a"
  let ?q = "close_attempts i worker f q"
  have jobs: "qu_jobs ?q = qu_jobs q" "qu_next ?q = qu_next q" "qu_attempts ?q = map ?g (qu_attempts q)" by (simp_all add: close_attempts_def)
  have "map at_number (filter (\<lambda>a. at_job a = k) (map ?g as)) = map at_number (filter (\<lambda>a. at_job a = k) as)" for k as
    by (induction as) (auto simp: keys)
  then have nums: "attempts_of k ?q = attempts_of k q" for k by (simp add: attempts_of_def close_attempts_def)
  have rows: "at_job b \<in> jb_id ` set (qu_jobs q) \<and> (at_status b = A_running \<longleftrightarrow> at_finished b = None)"
    if "b \<in> set (map ?g (qu_attempts q))" for b
  proof -
    obtain a where a: "a \<in> set (qu_attempts q)" "b = ?g a" using \<open>b \<in> _\<close> by auto
    then show ?thesis using ok keys [of a] closed [of a] by (auto simp: queue_ok_def)
  qed
  have "open_attempt ?q j" if j: "j \<in> set (qu_jobs q)" "jb_status j = J_running" for j
  proof -
    obtain a where a: "a \<in> set (qu_attempts q)" "at_job a = jb_id j" "at_number a = jb_attempts j"
      "at_status a = A_running" "jb_owner j = Some (at_worker a)"
      using ok j by (auto simp: queue_ok_def open_attempt_def)
    have "jb_id j \<noteq> i" using idle j by blast
    then have "?g a = a" using a by simp
    then have "a \<in> set (qu_attempts ?q)" using imageI [OF a(1), of ?g] by (simp only: jobs(3) set_map)
    with a show ?thesis unfolding open_attempt_def by blast
  qed
  then have "jb_status j = J_running \<Longrightarrow> open_attempt ?q j" if "j \<in> set (qu_jobs q)" for j using that by blast
  note open' = this
  show ?thesis unfolding queue_ok_def
  proof (intro conjI ballI)
    show "distinct (map jb_id (qu_jobs ?q))" using ok by (simp add: queue_ok_def jobs(1))
  next
    fix j assume "j \<in> set (qu_jobs ?q)"
    then have j: "j \<in> set (qu_jobs q)" by (simp only: jobs(1))
    with ok show "jb_id j < qu_next ?q" "job_ok j" "attempts_of (jb_id j) ?q = [1..jb_attempts j]"
      by (simp_all add: queue_ok_def jobs(2) nums)
    from open' [OF j] show "jb_status j = J_running \<longrightarrow> open_attempt ?q j" by blast
  next
    fix b assume "b \<in> set (qu_attempts ?q)"
    then have "b \<in> set (map ?g (qu_attempts q))" by (simp only: jobs(3))
    from rows [OF this] show "at_job b \<in> jb_id ` set (qu_jobs ?q)" "(at_status b = A_running) = (at_finished b = None)"
      by (simp_all only: jobs(1))
  qed
qed

lemma update_job_ok:
  assumes "queue_ok q" and "\<And>j. jb_id (f j) = jb_id j \<and> jb_attempts (f j) = jb_attempts j"
    and "\<And>j. job_ok j \<Longrightarrow> job_ok (f j)" and "\<And>j. jb_status (f j) \<noteq> J_running"
  shows "queue_ok (update_job i f q)"
  unfolding update_job_def using assms by (intro map_jobs_ok) auto

text \<open>The two in a row, as a worker that ends a job does.\<close>

lemma end_job_ok:
  assumes "queue_ok q" and "\<And>j. jb_id (f j) = jb_id j \<and> jb_attempts (f j) = jb_attempts j"
    and "\<And>j. job_ok j \<Longrightarrow> job_ok (f j)" and "\<And>j. jb_status (f j) \<noteq> J_running"
    and "\<And>a. at_job (h a) = at_job a \<and> at_number (h a) = at_number a"
    and "\<And>a. at_status (h a) \<noteq> A_running \<and> at_finished (h a) \<noteq> None"
  shows "queue_ok (close_attempts i worker h (update_job i f q))"
proof (rule close_attempts_ok [OF update_job_ok [OF assms(1-4)] assms(5,6)])
  show "jb_status j \<noteq> J_running" if "j \<in> set (qu_jobs (update_job i f q))" "jb_id j = i" for j
    using that assms(2,4) by (auto simp: update_job_def split: if_splits)
qed

lemma enqueue_ok: "queue_ok q \<Longrightarrow> queue_ok (snd (enqueue_processing_job run product q))"
proof -
  assume ok: "queue_ok q"
  then have "filter (\<lambda>a. at_job a = qu_next q) (qu_attempts q) = []"
    by (fastforce simp: queue_ok_def filter_empty_conv)
  with ok show ?thesis
    by (auto simp: queue_ok_def enqueue_processing_job_def job_ok_def attempts_of_def open_attempt_def)
qed

lemma find_job_iff:
  "distinct (map jb_id (qu_jobs q)) \<Longrightarrow> find_job i q = Some j \<longleftrightarrow> j \<in> set (qu_jobs q) \<and> jb_id j = i"
proof -
  have "distinct (map jb_id js) \<Longrightarrow> find (\<lambda>j. jb_id j = i) js = Some j \<longleftrightarrow> j \<in> set js \<and> jb_id j = i" for js
    by (induction js) auto
  then show "distinct (map jb_id (qu_jobs q)) \<Longrightarrow> find_job i q = Some j \<longleftrightarrow> j \<in> set (qu_jobs q) \<and> jb_id j = i"
    by (simp add: find_job_def)
qed

lemma next_claim_None: "next_claim locked q = None \<longleftrightarrow> (\<forall>j \<in> set (qu_jobs q). claimable (qu_now q) j \<longrightarrow> jb_id j \<in> locked)"
proof -
  let ?js = "filter (\<lambda>j. claimable (qu_now q) j \<and> jb_id j \<notin> locked) (qu_jobs q)"
  have "next_claim locked q = None \<longleftrightarrow> sort_key jb_created ?js = []"
    by (simp add: next_claim_def split: list.split)
  also have "\<dots> \<longleftrightarrow> ?js = []" unfolding set_empty [symmetric] by (simp only: set_sort)
  finally show ?thesis by (auto simp: filter_empty_conv)
qed

lemma next_claim_Some:
  assumes "next_claim locked q = Some j"
  shows "j \<in> set (qu_jobs q) \<and> claimable (qu_now q) j \<and> jb_id j \<notin> locked
    \<and> (\<forall>k \<in> set (qu_jobs q). claimable (qu_now q) k \<and> jb_id k \<notin> locked \<longrightarrow> jb_created j \<le> jb_created k)"
proof -
  let ?js = "filter (\<lambda>j. claimable (qu_now q) j \<and> jb_id j \<notin> locked) (qu_jobs q)"
  obtain js where s: "sort_key jb_created ?js = j # js"
    using assms by (auto simp: next_claim_def split: list.splits)
  then have "set (j # js) = set ?js" by (metis set_sort)
  moreover have "sorted (map jb_created (j # js))" using s by (metis sorted_sort_key)
  ultimately show ?thesis by auto
qed

lemma insert_attempt_new:
  assumes "queue_ok q" and "j \<in> set (qu_jobs q)"
  shows "insert_attempt (jb_id j) (jb_attempts j + 1) worker (update_job i f q) =
    update_job i f q\<lparr>qu_attempts := qu_attempts q @ [\<lparr>at_job = jb_id j, at_number = jb_attempts j + 1,
      at_worker = worker, at_status = A_running, at_error = None, at_finished = None\<rparr>]\<rparr>"
proof -
  from assms have "attempts_of (jb_id j) q = [1..jb_attempts j]" by (simp add: queue_ok_def)
  then have "jb_attempts j + 1 \<notin> set (attempts_of (jb_id j) q)" by simp
  then have "\<not> list_ex (\<lambda>a. at_job a = jb_id j \<and> at_number a = jb_attempts j + 1) (qu_attempts q)"
    by (force simp: attempts_of_def list_ex_iff)
  then show ?thesis by (simp add: insert_attempt_def update_job_def)
qed

lemma claim_cases:
  assumes "queue_ok q" and "claim_next_job snapshots locked worker secs q = Inr (c, q')"
  obtains "c = None" "q' = q" "next_claim locked q = None"
  | j snap key where "next_claim locked q = Some j" "snapshots (jb_run j) = Some (snap, key)"
      "c = Some \<lparr>cj_id = jb_id j, cj_run = jb_run j, cj_product = jb_product j,
         cj_attempts = jb_attempts j + 1, cj_snapshot = snap, cj_key = key\<rparr>"
      "q' = update_job (jb_id j) (lease worker secs (qu_now q)) q\<lparr>qu_attempts := qu_attempts q @
         [\<lparr>at_job = jb_id j, at_number = jb_attempts j + 1, at_worker = worker,
           at_status = A_running, at_error = None, at_finished = None\<rparr>]\<rparr>"
proof (cases "next_claim locked q")
  case None
  with assms(2) that(1) show thesis by (simp add: claim_next_job_def)
next
  case (Some j)
  then have j: "j \<in> set (qu_jobs q)" using next_claim_Some by blast
  from Some assms(2) that(2) [OF Some] show thesis
    by (auto simp: claim_next_job_def Let_def insert_attempt_new [OF assms(1) j] split: option.splits)
qed

lemma claim_ok:
  assumes "queue_ok q" and "claim_next_job snapshots locked worker secs q = Inr (c, q')"
  shows "queue_ok q'"
  using assms
proof (cases rule: claim_cases)
  case 1
  with assms show ?thesis by simp
next
  case (2 j snap key)
  note j = next_claim_Some [OF 2(1)]
  have new: "attempts_of k q' = attempts_of k q @ (if k = jb_id j then [jb_attempts j + 1] else [])" for k
    unfolding 2(4) by (simp add: attempts_of_def)
  have jobs: "qu_jobs q' = map (\<lambda>x. if jb_id x = jb_id j then lease worker secs (qu_now q) x else x) (qu_jobs q)"
    unfolding 2(4) by (simp add: update_job_def)
  have same: "x = j" if "x \<in> set (qu_jobs q)" "jb_id x = jb_id j" for x
    using assms(1) j that by (auto simp: queue_ok_def distinct_map dest: inj_onD)
  have ids: "map jb_id (qu_jobs q') = map jb_id (qu_jobs q)" unfolding jobs by (simp add: lease_def)
  have leased: "job_ok (lease worker secs (qu_now q) x) \<and> attempts_of (jb_id x) q' = [1..jb_attempts x + 1]
      \<and> open_attempt q' (lease worker secs (qu_now q) x)"
    if x: "x \<in> set (qu_jobs q)" "jb_id x = jb_id j" for x
  proof -
    from same [OF x] assms(1) x(1) have ok: "job_ok j" "attempts_of (jb_id j) q = [1..jb_attempts j]"
      by (auto simp: queue_ok_def)
    then have "[1..jb_attempts j + 1] = [1..jb_attempts j] @ [jb_attempts j + 1]"
      using upto_rec2 [of 1 "jb_attempts j + 1"] by (simp add: job_ok_def)
    moreover have "open_attempt q' (lease worker secs (qu_now q) j)" unfolding 2(4) by (simp add: open_attempt_def lease_def)
    moreover have "claimable (qu_now q) j" using j by blast
    ultimately show ?thesis
      using ok same [OF x] new by (auto simp: job_ok_def lease_def claimable_def split: option.splits)
  qed
  have other: "attempts_of (jb_id x) q' = [1..jb_attempts x] \<and> (jb_status x = J_running \<longrightarrow> open_attempt q' x)"
    if "x \<in> set (qu_jobs q)" "jb_id x \<noteq> jb_id j" for x
    using assms(1) that new unfolding 2(4) by (auto simp: queue_ok_def open_attempt_def update_job_def)
  have "qu_next q' = qu_next q" unfolding 2(4) by (simp add: update_job_def)
  then have "jb_id y < qu_next q' \<and> job_ok y \<and> attempts_of (jb_id y) q' = [1..jb_attempts y] \<and> (jb_status y = J_running \<longrightarrow> open_attempt q' y)"
    if y: "y \<in> set (qu_jobs q')" for y
  proof -
    obtain x where x: "x \<in> set (qu_jobs q)" "y = (if jb_id x = jb_id j then lease worker secs (qu_now q) x else x)"
      using y by (auto simp: jobs)
    then have "jb_id y = jb_id x" "jb_id x < qu_next q" using assms(1) by (auto simp: lease_def queue_ok_def)
    then show ?thesis using x leased [OF x(1)] other [OF x(1)] assms(1) \<open>qu_next q' = qu_next q\<close>
      by (cases "jb_id x = jb_id j") (auto simp: lease_def queue_ok_def)
  qed
  moreover have "\<forall>a \<in> set (qu_attempts q'). at_job a \<in> set (map jb_id (qu_jobs q')) \<and> (at_status a = A_running \<longleftrightarrow> at_finished a = None)"
    unfolding ids using assms(1) j unfolding 2(4) by (auto simp: queue_ok_def update_job_def)
  moreover have "distinct (map jb_id (qu_jobs q'))" unfolding ids using assms(1) by (simp add: queue_ok_def)
  ultimately show ?thesis unfolding queue_ok_def by (simp only: set_map) blast
qed

lemma failed_row_ok:
  assumes "queue_ok q" and "status = J_failed \<or> status = J_queued"
  shows "queue_ok (close_attempts i worker (failed_attempt now err) (update_job i (failed_row now err status) q))"
  by (rule end_job_ok [OF assms(1)]) (use assms(2) in \<open>auto simp: failed_row_def failed_attempt_def job_ok_def\<close>)

lemma fail_job_ok: "queue_ok q \<Longrightarrow> fail_job i worker err q = Inr q' \<Longrightarrow> queue_ok q'"
  by (auto simp: fail_job_def split: option.splits intro: failed_row_ok)

lemma queue_step_ok: "queue_step q q' \<Longrightarrow> queue_ok q \<Longrightarrow> queue_ok q'"
proof (induction rule: queue_step.induct)
  case (Enqueue q run product)
  then show ?case by (rule enqueue_ok)
next
  case (Claim snapshots locked worker secs q c q')
  then show ?case using claim_ok by blast
next
  case (Complete q i worker)
  then show ?case unfolding complete_job_def by (rule end_job_ok) (auto simp: job_ok_def)
next
  case (Fail i worker err q q')
  then show ?case using fail_job_ok by blast
next
  case (Fail_terminal q i worker err)
  then show ?case unfolding fail_job_terminal_def by (rule failed_row_ok) simp
next
  case (Retry role i q q' e)
  then obtain j where j: "find_job i q = Some j" "jb_status j = J_failed"
    and q': "q' = update_job i (\<lambda>j. j\<lparr>jb_status := J_queued, jb_error := None, jb_max := jb_max j + 1\<rparr>) q"
    by (auto simp: retry_job_def split: option.splits if_splits)
  have d: "distinct (map jb_id (qu_jobs q))" using Retry.prems by (simp add: queue_ok_def)
  have "jb_status x = J_failed" if "x \<in> set (qu_jobs q)" "jb_id x = i" for x
    using find_job_iff [OF d, of i x] that j by simp
  then have q'': "q' = q\<lparr>qu_jobs := map (\<lambda>j. if jb_id j = i \<and> jb_status j = J_failed
      then j\<lparr>jb_status := J_queued, jb_error := None, jb_max := jb_max j + 1\<rparr> else j) (qu_jobs q)\<rparr>"
    unfolding q' update_job_def by (auto intro: map_cong)
  show ?case unfolding q'' by (rule map_jobs_ok [OF Retry.prems]) (auto simp: job_ok_def split: if_splits)
next
  case (Reap q)
  then show ?case unfolding reap_stale_leases_def snd_conv
    by (intro map_jobs_ok) (auto simp: expired_def job_ok_def split: if_splits)
next
  case (Tick d q)
  moreover have "attempts_of i (q\<lparr>qu_now := t\<rparr>) = attempts_of i q" "open_attempt (q\<lparr>qu_now := t\<rparr>) j = open_attempt q j"
    for i t j by (simp_all add: attempts_of_def open_attempt_def)
  ultimately show ?case unfolding queue_ok_def by simp
qed

lemma reachable_ok: "queue_reachable q \<Longrightarrow> queue_ok q"
  by (induction rule: queue_reachable.induct)
    (simp add: queue_ok_def, blast intro: queue_step_ok)


section \<open>Properties\<close>

text \<open>
  C25. In every reachable state of the queue, under any interleaving of workers, reapers, retries and
  clock ticks: job ids are unique; a running job has an owner, a lease and a start time, and its newest
  attempt is open and belongs to that owner; no other job has a lease; a succeeded or failed job has a
  finish time; the attempts recorded for a job are numbered from one to its attempt count, without gap
  or repetition, so that no claim ever loses its attempt row to the conflict clause; and an attempt is
  open exactly while it has no finish time.
\<close>

theorem queue_invariant:
  assumes "queue_reachable q" and "j \<in> set (qu_jobs q)"
  shows "distinct (map jb_id (qu_jobs q))
    \<and> (jb_status j = J_running \<longrightarrow> jb_owner j \<noteq> None \<and> jb_expires j \<noteq> None \<and> jb_started j \<noteq> None
         \<and> (\<exists>a \<in> set (qu_attempts q). at_job a = jb_id j \<and> at_number a = jb_attempts j
              \<and> at_status a = A_running \<and> jb_owner j = Some (at_worker a)))
    \<and> (jb_status j \<noteq> J_running \<longrightarrow> jb_owner j = None \<and> jb_expires j = None)
    \<and> (jb_status j = J_succeeded \<or> jb_status j = J_failed \<longrightarrow> jb_finished j \<noteq> None)
    \<and> map at_number (filter (\<lambda>a. at_job a = jb_id j) (qu_attempts q)) = [1..jb_attempts j]
    \<and> (\<forall>a \<in> set (qu_attempts q). at_status a = A_running \<longleftrightarrow> at_finished a = None)"
  using reachable_ok [OF assms(1)] assms(2) unfolding queue_ok_def job_ok_def attempts_of_def open_attempt_def by blast

lemma find_update:
  "find_job k (update_job i f q) = map_option (\<lambda>j. if jb_id j = i then f j else j) (find_job k q)"
  if "\<And>j. jb_id (f j) = jb_id j"
proof -
  have "find (\<lambda>j. jb_id j = k) (map (\<lambda>j. if jb_id j = i then f j else j) js)
      = map_option (\<lambda>j. if jb_id j = i then f j else j) (find (\<lambda>j. jb_id j = k) js)" for js
    by (induction js) (auto simp: that)
  then show ?thesis by (simp add: find_job_def update_job_def)
qed

lemma find_update_other:
  assumes "\<And>j. jb_id (f j) = jb_id j" and "k \<noteq> i"
  shows "find_job k (update_job i f q) = find_job k q"
proof -
  have "find (\<lambda>j. jb_id j = k) (map (\<lambda>j. if jb_id j = i then f j else j) js) = find (\<lambda>j. jb_id j = k) js" for js
    using assms(2) by (induction js) (auto simp: assms(1))
  then show ?thesis by (simp add: find_job_def update_job_def)
qed

lemma find_attempts [simp]: "find_job k (q\<lparr>qu_attempts := as\<rparr>) = find_job k q"
  by (simp add: find_job_def)

text \<open>
  A claim, on any reachable queue: it returns nothing exactly when every job that is queued or
  whose lease has run out is held by another transaction, and then changes nothing; otherwise it
  returns the oldest such job, leases it to the worker until \<open>now + lease_seconds\<close>, counts
  the attempt and records it, and touches no other job. A job whose lease is live is never handed
  out.
\<close>

theorem claim_next_job_correct:
  assumes "queue_reachable q" and "claim_next_job snapshots locked worker secs q = Inr (c, q')"
  shows "(c = None \<longleftrightarrow> (\<forall>j \<in> set (qu_jobs q). claimable (qu_now q) j \<longrightarrow> jb_id j \<in> locked))
    \<and> (c = None \<longrightarrow> q' = q)
    \<and> (\<forall>cj. c = Some cj \<longrightarrow> (\<exists>j \<in> set (qu_jobs q). jb_id j = cj_id cj \<and> claimable (qu_now q) j \<and> cj_id cj \<notin> locked
         \<and> (\<forall>k \<in> set (qu_jobs q). claimable (qu_now q) k \<and> jb_id k \<notin> locked \<longrightarrow> jb_created j \<le> jb_created k)
         \<and> find_job (cj_id cj) q' = Some (lease worker secs (qu_now q) j) \<and> cj_attempts cj = jb_attempts j + 1
         \<and> (\<forall>i. i \<noteq> cj_id cj \<longrightarrow> find_job i q' = find_job i q)
         \<and> qu_attempts q' = qu_attempts q @ [\<lparr>at_job = cj_id cj, at_number = cj_attempts cj, at_worker = worker,
              at_status = A_running, at_error = None, at_finished = None\<rparr>]))"
proof -
  note ok = reachable_ok [OF assms(1)]
  then have d: "distinct (map jb_id (qu_jobs q))" by (simp add: queue_ok_def)
  from ok assms(2) show ?thesis
  proof (cases rule: claim_cases)
    case 1
    then show ?thesis by (simp add: next_claim_None)
  next
    case (2 j snap key)
    note j = next_claim_Some [OF 2(1)]
    have id: "jb_id (lease worker secs (qu_now q) k) = jb_id k" for k by (simp add: lease_def)
    have f: "find_job i q' = map_option (\<lambda>k. if jb_id k = jb_id j then lease worker secs (qu_now q) k else k) (find_job i q)" for i
      unfolding 2(4) by (simp add: find_update [OF id])
    have "find_job (jb_id j) q = Some j" using find_job_iff [OF d] j by blast
    then have "find_job (jb_id j) q' = Some (lease worker secs (qu_now q) j)" by (simp add: f)
    moreover have "find_job i q' = find_job i q" if "i \<noteq> jb_id j" for i
      unfolding 2(4) by (simp add: find_update_other [OF id that])
    moreover have "next_claim locked q \<noteq> None" using 2(1) by simp
    ultimately show ?thesis using 2(3,4) j unfolding next_claim_None
      by (auto simp: update_job_def intro!: bexI [of _ j])
  qed
qed

lemma claim_leases:
  assumes "queue_ok q" and "claim_next_job snapshots locked worker secs q = Inr (Some c, q')"
  shows "\<exists>j. find_job (cj_id c) q' = Some j \<and> jb_status j = J_running \<and> jb_owner j = Some worker
    \<and> jb_expires j = Some (qu_now q + secs)"
  using assms
proof (cases rule: claim_cases)
  case (2 j snap key)
  have id: "jb_id (lease worker secs (qu_now q) k) = jb_id k" for k by (simp add: lease_def)
  have "find_job (jb_id j) q = Some j"
    using find_job_iff next_claim_Some [OF 2(1)] assms(1) by (simp add: queue_ok_def)
  then have "find_job (jb_id j) q' = Some (lease worker secs (qu_now q) j)"
    unfolding 2(4) by (simp add: find_update [OF id])
  with 2(3) show ?thesis by (simp add: lease_def)
qed simp

text \<open>
  C2. Mutual exclusion: while a worker's lease on a claimed job stands in the table and has not run
  out, no claim by anyone returns that job, whatever else happened in between.
\<close>

theorem claim_exclusive:
  assumes "queue_reachable q" and "claim_next_job snapshots locked worker secs q = Inr (Some c, q1)"
    and "queue_reachable q2" and "find_job (cj_id c) q2 = find_job (cj_id c) q1" and "qu_now q2 \<le> qu_now q + secs"
    and "claim_next_job snapshots' locked' worker' secs' q2 = Inr (Some c', q3)"
  shows "cj_id c' \<noteq> cj_id c"
proof
  assume eq: "cj_id c' = cj_id c"
  note ok2 = reachable_ok [OF assms(3)]
  then have d2: "distinct (map jb_id (qu_jobs q2))" by (simp add: queue_ok_def)
  from claim_leases [OF reachable_ok [OF assms(1)] assms(2)] assms(4) obtain j where
    j: "find_job (cj_id c) q2 = Some j" "jb_status j = J_running" "jb_expires j = Some (qu_now q + secs)" by auto
  from ok2 assms(6) obtain k where k: "next_claim locked' q2 = Some k" "cj_id c' = jb_id k"
    by (cases rule: claim_cases) auto
  from next_claim_Some [OF k(1)] have "k \<in> set (qu_jobs q2)" "claimable (qu_now q2) k" by blast+
  moreover have "k = j" using find_job_iff [OF d2] j(1) k(2) eq \<open>k \<in> set (qu_jobs q2)\<close> by (metis option.inject)
  ultimately show False using j assms(5) by (simp add: claimable_def)
qed

text \<open>
  A failed attempt is retried exactly while attempts remain: \<open>fail_job\<close> raises only for an
  unknown job; otherwise it requeues the job if its attempt count is below the maximum and fails it
  for good if not, releases the lease either way, truncates the error text, and leaves the attempt
  count and every other job alone.
\<close>

theorem fail_job_retries:
  assumes "queue_reachable q"
  shows "(fail_job i worker err q = Inl KeyError \<longleftrightarrow> find_job i q = None)
    \<and> (\<forall>q' j. fail_job i worker err q = Inr q' \<and> find_job i q = Some j \<longrightarrow>
        (\<exists>j'. find_job i q' = Some j' \<and> jb_attempts j' = jb_attempts j
          \<and> jb_status j' = (if jb_attempts j < jb_max j then J_queued else J_failed)
          \<and> (jb_finished j' = None \<longleftrightarrow> jb_attempts j < jb_max j)
          \<and> jb_owner j' = None \<and> jb_expires j' = None \<and> jb_error j' = Some (take 2000 err))
        \<and> (\<forall>k. k \<noteq> i \<longrightarrow> find_job k q' = find_job k q))"
proof -
  have d: "distinct (map jb_id (qu_jobs q))" using reachable_ok [OF assms] by (simp add: queue_ok_def)
  have close: "find_job k (close_attempts i worker f q) = find_job k q" for k f q
    by (simp add: find_job_def close_attempts_def)
  have id: "jb_id (failed_row now err st j) = jb_id j" for now st j by (simp add: failed_row_def)
  show ?thesis
  proof (cases "find_job i q")
    case None
    then show ?thesis by (simp add: fail_job_def)
  next
    case (Some j)
    let ?st = "if jb_attempts j \<ge> jb_max j then J_failed else J_queued"
    have ji: "jb_id j = i" using find_job_iff [OF d] Some by blast
    have r: "fail_job i worker err q = Inr (close_attempts i worker (failed_attempt (qu_now q) err)
        (update_job i (failed_row (qu_now q) err ?st) q))" (is "_ = Inr ?q'")
      using Some by (simp add: fail_job_def)
    have "find_job i ?q' = Some (failed_row (qu_now q) err ?st j)"
      using Some ji by (simp add: close find_update [OF id])
    moreover have "find_job k ?q' = find_job k q" if "k \<noteq> i" for k
      by (simp add: close find_update_other [OF id that])
    ultimately show ?thesis using Some r by (auto simp: failed_row_def)
  qed
qed

text \<open>
  Completing a job does not ask who holds its lease. A worker that is not the owner, one whose lease ran
  out and was handed on, still sets the running job to succeeded and clears the owner's lease; the
  owner's attempt stays open.
\<close>

theorem stale_worker_completes:
  assumes "queue_reachable q" and "find_job i q = Some j" and "jb_status j = J_running" and "jb_owner j \<noteq> Some worker"
  shows "find_job i (complete_job i worker q) = Some (j\<lparr>jb_status := J_succeeded, jb_finished := Some (qu_now q),
      jb_owner := None, jb_expires := None\<rparr>)
    \<and> (\<exists>a \<in> set (qu_attempts (complete_job i worker q)). at_job a = i \<and> at_number a = jb_attempts j
         \<and> jb_owner j = Some (at_worker a) \<and> at_status a = A_running \<and> at_finished a = None)"
proof -
  note ok = reachable_ok [OF assms(1)]
  then have d: "distinct (map jb_id (qu_jobs q))" by (simp add: queue_ok_def)
  with assms(2) have j: "j \<in> set (qu_jobs q)" "jb_id j = i" by (simp_all add: find_job_iff)
  with ok assms(3) obtain a where a: "a \<in> set (qu_attempts q)" "at_job a = i" "at_number a = jb_attempts j"
    "at_status a = A_running" "jb_owner j = Some (at_worker a)" by (auto simp: queue_ok_def open_attempt_def)
  then have fin: "at_finished a = None" using ok by (auto simp: queue_ok_def)
  from a assms(4) have "at_worker a \<noteq> worker" by auto
  then have "a \<in> set (qu_attempts (complete_job i worker q))"
    using a(1) by (force simp: complete_job_def close_attempts_def update_job_def)
  moreover have "find_job i (close_attempts i worker h (update_job i f q)) = find_job i (update_job i f q)" for h f
    by (simp add: find_job_def close_attempts_def)
  ultimately show ?thesis using a fin assms(2) j(2) by (auto simp: complete_job_def find_update)
qed

text \<open>
  A retry, on any reachable queue: it is refused as not found exactly for an unknown job or a caller
  without a role on its product, as not permitted for a role that may not retry, and as a conflict for a
  job that has not failed; otherwise the failed job is queued again with its error cleared and one more
  attempt allowed, its attempt count and its old finish time kept, and nothing else changes.
\<close>

theorem retry_job_exact:
  assumes "queue_reachable q"
  shows "(retry_job role i q = Inl Job_not_found \<longleftrightarrow> (\<forall>j \<in> set (qu_jobs q). jb_id j = i \<longrightarrow> role (jb_product j) = None))
    \<and> (\<forall>j \<in> set (qu_jobs q). jb_id j = i \<and> role (jb_product j) \<noteq> None \<longrightarrow>
        (retry_job role i q = Inl Retry_not_permitted \<longleftrightarrow> \<not> can (role (jb_product j)) Retry)
        \<and> (retry_job role i q = Inl Only_failed_jobs \<longleftrightarrow> can (role (jb_product j)) Retry \<and> jb_status j \<noteq> J_failed))
    \<and> (\<forall>q' e. retry_job role i q = Inr (q', e) \<longrightarrow>
        (\<exists>j \<in> set (qu_jobs q). jb_id j = i \<and> jb_status j = J_failed \<and> can (role (jb_product j)) Retry \<and> e = (jb_product j, i)
          \<and> find_job i q' = Some (j\<lparr>jb_status := J_queued, jb_error := None, jb_max := jb_max j + 1\<rparr>) \<and> jb_finished j \<noteq> None
          \<and> (\<forall>k. k \<noteq> i \<longrightarrow> find_job k q' = find_job k q) \<and> qu_attempts q' = qu_attempts q))"
proof -
  note ok = reachable_ok [OF assms]
  then have d: "distinct (map jb_id (qu_jobs q))" by (simp add: queue_ok_def)
  show ?thesis
  proof (cases "find_job i q")
    case None
    then have "\<forall>j \<in> set (qu_jobs q). jb_id j \<noteq> i" by (auto simp: find_job_def find_None_iff)
    with None show ?thesis by (auto simp: retry_job_def)
  next
    case (Some j)
    with d have j: "j \<in> set (qu_jobs q)" "jb_id j = i" by (simp_all add: find_job_iff)
    have one: "k = j" if "k \<in> set (qu_jobs q)" "jb_id k = i" for k
      using find_job_iff [OF d, of i k] that Some by simp
    let ?q = "update_job i (\<lambda>j. j\<lparr>jb_status := J_queued, jb_error := None, jb_max := jb_max j + 1\<rparr>) q"
    have res: "retry_job role i q = (if role (jb_product j) = None then Inl Job_not_found
        else if \<not> can (role (jb_product j)) Retry then Inl Retry_not_permitted
        else if jb_status j \<noteq> J_failed then Inl Only_failed_jobs else Inr (?q, (jb_product j, i)))"
      using Some by (simp add: retry_job_def)
    have none: "\<not> can None Retry" by (simp add: can_def)
    let ?f = "\<lambda>j. j\<lparr>jb_status := J_queued, jb_error := None, jb_max := jb_max j + 1\<rparr>"
    have id: "jb_id (?f k) = jb_id k" for k by simp
    have found: "find_job i ?q = Some (?f j)" unfolding find_update [OF id] using Some j(2) by simp
    have other: "find_job k ?q = find_job k q" if "k \<noteq> i" for k by (rule find_update_other [OF id that])
    have att: "qu_attempts ?q = qu_attempts q" by (simp add: update_job_def)
    have "jb_status j = J_failed \<longrightarrow> jb_finished j \<noteq> None" using ok j(1) by (auto simp: queue_ok_def job_ok_def)
    moreover have "(\<forall>k \<in> set (qu_jobs q). jb_id k = i \<longrightarrow> P k) \<longleftrightarrow> P j" "(\<exists>k \<in> set (qu_jobs q). jb_id k = i \<and> P k) \<longleftrightarrow> P j" for P
      using j one by blast+
    ultimately show ?thesis using found other att none unfolding res by (simp add: imp_conjL split: if_split)
  qed
qed

text \<open>A lease that runs out is claimed again, whatever the attempt limit.\<close>

lemma expired_claim:
  assumes "queue_reachable q" "qu_jobs q = [j]" "jb_status j = J_running" "jb_max j = 3"
  shows "\<exists>q' j'. queue_reachable q' \<and> qu_jobs q' = [j'] \<and> jb_status j' = J_running \<and> jb_max j' = 3
    \<and> jb_attempts j' = jb_attempts j + 1"
proof -
  from reachable_ok [OF assms(1)] assms(2,3) obtain t where t: "jb_expires j = Some t"
    by (auto simp: queue_ok_def job_ok_def)
  define d where "d = \<bar>t + 1 - qu_now q\<bar>"
  define q1 where "q1 = q\<lparr>qu_now := qu_now q + d\<rparr>"
  have "queue_step q q1" unfolding q1_def by (rule queue_step.Tick) (simp add: d_def)
  with assms(1) have r1: "queue_reachable q1" by (rule queue_reachable.Step)
  have "t < qu_now q1" unfolding q1_def d_def by simp
  then have "next_claim {} q1 = Some j"
    using assms(2,3) t by (simp add: next_claim_def q1_def claimable_def)
  then obtain q2 c where q2: "claim_next_job (\<lambda>_. Some (1, None)) {} [97] 120 q1 = Inr (Some c, q2)"
    by (simp add: claim_next_job_def Let_def)
  from queue_reachable.Step [OF r1 queue_step.Claim [OF q2]] have r2: "queue_reachable q2" .
  from reachable_ok [OF r1] q2 have "qu_jobs q2 = [lease [97] 120 (qu_now q1) j]"
  proof (cases rule: claim_cases)
    case (2 j' snap key)
    with \<open>next_claim {} q1 = Some j\<close> assms(2) show ?thesis by (simp add: update_job_def q1_def)
  qed simp
  with r2 assms(4) show ?thesis by (intro exI [of _ q2]) (simp add: lease_def)
qed

text \<open>
  The retry limit does not bound re-leases: a job whose worker keeps dying is claimed again
  each time its lease runs out, so its attempt count passes any bound although \<open>max_attempts\<close>
  is 3.
\<close>

theorem attempts_unbounded_by_expiry:
  "\<exists>q j. queue_reachable q \<and> j \<in> set (qu_jobs q) \<and> jb_max j = 3 \<and> jb_status j = J_running
     \<and> jb_attempts j = int n + 1"
proof -
  have "\<exists>q j. queue_reachable q \<and> qu_jobs q = [j] \<and> jb_status j = J_running \<and> jb_max j = 3 \<and> jb_attempts j = int n + 1"
  proof (induction n)
    case 0
    define q0 where "q0 = \<lparr>qu_now = 0, qu_jobs = [], qu_attempts = [], qu_next = 1\<rparr>"
    define q1 where "q1 = snd (enqueue_processing_job 1 (lit ''forestry'') q0)"
    have r1: "queue_reachable q1" unfolding q1_def
      by (rule queue_reachable.Step [OF _ queue_step.Enqueue]) (simp add: q0_def queue_reachable.Empty)
    define q2 where "q2 = snd (projr (claim_next_job (\<lambda>_. Some (1, None)) {} [97] 120 q1))"
    have "\<exists>c. claim_next_job (\<lambda>_. Some (1, None)) {} [97] 120 q1 = Inr (c, q2)"
      by (simp add: q2_def q1_def q0_def enqueue_processing_job_def claim_next_job_def next_claim_def
          claimable_def)
    then have "queue_reachable q2" using r1 queue_step.Claim queue_reachable.Step by blast
    moreover have "\<exists>j. qu_jobs q2 = [j] \<and> jb_status j = J_running \<and> jb_max j = 3 \<and> jb_attempts j = 1"
      by (simp add: q2_def q1_def q0_def enqueue_processing_job_def claim_next_job_def next_claim_def
          claimable_def update_job_def insert_attempt_def lease_def)
    ultimately show ?case by force
  next
    case (Suc n)
    then show ?case using expired_claim by (metis add.commute of_nat_Suc)
  qed
  then show ?thesis by force
qed


section \<open>A concrete queue\<close>

definition demo_empty :: queue where
  "demo_empty = \<lparr>qu_now = 0, qu_jobs = [], qu_attempts = [], qu_next = 1\<rparr>"

definition demo_queue :: queue where
  "demo_queue = snd (enqueue_processing_job 2 (lit ''lidar'') (snd (enqueue_processing_job 1 (lit ''forestry'') demo_empty)))"

definition demo_claimed :: queue where
  "demo_claimed = insert_attempt 1 1 [97] (update_job 1 (lease [97] 120 0) demo_queue)"

definition demo_second :: queue where
  "demo_second = insert_attempt 2 1 [98] (update_job 2 (lease [98] 120 0) demo_claimed)"

lemmas demo_defs = demo_empty_def demo_queue_def demo_claimed_def demo_second_def enqueue_processing_job_def
  claim_next_job_def next_claim_def claimable_def update_job_def insert_attempt_def lease_def

lemma demo_queue_reachable: "queue_reachable demo_queue"
  unfolding demo_queue_def demo_empty_def
  by (rule queue_reachable.Step [OF queue_reachable.Step [OF queue_reachable.Empty queue_step.Enqueue] queue_step.Enqueue])

lemma demo_claim: "claim_next_job (\<lambda>_. Some (7, None)) {} [97] 120 demo_queue =
    Inr (Some \<lparr>cj_id = 1, cj_run = 1, cj_product = lit ''forestry'', cj_attempts = 1, cj_snapshot = 7, cj_key = None\<rparr>, demo_claimed)"
  by (simp add: demo_defs)

lemma demo_claimed_reachable: "queue_reachable demo_claimed"
  by (rule queue_reachable.Step [OF demo_queue_reachable queue_step.Claim [OF demo_claim]])

lemma demo_claim2: "claim_next_job (\<lambda>_. Some (8, None)) {} [98] 120 demo_claimed =
    Inr (Some \<lparr>cj_id = 2, cj_run = 2, cj_product = lit ''lidar'', cj_attempts = 1, cj_snapshot = 8, cj_key = None\<rparr>, demo_second)"
  by (simp add: demo_defs)

theorem queue_invariant_witness:
  "jb_owner (hd (qu_jobs demo_claimed)) \<noteq> None"
proof -
  have "hd (qu_jobs demo_claimed) \<in> set (qu_jobs demo_claimed)" "jb_status (hd (qu_jobs demo_claimed)) = J_running"
    by (simp_all add: demo_defs)
  with queue_invariant [OF demo_claimed_reachable] show ?thesis by blast
qed

theorem stale_worker_completes_witness:
  "\<exists>j. find_job 1 (complete_job 1 [98] demo_claimed) = Some j \<and> jb_status j = J_succeeded"
proof -
  obtain j where "find_job 1 demo_claimed = Some j" "jb_status j = J_running" "jb_owner j = Some [97]"
    by (simp add: find_job_def demo_defs)
  with stale_worker_completes [OF demo_claimed_reachable, of 1 j "[98]"] show ?thesis by simp
qed

theorem retry_job_exact_witness:
  "retry_job (\<lambda>_. None) 1 demo_claimed = Inl Job_not_found \<and> retry_job (\<lambda>_. Some Admin) 1 demo_claimed = Inl Only_failed_jobs"
proof -
  note r = retry_job_exact [OF demo_claimed_reachable, of _ 1]
  have "jb_id (hd (qu_jobs demo_claimed)) = 1" "hd (qu_jobs demo_claimed) \<in> set (qu_jobs demo_claimed)"
    "jb_status (hd (qu_jobs demo_claimed)) = J_running" by (simp_all add: demo_defs)
  moreover have "can (Some Admin) Retry" by (simp add: can_def allowed_def)
  ultimately show ?thesis using r [of "\<lambda>_. None"] r [of "\<lambda>_. Some Admin"] by force
qed

theorem claim_next_job_correct_witness:
  "\<exists>j \<in> set (qu_jobs demo_queue). jb_id j = 1 \<and> claimable (qu_now demo_queue) j"
  using claim_next_job_correct [OF demo_queue_reachable demo_claim] by auto

theorem claim_exclusive_witness:
  "cj_id \<lparr>cj_id = 2, cj_run = 2, cj_product = lit ''lidar'', cj_attempts = 1, cj_snapshot = 8, cj_key = None\<rparr> \<noteq> 1"
proof -
  have "qu_now demo_claimed \<le> qu_now demo_queue + 120" by (simp add: demo_defs)
  from claim_exclusive [OF demo_queue_reachable demo_claim demo_claimed_reachable refl this demo_claim2]
  show ?thesis by simp
qed

theorem fail_job_retries_witness:
  "\<exists>q' j'. fail_job 1 [97] (lit ''boom'') demo_claimed = Inr q' \<and> find_job 1 q' = Some j' \<and> jb_status j' = J_queued"
proof -
  obtain j where j: "find_job 1 demo_claimed = Some j" "jb_attempts j = 1" "jb_max j = 3"
    by (simp add: find_job_def demo_defs)
  then obtain q' where q': "fail_job 1 [97] (lit ''boom'') demo_claimed = Inr q'" by (simp add: fail_job_def)
  with fail_job_retries [OF demo_claimed_reachable, of 1 "[97]" "lit ''boom''"] j show ?thesis by auto
qed

end
