(* ===== verification/ActivationLog.thy ===== *)
theory ActivationLog
  imports Prelude
begin

text \<open>
  The contract the two publication modules share: one pointer says which version is served, every
  activation appends one event to a log, and versions are stored before they are activated.
  Whatever the operations are, the served version is then the target of the last event and every
  version ever served is stored.
\<close>

locale activation_log =
  fixes active :: "'s \<Rightarrow> int option"
    and log :: "'s \<Rightarrow> int list"
    and stored :: "'s \<Rightarrow> int set"
    and step :: "'s \<Rightarrow> 's \<Rightarrow> bool"
    and start :: "'s \<Rightarrow> bool"
  assumes start_empty: "start s \<Longrightarrow> active s = None \<and> log s = []"
    and step_shape: "step s s' \<Longrightarrow> stored s \<subseteq> stored s' \<and>
          (active s' = active s \<and> log s' = log s
           \<or> (\<exists>x \<in> stored s. active s' = Some x \<and> log s' = log s @ [x]))"
begin

inductive reach :: "'s \<Rightarrow> bool" where
  reach_start: "start s \<Longrightarrow> reach s"
| reach_step: "reach s \<Longrightarrow> step s s' \<Longrightarrow> reach s'"

lemma served_is_last:
  "reach s \<Longrightarrow> active s = (if log s = [] then None else Some (last (log s)))"
  by (induction rule: reach.induct) (use start_empty step_shape in \<open>fastforce\<close>)+

lemma log_stored: "reach s \<Longrightarrow> set (log s) \<subseteq> stored s"
  by (induction rule: reach.induct) (use start_empty step_shape in \<open>fastforce\<close>)+

lemma served_stored: "reach s \<Longrightarrow> active s = Some x \<Longrightarrow> x \<in> stored s \<and> x \<in> set (log s)"
  using served_is_last [of s] log_stored [of s] last_in_set [of "log s"] by (auto split: if_splits)

lemma log_grows: "step s s' \<Longrightarrow> \<exists>xs. log s' = log s @ xs \<and> length xs \<le> 1"
  using step_shape by (fastforce intro: exI [of _ "[]"])

end

end
