(* ===== verification/TransPub.thy ===== *)
theory TransPub
  imports ActivationLog PyText
begin

text \<open>
  \<open>app/transelec_publication.py\<close>: publish and restore of a Transelec import. Both are one
  transaction on the singleton dashboard-state row (locked, so activations run one after another)
  and the event table; an import that was never committed cannot be activated.
\<close>

datatype activation_type = Act_publish | Act_restore

record publish_event =
  ev_id :: int
  ev_import :: int
  ev_type :: activation_type
  ev_actor :: int
  ev_at :: int

record trans_pub =
  tp_now :: int
  tp_active :: "int option"
  tp_updated :: int
  tp_imports :: "int list"
  tp_events :: "publish_event list"
  tp_next_event :: int

record activation_result =
  ar_import :: int
  ar_type :: activation_type
  ar_event :: int
  ar_at :: int
  ar_previous :: "int option"

datatype activation_error = Import_not_found

definition read_active_import_id :: "trans_pub \<Rightarrow> int option" where
  "read_active_import_id s = tp_active s"

definition activate_import :: "int \<Rightarrow> int \<Rightarrow> activation_type \<Rightarrow> trans_pub
    \<Rightarrow> activation_error + activation_result \<times> trans_pub" where
  "activate_import import_id actor kind s =
     (let previous = tp_active s
      in if import_id \<notin> set (tp_imports s) then Inl Import_not_found
         else (let s1 = s\<lparr>tp_active := Some import_id, tp_updated := tp_now s\<rparr>;
                   ev = \<lparr>ev_id = tp_next_event s, ev_import = import_id, ev_type = kind, ev_actor = actor,
                     ev_at = tp_now s\<rparr>
               in Inr (\<lparr>ar_import = import_id, ar_type = kind, ar_event = ev_id ev, ar_at = ev_at ev,
                          ar_previous = previous\<rparr>,
                       s1\<lparr>tp_events := tp_events s @ [ev], tp_next_event := tp_next_event s + 1\<rparr>)))"

text \<open>Step B commits an import (\<open>transelec_import\<close> rows are never deleted); time passes.\<close>

inductive pub_step :: "trans_pub \<Rightarrow> trans_pub \<Rightarrow> bool" where
  Activate: "activate_import i actor kind s = Inr (r, s') \<Longrightarrow> pub_step s s'"
| Commit: "pub_step s (s\<lparr>tp_imports := tp_imports s @ [i]\<rparr>)"
| Clock: "0 \<le> d \<Longrightarrow> pub_step s (s\<lparr>tp_now := tp_now s + d\<rparr>)"

inductive_cases pub_stepE: "pub_step s s'"

definition pub_start :: "trans_pub \<Rightarrow> bool" where
  "pub_start s \<longleftrightarrow> tp_active s = None \<and> tp_events s = []"

lemma activate_Inr:
  "activate_import i actor kind s = Inr (r, s') \<longleftrightarrow>
     i \<in> set (tp_imports s)
     \<and> r = \<lparr>ar_import = i, ar_type = kind, ar_event = tp_next_event s, ar_at = tp_now s, ar_previous = tp_active s\<rparr>
     \<and> s' = s\<lparr>tp_active := Some i, tp_updated := tp_now s,
         tp_events := tp_events s @ [\<lparr>ev_id = tp_next_event s, ev_import = i, ev_type = kind, ev_actor = actor, ev_at = tp_now s\<rparr>],
         tp_next_event := tp_next_event s + 1\<rparr>"
  by (auto simp: activate_import_def Let_def)

interpretation trans: activation_log tp_active "\<lambda>s. map ev_import (tp_events s)" "\<lambda>s. set (tp_imports s)" pub_step pub_start
proof
  fix s s' assume "pub_step s s'"
  then show "set (tp_imports s) \<subseteq> set (tp_imports s') \<and>
      (tp_active s' = tp_active s \<and> map ev_import (tp_events s') = map ev_import (tp_events s)
       \<or> (\<exists>x \<in> set (tp_imports s). tp_active s' = Some x
            \<and> map ev_import (tp_events s') = map ev_import (tp_events s) @ [x]))"
    by (cases rule: pub_step.cases) (auto simp: activate_Inr)
qed (simp add: pub_start_def)

inductive pub_reachable :: "trans_pub \<Rightarrow> bool" where
  Start: "pub_start s \<Longrightarrow> pub_reachable s"
| Next: "pub_reachable s \<Longrightarrow> pub_step s s' \<Longrightarrow> pub_reachable s'"

lemma pub_reach: "pub_reachable s \<Longrightarrow> trans.reach s"
  by (induction rule: pub_reachable.induct) (auto intro: trans.reach.intros)

text \<open>
  C39. Publishing and restoring are the same single transition: it succeeds exactly for a committed
  import, makes that import the served one, reports the one served before, and appends exactly one
  event; a failed activation changes nothing. Over any history, the dashboard serves the import of
  the last event, which is a committed one, and serves nothing only if nothing was ever activated.
\<close>

theorem transelec_activation:
  assumes "pub_reachable s"
  shows "(activate_import i actor kind s = Inl Import_not_found \<longleftrightarrow> i \<notin> set (tp_imports s))
    \<and> (\<forall>r s'. activate_import i actor kind s = Inr (r, s') \<longrightarrow> pub_reachable s'
        \<and> read_active_import_id s' = Some i \<and> ar_previous r = read_active_import_id s
        \<and> map ev_import (tp_events s') = map ev_import (tp_events s) @ [i]
        \<and> tp_imports s' = tp_imports s)
    \<and> (case read_active_import_id s of
         None \<Rightarrow> tp_events s = []
       | Some x \<Rightarrow> x \<in> set (tp_imports s) \<and> tp_events s \<noteq> [] \<and> ev_import (last (tp_events s)) = x)"
proof -
  note r = pub_reach [OF assms]
  have "case tp_active s of None \<Rightarrow> tp_events s = []
      | Some x \<Rightarrow> x \<in> set (tp_imports s) \<and> tp_events s \<noteq> [] \<and> ev_import (last (tp_events s)) = x"
    using trans.served_is_last [OF r] trans.served_stored [OF r]
    by (auto simp: last_map split: option.splits if_splits)
  moreover have "pub_reachable s'" if "activate_import i actor kind s = Inr (r, s')" for r s'
    by (rule pub_reachable.Next [OF assms pub_step.Activate [OF that]])
  moreover have "activate_import i actor kind s = Inl Import_not_found \<longleftrightarrow> i \<notin> set (tp_imports s)"
    by (simp add: activate_import_def Let_def)
  ultimately show ?thesis by (auto simp: activate_Inr read_active_import_id_def)
qed

definition demo_pub :: trans_pub where
  "demo_pub = \<lparr>tp_now = 0, tp_active = None, tp_updated = 0, tp_imports = [4], tp_events = [], tp_next_event = 1\<rparr>"

theorem transelec_activation_witness:
  "activate_import 5 1 Act_publish demo_pub = Inl Import_not_found
   \<and> (\<exists>r s'. activate_import 4 1 Act_publish demo_pub = Inr (r, s') \<and> read_active_import_id s' = Some 4)"
proof -
  have r: "pub_reachable demo_pub" by (rule pub_reachable.Start) (simp add: pub_start_def demo_pub_def)
  obtain x s' where a: "activate_import 4 1 Act_publish demo_pub = Inr (x, s')"
    by (simp add: activate_import_def demo_pub_def)
  with transelec_activation [OF r, of 4 1 Act_publish] transelec_activation [OF r, of 5 1 Act_publish]
  show ?thesis by (auto simp: demo_pub_def)
qed

end
