(* ===== verification/ForestryPub.thy ===== *)
theory ForestryPub
  imports ActivationLog PyText
begin

text \<open>
  \<open>app/forestry_publication.py\<close>: which forestry snapshot the dashboard serves. The same
  activation contract as Transelec, with two more guards: the reviewer states which snapshot was
  published when the review was prepared, and publishing is for snapshots never served while
  restoring is for those that were.
\<close>

datatype f_event_type = F_publish | F_restore | F_initial

datatype version_status = V_published | V_pending | V_previously_published

datatype conflict_reason = Stale_review | Already_published | Use_restore | Not_previously_published

datatype f_pub_error = Snapshot_not_found | Publication_conflict conflict_reason | Foreign_key

record f_event =
  fe_id :: int
  fe_snapshot :: int
  fe_type :: f_event_type
  fe_previous :: "int option"
  fe_actor :: "int option"
  fe_at :: int

record f_pub =
  fp_now :: int
  fp_published :: "int option"
  fp_snapshots :: "int list"
  fp_events :: "f_event list"
  fp_next :: int

record f_activation_result =
  fr_snapshot :: int
  fr_type :: f_event_type
  fr_event :: int
  fr_at :: int
  fr_previous :: "int option"

definition read_published_snapshot_id :: "f_pub \<Rightarrow> int option" where
  "read_published_snapshot_id s = fp_published s"

definition ever_published_snapshot_ids :: "f_pub \<Rightarrow> int set" where
  "ever_published_snapshot_ids s = set (map fe_snapshot (fp_events s))"

definition version_status :: "f_pub \<Rightarrow> int \<Rightarrow> version_status" where
  "version_status s i =
     (if read_published_snapshot_id s = Some i then V_published
      else if i \<in> ever_published_snapshot_ids s then V_previously_published
      else V_pending)"

definition record_event :: "int \<Rightarrow> f_event_type \<Rightarrow> int option \<Rightarrow> int option \<Rightarrow> f_pub \<Rightarrow> f_pub" where
  "record_event i kind previous actor s =
     s\<lparr>fp_published := Some i,
       fp_events := fp_events s @ [\<lparr>fe_id = fp_next s, fe_snapshot = i, fe_type = kind,
         fe_previous = previous, fe_actor = actor, fe_at = fp_now s\<rparr>],
       fp_next := fp_next s + 1\<rparr>"

definition activate_snapshot :: "int \<Rightarrow> int \<Rightarrow> f_event_type \<Rightarrow> int option \<Rightarrow> f_pub
    \<Rightarrow> f_pub_error + f_activation_result \<times> f_pub" where
  "activate_snapshot i actor kind expected s =
     (let previous = fp_published s; was_published = i \<in> ever_published_snapshot_ids s
      in if i \<notin> set (fp_snapshots s) then Inl Snapshot_not_found
         else if previous \<noteq> expected then Inl (Publication_conflict Stale_review)
         else if previous = Some i then Inl (Publication_conflict Already_published)
         else if kind = F_publish \<and> was_published then Inl (Publication_conflict Use_restore)
         else if kind = F_restore \<and> \<not> was_published then Inl (Publication_conflict Not_previously_published)
         else Inr (\<lparr>fr_snapshot = i, fr_type = kind, fr_event = fp_next s, fr_at = fp_now s, fr_previous = previous\<rparr>,
                   record_event i kind previous (Some actor) s))"

text \<open>The controlled import; an unknown snapshot breaks the foreign key of the state row.\<close>

definition publish_initial_if_unpublished :: "int \<Rightarrow> f_pub \<Rightarrow> f_pub_error + bool \<times> f_pub" where
  "publish_initial_if_unpublished i s =
     (if fp_published s \<noteq> None then Inr (False, s)
      else if i \<notin> set (fp_snapshots s) then Inl Foreign_key
      else Inr (True, record_event i F_initial None None s))"

text \<open>\<open>activate_snapshot\<close> is called with \<open>publish\<close> or \<open>restore\<close> only.\<close>

inductive f_step :: "f_pub \<Rightarrow> f_pub \<Rightarrow> bool" where
  F_activate: "activate_snapshot i actor kind expected s = Inr (r, s') \<Longrightarrow> kind \<noteq> F_initial \<Longrightarrow> f_step s s'"
| F_initially: "publish_initial_if_unpublished i s = Inr (b, s') \<Longrightarrow> f_step s s'"
| F_ingest: "f_step s (s\<lparr>fp_snapshots := fp_snapshots s @ [i]\<rparr>)"
| F_clock: "0 \<le> d \<Longrightarrow> f_step s (s\<lparr>fp_now := fp_now s + d\<rparr>)"

definition f_start :: "f_pub \<Rightarrow> bool" where
  "f_start s \<longleftrightarrow> fp_published s = None \<and> fp_events s = []"

inductive f_reachable :: "f_pub \<Rightarrow> bool" where
  F_start: "f_start s \<Longrightarrow> f_reachable s"
| F_next: "f_reachable s \<Longrightarrow> f_step s s' \<Longrightarrow> f_reachable s'"

lemma activate_snapshot_Inr:
  "activate_snapshot i actor kind expected s = Inr (r, s') \<longleftrightarrow>
     i \<in> set (fp_snapshots s) \<and> fp_published s = expected \<and> fp_published s \<noteq> Some i
     \<and> (kind = F_publish \<longrightarrow> i \<notin> ever_published_snapshot_ids s)
     \<and> (kind = F_restore \<longrightarrow> i \<in> ever_published_snapshot_ids s)
     \<and> r = \<lparr>fr_snapshot = i, fr_type = kind, fr_event = fp_next s, fr_at = fp_now s, fr_previous = fp_published s\<rparr>
     \<and> s' = record_event i kind (fp_published s) (Some actor) s"
  by (auto simp: activate_snapshot_def Let_def)

lemma publish_initial_Inr:
  "publish_initial_if_unpublished i s = Inr (b, s') \<longleftrightarrow>
     (if fp_published s = None then i \<in> set (fp_snapshots s) \<and> b \<and> s' = record_event i F_initial None None s
      else \<not> b \<and> s' = s)"
  by (auto simp: publish_initial_if_unpublished_def)

interpretation forestry: activation_log fp_published "\<lambda>s. map fe_snapshot (fp_events s)"
  "\<lambda>s. set (fp_snapshots s)" f_step f_start
proof
  fix s s' assume "f_step s s'"
  then show "set (fp_snapshots s) \<subseteq> set (fp_snapshots s') \<and>
      (fp_published s' = fp_published s \<and> map fe_snapshot (fp_events s') = map fe_snapshot (fp_events s)
       \<or> (\<exists>x \<in> set (fp_snapshots s). fp_published s' = Some x
            \<and> map fe_snapshot (fp_events s') = map fe_snapshot (fp_events s) @ [x]))"
    by (cases rule: f_step.cases)
      (auto simp: activate_snapshot_Inr publish_initial_Inr record_event_def split: if_splits)
qed (simp add: f_start_def)

lemma f_reach: "f_reachable s \<Longrightarrow> forestry.reach s"
  by (induction rule: f_reachable.induct) (auto intro: forestry.reach.intros)

section \<open>The trail\<close>

text \<open>
  A trail is well formed when each event names the snapshot served before it, a first appearance is
  a publication (or the initial one, before anything else), and a later one is a restore.
\<close>

fun trail_ok :: "int option \<Rightarrow> int set \<Rightarrow> f_event list \<Rightarrow> bool" where
  "trail_ok served seen [] = True"
| "trail_ok served seen (e # es) =
     (fe_previous e = served \<and> fe_previous e \<noteq> Some (fe_snapshot e)
      \<and> (fe_type e = F_restore \<longleftrightarrow> fe_snapshot e \<in> seen)
      \<and> (fe_type e = F_initial \<longrightarrow> served = None)
      \<and> (fe_actor e = None \<longleftrightarrow> fe_type e = F_initial)
      \<and> trail_ok (Some (fe_snapshot e)) (insert (fe_snapshot e) seen) es)"

lemma trail_ok_snoc:
  "trail_ok served seen (es @ [e]) \<longleftrightarrow> trail_ok served seen es
     \<and> (let served' = (if es = [] then served else Some (fe_snapshot (last es)));
            seen' = seen \<union> set (map fe_snapshot es)
        in fe_previous e = served' \<and> fe_previous e \<noteq> Some (fe_snapshot e)
           \<and> (fe_type e = F_restore \<longleftrightarrow> fe_snapshot e \<in> seen')
           \<and> (fe_type e = F_initial \<longrightarrow> served' = None)
           \<and> (fe_actor e = None \<longleftrightarrow> fe_type e = F_initial))"
  by (induction es arbitrary: served seen) (auto simp: Let_def)

lemma f_reachable_trail: "f_reachable s \<Longrightarrow> trail_ok None {} (fp_events s)"
proof (induction rule: f_reachable.induct)
  case (F_start s)
  then show ?case by (simp add: f_start_def)
next
  case (F_next s s')
  have served: "fp_published s = (if fp_events s = [] then None else Some (fe_snapshot (last (fp_events s))))"
    using forestry.served_is_last [OF f_reach [OF F_next.hyps(1)]] by (simp add: last_map)
  from F_next.hyps(2) show ?case
  proof (cases rule: f_step.cases)
    case (F_activate i actor kind expected r)
    then show ?thesis using F_next.IH served
      by (cases kind) (auto simp: activate_snapshot_Inr record_event_def trail_ok_snoc Let_def ever_published_snapshot_ids_def)
  next
    case (F_initially i b)
    then show ?thesis using F_next.IH served
      by (auto simp: publish_initial_Inr record_event_def trail_ok_snoc Let_def split: if_splits)
  qed (use F_next.IH in simp_all)
qed

text \<open>
  C38. In every history the publication trail is well formed: each event names the snapshot that
  was served before it, a snapshot's first event is a publication and every later one a restore,
  only the very first event can be the initial one and only it has no actor; and a version's status
  is read off the trail: published is the snapshot of the last event, previously published one of
  an earlier event, pending one without events.
\<close>

theorem forestry_trail:
  assumes "f_reachable s"
  shows "trail_ok None {} (fp_events s)
    \<and> (version_status s i = V_published \<longleftrightarrow> fp_events s \<noteq> [] \<and> fe_snapshot (last (fp_events s)) = i)
    \<and> (version_status s i = V_pending \<longleftrightarrow> i \<notin> fe_snapshot ` set (fp_events s))
    \<and> (version_status s i \<noteq> V_pending \<longrightarrow> i \<in> set (fp_snapshots s))"
proof -
  note r = f_reach [OF assms]
  have served: "fp_published s = (if fp_events s = [] then None else Some (fe_snapshot (last (fp_events s))))"
    using forestry.served_is_last [OF r] by (simp add: last_map)
  moreover have "fe_snapshot ` set (fp_events s) \<subseteq> set (fp_snapshots s)"
    using forestry.log_stored [OF r] by simp
  ultimately show ?thesis
    using f_reachable_trail [OF assms]
    by (auto simp: version_status_def read_published_snapshot_id_def ever_published_snapshot_ids_def)
qed

text \<open>
  An activation succeeds exactly when it applies: the snapshot is stored, the review was prepared
  against the version that is published, and the snapshot was never served, for a publication, or was
  served before and is not now, for a restore. The snapshot is then the published one, the one before
  it a previously published one, and the status of every other version is as it was.
\<close>

theorem forestry_activation:
  assumes "f_reachable s" and "kind \<noteq> F_initial"
  shows "(\<exists>r s'. activate_snapshot i actor kind expected s = Inr (r, s') \<and> version_status s' i = V_published
            \<and> fr_previous r = expected \<and> (\<forall>j. j \<noteq> i \<and> Some j \<noteq> expected \<longrightarrow> version_status s' j = version_status s j)
            \<and> (\<forall>j. Some j = expected \<longrightarrow> version_status s' j = V_previously_published))
       \<longleftrightarrow> i \<in> set (fp_snapshots s) \<and> read_published_snapshot_id s = expected
         \<and> version_status s i = (if kind = F_publish then V_pending else V_previously_published)"
    (is "?L \<longleftrightarrow> ?R")
proof
  assume ?L
  then show ?R using assms(2)
    by (cases kind) (auto simp: activate_snapshot_Inr version_status_def read_published_snapshot_id_def)
next
  assume R: ?R
  then have "fp_published s \<noteq> Some i" by (auto simp: version_status_def read_published_snapshot_id_def split: if_splits)
  moreover have "fp_published s = Some j \<Longrightarrow> j \<in> ever_published_snapshot_ids s" for j
    using forestry.served_stored [OF f_reach [OF assms(1)]] by (auto simp: ever_published_snapshot_ids_def)
  ultimately show ?L using R assms(2)
    by (cases kind) (auto simp: activate_snapshot_Inr version_status_def read_published_snapshot_id_def
        record_event_def ever_published_snapshot_ids_def split: if_splits)
qed

definition demo_fpub :: f_pub where
  "demo_fpub = \<lparr>fp_now = 0, fp_published = None, fp_snapshots = [4, 5], fp_events = [], fp_next = 1\<rparr>"

lemma demo_fpub_reachable: "f_reachable demo_fpub"
  by (rule f_reachable.F_start) (simp add: f_start_def demo_fpub_def)

text \<open>The same tables after snapshot 4 is published.\<close>

definition demo_served :: f_pub where
  "demo_served = record_event 4 F_publish None (Some 1) demo_fpub"

lemma demo_served_reachable: "f_reachable demo_served"
proof (rule f_reachable.F_next [OF demo_fpub_reachable])
  have "activate_snapshot 4 1 F_publish None demo_fpub =
      Inr (\<lparr>fr_snapshot = 4, fr_type = F_publish, fr_event = 1, fr_at = 0, fr_previous = None\<rparr>, demo_served)"
    by (simp add: activate_snapshot_Inr demo_served_def demo_fpub_def ever_published_snapshot_ids_def)
  then show "f_step demo_fpub demo_served" by (rule f_step.F_activate) simp
qed

theorem forestry_trail_witness:
  "version_status demo_served 4 = V_published \<and> version_status demo_served 5 = V_pending \<and> trail_ok None {} (fp_events demo_served)"
  using forestry_trail [OF demo_served_reachable, of 4] forestry_trail [OF demo_served_reachable, of 5]
  by (simp add: demo_served_def demo_fpub_def record_event_def)

theorem forestry_activation_witness:
  "\<exists>r s'. activate_snapshot 4 1 F_publish None demo_fpub = Inr (r, s') \<and> version_status s' 4 = V_published"
proof -
  have "4 \<in> set (fp_snapshots demo_fpub) \<and> read_published_snapshot_id demo_fpub = None
      \<and> version_status demo_fpub 4 = (if F_publish = F_publish then V_pending else V_previously_published)"
    by (simp add: demo_fpub_def version_status_def read_published_snapshot_id_def ever_published_snapshot_ids_def)
  with forestry_activation [OF demo_fpub_reachable, of F_publish 4 1 None] show ?thesis by blast
qed

end
