(* ===== verification/OverrideStore.thy ===== *)
theory OverrideStore
  imports FieldOverrides
begin

text \<open>
  \<open>app/transelec_overrides.py\<close> over the tables and views of migration 0012: web edits of
  single cells of the published planilla. An edit is keyed by the row's business key and its
  position among the rows sharing that key, so it follows the row into later imports; its status
  against an import says whether it still applies. Each operation is one transaction (the
  singleton share lock and the per-cell advisory lock serialise the edits of one cell).
\<close>

section \<open>Tables\<close>

datatype override_status = O_aplicada | O_incorporada | O_en_conflicto | O_huerfana

datatype end_reason = E_superseded | E_discarded | E_kept | E_incorporated

datatype store_error = No_active_version | Version_changed | Row_not_found | Field_not_in_source
  | Value_changed | Override_not_found | Not_in_conflict | Unique_violation | No_result

definition text_fields :: "string list" where
  "text_fields = [''estado'', ''estado_resumido'', ''tipo_rechazo'', ''reingreso_tec'',
     ''reingreso_legal'', ''reingreso_recrep'', ''numero_ingreso'', ''numero_ingreso_2'']"

definition date_fields :: "string list" where
  "date_fields = [''fecha_ingreso'', ''fecha_ingreso_2'', ''fecha_90_dias'']"

type_synonym cell_key = "pystr \<times> pystr option \<times> pystr option \<times> pystr option"

text \<open>The editable columns of a source row, by name; the identity columns are its key.\<close>

record src_row =
  sw_import :: int
  sw_number :: int
  sw_key :: cell_key
  sw_text :: "string \<Rightarrow> pystr option"
  sw_date :: "string \<Rightarrow> date option"
  sw_text_dates :: text_dates

record override =
  ov_id :: int
  ov_key :: cell_key
  ov_ordinal :: nat
  ov_field :: string
  ov_text :: "pystr option"
  ov_date :: "date option"
  ov_ptext :: "pystr option"
  ov_pdate :: "date option"
  ov_base :: int
  ov_author :: int
  ov_created :: int
  ov_ended :: "(int \<times> int \<times> end_reason) option"

text \<open>\<open>mapping_report\<close>: the field entries with their column, absent for contract V1.\<close>

record import_row =
  im_id :: int
  im_version :: string
  im_report :: "(string \<times> pystr option) list option"

record edit_store =
  st_now :: int
  st_active :: "int option"
  st_imports :: "import_row list"
  st_rows :: "src_row list"
  st_overrides :: "override list"
  st_next :: int

record save_outcome =
  so_override :: "int option"
  so_ended :: "int option"
  so_changed :: bool

section \<open>Views\<close>

definition key_ordinal :: "src_row list \<Rightarrow> src_row \<Rightarrow> nat" where
  "key_ordinal rows r =
     length (filter (\<lambda>q. sw_import q = sw_import r \<and> sw_key q = sw_key r \<and> sw_number q \<le> sw_number r) rows)"

definition col_value :: "src_row \<Rightarrow> string \<Rightarrow> cell_value" where
  "col_value r f =
     (if f \<in> set date_fields then (case sw_date r f of None \<Rightarrow> CNone | Some d \<Rightarrow> CDate d)
      else text_value (sw_text r f))"

text \<open>\<open>(s.source_text, s.source_date)\<close> of the lateral join.\<close>

definition source_signature :: "src_row \<Rightarrow> string \<Rightarrow> signature" where
  "source_signature r f =
     (if f \<in> set date_fields then
        (case sw_date r f of
           None \<Rightarrow> (normalize_text (evidence_raw (sw_text_dates r) f), None)
         | Some d \<Rightarrow> (None, Some d))
      else (normalize_text (sw_text r f), None))"

definition keyed_match :: "edit_store \<Rightarrow> int \<Rightarrow> override \<Rightarrow> src_row option" where
  "keyed_match st i ov =
     find (\<lambda>r. sw_import r = i \<and> sw_key r = ov_key ov \<and> key_ordinal (st_rows st) r = ov_ordinal ov) (st_rows st)"

definition status_of :: "src_row option \<Rightarrow> override \<Rightarrow> override_status" where
  "status_of k ov =
     (case k of
        None \<Rightarrow> O_huerfana
      | Some r \<Rightarrow>
          (if source_signature r (ov_field ov) = (normalize_text (ov_ptext ov), ov_pdate ov) then O_aplicada
           else if source_signature r (ov_field ov) = (normalize_text (ov_text ov), ov_date ov) then O_incorporada
           else O_en_conflicto))"

definition override_state :: "edit_store \<Rightarrow> int \<Rightarrow> override \<Rightarrow> override_status" where
  "override_state st i ov = status_of (keyed_match st i ov) ov"

text \<open>The edits applied to one cell of one row; the unique index leaves at most one.\<close>

definition applied :: "edit_store \<Rightarrow> src_row \<Rightarrow> string \<Rightarrow> override list" where
  "applied st r f =
     filter (\<lambda>ov. ov_ended ov = None \<and> ov_field ov = f
       \<and> (case keyed_match st (sw_import r) ov of None \<Rightarrow> False
          | Some q \<Rightarrow> sw_number q = sw_number r \<and> status_of (Some q) ov = O_aplicada)) (st_overrides st)"

definition effective_row :: "edit_store \<Rightarrow> src_row \<Rightarrow> src_row" where
  "effective_row st r =
     r\<lparr>sw_text := (\<lambda>f. if f \<in> set text_fields then (case applied st r f of [] \<Rightarrow> sw_text r f | ov # _ \<Rightarrow> ov_text ov)
                       else sw_text r f),
       sw_date := (\<lambda>f. if f \<in> set date_fields then (case applied st r f of [] \<Rightarrow> sw_date r f | ov # _ \<Rightarrow> ov_date ov)
                       else sw_date r f),
       sw_text_dates := filter (\<lambda>(f, _). \<not> (f \<in> set date_fields \<and> applied st r f \<noteq> [])) (sw_text_dates r)\<rparr>"

section \<open>Operations\<close>

definition source_fields :: "import_row \<Rightarrow> string list" where
  "source_fields im =
     (case im_report im of
        None \<Rightarrow> (if im_version im = ''transelec-resumen-v1'' then map snd resumen_columns else [])
      | Some entries \<Rightarrow> map fst (filter (\<lambda>(_, column). column \<noteq> None \<and> column \<noteq> Some []) entries))"

definition coalesced :: "cell_key \<Rightarrow> pystr \<times> pystr \<times> pystr \<times> pystr" where
  "coalesced k = (case k of (pmf, rol, predio, area) \<Rightarrow>
     (pmf, case rol of None \<Rightarrow> [] | Some s \<Rightarrow> s, case predio of None \<Rightarrow> [] | Some s \<Rightarrow> s,
      case area of None \<Rightarrow> [] | Some s \<Rightarrow> s))"

definition end_override :: "int \<Rightarrow> end_reason \<Rightarrow> int \<Rightarrow> edit_store \<Rightarrow> edit_store" where
  "end_override i reason actor st =
     st\<lparr>st_overrides := map (\<lambda>ov. if ov_id ov = i \<and> ov_ended ov = None
          then ov\<lparr>ov_ended := Some (st_now st, actor, reason)\<rparr> else ov) (st_overrides st)\<rparr>"

text \<open>The insert, under the partial unique index over the coalesced key.\<close>

definition insert_override :: "cell_key \<Rightarrow> nat \<Rightarrow> string \<Rightarrow> signature \<Rightarrow> signature \<Rightarrow> int \<Rightarrow> int \<Rightarrow> edit_store
    \<Rightarrow> store_error + int \<times> edit_store" where
  "insert_override key ordinal f web planilla base actor st =
     (if list_ex (\<lambda>ov. ov_ended ov = None \<and> coalesced (ov_key ov) = coalesced key
          \<and> ov_ordinal ov = ordinal \<and> ov_field ov = f) (st_overrides st)
      then Inl Unique_violation
      else Inr (st_next st, st\<lparr>st_overrides := st_overrides st @
             [\<lparr>ov_id = st_next st, ov_key = key, ov_ordinal = ordinal, ov_field = f, ov_text = fst web,
               ov_date = snd web, ov_ptext = fst planilla, ov_pdate = snd planilla, ov_base = base,
               ov_author = actor, ov_created = st_now st, ov_ended = None\<rparr>],
             st_next := st_next st + 1\<rparr>))"

definition cell_override :: "edit_store \<Rightarrow> cell_key \<Rightarrow> nat \<Rightarrow> string \<Rightarrow> override option" where
  "cell_override st key ordinal f =
     find (\<lambda>ov. ov_ended ov = None \<and> ov_field ov = f \<and> ov_key ov = key \<and> ov_ordinal ov = ordinal) (st_overrides st)"

definition save_cell :: "editable_field \<Rightarrow> src_row \<Rightarrow> cell_value \<Rightarrow> cell_value \<Rightarrow> int \<Rightarrow> edit_store
    \<Rightarrow> store_error + save_outcome \<times> edit_store" where
  "save_cell f row v expected actor st =
     (let name = ef_name f; eff = effective_row st row;
          active = cell_override st (sw_key row) (key_ordinal (st_rows st) row) name;
          web = value_signature f v;
          planilla = cell_signature f (col_value row name) (sw_text_dates row);
          ended = (\<lambda>reason. case active of None \<Rightarrow> st | Some ov \<Rightarrow> end_override (ov_id ov) reason actor st)
      in if shown_value f (col_value eff name) \<noteq> expected then Inl Value_changed
         else if web = cell_signature f (col_value eff name) (sw_text_dates eff) then
           Inr (\<lparr>so_override = map_option ov_id active, so_ended = None, so_changed = False\<rparr>, st)
         else if web = planilla then
           Inr (\<lparr>so_override = None, so_ended = map_option ov_id active, so_changed = True\<rparr>, ended E_discarded)
         else (case insert_override (sw_key row) (key_ordinal (st_rows st) row) name web planilla
                      (sw_import row) actor (ended E_superseded) of
             Inl e \<Rightarrow> Inl e
           | Inr (new_id, st') \<Rightarrow>
               Inr (\<lparr>so_override = Some new_id, so_ended = map_option ov_id active, so_changed = True\<rparr>, st')))"

definition find_row :: "edit_store \<Rightarrow> int \<Rightarrow> int \<Rightarrow> src_row option" where
  "find_row st i n = find (\<lambda>r. sw_import r = i \<and> sw_number r = n) (st_rows st)"

definition save_override :: "int \<Rightarrow> int \<Rightarrow> editable_field \<Rightarrow> cell_value \<Rightarrow> cell_value \<Rightarrow> int \<Rightarrow> edit_store
    \<Rightarrow> store_error + save_outcome \<times> edit_store" where
  "save_override import_id number f v expected actor st =
     (case st_active st of
        None \<Rightarrow> Inl No_active_version
      | Some a \<Rightarrow>
          (if import_id \<noteq> a then Inl Version_changed
           else (case find (\<lambda>im. im_id im = import_id) (st_imports st) of
               None \<Rightarrow> Inl No_result
             | Some im \<Rightarrow>
                 (if ef_name f \<notin> set (source_fields im) then Inl Field_not_in_source
                  else (case find_row st import_id number of
                      None \<Rightarrow> Inl Row_not_found
                    | Some row \<Rightarrow> save_cell f row v expected actor st)))))"

definition find_override :: "edit_store \<Rightarrow> int \<Rightarrow> override option" where
  "find_override st i = find (\<lambda>ov. ov_id ov = i) (st_overrides st)"

definition find_active :: "edit_store \<Rightarrow> int \<Rightarrow> override option" where
  "find_active st i = find (\<lambda>ov. ov_id ov = i \<and> ov_ended ov = None) (st_overrides st)"

definition discard_override :: "int \<Rightarrow> int \<Rightarrow> edit_store \<Rightarrow> store_error + edit_store" where
  "discard_override i actor st =
     (if find_override st i = None \<or> find_active st i = None then Inl Override_not_found
      else Inr (end_override i E_discarded actor st))"

definition keep_override :: "int \<Rightarrow> int \<Rightarrow> edit_store \<Rightarrow> store_error + int \<times> edit_store" where
  "keep_override i actor st =
     (case st_active st of
        None \<Rightarrow> Inl No_active_version
      | Some import_id \<Rightarrow>
          (if find_override st i = None then Inl Override_not_found
           else (case find_active st i of
               None \<Rightarrow> Inl Override_not_found
             | Some cur \<Rightarrow>
                 (if import_id \<notin> im_id ` set (st_imports st) then Inl No_result
                  else if override_state st import_id cur \<noteq> O_en_conflicto then Inl Not_in_conflict
                  else (case keyed_match st import_id cur of
                      None \<Rightarrow> Inl Not_in_conflict
                    | Some r \<Rightarrow>
                        insert_override (ov_key cur) (ov_ordinal cur) (ov_field cur) (ov_text cur, ov_date cur)
                          (source_signature r (ov_field cur)) import_id actor
                          (end_override i E_kept actor st))))))"

definition retire_incorporated_overrides :: "int \<Rightarrow> int \<Rightarrow> edit_store \<Rightarrow> store_error + nat \<times> edit_store" where
  "retire_incorporated_overrides import_id actor st =
     (case find (\<lambda>im. im_id im = import_id) (st_imports st) of
        None \<Rightarrow> Inl No_result
      | Some im \<Rightarrow>
          (let hit = (\<lambda>ov. ov_ended ov = None \<and> override_state st import_id ov = O_incorporada
                 \<and> ov_field ov \<in> set (source_fields im))
           in Inr (length (filter hit (st_overrides st)),
                st\<lparr>st_overrides := map (\<lambda>ov. if hit ov
                   then ov\<lparr>ov_ended := Some (st_now st, actor, E_incorporated)\<rparr> else ov) (st_overrides st)\<rparr>)))"

section \<open>The invariant of the tables\<close>

definition edit_field_ok :: "editable_field \<Rightarrow> bool" where
  "edit_field_ok f \<longleftrightarrow> Some f \<in> set editable_fields"

definition same_cell :: "override \<Rightarrow> override \<Rightarrow> bool" where
  "same_cell a b \<longleftrightarrow> coalesced (ov_key a) = coalesced (ov_key b) \<and> ov_ordinal a = ov_ordinal b \<and> ov_field a = ov_field b"

text \<open>
  Row numbers identify rows of an import, edit ids are fresh, a cell has at most one active edit
  (the unique index), and an edit sets the side of its field's kind (the check constraints).
\<close>

definition override_ok :: "override \<Rightarrow> bool" where
  "override_ok ov \<longleftrightarrow> ov_field ov \<in> set text_fields \<union> set date_fields
     \<and> (if ov_field ov \<in> set date_fields then ov_text ov = None
        else ov_date ov = None \<and> ov_pdate ov = None \<and> normalize_text (ov_text ov) = ov_text ov)"

definition store_ok :: "edit_store \<Rightarrow> bool" where
  "store_ok st \<longleftrightarrow> distinct (map (\<lambda>r. (sw_import r, sw_number r)) (st_rows st))
     \<and> distinct (map ov_id (st_overrides st)) \<and> (\<forall>ov \<in> set (st_overrides st). ov_id ov < st_next st \<and> override_ok ov)
     \<and> (\<forall>a \<in> set (st_overrides st). \<forall>b \<in> set (st_overrides st).
          ov_ended a = None \<and> ov_ended b = None \<and> same_cell a b \<longrightarrow> a = b)"

lemma field_kinds:
  "list_all (\<lambda>n. (map_option fs_kind (map_of field_by_name n) = Some K_date \<longleftrightarrow> n \<in> set date_fields)
      \<and> (n \<in> set text_fields \<longleftrightarrow> n \<notin> set date_fields)) editable_names"
  by (simp add: editable_names_def field_by_name_def field_specs_def field_spec_def date_fields_def text_fields_def)

lemma editable_kinds:
  "edit_field_ok f \<Longrightarrow> (ef_kind f = Edit_date \<longleftrightarrow> ef_name f \<in> set date_fields)
     \<and> (ef_name f \<in> set text_fields \<longleftrightarrow> ef_name f \<notin> set date_fields)"
proof -
  assume "edit_field_ok f"
  then obtain n where n: "n \<in> set editable_names" "editable n = Some f"
    by (auto simp: edit_field_ok_def editable_fields_def)
  then obtain spec where spec: "map_of field_by_name n = Some spec"
    and f: "ef_name f = n" "ef_kind f = Edit_date \<longleftrightarrow> fs_kind spec = K_date"
    by (auto simp: editable_def split: option.splits field_kind.splits)
  have "n \<in> set editable_names \<Longrightarrow> ?thesis" using field_kinds spec f by (auto simp: list_all_iff)
  with n(1) show ?thesis by blast
qed


section \<open>Rows and their keys\<close>

lemma ordinal_inj:
  assumes "distinct (map (\<lambda>r. (sw_import r, sw_number r)) rows)"
    and "r \<in> set rows" "q \<in> set rows" "sw_import r = sw_import q" "sw_key r = sw_key q"
    and "key_ordinal rows r = key_ordinal rows q"
  shows "r = q"
proof (rule ccontr)
  let ?P = "\<lambda>r q'. sw_import q' = sw_import r \<and> sw_key q' = sw_key r \<and> sw_number q' \<le> sw_number r"
  have less: "key_ordinal rows a < key_ordinal rows b"
    if "sw_number a < sw_number b" "b \<in> set rows" "sw_import a = sw_import b" "sw_key a = sw_key b" for a b
  proof -
    have "filter (?P a) rows = filter (?P a) (filter (?P b) rows)"
      using that by (auto intro!: filter_cong)
    moreover have "length (filter (?P a) (filter (?P b) rows)) < length (filter (?P b) rows)"
      by (rule length_filter_less [of b]) (use that in auto)
    ultimately show ?thesis by (simp add: key_ordinal_def)
  qed
  assume "r \<noteq> q"
  then have "sw_number r \<noteq> sw_number q" using assms(1-4) by (auto simp: distinct_map dest: inj_onD)
  then show False using less [of r q] less [of q r] assms by (metis less_irrefl linorder_neqE)
qed

lemma store_okD:
  assumes "store_ok st"
  shows "distinct (map (\<lambda>r. (sw_import r, sw_number r)) (st_rows st))" "distinct (st_overrides st)"
    and "a \<in> set (st_overrides st) \<Longrightarrow> override_ok a \<and> ov_id a < st_next st"
    and "a \<in> set (st_overrides st) \<Longrightarrow> b \<in> set (st_overrides st) \<Longrightarrow> ov_id a = ov_id b \<Longrightarrow> a = b"
    and "a \<in> set (st_overrides st) \<Longrightarrow> b \<in> set (st_overrides st) \<Longrightarrow> ov_ended a = None \<Longrightarrow> ov_ended b = None
      \<Longrightarrow> same_cell a b \<Longrightarrow> a = b"
  using assms unfolding store_ok_def by (auto simp: distinct_map dest: inj_onD)

lemma keyed_match_iff:
  assumes "store_ok st"
  shows "keyed_match st i ov = Some r \<longleftrightarrow> r \<in> set (st_rows st) \<and> sw_import r = i \<and> sw_key r = ov_key ov
    \<and> key_ordinal (st_rows st) r = ov_ordinal ov"
  unfolding keyed_match_def
  by (subst find_unique) (auto intro: ordinal_inj [OF store_okD(1) [OF assms]])

definition at_cell :: "cell_key \<Rightarrow> nat \<Rightarrow> string \<Rightarrow> override \<Rightarrow> bool" where
  "at_cell key ordinal f ov \<longleftrightarrow> ov_ended ov = None \<and> ov_field ov = f \<and> ov_key ov = key \<and> ov_ordinal ov = ordinal"

lemma cell_override_iff:
  assumes "store_ok st"
  shows "cell_override st key ordinal f = Some ov \<longleftrightarrow> ov \<in> set (st_overrides st) \<and> at_cell key ordinal f ov"
proof -
  have "cell_override st key ordinal f = find (at_cell key ordinal f) (st_overrides st)"
    by (simp add: cell_override_def at_cell_def [abs_def])
  also have "\<dots> = Some ov \<longleftrightarrow> ov \<in> set (st_overrides st) \<and> at_cell key ordinal f ov"
    using store_okD(5) [OF assms] by (intro find_unique) (auto simp: at_cell_def same_cell_def)
  finally show ?thesis .
qed

lemma cell_override_None:
  "cell_override st key ordinal f = None \<longleftrightarrow> (\<forall>ov \<in> set (st_overrides st). \<not> at_cell key ordinal f ov)"
  by (auto simp: cell_override_def at_cell_def find_None_iff)

definition anchored :: "src_row \<Rightarrow> override \<Rightarrow> bool" where
  "anchored r ov \<longleftrightarrow> source_signature r (ov_field ov) = (normalize_text (ov_ptext ov), ov_pdate ov)"

text \<open>What applies to a cell is its active edit, when the planilla still says what the editor saw.\<close>

lemma applied_cell:
  assumes "store_ok st" and "r \<in> set (st_rows st)"
  shows "applied st r f = (case cell_override st (sw_key r) (key_ordinal (st_rows st) r) f of
    None \<Rightarrow> [] | Some ov \<Rightarrow> if anchored r ov then [ov] else [])"
proof -
  let ?Q = "at_cell (sw_key r) (key_ordinal (st_rows st) r) f"
  have P: "(ov_ended ov = None \<and> ov_field ov = f
       \<and> (case keyed_match st (sw_import r) ov of None \<Rightarrow> False
          | Some q \<Rightarrow> sw_number q = sw_number r \<and> status_of (Some q) ov = O_aplicada))
      \<longleftrightarrow> anchored r ov \<and> ?Q ov" for ov
  proof (cases "keyed_match st (sw_import r) ov")
    case None
    then have "\<not> ?Q ov" using keyed_match_iff [OF assms(1), of "sw_import r" ov r] assms(2) by (auto simp: at_cell_def)
    with None show ?thesis by simp
  next
    case (Some q)
    then have q: "q \<in> set (st_rows st)" "sw_import q = sw_import r" "sw_key q = ov_key ov"
      "key_ordinal (st_rows st) q = ov_ordinal ov" using keyed_match_iff [OF assms(1)] by blast+
    have num: "sw_number q = sw_number r \<longleftrightarrow> q = r"
      using store_okD(1) [OF assms(1)] q(1,2) assms(2) unfolding distinct_map inj_on_def by blast
    show ?thesis
    proof (cases "q = r")
      case True
      with Some q(3,4) show ?thesis by (simp add: at_cell_def status_of_def anchored_def conj_ac)
    next
      case False
      then have "\<not> ?Q ov"
        using ordinal_inj [OF store_okD(1) [OF assms(1)] q(1) assms(2) q(2)] q(3,4) by (auto simp: at_cell_def)
      with Some num False show ?thesis by simp
    qed
  qed
  have "applied st r f = filter (anchored r) (filter ?Q (st_overrides st))"
    unfolding applied_def P by (simp add: conj_commute)
  also have "filter ?Q (st_overrides st) = (case find ?Q (st_overrides st) of None \<Rightarrow> [] | Some x \<Rightarrow> [x])"
    using store_okD(5) [OF assms(1)]
    by (intro filter_unique store_okD(2) [OF assms(1)]) (auto simp: at_cell_def same_cell_def)
  also have "find ?Q (st_overrides st) = cell_override st (sw_key r) (key_ordinal (st_rows st) r) f"
    by (simp add: cell_override_def at_cell_def [abs_def])
  finally show ?thesis by (simp split: option.splits)
qed

section \<open>What a cell shows\<close>

definition shown_signature :: "edit_store \<Rightarrow> src_row \<Rightarrow> editable_field \<Rightarrow> signature" where
  "shown_signature st r f =
     cell_signature f (col_value (effective_row st r) (ef_name f)) (sw_text_dates (effective_row st r))"

lemma cell_signature_source:
  "edit_field_ok f \<Longrightarrow> cell_signature f (col_value r (ef_name f)) (sw_text_dates r) = source_signature r (ef_name f)"
  using editable_kinds [of f]
  by (auto simp: cell_signature_def col_value_def source_signature_def date_side_def text_side_def
      text_value_def split: option.splits)

lemma evidence_raw_filter:
  "evidence_raw (filter (\<lambda>(g, _). P g) tds) f = (if P f then evidence_raw tds f else None)"
proof -
  have "map_of (filter (\<lambda>(g, _). P g) tds) f = (if P f then map_of tds f else None)"
    by (induction tds) auto
  then show ?thesis by (simp add: evidence_raw_def)
qed

lemma shown_signature_eq:
  assumes "store_ok st" and "r \<in> set (st_rows st)" and "edit_field_ok f"
  shows "shown_signature st r f = (case applied st r (ef_name f) of
    [] \<Rightarrow> source_signature r (ef_name f) | ov # _ \<Rightarrow> (ov_text ov, ov_date ov))"
proof (cases "applied st r (ef_name f)")
  case Nil
  then have "evidence_raw (sw_text_dates (effective_row st r)) (ef_name f) = evidence_raw (sw_text_dates r) (ef_name f)"
    using evidence_raw_filter [of "\<lambda>g. \<not> (g \<in> set date_fields \<and> applied st r g \<noteq> [])" "sw_text_dates r" "ef_name f"]
    by (simp add: effective_row_def)
  moreover have "col_value (effective_row st r) (ef_name f) = col_value r (ef_name f)"
    using Nil by (simp add: effective_row_def col_value_def)
  ultimately have "shown_signature st r f = cell_signature f (col_value r (ef_name f)) (sw_text_dates r)"
    unfolding shown_signature_def cell_signature_def by (simp only:)
  with Nil cell_signature_source [OF assms(3)] show ?thesis by simp
next
  case (Cons ov rest)
  then have "ov \<in> set (st_overrides st)" "ov_field ov = ef_name f" by (auto simp: applied_def filter_eq_Cons_iff)
  then have ok: "override_ok ov" "ov_field ov = ef_name f" using store_okD(3) [OF assms(1)] by blast+
  show ?thesis
  proof (cases "ef_name f \<in> set date_fields")
    case True
    then have "evidence_raw (sw_text_dates (effective_row st r)) (ef_name f) = None"
      using Cons evidence_raw_filter [of "\<lambda>g. \<not> (g \<in> set date_fields \<and> applied st r g \<noteq> [])" "sw_text_dates r" "ef_name f"]
      by (simp add: effective_row_def)
    moreover have "sw_date (effective_row st r) (ef_name f) = ov_date ov"
      using True Cons by (simp add: effective_row_def)
    ultimately show ?thesis
      using True Cons ok editable_kinds [OF assms(3)]
      by (cases "ov_date ov") (simp_all add: shown_signature_def cell_signature_def col_value_def date_side_def override_ok_def)
  next
    case False
    then have "sw_text (effective_row st r) (ef_name f) = ov_text ov"
      using Cons editable_kinds [OF assms(3)] by (simp add: effective_row_def)
    then show ?thesis
      using False Cons ok editable_kinds [OF assms(3)]
      by (cases "ov_text ov") (simp_all add: shown_signature_def cell_signature_def col_value_def text_side_def
          text_value_def override_ok_def)
  qed
qed

end
