(* ===== verification/OverrideEdits.thy ===== *)
theory OverrideEdits
  imports OverrideStore
begin

text \<open>
  What the operations of \<open>app/transelec_overrides.py\<close> guarantee over the tables of
  \<open>OverrideStore\<close>: the invariant of the tables is kept, an edit shows what was saved, and no
  operation touches another cell.
\<close>

section \<open>What the operations change\<close>

lemma ended_store [simp]:
  "st_rows (end_override i reason actor st) = st_rows st"
  "st_next (end_override i reason actor st) = st_next st"
  "st_active (end_override i reason actor st) = st_active st"
  "st_imports (end_override i reason actor st) = st_imports st"
  by (simp_all add: end_override_def)

lemma active_end:
  "ov \<in> set (st_overrides (end_override i reason actor st)) \<and> ov_ended ov = None
     \<longleftrightarrow> ov \<in> set (st_overrides st) \<and> ov_ended ov = None \<and> ov_id ov \<noteq> i"
proof
  assume "ov \<in> set (st_overrides (end_override i reason actor st)) \<and> ov_ended ov = None"
  then obtain q where "q \<in> set (st_overrides st)" "ov_ended ov = None"
    "ov = (if ov_id q = i \<and> ov_ended q = None then q\<lparr>ov_ended := Some (st_now st, actor, reason)\<rparr> else q)"
    by (auto simp: end_override_def)
  then show "ov \<in> set (st_overrides st) \<and> ov_ended ov = None \<and> ov_id ov \<noteq> i" by (auto split: if_splits)
next
  assume "ov \<in> set (st_overrides st) \<and> ov_ended ov = None \<and> ov_id ov \<noteq> i"
  then show "ov \<in> set (st_overrides (end_override i reason actor st)) \<and> ov_ended ov = None"
    unfolding end_override_def by (force simp: image_iff)
qed

lemma at_cell_end:
  "ov \<in> set (st_overrides (end_override i reason actor st)) \<and> at_cell k n f ov
     \<longleftrightarrow> ov \<in> set (st_overrides st) \<and> at_cell k n f ov \<and> ov_id ov \<noteq> i"
  using active_end [of ov i reason actor st] by (auto simp: at_cell_def)

lemma override_ok_ended [simp]: "override_ok (ov\<lparr>ov_ended := e\<rparr>) = override_ok ov"
  by (simp add: override_ok_def)

text \<open>Ending some active edits keeps the invariant, whichever they are.\<close>

lemma store_ok_ending:
  assumes "store_ok st" and "\<And>ov. h ov = ov \<or> (\<exists>e. h ov = ov\<lparr>ov_ended := Some e\<rparr>)"
  shows "store_ok (st\<lparr>st_overrides := map h (st_overrides st)\<rparr>)"
proof -
  have h: "ov_id (h ov) = ov_id ov" "override_ok (h ov) = override_ok ov" "ov_ended (h ov) = None \<Longrightarrow> h ov = ov" for ov
    using assms(2) [of ov] by auto
  have ids: "map ov_id (map h (st_overrides st)) = map ov_id (st_overrides st)" using h(1) by simp
  have "\<forall>ov \<in> set (map h (st_overrides st)). ov_id ov < st_next st \<and> override_ok ov"
    using store_okD(3) [OF assms(1)] h(1,2) by auto
  moreover have "a = b" if "a \<in> set (map h (st_overrides st))" "b \<in> set (map h (st_overrides st))"
    "ov_ended a = None" "ov_ended b = None" "same_cell a b" for a b
  proof -
    from that obtain a' b' where "a' \<in> set (st_overrides st)" "a = h a'" "b' \<in> set (st_overrides st)" "b = h b'" by auto
    with that(3,4) h(3) have "a \<in> set (st_overrides st)" "b \<in> set (st_overrides st)" by metis+
    then show ?thesis using that(3-5) store_okD(5) [OF assms(1)] by blast
  qed
  moreover have "distinct (map ov_id (map h (st_overrides st)))"
    using assms(1) unfolding ids by (simp add: store_ok_def)
  ultimately show ?thesis using assms(1) unfolding store_ok_def by simp
qed

lemma store_ok_end:
  assumes "store_ok st"
  shows "store_ok (end_override i reason actor st)"
  unfolding end_override_def by (rule store_ok_ending [OF assms]) auto

lemma insert_override_Inr:
  assumes "store_ok st" and "insert_override key n f web planilla base actor st = Inr (new_id, st')"
    and "f \<in> set text_fields \<union> set date_fields"
    and "if f \<in> set date_fields then fst web = None
         else snd web = None \<and> snd planilla = None \<and> normalize_text (fst web) = fst web"
  obtains new where "store_ok st'" "st_rows st' = st_rows st" "new_id = st_next st" "st_active st' = st_active st"
    "st_overrides st' = st_overrides st @ [new]" "at_cell key n f new" "ov_id new = new_id"
    "ov_text new = fst web" "ov_date new = snd web" "ov_ptext new = fst planilla" "ov_pdate new = snd planilla"
    "ov_key new = key" "ov_ordinal new = n" "ov_field new = f" "ov_ended new = None"
    "\<forall>ov \<in> set (st_overrides st). \<not> at_cell key n f ov"
proof -
  define new where "new = \<lparr>ov_id = st_next st, ov_key = key, ov_ordinal = n, ov_field = f, ov_text = fst web,
    ov_date = snd web, ov_ptext = fst planilla, ov_pdate = snd planilla, ov_base = base,
    ov_author = actor, ov_created = st_now st, ov_ended = None\<rparr>"
  have st': "st' = st\<lparr>st_overrides := st_overrides st @ [new], st_next := st_next st + 1\<rparr>" "new_id = st_next st"
    and free: "\<And>ov. ov \<in> set (st_overrides st) \<Longrightarrow> ov_ended ov = None \<Longrightarrow> \<not> same_cell ov new"
    using assms(2) by (auto simp: insert_override_def new_def same_cell_def list_ex_iff split: if_splits)
  have new: "override_ok new" "ov_id new = st_next st" using assms(3,4) by (auto simp: override_ok_def new_def)
  have sym: "same_cell new ov \<longleftrightarrow> same_cell ov new" for ov by (auto simp: same_cell_def)
  have "st_next st \<notin> ov_id ` set (st_overrides st)" using store_okD(3) [OF assms(1)] by fastforce
  moreover have "a = b" if "a \<in> set (st_overrides st @ [new])" "b \<in> set (st_overrides st @ [new])"
    "ov_ended a = None" "ov_ended b = None" "same_cell a b" for a b
    using that free sym store_okD(5) [OF assms(1), of a b] by auto
  moreover have "\<forall>ov \<in> set (st_overrides st @ [new]). ov_id ov < st_next st + 1 \<and> override_ok ov"
    using store_okD(3) [OF assms(1)] new by fastforce
  ultimately have "store_ok st'"
    using assms(1) new unfolding store_ok_def st' by simp
  moreover have "\<forall>ov \<in> set (st_overrides st). \<not> at_cell key n f ov"
    using free by (fastforce simp: at_cell_def same_cell_def new_def)
  ultimately show thesis using that [of new] st' by (simp add: at_cell_def new_def)
qed

text \<open>What applies to a cell depends only on the cell's active edit.\<close>

lemma applied_same:
  assumes "store_ok st" "store_ok st'" "r \<in> set (st_rows st)" "st_rows st' = st_rows st"
    and "cell_override st' (sw_key r) (key_ordinal (st_rows st) r) f = cell_override st (sw_key r) (key_ordinal (st_rows st) r) f"
  shows "applied st' r f = applied st r f"
  using applied_cell [OF assms(1,3)] applied_cell [OF assms(2)] assms(3-5) by simp

lemma option_eqI: "(\<And>x. a = Some x \<longleftrightarrow> b = Some x) \<Longrightarrow> a = b"
  by (metis option.exhaust)

lemma cell_override_end:
  assumes "store_ok st"
  shows "cell_override (end_override i reason actor st) k n f =
    (case cell_override st k n f of None \<Rightarrow> None | Some ov \<Rightarrow> if ov_id ov = i then None else Some ov)"
proof (rule option_eqI)
  fix ov
  have "cell_override (end_override i reason actor st) k n f = Some ov \<longleftrightarrow> cell_override st k n f = Some ov \<and> ov_id ov \<noteq> i"
    unfolding cell_override_iff [OF assms] cell_override_iff [OF store_ok_end [OF assms]] at_cell_end by blast
  then show "(cell_override (end_override i reason actor st) k n f = Some ov) \<longleftrightarrow>
    (case cell_override st k n f of None \<Rightarrow> None | Some ov \<Rightarrow> if ov_id ov = i then None else Some ov) = Some ov"
    by (auto split: option.splits)
qed

lemma cell_override_snoc:
  assumes "store_ok st" "store_ok st'" "st_overrides st' = st_overrides st @ [new]" "at_cell key m f new"
  shows "cell_override st' k n g = (if k = key \<and> n = m \<and> g = f then Some new else cell_override st k n g)"
proof (cases "k = key \<and> n = m \<and> g = f")
  case True
  then show ?thesis using assms(3,4) by (simp add: cell_override_iff [OF assms(2)])
next
  case False
  then have "\<not> at_cell k n g new" using assms(4) by (auto simp: at_cell_def)
  then show ?thesis using False assms(3)
    by (intro option_eqI) (auto simp: cell_override_iff [OF assms(1)] cell_override_iff [OF assms(2)])
qed

lemma find_row_iff:
  assumes "store_ok st"
  shows "find_row st i n = Some r \<longleftrightarrow> r \<in> set (st_rows st) \<and> sw_import r = i \<and> sw_number r = n"
  unfolding find_row_def using store_okD(1) [OF assms]
  by (subst find_unique) (auto simp: distinct_map dest: inj_onD)

section \<open>A small store\<close>

definition demo_row :: src_row where
  "demo_row = \<lparr>sw_import = 1, sw_number = 3, sw_key = (lit ''PMF-1'', None, None, None),
     sw_text = (\<lambda>f. if f = ''estado'' then Some (lit ''Tramite'') else None), sw_date = (\<lambda>_. None), sw_text_dates = []\<rparr>"

definition demo_override :: "string \<Rightarrow> string \<Rightarrow> override" where
  "demo_override web planilla = \<lparr>ov_id = 4, ov_key = (lit ''PMF-1'', None, None, None), ov_ordinal = 1, ov_field = ''estado'',
     ov_text = Some (lit web), ov_date = None, ov_ptext = Some (lit planilla), ov_pdate = None, ov_base = 1, ov_author = 7,
     ov_created = 0, ov_ended = None\<rparr>"

definition demo_store :: "override list \<Rightarrow> edit_store" where
  "demo_store ovs = \<lparr>st_now = 100, st_active = Some 1,
     st_imports = [\<lparr>im_id = 1, im_version = ''transelec-resumen-v2'', im_report = Some [(''estado'', Some (lit ''B''))]\<rparr>],
     st_rows = [demo_row], st_overrides = ovs, st_next = 10\<rparr>"

lemma demo_fields: "edit_field_ok demo_edit" "ef_name demo_edit = ''estado''"
proof -
  have "editable ''estado'' = Some demo_edit"
    by (simp add: editable_def demo_edit_def field_by_name_def field_specs_def field_spec_def)
  then show "edit_field_ok demo_edit" by (force simp: edit_field_ok_def editable_fields_def editable_names_def)
qed (simp add: demo_edit_def)

lemma demo_store_ok:
  "store_ok (demo_store [])"
  "normalize_text (Some (lit web)) = Some (lit web) \<Longrightarrow> store_ok (demo_store [demo_override web planilla])"
  by (auto simp: store_ok_def demo_store_def demo_row_def demo_override_def override_ok_def text_fields_def date_fields_def)

lemma not_isl_iff: "\<not> isl x \<longleftrightarrow> (\<exists>y. x = Inr y)"
  by (cases x) auto

section \<open>Properties\<close>

lemma web_sides:
  assumes "edit_field_ok f"
  shows "if ef_name f \<in> set date_fields then fst (value_signature f v) = None
         else snd (value_signature f v) = None \<and> snd (source_signature r (ef_name f)) = None
           \<and> normalize_text (fst (value_signature f v)) = fst (value_signature f v)"
  using editable_kinds [OF assms] by (auto simp: value_signature_def source_signature_def)

lemma source_normal:
  "source_signature r f = (normalize_text (fst (source_signature r f)), snd (source_signature r f))"
  by (auto simp: source_signature_def split: option.splits)

lemma edit_field_stored: "edit_field_ok f \<Longrightarrow> ef_name f \<in> set text_fields \<union> set date_fields"
  using editable_kinds by blast

text \<open>A new active edit that saw the planilla as it is applies to its cell and to no other.\<close>

lemma inserted_applies:
  assumes "store_ok st" "store_ok st'" "st_rows st' = st_rows st" "st_overrides st' = st_overrides st @ [new]"
    and "at_cell (sw_key row) (key_ordinal (st_rows st) row) f new" "row \<in> set (st_rows st)"
    and "source_signature row f = (ov_ptext new, ov_pdate new)"
  shows "applied st' row f = [new]"
    and "r \<in> set (st_rows st) \<Longrightarrow> sw_import r = sw_import row \<Longrightarrow> (r, g) \<noteq> (row, f) \<Longrightarrow> applied st' r g = applied st r g"
proof -
  note snoc = cell_override_snoc [OF assms(1,2,4,5)]
  have "anchored row new" using assms(5,7) source_normal [of row f] by (simp add: anchored_def at_cell_def)
  then show "applied st' row f = [new]" using applied_cell [OF assms(2)] assms(3,6) snoc by simp
  assume r: "r \<in> set (st_rows st)" "sw_import r = sw_import row" "(r, g) \<noteq> (row, f)"
  then have "\<not> (sw_key r = sw_key row \<and> key_ordinal (st_rows st) r = key_ordinal (st_rows st) row \<and> g = f)"
    using ordinal_inj [OF store_okD(1) [OF assms(1)] r(1) assms(6)] by auto
  then show "applied st' r g = applied st r g"
    using snoc by (intro applied_same [OF assms(1,2) r(1) assms(3)]) auto
qed

text \<open>Ending the active edit of a cell uncovers that cell and no other.\<close>

lemma ended_applies:
  assumes "store_ok st" "row \<in> set (st_rows st)"
    and "cell_override st (sw_key row) (key_ordinal (st_rows st) row) f = Some ov"
  shows "applied (end_override (ov_id ov) reason actor st) row f = []"
    and "r \<in> set (st_rows st) \<Longrightarrow> sw_import r = sw_import row \<Longrightarrow> (r, g) \<noteq> (row, f)
      \<Longrightarrow> applied (end_override (ov_id ov) reason actor st) r g = applied st r g"
proof -
  let ?st = "end_override (ov_id ov) reason actor st"
  note ok = store_ok_end [OF assms(1)] and cell = cell_override_end [OF assms(1)]
  show "applied ?st row f = []" using applied_cell [OF ok, of row] assms(2,3) cell by simp
  assume r: "r \<in> set (st_rows st)" "sw_import r = sw_import row" "(r, g) \<noteq> (row, f)"
  then have other: "\<not> (sw_key r = sw_key row \<and> key_ordinal (st_rows st) r = key_ordinal (st_rows st) row \<and> g = f)"
    using ordinal_inj [OF store_okD(1) [OF assms(1)] r(1) assms(2)] by auto
  have "ov_id q \<noteq> ov_id ov" if "cell_override st (sw_key r) (key_ordinal (st_rows st) r) g = Some q" for q
  proof
    assume "ov_id q = ov_id ov"
    then have "q = ov" using store_okD(4) [OF assms(1)] that assms(3) cell_override_iff [OF assms(1)] by blast
    with that assms(3) other show False by (auto simp: cell_override_iff [OF assms(1)] at_cell_def)
  qed
  then show "applied ?st r g = applied st r g"
    using cell by (intro applied_same [OF assms(1) ok r(1)]) (auto split: option.splits)
qed

text \<open>One cell is saved: what it shows, and that nothing else changes.\<close>

definition only_cell :: "edit_store \<Rightarrow> edit_store \<Rightarrow> src_row \<Rightarrow> string \<Rightarrow> bool" where
  "only_cell st st' row f \<longleftrightarrow> st_rows st' = st_rows st \<and> st_active st' = st_active st
     \<and> (\<forall>r \<in> set (st_rows st). \<forall>g. sw_import r = sw_import row \<and> (r, g) \<noteq> (row, f) \<longrightarrow> applied st' r g = applied st r g)"

lemma save_cell_expected:
  "save_cell f row v expected actor st = Inr (out, st')
    \<Longrightarrow> shown_value f (col_value (effective_row st row) (ef_name f)) = expected"
  by (rule ccontr) (simp add: save_cell_def Let_def)

lemma save_cell_cases:
  fixes st :: edit_store
  defines "ended \<equiv> \<lambda>row f actor reason. case cell_override st (sw_key row) (key_ordinal (st_rows st) row) (ef_name f) of
      None \<Rightarrow> st | Some ov \<Rightarrow> end_override (ov_id ov) reason actor st"
  assumes "save_cell f row v expected actor st = Inr (out, st')"
  shows "(value_signature f v = shown_signature st row f \<and> st' = st)
    \<or> (value_signature f v = cell_signature f (col_value row (ef_name f)) (sw_text_dates row)
        \<and> st' = ended row f actor E_discarded)
    \<or> (\<exists>new_id. insert_override (sw_key row) (key_ordinal (st_rows st) row) (ef_name f) (value_signature f v)
          (cell_signature f (col_value row (ef_name f)) (sw_text_dates row)) (sw_import row) actor
          (ended row f actor E_superseded) = Inr (new_id, st'))"
proof -
  consider "value_signature f v = shown_signature st row f" | "value_signature f v \<noteq> shown_signature st row f"
    "value_signature f v = cell_signature f (col_value row (ef_name f)) (sw_text_dates row)"
    | "value_signature f v \<noteq> shown_signature st row f"
    "value_signature f v \<noteq> cell_signature f (col_value row (ef_name f)) (sw_text_dates row)" by blast
  then show ?thesis
    using assms(2) save_cell_expected [OF assms(2)]
    by cases (simp_all add: save_cell_def Let_def shown_signature_def [symmetric] ended_def split: sum.splits prod.splits)
qed

lemma save_cell_shows:
  assumes "store_ok st" "edit_field_ok f" "row \<in> set (st_rows st)"
    and "save_cell f row v expected actor st = Inr (out, st')"
  shows "store_ok st' \<and> shown_signature st' row f = value_signature f v \<and> only_cell st st' row (ef_name f)
    \<and> shown_value f (col_value (effective_row st row) (ef_name f)) = expected"
proof -
  let ?name = "ef_name f" and ?web = "value_signature f v" and ?k = "sw_key row" and ?n = "key_ordinal (st_rows st) row"
  let ?active = "cell_override st ?k ?n ?name"
  let ?ended = "\<lambda>reason. case ?active of None \<Rightarrow> st | Some ov \<Rightarrow> end_override (ov_id ov) reason actor st"
  have expected: "shown_value f (col_value (effective_row st row) ?name) = expected"
    using assms(4) by (rule save_cell_expected)
  have ended: "store_ok (?ended reason)" "only_cell st (?ended reason) row ?name" "applied (?ended reason) row ?name = []" for reason
    using assms(1) store_ok_end [OF assms(1)] ended_applies [OF assms(1,3)] applied_cell [OF assms(1,3), of ?name]
    by (auto simp: only_cell_def split: option.splits)
  consider (same) "?web = shown_signature st row f" "st' = st"
    | (revert) "?web = source_signature row ?name" "st' = ?ended E_discarded"
    | (edit) new_id where "insert_override ?k ?n ?name ?web (source_signature row ?name) (sw_import row) actor
        (?ended E_superseded) = Inr (new_id, st')"
    using save_cell_cases [OF assms(4)] cell_signature_source [OF assms(2), of row] by metis
  then show ?thesis
  proof cases
    case same
    then show ?thesis using assms(1) expected by (simp add: only_cell_def)
  next
    case revert
    then show ?thesis using ended(1-3) [of E_discarded] expected shown_signature_eq [OF ended(1) _ assms(2)] assms(3)
      by (auto simp: only_cell_def)
  next
    case edit
    have rows: "st_rows (?ended E_superseded) = st_rows st" using ended(2) by (simp add: only_cell_def)
    obtain new where new: "store_ok st'" "st_rows st' = st_rows (?ended E_superseded)"
      "st_active st' = st_active (?ended E_superseded)"
      "st_overrides st' = st_overrides (?ended E_superseded) @ [new]" "at_cell ?k ?n ?name new"
      "ov_text new = fst ?web" "ov_date new = snd ?web" "ov_ptext new = fst (source_signature row ?name)"
      "ov_pdate new = snd (source_signature row ?name)"
      by (rule insert_override_Inr [OF ended(1) edit edit_field_stored [OF assms(2)] web_sides [OF assms(2)]])
    have sig: "source_signature row ?name = (ov_ptext new, ov_pdate new)" "(ov_text new, ov_date new) = ?web"
      using new(6-9) by simp_all
    note app = inserted_applies [OF ended(1) new(1) _ new(4), unfolded rows, OF new(2) [unfolded rows] new(5) assms(3) sig(1)]
    have "shown_signature st' row f = ?web"
      using shown_signature_eq [OF new(1) _ assms(2), of row] new(2) sig(2) rows assms(3) app(1) by simp
    moreover have "only_cell st st' row ?name"
      using ended(2) [of E_superseded] app(2) new(2,3) by (simp add: only_cell_def)
    ultimately show ?thesis using new(1) expected by blast
  qed
qed

text \<open>
  C3. An accepted save was checked against what the page showed, applies to the published version,
  and is read back: the cell then shows the signature of the submitted value, no other cell of that
  version changes what applies to it, and the tables keep their invariant.
\<close>

theorem save_override_shows:
  assumes "store_ok st" and "edit_field_ok f"
    and "save_override import_id number f v expected actor st = Inr (out, st')"
  shows "st_active st = Some import_id
    \<and> (\<exists>row. find_row st import_id number = Some row
        \<and> shown_value f (col_value (effective_row st row) (ef_name f)) = expected
        \<and> store_ok st' \<and> shown_signature st' row f = value_signature f v \<and> only_cell st st' row (ef_name f))"
proof -
  from assms(3) obtain row where row: "st_active st = Some import_id" "find_row st import_id number = Some row"
    "save_cell f row v expected actor st = Inr (out, st')"
    by (auto simp: save_override_def split: option.splits if_splits)
  then have "row \<in> set (st_rows st)" using find_row_iff [OF assms(1)] by blast
  from save_cell_shows [OF assms(1,2) this row(3)] row(1,2) show ?thesis by blast
qed

theorem save_override_shows_witness:
  "\<exists>out st'. save_override 1 3 demo_edit (CText (lit ''Aprobado'')) (CText (lit ''Tramite'')) 7 (demo_store []) = Inr (out, st')
    \<and> shown_signature st' demo_row demo_edit = (Some (lit ''Aprobado''), None)"
proof -
  have "\<not> isl (save_override 1 3 demo_edit (CText (lit ''Aprobado'')) (CText (lit ''Tramite'')) 7 (demo_store []))"
    by code_simp
  then obtain out st' where saved:
    "save_override 1 3 demo_edit (CText (lit ''Aprobado'')) (CText (lit ''Tramite'')) 7 (demo_store []) = Inr (out, st')"
    unfolding not_isl_iff by auto
  moreover have "find_row (demo_store []) 1 3 = Some demo_row" by (simp add: find_row_def demo_store_def demo_row_def)
  moreover have "value_signature demo_edit (CText (lit ''Aprobado'')) = (Some (lit ''Aprobado''), None)" by code_simp
  ultimately show ?thesis
    using save_override_shows [OF demo_store_ok(1) demo_fields(1) saved] by auto
qed

lemma find_active_iff:
  assumes "store_ok st"
  shows "find_active st i = Some ov \<longleftrightarrow> ov \<in> set (st_overrides st) \<and> ov_id ov = i \<and> ov_ended ov = None"
  unfolding find_active_def using store_okD(4) [OF assms] by (subst find_unique) auto

lemma active_cell:
  assumes "store_ok st" and "find_active st i = Some ov"
  shows "cell_override st (ov_key ov) (ov_ordinal ov) (ov_field ov) = Some ov" "ov_id ov = i"
  using assms(2) find_active_iff [OF assms(1)] cell_override_iff [OF assms(1)] by (auto simp: at_cell_def)

lemma find_active_end: "find_active (end_override i reason actor st) i = None"
proof -
  have "\<not> (ov_id ov = i \<and> ov_ended ov = None)" if "ov \<in> set (st_overrides (end_override i reason actor st))" for ov
    using that active_end [of ov i reason actor st] by blast
  then show ?thesis unfolding find_active_def find_None_iff by blast
qed

text \<open>
  C36. Discarding an edit gives its cell back to the planilla: in every version where the edit was
  anchored the cell has no edit left and shows the source, other cells of that version keep theirs,
  and the edit is no longer active.
\<close>

theorem discard_override_uncovers:
  assumes "store_ok st" and "discard_override i actor st = Inr st'"
    and "find_active st i = Some ov" and "keyed_match st version ov = Some row"
    and "edit_field_ok f" and "ef_name f = ov_field ov"
  shows "store_ok st' \<and> find_active st' i = None \<and> applied st' row (ov_field ov) = []
    \<and> shown_signature st' row f = source_signature row (ov_field ov) \<and> only_cell st st' row (ov_field ov)"
proof -
  have st': "st' = end_override i E_discarded actor st"
    using assms(2) by (auto simp: discard_override_def split: if_splits)
  have row: "row \<in> set (st_rows st)" "sw_key row = ov_key ov" "key_ordinal (st_rows st) row = ov_ordinal ov"
    using keyed_match_iff [OF assms(1)] assms(4) by blast+
  have cell: "cell_override st (sw_key row) (key_ordinal (st_rows st) row) (ov_field ov) = Some ov" "ov_id ov = i"
    using active_cell [OF assms(1,3)] row(2,3) by simp_all
  note app = ended_applies [OF assms(1) row(1) cell(1), unfolded cell(2), where reason = E_discarded and actor = actor, folded st']
  have ok: "store_ok st'" using store_ok_end [OF assms(1)] unfolding st' .
  have "shown_signature st' row f = source_signature row (ov_field ov)"
    using shown_signature_eq [OF ok _ assms(5)] app(1) row(1) assms(6) st' by simp
  then show ?thesis using ok app st' find_active_end by (simp add: only_cell_def)
qed

theorem discard_override_uncovers_witness:
  "\<exists>st'. discard_override 4 7 (demo_store [demo_override ''Aprobado'' ''Tramite'']) = Inr st'
    \<and> shown_signature st' demo_row demo_edit = (Some (lit ''Tramite''), None)"
proof -
  let ?ov = "demo_override ''Aprobado'' ''Tramite''" and ?st = "demo_store [demo_override ''Aprobado'' ''Tramite'']"
  have "\<not> isl (discard_override 4 7 ?st)" by code_simp
  then obtain st' where st': "discard_override 4 7 ?st = Inr st'" unfolding not_isl_iff by auto
  have ok: "store_ok ?st" by (rule demo_store_ok(2)) code_simp
  have active: "find_active ?st 4 = Some ?ov" by (simp add: find_active_def demo_store_def demo_override_def)
  have row: "keyed_match ?st 1 ?ov = Some demo_row"
    by (simp add: keyed_match_def demo_store_def demo_override_def demo_row_def key_ordinal_def)
  have "ef_name demo_edit = ov_field ?ov" by (simp add: demo_override_def demo_edit_def)
  moreover have "source_signature demo_row ''estado'' = (Some (lit ''Tramite''), None)" by code_simp
  ultimately show ?thesis
    using discard_override_uncovers [OF ok st' active row demo_fields(1)] st' by (auto simp: demo_override_def)
qed

lemma filter_map_fixed: "(\<And>x. x \<in> set xs \<Longrightarrow> P x \<or> P (h x) \<Longrightarrow> h x = x) \<Longrightarrow> filter P (map h xs) = filter P xs"
proof (induction xs)
  case (Cons x xs)
  from Cons.prems [of x] have "P (h x) = P x" "P x \<Longrightarrow> h x = x" by (cases "P x"; cases "P (h x)"; simp)+
  with Cons show ?case by simp
qed simp

text \<open>Keeping the active edit of a cell, once its row is known.\<close>

lemma keep_cell:
  fixes actor :: int
  assumes ok: "store_ok st" and cur: "find_active st i = Some cur" and row: "keyed_match st version cur = Some row"
  defines "ins \<equiv> insert_override (ov_key cur) (ov_ordinal cur) (ov_field cur) (ov_text cur, ov_date cur)
      (source_signature row (ov_field cur)) version actor (end_override i E_kept actor st)"
  shows "ins \<noteq> Inl e"
    and "ins = Inr (new_id, st') \<Longrightarrow> \<exists>new. store_ok st' \<and> find_active st' i = None \<and> find_active st' new_id = Some new
      \<and> ov_text new = ov_text cur \<and> ov_date new = ov_date cur \<and> override_state st' version new = O_aplicada
      \<and> applied st' row (ov_field cur) = [new] \<and> only_cell st st' row (ov_field cur)"
proof -
  let ?st = "end_override i E_kept actor st"
  have r: "row \<in> set (st_rows st)" "sw_import row = version" "sw_key row = ov_key cur"
    "key_ordinal (st_rows st) row = ov_ordinal cur" using keyed_match_iff [OF ok] row by blast+
  have c: "cur \<in> set (st_overrides st)" "ov_id cur = i" "ov_ended cur = None" using find_active_iff [OF ok] cur by blast+
  have okc: "override_ok cur" "i < st_next st" using store_okD(3) [OF ok c(1)] c(2) by auto
  have "\<not> same_cell ov cur" if "ov \<in> set (st_overrides ?st)" "ov_ended ov = None" for ov
  proof
    assume "same_cell ov cur"
    moreover have "ov \<in> set (st_overrides st)" "ov_id ov \<noteq> i"
      using that active_end [of ov i E_kept actor st] by blast+
    ultimately show False using store_okD(5) [OF ok _ c(1)] that(2) c(2,3) by blast
  qed
  then show "ins \<noteq> Inl e" by (auto simp: ins_def insert_override_def list_ex_iff same_cell_def)
  assume "ins = Inr (new_id, st')"
  then have ins: "insert_override (ov_key cur) (ov_ordinal cur) (ov_field cur) (ov_text cur, ov_date cur)
      (source_signature row (ov_field cur)) version actor ?st = Inr (new_id, st')" by (simp add: ins_def)
  have fld: "ov_field cur \<in> set text_fields \<union> set date_fields"
    "if ov_field cur \<in> set date_fields then fst (ov_text cur, ov_date cur) = None
     else snd (ov_text cur, ov_date cur) = None \<and> snd (source_signature row (ov_field cur)) = None
       \<and> normalize_text (fst (ov_text cur, ov_date cur)) = fst (ov_text cur, ov_date cur)"
    using okc(1) by (auto simp: override_ok_def source_signature_def split: if_splits)
  obtain new where new: "store_ok st'" "st_rows st' = st_rows ?st" "new_id = st_next ?st" "st_active st' = st_active ?st"
    "st_overrides st' = st_overrides ?st @ [new]" "at_cell (ov_key cur) (ov_ordinal cur) (ov_field cur) new"
    "ov_id new = new_id" "ov_text new = fst (ov_text cur, ov_date cur)" "ov_date new = snd (ov_text cur, ov_date cur)"
    "ov_ptext new = fst (source_signature row (ov_field cur))" "ov_pdate new = snd (source_signature row (ov_field cur))"
    "ov_ended new = None" "ov_key new = ov_key cur" "ov_ordinal new = ov_ordinal cur" "ov_field new = ov_field cur"
    by (rule insert_override_Inr [OF store_ok_end [OF ok] ins fld])
  have sig: "source_signature row (ov_field cur) = (ov_ptext new, ov_pdate new)" using new(10,11) by simp
  note app = inserted_applies [OF store_ok_end [OF ok] new(1,2,5), unfolded ended_store r, OF _ _ sig]
  note endd = ended_applies [OF ok r(1), unfolded r(3,4), OF active_cell(1) [OF ok cur], unfolded c(2), where reason = E_kept and actor = actor]
  have rows: "st_rows st' = st_rows st" using new(2) by simp
  have "keyed_match st' version new = Some row"
    using row new(13,14) by (simp add: keyed_match_def rows)
  then have "override_state st' version new = O_aplicada"
    using source_normal [of row "ov_field cur"] sig new(15) by (simp add: override_state_def status_of_def)
  moreover have "find_active st' i = None"
    using find_active_end [of i E_kept actor st] new(3,5,7) okc(2) by (auto simp: find_active_def find_None_iff)
  moreover have "find_active st' new_id = Some new" using find_active_iff [OF new(1)] new(5,7,12) by simp
  moreover have "only_cell st st' row (ov_field cur)"
    using app(2) endd(2) new(4) rows r new(6) by (simp add: only_cell_def)
  ultimately show "\<exists>new. store_ok st' \<and> find_active st' i = None \<and> find_active st' new_id = Some new
      \<and> ov_text new = ov_text cur \<and> ov_date new = ov_date cur \<and> override_state st' version new = O_aplicada
      \<and> applied st' row (ov_field cur) = [new] \<and> only_cell st st' row (ov_field cur)"
    using app(1) new(1,6,8,9) r by auto
qed

text \<open>
  C31. Keeping an edit in conflict re-anchors it on what the planilla says now: the old edit ends,
  the new one carries the same value, applies to the cell of the published version and to no other,
  and the unique index never refuses it.
\<close>

theorem keep_override_reapplies:
  assumes "store_ok st"
  shows "keep_override i actor st \<noteq> Inl Unique_violation
    \<and> (\<forall>new_id st'. keep_override i actor st = Inr (new_id, st') \<longrightarrow>
        (\<exists>version cur row new. st_active st = Some version \<and> find_active st i = Some cur
          \<and> override_state st version cur = O_en_conflicto \<and> keyed_match st version cur = Some row
          \<and> store_ok st' \<and> find_active st' i = None \<and> find_active st' new_id = Some new
          \<and> ov_text new = ov_text cur \<and> ov_date new = ov_date cur \<and> override_state st' version new = O_aplicada
          \<and> applied st' row (ov_field cur) = [new] \<and> only_cell st st' row (ov_field cur)))"
proof (cases "\<exists>version cur row. st_active st = Some version \<and> find_active st i = Some cur
    \<and> override_state st version cur = O_en_conflicto \<and> keyed_match st version cur = Some row")
  case False
  then show ?thesis by (auto simp: keep_override_def split: option.splits if_splits)
next
  case True
  then obtain version cur row where c: "st_active st = Some version" "find_active st i = Some cur"
    "override_state st version cur = O_en_conflicto" "keyed_match st version cur = Some row" by blast
  note kept = keep_cell [OF assms c(2,4)]
  have "keep_override i actor st \<noteq> Inl Unique_violation"
    using kept(1) c by (auto simp: keep_override_def split: option.splits if_splits)
  moreover have "insert_override (ov_key cur) (ov_ordinal cur) (ov_field cur) (ov_text cur, ov_date cur)
      (source_signature row (ov_field cur)) version actor (end_override i E_kept actor st) = Inr (new_id, st')"
    if "keep_override i actor st = Inr (new_id, st')" for new_id st'
    using that c by (auto simp: keep_override_def split: option.splits if_splits)
  ultimately show ?thesis using c kept(2) by metis
qed

theorem keep_override_reapplies_witness:
  "\<exists>new_id st'. keep_override 4 7 (demo_store [demo_override ''Aprobado'' ''Rechazado'']) = Inr (new_id, st') \<and> store_ok st'"
proof -
  let ?st = "demo_store [demo_override ''Aprobado'' ''Rechazado'']"
  have "\<not> isl (keep_override 4 7 ?st)" by code_simp
  then obtain new_id st' where "keep_override 4 7 ?st = Inr (new_id, st')" unfolding not_isl_iff by auto
  moreover have "store_ok ?st" by (rule demo_store_ok(2)) code_simp
  ultimately show ?thesis using keep_override_reapplies [of ?st 4 7] by blast
qed
text \<open>
  C33. Retiring the edits a newly published version already contains changes nothing that version
  shows, leaves no active edit of an answered column whose value the planilla has taken over, and
  counts exactly the edits it ended.
\<close>

theorem retire_incorporated_invisible:
  assumes "store_ok st" and "retire_incorporated_overrides version actor st = Inr (n, st')"
  shows "store_ok st' \<and> (\<forall>row \<in> set (st_rows st). sw_import row = version \<longrightarrow> effective_row st' row = effective_row st row)
    \<and> (\<exists>im. find (\<lambda>im. im_id im = version) (st_imports st) = Some im
        \<and> (\<forall>ov \<in> set (st_overrides st'). ov_ended ov = None \<and> ov_field ov \<in> set (source_fields im)
            \<longrightarrow> override_state st' version ov \<noteq> O_incorporada))
    \<and> n + length (filter (\<lambda>ov. ov_ended ov = None) (st_overrides st')) = length (filter (\<lambda>ov. ov_ended ov = None) (st_overrides st))"
proof -
  define im where "im = the (find (\<lambda>im. im_id im = version) (st_imports st))"
  define hit where "hit = (\<lambda>ov. ov_ended ov = None \<and> override_state st version ov = O_incorporada
    \<and> ov_field ov \<in> set (source_fields im))"
  define h where "h = (\<lambda>ov. if hit ov then ov\<lparr>ov_ended := Some (st_now st, actor, E_incorporated)\<rparr> else ov)"
  from assms(2) have im: "find (\<lambda>im. im_id im = version) (st_imports st) = Some im"
    and n: "n = length (filter hit (st_overrides st))" and st': "st' = st\<lparr>st_overrides := map h (st_overrides st)\<rparr>"
    by (auto simp: retire_incorporated_overrides_def im_def hit_def h_def split: option.splits)
  have ended_h: "ov_ended (h ov) = None \<longleftrightarrow> ov_ended ov = None \<and> \<not> hit ov" for ov by (simp add: h_def)
  have active_hit: "hit ov \<Longrightarrow> ov_ended ov = None" for ov by (simp add: hit_def)
  have keyed: "keyed_match st' = keyed_match st" by (simp add: fun_eq_iff keyed_match_def st')
  have "applied st' row = applied st row" if version: "sw_import row = version" for row
  proof
    fix f
    define app where "app = (\<lambda>ov. ov_ended ov = None \<and> ov_field ov = f \<and> (case keyed_match st version ov of None \<Rightarrow> False
      | Some q \<Rightarrow> sw_number q = sw_number row \<and> status_of (Some q) ov = O_aplicada))"
    have app: "applied st' row f = filter app (map h (st_overrides st))" "applied st row f = filter app (st_overrides st)"
      unfolding applied_def keyed app_def by (simp_all add: st' version)
    have "\<not> app ov" if "hit ov" for ov
      using that by (cases "keyed_match st version ov") (simp_all add: app_def hit_def override_state_def)
    moreover have "\<not> app (h ov)" if "hit ov" for ov using that ended_h [of ov] by (simp add: app_def)
    moreover have "h ov = ov" if "\<not> hit ov" for ov using that by (simp add: h_def)
    ultimately show "applied st' row f = applied st row f" unfolding app by (intro filter_map_fixed) blast
  qed
  then have "effective_row st' row = effective_row st row" if "sw_import row = version" for row
    unfolding effective_row_def [of st'] effective_row_def [of st] using that by (simp cong: if_cong)
  moreover have "override_state st' version ov \<noteq> O_incorporada"
    if ov: "ov \<in> set (st_overrides st')" "ov_ended ov = None" "ov_field ov \<in> set (source_fields im)" for ov
  proof -
    from ov obtain q where "q \<in> set (st_overrides st)" "ov = h q" by (auto simp: st')
    with ov(2) have "\<not> hit q" using ended_h by blast
    with \<open>ov = h q\<close> have "\<not> hit ov" by (simp add: h_def)
    with ov(2,3) show ?thesis by (simp add: hit_def override_state_def keyed)
  qed
  moreover have "length (filter hit xs) + length (filter (\<lambda>ov. ov_ended ov = None) (map h xs))
      = length (filter (\<lambda>ov. ov_ended ov = None) xs)" for xs
  proof (induction xs)
    case (Cons x xs)
    then show ?case using active_hit [of x] ended_h [of x] by (cases "hit x") simp_all
  qed simp
  moreover have "store_ok st'" unfolding st' by (rule store_ok_ending [OF assms(1)]) (auto simp: h_def)
  ultimately show ?thesis using im n by (simp add: st')
qed

theorem retire_incorporated_invisible_witness:
  "\<exists>st'. retire_incorporated_overrides 1 7 (demo_store [demo_override ''Tramite'' ''Rechazado'']) = Inr (1, st')
    \<and> effective_row st' demo_row = effective_row (demo_store [demo_override ''Tramite'' ''Rechazado'']) demo_row"
proof -
  let ?st = "demo_store [demo_override ''Tramite'' ''Rechazado'']"
  have "map_sum id fst (retire_incorporated_overrides 1 7 ?st) = Inr 1" by code_simp
  then obtain st' where st': "retire_incorporated_overrides 1 7 ?st = Inr (1, st')"
    by (cases "retire_incorporated_overrides 1 7 ?st") auto
  have ok: "store_ok ?st" by (rule demo_store_ok(2)) code_simp
  have "demo_row \<in> set (st_rows ?st)" "sw_import demo_row = 1" by (simp_all add: demo_store_def demo_row_def)
  then show ?thesis using retire_incorporated_invisible [OF ok st'] st' by blast
qed

end
