(* ===== verification/UnionFind.thy ===== *)
theory UnionFind
  imports Prelude "HOL-Library.Monad_Syntax"
begin

text \<open>
  The union-find of \<open>app/forestry_comparison.py\<close>: a dictionary of parents, \<open>find\<close> with path
  halving and the linking of two roots. The loop of \<open>find\<close> ends because parents form a forest,
  so it is an \<open>option\<close> that is shown never to be \<open>None\<close>. The locale \<open>disjoint_sets\<close> is
  what the comparison relies on.
\<close>

section \<open>Operations\<close>

type_synonym 'n parents = "('n, 'n) pydict"

text \<open>\<open>parent[n]\<close>; every node the loop visits is a key, \<open>setdefault\<close> having entered it.\<close>

definition par :: "'n parents \<Rightarrow> 'n \<Rightarrow> 'n" where
  "par p n = (case map_of p n of Some m \<Rightarrow> m | None \<Rightarrow> n)"

partial_function (option) find_loop :: "'n parents \<Rightarrow> 'n \<Rightarrow> ('n \<times> 'n parents) option" where
  [code]: "find_loop p n =
     (if par p n = n then Some (n, p)
      else find_loop (AList.update n (par p (par p n)) p) (par p (par p n)))"

definition find_root :: "'n parents \<Rightarrow> 'n \<Rightarrow> ('n \<times> 'n parents) option" where
  "find_root p n = find_loop (dict_setdefault n n p) n"

definition unite :: "'n parents \<Rightarrow> 'n \<times> 'n \<Rightarrow> 'n parents option" where
  "unite p xy =
     do { (a, p) \<leftarrow> find_root p (fst xy);
          (b, p) \<leftarrow> find_root p (snd xy);
          Some (if a \<noteq> b then AList.update a b p else p) }"

text \<open>A loop whose body may not return.\<close>

fun fold_option :: "('s \<Rightarrow> 'a \<Rightarrow> 's option) \<Rightarrow> 's \<Rightarrow> 'a list \<Rightarrow> 's option" where
  "fold_option f s [] = Some s"
| "fold_option f s (x # xs) = do { s \<leftarrow> f s x; fold_option f s xs }"

section \<open>The contract\<close>

text \<open>
  \<open>rep\<close> is the representative of a node, \<open>nodes\<close> the nodes entered so far in order. Finding
  changes no representative; joining two nodes gives the first one's class the second one's
  representative.
\<close>

locale disjoint_sets =
  fixes ok :: "'s \<Rightarrow> bool"
    and rep :: "'s \<Rightarrow> 'n \<Rightarrow> 'n"
    and nodes :: "'s \<Rightarrow> 'n list"
    and lookup :: "'s \<Rightarrow> 'n \<Rightarrow> ('n \<times> 's) option"
    and join :: "'s \<Rightarrow> 'n \<times> 'n \<Rightarrow> 's option"
  assumes lookup_rep: "ok s \<Longrightarrow> \<exists>t. lookup s x = Some (rep s x, t) \<and> ok t \<and> rep t = rep s
          \<and> nodes t = (if x \<in> set (nodes s) then nodes s else nodes s @ [x])"
    and join_rep: "ok s \<Longrightarrow> x \<in> set (nodes s) \<Longrightarrow> y \<in> set (nodes s) \<Longrightarrow>
          \<exists>t. join s (x, y) = Some t \<and> ok t \<and> nodes t = nodes s
            \<and> rep t = (\<lambda>z. if rep s z = rep s x then rep s y else rep s z)"
begin

definition same :: "'s \<Rightarrow> ('n \<times> 'n) set" where
  "same s = {(x, y). rep s x = rep s y}"

lemma equiv_same: "equiv UNIV (same s)"
  by (auto simp: same_def intro!: equivI refl_onI symI transI)

lemma enter_all:
  assumes "ok s" "distinct xs" "set xs \<inter> set (nodes s) = {}"
  shows "\<exists>t. fold_option (\<lambda>s x. map_option snd (lookup s x)) s xs = Some t \<and> ok t \<and> rep t = rep s
           \<and> nodes t = nodes s @ xs"
  using assms
proof (induction xs arbitrary: s)
  case (Cons x xs)
  then obtain t where t: "lookup s x = Some (rep s x, t)" "ok t" "rep t = rep s" "nodes t = nodes s @ [x]"
    using lookup_rep [of s x] by auto
  have "set xs \<inter> set (nodes t) = {}" using Cons.prems t(4) by auto
  with Cons.IH [of t] Cons.prems t show ?case by auto
qed simp

lemma join_all:
  assumes "ok s" "set (map fst links) \<subseteq> set (nodes s)" "set (map snd links) \<subseteq> set (nodes s)"
  shows "\<exists>t. fold_option join s links = Some t \<and> ok t \<and> nodes t = nodes s
           \<and> same t = (same s \<union> set links \<union> (set links)\<inverse>)\<^sup>*"
  using assms
proof (induction links arbitrary: s)
  case Nil
  have "(same s)\<^sup>* = same s"
    by (rule rtrancl_trancl_reflcl [THEN trans], subst trancl_id)
      (use equiv_same [of s] in \<open>auto simp: equiv_def refl_on_def\<close>)
  with Nil show ?case by simp
next
  case (Cons l links)
  obtain x y where l: "l = (x, y)" by fastforce
  with Cons.prems obtain t where t: "join s (x, y) = Some t" "ok t" "nodes t = nodes s"
      "rep t = (\<lambda>z. if rep s z = rep s x then rep s y else rep s z)"
    using join_rep [of s x y] by auto
  obtain w where w: "fold_option join t links = Some w" "ok w" "nodes w = nodes s"
      "same w = (same t \<union> set links \<union> (set links)\<inverse>)\<^sup>*"
    using Cons.IH [of t] Cons.prems t by auto
  let ?all = "same s \<union> set (l # links) \<union> (set (l # links))\<inverse>"
  have step: "(a, b) \<in> ?all\<^sup>*" if "rep s a = rep s b" for a b using that by (auto simp: same_def)
  have xy: "(x, y) \<in> ?all\<^sup>*" "(y, x) \<in> ?all\<^sup>*" by (auto simp: l)
  have "(a, b) \<in> ?all\<^sup>*" if ab: "rep t a = rep t b" for a b
  proof -
    consider "rep s a = rep s b" | "rep s a = rep s x" "rep s y = rep s b" | "rep s a = rep s y" "rep s x = rep s b"
      using ab by (auto simp: t(4) split: if_splits)
    then show ?thesis
    proof cases
      case 2
      show ?thesis using step [OF 2(1)] step [OF 2(2)] xy(1) by (blast intro: rtrancl_trans)
    next
      case 3
      show ?thesis using step [OF 3(1)] step [OF 3(2)] xy(2) by (blast intro: rtrancl_trans)
    qed (rule step)
  qed
  then have "same t \<subseteq> ?all\<^sup>*" by (auto simp: same_def)
  then have "same w \<subseteq> (?all\<^sup>*)\<^sup>*" unfolding w(4) by (intro rtrancl_mono) auto
  moreover have "?all \<subseteq> same t \<union> set links \<union> (set links)\<inverse>" by (auto simp: l same_def t(4))
  ultimately have "same w = ?all\<^sup>*" unfolding w(4) by (simp add: rtrancl_mono subset_antisym)
  with w t show ?case by (simp add: l)
qed

lemma group_all:
  assumes "ok s" "set xs \<subseteq> set (nodes s)"
  shows "\<exists>t. fold_option (\<lambda>(d, s) x. map_option (\<lambda>(r, s). (dict_append r x d, s)) (lookup s x)) (d, s) xs
            = Some (foldl (\<lambda>d x. dict_append (rep s x) x d) d xs, t)
          \<and> ok t \<and> rep t = rep s \<and> nodes t = nodes s"
  using assms
proof (induction xs arbitrary: d s)
  case (Cons x xs)
  then obtain t where t: "lookup s x = Some (rep s x, t)" "ok t" "rep t = rep s" "nodes t = nodes s"
    using lookup_rep [of s x] by auto
  with Cons.IH [of t "dict_append (rep s x) x d"] Cons.prems show ?case by auto
qed simp

end

section \<open>Forests\<close>

text \<open>A parent function whose rank falls on the way up has one root above every node.\<close>

definition ranked :: "('n \<Rightarrow> nat) \<Rightarrow> ('n \<Rightarrow> 'n) \<Rightarrow> bool" where
  "ranked rk f \<longleftrightarrow> (\<forall>n. f n \<noteq> n \<longrightarrow> rk (f n) < rk n)"

inductive root_at :: "('n \<Rightarrow> 'n) \<Rightarrow> 'n \<Rightarrow> 'n \<Rightarrow> bool" for f where
  root_here: "f n = n \<Longrightarrow> root_at f n n"
| root_up: "f n \<noteq> n \<Longrightarrow> root_at f (f n) r \<Longrightarrow> root_at f n r"

inductive_cases root_atE: "root_at f n r"

lemma root_via: "f n = m \<Longrightarrow> m \<noteq> n \<Longrightarrow> root_at f m r \<Longrightarrow> root_at f n r"
  using root_up [of f n r] by simp

lemma root_at_fixed: "root_at f n r \<Longrightarrow> f r = r"
  by (induction rule: root_at.induct)

lemma root_at_unique: "root_at f n r \<Longrightarrow> root_at f n s \<Longrightarrow> r = s"
  by (induction rule: root_at.induct) (auto elim: root_atE)

lemma root_at_step: "root_at f n r \<longleftrightarrow> root_at f (f n) r"
  by (metis root_at.cases root_up)

lemma root_exists: "ranked rk f \<Longrightarrow> \<exists>r. root_at f n r"
proof (induction "rk n" arbitrary: n rule: less_induct)
  case less
  show ?case
  proof (cases "f n = n")
    case False
    then have "rk (f n) < rk n" using less.prems by (simp add: ranked_def)
    with less show ?thesis by (meson root_up False)
  qed (blast intro: root_here)
qed

lemma ranked_halve: "ranked rk f \<Longrightarrow> ranked rk (f(n := f (f n)))"
  unfolding ranked_def by (auto) (metis less_trans)

lemma root_halve: "root_at f x r \<Longrightarrow> ranked rk f \<Longrightarrow> root_at (f(n := f (f n))) x r"
proof (induction rule: root_at.induct)
  case (root_here x)
  then show ?case by (intro root_at.root_here) auto
next
  case (root_up x r)
  let ?g = "f(n := f (f n))"
  have ih: "root_at ?g (f x) r" by (rule root_up.IH [OF root_up.prems])
  show ?case
  proof (cases "x = n")
    case True
    have "f n \<noteq> n" using root_up.hyps True by simp
    then have "rk (f n) < rk n" using root_up.prems by (simp add: ranked_def)
    have nn: "f (f n) \<noteq> n"
      using \<open>rk (f n) < rk n\<close> root_up.prems \<open>f n \<noteq> n\<close> unfolding ranked_def by (metis less_asym)
    have gg: "?g (f n) = f (f n)" using \<open>f n \<noteq> n\<close> by simp
    have up: "root_at ?g (f (f n)) r" using ih True root_at_step [of ?g "f n" r] unfolding gg by simp
    show ?thesis unfolding True by (rule root_via [OF _ nn up]) simp
  next
    case False
    show ?thesis by (rule root_via [OF _ root_up.hyps(1) ih]) (simp add: False)
  qed
qed

lemma root_halve_iff: "ranked rk f \<Longrightarrow> root_at (f(n := f (f n))) x r \<longleftrightarrow> root_at f x r"
  by (metis root_at_unique root_exists root_halve)

lemma root_link:
  assumes "root_at f x r" "ranked rk f" "f a = a" "f b = b" "a \<noteq> b"
  shows "root_at (f(a := b)) x (if r = a then b else r)"
  using assms
proof (induction rule: root_at.induct)
  case (root_here x)
  show ?case
  proof (cases "x = a")
    case True
    have "root_at (f(a := b)) b b" using root_here by (intro root_at.root_here) simp
    then show ?thesis unfolding if_P [OF True]
      by (rule root_via [rotated 2]) (use True root_here in simp_all)
  next
    case False
    then have "root_at (f(a := b)) x x" using root_here by (intro root_at.root_here) simp
    then show ?thesis unfolding if_not_P [OF False] .
  qed
next
  case (root_up x r)
  have "x \<noteq> a" using root_up by auto
  then show ?case by (intro root_via [OF _ root_up.hyps(1) root_up.IH [OF root_up.prems]]) simp
qed

lemma root_in: "root_at f n r \<Longrightarrow> n \<in> A \<Longrightarrow> (\<And>x. x \<in> A \<Longrightarrow> f x \<in> A) \<Longrightarrow> r \<in> A"
  by (induction rule: root_at.induct) auto

lemma ranked_link:
  assumes "ranked rk f" "f a = a" "f b = b" "a \<noteq> b"
  shows "\<exists>rk'. ranked rk' (f(a := b))"
proof -
  define rk' where "rk' x = rk x + (if root_at f x a then Suc (rk b) else 0)" for x
  have nb: "\<not> root_at f b a" using assms by (auto elim: root_atE)
  have aa: "root_at f a a" using assms by (intro root_here)
  have "rk' ((f(a := b)) n) < rk' n" if n: "(f(a := b)) n \<noteq> n" for n
  proof (cases "n = a")
    case True
    then show ?thesis using aa nb by (simp add: rk'_def)
  next
    case False
    then have "rk (f n) < rk n" using n assms(1) by (simp add: ranked_def)
    moreover have "root_at f (f n) a = root_at f n a" by (simp flip: root_at_step)
    ultimately show ?thesis using False by (simp add: rk'_def)
  qed
  then show ?thesis unfolding ranked_def by blast
qed

section \<open>The dictionary of parents\<close>

lemma par_update [simp]: "par (AList.update n m p) = (par p)(n := m)"
  by (rule ext) (simp add: par_def update_conv')

lemma par_setdefault [simp]: "par (dict_setdefault n n p) = par p"
  by (rule ext) (auto simp: par_def map_of_setdefault split: option.splits)

definition within :: "'n list \<Rightarrow> ('n \<Rightarrow> 'n) \<Rightarrow> bool" where
  "within ks f \<longleftrightarrow> (\<forall>x \<in> set ks. f x \<in> set ks)"

lemma within_update: "within ks f \<Longrightarrow> n \<in> set ks \<Longrightarrow> m \<in> set ks \<Longrightarrow> within ks (f(n := m))"
  by (simp add: within_def)

lemma within_snoc: "within ks f \<Longrightarrow> f n = n \<Longrightarrow> within (ks @ [n]) f"
  by (auto simp: within_def)

lemma within_step: "within ks f \<Longrightarrow> x \<in> set ks \<Longrightarrow> f x \<in> set ks"
  by (simp add: within_def)

definition forest :: "'n parents \<Rightarrow> bool" where
  "forest p \<longleftrightarrow> (\<exists>rk. ranked rk (par p)) \<and> within (map fst p) (par p)"

definition root_of :: "'n parents \<Rightarrow> 'n \<Rightarrow> 'n" where
  "root_of p n = (case find_root p n of Some (r, _) \<Rightarrow> r | None \<Rightarrow> n)"

lemma key_of_moved: "par p n \<noteq> n \<Longrightarrow> n \<in> set (map fst p)"
  by (auto simp: par_def split: option.splits dest!: map_of_SomeD intro: rev_image_eqI)

lemma find_loop_finds:
  assumes "ranked rk (par p)" "root_at (par p) n r"
    and "within (map fst p) (par p)"
  shows "\<exists>q. find_loop p n = Some (r, q) \<and> ranked rk (par q) \<and> root_at (par q) = root_at (par p)
       \<and> map fst q = map fst p \<and> within (map fst q) (par q)"
  using assms
proof (induction "rk n" arbitrary: n p rule: less_induct)
  case less
  show ?case
  proof (cases "par p n = n")
    case True
    then have "r = n" using less.prems(2) by (auto elim: root_atE)
    with True less.prems show ?thesis by (subst find_loop.simps) simp
  next
    case False
    let ?g = "par p (par p n)" and ?q = "AList.update n (par p (par p n)) p"
    have "rk (par p n) < rk n" using False less.prems(1) by (simp add: ranked_def)
    moreover have "rk ?g \<le> rk (par p n)"
      using less.prems(1) unfolding ranked_def by (cases "?g = par p n") (auto intro: less_imp_le)
    ultimately have rk: "rk ?g < rk n" by simp
    have q: "ranked rk (par ?q)" using ranked_halve [OF less.prems(1)] by simp
    have roots: "root_at (par ?q) = root_at (par p)"
      by (intro ext) (simp add: root_halve_iff [OF less.prems(1)])
    have g: "root_at (par ?q) ?g r" using less.prems(2) unfolding roots by (simp flip: root_at_step)
    have keys: "map fst ?q = map fst p" using key_of_moved [OF False] by (simp only: map_fst_update set_map if_True)
    have "within (map fst ?q) (par ?q)"
      unfolding keys par_update using key_of_moved [OF False] less.prems(3)
      by (simp only: within_update within_step)
    from less.hyps [OF rk q g this] keys roots False show ?thesis by (subst find_loop.simps) simp
  qed
qed

lemma find_root_finds:
  assumes "forest p"
  shows "\<exists>q. find_root p n = Some (root_of p n, q) \<and> forest q \<and> root_at (par q) = root_at (par p)
           \<and> map fst q = (if n \<in> set (map fst p) then map fst p else map fst p @ [n])
           \<and> root_at (par p) n (root_of p n)"
proof -
  let ?e = "dict_setdefault n n p"
  obtain rk where rk: "ranked rk (par p)" using assms by (auto simp: forest_def)
  obtain r where r: "root_at (par p) n r" using root_exists [OF rk] by blast
  have keys: "map fst ?e = (if n \<in> set (map fst p) then map fst p else map fst p @ [n])"
    by (simp add: map_fst_setdefault)
  have "within (map fst ?e) (par ?e)"
    using assms key_of_moved [of p n] within_snoc [of "map fst p" "par p" n]
    unfolding keys par_setdefault forest_def by (auto split: if_splits)
  then obtain q where
    q: "find_loop ?e n = Some (r, q)" "ranked rk (par q)" "root_at (par q) = root_at (par p)"
       "map fst q = map fst ?e" "within (map fst q) (par q)"
    using find_loop_finds [of rk ?e n r] rk r unfolding par_setdefault by blast
  then show ?thesis using r keys by (auto simp: find_root_def root_of_def forest_def)
qed

lemma root_of_at: "forest p \<Longrightarrow> root_at (par p) n (root_of p n)"
  using find_root_finds [of p n] by blast

lemma root_of_iff: "forest p \<Longrightarrow> root_of p n = r \<longleftrightarrow> root_at (par p) n r"
  using root_of_at [of p n] root_at_unique [of "par p" n] by blast

lemma root_of_cong:
  assumes "forest p" "forest q" "root_at (par q) = root_at (par p)"
  shows "root_of q = root_of p"
proof
  fix x
  have "root_at (par q) x (root_of p x)" using root_of_at [OF assms(1)] assms(3) by simp
  then show "root_of q x = root_of p x" by (simp add: root_of_iff [OF assms(2)])
qed

lemma forest_Nil: "forest []"
  by (auto simp: forest_def ranked_def par_def within_def)

lemma unite_links:
  assumes p: "forest p" and x: "x \<in> set (map fst p)" and y: "y \<in> set (map fst p)"
  shows "\<exists>t. unite p (x, y) = Some t \<and> forest t \<and> map fst t = map fst p
      \<and> root_of t = (\<lambda>z. if root_of p z = root_of p x then root_of p y else root_of p z)"
proof -
  let ?a = "root_of p x" and ?b = "root_of p y"
  from find_root_finds [OF p, of x] x obtain q where
    q: "find_root p x = Some (?a, q)" "forest q" "root_at (par q) = root_at (par p)" "map fst q = map fst p"
    by auto
  have rq: "root_of q = root_of p" using root_of_cong [OF p q(2,3)] .
  from find_root_finds [OF q(2), of y] y obtain w where
    w: "find_root q y = Some (?b, w)" "forest w" "root_at (par w) = root_at (par q)" "map fst w = map fst p"
    unfolding rq q(4) by auto
  have rw: "root_of w = root_of p" using root_of_cong [OF q(2) w(2,3)] rq by simp
  show ?thesis
  proof (cases "?a = ?b")
    case True
    then show ?thesis using q w rw by (auto simp: unite_def)
  next
    case False
    have rx: "root_at (par w) x ?a" and ry: "root_at (par w) y ?b"
      using root_of_at [OF w(2)] rw by metis+
    then have fixed: "par w ?a = ?a" "par w ?b = ?b" by (simp_all add: root_at_fixed)
    let ?t = "AList.update ?a ?b w"
    have ab: "?a \<in> set (map fst w)" "?b \<in> set (map fst w)"
      using root_in [OF rx, of "set (map fst w)"] root_in [OF ry, of "set (map fst w)"] x y
        within_step [of "map fst w" "par w"] w(2) unfolding w(4) [symmetric] forest_def by blast+
    have keys: "map fst ?t = map fst w" using ab(1) by (simp add: map_fst_update)
    have t: "forest ?t"
      using w(2) ab ranked_link [OF _ fixed False] unfolding forest_def keys par_update
      by (blast intro: within_update)
    have "root_of ?t z = (if root_of p z = ?a then ?b else root_of p z)" for z
    proof -
      obtain rk where rk: "ranked rk (par w)" using w(2) by (auto simp: forest_def)
      have "root_at (par w) z (root_of p z)" using root_of_at [OF w(2)] rw by metis
      from root_link [OF this rk fixed False] show ?thesis by (simp add: root_of_iff [OF t])
    qed
    with q w t keys False show ?thesis by (auto simp: unite_def)
  qed
qed

interpretation uf: disjoint_sets forest root_of "map fst" find_root unite
proof
  fix p :: "'a parents" and x
  assume p: "forest p"
  then show "\<exists>t. find_root p x = Some (root_of p x, t) \<and> forest t \<and> root_of t = root_of p
      \<and> map fst t = (if x \<in> set (map fst p) then map fst p else map fst p @ [x])"
    using find_root_finds [OF p, of x] root_of_cong [OF p] by blast
qed (rule unite_links)

end
