(* ===== verification/Comparison.thy ===== *)
theory Comparison
  imports Json UnionFind
begin

text \<open>
  \<open>app/forestry_comparison.py\<close>: the comparison of a pending forestry snapshot with the published
  one. Features with one and the same geometry on both sides are a certain pair; the others are
  grouped by area overlap through union-find. PostGIS is the parameter \<open>postgis\<close> of the overlap
  query, SHA-256 the parameter \<open>sha256\<close>; a geometry is its well-known binary.
\<close>

section \<open>Floats\<close>

text \<open>\<open>round(x, 4)\<close> of a float from 0 to 1: to four decimals, ties to even, then to a float.\<close>

definition round4 :: "pyfloat \<Rightarrow> pyfloat" where
  "round4 x = (case x of Fin a \<Rightarrow> round_double (of_int (round_even (a * 10000)) / 10000) | _ \<Rightarrow> x)"

definition link_overlap_ratio :: pyfloat where
  "link_overlap_ratio = round_double (5 / 100)"

section \<open>Data\<close>

datatype change_kind = Same_geometry | Geometry_changed | Uncertain | Added | Removed

definition review_required_kinds :: "change_kind list" where
  "review_required_kinds = [Geometry_changed, Uncertain]"

type_synonym geometry = "nat list"

text \<open>A row of \<open>forestry.source_feature\<close>.\<close>

record feature =
  ft_snapshot :: int
  ft_ordinal :: int
  ft_objectid :: "int option"
  ft_cod :: "pystr option"
  ft_nom :: "pystr option"
  ft_rodal :: "pystr option"
  ft_sup :: "pyfloat option"
  ft_area :: pyfloat
  ft_attributes :: "(pystr, json) pydict"
  ft_geometry :: geometry
  ft_valid :: bool

record feature_ref =
  fr_ordinal :: int
  fr_objectid :: "int option"
  fr_cod :: "pystr option"
  fr_nom :: "pystr option"
  fr_rodal :: "pystr option"
  fr_sup :: "pyfloat option"
  fr_area :: pyfloat

record overlap_evidence =
  oe_published :: int
  oe_pending :: int
  oe_ratio :: pyfloat

record change_item =
  ci_kind :: change_kind
  ci_published :: "feature_ref list"
  ci_pending :: "feature_ref list"
  ci_changed :: "pystr list"
  ci_overlaps :: "overlap_evidence list"
  ci_same_objectid :: "bool option"

record snapshot_comparison =
  sc_published :: int
  sc_counts :: "(change_kind, nat) pydict"
  sc_unchanged :: nat
  sc_items :: "change_item list"
  sc_link_ratio :: pyfloat

definition review_required_count :: "snapshot_comparison \<Rightarrow> nat" where
  "review_required_count c = sum_list (map (dict_count (sc_counts c)) review_required_kinds)"

datatype comparison_error = Comparison_unavailable

section \<open>Loading\<close>

definition load_features :: "feature list \<Rightarrow> int \<Rightarrow> (int, feature) pydict" where
  "load_features table snapshot =
     foldl (\<lambda>d r. AList.update (ft_ordinal r) r d) []
       (sort_key ft_ordinal (filter (\<lambda>r. ft_snapshot r = snapshot) table))"

definition feature_ref_of :: "feature \<Rightarrow> feature_ref" where
  "feature_ref_of r = \<lparr>fr_ordinal = ft_ordinal r, fr_objectid = ft_objectid r, fr_cod = ft_cod r,
     fr_nom = ft_nom r, fr_rodal = ft_rodal r, fr_sup = ft_sup r, fr_area = ft_area r\<rparr>"

definition attribute :: "(pystr, json) pydict \<Rightarrow> pystr \<Rightarrow> json" where
  "attribute d k = (case map_of d k of Some v \<Rightarrow> v | None \<Rightarrow> JNull)"

definition changed_fields :: "feature \<Rightarrow> feature \<Rightarrow> pystr list" where
  "changed_fields before after =
     (let b = ft_attributes before; a = ft_attributes after
      in sort (filter (\<lambda>k. \<not> json_eq (attribute b k) (attribute a k)) (dedup (map fst b @ map fst a))))"

section \<open>The overlap query\<close>

text \<open>
  What the query calls: \<open>&&\<close>, \<open>ST_MakeValid\<close>, \<open>ST_Intersects\<close>, the area of
  \<open>ST_Intersection\<close>, \<open>ST_Area\<close>, the pairs GEOS fails on, and the order in which the
  database returns rows, which the query leaves open.
\<close>

record postgis =
  pg_boxes_meet :: "geometry \<Rightarrow> geometry \<Rightarrow> bool"
  pg_make_valid :: "geometry \<Rightarrow> geometry"
  pg_intersects :: "geometry \<Rightarrow> geometry \<Rightarrow> bool"
  pg_shared_area :: "geometry \<Rightarrow> geometry \<Rightarrow> pyfloat"
  pg_area :: "geometry \<Rightarrow> pyfloat"
  pg_fails :: "geometry \<Rightarrow> geometry \<Rightarrow> bool"
  pg_order :: "(int \<times> int \<times> pyfloat \<times> pyfloat) list \<Rightarrow> (int \<times> int \<times> pyfloat \<times> pyfloat) list"

definition usable_geometry :: "postgis \<Rightarrow> feature \<Rightarrow> geometry" where
  "usable_geometry pg r = (if ft_valid r then ft_geometry r else pg_make_valid pg (ft_geometry r))"

text \<open>\<open>LEAST\<close>, for which NaN is the greatest number.\<close>

definition fl_least :: "pyfloat \<Rightarrow> pyfloat \<Rightarrow> pyfloat" where
  "fl_least x y = (if x = NaN then y else if y = NaN then x else if fl_less y x then y else x)"

definition candidate_pairs :: "postgis \<Rightarrow> feature list \<Rightarrow> int \<Rightarrow> int \<Rightarrow> int list \<Rightarrow> int list \<Rightarrow> (feature \<times> feature) list" where
  "candidate_pairs pg table published pending ps qs =
     filter (\<lambda>(a, b). pg_boxes_meet pg (ft_geometry a) (ft_geometry b)
                \<and> ft_snapshot a = published \<and> ft_snapshot b = pending
                \<and> ft_ordinal a \<in> set ps \<and> ft_ordinal b \<in> set qs)
       (List.product table table)"

definition overlap_rows :: "postgis \<Rightarrow> feature list \<Rightarrow> int \<Rightarrow> int \<Rightarrow> int list \<Rightarrow> int list
    \<Rightarrow> (int \<times> int \<times> pyfloat \<times> pyfloat) list option" where
  "overlap_rows pg table published pending ps qs =
     (let pairs = candidate_pairs pg table published pending ps qs
      in if list_ex (\<lambda>(a, b). pg_fails pg (usable_geometry pg a) (usable_geometry pg b)) pairs then None
         else Some (pg_order pg
           (map (\<lambda>(a, b). let ga = usable_geometry pg a; gb = usable_geometry pg b
                          in (ft_ordinal a, ft_ordinal b, pg_shared_area pg ga gb,
                              fl_least (pg_area pg ga) (pg_area pg gb)))
             (filter (\<lambda>(a, b). pg_intersects pg (usable_geometry pg a) (usable_geometry pg b)) pairs))))"

definition overlap_of_row :: "int \<times> int \<times> pyfloat \<times> pyfloat \<Rightarrow> overlap_evidence option" where
  "overlap_of_row row =
     (case row of (a, b, shared, smaller) \<Rightarrow>
        if fl_le smaller (Fin 0) then None
        else let ratio = fl_div shared smaller
             in if fl_less (Fin 0) ratio
                then Some \<lparr>oe_published = a, oe_pending = b,
                       oe_ratio = round4 (if fl_less (Fin 1) ratio then Fin 1 else ratio)\<rparr>
                else None)"

definition overlaps :: "postgis \<Rightarrow> feature list \<Rightarrow> int \<Rightarrow> int \<Rightarrow> int list \<Rightarrow> int list
    \<Rightarrow> comparison_error + overlap_evidence list" where
  "overlaps pg table published pending ps qs =
     (if ps = [] \<or> qs = [] then Inr []
      else case overlap_rows pg table published pending ps qs of
             None \<Rightarrow> Inl Comparison_unavailable
           | Some rows \<Rightarrow> Inr (List.map_filter overlap_of_row rows))"

section \<open>Certain pairs\<close>

record match_state =
  ms_items :: "change_item list"
  ms_unchanged :: nat
  ms_published :: "int set"
  ms_pending :: "int set"

definition digest :: "(geometry \<Rightarrow> pystr) \<Rightarrow> feature \<Rightarrow> pystr" where
  "digest sha256 r = sha256 (ft_geometry r)"

definition by_digest :: "(geometry \<Rightarrow> pystr) \<Rightarrow> (int, feature) pydict \<Rightarrow> (pystr, int list) pydict" where
  "by_digest sha256 d =
     foldl (\<lambda>g (o', r). dict_append (digest sha256 r) o' g) [] d"

text \<open>\<open>published[o]\<close>: the ordinals looked up are keys.\<close>

definition feature_at :: "(int, feature) pydict \<Rightarrow> int \<Rightarrow> feature" where
  "feature_at d k = the (map_of d k)"

definition same_item :: "feature \<Rightarrow> feature \<Rightarrow> change_item" where
  "same_item before after = \<lparr>ci_kind = Same_geometry, ci_published = [feature_ref_of before],
     ci_pending = [feature_ref_of after], ci_changed = changed_fields before after, ci_overlaps = [],
     ci_same_objectid = Some (ft_objectid before = ft_objectid after)\<rparr>"

definition match_step :: "(int, feature) pydict \<Rightarrow> (int, feature) pydict \<Rightarrow> (pystr, int list) pydict
    \<Rightarrow> match_state \<Rightarrow> pystr \<times> int list \<Rightarrow> match_state" where
  "match_step pub pen by_pending st entry =
     (let ps = snd entry;
          qs = (case map_of by_pending (fst entry) of Some qs \<Rightarrow> qs | None \<Rightarrow> [])
      in if length ps \<noteq> 1 \<or> length qs \<noteq> 1 then st
         else let before = feature_at pub (hd ps); after = feature_at pen (hd qs);
                  st = st\<lparr>ms_published := insert (ft_ordinal before) (ms_published st),
                          ms_pending := insert (ft_ordinal after) (ms_pending st)\<rparr>
              in if changed_fields before after = [] then st\<lparr>ms_unchanged := ms_unchanged st + 1\<rparr>
                 else st\<lparr>ms_items := ms_items st @ [same_item before after]\<rparr>)"

definition match_same :: "(geometry \<Rightarrow> pystr) \<Rightarrow> (int, feature) pydict \<Rightarrow> (int, feature) pydict \<Rightarrow> match_state" where
  "match_same sha256 pub pen =
     foldl (match_step pub pen (by_digest sha256 pen))
       \<lparr>ms_items = [], ms_unchanged = 0, ms_published = {}, ms_pending = {}\<rparr> (by_digest sha256 pub)"

definition remaining :: "(int, feature) pydict \<Rightarrow> int set \<Rightarrow> int list" where
  "remaining d matched = sort (filter (\<lambda>k. k \<notin> matched) (map fst d))"

section \<open>Groups of overlapping features\<close>

text \<open>The sides sort as their names do.\<close>

datatype side = Side_pending | Side_published

instantiation side :: linorder
begin

definition less_eq_side :: "side \<Rightarrow> side \<Rightarrow> bool" where
  "less_eq_side a b \<longleftrightarrow> a = Side_pending \<or> b = Side_published"

definition less_side :: "side \<Rightarrow> side \<Rightarrow> bool" where
  "less_side a b \<longleftrightarrow> a = Side_pending \<and> b = Side_published"

instance
proof
  fix a b c :: side
  show "a < b \<longleftrightarrow> a \<le> b \<and> \<not> b \<le> a" by (cases a; cases b) (simp_all add: less_eq_side_def less_side_def)
  show "a \<le> a" by (cases a) (simp_all add: less_eq_side_def)
  show "a \<le> b \<Longrightarrow> b \<le> c \<Longrightarrow> a \<le> c" by (cases b) (auto simp: less_eq_side_def)
  show "a \<le> b \<Longrightarrow> b \<le> a \<Longrightarrow> a = b" by (cases a; cases b) (simp_all add: less_eq_side_def)
  show "a \<le> b \<or> b \<le> a" by (cases a) (simp_all add: less_eq_side_def)
qed

end

type_synonym node = "side \<times> int"

definition enter_nodes :: "int list \<Rightarrow> int list \<Rightarrow> node parents option" where
  "enter_nodes ps qs =
     fold_option (\<lambda>p n. map_option snd (find_root p n)) []
       (map (Pair Side_published) ps @ map (Pair Side_pending) qs)"

definition evidence_nodes :: "overlap_evidence \<Rightarrow> node \<times> node" where
  "evidence_nodes e = ((Side_published, oe_published e), (Side_pending, oe_pending e))"

definition link_nodes :: "node parents \<Rightarrow> overlap_evidence list \<Rightarrow> node parents option" where
  "link_nodes p evidence =
     fold_option unite p (map evidence_nodes (filter (\<lambda>e. fl_le link_overlap_ratio (oe_ratio e)) evidence))"

definition group_nodes :: "node parents \<Rightarrow> ((node, node list) pydict \<times> node parents) option" where
  "group_nodes p =
     fold_option (\<lambda>(d, p) n. map_option (\<lambda>(r, p). (dict_append r n d, p)) (find_root p n)) ([], p)
       (map fst p)"

definition file_overlap :: "(node, overlap_evidence list) pydict \<times> node parents \<Rightarrow> overlap_evidence
    \<Rightarrow> ((node, overlap_evidence list) pydict \<times> node parents) option" where
  "file_overlap dp e =
     do { (r, p) \<leftarrow> find_root (snd dp) (Side_published, oe_published e);
          (s, p) \<leftarrow> find_root p (Side_pending, oe_pending e);
          Some (if r = s then dict_append r e (fst dp) else fst dp, p) }"

definition group_kind :: "nat \<Rightarrow> nat \<Rightarrow> change_kind" where
  "group_kind befores afters =
     (if befores > 0 \<and> afters > 0 then (if befores = 1 \<and> afters = 1 then Geometry_changed else Uncertain)
      else if afters > 0 then Added else Removed)"

definition side_ordinals :: "side \<Rightarrow> node list \<Rightarrow> int list" where
  "side_ordinals s nodes = map snd (filter (\<lambda>n. fst n = s) (sort nodes))"

definition group_item :: "(int, feature) pydict \<Rightarrow> (int, feature) pydict \<Rightarrow> overlap_evidence list \<Rightarrow> node list \<Rightarrow> change_item" where
  "group_item pub pen evidence nodes =
     (let befores = map (feature_at pub) (side_ordinals Side_published nodes);
          afters = map (feature_at pen) (side_ordinals Side_pending nodes);
          kind = group_kind (length befores) (length afters);
          pair = (kind = Geometry_changed)
      in \<lparr>ci_kind = kind, ci_published = map feature_ref_of befores, ci_pending = map feature_ref_of afters,
          ci_changed = (if pair then changed_fields (hd befores) (hd afters) else []),
          ci_overlaps = sort_key (\<lambda>e. (oe_published e, oe_pending e)) evidence,
          ci_same_objectid = (if pair then Some (ft_objectid (hd befores) = ft_objectid (hd afters)) else None)\<rparr>)"

definition group_items :: "(int, feature) pydict \<Rightarrow> (int, feature) pydict \<Rightarrow> int list \<Rightarrow> int list
    \<Rightarrow> overlap_evidence list \<Rightarrow> change_item list option" where
  "group_items pub pen ps qs evidence =
     do { p \<leftarrow> enter_nodes ps qs;
          p \<leftarrow> link_nodes p evidence;
          (groups, p) \<leftarrow> group_nodes p;
          (filed, p) \<leftarrow> fold_option file_overlap ([], p) evidence;
          Some (map (\<lambda>(root, nodes).
                  group_item pub pen (case map_of filed root of Some es \<Rightarrow> es | None \<Rightarrow> []) nodes) groups) }"

section \<open>The comparison\<close>

definition kind_order :: "change_kind list" where
  "kind_order = [Uncertain, Geometry_changed, Removed, Added, Same_geometry]"

definition kind_rank :: "change_kind \<Rightarrow> nat" where
  "kind_rank k =
     (case k of Uncertain \<Rightarrow> 0 | Geometry_changed \<Rightarrow> 1 | Removed \<Rightarrow> 2 | Added \<Rightarrow> 3 | Same_geometry \<Rightarrow> 4)"

definition least_ordinal :: "feature_ref list \<Rightarrow> int" where
  "least_ordinal refs = (case refs of [] \<Rightarrow> 0 | r # rs \<Rightarrow> foldl min (fr_ordinal r) (map fr_ordinal rs))"

definition item_rank :: "change_item \<Rightarrow> nat \<times> int \<times> int" where
  "item_rank i = (kind_rank (ci_kind i), least_ordinal (ci_pending i), least_ordinal (ci_published i))"

text \<open>\<open>None\<close> is a comparison that never returns; \<open>comparison_returns\<close> shows there is none.\<close>

definition compare_snapshots :: "(geometry \<Rightarrow> pystr) \<Rightarrow> postgis \<Rightarrow> feature list \<Rightarrow> int \<Rightarrow> int
    \<Rightarrow> (comparison_error + snapshot_comparison) option" where
  "compare_snapshots sha256 pg table published pending =
     (let pub = load_features table published; pen = load_features table pending;
          st = match_same sha256 pub pen;
          ps = remaining pub (ms_published st); qs = remaining pen (ms_pending st)
      in case overlaps pg table published pending ps qs of
           Inl e \<Rightarrow> Some (Inl e)
         | Inr evidence \<Rightarrow>
             do { grouped \<leftarrow> group_items pub pen ps qs evidence;
                  let items = sort_key item_rank (ms_items st @ grouped);
                  Some (Inr \<lparr>sc_published = published,
                     sc_counts = count_into (zero_counts kind_order) (map ci_kind items),
                     sc_unchanged = ms_unchanged st, sc_items = items,
                     sc_link_ratio = link_overlap_ratio\<rparr>) })"

end
