(* ===== verification/ComparisonFacts.thy ===== *)
theory ComparisonFacts
  imports Comparison
begin

text \<open>
  What \<open>compare_snapshots\<close> guarantees: it returns, every feature is accounted for exactly once,
  and two features are grouped exactly when a chain of overlaps links them.
\<close>

section \<open>Loading and digests\<close>

lemma foldl_update_distinct:
  assumes "distinct (map f xs)"
  shows "foldl (\<lambda>d x. AList.update (f x) x d) [] xs = map (\<lambda>x. (f x, x)) xs"
  using assms
proof (induction xs rule: rev_induct)
  case (snoc x xs)
  have "f x \<notin> fst ` set (map (\<lambda>x. (f x, x)) xs) \<Longrightarrow>
      AList.update (f x) x (map (\<lambda>x. (f x, x)) xs) = map (\<lambda>x. (f x, x)) xs @ [(f x, x)]" for xs
    by (induction xs) auto
  with snoc show ?case by (auto simp: image_iff)
qed simp

definition unique_ordinals :: "feature list \<Rightarrow> bool" where
  "unique_ordinals table \<longleftrightarrow> distinct (map (\<lambda>r. (ft_snapshot r, ft_ordinal r)) table)"

definition rows_of :: "feature list \<Rightarrow> int \<Rightarrow> feature list" where
  "rows_of table s = sort_key ft_ordinal (filter (\<lambda>r. ft_snapshot r = s) table)"

lemma set_rows_of [simp]: "set (rows_of table s) = {r \<in> set table. ft_snapshot r = s}"
  by (auto simp: rows_of_def)

lemma distinct_rows_of:
  assumes "unique_ordinals table"
  shows "distinct (map ft_ordinal (rows_of table s))"
proof -
  have "inj_on ft_ordinal (set (filter (\<lambda>r. ft_snapshot r = s) table))"
    using assms by (auto simp: unique_ordinals_def distinct_map inj_on_def)
  moreover have "distinct table" using assms by (auto simp: unique_ordinals_def distinct_map)
  ultimately have "distinct (map ft_ordinal (filter (\<lambda>r. ft_snapshot r = s) table))"
    by (simp add: distinct_map)
  then show ?thesis by (simp add: rows_of_def distinct_map_sort_key)
qed

lemma load_features_eq:
  "unique_ordinals table \<Longrightarrow> load_features table s = map (\<lambda>r. (ft_ordinal r, r)) (rows_of table s)"
  using foldl_update_distinct [OF distinct_rows_of [of table s]] by (simp add: load_features_def rows_of_def)

lemma feature_at_loaded:
  assumes "distinct (map ft_ordinal P)" "a \<in> set P"
  shows "feature_at (map (\<lambda>r. (ft_ordinal r, r)) P) (ft_ordinal a) = a"
proof -
  have "map_of (map (\<lambda>r. (ft_ordinal r, r)) P) (ft_ordinal a) = Some a"
    using assms by (intro map_of_is_SomeI) (auto simp: o_def)
  then show ?thesis by (simp add: feature_at_def)
qed

lemma by_digest_eq:
  "by_digest sha (map (\<lambda>r. (ft_ordinal r, r)) P)
     = map (\<lambda>(k, g). (k, map ft_ordinal g)) (group_by (digest sha) P)"
proof -
  have "foldl (\<lambda>g (o', r). dict_append (digest sha r) o' g) (map (\<lambda>(k, g). (k, map ft_ordinal g)) d)
          (map (\<lambda>r. (ft_ordinal r, r)) P)
      = map (\<lambda>(k, g). (k, map ft_ordinal g)) (foldl (\<lambda>d x. dict_append (digest sha x) x d) d P)" for d
    by (induction P arbitrary: d) (simp_all add: dict_append_map)
  from this [of "[]"] show ?thesis by (simp add: by_digest_def group_by_def)
qed

section \<open>Certain pairs\<close>

lemma distinct_singleton: "distinct xs \<Longrightarrow> xs = [c] \<longleftrightarrow> set xs = {c}"
  by (cases xs; cases "tl xs") auto

lemma filter_singleD: "filter P xs = [a] \<Longrightarrow> a \<in> set xs \<and> P a"
  using filter_set [of P xs] by (auto simp: set_eq_iff)

definition pair_of :: "(feature \<Rightarrow> pystr) \<Rightarrow> feature list \<Rightarrow> pystr \<times> feature list \<Rightarrow> (feature \<times> feature) option" where
  "pair_of f Q e =
     (case (snd e, filter (\<lambda>r. f r = fst e) Q) of ([a], [b]) \<Rightarrow> Some (a, b) | _ \<Rightarrow> None)"

definition pairs_of :: "(feature \<Rightarrow> pystr) \<Rightarrow> feature list \<Rightarrow> feature list \<Rightarrow> (feature \<times> feature) list" where
  "pairs_of f P Q = List.map_filter (pair_of f Q) (group_by f P)"

lemma pair_of_Some:
  "pair_of f Q (k, g) = Some (a, b) \<longleftrightarrow> g = [a] \<and> filter (\<lambda>r. f r = k) Q = [b]"
  by (auto simp: pair_of_def split: list.splits)

lemma pairs_of_iff:
  "(a, b) \<in> set (pairs_of f P Q) \<longleftrightarrow> filter (\<lambda>r. f r = f a) P = [a] \<and> filter (\<lambda>r. f r = f a) Q = [b]"
proof -
  have "(a, b) \<in> set (pairs_of f P Q) \<longleftrightarrow> (\<exists>e \<in> set (group_by f P). pair_of f Q e = Some (a, b))"
    by (auto simp: pairs_of_def List.map_filter_def image_iff) (metis option.sel)
  also have "\<dots> \<longleftrightarrow> (\<exists>k \<in> f ` set P. filter (\<lambda>r. f r = k) P = [a] \<and> filter (\<lambda>r. f r = k) Q = [b])"
    by (fastforce simp: group_by_entry pair_of_Some Bex_def)
  also have "\<dots> \<longleftrightarrow> filter (\<lambda>r. f r = f a) P = [a] \<and> filter (\<lambda>r. f r = f a) Q = [b]"
  proof safe
    fix x assume "filter (\<lambda>r. f r = f x) P = [a]" "filter (\<lambda>r. f r = f x) Q = [b]"
    moreover from filter_singleD [OF this(1)] have "f a = f x" by simp
    ultimately show "filter (\<lambda>r. f r = f a) P = [a]" "filter (\<lambda>r. f r = f a) Q = [b]" by simp_all
  next
    assume "filter (\<lambda>r. f r = f a) P = [a]" "filter (\<lambda>r. f r = f a) Q = [b]"
    moreover from filter_singleD [OF this(1)] have "a \<in> set P" by simp
    ultimately show "\<exists>k \<in> f ` set P. filter (\<lambda>r. f r = k) P = [a] \<and> filter (\<lambda>r. f r = k) Q = [b]" by blast
  qed
  finally show ?thesis .
qed

lemma distinct_pairs_of: "distinct (map fst (pairs_of f P Q))"
proof -
  have "distinct (map fst (List.map_filter (pair_of f Q) es))"
    if "distinct (map fst es)" "\<forall>(k, g) \<in> set es. \<forall>x \<in> set g. f x = k" for es
    using that
  proof (induction es)
    case (Cons e es)
    obtain k g where e: "e = (k, g)" by fastforce
    have "a \<notin> fst ` set (List.map_filter (pair_of f Q) es)" if p: "pair_of f Q e = Some (a, b)" for a b
    proof
      assume "a \<in> fst ` set (List.map_filter (pair_of f Q) es)"
      then obtain l h c where "(l, h) \<in> set es" "pair_of f Q (l, h) = Some (a, c)"
        by (auto simp: List.map_filter_def)
      with p Cons.prems e show False by (force simp: pair_of_Some)
    qed
    with Cons show ?case by (auto simp: e split: option.splits)
  qed simp
  moreover have "\<forall>(k, g) \<in> set (group_by f P). \<forall>x \<in> set g. f x = k" by (auto simp: group_by_entry)
  ultimately show ?thesis unfolding pairs_of_def using distinct_group_by by blast
qed

definition state_of :: "(feature \<times> feature) list \<Rightarrow> match_state" where
  "state_of ps =
     \<lparr>ms_items = map (\<lambda>(a, b). same_item a b) (filter (\<lambda>(a, b). changed_fields a b \<noteq> []) ps),
      ms_unchanged = length (filter (\<lambda>(a, b). changed_fields a b = []) ps),
      ms_published = ft_ordinal ` fst ` set ps, ms_pending = ft_ordinal ` snd ` set ps\<rparr>"

lemma match_same_eq:
  assumes P: "distinct (map ft_ordinal P)" and Q: "distinct (map ft_ordinal Q)"
  shows "match_same sha (map (\<lambda>r. (ft_ordinal r, r)) P) (map (\<lambda>r. (ft_ordinal r, r)) Q)
           = state_of (pairs_of (digest sha) P Q)"
proof -
  let ?pub = "map (\<lambda>r. (ft_ordinal r, r)) P" and ?pen = "map (\<lambda>r. (ft_ordinal r, r)) Q"
  let ?step = "match_step ?pub ?pen (by_digest sha ?pen)"
  have look: "(case map_of (by_digest sha ?pen) k of Some qs \<Rightarrow> qs | None \<Rightarrow> [])
      = map ft_ordinal (filter (\<lambda>r. digest sha r = k) Q)" for k
    by (auto simp: by_digest_eq map_of_map_snd lookup_group_by filter_empty_conv split: option.splits)
  have step: "?step (state_of ps) (k, map ft_ordinal g)
      = state_of (ps @ (case pair_of (digest sha) Q (k, g) of Some ab \<Rightarrow> [ab] | None \<Rightarrow> []))"
    if g: "set g \<subseteq> set P" for ps k g
  proof (cases "pair_of (digest sha) Q (k, g)")
    case None
    then have "length g \<noteq> 1 \<or> length (filter (\<lambda>r. digest sha r = k) Q) \<noteq> 1"
      by (auto simp: pair_of_def length_Suc_conv split: list.splits)
    with None show ?thesis unfolding match_step_def fst_conv snd_conv look by (simp add: Let_def)
  next
    case (Some ab)
    obtain a b where ab: "ab = (a, b)" by fastforce
    with Some have ga: "g = [a]" and fb: "filter (\<lambda>r. digest sha r = k) Q = [b]"
      by (simp_all add: pair_of_Some)
    have "b \<in> set Q" using filter_singleD [OF fb] by simp
    then have "feature_at ?pub (ft_ordinal a) = a" "feature_at ?pen (ft_ordinal b) = b"
      using g ga by (simp_all add: feature_at_loaded [OF P] feature_at_loaded [OF Q])
    with Some ab ga fb show ?thesis
      unfolding match_step_def fst_conv snd_conv look by (simp add: Let_def state_of_def)
  qed
  have "foldl ?step (state_of ps) (map (\<lambda>(k, g). (k, map ft_ordinal g)) es)
      = state_of (ps @ List.map_filter (pair_of (digest sha) Q) es)"
    if "\<forall>(k, g) \<in> set es. set g \<subseteq> set P" for ps es
    using that
  proof (induction es arbitrary: ps)
    case (Cons e es)
    obtain k g where e: "e = (k, g)" by fastforce
    then have g: "set g \<subseteq> set P" using Cons.prems by auto
    show ?case using Cons by (auto simp: e step [OF g] split: option.splits)
  qed simp
  note fold = this
  have "\<forall>(k, g) \<in> set (group_by (digest sha) P). set g \<subseteq> set P" by (auto simp: group_by_entry)
  from fold [OF this, of "[]"] show ?thesis
    unfolding match_same_def by_digest_eq [of sha P] pairs_of_def by (simp add: state_of_def)
qed

section \<open>Groups\<close>

text \<open>The first member of each class of a relation, in list order.\<close>

fun firsts :: "('n \<times> 'n) set \<Rightarrow> 'n list \<Rightarrow> 'n list" where
  "firsts R [] = []"
| "firsts R (x # xs) = x # filter (\<lambda>y. (y, x) \<notin> R) (firsts R xs)"

lemma set_firsts: "set (firsts R xs) \<subseteq> set xs"
  by (induction xs) auto

lemma firsts_cover: "equiv UNIV R \<Longrightarrow> x \<in> set xs \<Longrightarrow> \<exists>y \<in> set (firsts R xs). (x, y) \<in> R"
  by (induction xs) (auto simp: equiv_def refl_on_def, metis transD symD)

lemma firsts_apart: "sym R \<Longrightarrow> x \<in> set (firsts R xs) \<Longrightarrow> y \<in> set (firsts R xs) \<Longrightarrow> (x, y) \<in> R \<Longrightarrow> x = y"
  by (induction xs) (auto dest: symD)

lemma distinct_firsts: "refl R \<Longrightarrow> distinct (firsts R xs)"
  by (induction xs) (auto simp: refl_on_def)

lemma group_by_firsts:
  assumes "\<And>x y. (x, y) \<in> R \<longleftrightarrow> f x = f y"
  shows "group_by f xs = map (\<lambda>x. (f x, filter (\<lambda>y. (y, x) \<in> R) xs)) (firsts R xs)"
proof -
  have "dedup (map f xs) = map f (firsts R xs)"
    by (induction xs) (simp_all add: filter_map o_def assms)
  then show ?thesis by (simp add: group_by_eq o_def assms)
qed

definition links :: "overlap_evidence list \<Rightarrow> (node \<times> node) set" where
  "links ev = evidence_nodes ` {e \<in> set ev. fl_le link_overlap_ratio (oe_ratio e)}"

definition chained :: "overlap_evidence list \<Rightarrow> (node \<times> node) set" where
  "chained ev = (links ev \<union> (links ev)\<inverse>)\<^sup>*"

lemma equiv_chained: "equiv UNIV (chained ev)"
  unfolding chained_def by (intro equivI refl_rtrancl trans_rtrancl sym_rtrancl) (auto intro: symI)

definition class_item :: "(int, feature) pydict \<Rightarrow> (int, feature) pydict \<Rightarrow> overlap_evidence list
    \<Rightarrow> node list \<Rightarrow> node \<Rightarrow> change_item" where
  "class_item pub pen ev ns x =
     group_item pub pen
       (filter (\<lambda>e. (fst (evidence_nodes e), x) \<in> chained ev \<and> (snd (evidence_nodes e), x) \<in> chained ev) ev)
       (filter (\<lambda>y. (y, x) \<in> chained ev) ns)"

definition all_nodes :: "int list \<Rightarrow> int list \<Rightarrow> node list" where
  "all_nodes ps qs = map (Pair Side_published) ps @ map (Pair Side_pending) qs"

lemma same_Nil: "uf.same ([] :: node parents) = Id"
proof -
  have "root_of ([] :: node parents) x = x" for x
    unfolding root_of_iff [OF forest_Nil] by (rule root_here) (simp add: par_def)
  then show ?thesis by (auto simp: uf.same_def)
qed

lemma file_overlaps:
  assumes "forest p"
  shows "\<exists>q. fold_option file_overlap (d, p) ev =
           Some (foldl (\<lambda>d e. dict_append (root_of p (fst (evidence_nodes e))) e d) d
             (filter (\<lambda>e. root_of p (fst (evidence_nodes e)) = root_of p (snd (evidence_nodes e))) ev), q)"
  using assms
proof (induction ev arbitrary: d p)
  case (Cons e ev)
  obtain q where q: "find_root p (fst (evidence_nodes e)) = Some (root_of p (fst (evidence_nodes e)), q)"
      "forest q" "root_of q = root_of p"
    using uf.lookup_rep [OF Cons.prems] by metis
  obtain w where w: "find_root q (snd (evidence_nodes e)) = Some (root_of p (snd (evidence_nodes e)), w)"
      "forest w" "root_of w = root_of p"
    using uf.lookup_rep [OF q(2)] q(3) by metis
  show ?case using Cons.IH [OF w(2)] q(1,3) w(1,3) by (simp add: file_overlap_def evidence_nodes_def)
qed simp

lemma group_items_eq:
  assumes "distinct ps" "distinct qs" "\<forall>e \<in> set ev. oe_published e \<in> set ps \<and> oe_pending e \<in> set qs"
  shows "group_items pub pen ps qs ev
           = Some (map (class_item pub pen ev (all_nodes ps qs)) (firsts (chained ev) (all_nodes ps qs)))"
proof -
  let ?N = "all_nodes ps qs"
  let ?L = "map evidence_nodes (filter (\<lambda>e. fl_le link_overlap_ratio (oe_ratio e)) ev)"
  have "distinct ?N" using assms(1,2) by (auto simp: all_nodes_def distinct_map inj_on_def)
  from uf.enter_all [OF forest_Nil this] obtain p where
    p: "enter_nodes ps qs = Some p" "forest p" "root_of p = root_of []" "map fst p = ?N"
    by (auto simp: enter_nodes_def all_nodes_def)
  have "set (map fst ?L) \<subseteq> set ?N" "set (map snd ?L) \<subseteq> set ?N"
    using assms(3) by (auto simp: all_nodes_def evidence_nodes_def)
  with uf.join_all [OF p(2), of ?L] p(4) obtain q where
    q: "link_nodes p ev = Some q" "forest q" "map fst q = ?N" "uf.same q = (uf.same p \<union> set ?L \<union> (set ?L)\<inverse>)\<^sup>*"
    by (auto simp: link_nodes_def)
  have "uf.same p = Id" using p(3) same_Nil by (simp add: uf.same_def)
  moreover have "set ?L = links ev" by (auto simp: links_def)
  ultimately have "uf.same q = chained ev" using q(4) unfolding chained_def
    by (metis Un_assoc Un_commute rtrancl_reflcl)
  then have ker: "(x, y) \<in> chained ev \<longleftrightarrow> root_of q x = root_of q y" for x y by (auto simp: uf.same_def)
  from uf.group_all [OF q(2), of ?N "[]"] q(3) obtain w where
    w: "group_nodes q = Some (group_by (root_of q) ?N, w)" "forest w" "root_of w = root_of q"
    by (auto simp: group_nodes_def group_by_def)
  let ?same = "filter (\<lambda>e. root_of q (fst (evidence_nodes e)) = root_of q (snd (evidence_nodes e))) ev"
  from file_overlaps [OF w(2), of "[]" ev] w(3) obtain v where
    v: "fold_option file_overlap ([], w) ev = Some (group_by (\<lambda>e. root_of q (fst (evidence_nodes e))) ?same, v)"
    by (auto simp: group_by_def)
  have filed: "(case map_of (group_by (\<lambda>e. root_of q (fst (evidence_nodes e))) ?same) (root_of q x) of Some es \<Rightarrow> es | None \<Rightarrow> [])
      = filter (\<lambda>e. (fst (evidence_nodes e), x) \<in> chained ev \<and> (snd (evidence_nodes e), x) \<in> chained ev) ev" for x
    by (auto simp: lookup_group_by ker filter_empty_conv eq_commute [of "[]"] image_iff intro!: filter_cong; metis)
  show ?thesis
    by (simp add: group_items_def p(1) q(1) w(1) v group_by_firsts [OF ker] o_def filed class_item_def)
qed

section \<open>What the comparison is about\<close>

definition item_nodes :: "change_item \<Rightarrow> node set" where
  "item_nodes i = Pair Side_published ` fr_ordinal ` set (ci_published i)
                  \<union> Pair Side_pending ` fr_ordinal ` set (ci_pending i)"

text \<open>The two features are the only ones of their snapshots with their geometry.\<close>

definition certain_pair :: "feature list \<Rightarrow> int \<Rightarrow> int \<Rightarrow> feature \<Rightarrow> feature \<Rightarrow> bool" where
  "certain_pair table p q a b \<longleftrightarrow>
     {x \<in> set table. ft_snapshot x = p \<and> ft_geometry x = ft_geometry a} = {a}
     \<and> {x \<in> set table. ft_snapshot x = q \<and> ft_geometry x = ft_geometry a} = {b}"

definition snapshot_nodes :: "feature list \<Rightarrow> int \<Rightarrow> int \<Rightarrow> node set" where
  "snapshot_nodes table p q =
     {(Side_published, ft_ordinal a) |a. a \<in> set table \<and> ft_snapshot a = p}
     \<union> {(Side_pending, ft_ordinal b) |b. b \<in> set table \<and> ft_snapshot b = q}"

definition certain_nodes :: "feature list \<Rightarrow> int \<Rightarrow> int \<Rightarrow> (feature \<Rightarrow> feature \<Rightarrow> bool) \<Rightarrow> node set" where
  "certain_nodes table p q P =
     {n. \<exists>a b. certain_pair table p q a b \<and> P a b \<and> n \<in> {(Side_published, ft_ordinal a), (Side_pending, ft_ordinal b)}}"

definition leftover :: "feature list \<Rightarrow> int \<Rightarrow> int \<Rightarrow> node set" where
  "leftover table p q = snapshot_nodes table p q - certain_nodes table p q (\<lambda>_ _. True)"

text \<open>The overlap of two features reaches the ratio that links them.\<close>

definition linked :: "postgis \<Rightarrow> feature \<Rightarrow> feature \<Rightarrow> bool" where
  "linked pg a b \<longleftrightarrow>
     pg_boxes_meet pg (ft_geometry a) (ft_geometry b)
     \<and> (let ga = usable_geometry pg a; gb = usable_geometry pg b
        in pg_intersects pg ga gb
           \<and> (case overlap_of_row (0, 0, pg_shared_area pg ga gb, fl_least (pg_area pg ga) (pg_area pg gb)) of
                Some e \<Rightarrow> fl_le link_overlap_ratio (oe_ratio e) | None \<Rightarrow> False))"

definition feature_links :: "postgis \<Rightarrow> feature list \<Rightarrow> int \<Rightarrow> int \<Rightarrow> (node \<times> node) set" where
  "feature_links pg table p q =
     {(m, n). m \<in> leftover table p q \<and> n \<in> leftover table p q
        \<and> (\<exists>a \<in> set table. \<exists>b \<in> set table. ft_snapshot a = p \<and> ft_snapshot b = q
             \<and> m = (Side_published, ft_ordinal a) \<and> n = (Side_pending, ft_ordinal b) \<and> linked pg a b)}"

definition chain :: "postgis \<Rightarrow> feature list \<Rightarrow> int \<Rightarrow> int \<Rightarrow> (node \<times> node) set" where
  "chain pg table p q = (feature_links pg table p q \<union> (feature_links pg table p q)\<inverse>)\<^sup>*"

text \<open>
  The parameters: ordinals are unique in a snapshot (a constraint of the table), SHA-256 does not
  collide on its geometries, and the database returns the rows of the query in some order.
\<close>

definition comparable :: "(geometry \<Rightarrow> pystr) \<Rightarrow> postgis \<Rightarrow> feature list \<Rightarrow> bool" where
  "comparable sha256 pg table \<longleftrightarrow>
     unique_ordinals table \<and> inj_on sha256 (ft_geometry ` set table)
     \<and> (\<forall>rows. mset (pg_order pg rows) = mset rows)"

lemma certain_pair_iff:
  assumes "comparable sha pg table"
  shows "(a, b) \<in> set (pairs_of (digest sha) (rows_of table p) (rows_of table q)) \<longleftrightarrow> certain_pair table p q a b"
proof -
  have single: "filter (\<lambda>r. digest sha r = digest sha a) (rows_of table s) = [c]
      \<longleftrightarrow> {x \<in> set table. ft_snapshot x = s \<and> ft_geometry x = ft_geometry a} = {c}" if a: "a \<in> set table" for s c
  proof -
    let ?F = "filter (\<lambda>r. digest sha r = digest sha a) (rows_of table s)"
    have "distinct ?F" using distinct_rows_of [of table s] assms by (auto simp: comparable_def distinct_map)
    then have "?F = [c] \<longleftrightarrow> set ?F = {c}" by (rule distinct_singleton)
    moreover have "digest sha x = digest sha a \<longleftrightarrow> ft_geometry x = ft_geometry a" if "x \<in> set table" for x
      using assms a that by (auto simp: comparable_def digest_def inj_on_def)
    then have "set ?F = {x \<in> set table. ft_snapshot x = s \<and> ft_geometry x = ft_geometry a}" by auto
    ultimately show ?thesis by simp
  qed
  show ?thesis
  proof (cases "a \<in> set table")
    case True
    then show ?thesis by (simp add: pairs_of_iff certain_pair_def single)
  next
    case False
    then show ?thesis by (auto simp: pairs_of_iff certain_pair_def dest!: filter_singleD)
  qed
qed

lemma mem_map_options: "y \<in> set (List.map_filter f xs) \<longleftrightarrow> (\<exists>x \<in> set xs. f x = Some y)"
  by (induction xs) (auto split: option.splits)

lemma bex_map_pairs:
  "(\<exists>r \<in> set (map f (filter P xs)). Q r) \<longleftrightarrow> (\<exists>a b. (a, b) \<in> set xs \<and> P (a, b) \<and> Q (f (a, b)))"
  by auto

lemma mem_candidates:
  "(a, b) \<in> set (candidate_pairs pg table p q ps qs) \<longleftrightarrow>
     a \<in> set table \<and> b \<in> set table \<and> pg_boxes_meet pg (ft_geometry a) (ft_geometry b)
     \<and> ft_snapshot a = p \<and> ft_snapshot b = q \<and> ft_ordinal a \<in> set ps \<and> ft_ordinal b \<in> set qs"
  by (auto simp: candidate_pairs_def)

lemma overlap_of_row_at:
  "overlap_of_row (a, b, x, y) = Some e \<longleftrightarrow>
     oe_published e = a \<and> oe_pending e = b
     \<and> (\<exists>z. overlap_of_row (0, 0, x, y) = Some z \<and> oe_ratio z = oe_ratio e)"
  by (cases e) (auto simp: overlap_of_row_def Let_def)

lemma overlap_of_row_ends: "overlap_of_row (a, b, x, y) = Some e \<Longrightarrow> oe_published e = a \<and> oe_pending e = b"
  by (auto simp: overlap_of_row_def Let_def split: if_splits)

lemma linked_iff:
  "linked pg a b \<longleftrightarrow> pg_boxes_meet pg (ft_geometry a) (ft_geometry b)
     \<and> pg_intersects pg (usable_geometry pg a) (usable_geometry pg b)
     \<and> (\<exists>e. overlap_of_row (ft_ordinal a, ft_ordinal b,
               pg_shared_area pg (usable_geometry pg a) (usable_geometry pg b),
               fl_least (pg_area pg (usable_geometry pg a)) (pg_area pg (usable_geometry pg b))) = Some e
             \<and> fl_le link_overlap_ratio (oe_ratio e))"
  unfolding linked_def Let_def overlap_of_row_at [of "ft_ordinal a"]
  by (auto split: option.splits)
    (fastforce intro: exI [where x = "\<lparr>oe_published = ft_ordinal a, oe_pending = ft_ordinal b, oe_ratio = r\<rparr>" for r])

lemma overlaps_eq:
  assumes C: "comparable sha pg table" and ok: "\<forall>g h. \<not> pg_fails pg g h"
    and ps: "Pair Side_published ` set ps = leftover table p q \<inter> range (Pair Side_published)"
    and qs: "Pair Side_pending ` set qs = leftover table p q \<inter> range (Pair Side_pending)"
  shows "\<exists>ev. overlaps pg table p q ps qs = Inr ev
           \<and> (\<forall>e \<in> set ev. oe_published e \<in> set ps \<and> oe_pending e \<in> set qs)
           \<and> links ev = feature_links pg table p q"
proof -
  have ips: "k \<in> set ps \<longleftrightarrow> (Side_published, k) \<in> leftover table p q" for k using ps by blast
  have iqs: "k \<in> set qs \<longleftrightarrow> (Side_pending, k) \<in> leftover table p q" for k using qs by blast
  show ?thesis
  proof (cases "ps = [] \<or> qs = []")
    case True
    then have "(\<forall>k. (Side_published, k) \<notin> leftover table p q) \<or> (\<forall>k. (Side_pending, k) \<notin> leftover table p q)"
      by (auto simp flip: ips iqs)
    then have "feature_links pg table p q = {}" unfolding feature_links_def by blast
    with True show ?thesis by (auto simp: overlaps_def links_def)
  next
    case False
    let ?pairs = "candidate_pairs pg table p q ps qs"
    let ?row = "\<lambda>(a, b). (ft_ordinal a, ft_ordinal b,
        pg_shared_area pg (usable_geometry pg a) (usable_geometry pg b),
        fl_least (pg_area pg (usable_geometry pg a)) (pg_area pg (usable_geometry pg b)))"
    let ?rows = "map ?row (filter (\<lambda>(a, b). pg_intersects pg (usable_geometry pg a) (usable_geometry pg b)) ?pairs)"
    let ?ev = "List.map_filter overlap_of_row (pg_order pg ?rows)"
    have ev: "overlaps pg table p q ps qs = Inr ?ev"
      using False ok by (auto simp: overlaps_def overlap_rows_def Let_def list_ex_iff)
    have "mset (pg_order pg ?rows) = mset ?rows" using C by (simp add: comparable_def)
    then have rows: "set (pg_order pg ?rows) = set ?rows" by (rule mset_eq_setD)
    have mem: "e \<in> set ?ev \<longleftrightarrow> (\<exists>a \<in> set table. \<exists>b \<in> set table. ft_snapshot a = p \<and> ft_snapshot b = q
        \<and> ft_ordinal a \<in> set ps \<and> ft_ordinal b \<in> set qs
        \<and> pg_boxes_meet pg (ft_geometry a) (ft_geometry b)
        \<and> pg_intersects pg (usable_geometry pg a) (usable_geometry pg b)
        \<and> overlap_of_row (?row (a, b)) = Some e)" for e
    proof -
      have "e \<in> set ?ev \<longleftrightarrow> (\<exists>row \<in> set ?rows. overlap_of_row row = Some e)"
        by (simp only: mem_map_options rows)
      also have "\<dots> \<longleftrightarrow> (\<exists>a b. (a, b) \<in> set ?pairs \<and> pg_intersects pg (usable_geometry pg a) (usable_geometry pg b)
          \<and> overlap_of_row (?row (a, b)) = Some e)"
        by (simp only: bex_map_pairs prod.case)
      also have "\<dots> \<longleftrightarrow> (\<exists>a \<in> set table. \<exists>b \<in> set table. ft_snapshot a = p \<and> ft_snapshot b = q
          \<and> ft_ordinal a \<in> set ps \<and> ft_ordinal b \<in> set qs
          \<and> pg_boxes_meet pg (ft_geometry a) (ft_geometry b)
          \<and> pg_intersects pg (usable_geometry pg a) (usable_geometry pg b)
          \<and> overlap_of_row (?row (a, b)) = Some e)"
        unfolding mem_candidates by blast
      finally show ?thesis .
    qed
    have "links ?ev = feature_links pg table p q"
    proof (intro set_eqI iffI)
      fix mn assume "mn \<in> links ?ev"
      then obtain e where e: "e \<in> set ?ev" "fl_le link_overlap_ratio (oe_ratio e)" "mn = evidence_nodes e"
        by (auto simp: links_def)
      from e(1)[unfolded mem] obtain a b where ab: "a \<in> set table" "b \<in> set table" "ft_snapshot a = p"
          "ft_snapshot b = q" "ft_ordinal a \<in> set ps" "ft_ordinal b \<in> set qs"
          "pg_boxes_meet pg (ft_geometry a) (ft_geometry b)"
          "pg_intersects pg (usable_geometry pg a) (usable_geometry pg b)"
          "overlap_of_row (?row (a, b)) = Some e" by blast
      have "linked pg a b" using ab(7,8,9) e(2) by (auto simp: linked_iff)
      moreover have "mn = ((Side_published, ft_ordinal a), (Side_pending, ft_ordinal b))"
        using overlap_of_row_ends [OF ab(9)[unfolded prod.case]] e(3) by (simp add: evidence_nodes_def)
      ultimately show "mn \<in> feature_links pg table p q"
        using ab(1-4) ab(5,6) [unfolded ips iqs] unfolding feature_links_def by blast
    next
      fix mn assume "mn \<in> feature_links pg table p q"
      then obtain a b where ab: "a \<in> set table" "b \<in> set table" "ft_snapshot a = p" "ft_snapshot b = q"
          "mn = ((Side_published, ft_ordinal a), (Side_pending, ft_ordinal b))" "linked pg a b"
          "ft_ordinal a \<in> set ps" "ft_ordinal b \<in> set qs"
        unfolding feature_links_def ips iqs by blast
      from ab(6)[unfolded linked_iff] obtain e where
        e: "overlap_of_row (?row (a, b)) = Some e" "fl_le link_overlap_ratio (oe_ratio e)"
        unfolding prod.case by blast
      have "e \<in> set ?ev" unfolding mem using ab(1-4,7,8) ab(6)[unfolded linked_iff] e(1) by blast
      moreover have "mn = evidence_nodes e" using overlap_of_row_ends [OF e(1)[unfolded prod.case]] ab(5) by (simp add: evidence_nodes_def)
      ultimately show "mn \<in> links ?ev" using e(2) by (auto simp: links_def)
    qed
    moreover have "oe_published e \<in> set ps \<and> oe_pending e \<in> set qs" if "e \<in> set ?ev" for e
      using that unfolding mem prod.case by (auto dest: overlap_of_row_ends)
    ultimately show ?thesis using ev by blast
  qed
qed

section \<open>Nodes and items\<close>

lemma unique_feature:
  "unique_ordinals table \<Longrightarrow> a \<in> set table \<Longrightarrow> b \<in> set table \<Longrightarrow> ft_snapshot a = ft_snapshot b
     \<Longrightarrow> ft_ordinal a = ft_ordinal b \<Longrightarrow> a = b"
  by (auto simp: unique_ordinals_def distinct_map inj_on_def)

lemma certain_mem:
  "certain_pair table p q a b \<Longrightarrow> a \<in> set table \<and> ft_snapshot a = p \<and> b \<in> set table \<and> ft_snapshot b = q
     \<and> ft_geometry b = ft_geometry a"
  unfolding certain_pair_def by blast

definition pair_nodes :: "feature \<times> feature \<Rightarrow> node set" where
  "pair_nodes ab = {(Side_published, ft_ordinal (fst ab)), (Side_pending, ft_ordinal (snd ab))}"

lemma certain_unique:
  assumes "unique_ordinals table" "certain_pair table p q a b" "certain_pair table p q a' b'"
    and "n \<in> pair_nodes (a, b)" "n \<in> pair_nodes (a', b')"
  shows "(a, b) = (a', b')"
proof -
  note m = certain_mem [OF assms(2)] certain_mem [OF assms(3)]
  consider "ft_ordinal a = ft_ordinal a'" | "ft_ordinal b = ft_ordinal b'"
    using assms(4,5) by (auto simp: pair_nodes_def)
  then have "a = a' \<or> b = b'"
  proof cases
    case 1
    show ?thesis by (rule disjI1, rule unique_feature [OF assms(1)]) (use m 1 in simp_all)
  next
    case 2
    show ?thesis by (rule disjI2, rule unique_feature [OF assms(1)]) (use m 2 in simp_all)
  qed
  then have g: "ft_geometry a = ft_geometry a'" using m by metis
  have "{a} = {a'}" "{b} = {b'}" using assms(2,3) unfolding certain_pair_def g by (blast intro: trans [OF sym])+
  then show ?thesis by simp
qed

lemma length_filter_unique:
  assumes "distinct xs" "\<And>x y. x \<in> set xs \<Longrightarrow> y \<in> set xs \<Longrightarrow> P x \<Longrightarrow> P y \<Longrightarrow> x = y"
  shows "length (filter P xs) = (if \<exists>x \<in> set xs. P x then 1 else 0)"
  using filter_unique [OF assms] by (auto split: option.splits simp: find_None_iff dest: find_SomeD)

lemma set_side_ordinals: "set (side_ordinals s ns) = {k. (s, k) \<in> set ns}"
  by (force simp: side_ordinals_def)

lemma item_nodes_group:
  assumes "\<And>k. (Side_published, k) \<in> set ns \<Longrightarrow> ft_ordinal (feature_at pub k) = k"
    and "\<And>k. (Side_pending, k) \<in> set ns \<Longrightarrow> ft_ordinal (feature_at pen k) = k"
  shows "item_nodes (group_item pub pen ev ns) = set ns"
proof -
  have "item_nodes (group_item pub pen ev ns) =
      Pair Side_published ` (\<lambda>k. ft_ordinal (feature_at pub k)) ` {k. (Side_published, k) \<in> set ns}
      \<union> Pair Side_pending ` (\<lambda>k. ft_ordinal (feature_at pen k)) ` {k. (Side_pending, k) \<in> set ns}"
    by (simp add: item_nodes_def group_item_def Let_def image_image feature_ref_of_def flip: set_side_ordinals)
  also have "\<dots> = {n \<in> set ns. fst n = Side_published} \<union> {n \<in> set ns. fst n = Side_pending}"
    using assms by (force simp: image_image)
  also have "\<dots> = set ns" using side.exhaust by auto
  finally show ?thesis .
qed

lemma group_item_kind:
  "ci_kind (group_item pub pen ev ns) = group_kind (length (ci_published (group_item pub pen ev ns)))
     (length (ci_pending (group_item pub pen ev ns)))"
  by (simp add: group_item_def Let_def)

lemma item_nodes_same: "item_nodes (same_item a b) = pair_nodes (a, b)"
  by (auto simp: item_nodes_def same_item_def feature_ref_of_def pair_nodes_def)

lemma certain_nodes_iff:
  "n \<in> certain_nodes table p q P \<longleftrightarrow> (\<exists>a b. certain_pair table p q a b \<and> P a b \<and> n \<in> pair_nodes (a, b))"
  by (simp add: certain_nodes_def pair_nodes_def)

lemma image_pair_sets:
  "f ` fst ` {(a, b). C a b} = {f a |a b. C a b}" "f ` snd ` {(a, b). C a b} = {f b |a b. C a b}"
  by force+

section \<open>The comparison as an equation\<close>

lemma compare_eq:
  assumes C: "comparable sha pg table" and ok: "\<forall>g h. \<not> pg_fails pg g h"
  shows "\<exists>c prs N cls. compare_snapshots sha pg table p q = Some (Inr c)
    \<and> set prs = {(a, b). certain_pair table p q a b} \<and> distinct prs
    \<and> set N = leftover table p q
    \<and> sc_unchanged c = length (filter (\<lambda>(a, b). changed_fields a b = []) prs)
    \<and> mset (sc_items c) = mset (map (\<lambda>(a, b). same_item a b) (filter (\<lambda>(a, b). changed_fields a b \<noteq> []) prs)
                               @ map cls (firsts (chain pg table p q) N))
    \<and> (\<forall>x. item_nodes (cls x) = {n \<in> leftover table p q. (n, x) \<in> chain pg table p q})
    \<and> (\<forall>x. ci_kind (cls x) = group_kind (length (ci_published (cls x))) (length (ci_pending (cls x))))"
proof -
  let ?P = "rows_of table p" and ?Q = "rows_of table q"
  let ?pub = "map (\<lambda>r. (ft_ordinal r, r)) ?P" and ?pen = "map (\<lambda>r. (ft_ordinal r, r)) ?Q"
  let ?prs = "pairs_of (digest sha) ?P ?Q"
  let ?st = "state_of ?prs"
  let ?ps = "remaining ?pub (ms_published ?st)" and ?qs = "remaining ?pen (ms_pending ?st)"
  have u: "unique_ordinals table" using C by (simp add: comparable_def)
  have dP: "distinct (map ft_ordinal ?P)" and dQ: "distinct (map ft_ordinal ?Q)"
    using distinct_rows_of [OF u] by simp_all
  have prs: "set ?prs = {(a, b). certain_pair table p q a b}" using certain_pair_iff [OF C] by auto
  have st: "match_same sha ?pub ?pen = ?st" by (rule match_same_eq [OF dP dQ])
  have set_ps: "set ?ps = {ft_ordinal a |a. a \<in> set table \<and> ft_snapshot a = p} - {ft_ordinal a |a b. certain_pair table p q a b}"
    and set_qs: "set ?qs = {ft_ordinal b |b. b \<in> set table \<and> ft_snapshot b = q} - {ft_ordinal b |a b. certain_pair table p q a b}"
    unfolding remaining_def state_of_def prs by (simp_all add: image_pair_sets) auto
  have left: "(Side_published, k) \<in> leftover table p q \<longleftrightarrow> k \<in> set ?ps"
      "(Side_pending, k) \<in> leftover table p q \<longleftrightarrow> k \<in> set ?qs" for k
    unfolding set_ps set_qs leftover_def snapshot_nodes_def certain_nodes_def by auto
  have N: "set (all_nodes ?ps ?qs) = leftover table p q"
  proof (rule set_eqI)
    fix n show "n \<in> set (all_nodes ?ps ?qs) \<longleftrightarrow> n \<in> leftover table p q"
      by (cases n; cases "fst n") (auto simp: all_nodes_def left)
  qed
  obtain ev where ev: "overlaps pg table p q ?ps ?qs = Inr ev"
      "\<forall>e \<in> set ev. oe_published e \<in> set ?ps \<and> oe_pending e \<in> set ?qs" "links ev = feature_links pg table p q"
    using overlaps_eq [OF C ok, of ?ps p q ?qs] left by blast
  have R: "chained ev = chain pg table p q" by (simp add: chained_def chain_def ev(3))
  have ds: "distinct ?ps" "distinct ?qs" using dP dQ by (simp_all add: remaining_def o_def)
  let ?cls = "class_item ?pub ?pen ev (all_nodes ?ps ?qs)"
  note groups = group_items_eq [OF ds ev(2), of ?pub ?pen, unfolded R]
  have atp: "ft_ordinal (feature_at ?pub k) = k" if "k \<in> set ?ps" for k
  proof -
    from that obtain a where "a \<in> set ?P" "k = ft_ordinal a" unfolding set_ps by auto
    then show ?thesis by (simp add: feature_at_loaded [OF dP])
  qed
  have atq: "ft_ordinal (feature_at ?pen k) = k" if "k \<in> set ?qs" for k
  proof -
    from that obtain b where "b \<in> set ?Q" "k = ft_ordinal b" unfolding set_qs by auto
    then show ?thesis by (simp add: feature_at_loaded [OF dQ])
  qed
  have nodes: "item_nodes (?cls x) = {n \<in> leftover table p q. (n, x) \<in> chain pg table p q}" for x
    unfolding class_item_def
    by (subst item_nodes_group) (auto simp: atp atq R simp flip: N left)
  let ?items = "sort_key item_rank (ms_items ?st @ map ?cls (firsts (chain pg table p q) (all_nodes ?ps ?qs)))"
  let ?c = "\<lparr>sc_published = p, sc_counts = count_into (zero_counts kind_order) (map ci_kind ?items),
      sc_unchanged = ms_unchanged ?st, sc_items = ?items, sc_link_ratio = link_overlap_ratio\<rparr>"
  have "compare_snapshots sha pg table p q = Some (Inr ?c)"
    unfolding compare_snapshots_def load_features_eq [OF u] st Let_def ev(1) sum.case groups by simp
  moreover have "distinct ?prs" using distinct_pairs_of [of "digest sha" ?P ?Q] by (simp add: distinct_map)
  ultimately show ?thesis
    using prs N nodes group_item_kind [of ?pub ?pen]
    by (intro exI [of _ ?c] exI [of _ ?prs] exI [of _ "all_nodes ?ps ?qs"] exI [of _ ?cls])
      (simp add: state_of_def class_item_def)
qed

section \<open>Properties\<close>

lemma count_same_items:
  assumes "unique_ordinals table" "set prs = {(a, b). certain_pair table p q a b}" "distinct prs"
  shows "length (filter (\<lambda>i. n \<in> item_nodes i) (map (\<lambda>(a, b). same_item a b) (filter (\<lambda>(a, b). P a b) prs)))
           = (if n \<in> certain_nodes table p q P then 1 else 0)"
proof -
  have "length (filter (\<lambda>i. n \<in> item_nodes i) (map (\<lambda>(a, b). same_item a b) (filter (\<lambda>(a, b). P a b) prs)))
      = length (filter (\<lambda>ab. n \<in> pair_nodes ab) (filter (\<lambda>(a, b). P a b) prs))"
    by (simp add: filter_map o_def split_beta item_nodes_same)
  also have "\<dots> = (if \<exists>ab \<in> set (filter (\<lambda>(a, b). P a b) prs). n \<in> pair_nodes ab then 1 else 0)"
  proof (rule length_filter_unique)
    fix x y assume "x \<in> set (filter (\<lambda>(a, b). P a b) prs)" "y \<in> set (filter (\<lambda>(a, b). P a b) prs)"
      and n: "n \<in> pair_nodes x" "n \<in> pair_nodes y"
    then obtain a b a' b' where "x = (a, b)" "certain_pair table p q a b" "y = (a', b')" "certain_pair table p q a' b'"
      using assms(2) by auto
    then show "x = y" using certain_unique [OF assms(1)] n by blast
  qed (simp add: assms(3))
  also have "(\<exists>ab \<in> set (filter (\<lambda>(a, b). P a b) prs). n \<in> pair_nodes ab) \<longleftrightarrow> n \<in> certain_nodes table p q P"
    using assms(2) by (auto simp: certain_nodes_iff)
  finally show ?thesis .
qed

lemma equiv_chain: "equiv UNIV (chain pg table p q)"
  unfolding chain_def by (intro equivI refl_rtrancl trans_rtrancl sym_rtrancl) (auto intro: symI)

lemma count_classes:
  assumes "equiv UNIV R" "n \<in> set N"
  shows "length (filter (\<lambda>x. (n, x) \<in> R) (firsts R N)) = 1"
proof -
  have R: "refl R" "sym R" "trans R" using assms(1) by (simp_all add: equiv_def)
  have "\<exists>x \<in> set (firsts R N). (n, x) \<in> R" using firsts_cover [OF assms] .
  moreover have "x = y" if "x \<in> set (firsts R N)" "y \<in> set (firsts R N)" "(n, x) \<in> R" "(n, y) \<in> R" for x y
    using firsts_apart [OF R(2) that(1,2)] that(3,4) R(2,3) by (meson symD transD)
  ultimately show ?thesis
    by (subst length_filter_unique) (use distinct_firsts [OF R(1)] in auto)
qed

lemma certain_nodes_split:
  assumes "unique_ordinals table"
  shows "certain_nodes table p q P \<inter> certain_nodes table p q (\<lambda>a b. \<not> P a b) = {}"
    and "n \<in> certain_nodes table p q (\<lambda>_ _. True) \<longleftrightarrow>
           n \<in> certain_nodes table p q P \<or> n \<in> certain_nodes table p q (\<lambda>a b. \<not> P a b)"
  using certain_unique [OF assms] by (auto simp: certain_nodes_iff) blast+

text \<open>
  C6. Every feature of either snapshot is accounted for exactly once: the comparison returns, and
  the feature is either one of a certain pair without attribute change, which is only counted, or
  listed by exactly one item.
\<close>

theorem comparison_accounts_once:
  assumes "comparable sha256 pg table" "\<forall>g h. \<not> pg_fails pg g h"
  shows "\<exists>c. compare_snapshots sha256 pg table p q = Some (Inr c)
    \<and> sc_unchanged c = card {a. \<exists>b. certain_pair table p q a b \<and> changed_fields a b = []}
    \<and> (\<forall>n \<in> snapshot_nodes table p q.
          length (filter (\<lambda>i. n \<in> item_nodes i) (sc_items c))
            = (if n \<in> certain_nodes table p q (\<lambda>a b. changed_fields a b = []) then 0 else 1))"
proof -
  let ?R = "chain pg table p q" and ?same = "\<lambda>a b. changed_fields a b = []"
  have u: "unique_ordinals table" using assms(1) by (simp add: comparable_def)
  obtain c prs N cls where c: "compare_snapshots sha256 pg table p q = Some (Inr c)"
    "set prs = {(a, b). certain_pair table p q a b}" "distinct prs" "set N = leftover table p q"
    "sc_unchanged c = length (filter (\<lambda>(a, b). ?same a b) prs)"
    "mset (sc_items c) = mset (map (\<lambda>(a, b). same_item a b) (filter (\<lambda>(a, b). \<not> ?same a b) prs) @ map cls (firsts ?R N))"
    "\<forall>x. item_nodes (cls x) = {n \<in> leftover table p q. (n, x) \<in> ?R}"
    using compare_eq [OF assms, of p q] by blast
  have "length (filter (\<lambda>(a, b). ?same a b) prs) = card (set (filter (\<lambda>(a, b). ?same a b) prs))"
    by (rule distinct_card [symmetric]) (use c(3) in simp)
  also have "set (filter (\<lambda>(a, b). ?same a b) prs) = {(a, b). certain_pair table p q a b \<and> ?same a b}"
    using c(2) by auto
  also have "card \<dots> = card (fst ` {(a, b). certain_pair table p q a b \<and> ?same a b})"
    by (rule card_image [symmetric]) (auto simp: inj_on_def certain_pair_def)
  also have "fst ` {(a, b). certain_pair table p q a b \<and> ?same a b} = {a. \<exists>b. certain_pair table p q a b \<and> ?same a b}"
    by force
  finally have unchanged: "sc_unchanged c = card {a. \<exists>b. certain_pair table p q a b \<and> ?same a b}"
    using c(5) by simp
  have "length (filter (\<lambda>i. n \<in> item_nodes i) (sc_items c)) = (if n \<in> certain_nodes table p q ?same then 0 else 1)"
    if n: "n \<in> snapshot_nodes table p q" for n
  proof -
    have "length (filter (\<lambda>i. n \<in> item_nodes i) (sc_items c))
        = (if n \<in> certain_nodes table p q (\<lambda>a b. \<not> ?same a b) then 1 else 0)
          + length (filter (\<lambda>x. n \<in> leftover table p q \<and> (n, x) \<in> ?R) (firsts ?R N))"
      unfolding length_filter_mset_eq [OF c(6)] filter_append length_append count_same_items [OF u c(2,3)]
      by (simp add: filter_map o_def spec [OF c(7)])
    moreover have "length (filter (\<lambda>x. (n, x) \<in> ?R) (firsts ?R N)) = 1" if "n \<in> leftover table p q"
      using count_classes [OF equiv_chain] that c(4) by simp
    ultimately show ?thesis
      using n certain_nodes_split(1) [OF u, of p q ?same] certain_nodes_split(2) [OF u, of n p q ?same]
      by (auto simp: leftover_def)
  qed
  with c(1) unchanged show ?thesis by blast
qed

text \<open>What the kind of a group says of its sides.\<close>

lemma kind_of_sides:
  assumes "k = Same_geometry \<and> length b = 1 \<and> length a = 1 \<or> k = group_kind (length b) (length a)"
  shows "case k of Same_geometry \<Rightarrow> length b = 1 \<and> length a = 1
        | Geometry_changed \<Rightarrow> length b = 1 \<and> length a = 1
        | Added \<Rightarrow> b = [] \<and> a \<noteq> []
        | Removed \<Rightarrow> a = []
        | Uncertain \<Rightarrow> b \<noteq> [] \<and> a \<noteq> [] \<and> length b + length a > 2"
proof -
  have "b = [] \<or> a = [] \<or> length b \<ge> 1 \<and> length a \<ge> 1" by (cases b; cases a) auto
  with assms show ?thesis by (auto simp: group_kind_def)
qed

text \<open>
  C16. Among the features that are in no certain pair, two are in one item exactly when a chain of
  overlaps of at least the linking ratio leads from one to the other, and the kind of an item says
  how many features it has on each side.
\<close>

theorem comparison_groups_chains:
  assumes "comparable sha256 pg table" "\<forall>g h. \<not> pg_fails pg g h"
  shows "\<exists>c. compare_snapshots sha256 pg table p q = Some (Inr c)
    \<and> (\<forall>m \<in> leftover table p q. \<forall>n \<in> leftover table p q.
          (\<exists>i \<in> set (sc_items c). m \<in> item_nodes i \<and> n \<in> item_nodes i) \<longleftrightarrow> (m, n) \<in> chain pg table p q)
    \<and> (\<forall>i \<in> set (sc_items c). case ci_kind i of
          Same_geometry \<Rightarrow> length (ci_published i) = 1 \<and> length (ci_pending i) = 1
        | Geometry_changed \<Rightarrow> length (ci_published i) = 1 \<and> length (ci_pending i) = 1
        | Added \<Rightarrow> ci_published i = [] \<and> ci_pending i \<noteq> []
        | Removed \<Rightarrow> ci_pending i = []
        | Uncertain \<Rightarrow> ci_published i \<noteq> [] \<and> ci_pending i \<noteq> [] \<and> length (ci_published i) + length (ci_pending i) > 2)"
proof -
  let ?R = "chain pg table p q" and ?changed = "\<lambda>a b. changed_fields a b \<noteq> []"
  obtain c prs N cls where c: "compare_snapshots sha256 pg table p q = Some (Inr c)"
    "set prs = {(a, b). certain_pair table p q a b}" "set N = leftover table p q"
    "mset (sc_items c) = mset (map (\<lambda>(a, b). same_item a b) (filter (\<lambda>(a, b). ?changed a b) prs) @ map cls (firsts ?R N))"
    "\<forall>x. item_nodes (cls x) = {n \<in> leftover table p q. (n, x) \<in> ?R}"
    "\<forall>x. ci_kind (cls x) = group_kind (length (ci_published (cls x))) (length (ci_pending (cls x)))"
    using compare_eq [OF assms, of p q] by blast
  have items: "set (sc_items c) = (\<lambda>(a, b). same_item a b) ` {(a, b). certain_pair table p q a b \<and> ?changed a b}
      \<union> cls ` set (firsts ?R N)"
    using mset_eq_setD [OF c(4)] c(2) by auto
  have R: "sym ?R" "trans ?R" using equiv_chain by (auto simp: equiv_def)
  have groups: "(\<exists>i \<in> set (sc_items c). m \<in> item_nodes i \<and> n \<in> item_nodes i) \<longleftrightarrow> (m, n) \<in> ?R"
    if mn: "m \<in> leftover table p q" "n \<in> leftover table p q" for m n
  proof
    assume "\<exists>i \<in> set (sc_items c). m \<in> item_nodes i \<and> n \<in> item_nodes i"
    then obtain i where i: "i \<in> set (sc_items c)" "m \<in> item_nodes i" "n \<in> item_nodes i" by blast
    have "m \<notin> pair_nodes (a, b)" if "certain_pair table p q a b" for a b
      using mn(1) that by (auto simp: leftover_def certain_nodes_iff)
    with i(1,2) obtain x where x: "i = cls x" unfolding items by (auto simp: item_nodes_same)
    with i(2,3) c(5) have "(m, x) \<in> ?R" "(n, x) \<in> ?R" by simp_all
    then show "(m, n) \<in> ?R" using R by (meson symD transD)
  next
    assume "(m, n) \<in> ?R"
    moreover obtain x where x: "x \<in> set (firsts ?R N)" "(m, x) \<in> ?R"
      using firsts_cover [OF equiv_chain] mn(1) c(3) by metis
    ultimately have "(n, x) \<in> ?R" using R by (meson symD transD)
    with x mn spec [OF c(5), of x] show "\<exists>i \<in> set (sc_items c). m \<in> item_nodes i \<and> n \<in> item_nodes i"
      unfolding items by (intro bexI [of _ "cls x"]) simp_all
  qed
  have "ci_kind i = Same_geometry \<and> length (ci_published i) = 1 \<and> length (ci_pending i) = 1
      \<or> ci_kind i = group_kind (length (ci_published i)) (length (ci_pending i))" if "i \<in> set (sc_items c)" for i
    using that c(6) unfolding items by (auto simp: same_item_def)
  with c(1) groups show ?thesis by (fastforce intro: kind_of_sides)
qed

section \<open>Concrete comparisons\<close>

definition square :: "int \<Rightarrow> int \<Rightarrow> geometry \<Rightarrow> feature" where
  "square s k g = \<lparr>ft_snapshot = s, ft_ordinal = k, ft_objectid = None, ft_cod = None, ft_nom = None,
     ft_rodal = None, ft_sup = None, ft_area = Fin 1, ft_attributes = [], ft_geometry = g, ft_valid = True\<rparr>"

definition plain_postgis :: postgis where
  "plain_postgis = \<lparr>pg_boxes_meet = (\<lambda>_ _. True), pg_make_valid = id, pg_intersects = (\<lambda>_ _. True),
     pg_shared_area = (\<lambda>_ _. Fin 1), pg_area = (\<lambda>_. Fin 1), pg_fails = (\<lambda>_ _. False), pg_order = id\<rparr>"

definition two_squares :: "feature list" where
  "two_squares = [square 1 1 [10], square 1 2 [20], square 2 1 [10], square 2 2 [30]]"

lemma comparable_squares: "comparable id plain_postgis two_squares"
  by (simp add: comparable_def unique_ordinals_def two_squares_def square_def plain_postgis_def)

lemma squares_fine: "\<forall>g h. \<not> pg_fails plain_postgis g h"
  by (simp add: plain_postgis_def)

lemma square_two_known: "(Side_published, 2) \<in> snapshot_nodes two_squares 1 2"
  unfolding snapshot_nodes_def
  by (intro UnI1 CollectI exI [of _ "square 1 2 [20]"]) (simp add: two_squares_def square_def)

lemma square_two_alone: "(Side_published, 2) \<notin> certain_nodes two_squares 1 2 P"
proof
  assume "(Side_published, 2) \<in> certain_nodes two_squares 1 2 P"
  then obtain a b where ab: "certain_pair two_squares 1 2 a b" "ft_ordinal a = 2"
    by (auto simp: certain_nodes_iff pair_nodes_def)
  then have "a = square 1 2 [20]"
    by (auto dest!: certain_mem simp: two_squares_def) (simp_all add: square_def)
  with certain_mem [OF ab(1)] show False by (auto simp: two_squares_def square_def)
qed

theorem comparison_accounts_once_witness:
  "\<exists>c. compare_snapshots id plain_postgis two_squares 1 2 = Some (Inr c)
     \<and> length (filter (\<lambda>i. (Side_published, 2) \<in> item_nodes i) (sc_items c)) = 1"
  using comparison_accounts_once [OF comparable_squares squares_fine, of 1 2] square_two_known square_two_alone
  by force

theorem comparison_groups_chains_witness:
  "\<exists>c. compare_snapshots id plain_postgis two_squares 1 2 = Some (Inr c)
     \<and> (\<exists>i \<in> set (sc_items c). (Side_published, 2) \<in> item_nodes i)"
proof -
  have "(Side_published, 2) \<in> leftover two_squares 1 2"
    using square_two_known square_two_alone by (simp add: leftover_def)
  moreover have "((Side_published, 2), (Side_published, 2)) \<in> chain plain_postgis two_squares 1 2"
    by (simp add: chain_def)
  ultimately show ?thesis
    using comparison_groups_chains [OF comparable_squares squares_fine, of 1 2] by blast
qed

end
