(* ===== verification/SignIn.thy ===== *)
theory SignIn
  imports Access
begin

text \<open>
  Sessions and sign-in: \<open>app/csrf.py\<close>, the current user of \<open>app/deps.py\<close>,
  \<open>app/dev_auth.py\<close>, the Google verification of \<open>app/google_auth.py\<close> and the handlers
  of \<open>routers/google_auth.py\<close>, \<open>routers/entra_auth.py\<close>, \<open>routers/dev_auth.py\<close>,
  \<open>routers/session.py\<close> and \<open>routers/access_admin.py\<close>. Cryptography, the token libraries and
  URL splitting are the parameters of \<open>platform_lib\<close>; random values are arguments.
\<close>

record entra_sign_in =
  es_tenant :: pystr
  es_object :: pystr
  es_display :: pystr
  es_email :: "pystr option"
  es_access :: "pystr option"
  es_refresh :: "pystr option"
  es_scope :: "pystr option"
  es_expires :: "int option"

record platform_lib =
  lib_ucd :: ucd
  lib_sha256 :: "pystr \<Rightarrow> pystr"
  lib_hmac :: "pystr \<Rightarrow> pystr \<Rightarrow> pystr"
  lib_encrypt :: "pystr \<Rightarrow> pystr \<Rightarrow> pystr"
  lib_decrypt :: "pystr \<Rightarrow> pystr \<Rightarrow> pystr option"
  lib_loads :: "pystr \<Rightarrow> json option"
  lib_str :: "json \<Rightarrow> pystr"
  lib_jwt :: "pystr \<Rightarrow> (pystr, json) pydict option"
  lib_exchange :: "pystr \<Rightarrow> pystr \<Rightarrow> (pystr, json) pydict option"
  lib_entra :: "pystr \<Rightarrow> (pystr, pystr) pydict \<Rightarrow> entra_sign_in option"
  lib_urlsplit :: "pystr \<Rightarrow> (pystr \<times> pystr) option"
  lib_hostname :: "pystr \<Rightarrow> pystr option"

section \<open>CSRF tokens\<close>

text \<open>\<open>hmac.compare_digest\<close> of two texts raises \<open>TypeError\<close> unless both are ASCII.\<close>

definition compare_digest :: "pystr \<Rightarrow> pystr \<Rightarrow> api_error + bool" where
  "compare_digest a b = (if is_ascii a \<and> is_ascii b then Inr (a = b) else Inl Type_error)"

definition csrf_sign :: "platform_lib \<Rightarrow> pystr \<Rightarrow> pystr \<Rightarrow> pystr" where
  "csrf_sign lib nonce session_token =
     lib_hmac lib (lib_sha256 lib session_token) (lit ''campo-csrf-v1'' @ [58] @ nonce)"

definition mint_csrf_token :: "platform_lib \<Rightarrow> pystr \<Rightarrow> pystr \<Rightarrow> pystr" where
  "mint_csrf_token lib nonce session_token = nonce @ [46] @ csrf_sign lib nonce session_token"

definition verify_csrf_token :: "platform_lib \<Rightarrow> pystr option \<Rightarrow> pystr \<Rightarrow> api_error + bool" where
  "verify_csrf_token lib candidate session_token =
     (case candidate of
        None \<Rightarrow> Inr False
      | Some c \<Rightarrow>
          if c = [] then Inr False
          else (case partition_char 46 c of (nonce, separator, signature) \<Rightarrow>
            if \<not> separator \<or> nonce = [] \<or> signature = [] then Inr False
            else if 46 \<in> set signature then Inr False
            else compare_digest signature (csrf_sign lib nonce session_token)))"

definition parse_trusted_origins :: "pystr option \<Rightarrow> pystr list" where
  "parse_trusted_origins raw =
     (case raw of None \<Rightarrow> [] | Some r \<Rightarrow>
        if r = [] then [] else filter (\<lambda>c. c \<noteq> []) (map strip (split_char 44 r)))"

definition normalize_origin :: "platform_lib \<Rightarrow> pystr \<Rightarrow> api_error + (pystr \<times> pystr) option" where
  "normalize_origin lib value =
     (case lib_urlsplit lib (strip value) of
        None \<Rightarrow> Inl Value_error
      | Some (scheme, netloc) \<Rightarrow>
          if scheme \<noteq> lit ''http'' \<and> scheme \<noteq> lit ''https'' \<or> netloc = [] then Inr None
          else Inr (Some (lower (lib_ucd lib) scheme, lower (lib_ucd lib) netloc)))"

definition loopback_hostnames :: "pystr list" where
  "loopback_hostnames = [lit ''localhost'', lit ''127.0.0.1'', lit ''::1'']"

definition is_trusted_origin :: "platform_lib \<Rightarrow> pystr \<Rightarrow> pystr option \<Rightarrow> app_env \<Rightarrow> pystr list \<Rightarrow> api_error + bool" where
  "is_trusted_origin lib origin host env trusted =
     bind_result (normalize_origin lib origin) (\<lambda>normalized.
       case normalized of
         None \<Rightarrow> Inr False
       | Some (scheme, netloc) \<Rightarrow>
           bind_result (traverse (normalize_origin lib) trusted) (\<lambda>known.
             if Some (scheme, netloc) \<in> set known then Inr True
             else if (case host of Some h \<Rightarrow> netloc = lower (lib_ucd lib) (strip h) | None \<Rightarrow> False) then Inr True
             else if env = Development \<or> env = Test
             then Inr (case lib_hostname lib (scheme @ lit ''://'' @ netloc) of
                         Some h \<Rightarrow> lower (lib_ucd lib) h \<in> set loopback_hostnames | None \<Rightarrow> False)
             else Inr False))"

record request =
  rq_session :: "pystr option"
  rq_csrf :: "pystr option"
  rq_origin :: "pystr option"
  rq_referer :: "pystr option"
  rq_host :: "pystr option"

definition present :: "pystr option \<Rightarrow> bool" where
  "present v = (case v of Some s \<Rightarrow> s \<noteq> [] | None \<Rightarrow> False)"

definition declared_origin :: "request \<Rightarrow> pystr option" where
  "declared_origin rq =
     (if present (rq_origin rq) then rq_origin rq else if present (rq_referer rq) then rq_referer rq else None)"

definition require_csrf :: "platform_lib \<Rightarrow> settings \<Rightarrow> request \<Rightarrow> api_error + unit" where
  "require_csrf lib cf rq =
     (case rq_session rq of
        None \<Rightarrow> Inl Not_authenticated
      | Some token \<Rightarrow>
          bind_result (case declared_origin rq of
                         None \<Rightarrow> Inr True
                       | Some origin \<Rightarrow> is_trusted_origin lib origin (rq_host rq) (cf_env cf)
                                         (parse_trusted_origins (cf_csrf_origins cf))) (\<lambda>trusted.
            if \<not> trusted then Inl Forbidden
            else bind_result (verify_csrf_token lib (rq_csrf rq) token) (\<lambda>ok.
                   if ok then Inr () else Inl Forbidden)))"

section \<open>Local development identities\<close>

definition seeded_dev_identities :: "(pystr, pystr) pydict" where
  "seeded_dev_identities =
     [(lit ''dev-admin'', lit ''Dev Admin''), (lit ''dev-operator'', lit ''Dev Operator''),
      (lit ''dev-viewer'', lit ''Dev Viewer'')]"

definition dev_identity_kind :: pystr where "dev_identity_kind = lit ''dev-local''"

definition default_seed_grants :: "(pystr, (pystr \<times> role) list) pydict" where
  "default_seed_grants =
     [(lit ''dev-admin'', [(lit ''lidar'', Admin), (lit ''forestry'', Admin), (lit ''transelect'', Admin)]),
      (lit ''dev-operator'', [(lit ''forestry'', Operator)]),
      (lit ''dev-viewer'', [(lit ''transelect'', Viewer)])]"

definition dev_login :: "settings \<Rightarrow> pystr \<Rightarrow> pystr \<Rightarrow> platform \<Rightarrow> api_error + pystr \<times> platform" where
  "dev_login cf token key pl =
     (if cf_env cf \<noteq> Development then Inl Dev_auth_disabled
      else case map_of seeded_dev_identities key of
        None \<Rightarrow> Inl Unprocessable
      | Some display \<Rightarrow>
          bind_result (resolve_or_create_app_user dev_identity_kind key display None pl) (\<lambda>(user, pl).
          bind_result (if list_grants_for_user pl (au_id user) \<noteq> [] then Inr pl
                       else fold_result (\<lambda>pl (p, r). grant_product_role (au_id user) p r pl) pl
                              (case map_of default_seed_grants key of Some gs \<Rightarrow> gs | None \<Rightarrow> [])) (\<lambda>pl.
            Inr (token, record_audit_event (Session_created (au_id user))
                          (pl\<lparr>pl_dev := AList.update token key (pl_dev pl)\<rparr>)))))"

section \<open>The current user\<close>

definition load_app_user :: "platform \<Rightarrow> int \<Rightarrow> api_error + app_user" where
  "load_app_user pl uid =
     (case find (\<lambda>r. au_id r = uid) (pl_users pl) of Some r \<Rightarrow> Inr r | None \<Rightarrow> Inl No_result)"

definition get_current_app_user :: "platform_lib \<Rightarrow> settings \<Rightarrow> pystr option \<Rightarrow> platform
    \<Rightarrow> api_error + app_user \<times> platform" where
  "get_current_app_user lib cf token pl =
     (case token of
        None \<Rightarrow> Inl Not_authenticated
      | Some t \<Rightarrow>
          (case resolve_session (lib_sha256 lib) t pl of
             (Some uid, pl) \<Rightarrow> bind_result (load_app_user pl uid) (\<lambda>r. Inr (r, pl))
           | (None, pl) \<Rightarrow>
               if cf_env cf \<noteq> Development then Inl Not_authenticated
               else (case map_of (pl_dev pl) t of
                       None \<Rightarrow> Inl Not_authenticated
                     | Some key \<Rightarrow>
                         resolve_or_create_app_user dev_identity_kind key
                           (case map_of seeded_dev_identities key of Some d \<Rightarrow> d | None \<Rightarrow> key) None pl)))"

definition has_active_session :: "platform_lib \<Rightarrow> settings \<Rightarrow> pystr \<Rightarrow> platform \<Rightarrow> bool" where
  "has_active_session lib cf t pl =
     (case resolve_session (lib_sha256 lib) t pl of
        (Some _, _) \<Rightarrow> True
      | (None, _) \<Rightarrow> cf_env cf = Development \<and> map_of (pl_dev pl) t \<noteq> None)"

definition logout :: "platform_lib \<Rightarrow> settings \<Rightarrow> request \<Rightarrow> platform \<Rightarrow> api_error + platform" where
  "logout lib cf rq pl =
     bind_result (require_csrf lib cf rq) (\<lambda>_.
     bind_result (get_current_app_user lib cf (rq_session rq) pl) (\<lambda>(_, pl).
       Inr (case rq_session rq of
              None \<Rightarrow> pl
            | Some t \<Rightarrow> (clear_session (lib_sha256 lib) t pl)\<lparr>pl_dev := AList.delete t (pl_dev pl)\<rparr>)))"

definition issue_csrf_token :: "platform_lib \<Rightarrow> settings \<Rightarrow> pystr \<Rightarrow> pystr option \<Rightarrow> platform
    \<Rightarrow> api_error + pystr \<times> platform" where
  "issue_csrf_token lib cf nonce token pl =
     bind_result (get_current_app_user lib cf token pl) (\<lambda>(_, pl).
       Inr (mint_csrf_token lib nonce (the token), pl))"

definition admin_grant_route :: "platform_lib \<Rightarrow> settings \<Rightarrow> request \<Rightarrow> pystr \<Rightarrow> pystr \<Rightarrow> role \<Rightarrow> platform
    \<Rightarrow> api_error + platform" where
  "admin_grant_route lib cf rq product email r pl =
     bind_result (require_csrf lib cf rq) (\<lambda>_.
     bind_result (get_current_app_user lib cf (rq_session rq) pl) (\<lambda>(caller, pl).
       grant_product_role_by_email (lib_ucd lib) cf (au_id caller) product email r pl))"

section \<open>Google sign-in\<close>

record google_sign_in =
  gs_subject :: pystr
  gs_email :: pystr
  gs_display :: pystr
  gs_hosted :: "pystr option"
  gs_member :: bool

definition google_issuers :: "pystr list" where
  "google_issuers = [lit ''https://accounts.google.com'', lit ''accounts.google.com'']"

definition claim :: "(pystr, json) pydict \<Rightarrow> string \<Rightarrow> json" where
  "claim d k = (case map_of d (lit k) of Some v \<Rightarrow> v | None \<Rightarrow> JNull)"

definition json_text :: "json \<Rightarrow> pystr option" where
  "json_text j = (case j of JStr s \<Rightarrow> Some s | _ \<Rightarrow> None)"

text \<open>Set membership of a list or an object raises \<open>TypeError\<close>.\<close>

definition known_issuer :: "json \<Rightarrow> api_error + bool" where
  "known_issuer j =
     (case j of JList _ \<Rightarrow> Inl Type_error | JObj _ \<Rightarrow> Inl Type_error | JStr s \<Rightarrow> Inr (s \<in> set google_issuers)
      | _ \<Rightarrow> Inr False)"

definition verify_id_token :: "platform_lib \<Rightarrow> pystr \<Rightarrow> pystr \<Rightarrow> pystr \<Rightarrow> pystr list \<Rightarrow> api_error + google_sign_in" where
  "verify_id_token lib id_token expected_nonce workspace externals =
     (let u = lib_ucd lib
      in case lib_jwt lib id_token of
        None \<Rightarrow> Inl Not_authenticated
      | Some claims \<Rightarrow>
          bind_result (known_issuer (claim claims ''iss'')) (\<lambda>known.
            if \<not> known then Inl Not_authenticated
            else bind_result (case json_text (claim claims ''nonce'') of
                                None \<Rightarrow> Inr False
                              | Some nonce \<Rightarrow> compare_digest nonce expected_nonce) (\<lambda>same.
            if \<not> same then Inl Not_authenticated
            else if claim claims ''email_verified'' \<noteq> JBool True then Inl Not_authenticated
            else (case json_text (claim claims ''email'') of
                    None \<Rightarrow> Inl Not_authenticated
                  | Some email \<Rightarrow>
                      if email = [] then Inl Not_authenticated
                      else let hosted = json_text (claim claims ''hd'');
                               member = (case hosted of Some d \<Rightarrow> casefold u d = casefold u workspace | None \<Rightarrow> False)
                           in if \<not> member \<and> casefold u (strip email) \<notin> set externals then Inl Not_authenticated
                              else Inr \<lparr>gs_subject = lib_str lib (claim claims ''sub''), gs_email = email,
                                     gs_display = (case json_text (claim claims ''name'') of
                                                     Some n \<Rightarrow> if n \<noteq> [] then n else email | None \<Rightarrow> email),
                                     gs_hosted = hosted, gs_member = member\<rparr>))))"

definition flow_part :: "(pystr, json) pydict \<Rightarrow> string \<Rightarrow> pystr option" where
  "flow_part d k = (case json_text (claim d k) of Some s \<Rightarrow> if s = [] then None else Some s | None \<Rightarrow> None)"

definition load_flow :: "platform_lib \<Rightarrow> pystr \<Rightarrow> api_error + pystr \<times> pystr \<times> pystr" where
  "load_flow lib flow_state =
     (case lib_loads lib flow_state of
        Some (JObj d) \<Rightarrow>
          (case (flow_part d ''state'', flow_part d ''nonce'', flow_part d ''code_verifier'') of
             (Some s, Some n, Some v) \<Rightarrow> Inr (s, n, v) | _ \<Rightarrow> Inl Not_authenticated)
      | _ \<Rightarrow> Inl Not_authenticated)"

definition redeem_code :: "platform_lib \<Rightarrow> pystr \<Rightarrow> pystr \<Rightarrow> pystr \<Rightarrow> pystr \<Rightarrow> pystr list \<Rightarrow> api_error + google_sign_in" where
  "redeem_code lib code verifier nonce workspace externals =
     (case lib_exchange lib code verifier of
        None \<Rightarrow> Inl Not_authenticated
      | Some response \<Rightarrow>
          (case flow_part response ''id_token'' of
             None \<Rightarrow> Inl Not_authenticated
           | Some t \<Rightarrow> verify_id_token lib t nonce workspace externals))"

definition google_complete :: "platform_lib \<Rightarrow> settings \<Rightarrow> pystr \<Rightarrow> (pystr, pystr) pydict \<Rightarrow> api_error + google_sign_in" where
  "google_complete lib cf flow_state params =
     bind_result (external_account_emails (lib_ucd lib) cf) (\<lambda>externals.
     bind_result (load_flow lib flow_state) (\<lambda>(state, nonce, verifier).
     bind_result (case map_of params (lit ''state'') of
                    None \<Rightarrow> Inr False
                  | Some s \<Rightarrow> if s = [] then Inr False else compare_digest s state) (\<lambda>same.
       if \<not> same then Inl Not_authenticated
       else if map_of params (lit ''error'') \<noteq> None then Inl Not_authenticated
       else if \<not> present (map_of params (lit ''code'')) then Inl Not_authenticated
       else redeem_code lib (the (map_of params (lit ''code''))) verifier nonce (cf_workspace cf) externals)))"

definition google_kind :: pystr where "google_kind = lit ''google''"

text \<open>The grants of one verified sign-in and its session.\<close>

definition google_grants :: "platform_lib \<Rightarrow> settings \<Rightarrow> google_sign_in \<Rightarrow> int \<Rightarrow> platform \<Rightarrow> api_error + platform" where
  "google_grants lib cf g uid pl =
     (if gs_member g
      then bind_result (maybe_grant_transelec_bootstrap_admin (lib_ucd lib) cf (gs_email g) uid pl) (\<lambda>(_, pl).
           bind_result (maybe_grant_configured_product_admins (lib_ucd lib) cf (gs_email g) uid pl) (\<lambda>(_, pl).
             Inr pl))
      else bind_result (maybe_grant_external_accounts (lib_ucd lib) cf (gs_email g) uid pl) (\<lambda>(_, pl). Inr pl))"

definition session_ttl :: int where "session_ttl = 8 * 3600"

definition google_callback :: "platform_lib \<Rightarrow> settings \<Rightarrow> pystr \<Rightarrow> pystr option \<Rightarrow> (pystr, pystr) pydict
    \<Rightarrow> platform \<Rightarrow> api_error + pystr \<times> platform" where
  "google_callback lib cf secret cookie params pl =
     (case cf_encryption_key cf of
        None \<Rightarrow> Inl Unavailable
      | Some key \<Rightarrow>
     (case cookie of
        None \<Rightarrow> Inl Bad_request
      | Some c \<Rightarrow>
     (case lib_decrypt lib c key of
        None \<Rightarrow> Inl Bad_request
      | Some flow \<Rightarrow>
          bind_result (google_complete lib cf flow params) (\<lambda>g.
            if \<not> gs_member g \<and> other_identity_holds_email (lib_ucd lib) pl google_kind (gs_subject g) (gs_email g)
            then Inl Not_authenticated
            else bind_result (resolve_or_create_app_user google_kind (gs_subject g) (gs_display g)
                                (Some (gs_email g)) pl) (\<lambda>(user, pl).
                 bind_result (google_grants lib cf g (au_id user) pl) (\<lambda>pl.
                 bind_result (create_session (lib_sha256 lib) secret (au_id user) session_ttl pl) (\<lambda>pl.
                   Inr (secret, record_audit_event (Session_created (au_id user)) pl))))))))"

section \<open>Entra sign-in\<close>

definition entra_kind :: pystr where "entra_kind = lit ''entra''"

text \<open>The table refuses a blank scope (migration 0007).\<close>

definition upsert_graph_grant :: "int \<Rightarrow> pystr \<Rightarrow> pystr \<Rightarrow> pystr \<Rightarrow> int \<Rightarrow> platform \<Rightarrow> api_error + platform" where
  "upsert_graph_grant uid access refresh scope expires pl =
     (if blank_text scope \<or> uid \<notin> set (map au_id (pl_users pl)) then Inl Integrity_error
      else Inr (pl\<lparr>pl_graph := AList.update uid \<lparr>gg_access = access, gg_refresh = refresh, gg_scope = scope,
                  gg_expires = expires, gg_granted = pl_now pl\<rparr> (pl_graph pl)\<rparr>))"

definition store_graph_grant :: "platform_lib \<Rightarrow> pystr \<Rightarrow> entra_sign_in \<Rightarrow> int \<Rightarrow> platform \<Rightarrow> api_error + platform" where
  "store_graph_grant lib key e uid pl =
     (if present (es_access e) \<and> present (es_refresh e) \<and> es_expires e \<noteq> None
      then upsert_graph_grant uid (lib_encrypt lib (the (es_access e)) key) (lib_encrypt lib (the (es_refresh e)) key)
             (case es_scope e of Some s \<Rightarrow> s | None \<Rightarrow> []) (pl_now pl + the (es_expires e)) pl
      else Inr pl)"

definition entra_callback :: "platform_lib \<Rightarrow> settings \<Rightarrow> pystr \<Rightarrow> pystr option \<Rightarrow> (pystr, pystr) pydict
    \<Rightarrow> platform \<Rightarrow> api_error + pystr \<times> platform" where
  "entra_callback lib cf secret cookie form pl =
     (case cf_encryption_key cf of
        None \<Rightarrow> Inl Unavailable
      | Some key \<Rightarrow>
     (case cookie of
        None \<Rightarrow> Inl Bad_request
      | Some c \<Rightarrow>
     (case lib_decrypt lib c key of
        None \<Rightarrow> Inl Bad_request
      | Some flow \<Rightarrow>
     (case lib_entra lib flow form of
        None \<Rightarrow> Inl Not_authenticated
      | Some e \<Rightarrow>
          bind_result (resolve_or_create_app_user entra_kind (es_tenant e @ [58] @ es_object e) (es_display e)
                         (es_email e) pl) (\<lambda>(user, pl).
          bind_result (maybe_grant_bootstrap_admin cf (es_tenant e) (es_object e) (au_id user) pl) (\<lambda>(_, pl).
          bind_result (store_graph_grant lib key e (au_id user) pl) (\<lambda>pl.
          bind_result (create_session (lib_sha256 lib) secret (au_id user) session_ttl pl) (\<lambda>pl.
            Inr (secret, record_audit_event (Session_created (au_id user)) pl)))))))))"

end
