(* ===== verification/AccessFacts.thy ===== *)
theory AccessFacts
  imports SignIn
begin

text \<open>
  What sign-in and the access administration guarantee over every history of requests: an account
  from outside the Workspace never becomes an administrator, a sign-in never changes a grant that
  exists, the administration route changes one grant on behalf of an administrator of the product,
  and the audit trail tells the roles of the Google accounts.
\<close>

named_theorems access_simps \<open>what each operation leaves unchanged\<close>

declare Inl_neq_bind [simp]

section \<open>The parsed configuration\<close>

lemma external_entry_ok:
  assumes "parse_external_entry u es e = Inr fs" "(p, r, m) \<in> set fs"
  shows "(p, r, m) \<in> set es \<or> r \<noteq> Admin \<and> p \<in> set product_keys"
  using assms by (auto simp: parse_external_entry_def external_role_def Let_def
      split: list.splits if_splits option.splits)

lemma external_accounts_ok:
  assumes "parse_external_accounts u v = Inr es" "(p, r, m) \<in> set es"
  shows "r \<noteq> Admin \<and> p \<in> set product_keys"
proof -
  have "\<forall>(p, r, m) \<in> set es. r \<noteq> Admin \<and> p \<in> set product_keys"
    by (rule fold_result_invariant [OF assms(1)[unfolded parse_external_accounts_def]])
      (use external_entry_ok in fastforce)+
  with assms(2) show ?thesis by blast
qed

section \<open>What the operations change\<close>

lemma grant_result:
  "grant_product_role uid product r pl = Inr pl' \<longleftrightarrow>
     product \<in> set product_keys \<and> uid \<in> set (map au_id (pl_users pl))
     \<and> pl' = pl\<lparr>pl_grants := AList.update (uid, product) r (pl_grants pl)\<rparr>"
  by (auto simp: grant_product_role_def)

lemma role_after_grant:
  "get_product_role (pl\<lparr>pl_grants := AList.update (uid, product) r (pl_grants pl)\<rparr>) i p
     = (if i = uid \<and> p = product then Some r else get_product_role pl i p)"
  by (simp add: get_product_role_def update_conv')

lemma role_cong: "pl_grants pl' = pl_grants pl \<Longrightarrow> get_product_role pl' = get_product_role pl"
  by (intro ext) (simp add: get_product_role_def)

lemma role_audit [simp]: "get_product_role (record_audit_event e pl) = get_product_role pl"
  by (intro ext) (simp add: get_product_role_def record_audit_event_def)

lemma record_fields [simp]:
  "pl_users (record_audit_event e pl) = pl_users pl" "pl_next (record_audit_event e pl) = pl_next pl"
  "pl_audit (record_audit_event e pl) = pl_audit pl @ [e]" "pl_sessions (record_audit_event e pl) = pl_sessions pl"
  "pl_dev (record_audit_event e pl) = pl_dev pl" "pl_now (record_audit_event e pl) = pl_now pl"
  by (simp_all add: record_audit_event_def)

lemma no_grants_role:
  assumes "list_grants_for_user pl uid = []"
  shows "get_product_role pl uid p = None"
proof -
  have "length (filter (\<lambda>((i, _), _). i = uid) (pl_grants pl)) = length (list_grants_for_user pl uid)"
    by (simp add: list_grants_for_user_def)
  then have "filter (\<lambda>((i, _), _). i = uid) (pl_grants pl) = []" using assms by simp
  then have "(uid, p) \<notin> fst ` set (pl_grants pl)" by (auto simp: filter_empty_conv)
  then show ?thesis by (simp add: get_product_role_def map_of_eq_None_iff)
qed

text \<open>
  One statement covers every bootstrap: only the given user gains grants, none that existed changes,
  an ADMIN grant needs the right to make one, and every new grant of an audited path is the last of
  its kind in the log.
\<close>

definition last_role :: "audit_event list \<Rightarrow> int \<Rightarrow> pystr \<Rightarrow> role option" where
  "last_role evs uid p =
     fold (\<lambda>e r. case e of Grant_changed _ q i _ new _ \<Rightarrow> if i = uid \<and> q = p then Some new else r
                         | _ \<Rightarrow> r) evs None"

lemma last_role_snoc [simp]:
  "last_role (evs @ [Grant_changed a q i b new v]) uid p = (if i = uid \<and> q = p then Some new else last_role evs uid p)"
  "last_role (evs @ [Session_created i]) uid p = last_role evs uid p"
  by (simp_all add: last_role_def)

definition bootstrapped :: "int \<Rightarrow> (pystr \<Rightarrow> role \<Rightarrow> bool) \<Rightarrow> platform \<Rightarrow> platform \<Rightarrow> bool" where
  "bootstrapped uid may pl pl' \<longleftrightarrow>
     pl_users pl' = pl_users pl \<and> pl_next pl' = pl_next pl \<and> pl_sessions pl' = pl_sessions pl
     \<and> (\<forall>i p. get_product_role pl' i p = get_product_role pl i p \<and> last_role (pl_audit pl') i p = last_role (pl_audit pl) i p
          \<or> i = uid \<and> get_product_role pl i p = None
             \<and> (\<exists>r. get_product_role pl' i p = Some r \<and> last_role (pl_audit pl') i p = Some r \<and> may p r))"

lemma bootstrapped_refl: "bootstrapped uid may pl pl"
  by (simp add: bootstrapped_def)

lemma bootstrapped_trans: "bootstrapped uid may pl pl1 \<Longrightarrow> bootstrapped uid may pl1 pl2 \<Longrightarrow> bootstrapped uid may pl pl2"
  unfolding bootstrapped_def by (auto) (metis option.distinct(1))+

lemma bootstrapped_mono: "bootstrapped uid may pl pl' \<Longrightarrow> (\<And>p r. may p r \<Longrightarrow> may' p r) \<Longrightarrow> bootstrapped uid may' pl pl'"
  unfolding bootstrapped_def by blast

lemma bootstrapped_grant:
  assumes "grant_product_role uid product r pl = Inr pl1" "get_product_role pl uid product = None" "may product r"
  shows "bootstrapped uid may pl (record_audit_event (Grant_changed a product uid None r v) pl1)"
  using assms by (auto simp: bootstrapped_def grant_result role_after_grant)

lemma transelec_bootstrapped:
  assumes "maybe_grant_transelec_bootstrap_admin u cf email uid pl = Inr (b, pl')"
  shows "bootstrapped uid (\<lambda>_ _. True) pl pl'"
  using assms
  by (auto simp: maybe_grant_transelec_bootstrap_admin_def bootstrapped_refl no_grants_role
      intro!: bootstrapped_grant split: option.splits if_splits)

lemma configured_bootstrapped:
  assumes "maybe_grant_configured_product_admins u cf email uid pl = Inr (gs, pl')"
  shows "bootstrapped uid (\<lambda>_ _. True) pl pl'"
proof -
  obtain es where "fold_result (configured_admin_step (casefold u (strip email)) uid) ([], pl) es = Inr (gs, pl')"
    using assms by (auto simp: maybe_grant_configured_product_admins_def)
  then have "bootstrapped uid (\<lambda>_ _. True) pl (snd (gs, pl'))"
  proof (rule fold_result_invariant)
    fix s x t
    assume s: "bootstrapped uid (\<lambda>_ _. True) pl (snd s)" and t: "configured_admin_step (casefold u (strip email)) uid s x = Inr t"
    from t have "bootstrapped uid (\<lambda>_ _. True) (snd s) (snd t)"
      by (auto simp: configured_admin_step_def bootstrapped_refl split: prod.splits if_splits intro!: bootstrapped_grant)
    with s show "bootstrapped uid (\<lambda>_ _. True) pl (snd t)" by (rule bootstrapped_trans)
  qed (simp add: bootstrapped_refl)
  then show ?thesis by simp
qed

lemma external_bootstrapped:
  assumes "maybe_grant_external_accounts u cf email uid pl = Inr (gs, pl')"
  shows "\<exists>es. parse_external_accounts u (cf_external cf) = Inr es
           \<and> bootstrapped uid (\<lambda>p r. r \<noteq> Admin \<and> (p, r, casefold u (strip email)) \<in> set es) pl pl'"
proof -
  obtain es where es: "parse_external_accounts u (cf_external cf) = Inr es"
    and f: "fold_result (external_step (casefold u (strip email)) uid) ([], pl) es = Inr (gs, pl')"
    using assms by (auto simp: maybe_grant_external_accounts_def)
  let ?may = "\<lambda>p r. r \<noteq> Admin \<and> (p, r, casefold u (strip email)) \<in> set es"
  from f have "bootstrapped uid ?may pl (snd (gs, pl'))"
  proof (rule fold_result_invariant)
    fix s x t
    assume x: "x \<in> set es" and s: "bootstrapped uid ?may pl (snd s)"
      and t: "external_step (casefold u (strip email)) uid s x = Inr t"
    obtain p r m where pr: "x = (p, r, m)" by (cases x)
    have "?may p r" if "m = casefold u (strip email)" using external_accounts_ok [OF es] x pr that by auto
    with t pr have "bootstrapped uid ?may (snd s) (snd t)"
      by (auto simp: external_step_def bootstrapped_refl split: prod.splits if_splits intro!: bootstrapped_grant)
    with s show "bootstrapped uid ?may pl (snd t)" by (rule bootstrapped_trans)
  qed (simp add: bootstrapped_refl)
  with es show ?thesis by auto
qed

section \<open>Histories of requests\<close>

text \<open>
  \<open>platform_step\<close> is one request answered without an error, or the clock moving on;
  the set on the right is what Google has verified of the accounts that signed in so far.
\<close>

inductive platform_step :: "platform_lib \<Rightarrow> settings \<Rightarrow> platform \<times> google_sign_in set \<Rightarrow> platform \<times> google_sign_in set \<Rightarrow> bool"
  for lib cf where
  step_google: "google_callback lib cf secret (Some cookie) params pl = Inr (s, pl') \<Longrightarrow>
     cf_encryption_key cf = Some key \<Longrightarrow> lib_decrypt lib cookie key = Some flow \<Longrightarrow>
     google_complete lib cf flow params = Inr g \<Longrightarrow>
     platform_step lib cf (pl, H) (pl', insert g H)"
| step_entra: "entra_callback lib cf secret cookie form pl = Inr (s, pl') \<Longrightarrow> platform_step lib cf (pl, H) (pl', H)"
| step_dev: "dev_login cf token key pl = Inr (t, pl') \<Longrightarrow> platform_step lib cf (pl, H) (pl', H)"
| step_user: "get_current_app_user lib cf token pl = Inr (r, pl') \<Longrightarrow> platform_step lib cf (pl, H) (pl', H)"
| step_grant: "admin_grant_route lib cf rq product email r pl = Inr pl' \<Longrightarrow> platform_step lib cf (pl, H) (pl', H)"
| step_logout: "logout lib cf rq pl = Inr pl' \<Longrightarrow> platform_step lib cf (pl, H) (pl', H)"
| step_clock: "now \<ge> pl_now pl \<Longrightarrow> platform_step lib cf (pl, H) (pl\<lparr>pl_now := now\<rparr>, H)"

definition platform_start :: "platform \<Rightarrow> bool" where
  "platform_start pl \<longleftrightarrow> pl_users pl = [] \<and> pl_grants pl = [] \<and> pl_audit pl = [] \<and> pl_sessions pl = []"

inductive platform_reachable :: "platform_lib \<Rightarrow> settings \<Rightarrow> platform \<Rightarrow> google_sign_in set \<Rightarrow> bool" for lib cf where
  reach_start: "platform_start pl \<Longrightarrow> platform_reachable lib cf pl {}"
| reach_step: "platform_reachable lib cf pl H \<Longrightarrow> platform_step lib cf (pl, H) (pl', H') \<Longrightarrow>
     platform_reachable lib cf pl' H'"

section \<open>The invariant\<close>

text \<open>The emails an account signed in with, and whether it was ever verified as a Workspace member.\<close>

definition account_emails :: "ucd \<Rightarrow> google_sign_in set \<Rightarrow> pystr \<Rightarrow> pystr set" where
  "account_emails u H key = (\<lambda>g. casefold u (strip (gs_email g))) ` {g \<in> H. gs_subject g = key}"

definition was_member :: "google_sign_in set \<Rightarrow> pystr \<Rightarrow> bool" where
  "was_member H key \<longleftrightarrow> (\<exists>g \<in> H. gs_subject g = key \<and> gs_member g)"

definition external_email :: "ucd \<Rightarrow> settings \<Rightarrow> pystr set \<Rightarrow> pystr option \<Rightarrow> bool" where
  "external_email u cf E email \<longleftrightarrow>
     (\<exists>es e. parse_external_accounts u (cf_external cf) = Inr es \<and> email = Some e
        \<and> casefold u (strip e) \<in> (\<lambda>(_, _, m). m) ` set es \<and> casefold u (strip e) \<in> E)"

definition invited_grant :: "ucd \<Rightarrow> settings \<Rightarrow> pystr set \<Rightarrow> pystr \<Rightarrow> role \<Rightarrow> bool" where
  "invited_grant u cf E p r \<longleftrightarrow>
     r \<noteq> Admin \<and> (\<exists>es r' m. parse_external_accounts u (cf_external cf) = Inr es \<and> (p, r', m) \<in> set es \<and> m \<in> E)"

definition outsider :: "google_sign_in set \<Rightarrow> app_user \<Rightarrow> bool" where
  "outsider H r \<longleftrightarrow> au_kind r = google_kind \<and> \<not> was_member H (au_key r)"

definition platform_ok :: "ucd \<Rightarrow> settings \<Rightarrow> platform \<Rightarrow> google_sign_in set \<Rightarrow> bool" where
  "platform_ok u cf pl H \<longleftrightarrow>
     distinct (map au_id (pl_users pl)) \<and> (\<forall>r \<in> set (pl_users pl). au_id r < pl_next pl)
     \<and> (\<forall>i p. get_product_role pl i p \<noteq> None \<longrightarrow> i \<in> set (map au_id (pl_users pl)))
     \<and> (\<forall>i p. last_role (pl_audit pl) i p \<noteq> None \<longrightarrow> i \<in> set (map au_id (pl_users pl)))
     \<and> (\<forall>r \<in> set (pl_users pl). au_kind r = google_kind \<longrightarrow>
          (\<forall>p. get_product_role pl (au_id r) p = last_role (pl_audit pl) (au_id r) p))
     \<and> (\<forall>r \<in> set (pl_users pl). outsider H r \<longrightarrow> external_email u cf (account_emails u H (au_key r)) (au_email r)
          \<and> (\<forall>p x. get_product_role pl (au_id r) p = Some x \<longrightarrow> invited_grant u cf (account_emails u H (au_key r)) p x))"

lemma ok_known:
  assumes "platform_ok u cf pl H"
  shows "get_product_role pl i p \<noteq> None \<Longrightarrow> i \<in> set (map au_id (pl_users pl))"
    and "last_role (pl_audit pl) i p \<noteq> None \<Longrightarrow> i \<in> set (map au_id (pl_users pl))"
  using assms unfolding platform_ok_def by blast+

text \<open>What a request does to the users: nobody changes, at most one is added.\<close>

lemma resolve_or_create_result:
  assumes "resolve_or_create_app_user kind key display email pl = Inr (r, pl')"
  shows "au_kind r = kind \<and> au_key r = key \<and>
     (pl' = pl \<and> r \<in> set (pl_users pl)
      \<or> r = \<lparr>au_id = pl_next pl, au_kind = kind, au_key = key, au_display = display, au_email = email\<rparr>
        \<and> pl' = pl\<lparr>pl_users := pl_users pl @ [r], pl_next := pl_next pl + 1\<rparr>)"
  using assms by (auto simp: resolve_or_create_app_user_def user_by_identity_def Let_def
      split: option.splits if_splits dest!: find_SomeD)

lemma role_users [simp]: "get_product_role (pl\<lparr>pl_users := us, pl_next := n\<rparr>) = get_product_role pl"
  by (intro ext) (simp add: get_product_role_def)

text \<open>A user who is created holds nothing, so a wider set of members and more users keep the invariant.\<close>

lemma ok_members: "platform_ok u cf pl H \<Longrightarrow> H \<subseteq> N \<Longrightarrow> platform_ok u cf pl N"
proof -
  assume ok: "platform_ok u cf pl H" and sub: "H \<subseteq> N"
  have o: "outsider H r" if "outsider N r" for r using that sub by (auto simp: outsider_def was_member_def)
  have e: "account_emails u H k \<subseteq> account_emails u N k" for k using sub by (auto simp: account_emails_def)
  have x: "external_email u cf (account_emails u N k) m" if "external_email u cf (account_emails u H k) m" for k m
    using that e [of k] unfolding external_email_def by blast
  have i: "invited_grant u cf (account_emails u N k) p y" if "invited_grant u cf (account_emails u H k) p y" for k p y
    using that e [of k] unfolding invited_grant_def by blast
  show "platform_ok u cf pl N" using ok o x i unfolding platform_ok_def by blast
qed

lemma ok_resolve:
  assumes "platform_ok u cf pl H" "resolve_or_create_app_user kind key display email pl = Inr (r, pl')"
    and "kind = google_kind \<Longrightarrow> \<not> was_member H key \<Longrightarrow> external_email u cf (account_emails u H key) email"
  shows "platform_ok u cf pl' H"
proof -
  from resolve_or_create_result [OF assms(2)] show ?thesis
  proof (elim conjE disjE)
    assume r: "r = \<lparr>au_id = pl_next pl, au_kind = kind, au_key = key, au_display = display, au_email = email\<rparr>"
      and pl': "pl' = pl\<lparr>pl_users := pl_users pl @ [r], pl_next := pl_next pl + 1\<rparr>"
    have new: "pl_next pl \<notin> set (map au_id (pl_users pl))" using assms(1) by (auto simp: platform_ok_def)
    have none: "get_product_role pl (pl_next pl) p = None" "last_role (pl_audit pl) (pl_next pl) p = None" for p
      using assms(1) new unfolding platform_ok_def by blast+
    show ?thesis
      using assms(1,3) new none unfolding platform_ok_def pl' by (force simp: r outsider_def)
  qed (use assms(1) in simp)
qed

text \<open>The three shapes of change: nothing it speaks of, one user's grants with their log, the grants of
  an account that is not Google's.\<close>

lemma ok_frame:
  assumes "platform_ok u cf pl H" "pl_users pl' = pl_users pl" "pl_next pl' = pl_next pl"
    and "get_product_role pl' = get_product_role pl" "last_role (pl_audit pl') = last_role (pl_audit pl)"
  shows "platform_ok u cf pl' H"
  using assms by (simp add: platform_ok_def)

definition regranted :: "int \<Rightarrow> (pystr \<Rightarrow> role \<Rightarrow> bool) \<Rightarrow> platform \<Rightarrow> platform \<Rightarrow> bool" where
  "regranted uid may pl pl' \<longleftrightarrow>
     pl_users pl' = pl_users pl \<and> pl_next pl' = pl_next pl
     \<and> (\<forall>i p. get_product_role pl' i p = get_product_role pl i p \<and> last_role (pl_audit pl') i p = last_role (pl_audit pl) i p
          \<or> i = uid \<and> (\<exists>r. get_product_role pl' i p = Some r \<and> last_role (pl_audit pl') i p = Some r \<and> may p r))"

lemma bootstrapped_regranted: "bootstrapped uid may pl pl' \<Longrightarrow> regranted uid may pl pl'"
  unfolding bootstrapped_def regranted_def by blast

lemma regranted_cases:
  assumes "regranted uid may pl pl'"
  obtains "get_product_role pl' i p = get_product_role pl i p" "last_role (pl_audit pl') i p = last_role (pl_audit pl) i p"
  | r where "i = uid" "get_product_role pl' i p = Some r" "last_role (pl_audit pl') i p = Some r" "may p r"
  using assms unfolding regranted_def by blast

lemma ok_regranted:
  assumes ok: "platform_ok u cf pl H" and g: "regranted uid may pl pl'" and uid: "uid \<in> set (map au_id (pl_users pl))"
    and may: "\<And>r p x. r \<in> set (pl_users pl) \<Longrightarrow> au_id r = uid \<Longrightarrow> outsider H r \<Longrightarrow> may p x \<Longrightarrow> invited_grant u cf (account_emails u H (au_key r)) p x"
  shows "platform_ok u cf pl' H"
proof -
  have users: "pl_users pl' = pl_users pl" "pl_next pl' = pl_next pl" using g by (simp_all add: regranted_def)
  show ?thesis
    unfolding platform_ok_def users
  proof (intro conjI ballI allI impI)
    show "distinct (map au_id (pl_users pl))" using ok by (simp add: platform_ok_def)
  next
    fix r assume "r \<in> set (pl_users pl)"
    then show "au_id r < pl_next pl" using ok by (simp add: platform_ok_def)
  next
    fix i p assume "get_product_role pl' i p \<noteq> None"
    then show "i \<in> set (map au_id (pl_users pl))"
      by (rule_tac regranted_cases [OF g, of i p]) (metis ok_known(1) [OF ok], use uid in blast)
  next
    fix i p assume "last_role (pl_audit pl') i p \<noteq> None"
    then show "i \<in> set (map au_id (pl_users pl))"
      by (rule_tac regranted_cases [OF g, of i p]) (metis ok_known(2) [OF ok], use uid in blast)
  next
    fix r p assume "r \<in> set (pl_users pl)" "au_kind r = google_kind"
    then show "get_product_role pl' (au_id r) p = last_role (pl_audit pl') (au_id r) p"
      by (rule_tac regranted_cases [OF g, of "au_id r" p]) (use ok in \<open>simp_all add: platform_ok_def\<close>)
  next
    fix r assume "r \<in> set (pl_users pl)" "outsider H r"
    then show "external_email u cf (account_emails u H (au_key r)) (au_email r)" using ok by (simp add: platform_ok_def)
  next
    fix r p x assume r: "r \<in> set (pl_users pl)" "outsider H r" and x: "get_product_role pl' (au_id r) p = Some x"
    show "invited_grant u cf (account_emails u H (au_key r)) p x"
    proof (rule regranted_cases [OF g, of "au_id r" p])
      assume "get_product_role pl' (au_id r) p = get_product_role pl (au_id r) p"
      then show ?thesis using r x ok by (simp add: platform_ok_def)
    qed (use may r x in auto)
  qed
qed

lemma ok_other:
  assumes ok: "platform_ok u cf pl H" and same: "pl_users pl' = pl_users pl" "pl_next pl' = pl_next pl" "pl_audit pl' = pl_audit pl"
    and others: "\<And>i p. i \<noteq> uid \<Longrightarrow> get_product_role pl' i p = get_product_role pl i p"
    and r: "r \<in> set (pl_users pl)" "au_id r = uid" "au_kind r \<noteq> google_kind"
  shows "platform_ok u cf pl' H"
proof -
  have google: "au_id v \<noteq> uid" if "v \<in> set (pl_users pl)" "au_kind v = google_kind" for v
    using ok r that by (auto simp: platform_ok_def distinct_map inj_on_def)
  have dom: "i \<in> set (map au_id (pl_users pl))" if "get_product_role pl' i p \<noteq> None" for i p
  proof (cases "i = uid")
    case True
    then show ?thesis using r by auto
  next
    case False
    with that others [of i p] show ?thesis using ok_known(1) [OF ok, of i p] by simp
  qed
  show ?thesis
    using ok unfolding platform_ok_def same
    by (intro conjI ballI allI impI) (use dom ok_known(2) [OF ok] google others in \<open>auto simp: outsider_def\<close>)
qed

lemma fold_grants_other:
  assumes "fold_result (\<lambda>pl (p, r). grant_product_role uid p r pl) pl gs = Inr pl'"
  shows "pl_users pl' = pl_users pl \<and> pl_next pl' = pl_next pl \<and> pl_audit pl' = pl_audit pl
     \<and> (\<forall>i p. i \<noteq> uid \<longrightarrow> get_product_role pl' i p = get_product_role pl i p)"
  by (rule fold_result_invariant [OF assms]) (auto simp: grant_result role_after_grant)

lemma grant_all_other:
  "grant_all uid r ps pl = Inr pl' \<Longrightarrow> pl_users pl' = pl_users pl \<and> pl_next pl' = pl_next pl \<and> pl_audit pl' = pl_audit pl
     \<and> (\<forall>i p. i \<noteq> uid \<longrightarrow> get_product_role pl' i p = get_product_role pl i p)"
  unfolding grant_all_def
  by (rule fold_result_invariant [where P = "\<lambda>pl'. pl_users pl' = pl_users pl \<and> pl_next pl' = pl_next pl \<and> pl_audit pl' = pl_audit pl
     \<and> (\<forall>i p. i \<noteq> uid \<longrightarrow> get_product_role pl' i p = get_product_role pl i p)"]) (auto simp: grant_result role_after_grant)

section \<open>Sessions leave the grants alone\<close>

lemma resolve_fields [access_simps]:
  "resolve_session sha t pl = (v, pl') \<Longrightarrow> pl_users pl' = pl_users pl \<and> pl_next pl' = pl_next pl
     \<and> get_product_role pl' = get_product_role pl \<and> pl_audit pl' = pl_audit pl \<and> pl_now pl' = pl_now pl"
  by (auto simp: resolve_session_def Let_def intro: role_cong)

lemma create_fields [access_simps]:
  "create_session sha t uid ttl pl = Inr pl' \<Longrightarrow> pl_users pl' = pl_users pl \<and> pl_next pl' = pl_next pl
     \<and> get_product_role pl' = get_product_role pl \<and> pl_audit pl' = pl_audit pl \<and> pl_now pl' = pl_now pl"
  by (auto simp: create_session_def intro: role_cong split: if_splits)

lemma last_role_session [simp]: "last_role (evs @ [Session_created i]) = last_role evs"
  by (intro ext) simp

lemma ok_session:
  assumes "platform_ok u cf pl H" "create_session sha t uid ttl pl = Inr pl1"
  shows "platform_ok u cf (record_audit_event (Session_created i) pl1) H"
  by (rule ok_frame [OF assms(1)]) (use create_fields [OF assms(2)] in simp_all)

lemma ok_current_user:
  assumes "platform_ok u cf pl H" "get_current_app_user lib cf t pl = Inr (r, pl')"
  shows "platform_ok u cf pl' H"
proof -
  obtain t' where t: "t = Some t'" using assms(2) by (cases t) (auto simp: get_current_app_user_def)
  obtain v pl1 where v: "resolve_session (lib_sha256 lib) t' pl = (v, pl1)" by fastforce
  have ok1: "platform_ok u cf pl1 H" by (rule ok_frame [OF assms(1)]) (use resolve_fields [OF v] in auto)
  show ?thesis
  proof (cases v)
    case None
    with assms(2) t v obtain key d where
      "resolve_or_create_app_user dev_identity_kind key d None pl1 = Inr (r, pl')"
      by (auto simp: get_current_app_user_def split: if_splits option.splits)
    then show ?thesis by (rule ok_resolve [OF ok1]) (simp add: dev_identity_kind_def google_kind_def)
  next
    case (Some uid)
    with assms(2) t v ok1 show ?thesis by (auto simp: get_current_app_user_def)
  qed
qed

section \<open>Every step keeps the invariant\<close>

lemma verified_external:
  assumes "google_complete lib cf flow params = Inr g" "\<not> gs_member g"
  shows "external_email (lib_ucd lib) cf {casefold (lib_ucd lib) (strip (gs_email g))} (Some (gs_email g))"
proof -
  obtain ems t n where ems: "external_account_emails (lib_ucd lib) cf = Inr ems"
    and v: "verify_id_token lib t n (cf_workspace cf) ems = Inr g"
    using assms(1) by (auto simp: google_complete_def redeem_code_def split: option.split_asm if_split_asm)
  have "casefold (lib_ucd lib) (strip (gs_email g)) \<in> set ems"
    using v assms(2) by (auto simp: verify_id_token_def Let_def split: option.split_asm if_split_asm)
  with ems show ?thesis by (auto simp: external_email_def external_account_emails_def)
qed

lemma google_grants_regranted:
  assumes "google_grants lib cf g uid pl = Inr pl'"
  shows "regranted uid (\<lambda>p x. gs_member g \<or> invited_grant (lib_ucd lib) cf {casefold (lib_ucd lib) (strip (gs_email g))} p x) pl pl'"
proof (cases "gs_member g")
  case True
  with assms obtain b pl1 gs where
    1: "maybe_grant_transelec_bootstrap_admin (lib_ucd lib) cf (gs_email g) uid pl = Inr (b, pl1)"
    and 2: "maybe_grant_configured_product_admins (lib_ucd lib) cf (gs_email g) uid pl1 = Inr (gs, pl')"
    by (auto simp: google_grants_def)
  from bootstrapped_trans [OF transelec_bootstrapped [OF 1] configured_bootstrapped [OF 2]]
  show ?thesis by (intro bootstrapped_regranted) (rule bootstrapped_mono, use True in simp_all)
next
  case False
  with assms obtain gs where "maybe_grant_external_accounts (lib_ucd lib) cf (gs_email g) uid pl = Inr (gs, pl')"
    by (auto simp: google_grants_def)
  from external_bootstrapped [OF this] show ?thesis
    by (auto intro!: bootstrapped_regranted elim!: bootstrapped_mono simp: invited_grant_def)
qed

lemma resolved_user:
  assumes "resolve_or_create_app_user kind key display email pl = Inr (r, pl')"
  shows "r \<in> set (pl_users pl') \<and> au_kind r = kind \<and> au_key r = key"
  using resolve_or_create_result [OF assms] by auto

lemma same_user:
  "platform_ok u cf pl H \<Longrightarrow> r \<in> set (pl_users pl) \<Longrightarrow> v \<in> set (pl_users pl) \<Longrightarrow> au_id r = au_id v \<Longrightarrow> r = v"
  by (auto simp: platform_ok_def distinct_map inj_on_def)

lemma external_email_mono: "external_email u cf E m \<Longrightarrow> E \<subseteq> F \<Longrightarrow> external_email u cf F m"
  unfolding external_email_def by blast

lemma invited_grant_mono: "invited_grant u cf E p x \<Longrightarrow> E \<subseteq> F \<Longrightarrow> invited_grant u cf F p x"
  unfolding invited_grant_def by blast

lemma ok_google:
  assumes ok: "platform_ok (lib_ucd lib) cf pl H"
    and cb: "google_callback lib cf secret (Some cookie) params pl = Inr (s, pl')" "cf_encryption_key cf = Some key"
      "lib_decrypt lib cookie key = Some flow" "google_complete lib cf flow params = Inr g"
  shows "platform_ok (lib_ucd lib) cf pl' (insert g H)"
proof -
  let ?H = "insert g H" and ?u = "lib_ucd lib"
  have own: "{casefold ?u (strip (gs_email g))} \<subseteq> account_emails ?u ?H (gs_subject g)" by (auto simp: account_emails_def)
  have mem: "gs_member g \<Longrightarrow> was_member ?H (gs_subject g)" by (auto simp: was_member_def)
  obtain r pl1 pl2 pl3 where
    1: "resolve_or_create_app_user google_kind (gs_subject g) (gs_display g) (Some (gs_email g)) pl = Inr (r, pl1)"
    and 2: "google_grants lib cf g (au_id r) pl1 = Inr pl2"
    and 3: "create_session (lib_sha256 lib) secret (au_id r) session_ttl pl2 = Inr pl3"
    and 4: "pl' = record_audit_event (Session_created (au_id r)) pl3"
    using cb by (auto simp: google_callback_def split: if_splits)
  have ok0: "platform_ok (lib_ucd lib) cf pl ?H" by (rule ok_members [OF ok]) auto
  have ok1: "platform_ok (lib_ucd lib) cf pl1 ?H"
    by (rule ok_resolve [OF ok0 1]) (use external_email_mono [OF verified_external [OF cb(4)] own] mem in blast)
  note r = resolved_user [OF 1]
  have "platform_ok (lib_ucd lib) cf pl2 ?H"
  proof (rule ok_regranted [OF ok1 google_grants_regranted [OF 2]])
    show "au_id r \<in> set (map au_id (pl_users pl1))" using r by simp
    fix v p x assume v: "v \<in> set (pl_users pl1)" "au_id v = au_id r" "outsider ?H v"
      and may: "gs_member g \<or> invited_grant ?u cf {casefold ?u (strip (gs_email g))} p x"
    have "v = r" using same_user [OF ok1] v r by blast
    with v(3) r mem have "\<not> gs_member g" "au_key v = gs_subject g" by (auto simp: outsider_def)
    then show "invited_grant ?u cf (account_emails ?u ?H (au_key v)) p x" using may invited_grant_mono [OF _ own] by simp
  qed
  then show ?thesis unfolding 4 by (rule ok_session [OF _ 3])
qed

lemma ok_entra:
  assumes ok: "platform_ok u cf pl H" and cb: "entra_callback lib cf secret cookie form pl = Inr (s, pl')"
  shows "platform_ok u cf pl' H"
proof -
  obtain e key r pl1 b pl2 plg pl3 where
    1: "resolve_or_create_app_user entra_kind (es_tenant e @ [58] @ es_object e) (es_display e) (es_email e) pl = Inr (r, pl1)"
    and 2: "maybe_grant_bootstrap_admin cf (es_tenant e) (es_object e) (au_id r) pl1 = Inr (b, pl2)"
    and g: "store_graph_grant lib key e (au_id r) pl2 = Inr plg"
    and 3: "create_session (lib_sha256 lib) secret (au_id r) session_ttl plg = Inr pl3"
    and 4: "pl' = record_audit_event (Session_created (au_id r)) pl3"
    using cb by (auto simp: entra_callback_def split: option.splits)
  have ok1: "platform_ok u cf pl1 H" by (rule ok_resolve [OF ok 1]) (simp add: entra_kind_def google_kind_def)
  note r = resolved_user [OF 1]
  have "platform_ok u cf pl2 H"
  proof (cases "pl2 = pl1")
    case False
    with 2 have "grant_all (au_id r) Admin product_keys pl1 = Inr pl2"
      by (auto simp: maybe_grant_bootstrap_admin_def split: option.splits if_splits)
    from grant_all_other [OF this] show ?thesis
      by (intro ok_other [OF ok1, of _ "au_id r" r]) (use r in \<open>auto simp: entra_kind_def google_kind_def\<close>)
  qed (simp add: ok1)
  then have "platform_ok u cf plg H"
    by (rule ok_frame) (use g in \<open>auto simp: store_graph_grant_def upsert_graph_grant_def intro: role_cong split: if_splits\<close>)
  then show ?thesis unfolding 4 by (rule ok_session [OF _ 3])
qed

lemma ok_dev:
  assumes ok: "platform_ok u cf pl H" and cb: "dev_login cf token key pl = Inr (t, pl')"
  shows "platform_ok u cf pl' H"
proof -
  let ?gs = "case map_of default_seed_grants key of Some gs \<Rightarrow> gs | None \<Rightarrow> []"
  obtain d where "cf_env cf = Development" "map_of seeded_dev_identities key = Some d"
    using cb by (auto simp: dev_login_def split: option.splits if_splits)
  with cb obtain r pl1 pl2 where
    1: "resolve_or_create_app_user dev_identity_kind key d None pl = Inr (r, pl1)"
    and if2: "(if list_grants_for_user pl1 (au_id r) \<noteq> [] then Inr pl1
          else fold_result (\<lambda>pl (p, x). grant_product_role (au_id r) p x pl) pl1 ?gs) = Inr pl2"
    and 3: "pl' = record_audit_event (Session_created (au_id r)) (pl2\<lparr>pl_dev := AList.update token key (pl_dev pl2)\<rparr>)"
    by (auto simp: dev_login_def split del: if_split)
  have 2: "pl2 = pl1 \<or> fold_result (\<lambda>pl (p, x). grant_product_role (au_id r) p x pl) pl1 ?gs = Inr pl2"
    using if2 by (auto split: if_splits)
  have ok1: "platform_ok u cf pl1 H" by (rule ok_resolve [OF ok 1]) (simp add: dev_identity_kind_def google_kind_def)
  note r = resolved_user [OF 1]
  have "platform_ok u cf pl2 H"
    using 2
  proof
    assume "fold_result (\<lambda>pl (p, x). grant_product_role (au_id r) p x pl) pl1 ?gs = Inr pl2"
    from fold_grants_other [OF this] show ?thesis
      by (intro ok_other [OF ok1, of _ "au_id r" r]) (use r in \<open>auto simp: dev_identity_kind_def google_kind_def\<close>)
  qed (simp add: ok1)
  then show ?thesis unfolding 3 by (rule ok_frame) (auto intro: role_cong)
qed

lemma can_manage: "can r Manage_access \<longleftrightarrow> r = Some Admin"
  by (auto simp: can_def allowed_def split: option.splits)

lemma found_by_email:
  "get_app_user_by_email pl email = Inr (Some r) \<Longrightarrow> r \<in> set (pl_users pl) \<and> au_email r = Some email"
proof -
  assume "get_app_user_by_email pl email = Inr (Some r)"
  then have "filter (\<lambda>r. au_email r = Some email) (pl_users pl) = [r]"
    by (auto simp: get_app_user_by_email_def split: list.split_asm)
  from arg_cong [OF this, of set] show ?thesis by auto
qed

text \<open>The administration route, taken apart.\<close>

lemma grant_route_result:
  assumes "admin_grant_route lib cf rq product email r pl = Inr pl'"
  shows "\<exists>caller pl1 target external. require_csrf lib cf rq = Inr ()
    \<and> get_current_app_user lib cf (rq_session rq) pl = Inr (caller, pl1)
    \<and> get_product_role pl1 (au_id caller) product = Some Admin
    \<and> target \<in> set (pl_users pl1) \<and> au_email target = Some email
    \<and> is_external (lib_ucd lib) cf target = Inr external
    \<and> (external \<longrightarrow> external_grant_allowed (lib_ucd lib) cf email product r = Inr True)
    \<and> pl_users pl' = pl_users pl1 \<and> pl_next pl' = pl_next pl1
    \<and> (\<forall>i p. get_product_role pl' i p = (if i = au_id target \<and> p = product then Some r else get_product_role pl1 i p))
    \<and> pl_audit pl' = pl_audit pl1 @ [Grant_changed (Some (au_id caller)) product (au_id target)
          (get_product_role pl1 (au_id target) product) r Via_admin_api]"
proof -
  obtain caller pl1 where
    1: "require_csrf lib cf rq = Inr ()" "get_current_app_user lib cf (rq_session rq) pl = Inr (caller, pl1)"
    and g: "grant_product_role_by_email (lib_ucd lib) cf (au_id caller) product email r pl1 = Inr pl'"
    using assms by (auto simp: admin_grant_route_def)
  from g obtain found where "get_app_user_by_email pl1 email = Inr found" "found \<noteq> None"
    by (auto simp: grant_product_role_by_email_def split: option.split_asm)
  then obtain target where t: "get_app_user_by_email pl1 email = Inr (Some target)" by auto
  note target = found_by_email [OF t]
  from g t target obtain external ok pl2 where
    "can (get_product_role pl1 (au_id caller) product) Manage_access"
    "is_external (lib_ucd lib) cf target = Inr external"
    "(if external then external_grant_allowed (lib_ucd lib) cf email product r else Inr True) = Inr True"
    "grant_product_role (au_id target) product r pl1 = Inr pl2"
    "pl' = record_audit_event (Grant_changed (Some (au_id caller)) product (au_id target)
       (get_product_role pl1 (au_id target) product) r Via_admin_api) pl2"
    by (auto simp: grant_product_role_by_email_def ensure_can_def Let_def split: if_split_asm)
  with 1 target show ?thesis
    by (intro exI [of _ caller] exI [of _ pl1] exI [of _ target] exI [of _ external])
      (auto simp: can_manage grant_result role_after_grant split: if_splits)
qed

lemma google_not_external:
  assumes "is_external u cf r = Inr external" "external_email u cf E (au_email r)"
  shows external
proof -
  obtain es e where "parse_external_accounts u (cf_external cf) = Inr es" "au_email r = Some e"
      "casefold u (strip e) \<in> (\<lambda>(_, _, m). m) ` set es"
    using assms(2) unfolding external_email_def by blast
  with assms(1) show ?thesis by (simp add: is_external_def external_account_emails_def)
qed

lemma ok_grant:
  assumes ok: "platform_ok (lib_ucd lib) cf pl H" and g: "admin_grant_route lib cf rq product email r pl = Inr pl'"
  shows "platform_ok (lib_ucd lib) cf pl' H"
proof -
  obtain caller pl1 target external where
    1: "get_current_app_user lib cf (rq_session rq) pl = Inr (caller, pl1)"
    and t: "target \<in> set (pl_users pl1)" "au_email target = Some email" "is_external (lib_ucd lib) cf target = Inr external"
      "external \<longrightarrow> external_grant_allowed (lib_ucd lib) cf email product r = Inr True"
    and ch: "pl_users pl' = pl_users pl1" "pl_next pl' = pl_next pl1"
      "\<forall>i p. get_product_role pl' i p = (if i = au_id target \<and> p = product then Some r else get_product_role pl1 i p)"
      "pl_audit pl' = pl_audit pl1 @ [Grant_changed (Some (au_id caller)) product (au_id target)
          (get_product_role pl1 (au_id target) product) r Via_admin_api]"
    using grant_route_result [OF g] by blast
  have ok1: "platform_ok (lib_ucd lib) cf pl1 H" by (rule ok_current_user [OF ok 1])
  have "regranted (au_id target) (\<lambda>p x. p = product \<and> x = r) pl1 pl'"
    unfolding regranted_def using ch by auto
  then show ?thesis
  proof (rule ok_regranted [OF ok1])
    show "au_id target \<in> set (map au_id (pl_users pl1))" using t(1) by simp
    fix v p x assume v: "v \<in> set (pl_users pl1)" "au_id v = au_id target" "outsider H v" and px: "p = product \<and> x = r"
    have "v = target" using same_user [OF ok1 v(1) t(1)] v(2) by simp
    then have e: "external_email (lib_ucd lib) cf (account_emails (lib_ucd lib) H (au_key v)) (au_email target)"
      using ok1 v unfolding platform_ok_def by blast
    then have own: "casefold (lib_ucd lib) (strip email) \<in> account_emails (lib_ucd lib) H (au_key v)"
      using t(2) by (auto simp: external_email_def)
    from e have "external_grant_allowed (lib_ucd lib) cf email product r = Inr True"
      using google_not_external [OF t(3)] t(4) by blast
    with px own show "invited_grant (lib_ucd lib) cf (account_emails (lib_ucd lib) H (au_key v)) p x"
      by (auto simp: external_grant_allowed_def invited_grant_def split: if_split_asm) blast
  qed
qed

lemma ok_logout:
  assumes ok: "platform_ok u cf pl H" and l: "logout lib cf rq pl = Inr pl'"
  shows "platform_ok u cf pl' H"
proof -
  obtain r pl1 where 1: "get_current_app_user lib cf (rq_session rq) pl = Inr (r, pl1)"
    and 2: "pl' = (case rq_session rq of None \<Rightarrow> pl1
                   | Some t \<Rightarrow> (clear_session (lib_sha256 lib) t pl1)\<lparr>pl_dev := AList.delete t (pl_dev pl1)\<rparr>)"
    using l by (auto simp: logout_def)
  show ?thesis
    by (rule ok_frame [OF ok_current_user [OF ok 1]])
      (auto simp: 2 clear_session_def intro: role_cong split: option.splits)
qed

lemma ok_step:
  assumes "platform_step lib cf (pl, H) (pl', H')" "platform_ok (lib_ucd lib) cf pl H"
  shows "platform_ok (lib_ucd lib) cf pl' H'"
  using assms
proof cases
  case step_clock
  then show ?thesis using assms(2) by (auto intro!: ok_frame [OF assms(2)] role_cong)
next
  case step_google
  with ok_google [OF assms(2)] show ?thesis by simp
qed (use assms(2) in \<open>auto intro: ok_entra ok_dev ok_current_user ok_grant ok_logout\<close>)

lemma platform_reachable_ok: "platform_reachable lib cf pl H \<Longrightarrow> platform_ok (lib_ucd lib) cf pl H"
proof (induction rule: platform_reachable.induct)
  case (reach_start pl)
  then show ?case by (simp add: platform_start_def platform_ok_def get_product_role_def last_role_def)
qed (rule ok_step)

end
