(* ===== verification/AccessClaims.thy ===== *)
theory AccessClaims
  imports AccessFacts
begin

text \<open>
  The properties of sign-in, sessions, CSRF tokens and the access administration, each applied to a
  concrete request: an invited account signs in, and is then seen as a viewer of one product.
\<close>

section \<open>Properties\<close>

text \<open>
  C7. An account from outside the Workspace never becomes an administrator: after any history of
  sign-ins, administration calls and logouts, a Google account that was never verified as a Workspace
  member holds roles below ADMIN only, each on a product some invitation names for an email Google
  verified of that very account, and so can neither manage access nor approve.
\<close>

theorem external_never_admin:
  assumes "platform_reachable lib cf pl H" "r \<in> set (pl_users pl)" "au_kind r = google_kind"
    "\<forall>g \<in> H. gs_subject g = au_key r \<longrightarrow> \<not> gs_member g"
  shows "case get_product_role pl (au_id r) product of
           None \<Rightarrow> True
         | Some x \<Rightarrow> x \<noteq> Admin \<and> \<not> can (Some x) Manage_access \<and> \<not> can (Some x) Approve
             \<and> (\<exists>es y g. parse_external_accounts (lib_ucd lib) (cf_external cf) = Inr es
                  \<and> g \<in> H \<and> gs_subject g = au_key r \<and> (product, y, casefold (lib_ucd lib) (strip (gs_email g))) \<in> set es)"
proof (cases "get_product_role pl (au_id r) product")
  case (Some x)
  have "invited_grant (lib_ucd lib) cf (account_emails (lib_ucd lib) H (au_key r)) product x"
    using platform_reachable_ok [OF assms(1)] assms(2-4) Some unfolding platform_ok_def outsider_def was_member_def by blast
  with Some show ?thesis by (cases x) (auto simp: invited_grant_def account_emails_def can_def allowed_def)
qed simp

text \<open>
  C18. The administration route: a grant is made only for a request with a valid token and session,
  on behalf of an administrator of that product; it changes the role of one user on one product,
  leaves every other grant, and appends one audit event with the role it replaced.
\<close>

theorem admin_grant_exact:
  assumes "admin_grant_route lib cf rq product email r pl = Inr pl'"
  shows "\<exists>caller pl1 target. require_csrf lib cf rq = Inr ()
    \<and> get_current_app_user lib cf (rq_session rq) pl = Inr (caller, pl1)
    \<and> get_product_role pl1 (au_id caller) product = Some Admin
    \<and> target \<in> set (pl_users pl1) \<and> au_email target = Some email
    \<and> (\<forall>i p. get_product_role pl' i p = (if i = au_id target \<and> p = product then Some r else get_product_role pl1 i p))
    \<and> pl_audit pl' = pl_audit pl1 @ [Grant_changed (Some (au_id caller)) product (au_id target)
          (get_product_role pl1 (au_id target) product) r Via_admin_api]"
  using grant_route_result [OF assms] by blast

text \<open>
  C28. The audit trail tells the roles of the Google accounts: after any history the role such an
  account holds on a product is the one of the last event of the log on it, and it holds none when
  there is no event.
\<close>

theorem audit_tells_roles:
  assumes "platform_reachable lib cf pl H" "r \<in> set (pl_users pl)" "au_kind r = google_kind"
  shows "get_product_role pl (au_id r) product = last_role (pl_audit pl) (au_id r) product"
  using platform_reachable_ok [OF assms(1)] assms(2,3) unfolding platform_ok_def by blast

section \<open>CSRF tokens\<close>

text \<open>What a hexadecimal digest is made of, as far as the token format relies on it.\<close>

definition hex_digests :: "platform_lib \<Rightarrow> bool" where
  "hex_digests lib \<longleftrightarrow> (\<forall>k m. is_ascii (lib_hmac lib k m) \<and> lib_hmac lib k m \<noteq> [] \<and> 46 \<notin> set (lib_hmac lib k m))"

lemma partition_char_split:
  "partition_char c s = (n, True, r) \<longleftrightarrow> s = n @ c # r \<and> c \<notin> set n"
proof
  assume p: "partition_char c s = (n, True, r)"
  then have nonempty: "dropWhile (\<lambda>x. x \<noteq> c) s \<noteq> []" by (auto simp: partition_char_def)
  have "dropWhile (\<lambda>x. x \<noteq> c) s = c # tl (dropWhile (\<lambda>x. x \<noteq> c) s)"
    using hd_dropWhile [OF nonempty] list.collapse [OF nonempty] by simp
  then have rest: "dropWhile (\<lambda>x. x \<noteq> c) s = c # r" using p by (simp add: partition_char_def)
  have first: "takeWhile (\<lambda>x. x \<noteq> c) s = n" using p by (simp add: partition_char_def)
  have "c \<notin> set n" unfolding first [symmetric] by (auto dest: set_takeWhileD)
  with takeWhile_dropWhile_id [of "\<lambda>x. x \<noteq> c" s] show "s = n @ c # r \<and> c \<notin> set n" unfolding rest first by simp
qed (auto simp: partition_char_def takeWhile_append dropWhile_append)

text \<open>The message that is signed, and the signature of a nonce under the key of a session.\<close>

lemma sign_of_session:
  "mint_csrf_token lib nonce session_token = nonce @ 46 # lib_hmac lib (lib_sha256 lib session_token) (lit ''campo-csrf-v1:'' @ nonce)"
  by (simp add: mint_csrf_token_def csrf_sign_def)

lemma verify_split:
  assumes "hex_digests lib" "nonce \<noteq> []" "46 \<notin> set nonce"
  shows "verify_csrf_token lib (Some (mint_csrf_token lib nonce other)) session_token
    = Inr (lib_hmac lib (lib_sha256 lib other) (lit ''campo-csrf-v1:'' @ nonce)
           = lib_hmac lib (lib_sha256 lib session_token) (lit ''campo-csrf-v1:'' @ nonce))"
proof -
  let ?s = "csrf_sign lib nonce other"
  have s: "is_ascii ?s" "?s \<noteq> []" "46 \<notin> set ?s" "is_ascii (csrf_sign lib nonce session_token)"
    using assms(1) by (simp_all add: hex_digests_def csrf_sign_def)
  have "partition_char 46 (nonce @ 46 # ?s) = (nonce, True, ?s)" unfolding partition_char_split using assms(3) by simp
  with s assms(2) show ?thesis by (simp add: verify_csrf_token_def mint_csrf_token_def compare_digest_def csrf_sign_def)
qed

text \<open>
  C19. The CSRF token is bound to the session: a request passes exactly with a nonce and the HMAC of
  that nonce under the hash of its own session cookie, whatever the nonce; and a token minted for
  another session is refused, unless the two sessions give the nonce the same HMAC.
\<close>

theorem csrf_token_bound:
  assumes "hex_digests lib"
  shows "(verify_csrf_token lib candidate session_token = Inr True
      \<longleftrightarrow> (\<exists>nonce. nonce \<noteq> [] \<and> 46 \<notin> set nonce \<and> candidate = Some (nonce @ 46 #
            lib_hmac lib (lib_sha256 lib session_token) (lit ''campo-csrf-v1:'' @ nonce))))
    \<and> (\<forall>nonce other. nonce \<noteq> [] \<and> 46 \<notin> set nonce \<longrightarrow>
          verify_csrf_token lib (Some (mint_csrf_token lib nonce other)) session_token
            = Inr (lib_hmac lib (lib_sha256 lib other) (lit ''campo-csrf-v1:'' @ nonce)
                   = lib_hmac lib (lib_sha256 lib session_token) (lit ''campo-csrf-v1:'' @ nonce)))"
proof (intro conjI iffI allI impI)
  assume v: "verify_csrf_token lib candidate session_token = Inr True"
  then obtain c where c: "candidate = Some c" by (cases candidate) (auto simp: verify_csrf_token_def)
  obtain nonce sep sig where p: "partition_char 46 c = (nonce, sep, sig)" by (cases "partition_char 46 c")
  from v c p have "sep" "nonce \<noteq> []" "sig = csrf_sign lib nonce session_token"
    by (auto simp: verify_csrf_token_def compare_digest_def split: if_split_asm)
  with p c show "\<exists>nonce. nonce \<noteq> [] \<and> 46 \<notin> set nonce \<and> candidate = Some (nonce @ 46 #
            lib_hmac lib (lib_sha256 lib session_token) (lit ''campo-csrf-v1:'' @ nonce))"
    using partition_char_split [of 46 c nonce sig] by (intro exI [of _ nonce]) (simp add: csrf_sign_def)
next
  assume "\<exists>nonce. nonce \<noteq> [] \<and> 46 \<notin> set nonce \<and> candidate = Some (nonce @ 46 #
            lib_hmac lib (lib_sha256 lib session_token) (lit ''campo-csrf-v1:'' @ nonce))"
  then obtain nonce where "nonce \<noteq> []" "46 \<notin> set nonce" "candidate = Some (mint_csrf_token lib nonce session_token)"
    unfolding sign_of_session by blast
  with verify_split [OF assms] show "verify_csrf_token lib candidate session_token = Inr True" by simp
qed (use verify_split [OF assms] in blast)

text \<open>A token whose signature has a character outside ASCII is not refused: the comparison raises.\<close>

theorem csrf_non_ascii_raises:
  "verify_csrf_token lib (Some [110, 46, 233]) session_token = Inl Type_error"
  by (simp add: verify_csrf_token_def partition_char_def compare_digest_def is_ascii_def)

section \<open>Sessions\<close>

lemma session_value:
  "fst (resolve_session sha t pl) = map_option ss_user (find (\<lambda>s. ss_hash s = sha t \<and> ss_expires s > pl_now pl) (pl_sessions pl))"
  by (simp add: resolve_session_def Let_def)

lemma find_seen:
  assumes "\<And>s. P (s\<lparr>ss_seen := v\<rparr>) = P s"
  shows "map_option ss_user (find P (map (\<lambda>s. if Q s then s\<lparr>ss_seen := v\<rparr> else s) xs)) = map_option ss_user (find P xs)"
  by (induction xs) (simp_all add: assms)

lemma resolve_after_resolve:
  "fst (resolve_session sha t (snd (resolve_session sha t' pl))) = fst (resolve_session sha t pl)"
  unfolding session_value by (simp add: resolve_session_def Let_def find_seen)

lemma find_filter_same: "(\<And>x. P x \<Longrightarrow> Q x) \<Longrightarrow> find P (filter Q xs) = find P xs"
  by (induction xs) auto

text \<open>Authenticating creates at most the row of a development user, whose session is in memory.\<close>

lemma sessions_after_user:
  assumes "get_current_app_user lib cf token pl = Inr (r, pl')"
  shows "(\<forall>t. fst (resolve_session (lib_sha256 lib) t pl') = fst (resolve_session (lib_sha256 lib) t pl)) \<and> pl_dev pl' = pl_dev pl"
proof -
  obtain t where t: "token = Some t" using assms by (cases token) (auto simp: get_current_app_user_def)
  obtain v pl1 where v: "resolve_session (lib_sha256 lib) t pl = (v, pl1)" by fastforce
  have 1: "fst (resolve_session (lib_sha256 lib) t' pl1) = fst (resolve_session (lib_sha256 lib) t' pl)" for t'
    using resolve_after_resolve [of "lib_sha256 lib" t' t pl] v by simp
  have d: "pl_dev pl1 = pl_dev pl" using v by (auto simp: resolve_session_def Let_def)
  show ?thesis
  proof (cases v)
    case None
    with assms t v obtain key n where
      "resolve_or_create_app_user dev_identity_kind key n None pl1 = Inr (r, pl')"
      by (auto simp: get_current_app_user_def split: if_splits option.splits)
    from resolve_or_create_result [OF this] 1 d show ?thesis by (auto simp: session_value)
  next
    case (Some uid)
    with assms t v 1 d show ?thesis by (auto simp: get_current_app_user_def)
  qed
qed

text \<open>
  Logging out ends the session and only that one: the cookie no longer authenticates anything,
  and every other session stays as it was.
\<close>

theorem logout_ends_session:
  assumes "logout lib cf rq pl = Inr pl'" "rq_session rq = Some t"
  shows "get_current_app_user lib cf (Some t) pl' = Inl Not_authenticated \<and> \<not> has_active_session lib cf t pl'
    \<and> (\<forall>t'. t' \<noteq> t \<and> lib_sha256 lib t' \<noteq> lib_sha256 lib t
          \<longrightarrow> has_active_session lib cf t' pl' = has_active_session lib cf t' pl)"
proof -
  obtain r pl1 where 1: "get_current_app_user lib cf (Some t) pl = Inr (r, pl1)"
    and pl': "pl' = (clear_session (lib_sha256 lib) t pl1)\<lparr>pl_dev := AList.delete t (pl_dev pl1)\<rparr>"
    using assms by (auto simp: logout_def)
  note kept = sessions_after_user [OF 1]
  have gone: "fst (resolve_session (lib_sha256 lib) t pl') = None"
    unfolding session_value by (auto simp: pl' clear_session_def find_None_iff)
  have dev: "map_of (pl_dev pl') t = None" by (simp add: pl' delete_conv')
  obtain q where q: "resolve_session (lib_sha256 lib) t pl' = (None, q)" using gone by (metis prod.collapse)
  have "pl_dev q = pl_dev pl'" using q by (auto simp: resolve_session_def Let_def)
  with q dev have out: "get_current_app_user lib cf (Some t) pl' = Inl Not_authenticated"
    "\<not> has_active_session lib cf t pl'"
    by (auto simp: get_current_app_user_def has_active_session_def)
  have "has_active_session lib cf t' pl' = has_active_session lib cf t' pl"
    if "t' \<noteq> t" "lib_sha256 lib t' \<noteq> lib_sha256 lib t" for t'
  proof -
    have "fst (resolve_session (lib_sha256 lib) t' pl') = fst (resolve_session (lib_sha256 lib) t' pl1)"
      unfolding session_value pl' by (simp add: clear_session_def) (subst find_filter_same, use that in auto)
    then have "fst (resolve_session (lib_sha256 lib) t' pl') = fst (resolve_session (lib_sha256 lib) t' pl)" using kept by simp
    moreover have "map_of (pl_dev pl') t' = map_of (pl_dev pl) t'" using kept that by (simp add: pl' delete_conv')
    ultimately show ?thesis
      unfolding has_active_session_def by (auto split: prod.splits option.splits)
  qed
  with out show ?thesis by blast
qed

section \<open>Concrete requests\<close>

definition demo_lib :: platform_lib where
  "demo_lib = \<lparr>lib_ucd = latin_ucd, lib_sha256 = id, lib_hmac = (\<lambda>k m. 48 # map (\<lambda>c. if c mod 128 = 46 then 47 else c mod 128) (k @ m)),
     lib_encrypt = (\<lambda>t k. t), lib_decrypt = (\<lambda>c k. Some c),
     lib_loads = (\<lambda>_. Some (JObj [(lit ''state'', JStr [49]), (lit ''nonce'', JStr [50]), (lit ''code_verifier'', JStr [51])])),
     lib_str = (\<lambda>j. case j of JStr s \<Rightarrow> s | _ \<Rightarrow> []),
     lib_jwt = (\<lambda>_. Some [(lit ''iss'', JStr (lit ''accounts.google.com'')), (lit ''nonce'', JStr [50]),
        (lit ''email_verified'', JBool True), (lit ''email'', JStr (lit ''a@b'')), (lit ''sub'', JStr [55])]),
     lib_exchange = (\<lambda>_ _. Some [(lit ''id_token'', JStr [52])]), lib_entra = (\<lambda>_ _. None),
     lib_urlsplit = (\<lambda>_. None), lib_hostname = (\<lambda>_. None)\<rparr>"
definition demo_settings :: settings where
  "demo_settings = \<lparr>cf_env = Production, cf_workspace = lit ''w'', cf_transelec_admin = None, cf_bootstrap_admins = None,
     cf_external = Some (lit ''lidar:viewer:a@b''), cf_admin_tenant = None, cf_admin_object = None,
     cf_encryption_key = Some [1], cf_csrf_origins = None\<rparr>"
definition demo_platform :: platform where
  "demo_platform = \<lparr>pl_users = [], pl_grants = [], pl_audit = [], pl_sessions = [], pl_dev = [], pl_graph = [],
     pl_next = 1, pl_now = 0\<rparr>"
lemma demo_external: "parse_external_accounts latin_ucd (cf_external demo_settings) = Inr [(lit ''lidar'', Viewer, lit ''a@b'')]"
  by (simp add: demo_settings_def parse_external_accounts_def config_entries_def parse_external_entry_def
   strip_def strip_by_def is_space_def external_role_def casefold_def latin_fold_def product_keys_def)
lemma demo_complete: "google_complete demo_lib demo_settings [8] [(lit ''state'', [49]), (lit ''code'', [53])]
   = Inr \<lparr>gs_subject = [55], gs_email = lit ''a@b'', gs_display = lit ''a@b'', gs_hosted = None, gs_member = False\<rparr>"
  using demo_external
  by (simp add: google_complete_def demo_lib_def external_account_emails_def load_flow_def flow_part_def claim_def json_text_def
    compare_digest_def is_ascii_def present_def redeem_code_def verify_id_token_def known_issuer_def google_issuers_def
    casefold_def latin_fold_def strip_def strip_by_def is_space_def)

lemma demo_lib_fields:
  "lib_ucd demo_lib = latin_ucd" "lib_sha256 demo_lib = id" "lib_decrypt demo_lib c k = Some c"
  "cf_encryption_key demo_settings = Some [1]"
  by (simp_all add: demo_lib_def demo_settings_def)

definition demo_user :: app_user where
  "demo_user = \<lparr>au_id = 1, au_kind = google_kind, au_key = [55], au_display = lit ''a@b'', au_email = Some (lit ''a@b'')\<rparr>"

definition demo_after :: platform where
  "demo_after = demo_platform\<lparr>pl_users := [demo_user], pl_next := 2, pl_grants := [((1, lit ''lidar''), Viewer)],
     pl_audit := [Grant_changed None (lit ''lidar'') 1 None Viewer Via_external_config, Session_created 1],
     pl_sessions := [\<lparr>ss_hash = [9], ss_user = 1, ss_expires = session_ttl, ss_seen = 0\<rparr>]\<rparr>"

lemma demo_callback:
  "google_callback demo_lib demo_settings [9] (Some [8]) [(lit ''state'', [49]), (lit ''code'', [53])] demo_platform
     = Inr ([9], demo_after)"
proof -
  have ext: "maybe_grant_external_accounts latin_ucd demo_settings (lit ''a@b'') 1
      (demo_platform\<lparr>pl_users := [demo_user], pl_next := 2\<rparr>)
    = Inr ([lit ''lidar''], demo_platform\<lparr>pl_users := [demo_user], pl_next := 2, pl_grants := [((1, lit ''lidar''), Viewer)],
        pl_audit := [Grant_changed None (lit ''lidar'') 1 None Viewer Via_external_config]\<rparr>)"
    unfolding maybe_grant_external_accounts_def demo_external bind_result.simps fold_result.simps external_step_def
    by (simp add: get_product_role_def grant_product_role_def product_keys_def record_audit_event_def demo_platform_def
        demo_user_def strip_by_def casefold_def latin_fold_def strip_def is_space_def)
  have user: "resolve_or_create_app_user google_kind [55] (lit ''a@b'') (Some (lit ''a@b'')) demo_platform
     = Inr (demo_user, demo_platform\<lparr>pl_users := [demo_user], pl_next := 2\<rparr>)"
    by (simp add: resolve_or_create_app_user_def user_by_identity_def blank_text_def strip_by_def google_kind_def demo_user_def demo_platform_def Let_def)
  have id: "au_id demo_user = 1" by (simp add: demo_user_def)
  let ?g = "\<lparr>gs_subject = [55], gs_email = lit ''a@b'', gs_display = lit ''a@b'', gs_hosted = None, gs_member = False\<rparr>"
  let ?pl = "demo_platform\<lparr>pl_users := [demo_user], pl_next := 2\<rparr>"
  let ?pl2 = "?pl\<lparr>pl_grants := [((1, lit ''lidar''), Viewer)],
        pl_audit := [Grant_changed None (lit ''lidar'') 1 None Viewer Via_external_config]\<rparr>"
  have grants: "google_grants demo_lib demo_settings ?g 1 ?pl = Inr ?pl2"
    unfolding google_grants_def google_sign_in.select_convs if_False demo_lib_fields ext bind_result.simps prod.case ..
  have ses: "create_session id [9] 1 session_ttl ?pl2
     = Inr (?pl2\<lparr>pl_sessions := [\<lparr>ss_hash = [9], ss_user = 1, ss_expires = session_ttl, ss_seen = 0\<rparr>]\<rparr>)"
    by (simp add: create_session_def demo_platform_def demo_user_def blank_text_def strip_by_def)
  have other: "\<not> other_identity_holds_email latin_ucd demo_platform google_kind [55] (lit ''a@b'')"
    by (simp add: other_identity_holds_email_def demo_platform_def)
  have "google_callback demo_lib demo_settings [9] (Some [8]) [(lit ''state'', [49]), (lit ''code'', [53])] demo_platform
      = Inr ([9], record_audit_event (Session_created 1)
          (?pl2\<lparr>pl_sessions := [\<lparr>ss_hash = [9], ss_user = 1, ss_expires = session_ttl, ss_seen = 0\<rparr>]\<rparr>))"
    unfolding google_callback_def demo_lib_fields option.case demo_complete bind_result.simps google_sign_in.select_convs
    using other user grants ses by (simp only: prod.case bind_result.simps id if_False simp_thms)
  then show ?thesis by (simp add: record_audit_event_def demo_after_def demo_platform_def)
qed

definition demo_sign_in :: google_sign_in where
  "demo_sign_in = \<lparr>gs_subject = [55], gs_email = lit ''a@b'', gs_display = lit ''a@b'', gs_hosted = None, gs_member = False\<rparr>"

lemma demo_reachable: "platform_reachable demo_lib demo_settings demo_after {demo_sign_in}"
proof -
  have "platform_step demo_lib demo_settings (demo_platform, {}) (demo_after, {demo_sign_in})"
    using step_google [OF demo_callback demo_lib_fields(4) demo_lib_fields(3) demo_complete, of "{}"] unfolding demo_sign_in_def .
  then show ?thesis
    using reach_step [OF reach_start [of demo_platform]] by (simp add: platform_start_def demo_platform_def)
qed

lemma demo_digests: "hex_digests demo_lib"
  by (auto simp: hex_digests_def demo_lib_def is_ascii_def split: if_splits)

definition demo_admin :: app_user where
  "demo_admin = \<lparr>au_id = 1, au_kind = entra_kind, au_key = [49], au_display = [65], au_email = None\<rparr>"

definition demo_member :: app_user where
  "demo_member = \<lparr>au_id = 2, au_kind = entra_kind, au_key = [50], au_display = [66], au_email = Some (lit ''c@w'')\<rparr>"

definition demo_managed :: platform where
  "demo_managed = demo_platform\<lparr>pl_users := [demo_admin, demo_member], pl_next := 3,
     pl_grants := [((1, lit ''lidar''), Admin)],
     pl_sessions := [\<lparr>ss_hash = [9], ss_user = 1, ss_expires = 5, ss_seen = 0\<rparr>]\<rparr>"

definition demo_request :: request where
  "demo_request = \<lparr>rq_session = Some [9], rq_csrf = Some (mint_csrf_token demo_lib [110] [9]),
     rq_origin = None, rq_referer = None, rq_host = None\<rparr>"

lemma demo_current:
  "get_current_app_user demo_lib demo_settings (Some [9]) demo_managed = Inr (demo_admin, demo_managed)"
  by (simp add: get_current_app_user_def resolve_session_def load_app_user_def demo_managed_def demo_platform_def
      demo_lib_fields demo_admin_def)

section \<open>The properties at these requests\<close>

theorem external_never_admin_witness:
  "get_product_role demo_after 1 (lit ''lidar'') = Some Viewer
   \<and> (case get_product_role demo_after (au_id demo_user) (lit ''lidar'') of
           None \<Rightarrow> True
         | Some x \<Rightarrow> x \<noteq> Admin \<and> \<not> can (Some x) Manage_access \<and> \<not> can (Some x) Approve
             \<and> (\<exists>es y g. parse_external_accounts (lib_ucd demo_lib) (cf_external demo_settings) = Inr es
                  \<and> g \<in> {demo_sign_in} \<and> gs_subject g = au_key demo_user
                  \<and> (lit ''lidar'', y, casefold (lib_ucd demo_lib) (strip (gs_email g))) \<in> set es))"
proof
  show "get_product_role demo_after 1 (lit ''lidar'') = Some Viewer" by (simp add: demo_after_def get_product_role_def)
qed (rule external_never_admin [OF demo_reachable]; simp add: demo_after_def demo_user_def demo_sign_in_def)

theorem audit_tells_roles_witness:
  "get_product_role demo_after (au_id demo_user) (lit ''lidar'') = last_role (pl_audit demo_after) (au_id demo_user) (lit ''lidar'')
   \<and> get_product_role demo_after 1 (lit ''lidar'') = Some Viewer"
  by (rule conjI [OF audit_tells_roles [OF demo_reachable]]) (simp_all add: demo_after_def demo_user_def get_product_role_def)

theorem csrf_token_bound_witness:
  "verify_csrf_token demo_lib (Some (mint_csrf_token demo_lib [110] [9])) [9] = Inr True
    \<and> verify_csrf_token demo_lib (Some (mint_csrf_token demo_lib [110] [9])) [8] = Inr False"
proof -
  have "lib_hmac demo_lib (lib_sha256 demo_lib [9]) m \<noteq> lib_hmac demo_lib (lib_sha256 demo_lib [8]) m" for m
    by (simp add: demo_lib_def)
  with csrf_token_bound [OF demo_digests, of _ "[9]"] csrf_token_bound [OF demo_digests, of _ "[8]"] show ?thesis by simp
qed

text \<open>One administrator, one member, one request that passes every check.\<close>

lemma demo_csrf: "require_csrf demo_lib demo_settings demo_request = Inr ()"
proof -
  have "verify_csrf_token demo_lib (Some (mint_csrf_token demo_lib [110] [9])) [9] = Inr True"
    by (simp add: verify_csrf_token_def mint_csrf_token_def partition_char_def csrf_sign_def demo_lib_def compare_digest_def is_ascii_def)
  then show ?thesis by (simp add: require_csrf_def demo_request_def declared_origin_def present_def)
qed

lemma demo_target: "get_app_user_by_email demo_managed (lit ''c@w'') = Inr (Some demo_member)"
  by (simp add: get_app_user_by_email_def demo_managed_def demo_platform_def demo_admin_def demo_member_def)

lemma demo_not_external: "is_external latin_ucd demo_settings demo_member = Inr False"
  using demo_external
  by (simp add: is_external_def external_account_emails_def demo_member_def entra_kind_def
      casefold_def latin_fold_def strip_def strip_by_def is_space_def Let_def)

definition demo_granted :: platform where
  "demo_granted = record_audit_event (Grant_changed (Some 1) (lit ''lidar'') 2 None Operator Via_admin_api)
     (demo_managed\<lparr>pl_grants := [((1, lit ''lidar''), Admin), ((2, lit ''lidar''), Operator)]\<rparr>)"

lemma demo_grant:
  "admin_grant_route demo_lib demo_settings demo_request (lit ''lidar'') (lit ''c@w'') Operator demo_managed = Inr demo_granted"
proof -
  have ids: "au_id demo_admin = 1" "au_id demo_member = 2" by (simp_all add: demo_admin_def demo_member_def)
  have can: "ensure_can demo_managed 1 (lit ''lidar'') Manage_access = Inr Admin"
    by (simp add: ensure_can_def get_product_role_def can_def allowed_def demo_managed_def)
  have grant: "grant_product_role 2 (lit ''lidar'') Operator demo_managed
      = Inr (demo_managed\<lparr>pl_grants := [((1, lit ''lidar''), Admin), ((2, lit ''lidar''), Operator)]\<rparr>)"
    by (simp add: grant_product_role_def product_keys_def demo_managed_def ids)
  have before: "get_product_role demo_managed 2 (lit ''lidar'') = None"
    by (simp add: get_product_role_def demo_managed_def)
  have session: "rq_session demo_request = Some [9]" by (simp add: demo_request_def)
  show ?thesis
    unfolding admin_grant_route_def demo_csrf session bind_result.simps demo_current prod.case ids
      grant_product_role_by_email_def can demo_target option.case demo_lib_fields demo_not_external if_False
      Let_def simp_thms if_True grant before demo_granted_def ..
qed

theorem admin_grant_exact_witness:
  "admin_grant_route demo_lib demo_settings demo_request (lit ''lidar'') (lit ''c@w'') Operator demo_managed = Inr demo_granted
   \<and> (\<exists>caller pl1 target. require_csrf demo_lib demo_settings demo_request = Inr ()
    \<and> get_current_app_user demo_lib demo_settings (rq_session demo_request) demo_managed = Inr (caller, pl1)
    \<and> get_product_role pl1 (au_id caller) (lit ''lidar'') = Some Admin
    \<and> target \<in> set (pl_users pl1) \<and> au_email target = Some (lit ''c@w'')
    \<and> (\<forall>i p. get_product_role demo_granted i p
          = (if i = au_id target \<and> p = lit ''lidar'' then Some Operator else get_product_role pl1 i p))
    \<and> pl_audit demo_granted = pl_audit pl1 @ [Grant_changed (Some (au_id caller)) (lit ''lidar'') (au_id target)
          (get_product_role pl1 (au_id target) (lit ''lidar'')) Operator Via_admin_api])"
  by (rule conjI [OF demo_grant admin_grant_exact [OF demo_grant]])

lemma demo_logout:
  "logout demo_lib demo_settings demo_request demo_managed = Inr (demo_managed\<lparr>pl_sessions := [], pl_dev := []\<rparr>)"
proof -
  have session: "rq_session demo_request = Some [9]" by (simp add: demo_request_def)
  show ?thesis
    unfolding logout_def demo_csrf session bind_result.simps demo_current prod.case option.case demo_lib_fields
    by (simp add: clear_session_def demo_managed_def demo_platform_def)
qed

theorem logout_ends_session_witness:
  "get_current_app_user demo_lib demo_settings (Some [9]) demo_managed = Inr (demo_admin, demo_managed)
   \<and> get_current_app_user demo_lib demo_settings (Some [9]) (demo_managed\<lparr>pl_sessions := [], pl_dev := []\<rparr>) = Inl Not_authenticated"
proof -
  have "rq_session demo_request = Some [9]" by (simp add: demo_request_def)
  from logout_ends_session [OF demo_logout this] demo_current show ?thesis by blast
qed

section \<open>What the handlers do not promise\<close>

text \<open>
  The bootstrap through Entra grants ADMIN on every product and leaves the log as it was, unlike every
  other grant of the program except the local development seeds.
\<close>

theorem entra_bootstrap_unaudited:
  assumes "maybe_grant_bootstrap_admin cf tenant object uid pl = Inr (True, pl')"
  shows "get_product_role pl uid product = None \<and> pl_audit pl' = pl_audit pl
    \<and> (product \<in> set product_keys \<longrightarrow> get_product_role pl' uid product = Some Admin)"
proof -
  from assms have "list_grants_for_user pl uid = []" and g: "grant_all uid Admin product_keys pl = Inr pl'"
    by (auto simp: maybe_grant_bootstrap_admin_def split: option.splits if_splits)
  moreover have "get_product_role pl' uid product = Some Admin" if "product \<in> set product_keys"
    using g that by (auto simp: grant_all_def product_keys_def grant_result get_product_role_def update_conv')
  ultimately show ?thesis using grant_all_other [OF g] no_grants_role by blast
qed

text \<open>A token response without a scope, which the handler replaces by the empty text, fails the sign-in.\<close>

theorem scopeless_graph_grant_fails:
  assumes "es_access e = Some a" "a \<noteq> []" "es_refresh e = Some r" "r \<noteq> []" "es_expires e = Some t" "es_scope e = None"
  shows "store_graph_grant lib key e uid pl = Inl Integrity_error"
  using assms by (simp add: store_graph_grant_def present_def upsert_graph_grant_def blank_text_def strip_by_def)

text \<open>Two identities with one email, which no constraint forbids, make the route fail for that email.\<close>

theorem shared_email_not_grantable:
  assumes "r \<in> set (pl_users pl)" "v \<in> set (pl_users pl)" "r \<noteq> v" "au_email r = Some email" "au_email v = Some email"
  shows "get_app_user_by_email pl email = Inl Multiple_results"
proof -
  let ?xs = "filter (\<lambda>r. au_email r = Some email) (pl_users pl)"
  have both: "r \<in> set ?xs" "v \<in> set ?xs" using assms by auto
  show ?thesis
  proof (cases ?xs)
    case (Cons x xs)
    with both assms(3) have "xs \<noteq> []" by auto
    with Cons show ?thesis by (auto simp: get_app_user_by_email_def neq_Nil_conv)
  qed (use both in simp)
qed

end
