(* ===== verification/Conaf.thy ===== *)
theory Conaf
  imports TextDate "HOL-Library.Monad_Syntax"
begin

text \<open>
  \<open>app/conaf.py\<close>: the numbers CONAF can be asked for, its page turned into a lookup, and the
  client that asks at most once per interval. The regular expressions are matchers at a position;
  \<open>HTMLParser\<close> is the parameter \<open>html\<close>, the events it reports for a text.
\<close>

section \<open>Numbers\<close>

text \<open>
  \<open>[0-9]{1,n}\<close> followed by the character \<open>c\<close>, not a digit: what it takes and what is left.
  A longer run of digits has no other way to match.
\<close>

definition run_then :: "nat \<Rightarrow> nat \<Rightarrow> pystr \<Rightarrow> (pystr \<times> pystr) option" where
  "run_then n c s =
     (let ds = takeWhile ascii_digit s
      in if ds \<noteq> [] \<and> length ds \<le> n \<and> take 1 (drop (length ds) s) = [c]
         then Some (ds @ [c], drop (Suc (length ds)) s) else None)"

definition slashed_at :: "pystr \<Rightarrow> (pystr \<times> pystr) option" where
  "slashed_at s =
     do { (a, s) \<leftarrow> run_then 6 47 s;
          (b, s) \<leftarrow> run_then 4 45 s;
          (c, s) \<leftarrow> run_then 4 47 s;
          if length (take 2 s) = 2 \<and> list_all ascii_digit (take 2 s)
          then Some (a @ b @ c @ take 2 s, drop 2 s) else None }"

definition zfill6 :: "pystr \<Rightarrow> pystr" where
  "zfill6 s = replicate (6 - length s) 48 @ s"

definition is_number :: "pystr \<Rightarrow> bool" where
  "is_number s \<longleftrightarrow> 1 \<le> length s \<and> length s \<le> 9 \<and> list_all ascii_digit s"

definition is_slashed :: "pystr \<Rightarrow> bool" where
  "is_slashed s \<longleftrightarrow> (case slashed_at s of Some (_, rest) \<Rightarrow> rest = [] | None \<Rightarrow> False)"

definition normalize_solicitud :: "pystr option \<Rightarrow> pystr option" where
  "normalize_solicitud raw =
     (case raw of
        None \<Rightarrow> None
      | Some r \<Rightarrow>
          let v = strip r
          in if \<not> is_ascii v then None
             else if is_number v then Some (zfill6 v)
             else if is_slashed v then Some v else None)"

text \<open>What the matchers accept.\<close>

lemma takeWhile_digits:
  "list_all ascii_digit ds \<Longrightarrow> \<not> ascii_digit c \<Longrightarrow> takeWhile ascii_digit (ds @ c # r) = ds"
  by (induction ds) auto

lemma run_then_iff:
  assumes "\<not> ascii_digit c"
  shows "run_then n c s = Some (m, r) \<longleftrightarrow>
    (\<exists>ds. m = ds @ [c] \<and> s = ds @ c # r \<and> ds \<noteq> [] \<and> length ds \<le> n \<and> list_all ascii_digit ds)"
proof
  let ?ds = "takeWhile ascii_digit s"
  assume "run_then n c s = Some (m, r)"
  then have r: "?ds \<noteq> []" "length ?ds \<le> n" "take 1 (drop (length ?ds) s) = [c]"
    "m = ?ds @ [c]" "r = drop (Suc (length ?ds)) s"
    by (auto simp: run_then_def Let_def split: if_splits)
  from r(3) obtain t where t: "drop (length ?ds) s = c # t" by (cases "drop (length ?ds) s") auto
  then have "s = ?ds @ c # t" by (metis append_take_drop_id takeWhile_eq_take)
  moreover from t have "t = r" unfolding r(5) by (metis drop_Suc list.sel(3) tl_drop)
  ultimately show "\<exists>ds. m = ds @ [c] \<and> s = ds @ c # r \<and> ds \<noteq> [] \<and> length ds \<le> n \<and> list_all ascii_digit ds"
    using r by (intro exI [of _ ?ds]) (auto simp: list_all_iff dest: set_takeWhileD)
qed (use assms in \<open>auto simp: run_then_def takeWhile_digits\<close>)

definition slashed_parts :: "pystr \<Rightarrow> bool" where
  "slashed_parts m \<longleftrightarrow> (\<exists>a b c y. m = a @ 47 # b @ 45 # c @ 47 # y \<and> a \<noteq> [] \<and> length a \<le> 6 \<and> b \<noteq> [] \<and> length b \<le> 4
     \<and> c \<noteq> [] \<and> length c \<le> 4 \<and> length y = 2 \<and> list_all ascii_digit (a @ b @ c @ y))"

lemma slashed_at_iff: "slashed_at s = Some (m, r) \<longleftrightarrow> s = m @ r \<and> slashed_parts m"
proof
  have sep: "\<not> ascii_digit 47" "\<not> ascii_digit 45" by (simp_all add: ascii_digit_def)
  assume "slashed_at s = Some (m, r)"
  then obtain a b c t where s: "s = a @ 47 # b @ 45 # c @ 47 # t" "m = a @ 47 # b @ 45 # c @ 47 # take 2 t" "r = drop 2 t"
    and parts: "a \<noteq> []" "length a \<le> 6" "b \<noteq> []" "length b \<le> 4" "c \<noteq> []" "length c \<le> 4" "length (take 2 t) = 2"
      "list_all ascii_digit (a @ b @ c @ take 2 t)"
    by (auto simp: slashed_at_def bind_eq_Some_conv run_then_iff sep split: if_splits)
  from parts have "slashed_parts m" unfolding slashed_parts_def s(2) by blast
  then show "s = m @ r \<and> slashed_parts m" by (simp add: s)
next
  have sep: "\<not> ascii_digit 47" "\<not> ascii_digit 45" by (simp_all add: ascii_digit_def)
  assume "s = m @ r \<and> slashed_parts m"
  then obtain a b c y where s: "s = a @ 47 # b @ 45 # c @ 47 # y @ r" "m = a @ 47 # b @ 45 # c @ 47 # y"
    and parts: "a \<noteq> []" "length a \<le> 6" "b \<noteq> []" "length b \<le> 4" "c \<noteq> []" "length c \<le> 4" "length y = 2"
      "list_all ascii_digit (a @ b @ c @ y)"
    by (auto simp: slashed_parts_def)
  have "run_then 6 47 s = Some (a @ [47], b @ 45 # c @ 47 # y @ r)"
    "run_then 4 45 (b @ 45 # c @ 47 # y @ r) = Some (b @ [45], c @ 47 # y @ r)"
    "run_then 4 47 (c @ 47 # y @ r) = Some (c @ [47], y @ r)"
    using parts by (auto simp: run_then_iff sep s)
  with parts show "slashed_at s = Some (m, r)" by (simp add: slashed_at_def s(2))
qed

lemma slashed_at_shorter: "slashed_at s = Some (m, r) \<Longrightarrow> length r < length s"
  by (auto simp: slashed_at_iff slashed_parts_def)

text \<open>\<open>_SLASHED.findall\<close>: from the left, without overlap.\<close>

function find_slashed :: "pystr \<Rightarrow> pystr list" where
  "find_slashed s =
     (case slashed_at s of
        Some (m, rest) \<Rightarrow> m # find_slashed rest
      | None \<Rightarrow> (case s of [] \<Rightarrow> [] | _ # cs \<Rightarrow> find_slashed cs))"
  by pat_completeness auto
termination
  by (relation "measure length") (auto dest: slashed_at_shorter)

declare find_slashed.simps [simp del]

definition solicitudes_in_cell :: "pystr option \<Rightarrow> pystr list" where
  "solicitudes_in_cell raw =
     (case raw of
        None \<Rightarrow> []
      | Some r \<Rightarrow>
          if \<not> is_ascii r then []
          else dedup (if 47 \<in> set r then find_slashed r
                      else case normalize_solicitud (Some r) of None \<Rightarrow> [] | Some n \<Rightarrow> [n]))"

text \<open>\<open>urlencode\<close> of a normalized number: digits and the hyphen stand, the slash is escaped.\<close>

definition public_url :: "pystr \<Rightarrow> pystr" where
  "public_url numero =
     lit ''https://oficinavirtual.conaf.cl/consultas/action.php?nsolicitud=''
       @ concat (map (\<lambda>c. if c = 47 then lit ''%2F'' else [c]) numero)"

section \<open>The table of the page\<close>

datatype html_event = Start_tag pystr "(pystr \<times> pystr option) list" | End_tag pystr | Char_data pystr

record tabla_parser =
  tp_rows :: "pystr list list"
  tp_in_table :: bool
  tp_done :: bool
  tp_row :: "pystr list option"
  tp_cell :: "pystr list option"

definition tabla_init :: tabla_parser where
  "tabla_init = \<lparr>tp_rows = [], tp_in_table = False, tp_done = False, tp_row = None, tp_cell = None\<rparr>"

definition class_words :: "(pystr \<times> pystr option) list \<Rightarrow> pystr list" where
  "class_words attrs = py_split (case map_of (rev attrs) (lit ''class'') of Some (Some v) \<Rightarrow> v | _ \<Rightarrow> [])"

definition handle_starttag :: "pystr \<Rightarrow> (pystr \<times> pystr option) list \<Rightarrow> tabla_parser \<Rightarrow> tabla_parser" where
  "handle_starttag tag attrs p =
     (if tp_done p then p
      else if tag = lit ''table'' \<and> lit ''tabla'' \<in> set (class_words attrs) then p\<lparr>tp_in_table := True\<rparr>
      else if tp_in_table p \<and> tag = lit ''tr'' then p\<lparr>tp_row := Some []\<rparr>
      else if tp_in_table p \<and> tag \<in> {lit ''td'', lit ''th''} \<and> tp_row p \<noteq> None then p\<lparr>tp_cell := Some []\<rparr>
      else p)"

definition handle_endtag :: "pystr \<Rightarrow> tabla_parser \<Rightarrow> tabla_parser" where
  "handle_endtag tag p =
     (if \<not> tp_in_table p then p
      else if tag \<in> {lit ''td'', lit ''th''} \<and> tp_row p \<noteq> None \<and> tp_cell p \<noteq> None
      then p\<lparr>tp_row := Some (the (tp_row p) @ [join_space (py_split (concat (the (tp_cell p))))]), tp_cell := None\<rparr>
      else if tag = lit ''tr'' \<and> tp_row p \<noteq> None
      then p\<lparr>tp_rows := tp_rows p @ [the (tp_row p)], tp_row := None\<rparr>
      else if tag = lit ''table'' then p\<lparr>tp_in_table := False, tp_done := True\<rparr>
      else p)"

definition handle_data :: "pystr \<Rightarrow> tabla_parser \<Rightarrow> tabla_parser" where
  "handle_data d p = (case tp_cell p of None \<Rightarrow> p | Some ds \<Rightarrow> p\<lparr>tp_cell := Some (ds @ [d])\<rparr>)"

definition handle_event :: "tabla_parser \<Rightarrow> html_event \<Rightarrow> tabla_parser" where
  "handle_event p e =
     (case e of Start_tag t as \<Rightarrow> handle_starttag t as p | End_tag t \<Rightarrow> handle_endtag t p
      | Char_data d \<Rightarrow> handle_data d p)"

definition tabla_rows :: "html_event list \<Rightarrow> pystr list list" where
  "tabla_rows evs = tp_rows (foldl handle_event tabla_init evs)"

section \<open>Decimals\<close>

text \<open>A finite \<open>Decimal\<close>: sign, coefficient and exponent.\<close>

datatype pydecimal = Decimal bool nat int

definition dec_rat :: "pydecimal \<Rightarrow> rat" where
  "dec_rat d = (case d of Decimal neg c x \<Rightarrow>
     (if neg then - 1 else 1) * (if x \<ge> 0 then of_nat c * 10 ^ nat x else of_nat c / 10 ^ nat (- x)))"

text \<open>
  \<open>Decimal(s)\<close>: underscores dropped, every decimal digit read, and nothing rounded, so that an
  exponent outside the largest context is an error too. \<open>None\<close> is \<open>InvalidOperation\<close>, and also
  the infinities and NaNs, which \<open>_decimal\<close> refuses next.
\<close>

definition decimal_ascii :: "ucd \<Rightarrow> pystr \<Rightarrow> pystr option" where
  "decimal_ascii u s =
     those (map (\<lambda>c. if c < 128 then Some c else if is_space c then Some 32
                     else map_option ((+) 48) (ucd_digit u c)) (filter (\<lambda>c. c \<noteq> 95) (strip s)))"

definition read_exponent :: "pystr \<Rightarrow> int option" where
  "read_exponent s =
     (case s of
        [] \<Rightarrow> Some 0
      | c # r \<Rightarrow>
          let ds = (case r of s # t \<Rightarrow> if s = 43 \<or> s = 45 then t else r | [] \<Rightarrow> [])
          in if c \<in> {69, 101} \<and> ds \<noteq> [] \<and> list_all ascii_digit ds
             then Some (if take 1 r = [45] then - digits_value 0 ds else digits_value 0 ds) else None)"

definition decimal_in_range :: "nat \<Rightarrow> int \<Rightarrow> bool" where
  "decimal_in_range c x \<longleftrightarrow> - 1999999999999999997 \<le> x \<and> x + int (length (nat_digits c)) - 1 \<le> 999999999999999999"

definition read_decimal :: "pystr \<Rightarrow> pydecimal option" where
  "read_decimal s =
     (let neg = (take 1 s = [45]);
          s = (if take 1 s = [43] \<or> take 1 s = [45] then drop 1 s else s);
          whole = takeWhile ascii_digit s; s = drop (length whole) s;
          frac = (if take 1 s = [46] then takeWhile ascii_digit (drop 1 s) else []);
          s = (if take 1 s = [46] then drop (Suc (length frac)) s else s);
          c = nat (digits_value 0 (whole @ frac))
      in if whole @ frac = [] then None
         else do { e \<leftarrow> read_exponent s;
                   let x = e - int (length frac)
                   in if decimal_in_range c x then Some (Decimal neg c x) else None })"

definition max_superficie_ha :: rat where "max_superficie_ha = 10 ^ 10"

definition decimal_cell :: "ucd \<Rightarrow> pystr \<Rightarrow> pydecimal option" where
  "decimal_cell u v =
     (let cleaned = strip (map (\<lambda>c. if c = 44 then 46 else c) v)
      in if cleaned = [] then None
         else do { s \<leftarrow> decimal_ascii u cleaned;
                   d \<leftarrow> read_decimal s;
                   if dec_rat d < 0 \<or> dec_rat d \<ge> max_superficie_ha then None else Some d })"

section \<open>Dates\<close>

text \<open>What \<open>%d\<close>, \<open>%m\<close> and \<open>%Y\<close> of \<open>strptime\<close> match between the slashes of a stripped text.\<close>

definition strptime_day :: "ucd \<Rightarrow> pystr \<Rightarrow> bool" where
  "strptime_day u s \<longleftrightarrow>
     (case s of
        [a] \<Rightarrow> 49 \<le> a \<and> a \<le> 57
      | [a, b] \<Rightarrow> a = 51 \<and> (b = 48 \<or> b = 49) \<or> (a = 49 \<or> a = 50) \<and> is_digit u b \<or> a = 48 \<and> 49 \<le> b \<and> b \<le> 57
      | _ \<Rightarrow> False)"

definition strptime_month :: "pystr \<Rightarrow> bool" where
  "strptime_month s \<longleftrightarrow>
     (case s of
        [a] \<Rightarrow> 49 \<le> a \<and> a \<le> 57
      | [a, b] \<Rightarrow> a = 49 \<and> 48 \<le> b \<and> b \<le> 50 \<or> a = 48 \<and> 49 \<le> b \<and> b \<le> 57
      | _ \<Rightarrow> False)"

definition date_cell :: "ucd \<Rightarrow> pystr \<Rightarrow> date option" where
  "date_cell u v =
     (case split_char 47 (strip v) of
        [d, m, y] \<Rightarrow>
          (let r = Date (int_of_digits u y) (int_of_digits u m) (int_of_digits u d)
           in if strptime_day u d \<and> strptime_month m \<and> length y = 4 \<and> list_all (is_digit u) y \<and> valid_date r
              then Some r else None)
      | _ \<Rightarrow> None)"

section \<open>One page\<close>

datatype lookup_status = Found | Not_found | Mismatch | Unavailable

record conaf_lookup =
  cl_numero :: pystr
  cl_status :: lookup_status
  cl_tipo :: "pystr option"
  cl_superficie :: "pydecimal option"
  cl_ingreso :: "date option"
  cl_estado :: "pystr option"
  cl_resolucion :: "date option"
  cl_returned :: "pystr option"

definition empty_lookup :: "pystr \<Rightarrow> lookup_status \<Rightarrow> conaf_lookup" where
  "empty_lookup numero st = \<lparr>cl_numero = numero, cl_status = st, cl_tipo = None, cl_superficie = None,
     cl_ingreso = None, cl_estado = None, cl_resolucion = None, cl_returned = None\<rparr>"

definition text_cell :: "pystr \<Rightarrow> pystr option" where
  "text_cell v = (if v = [] then None else Some v)"

definition not_found_text :: pystr where
  "not_found_text = lit ''la solicitud indicada no existe''"

definition data_rows :: "ucd \<Rightarrow> pystr list list \<Rightarrow> pystr list list" where
  "data_rows u rows = filter (\<lambda>row. row \<noteq> [] \<and> lower u (hd row) \<noteq> lit ''solicitud'') rows"

text \<open>ISO-8859-1 decodes every byte to the code point of its value.\<close>

definition parse_conaf_page :: "ucd \<Rightarrow> (pystr \<Rightarrow> html_event list) \<Rightarrow> pystr \<Rightarrow> nat list \<Rightarrow> conaf_lookup" where
  "parse_conaf_page u html numero body =
     (if contains not_found_text (join_space (py_split (lower u body))) then empty_lookup numero Not_found
      else let data = data_rows u (tabla_rows (html body))
           in if data = [] \<or> length (hd data) < 6 then empty_lookup numero Unavailable
              else let row = hd data; solicitud = row ! 0
                   in if normalize_solicitud (Some solicitud) \<noteq> Some numero
                      then (empty_lookup numero Mismatch)\<lparr>cl_returned := text_cell solicitud\<rparr>
                      else \<lparr>cl_numero = numero, cl_status = Found, cl_tipo = text_cell (row ! 1),
                             cl_superficie = decimal_cell u (row ! 2), cl_ingreso = date_cell u (row ! 3),
                             cl_estado = text_cell (row ! 4), cl_resolucion = date_cell u (row ! 5), cl_returned = None\<rparr>)"

section \<open>Asking\<close>

text \<open>
  The \<open>i\<close>-th reading of the clock and the \<open>i\<close>-th chunk of the response are arguments. Every
  chunk but the last has a byte, so the loop ends.
\<close>

function read_loop :: "(nat \<Rightarrow> rat) \<Rightarrow> (nat \<Rightarrow> nat list) \<Rightarrow> nat \<Rightarrow> rat \<Rightarrow> nat \<Rightarrow> nat list \<Rightarrow> nat list option" where
  "read_loop clock chunk limit deadline i acc =
     (if clock i > deadline then None
      else if chunk i = [] then Some acc
      else if length acc + length (chunk i) > limit then Some (acc @ chunk i)
      else read_loop clock chunk limit deadline (Suc i) (acc @ chunk i))"
  by pat_completeness auto
termination
  by (relation "measure (\<lambda>(_, _, limit, _, _, acc). Suc limit - length acc)") (auto simp: neq_Nil_conv, linarith?)

declare read_loop.simps [simp del]

definition read_with_deadline :: "(nat \<Rightarrow> rat) \<Rightarrow> (nat \<Rightarrow> nat list) \<Rightarrow> nat \<Rightarrow> rat \<Rightarrow> nat list option" where
  "read_with_deadline clock chunk limit deadline = read_loop clock chunk limit deadline 0 []"

definition max_bytes :: nat where "max_bytes = 1024 * 1024"

text \<open>
  One call of the client: \<open>held\<close> says that another lookup keeps the lock past the wait,
  \<open>before\<close> and \<open>asked\<close> are the readings of the clock before and after the pause, and
  \<open>answer\<close> is the response, or \<open>None\<close> for a network error. The last request time is the state.
\<close>

definition pause :: "rat \<Rightarrow> rat \<Rightarrow> rat option \<Rightarrow> rat" where
  "pause interval before last_asked =
     (case last_asked of None \<Rightarrow> 0 | Some t \<Rightarrow> max 0 (t + interval - before))"

definition client_lookup :: "ucd \<Rightarrow> (pystr \<Rightarrow> html_event list) \<Rightarrow> bool \<Rightarrow> rat \<Rightarrow> (int \<times> nat list) option \<Rightarrow> pystr
    \<Rightarrow> rat option \<Rightarrow> conaf_lookup option \<times> rat option" where
  "client_lookup u html held asked answer numero last_asked =
     (if held then (None, last_asked)
      else (Some (case answer of
                    None \<Rightarrow> empty_lookup numero Unavailable
                  | Some (status, body) \<Rightarrow>
                      if status \<noteq> 200 \<or> length body > max_bytes then empty_lookup numero Unavailable
                      else parse_conaf_page u html numero body), Some asked))"

end
