(* ===== verification/ConafStore.thy ===== *)
theory ConafStore
  imports Conaf
begin

text \<open>
  The stored CONAF results (\<open>app/conaf_store.py\<close>), the nightly refresh
  (\<open>app/conaf_refresh.py\<close>) and the routes (\<open>routers/conaf.py\<close>). Times are microseconds.
  The tables are those of migrations 0015 and 0016 with their checks; an error leaves them as they
  were. The local hour and day of a time in Chile are parameters.
\<close>

section \<open>Tables\<close>

text \<open>\<open>'n\<close> is the type of a number: \<open>NUMERIC\<close> in the row, \<open>float\<close> in what is read.\<close>

record 'n conaf_record =
  cr_numero :: pystr
  cr_status :: lookup_status
  cr_tipo :: "pystr option"
  cr_estado :: "pystr option"
  cr_superficie :: "'n option"
  cr_ingreso :: "date option"
  cr_resolucion :: "date option"
  cr_returned :: "pystr option"
  cr_checked :: int
  cr_found :: "int option"
  cr_changed :: "int option"

record conaf_cambio =
  cc_numero :: pystr
  cc_before :: "pystr option"
  cc_after :: pystr
  cc_at :: int

record run_counts =
  ct_checked :: nat
  ct_found :: nat
  ct_not_found :: nat
  ct_mismatch :: nat
  ct_unavailable :: nat
  ct_changed :: nat

datatype stop_reason = Stop_unavailable | Stop_limit | Stop_shutdown

record conaf_run =
  rn_id :: int
  rn_started :: int
  rn_finished :: "int option"
  rn_due :: nat
  rn_counts :: run_counts
  rn_stopped :: "stop_reason option"

record conaf_db =
  cd_rows :: "(pystr, rat conaf_record) pydict"
  cd_cambios :: "conaf_cambio list"
  cd_runs :: "conaf_run list"

datatype conaf_error = Check_violation | Numeric_overflow | Bad_number | Busy

definition zero_run :: run_counts where
  "zero_run = \<lparr>ct_checked = 0, ct_found = 0, ct_not_found = 0, ct_mismatch = 0, ct_unavailable = 0, ct_changed = 0\<rparr>"

text \<open>The check of migration 0016 on a number, and \<open>NUMERIC(14, 4)\<close>, which rounds half away from zero.\<close>

definition numero_ok :: "pystr \<Rightarrow> bool" where
  "numero_ok s \<longleftrightarrow> 6 \<le> length s \<and> length s \<le> 9 \<and> list_all ascii_digit s \<or> is_slashed s"

definition numeric_14_4 :: "pydecimal \<Rightarrow> conaf_error + rat" where
  "numeric_14_4 d =
     (let q = dec_rat d * 10 ^ 4;
          r = (if q \<ge> 0 then of_int \<lfloor>q + 1 / 2\<rfloor> else - of_int \<lfloor>1 / 2 - q\<rfloor>) / 10 ^ 4
      in if \<bar>r\<bar> \<ge> 10 ^ 10 then Inl Numeric_overflow else Inr r)"

section \<open>Records\<close>

definition as_record :: "rat conaf_record \<Rightarrow> pyfloat conaf_record" where
  "as_record r = \<lparr>cr_numero = cr_numero r, cr_status = cr_status r, cr_tipo = cr_tipo r, cr_estado = cr_estado r,
     cr_superficie = map_option round_double (cr_superficie r), cr_ingreso = cr_ingreso r,
     cr_resolucion = cr_resolucion r, cr_returned = cr_returned r, cr_checked = cr_checked r,
     cr_found = cr_found r, cr_changed = cr_changed r\<rparr>"

definition read_record :: "conaf_db \<Rightarrow> pystr \<Rightarrow> pyfloat conaf_record option" where
  "read_record db numero = map_option as_record (map_of (cd_rows db) numero)"

definition read_records :: "conaf_db \<Rightarrow> pystr list \<Rightarrow> (pystr, pyfloat conaf_record) pydict" where
  "read_records db numeros =
     (if numeros = [] then []
      else map (\<lambda>(n, r). (n, as_record r)) (filter (\<lambda>(n, _). n \<in> set numeros) (cd_rows db)))"

definition missed_row :: "int \<Rightarrow> conaf_lookup \<Rightarrow> rat conaf_record option \<Rightarrow> rat conaf_record" where
  "missed_row now l existing =
     (let returned = (if cl_status l = Mismatch then cl_returned l else None)
      in case existing of
           None \<Rightarrow> \<lparr>cr_numero = cl_numero l, cr_status = cl_status l, cr_tipo = None, cr_estado = None,
             cr_superficie = None, cr_ingreso = None, cr_resolucion = None, cr_returned = returned,
             cr_checked = now, cr_found = None, cr_changed = None\<rparr>
         | Some r \<Rightarrow> r\<lparr>cr_status := cl_status l, cr_returned := returned, cr_checked := now\<rparr>)"

definition estado_changed :: "conaf_lookup \<Rightarrow> rat conaf_record option \<Rightarrow> bool" where
  "estado_changed l existing \<longleftrightarrow>
     (case existing of
        None \<Rightarrow> False
      | Some r \<Rightarrow> cr_found r \<noteq> None \<and> cr_estado r \<noteq> cl_estado l \<and> cl_estado l \<noteq> None)"

definition found_row :: "int \<Rightarrow> conaf_lookup \<Rightarrow> rat option \<Rightarrow> rat conaf_record option \<Rightarrow> rat conaf_record" where
  "found_row now l superficie existing =
     \<lparr>cr_numero = cl_numero l, cr_status = Found, cr_tipo = cl_tipo l, cr_estado = cl_estado l,
      cr_superficie = superficie, cr_ingreso = cl_ingreso l, cr_resolucion = cl_resolucion l,
      cr_returned = None, cr_checked = now, cr_found = Some now,
      cr_changed = (if estado_changed l existing then Some now
                    else case existing of Some r \<Rightarrow> cr_changed r | None \<Rightarrow> None)\<rparr>"

definition save_lookup :: "int \<Rightarrow> conaf_lookup \<Rightarrow> conaf_db \<Rightarrow> conaf_error + (pyfloat conaf_record \<times> bool) \<times> conaf_db" where
  "save_lookup now l db =
     (let n = cl_numero l; existing = map_of (cd_rows db) n
      in if \<not> numero_ok n then Inl Check_violation
         else if cl_status l \<noteq> Found
         then let r = missed_row now l existing
              in Inr ((as_record r, False), db\<lparr>cd_rows := AList.update n r (cd_rows db)\<rparr>)
         else bind_result (case cl_superficie l of
                             None \<Rightarrow> Inr None | Some d \<Rightarrow> bind_result (numeric_14_4 d) (\<lambda>q. Inr (Some q))) (\<lambda>s.
                let changed = estado_changed l existing; r = found_row now l s existing
                in Inr ((as_record r, changed),
                        db\<lparr>cd_rows := AList.update n r (cd_rows db),
                           cd_cambios := cd_cambios db @
                             (if changed
                              then [\<lparr>cc_numero = n, cc_before = (case existing of Some e \<Rightarrow> cr_estado e | None \<Rightarrow> None),
                                     cc_after = the (cl_estado l), cc_at = now\<rparr>] else [])\<rparr>)))"

section \<open>Ages\<close>

definition seconds :: "int \<Rightarrow> int" where "seconds s = s * 1000000"
definition hours :: "int \<Rightarrow> int" where "hours h = seconds (h * 3600)"

definition refresh_after :: int where "refresh_after = hours 12"
definition retry_unavailable_after :: int where "retry_unavailable_after = seconds (15 * 60)"
definition stale_after :: int where "stale_after = hours 36"
definition changed_badge_for :: int where "changed_badge_for = hours (7 * 24)"
definition nightly_skip :: int where "nightly_skip = hours 20"

definition needs_refresh :: "'n conaf_record option \<Rightarrow> int \<Rightarrow> bool" where
  "needs_refresh r now =
     (case r of
        None \<Rightarrow> True
      | Some r \<Rightarrow> now - cr_checked r > (if cr_status r = Unavailable then retry_unavailable_after else refresh_after))"

definition is_stale :: "'n conaf_record \<Rightarrow> int \<Rightarrow> bool" where
  "is_stale r now \<longleftrightarrow> cr_status r = Unavailable \<or> now - cr_checked r > stale_after"

definition recently_changed :: "'n conaf_record \<Rightarrow> int \<Rightarrow> bool" where
  "recently_changed r now =
     (case cr_changed r of None \<Rightarrow> False | Some t \<Rightarrow> now - t \<le> changed_badge_for)"

section \<open>The numbers of a night\<close>

text \<open>
  \<open>cells\<close> are the two number cells of the rows of the active import, \<open>reports\<close> the numbers
  of the reports that are not archived.
\<close>

definition collect_known_numbers :: "(pystr option \<times> pystr option) list \<Rightarrow> pystr list \<Rightarrow> pystr list" where
  "collect_known_numbers cells reports =
     sort (dedup (concat (map (\<lambda>(a, b). solicitudes_in_cell a @ solicitudes_in_cell b) cells)
                    @ List.map_filter (\<lambda>v. normalize_solicitud (Some v)) reports))"

definition due_numbers :: "conaf_db \<Rightarrow> pystr list \<Rightarrow> int \<Rightarrow> pystr list" where
  "due_numbers db numeros now =
     (let records = read_records db numeros
      in filter (\<lambda>n. case map_of records n of None \<Rightarrow> True | Some r \<Rightarrow> cr_checked r < now - nightly_skip)
           (sort (dedup numeros)))"

definition start_run :: "conaf_db \<Rightarrow> int \<Rightarrow> nat \<Rightarrow> int \<times> conaf_db" where
  "start_run db now due =
     (let i = int (length (cd_runs db)) + 1
      in (i, db\<lparr>cd_runs := cd_runs db @ [\<lparr>rn_id = i, rn_started = now, rn_finished = None, rn_due = due,
                rn_counts = zero_run, rn_stopped = None\<rparr>]\<rparr>))"

definition finish_run :: "conaf_db \<Rightarrow> int \<Rightarrow> int \<Rightarrow> run_counts \<Rightarrow> stop_reason option \<Rightarrow> conaf_db" where
  "finish_run db i now counts stopped =
     db\<lparr>cd_runs := map (\<lambda>r. if rn_id r = i then r\<lparr>rn_finished := Some now, rn_counts := counts, rn_stopped := stopped\<rparr>
                        else r) (cd_runs db)\<rparr>"

text \<open>\<open>ORDER BY started_at DESC, id DESC LIMIT 1\<close>.\<close>

definition latest_run :: "conaf_run list \<Rightarrow> conaf_run option" where
  "latest_run rs = (if rs = [] then None else Some (last (sort_key (\<lambda>r. (rn_started r, rn_id r)) rs)))"

definition read_last_run :: "conaf_db \<Rightarrow> conaf_run option" where
  "read_last_run db = latest_run (cd_runs db)"

section \<open>The nightly refresh\<close>

definition refresh_enabled :: "pystr \<Rightarrow> pystr option \<Rightarrow> bool" where
  "refresh_enabled app_env flag =
     (if app_env = lit ''test'' then False else app_env = lit ''production'' \<or> flag = Some (lit ''1''))"

record chile_clock =
  ck_hour :: "int \<Rightarrow> int"
  ck_day :: "int \<Rightarrow> int"

definition run_after_hour :: int where "run_after_hour = 3"
definition max_per_run :: nat where "max_per_run = 2000"
definition stop_after_unavailable :: nat where "stop_after_unavailable = 5"

definition should_run_now :: "chile_clock \<Rightarrow> int \<Rightarrow> int option \<Rightarrow> bool" where
  "should_run_now ck now last_started =
     (if ck_hour ck now < run_after_hour then False
      else case last_started of None \<Rightarrow> True | Some t \<Rightarrow> ck_day ck t < ck_day ck now)"

definition already_ran_today :: "chile_clock \<Rightarrow> conaf_db \<Rightarrow> int \<Rightarrow> bool" where
  "already_ran_today ck db now =
     (case latest_run (filter (\<lambda>r. rn_finished r \<noteq> None) (cd_runs db)) of
        None \<Rightarrow> False | Some r \<Rightarrow> \<not> should_run_now ck now (Some (rn_started r)))"

text \<open>
  What meets the refresh: the answer for each number (\<open>None\<close>: the client is busy or fails), for
  each turn of the loop the clock and whether the app is shutting down, and the turn before which the
  process is killed, if it is: the start of the run and every saved number are transactions of their
  own, so a killed run keeps them and is never finished.
\<close>

record refresh_env =
  re_answer :: "pystr \<Rightarrow> conaf_lookup option"
  re_clock :: "nat \<Rightarrow> int"
  re_stop :: "nat \<Rightarrow> bool"
  re_killed :: "nat option"

record refresh_state =
  rf_db :: conaf_db
  rf_counts :: run_counts
  rf_streak :: nat
  rf_stopped :: "stop_reason option"

definition count_status :: "lookup_status \<Rightarrow> run_counts \<Rightarrow> run_counts" where
  "count_status st c =
     (case st of
        Found \<Rightarrow> c\<lparr>ct_found := ct_found c + 1\<rparr>
      | Not_found \<Rightarrow> c\<lparr>ct_not_found := ct_not_found c + 1\<rparr>
      | Mismatch \<Rightarrow> c\<lparr>ct_mismatch := ct_mismatch c + 1\<rparr>
      | Unavailable \<Rightarrow> c\<lparr>ct_unavailable := ct_unavailable c + 1\<rparr>)"

definition refresh_one :: "refresh_env \<Rightarrow> nat \<Rightarrow> pystr \<Rightarrow> refresh_state \<Rightarrow> refresh_state" where
  "refresh_one env i numero st =
     (let counts = (rf_counts st)\<lparr>ct_checked := ct_checked (rf_counts st) + 1\<rparr>
      in case (case re_answer env numero of
                 None \<Rightarrow> None
               | Some l \<Rightarrow> (case save_lookup (re_clock env i) l (rf_db st) of
                              Inl _ \<Rightarrow> None | Inr ((_, changed), db) \<Rightarrow> Some (l, changed, db))) of
           None \<Rightarrow> st\<lparr>rf_counts := count_status Unavailable counts\<rparr>
         | Some (l, changed, db) \<Rightarrow>
             let counts = count_status (cl_status l) counts;
                 streak = (if cl_status l = Unavailable then rf_streak st + 1 else 0)
             in st\<lparr>rf_db := db,
                   rf_counts := counts\<lparr>ct_changed := ct_changed counts + (if changed then 1 else 0)\<rparr>,
                   rf_streak := streak,
                   rf_stopped := (if streak \<ge> stop_after_unavailable then Some Stop_unavailable else rf_stopped st)\<rparr>)"

fun refresh_loop :: "refresh_env \<Rightarrow> nat \<Rightarrow> pystr list \<Rightarrow> refresh_state \<Rightarrow> refresh_state" where
  "refresh_loop env i [] st = st"
| "refresh_loop env i (n # ns) st =
     (if re_stop env i then st\<lparr>rf_stopped := Some Stop_shutdown\<rparr>
      else let st = refresh_one env i n st
           in if rf_stopped st \<noteq> None then st else refresh_loop env (Suc i) ns st)"

text \<open>The figures of a run that ends, none of one that is killed, and the tables it leaves.\<close>

definition refresh_due :: "refresh_env \<Rightarrow> pystr list \<Rightarrow> nat \<Rightarrow> int \<Rightarrow> conaf_db
    \<Rightarrow> (run_counts \<times> stop_reason option) option \<times> conaf_db" where
  "refresh_due env known limit now db =
     (let due = due_numbers db known now;
          (i, db) = start_run db now (length due);
          start = \<lparr>rf_db = db, rf_counts = zero_run, rf_streak = 0, rf_stopped = None\<rparr>
      in case re_killed env of
           Some turns \<Rightarrow> (None, rf_db (refresh_loop env 0 (take turns (take limit due)) start))
         | None \<Rightarrow>
             (let st = refresh_loop env 0 (take limit due) start;
                  stopped = (if rf_stopped st = None \<and> length due > limit then Some Stop_limit else rf_stopped st)
              in (Some (rf_counts st, stopped),
                  finish_run (rf_db st) i (re_clock env (length due)) (rf_counts st) stopped)))"

definition run_if_due :: "chile_clock \<Rightarrow> refresh_env \<Rightarrow> pystr list \<Rightarrow> int \<Rightarrow> conaf_db \<Rightarrow> conaf_db" where
  "run_if_due ck env known now db =
     (if ck_hour ck now < run_after_hour then db
      else if already_ran_today ck db now then db
      else snd (refresh_due env known max_per_run now db))"

section \<open>The routes\<close>

definition manual_refresh_every :: int where "manual_refresh_every = seconds 60"

text \<open>\<open>answer\<close> is \<open>None\<close> when the client is busy; \<open>saved_at\<close> is the time of the save.\<close>

definition lookup_and_save :: "conaf_lookup option \<Rightarrow> int \<Rightarrow> pyfloat conaf_record option \<Rightarrow> conaf_db
    \<Rightarrow> conaf_error + pyfloat conaf_record \<times> conaf_db" where
  "lookup_and_save answer saved_at stored db =
     (case answer of
        None \<Rightarrow> (case stored of Some r \<Rightarrow> Inr (r, db) | None \<Rightarrow> Inl Busy)
      | Some l \<Rightarrow> bind_result (save_lookup saved_at l db) (\<lambda>((r, _), db). Inr (r, db)))"

definition get_solicitud :: "(pystr \<Rightarrow> conaf_lookup option) \<Rightarrow> int \<Rightarrow> int \<Rightarrow> pystr \<Rightarrow> conaf_db
    \<Rightarrow> conaf_error + pyfloat conaf_record \<times> conaf_db" where
  "get_solicitud ask now saved_at raw db =
     (case normalize_solicitud (Some raw) of
        None \<Rightarrow> Inl Bad_number
      | Some n \<Rightarrow>
          let r = read_record db n
          in if needs_refresh r now then lookup_and_save (ask n) saved_at r db else Inr (the r, db))"

definition refresh_solicitud :: "(pystr \<Rightarrow> conaf_lookup option) \<Rightarrow> int \<Rightarrow> int \<Rightarrow> pystr \<Rightarrow> conaf_db
    \<Rightarrow> conaf_error + pyfloat conaf_record \<times> conaf_db" where
  "refresh_solicitud ask now saved_at raw db =
     (case normalize_solicitud (Some raw) of
        None \<Rightarrow> Inl Bad_number
      | Some n \<Rightarrow>
          let r = read_record db n
          in if (case r of None \<Rightarrow> True | Some r \<Rightarrow> now - cr_checked r \<ge> manual_refresh_every)
             then lookup_and_save (ask n) saved_at r db else Inr (the r, db))"

definition max_bulk :: nat where "max_bulk = 500"

definition get_solicitudes :: "pystr \<Rightarrow> conaf_db \<Rightarrow> conaf_error + pyfloat conaf_record list" where
  "get_solicitudes numeros db =
     (let raw = filter (\<lambda>v. strip v \<noteq> []) (split_char 44 numeros)
      in if length raw > max_bulk then Inl Bad_number
         else let records = read_records db (List.map_filter (\<lambda>v. normalize_solicitud (Some v)) raw)
              in Inr (map (\<lambda>n. the (map_of records n)) (sort (map fst records))))"

end
