(* ===== verification/ConafFacts.thy ===== *)
theory ConafFacts
  imports ConafStore
begin

text \<open>
  What the CONAF store guarantees: only numbers CONAF answers are kept, a page is read back cell by
  cell, and the stored record is the abstract summary of the history of lookups.
\<close>

section \<open>Numbers\<close>

lemma is_slashed_iff: "is_slashed s \<longleftrightarrow> slashed_parts s"
proof
  assume "is_slashed s"
  then obtain m where "slashed_at s = Some (m, [])"
    by (auto simp: is_slashed_def split: option.splits)
  then show "slashed_parts s" by (simp add: slashed_at_iff)
next
  assume "slashed_parts s"
  then have "slashed_at s = Some (s, [])" by (simp add: slashed_at_iff)
  then show "is_slashed s" by (simp add: is_slashed_def)
qed

lemma not_space: "ascii_digit c \<or> c = 47 \<or> c = 45 \<Longrightarrow> \<not> is_space c \<and> c < 128"
  by (auto simp: ascii_digit_def is_space_def)

lemma strip_solid:
  assumes "\<forall>c \<in> set s. \<not> is_space c"
  shows "strip s = s"
  using assms unfolding strip_def
  by (cases "s = []") (auto intro!: strip_by_fixed)

lemma slashed_chars: "slashed_parts s \<Longrightarrow> c \<in> set s \<Longrightarrow> ascii_digit c \<or> c = 47 \<or> c = 45"
  by (auto simp: slashed_parts_def list_all_iff)

definition canonical :: "pystr \<Rightarrow> bool" where
  "canonical n \<longleftrightarrow> 6 \<le> length n \<and> length n \<le> 9 \<and> list_all ascii_digit n \<or> slashed_parts n"

lemma numero_ok_canonical: "numero_ok n \<longleftrightarrow> canonical n"
  by (simp add: numero_ok_def canonical_def is_slashed_iff)

lemma canonical_fixed:
  assumes "canonical n"
  shows "normalize_solicitud (Some n) = Some n"
proof -
  have chars: "\<forall>c \<in> set n. ascii_digit c \<or> c = 47 \<or> c = 45"
    using assms slashed_chars by (auto simp: canonical_def list_all_iff)
  then have "strip n = n" "is_ascii n" using not_space by (auto intro!: strip_solid simp: is_ascii_def)
  moreover have "slashed_parts n \<Longrightarrow> \<not> is_number n"
    by (auto simp: slashed_parts_def is_number_def list_all_iff ascii_digit_def)
  ultimately show ?thesis
    using assms by (auto simp: normalize_solicitud_def canonical_def is_slashed_iff is_number_def zfill6_def)
qed

lemma normalized_canonical:
  assumes "normalize_solicitud raw = Some n"
  shows "canonical n"
proof -
  obtain r where r: "raw = Some r" using assms by (cases raw) (auto simp: normalize_solicitud_def)
  have "list_all ascii_digit (replicate k 48)" for k by (simp add: list_all_iff ascii_digit_def)
  with assms r show ?thesis
    by (auto simp: normalize_solicitud_def Let_def canonical_def is_slashed_iff is_number_def zfill6_def split: if_splits)
qed

lemma found_slashed: "n \<in> set (find_slashed s) \<Longrightarrow> slashed_parts n"
proof (induction s rule: find_slashed.induct)
  case (1 s)
  then show ?case
    by (subst (asm) (3) find_slashed.simps)
      (auto split: option.splits list.splits simp: slashed_at_iff)
qed

lemma cell_canonical:
  assumes "n \<in> set (solicitudes_in_cell raw)"
  shows "canonical n"
proof -
  obtain r where r: "raw = Some r" using assms by (cases raw) (auto simp: solicitudes_in_cell_def)
  with assms have "n \<in> set (find_slashed r) \<or> normalize_solicitud (Some r) = Some n"
    by (auto simp: solicitudes_in_cell_def split: if_splits option.splits)
  then show ?thesis
    using found_slashed normalized_canonical by (auto simp: canonical_def)
qed

section \<open>Pages\<close>

text \<open>
  The events of a table: rows of cells, with any markup and text that is not part of the table inside
  the cells and between them.
\<close>

definition table_tags :: "pystr list" where
  "table_tags = [lit ''table'', lit ''tr'', lit ''td'', lit ''th'']"

definition inline_event :: "html_event \<Rightarrow> bool" where
  "inline_event e \<longleftrightarrow> (case e of Start_tag t _ \<Rightarrow> t \<notin> set table_tags | End_tag t \<Rightarrow> t \<notin> set table_tags | Char_data _ \<Rightarrow> True)"

definition char_chunks :: "html_event list \<Rightarrow> pystr list" where
  "char_chunks evs = List.map_filter (\<lambda>e. case e of Char_data d \<Rightarrow> Some d | _ \<Rightarrow> None) evs"

record markup_cell =
  mk_gap :: "html_event list"
  mk_tag :: pystr
  mk_attrs :: "(pystr \<times> pystr option) list"
  mk_inner :: "html_event list"

definition cell_ok :: "markup_cell \<Rightarrow> bool" where
  "cell_ok c \<longleftrightarrow> list_all inline_event (mk_gap c) \<and> list_all inline_event (mk_inner c) \<and> mk_tag c \<in> {lit ''td'', lit ''th''}"

definition cell_text :: "markup_cell \<Rightarrow> pystr" where
  "cell_text c = join_space (py_split (concat (char_chunks (mk_inner c))))"

definition cell_events :: "markup_cell \<Rightarrow> html_event list" where
  "cell_events c = mk_gap c @ Start_tag (mk_tag c) (mk_attrs c) # mk_inner c @ [End_tag (mk_tag c)]"

definition row_events :: "markup_cell list \<Rightarrow> html_event list" where
  "row_events cells = Start_tag (lit ''tr'') [] # concat (map cell_events cells) @ [End_tag (lit ''tr'')]"

definition outside_event :: "html_event \<Rightarrow> bool" where
  "outside_event e \<longleftrightarrow> (case e of Start_tag t as \<Rightarrow> t = lit ''table'' \<longrightarrow> lit ''tabla'' \<notin> set (class_words as) | _ \<Rightarrow> True)"

definition page_events :: "html_event list \<Rightarrow> (pystr \<times> pystr option) list \<Rightarrow> markup_cell list list
    \<Rightarrow> html_event list \<Rightarrow> html_event list" where
  "page_events pre as rows post =
     pre @ Start_tag (lit ''table'') as # concat (map row_events rows) @ End_tag (lit ''table'') # post"

lemma outside_events:
  assumes "list_all outside_event evs" "\<not> tp_in_table p" "tp_cell p = None"
  shows "foldl handle_event p evs = p"
  using assms
proof (induction evs)
  case (Cons e evs)
  then have "handle_event p e = p"
    by (cases e) (auto simp: outside_event_def handle_event_def handle_starttag_def handle_endtag_def handle_data_def)
  with Cons show ?case by simp
qed simp

lemma inline_event_step:
  assumes "inline_event e"
  shows "handle_event p e = (case e of Char_data d \<Rightarrow> handle_data d p | _ \<Rightarrow> p)"
  using assms
  by (cases e) (auto simp: inline_event_def table_tags_def handle_event_def handle_starttag_def handle_endtag_def)

lemma gap_events:
  "list_all inline_event evs \<Longrightarrow> tp_cell p = None \<Longrightarrow> foldl handle_event p evs = p"
  by (induction evs) (auto simp: inline_event_step handle_data_def split: html_event.splits)

lemma inner_events:
  "list_all inline_event evs \<Longrightarrow> tp_cell p = Some ds \<Longrightarrow> foldl handle_event p evs = p\<lparr>tp_cell := Some (ds @ char_chunks evs)\<rparr>"
proof (induction evs arbitrary: p ds)
  case (Cons e evs)
  then show ?case
    by (cases e) (auto simp: inline_event_step handle_data_def char_chunks_def List.map_filter_simps)
qed (simp add: char_chunks_def List.map_filter_simps)

lemma cell_events_step:
  assumes "cell_ok c" "tp_in_table p" "\<not> tp_done p" "tp_row p = Some ts" "tp_cell p = None"
  shows "foldl handle_event p (cell_events c) = p\<lparr>tp_row := Some (ts @ [cell_text c])\<rparr>"
proof -
  have tag: "mk_tag c = lit ''td'' \<or> mk_tag c = lit ''th''" using assms(1) by (simp add: cell_ok_def)
  then have start: "handle_event p (Start_tag (mk_tag c) (mk_attrs c)) = p\<lparr>tp_cell := Some []\<rparr>"
    using assms by (auto simp: handle_event_def handle_starttag_def)
  have inner: "foldl handle_event (p\<lparr>tp_cell := Some []\<rparr>) (mk_inner c) = p\<lparr>tp_cell := Some (char_chunks (mk_inner c))\<rparr>"
    using assms(1) by (subst inner_events [where ds = "[]"]) (simp_all add: cell_ok_def)
  have stop: "handle_event (p\<lparr>tp_cell := Some (char_chunks (mk_inner c))\<rparr>) (End_tag (mk_tag c))
      = p\<lparr>tp_row := Some (ts @ [cell_text c])\<rparr>"
    using tag assms by (auto simp: handle_event_def handle_endtag_def cell_text_def)
  show ?thesis
    using assms(1,5) by (simp add: cell_events_def gap_events cell_ok_def start inner stop)
qed

lemma cells_events_step:
  assumes "list_all cell_ok cells" "tp_in_table p" "\<not> tp_done p" "tp_row p = Some ts" "tp_cell p = None"
  shows "foldl handle_event p (concat (map cell_events cells)) = p\<lparr>tp_row := Some (ts @ map cell_text cells)\<rparr>"
  using assms
proof (induction cells arbitrary: p ts)
  case (Cons c cells)
  then show ?case by (simp add: cell_events_step)
qed simp

lemma rows_events_step:
  assumes "list_all (list_all cell_ok) rows" "tp_in_table p" "\<not> tp_done p" "tp_cell p = None" "tp_row p = None"
  shows "foldl handle_event p (concat (map row_events rows)) = p\<lparr>tp_rows := tp_rows p @ map (map cell_text) rows\<rparr>"
  using assms
proof (induction rows arbitrary: p)
  case (Cons row rows)
  have start: "handle_event p (Start_tag (lit ''tr'') []) = p\<lparr>tp_row := Some []\<rparr>"
    using Cons.prems by (simp add: handle_event_def handle_starttag_def)
  have cells: "foldl handle_event (p\<lparr>tp_row := Some []\<rparr>) (concat (map cell_events row)) = p\<lparr>tp_row := Some (map cell_text row)\<rparr>"
    using Cons.prems by (subst cells_events_step [where ts = "[]"]) simp_all
  have stop: "handle_event (p\<lparr>tp_row := Some (map cell_text row)\<rparr>) (End_tag (lit ''tr'')) = p\<lparr>tp_rows := tp_rows p @ [map cell_text row]\<rparr>"
    using Cons.prems by (simp add: handle_event_def handle_endtag_def)
  have row: "foldl handle_event p (row_events row) = p\<lparr>tp_rows := tp_rows p @ [map cell_text row]\<rparr>"
    unfolding row_events_def foldl.simps foldl_append start cells stop ..
  show ?case
    using Cons.prems by (simp add: row Cons.IH)
qed simp

lemma page_rows:
  assumes "list_all outside_event pre" "lit ''tabla'' \<in> set (class_words as)" "list_all (list_all cell_ok) rows"
  shows "tabla_rows (page_events pre as rows post) = map (map cell_text) rows"
proof -
  let ?p = "tabla_init\<lparr>tp_in_table := True\<rparr>"
  let ?q = "?p\<lparr>tp_rows := map (map cell_text) rows, tp_in_table := False, tp_done := True\<rparr>"
  have pre: "foldl handle_event tabla_init pre = tabla_init"
    using assms(1) by (rule outside_events) (simp_all add: tabla_init_def)
  have start: "handle_event tabla_init (Start_tag (lit ''table'') as) = ?p"
    using assms(2) by (simp add: handle_event_def handle_starttag_def tabla_init_def)
  have rows: "foldl handle_event ?p (concat (map row_events rows)) = ?p\<lparr>tp_rows := map (map cell_text) rows\<rparr>"
    using assms(3) by (subst rows_events_step) (simp_all add: tabla_init_def)
  have stop: "handle_event (?p\<lparr>tp_rows := map (map cell_text) rows\<rparr>) (End_tag (lit ''table'')) = ?q"
    by (simp add: handle_event_def handle_endtag_def tabla_init_def)
  have "foldl handle_event ?q post = ?q"
    by (induction post) (auto simp: handle_event_def handle_starttag_def handle_endtag_def handle_data_def tabla_init_def
        split: html_event.splits)
  then show ?thesis
    unfolding tabla_rows_def page_events_def foldl_append foldl.simps pre start rows stop by simp
qed

section \<open>Dates of a cell\<close>

definition slash_date :: "date \<Rightarrow> pystr" where
  "slash_date d = digit2 (d_day d) @ 47 # digit2 (d_month d) @ 47 # digit4 (d_year d)"

lemma split_char_solid: "c \<notin> set a \<Longrightarrow> split_char c a = [a]"
  by (induction a) auto

lemma split_char_append: "c \<notin> set a \<Longrightarrow> split_char c (a @ c # s) = a # split_char c s"
  by (induction a) auto

lemma range_cases:
  "1 \<le> n \<Longrightarrow> n \<le> 31 \<Longrightarrow> n \<in> {1, 2, 3, 4, 5, 6, 7, 8, 9, 10, 11, 12, 13, 14, 15, 16, 17, 18, 19, 20, 21, 22, 23, 24,
     25, 26, 27, 28, 29, 30, 31 :: int}"
  by simp presburger

lemma strptime_digit2:
  assumes "ascii_tables u"
  shows "1 \<le> n \<Longrightarrow> n \<le> 31 \<Longrightarrow> strptime_day u (digit2 n)" and "1 \<le> n \<Longrightarrow> n \<le> 12 \<Longrightarrow> strptime_month (digit2 n)"
proof -
  have digit: "is_digit u c" if "48 \<le> c" "c \<le> 57" for c using digit_iff [OF assms, of c] that by (simp add: ascii_digit_def)
  show "strptime_day u (digit2 n)" if "1 \<le> n" "n \<le> 31"
    using range_cases [OF that] by (auto simp: digit2_def strptime_day_def digit)
  show "strptime_month (digit2 n)" if "1 \<le> n" "n \<le> 12"
    using range_cases [of n] that by (auto simp: digit2_def strptime_month_def)
qed

lemma date_cell_slash:
  assumes "ascii_tables u" "valid_date d"
  shows "date_cell u (slash_date d) = Some d"
proof -
  have "\<forall>c \<in> set (slash_date d). \<not> is_space c"
    by (auto simp: slash_date_def is_space_def dest!: digit_ascii simp: ascii_digit_def)
  then have "strip (slash_date d) = slash_date d" by (rule strip_solid)
  moreover have "47 \<notin> set (digit2 n)" "47 \<notin> set (digit4 n)" for n
    using digit_ascii [of 47 n] by (auto simp: ascii_digit_def)
  ultimately have parts: "split_char 47 (strip (slash_date d)) = [digit2 (d_day d), digit2 (d_month d), digit4 (d_year d)]"
    by (simp add: slash_date_def split_char_append split_char_solid)
  have v: "1 \<le> d_day d" "d_day d \<le> 31" "1 \<le> d_month d" "d_month d \<le> 12" "1 \<le> d_year d" "d_year d \<le> 9999"
    using assms(2) days_in_month_ge(2) [of "d_year d" "d_month d"] by (auto simp: valid_date_def)
  have int: "int_of_digits u (digit2 n) = digits_value 0 (digit2 n)" "int_of_digits u (digit4 n) = digits_value 0 (digit4 n)" for n
    using int_of_ascii_digits [OF assms(1)] digit_ascii by blast+
  have year: "list_all (is_digit u) (digit4 n)" for n
    using ascii_digits [OF assms(1), of "digit4 n"] by (auto simp: list_all_iff)
  show ?thesis
    unfolding date_cell_def parts using assms v
    by (simp add: int digits_value_digit2 digits_value_digit4 strptime_digit2 year)
qed

section \<open>The store as a summary of its history\<close>

definition empty_conaf :: conaf_db where
  "empty_conaf = \<lparr>cd_rows = [], cd_cambios = [], cd_runs = []\<rparr>"

definition save_step :: "conaf_db \<Rightarrow> int \<times> conaf_lookup \<Rightarrow> conaf_error + conaf_db" where
  "save_step db e = bind_result (save_lookup (fst e) (snd e) db) (\<lambda>(_, db). Inr db)"

definition of_number :: "pystr \<Rightarrow> (int \<times> conaf_lookup) list \<Rightarrow> (int \<times> conaf_lookup) list" where
  "of_number n hist = filter (\<lambda>(_, l). cl_numero l = n) hist"

definition founds :: "(int \<times> conaf_lookup) list \<Rightarrow> (int \<times> conaf_lookup) list" where
  "founds hs = filter (\<lambda>(_, l). cl_status l = Found) hs"

definition change_between :: "int \<times> conaf_lookup \<Rightarrow> int \<times> conaf_lookup \<Rightarrow> conaf_cambio list" where
  "change_between a b =
     (if cl_estado (snd a) \<noteq> cl_estado (snd b) \<and> cl_estado (snd b) \<noteq> None
      then [\<lparr>cc_numero = cl_numero (snd b), cc_before = cl_estado (snd a), cc_after = the (cl_estado (snd b)), cc_at = fst b\<rparr>]
      else [])"

fun changes :: "(int \<times> conaf_lookup) list \<Rightarrow> conaf_cambio list" where
  "changes (a # b # fs) = change_between a b @ changes (b # fs)"
| "changes _ = []"

definition stored_superficie :: "conaf_lookup \<Rightarrow> rat option" where
  "stored_superficie l =
     (case cl_superficie l of None \<Rightarrow> None
      | Some d \<Rightarrow> (case numeric_14_4 d of Inr q \<Rightarrow> Some q | Inl _ \<Rightarrow> None))"

definition last_of :: "('a \<Rightarrow> 'b option) \<Rightarrow> 'a list \<Rightarrow> 'b option" where
  "last_of f xs = (if xs = [] then None else f (last xs))"

definition summary :: "pystr \<Rightarrow> (int \<times> conaf_lookup) list \<Rightarrow> rat conaf_record option" where
  "summary n hs =
     (let fs = founds hs
      in last_of (\<lambda>(t, l). Some \<lparr>cr_numero = n, cr_status = cl_status l, cr_tipo = last_of (cl_tipo \<circ> snd) fs,
           cr_estado = last_of (cl_estado \<circ> snd) fs, cr_superficie = last_of (stored_superficie \<circ> snd) fs,
           cr_ingreso = last_of (cl_ingreso \<circ> snd) fs, cr_resolucion = last_of (cl_resolucion \<circ> snd) fs,
           cr_returned = (if cl_status l = Mismatch then cl_returned l else None), cr_checked = t,
           cr_found = last_of (Some \<circ> fst) fs, cr_changed = last_of (Some \<circ> cc_at) (changes fs)\<rparr>) hs)"

lemma changes_snoc: "changes (fs @ [x]) = changes fs @ (if fs = [] then [] else change_between (last fs) x)"
proof (induction fs rule: changes.induct)
  case (1 a b fs)
  then show ?case by (cases fs) simp_all
qed simp_all

lemma last_of_snoc [simp]: "last_of f (xs @ [x]) = f x"
  by (simp add: last_of_def)

lemma last_of_single [simp]: "last_of f [x] = f x"
  by (simp add: last_of_def)

lemma last_of_append: "last_of f (xs @ ys) = (if ys = [] then last_of f xs else last_of f ys)"
  by (simp add: last_of_def)

lemma of_number_snoc: "of_number n (hist @ [(t, l)]) = of_number n hist @ (if cl_numero l = n then [(t, l)] else [])"
  by (simp add: of_number_def)

lemma founds_snoc: "founds (hs @ [(t, l)]) = founds hs @ (if cl_status l = Found then [(t, l)] else [])"
  by (simp add: founds_def)

lemma save_step_Inr: "save_step db e = Inr db' \<longleftrightarrow> (\<exists>r. save_lookup (fst e) (snd e) db = Inr (r, db'))"
  by (auto simp: save_step_def)

text \<open>What a save does to the rows and to the changes.\<close>

lemma save_lookup_result:
  assumes "save_lookup t l db = Inr (r, db')"
  shows "cd_rows db' = AList.update (cl_numero l)
      (if cl_status l = Found then found_row t l (stored_superficie l) (map_of (cd_rows db) (cl_numero l))
       else missed_row t l (map_of (cd_rows db) (cl_numero l))) (cd_rows db)
    \<and> cd_cambios db' = cd_cambios db @
        (if cl_status l = Found \<and> estado_changed l (map_of (cd_rows db) (cl_numero l))
         then [\<lparr>cc_numero = cl_numero l, cc_before = cr_estado (the (map_of (cd_rows db) (cl_numero l))),
                cc_after = the (cl_estado l), cc_at = t\<rparr>] else [])
    \<and> cd_runs db' = cd_runs db \<and> numero_ok (cl_numero l)
    \<and> snd r = (cl_status l = Found \<and> estado_changed l (map_of (cd_rows db) (cl_numero l)))"
  using assms
  by (auto simp: save_lookup_def Let_def stored_superficie_def estado_changed_def split: if_splits option.splits)

text \<open>One more lookup of a number, on the abstract side.\<close>

lemma summary_parts:
  "hs = [] \<Longrightarrow> summary n hs = None"
  "hs \<noteq> [] \<Longrightarrow> \<exists>r. summary n hs = Some r \<and> cr_numero r = n \<and> cr_tipo r = last_of (cl_tipo \<circ> snd) (founds hs)
     \<and> cr_estado r = last_of (cl_estado \<circ> snd) (founds hs)
     \<and> cr_superficie r = last_of (stored_superficie \<circ> snd) (founds hs)
     \<and> cr_ingreso r = last_of (cl_ingreso \<circ> snd) (founds hs) \<and> cr_resolucion r = last_of (cl_resolucion \<circ> snd) (founds hs)
     \<and> cr_found r = last_of (Some \<circ> fst) (founds hs) \<and> cr_changed r = last_of (Some \<circ> cc_at) (changes (founds hs))"
  by (auto simp: summary_def last_of_def Let_def split: prod.splits)

lemma changed_summary:
  "estado_changed l (summary n hs) \<longleftrightarrow>
     founds hs \<noteq> [] \<and> cl_estado (snd (last (founds hs))) \<noteq> cl_estado l \<and> cl_estado l \<noteq> None"
proof (cases "hs = []")
  case False
  from summary_parts(2) [OF this, of n] show ?thesis
    by (cases "founds hs = []") (auto simp: estado_changed_def last_of_def)
qed (simp add: summary_parts estado_changed_def founds_def)

lemma summary_snoc:
  assumes "cl_numero l = n"
  shows "summary n (hs @ [(t, l)])
      = Some (if cl_status l = Found then found_row t l (stored_superficie l) (summary n hs) else missed_row t l (summary n hs))"
    and "cl_status l = Found \<Longrightarrow> changes (founds hs @ [(t, l)]) = changes (founds hs) @
       (if estado_changed l (summary n hs)
        then [\<lparr>cc_numero = n, cc_before = cr_estado (the (summary n hs)), cc_after = the (cl_estado l), cc_at = t\<rparr>] else [])"
proof -
  show changes: "changes (founds hs @ [(t, l)]) = changes (founds hs) @
       (if estado_changed l (summary n hs)
        then [\<lparr>cc_numero = n, cc_before = cr_estado (the (summary n hs)), cc_after = the (cl_estado l), cc_at = t\<rparr>] else [])"
    if "cl_status l = Found"
  proof (cases "hs = []")
    case False
    from summary_parts(2) [OF this, of n] assms show ?thesis
      by (auto simp: changes_snoc changed_summary change_between_def last_of_def)
  qed (simp add: changes_snoc changed_summary founds_def)
  show "summary n (hs @ [(t, l)])
      = Some (if cl_status l = Found then found_row t l (stored_superficie l) (summary n hs) else missed_row t l (summary n hs))"
  proof (cases "hs = []")
    case True
    with assms show ?thesis
      by (simp add: summary_def founds_def found_row_def missed_row_def last_of_def estado_changed_def Let_def)
  next
    case False
    then obtain r where r: "summary n hs = Some r" "cr_numero r = n" "cr_tipo r = last_of (cl_tipo \<circ> snd) (founds hs)"
      "cr_estado r = last_of (cl_estado \<circ> snd) (founds hs)" "cr_superficie r = last_of (stored_superficie \<circ> snd) (founds hs)"
      "cr_ingreso r = last_of (cl_ingreso \<circ> snd) (founds hs)" "cr_resolucion r = last_of (cl_resolucion \<circ> snd) (founds hs)"
      "cr_found r = last_of (Some \<circ> fst) (founds hs)" "cr_changed r = last_of (Some \<circ> cc_at) (changes (founds hs))"
      using summary_parts(2) by blast
    show ?thesis
    proof (cases "cl_status l = Found")
      case True
      with assms r show ?thesis
        unfolding summary_def Let_def last_of_snoc founds_snoc if_P [OF True] changes [OF True]
        by (simp add: found_row_def last_of_append)
    next
      case False
      with assms r show ?thesis
        by (simp add: summary_def Let_def founds_snoc missed_row_def)
    qed
  qed
qed

end
