(* ===== verification/ConafClaims.thy ===== *)
theory ConafClaims
  imports ConafFacts
begin

text \<open>
  The nightly refresh taken step by step, and the properties of the CONAF numbers, pages, store and
  refresh with a concrete run of each.
\<close>

section \<open>One number of the refresh\<close>

definition accounted :: "run_counts \<Rightarrow> bool" where
  "accounted c \<longleftrightarrow> ct_checked c = ct_found c + ct_not_found c + ct_mismatch c + ct_unavailable c \<and> ct_changed c \<le> ct_found c"

lemma count_status_fields [simp]:
  "ct_changed (count_status st c) = ct_changed c" "ct_checked (count_status st c) = ct_checked c"
  by (cases st; simp add: count_status_def)+

lemma accounted_count:
  assumes "accounted c" "b \<longrightarrow> st = Found"
  shows "accounted (count_status st (c\<lparr>ct_checked := ct_checked c + 1\<rparr>))"
    and "accounted ((count_status st (c\<lparr>ct_checked := ct_checked c + 1\<rparr>))\<lparr>ct_changed := ct_changed c + (if b then 1 else 0)\<rparr>)"
  using assms by (cases st; auto simp: accounted_def count_status_def)+

lemma refresh_one_step:
  assumes "accounted (rf_counts st)"
  shows "accounted (rf_counts (refresh_one env i n st)) \<and> ct_checked (rf_counts (refresh_one env i n st)) = ct_checked (rf_counts st) + 1
    \<and> cd_runs (rf_db (refresh_one env i n st)) = cd_runs (rf_db st)
    \<and> length (cd_cambios (rf_db (refresh_one env i n st))) + ct_changed (rf_counts st)
        = length (cd_cambios (rf_db st)) + ct_changed (rf_counts (refresh_one env i n st))
    \<and> rf_stopped (refresh_one env i n st) \<in> {rf_stopped st, Some Stop_unavailable}"
proof -
  let ?c = "(rf_counts st)\<lparr>ct_checked := ct_checked (rf_counts st) + 1\<rparr>"
  define saved where "saved = (case re_answer env n of None \<Rightarrow> None
    | Some l \<Rightarrow> (case save_lookup (re_clock env i) l (rf_db st) of Inl _ \<Rightarrow> None | Inr ((_, changed), db) \<Rightarrow> Some (l, changed, db)))"
  show ?thesis
  proof (cases saved)
    case None
    then have "refresh_one env i n st = st\<lparr>rf_counts := count_status Unavailable ?c\<rparr>"
      by (simp add: refresh_one_def saved_def Let_def)
    with accounted_count(1) [OF assms, of False Unavailable] show ?thesis by simp
  next
    case (Some s)
    obtain l changed db where s: "s = (l, changed, db)" by (cases s)
    with Some obtain r where "save_lookup (re_clock env i) l (rf_db st) = Inr ((r, changed), db)"
      by (auto simp: saved_def split: option.splits sum.splits)
    note save = save_lookup_result [OF this]
    with accounted_count(2) [OF assms, of changed "cl_status l"] Some s show ?thesis
      by (auto simp: refresh_one_def saved_def Let_def)
  qed
qed

lemma refresh_loop_counts:
  assumes "accounted (rf_counts st)"
  shows "accounted (rf_counts (refresh_loop env i ns st))
    \<and> ct_checked (rf_counts (refresh_loop env i ns st)) \<le> ct_checked (rf_counts st) + length ns
    \<and> cd_runs (rf_db (refresh_loop env i ns st)) = cd_runs (rf_db st)
    \<and> length (cd_cambios (rf_db (refresh_loop env i ns st))) + ct_changed (rf_counts st)
        = length (cd_cambios (rf_db st)) + ct_changed (rf_counts (refresh_loop env i ns st))
    \<and> (rf_stopped (refresh_loop env i ns st) = None \<longrightarrow>
         ct_checked (rf_counts (refresh_loop env i ns st)) = ct_checked (rf_counts st) + length ns)"
  using assms
proof (induction ns arbitrary: i st)
  case (Cons n ns)
  note one = refresh_one_step [OF Cons.prems, of env i n]
  note rest = Cons.IH [of "refresh_one env i n st" "Suc i"]
  show ?case
  proof (cases "re_stop env i \<or> rf_stopped (refresh_one env i n st) \<noteq> None")
    case True
    with one Cons.prems show ?thesis by (auto simp: Let_def)
  next
    case False
    with one rest show ?thesis by (simp add: Let_def)
  qed
qed simp

section \<open>What the refresh has checked\<close>

definition fresh :: "int \<Rightarrow> conaf_db \<Rightarrow> pystr \<Rightarrow> bool" where
  "fresh now db n \<longleftrightarrow> (\<exists>r. map_of (cd_rows db) n = Some r \<and> cr_checked r \<ge> now)"

definition storable :: "conaf_lookup \<Rightarrow> bool" where
  "storable l \<longleftrightarrow> (\<forall>d. cl_superficie l = Some d \<longrightarrow> (\<exists>q. numeric_14_4 d = Inr q))"

definition answered :: "refresh_env \<Rightarrow> pystr \<Rightarrow> bool" where
  "answered env n \<longleftrightarrow> numero_ok n \<and> (\<exists>l. re_answer env n = Some l \<and> cl_numero l = n \<and> storable l)"

lemma save_iff:
  "(\<exists>r db'. save_lookup t l db = Inr (r, db')) \<longleftrightarrow> numero_ok (cl_numero l) \<and> (cl_status l = Found \<longrightarrow> storable l)"
proof (cases "cl_superficie l")
  case (Some d)
  then show ?thesis by (cases "numeric_14_4 d") (auto simp: save_lookup_def storable_def Let_def)
qed (auto simp: save_lookup_def storable_def Let_def)

lemma save_total:
  assumes "numero_ok (cl_numero l)" "storable l"
  shows "\<exists>r db'. save_lookup t l db = Inr (r, db')"
  using save_iff assms by blast

lemma refresh_one_fresh:
  assumes "answered env n" "re_clock env i \<ge> now"
  shows "fresh now (rf_db (refresh_one env i n st)) n
    \<and> (\<forall>m. m \<noteq> n \<longrightarrow> map_of (cd_rows (rf_db (refresh_one env i n st))) m = map_of (cd_rows (rf_db st)) m)"
proof -
  obtain l where l: "re_answer env n = Some l" "cl_numero l = n" "storable l" "numero_ok n"
    using assms(1) by (auto simp: answered_def)
  obtain r db' where save: "save_lookup (re_clock env i) l (rf_db st) = Inr (r, db')"
    using save_total [of l "re_clock env i" "rf_db st"] l by blast
  have db: "rf_db (refresh_one env i n st) = db'"
    using l(1) save by (cases r) (simp add: refresh_one_def Let_def)
  show ?thesis
    using save_lookup_result [OF save] assms(2) unfolding db fresh_def
    by (auto simp: l(2) update_conv' found_row_def missed_row_def split: option.splits)
qed

lemma refresh_loop_fresh:
  assumes "\<forall>n \<in> set ns. answered env n" "\<forall>i. re_clock env i \<ge> now" "rf_stopped (refresh_loop env i ns st) = None"
  shows "(\<forall>n \<in> set ns. fresh now (rf_db (refresh_loop env i ns st)) n)
    \<and> (\<forall>m. fresh now (rf_db st) m \<longrightarrow> fresh now (rf_db (refresh_loop env i ns st)) m)
    \<and> (\<forall>m. m \<notin> set ns \<longrightarrow> map_of (cd_rows (rf_db (refresh_loop env i ns st))) m = map_of (cd_rows (rf_db st)) m)"
  using assms
proof (induction ns arbitrary: i st)
  case (Cons n ns)
  let ?st = "refresh_one env i n st"
  have go: "refresh_loop env i (n # ns) st = refresh_loop env (Suc i) ns ?st" "\<not> re_stop env i"
    using Cons.prems(3) by (auto simp: Let_def split: if_splits)
  have one: "fresh now (rf_db ?st) n" "\<forall>m. m \<noteq> n \<longrightarrow> map_of (cd_rows (rf_db ?st)) m = map_of (cd_rows (rf_db st)) m"
    using refresh_one_fresh [of env n now i st] Cons.prems(1,2) by auto
  have rest: "(\<forall>n \<in> set ns. fresh now (rf_db (refresh_loop env (Suc i) ns ?st)) n)
    \<and> (\<forall>m. fresh now (rf_db ?st) m \<longrightarrow> fresh now (rf_db (refresh_loop env (Suc i) ns ?st)) m)
    \<and> (\<forall>m. m \<notin> set ns \<longrightarrow> map_of (cd_rows (rf_db (refresh_loop env (Suc i) ns ?st))) m = map_of (cd_rows (rf_db ?st)) m)"
    using Cons.IH [of "Suc i" ?st] Cons.prems go by auto
  have keep: "fresh now (rf_db ?st) m" if "fresh now (rf_db st) m" for m
    using one that by (cases "m = n") (auto simp: fresh_def)
  show ?case unfolding go(1) using rest one keep by auto
qed simp

lemma map_of_filter_keys: "map_of (filter (\<lambda>(k, _). k \<in> S) d) n = (if n \<in> S then map_of d n else None)"
  by (induction d) auto

lemma due_iff:
  "n \<in> set (due_numbers db known now) \<longleftrightarrow>
     n \<in> set known \<and> (case map_of (cd_rows db) n of None \<Rightarrow> True | Some r \<Rightarrow> cr_checked r < now - nightly_skip)"
  by (cases "known = []")
    (auto simp: due_numbers_def read_records_def map_of_map_snd map_of_filter_keys as_record_def Let_def split: option.splits)

section \<open>The outcomes of a run\<close>

text \<open>
  What a turn on a number comes to: the status of the answer when it is saved, nothing when the client
  is busy or fails or the row is refused.
\<close>

definition outcome :: "refresh_env \<Rightarrow> pystr \<Rightarrow> lookup_status option" where
  "outcome env n =
     (case re_answer env n of
        None \<Rightarrow> None
      | Some l \<Rightarrow> (if numero_ok (cl_numero l) \<and> (cl_status l = Found \<longrightarrow> storable l) then Some (cl_status l) else None))"

text \<open>CONAF is taken to be down: the last five answers are all unavailable.\<close>

definition gave_up :: "lookup_status option list \<Rightarrow> bool" where
  "gave_up os \<longleftrightarrow> (\<exists>ys. List.map_filter (\<lambda>x. x) os = ys @ replicate 5 Unavailable)"

definition streak_of :: "lookup_status option list \<Rightarrow> nat" where
  "streak_of os = length (takeWhile (\<lambda>s. s = Unavailable) (rev (List.map_filter (\<lambda>x. x) os)))"

lemma map_filter_snoc: "List.map_filter f (xs @ [x]) = List.map_filter f xs @ (case f x of None \<Rightarrow> [] | Some y \<Rightarrow> [y])"
  by (simp add: List.map_filter_def split: option.split)

lemma streak_snoc:
  "streak_of [] = 0"
  "streak_of (os @ [x]) = (case x of None \<Rightarrow> streak_of os | Some s \<Rightarrow> if s = Unavailable then streak_of os + 1 else 0)"
  by (simp_all add: streak_of_def map_filter_snoc List.map_filter_def split: option.split)

lemma gave_up_streak: "gave_up os \<longleftrightarrow> 5 \<le> streak_of os"
proof -
  have "(\<exists>ys. xs = ys @ replicate 5 a) \<longleftrightarrow> 5 \<le> length (takeWhile (\<lambda>s. s = a) (rev xs))" for xs :: "lookup_status list" and a
  proof
    assume "\<exists>ys. xs = ys @ replicate 5 a"
    then obtain ys where "rev xs = replicate 5 a @ rev ys" by auto
    then show "5 \<le> length (takeWhile (\<lambda>s. s = a) (rev xs))" by (simp add: takeWhile_append)
  next
    assume n: "5 \<le> length (takeWhile (\<lambda>s. s = a) (rev xs))"
    define m where "m = length (takeWhile (\<lambda>s. s = a) (rev xs))"
    have "takeWhile (\<lambda>s. s = a) (rev xs) = replicate m a" by (rule replicate_eqI) (auto simp: m_def dest: set_takeWhileD)
    then have "rev xs = replicate m a @ dropWhile (\<lambda>s. s = a) (rev xs)" by (metis takeWhile_dropWhile_id)
    then have "xs = rev (dropWhile (\<lambda>s. s = a) (rev xs)) @ replicate m a" by (metis rev_append rev_replicate rev_rev_ident)
    moreover have "replicate m a = replicate (m - 5) a @ replicate 5 a"
      using n unfolding m_def [symmetric] by (simp flip: replicate_add)
    ultimately have "xs = (rev (dropWhile (\<lambda>s. s = a) (rev xs)) @ replicate (m - 5) a) @ replicate 5 a" by (metis append_assoc)
    then show "\<exists>ys. xs = ys @ replicate 5 a" by blast
  qed
  then show ?thesis by (simp add: gave_up_def streak_of_def)
qed

text \<open>The counts and the streak of a state are those of the outcomes so far.\<close>

definition describes :: "lookup_status option list \<Rightarrow> refresh_state \<Rightarrow> bool" where
  "describes os st \<longleftrightarrow> ct_checked (rf_counts st) = length os
     \<and> ct_found (rf_counts st) = count_list os (Some Found) \<and> ct_not_found (rf_counts st) = count_list os (Some Not_found)
     \<and> ct_mismatch (rf_counts st) = count_list os (Some Mismatch)
     \<and> ct_unavailable (rf_counts st) = count_list os (Some Unavailable) + count_list os None
     \<and> rf_streak st = streak_of os"

lemma refresh_one_outcome:
  assumes "describes os st"
  shows "describes (os @ [outcome env n]) (refresh_one env i n st)
    \<and> (rf_stopped st = None \<and> streak_of os < 5 \<longrightarrow>
        rf_stopped (refresh_one env i n st) = (if streak_of (os @ [outcome env n]) \<ge> 5 then Some Stop_unavailable else None))"
proof -
  define saved where "saved = (case re_answer env n of None \<Rightarrow> None
    | Some l \<Rightarrow> (case save_lookup (re_clock env i) l (rf_db st) of Inl _ \<Rightarrow> None | Inr ((_, changed), db) \<Rightarrow> Some (l, changed, db)))"
  show ?thesis
  proof (cases saved)
    case None
    then have o: "outcome env n = None"
      using save_iff [of "re_clock env i" _ "rf_db st"] by (force simp: saved_def outcome_def split: option.splits sum.splits)
    from None have "refresh_one env i n st = st\<lparr>rf_counts := count_status Unavailable
        ((rf_counts st)\<lparr>ct_checked := ct_checked (rf_counts st) + 1\<rparr>)\<rparr>"
      by (simp add: refresh_one_def saved_def Let_def)
    with assms show ?thesis by (simp add: describes_def o streak_snoc count_status_def)
  next
    case (Some s)
    obtain l changed db where s: "s = (l, changed, db)" by (cases s)
    with Some obtain r where a: "re_answer env n = Some l" "save_lookup (re_clock env i) l (rf_db st) = Inr ((r, changed), db)"
      by (auto simp: saved_def split: option.splits sum.splits)
    then have "numero_ok (cl_numero l) \<and> (cl_status l = Found \<longrightarrow> storable l)" using save_iff by blast
    then have o: "outcome env n = Some (cl_status l)" by (simp add: outcome_def a(1))
    from Some s assms show ?thesis
      by (cases "cl_status l")
        (auto simp: refresh_one_def saved_def Let_def describes_def o streak_snoc count_status_def stop_after_unavailable_def)
  qed
qed

lemma refresh_loop_outcomes:
  assumes "describes os st" "rf_stopped st = None" "streak_of os < 5"
  shows "\<exists>k \<le> length ns. describes (os @ map (outcome env) (take k ns)) (refresh_loop env i ns st)
    \<and> (\<forall>m < k. \<not> re_stop env (i + m) \<and> streak_of (os @ map (outcome env) (take m ns)) < 5)
    \<and> rf_stopped (refresh_loop env i ns st) =
        (if streak_of (os @ map (outcome env) (take k ns)) \<ge> 5 then Some Stop_unavailable
         else if k < length ns then Some Stop_shutdown else None)
    \<and> (streak_of (os @ map (outcome env) (take k ns)) < 5 \<and> k < length ns \<longrightarrow> re_stop env (i + k))"
  using assms
proof (induction ns arbitrary: i st os)
  case (Cons n ns)
  let ?st = "refresh_one env i n st" and ?os = "os @ [outcome env n]"
  note one = refresh_one_outcome [OF Cons.prems(1), of env n i]
  consider (stop) "re_stop env i" | (down) "\<not> re_stop env i" "streak_of ?os \<ge> 5" | (go) "\<not> re_stop env i" "streak_of ?os < 5"
    by linarith
  then show ?case
  proof cases
    case stop
    with Cons.prems show ?thesis by (intro exI [of _ 0]) (simp add: describes_def)
  next
    case down
    with one Cons.prems show ?thesis by (intro exI [of _ 1]) (simp add: Let_def)
  next
    case go
    with one Cons.prems have st: "rf_stopped ?st = None" "describes ?os ?st" by simp_all
    with go have loop: "refresh_loop env i (n # ns) st = refresh_loop env (Suc i) ns ?st" by (simp add: Let_def)
    from Cons.IH [OF st(2,1) go(2), of "Suc i"] obtain k where k: "k \<le> length ns"
      "describes (?os @ map (outcome env) (take k ns)) (refresh_loop env (Suc i) ns ?st)"
      "\<forall>m < k. \<not> re_stop env (Suc i + m) \<and> streak_of (?os @ map (outcome env) (take m ns)) < 5"
      "rf_stopped (refresh_loop env (Suc i) ns ?st) = (if streak_of (?os @ map (outcome env) (take k ns)) \<ge> 5
         then Some Stop_unavailable else if k < length ns then Some Stop_shutdown else None)"
      "streak_of (?os @ map (outcome env) (take k ns)) < 5 \<and> k < length ns \<longrightarrow> re_stop env (Suc i + k)"
      by blast
    have "\<not> re_stop env (i + m) \<and> streak_of (os @ map (outcome env) (take m (n # ns))) < 5" if "m < Suc k" for m
      using k(3) go Cons.prems(3) that by (cases m) simp_all
    with k show ?thesis unfolding loop by (intro exI [of _ "Suc k"]) simp
  qed
qed simp

section \<open>One night\<close>

text \<open>The refresh, taken apart.\<close>

lemma refresh_due_parts:
  assumes "refresh_due env known limit now db = (Some (c, stopped), db')"
  shows "\<exists>st. st = refresh_loop env 0 (take limit (due_numbers db known now))
        \<lparr>rf_db = snd (start_run db now (length (due_numbers db known now))), rf_counts = zero_run, rf_streak = 0, rf_stopped = None\<rparr>
    \<and> c = rf_counts st
    \<and> stopped = (if rf_stopped st = None \<and> length (due_numbers db known now) > limit then Some Stop_limit else rf_stopped st)
    \<and> db' = finish_run (rf_db st) (int (length (cd_runs db)) + 1) (re_clock env (length (due_numbers db known now))) c stopped"
  using assms by (auto simp: refresh_due_def start_run_def Let_def split: option.splits)

lemma start_run_fields:
  "cd_rows (snd (start_run db now due)) = cd_rows db" "cd_cambios (snd (start_run db now due)) = cd_cambios db"
  "cd_runs (snd (start_run db now due)) = cd_runs db @ [\<lparr>rn_id = int (length (cd_runs db)) + 1, rn_started = now,
     rn_finished = None, rn_due = due, rn_counts = zero_run, rn_stopped = None\<rparr>]"
  by (simp_all add: start_run_def Let_def)

lemma finish_run_fields:
  "cd_rows (finish_run db i now c s) = cd_rows db" "cd_cambios (finish_run db i now c s) = cd_cambios db"
  by (simp_all add: finish_run_def)

lemma refresh_due_run:
  assumes "refresh_due env known limit now db = (Some (c, stopped), db')"
  shows "cd_runs db' = map (\<lambda>r. if rn_id r = int (length (cd_runs db)) + 1
           then r\<lparr>rn_finished := Some (re_clock env (length (due_numbers db known now))), rn_counts := c, rn_stopped := stopped\<rparr>
           else r) (cd_runs db) @
      [\<lparr>rn_id = int (length (cd_runs db)) + 1, rn_started = now,
        rn_finished = Some (re_clock env (length (due_numbers db known now))),
        rn_due = length (due_numbers db known now), rn_counts = c, rn_stopped = stopped\<rparr>]"
proof -
  have "accounted zero_run" by (simp add: accounted_def zero_run_def)
  with refresh_due_parts [OF assms] show ?thesis
    using refresh_loop_counts [of "\<lparr>rf_db = snd (start_run db now (length (due_numbers db known now))), rf_counts = zero_run,
      rf_streak = 0, rf_stopped = None\<rparr>" env 0 "take limit (due_numbers db known now)"]
    by (auto simp: finish_run_def start_run_fields)
qed

text \<open>A killed run is left as it was started.\<close>

lemma refresh_due_killed:
  assumes "refresh_due env known limit now db = (None, db')"
  shows "re_killed env \<noteq> None \<and> cd_runs db' = cd_runs db @ [\<lparr>rn_id = int (length (cd_runs db)) + 1, rn_started = now,
     rn_finished = None, rn_due = length (due_numbers db known now), rn_counts = zero_run, rn_stopped = None\<rparr>]"
proof -
  obtain k where k: "re_killed env = Some k" using assms by (auto simp: refresh_due_def Let_def split: option.splits prod.splits)
  have "accounted zero_run" by (simp add: accounted_def zero_run_def)
  with k assms show ?thesis
    using refresh_loop_counts [of "\<lparr>rf_db = snd (start_run db now (length (due_numbers db known now))), rf_counts = zero_run,
      rf_streak = 0, rf_stopped = None\<rparr>" env 0 "take k (take limit (due_numbers db known now))"]
    by (auto simp: refresh_due_def Let_def start_run_def)
qed

section \<open>Every night\<close>

definition wakes :: "chile_clock \<Rightarrow> (int \<times> refresh_env \<times> pystr list) list \<Rightarrow> conaf_db \<Rightarrow> conaf_db" where
  "wakes ck evs db = foldl (\<lambda>db (now, env, known). run_if_due ck env known now db) db evs"

definition finished_runs :: "conaf_db \<Rightarrow> conaf_run list" where
  "finished_runs db = filter (\<lambda>r. rn_finished r \<noteq> None) (cd_runs db)"

definition nights_ok :: "chile_clock \<Rightarrow> int \<Rightarrow> conaf_db \<Rightarrow> bool" where
  "nights_ok ck now db \<longleftrightarrow>
     (\<forall>r \<in> set (cd_runs db). rn_started r \<le> now \<and> ck_hour ck (rn_started r) \<ge> run_after_hour)
     \<and> map rn_id (cd_runs db) = map (\<lambda>i. int i + 1) [0..<length (cd_runs db)]
     \<and> sorted_wrt (\<lambda>r s. ck_day ck (rn_started r) < ck_day ck (rn_started s)) (finished_runs db)"

definition days_forward :: "chile_clock \<Rightarrow> bool" where
  "days_forward ck \<longleftrightarrow> (\<forall>a b. a \<le> b \<longrightarrow> ck_day ck a \<le> ck_day ck b)"

text \<open>The finished run read as the latest is the last of the table.\<close>

lemma latest_run_last:
  assumes "nights_ok ck now db" "days_forward ck" "finished_runs db \<noteq> []"
  shows "latest_run (finished_runs db) = Some (last (finished_runs db))"
proof -
  have less: "rn_started r < rn_started s" if "ck_day ck (rn_started r) < ck_day ck (rn_started s)" for r s
    using assms(2) that unfolding days_forward_def by (metis not_le)
  have "sorted_wrt (\<lambda>r s. ck_day ck (rn_started r) < ck_day ck (rn_started s)) (finished_runs db)"
    using assms(1) by (simp add: nights_ok_def)
  then have "sorted_wrt (\<lambda>r s. rn_started r < rn_started s) (finished_runs db)"
    by (rule sorted_wrt_mono_rel [rotated]) (rule less)
  then have "sorted (map (\<lambda>r. (rn_started r, rn_id r)) (finished_runs db))"
    unfolding sorted_map by (rule sorted_wrt_mono_rel [rotated]) simp
  then have "sort_key (\<lambda>r. (rn_started r, rn_id r)) (finished_runs db) = finished_runs db" by (rule sort_key_id_if_sorted)
  then show ?thesis using assms(3) by (simp add: latest_run_def)
qed

lemma sorted_map_last: "sorted (map f xs) \<Longrightarrow> x \<in> set xs \<Longrightarrow> f x \<le> f (last xs)"
  by (induction xs) (auto split: if_splits)

text \<open>The run a wake-up started, and what it leaves of its day.\<close>

definition started_at :: "int \<Rightarrow> refresh_env \<Rightarrow> conaf_run \<Rightarrow> bool" where
  "started_at now env r \<longleftrightarrow> rn_started r = now \<and> (rn_finished r = None \<longleftrightarrow> re_killed env \<noteq> None)"

definition day_ran :: "chile_clock \<Rightarrow> int \<Rightarrow> refresh_env \<Rightarrow> conaf_run list \<Rightarrow> bool" where
  "day_ran ck now env runs \<longleftrightarrow> (\<exists>r \<in> set runs. ck_day ck (rn_started r) = ck_day ck now
     \<and> (rn_finished r = None \<longrightarrow> started_at now env r))"

lemma day_ran_mono: "day_ran ck now env runs \<Longrightarrow> set runs \<subseteq> set runs' \<Longrightarrow> day_ran ck now env runs'"
  unfolding day_ran_def by (rule bexE, assumption, rule bexI, assumption, erule (1) subsetD)

text \<open>What one wake-up adds to the runs: nothing, or one run started then.\<close>

lemma run_if_due_adds:
  assumes "nights_ok ck before db"
  shows "(cd_runs (run_if_due ck env known now db) = cd_runs db
       \<and> (ck_hour ck now < run_after_hour \<or> already_ran_today ck db now))
    \<or> (\<exists>r. cd_runs (run_if_due ck env known now db) = cd_runs db @ [r] \<and> started_at now env r
         \<and> rn_id r = int (length (cd_runs db)) + 1
         \<and> ck_hour ck now \<ge> run_after_hour \<and> \<not> already_ran_today ck db now)"
proof (cases "ck_hour ck now < run_after_hour \<or> already_ran_today ck db now")
  case True
  then show ?thesis by (auto simp: run_if_due_def)
next
  case False
  obtain res db' where run: "refresh_due env known max_per_run now db = (res, db')" by (metis prod.collapse)
  with False have db': "run_if_due ck env known now db = db'" by (simp add: run_if_due_def)
  show ?thesis
  proof (cases res)
    case None
    with refresh_due_killed [of env known max_per_run now db db'] run False show ?thesis unfolding db' by (auto simp: started_at_def)
  next
    case (Some p)
    obtain c s where p: "p = (c, s)" by (cases p)
    then have kill: "re_killed env = None" using run Some by (auto simp: refresh_due_def Let_def split: option.splits prod.splits)
    have "rn_id r \<noteq> int (length (cd_runs db)) + 1" if "r \<in> set (cd_runs db)" for r
    proof -
      have "rn_id r \<in> set (map rn_id (cd_runs db))" using that by simp
      also have "map rn_id (cd_runs db) = map (\<lambda>i. int i + 1) [0..<length (cd_runs db)]" using assms by (simp add: nights_ok_def)
      finally show ?thesis by auto
    qed
    then show ?thesis using refresh_due_run [OF run [unfolded Some p]] False kill unfolding db' by (simp add: map_idI started_at_def)
  qed
qed

lemma run_if_due_night:
  assumes ok: "nights_ok ck before db" and mono: "days_forward ck" and now: "before \<le> now"
  shows "nights_ok ck now (run_if_due ck env known now db)"
    and "ck_hour ck now \<ge> run_after_hour \<Longrightarrow> day_ran ck now env (cd_runs (run_if_due ck env known now db))"
proof -
  let ?db = "run_if_due ck env known now db"
  have fin: "rn_finished r \<noteq> None" "r \<in> set (cd_runs db)" if "r \<in> set (finished_runs db)" for r
    using that by (simp_all add: finished_runs_def)
  have before: "ck_day ck (rn_started r) \<le> ck_day ck now" if "r \<in> set (cd_runs db)" for r
    using ok mono now that unfolding nights_ok_def days_forward_def by (meson order.trans)
  have ran: "\<exists>r \<in> set (finished_runs db). ck_day ck (rn_started r) = ck_day ck now"
    if h: "ck_hour ck now \<ge> run_after_hour" "already_ran_today ck db now"
  proof -
    have ne: "finished_runs db \<noteq> []" using h(2) by (auto simp: already_ran_today_def latest_run_def finished_runs_def)
    have "ck_day ck now \<le> ck_day ck (rn_started (last (finished_runs db)))"
      using h latest_run_last [OF ok mono ne] by (simp add: already_ran_today_def should_run_now_def finished_runs_def)
    moreover note before [OF fin(2) [OF last_in_set [OF ne]]]
    ultimately show ?thesis using last_in_set [OF ne] by (intro bexI [of _ "last (finished_runs db)"]) simp_all
  qed
  have earlier: "ck_day ck (rn_started r) < ck_day ck now"
    if h: "ck_hour ck now \<ge> run_after_hour" "\<not> already_ran_today ck db now" and r: "r \<in> set (finished_runs db)" for r
  proof -
    have ne: "finished_runs db \<noteq> []" using r by auto
    have last: "ck_day ck (rn_started (last (finished_runs db))) < ck_day ck now"
      using h latest_run_last [OF ok mono ne] by (auto simp: already_ran_today_def should_run_now_def finished_runs_def split: if_split_asm)
    have "sorted_wrt (\<lambda>r s. ck_day ck (rn_started r) < ck_day ck (rn_started s)) (finished_runs db)"
      using ok by (simp add: nights_ok_def)
    then have "sorted (map (\<lambda>r. ck_day ck (rn_started r)) (finished_runs db))"
      unfolding sorted_map by (rule sorted_wrt_mono_rel [rotated]) simp
    then have "ck_day ck (rn_started r) \<le> ck_day ck (rn_started (last (finished_runs db)))"
      using r by (rule sorted_map_last [where f = "\<lambda>r. ck_day ck (rn_started r)"])
    with last show ?thesis by simp
  qed
  note adds = run_if_due_adds [OF ok, of env known now]
  show "nights_ok ck now ?db" using adds
  proof (elim disjE exE)
    assume "cd_runs ?db = cd_runs db \<and> (ck_hour ck now < run_after_hour \<or> already_ran_today ck db now)"
    with ok now show ?thesis by (auto simp: nights_ok_def finished_runs_def intro: order.trans)
  next
    fix r assume r: "cd_runs ?db = cd_runs db @ [r] \<and> started_at now env r \<and> rn_id r = int (length (cd_runs db)) + 1
      \<and> ck_hour ck now \<ge> run_after_hour \<and> \<not> already_ran_today ck db now"
    then have now': "rn_started r = now" by (simp add: started_at_def)
    from r have "finished_runs ?db = finished_runs db @ (if rn_finished r = None then [] else [r])"
      by (simp add: finished_runs_def)
    with ok now r now' earlier show ?thesis by (auto simp: nights_ok_def sorted_wrt_append intro: order.trans)
  qed
  show "day_ran ck now env (cd_runs ?db)" if h: "ck_hour ck now \<ge> run_after_hour"
  proof (cases "already_ran_today ck db now")
    case True
    with adds have "cd_runs ?db = cd_runs db" by blast
    moreover obtain r where "r \<in> set (finished_runs db)" "ck_day ck (rn_started r) = ck_day ck now" using ran [OF h True] by blast
    moreover have "rn_finished r \<noteq> None" "r \<in> set (cd_runs db)" by (rule fin [OF calculation(2)])+
    ultimately show ?thesis unfolding day_ran_def by (intro bexI [of _ r]) auto
  next
    case False
    with adds h obtain r where "cd_runs ?db = cd_runs db @ [r]" "started_at now env r" unfolding not_less [symmetric] by blast
    then show ?thesis unfolding day_ran_def by (intro bexI [of _ r]) (auto simp: started_at_def)
  qed
qed

lemma wakes_Cons: "wakes ck (e # evs) db = wakes ck evs (run_if_due ck (fst (snd e)) (snd (snd e)) (fst e) db)"
  by (simp add: wakes_def case_prod_unfold)

text \<open>Runs are only added, each by the wake-up that started it; a wake-up past three leaves its day run.\<close>

lemma wakes_runs:
  assumes "days_forward ck" "sorted (before # map fst evs)" "nights_ok ck before db"
  shows "set (cd_runs db) \<subseteq> set (cd_runs (wakes ck evs db))
    \<and> (\<forall>r \<in> set (cd_runs (wakes ck evs db)). r \<in> set (cd_runs db) \<or> (\<exists>e \<in> set evs. started_at (fst e) (fst (snd e)) r))
    \<and> (\<exists>now. nights_ok ck now (wakes ck evs db))
    \<and> (\<forall>e \<in> set evs. ck_hour ck (fst e) \<ge> run_after_hour \<longrightarrow> day_ran ck (fst e) (fst (snd e)) (cd_runs (wakes ck evs db)))"
  using assms(2,3)
proof (induction evs arbitrary: before db)
  case Nil
  then show ?case by (auto simp: wakes_def)
next
  case (Cons e evs)
  let ?db = "run_if_due ck (fst (snd e)) (snd (snd e)) (fst e) db"
  have le: "before \<le> fst e" and s: "sorted (fst e # map fst evs)" using Cons.prems(1) by simp_all
  note night = run_if_due_night [OF Cons.prems(2) assms(1) le, of "fst (snd e)" "snd (snd e)"]
  note rest = Cons.IH [OF s night(1)]
  have keep: "set (cd_runs db) \<subseteq> set (cd_runs ?db)"
    and new: "r \<in> set (cd_runs ?db) \<Longrightarrow> r \<in> set (cd_runs db) \<or> started_at (fst e) (fst (snd e)) r" for r
    using run_if_due_adds [OF Cons.prems(2), of "fst (snd e)" "snd (snd e)" "fst e"] by auto
  have "r \<in> set (cd_runs db) \<or> (\<exists>e \<in> set (e # evs). started_at (fst e) (fst (snd e)) r)"
    if "r \<in> set (cd_runs (wakes ck evs ?db))" for r
    using rest [THEN conjunct2, THEN conjunct1, rule_format, OF that] new [of r] by auto
  moreover have "day_ran ck (fst e) (fst (snd e)) (cd_runs (wakes ck evs ?db))" if "ck_hour ck (fst e) \<ge> run_after_hour"
    by (rule day_ran_mono [OF night(2) [OF that] rest [THEN conjunct1]])
  moreover have "set (cd_runs db) \<subseteq> set (cd_runs (wakes ck evs ?db))" using keep rest [THEN conjunct1] by (rule subset_trans)
  ultimately show ?case using rest unfolding wakes_Cons by simp
qed

section \<open>Properties\<close>

text \<open>Only the answers to the numbers of the list matter to a refresh.\<close>

lemma refresh_loop_answers:
  "\<forall>n \<in> set ns. f n = re_answer env n \<Longrightarrow> refresh_loop (env\<lparr>re_answer := f\<rparr>) i ns st = refresh_loop env i ns st"
proof (induction ns arbitrary: i st)
  case (Cons n ns)
  have same: "re_answer (env\<lparr>re_answer := f\<rparr>) n = re_answer env n" "re_clock (env\<lparr>re_answer := f\<rparr>) = re_clock env"
    using Cons.prems by simp_all
  have "refresh_one (env\<lparr>re_answer := f\<rparr>) i n st = refresh_one env i n st" unfolding refresh_one_def same ..
  with Cons show ?case by (simp add: Let_def)
qed simp

lemma refresh_due_answers:
  assumes "\<forall>n \<in> set known. f n = re_answer env n"
  shows "refresh_due (env\<lparr>re_answer := f\<rparr>) known limit now db = refresh_due env known limit now db"
proof -
  have "\<forall>n \<in> set (take k (take limit (due_numbers db known now))). f n = re_answer env n"
    "\<forall>n \<in> set (take limit (due_numbers db known now)). f n = re_answer env n" for k
    using assms due_iff by (auto dest!: in_set_takeD)
  note loops = refresh_loop_answers [OF this(1)] refresh_loop_answers [OF this(2)]
  have same: "re_killed (env\<lparr>re_answer := f\<rparr>) = re_killed env" "re_clock (env\<lparr>re_answer := f\<rparr>) = re_clock env" by simp_all
  show ?thesis unfolding refresh_due_def Let_def loops same ..
qed

text \<open>
  CONAF is only asked for numbers in the one form it answers. The numbers of a night are in order,
  without duplicates, and each is six to nine digits or the slashed form, what the tables accept and what
  normalizing leaves alone; and neither the nightly refresh of those numbers nor the two routes, whatever
  the user typed, depend on what CONAF would answer to any other number.
\<close>

theorem known_numbers_canonical:
  "sorted (collect_known_numbers cells reports) \<and> distinct (collect_known_numbers cells reports)
   \<and> list_all (\<lambda>n. numero_ok n \<and> canonical n \<and> normalize_solicitud (Some n) = Some n) (collect_known_numbers cells reports)
   \<and> ((\<forall>n. canonical n \<longrightarrow> f n = re_answer env n) \<longrightarrow>
        refresh_due (env\<lparr>re_answer := f\<rparr>) (collect_known_numbers cells reports) limit now db
          = refresh_due env (collect_known_numbers cells reports) limit now db
        \<and> get_solicitud f now saved_at raw db = get_solicitud (re_answer env) now saved_at raw db
        \<and> refresh_solicitud f now saved_at raw db = refresh_solicitud (re_answer env) now saved_at raw db)"
proof -
  have known: "canonical n" if "n \<in> set (collect_known_numbers cells reports)" for n
    using that by (auto simp: collect_known_numbers_def List.map_filter_def dest: cell_canonical normalized_canonical)
  then have "refresh_due (env\<lparr>re_answer := f\<rparr>) (collect_known_numbers cells reports) limit now db
      = refresh_due env (collect_known_numbers cells reports) limit now db"
    if "\<forall>n. canonical n \<longrightarrow> f n = re_answer env n"
    using that by (intro refresh_due_answers) blast
  moreover have "get_solicitud f now saved_at raw db = get_solicitud (re_answer env) now saved_at raw db"
    "refresh_solicitud f now saved_at raw db = refresh_solicitud (re_answer env) now saved_at raw db"
    if "\<forall>n. canonical n \<longrightarrow> f n = re_answer env n"
    using that normalized_canonical [of "Some raw"]
    by (auto simp: get_solicitud_def refresh_solicitud_def Let_def split: option.split)
  moreover have "sorted (collect_known_numbers cells reports) \<and> distinct (collect_known_numbers cells reports)
   \<and> list_all (\<lambda>n. numero_ok n \<and> canonical n \<and> normalize_solicitud (Some n) = Some n) (collect_known_numbers cells reports)"
    using known by (auto simp: list_all_iff numero_ok_canonical canonical_fixed collect_known_numbers_def)
  ultimately show ?thesis by blast
qed

text \<open>
  C32. The page of a solicitud is read back: from any table whose first data row holds the requested
  number, whatever the markup around and inside the cells, the lookup has the cells of that row, and its
  dates are the dates written; a row with another number is never taken for it.
\<close>

theorem page_reads_back:
  assumes "html body = page_events pre as (header # row # rows) post"
    and "list_all outside_event pre" "lit ''tabla'' \<in> set (class_words as)" "list_all (list_all cell_ok) (header # row # rows)"
    and "\<not> contains not_found_text (join_space (py_split (lower u body)))"
    and "header \<noteq> []" "lower u (cell_text (hd header)) = lit ''solicitud''"
    and "map cell_text (take 6 row) = [solicitud, tipo, superficie, slash_date ingreso, estado, slash_date resolucion]"
    and "lower u solicitud \<noteq> lit ''solicitud''" "ascii_tables u" "valid_date ingreso" "valid_date resolucion"
  shows "parse_conaf_page u html numero body =
    (if normalize_solicitud (Some solicitud) = Some numero
     then \<lparr>cl_numero = numero, cl_status = Found, cl_tipo = text_cell tipo, cl_superficie = decimal_cell u superficie,
            cl_ingreso = Some ingreso, cl_estado = text_cell estado, cl_resolucion = Some resolucion, cl_returned = None\<rparr>
     else (empty_lookup numero Mismatch)\<lparr>cl_returned := text_cell solicitud\<rparr>)"
proof -
  let ?row = "map cell_text row"
  have take: "take 6 ?row = [solicitud, tipo, superficie, slash_date ingreso, estado, slash_date resolucion]"
    using assms(8) by (simp add: take_map)
  then have "length (take 6 ?row) = 6" by simp
  then have len: "length ?row \<ge> 6" by simp
  have nth: "?row ! i = take 6 ?row ! i" if "i < 6" for i using that by simp
  have cells: "?row ! 0 = solicitud" "?row ! 1 = tipo" "?row ! 2 = superficie" "?row ! 3 = slash_date ingreso"
    "?row ! 4 = estado" "?row ! 5 = slash_date resolucion"
    using nth [of 0] nth [of 1] nth [of 2] nth [of 3] nth [of 4] nth [of 5] unfolding take by simp_all
  have "?row \<noteq> []" using len by auto
  then have "hd ?row = solicitud" using cells(1) by (simp add: hd_conv_nth)
  then have data: "data_rows u (tabla_rows (html body)) = ?row # data_rows u (map (map cell_text) rows)"
    unfolding assms(1) page_rows [OF assms(2-4)] using assms(6,7,9) \<open>?row \<noteq> []\<close>
    by (simp add: data_rows_def hd_map)
  show ?thesis
    unfolding parse_conaf_page_def data Let_def list.sel cells date_cell_slash [OF assms(10,11)] date_cell_slash [OF assms(10,12)]
    using assms(5) len by simp
qed

text \<open>
  C29. The store is the summary of its history. After any sequence of saved lookups the record of a
  number has the status of its last lookup, the data and the time of its last found one, so that an
  unavailable, missing or mistyped read never erases a good one, and the time its state last changed; the
  changes kept are exactly those between consecutive found lookups.
\<close>

theorem store_is_summary:
  assumes "fold_result save_step empty_conaf hist = Inr db"
  shows "map_of (cd_rows db) n = summary n (of_number n hist)
    \<and> filter (\<lambda>c. cc_numero c = n) (cd_cambios db) = changes (founds (of_number n hist))"
  using assms
proof (induction hist arbitrary: db rule: rev_induct)
  case Nil
  then show ?case by (auto simp: empty_conaf_def summary_def of_number_def founds_def last_of_def)
next
  case (snoc e hist)
  obtain t l where tl: "e = (t, l)" by (cases e)
  obtain db0 r where db0: "fold_result save_step empty_conaf hist = Inr db0" and s: "save_lookup t l db0 = Inr (r, db)"
    using snoc.prems by (auto simp: fold_result_append save_step_Inr tl)
  note ih = snoc.IH [OF db0]
  note res = save_lookup_result [OF s]
  show ?case
  proof (cases "cl_numero l = n")
    case False
    with res ih show ?thesis by (auto simp: tl of_number_snoc update_conv')
  next
    case True
    have row: "map_of (cd_rows db0) (cl_numero l) = summary n (of_number n hist)" using ih True by simp
    from res ih True have
      "map_of (cd_rows db) n = Some (if cl_status l = Found then found_row t l (stored_superficie l) (summary n (of_number n hist))
         else missed_row t l (summary n (of_number n hist)))"
      "filter (\<lambda>c. cc_numero c = n) (cd_cambios db) = changes (founds (of_number n hist)) @
         (if cl_status l = Found \<and> estado_changed l (summary n (of_number n hist))
          then [\<lparr>cc_numero = n, cc_before = cr_estado (the (summary n (of_number n hist))), cc_after = the (cl_estado l), cc_at = t\<rparr>] else [])"
      by (simp_all add: row update_conv')
    with True summary_snoc [OF True, of "of_number n hist" t] show ?thesis by (simp add: tl of_number_snoc founds_snoc)
  qed
qed

text \<open>
  C26. The figures of a refresh that ends. The numbers looked up are the first ones due, at most the
  limit, and each outcome is counted: found, not found, another number, unavailable; a number whose
  client is busy or fails, or whose row is refused, counts as unavailable and the run goes on. The run
  ends early exactly when the last five answers are all unavailable, whenever in the night that is, any
  other answer starting the count again, or when the app shuts down, and it never goes on after either;
  the reason it records tells which, or that the limit was reached, and none exactly when everything due
  was looked up. Every change recorded in the store is counted, and the row of the run has these figures.
\<close>

theorem refresh_accounts:
  assumes "refresh_due env known limit now db = (Some (c, stopped), db')"
  shows "ct_checked c \<le> min limit (length (due_numbers db known now))
    \<and> (let os = map (outcome env) (take (ct_checked c) (due_numbers db known now))
       in ct_found c = count_list os (Some Found) \<and> ct_not_found c = count_list os (Some Not_found)
          \<and> ct_mismatch c = count_list os (Some Mismatch)
          \<and> ct_unavailable c = count_list os (Some Unavailable) + count_list os None
          \<and> (\<forall>m < ct_checked c. \<not> re_stop env m \<and> \<not> gave_up (take m os))
          \<and> (stopped = Some Stop_unavailable \<longleftrightarrow> gave_up os)
          \<and> (stopped = Some Stop_shutdown \<longleftrightarrow> \<not> gave_up os \<and> ct_checked c < min limit (length (due_numbers db known now)))
          \<and> (stopped = Some Stop_shutdown \<longrightarrow> re_stop env (ct_checked c))
          \<and> (stopped = Some Stop_limit \<longleftrightarrow> \<not> gave_up os \<and> ct_checked c = limit \<and> limit < length (due_numbers db known now))
          \<and> (stopped = None \<longleftrightarrow> \<not> gave_up os \<and> ct_checked c = length (due_numbers db known now)))
    \<and> ct_checked c = ct_found c + ct_not_found c + ct_mismatch c + ct_unavailable c
    \<and> length (cd_cambios db') = length (cd_cambios db) + ct_changed c \<and> ct_changed c \<le> ct_found c
    \<and> (\<exists>r. last (cd_runs db') = r \<and> rn_started r = now \<and> rn_counts r = c \<and> rn_stopped r = stopped
           \<and> rn_due r = length (due_numbers db known now) \<and> rn_finished r \<noteq> None)"
proof -
  let ?due = "due_numbers db known now"
  let ?st = "\<lparr>rf_db = snd (start_run db now (length ?due)), rf_counts = zero_run, rf_streak = 0, rf_stopped = None\<rparr>"
  let ?fin = "refresh_loop env 0 (take limit ?due) ?st"
  have parts: "c = rf_counts ?fin"
    "stopped = (if rf_stopped ?fin = None \<and> length ?due > limit then Some Stop_limit else rf_stopped ?fin)"
    "cd_cambios db' = cd_cambios (rf_db ?fin)"
    using refresh_due_parts [OF assms] by (auto simp: finish_run_fields)
  have zero: "accounted (rf_counts ?st)" "ct_checked (rf_counts ?st) = 0" "ct_changed (rf_counts ?st) = 0"
    by (simp_all add: accounted_def zero_run_def)
  note counts = refresh_loop_counts [OF zero(1), of env 0 "take limit ?due"]
  have "describes [] ?st" by (simp add: describes_def zero_run_def streak_snoc)
  note loop = refresh_loop_outcomes [OF this, of "take limit ?due" env 0, unfolded append_Nil add_0]
  have "rf_stopped ?st = None" "streak_of [] < 5" by (simp_all add: streak_snoc)
  from loop [OF this] obtain k where k: "k \<le> length (take limit ?due)"
    "describes (map (outcome env) (take k (take limit ?due))) ?fin"
    "\<forall>m < k. \<not> re_stop env m \<and> streak_of (map (outcome env) (take m (take limit ?due))) < 5"
    "rf_stopped ?fin = (if streak_of (map (outcome env) (take k (take limit ?due))) \<ge> 5 then Some Stop_unavailable
       else if k < length (take limit ?due) then Some Stop_shutdown else None)"
    "streak_of (map (outcome env) (take k (take limit ?due))) < 5 \<and> k < length (take limit ?due) \<longrightarrow> re_stop env k"
    by blast
  have kc: "ct_checked c = k" using k(1,2) parts(1) by (simp add: describes_def)
  have short: "take m (take limit ?due) = take m ?due" if "m \<le> k" for m
    using k(1) that by (simp add: min.absorb1)
  define os where "os = map (outcome env) (take k ?due)"
  have prefix: "map (outcome env) (take m ?due) = take m os" if "m \<le> k" for m using that by (simp add: os_def take_map min_def)
  note facts = k [unfolded short [OF order.refl], folded os_def gave_up_streak]
  have early: "\<forall>m < k. \<not> re_stop env m \<and> \<not> gave_up (take m os)"
    using k(3) short prefix unfolding gave_up_streak by (metis less_imp_le not_le)
  have le: "k \<le> min limit (length ?due)" "length (take limit ?due) = min limit (length ?due)" using k(1) by simp_all
  have "\<exists>r. last (cd_runs db') = r \<and> rn_started r = now \<and> rn_counts r = c \<and> rn_stopped r = stopped
      \<and> rn_due r = length ?due \<and> rn_finished r \<noteq> None"
    using refresh_due_run [OF assms] by simp
  moreover have "ct_checked c = ct_found c + ct_not_found c + ct_mismatch c + ct_unavailable c"
    "length (cd_cambios db') = length (cd_cambios db) + ct_changed c" "ct_changed c \<le> ct_found c"
    using counts zero parts(1,3) by (simp_all add: accounted_def start_run_fields)
  moreover have "stopped = (if gave_up os then Some Stop_unavailable else if k < min limit (length ?due) then Some Stop_shutdown
      else if limit < length ?due then Some Stop_limit else None)"
    unfolding parts(2) facts(4) gave_up_streak le(2) by (auto simp: min_def)
  ultimately show ?thesis
    unfolding kc os_def [symmetric] Let_def using facts(2,5) early le parts(1)
    by (simp add: describes_def min_def gave_up_streak)
qed

text \<open>
  A refresh that is not stopped, and in which every known number is answered with a row the tables take,
  reaches everything: each due number has been looked up since it started, and nothing is due any more.
  (A number whose client is busy or fails is skipped and stays due.)
\<close>

theorem refresh_leaves_nothing_due:
  assumes "refresh_due env known limit now db = (Some (c, None), db')"
    and "\<forall>n \<in> set known. answered env n" "\<forall>i. re_clock env i \<ge> now"
  shows "(\<forall>n \<in> set (due_numbers db known now). fresh now db' n) \<and> due_numbers db' known now = []"
proof -
  let ?due = "due_numbers db known now"
  let ?st = "\<lparr>rf_db = snd (start_run db now (length ?due)), rf_counts = zero_run, rf_streak = 0, rf_stopped = None\<rparr>"
  let ?fin = "refresh_loop env 0 (take limit ?due) ?st"
  have parts: "rf_stopped ?fin = None" "length ?due \<le> limit" "cd_rows db' = cd_rows (rf_db ?fin)"
    using refresh_due_parts [OF assms(1)] by (auto simp: finish_run_fields split: if_splits)
  then have all: "take limit ?due = ?due" by simp
  have "\<forall>n \<in> set ?due. answered env n" using assms(2) by (auto simp: due_iff)
  from refresh_loop_fresh [OF this assms(3), of 0 ?st] parts(1)
  have f: "\<forall>n \<in> set ?due. fresh now db' n" "\<forall>m. m \<notin> set ?due \<longrightarrow> map_of (cd_rows db') m = map_of (cd_rows db) m"
    unfolding all by (auto simp: fresh_def parts(3) all start_run_fields)
  have "n \<notin> set (due_numbers db' known now)" for n
  proof (cases "n \<in> set ?due")
    case True
    then obtain r where "map_of (cd_rows db') n = Some r" "cr_checked r \<ge> now" using f(1) by (auto simp: fresh_def)
    then show ?thesis by (simp add: due_iff nightly_skip_def hours_def seconds_def)
  next
    case False
    then show ?thesis using f(2) by (auto simp: due_iff)
  qed
  then have "due_numbers db' known now = []" by (metis list.set_intros(1) neq_Nil_conv)
  with f(1) show ?thesis by blast
qed

text \<open>
  C27. Once a day, killed runs aside. However often the app wakes, every run starts at a wake-up after
  three in the morning in Chile and is left unfinished exactly when that run was killed; no two finished
  runs start on the same day; and after a wake-up past three there is a run of that day, finished unless
  the wake-up's own run was killed, so that a killed run is taken up again by the next wake-up of the day.
\<close>

theorem nightly_once_a_day:
  assumes "days_forward ck" "sorted (map fst evs)"
  shows "sorted_wrt (\<lambda>r s. ck_day ck (rn_started r) < ck_day ck (rn_started s))
      (filter (\<lambda>r. rn_finished r \<noteq> None) (cd_runs (wakes ck evs empty_conaf)))
    \<and> (\<forall>r \<in> set (cd_runs (wakes ck evs empty_conaf)). ck_hour ck (rn_started r) \<ge> 3
         \<and> (\<exists>(now, env, known) \<in> set evs. rn_started r = now \<and> (rn_finished r = None \<longleftrightarrow> re_killed env \<noteq> None)))
    \<and> (\<forall>(now, env, known) \<in> set evs. ck_hour ck now \<ge> 3 \<longrightarrow>
         (\<exists>r \<in> set (cd_runs (wakes ck evs empty_conaf)). ck_day ck (rn_started r) = ck_day ck now
            \<and> (rn_finished r = None \<longrightarrow> rn_started r = now \<and> re_killed env \<noteq> None)))"
proof -
  let ?first = "case evs of [] \<Rightarrow> 0 | e # _ \<Rightarrow> fst e"
  have s: "sorted (?first # map fst evs)" using assms(2) by (cases evs) auto
  have e: "nights_ok ck ?first empty_conaf" by (simp add: nights_ok_def empty_conaf_def finished_runs_def)
  note runs = wakes_runs [OF assms(1) s e]
  obtain t where t: "nights_ok ck t (wakes ck evs empty_conaf)" using runs by (elim conjE exE)
  show ?thesis
  proof (intro conjI ballI)
    show "sorted_wrt (\<lambda>r s. ck_day ck (rn_started r) < ck_day ck (rn_started s))
        (filter (\<lambda>r. rn_finished r \<noteq> None) (cd_runs (wakes ck evs empty_conaf)))"
      using t by (simp add: nights_ok_def finished_runs_def)
  next
    fix r assume r: "r \<in> set (cd_runs (wakes ck evs empty_conaf))"
    then show "ck_hour ck (rn_started r) \<ge> 3" using t by (simp add: nights_ok_def run_after_hour_def)
    show "\<exists>(now, env, known) \<in> set evs. rn_started r = now \<and> (rn_finished r = None \<longleftrightarrow> re_killed env \<noteq> None)"
      using runs [THEN conjunct2, THEN conjunct1, rule_format, OF r]
      by (auto simp: empty_conaf_def started_at_def case_prod_unfold)
  next
    fix x assume x: "x \<in> set evs"
    obtain now env known where e: "x = (now, env, known)" by (cases x)
    have "day_ran ck now env (cd_runs (wakes ck evs empty_conaf))" if "ck_hour ck now \<ge> 3"
      using runs [THEN conjunct2, THEN conjunct2, THEN conjunct2, rule_format, OF x] that by (simp add: e run_after_hour_def)
    then show "case x of (now, env, known) \<Rightarrow> ck_hour ck now \<ge> 3 \<longrightarrow>
        (\<exists>r \<in> set (cd_runs (wakes ck evs empty_conaf)). ck_day ck (rn_started r) = ck_day ck now
          \<and> (rn_finished r = None \<longrightarrow> rn_started r = now \<and> re_killed env \<noteq> None))"
      by (auto simp: e day_ran_def started_at_def)
  qed
qed

section \<open>Concrete runs\<close>

definition demo_numero :: pystr where "demo_numero = lit ''090663''"

definition demo_answer :: conaf_lookup where
  "demo_answer = \<lparr>cl_numero = demo_numero, cl_status = Found, cl_tipo = Some [80], cl_superficie = Some (Decimal False 3 0),
     cl_ingreso = None, cl_estado = Some [65], cl_resolucion = None, cl_returned = None\<rparr>"

definition demo_row :: "int \<Rightarrow> lookup_status \<Rightarrow> int \<Rightarrow> int option \<Rightarrow> rat conaf_record" where
  "demo_row checked st found changed = \<lparr>cr_numero = demo_numero, cr_status = st, cr_tipo = Some [80], cr_estado = Some [65],
     cr_superficie = Some 3, cr_ingreso = None, cr_resolucion = None, cr_returned = None, cr_checked = checked,
     cr_found = Some found, cr_changed = changed\<rparr>"

definition demo_saved :: conaf_db where
  "demo_saved = \<lparr>cd_rows = [(demo_numero, demo_row 3 Unavailable 2 None)], cd_cambios = [], cd_runs = []\<rparr>"

lemma demo_numero_ok: "numero_ok demo_numero"
  by (simp add: numero_ok_def demo_numero_def ascii_digit_def)

lemma demo_numeric: "numeric_14_4 (Decimal False 3 0) = Inr 3"
  by (simp add: numeric_14_4_def dec_rat_def floor_eq_iff)

lemma demo_history:
  "fold_result save_step empty_conaf [(1, empty_lookup demo_numero Unavailable), (2, demo_answer), (3, empty_lookup demo_numero Unavailable)]
     = Inr demo_saved"
  using demo_numero_ok demo_numeric
  by (simp add: save_step_def save_lookup_def empty_conaf_def missed_row_def found_row_def empty_lookup_def demo_answer_def
      estado_changed_def demo_saved_def demo_row_def Let_def)

theorem store_is_summary_witness:
  "map_of (cd_rows demo_saved) demo_numero
     = summary demo_numero (of_number demo_numero
         [(1, empty_lookup demo_numero Unavailable), (2, demo_answer), (3, empty_lookup demo_numero Unavailable)])
   \<and> map_of (cd_rows demo_saved) demo_numero = Some (demo_row 3 Unavailable 2 None)"
  using store_is_summary [OF demo_history, of demo_numero] by (simp add: demo_saved_def)

definition demo_env :: refresh_env where
  "demo_env = \<lparr>re_answer = (\<lambda>_. Some demo_answer), re_clock = (\<lambda>i. hours 30 + int i), re_stop = (\<lambda>_. False), re_killed = None\<rparr>"

lemma demo_due: "due_numbers empty_conaf [demo_numero] (hours 30) = [demo_numero]"
  by (simp add: due_numbers_def read_records_def empty_conaf_def)

definition demo_counts :: run_counts where
  "demo_counts = zero_run\<lparr>ct_checked := 1, ct_found := 1\<rparr>"

definition demo_night :: conaf_db where
  "demo_night = \<lparr>cd_rows = [(demo_numero, demo_row (hours 30) Found (hours 30) None)], cd_cambios = [],
     cd_runs = [\<lparr>rn_id = 1, rn_started = hours 30, rn_finished = Some (hours 30 + 1), rn_due = 1, rn_counts = demo_counts,
       rn_stopped = None\<rparr>]\<rparr>"

lemma demo_refresh: "refresh_due demo_env [demo_numero] 5 (hours 30) empty_conaf = (Some (demo_counts, None), demo_night)"
  unfolding refresh_due_def demo_due Let_def using demo_numero_ok demo_numeric
  by (simp add: start_run_def refresh_one_def demo_env_def save_lookup_def empty_conaf_def
      demo_answer_def found_row_def estado_changed_def count_status_def zero_run_def finish_run_def demo_counts_def
      demo_night_def demo_row_def stop_after_unavailable_def Let_def)

text \<open>A blank before a number does not reach CONAF.\<close>

theorem known_numbers_canonical_witness:
  "get_solicitud (\<lambda>n. if canonical n then Some demo_answer else None) 0 1 (lit '' 090663'') empty_conaf
     = get_solicitud (re_answer demo_env) 0 1 (lit '' 090663'') empty_conaf"
proof -
  have "\<forall>n. canonical n \<longrightarrow> (if canonical n then Some demo_answer else None) = re_answer demo_env n"
    by (simp add: demo_env_def)
  then show ?thesis
    using known_numbers_canonical [of "[]" "[]" "\<lambda>n. if canonical n then Some demo_answer else None" demo_env 1 0 empty_conaf 1 "lit '' 090663''"]
    by blast
qed

theorem refresh_accounts_witness:
  "ct_checked demo_counts = 1 \<and> ct_checked demo_counts = ct_found demo_counts + ct_not_found demo_counts
     + ct_mismatch demo_counts + ct_unavailable demo_counts"
  using refresh_accounts [OF demo_refresh] by (simp add: demo_counts_def zero_run_def)

theorem refresh_leaves_nothing_due_witness:
  "due_numbers empty_conaf [demo_numero] (hours 30) = [demo_numero] \<and> due_numbers demo_night [demo_numero] (hours 30) = []"
proof -
  have "answered demo_env demo_numero"
    using demo_numero_ok demo_numeric by (simp add: answered_def demo_env_def storable_def demo_answer_def)
  then have "due_numbers demo_night [demo_numero] (hours 30) = []"
    using refresh_leaves_nothing_due [OF demo_refresh] by (simp add: demo_env_def)
  with demo_due show ?thesis by simp
qed

definition demo_chile :: chile_clock where
  "demo_chile = \<lparr>ck_hour = (\<lambda>t. t div hours 1 mod 24), ck_day = (\<lambda>t. t div hours 24)\<rparr>"

text \<open>A run killed before its first number, and the wake-up an hour later.\<close>

theorem nightly_once_a_day_witness:
  "\<exists>r \<in> set (cd_runs (wakes demo_chile [(hours 30, demo_env\<lparr>re_killed := Some 0\<rparr>, [demo_numero]),
       (hours 31, demo_env, [demo_numero])] empty_conaf)).
     ck_day demo_chile (rn_started r) = ck_day demo_chile (hours 31) \<and> rn_finished r \<noteq> None"
proof -
  let ?evs = "[(hours 30, demo_env\<lparr>re_killed := Some 0\<rparr>, [demo_numero]), (hours 31, demo_env, [demo_numero])]"
  have "days_forward demo_chile"
    by (auto simp: days_forward_def demo_chile_def hours_def seconds_def intro: zdiv_mono1)
  moreover have "sorted (map fst ?evs)" by (simp add: hours_def seconds_def)
  ultimately have "\<forall>(now, env, known) \<in> set ?evs. ck_hour demo_chile now \<ge> 3 \<longrightarrow>
      (\<exists>r \<in> set (cd_runs (wakes demo_chile ?evs empty_conaf)). ck_day demo_chile (rn_started r) = ck_day demo_chile now
         \<and> (rn_finished r = None \<longrightarrow> rn_started r = now \<and> re_killed env \<noteq> None))"
    using nightly_once_a_day [of demo_chile ?evs] by blast
  moreover have "ck_hour demo_chile (hours 31) \<ge> 3" "re_killed demo_env = None"
    by (simp_all add: demo_chile_def hours_def seconds_def demo_env_def)
  ultimately show ?thesis by simp
qed

definition demo_cell :: "pystr \<Rightarrow> markup_cell" where
  "demo_cell s = \<lparr>mk_gap = [Char_data [10]], mk_tag = lit ''td'', mk_attrs = [], mk_inner = [Start_tag (lit ''b'') [], Char_data s]\<rparr>"

definition demo_page :: "html_event list" where
  "demo_page = page_events [Char_data [65]] [(lit ''class'', Some (lit ''tabla''))]
     [[demo_cell (lit ''Solicitud'')],
      map demo_cell [lit ''90663'', [80], lit ''3,5'', slash_date (Date 2024 5 2), [65], slash_date (Date 2024 6 3)]] []"

lemma demo_page_facts:
  "\<not> contains not_found_text (join_space (py_split (lower latin_ucd [])))"
  "map cell_text (take 6 (map demo_cell [lit ''90663'', [80], lit ''3,5'', slash_date (Date 2024 5 2), [65], slash_date (Date 2024 6 3)]))
     = [lit ''90663'', [80], lit ''3,5'', slash_date (Date 2024 5 2), [65], slash_date (Date 2024 6 3)]"
  "list_all (list_all cell_ok) [[demo_cell (lit ''Solicitud'')],
      map demo_cell [lit ''90663'', [80], lit ''3,5'', slash_date (Date 2024 5 2), [65], slash_date (Date 2024 6 3)]]"
  "lower latin_ucd (cell_text (hd [demo_cell (lit ''Solicitud'')])) = lit ''solicitud''"
  by (simp_all add: not_found_text_def py_split.simps lower_def cell_text_def demo_cell_def char_chunks_def List.map_filter_simps
      is_space_def slash_date_def digit2_def digit4_def cell_ok_def inline_event_def table_tags_def latin_lower_def)

theorem page_reads_back_witness:
  "parse_conaf_page latin_ucd (\<lambda>_. demo_page) demo_numero []
     = \<lparr>cl_numero = demo_numero, cl_status = Found, cl_tipo = Some [80], cl_superficie = Some (Decimal False 35 (- 1)),
        cl_ingreso = Some (Date 2024 5 2), cl_estado = Some [65], cl_resolucion = Some (Date 2024 6 3), cl_returned = None\<rparr>"
proof -
  have number: "normalize_solicitud (Some (lit ''90663'')) = Some demo_numero"
    by (simp add: normalize_solicitud_def demo_numero_def strip_def strip_by_def is_space_def is_ascii_def is_number_def
        ascii_digit_def zfill6_def Let_def)
  have area: "decimal_cell latin_ucd (lit ''3,5'') = Some (Decimal False 35 (- 1))"
    by (simp add: decimal_cell_def decimal_ascii_def read_decimal_def read_exponent_def strip_def strip_by_def is_space_def
        ascii_digit_def decimal_in_range_def dec_rat_def max_superficie_ha_def Let_def nat_digits.simps)
  have head: "list_all outside_event [Char_data [65]]" "lit ''tabla'' \<in> set (class_words [(lit ''class'', Some (lit ''tabla''))])"
    "lower latin_ucd (lit ''90663'') \<noteq> lit ''solicitud''"
    by (simp_all add: outside_event_def class_words_def py_split.simps is_space_def lower_def latin_lower_def)
  have dates: "valid_date (Date 2024 5 2)" "valid_date (Date 2024 6 3)"
    by (simp_all add: valid_date_def days_in_month_def)
  have body: "(\<lambda>_. demo_page) [] = page_events [Char_data [65]] [(lit ''class'', Some (lit ''tabla''))]
      ([demo_cell (lit ''Solicitud'')] # map demo_cell [lit ''90663'', [80], lit ''3,5'', slash_date (Date 2024 5 2), [65],
         slash_date (Date 2024 6 3)] # []) []"
    unfolding demo_page_def ..
  have "ascii_tables latin_ucd" by (rule latin.ascii_tables_axioms)
  from page_reads_back [OF body head(1,2) demo_page_facts(3,1) _ demo_page_facts(4,2) head(3) this dates, of demo_numero]
  show ?thesis unfolding number area if_P [OF refl] by (simp add: text_cell_def)
qed

section \<open>What the numbers do not promise\<close>

text \<open>
  The digits of a number that is not whole count after all: a year of four digits is cut to two, and of a
  correlative of seven digits the last six are taken.
\<close>

theorem cell_cuts_numbers:
  "solicitudes_in_cell (Some (lit ''12/345-6/2024'')) = [lit ''12/345-6/20'']"
  "solicitudes_in_cell (Some (lit ''1234567/34-5/24'')) = [lit ''234567/34-5/24'']"
proof -
  have "find_slashed (lit ''12/345-6/2024'') = [lit ''12/345-6/20'']"
    by (simp add: find_slashed.simps slashed_at_def run_then_def ascii_digit_def)
  then show "solicitudes_in_cell (Some (lit ''12/345-6/2024'')) = [lit ''12/345-6/20'']"
    by (simp add: solicitudes_in_cell_def is_ascii_def)
  have "find_slashed (lit ''1234567/34-5/24'') = [lit ''234567/34-5/24'']"
    by (simp add: find_slashed.simps slashed_at_def run_then_def ascii_digit_def)
  then show "solicitudes_in_cell (Some (lit ''1234567/34-5/24'')) = [lit ''234567/34-5/24'']"
    by (simp add: solicitudes_in_cell_def is_ascii_def)
qed

text \<open>An area just below the limit passes the check of the page and then does not fit the column.\<close>

theorem area_overflows:
  "decimal_cell latin_ucd (lit ''9999999999,99996'') = Some (Decimal False 999999999999996 (- 5))
   \<and> numeric_14_4 (Decimal False 999999999999996 (- 5)) = Inl Numeric_overflow"
proof
  show "decimal_cell latin_ucd (lit ''9999999999,99996'') = Some (Decimal False 999999999999996 (- 5))"
    by (simp add: decimal_cell_def decimal_ascii_def read_decimal_def read_exponent_def strip_def strip_by_def is_space_def
        ascii_digit_def decimal_in_range_def dec_rat_def max_superficie_ha_def Let_def nat_digits.simps)
  have "\<lfloor>dec_rat (Decimal False 999999999999996 (- 5)) * 10 ^ 4 + 1 / 2\<rfloor> = 100000000000000"
    by (simp add: dec_rat_def floor_eq_iff)
  then show "numeric_14_4 (Decimal False 999999999999996 (- 5)) = Inl Numeric_overflow"
    by (simp add: numeric_14_4_def dec_rat_def Let_def)
qed

end
