(* ===== verification/FloatSum.thy ===== *)
theory FloatSum
  imports PyFloat
begin

text \<open>
  Sums of floats: \<open>math.fsum\<close>, the running sum of PostgreSQL and \<open>math.isclose\<close>, with
  the rounding errors that make the first two close enough for the third, in whatever order the
  database adds.
\<close>

section \<open>The operations\<close>

text \<open>
  \<open>fsum\<close> is the exact sum rounded once; opposite infinities are a \<open>ValueError\<close>, a sum too large an
  \<open>OverflowError\<close>. (CPython also raises when a partial sum is too large and the sum is not.)
\<close>

fun finite_parts :: "pyfloat list \<Rightarrow> rat list" where
  "finite_parts [] = []"
| "finite_parts (Fin a # xs) = a # finite_parts xs"
| "finite_parts (_ # xs) = finite_parts xs"

definition fsum :: "pyfloat list \<Rightarrow> pyfloat py_result" where
  "fsum xs =
     (if PosInf \<in> set xs \<and> NegInf \<in> set xs then Inl ValueError
      else if NaN \<in> set xs then Inr NaN
      else if PosInf \<in> set xs then Inr PosInf
      else if NegInf \<in> set xs then Inr NegInf
      else case round_double (sum_list (finite_parts xs)) of
             Fin v \<Rightarrow> Inr (Fin v) | _ \<Rightarrow> Inl OverflowError)"

text \<open>\<open>COALESCE(sum(x), 0)\<close> over \<open>double precision\<close>: \<open>None\<close> is its error "out of range: overflow".\<close>

definition pg_plus :: "pyfloat \<Rightarrow> pyfloat \<Rightarrow> pyfloat option" where
  "pg_plus x y =
     (let r = fl_add x y
      in if (r = PosInf \<or> r = NegInf) \<and> fl_finite x \<and> fl_finite y then None else Some r)"

fun pg_sum_from :: "pyfloat \<Rightarrow> pyfloat list \<Rightarrow> pyfloat option" where
  "pg_sum_from a [] = Some a"
| "pg_sum_from a (x # xs) = (case pg_plus a x of None \<Rightarrow> None | Some b \<Rightarrow> pg_sum_from b xs)"

definition pg_sum :: "pyfloat list \<Rightarrow> pyfloat option" where
  "pg_sum xs = (case xs of [] \<Rightarrow> Some (Fin 0) | x # ys \<Rightarrow> pg_sum_from x ys)"

text \<open>\<open>math.isclose(x, y, rel_tol=t, abs_tol=t)\<close>.\<close>

definition abs_le :: "pyfloat \<Rightarrow> pyfloat \<Rightarrow> bool" where
  "abs_le x y =
     (case (x, y) of
        (NaN, _) \<Rightarrow> False | (_, NaN) \<Rightarrow> False
      | (Fin a, Fin b) \<Rightarrow> \<bar>a\<bar> \<le> \<bar>b\<bar> | (Fin _, _) \<Rightarrow> True | (_, Fin _) \<Rightarrow> False | _ \<Rightarrow> True)"

definition isclose :: "rat \<Rightarrow> pyfloat \<Rightarrow> pyfloat \<Rightarrow> bool" where
  "isclose t x y =
     (case (x, y) of
        (Fin a, Fin b) \<Rightarrow>
          a = b \<or> abs_le (round_double (b - a)) (round_double (t * b))
          \<or> abs_le (round_double (b - a)) (round_double (t * a)) \<or> abs_le (round_double (b - a)) (Fin t)
      | _ \<Rightarrow> x = y \<and> x \<noteq> NaN)"

definition surface_total_tolerance :: rat where
  "surface_total_tolerance = (case round_double (1 / 10 ^ 9) of Fin t \<Rightarrow> t | _ \<Rightarrow> 0)"

section \<open>The error of one rounding\<close>

text \<open>Half a unit in the last place of a normal number; below them the error is smaller still.\<close>

definition ulp_half :: rat where "ulp_half = 1 / 2 ^ 53"

lemma round_even_err: "\<bar>of_int (round_even q) - q\<bar> \<le> 1 / 2"
  using floor_correct [of q] by (auto simp: round_even_def Let_def abs_le_iff)

lemma pow2_add: "pow2 (a + b) = pow2 a * pow2 b"
proof -
  have "pow2 e = 2 powi e" for e by (simp add: pow2_def power_int_def field_simps)
  then show ?thesis by (simp add: power_int_add)
qed

lemma pow2_neg: "pow2 (- int m) = 1 / 2 ^ m"
  by (cases m) (simp_all add: pow2_def nat_add_distrib)

lemma pow2_mono: "a \<le> b \<Longrightarrow> pow2 a \<le> pow2 b"
proof -
  assume "a \<le> b"
  then obtain n where b: "b = a + int n" by (metis zle_iff_zadd)
  have "1 \<le> pow2 (int n)" by (simp add: pow2_def)
  then show ?thesis unfolding b pow2_add using pow2_pos [of a] by simp
qed

lemma ilog2_less: "n < 2 ^ Suc (ilog2 n)"
proof (induction n rule: ilog2.induct)
  case (1 n)
  show ?case
  proof (cases "n < 2")
    case False
    with 1 have "n div 2 < 2 ^ Suc (ilog2 (n div 2))" by simp
    with False show ?thesis by (simp add: ilog2.simps [of n])
  qed (simp add: ilog2.simps [of n])
qed

lemma rat_exp_le:
  assumes "0 < q"
  shows "pow2 (rat_exp q) \<le> q"
proof (cases "1 \<le> q")
  case True
  then have "0 < nat \<lfloor>q\<rfloor>" by simp
  then have "(2::nat) ^ ilog2 (nat \<lfloor>q\<rfloor>) \<le> nat \<lfloor>q\<rfloor>" by (rule ilog2_le)
  then have "(of_nat (2 ^ ilog2 (nat \<lfloor>q\<rfloor>)) :: rat) \<le> of_nat (nat \<lfloor>q\<rfloor>)" by (simp only: of_nat_le_iff)
  then have "(2::rat) ^ ilog2 (nat \<lfloor>q\<rfloor>) \<le> of_nat (nat \<lfloor>q\<rfloor>)" by simp
  also have "of_nat (nat \<lfloor>q\<rfloor>) \<le> q" using True by simp
  finally show ?thesis using True by (simp add: rat_exp_def pow2_def)
next
  case False
  define n where "n = nat \<lceil>1 / q\<rceil>"
  have "1 < 1 / q" using False assms by simp
  then have n: "\<not> n \<le> 1" by (simp add: n_def nat_le_iff not_le)
  have "n \<le> 2 ^ Suc (ilog2 (n - 1))" using ilog2_less [of "n - 1"] n by linarith
  then have "(of_nat n :: rat) \<le> of_nat (2 ^ Suc (ilog2 (n - 1)))" by (simp only: of_nat_le_iff)
  then have "of_nat n \<le> (2::rat) ^ Suc (ilog2 (n - 1))" by simp
  moreover have "1 / q \<le> of_nat n" using assms by (simp add: n_def of_nat_nat)
  ultimately have "1 / q \<le> 2 ^ Suc (ilog2 (n - 1))" by simp
  then have "1 / 2 ^ Suc (ilog2 (n - 1)) \<le> q" using assms by (simp add: field_simps)
  moreover have "rat_exp q = - int (Suc (ilog2 (n - 1)))"
    using False n by (simp only: rat_exp_def Let_def if_False n_def [symmetric])
  ultimately show ?thesis by (simp only: pow2_neg)
qed

lemma ulp_small: "x < p \<Longrightarrow> 1 \<le> p \<Longrightarrow> x + ulp_half * (x + 1) < p + p"
  by (simp add: ulp_half_def field_simps)

lemma round_double_err:
  assumes "\<bar>q\<bar> < pow2 1023"
  shows "\<exists>v. round_double q = Fin v \<and> \<bar>v - q\<bar> \<le> ulp_half * (\<bar>q\<bar> + 1)"
proof (cases "q = 0")
  case True
  then show ?thesis by (simp add: round_double_def ulp_half_def)
next
  case False
  define e where "e = max (rat_exp \<bar>q\<bar>) (- 1022)"
  define s where "s = pow2 (e - 52)"
  define v where "v = of_int (round_even (q / s)) * s"
  have s: "0 < s" by (simp add: s_def pow2_pos)
  have "v - q = (of_int (round_even (q / s)) - q / s) * s" using s by (simp add: v_def left_diff_distrib)
  then have "\<bar>v - q\<bar> = \<bar>of_int (round_even (q / s)) - q / s\<bar> * s" using s by (simp add: abs_mult)
  also have "\<dots> \<le> s / 2" using mult_right_mono [OF round_even_err [of "q / s"], of s] s by simp
  also have "s / 2 = pow2 e * ulp_half"
    using pow2_add [of e "- 52"] by (simp add: s_def pow2_def [of "- 52"] ulp_half_def)
  also have "pow2 e \<le> \<bar>q\<bar> + 1"
    using rat_exp_le [of "\<bar>q\<bar>"] pow2_mono [of "- 1022" 0] False
    by (auto simp: e_def max_def pow2_def [of 0])
  finally have err: "\<bar>v - q\<bar> \<le> ulp_half * (\<bar>q\<bar> + 1)" by (simp add: mult.commute ulp_half_def)
  have "\<bar>v\<bar> \<le> \<bar>q\<bar> + ulp_half * (\<bar>q\<bar> + 1)" using err by linarith
  also have "\<dots> < pow2 1023 + pow2 1023"
    using ulp_small [of "\<bar>q\<bar>" "pow2 1023"] assms pow2_mono [of 0 1023] by (simp add: pow2_def [of 0])
  also have "\<dots> = pow2 1024" using pow2_add [of 1 1023] by (simp add: pow2_def [of 1])
  finally have "\<bar>v\<bar> < pow2 1024" .
  then have "round_double q = Fin v"
    using False by (auto simp: round_double_def Let_def simp flip: e_def s_def v_def)
  with err show ?thesis by blast
qed

section \<open>The error of a running sum\<close>

lemma finite_parts_map [simp]: "finite_parts (map Fin qs) = qs"
  by (induction qs) auto

text \<open>One addition: from an error after \<open>k\<close> of them to one after \<open>k + 1\<close>.\<close>

lemma add_err:
  fixes a b s x :: rat
  assumes "\<bar>a - s\<bar> \<le> 2 * of_nat k * ulp_half * (s + 1)" "\<bar>b - (a + x)\<bar> \<le> ulp_half * (\<bar>a + x\<bar> + 1)"
    and "0 \<le> s" "0 \<le> x" "2 * of_nat k * ulp_half \<le> 1"
  shows "\<bar>b - (s + x)\<bar> \<le> 2 * of_nat (Suc k) * ulp_half * (s + x + 1)"
proof -
  have u: "0 < ulp_half" by (simp add: ulp_half_def)
  have "2 * of_nat k * ulp_half * (s + 1) \<le> 1 * (s + 1)" using assms(3,5) by (intro mult_right_mono) simp_all
  with assms(1) have "\<bar>a - s\<bar> \<le> s + 1" by simp
  then have "a \<le> 2 * s + 1" "- 1 \<le> a" by (simp_all add: abs_le_iff)
  then have "\<bar>a + x\<bar> \<le> 2 * s + x + 1" using assms(3,4) by (simp add: abs_le_iff)
  then have "\<bar>a + x\<bar> + 1 \<le> 2 * (s + x + 1)" using assms(4) by simp
  then have "ulp_half * (\<bar>a + x\<bar> + 1) \<le> ulp_half * (2 * (s + x + 1))" using u by (intro mult_left_mono) simp_all
  with assms(2) have "\<bar>b - (a + x)\<bar> \<le> 2 * ulp_half * (s + x + 1)" by (simp add: algebra_simps)
  moreover have "2 * of_nat k * ulp_half * (s + 1) \<le> 2 * of_nat k * ulp_half * (s + x + 1)"
    using u assms(4) by (intro mult_left_mono) simp_all
  moreover have "2 * of_nat (Suc k) * ulp_half * (s + x + 1) = 2 * of_nat k * ulp_half * (s + x + 1) + 2 * ulp_half * (s + x + 1)"
    by (simp add: algebra_simps)
  ultimately show ?thesis using assms(1) by linarith
qed

lemma pg_sum_from_err:
  assumes "\<bar>a - s\<bar> \<le> 2 * of_nat k * ulp_half * (s + 1)" "0 \<le> s" "\<forall>q \<in> set qs. 0 \<le> q"
    and "s + sum_list qs + 1 < pow2 1000" "2 * of_nat (k + length qs) * ulp_half \<le> 1"
  shows "\<exists>v. pg_sum_from (Fin a) (map Fin qs) = Some (Fin v)
    \<and> \<bar>v - (s + sum_list qs)\<bar> \<le> 2 * of_nat (k + length qs) * ulp_half * (s + sum_list qs + 1)"
  using assms
proof (induction qs arbitrary: a s k)
  case (Cons x qs)
  have u: "0 < ulp_half" by (simp add: ulp_half_def)
  have x: "0 \<le> x" and rest: "0 \<le> sum_list qs" using Cons.prems(3) by (auto intro: sum_list_nonneg)
  have "2 * of_nat k * ulp_half \<le> 2 * of_nat (k + length (x # qs)) * ulp_half" using u by simp
  with Cons.prems(5) have k: "2 * of_nat k * ulp_half \<le> 1" by linarith
  have "2 * of_nat k * ulp_half * (s + 1) \<le> 1 * (s + 1)" using Cons.prems(2) k by (intro mult_right_mono) simp_all
  with Cons.prems(1) have "\<bar>a - s\<bar> \<le> s + 1" by simp
  then have "\<bar>a + x\<bar> \<le> 2 * (s + sum_list (x # qs) + 1)" using Cons.prems(2) x rest by (simp add: abs_le_iff)
  also have "\<dots> < 2 * pow2 1000" using Cons.prems(4) by simp
  also have "\<dots> \<le> pow2 1023" using pow2_add [of 1 1000] pow2_mono [of 1001 1023] by (simp add: pow2_def [of 1])
  finally obtain b where b: "round_double (a + x) = Fin b" "\<bar>b - (a + x)\<bar> \<le> ulp_half * (\<bar>a + x\<bar> + 1)"
    using round_double_err by blast
  have "\<bar>b - (s + x)\<bar> \<le> 2 * of_nat (Suc k) * ulp_half * (s + x + 1)"
    by (rule add_err [OF Cons.prems(1) b(2) Cons.prems(2) x k])
  from Cons.IH [OF this] Cons.prems x obtain v where v: "pg_sum_from (Fin b) (map Fin qs) = Some (Fin v)"
    "\<bar>v - (s + x + sum_list qs)\<bar> \<le> 2 * of_nat (Suc k + length qs) * ulp_half * (s + x + sum_list qs + 1)"
    by (auto simp: add.assoc)
  have "pg_plus (Fin a) (Fin x) = Some (Fin b)" by (simp add: pg_plus_def b(1))
  with v show ?case by (simp add: add.assoc)
qed simp

lemma pg_sum_err:
  assumes "\<forall>q \<in> set qs. 0 \<le> q" "sum_list qs + 1 < pow2 1000" "2 * of_nat (length qs) * ulp_half \<le> 1"
  shows "\<exists>v. pg_sum (map Fin qs) = Some (Fin v)
    \<and> \<bar>v - sum_list qs\<bar> \<le> 2 * of_nat (length qs) * ulp_half * (sum_list qs + 1)"
proof (cases qs)
  case Nil
  then show ?thesis by (simp add: pg_sum_def ulp_half_def)
next
  case (Cons x ys)
  have u: "0 < ulp_half" by (simp add: ulp_half_def)
  have len: "2 * of_nat (0 + length ys) * ulp_half \<le> 2 * of_nat (length qs) * ulp_half" using u Cons by simp
  have "\<exists>v. pg_sum_from (Fin x) (map Fin ys) = Some (Fin v)
    \<and> \<bar>v - (x + sum_list ys)\<bar> \<le> 2 * of_nat (0 + length ys) * ulp_half * (x + sum_list ys + 1)"
    by (rule pg_sum_from_err) (use assms Cons len in auto)
  then obtain v where v: "pg_sum_from (Fin x) (map Fin ys) = Some (Fin v)"
    "\<bar>v - sum_list qs\<bar> \<le> 2 * of_nat (0 + length ys) * ulp_half * (sum_list qs + 1)"
    by (auto simp: Cons)
  have "0 \<le> sum_list qs" using assms(1) by (intro sum_list_nonneg) simp
  then have "2 * of_nat (0 + length ys) * ulp_half * (sum_list qs + 1) \<le> 2 * of_nat (length qs) * ulp_half * (sum_list qs + 1)"
    using mult_right_mono [OF len, of "sum_list qs + 1"] by simp
  with v show ?thesis by (auto simp: pg_sum_def Cons)
qed

section \<open>Close enough\<close>

lemma small_pow2: "x \<le> 10 \<Longrightarrow> x < pow2 1023"
proof -
  assume "x \<le> 10"
  also have "(10::rat) < pow2 4" by (simp add: pow2_def)
  also have "\<dots> \<le> pow2 1023" by (rule pow2_mono) simp
  finally show ?thesis .
qed

lemma tolerance_bounds: "999 / 10 ^ 12 \<le> surface_total_tolerance" "surface_total_tolerance \<le> 1001 / 10 ^ 12"
proof -
  have "\<bar>1 / 10 ^ 9 :: rat\<bar> < pow2 1023" by (rule small_pow2) simp
  then obtain t where "round_double (1 / 10 ^ 9) = Fin t" "\<bar>t - 1 / 10 ^ 9\<bar> \<le> ulp_half * (\<bar>1 / 10 ^ 9\<bar> + 1)"
    using round_double_err by blast
  then have t: "surface_total_tolerance = t" and err: "\<bar>t - 1 / 10 ^ 9\<bar> \<le> 1 / 10 ^ 15"
    by (simp_all add: surface_total_tolerance_def ulp_half_def)
  from abs_le_D1 [OF err] abs_le_D2 [OF err]
  show "999 / 10 ^ 12 \<le> surface_total_tolerance" "surface_total_tolerance \<le> 1001 / 10 ^ 12"
    unfolding t by simp_all
qed

text \<open>Two numbers that differ by no more than \<open>(S + 1) / 2 ^ 31\<close> from each other, one of them the rounded \<open>S\<close>.\<close>

lemma isclose_near:
  fixes v w s :: rat
  assumes "\<bar>w - v\<bar> \<le> (s + 1) / 2 ^ 31" "\<bar>w - s\<bar> \<le> ulp_half * (s + 1)" "0 \<le> s" "s + 1 < pow2 1000"
  shows "isclose surface_total_tolerance (Fin v) (Fin w)"
proof -
  let ?t = surface_total_tolerance
  have big: "pow2 1000 \<le> pow2 1023" by (rule pow2_mono) simp
  have "(s + 1) / 2 ^ 31 \<le> s + 1" using assms(3) by (simp add: field_simps)
  with assms(1) have "\<bar>w - v\<bar> \<le> s + 1" by (rule order_trans)
  with assms(4) big have "\<bar>w - v\<bar> < pow2 1023" by linarith
  then obtain d where d: "round_double (w - v) = Fin d" "\<bar>d - (w - v)\<bar> \<le> ulp_half * (\<bar>w - v\<bar> + 1)"
    using round_double_err by blast
  have "ulp_half * (\<bar>w - v\<bar> + 1) \<le> ulp_half * (s + 2)" using \<open>\<bar>w - v\<bar> \<le> s + 1\<close> by (simp add: ulp_half_def)
  with d(2) assms(1) have dle: "\<bar>d\<bar> \<le> (s + 1) / 2 ^ 31 + ulp_half * (s + 2)" by linarith
  show ?thesis
  proof (cases "s \<le> 1")
    case True
    then have "(s + 1) / 2 ^ 31 + ulp_half * (s + 2) \<le> 998 / 10 ^ 12" by (simp add: ulp_half_def field_simps)
    with dle tolerance_bounds(1) have "\<bar>d\<bar> \<le> ?t" by linarith
    then have "abs_le (Fin d) (Fin ?t)" using tolerance_bounds(1) by (simp add: abs_le_def)
    then show ?thesis by (simp add: isclose_def d(1))
  next
    case False
    have sb: "\<bar>w - s\<bar> \<le> s / 10 ^ 6" using assms(2) False by (simp add: ulp_half_def)
    then have w: "999 / 1000 * s \<le> w" "w \<le> 1001 / 1000 * s" "0 \<le> w" using abs_le_D1 [OF sb] abs_le_D2 [OF sb] False by simp_all
    have tw: "999 / 10 ^ 12 * w \<le> ?t * w" "?t * w \<le> 1001 / 10 ^ 12 * w"
      by (rule mult_right_mono [OF tolerance_bounds(1) w(3)], rule mult_right_mono [OF tolerance_bounds(2) w(3)])
    obtain y where y: "y = ?t * w" by simp
    have tws: "998 / 10 ^ 12 * s \<le> y" "y \<le> s" "0 \<le> y" using tw w False unfolding y [symmetric] by simp_all
    then have "\<bar>y\<bar> < pow2 1023" using assms(4) big by linarith
    then obtain e where e: "round_double y = Fin e" "\<bar>e - y\<bar> \<le> ulp_half * (\<bar>y\<bar> + 1)"
      using round_double_err by blast
    have "ulp_half * (\<bar>y\<bar> + 1) \<le> s / 10 ^ 12" using tws False by (simp add: ulp_half_def)
    with abs_le_D2 [OF e(2)] have "y - s / 10 ^ 12 \<le> e" by linarith
    with tws(1) have "997 / 10 ^ 12 * s \<le> e" by simp
    moreover have "(s + 1) / 2 ^ 31 + ulp_half * (s + 2) \<le> 996 / 10 ^ 12 * s" using False by (simp add: ulp_half_def field_simps)
    ultimately have "\<bar>d\<bar> \<le> \<bar>e\<bar>" using dle False by linarith
    then have "abs_le (Fin d) (Fin e)" by (simp add: abs_le_def)
    then show ?thesis by (simp add: isclose_def d(1) e(1) flip: y)
  qed
qed

theorem totals_close:
  assumes "\<forall>q \<in> set qs. 0 \<le> q" "mset rs = mset qs" "length qs \<le> 2 ^ 20" "sum_list qs + 1 < pow2 1000"
  shows "\<exists>v w. pg_sum (map Fin rs) = Some v \<and> fsum (map Fin qs) = Inr w \<and> isclose surface_total_tolerance v w"
proof -
  let ?s = "sum_list qs"
  have s: "0 \<le> ?s" using assms(1) by (intro sum_list_nonneg) simp
  have same: "sum_list rs = ?s" "length rs = length qs" "set rs = set qs"
    using assms(2) by (metis sum_mset_sum_list, metis size_mset, metis set_mset_mset)
  have n: "2 * of_nat (length rs) * ulp_half \<le> 1 / 2 ^ 32"
    using assms(3) same(2) by (simp add: ulp_half_def)
  obtain v where v: "pg_sum (map Fin rs) = Some (Fin v)" "\<bar>v - ?s\<bar> \<le> 2 * of_nat (length rs) * ulp_half * (?s + 1)"
    using pg_sum_err [of rs] assms same n by force
  have "2 * of_nat (length rs) * ulp_half * (?s + 1) \<le> 1 / 2 ^ 32 * (?s + 1)" using n s by (intro mult_right_mono) simp_all
  with v(2) have v2: "\<bar>v - ?s\<bar> \<le> 1 / 2 ^ 32 * (?s + 1)" by linarith
  have "\<bar>?s\<bar> < pow2 1023" using s assms(4) pow2_mono [of 1000 1023] by simp
  then obtain w where w: "round_double ?s = Fin w" "\<bar>w - ?s\<bar> \<le> ulp_half * (\<bar>?s\<bar> + 1)"
    using round_double_err by blast
  have f: "fsum (map Fin qs) = Inr (Fin w)" using w(1) by (auto simp: fsum_def)
  have w2: "\<bar>w - ?s\<bar> \<le> ulp_half * (?s + 1)" using w(2) s by simp
  then have "\<bar>w - ?s\<bar> \<le> 1 / 2 ^ 32 * (?s + 1)" using s by (simp add: ulp_half_def)
  with v2 have "\<bar>w - v\<bar> \<le> 1 / 2 ^ 32 * (?s + 1) + 1 / 2 ^ 32 * (?s + 1)" by linarith
  then have "\<bar>w - v\<bar> \<le> (?s + 1) / 2 ^ 31" by simp
  from isclose_near [OF this w2 s assms(4)] v(1) f show ?thesis by blast
qed

end
