(* ===== verification/Projection.thy ===== *)
theory Projection
  imports LayoutRows FloatSum
begin

text \<open>
  \<open>load_transelec_workbook\<close> of \<open>xlsx_contract.py\<close> and \<open>import_projection.py\<close>: a resolved
  workbook becomes the columns of \<open>transelec_resumen_row\<close>, with the aggregates of the import,
  which are checked against the rows as stored. The reader of the file is a parameter; the JSON texts
  of the report and of the date evidence are kept as the records they are written from.
\<close>

section \<open>The workbook\<close>

datatype import_error = Workbook_error | Blank_pmf "nat list" | Value_raised py_error | Database_error | Invariant_error

text \<open>What the reader finds: nothing, or the names of the sheets and the grid and formula evidence of each.\<close>

type_synonym workbook = "(pystr list \<times> (pystr \<Rightarrow> grid \<times> formula_cells)) option"

definition load_transelec_workbook :: "ucd \<Rightarrow> (pyval \<Rightarrow> pystr) \<Rightarrow> workbook \<Rightarrow> import_error + resolved_row list \<times> layout_report" where
  "load_transelec_workbook u py_str wb =
     (case wb of
        None \<Rightarrow> Inl Workbook_error
      | Some (names, sheet) \<Rightarrow>
          (case find_resumen_sheet u names of
             Inl _ \<Rightarrow> Inl Workbook_error
           | Inr n \<Rightarrow>
               (case sheet n of (g, fc) \<Rightarrow>
                  if g = [] then Inl Workbook_error
                  else case resolve_resumen_layout u py_str fc g of
                         None \<Rightarrow> Inl Workbook_error
                       | Some lx \<Rightarrow> if has_errors (lx_report lx) then Inl Workbook_error
                                    else Inr (lx_rows lx, lx_report lx))))"

section \<open>Columns\<close>

record column_projection =
  cp_field :: string
  cp_column :: string
  cp_kind :: field_kind

definition cproj :: "string \<Rightarrow> string \<Rightarrow> field_kind \<Rightarrow> column_projection" where
  "cproj f c k = \<lparr>cp_field = f, cp_column = c, cp_kind = k\<rparr>"

definition resumen_row_projection :: "column_projection list" where
  "resumen_row_projection =
     [cproj ''aef'' ''aef'' K_text, cproj ''quien_solicita'' ''quien_solicita'' K_text,
      cproj ''fecha_solicitud'' ''fecha_solicitud'' K_date, cproj ''fecha_corta'' ''fecha_corta'' K_date,
      cproj ''fecha_termino'' ''fecha_termino'' K_date, cproj ''predio_ref'' ''predio_ref'' K_text,
      cproj ''rol_ref'' ''rol_ref'' K_text, cproj ''area_ref'' ''area_ref'' K_text, cproj ''pmf'' ''pmf'' K_text,
      cproj ''carpeta_source'' ''carpeta_source'' K_text, cproj ''pas'' ''pas'' K_text, cproj ''estado'' ''estado'' K_text,
      cproj ''estado_resumido'' ''estado_resumido'' K_text, cproj ''tipo_rechazo'' ''tipo_rechazo'' K_text,
      cproj ''reingreso_tec'' ''reingreso_tec'' K_text, cproj ''reingreso_legal'' ''reingreso_legal'' K_text,
      cproj ''reingreso_recrep'' ''reingreso_recrep'' K_text, cproj ''tipo_propietario'' ''tipo_propietario'' K_text,
      cproj ''id_transelec'' ''id_transelec'' K_text, cproj ''rol'' ''rol'' K_text,
      cproj ''numero_predio'' ''numero_predio'' K_text, cproj ''numero_area_corta'' ''numero_area_corta'' K_text,
      cproj ''superficie_corta'' ''superficie_corta'' K_number,
      cproj ''superficie_total_corta'' ''superficie_total_corta'' K_number,
      cproj ''fecha_ingreso'' ''fecha_ingreso'' K_date, cproj ''numero_ingreso'' ''numero_ingreso'' K_text,
      cproj ''fecha_90_dias'' ''fecha_90_dias'' K_date, cproj ''hoy'' ''hoy_raw'' K_text,
      cproj ''fecha_ingreso_2'' ''fecha_ingreso_2'' K_date, cproj ''numero_ingreso_2'' ''numero_ingreso_2'' K_text,
      cproj ''empresa'' ''empresa'' K_text, cproj ''id_predio_unico_ii'' ''id_predio_unico_ii'' K_text,
      cproj ''id_pmf'' ''id_pmf'' K_text, cproj ''id_predio_unico'' ''id_predio_unico'' K_text,
      cproj ''tramite'' ''tramite'' K_text, cproj ''carpeta_normalizada'' ''carpeta_normalizada'' K_text,
      cproj ''sector'' ''sector'' K_text]"

text \<open>The check made when the module is imported.\<close>

lemma projection_matches_specs:
  "map (\<lambda>p. (cp_field p, cp_kind p)) resumen_row_projection = map (\<lambda>s. (fs_name s, fs_kind s)) field_specs"
  by (simp add: resumen_row_projection_def cproj_def field_specs_def field_spec_def)

datatype db_value = Db_null | Db_text pystr | Db_number pyfloat | Db_date date

definition projected_text :: "(pyval \<Rightarrow> pystr) \<Rightarrow> pyval \<Rightarrow> pystr option" where
  "projected_text py_str v =
     (if v = VNone then None
      else let rendered = strip (case v of
                 VFloat _ \<Rightarrow> integral_str py_str v
               | VDateTime d t \<Rightarrow> if t = Time 0 0 0 0 then isoformat d else isoformat d @ [84] @ time_iso t
               | _ \<Rightarrow> str_value py_str v)
           in if rendered = [] then None else Some rendered)"

definition projected_number :: "ucd \<Rightarrow> (pyval \<Rightarrow> pystr) \<Rightarrow> pyval \<Rightarrow> pyfloat option py_result" where
  "projected_number u py_str v =
     (case v of
        VNone \<Rightarrow> Inr None
      | VBool _ \<Rightarrow> Inr None
      | VInt i \<Rightarrow> (case round_double (of_int i) of Fin q \<Rightarrow> Inr (Some (Fin q)) | _ \<Rightarrow> Inl OverflowError)
      | VFloat x \<Rightarrow> Inr (Some x)
      | _ \<Rightarrow> let candidate = strip (str_value py_str v)
             in Inr (if candidate = [] then None else float_of_text u candidate))"

definition projected_date :: "pyval \<Rightarrow> date option" where
  "projected_date v = (case v of VDateTime d _ \<Rightarrow> Some d | VDate d \<Rightarrow> Some d | _ \<Rightarrow> None)"

definition coerced :: "ucd \<Rightarrow> (pyval \<Rightarrow> pystr) \<Rightarrow> field_kind \<Rightarrow> pyval \<Rightarrow> db_value py_result" where
  "coerced u py_str k v =
     (case k of
        K_text \<Rightarrow> Inr (case projected_text py_str v of None \<Rightarrow> Db_null | Some s \<Rightarrow> Db_text s)
      | K_number \<Rightarrow> bind_result (projected_number u py_str v) (\<lambda>x. Inr (case x of None \<Rightarrow> Db_null | Some q \<Rightarrow> Db_number q))
      | K_date \<Rightarrow> Inr (case projected_date v of None \<Rightarrow> Db_null | Some d \<Rightarrow> Db_date d))"

section \<open>Rows\<close>

record projected_row =
  pj_number :: nat
  pj_columns :: "(string, db_value) pydict"
  pj_text_dates :: "(string \<times> text_date_evidence) list option"
  pj_key :: pystr

definition column_text :: "(string, db_value) pydict \<Rightarrow> string \<Rightarrow> pystr option" where
  "column_text cols name = (case map_of cols name of Some (Db_text s) \<Rightarrow> Some s | _ \<Rightarrow> None)"

definition resolve_predio_group_key :: "pystr option \<Rightarrow> pystr option \<Rightarrow> pystr option \<Rightarrow> pystr option \<Rightarrow> pystr" where
  "resolve_predio_group_key id_predio_unico pmf rol numero_predio =
     (let part = (\<lambda>v. strip (case v of Some s \<Rightarrow> s | None \<Rightarrow> []))
      in if part id_predio_unico \<noteq> [] then part id_predio_unico
         else part pmf @ [45] @ part rol @ [45] @ part numero_predio)"

definition parsed_over :: "(string, text_date_evidence) pydict \<Rightarrow> (string, db_value) pydict \<Rightarrow> (string, db_value) pydict" where
  "parsed_over evs cols =
     foldl (\<lambda>cols (name, ev). case td_parsed ev of Some d \<Rightarrow> AList.update name (Db_date d) cols | None \<Rightarrow> cols) cols evs"

definition project_row :: "ucd \<Rightarrow> (pyval \<Rightarrow> pystr) \<Rightarrow> resolved_row \<Rightarrow> projected_row py_result" where
  "project_row u py_str r =
     bind_result (traverse (\<lambda>p. bind_result (coerced u py_str (cp_kind p) (ev_get (rw_values r) (cp_field p)))
                                   (\<lambda>x. Inr (cp_column p, x))) resumen_row_projection) (\<lambda>cols.
       let cols = parsed_over (rw_text_dates r) cols
       in Inr \<lparr>pj_number = rw_number r, pj_columns = cols,
               pj_text_dates = (if rw_text_dates r = [] then None else Some (sort_key (\<lambda>(name, _). lit name) (rw_text_dates r))),
               pj_key = resolve_predio_group_key (column_text cols ''id_predio_unico'') (column_text cols ''pmf'')
                          (column_text cols ''rol'') (column_text cols ''numero_predio'')\<rparr>)"

definition row_area :: "projected_row \<Rightarrow> pyfloat option" where
  "row_area r = (case map_of (pj_columns r) ''superficie_corta'' of Some (Db_number x) \<Rightarrow> Some x | _ \<Rightarrow> None)"

record validated_workbook =
  vw_rows :: "projected_row list"
  vw_business :: nat
  vw_pmf :: nat
  vw_predio :: nat
  vw_surface :: pyfloat
  vw_report :: layout_report
  vw_warnings :: nat

definition raised :: "'a py_result \<Rightarrow> import_error + 'a" where
  "raised r = (case r of Inl e \<Rightarrow> Inl (Value_raised e) | Inr x \<Rightarrow> Inr x)"

definition read_validated_workbook :: "ucd \<Rightarrow> (pyval \<Rightarrow> pystr) \<Rightarrow> workbook \<Rightarrow> import_error + validated_workbook" where
  "read_validated_workbook u py_str wb =
     bind_result (load_transelec_workbook u py_str wb) (\<lambda>(source, report).
     bind_result (raised (traverse (project_row u py_str) source)) (\<lambda>rows.
       let blank = map pj_number (filter (\<lambda>r. column_text (pj_columns r) ''pmf'' \<in> {None, Some []}) rows)
       in if blank \<noteq> [] then Inl (Blank_pmf blank)
          else bind_result (raised (fsum (List.map_filter row_area rows))) (\<lambda>surface.
                 Inr \<lparr>vw_rows = rows, vw_business = length rows,
                      vw_pmf = length (dedup (map (\<lambda>r. column_text (pj_columns r) ''pmf'') rows)),
                      vw_predio = length (dedup (List.map_filter (\<lambda>r. column_text (pj_columns r) ''id_predio_unico'') rows)),
                      vw_surface = surface, vw_report = report, vw_warnings = severity_count Sev_warning report\<rparr>)))"

section \<open>The import\<close>

record transelec_import =
  ti_id :: int
  ti_snapshot :: int
  ti_run :: int
  ti_business :: nat
  ti_pmf :: nat
  ti_predio :: nat
  ti_surface :: pyfloat
  ti_validated_by :: int
  ti_validated_at :: int
  ti_report :: layout_report
  ti_warnings :: nat

text \<open>The two tables, with the ids of the rows of the tables they refer to.\<close>

record import_db =
  id_snapshots :: "int list"
  id_runs :: "int list"
  id_users :: "int list"
  id_imports :: "transelec_import list"
  id_rows :: "(int \<times> projected_row) list"
  id_next :: int

record import_result =
  ir_import :: transelec_import
  ir_existed :: bool

definition find_existing_import :: "import_db \<Rightarrow> int \<Rightarrow> transelec_import option" where
  "find_existing_import db snapshot = find (\<lambda>i. ti_snapshot i = snapshot) (id_imports db)"

text \<open>The checks, the foreign keys and the unique snapshot of migration 0008.\<close>

definition insert_import :: "validated_workbook \<Rightarrow> int \<Rightarrow> int \<Rightarrow> int \<Rightarrow> int \<Rightarrow> import_db \<Rightarrow> import_error + transelec_import \<times> import_db" where
  "insert_import vw snapshot run user now db =
     (if vw_business vw = 0 \<or> vw_pmf vw = 0 \<or> find_existing_import db snapshot \<noteq> None
         \<or> snapshot \<notin> set (id_snapshots db) \<or> run \<notin> set (id_runs db) \<or> user \<notin> set (id_users db) then Inl Database_error
      else let i = \<lparr>ti_id = id_next db, ti_snapshot = snapshot, ti_run = run, ti_business = vw_business vw, ti_pmf = vw_pmf vw,
                    ti_predio = vw_predio vw, ti_surface = vw_surface vw, ti_validated_by = user, ti_validated_at = now,
                    ti_report = vw_report vw, ti_warnings = vw_warnings vw\<rparr>
           in Inr (i, db\<lparr>id_imports := id_imports db @ [i], id_next := id_next db + 1\<rparr>))"

definition insert_rows :: "int \<Rightarrow> validated_workbook \<Rightarrow> import_db \<Rightarrow> import_error + import_db" where
  "insert_rows i vw db =
     (if i \<notin> set (map ti_id (id_imports db))
         \<or> \<not> distinct (map pj_number (map snd (filter (\<lambda>(j, _). j = i) (id_rows db)) @ vw_rows vw)) \<or> list_ex (\<lambda>r. column_text (pj_columns r) ''pmf'' = None) (vw_rows vw)
      then Inl Database_error
      else Inr (db\<lparr>id_rows := id_rows db @ map (\<lambda>r. (i, r)) (vw_rows vw)\<rparr>))"

record persisted_aggregates =
  pa_business :: nat
  pa_pmf :: nat
  pa_predio :: nat
  pa_surface :: pyfloat
  pa_blank_keys :: nat
  pa_orphaned :: nat

text \<open>
  The stored rows come in any order: \<open>scan\<close> permutes them. \<open>count(DISTINCT x)\<close> leaves out NULL.
\<close>

definition read_persisted_aggregates :: "(projected_row list \<Rightarrow> projected_row list) \<Rightarrow> import_db \<Rightarrow> int \<Rightarrow> import_error + persisted_aggregates" where
  "read_persisted_aggregates scan db i =
     (let rows = scan (map snd (filter (\<lambda>(j, _). j = i) (id_rows db)));
          distinct_of = (\<lambda>name. length (dedup (List.map_filter (\<lambda>r. column_text (pj_columns r) name) rows)))
      in case pg_sum (List.map_filter row_area rows) of
           None \<Rightarrow> Inl Database_error
         | Some surface \<Rightarrow>
             Inr \<lparr>pa_business = length rows, pa_pmf = distinct_of ''pmf'', pa_predio = distinct_of ''id_predio_unico'',
                  pa_surface = surface, pa_blank_keys = length (filter (\<lambda>r. strip_by (\<lambda>c. c = 32) (pj_key r) = []) rows),
                  pa_orphaned = (if i \<in> set (map ti_id (id_imports db)) then 0 else length rows)\<rparr>)"

definition verify_invariants :: "validated_workbook \<Rightarrow> persisted_aggregates \<Rightarrow> import_error + unit" where
  "verify_invariants vw pa =
     (if pa_business pa = vw_business vw \<and> pa_pmf pa = vw_pmf vw \<and> pa_predio pa = vw_predio vw
         \<and> isclose surface_total_tolerance (pa_surface pa) (vw_surface vw) \<and> pa_blank_keys pa = 0 \<and> pa_orphaned pa = 0
      then Inr () else Inl Invariant_error)"

definition validate_and_project :: "ucd \<Rightarrow> (pyval \<Rightarrow> pystr) \<Rightarrow> (projected_row list \<Rightarrow> projected_row list) \<Rightarrow> workbook
    \<Rightarrow> int \<Rightarrow> int \<Rightarrow> int \<Rightarrow> int \<Rightarrow> import_db \<Rightarrow> import_error + import_result \<times> import_db" where
  "validate_and_project u py_str scan wb snapshot run user now db =
     bind_result (read_validated_workbook u py_str wb) (\<lambda>vw.
     case find_existing_import db snapshot of
       Some i \<Rightarrow> Inr (\<lparr>ir_import = i, ir_existed = True\<rparr>, db)
     | None \<Rightarrow>
         bind_result (insert_import vw snapshot run user now db) (\<lambda>(i, db).
         bind_result (insert_rows (ti_id i) vw db) (\<lambda>db.
         bind_result (read_persisted_aggregates scan db (ti_id i)) (\<lambda>pa.
         bind_result (verify_invariants vw pa) (\<lambda>_.
           Inr (\<lparr>ir_import = i, ir_existed = False\<rparr>, db))))))"

end
