(* ===== verification/ProjectionFacts.thy ===== *)
theory ProjectionFacts
  imports Projection LayoutGate
begin

text \<open>
  Lemmas on the import: the columns of a projected row, its group key, the rows a workbook is read
  as, and the aggregates of the rows as stored.
\<close>

section \<open>Columns\<close>

lemma kind_of_spec: "spec \<in> set field_specs \<Longrightarrow> kind_of (fs_name spec) = fs_kind spec"
proof -
  assume "spec \<in> set field_specs"
  then have "map_of (map (\<lambda>s. (fs_name s, s)) field_specs) (fs_name spec) = Some spec"
    using distinct_field_names by (intro map_of_is_SomeI) (auto simp: comp_def)
  then show ?thesis by (simp add: kind_of_def field_by_name_def)
qed

lemma projection_columns:
  "distinct (map cp_column resumen_row_projection)"
  "\<forall>c \<in> set resumen_row_projection. cp_column c = cp_field c \<or> cp_column c = ''hoy_raw'' \<and> cp_kind c = K_text"
  by (simp_all add: resumen_row_projection_def cproj_def)

lemma projection_entries:
  "cproj ''pmf'' ''pmf'' K_text \<in> set resumen_row_projection"
  "cproj ''id_predio_unico'' ''id_predio_unico'' K_text \<in> set resumen_row_projection"
  "cproj ''superficie_corta'' ''superficie_corta'' K_number \<in> set resumen_row_projection"
  "cproj ''superficie_total_corta'' ''superficie_total_corta'' K_number \<in> set resumen_row_projection"
  by (simp_all add: resumen_row_projection_def cproj_def)

lemma projection_field: "c \<in> set resumen_row_projection \<Longrightarrow> \<exists>spec \<in> set field_specs. fs_name spec = cp_field c \<and> fs_kind spec = cp_kind c"
proof -
  assume "c \<in> set resumen_row_projection"
  then have "(cp_field c, cp_kind c) \<in> set (map (\<lambda>p. (cp_field p, cp_kind p)) resumen_row_projection)" by force
  then show ?thesis unfolding projection_matches_specs by auto
qed

lemma hoy_raw_kind: "kind_of ''hoy_raw'' = K_text"
proof -
  have "''hoy_raw'' \<notin> set (map fs_name field_specs)" by (simp add: field_specs_def field_spec_def)
  then have "map_of field_by_name ''hoy_raw'' = None" by (auto simp: field_by_name_def map_of_eq_None_iff)
  then show ?thesis by (simp add: kind_of_def)
qed

lemma projection_names:
  assumes "c \<in> set resumen_row_projection"
  shows "kind_of (cp_field c) = cp_kind c" "cp_kind c = K_date \<Longrightarrow> cp_column c = cp_field c" "kind_of (cp_column c) = cp_kind c"
  using projection_columns(2) projection_field [OF assms] kind_of_spec assms hoy_raw_kind by fastforce+

lemma kind_date_spec: "kind_of n = K_date \<Longrightarrow> \<exists>spec \<in> set field_specs. fs_name spec = n"
  by (auto simp: kind_of_def field_by_name_def split: option.splits dest!: map_of_SomeD)

lemma parsed_over_lookup:
  assumes "distinct (map fst evs)"
  shows "map_of (parsed_over evs cols) n
    = (case map_of evs n of
         Some ev \<Rightarrow> (case td_parsed ev of Some d \<Rightarrow> Some (Db_date d) | None \<Rightarrow> map_of cols n)
       | None \<Rightarrow> map_of cols n)"
  using assms unfolding parsed_over_def
proof (induction evs arbitrary: cols)
  case (Cons e evs)
  obtain m ev where e: "e = (m, ev)" by (cases e)
  have "map_of evs m = None" using Cons.prems by (simp add: e map_of_eq_None_iff)
  with Cons show ?case by (auto simp: e update_conv' split: option.splits)
qed simp

text \<open>The text dates of a row: one per date field, each from a cell that holds text.\<close>

definition dates_ok :: "resolved_row \<Rightarrow> bool" where
  "dates_ok r \<longleftrightarrow> distinct (map fst (rw_text_dates r))
     \<and> (\<forall>(n, ev) \<in> set (rw_text_dates r). kind_of n = K_date \<and> (\<exists>s. ev_get (rw_values r) n = VStr s))"

lemma coerced_effective:
  assumes "dates_ok r" "c \<in> set resumen_row_projection" "coerced u py_str (cp_kind c) (ev_get (rw_values r) (cp_field c)) = Inr x"
    and "map_of cols (cp_column c) = Some x"
  shows "\<exists>y. coerced u py_str (cp_kind c) (effective_value r (cp_field c)) = Inr y
    \<and> map_of (parsed_over (rw_text_dates r) cols) (cp_column c) = Some y"
proof -
  have d: "distinct (map fst (rw_text_dates r))" using assms(1) by (simp add: dates_ok_def)
  have kind: "kind_of n = K_date \<and> (\<exists>s. ev_get (rw_values r) n = VStr s)" if "map_of (rw_text_dates r) n = Some ev" for n ev
    using assms(1) map_of_SomeD [OF that] by (auto simp: dates_ok_def)
  show ?thesis
  proof (cases "cp_kind c = K_date")
    case True
    then have same: "cp_column c = cp_field c" by (rule projection_names(2) [OF assms(2)])
    show ?thesis
    proof (cases "map_of (rw_text_dates r) (cp_field c)")
      case None
      with assms(3,4) d show ?thesis by (simp add: effective_value_def parsed_over_lookup same)
    next
      case (Some ev)
      with kind obtain s where "ev_get (rw_values r) (cp_field c) = VStr s" by blast
      with Some assms(3,4) d True show ?thesis
        by (cases "td_parsed ev") (auto simp: effective_value_def parsed_over_lookup same coerced_def projected_date_def)
    qed
  next
    case False
    then have "kind_of (cp_field c) \<noteq> K_date" "kind_of (cp_column c) \<noteq> K_date" using projection_names [OF assms(2)] by simp_all
    with kind have "map_of (rw_text_dates r) (cp_field c) = None" "map_of (rw_text_dates r) (cp_column c) = None"
      by (meson not_None_eq)+
    with assms(3,4) d show ?thesis by (simp add: effective_value_def parsed_over_lookup)
  qed
qed

lemma project_row_cases:
  assumes "project_row u py_str r = Inr p"
  obtains cols where "list_all2 (\<lambda>c e. fst e = cp_column c \<and> coerced u py_str (cp_kind c) (ev_get (rw_values r) (cp_field c)) = Inr (snd e))
      resumen_row_projection cols"
    and "pj_number p = rw_number r" "pj_columns p = parsed_over (rw_text_dates r) cols"
    and "pj_key p = resolve_predio_group_key (column_text (pj_columns p) ''id_predio_unico'') (column_text (pj_columns p) ''pmf'')
      (column_text (pj_columns p) ''rol'') (column_text (pj_columns p) ''numero_predio'')"
proof -
  obtain cols where cols: "traverse (\<lambda>p. bind_result (coerced u py_str (cp_kind p) (ev_get (rw_values r) (cp_field p)))
      (\<lambda>x. Inr (cp_column p, x))) resumen_row_projection = Inr cols"
    using assms by (auto simp: project_row_def Let_def elim: bind_result.elims)
  have "fst e = cp_column c \<and> coerced u py_str (cp_kind c) (ev_get (rw_values r) (cp_field c)) = Inr (snd e)"
    if "bind_result (coerced u py_str (cp_kind c) (ev_get (rw_values r) (cp_field c))) (\<lambda>x. Inr (cp_column c, x)) = Inr e" for c e
    using that by auto
  then have "list_all2 (\<lambda>c e. fst e = cp_column c \<and> coerced u py_str (cp_kind c) (ev_get (rw_values r) (cp_field c)) = Inr (snd e))
      resumen_row_projection cols"
    using cols unfolding traverse_Inr by (rule list_all2_mono [rotated])
  then show thesis by (rule that [of cols]) (use assms cols in \<open>auto simp: project_row_def Let_def\<close>)
qed

lemma project_row_column:
  assumes "project_row u py_str r = Inr p" "dates_ok r" "c \<in> set resumen_row_projection"
  shows "\<exists>x. coerced u py_str (cp_kind c) (effective_value r (cp_field c)) = Inr x \<and> map_of (pj_columns p) (cp_column c) = Some x"
  using assms(1)
proof (cases rule: project_row_cases)
  case (1 cols)
  have "map fst cols = map cp_column resumen_row_projection"
    using 1(1) by (auto simp: list_all2_conv_all_nth list_eq_iff_nth_eq)
  then have d: "distinct (map fst cols)" using projection_columns(1) by simp
  obtain i where i: "i < length resumen_row_projection" "c = resumen_row_projection ! i" using assms(3) by (metis in_set_conv_nth)
  with 1(1) have x: "cols ! i \<in> set cols" "fst (cols ! i) = cp_column c"
    "coerced u py_str (cp_kind c) (ev_get (rw_values r) (cp_field c)) = Inr (snd (cols ! i))"
    by (auto simp: list_all2_conv_all_nth)
  then have "map_of cols (cp_column c) = Some (snd (cols ! i))" using d by (metis map_of_is_SomeI prod.collapse)
  from coerced_effective [OF assms(2,3) x(3) this] show ?thesis by (simp add: 1(3))
qed


section \<open>The group key\<close>

lemma column_text_some:
  assumes "project_row u py_str r = Inr p" "dates_ok r" "c \<in> set resumen_row_projection" "cp_kind c = K_text"
  shows "column_text (pj_columns p) (cp_column c) = projected_text py_str (effective_value r (cp_field c))"
  using project_row_column [OF assms(1-3)] assms(4) by (auto simp: coerced_def column_text_def split: option.splits)

lemma projected_text_stripped: "projected_text py_str v = Some s \<Longrightarrow> strip s = s \<and> s \<noteq> []"
  by (auto simp: projected_text_def Let_def split: if_splits)

lemma key_visible: "strip_by (\<lambda>c. c = 32) (resolve_predio_group_key i p r n) \<noteq> []"
proof (cases "strip (case i of Some s \<Rightarrow> s | None \<Rightarrow> []) = []")
  case True
  then show ?thesis by (auto simp: resolve_predio_group_key_def Let_def strip_by_empty_iff)
next
  case False
  then have "\<not> is_space (hd (strip (case i of Some s \<Rightarrow> s | None \<Rightarrow> [])))"
    unfolding strip_def by (rule strip_by_hd)
  then have "hd (strip (case i of Some s \<Rightarrow> s | None \<Rightarrow> [])) \<noteq> 32" by (auto simp: is_space_def)
  with False show ?thesis unfolding resolve_predio_group_key_def Let_def strip_by_empty_iff
    by (simp del: strip_by_Nil) (metis list.set_sel(1))
qed

section \<open>The rows of a workbook\<close>

definition date_keys :: "(string, text_date_evidence) pydict \<Rightarrow> bool" where
  "date_keys d \<longleftrightarrow> distinct (map fst d) \<and> (\<forall>m \<in> fst ` set d. kind_of m = K_date)"

lemma date_keys_update: "date_keys d \<Longrightarrow> kind_of n = K_date \<Longrightarrow> date_keys (AList.update n v d)"
  by (simp add: date_keys_def distinct_update dom_update)

lemma cell_step_dates: "date_keys (rs_text_dates st) \<Longrightarrow> date_keys (rs_text_dates (cell_step u fc g r st e))"
  by (cases e) (auto simp: cell_step_text_dates cell_text_date_def date_keys_update split: option.splits pyval.splits)

lemma cells_dates: "date_keys (rs_text_dates st) \<Longrightarrow> date_keys (rs_text_dates (foldl (cell_step u fc g r) st es))"
  by (induction es arbitrary: st) (simp_all add: cell_step_dates)

lemma row_step_dates:
  "\<forall>row \<in> set (rv_rows rs). date_keys (rw_text_dates row) \<Longrightarrow>
   \<forall>row \<in> set (rv_rows (row_step u fc g cols rs r)). date_keys (rw_text_dates row)"
  using cells_dates [of "\<lparr>rs_mapped = map (\<lambda>(name, c). (name, cell_at g r c)) cols, rs_text_dates = [], rs_findings = rv_findings rs\<rparr>" u fc g r cols]
  by (auto simp: row_step_def Let_def date_keys_def)

lemma rows_dates:
  "\<forall>row \<in> set (rv_rows rs). date_keys (rw_text_dates row) \<Longrightarrow>
   \<forall>row \<in> set (rv_rows (foldl (row_step u fc g cols) rs ns)). date_keys (rw_text_dates row)"
proof (induction ns arbitrary: rs)
  case (Cons n ns)
  from Cons.IH [OF row_step_dates [OF Cons.prems]] show ?case by simp
qed simp

lemma row_dates_ok:
  assumes "row_ok u fc g cols row" "date_keys (rw_text_dates row)"
  shows "dates_ok row"
proof -
  have "kind_of n = K_date \<and> (\<exists>s. ev_get (rw_values row) n = VStr s)" if "(n, ev) \<in> set (rw_text_dates row)" for n ev
  proof -
    have k: "kind_of n = K_date" using assms(2) that by (force simp: date_keys_def)
    then obtain spec where spec: "spec \<in> set field_specs" "fs_name spec = n" using kind_date_spec by blast
    have "map_of (rw_text_dates row) n = Some ev" using assms(2) that by (auto simp: date_keys_def)
    then obtain c where c: "cell_text_date u fc g (rw_number row - 1) n c = Some ev"
      "ev_get (rw_values row) n = clean_cell fc g (rw_number row - 1) c"
      using assms(1) spec by (auto simp: row_ok_def split: option.splits)
    from c(1) obtain s where "clean_cell fc g (rw_number row - 1) c = VStr s"
      by (auto simp: cell_text_date_def split: pyval.splits)
    with c(2) k show ?thesis by simp
  qed
  with assms(2) show ?thesis by (auto simp: dates_ok_def date_keys_def)
qed

lemma read_rows_ok:
  assumes "distinct (map fst cols)" "map_of cols ''pmf'' = Some pmf" "rows = rv_rows (read_rows u fc g h cols issues)"
  shows "map rw_number rows = map Suc (filter (kept g pmf) (data_rows g h))" "\<forall>row \<in> set rows. row_ok u fc g cols row"
    "\<forall>row \<in> set rows. dates_ok row" "distinct (map rw_number rows)"
proof -
  let ?rs = "\<lparr>rv_rows = [], rv_findings = no_findings cols, rv_issues = issues\<rparr>"
  show n: "map rw_number rows = map Suc (filter (kept g pmf) (data_rows g h))" and ok: "\<forall>row \<in> set rows. row_ok u fc g cols row"
    using rows_fold [OF assms(1,2), of ?rs u fc g "data_rows g h"] by (simp_all add: assms(3) read_rows_def)
  show "\<forall>row \<in> set rows. dates_ok row"
    using ok rows_dates [of ?rs u fc g cols "data_rows g h"] row_dates_ok by (auto simp: assms(3) read_rows_def)
  show "distinct (map rw_number rows)" unfolding n by (simp add: distinct_map data_rows_def)
qed

lemma choose_distinct: "distinct (map fst (ch_columns ch)) \<Longrightarrow> distinct (map fst (ch_columns (foldl (choose_step py_str g h) ch G)))"
proof (induction G arbitrary: ch)
  case (Cons e G)
  then have "distinct (map fst (ch_columns (choose_step py_str g h ch e)))"
    by (cases e) (simp add: choose_step_columns distinct_update)
  with Cons.IH show ?case by simp
qed simp

lemma columns_distinct: "resolve_columns u py_str g h = Some lc \<Longrightarrow> distinct (map fst (lc_columns lc))"
  by (auto simp: resolve_columns_def Let_def intro!: choose_distinct)

lemma pmf_essential: "\<exists>spec \<in> set field_specs. essential spec \<and> fs_name spec = ''pmf''"
  by (rule bexI [of _ "field_spec ''pmf'' (lit ''PMF'') T_identity K_text []"])
    (simp_all add: essential_def field_spec_def field_specs_def)

text \<open>What a workbook that loads gives.\<close>

lemma load_rows:
  assumes "space_tables u" "load_transelec_workbook u py_str wb = Inr (source, report)"
  shows "source \<noteq> []" "\<forall>row \<in> set source. dates_ok row" "distinct (map rw_number source)"
proof -
  from assms(2) obtain fc g res where res: "resolve_resumen_layout u py_str fc g = Some res" "\<not> has_errors (lx_report res)"
    "source = lx_rows res"
    by (auto simp: load_transelec_workbook_def split: option.splits sum.splits prod.splits if_splits)
  have "source \<noteq> [] \<and> (\<forall>row \<in> set source. dates_ok row) \<and> distinct (map rw_number source)"
    using assms(1)
  proof (cases rule: resolve_shape [of u py_str g fc])
    case (no_header i)
    with res show ?thesis by (auto simp: has_errors_any any_error_def)
  next
    case (columns h lc)
    with res show ?thesis by (auto simp: has_errors_any)
  next
    case (rows h lc)
    have "\<forall>spec \<in> set field_specs. essential spec \<longrightarrow> fs_name spec \<in> fst ` set (lc_columns lc)"
      using columns_essential [OF rows(2)] rows(3) by (simp add: any_error_def list_all_iff list_ex_iff)
    then have "''pmf'' \<in> fst ` set (lc_columns lc)" using pmf_essential by (metis (no_types, lifting))
    then obtain pmf where "map_of (lc_columns lc) ''pmf'' = Some pmf" by (cases "map_of (lc_columns lc) ''pmf''") (auto simp: map_of_eq_None_iff)
    from read_rows_ok [OF columns_distinct [OF rows(2)] this refl, of u fc g h "lc_issues lc"] rows(4) res
    show ?thesis by auto
  qed
  then show "source \<noteq> []" "\<forall>row \<in> set source. dates_ok row" "distinct (map rw_number source)" by blast+
qed


section \<open>The aggregates\<close>

lemma set_map_filter_eq: "set xs = set ys \<Longrightarrow> set (List.map_filter f xs) = set (List.map_filter f ys)"
  by (simp add: List.map_filter_def)

lemma mset_map_filter: "mset xs = mset ys \<Longrightarrow> mset (List.map_filter f xs) = mset (List.map_filter f ys)"
  by (simp add: List.map_filter_def)

lemma length_dedup_set: "set xs = set ys \<Longrightarrow> length (dedup xs) = length (dedup ys)"
  by (simp add: length_dedup)

lemma length_dedup_some:
  assumes "\<forall>x \<in> set xs. f x \<noteq> None"
  shows "length (dedup (map f xs)) = length (dedup (List.map_filter f xs))"
proof -
  have "f ` set xs = Some ` set (List.map_filter f xs)" using assms by (force simp: List.map_filter_def)
  then show ?thesis by (simp add: length_dedup card_image)
qed

lemma map_Fin_mset:
  assumes "mset ys = mset (map Fin qs)"
  shows "\<exists>rs. ys = map Fin rs \<and> mset rs = mset qs"
proof -
  have "set ys \<subseteq> range Fin" using assms by (metis image_mono list.set_map mset_eq_setD subset_UNIV)
  then obtain rs where rs: "ys = map Fin rs" by (metis ex_map_conv imageE subsetD)
  let ?un = "\<lambda>x. case x of Fin q \<Rightarrow> q | _ \<Rightarrow> 0"
  have "mset (map ?un ys) = mset (map ?un (map Fin qs))" using assms by (simp only: mset_map)
  then have "mset rs = mset qs" by (simp add: rs comp_def)
  with rs show ?thesis by blast
qed

text \<open>The rows of a new import, and no others, are read back under its id.\<close>

lemma rows_read_back:
  "\<forall>(j, _) \<in> set old. j < i \<Longrightarrow> map snd (filter (\<lambda>(j, _). j = i) (old @ map (\<lambda>r. (i, r)) rows)) = (rows :: 'r list)" for i :: int
proof -
  assume "\<forall>(j, _) \<in> set old. j < i"
  then have "filter (\<lambda>(j, _). j = i) old = []" by (auto simp: filter_empty_conv)
  moreover have "filter (\<lambda>(j, _). j = i) (map (\<lambda>r. (i, r)) rows) = map (\<lambda>r. (i, r)) rows" by (simp add: filter_id_conv)
  ultimately show ?thesis by (simp add: comp_def)
qed

text \<open>Rows that passed the workbook's own checks and whose areas add up are accepted as stored.\<close>

lemma aggregates_agree:
  assumes "mset (scan rows) = mset rows" "map snd (filter (\<lambda>(j, _). j = i) (id_rows db)) = rows"
    and "i \<in> set (map ti_id (id_imports db))" "\<forall>r \<in> set rows. column_text (pj_columns r) ''pmf'' \<noteq> None"
    and "\<forall>r \<in> set rows. strip_by (\<lambda>c. c = 32) (pj_key r) \<noteq> []"
    and "List.map_filter row_area rows = map Fin qs" "\<forall>q \<in> set qs. 0 \<le> q" "length qs \<le> 2 ^ 20" "sum_list qs + 1 < pow2 1000"
    and "vw_rows vw = rows" "vw_business vw = length rows"
    and "vw_pmf vw = length (dedup (map (\<lambda>r. column_text (pj_columns r) ''pmf'') rows))"
    and "vw_predio vw = length (dedup (List.map_filter (\<lambda>r. column_text (pj_columns r) ''id_predio_unico'') rows))"
    and "fsum (map Fin qs) = Inr (vw_surface vw)"
  shows "\<exists>pa. read_persisted_aggregates scan db i = Inr pa \<and> verify_invariants vw pa = Inr ()"
proof -
  have same: "set (scan rows) = set rows" "length (scan rows) = length rows"
    using assms(1) by (metis set_mset_mset, metis size_mset)
  have "mset (List.map_filter row_area (scan rows)) = mset (map Fin qs)" using mset_map_filter [OF assms(1)] assms(6) by metis
  then obtain rs where rs: "List.map_filter row_area (scan rows) = map Fin rs" "mset rs = mset qs" using map_Fin_mset by blast
  from totals_close [OF assms(7) rs(2) assms(8,9)] assms(14) obtain v where
    v: "pg_sum (map Fin rs) = Some v" "isclose surface_total_tolerance v (vw_surface vw)" by auto
  have "\<forall>r \<in> set (scan rows). strip_by (\<lambda>c. c = 32) (pj_key r) \<noteq> []" using assms(5) same by simp
  then have blank: "filter (\<lambda>r. strip_by (\<lambda>c. c = 32) (pj_key r) = []) (scan rows) = []" by (simp add: filter_empty_conv)
  have pmf: "length (dedup (List.map_filter (\<lambda>r. column_text (pj_columns r) ''pmf'') (scan rows))) = vw_pmf vw"
    unfolding assms(12) length_dedup_some [of rows "\<lambda>r. column_text (pj_columns r) ''pmf''", OF assms(4)]
    by (rule length_dedup_set [OF set_map_filter_eq [OF same(1)]])
  have predio: "length (dedup (List.map_filter (\<lambda>r. column_text (pj_columns r) ''id_predio_unico'') (scan rows))) = vw_predio vw"
    unfolding assms(13) by (rule length_dedup_set [OF set_map_filter_eq [OF same(1)]])
  have "read_persisted_aggregates scan db i = Inr \<lparr>pa_business = length (scan rows),
      pa_pmf = length (dedup (List.map_filter (\<lambda>r. column_text (pj_columns r) ''pmf'') (scan rows))),
      pa_predio = length (dedup (List.map_filter (\<lambda>r. column_text (pj_columns r) ''id_predio_unico'') (scan rows))),
      pa_surface = v, pa_blank_keys = 0, pa_orphaned = 0\<rparr>"
    unfolding read_persisted_aggregates_def assms(2) Let_def rs(1) v(1) blank option.case if_P [OF assms(3)] list.size(3) ..
  then show ?thesis
    by (intro exI conjI, assumption)
      (simp only: verify_invariants_def persisted_aggregates.simps same(2) assms(11) pmf predio v(2) simp_thms if_True)
qed

end
