(* ===== verification/CleanTable.thy ===== *)
theory CleanTable
  imports ProjectionFacts
begin

text \<open>
  A table whose headers are all recognised, once each, is read column by column, and no cell of it
  can then block the upload: the findings on cells are warnings. The last section is such a
  workbook in small.
\<close>

section \<open>Findings on cells never block\<close>

lemma finding_no_error: "\<not> any_error (finding_issues cols f)"
proof -
  have "snd (text_date_issue r) \<noteq> Sev_error" for r by (cases r) (simp_all add: text_date_issue_def)
  then show ?thesis
    by (auto simp: any_error_def finding_issues_def rows_issue_def issue_def list_ex_iff)
qed

lemma conflict_no_error: "\<not> any_error (pmf_conflict_issues rows cols)"
  by (auto simp: any_error_def pmf_conflict_issues_def rows_issue_def issue_def list_ex_iff Let_def split: if_splits)

lemma chronology_no_error: "\<not> any_error (chronology_issues n values cols)"
  by (auto simp: any_error_def chronology_issues_def issue_def list_ex_iff)

lemma any_error_append [simp]: "any_error (xs @ ys) \<longleftrightarrow> any_error xs \<or> any_error ys"
  by (simp add: any_error_def)

lemma rows_no_error: "any_error (rv_issues (foldl (row_step u fc g cols) rs ns)) \<longleftrightarrow> any_error (rv_issues rs)"
proof (induction ns arbitrary: rs)
  case (Cons n ns)
  have "any_error (rv_issues (row_step u fc g cols rs n)) \<longleftrightarrow> any_error (rv_issues rs)"
    by (simp add: row_step_def Let_def chronology_no_error)
  with Cons show ?case by simp
qed simp

lemma rows_accepted:
  assumes "detect_header_row u py_str g = Inr h" "resolve_columns u py_str g h = Some lc" "\<not> any_error (lc_issues lc)"
    and "rows = rv_rows (read_rows u fc g h (lc_columns lc) (lc_issues lc))" "rows \<noteq> []"
  shows "\<exists>res. resolve_resumen_layout u py_str fc g = Some res \<and> \<not> has_errors (lx_report res) \<and> lx_rows res = rows
    \<and> lr_header_row (lx_report res) = Some (Suc h)"
  using assms rows_no_error [of u fc g "lc_columns lc"]
  by (simp add: resolve_resumen_layout_def Let_def has_errors_any finding_no_error conflict_no_error read_rows_def)
    (simp add: any_error_def)

section \<open>Columns of a clean table\<close>

lemma one_block: "\<forall>c < n. \<not> blank c \<Longrightarrow> 0 < n \<Longrightarrow> column_blocks blank n = [[0..<n]]"
proof -
  assume nb: "\<forall>c < n. \<not> blank c" and n: "0 < n"
  have "m \<le> n \<Longrightarrow> foldl (block_step blank) ([], []) [0..<m] = ([], [0..<m])" for m
    using nb by (induction m) (simp_all add: block_step_def)
  then have "foldl (block_step blank) ([], []) [0..<n] = ([], [0..<n])" by simp
  then show ?thesis using n by (simp add: column_blocks_def)
qed

lemma filter_upt: "c < n \<Longrightarrow> filter (\<lambda>d. d = c) [0..<n] = [c]"
  by (induction n) (auto simp: less_Suc_eq)

lemma groups_singleton:
  assumes "distinct names"
  shows "group_by snd (map (\<lambda>c. (c, names ! c)) [0..<length names]) = map (\<lambda>c. (names ! c, [(c, names ! c)])) [0..<length names]"
proof -
  have keys: "dedup (map snd (map (\<lambda>c. (c, names ! c)) [0..<length names])) = names"
    using assms by (simp add: comp_def map_nth dedup_distinct)
  have one: "filter (\<lambda>x. snd x = names ! c) (map (\<lambda>c. (c, names ! c)) [0..<length names]) = [(c, names ! c)]" if "c < length names" for c
  proof -
    have "filter (\<lambda>d. names ! d = names ! c) [0..<length names] = filter (\<lambda>d. d = c) [0..<length names]"
      using assms that by (intro filter_cong) (auto simp: nth_eq_iff_index_eq)
    also have "\<dots> = [c]" using that by (rule filter_upt)
    finally show ?thesis by (simp add: filter_map comp_def)
  qed
  have "group_by snd (map (\<lambda>c. (c, names ! c)) [0..<length names])
    = map (\<lambda>k. (k, filter (\<lambda>x. snd x = k) (map (\<lambda>c. (c, names ! c)) [0..<length names]))) names"
    unfolding group_by_eq keys ..
  then show ?thesis using one by (intro nth_equalityI) auto
qed

lemma single_issues: "\<forall>(f, cs) \<in> set G. length cs = 1 \<Longrightarrow> ch_issues (foldl (choose_step py_str g h) ch G) = ch_issues ch"
proof (induction G arbitrary: ch)
  case (Cons e G)
  then have "ch_issues (choose_step py_str g h ch e) = ch_issues ch" by (cases e) (simp add: choose_step_def Let_def)
  with Cons show ?case by simp
qed simp

lemma missing_no_error:
  assumes "\<forall>spec \<in> set specs. essential spec \<longrightarrow> fs_name spec \<in> fst ` set columns" "\<not> any_error issues"
  shows "\<not> any_error (foldl (missing_step columns) issues specs)"
  using assms
proof (induction specs arbitrary: issues)
  case (Cons spec specs)
  have "\<not> any_error (missing_step columns issues spec)"
    using Cons.prems by (auto simp: missing_step_def missing_issue_def essential_def issue_def any_error_def split: tier.splits)
  with Cons show ?case by simp
qed simp

text \<open>The headers of a clean table: each names a field, no two the same one, none is a bare \<open>Carpeta\<close>.\<close>

definition clean_headers :: "ucd \<Rightarrow> (pyval \<Rightarrow> pystr) \<Rightarrow> grid \<Rightarrow> nat \<Rightarrow> string list \<Rightarrow> bool" where
  "clean_headers u py_str g h names \<longleftrightarrow>
     map (\<lambda>c. recognize u py_str (cell_at g h c)) [0..<grid_width g] = map Some names
     \<and> distinct names \<and> bare_carpeta \<notin> set names \<and> (\<forall>spec \<in> set field_specs. essential spec \<longrightarrow> fs_name spec \<in> set names)"

lemma clean_columns:
  assumes "space_tables u" "clean_headers u py_str g h names"
  shows "\<exists>lc. resolve_columns u py_str g h = Some lc \<and> lc_columns lc = zip names [0..<length names] \<and> \<not> any_error (lc_issues lc)"
proof -
  define n where "n = length names"
  let ?rec = "\<lambda>c. recognize u py_str (cell_at g h c)"
  have hs: "map ?rec [0..<grid_width g] = map Some names" and dn: "distinct names" and nobare: "bare_carpeta \<notin> set names"
    and ess: "\<forall>spec \<in> set field_specs. essential spec \<longrightarrow> fs_name spec \<in> set names"
    using assms(2) unfolding clean_headers_def by blast+
  have w: "grid_width g = n" using arg_cong [OF hs, of length] by (simp add: n_def)
  have rec: "?rec c = Some (names ! c)" if "c < n" for c
    using arg_cong [OF hs, of "\<lambda>l. l ! c"] that w by (simp add: n_def)
  have bare: "names ! c \<noteq> bare_carpeta" if "c < n" for c using nobare that nth_mem [of c names] by (metis n_def)
  have pmf: "''pmf'' \<in> set names" using pmf_essential ess by metis
  then have n0: "0 < n" by (auto simp: n_def)
  have nb: "\<forall>c < n. \<not> blank_column py_str g h c"
    using recognize_visible [OF assms(1) rec] by (simp add: blank_column_def)
  have fields: "block_fields ?rec [0..<n] = names"
  proof -
    have "block_fields ?rec [0..<n] = concat (map (\<lambda>c. [names ! c]) [0..<n])"
      unfolding block_fields_def by (rule arg_cong [of _ _ concat], rule map_cong) (use rec bare in auto)
    also have "\<dots> = map (\<lambda>c. names ! c) [0..<n]" by (induction n) simp_all
    finally show ?thesis by (simp add: n_def map_nth)
  qed
  have j: "join_blocks ?rec [[0..<n]] = Some \<lparr>jn_business = [0..<n], jn_fields = names, jn_joined = [], jn_aux = []\<rparr>"
    using pmf by (simp add: join_blocks_def fields)
  have none: "filter (\<lambda>c. ?rec c = Some bare_carpeta) [0..<n] = []" "filter (\<lambda>c. ?rec c = None) [0..<n] = []"
    "filter (\<lambda>c. ?rec c = None \<and> P c) [0..<n] = []" for P
    using rec bare by (auto simp: filter_empty_conv)
  have named: "filter (\<lambda>c. ?rec c \<noteq> None \<and> ?rec c \<noteq> Some bare_carpeta) [0..<n] = [0..<n]"
    using rec bare by (auto simp: filter_id_conv)
  have carpeta: "resolve_carpeta_columns [] [0..<n] ?rec = ([], [])"
    by (simp add: resolve_carpeta_columns_def carpeta_claims_def group_by_def)
  have "claimed ?rec [0..<n] = map (\<lambda>c. (c, names ! c)) [0..<n]"
    unfolding claimed_def named none(1) carpeta using rec by simp
  then have "group_by snd (claimed ?rec [0..<n]) = map (\<lambda>c. (names ! c, [(c, names ! c)])) [0..<n]"
    using groups_singleton [OF dn] by (simp add: n_def)
  then have groups: "cg_groups (group_columns py_str g h ?rec [0..<n]) = map (\<lambda>c. (names ! c, [c])) [0..<n]"
    unfolding group_columns_groups by simp
  have cgi: "cg_issues (group_columns py_str g h ?rec [0..<n]) = []"
    unfolding group_columns_def Let_def none carpeta by simp
  define ch where "ch = foldl (choose_step py_str g h) \<lparr>ch_columns = [], ch_decisions = cg_decisions (group_columns py_str g h ?rec [0..<n]), ch_issues = []\<rparr>
    (map (\<lambda>c. (names ! c, [c])) [0..<n])"
  have chi: "ch_issues ch = []" unfolding ch_def by (subst single_issues) auto
  have "ch_columns ch = map (\<lambda>(f, cs). (f, hd (sort cs))) (filter (\<lambda>(f, cs). \<not> undecided g h cs) (map (\<lambda>c. (names ! c, [c])) [0..<n]))"
    unfolding ch_def by (subst choose_all) (use dn in \<open>simp_all add: comp_def n_def map_nth\<close>)
  also have "\<dots> = map (\<lambda>c. (names ! c, c)) [0..<n]" by (simp add: filter_map comp_def undecided_def)
  also have "\<dots> = zip names [0..<length names]" by (intro nth_equalityI) (simp_all add: n_def)
  finally have chc: "ch_columns ch = zip names [0..<length names]" .
  have "fst ` set (ch_columns ch) = set names" unfolding chc by (metis list.set_map map_fst_zip length_upt minus_nat.diff_0)
  then have err: "\<not> any_error (foldl (missing_step (ch_columns ch)) [] field_specs)"
    using ess by (intro missing_no_error) (simp_all add: any_error_def)
  have bi: "block_issues (blank_column py_str g h) \<lparr>jn_business = [0..<n], jn_fields = names, jn_joined = [], jn_aux = []\<rparr> = []"
    by (simp add: block_issues_def Let_def)
  show ?thesis
    unfolding resolve_columns_def Let_def w one_block [OF nb n0] j
    by (simp add: groups cgi bi chi err flip: ch_def) (simp add: chc)
qed


lemma zip_names: "distinct names \<Longrightarrow> k < length names \<Longrightarrow> map_of (zip names [0..<length names]) (names ! k) = Some k"
  by (simp add: map_of_zip_nth)

lemma clean_accepted:
  assumes "space_tables u" and "detect_header_row u py_str g = Inr h" and "clean_headers u py_str g h names"
    and "k < length names" and "names ! k = ''pmf''" and "\<exists>r \<in> set (data_rows g h). \<not> is_blank (cell_at g r k)"
  shows "\<exists>res. resolve_resumen_layout u py_str fc g = Some res \<and> \<not> has_errors (lx_report res)
    \<and> map rw_number (lx_rows res) = map Suc (filter (\<lambda>r. \<not> is_blank (cell_at g r k)) (data_rows g h))
    \<and> (\<forall>row \<in> set (lx_rows res). row_ok u fc g (zip names [0..<length names]) row)"
proof -
  obtain lc where lc: "resolve_columns u py_str g h = Some lc" "lc_columns lc = zip names [0..<length names]" "\<not> any_error (lc_issues lc)"
    using clean_columns [OF assms(1,3)] by blast
  have d: "distinct names" using assms(3) by (simp add: clean_headers_def)
  then have "distinct (map fst (lc_columns lc))" "map_of (lc_columns lc) ''pmf'' = Some k"
    using zip_names [OF d assms(4)] assms(5) by (simp_all add: lc(2))
  note ok = read_rows_ok(1,2) [OF this refl, of u fc g h "lc_issues lc"]
  have "filter (kept g k) (data_rows g h) \<noteq> []" using assms(6) by (auto simp: filter_empty_conv kept_def)
  then have "rv_rows (read_rows u fc g h (lc_columns lc) (lc_issues lc)) \<noteq> []" using ok(1) by (metis map_is_Nil_conv)
  from rows_accepted [OF assms(2) lc(1,3) refl this] show ?thesis using ok by (auto simp: lc(2) kept_def [abs_def])
qed

text \<open>
  C22. A table whose headers are clean is accepted as soon as one data row has a PMF, whatever its
  cells hold: the report carries no error, every data row with a PMF is read, under its worksheet
  number, and every field of a row is the cell of its column. No error text, unreadable number or
  date, missing value or contradiction between rows blocks the upload.
\<close>

theorem clean_table_accepted:
  assumes "space_tables u" and "detect_header_row u py_str g = Inr h" and "clean_headers u py_str g h names"
    and "k < length names" and "names ! k = ''pmf''" and "\<exists>r \<in> set (data_rows g h). \<not> is_blank (cell_at g r k)"
  shows "\<exists>res. resolve_resumen_layout u py_str fc g = Some res \<and> \<not> has_errors (lx_report res)
    \<and> map rw_number (lx_rows res) = map Suc (filter (\<lambda>r. \<not> is_blank (cell_at g r k)) (data_rows g h))
    \<and> (\<forall>row \<in> set (lx_rows res). row_ok u fc g (zip names [0..<length names]) row)"
  by (rule clean_accepted [OF assms])

section \<open>A workbook in small\<close>

definition small_specs :: "field_spec_t list" where
  "small_specs = filter essential field_specs"

definition small_grid :: grid where
  "small_grid = [map (\<lambda>s. VStr (fs_header s)) small_specs,
     [VStr (lit ''P1''), VNone, VNone, VNone, VNone, VNone, VFloat (Fin 3), VNone, VNone, VNone]]"

lemma small_names:
  "map fs_name small_specs = [''pmf'', ''estado'', ''estado_resumido'', ''tipo_propietario'', ''rol'', ''numero_predio'',
     ''superficie_corta'', ''numero_ingreso'', ''empresa'', ''id_predio_unico'']"
  by (simp add: small_specs_def field_specs_def field_spec_def essential_def)

lemma small_length: "length small_specs = 10"
  using arg_cong [OF small_names, of length] by simp

lemma small_recognize: "s \<in> set small_specs \<Longrightarrow> recognize latin_ucd py_str (VStr (fs_header s)) = Some (fs_name s)"
proof -
  assume s: "s \<in> set small_specs"
  have "list_all (\<lambda>s. ascii_header (fs_header s) \<noteq> [] \<and> ascii_header (fs_header s) \<noteq> lit bare_carpeta) small_specs"
    by (simp add: small_specs_def field_specs_def field_spec_def essential_def ascii_header_defs bare_carpeta_def)
  with s have "ascii_header (fs_header s) \<noteq> []" "ascii_header (fs_header s) \<noteq> lit bare_carpeta" by (auto simp: list_all_iff)
  with s show ?thesis by (intro recognize_name [OF latin.ascii_tables_axioms]) (simp_all add: small_specs_def)
qed

lemma small_rows: "small_grid ! 0 = map (\<lambda>s. VStr (fs_header s)) small_specs" "length small_grid = 2" "grid_width small_grid = 10"
  by (simp_all add: small_grid_def grid_width_def small_length)

lemma small_header: "detect_header_row latin_ucd py_str small_grid = Inr 0"
proof -
  have "row_fields latin_ucd py_str (small_grid ! 0) = remdups (concat (map (\<lambda>s. [fs_name s]) small_specs))"
    unfolding row_fields_def small_rows(1) map_map comp_def
    by (intro arg_cong [of _ _ remdups] arg_cong [of _ _ concat] map_cong) (simp_all add: small_recognize)
  also have "\<dots> = map fs_name small_specs" unfolding concat_map_singleton small_names by simp
  finally have r0: "row_fields latin_ucd py_str (small_grid ! 0) = map fs_name small_specs" .
  have "set (row_fields latin_ucd py_str (small_grid ! 1)) \<subseteq> (\<lambda>v. the (recognize latin_ucd py_str v)) ` {VStr (lit ''P1''), VNone, VFloat (Fin 3)}"
    by (auto simp: row_fields_iff small_grid_def)
  then have "card (set (row_fields latin_ucd py_str (small_grid ! 1))) \<le> card ((\<lambda>v. the (recognize latin_ucd py_str v)) ` {VStr (lit ''P1''), VNone, VFloat (Fin 3)})"
    by (intro card_mono) simp_all
  also have "\<dots> \<le> 3" by (rule order_trans [OF card_image_le]) simp_all
  finally have r1: "length (row_fields latin_ucd py_str (small_grid ! 1)) \<le> 3" by (simp add: row_fields_def length_remdups_card_conv)
  have "[0..<min 15 (length small_grid)] = [0, 1]" by (simp add: small_rows(2) upt_rec)
  then have "header_scores latin_ucd py_str small_grid = [(10, 0)]"
    using r1 by (simp add: header_scores_def Let_def r0 small_names)
  then show ?thesis by (simp add: detect_header_row_def)
qed

lemma small_clean: "clean_headers latin_ucd py_str small_grid 0 (map fs_name small_specs)"
proof -
  have "map (\<lambda>c. recognize latin_ucd py_str (cell_at small_grid 0 c)) [0..<10] = map Some (map fs_name small_specs)"
    by (intro nth_equalityI) (simp_all add: cell_at_def small_rows(1) small_length small_recognize)
  moreover have "distinct (map fs_name small_specs)" "bare_carpeta \<notin> set (map fs_name small_specs)"
    unfolding small_names by (simp_all add: bare_carpeta_def)
  ultimately show ?thesis unfolding clean_headers_def small_rows(3) by (simp add: small_specs_def)
qed


lemma small_data: "data_rows small_grid 0 = [Suc 0]" "cell_at small_grid (Suc 0) 0 = VStr (lit ''P1'')" "cell_at small_grid (Suc 0) 6 = VFloat (Fin 3)"
  by (simp_all add: data_rows_def small_rows(2) upt_rec cell_at_def small_grid_def)

lemma small_pmf: "\<not> is_blank (VStr (lit ''P1''))"
  by (simp add: is_blank_def strip_def strip_by_def is_space_def)

lemma small_resolved:
  "\<exists>res. resolve_resumen_layout latin_ucd py_str (\<lambda>_. None) small_grid = Some res \<and> \<not> has_errors (lx_report res)
    \<and> map rw_number (lx_rows res) = [2]
    \<and> (\<forall>row \<in> set (lx_rows res). row_ok latin_ucd (\<lambda>_. None) small_grid (zip (map fs_name small_specs) [0..<10]) row)"
proof -
  have "0 < length (map fs_name small_specs)" "map fs_name small_specs ! 0 = ''pmf''" by (simp_all add: small_names)
  from clean_accepted [OF space_tables_latin small_header small_clean this, of py_str "\<lambda>_. None"]
  show ?thesis using small_pmf unfolding small_data length_map small_length by (simp add: small_data numeral_2_eq_2)
qed

theorem clean_table_accepted_witness:
  "\<exists>res. resolve_resumen_layout latin_ucd (\<lambda>_. []) (\<lambda>_. None) small_grid = Some res \<and> \<not> has_errors (lx_report res)
    \<and> map rw_number (lx_rows res) = [2]"
proof -
  have "0 < length (map fs_name small_specs)" "map fs_name small_specs ! 0 = ''pmf''" by (simp_all add: small_names)
  from clean_table_accepted [OF space_tables_latin small_header small_clean this, of "\<lambda>_. []" "\<lambda>_. None"]
  show ?thesis using small_pmf unfolding small_data by (auto simp: small_data numeral_2_eq_2)
qed

definition small_workbook :: workbook where
  "small_workbook = Some ([lit ''Resumen''], \<lambda>_. (small_grid, \<lambda>_. None))"

lemma small_load:
  "\<exists>r report. load_transelec_workbook latin_ucd py_str small_workbook = Inr ([r], report)
    \<and> ev_get (rw_values r) ''pmf'' = VStr (lit ''P1'') \<and> ev_get (rw_values r) ''superficie_corta'' = VFloat (Fin 3)
    \<and> ev_get (rw_values r) ''superficie_total_corta'' = VNone"
proof -
  obtain res where res: "resolve_resumen_layout latin_ucd py_str (\<lambda>_. None) small_grid = Some res" "\<not> has_errors (lx_report res)"
    "map rw_number (lx_rows res) = [2]"
    and ok: "\<forall>row \<in> set (lx_rows res). row_ok latin_ucd (\<lambda>_. None) small_grid (zip (map fs_name small_specs) [0..<10]) row"
    using small_resolved [of py_str] by (elim exE conjE)
  from res(3) obtain r where r: "lx_rows res = [r]" "rw_number r = 2" by (auto simp: map_eq_Cons_conv)
  have "is_ascii (filter (\<lambda>c. c \<noteq> 176 \<and> c \<noteq> 186) (lit ''Resumen''))" by (simp add: is_ascii_def)
  from fold_header_ascii [OF latin.ascii_tables_axioms this] have "fold_header latin_ucd (lit ''Resumen'') = lit ''resumen''"
    by (simp add: ascii_header_defs)
  then have "find_resumen_sheet latin_ucd [lit ''Resumen''] = Inr (lit ''Resumen'')" by (simp add: find_resumen_sheet_def)
  then have load: "load_transelec_workbook latin_ucd py_str small_workbook = Inr ([r], lx_report res)"
    using res(1,2) r(1) small_rows(2) by (auto simp: load_transelec_workbook_def small_workbook_def)
  let ?cols = "zip (map fs_name small_specs) [0..<10]"
  have cols: "map_of ?cols ''pmf'' = Some 0" "map_of ?cols ''superficie_corta'' = Some 6" "map_of ?cols ''superficie_total_corta'' = None"
    unfolding small_names by (simp_all add: upt_rec)
  have val: "ev_get (rw_values r) n = (case map_of ?cols n of None \<Rightarrow> VNone | Some c \<Rightarrow> clean_cell (\<lambda>_. None) small_grid (Suc 0) c)"
    if "cproj n m k \<in> set resumen_row_projection" for n m k
  proof -
    note c = that
    obtain spec where spec: "spec \<in> set field_specs" "fs_name spec = n" using projection_field [OF c] by (auto simp: cproj_def)
    have "row_ok latin_ucd (\<lambda>_. None) small_grid ?cols r" "rw_number r - 1 = Suc 0" using ok r by simp_all
    with spec show ?thesis unfolding row_ok_def by metis
  qed
  have "clean_cell (\<lambda>_. None) small_grid (Suc 0) 0 = VStr (lit ''P1'')" "clean_cell (\<lambda>_. None) small_grid (Suc 0) 6 = VFloat (Fin 3)"
    using small_pmf unfolding clean_cell_def dropped_def small_data
    by (simp_all add: excel_error_values_def strip_def strip_by_def is_space_def is_blank_def)
  note cell = this
  have "ev_get (rw_values r) ''pmf'' = VStr (lit ''P1'')" "ev_get (rw_values r) ''superficie_corta'' = VFloat (Fin 3)"
    "ev_get (rw_values r) ''superficie_total_corta'' = VNone"
    using val [OF projection_entries(1)] val [OF projection_entries(3)] val [OF projection_entries(4)]
    unfolding cols option.case cell by this+
  with load show ?thesis by (intro exI conjI)
qed

end
