(* ===== verification/ProjectionClaims.thy ===== *)
theory ProjectionClaims
  imports CleanTable
begin

text \<open>
  The properties of the import of a workbook: what each stored column holds, and that a readable
  workbook is imported, once, whatever order the database adds its areas in.
\<close>

section \<open>The columns that are stored\<close>

lemma effective_plain: "dates_ok r \<Longrightarrow> kind_of n \<noteq> K_date \<Longrightarrow> effective_value r n = ev_get (rw_values r) n"
proof -
  assume "dates_ok r" "kind_of n \<noteq> K_date"
  then have "map_of (rw_text_dates r) n = None" by (auto simp: dates_ok_def map_of_eq_None_iff)
  then show ?thesis by (simp add: effective_value_def)
qed

lemma projection_numbers:
  "\<forall>c \<in> set resumen_row_projection. cp_kind c = K_number \<longrightarrow> cp_field c \<in> {''superficie_corta'', ''superficie_total_corta''}"
  by (simp add: resumen_row_projection_def cproj_def)

lemma project_row_key: "project_row u py_str r = Inr p \<Longrightarrow> strip_by (\<lambda>c. c = 32) (pj_key p) \<noteq> []"
  by (elim project_row_cases) (simp add: key_visible)

lemma column_text_pmf:
  assumes "project_row u py_str r = Inr p" "dates_ok r"
  shows "column_text (pj_columns p) ''pmf'' = projected_text py_str (ev_get (rw_values r) ''pmf'')"
    and "column_text (pj_columns p) ''id_predio_unico'' = projected_text py_str (ev_get (rw_values r) ''id_predio_unico'')"
  using column_text_some [OF assms projection_entries(1)] column_text_some [OF assms projection_entries(2)]
    projection_names(1) [OF projection_entries(1)] projection_names(1) [OF projection_entries(2)]
  by (simp_all add: cproj_def effective_plain [OF assms(2)])

lemma row_area_number:
  assumes "project_row u py_str r = Inr p" "dates_ok r"
  shows "projected_number u py_str (ev_get (rw_values r) ''superficie_corta'') = Inr (row_area p)"
proof -
  have "effective_value r ''superficie_corta'' = ev_get (rw_values r) ''superficie_corta''"
    using projection_names(1) [OF projection_entries(3)] by (intro effective_plain [OF assms(2)]) (simp add: cproj_def)
  with project_row_column [OF assms projection_entries(3)] show ?thesis
    by (cases "projected_number u py_str (ev_get (rw_values r) ''superficie_corta'')")
      (auto simp: cproj_def coerced_def row_area_def split: option.splits)
qed

lemma project_row_total:
  assumes "\<forall>n \<in> {''superficie_corta'', ''superficie_total_corta''}. \<exists>x. projected_number u py_str (ev_get (rw_values r) n) = Inr x"
  shows "\<exists>p. project_row u py_str r = Inr p"
proof -
  have "\<exists>e. bind_result (coerced u py_str (cp_kind c) (ev_get (rw_values r) (cp_field c))) (\<lambda>x. Inr (cp_column c, x)) = Inr e"
    if "c \<in> set resumen_row_projection" for c
  proof (cases "cp_kind c = K_number")
    case True
    with projection_numbers that have "cp_field c \<in> {''superficie_corta'', ''superficie_total_corta''}" by blast
    with assms True show ?thesis by (fastforce simp: coerced_def)
  next
    case False
    then show ?thesis by (cases "cp_kind c") (auto simp: coerced_def)
  qed
  from traverse_total [OF this] show ?thesis by (auto simp: project_row_def Let_def)
qed

text \<open>The text of a column, empty when it is null.\<close>

definition text_or_empty :: "projected_row \<Rightarrow> string \<Rightarrow> pystr" where
  "text_or_empty p name = (case column_text (pj_columns p) name of Some s \<Rightarrow> s | None \<Rightarrow> [])"

lemma key_columns:
  "cproj ''rol'' ''rol'' K_text \<in> set resumen_row_projection"
  "cproj ''numero_predio'' ''numero_predio'' K_text \<in> set resumen_row_projection"
  by (simp_all add: resumen_row_projection_def cproj_def)

lemma strip_text_or_empty:
  assumes "project_row u py_str r = Inr p" "dates_ok r" "cproj n n K_text \<in> set resumen_row_projection"
  shows "strip (text_or_empty p n) = text_or_empty p n"
proof (cases "column_text (pj_columns p) n")
  case (Some s)
  with column_text_some [OF assms] have "projected_text py_str (effective_value r n) = Some s" by (simp add: cproj_def)
  then have "strip s = s" using projected_text_stripped by blast
  with Some show ?thesis by (simp add: text_or_empty_def)
qed (simp add: text_or_empty_def strip_def strip_by_def)

text \<open>
  C21. The rows stored are exactly the rows read: as many, in order and under their worksheet numbers;
  every column holds the coercion of the effective value of its field, so that a date column holds
  the date read from its text when there is one; a text column is null or trimmed and not empty; and
  the group key is the id of the predio when the row has one, else PMF, rol and number joined, and is
  never blank.
\<close>

theorem import_columns_exact:
  assumes "distinct (map fst cols)" and "map_of cols ''pmf'' = Some pmf"
    and "rows = rv_rows (read_rows u fc g h cols issues)" and "traverse (project_row u py_str) rows = Inr stored"
  shows "map pj_number stored = map Suc (filter (\<lambda>r. \<not> is_blank (cell_at g r pmf)) (data_rows g h))
    \<and> list_all2 (\<lambda>r p.
        (\<forall>c \<in> set resumen_row_projection. \<exists>x. coerced u py_str (cp_kind c) (effective_value r (cp_field c)) = Inr x
           \<and> map_of (pj_columns p) (cp_column c) = Some x)
        \<and> (\<forall>c \<in> set resumen_row_projection. \<forall>s. cp_kind c = K_text \<and> column_text (pj_columns p) (cp_column c) = Some s \<longrightarrow> strip s = s \<and> s \<noteq> [])
        \<and> (\<forall>s. column_text (pj_columns p) ''id_predio_unico'' = Some s \<longrightarrow> pj_key p = s)
        \<and> (column_text (pj_columns p) ''id_predio_unico'' = None \<longrightarrow> pj_key p =
             concat [text_or_empty p ''pmf'', [45], text_or_empty p ''rol'', [45], text_or_empty p ''numero_predio''])
        \<and> strip_by (\<lambda>c. c = 32) (pj_key p) \<noteq> []) rows stored"
proof -
  note ok = read_rows_ok [OF assms(1-3)]
  have pairs: "list_all2 (\<lambda>r p. project_row u py_str r = Inr p) rows stored" using assms(4) by (simp add: traverse_Inr)
  have num: "pj_number p = rw_number r" if "project_row u py_str r = Inr p" for r p
    using that by (elim project_row_cases) simp
  have "map pj_number stored = map rw_number rows" using traverse_map [OF assms(4) num] .
  then have first: "map pj_number stored = map Suc (filter (\<lambda>r. \<not> is_blank (cell_at g r pmf)) (data_rows g h))"
    unfolding ok(1) by (simp add: kept_def [abs_def])
  have row: "(\<forall>c \<in> set resumen_row_projection. \<exists>x. coerced u py_str (cp_kind c) (effective_value r (cp_field c)) = Inr x
           \<and> map_of (pj_columns p) (cp_column c) = Some x)
        \<and> (\<forall>c \<in> set resumen_row_projection. \<forall>s. cp_kind c = K_text \<and> column_text (pj_columns p) (cp_column c) = Some s \<longrightarrow> strip s = s \<and> s \<noteq> [])
        \<and> (\<forall>s. column_text (pj_columns p) ''id_predio_unico'' = Some s \<longrightarrow> pj_key p = s)
        \<and> (column_text (pj_columns p) ''id_predio_unico'' = None \<longrightarrow> pj_key p =
             concat [text_or_empty p ''pmf'', [45], text_or_empty p ''rol'', [45], text_or_empty p ''numero_predio''])
        \<and> strip_by (\<lambda>c. c = 32) (pj_key p) \<noteq> []" if p: "project_row u py_str r = Inr p" and r: "r \<in> set rows" for r p
  proof -
    have d: "dates_ok r" using ok(3) r by blast
    have "pj_key p = s" if "column_text (pj_columns p) ''id_predio_unico'' = Some s" for s
    proof -
      have "strip s = s \<and> s \<noteq> []" using that column_text_pmf(2) [OF p d] projected_text_stripped by simp
      with p that show ?thesis by (elim project_row_cases) (simp add: resolve_predio_group_key_def)
    qed
    moreover have "strip_by (\<lambda>c. c = 32) (pj_key p) \<noteq> []" using p by (rule project_row_key)
    moreover have "pj_key p = concat [text_or_empty p ''pmf'', [45], text_or_empty p ''rol'', [45], text_or_empty p ''numero_predio'']"
      if none: "column_text (pj_columns p) ''id_predio_unico'' = None"
    proof -
      have "pj_key p = strip (text_or_empty p ''pmf'') @ [45] @ strip (text_or_empty p ''rol'') @ [45] @ strip (text_or_empty p ''numero_predio'')"
        using p none by (elim project_row_cases) (simp add: resolve_predio_group_key_def text_or_empty_def strip_def strip_by_def)
      then show ?thesis
        using strip_text_or_empty [OF p d projection_entries(1)] strip_text_or_empty [OF p d key_columns(1)] strip_text_or_empty [OF p d key_columns(2)]
        by simp
    qed
    ultimately show ?thesis
      using project_row_column [OF p d] column_text_some [OF p d] by (auto dest!: projected_text_stripped)
  qed
  have both: "list_all2 (\<lambda>r p. project_row u py_str r = Inr p \<and> r \<in> set rows) rows stored"
    using pairs by (auto simp: list_all2_conv_all_nth)
  show ?thesis by (rule conjI [OF first], rule list_all2_mono [OF both]) (elim conjE, rule row)
qed


theorem import_columns_exact_witness:
  "\<exists>stored. traverse (project_row latin_ucd (\<lambda>_. [])) (rv_rows (read_rows latin_ucd (\<lambda>_. None)
      [[VStr (lit ''PMF'')], [VStr (lit '' P1 '')], [VNone]] 0 [(''pmf'', 0)] [])) = Inr stored \<and> map pj_number stored = [2]"
proof -
  let ?cols = "[(''pmf'', 0)]"
  let ?g = "[[VStr (lit ''PMF'')], [VStr (lit '' P1 '')], [VNone]]"
  let ?rows = "rv_rows (read_rows latin_ucd (\<lambda>_. None) ?g 0 ?cols [])"
  have cols: "distinct (map fst ?cols)" "map_of ?cols ''pmf'' = Some 0" by simp_all
  have sp: "\<exists>spec \<in> set field_specs. fs_name spec = ''superficie_corta''" "\<exists>spec \<in> set field_specs. fs_name spec = ''superficie_total_corta''"
    using projection_field [OF projection_entries(3)] projection_field [OF projection_entries(4)]
    unfolding cproj_def column_projection.simps by blast+
  have nm: "map_of ?cols ''superficie_corta'' = None" "map_of ?cols ''superficie_total_corta'' = None" by simp_all
  have num: "\<exists>spec \<in> set field_specs. fs_name spec = n" if "n \<in> {''superficie_corta'', ''superficie_total_corta''}" for n
    using that sp by blast
  have none: "map_of ?cols n = None" if "n \<in> {''superficie_corta'', ''superficie_total_corta''}" for n using that nm by blast
  have "ev_get (rw_values r) n = VNone" if "r \<in> set ?rows" "n \<in> {''superficie_corta'', ''superficie_total_corta''}" for r n
  proof -
    note r = that
    obtain spec where spec: "spec \<in> set field_specs" "fs_name spec = n" using num [OF r(2)] by blast
    have "row_ok latin_ucd (\<lambda>_. None) ?g ?cols r"
      using read_rows_ok(2) [OF cols refl, of latin_ucd "\<lambda>_. None" ?g 0 "[]"] r(1) by blast
    then have "ev_get (rw_values r) (fs_name spec) = (case map_of ?cols (fs_name spec) of None \<Rightarrow> VNone
        | Some c \<Rightarrow> clean_cell (\<lambda>_. None) ?g (rw_number r - 1) c)"
      using spec(1) unfolding row_ok_def by blast
    then show ?thesis unfolding spec(2) none [OF r(2)] by simp
  qed
  then have "\<exists>p. project_row latin_ucd (\<lambda>_. []) r = Inr p" if "r \<in> set ?rows" for r
    using that by (intro project_row_total) (simp add: projected_number_def)
  note total = this
  obtain stored where st: "traverse (project_row latin_ucd (\<lambda>_. [])) ?rows = Inr stored"
    using traverse_total [of ?rows "project_row latin_ucd (\<lambda>_. [])", OF total] by blast
  have two: "map Suc (filter (\<lambda>r. \<not> is_blank (cell_at ?g r 0)) (data_rows ?g 0)) = [2]"
    by (simp add: data_rows_def cell_at_def is_blank_def strip_def strip_by_def is_space_def upt_rec)
  show ?thesis
    by (rule exI [of _ stored], rule conjI [OF st], rule trans [OF import_columns_exact [OF cols refl st, THEN conjunct1] two])
qed

section \<open>The import\<close>

lemma read_validated_ok:
  assumes "load_transelec_workbook u py_str wb = Inr (source, report)" "traverse (project_row u py_str) source = Inr rows"
    and "\<forall>r \<in> set rows. column_text (pj_columns r) ''pmf'' \<notin> {None, Some []}" "fsum (List.map_filter row_area rows) = Inr s"
  shows "\<exists>vw. read_validated_workbook u py_str wb = Inr vw \<and> vw_rows vw = rows \<and> vw_business vw = length rows
    \<and> vw_pmf vw = length (dedup (map (\<lambda>r. column_text (pj_columns r) ''pmf'') rows))
    \<and> vw_predio vw = length (dedup (List.map_filter (\<lambda>r. column_text (pj_columns r) ''id_predio_unico'') rows)) \<and> vw_surface vw = s"
proof -
  have "filter (\<lambda>r. column_text (pj_columns r) ''pmf'' \<in> {None, Some []}) rows = []" using assms(3) by (simp add: filter_empty_conv)
  then show ?thesis using assms(1,2,4) by (simp add: read_validated_workbook_def raised_def)
qed

lemma find_append_None: "find P xs = None \<Longrightarrow> find P (xs @ ys) = find P ys"
  by (induction xs) (simp_all split: if_splits)

lemma inserted:
  assumes "vw_business vw \<noteq> 0" "vw_pmf vw \<noteq> 0" "find_existing_import db snapshot = None"
    and "snapshot \<in> set (id_snapshots db)" "run \<in> set (id_runs db)" "user \<in> set (id_users db)"
  shows "\<exists>i. insert_import vw snapshot run user now db = Inr (i, db\<lparr>id_imports := id_imports db @ [i], id_next := id_next db + 1\<rparr>)
    \<and> ti_id i = id_next db \<and> ti_snapshot i = snapshot \<and> ti_business i = vw_business vw"
  using assms by (simp add: insert_import_def Let_def)

lemma pmf_counted: "xs \<noteq> [] \<Longrightarrow> length (dedup (map f xs)) \<noteq> 0"
  by (cases xs) auto

text \<open>
  C5. A workbook that loads, whose rows have a readable PMF and whose areas are numbers from zero on
  with a sum in range, is imported for a snapshot that has no import, when the snapshot, the run and the
  user are stored, whatever order the database
  adds the areas in: no check of the stored rows against the workbook fails, exactly the import and
  its rows are added, one per row read; and importing the same snapshot again changes nothing and
  gives the same import.
\<close>

theorem import_succeeds:
  assumes "space_tables u" and "load_transelec_workbook u py_str wb = Inr (source, report)"
    and "find_existing_import db snapshot = None" and "\<forall>(j, _) \<in> set (id_rows db). j < id_next db"
    and "snapshot \<in> set (id_snapshots db)" "run \<in> set (id_runs db)" "user \<in> set (id_users db)"
    and "\<And>rows. mset (scan rows) = mset rows"
    and "\<forall>r \<in> set source. projected_text py_str (ev_get (rw_values r) ''pmf'') \<noteq> None"
    and "\<forall>r \<in> set source. \<exists>x. projected_number u py_str (ev_get (rw_values r) ''superficie_total_corta'') = Inr x"
    and "traverse (\<lambda>r. projected_number u py_str (ev_get (rw_values r) ''superficie_corta'')) source = Inr areas"
    and "List.map_filter id areas = map Fin qs" and "\<forall>q \<in> set qs. 0 \<le> q" and "length source \<le> 2 ^ 20" and "sum_list qs + 1 < pow2 1000"
  shows "\<exists>i rows db'. traverse (project_row u py_str) source = Inr rows
    \<and> db' = db\<lparr>id_imports := id_imports db @ [i], id_rows := id_rows db @ map (\<lambda>r. (ti_id i, r)) rows, id_next := id_next db + 1\<rparr>
    \<and> ti_snapshot i = snapshot \<and> ti_business i = length source
    \<and> validate_and_project u py_str scan wb snapshot run user now db = Inr (\<lparr>ir_import = i, ir_existed = False\<rparr>, db')
    \<and> validate_and_project u py_str scan wb snapshot run' user' now' db' = Inr (\<lparr>ir_import = i, ir_existed = True\<rparr>, db')"
proof -
  note ok = load_rows [OF assms(1,2)]
  have area: "\<exists>x. projected_number u py_str (ev_get (rw_values r) ''superficie_corta'') = Inr x" if "r \<in> set source" for r
    using assms(11) that by (auto simp: traverse_Inr list_all2_conv_all_nth in_set_conv_nth)
  have "\<exists>p. project_row u py_str r = Inr p" if "r \<in> set source" for r
    using area [OF that] assms(10) that by (intro project_row_total) simp
  then obtain rows where rows: "traverse (project_row u py_str) source = Inr rows" using traverse_total by metis
  have src: "\<exists>r \<in> set source. project_row u py_str r = Inr p \<and> dates_ok r" if "p \<in> set rows" for p
    using traverse_mem [OF rows that] ok(2) by blast
  have num: "pj_number p = rw_number r" if "project_row u py_str r = Inr p" for r p
    using that by (elim project_row_cases) simp
  have "map pj_number rows = map rw_number source" using traverse_map [OF rows num] .
  then have dist: "distinct (map pj_number rows)" and len: "length rows = length source" using ok(3) by (simp, metis length_map)
  have pmf: "\<exists>s. column_text (pj_columns p) ''pmf'' = Some s \<and> s \<noteq> []" if "p \<in> set rows" for p
    using src [OF that] column_text_pmf(1) assms(9) projected_text_stripped by (metis option.exhaust)
  have key: "\<forall>p \<in> set rows. strip_by (\<lambda>c. c = 32) (pj_key p) \<noteq> []"
    using src project_row_key by blast
  have "list_all2 (\<lambda>r p. project_row u py_str r = Inr p \<and> dates_ok r) source rows"
    using rows ok(2) by (auto simp: traverse_Inr list_all2_conv_all_nth)
  then have "list_all2 (\<lambda>r x. projected_number u py_str (ev_get (rw_values r) ''superficie_corta'') = Inr x) source (map row_area rows)"
    by (auto simp: list_all2_map2 row_area_number elim!: list_all2_mono)
  then have "areas = map row_area rows" using assms(11) unfolding traverse_Inr [symmetric] by simp
  then have areas: "List.map_filter row_area rows = map Fin qs"
    using assms(12) by (simp add: List.map_filter_def filter_map comp_def)
  have "length (List.map_filter row_area rows) \<le> length rows" by (simp add: List.map_filter_def)
  then have qs: "length qs \<le> 2 ^ 20" using areas len assms(14) by simp
  obtain s where s: "fsum (map Fin qs) = Inr s" using totals_close [OF assms(13) refl qs assms(15)] by blast
  obtain vw where vw: "read_validated_workbook u py_str wb = Inr vw" "vw_rows vw = rows" "vw_business vw = length rows"
    "vw_pmf vw = length (dedup (map (\<lambda>r. column_text (pj_columns r) ''pmf'') rows))"
    "vw_predio vw = length (dedup (List.map_filter (\<lambda>r. column_text (pj_columns r) ''id_predio_unico'') rows))" "vw_surface vw = s"
    using read_validated_ok [OF assms(2) rows, of s] pmf areas s by fastforce
  have "rows \<noteq> []" using len ok(1) by auto
  then have nonzero: "vw_business vw \<noteq> 0" "vw_pmf vw \<noteq> 0" using vw(3,4) pmf_counted [of rows] by simp_all
  obtain i where i: "insert_import vw snapshot run user now db = Inr (i, db\<lparr>id_imports := id_imports db @ [i], id_next := id_next db + 1\<rparr>)"
    "ti_id i = id_next db" "ti_snapshot i = snapshot" "ti_business i = length source"
    using inserted [OF nonzero assms(3,5-7), of now] vw(3) len by auto
  define db1 where "db1 = db\<lparr>id_imports := id_imports db @ [i], id_next := id_next db + 1\<rparr>"
  define db2 where "db2 = db1\<lparr>id_rows := id_rows db1 @ map (\<lambda>r. (ti_id i, r)) rows\<rparr>"
  have old: "\<forall>(j, _) \<in> set (id_rows db1). j < ti_id i" using assms(4) by (simp add: db1_def i(2))
  then have fresh: "filter (\<lambda>(j, _). j = ti_id i) (id_rows db) = []" by (force simp: db1_def filter_empty_conv)
  have ins: "insert_rows (ti_id i) vw db1 = Inr db2"
    using dist pmf fresh by (auto simp: insert_rows_def vw(2) db2_def list_ex_iff db1_def)
  have stored: "map snd (filter (\<lambda>(j, _). j = ti_id i) (id_rows db2)) = rows"
    using rows_read_back [OF old, of rows] by (simp add: db2_def)
  have here: "ti_id i \<in> set (map ti_id (id_imports db2))" by (simp add: db1_def db2_def)
  have some: "\<forall>r \<in> set rows. column_text (pj_columns r) ''pmf'' \<noteq> None" using pmf by auto
  have total: "fsum (map Fin qs) = Inr (vw_surface vw)" using s vw(6) by simp
  have "\<exists>pa. read_persisted_aggregates scan db2 (ti_id i) = Inr pa \<and> verify_invariants vw pa = Inr ()"
    by (rule aggregates_agree [where rows = rows and qs = qs])
      (fact assms(8) stored here some key areas assms(13) qs assms(15) vw(2-5) total)+
  then obtain pa where pa: "read_persisted_aggregates scan db2 (ti_id i) = Inr pa" "verify_invariants vw pa = Inr ()" by blast
  have new: "find_existing_import db2 snapshot = Some i"
    using assms(3) i(3) by (simp add: find_existing_import_def db1_def db2_def find_append_None)
  have "validate_and_project u py_str scan wb snapshot run user now db = Inr (\<lparr>ir_import = i, ir_existed = False\<rparr>, db2)"
    using assms(3) by (simp add: validate_and_project_def vw(1) i(1) ins pa flip: db1_def)
  moreover have "validate_and_project u py_str scan wb snapshot run' user' now' db2 = Inr (\<lparr>ir_import = i, ir_existed = True\<rparr>, db2)"
    by (simp add: validate_and_project_def vw(1) new)
  moreover have "db2 = db\<lparr>id_imports := id_imports db @ [i], id_rows := id_rows db @ map (\<lambda>r. (ti_id i, r)) rows, id_next := id_next db + 1\<rparr>"
    by (simp add: db2_def db1_def)
  ultimately show ?thesis using rows i(3,4) by blast
qed


theorem import_succeeds_witness:
  "\<exists>res db. validate_and_project latin_ucd (\<lambda>_. []) rev small_workbook 7 1 1 0 \<lparr>id_snapshots = [7], id_runs = [1], id_users = [1], id_imports = [], id_rows = [], id_next = 1\<rparr> = Inr (res, db)
    \<and> \<not> ir_existed res \<and> length (id_rows db) = 1"
proof -
  let ?db = "\<lparr>id_snapshots = [7], id_runs = [1], id_users = [1], id_imports = [], id_rows = [], id_next = 1\<rparr>"
  obtain r report where l: "load_transelec_workbook latin_ucd (\<lambda>_. []) small_workbook = Inr ([r], report)"
    and v: "ev_get (rw_values r) ''pmf'' = VStr (lit ''P1'')" "ev_get (rw_values r) ''superficie_corta'' = VFloat (Fin 3)"
      "ev_get (rw_values r) ''superficie_total_corta'' = VNone"
    using small_load [of "\<lambda>_. []"] by (elim exE conjE)
  have new: "find_existing_import ?db 7 = None" by (simp add: find_existing_import_def)
  have fresh: "\<forall>(j, _) \<in> set (id_rows ?db). j < id_next ?db" by simp
  have pmf: "\<forall>r \<in> set [r]. projected_text (\<lambda>_. []) (ev_get (rw_values r) ''pmf'') \<noteq> None"
    using v(1) small_pmf by (simp add: projected_text_def str_value_def is_blank_def)
  have tot: "\<forall>r \<in> set [r]. \<exists>x. projected_number latin_ucd (\<lambda>_. []) (ev_get (rw_values r) ''superficie_total_corta'') = Inr x"
    using v(3) by (simp add: projected_number_def)
  have areas: "traverse (\<lambda>r. projected_number latin_ucd (\<lambda>_. []) (ev_get (rw_values r) ''superficie_corta'')) [r] = Inr [Some (Fin 3)]"
    using v(2) by (simp add: projected_number_def)
  have qs: "List.map_filter id [Some (Fin 3)] = map Fin [3]" by (simp add: List.map_filter_def)
  have "\<forall>q \<in> set [3 :: rat]. 0 \<le> q" "length [r] \<le> 2 ^ 20" "sum_list [3 :: rat] + 1 < pow2 1000"
    using pow2_mono [of 3 1000] by (simp_all add: pow2_def)
  from import_succeeds [OF space_tables_latin l new fresh _ _ _ _ pmf tot areas qs this, of 1 1 rev 0 1 1 0]
  show ?thesis by (auto simp: Let_def)
qed

section \<open>What the checks refuse\<close>

text \<open>A snapshot, a run or a user that is not stored is refused.\<close>

lemma missing_reference_refused:
  assumes "snapshot \<notin> set (id_snapshots db) \<or> run \<notin> set (id_runs db) \<or> user \<notin> set (id_users db)"
    and "read_validated_workbook u py_str wb = Inr vw" and "find_existing_import db snapshot = None"
  shows "validate_and_project u py_str scan wb snapshot run user now db = Inl Database_error"
  using assms by (auto simp: validate_and_project_def insert_import_def)

text \<open>
  A cell with the text \<open>nan\<close> counts as a number, with no finding, and is the area NaN: the total is
  then NaN, which is close to nothing, and the import of the workbook fails.
\<close>

theorem nan_text_is_number:
  "is_number_like latin_ucd (VStr (lit ''nan'')) \<and> projected_number latin_ucd py_str (VStr (lit ''nan'')) = Inr (Some NaN)"
proof -
  have "float_of_text latin_ucd (strip (lit ''nan'')) = Some NaN"
    by (simp add: float_of_text_def float_ascii_def sign_split_def ascii_lower_def float_char_def float_space_def strip_def
        strip_by_def is_space_def ascii_digit_def)
  moreover have "strip (lit ''nan'') \<noteq> []" by (simp add: strip_def strip_by_def is_space_def)
  ultimately show ?thesis by (simp add: is_number_like_def projected_number_def str_value_def Let_def del: lit_simps)
qed

lemma bind_fails: "(\<And>x. r = Inr x \<Longrightarrow> \<exists>e. f x = Inl e) \<Longrightarrow> \<exists>e. bind_result r f = Inl e"
  by (cases r) auto

theorem nan_area_refused:
  assumes "read_validated_workbook u py_str wb = Inr vw" and "vw_surface vw = NaN" and "find_existing_import db snapshot = None"
  shows "\<exists>e. validate_and_project u py_str scan wb snapshot run user now db = Inl e"
proof -
  have "isclose t x NaN = False" for t x by (cases x) (simp_all add: isclose_def)
  then have "verify_invariants vw pa = Inl Invariant_error" for pa by (simp add: verify_invariants_def assms(2))
  then show ?thesis using assms(1,3)
    by (auto simp: validate_and_project_def split: prod.splits intro!: bind_fails)
qed

text \<open>
  A row whose PMF cell holds an Excel error is kept by the layout, with its PMF emptied, and the
  whole workbook is then refused.
\<close>

theorem error_pmf_refused:
  assumes "space_tables u" and "load_transelec_workbook u py_str wb = Inr (source, report)" and "r \<in> set source"
    and "projected_text py_str (ev_get (rw_values r) ''pmf'') = None"
  shows "\<exists>e. read_validated_workbook u py_str wb = Inl e"
proof (cases "traverse (project_row u py_str) source")
  case (Inl e)
  then show ?thesis using assms(2) by (simp add: read_validated_workbook_def raised_def)
next
  case (Inr rows)
  then obtain p where p: "p \<in> set rows" "project_row u py_str r = Inr p"
    using assms(3) by (auto simp: traverse_Inr list_all2_conv_all_nth in_set_conv_nth) (metis nth_mem)
  have "dates_ok r" using load_rows(2) [OF assms(1,2)] assms(3) by blast
  from column_text_pmf(1) [OF p(2) this] assms(4) have "column_text (pj_columns p) ''pmf'' = None" by simp
  with p(1) have "filter (\<lambda>r. column_text (pj_columns r) ''pmf'' \<in> {None, Some []}) rows \<noteq> []" by (auto simp: filter_empty_conv)
  then show ?thesis using assms(2) Inr by (simp add: read_validated_workbook_def raised_def)
qed

end
