(* ===== verification/ReportGeometry.thy ===== *)
theory ReportGeometry
  imports Json PyFloat
begin

text \<open>
  \<open>app/forestry_report_geometry.py\<close>: whether the features of a management report may be stored, and
  what the server fills in. GEOS, reached through shapely, is the parameter \<open>gs\<close>; \<open>'g\<close> is its
  geometries and \<open>'j\<close> the GeoJSON the editor sends.
\<close>

section \<open>Data\<close>

datatype invalid_code = Too_many_features | Unknown_source | Attribute_not_editable | Attribute_not_text
  | Attribute_too_long | Geometry_unreadable | Geometry_invalid | Source_invalid_split | Piece_too_small
  | Split_coverage | Overlap

datatype geometry_error = Invalid invalid_code "int option" | Type_error

datatype report_warning = W_invalid_source_carried int | W_base_outdated | W_also_in_other_report pystr int

datatype geom_kind = G_multi | G_polygon | G_other

record ('g, 'j) geos =
  gs_shape :: "'j \<Rightarrow> 'g option"
  gs_kind :: "'g \<Rightarrow> geom_kind"
  gs_wrap :: "'g \<Rightarrow> 'g"
  gs_empty :: "'g \<Rightarrow> bool"
  gs_bounds :: "'g \<Rightarrow> pyfloat list"
  gs_valid :: "'g \<Rightarrow> bool"
  gs_area :: "'g \<Rightarrow> pyfloat"
  gs_length :: "'g \<Rightarrow> pyfloat"
  gs_parts :: "'g \<Rightarrow> nat"
  gs_coordinates :: "'g \<Rightarrow> nat"
  gs_hausdorff :: "'g \<Rightarrow> 'g \<Rightarrow> pyfloat"
  gs_union :: "'g list \<Rightarrow> 'g"
  gs_symmetric_difference :: "'g \<Rightarrow> 'g \<Rightarrow> 'g"
  gs_make_valid :: "'g \<Rightarrow> 'g"
  gs_intersection :: "'g \<Rightarrow> 'g \<Rightarrow> 'g"
  gs_intersecting :: "'g list \<Rightarrow> (nat \<times> nat) list"

record 'g source_polygon =
  sp_ordinal :: int
  sp_attributes :: "(pystr, json) pydict"
  sp_geometry :: 'g
  sp_valid :: bool

record 'j feature_input =
  fi_ordinal :: int
  fi_in_report :: bool
  fi_attributes :: "(pystr, json) pydict"
  fi_geometry :: "'j option"
  fi_sector :: "pystr option"
  fi_species :: "pystr list option"
  fi_density :: "int option"

record 'g resolved_feature =
  rf_position :: nat
  rf_ordinal :: int
  rf_in_report :: bool
  rf_changed :: bool
  rf_attributes :: "(pystr, json) pydict"
  rf_geometry :: 'g
  rf_sector :: "pystr option"
  rf_species :: "pystr list option"
  rf_density :: "int option"

record 'g resolution =
  rs_features :: "'g resolved_feature list"
  rs_warnings :: "report_warning list"

section \<open>Limits\<close>

definition max_features :: nat where "max_features = 500"

definition min_piece_area :: pyfloat where "min_piece_area = Fin 1"

definition coverage_tolerance :: pyfloat where "coverage_tolerance = round_double (1 / 100)"

definition overlap_tolerance :: pyfloat where "overlap_tolerance = round_double (1 / 100)"

definition untouched_tolerance :: pyfloat where "untouched_tolerance = round_double (1 / 10 ^ 6)"

definition editable_widths :: "(pystr \<times> nat) list" where
  "editable_widths =
     [(lit ''n_rodal'', 10), (lit ''n_rodal_te'', 3), (lit ''cod_uso'', 25), (lit ''uso_2024'', 50), (lit ''desc_uso'', 50),
      (lit ''uso_2026'', 50), (lit ''cod_uso_2026'', 25)]"

section \<open>Reading the features\<close>

definition utf8_length :: "pystr \<Rightarrow> nat" where
  "utf8_length s = sum_list (map (\<lambda>c. if c < 128 then 1 else if c < 2048 then 2 else if c < 65536 then 3 else 4) s)"

definition clean_attribute :: "int \<Rightarrow> pystr \<times> json \<Rightarrow> geometry_error + pystr \<times> json" where
  "clean_attribute ordinal entry =
     (let (key, value) = entry
      in case map_of editable_widths key of
           None \<Rightarrow> Inl (Invalid Attribute_not_editable (Some ordinal))
         | Some width \<Rightarrow>
             (case (case value of JNull \<Rightarrow> Some [] | JStr s \<Rightarrow> Some s | _ \<Rightarrow> None) of
                None \<Rightarrow> Inl (Invalid Attribute_not_text (Some ordinal))
              | Some s \<Rightarrow> let t = strip s
                          in if utf8_length t > width then Inl (Invalid Attribute_too_long (Some ordinal))
                             else Inr (key, if t = [] then JNull else JStr t)))"

definition clean_attributes :: "(pystr, json) pydict \<Rightarrow> int \<Rightarrow> geometry_error + (pystr, json) pydict" where
  "clean_attributes raw ordinal = traverse (clean_attribute ordinal) raw"

definition read_geometry :: "('g, 'j) geos \<Rightarrow> 'j \<Rightarrow> int \<Rightarrow> geometry_error + 'g" where
  "read_geometry gs raw ordinal =
     (case gs_shape gs raw of
        None \<Rightarrow> Inl (Invalid Geometry_unreadable (Some ordinal))
      | Some g \<Rightarrow> let g = (if gs_kind gs g = G_polygon then gs_wrap gs g else g)
                  in if gs_kind gs g \<noteq> G_multi \<or> gs_empty gs g \<or> \<not> list_all fl_finite (gs_bounds gs g)
                     then Inl (Invalid Geometry_unreadable (Some ordinal)) else Inr g)"

definition to_multipolygon :: "('g, 'j) geos \<Rightarrow> 'g \<Rightarrow> geometry_error + 'g" where
  "to_multipolygon gs g =
     (case gs_kind gs g of G_multi \<Rightarrow> Inr g | G_polygon \<Rightarrow> Inr (gs_wrap gs g) | G_other \<Rightarrow> Inl Type_error)"

definition same_shape :: "('g, 'j) geos \<Rightarrow> 'g \<Rightarrow> 'g \<Rightarrow> geometry_error + bool" where
  "same_shape gs candidate source =
     bind_result (to_multipolygon gs source) (\<lambda>target.
       Inr (gs_parts gs candidate = gs_parts gs target \<and> gs_coordinates gs candidate = gs_coordinates gs target
            \<and> fl_le (gs_hausdorff gs candidate target) untouched_tolerance))"

record ('g, 'j) parsed_feature =
  pf_item :: "'j feature_input"
  pf_geometry :: 'g
  pf_overrides :: "(pystr, json) pydict"

definition parse_feature :: "('g, 'j) geos \<Rightarrow> (int, 'g source_polygon) pydict \<Rightarrow> 'j feature_input
    \<Rightarrow> geometry_error + ('g, 'j) parsed_feature" where
  "parse_feature gs sources item =
     (let ordinal = fi_ordinal item
      in case map_of sources ordinal of
           None \<Rightarrow> Inl (Invalid Unknown_source (Some ordinal))
         | Some source \<Rightarrow>
             bind_result (clean_attributes (fi_attributes item) ordinal) (\<lambda>overrides.
             bind_result (case fi_geometry item of None \<Rightarrow> to_multipolygon gs (sp_geometry source)
                            | Some raw \<Rightarrow> read_geometry gs raw ordinal) (\<lambda>g.
               Inr \<lparr>pf_item = item, pf_geometry = g, pf_overrides = overrides\<rparr>)))"

section \<open>The pieces of one source\<close>

definition check_piece :: "('g, 'j) geos \<Rightarrow> int \<Rightarrow> 'g \<Rightarrow> geometry_error + unit" where
  "check_piece gs ordinal piece =
     (if \<not> gs_valid gs piece then Inl (Invalid Geometry_invalid (Some ordinal))
      else if fl_less (gs_area gs piece) min_piece_area then Inl (Invalid Piece_too_small (Some ordinal))
      else Inr ())"

definition check_source :: "('g, 'j) geos \<Rightarrow> (int, 'g source_polygon) pydict \<Rightarrow> int list \<times> report_warning list \<Rightarrow> int \<times> 'g list
    \<Rightarrow> geometry_error + int list \<times> report_warning list" where
  "check_source gs sources acc entry =
     (let (changed, warnings) = acc; (ordinal, pieces) = entry; source = the (map_of sources ordinal)
      in bind_result (traverse (\<lambda>piece. same_shape gs piece (sp_geometry source)) pieces) (\<lambda>same.
           if length pieces = 1 \<and> hd same then
             Inr (changed, warnings @ (if sp_valid source then [] else [W_invalid_source_carried ordinal]))
           else if list_all (\<lambda>b. b) same then Inr (changed, warnings)
           else if \<not> sp_valid source then Inl (Invalid Source_invalid_split (Some ordinal))
           else bind_result (traverse (check_piece gs ordinal) pieces) (\<lambda>_.
                  if fl_less coverage_tolerance (gs_area gs (gs_symmetric_difference gs (gs_union gs pieces) (sp_geometry source)))
                  then Inl (Invalid Split_coverage (Some ordinal))
                  else Inr (changed @ [ordinal], warnings))))"

section \<open>What is stored\<close>

definition attribute_get :: "(pystr, json) pydict \<Rightarrow> pystr \<Rightarrow> json" where
  "attribute_get d key = (case map_of d key of Some v \<Rightarrow> v | None \<Rightarrow> JNull)"

definition dict_update :: "('k, 'v) pydict \<Rightarrow> ('k, 'v) pydict \<Rightarrow> ('k, 'v) pydict" where
  "dict_update d e = foldl (\<lambda>d (k, v). AList.update k v d) d e"

definition resolve_feature :: "('g, 'j) geos \<Rightarrow> (int, 'g source_polygon) pydict \<Rightarrow> int list \<Rightarrow> nat \<times> ('g, 'j) parsed_feature
    \<Rightarrow> geometry_error + 'g resolved_feature" where
  "resolve_feature gs sources changed_sources entry =
     (let (position, p) = entry; item = pf_item p; ordinal = fi_ordinal item; source = the (map_of sources ordinal);
          changed = ordinal \<in> set changed_sources
      in bind_result (if changed then Inr (pf_geometry p) else to_multipolygon gs (sp_geometry source)) (\<lambda>stored.
           let attributes = dict_update (sp_attributes source) (pf_overrides p);
               attributes_changed = list_ex (\<lambda>(key, _). \<not> json_eq (attribute_get attributes key) (attribute_get (sp_attributes source) key))
                 (pf_overrides p);
               area = gs_area gs stored;
               attributes = (if changed then dict_update attributes
                   [(lit ''sup_ha'', JFloat (fl_div area (Fin 10000))), (lit ''shape_area'', JFloat area),
                    (lit ''shape_leng'', JFloat (gs_length gs stored))] else attributes);
               attributes = (if changed \<or> attributes_changed then AList.update (lit ''editada'') (JStr (lit ''wb'')) attributes else attributes)
           in Inr \<lparr>rf_position = position, rf_ordinal = ordinal, rf_in_report = fi_in_report item, rf_changed = changed,
                   rf_attributes = attributes, rf_geometry = stored, rf_sector = fi_sector item, rf_species = fi_species item,
                   rf_density = fi_density item\<rparr>))"

definition overlaps :: "('g, 'j) geos \<Rightarrow> 'g resolved_feature list \<Rightarrow> 'g list \<Rightarrow> nat \<times> nat \<Rightarrow> bool" where
  "overlaps gs features geometries ij =
     (let (i, j) = ij
      in i < j \<and> rf_ordinal (features ! i) = rf_ordinal (features ! j)
         \<and> fl_less overlap_tolerance (gs_area gs (gs_intersection gs (geometries ! i) (geometries ! j))))"

definition reject_overlaps :: "('g, 'j) geos \<Rightarrow> 'g resolved_feature list \<Rightarrow> geometry_error + unit" where
  "reject_overlaps gs features =
     (if length features < 2 then Inr ()
      else let geometries = map (\<lambda>f. gs_make_valid gs (rf_geometry f)) features
           in case find (overlaps gs features geometries) (gs_intersecting gs geometries) of
                None \<Rightarrow> Inr ()
              | Some (i, j) \<Rightarrow> Inl (Invalid Overlap (Some (rf_ordinal (features ! j)))))"

definition resolve_features :: "('g, 'j) geos \<Rightarrow> 'j feature_input list \<Rightarrow> (int, 'g source_polygon) pydict
    \<Rightarrow> geometry_error + 'g resolution" where
  "resolve_features gs inputs sources =
     (if length inputs > max_features then Inl (Invalid Too_many_features None)
      else bind_result (traverse (parse_feature gs sources) inputs) (\<lambda>parsed.
           let pieces = map (\<lambda>(o', ps). (o', map pf_geometry ps)) (group_by (\<lambda>p. fi_ordinal (pf_item p)) parsed)
           in bind_result (fold_result (check_source gs sources) ([], []) pieces) (\<lambda>(changed, warnings).
              bind_result (traverse (resolve_feature gs sources changed) (zip [1..<Suc (length parsed)] parsed)) (\<lambda>features.
              bind_result (reject_overlaps gs features) (\<lambda>_.
                Inr \<lparr>rs_features = features, rs_warnings = warnings\<rparr>)))))"

end
