(* ===== verification/Reports.thy ===== *)
theory Reports
  imports ReportGeometry ForestryPub ConafStore Access FloatSum
begin

text \<open>
  \<open>app/forestry_reports.py\<close>: management reports, their features and their review. A report is one
  row with a revision; every change states the revision it expects and raises it. What depends on
  the database's locale is the parameter \<open>de\<close>. The constraints of migrations 0014 to 0018 are
  checked where rows are written; an operation is one transaction.
\<close>

section \<open>Data\<close>

datatype report_type = RT_cosecha | RT_manejo | RT_reforestacion | RT_plantacion | RT_otro

datatype report_status = RS_borrador | RS_enviado | RS_aprobado | RS_cambios_solicitados | RS_archivado

datatype transition_action = TA_submit | TA_approve | TA_request_changes | TA_archive

datatype report_code = R_not_found | R_no_published_base | R_name_taken | R_invalid_name | R_invalid_month | R_invalid_date
  | R_not_editable | R_stale_revision | R_invalid_transition | R_nothing_marked | R_note_required | R_note_too_long
  | R_cannot_delete | R_invalid_conaf | R_sector_too_long | R_too_many_reforest_species | R_reforest_species_too_long
  | R_reforest_species_duplicate | R_invalid_reforest_density

datatype report_fault = Report_error report_code | Geometry_fault geometry_error | Integrity_fault | Data_fault

record report =
  rp_id :: int
  rp_name :: pystr
  rp_type :: report_type
  rp_month :: pystr
  rp_date :: "date option"
  rp_status :: report_status
  rp_base :: int
  rp_revision :: int
  rp_created_by :: int
  rp_created_at :: int
  rp_updated_at :: int
  rp_submitted_at :: "int option"
  rp_decided_at :: "int option"
  rp_decided_by :: "int option"
  rp_conaf :: "pystr option"

record report_note =
  rn_report :: int
  rn_kind :: report_status
  rn_body :: pystr
  rn_author :: int
  rn_at :: int

record 'g report_db =
  rb_reports :: "report list"
  rb_features :: "(int \<times> 'g resolved_feature) list"
  rb_notes :: "report_note list"
  rb_next :: int
  rb_now :: int
  rb_pub :: f_pub
  rb_sources :: "int \<Rightarrow> 'g source_polygon list"

record save_outcome =
  so_revision :: int
  so_count :: nat
  so_warnings :: "report_warning list"

record db_env =
  de_lower :: "pystr \<Rightarrow> pystr"
  de_key :: "pystr \<Rightarrow> pystr"
  de_float :: "pystr \<Rightarrow> pyfloat option"
  de_scan :: "json list \<Rightarrow> json list"

definition editable_statuses :: "report_status list" where
  "editable_statuses = [RS_borrador, RS_cambios_solicitados]"

definition max_name_length :: nat where "max_name_length = 120"

definition max_note_length :: nat where "max_note_length = 2000"

definition max_copy_suffix :: nat where "max_copy_suffix = 50"

fun transitions :: "transition_action \<Rightarrow> report_status list \<times> report_status" where
  "transitions TA_submit = ([RS_borrador, RS_cambios_solicitados], RS_enviado)"
| "transitions TA_approve = ([RS_enviado], RS_aprobado)"
| "transitions TA_request_changes = ([RS_enviado], RS_cambios_solicitados)"
| "transitions TA_archive = ([RS_borrador, RS_enviado, RS_aprobado, RS_cambios_solicitados], RS_archivado)"

section \<open>Names and dates\<close>

definition clean_name :: "pystr \<Rightarrow> report_fault + pystr" where
  "clean_name name = (let clean = strip name in if clean = [] \<or> length clean > max_name_length then Inl (Report_error R_invalid_name) else Inr clean)"

text \<open>The pattern with \<open>fullmatch\<close>, then \<open>date.fromisoformat\<close>.\<close>

definition check_date :: "pystr \<Rightarrow> report_fault + date" where
  "check_date s = (case fromisoformat s of None \<Rightarrow> Inl (Report_error R_invalid_date) | Some d \<Rightarrow> Inr d)"

text \<open>\<open>strftime("%Y-%m")\<close>; CPython 3.12.5 and later pad the year.\<close>

definition month_from_date :: "date \<Rightarrow> pystr" where
  "month_from_date d = digit4 (d_year d) @ [45] @ digit2 (d_month d)"

definition month_ok :: "pystr \<Rightarrow> bool" where
  "month_ok s \<longleftrightarrow> length s = 7 \<and> s ! 4 = 45 \<and> list_all ascii_digit (take 4 s) \<and> list_all ascii_digit (drop 5 s)
     \<and> 1 \<le> digits_value 0 (drop 5 s) \<and> digits_value 0 (drop 5 s) \<le> 12"

section \<open>The tables\<close>

definition name_in_use :: "db_env \<Rightarrow> 'g report_db \<Rightarrow> pystr \<Rightarrow> int option \<Rightarrow> bool" where
  "name_in_use de db name except \<longleftrightarrow>
     list_ex (\<lambda>r. de_lower de (rp_name r) = de_lower de name \<and> rp_status r \<noteq> RS_archivado \<and> except \<noteq> Some (rp_id r)) (rb_reports db)"

definition ensure_name_free :: "db_env \<Rightarrow> 'g report_db \<Rightarrow> pystr \<Rightarrow> int option \<Rightarrow> report_fault + unit" where
  "ensure_name_free de db name except = (if name_in_use de db name except then Inl (Report_error R_name_taken) else Inr ())"

text \<open>The checks on a row of \<open>forestry.report\<close> and its partial unique index.\<close>

definition report_ok :: "db_env \<Rightarrow> 'g report_db \<Rightarrow> report \<Rightarrow> bool" where
  "report_ok de db r \<longleftrightarrow>
     strip_by (\<lambda>c. c = 32) (rp_name r) \<noteq> [] \<and> length (rp_name r) \<le> 120 \<and> month_ok (rp_month r)
     \<and> (case rp_date r of None \<Rightarrow> True | Some d \<Rightarrow> rp_month r = take 7 (isoformat d)) \<and> 1 \<le> rp_revision r
     \<and> (case rp_conaf r of None \<Rightarrow> True | Some n \<Rightarrow> numero_ok n)
     \<and> (rp_status r = RS_archivado \<or> \<not> name_in_use de db (rp_name r) (Some (rp_id r)))"

definition get_row :: "'g report_db \<Rightarrow> int \<Rightarrow> report option" where
  "get_row db i = find (\<lambda>r. rp_id r = i) (rb_reports db)"

definition lock_report :: "'g report_db \<Rightarrow> int \<Rightarrow> report_fault + report" where
  "lock_report db i = (case get_row db i of None \<Rightarrow> Inl (Report_error R_not_found) | Some r \<Rightarrow> Inr r)"

definition insert_report :: "db_env \<Rightarrow> report \<Rightarrow> 'g report_db \<Rightarrow> report_fault + 'g report_db" where
  "insert_report de r db =
     (if report_ok de db r then Inr (db\<lparr>rb_reports := rb_reports db @ [r], rb_next := rb_next db + 1\<rparr>) else Inl Integrity_fault)"

definition update_row :: "db_env \<Rightarrow> int \<Rightarrow> (report \<Rightarrow> report) \<Rightarrow> 'g report_db \<Rightarrow> report_fault + 'g report_db" where
  "update_row de i f db =
     (if list_all (\<lambda>r. rp_id r = i \<longrightarrow> report_ok de db (f r)) (rb_reports db)
      then Inr (db\<lparr>rb_reports := map (\<lambda>r. if rp_id r = i then f r else r) (rb_reports db)\<rparr>) else Inl Integrity_fault)"

definition bump :: "db_env \<Rightarrow> int \<Rightarrow> 'g report_db \<Rightarrow> report_fault + 'g report_db" where
  "bump de i db = update_row de i (\<lambda>r. r\<lparr>rp_revision := rp_revision r + 1, rp_updated_at := rb_now db\<rparr>) db"

section \<open>Reading\<close>

record report_view =
  vr_report :: report
  vr_features :: nat
  vr_managed :: nat
  vr_area :: pyfloat

definition features_of :: "'g report_db \<Rightarrow> int \<Rightarrow> 'g resolved_feature list" where
  "features_of db i = map snd (filter (\<lambda>(j, _). j = i) (rb_features db))"

text \<open>\<open>(attributes ->> 'sup_ha')::float8\<close>; NULL is left out of the sum.\<close>

definition sup_ha :: "db_env \<Rightarrow> json \<Rightarrow> report_fault + pyfloat option" where
  "sup_ha de v =
     (case v of
        JNull \<Rightarrow> Inr None
      | JInt i \<Rightarrow> (case round_double (of_int i) of Fin q \<Rightarrow> Inr (Some (Fin q)) | _ \<Rightarrow> Inl Data_fault)
      | JFloat x \<Rightarrow> Inr (Some x)
      | JStr s \<Rightarrow> (case de_float de s of Some x \<Rightarrow> Inr (Some x) | None \<Rightarrow> Inl Data_fault)
      | _ \<Rightarrow> Inl Data_fault)"

definition report_view_of :: "db_env \<Rightarrow> 'g report_db \<Rightarrow> report \<Rightarrow> report_fault + report_view" where
  "report_view_of de db r =
     (let fs = features_of db (rp_id r); managed = filter rf_in_report fs;
          values = de_scan de (map (\<lambda>f. attribute_get (rf_attributes f) (lit ''sup_ha'')) managed)
      in bind_result (traverse (sup_ha de) values) (\<lambda>areas.
           case pg_sum (List.map_filter (\<lambda>a. a) areas) of
             None \<Rightarrow> Inl Data_fault
           | Some area \<Rightarrow> Inr \<lparr>vr_report = r, vr_features = length fs, vr_managed = length managed, vr_area = area\<rparr>))"

definition get_report :: "db_env \<Rightarrow> 'g report_db \<Rightarrow> int \<Rightarrow> report_fault + report_view option" where
  "get_report de db i =
     (case get_row db i of None \<Rightarrow> Inr None | Some r \<Rightarrow> bind_result (report_view_of de db r) (\<lambda>v. Inr (Some v)))"

definition list_reports :: "db_env \<Rightarrow> 'g report_db \<Rightarrow> report_status list option \<Rightarrow> report_fault + report_view list" where
  "list_reports de db statuses =
     traverse (report_view_of de db)
       (sort_key (\<lambda>r. (if rp_status r = RS_enviado then 0 else 1 :: nat, - rp_updated_at r, - rp_id r))
         (filter (\<lambda>r. case statuses of None \<Rightarrow> True | Some ss \<Rightarrow> rp_status r \<in> set ss) (rb_reports db)))"

definition list_report_features :: "'g report_db \<Rightarrow> int \<Rightarrow> 'g resolved_feature list" where
  "list_report_features db i = sort_key rf_position (features_of db i)"

definition load_source_polygons :: "'g report_db \<Rightarrow> int \<Rightarrow> int list \<Rightarrow> (int, 'g source_polygon) pydict" where
  "load_source_polygons db snapshot ordinals =
     map (\<lambda>p. (sp_ordinal p, p)) (filter (\<lambda>p. sp_ordinal p \<in> set ordinals) (rb_sources db snapshot))"

definition list_report_sources :: "'g report_db \<Rightarrow> int \<Rightarrow> 'g source_polygon list" where
  "list_report_sources db i =
     (case get_row db i of
        None \<Rightarrow> []
      | Some r \<Rightarrow> let sources = load_source_polygons db (rp_base r) (dedup (map rf_ordinal (features_of db i)))
                  in map (\<lambda>o'. the (map_of sources o')) (sort (dedup (map fst sources))))"

definition list_report_notes :: "'g report_db \<Rightarrow> int \<Rightarrow> report_note list" where
  "list_report_notes db i = sort_key rn_at (filter (\<lambda>n. rn_report n = i) (rb_notes db))"

section \<open>Creating and saving\<close>

definition create_report :: "db_env \<Rightarrow> pystr \<Rightarrow> report_type \<Rightarrow> date \<Rightarrow> int \<Rightarrow> 'g report_db \<Rightarrow> report_fault + int \<times> 'g report_db" where
  "create_report de name type date actor db =
     bind_result (clean_name name) (\<lambda>clean.
     case read_published_snapshot_id (rb_pub db) of
       None \<Rightarrow> Inl (Report_error R_no_published_base)
     | Some base \<Rightarrow>
         bind_result (ensure_name_free de db clean None) (\<lambda>_.
         bind_result (insert_report de \<lparr>rp_id = rb_next db, rp_name = clean, rp_type = type, rp_month = month_from_date date,
             rp_date = Some date, rp_status = RS_borrador, rp_base = base, rp_revision = 1, rp_created_by = actor,
             rp_created_at = rb_now db, rp_updated_at = rb_now db, rp_submitted_at = None, rp_decided_at = None,
             rp_decided_by = None, rp_conaf = None\<rparr> db) (\<lambda>db'. Inr (rb_next db, db'))))"

definition planning_fault :: "'j feature_input \<Rightarrow> report_fault + unit" where
  "planning_fault item =
     (if (case fi_sector item of None \<Rightarrow> False | Some s \<Rightarrow> length s > 60) then Inl (Report_error R_sector_too_long)
      else if (case fi_species item of None \<Rightarrow> False | Some ss \<Rightarrow> length ss > 6) then Inl (Report_error R_too_many_reforest_species)
      else if (case fi_species item of None \<Rightarrow> False | Some ss \<Rightarrow> list_ex (\<lambda>s. length s > 40) ss) then Inl (Report_error R_reforest_species_too_long)
      else if (case fi_species item of None \<Rightarrow> False | Some ss \<Rightarrow> \<not> distinct ss) then Inl (Report_error R_reforest_species_duplicate)
      else if (case fi_density item of None \<Rightarrow> False | Some n \<Rightarrow> \<not> (1 \<le> n \<and> n \<le> 20000)) then Inl (Report_error R_invalid_reforest_density)
      else Inr ())"

definition validate_planning_fields :: "'j feature_input list \<Rightarrow> report_fault + unit" where
  "validate_planning_fields inputs = bind_result (traverse planning_fault inputs) (\<lambda>_. Inr ())"

text \<open>The checks on a row of \<open>forestry.report_feature\<close>, migrations 0014 and 0018.\<close>

definition feature_ok :: "'g resolved_feature \<Rightarrow> bool" where
  "feature_ok f \<longleftrightarrow> 1 \<le> rf_position f \<and> 1 \<le> rf_ordinal f
     \<and> (case rf_sector f of None \<Rightarrow> True | Some s \<Rightarrow> strip_by (\<lambda>c. c = 32) s = s \<and> length s \<le> 60)
     \<and> (case rf_species f of None \<Rightarrow> True | Some ss \<Rightarrow> length ss \<le> 6 \<and> list_all (\<lambda>s. 1 \<le> length s \<and> length s \<le> 40) ss \<and> distinct ss)
     \<and> (case rf_density f of None \<Rightarrow> True | Some n \<Rightarrow> 1 \<le> n \<and> n \<le> 20000)"

text \<open>Other reports of the same base that hold one of the polygons, by polygon and name.\<close>

definition shared_source_warnings :: "db_env \<Rightarrow> 'g report_db \<Rightarrow> int \<Rightarrow> int \<Rightarrow> report_warning list" where
  "shared_source_warnings de db i base =
     (let mine = map rf_ordinal (features_of db i);
          pairs = concat (map (\<lambda>r. if rp_id r \<noteq> i \<and> rp_status r \<noteq> RS_archivado \<and> rp_base r = base
                    then map (\<lambda>o'. (o', rp_name r)) (filter (\<lambda>o'. o' \<in> set mine) (map rf_ordinal (features_of db (rp_id r)))) else [])
                  (rb_reports db))
      in map (\<lambda>(o', name). W_also_in_other_report name o') (sort_key (\<lambda>(o', name). (o', de_key de name)) (dedup pairs)))"

definition geometry_result :: "geometry_error + 'a \<Rightarrow> report_fault + 'a" where
  "geometry_result r = (case r of Inl e \<Rightarrow> Inl (Geometry_fault e) | Inr x \<Rightarrow> Inr x)"

definition save_report_features :: "('g, 'j) geos \<Rightarrow> db_env \<Rightarrow> int \<Rightarrow> int \<Rightarrow> 'j feature_input list \<Rightarrow> 'g report_db
    \<Rightarrow> report_fault + save_outcome \<times> 'g report_db" where
  "save_report_features gs de i expected inputs db =
     bind_result (lock_report db i) (\<lambda>locked.
     if rp_status locked \<notin> set editable_statuses then Inl (Report_error R_not_editable)
     else if rp_revision locked \<noteq> expected then Inl (Report_error R_stale_revision)
     else bind_result (validate_planning_fields inputs) (\<lambda>_.
     bind_result (geometry_result (resolve_features gs inputs
        (load_source_polygons db (rp_base locked) (map fi_ordinal inputs)))) (\<lambda>res.
     if \<not> list_all feature_ok (rs_features res) then Inl Integrity_fault
     else bind_result (bump de i (db\<lparr>rb_features := filter (\<lambda>(j, _). j \<noteq> i) (rb_features db)
                                       @ map (\<lambda>f. (i, f)) (rs_features res)\<rparr>)) (\<lambda>db.
       Inr (\<lparr>so_revision = rp_revision locked + 1, so_count = length (rs_features res),
             so_warnings = rs_warnings res
               @ (if read_published_snapshot_id (rb_pub db) \<noteq> Some (rp_base locked) then [W_base_outdated] else [])
               @ shared_source_warnings de db i (rp_base locked)\<rparr>, db)))))"

section \<open>The header\<close>

text \<open>An argument left out is \<open>None\<close>; \<open>Some None\<close> clears the field.\<close>

definition header_conaf :: "pystr option option \<Rightarrow> report_fault + pystr option" where
  "header_conaf conaf =
     (case conaf of
        Some (Some s) \<Rightarrow> (if strip s = [] then Inr None
          else case normalize_solicitud (Some s) of None \<Rightarrow> Inl (Report_error R_invalid_conaf) | Some n \<Rightarrow> Inr (Some n))
      | _ \<Rightarrow> Inr None)"

definition update_report_header :: "db_env \<Rightarrow> int \<Rightarrow> int \<Rightarrow> pystr option \<Rightarrow> report_type option \<Rightarrow> date option option
    \<Rightarrow> pystr option option \<Rightarrow> 'g report_db \<Rightarrow> report_fault + int \<times> 'g report_db" where
  "update_report_header de i expected name type date conaf db =
     bind_result (lock_report db i) (\<lambda>locked.
     if (if name = None \<and> type = None \<and> date = None \<and> conaf \<noteq> None then rp_status locked = RS_archivado
         else rp_status locked \<notin> set editable_statuses) then Inl (Report_error R_not_editable)
     else if rp_revision locked \<noteq> expected then Inl (Report_error R_stale_revision)
     else bind_result (case name of None \<Rightarrow> Inr None | Some n \<Rightarrow> bind_result (clean_name n) (\<lambda>c. Inr (Some c))) (\<lambda>clean.
     bind_result (case clean of None \<Rightarrow> Inr () | Some c \<Rightarrow> ensure_name_free de db c (Some i)) (\<lambda>_.
     bind_result (header_conaf conaf) (\<lambda>number.
     bind_result (update_row de i (\<lambda>r. r\<lparr>rp_name := (case clean of Some c \<Rightarrow> c | None \<Rightarrow> rp_name r),
          rp_type := (case type of Some t \<Rightarrow> t | None \<Rightarrow> rp_type r),
          rp_month := (case date of Some (Some d) \<Rightarrow> month_from_date d | _ \<Rightarrow> rp_month r),
          rp_date := (case date of Some d \<Rightarrow> d | None \<Rightarrow> rp_date r),
          rp_conaf := (if conaf \<noteq> None then number else rp_conaf r)\<rparr>) db) (\<lambda>db.
     bind_result (bump de i db) (\<lambda>db. Inr (rp_revision locked + 1, db)))))))"

section \<open>The review\<close>

definition transition_report :: "db_env \<Rightarrow> int \<Rightarrow> transition_action \<Rightarrow> int \<Rightarrow> int \<Rightarrow> pystr option \<Rightarrow> 'g report_db
    \<Rightarrow> report_fault + report_status \<times> 'g report_db" where
  "transition_report de i action expected actor note db =
     bind_result (lock_report db i) (\<lambda>locked.
     let (allowed_from, target) = transitions action; body = strip (case note of Some n \<Rightarrow> n | None \<Rightarrow> []);
         decides = action \<in> {TA_approve, TA_request_changes}
     in if rp_status locked \<notin> set allowed_from then Inl (Report_error R_invalid_transition)
        else if rp_revision locked \<noteq> expected then Inl (Report_error R_stale_revision)
        else if length body > max_note_length then Inl (Report_error R_note_too_long)
        else if action = TA_request_changes \<and> body = [] then Inl (Report_error R_note_required)
        else if action = TA_submit \<and> filter rf_in_report (features_of db i) = [] then Inl (Report_error R_nothing_marked)
        else bind_result (update_row de i (\<lambda>r. r\<lparr>rp_status := target,
               rp_submitted_at := (if action = TA_submit then Some (rb_now db) else rp_submitted_at r),
               rp_decided_at := (if decides then Some (rb_now db) else rp_decided_at r),
               rp_decided_by := (if decides then Some actor else rp_decided_by r)\<rparr>) db) (\<lambda>db.
             let db = (if action = TA_request_changes \<or> action = TA_approve \<and> body \<noteq> []
                       then db\<lparr>rb_notes := rb_notes db @ [\<lparr>rn_report = i, rn_kind = target, rn_body = body,
                                  rn_author = actor, rn_at = rb_now db\<rparr>]\<rparr> else db)
             in bind_result (bump de i db) (\<lambda>db. Inr (target, db))))"

section \<open>Copies and deletion\<close>

definition copy_suffix :: "nat \<Rightarrow> pystr" where
  "copy_suffix n = (if n = 1 then lit '' (copia)'' else lit '' (copia '' @ nat_digits n @ lit '')'')"

definition copy_name :: "pystr \<Rightarrow> nat \<Rightarrow> pystr" where
  "copy_name name n = take (max_name_length - length (copy_suffix n)) name @ copy_suffix n"

definition free_copy_name :: "db_env \<Rightarrow> 'g report_db \<Rightarrow> pystr \<Rightarrow> report_fault + pystr" where
  "free_copy_name de db name =
     (case find (\<lambda>n. \<not> name_in_use de db (copy_name name n) None) [1..<Suc max_copy_suffix] of
        None \<Rightarrow> Inl (Report_error R_name_taken) | Some n \<Rightarrow> Inr (copy_name name n))"

definition duplicate_report :: "db_env \<Rightarrow> int \<Rightarrow> int \<Rightarrow> 'g report_db \<Rightarrow> report_fault + int \<times> 'g report_db" where
  "duplicate_report de i actor db =
     bind_result (get_report de db i) (\<lambda>found.
     case found of
       None \<Rightarrow> Inl (Report_error R_not_found)
     | Some v \<Rightarrow>
         let source = vr_report v
         in bind_result (free_copy_name de db (rp_name source)) (\<lambda>name.
            bind_result (insert_report de \<lparr>rp_id = rb_next db, rp_name = name, rp_type = rp_type source, rp_month = rp_month source,
                rp_date = rp_date source, rp_status = RS_borrador, rp_base = rp_base source, rp_revision = 1, rp_created_by = actor,
                rp_created_at = rb_now db, rp_updated_at = rb_now db, rp_submitted_at = None, rp_decided_at = None,
                rp_decided_by = None, rp_conaf = rp_conaf source\<rparr> db) (\<lambda>db'.
              Inr (rb_next db, db'\<lparr>rb_features := rb_features db' @ map (\<lambda>f. (rb_next db, f)) (features_of db i)\<rparr>))))"

definition delete_report :: "int \<Rightarrow> 'g report_db \<Rightarrow> report_fault + 'g report_db" where
  "delete_report i db =
     bind_result (lock_report db i) (\<lambda>locked.
     if rp_status locked \<noteq> RS_borrador \<or> rp_submitted_at locked \<noteq> None then Inl (Report_error R_cannot_delete)
     else Inr (db\<lparr>rb_reports := filter (\<lambda>r. rp_id r \<noteq> i) (rb_reports db),
                  rb_features := filter (\<lambda>(j, _). j \<noteq> i) (rb_features db),
                  rb_notes := filter (\<lambda>n. rn_report n \<noteq> i) (rb_notes db)\<rparr>))"

end
