(* ===== verification/ReportRoutes.thy ===== *)
theory ReportRoutes
  imports Reports
begin

text \<open>
  \<open>app/routers/forestry_reports.py\<close>: who may do what to a report, the HTTP status of every error and
  the audit event of every change. A route is one transaction over the tables and the audit log; an
  error is its HTTP status, 500 for an exception nobody catches. \<open>csrf\<close> says whether
  \<open>require_csrf\<close> lets the request pass.
\<close>

section \<open>State\<close>

datatype report_event = RA_created | RA_saved | RA_submitted | RA_approved | RA_changes_requested | RA_archived
  | RA_duplicated | RA_deleted | RA_exported

record report_audit =
  ra_event :: report_event
  ra_report :: int
  ra_actor :: int

record 'g report_app =
  ra_db :: "'g report_db"
  ra_audit :: "report_audit list"

section \<open>Errors\<close>

fun status_for_code :: "report_code \<Rightarrow> nat option" where
  "status_for_code R_not_found = Some 404"
| "status_for_code R_no_published_base = Some 409"
| "status_for_code R_name_taken = Some 409"
| "status_for_code R_invalid_name = Some 422"
| "status_for_code R_invalid_month = Some 422"
| "status_for_code R_invalid_date = Some 422"
| "status_for_code R_not_editable = Some 409"
| "status_for_code R_stale_revision = Some 409"
| "status_for_code R_invalid_transition = Some 409"
| "status_for_code R_nothing_marked = Some 422"
| "status_for_code R_note_required = Some 422"
| "status_for_code R_note_too_long = Some 422"
| "status_for_code R_cannot_delete = Some 409"
| "status_for_code R_invalid_conaf = Some 422"
| "status_for_code _ = None"

text \<open>A code without a status is a \<open>KeyError\<close>.\<close>

definition http_error :: "report_fault \<Rightarrow> nat" where
  "http_error e =
     (case e of
        Report_error c \<Rightarrow> (case status_for_code c of Some n \<Rightarrow> n | None \<Rightarrow> 500)
      | Geometry_fault (Invalid _ _) \<Rightarrow> 422
      | _ \<Rightarrow> 500)"

section \<open>Permissions\<close>

definition require_forestry_grant :: "platform \<Rightarrow> int \<Rightarrow> action \<Rightarrow> nat + role" where
  "require_forestry_grant pl uid a = (case ensure_can pl uid (lit ''forestry'') a of Inl _ \<Rightarrow> Inl 403 | Inr r \<Rightarrow> Inr r)"

definition write_guard :: "action \<Rightarrow> bool \<Rightarrow> platform \<Rightarrow> int \<Rightarrow> nat + unit" where
  "write_guard a csrf pl uid =
     bind_result (require_forestry_grant pl uid View) (\<lambda>_.
     if \<not> csrf then Inl 403 else bind_result (require_forestry_grant pl uid a) (\<lambda>_. Inr ()))"

definition visible_report :: "db_env \<Rightarrow> 'g report_db \<Rightarrow> role \<Rightarrow> int \<Rightarrow> report_fault + report_view" where
  "visible_report de db r i =
     bind_result (get_report de db i) (\<lambda>found.
     case found of
       None \<Rightarrow> Inl (Report_error R_not_found)
     | Some v \<Rightarrow> if \<not> can (Some r) Edit \<and> rp_status (vr_report v) \<noteq> RS_aprobado then Inl (Report_error R_not_found) else Inr v)"

definition answered :: "report_fault + 'a \<Rightarrow> nat + 'a" where
  "answered r = (case r of Inl e \<Rightarrow> Inl (http_error e) | Inr x \<Rightarrow> Inr x)"

definition record_report_event :: "report_event \<Rightarrow> int \<Rightarrow> int \<Rightarrow> 'g report_app \<Rightarrow> 'g report_app" where
  "record_report_event event i uid app = app\<lparr>ra_audit := ra_audit app @ [\<lparr>ra_event = event, ra_report = i, ra_actor = uid\<rparr>]\<rparr>"

text \<open>The change and its audit event are one transaction.\<close>

definition committed :: "report_event \<Rightarrow> int \<Rightarrow> int \<Rightarrow> 'g report_db \<Rightarrow> 'g report_app \<Rightarrow> 'g report_app" where
  "committed event i uid db app = record_report_event event i uid (app\<lparr>ra_db := db\<rparr>)"

section \<open>Reads\<close>

definition get_reports :: "db_env \<Rightarrow> platform \<Rightarrow> int \<Rightarrow> report_status option \<Rightarrow> report_type option \<Rightarrow> 'g report_app
    \<Rightarrow> nat + report_view list \<times> nat" where
  "get_reports de pl uid status type app =
     bind_result (require_forestry_grant pl uid View) (\<lambda>r.
     bind_result (answered (list_reports de (ra_db app) (if can (Some r) Edit then None else Some [RS_aprobado]))) (\<lambda>reports.
       let pending = (if can (Some r) Approve then length (filter (\<lambda>v. rp_status (vr_report v) = RS_enviado) reports) else 0);
           reports = (case status of None \<Rightarrow> reports | Some s \<Rightarrow> filter (\<lambda>v. rp_status (vr_report v) = s) reports);
           reports = (case type of None \<Rightarrow> reports | Some t \<Rightarrow> filter (\<lambda>v. rp_type (vr_report v) = t) reports)
       in Inr (reports, pending)))"

record 'g report_detail =
  dt_report :: report_view
  dt_features :: "'g resolved_feature list"
  dt_sources :: "'g source_polygon list"
  dt_notes :: "report_note list"
  dt_published :: "int option"

definition get_report_detail :: "db_env \<Rightarrow> platform \<Rightarrow> int \<Rightarrow> int \<Rightarrow> 'g report_app \<Rightarrow> nat + 'g report_detail" where
  "get_report_detail de pl uid i app =
     bind_result (require_forestry_grant pl uid View) (\<lambda>r.
     if i < 1 then Inl 422
     else bind_result (answered (visible_report de (ra_db app) r i)) (\<lambda>v.
       Inr \<lparr>dt_report = v, dt_features = list_report_features (ra_db app) i, dt_sources = list_report_sources (ra_db app) i,
            dt_notes = list_report_notes (ra_db app) i, dt_published = read_published_snapshot_id (rb_pub (ra_db app))\<rparr>))"

text \<open>\<open>ordinals\<close> are the numbers of the query.\<close>

definition get_source_polygons :: "db_env \<Rightarrow> platform \<Rightarrow> int \<Rightarrow> int \<Rightarrow> int list \<Rightarrow> 'g report_app \<Rightarrow> nat + 'g source_polygon list" where
  "get_source_polygons de pl uid i ordinals app =
     bind_result (require_forestry_grant pl uid View) (\<lambda>_.
     bind_result (require_forestry_grant pl uid Edit) (\<lambda>_.
     if i < 1 then Inl 422
     else bind_result (answered (get_report de (ra_db app) i)) (\<lambda>found.
       case found of
         None \<Rightarrow> Inl (http_error (Report_error R_not_found))
       | Some v \<Rightarrow>
           let sources = load_source_polygons (ra_db app) (rp_base (vr_report v)) (take max_features (sort (dedup ordinals)))
           in Inr (map (\<lambda>o'. the (map_of sources o')) (sort (dedup (map fst sources)))))))"

text \<open>The rows of the exported file; writing it is the exporter's.\<close>

definition export_report_file :: "db_env \<Rightarrow> platform \<Rightarrow> int \<Rightarrow> int \<Rightarrow> bool \<Rightarrow> 'g report_app
    \<Rightarrow> nat + 'g resolved_feature list \<times> 'g report_app" where
  "export_report_file de pl uid i marked app =
     bind_result (require_forestry_grant pl uid View) (\<lambda>r.
     if i < 1 then Inl 422
     else bind_result (answered (visible_report de (ra_db app) r i)) (\<lambda>_.
       Inr (filter (\<lambda>f. \<not> marked \<or> rf_in_report f) (list_report_features (ra_db app) i), record_report_event RA_exported i uid app)))"

section \<open>Writes\<close>

definition post_report :: "db_env \<Rightarrow> bool \<Rightarrow> platform \<Rightarrow> int \<Rightarrow> pystr \<Rightarrow> report_type \<Rightarrow> pystr \<Rightarrow> 'g report_app
    \<Rightarrow> nat + int \<times> 'g report_app" where
  "post_report de csrf pl uid name type date app =
     bind_result (write_guard Edit csrf pl uid) (\<lambda>_.
     if length name > 500 then Inl 422
     else bind_result (answered (bind_result (check_date date) (\<lambda>d. create_report de name type d uid (ra_db app)))) (\<lambda>(i, db).
            Inr (i, committed RA_created i uid db app)))"

definition put_report_features :: "('g, 'j) geos \<Rightarrow> db_env \<Rightarrow> bool \<Rightarrow> platform \<Rightarrow> int \<Rightarrow> int \<Rightarrow> int \<Rightarrow> 'j feature_input list
    \<Rightarrow> 'g report_app \<Rightarrow> nat + save_outcome \<times> 'g report_app" where
  "put_report_features gs de csrf pl uid i revision inputs app =
     bind_result (write_guard Edit csrf pl uid) (\<lambda>_.
     if i < 1 \<or> revision < 1 \<or> \<not> list_all (\<lambda>f. 1 \<le> fi_ordinal f) inputs then Inl 422
     else bind_result (answered (save_report_features gs de i revision inputs (ra_db app))) (\<lambda>(saved, db).
            Inr (saved, committed RA_saved i uid db app)))"

definition patch_date :: "pystr option option \<Rightarrow> report_fault + date option option" where
  "patch_date date =
     (case date of
        None \<Rightarrow> Inr None | Some None \<Rightarrow> Inr (Some None)
      | Some (Some s) \<Rightarrow> bind_result (check_date s) (\<lambda>d. Inr (Some (Some d))))"

definition patch_report :: "db_env \<Rightarrow> bool \<Rightarrow> platform \<Rightarrow> int \<Rightarrow> int \<Rightarrow> int \<Rightarrow> pystr option \<Rightarrow> report_type option
    \<Rightarrow> pystr option option \<Rightarrow> pystr option option \<Rightarrow> 'g report_app \<Rightarrow> nat + (report_status \<times> int) \<times> 'g report_app" where
  "patch_report de csrf pl uid i revision name type date conaf app =
     bind_result (write_guard Edit csrf pl uid) (\<lambda>_.
     if i < 1 \<or> revision < 1 \<or> (case name of None \<Rightarrow> False | Some n \<Rightarrow> length n > 500)
        \<or> (case conaf of Some (Some s) \<Rightarrow> length s > 50 | _ \<Rightarrow> False) then Inl 422
     else bind_result (answered
            (bind_result (patch_date date) (\<lambda>d.
             bind_result (update_report_header de i revision name type d conaf (ra_db app)) (\<lambda>(n, db).
             bind_result (get_report de db i) (\<lambda>current.
               Inr ((case current of Some v \<Rightarrow> rp_status (vr_report v) | None \<Rightarrow> RS_borrador, n), db)))))) (\<lambda>(x, db).
            Inr (x, committed RA_saved i uid db app)))"

fun transition_event :: "transition_action \<Rightarrow> report_event" where
  "transition_event TA_submit = RA_submitted"
| "transition_event TA_approve = RA_approved"
| "transition_event TA_request_changes = RA_changes_requested"
| "transition_event TA_archive = RA_archived"

fun transition_needs :: "transition_action \<Rightarrow> action" where
  "transition_needs TA_submit = Edit"
| "transition_needs _ = Approve"

text \<open>The four transition routes: \<open>submit\<close>, \<open>approve\<close>, \<open>request-changes\<close> and \<open>archive\<close>.\<close>

definition transition_route :: "db_env \<Rightarrow> transition_action \<Rightarrow> bool \<Rightarrow> platform \<Rightarrow> int \<Rightarrow> int \<Rightarrow> int \<Rightarrow> pystr option \<Rightarrow> 'g report_app
    \<Rightarrow> nat + (report_status \<times> int) \<times> 'g report_app" where
  "transition_route de action csrf pl uid i revision note app =
     bind_result (write_guard (transition_needs action) csrf pl uid) (\<lambda>_.
     if i < 1 \<or> revision < 1 \<or> (case note of None \<Rightarrow> False | Some n \<Rightarrow> length n > 10000) then Inl 422
     else bind_result (answered (transition_report de i action revision uid note (ra_db app))) (\<lambda>(status, db).
            Inr ((status, revision + 1), committed (transition_event action) i uid db app)))"

definition duplicate_route :: "db_env \<Rightarrow> bool \<Rightarrow> platform \<Rightarrow> int \<Rightarrow> int \<Rightarrow> 'g report_app \<Rightarrow> nat + int \<times> 'g report_app" where
  "duplicate_route de csrf pl uid i app =
     bind_result (write_guard Edit csrf pl uid) (\<lambda>_.
     if i < 1 then Inl 422
     else bind_result (answered (duplicate_report de i uid (ra_db app))) (\<lambda>(n, db). Inr (n, committed RA_duplicated n uid db app)))"

definition delete_route :: "bool \<Rightarrow> platform \<Rightarrow> int \<Rightarrow> int \<Rightarrow> 'g report_app \<Rightarrow> nat + 'g report_app" where
  "delete_route csrf pl uid i app =
     bind_result (write_guard Edit csrf pl uid) (\<lambda>_.
     if i < 1 then Inl 422
     else bind_result (answered (delete_report i (ra_db app))) (\<lambda>db. Inr (committed RA_deleted i uid db app)))"

section \<open>Steps\<close>

text \<open>
  What happens to the tables, one transaction at a time: the routes' operations, the ingestion and
  publication of snapshots and the clock.
\<close>

inductive report_step :: "('g, 'j) geos \<Rightarrow> db_env \<Rightarrow> 'g report_db \<Rightarrow> 'g report_db \<Rightarrow> bool" for gs de where
  S_create: "create_report de name type date actor db = Inr (i, db') \<Longrightarrow> report_step gs de db db'"
| S_save: "save_report_features gs de i expected inputs db = Inr (saved, db') \<Longrightarrow> report_step gs de db db'"
| S_header: "update_report_header de i expected name type date' conaf db = Inr (n, db') \<Longrightarrow> report_step gs de db db'"
| S_transition: "transition_report de i action expected actor note db = Inr (status, db') \<Longrightarrow> report_step gs de db db'"
| S_duplicate: "duplicate_report de i actor db = Inr (n, db') \<Longrightarrow> report_step gs de db db'"
| S_delete: "delete_report i db = Inr db' \<Longrightarrow> report_step gs de db db'"
| S_publish: "f_step (rb_pub db) p \<Longrightarrow> report_step gs de db (db\<lparr>rb_pub := p\<rparr>)"
| S_ingest: "snapshot \<notin> set (fp_snapshots (rb_pub db)) \<Longrightarrow> report_step gs de db (db\<lparr>rb_sources := (rb_sources db)(snapshot := polygons)\<rparr>)"
| S_clock: "0 \<le> d \<Longrightarrow> report_step gs de db (db\<lparr>rb_now := rb_now db + d\<rparr>)"

text \<open>Migration 0014 creates the tables empty, whatever was published before.\<close>

definition report_start :: "'g report_db \<Rightarrow> bool" where
  "report_start db \<longleftrightarrow> rb_reports db = [] \<and> rb_features db = [] \<and> rb_notes db = [] \<and> f_reachable (rb_pub db)"

inductive report_reachable :: "('g, 'j) geos \<Rightarrow> db_env \<Rightarrow> 'g report_db \<Rightarrow> bool" for gs de where
  Reach_start: "report_start db \<Longrightarrow> report_reachable gs de db"
| Reach_step: "report_reachable gs de db \<Longrightarrow> report_step gs de db db' \<Longrightarrow> report_reachable gs de db'"

end
