(* ===== verification/ReportFacts.thy ===== *)
theory ReportFacts
  imports ReportRoutes
begin

text \<open>
  Lemmas on the reports: what each operation does to each row and its features, and the invariant
  of the tables.
\<close>

section \<open>Rows\<close>

lemma get_row_mem: "get_row db i = Some r \<Longrightarrow> r \<in> set (rb_reports db) \<and> rp_id r = i"
  unfolding get_row_def by (drule find_SomeD) simp

lemma get_row_iff:
  assumes "distinct (map rp_id (rb_reports db))"
  shows "get_row db i = Some r \<longleftrightarrow> r \<in> set (rb_reports db) \<and> rp_id r = i"
proof
  assume r: "r \<in> set (rb_reports db) \<and> rp_id r = i"
  then have "get_row db i \<noteq> None" by (auto simp: get_row_def find_None_iff)
  then obtain r' where "get_row db i = Some r'" by blast
  with r assms get_row_mem [OF this] show "get_row db i = Some r" by (metis (no_types, lifting) distinct_map inj_onD)
qed (rule get_row_mem)

lemma get_row_None: "get_row db i = None \<longleftrightarrow> i \<notin> rp_id ` set (rb_reports db)"
  by (auto simp: get_row_def find_None_iff)

lemma find_map_id:
  assumes "\<And>r. rp_id (f r) = rp_id r"
  shows "find (\<lambda>r. rp_id r = j) (map (\<lambda>r. if rp_id r = i then f r else r) rs)
    = map_option (\<lambda>r. if j = i then f r else r) (find (\<lambda>r. rp_id r = j) rs)"
  by (induction rs) (auto simp: assms)

lemma find_filter_id:
  "find (\<lambda>r. rp_id r = j) (filter (\<lambda>r. rp_id r \<noteq> i) rs) = (if j = i then None else find (\<lambda>r. rp_id r = j) rs)"
  by (induction rs) auto

lemma find_snoc_id: "find P (xs @ [y]) = (case find P xs of None \<Rightarrow> if P y then Some y else None | Some x \<Rightarrow> Some x)"
  by (induction xs) auto

lemma features_of_append: "rb_features db' = rb_features db @ map (\<lambda>f. (k, f)) fs \<Longrightarrow>
  features_of db' i = features_of db i @ (if i = k then fs else [])"
  by (auto simp: features_of_def filter_map comp_def)

lemma features_of_filter: "rb_features db' = filter (\<lambda>(j, _). j \<noteq> k) (rb_features db) \<Longrightarrow>
  features_of db' i = (if i = k then [] else features_of db i)"
  by (auto simp: features_of_def filter_filter intro!: arg_cong [of _ _ "map snd"] filter_cong) (auto simp: filter_empty_conv)

lemma features_of_same: "rb_features db' = rb_features db \<Longrightarrow> features_of db' i = features_of db i"
  by (simp add: features_of_def)

section \<open>What the writes do\<close>

lemma update_row_Inr:
  "update_row de i f db = Inr db' \<longleftrightarrow>
     (\<forall>r \<in> set (rb_reports db). rp_id r = i \<longrightarrow> report_ok de db (f r))
     \<and> db' = db\<lparr>rb_reports := map (\<lambda>r. if rp_id r = i then f r else r) (rb_reports db)\<rparr>"
  by (auto simp: update_row_def list_all_iff)

lemma lock_report_Inr [simp]: "lock_report db i = Inr r \<longleftrightarrow> get_row db i = Some r"
  by (auto simp: lock_report_def split: option.splits)

lemma insert_report_Inr [simp]:
  "insert_report de r db = Inr db' \<longleftrightarrow> report_ok de db r \<and> db' = db\<lparr>rb_reports := rb_reports db @ [r], rb_next := rb_next db + 1\<rparr>"
  by (auto simp: insert_report_def)

text \<open>Each operation, as what it leaves: the new row, or what became of the row it locked.\<close>

lemma create_report_Inr:
  assumes "create_report de name type date actor db = Inr (i, db')"
  shows "\<exists>r. db' = db\<lparr>rb_reports := rb_reports db @ [r], rb_next := rb_next db + 1\<rparr> \<and> i = rb_next db \<and> rp_id r = i
    \<and> rp_status r = RS_borrador \<and> rp_revision r = 1 \<and> rp_submitted_at r = None \<and> rp_decided_at r = None \<and> rp_decided_by r = None
    \<and> report_ok de db r"
proof -
  obtain base where base: "read_published_snapshot_id (rb_pub db) = Some base"
    using assms by (cases "read_published_snapshot_id (rb_pub db)") (auto simp: create_report_def)
  with assms obtain clean where "clean_name name = Inr clean" by (auto simp: create_report_def)
  with assms base show ?thesis
    by (auto simp: create_report_def intro!: exI conjI)
qed

lemma duplicate_report_Inr:
  assumes "duplicate_report de i actor db = Inr (n, db')"
  shows "\<exists>s r. db' = db\<lparr>rb_reports := rb_reports db @ [r], rb_next := rb_next db + 1,
        rb_features := rb_features db @ map (\<lambda>f. (n, f)) (features_of db i)\<rparr>
    \<and> n = rb_next db \<and> get_row db i = Some s \<and> rp_id r = n \<and> rp_status r = RS_borrador \<and> rp_revision r = 1
    \<and> rp_submitted_at r = None \<and> rp_decided_at r = None \<and> rp_decided_by r = None \<and> report_ok de db r \<and> rp_type r = rp_type s
    \<and> rp_month r = rp_month s \<and> rp_date r = rp_date s \<and> rp_base r = rp_base s \<and> rp_conaf r = rp_conaf s
    \<and> rp_created_by r = actor \<and> free_copy_name de db (rp_name s) = Inr (rp_name r)"
proof -
  obtain v where v: "get_report de db i = Inr (Some v)" using assms
    by (cases "get_report de db i"; cases "projr (get_report de db i)") (auto simp: duplicate_report_def)
  then have row: "get_row db i = Some (vr_report v)"
    by (auto simp: get_report_def report_view_of_def Let_def split: option.splits)
  obtain name where name: "free_copy_name de db (rp_name (vr_report v)) = Inr name" using assms v by (auto simp: duplicate_report_def Let_def)
  show ?thesis
    by (rule exI [of _ "vr_report v"], rule exI, rule conjI)
      (use assms v row name in \<open>auto simp: duplicate_report_def Let_def\<close>)
qed

lemma delete_report_Inr:
  "delete_report i db = Inr db' \<longleftrightarrow> (\<exists>r. get_row db i = Some r \<and> rp_status r = RS_borrador \<and> rp_submitted_at r = None
    \<and> db' = db\<lparr>rb_reports := filter (\<lambda>r. rp_id r \<noteq> i) (rb_reports db), rb_features := filter (\<lambda>(j, _). j \<noteq> i) (rb_features db),
        rb_notes := filter (\<lambda>n. rn_report n \<noteq> i) (rb_notes db)\<rparr>)"
  by (auto simp: delete_report_def)

text \<open>The three operations that change a row: first the row, then its revision.\<close>

definition rewrite :: "int \<Rightarrow> (report \<Rightarrow> report) \<Rightarrow> 'g report_db \<Rightarrow> 'g report_db" where
  "rewrite i f db = db\<lparr>rb_reports := map (\<lambda>r. if rp_id r = i then f r else r) (rb_reports db)\<rparr>"

definition bumped :: "int \<Rightarrow> report \<Rightarrow> report" where
  "bumped t r = r\<lparr>rp_revision := rp_revision r + 1, rp_updated_at := t\<rparr>"

lemma bump_Inr: "bump de i db = Inr db' \<longleftrightarrow> (\<forall>r \<in> set (rb_reports db). rp_id r = i \<longrightarrow> report_ok de db (bumped (rb_now db) r))
    \<and> db' = rewrite i (bumped (rb_now db)) db"
  unfolding bump_def bumped_def [symmetric] by (simp add: update_row_Inr rewrite_def)

lemma save_report_features_Inr:
  assumes "save_report_features gs de i expected inputs db = Inr (saved, db')"
  shows "\<exists>r res. get_row db i = Some r \<and> rp_status r \<in> set editable_statuses \<and> rp_revision r = expected
    \<and> resolve_features gs inputs (load_source_polygons db (rp_base r) (map fi_ordinal inputs)) = Inr res
    \<and> list_all feature_ok (rs_features res) \<and> so_revision saved = rp_revision r + 1
    \<and> db' = rewrite i (bumped (rb_now db)) (db\<lparr>rb_features := filter (\<lambda>(j, _). j \<noteq> i) (rb_features db) @ map (\<lambda>f. (i, f)) (rs_features res)\<rparr>)"
  using assms
  by (auto simp: save_report_features_def geometry_result_def bump_Inr split: if_splits sum.splits)


definition keeps_review :: "(report \<Rightarrow> report) \<Rightarrow> bool" where
  "keeps_review f \<longleftrightarrow> (\<forall>r. rp_id (f r) = rp_id r \<and> rp_status (f r) = rp_status r \<and> rp_base (f r) = rp_base r
     \<and> rp_revision (f r) = rp_revision r \<and> rp_created_by (f r) = rp_created_by r \<and> rp_submitted_at (f r) = rp_submitted_at r
     \<and> rp_decided_at (f r) = rp_decided_at r \<and> rp_decided_by (f r) = rp_decided_by r)"

lemma rewrite_twice: "(\<And>r. rp_id (f r) = rp_id r) \<Longrightarrow> rewrite i g (rewrite i f db) = rewrite i (g \<circ> f) db"
  by (simp add: rewrite_def comp_def)

lemma rewrite_sel [simp]:
  "rb_features (rewrite i f db) = rb_features db" "rb_notes (rewrite i f db) = rb_notes db" "rb_next (rewrite i f db) = rb_next db"
  "rb_now (rewrite i f db) = rb_now db" "rb_pub (rewrite i f db) = rb_pub db" "rb_sources (rewrite i f db) = rb_sources db"
  "features_of (rewrite i f db) j = features_of db j"
  by (simp_all add: rewrite_def features_of_def)

lemma bumped_sel [simp]:
  "rp_id (bumped t r) = rp_id r" "rp_name (bumped t r) = rp_name r" "rp_type (bumped t r) = rp_type r" "rp_month (bumped t r) = rp_month r"
  "rp_date (bumped t r) = rp_date r" "rp_status (bumped t r) = rp_status r" "rp_base (bumped t r) = rp_base r"
  "rp_revision (bumped t r) = rp_revision r + 1" "rp_created_by (bumped t r) = rp_created_by r"
  "rp_submitted_at (bumped t r) = rp_submitted_at r" "rp_decided_at (bumped t r) = rp_decided_at r"
  "rp_decided_by (bumped t r) = rp_decided_by r" "rp_conaf (bumped t r) = rp_conaf r"
  by (simp_all add: bumped_def)

lemma update_report_header_Inr:
  assumes "update_report_header de i expected name type date conaf db = Inr (n, db')"
  shows "\<exists>r f. get_row db i = Some r \<and> rp_revision r = expected \<and> n = rp_revision r + 1 \<and> keeps_review f
    \<and> (rp_status r \<in> set editable_statuses
        \<or> rp_status r \<noteq> RS_archivado \<and> (\<forall>x. rp_name (f x) = rp_name x \<and> rp_type (f x) = rp_type x \<and> rp_month (f x) = rp_month x \<and> rp_date (f x) = rp_date x))
    \<and> (\<forall>x \<in> set (rb_reports db). rp_id x = i \<longrightarrow> report_ok de db (f x)) \<and> db' = rewrite i (bumped (rb_now db) \<circ> f) db"
proof -
  obtain r where r: "get_row db i = Some r" using assms by (cases "get_row db i") (auto simp: update_report_header_def lock_report_def)
  obtain clean where clean: "(case name of None \<Rightarrow> Inr None | Some n \<Rightarrow> bind_result (clean_name n) (\<lambda>c. Inr (Some c))) = Inr clean"
    using assms r by (auto simp: update_report_header_def split: if_splits)
  obtain number where number: "header_conaf conaf = Inr number"
    using assms r clean by (auto simp: update_report_header_def split: if_splits)
  define f where "f = (\<lambda>r :: report. r\<lparr>rp_name := (case clean of Some c \<Rightarrow> c | None \<Rightarrow> rp_name r),
          rp_type := (case type of Some t \<Rightarrow> t | None \<Rightarrow> rp_type r),
          rp_month := (case date of Some (Some d) \<Rightarrow> month_from_date d | _ \<Rightarrow> rp_month r),
          rp_date := (case date of Some d \<Rightarrow> d | None \<Rightarrow> rp_date r),
          rp_conaf := (if conaf \<noteq> None then number else rp_conaf r)\<rparr>)"
  have keep: "keeps_review f" by (simp add: keeps_review_def f_def)
  then have id: "rp_id (f x) = rp_id x" for x by (simp add: keeps_review_def)
  define blocked where "blocked \<longleftrightarrow> (if name = None \<and> type = None \<and> date = None \<and> conaf \<noteq> None then rp_status r = RS_archivado
    else rp_status r \<notin> set editable_statuses)"
  have "rp_revision r = expected \<and> \<not> blocked"
    using assms unfolding update_report_header_def lock_report_def r option.case bind_result.simps blocked_def [symmetric]
    by (simp split: if_split_asm)
  then have guards: "rp_revision r = expected" "\<not> blocked" by simp_all
  have free: "(case clean of None \<Rightarrow> Inr () | Some c \<Rightarrow> ensure_name_free de db c (Some i)) = Inr ()"
    using assms unfolding update_report_header_def lock_report_def r option.case bind_result.simps blocked_def [symmetric]
      if_not_P [OF guards(2)] clean by (auto simp: ensure_name_free_def split: if_split_asm option.splits)
  have "bind_result (update_row de i f db) (\<lambda>db. bind_result (bump de i db) (\<lambda>db. Inr (rp_revision r + 1, db))) = Inr (n, db')"
    using assms unfolding update_report_header_def lock_report_def r option.case bind_result.simps blocked_def [symmetric] if_not_P [OF guards(2)] clean free number f_def [symmetric]
    using guards(1) by simp
  then have upd: "\<forall>x \<in> set (rb_reports db). rp_id x = i \<longrightarrow> report_ok de db (f x)" "n = rp_revision r + 1"
    and "bump de i (rewrite i f db) = Inr db'" by (auto simp: update_row_Inr rewrite_def)
  then have "db' = rewrite i (bumped (rb_now db) \<circ> f) db" by (simp add: bump_Inr rewrite_twice id)
  moreover have "rp_name (f x) = rp_name x \<and> rp_type (f x) = rp_type x \<and> rp_month (f x) = rp_month x \<and> rp_date (f x) = rp_date x"
    if "name = None" "type = None" "date = None" for x using that clean by (simp add: f_def)
  ultimately show ?thesis
    using upd guards by (intro exI [of _ r] exI [of _ f]) (auto simp: r keep blocked_def split: if_splits)
qed

definition reviewed :: "transition_action \<Rightarrow> int \<Rightarrow> int \<Rightarrow> report \<Rightarrow> report" where
  "reviewed action actor now r = r\<lparr>rp_status := snd (transitions action),
     rp_submitted_at := (if action = TA_submit then Some now else rp_submitted_at r),
     rp_decided_at := (if action \<in> {TA_approve, TA_request_changes} then Some now else rp_decided_at r),
     rp_decided_by := (if action \<in> {TA_approve, TA_request_changes} then Some actor else rp_decided_by r)\<rparr>"

definition review_body :: "pystr option \<Rightarrow> pystr" where
  "review_body note = strip (case note of Some n \<Rightarrow> n | None \<Rightarrow> [])"

definition review_notes :: "transition_action \<Rightarrow> pystr \<Rightarrow> int \<Rightarrow> int \<Rightarrow> int \<Rightarrow> report_note list" where
  "review_notes action body i actor now = (if action = TA_request_changes \<or> action = TA_approve \<and> body \<noteq> []
     then [\<lparr>rn_report = i, rn_kind = snd (transitions action), rn_body = body, rn_author = actor, rn_at = now\<rparr>] else [])"

lemma transition_report_Inr:
  assumes "transition_report de i action expected actor note db = Inr (status, db')"
  shows "\<exists>r. get_row db i = Some r \<and> rp_status r \<in> set (fst (transitions action)) \<and> rp_revision r = expected
      \<and> length (review_body note) \<le> max_note_length \<and> (action = TA_request_changes \<longrightarrow> review_body note \<noteq> [])
      \<and> (action = TA_submit \<longrightarrow> (\<exists>f \<in> set (features_of db i). rf_in_report f)) \<and> status = snd (transitions action)
      \<and> (\<forall>x \<in> set (rb_reports db). rp_id x = i \<longrightarrow> report_ok de db (reviewed action actor (rb_now db) x))
      \<and> db' = (rewrite i (bumped (rb_now db) \<circ> reviewed action actor (rb_now db)) db)
          \<lparr>rb_notes := rb_notes db @ review_notes action (review_body note) i actor (rb_now db)\<rparr>"
proof -
  obtain r where r: "get_row db i = Some r" using assms by (cases "get_row db i") (auto simp: transition_report_def lock_report_def)
  obtain from_set target where t: "transitions action = (from_set, target)" by fastforce
  let ?rev = "reviewed action actor (rb_now db)" and ?notes = "review_notes action (review_body note) i actor (rb_now db)"
  have rev: "(\<lambda>r. r\<lparr>rp_status := target,
               rp_submitted_at := (if action = TA_submit then Some (rb_now db) else rp_submitted_at r),
               rp_decided_at := (if action \<in> {TA_approve, TA_request_changes} then Some (rb_now db) else rp_decided_at r),
               rp_decided_by := (if action \<in> {TA_approve, TA_request_changes} then Some actor else rp_decided_by r)\<rparr>) = ?rev"
    by (simp add: reviewed_def [abs_def] t)
  have guards: "rp_status r \<in> set from_set" "rp_revision r = expected" "\<not> length (review_body note) > max_note_length"
    "\<not> (action = TA_request_changes \<and> review_body note = [])" "\<not> (action = TA_submit \<and> filter rf_in_report (features_of db i) = [])"
    using assms r unfolding transition_report_def Let_def t prod.case review_body_def [symmetric]
    by (simp_all split: if_split_asm)
  have "bind_result (update_row de i ?rev db) (\<lambda>db.
             let db = (if action = TA_request_changes \<or> action = TA_approve \<and> review_body note \<noteq> []
                       then db\<lparr>rb_notes := rb_notes db @ [\<lparr>rn_report = i, rn_kind = target, rn_body = review_body note,
                                  rn_author = actor, rn_at = rb_now db\<rparr>]\<rparr> else db)
             in bind_result (bump de i db) (\<lambda>db. Inr (target, db))) = Inr (status, db')"
    using assms r guards unfolding transition_report_def Let_def t prod.case review_body_def [symmetric] rev by simp
  then have upd: "\<forall>x \<in> set (rb_reports db). rp_id x = i \<longrightarrow> report_ok de db (?rev x)" "status = target"
    and "bump de i ((rewrite i ?rev db)\<lparr>rb_notes := rb_notes db @ ?notes\<rparr>) = Inr db'"
    by (auto simp: update_row_Inr Let_def review_notes_def t rewrite_def split: if_split_asm)
  then have "db' = rewrite i (bumped (rb_now db)) ((rewrite i ?rev db)\<lparr>rb_notes := rb_notes db @ ?notes\<rparr>)" by (simp add: bump_Inr)
  also have "\<dots> = (rewrite i (bumped (rb_now db)) (rewrite i ?rev db))\<lparr>rb_notes := rb_notes db @ ?notes\<rparr>" by (simp add: rewrite_def)
  also have "rewrite i (bumped (rb_now db)) (rewrite i ?rev db) = rewrite i (bumped (rb_now db) \<circ> ?rev) db"
    by (rule rewrite_twice) (simp add: reviewed_def)
  finally have "db' = (rewrite i (bumped (rb_now db) \<circ> ?rev) db)\<lparr>rb_notes := rb_notes db @ ?notes\<rparr>" .
  with r guards upd show ?thesis by (auto simp: t filter_empty_conv)
qed

section \<open>The invariant\<close>

definition review_life :: "'g report_db \<Rightarrow> report \<Rightarrow> bool" where
  "review_life db r \<longleftrightarrow>
     (rp_status r = RS_borrador \<longrightarrow> rp_submitted_at r = None)
     \<and> (rp_status r \<in> {RS_enviado, RS_aprobado, RS_cambios_solicitados} \<longrightarrow> rp_submitted_at r \<noteq> None)
     \<and> (rp_status r \<in> {RS_enviado, RS_aprobado} \<longrightarrow> (\<exists>f \<in> set (features_of db (rp_id r)). rf_in_report f))
     \<and> (rp_status r \<in> {RS_aprobado, RS_cambios_solicitados} \<longrightarrow> rp_decided_at r \<noteq> None \<and> rp_decided_by r \<noteq> None)
     \<and> (rp_status r = RS_cambios_solicitados \<longrightarrow>
         (\<exists>n \<in> set (rb_notes db). rn_report n = rp_id r \<and> rn_kind n = RS_cambios_solicitados \<and> rn_body n \<noteq> []))
     \<and> map rf_position (features_of db (rp_id r)) = [1..<Suc (length (features_of db (rp_id r)))]
     \<and> list_all feature_ok (features_of db (rp_id r))"

definition report_ids :: "'g report_db \<Rightarrow> bool" where
  "report_ids db \<longleftrightarrow> distinct (map rp_id (rb_reports db)) \<and> (\<forall>r \<in> set (rb_reports db). rp_id r < rb_next db)
     \<and> (\<forall>(j, _) \<in> set (rb_features db). j \<in> rp_id ` set (rb_reports db))"

definition report_inv :: "db_env \<Rightarrow> 'g report_db \<Rightarrow> bool" where
  "report_inv de db \<longleftrightarrow> report_ids db \<and> (\<forall>r \<in> set (rb_reports db). report_ok de db r \<and> review_life db r)"

lemma features_of_fresh: "report_ids db \<Longrightarrow> i \<notin> rp_id ` set (rb_reports db) \<Longrightarrow> features_of db i = []"
  by (fastforce simp: report_ids_def features_of_def filter_empty_conv)

lemma report_inv_cong:
  assumes "report_inv de db" "rb_reports db' = rb_reports db" "rb_features db' = rb_features db" "rb_notes db' = rb_notes db" "rb_next db' = rb_next db"
  shows "report_inv de db'"
  using assms by (simp add: report_inv_def report_ids_def review_life_def report_ok_def name_in_use_def features_of_def)

text \<open>A new row keeps the names of the others free, and so does a row that is written again.\<close>

lemma name_in_use_append:
  "name_in_use de (db\<lparr>rb_reports := rb_reports db @ [r], rb_next := n\<rparr>) name except
    \<longleftrightarrow> name_in_use de db name except \<or> de_lower de (rp_name r) = de_lower de name \<and> rp_status r \<noteq> RS_archivado \<and> except \<noteq> Some (rp_id r)"
  by (auto simp: name_in_use_def)

lemma report_ok_append:
  assumes "\<forall>r \<in> set (rb_reports db). report_ok de db r" "report_ok de db r0" "rp_id r0 \<notin> rp_id ` set (rb_reports db)"
    and "r \<in> set (rb_reports db @ [r0])"
  shows "report_ok de (db\<lparr>rb_reports := rb_reports db @ [r0], rb_next := n\<rparr>) r"
proof (cases "r = r0")
  case True
  with assms(2) show ?thesis by (auto simp: report_ok_def name_in_use_append)
next
  case False
  then have r: "r \<in> set (rb_reports db)" using assms(4) by auto
  have "rp_status r \<noteq> RS_archivado \<Longrightarrow> de_lower de (rp_name r0) = de_lower de (rp_name r) \<Longrightarrow> name_in_use de db (rp_name r0) (Some (rp_id r0))"
    using r assms(3) by (auto simp: name_in_use_def list_ex_iff intro!: bexI [of _ r])
  with assms(1,2) r show ?thesis by (auto simp: report_ok_def name_in_use_append)
qed

lemma name_in_use_rewrite:
  assumes "\<And>r. rp_id (f r) = rp_id r"
  shows "name_in_use de (rewrite i f db) name except \<longleftrightarrow> (\<exists>r \<in> set (rb_reports db). let r' = (if rp_id r = i then f r else r)
    in de_lower de (rp_name r') = de_lower de name \<and> rp_status r' \<noteq> RS_archivado \<and> except \<noteq> Some (rp_id r))"
proof -
  have id: "rp_id (if rp_id r = i then f r else r) = rp_id r" for r by (simp add: assms)
  have "rb_reports (rewrite i f db) = map (\<lambda>r. if rp_id r = i then f r else r) (rb_reports db)" by (simp add: rewrite_def)
  then show ?thesis unfolding name_in_use_def list_ex_iff Let_def by (simp only: set_map bex_simps id)
qed

lemma report_ok_rewrite:
  assumes "\<And>r. rp_id (f r) = rp_id r" "\<forall>r \<in> set (rb_reports db). report_ok de db r"
    and "\<forall>r \<in> set (rb_reports db). rp_id r = i \<longrightarrow> report_ok de db (f r)" "r \<in> set (rb_reports db)"
  shows "report_ok de (rewrite i f db) (if rp_id r = i then f r else r)"
proof -
  let ?new = "\<lambda>r. if rp_id r = i then f r else r"
  have id: "rp_id (?new r) = rp_id r" for r by (simp add: assms(1))
  have ok: "report_ok de db (?new r)" if "r \<in> set (rb_reports db)" for r using assms(2,3) that by simp
  have "\<not> name_in_use de (rewrite i f db) (rp_name (?new r)) (Some (rp_id r))" if active: "rp_status (?new r) \<noteq> RS_archivado"
  proof
    assume "name_in_use de (rewrite i f db) (rp_name (?new r)) (Some (rp_id r))"
    then obtain s where s: "s \<in> set (rb_reports db)" "de_lower de (rp_name (?new s)) = de_lower de (rp_name (?new r))"
      "rp_status (?new s) \<noteq> RS_archivado" "rp_id s \<noteq> rp_id r"
      by (auto simp: name_in_use_rewrite [OF assms(1)] Let_def)
    have "name_in_use de db (rp_name (?new s)) (Some (rp_id s)) \<or> name_in_use de db (rp_name (?new r)) (Some (rp_id r))"
    proof (cases "rp_id s = i")
      case True
      then have "?new r = r" using s(4) by auto
      then have "name_in_use de db (rp_name (?new s)) (Some (rp_id s))"
        using s(2,4) assms(4) active by (auto simp: name_in_use_def list_ex_iff intro!: bexI [of _ r])
      then show ?thesis ..
    next
      case False
      then have "name_in_use de db (rp_name (?new r)) (Some (rp_id r))"
        using s by (auto simp: name_in_use_def list_ex_iff intro!: bexI [of _ s])
      then show ?thesis ..
    qed
    with ok [OF s(1)] ok [OF assms(4)] s(3) active id show False by (simp only: report_ok_def) auto
  qed
  with ok [OF assms(4)] id show ?thesis by (auto simp: report_ok_def)
qed

lemma report_ok_other_tables [simp]:
  "report_ok de (db\<lparr>rb_features := fs\<rparr>) r = report_ok de db r" "report_ok de (db\<lparr>rb_notes := ns\<rparr>) r = report_ok de db r"
  by (simp_all add: report_ok_def name_in_use_def)

lemma report_ok_bumped: "report_ok de db r \<Longrightarrow> report_ok de db (bumped t r)"
  by (auto simp: report_ok_def split: option.splits)

lemma ids_rewrite: "(\<And>r. rp_id (f r) = rp_id r) \<Longrightarrow> map rp_id (rb_reports (rewrite i f db)) = map rp_id (rb_reports db)"
  by (simp add: rewrite_def)

lemma report_inv_append:
  assumes "report_inv de db" "rp_id r0 = rb_next db" "report_ok de db r0"
    and "db' = db\<lparr>rb_reports := rb_reports db @ [r0], rb_next := rb_next db + 1, rb_features := rb_features db @ map (\<lambda>f. (rb_next db, f)) fs\<rparr>"
    and "rp_status r0 = RS_borrador" "rp_submitted_at r0 = None" "map rf_position fs = [1..<Suc (length fs)]" "list_all feature_ok fs"
  shows "report_inv de db'"
proof -
  have ids: "report_ids db" and rows: "\<forall>r \<in> set (rb_reports db). report_ok de db r \<and> review_life db r"
    using assms(1) by (simp_all add: report_inv_def)
  have fresh: "rp_id r0 \<notin> rp_id ` set (rb_reports db)" using ids by (auto simp: report_ids_def assms(2))
  have "report_ids db'" using ids fresh by (fastforce simp: report_ids_def assms(2,4))
  have fo: "features_of db' j = (if j = rb_next db then fs else features_of db j)" for j
    using features_of_append [of db' db "rb_next db" fs j] features_of_fresh [OF ids fresh] assms(2,4) by auto
  have "report_ok de db' r" if "r \<in> set (rb_reports db')" for r
    using report_ok_append [OF _ assms(3) fresh, of r "rb_next db + 1"] rows that
    by (simp add: assms(4) report_ok_def name_in_use_def)
  moreover have "review_life db' r" if "r \<in> set (rb_reports db')" for r
  proof (cases "r = r0")
    case True
    then show ?thesis using assms(2,5-8) by (simp add: review_life_def fo)
  next
    case False
    with that have r: "r \<in> set (rb_reports db)" by (auto simp: assms(4))
    then have "rp_id r \<noteq> rb_next db" using ids by (auto simp: report_ids_def)
    then show ?thesis using rows r by (auto simp: review_life_def fo) (auto simp: assms(4))
  qed
  ultimately show ?thesis using \<open>report_ids db'\<close> by (simp add: report_inv_def)
qed

lemma report_inv_rewrite:
  assumes "report_inv de db" "\<And>r. rp_id (f r) = rp_id r" "\<forall>r \<in> set (rb_reports db). rp_id r = i \<longrightarrow> report_ok de db (f r)"
    and "db' = (rewrite i (bumped t \<circ> f) db)\<lparr>rb_features := fs, rb_notes := ns\<rparr>" "set (rb_notes db) \<subseteq> set ns"
    and "\<And>j. j \<noteq> i \<Longrightarrow> features_of db' j = features_of db j" "\<forall>(j, _) \<in> set fs. j \<in> rp_id ` set (rb_reports db)"
    and "\<And>r. r \<in> set (rb_reports db) \<Longrightarrow> rp_id r = i \<Longrightarrow> review_life db r \<Longrightarrow> review_life db' (bumped t (f r))"
  shows "report_inv de db'"
proof -
  let ?g = "bumped t \<circ> f"
  have ids: "report_ids db" and rows: "\<forall>r \<in> set (rb_reports db). report_ok de db r \<and> review_life db r"
    using assms(1) by (simp_all add: report_inv_def)
  have id: "rp_id (?g r) = rp_id r" for r by (simp add: assms(2))
  have map_ids: "map rp_id (rb_reports db') = map rp_id (rb_reports db)" using ids_rewrite [of ?g i db, OF id] by (simp add: assms(4))
  then have set_ids: "rp_id ` set (rb_reports db') = rp_id ` set (rb_reports db)" by (metis list.set_map)
  have next_same: "rb_next db' = rb_next db" by (simp add: assms(4))
  have "report_ids db'" using ids assms(7) set_ids unfolding report_ids_def map_ids next_same
    by (simp add: assms(4)) (metis (no_types, lifting) imageE image_eqI)
  have row: "\<exists>s \<in> set (rb_reports db). r = (if rp_id s = i then ?g s else s)" if "r \<in> set (rb_reports db')" for r
    using that by (auto simp: assms(4) rewrite_def)
  have ok: "report_ok de db' r" if r: "r \<in> set (rb_reports db')" for r
  proof -
    obtain s where s: "s \<in> set (rb_reports db)" "r = (if rp_id s = i then ?g s else s)" using row [OF r] by blast
    have "report_ok de (rewrite i ?g db) (if rp_id s = i then ?g s else s)"
      by (rule report_ok_rewrite [OF id _ _ s(1)]) (use rows assms(3) in \<open>auto intro: report_ok_bumped\<close>)
    then show ?thesis by (simp add: assms(4) s(2))
  qed
  moreover have "review_life db' r" if r: "r \<in> set (rb_reports db')" for r
  proof -
    obtain s where s: "s \<in> set (rb_reports db)" "r = (if rp_id s = i then ?g s else s)" using row [OF r] by blast
    show ?thesis
    proof (cases "rp_id s = i")
      case True
      with s rows assms(8) [of s] show ?thesis by simp
    next
      case False
      have "set (rb_notes db) \<subseteq> set (rb_notes db')" using assms(5) by (simp add: assms(4))
      with False s rows assms(6) [of "rp_id s"] show ?thesis by (auto simp: review_life_def)
    qed
  qed
  ultimately show ?thesis using \<open>report_ids db'\<close> by (simp add: report_inv_def)
qed

section \<open>The features that are stored\<close>

lemma resolve_features_Inr:
  assumes "resolve_features gs inputs sources = Inr res"
  shows "\<exists>parsed changed warnings. length inputs \<le> max_features \<and> traverse (parse_feature gs sources) inputs = Inr parsed
    \<and> fold_result (check_source gs sources) ([], []) (map (\<lambda>(o', ps). (o', map pf_geometry ps)) (group_by (\<lambda>p. fi_ordinal (pf_item p)) parsed)) = Inr (changed, warnings)
    \<and> traverse (resolve_feature gs sources changed) (zip [1..<Suc (length parsed)] parsed) = Inr (rs_features res)
    \<and> reject_overlaps gs (rs_features res) = Inr () \<and> rs_warnings res = warnings"
  using assms by (auto simp: resolve_features_def Let_def split: if_splits)

lemma resolve_positions:
  assumes "resolve_features gs inputs sources = Inr res"
  shows "map rf_position (rs_features res) = [1..<Suc (length (rs_features res))]"
proof -
  obtain parsed changed where t: "traverse (resolve_feature gs sources changed) (zip [1..<Suc (length parsed)] parsed) = Inr (rs_features res)"
    using resolve_features_Inr [OF assms] by blast
  have "rf_position f = fst e" if "resolve_feature gs sources changed e = Inr f" for e f
    using that by (cases e) (auto simp: resolve_feature_def Let_def)
  then have "map rf_position (rs_features res) = map fst (zip [1..<Suc (length parsed)] parsed)" using traverse_map [OF t] by blast
  moreover have "length (rs_features res) = length parsed"
    using t [unfolded traverse_Inr, THEN list_all2_lengthD] by (simp del: upt_Suc)
  ultimately show ?thesis by simp
qed

section \<open>Steps keep the invariant\<close>

lemma report_inv_row: "report_inv de db \<Longrightarrow> get_row db i = Some r \<Longrightarrow> report_ok de db r \<and> review_life db r \<and> rp_id r = i"
  using get_row_mem by (auto simp: report_inv_def)

lemma same_row:
  assumes "report_inv de db" "get_row db i = Some r" "x \<in> set (rb_reports db)" "rp_id x = i"
  shows "x = r"
proof -
  have "distinct (map rp_id (rb_reports db))" using assms(1) by (simp add: report_inv_def report_ids_def)
  then have "get_row db i = Some x" using assms(3,4) by (simp add: get_row_iff)
  with assms(2) show ?thesis by simp
qed

lemma save_features:
  "features_of (db\<lparr>rb_features := filter (\<lambda>(j, _). j \<noteq> i) (rb_features db) @ map (\<lambda>f. (i, f)) fs\<rparr>) j = (if j = i then fs else features_of db j)"
proof -
  have "filter (\<lambda>(k, _). k = j) (filter (\<lambda>(k, _). k \<noteq> i) (rb_features db)) = (if j = i then [] else filter (\<lambda>(k, _). k = j) (rb_features db))"
    by (auto simp: filter_filter filter_empty_conv intro!: filter_cong)
  then show ?thesis by (auto simp: features_of_def filter_map comp_def)
qed

lemma save_inv:
  assumes "report_inv de db" "save_report_features gs de i expected inputs db = Inr (saved, db')"
  shows "report_inv de db'"
proof -
  obtain r res where s: "get_row db i = Some r" "rp_status r \<in> set editable_statuses"
    "resolve_features gs inputs (load_source_polygons db (rp_base r) (map fi_ordinal inputs)) = Inr res" "list_all feature_ok (rs_features res)"
    "db' = rewrite i (bumped (rb_now db)) (db\<lparr>rb_features := filter (\<lambda>(j, _). j \<noteq> i) (rb_features db) @ map (\<lambda>f. (i, f)) (rs_features res)\<rparr>)"
    using save_report_features_Inr [OF assms(2)] by blast
  let ?fs = "filter (\<lambda>(j, _). j \<noteq> i) (rb_features db) @ map (\<lambda>f. (i, f)) (rs_features res)"
  have db': "db' = (rewrite i (bumped (rb_now db) \<circ> (\<lambda>r. r)) db)\<lparr>rb_features := ?fs, rb_notes := rb_notes db\<rparr>"
    by (simp add: s(5) rewrite_def comp_def)
  have fo: "features_of db' j = (if j = i then rs_features res else features_of db j)" for j unfolding s(5) by (simp add: save_features)
  show ?thesis
  proof (rule report_inv_rewrite [OF assms(1) _ _ db'])
    show "\<forall>r \<in> set (rb_reports db). rp_id r = i \<longrightarrow> report_ok de db r" using assms(1) by (simp add: report_inv_def)
    show "features_of db' j = features_of db j" if "j \<noteq> i" for j using that by (simp add: fo)
    show "\<forall>(j, _) \<in> set ?fs. j \<in> rp_id ` set (rb_reports db)"
      using assms(1) get_row_mem [OF s(1)] by (auto simp: report_inv_def report_ids_def)
    fix x assume x: "x \<in> set (rb_reports db)" "rp_id x = i" "review_life db x"
    then have "x = r" using same_row [OF assms(1) s(1)] by blast
    have same: "rb_notes db' = rb_notes db" by (simp add: db')
    have "rp_status x = RS_borrador \<or> rp_status x = RS_cambios_solicitados" using s(2) \<open>x = r\<close> by (auto simp: editable_statuses_def)
    then show "review_life db' (bumped (rb_now db) x)"
      using x(2,3) s(4) resolve_positions [OF s(3)] unfolding review_life_def
      by (elim disjE) (simp_all add: fo same del: upt_Suc)
  qed simp_all
qed

lemma header_inv:
  assumes "report_inv de db" "update_report_header de i expected name type date conaf db = Inr (n, db')"
  shows "report_inv de db'"
proof -
  obtain f where f: "keeps_review f" "\<forall>x \<in> set (rb_reports db). rp_id x = i \<longrightarrow> report_ok de db (f x)" "db' = rewrite i (bumped (rb_now db) \<circ> f) db"
    using update_report_header_Inr [OF assms(2)] by blast
  have db': "db' = (rewrite i (bumped (rb_now db) \<circ> f) db)\<lparr>rb_features := rb_features db, rb_notes := rb_notes db\<rparr>"
    by (simp add: f(3) rewrite_def)
  show ?thesis
  proof (rule report_inv_rewrite [OF assms(1) _ f(2) db'])
    show "\<forall>(j, _) \<in> set (rb_features db). j \<in> rp_id ` set (rb_reports db)" using assms(1) by (simp add: report_inv_def report_ids_def)
    show "review_life db' (bumped (rb_now db) (f x))" if "review_life db x" for x
      using that f(1) by (simp add: review_life_def keeps_review_def f(3))
  qed (use f(1) in \<open>simp_all add: keeps_review_def f(3)\<close>)
qed

lemma transition_inv:
  assumes "report_inv de db" "transition_report de i action expected actor note db = Inr (status, db')"
  shows "report_inv de db'"
proof -
  let ?rev = "reviewed action actor (rb_now db)" and ?ns = "rb_notes db @ review_notes action (review_body note) i actor (rb_now db)"
  obtain r where t: "get_row db i = Some r" "rp_status r \<in> set (fst (transitions action))"
    "action = TA_request_changes \<longrightarrow> review_body note \<noteq> []" "action = TA_submit \<longrightarrow> (\<exists>f \<in> set (features_of db i). rf_in_report f)"
    "\<forall>x \<in> set (rb_reports db). rp_id x = i \<longrightarrow> report_ok de db (?rev x)" "db' = (rewrite i (bumped (rb_now db) \<circ> ?rev) db)\<lparr>rb_notes := ?ns\<rparr>"
    using transition_report_Inr [OF assms(2)] by blast
  have db': "db' = (rewrite i (bumped (rb_now db) \<circ> ?rev) db)\<lparr>rb_features := rb_features db, rb_notes := ?ns\<rparr>"
    by (simp add: t(6) rewrite_def)
  have fo: "features_of db' j = features_of db j" for j by (simp add: t(6) features_of_def)
  show ?thesis
  proof (rule report_inv_rewrite [OF assms(1) _ t(5) db'])
    show "\<forall>(j, _) \<in> set (rb_features db). j \<in> rp_id ` set (rb_reports db)" using assms(1) by (simp add: report_inv_def report_ids_def)
    fix x assume x: "x \<in> set (rb_reports db)" "rp_id x = i" "review_life db x"
    then have "x = r" using same_row [OF assms(1) t(1)] by blast
    have noted: "rb_notes db' = ?ns" by (simp add: t(6))
    have "rp_status x \<in> set (fst (transitions action))" using t(2) \<open>x = r\<close> by simp
    then show "review_life db' (bumped (rb_now db) (?rev x))"
      using x(2,3) t(3,4) unfolding review_life_def
      by (cases action) (simp_all add: fo noted reviewed_def review_notes_def bex_Un del: upt_Suc)
  qed (simp_all add: reviewed_def fo)
qed

lemma delete_inv:
  assumes "report_inv de db" "delete_report i db = Inr db'"
  shows "report_inv de db'"
proof -
  have db': "db' = db\<lparr>rb_reports := filter (\<lambda>r. rp_id r \<noteq> i) (rb_reports db), rb_features := filter (\<lambda>(j, _). j \<noteq> i) (rb_features db),
        rb_notes := filter (\<lambda>n. rn_report n \<noteq> i) (rb_notes db)\<rparr>" using assms(2) by (auto simp: delete_report_Inr)
  have fo: "features_of db' j = (if j = i then [] else features_of db j)" for j by (rule features_of_filter) (simp add: db')
  have ids: "report_ids db" and rows: "\<forall>r \<in> set (rb_reports db). report_ok de db r \<and> review_life db r"
    using assms(1) by (simp_all add: report_inv_def)
  have "report_ids db'" using ids by (auto simp: report_ids_def db' distinct_map_filter)
  moreover have "report_ok de db' r \<and> review_life db' r" if r: "r \<in> set (rb_reports db')" for r
  proof -
    have m: "r \<in> set (rb_reports db)" "rp_id r \<noteq> i" using r by (auto simp: db')
    have fewer: "name_in_use de db' n e \<Longrightarrow> name_in_use de db n e" for n e by (auto simp: name_in_use_def list_ex_iff db')
    have noted: "n \<in> set (rb_notes db') \<longleftrightarrow> n \<in> set (rb_notes db)" if "rn_report n = rp_id r" for n using m(2) that by (simp add: db')
    have same: "features_of db' (rp_id r) = features_of db (rp_id r)" using m(2) by (simp add: fo)
    have "report_ok de db r" "review_life db r" using rows m(1) by simp_all
    then have "report_ok de db' r" using fewer unfolding report_ok_def by blast
    moreover have "review_life db' r" using \<open>review_life db r\<close> noted unfolding review_life_def same by blast
    ultimately show ?thesis ..
  qed
  ultimately show ?thesis by (simp add: report_inv_def)
qed

lemma step_inv:
  assumes "report_inv de db" "report_step gs de db db'"
  shows "report_inv de db'"
  using assms(2)
proof cases
  case (S_create name type date actor i)
  then obtain r where "db' = db\<lparr>rb_reports := rb_reports db @ [r], rb_next := rb_next db + 1\<rparr>" "rp_id r = rb_next db" "rp_status r = RS_borrador"
    "rp_submitted_at r = None" "report_ok de db r" using create_report_Inr by blast
  then show ?thesis by (intro report_inv_append [OF assms(1), of r db' "[]"]) simp_all
next
  case (S_duplicate i actor n)
  then obtain s r where d: "db' = db\<lparr>rb_reports := rb_reports db @ [r], rb_next := rb_next db + 1,
        rb_features := rb_features db @ map (\<lambda>f. (n, f)) (features_of db i)\<rparr>" "n = rb_next db" "get_row db i = Some s" "rp_id r = n"
    "rp_status r = RS_borrador" "rp_submitted_at r = None" "report_ok de db r" using duplicate_report_Inr by blast
  have "review_life db s" "rp_id s = i" using report_inv_row [OF assms(1) d(3)] by simp_all
  with d show ?thesis by (intro report_inv_append [OF assms(1), of r db' "features_of db i"]) (simp_all add: review_life_def del: upt_Suc)
next
  case (S_publish p)
  then show ?thesis by (intro report_inv_cong [OF assms(1)]) simp_all
next
  case (S_ingest snapshot polygons)
  then show ?thesis by (intro report_inv_cong [OF assms(1)]) simp_all
next
  case (S_clock d)
  then show ?thesis by (intro report_inv_cong [OF assms(1)]) simp_all
qed (auto intro: save_inv header_inv transition_inv delete_inv assms(1))

lemma reachable_inv: "report_reachable gs de db \<Longrightarrow> report_inv de db"
proof (induction rule: report_reachable.induct)
  case (Reach_start db)
  then show ?case by (simp add: report_start_def report_inv_def report_ids_def)
next
  case (Reach_step db db')
  then show ?case by (blast intro: step_inv)
qed

section \<open>What a step does to one report\<close>

text \<open>A row and its features stay as they are, or the revision rises; an approved report keeps its features and header.\<close>

definition kept :: "report \<Rightarrow> 'g resolved_feature list \<Rightarrow> report \<Rightarrow> 'g resolved_feature list \<Rightarrow> bool" where
  "kept r fs r' fs' \<longleftrightarrow> r' = r \<and> fs' = fs
     \<or> rp_revision r' = rp_revision r + 1 \<and> rp_status r \<noteq> RS_archivado \<and> rp_base r' = rp_base r
       \<and> (rp_status r \<notin> set editable_statuses \<longrightarrow> fs' = fs \<and> rp_name r' = rp_name r \<and> rp_type r' = rp_type r
            \<and> rp_month r' = rp_month r \<and> rp_date r' = rp_date r)
       \<and> (rp_status r = RS_aprobado \<longrightarrow> rp_status r' \<in> {RS_aprobado, RS_archivado})"

definition effect :: "int \<Rightarrow> 'g report_db \<Rightarrow> 'g report_db \<Rightarrow> bool" where
  "effect i db db' \<longleftrightarrow>
     (case get_row db i of
        None \<Rightarrow> i < rb_next db \<longrightarrow> get_row db' i = None
      | Some r \<Rightarrow> (case get_row db' i of
            None \<Rightarrow> rp_status r = RS_borrador \<and> rp_submitted_at r = None
          | Some r' \<Rightarrow> kept r (features_of db i) r' (features_of db' i)))"

lemma kept_refl [simp]: "kept r fs r fs"
  by (simp add: kept_def)

lemma get_row_rewrite:
  "(\<And>r. rp_id (f r) = rp_id r) \<Longrightarrow> get_row (rewrite i f db) j = map_option (\<lambda>r. if j = i then f r else r) (get_row db j)"
  by (simp add: get_row_def rewrite_def find_map_id)

lemma get_row_cong: "rb_reports db' = rb_reports db \<Longrightarrow> get_row db' i = get_row db i"
  by (simp add: get_row_def)

lemma effect_same: "rb_reports db' = rb_reports db \<Longrightarrow> rb_features db' = rb_features db \<Longrightarrow> effect i db db'"
  using get_row_cong [of db' db i] features_of_same [of db' db i] by (simp add: effect_def split: option.splits)

lemma effect_rewrite:
  assumes "db' = (rewrite j (bumped t \<circ> f) db)\<lparr>rb_features := fs, rb_notes := ns\<rparr>" "\<And>r. rp_id (f r) = rp_id r"
    and "\<And>k. k \<noteq> j \<Longrightarrow> features_of db' k = features_of db k"
    and "\<And>r. get_row db j = Some r \<Longrightarrow> kept r (features_of db j) (bumped t (f r)) (features_of db' j)"
  shows "effect i db db'"
proof -
  have "get_row db' i = map_option (\<lambda>r. if i = j then (bumped t \<circ> f) r else r) (get_row db i)"
    by (subst get_row_cong [of db' "rewrite j (bumped t \<circ> f) db"]) (simp_all add: assms(1,2) get_row_rewrite)
  then show ?thesis using assms(3) [of i] assms(4)
    by (cases "get_row db i"; cases "i = j") (simp_all add: effect_def)
qed

lemma effect_append:
  assumes "report_inv de db" "rb_reports db' = rb_reports db @ [r0]" "rp_id r0 = rb_next db"
    and "rb_features db' = rb_features db @ map (\<lambda>f. (rb_next db, f)) fs"
  shows "effect i db db'"
proof -
  have fo: "features_of db' i = features_of db i @ (if i = rb_next db then fs else [])" by (rule features_of_append) (rule assms(4))
  have row: "get_row db' i = (case get_row db i of None \<Rightarrow> if rb_next db = i then Some r0 else None | Some r \<Rightarrow> Some r)"
    by (simp add: get_row_def assms(2,3) find_snoc_id)
  have "i < rb_next db" if "get_row db i = Some r" for r
    using assms(1) get_row_mem [OF that] by (auto simp: report_inv_def report_ids_def)
  then show ?thesis using row fo by (auto simp: effect_def split: option.splits)
qed

lemma save_effect:
  fixes db :: "'a report_db"
  assumes "save_report_features gs de j expected inputs db = Inr (saved, db')"
  shows "effect i db db'"
proof -
  obtain r and res :: "'a resolution" where s: "get_row db j = Some r" "rp_status r \<in> set editable_statuses"
    "db' = rewrite j (bumped (rb_now db)) (db\<lparr>rb_features := filter (\<lambda>(k, _). k \<noteq> j) (rb_features db) @ map (\<lambda>f. (j, f)) (rs_features res)\<rparr>)"
    using save_report_features_Inr [OF assms] by blast
  let ?fs = "filter (\<lambda>(k, _). k \<noteq> j) (rb_features db) @ map (\<lambda>f. (j, f)) (rs_features res)"
  have fo: "features_of db' k = (if k = j then rs_features res else features_of db k)" for k unfolding s(3) by (simp add: save_features)
  show ?thesis
  proof (rule effect_rewrite)
    show "db' = (rewrite j (bumped (rb_now db) \<circ> (\<lambda>r. r)) db)\<lparr>rb_features := ?fs, rb_notes := rb_notes db\<rparr>"
      by (simp add: s(3) rewrite_def comp_def)
    show "kept x (features_of db j) (bumped (rb_now db) x) (features_of db' j)" if "get_row db j = Some x" for x
      using that s(1,2) by (auto simp: kept_def editable_statuses_def)
  qed (simp_all add: fo)
qed

lemma header_effect:
  assumes "update_report_header de j expected name type date conaf db = Inr (n, db')"
  shows "effect i db db'"
proof -
  obtain r f where f: "get_row db j = Some r" "keeps_review f" "db' = rewrite j (bumped (rb_now db) \<circ> f) db"
    "rp_status r \<in> set editable_statuses
        \<or> rp_status r \<noteq> RS_archivado \<and> (\<forall>x. rp_name (f x) = rp_name x \<and> rp_type (f x) = rp_type x \<and> rp_month (f x) = rp_month x \<and> rp_date (f x) = rp_date x)"
    using update_report_header_Inr [OF assms] by blast
  show ?thesis
  proof (rule effect_rewrite)
    show "db' = (rewrite j (bumped (rb_now db) \<circ> f) db)\<lparr>rb_features := rb_features db, rb_notes := rb_notes db\<rparr>"
      by (simp add: f(3) rewrite_def)
    show "kept x (features_of db j) (bumped (rb_now db) (f x)) (features_of db' j)" if "get_row db j = Some x" for x
      using that f(1,2,4) by (auto simp: kept_def keeps_review_def editable_statuses_def f(3))
  qed (use f(2) in \<open>simp_all add: keeps_review_def f(3)\<close>)
qed

lemma transition_effect:
  assumes "transition_report de j action expected actor note db = Inr (status, db')"
  shows "effect i db db'"
proof -
  let ?rev = "reviewed action actor (rb_now db)" and ?ns = "rb_notes db @ review_notes action (review_body note) j actor (rb_now db)"
  obtain r where t: "get_row db j = Some r" "rp_status r \<in> set (fst (transitions action))"
    "db' = (rewrite j (bumped (rb_now db) \<circ> ?rev) db)\<lparr>rb_notes := ?ns\<rparr>"
    using transition_report_Inr [OF assms] by blast
  have fo: "features_of db' k = features_of db k" for k by (simp add: t(3) features_of_def)
  show ?thesis
  proof (rule effect_rewrite)
    show "db' = (rewrite j (bumped (rb_now db) \<circ> ?rev) db)\<lparr>rb_features := rb_features db, rb_notes := ?ns\<rparr>"
      by (simp add: t(3) rewrite_def)
    show "kept x (features_of db j) (bumped (rb_now db) (?rev x)) (features_of db' j)" if "get_row db j = Some x" for x
      using that t(1,2) fo by (cases action) (auto simp: kept_def reviewed_def editable_statuses_def)
  qed (simp_all add: reviewed_def fo)
qed

lemma delete_effect:
  assumes "delete_report j db = Inr db'"
  shows "effect i db db'"
proof -
  obtain r where d: "get_row db j = Some r" "rp_status r = RS_borrador" "rp_submitted_at r = None"
    "db' = db\<lparr>rb_reports := filter (\<lambda>r. rp_id r \<noteq> j) (rb_reports db), rb_features := filter (\<lambda>(k, _). k \<noteq> j) (rb_features db),
        rb_notes := filter (\<lambda>n. rn_report n \<noteq> j) (rb_notes db)\<rparr>" using assms by (auto simp: delete_report_Inr)
  have fo: "features_of db' i = (if i = j then [] else features_of db i)" by (rule features_of_filter) (simp add: d(4))
  have "get_row db' i = (if i = j then None else get_row db i)" by (simp add: get_row_def d(4) find_filter_id)
  with d(1-3) fo show ?thesis by (auto simp: effect_def split: option.splits)
qed

lemma step_effect:
  assumes "report_inv de db" "report_step gs de db db'"
  shows "effect i db db'"
  using assms(2)
proof cases
  case (S_create name type date actor n)
  then obtain r where "db' = db\<lparr>rb_reports := rb_reports db @ [r], rb_next := rb_next db + 1\<rparr>" "rp_id r = rb_next db"
    using create_report_Inr by blast
  then show ?thesis by (intro effect_append [OF assms(1), of db' r "[]"]) simp_all
next
  case (S_duplicate j actor n)
  then obtain r where "db' = db\<lparr>rb_reports := rb_reports db @ [r], rb_next := rb_next db + 1,
        rb_features := rb_features db @ map (\<lambda>f. (n, f)) (features_of db j)\<rparr>" "n = rb_next db" "rp_id r = n"
    using duplicate_report_Inr by blast
  then show ?thesis by (intro effect_append [OF assms(1), of db' r "features_of db j"]) simp_all
qed (auto intro: save_effect header_effect transition_effect delete_effect effect_same)

lemma step_next:
  assumes "report_step gs de db db'"
  shows "rb_next db \<le> rb_next db'"
  using assms
proof cases
  case (S_create name type date actor n)
  then show ?thesis using create_report_Inr by fastforce
next
  case (S_save i expected inputs saved)
  then show ?thesis using save_report_features_Inr by fastforce
next
  case (S_header i expected name type date' conaf n)
  then show ?thesis using update_report_header_Inr by fastforce
next
  case (S_transition i action expected actor body status)
  then show ?thesis using transition_report_Inr by fastforce
next
  case (S_duplicate i actor n)
  then show ?thesis using duplicate_report_Inr by fastforce
qed (auto simp: delete_report_Inr)

section \<open>Many steps\<close>

lemma steps_inv: "(report_step gs de)\<^sup>*\<^sup>* db db' \<Longrightarrow> report_inv de db \<Longrightarrow> report_inv de db'"
  by (induction rule: rtranclp_induct) (blast intro: step_inv)+

lemma steps_next: "(report_step gs de)\<^sup>*\<^sup>* db db' \<Longrightarrow> rb_next db \<le> rb_next db'"
  by (induction rule: rtranclp_induct) (auto dest: step_next)

text \<open>Identifiers are not used again: a report that is there afterwards was there all along.\<close>

lemma steps_version:
  assumes "(report_step gs de)\<^sup>*\<^sup>* db db'" "report_inv de db" "get_row db i = Some r" "get_row db' i = Some r'"
  shows "rp_revision r \<le> rp_revision r' \<and> (rp_revision r' = rp_revision r \<longrightarrow> r' = r \<and> features_of db' i = features_of db i)"
  using assms
proof (induction arbitrary: r' rule: rtranclp_induct)
  case base
  then show ?case by simp
next
  case (step db1 db')
  have inv: "report_inv de db1" using steps_inv [OF step.hyps(1)] step.prems(1) by blast
  have eff: "effect i db1 db'" by (rule step_effect [OF inv step.hyps(2)])
  have "i < rb_next db" using step.prems(1) get_row_mem [OF step.prems(2)] by (auto simp: report_inv_def report_ids_def)
  then have "i < rb_next db1" using steps_next [OF step.hyps(1)] by simp
  with eff step.prems(3) obtain r1 where r1: "get_row db1 i = Some r1" by (cases "get_row db1 i") (auto simp: effect_def)
  with eff step.prems(3) have "kept r1 (features_of db1 i) r' (features_of db' i)" by (simp add: effect_def)
  with step.IH [OF step.prems(1,2) r1] show ?case by (auto simp: kept_def)
qed

definition decided_same :: "report \<Rightarrow> report \<Rightarrow> bool" where
  "decided_same r r' \<longleftrightarrow> rp_name r' = rp_name r \<and> rp_type r' = rp_type r \<and> rp_month r' = rp_month r \<and> rp_date r' = rp_date r
     \<and> rp_base r' = rp_base r"

lemma steps_frozen:
  assumes "(report_step gs de)\<^sup>*\<^sup>* db db'" "report_inv de db" "get_row db i = Some r" "rp_status r \<in> {RS_aprobado, RS_archivado}"
  shows "\<exists>r'. get_row db' i = Some r' \<and> rp_status r' \<in> {rp_status r, RS_archivado} \<and> decided_same r r' \<and> features_of db' i = features_of db i"
  using assms
proof (induction rule: rtranclp_induct)
  case base
  then show ?case by (simp add: decided_same_def)
next
  case (step db1 db')
  have inv: "report_inv de db1" using steps_inv [OF step.hyps(1)] step.prems(1) by blast
  have eff: "effect i db1 db'" by (rule step_effect [OF inv step.hyps(2)])
  obtain r1 where r1: "get_row db1 i = Some r1" "rp_status r1 \<in> {rp_status r, RS_archivado}" "decided_same r r1" "features_of db1 i = features_of db i"
    using step.IH [OF step.prems] by blast
  from r1(2) step.prems(3) have st: "rp_status r1 \<in> {RS_aprobado, RS_archivado}" by auto
  with eff r1(1) obtain r' where r': "get_row db' i = Some r'" by (cases "get_row db' i") (auto simp: effect_def)
  with eff r1(1) have "kept r1 (features_of db1 i) r' (features_of db' i)" by (simp add: effect_def)
  with r' r1 st show ?case by (auto simp: kept_def decided_same_def editable_statuses_def)
qed

lemma reviewed_sel [simp]:
  "rp_id (reviewed a w t r) = rp_id r" "rp_name (reviewed a w t r) = rp_name r" "rp_type (reviewed a w t r) = rp_type r"
  "rp_month (reviewed a w t r) = rp_month r" "rp_date (reviewed a w t r) = rp_date r" "rp_base (reviewed a w t r) = rp_base r"
  "rp_status (reviewed a w t r) = snd (transitions a)" "rp_revision (reviewed a w t r) = rp_revision r"
  by (simp_all add: reviewed_def)

text \<open>The row a transition leaves.\<close>

lemma transition_row:
  assumes "transition_report de i action expected actor note db = Inr (status, db')"
  shows "\<exists>r. get_row db i = Some r \<and> rp_revision r = expected \<and> rp_status r \<in> set (fst (transitions action))
    \<and> get_row db' i = Some (bumped (rb_now db) (reviewed action actor (rb_now db) r)) \<and> features_of db' i = features_of db i"
proof -
  obtain r ns where t: "get_row db i = Some r" "rp_status r \<in> set (fst (transitions action))" "rp_revision r = expected"
    "db' = (rewrite i (bumped (rb_now db) \<circ> reviewed action actor (rb_now db)) db)\<lparr>rb_notes := ns\<rparr>"
    using transition_report_Inr [OF assms] by blast
  have "get_row db' i = get_row (rewrite i (bumped (rb_now db) \<circ> reviewed action actor (rb_now db)) db) i"
    by (rule get_row_cong) (simp add: t(4))
  then have "get_row db' i = Some (bumped (rb_now db) (reviewed action actor (rb_now db) r))" by (simp add: get_row_rewrite t(1))
  moreover have "features_of db' i = features_of db i" by (simp add: t(4) features_of_def)
  ultimately show ?thesis using t(1-3) by blast
qed

end
