(* ===== verification/ReportFeatures.thy ===== *)
theory ReportFeatures
  imports ReportFacts
begin

text \<open>
  Lemmas on the stored features: what \<open>check_source\<close> lets through, which attributes change, and the
  overlaps that are refused.
\<close>

section \<open>Attributes\<close>

lemma attribute_update [simp]: "attribute_get (AList.update k v d) key = (if key = k then v else attribute_get d key)"
  by (simp add: attribute_get_def update_conv')

lemma attribute_dict_update: "attribute_get (dict_update d e) key = (if key \<in> fst ` set e then attribute_get (rev e) key else attribute_get d key)"
proof (induction e arbitrary: d rule: rev_induct)
  case (snoc x e)
  then show ?case by (cases x) (auto simp: dict_update_def attribute_get_def update_conv')
qed (simp add: dict_update_def)

lemma clean_attributes_keys:
  assumes "clean_attributes raw o' = Inr overrides"
  shows "fst ` set overrides \<subseteq> fst ` set editable_widths"
proof
  fix k assume "k \<in> fst ` set overrides"
  then obtain v where "(k, v) \<in> set overrides" by auto
  then obtain e where "clean_attribute o' e = Inr (k, v)"
    using traverse_mem [OF assms [unfolded clean_attributes_def]] by blast
  then show "k \<in> fst ` set editable_widths"
    by (cases e) (auto simp: clean_attribute_def Let_def split: option.splits if_splits json.splits dest: map_of_SomeD intro: image_eqI [rotated])
qed

section \<open>Sources\<close>

definition split_ok :: "('g, 'j) geos \<Rightarrow> 'g source_polygon \<Rightarrow> 'g list \<Rightarrow> bool" where
  "split_ok gs s pieces \<longleftrightarrow> sp_valid s \<and> (\<forall>g \<in> set pieces. gs_valid gs g \<and> \<not> fl_less (gs_area gs g) min_piece_area)
     \<and> \<not> fl_less coverage_tolerance (gs_area gs (gs_symmetric_difference gs (gs_union gs pieces) (sp_geometry s)))"

lemma check_pieces_Inr: "traverse (check_piece gs o') pieces = Inr us \<Longrightarrow> g \<in> set pieces \<Longrightarrow> gs_valid gs g \<and> \<not> fl_less (gs_area gs g) min_piece_area"
  by (auto simp: traverse_Inr list_all2_conv_all_nth in_set_conv_nth check_piece_def split: if_splits)

lemma check_source_changed:
  assumes "check_source gs sources acc (o', pieces) = Inr (changed, warnings)" "x \<in> set changed"
  shows "x \<in> set (fst acc) \<or> x = o' \<and> split_ok gs (the (map_of sources o')) pieces"
proof (cases acc)
  case (Pair c w)
  with assms show ?thesis
    by (auto simp: check_source_def Let_def split_ok_def split: if_splits dest: check_pieces_Inr)
qed

lemma changed_sources:
  assumes "fold_result (check_source gs sources) ([], []) (map (\<lambda>(o', ps). (o', map pf_geometry ps)) groups) = Inr (changed, warnings)"
    and "x \<in> set changed"
  shows "\<exists>ps. (x, ps) \<in> set groups \<and> split_ok gs (the (map_of sources x)) (map pf_geometry ps)"
proof -
  let ?P = "\<lambda>acc. \<forall>x \<in> set (fst acc). \<exists>ps. (x, ps) \<in> set groups \<and> split_ok gs (the (map_of sources x)) (map pf_geometry ps)"
  have "?P (changed, warnings)"
    using assms(1)
  proof (rule fold_result_invariant)
    fix acc e acc' assume e: "e \<in> set (map (\<lambda>(o', ps). (o', map pf_geometry ps)) groups)" "check_source gs sources acc e = Inr acc'" "?P acc"
    then obtain o' ps where "(o', ps) \<in> set groups" "e = (o', map pf_geometry ps)" by auto
    with e(2,3) show "?P acc'" by (cases acc') (auto dest: check_source_changed)
  qed simp_all
  with assms(2) show ?thesis by simp
qed

section \<open>What is stored for each feature\<close>

definition sound_feature :: "('g, 'j) geos \<Rightarrow> 'g resolved_feature list \<Rightarrow> 'g source_polygon \<Rightarrow> 'g resolved_feature \<Rightarrow> bool" where
  "sound_feature gs fs s f \<longleftrightarrow>
     (if rf_changed f
      then split_ok gs s (map rf_geometry (filter (\<lambda>g. rf_ordinal g = rf_ordinal f) fs))
        \<and> attribute_get (rf_attributes f) (lit ''sup_ha'') = JFloat (fl_div (gs_area gs (rf_geometry f)) (Fin 10000))
        \<and> attribute_get (rf_attributes f) (lit ''shape_area'') = JFloat (gs_area gs (rf_geometry f))
        \<and> attribute_get (rf_attributes f) (lit ''shape_leng'') = JFloat (gs_length gs (rf_geometry f))
        \<and> attribute_get (rf_attributes f) (lit ''editada'') = JStr (lit ''wb'')
      else to_multipolygon gs (sp_geometry s) = Inr (rf_geometry f))
     \<and> (\<forall>key. attribute_get (rf_attributes f) key \<noteq> attribute_get (sp_attributes s) key \<longrightarrow>
          key \<in> fst ` set editable_widths \<or> key = lit ''editada''
          \<or> rf_changed f \<and> key \<in> {lit ''sup_ha'', lit ''shape_area'', lit ''shape_leng''})"

definition stored_as :: "('g, 'j) geos \<Rightarrow> 'g resolved_feature list \<Rightarrow> 'j feature_input \<Rightarrow> 'g source_polygon \<Rightarrow> 'g resolved_feature \<Rightarrow> bool" where
  "stored_as gs fs item s f \<longleftrightarrow>
     rf_ordinal f = fi_ordinal item \<and> rf_in_report f = fi_in_report item \<and> rf_sector f = fi_sector item
     \<and> rf_species f = fi_species item \<and> rf_density f = fi_density item \<and> sound_feature gs fs s f"

lemma parse_feature_Inr:
  assumes "parse_feature gs sources item = Inr p"
  shows "pf_item p = item \<and> map_of sources (fi_ordinal item) \<noteq> None \<and> fst ` set (pf_overrides p) \<subseteq> fst ` set editable_widths"
proof -
  have "pf_item p = item \<and> map_of sources (fi_ordinal item) \<noteq> None
    \<and> clean_attributes (fi_attributes item) (fi_ordinal item) = Inr (pf_overrides p)"
    using assms by (auto simp: parse_feature_def Let_def split: option.splits)
  with clean_attributes_keys show ?thesis by blast
qed

lemma resolve_feature_Inr:
  assumes "resolve_feature gs sources changed (k, p) = Inr f"
  shows "rf_position f = k \<and> rf_ordinal f = fi_ordinal (pf_item p) \<and> (rf_changed f \<longleftrightarrow> rf_ordinal f \<in> set changed)
    \<and> (rf_changed f \<longrightarrow> rf_geometry f = pf_geometry p)"
  using assms by (auto simp: resolve_feature_def Let_def)

lemma resolve_feature_stored:
  assumes "resolve_feature gs sources changed (k, p) = Inr f" "fst ` set (pf_overrides p) \<subseteq> fst ` set editable_widths"
    and "map_of sources (fi_ordinal (pf_item p)) = Some s"
    and "rf_changed f \<Longrightarrow> split_ok gs s (map rf_geometry (filter (\<lambda>g. rf_ordinal g = rf_ordinal f) fs))"
  shows "stored_as gs fs (pf_item p) s f"
proof -
  have lits: "lit ''shape_area'' \<noteq> lit ''sup_ha''" "lit ''shape_leng'' \<noteq> lit ''sup_ha''" "lit ''shape_leng'' \<noteq> lit ''shape_area''"
    "lit ''editada'' \<noteq> lit ''sup_ha''" "lit ''editada'' \<noteq> lit ''shape_area''" "lit ''editada'' \<noteq> lit ''shape_leng''"
    by (simp_all add: lit_def)
  define W where "W = fst ` set editable_widths"
  have edited: "key \<in> W" if "attribute_get (dict_update (sp_attributes s) (pf_overrides p)) key \<noteq> attribute_get (sp_attributes s) key" for key
    using that assms(2) unfolding W_def by (auto simp: attribute_dict_update split: if_splits)
  show ?thesis
    using assms(1,3,4) lits unfolding stored_as_def sound_feature_def W_def [symmetric]
    by (auto simp: resolve_feature_def Let_def dict_update_def [of _ "[_, _, _]"] intro: edited split: if_splits)
qed

lemma resolve_features_stored:
  assumes "resolve_features gs inputs sources = Inr res"
  shows "length inputs \<le> max_features
    \<and> list_all2 (\<lambda>item f. \<exists>s. map_of sources (fi_ordinal item) = Some s \<and> stored_as gs (rs_features res) item s f) inputs (rs_features res)"
proof -
  obtain parsed changed warnings where
    r: "length inputs \<le> max_features" "traverse (parse_feature gs sources) inputs = Inr parsed"
      "fold_result (check_source gs sources) ([], []) (map (\<lambda>(o', ps). (o', map pf_geometry ps)) (group_by (\<lambda>p. fi_ordinal (pf_item p)) parsed))
         = Inr (changed, warnings)"
      "traverse (resolve_feature gs sources changed) (zip [1..<Suc (length parsed)] parsed) = Inr (rs_features res)"
    using resolve_features_Inr [OF assms] by blast
  let ?fs = "rs_features res"
  have len: "length parsed = length inputs" "length ?fs = length parsed"
    using r(2,4) [unfolded traverse_Inr, THEN list_all2_lengthD] by (simp_all del: upt_Suc)
  have parse: "parse_feature gs sources (inputs ! k) = Inr (parsed ! k)" if "k < length inputs" for k
    using r(2) that by (simp add: traverse_Inr list_all2_conv_all_nth)
  have res: "resolve_feature gs sources changed (Suc k, parsed ! k) = Inr (?fs ! k)" if "k < length parsed" for k
    using r(4) that by (simp add: traverse_Inr list_all2_conv_all_nth del: upt_Suc)
  have ordinal: "rf_ordinal (?fs ! k) = fi_ordinal (pf_item (parsed ! k))"
    and changed: "rf_changed (?fs ! k) \<longleftrightarrow> rf_ordinal (?fs ! k) \<in> set changed"
    and geometry: "rf_changed (?fs ! k) \<Longrightarrow> rf_geometry (?fs ! k) = pf_geometry (parsed ! k)" if "k < length parsed" for k
    using resolve_feature_Inr [OF res [OF that]] by simp_all
  have pieces: "map rf_geometry (filter (\<lambda>g. rf_ordinal g = x) ?fs) = map pf_geometry (filter (\<lambda>p. fi_ordinal (pf_item p) = x) parsed)"
    if x: "x \<in> set changed" for x
  proof -
    have "list_all2 (\<lambda>p g. rf_ordinal g = fi_ordinal (pf_item p) \<and> (rf_ordinal g = x \<longrightarrow> rf_geometry g = pf_geometry p)) parsed ?fs"
      using ordinal changed geometry x len(2) by (simp add: list_all2_conv_all_nth)
    then show ?thesis by (induction rule: list_all2_induct) auto
  qed
  show ?thesis
  proof (intro conjI r(1) list_all2_all_nthI)
    fix k assume k: "k < length inputs"
    note p = parse_feature_Inr [OF parse [OF k]]
    from p obtain s where s: "map_of sources (fi_ordinal (inputs ! k)) = Some s" by blast
    have k': "k < length parsed" using k len by simp
    have "stored_as gs ?fs (pf_item (parsed ! k)) s (?fs ! k)"
    proof (rule resolve_feature_stored [OF res [OF k']])
      assume "rf_changed (?fs ! k)"
      with changed k' have x: "rf_ordinal (?fs ! k) \<in> set changed" by simp
      obtain ps where "(rf_ordinal (?fs ! k), ps) \<in> set (group_by (\<lambda>p. fi_ordinal (pf_item p)) parsed)"
        "split_ok gs (the (map_of sources (rf_ordinal (?fs ! k)))) (map pf_geometry ps)"
        using changed_sources [OF r(3) x] by blast
      then show "split_ok gs s (map rf_geometry (filter (\<lambda>g. rf_ordinal g = rf_ordinal (?fs ! k)) ?fs))"
        using pieces [OF x] ordinal [OF k'] p s by (simp add: group_by_entry)
    qed (use p s in simp_all)
    with p s show "\<exists>s. map_of sources (fi_ordinal (inputs ! k)) = Some s \<and> stored_as gs ?fs (inputs ! k) s (?fs ! k)" by auto
  qed (use len in simp)
qed

section \<open>Overlaps\<close>

text \<open>What the code relies on: the tree's query returns every pair whose intersection has an area.\<close>

definition tree_complete :: "('g, 'j) geos \<Rightarrow> bool" where
  "tree_complete gs \<longleftrightarrow> (\<forall>xs i j. i < j \<and> j < length xs \<and> fl_less (Fin 0) (gs_area gs (gs_intersection gs (xs ! i) (xs ! j)))
     \<longrightarrow> (i, j) \<in> set (gs_intersecting gs xs))"

definition no_overlap :: "('g, 'j) geos \<Rightarrow> 'g resolved_feature list \<Rightarrow> bool" where
  "no_overlap gs fs \<longleftrightarrow> (\<forall>j < length fs. \<forall>i < j. rf_ordinal (fs ! i) = rf_ordinal (fs ! j) \<longrightarrow>
     \<not> fl_less overlap_tolerance (gs_area gs (gs_intersection gs (gs_make_valid gs (rf_geometry (fs ! i))) (gs_make_valid gs (rf_geometry (fs ! j))))))"

lemma hundredth: "\<exists>t. round_double (1 / 100) = Fin t \<and> 0 < t"
proof -
  have "\<bar>1 / 100 :: rat\<bar> < pow2 1023" by (rule small_pow2) simp
  then obtain t where t: "round_double (1 / 100) = Fin t" "\<bar>t - 1 / 100\<bar> \<le> ulp_half * (\<bar>1 / 100\<bar> + 1)"
    using round_double_err by blast
  then have "0 < t" by (simp add: ulp_half_def abs_if split: if_splits)
  with t(1) show ?thesis by blast
qed

lemma overlap_tolerance_less: "fl_less overlap_tolerance x \<Longrightarrow> fl_less (Fin 0) x"
  using hundredth by (auto simp: overlap_tolerance_def fl_less_def split: pyfloat.splits)

lemma coverage_tolerance_zero: "\<not> fl_less coverage_tolerance (Fin 0)"
  using hundredth by (auto simp: coverage_tolerance_def fl_less_def)

lemma reject_overlaps_Inr:
  assumes "reject_overlaps gs fs = Inr ()" "tree_complete gs"
  shows "no_overlap gs fs"
  unfolding no_overlap_def
proof (intro allI impI notI)
  fix i j
  let ?gs = "map (\<lambda>f. gs_make_valid gs (rf_geometry f)) fs"
  assume ij: "j < length fs" "i < j" "rf_ordinal (fs ! i) = rf_ordinal (fs ! j)"
    and o': "fl_less overlap_tolerance (gs_area gs (gs_intersection gs (gs_make_valid gs (rf_geometry (fs ! i))) (gs_make_valid gs (rf_geometry (fs ! j)))))"
  from o' have "fl_less (Fin 0) (gs_area gs (gs_intersection gs (?gs ! i) (?gs ! j)))" using ij by (simp add: overlap_tolerance_less)
  then have "(i, j) \<in> set (gs_intersecting gs ?gs)" using assms(2) ij unfolding tree_complete_def by (simp add: Bex_def)
  moreover have "overlaps gs fs ?gs (i, j)" using ij o' by (simp add: overlaps_def)
  ultimately have "find (overlaps gs fs ?gs) (gs_intersecting gs ?gs) \<noteq> None" by (auto simp: find_None_iff)
  moreover have "\<not> length fs < 2" using ij by linarith
  ultimately show False using assms(1) by (auto simp: reject_overlaps_def Let_def)
qed

section \<open>Stored features of every reachable database\<close>

definition features_sound :: "('g, 'j) geos \<Rightarrow> 'g source_polygon list \<Rightarrow> 'g resolved_feature list \<Rightarrow> bool" where
  "features_sound gs polygons fs \<longleftrightarrow> length fs \<le> max_features \<and> (tree_complete gs \<longrightarrow> no_overlap gs fs)
     \<and> (\<forall>f \<in> set fs. \<exists>s \<in> set polygons. sp_ordinal s = rf_ordinal f \<and> sound_feature gs fs s f)"

lemma features_sound_Nil [simp]: "features_sound gs polygons []"
  by (simp add: features_sound_def no_overlap_def)

lemma load_source: "map_of (load_source_polygons db base ords) o' = Some s \<Longrightarrow> s \<in> set (rb_sources db base) \<and> sp_ordinal s = o'"
  by (auto simp: load_source_polygons_def dest!: map_of_SomeD)

lemma resolved_sound:
  assumes "resolve_features gs inputs (load_source_polygons db base ords) = Inr res"
  shows "features_sound gs (rb_sources db base) (rs_features res)"
proof -
  let ?fs = "rs_features res"
  note stored = resolve_features_stored [OF assms]
  have "\<exists>s \<in> set (rb_sources db base). sp_ordinal s = rf_ordinal f \<and> sound_feature gs ?fs s f" if "f \<in> set ?fs" for f
  proof -
    from that obtain k where k: "k < length ?fs" "f = ?fs ! k" by (auto simp: in_set_conv_nth)
    with stored obtain s where "map_of (load_source_polygons db base ords) (fi_ordinal (inputs ! k)) = Some s" "stored_as gs ?fs (inputs ! k) s f"
      by (auto simp: list_all2_conv_all_nth)
    with load_source show ?thesis unfolding stored_as_def by fastforce
  qed
  moreover have "tree_complete gs \<longrightarrow> no_overlap gs ?fs" using resolve_features_Inr [OF assms] reject_overlaps_Inr by blast
  moreover have "length ?fs \<le> max_features" using stored list_all2_lengthD by fastforce
  ultimately show ?thesis unfolding features_sound_def by blast
qed

definition base_inv :: "('g, 'j) geos \<Rightarrow> 'g report_db \<Rightarrow> bool" where
  "base_inv gs db \<longleftrightarrow> f_reachable (rb_pub db)
     \<and> (\<forall>r \<in> set (rb_reports db). rp_base r \<in> set (fp_snapshots (rb_pub db))
          \<and> features_sound gs (rb_sources db (rp_base r)) (features_of db (rp_id r)))"

lemma base_inv_rewrite:
  assumes "base_inv gs db" "db' = (rewrite i f db)\<lparr>rb_features := fs, rb_notes := ns\<rparr>" "\<And>r. rp_id (f r) = rp_id r" "\<And>r. rp_base (f r) = rp_base r"
    and "\<And>k. k \<noteq> i \<Longrightarrow> features_of db' k = features_of db k"
    and "\<And>r. r \<in> set (rb_reports db) \<Longrightarrow> rp_id r = i \<Longrightarrow> features_sound gs (rb_sources db (rp_base r)) (features_of db i)
      \<Longrightarrow> features_sound gs (rb_sources db (rp_base r)) (features_of db' i)"
  shows "base_inv gs db'"
proof -
  have same: "rb_pub db' = rb_pub db" "rb_sources db' = rb_sources db" by (simp_all add: assms(2))
  have row: "\<exists>s \<in> set (rb_reports db). rp_id r = rp_id s \<and> rp_base r = rp_base s" if "r \<in> set (rb_reports db')" for r
    using that assms(3,4) by (fastforce simp: assms(2) rewrite_def)
  have "features_sound gs (rb_sources db (rp_base s)) (features_of db' (rp_id s))" if "s \<in> set (rb_reports db)" for s
    using that assms(1,5,6) by (cases "rp_id s = i") (auto simp: base_inv_def)
  then show ?thesis using row assms(1) unfolding base_inv_def same by metis
qed

lemma base_inv_append:
  assumes "base_inv gs db" "report_inv de db" "rb_reports db' = rb_reports db @ [r0]" "rp_id r0 = rb_next db"
    and "rb_features db' = rb_features db @ map (\<lambda>f. (rb_next db, f)) fs" "rb_pub db' = rb_pub db" "rb_sources db' = rb_sources db"
    and "rp_base r0 \<in> set (fp_snapshots (rb_pub db))" "features_sound gs (rb_sources db (rp_base r0)) fs"
  shows "base_inv gs db'"
proof -
  have ids: "report_ids db" using assms(2) by (simp add: report_inv_def)
  then have fresh: "rb_next db \<notin> rp_id ` set (rb_reports db)" by (auto simp: report_ids_def)
  have fo: "features_of db' k = (if k = rb_next db then fs else features_of db k)" for k
    using features_of_append [OF assms(5), of k] features_of_fresh [OF ids fresh] by simp
  have "rp_id r \<noteq> rb_next db" if "r \<in> set (rb_reports db)" for r using fresh that by (metis image_eqI)
  with assms(1,4,8,9) show ?thesis unfolding base_inv_def assms(3,6,7) fo by simp
qed

lemma published_stored: "f_reachable p \<Longrightarrow> read_published_snapshot_id p = Some i \<Longrightarrow> i \<in> set (fp_snapshots p)"
  using forestry.served_stored [OF f_reach] by (simp add: read_published_snapshot_id_def)

lemma create_base:
  assumes "create_report de name type date actor db = Inr (i, db')"
  shows "\<exists>r base. db' = db\<lparr>rb_reports := rb_reports db @ [r], rb_next := rb_next db + 1\<rparr> \<and> rp_id r = rb_next db
    \<and> rp_base r = base \<and> read_published_snapshot_id (rb_pub db) = Some base"
proof -
  obtain base where base: "read_published_snapshot_id (rb_pub db) = Some base"
    using assms by (cases "read_published_snapshot_id (rb_pub db)") (auto simp: create_report_def)
  with assms obtain clean where "clean_name name = Inr clean" by (auto simp: create_report_def)
  with assms base show ?thesis by (auto simp: create_report_def intro!: exI conjI)
qed

lemma step_base:
  assumes "base_inv gs db" "report_inv de db" "report_step gs de db db'"
  shows "base_inv gs db'"
  using assms(3)
proof cases
  case (S_create name type date actor i)
  then obtain r base where r: "db' = db\<lparr>rb_reports := rb_reports db @ [r], rb_next := rb_next db + 1\<rparr>" "rp_id r = rb_next db"
    "rp_base r = base" "read_published_snapshot_id (rb_pub db) = Some base" using create_base by blast
  moreover have "base \<in> set (fp_snapshots (rb_pub db))" using published_stored r(4) assms(1) by (auto simp: base_inv_def)
  ultimately show ?thesis by (intro base_inv_append [OF assms(1,2), of db' r "[]"]) simp_all
next
  case (S_duplicate i actor n)
  then obtain s r where d: "db' = db\<lparr>rb_reports := rb_reports db @ [r], rb_next := rb_next db + 1,
        rb_features := rb_features db @ map (\<lambda>f. (n, f)) (features_of db i)\<rparr>" "n = rb_next db" "get_row db i = Some s" "rp_id r = n"
    "rp_base r = rp_base s" using duplicate_report_Inr by blast
  have "s \<in> set (rb_reports db)" "rp_id s = i" using get_row_mem [OF d(3)] by simp_all
  then have "rp_base r \<in> set (fp_snapshots (rb_pub db))" "features_sound gs (rb_sources db (rp_base r)) (features_of db i)"
    using assms(1) d(5) by (auto simp: base_inv_def)
  with d show ?thesis by (intro base_inv_append [OF assms(1,2), of db' r "features_of db i"]) simp_all
next
  case (S_save i expected inputs saved)
  then obtain r res where s: "get_row db i = Some r"
    "resolve_features gs inputs (load_source_polygons db (rp_base r) (map fi_ordinal inputs)) = Inr res"
    "db' = rewrite i (bumped (rb_now db)) (db\<lparr>rb_features := filter (\<lambda>(j, _). j \<noteq> i) (rb_features db) @ map (\<lambda>f. (i, f)) (rs_features res)\<rparr>)"
    using save_report_features_Inr by blast
  have fo: "features_of db' k = (if k = i then rs_features res else features_of db k)" for k unfolding s(3) by (simp add: save_features)
  show ?thesis
  proof (rule base_inv_rewrite [OF assms(1), where i = i and f = "bumped (rb_now db)"])
    show "db' = (rewrite i (bumped (rb_now db)) db)\<lparr>rb_features := filter (\<lambda>(j, _). j \<noteq> i) (rb_features db) @ map (\<lambda>f. (i, f)) (rs_features res),
        rb_notes := rb_notes db\<rparr>" by (simp add: s(3) rewrite_def)
    fix x assume "x \<in> set (rb_reports db)" "rp_id x = i"
    then have "x = r" using same_row [OF assms(2) s(1)] by blast
    with resolved_sound [OF s(2)] show "features_sound gs (rb_sources db (rp_base x)) (features_of db' i)" by (simp add: fo)
  qed (simp_all add: fo)
next
  case (S_header i expected name type date' conaf n)
  then obtain f where f: "keeps_review f" "db' = rewrite i (bumped (rb_now db) \<circ> f) db" using update_report_header_Inr by blast
  show ?thesis
  proof (rule base_inv_rewrite [OF assms(1), where i = i and f = "bumped (rb_now db) \<circ> f"])
    show "db' = (rewrite i (bumped (rb_now db) \<circ> f) db)\<lparr>rb_features := rb_features db, rb_notes := rb_notes db\<rparr>"
      by (simp add: f(2) rewrite_def)
  qed (use f(1) in \<open>simp_all add: keeps_review_def f(2)\<close>)
next
  case (S_transition i action expected actor body status)
  then obtain ns where t: "db' = (rewrite i (bumped (rb_now db) \<circ> reviewed action actor (rb_now db)) db)\<lparr>rb_notes := ns\<rparr>"
    using transition_report_Inr by blast
  have fo: "features_of db' k = features_of db k" for k by (simp add: t features_of_def)
  show ?thesis
  proof (rule base_inv_rewrite [OF assms(1), where i = i and f = "bumped (rb_now db) \<circ> reviewed action actor (rb_now db)"])
    show "db' = (rewrite i (bumped (rb_now db) \<circ> reviewed action actor (rb_now db)) db)\<lparr>rb_features := rb_features db, rb_notes := ns\<rparr>"
      by (simp add: t rewrite_def)
  qed (simp_all add: fo)
next
  case (S_delete i)
  then have db': "db' = db\<lparr>rb_reports := filter (\<lambda>r. rp_id r \<noteq> i) (rb_reports db), rb_features := filter (\<lambda>(j, _). j \<noteq> i) (rb_features db),
        rb_notes := filter (\<lambda>n. rn_report n \<noteq> i) (rb_notes db)\<rparr>" by (auto simp: delete_report_Inr)
  have fo: "features_of db' k = (if k = i then [] else features_of db k)" for k by (rule features_of_filter) (simp add: db')
  show ?thesis using assms(1) unfolding base_inv_def fo by (simp add: db')
next
  case (S_publish p)
  have fo: "features_of (db\<lparr>rb_pub := p\<rparr>) k = features_of db k" for k by (simp add: features_of_def)
  have "f_reachable p" using assms(1) S_publish(2) by (auto simp: base_inv_def intro: f_reachable.F_next)
  moreover have "set (fp_snapshots (rb_pub db)) \<subseteq> set (fp_snapshots p)"
    using S_publish(2) by cases (auto simp: activate_snapshot_Inr publish_initial_Inr record_event_def split: if_splits)
  ultimately show ?thesis using assms(1) unfolding S_publish(1) base_inv_def fo by auto
next
  case (S_ingest snapshot polygons)
  have fo: "features_of (db\<lparr>rb_sources := ss\<rparr>) k = features_of db k" for k ss by (simp add: features_of_def)
  show ?thesis using assms(1) S_ingest(2) unfolding S_ingest(1) base_inv_def fo by auto
next
  case (S_clock d)
  have fo: "features_of (db\<lparr>rb_now := t\<rparr>) k = features_of db k" for k t by (simp add: features_of_def)
  show ?thesis using assms(1) unfolding S_clock(1) base_inv_def fo by simp
qed

lemma reachable_base: "report_reachable gs de db \<Longrightarrow> base_inv gs db"
proof (induction rule: report_reachable.induct)
  case (Reach_start db)
  then show ?case by (simp add: report_start_def base_inv_def)
next
  case (Reach_step db db')
  then show ?case by (blast intro: step_base reachable_inv)
qed

end
