(* ===== verification/ReportErrors.thy ===== *)
theory ReportErrors
  imports ReportFacts ConafFacts
begin

text \<open>
  Lemmas on refusals: on the rows of a reachable database the writes of a report never break a
  constraint of the tables.
\<close>

lemma clean_name_Inr: "clean_name n = Inr c \<Longrightarrow> strip_by (\<lambda>c. c = 32) c \<noteq> [] \<and> length c \<le> 120"
proof -
  assume "clean_name n = Inr c"
  then have c: "c = strip n" "c \<noteq> []" "length c \<le> 120" by (auto simp: clean_name_def Let_def max_name_length_def split: if_splits)
  then have "hd c \<in> set c" "\<not> is_space (hd c)" using strip_by_hd [of is_space n] by (simp_all add: strip_def)
  then have "hd c \<noteq> 32" by (auto simp: is_space_def)
  with \<open>hd c \<in> set c\<close> c(3) show ?thesis by (auto simp: strip_by_empty_iff)
qed

lemma month_from_date: "month_from_date d = take 7 (isoformat d)"
  by (simp add: month_from_date_def isoformat_def digit4_def digit2_def)

lemma month_from_date_ok:
  assumes "valid_date d"
  shows "month_ok (month_from_date d)"
proof -
  have m: "1 \<le> d_month d" "d_month d \<le> 12" "0 \<le> d_month d" "d_month d < 100" using assms by (auto simp: valid_date_def)
  have "drop 5 (month_from_date d) = digit2 (d_month d)" by (simp add: month_from_date_def digit4_def digit2_def)
  moreover have "length (month_from_date d) = 7" "month_from_date d ! 4 = 45" "list_all ascii_digit (take 4 (month_from_date d))"
    by (simp_all add: month_from_date_def nth_append list_all_iff)
  moreover have "list_all ascii_digit (digit2 (d_month d))" by (simp add: list_all_iff)
  ultimately show ?thesis using m by (simp add: month_ok_def digits_value_digit2)
qed

lemma clean_name_Inl: "clean_name n = Inl e \<Longrightarrow> e = Report_error R_invalid_name"
  by (auto simp: clean_name_def Let_def split: if_splits)

lemma ensure_name_free_Inl: "ensure_name_free de db c x = Inl e \<Longrightarrow> e = Report_error R_name_taken"
  by (auto simp: ensure_name_free_def split: if_splits)

lemma name_in_use_except: "name_in_use de db n (Some i) \<Longrightarrow> name_in_use de db n None"
  by (auto simp: name_in_use_def list_ex_iff)

lemma create_refused:
  assumes "create_report de name type date actor db = Inl e" "valid_date date"
  shows "e \<in> Report_error ` {R_invalid_name, R_no_published_base, R_name_taken}"
proof (cases "clean_name name")
  case (Inl x)
  with assms clean_name_Inl show ?thesis by (auto simp: create_report_def)
next
  case (Inr c)
  show ?thesis
  proof (cases "\<exists>base. read_published_snapshot_id (rb_pub db) = Some base \<and> \<not> name_in_use de db c None")
    case True
    then obtain base where b: "read_published_snapshot_id (rb_pub db) = Some base" "\<not> name_in_use de db c None" by blast
    have "\<not> name_in_use de db c (Some i)" for i using b(2) name_in_use_except by blast
    then have "report_ok de db \<lparr>rp_id = rb_next db, rp_name = c, rp_type = type, rp_month = month_from_date date,
             rp_date = Some date, rp_status = RS_borrador, rp_base = base, rp_revision = 1, rp_created_by = actor,
             rp_created_at = rb_now db, rp_updated_at = rb_now db, rp_submitted_at = None, rp_decided_at = None,
             rp_decided_by = None, rp_conaf = None\<rparr>"
      using clean_name_Inr [OF Inr] month_from_date_ok [OF assms(2)] by (simp add: report_ok_def month_from_date)
    then show ?thesis using assms(1) b by (simp add: create_report_def Inr ensure_name_free_def insert_report_def)
  next
    case False
    then show ?thesis using assms(1) by (auto simp: create_report_def Inr ensure_name_free_def split: option.splits)
  qed
qed

section \<open>Changes of a row\<close>

lemma bump_rewritten:
  assumes "\<forall>r \<in> set (rb_reports db). report_ok de db r" "\<forall>r \<in> set (rb_reports db). rp_id r = i \<longrightarrow> report_ok de db (f r)"
    and "\<And>r. rp_id (f r) = rp_id r"
  shows "\<exists>db'. bump de i ((rewrite i f db)\<lparr>rb_notes := ns\<rparr>) = Inr db'"
proof -
  have "report_ok de ((rewrite i f db)\<lparr>rb_notes := ns\<rparr>) r" if "r \<in> set (rb_reports (rewrite i f db))" for r
  proof -
    obtain s where s: "s \<in> set (rb_reports db)" "r = (if rp_id s = i then f s else s)" using \<open>r \<in> _\<close> by (auto simp: rewrite_def)
    show ?thesis unfolding s(2) using report_ok_rewrite [OF assms(3,1,2) s(1)] by simp
  qed
  then show ?thesis by (auto simp: bump_Inr report_ok_bumped)
qed

lemma rewrite_notes: "(rewrite i f db)\<lparr>rb_notes := rb_notes db\<rparr> = rewrite i f db"
  by (cases db) (simp add: rewrite_def)

lemma row_kept_ok:
  assumes "report_ok de db r" "rp_id (f r) = rp_id r" "rp_name (f r) = rp_name r" "rp_month (f r) = rp_month r" "rp_date (f r) = rp_date r"
    and "rp_revision (f r) = rp_revision r" "rp_conaf (f r) = rp_conaf r" "rp_status r \<noteq> RS_archivado"
  shows "report_ok de db (f r)"
  using assms by (auto simp: report_ok_def split: option.splits)

lemma transition_refused:
  assumes "report_inv de db" "transition_report de i action expected actor note db = Inl e"
  shows "e \<in> Report_error ` {R_not_found, R_invalid_transition, R_stale_revision, R_note_too_long, R_note_required, R_nothing_marked}"
proof (cases "get_row db i")
  case None
  with assms(2) show ?thesis by (simp add: transition_report_def lock_report_def)
next
  case (Some r)
  then have lock: "lock_report db i = Inr r" by simp
  let ?rev = "reviewed action actor (rb_now db)"
  obtain from_set target where t: "transitions action = (from_set, target)" by fastforce
  have rev: "(\<lambda>r. r\<lparr>rp_status := target,
               rp_submitted_at := (if action = TA_submit then Some (rb_now db) else rp_submitted_at r),
               rp_decided_at := (if action \<in> {TA_approve, TA_request_changes} then Some (rb_now db) else rp_decided_at r),
               rp_decided_by := (if action \<in> {TA_approve, TA_request_changes} then Some actor else rp_decided_by r)\<rparr>) = ?rev"
    by (simp add: reviewed_def [abs_def] t)
  have "e \<notin> Report_error ` {R_invalid_transition, R_stale_revision, R_note_too_long, R_note_required, R_nothing_marked} \<Longrightarrow> False"
  proof -
    assume other: "e \<notin> Report_error ` {R_invalid_transition, R_stale_revision, R_note_too_long, R_note_required, R_nothing_marked}"
    have guards: "rp_status r \<in> set from_set" "rp_revision r = expected" "\<not> length (review_body note) > max_note_length"
      "\<not> (action = TA_request_changes \<and> review_body note = [])" "\<not> (action = TA_submit \<and> filter rf_in_report (features_of db i) = [])"
      using assms(2) other unfolding transition_report_def lock bind_result.simps Let_def t prod.case review_body_def [symmetric]
      by (auto split: if_split_asm)
    have ok: "\<forall>r \<in> set (rb_reports db). report_ok de db r" using assms(1) by (simp add: report_inv_def)
    have "report_ok de db (?rev x)" if "x \<in> set (rb_reports db)" "rp_id x = i" for x
    proof -
      have "x = r" using same_row [OF assms(1) Some that] .
      with guards(1) t have "rp_status x \<noteq> RS_archivado" by (cases action) auto
      with ok that(1) row_kept_ok [of de db x ?rev] show ?thesis by (simp add: reviewed_def)
    qed
    then have new: "\<forall>x \<in> set (rb_reports db). rp_id x = i \<longrightarrow> report_ok de db (?rev x)" by blast
    then have upd: "update_row de i ?rev db = Inr (rewrite i ?rev db)" by (simp add: update_row_Inr rewrite_def)
    have bumps: "\<exists>db'. bump de i ((rewrite i ?rev db)\<lparr>rb_notes := ns\<rparr>) = Inr db'" for ns
      by (rule bump_rewritten [OF ok new]) (simp add: reviewed_def)
    have "\<exists>db'. bump de i (rewrite i ?rev db) = Inr db'" using bumps [of "rb_notes db"] by (simp add: rewrite_notes)
    then obtain db1 where one: "bump de i (rewrite i ?rev db) = Inr db1" ..
    obtain db2 where two: "bump de i ((rewrite i ?rev db)\<lparr>rb_notes := rb_notes db @ [\<lparr>rn_report = i, rn_kind = target, rn_body = review_body note,
       rn_author = actor, rn_at = rb_now db\<rparr>]\<rparr>) = Inr db2" using bumps by blast
    show False using assms(2) guards one two
      unfolding transition_report_def lock bind_result.simps Let_def t prod.case review_body_def [symmetric] rev upd
      by (auto split: if_split_asm)
  qed
  then show ?thesis by blast
qed

lemma header_conaf_Inr: "header_conaf conaf = Inr (Some n) \<Longrightarrow> numero_ok n"
  by (auto simp: header_conaf_def numero_ok_canonical split: option.splits if_splits dest: normalized_canonical)

lemma header_conaf_Inl: "header_conaf conaf = Inl e \<Longrightarrow> e = Report_error R_invalid_conaf"
  by (auto simp: header_conaf_def split: option.splits if_splits)

lemma header_row_ok:
  assumes "report_ok de db r" "rp_status r \<noteq> RS_archivado" "\<forall>d. date = Some (Some d) \<longrightarrow> valid_date d"
    and "clean = None \<or> (\<exists>n c. clean = Some c \<and> clean_name n = Inr c \<and> \<not> name_in_use de db c (Some (rp_id r)))" "header_conaf conaf = Inr number"
  shows "report_ok de db (r\<lparr>rp_name := (case clean of Some c \<Rightarrow> c | None \<Rightarrow> rp_name r),
          rp_type := (case type of Some t \<Rightarrow> t | None \<Rightarrow> rp_type r),
          rp_month := (case date of Some (Some d) \<Rightarrow> month_from_date d | _ \<Rightarrow> rp_month r),
          rp_date := (case date of Some d \<Rightarrow> d | None \<Rightarrow> rp_date r),
          rp_conaf := (if conaf \<noteq> None then number else rp_conaf r)\<rparr>)"
proof -
  have name: "strip_by (\<lambda>c. c = 32) n \<noteq> [] \<and> length n \<le> 120 \<and> \<not> name_in_use de db n (Some (rp_id r))"
    if "n = (case clean of Some c \<Rightarrow> c | None \<Rightarrow> rp_name r)" for n
    using that assms(1,2,4) clean_name_Inr by (auto simp: report_ok_def)
  have month: "month_ok (case date of Some (Some d) \<Rightarrow> month_from_date d | _ \<Rightarrow> rp_month r)"
    using assms(1,3) month_from_date_ok by (auto simp: report_ok_def split: option.splits)
  have day: "case (case date of Some d \<Rightarrow> d | None \<Rightarrow> rp_date r) of None \<Rightarrow> True
      | Some d \<Rightarrow> (case date of Some (Some d) \<Rightarrow> month_from_date d | _ \<Rightarrow> rp_month r) = take 7 (isoformat d)"
    using assms(1) month_from_date by (auto simp: report_ok_def split: option.splits)
  have conaf: "case (if conaf \<noteq> None then number else rp_conaf r) of None \<Rightarrow> True | Some n \<Rightarrow> numero_ok n"
    using assms(1,5) header_conaf_Inr by (auto simp: report_ok_def split: option.splits)
  have "1 \<le> rp_revision r" using assms(1) by (simp add: report_ok_def)
  with name [OF refl] month day conaf show ?thesis by (simp add: report_ok_def cong del: option.case_cong_weak)
qed

lemma header_refused:
  assumes "report_inv de db" "update_report_header de i expected name type date conaf db = Inl e" "\<forall>d. date = Some (Some d) \<longrightarrow> valid_date d"
  shows "e \<in> Report_error ` {R_not_found, R_not_editable, R_stale_revision, R_invalid_name, R_name_taken, R_invalid_conaf}"
proof (cases "get_row db i")
  case None
  with assms(2) show ?thesis by (simp add: update_report_header_def lock_report_def)
next
  case (Some r)
  then have lock: "lock_report db i = Inr r" by simp
  define blocked where "blocked \<longleftrightarrow> (if name = None \<and> type = None \<and> date = None \<and> conaf \<noteq> None then rp_status r = RS_archivado
    else rp_status r \<notin> set editable_statuses)"
  define clean where "clean = (case name of None \<Rightarrow> Inr None | Some n \<Rightarrow> bind_result (clean_name n) (\<lambda>c. Inr (Some c)))"
  have "e \<notin> Report_error ` {R_not_editable, R_stale_revision, R_invalid_name, R_name_taken, R_invalid_conaf} \<Longrightarrow> False"
  proof -
    assume other: "e \<notin> Report_error ` {R_not_editable, R_stale_revision, R_invalid_name, R_name_taken, R_invalid_conaf}"
    note header = assms(2) [unfolded update_report_header_def lock bind_result.simps, folded blocked_def clean_def]
    have guards: "\<not> blocked" "rp_revision r = expected" using header other by (auto split: if_split_asm)
    have "x = Report_error R_invalid_name" if "clean = Inl x" for x
      using that clean_name_Inl by (auto simp: clean_def Inl_neq_bind split: option.splits)
    then have "clean = Inl x \<Longrightarrow> e = Report_error R_invalid_name" for x using header guards by auto
    then obtain c where c: "clean = Inr c" using other by (cases clean) auto
    have "e = Report_error R_name_taken" if "(case c of None \<Rightarrow> Inr () | Some c \<Rightarrow> ensure_name_free de db c (Some i)) = Inl x" for x
      using that header guards c ensure_name_free_Inl by (auto split: option.splits)
    then have free: "(case c of None \<Rightarrow> Inr () | Some c \<Rightarrow> ensure_name_free de db c (Some i)) = Inr ()"
      using other by (cases "case c of None \<Rightarrow> Inr () | Some c \<Rightarrow> ensure_name_free de db c (Some i)") auto
    have "e = Report_error R_invalid_conaf" if "header_conaf conaf = Inl x" for x
      using that header guards c free header_conaf_Inl by simp
    then obtain number where number: "header_conaf conaf = Inr number" using other by (cases "header_conaf conaf") auto
    let ?f = "\<lambda>r. r\<lparr>rp_name := (case c of Some c \<Rightarrow> c | None \<Rightarrow> rp_name r),
          rp_type := (case type of Some t \<Rightarrow> t | None \<Rightarrow> rp_type r),
          rp_month := (case date of Some (Some d) \<Rightarrow> month_from_date d | _ \<Rightarrow> rp_month r),
          rp_date := (case date of Some d \<Rightarrow> d | None \<Rightarrow> rp_date r),
          rp_conaf := (if conaf \<noteq> None then number else rp_conaf r)\<rparr>"
    have ok: "\<forall>r \<in> set (rb_reports db). report_ok de db r" using assms(1) by (simp add: report_inv_def)
    have new: "\<forall>x \<in> set (rb_reports db). rp_id x = i \<longrightarrow> report_ok de db (?f x)"
    proof (intro ballI impI)
      fix x assume x: "x \<in> set (rb_reports db)" "rp_id x = i"
      then have "x = r" using same_row [OF assms(1) Some] by blast
      with guards(1) have "rp_status x \<noteq> RS_archivado" by (auto simp: blocked_def editable_statuses_def split: if_splits)
      moreover have "c = None \<or> (\<exists>n d. c = Some d \<and> clean_name n = Inr d \<and> \<not> name_in_use de db d (Some (rp_id x)))"
        using c free x(2) by (auto simp: clean_def ensure_name_free_def split: option.splits if_splits)
      ultimately show "report_ok de db (?f x)" using ok x(1) assms(3) number by (intro header_row_ok) simp_all
    qed
    have "\<exists>db'. bump de i ((rewrite i ?f db)\<lparr>rb_notes := rb_notes db\<rparr>) = Inr db'" by (rule bump_rewritten [OF ok new]) simp
    then obtain db' where "bump de i (rewrite i ?f db) = Inr db'" by (auto simp: rewrite_notes)
    moreover have "update_row de i ?f db = Inr (rewrite i ?f db)" using new by (simp add: update_row_Inr rewrite_def)
    ultimately show False using header guards c free number by simp
  qed
  then show ?thesis by blast
qed

lemma delete_refused: "delete_report i db = Inl e \<Longrightarrow> e \<in> Report_error ` {R_not_found, R_cannot_delete}"
  by (auto simp: delete_report_def lock_report_def split: option.splits if_splits)

section \<open>Planning fields\<close>

definition breaks_limit :: "'j feature_input \<Rightarrow> bool" where
  "breaks_limit item \<longleftrightarrow> (\<exists>s. fi_sector item = Some s \<and> 60 < length s)
     \<or> (\<exists>ss. fi_species item = Some ss \<and> (6 < length ss \<or> (\<exists>s \<in> set ss. 40 < length s) \<or> \<not> distinct ss))
     \<or> (\<exists>n. fi_density item = Some n \<and> (n < 1 \<or> 20000 < n))"

definition breaks_check :: "'j feature_input \<Rightarrow> bool" where
  "breaks_check item \<longleftrightarrow> (\<exists>s. fi_sector item = Some s \<and> strip_by (\<lambda>c. c = 32) s \<noteq> s) \<or> (\<exists>ss. fi_species item = Some ss \<and> [] \<in> set ss)"

lemma planning_fault_iff: "planning_fault item = Inr () \<longleftrightarrow> \<not> breaks_limit item"
  by (cases "fi_sector item"; cases "fi_species item"; cases "fi_density item")
    (auto simp: planning_fault_def breaks_limit_def list_ex_iff)

lemma planning_fault_500: "planning_fault item = Inl e \<Longrightarrow> http_error e = 500"
  by (auto simp: planning_fault_def http_error_def split: if_splits)

lemma traverse_Inl: "traverse f xs = Inl e \<Longrightarrow> \<exists>x \<in> set xs. f x = Inl e"
  by (induction xs) (auto simp: Inl_neq_bind)

lemma validate_planning:
  assumes "item \<in> set inputs" "breaks_limit item"
  shows "\<exists>e. validate_planning_fields inputs = Inl e \<and> http_error e = 500"
proof (cases "traverse planning_fault inputs")
  case (Inl e)
  with traverse_Inl [OF Inl] planning_fault_500 show ?thesis by (auto simp: validate_planning_fields_def)
next
  case (Inr us)
  then have "planning_fault item = Inr ()" using assms(1) by (auto simp: traverse_Inr list_all2_conv_all_nth in_set_conv_nth)
  with assms(2) show ?thesis by (simp add: planning_fault_iff)
qed

lemma breaks_check_feature: "breaks_check item \<Longrightarrow> rf_sector f = fi_sector item \<Longrightarrow> rf_species f = fi_species item \<Longrightarrow> \<not> feature_ok f"
  by (auto simp: breaks_check_def feature_ok_def list_all_iff dest!: bspec [of _ _ "[]"])

end
