(* ===== verification/ReportClaims.thy ===== *)
theory ReportClaims
  imports ReportFeatures ReportErrors
begin

text \<open>
  The properties of the management reports, with a small instance of them: \<open>raster\<close> is a GEOS whose
  geometries are lists of unit squares, and \<open>demo_create\<close> to \<open>demo_approve\<close> the life of one report.
\<close>

section \<open>An instance\<close>

definition squares_and :: "nat list \<Rightarrow> nat list \<Rightarrow> nat list" where
  "squares_and a b = filter (\<lambda>x. x \<in> set b) a"

definition raster :: "(nat list, nat list) geos" where
  "raster = \<lparr>gs_shape = Some, gs_kind = (\<lambda>_. G_multi), gs_wrap = (\<lambda>g. g), gs_empty = (\<lambda>g. g = []), gs_bounds = (\<lambda>_. []),
     gs_valid = distinct, gs_area = (\<lambda>g. Fin (of_nat (length g))), gs_length = (\<lambda>g. Fin (of_nat (4 * length g))), gs_parts = (\<lambda>_. 1),
     gs_coordinates = length, gs_hausdorff = (\<lambda>a b. if set a = set b then Fin 0 else Fin 1), gs_union = (\<lambda>gs. remdups (concat gs)),
     gs_symmetric_difference = (\<lambda>a b. filter (\<lambda>x. x \<notin> set b) a @ filter (\<lambda>x. x \<notin> set a) b), gs_make_valid = remdups,
     gs_intersection = squares_and,
     gs_intersecting = (\<lambda>gs. filter (\<lambda>(i, j). i \<noteq> j \<and> squares_and (gs ! i) (gs ! j) \<noteq> []) (List.product [0..<length gs] [0..<length gs]))\<rparr>"

lemma raster_tree: "tree_complete raster"
  by (auto simp: tree_complete_def raster_def fl_less_def)

definition demo_env :: db_env where
  "demo_env = \<lparr>de_lower = (\<lambda>s. s), de_key = (\<lambda>s. s), de_float = (\<lambda>_. None), de_scan = (\<lambda>vs. vs)\<rparr>"

definition demo_pub :: f_pub where
  "demo_pub = demo_fpub\<lparr>fp_published := Some 4, fp_events := [\<lparr>fe_id = 1, fe_snapshot = 4, fe_type = F_initial, fe_previous = None, fe_actor = None, fe_at = 0\<rparr>],
     fp_next := 2\<rparr>"

lemma demo_pub_reachable: "f_reachable demo_pub"
  by (rule f_reachable.F_next [OF demo_fpub_reachable], rule F_initially [of 4 _ True])
    (simp add: publish_initial_Inr demo_fpub_def demo_pub_def record_event_def)

definition demo_polygon :: "nat list source_polygon" where
  "demo_polygon = \<lparr>sp_ordinal = 1, sp_attributes = [([97], JStr [98])], sp_geometry = [7, 8, 9], sp_valid = True\<rparr>"

definition demo_db :: "nat list report_db" where
  "demo_db = \<lparr>rb_reports = [], rb_features = [], rb_notes = [], rb_next = 1, rb_now = 10, rb_pub = demo_pub,
     rb_sources = (\<lambda>i. if i = 4 then [demo_polygon] else [])\<rparr>"

definition demo_inputs :: "nat list feature_input list" where
  "demo_inputs = [\<lparr>fi_ordinal = 1, fi_in_report = True, fi_attributes = [], fi_geometry = Some [7, 8], fi_sector = None, fi_species = None, fi_density = None\<rparr>,
     \<lparr>fi_ordinal = 1, fi_in_report = False, fi_attributes = [], fi_geometry = Some [9], fi_sector = None, fi_species = None, fi_density = None\<rparr>]"

definition demo_draft :: report where
  "demo_draft = \<lparr>rp_id = 1, rp_name = [65], rp_type = RT_otro, rp_month = [50, 48, 50, 54, 45, 48, 49], rp_date = Some (Date 2026 1 5),
     rp_status = RS_borrador, rp_base = 4, rp_revision = 1, rp_created_by = 2, rp_created_at = 10, rp_updated_at = 10, rp_submitted_at = None,
     rp_decided_at = None, rp_decided_by = None, rp_conaf = None\<rparr>"

definition demo_created :: "nat list report_db" where
  "demo_created = demo_db\<lparr>rb_reports := [demo_draft], rb_next := 2\<rparr>"

lemma demo_create: "create_report demo_env [65] RT_otro (Date 2026 1 5) 2 demo_db = Inr (1, demo_created)"
proof -
  have "clean_name [65] = Inr [65]" by (simp add: clean_name_def Let_def strip_def strip_by_def is_space_def max_name_length_def)
  moreover have "month_from_date (Date 2026 1 5) = rp_month demo_draft"
    by (simp add: month_from_date_def digit2_def digit4_def demo_draft_def)
  moreover have "report_ok demo_env demo_db demo_draft"
    by (simp add: report_ok_def demo_db_def demo_draft_def demo_env_def name_in_use_def strip_by_def month_ok_def isoformat_def digit2_def digit4_def
        ascii_digit_def)
  ultimately show ?thesis
    by (simp add: create_report_def read_published_snapshot_id_def ensure_name_free_def name_in_use_def demo_created_def insert_report_def
        demo_db_def demo_draft_def demo_pub_def demo_fpub_def)
qed

definition demo_features :: "nat list resolved_feature list" where
  "demo_features = [\<lparr>rf_position = 1, rf_ordinal = 1, rf_in_report = True, rf_changed = True,
       rf_attributes = [([97], JStr [98]), (lit ''sup_ha'', JFloat (round_double (2 / 10000))), (lit ''shape_area'', JFloat (Fin 2)),
         (lit ''shape_leng'', JFloat (Fin 8)), (lit ''editada'', JStr (lit ''wb''))],
       rf_geometry = [7, 8], rf_sector = None, rf_species = None, rf_density = None\<rparr>,
     \<lparr>rf_position = 2, rf_ordinal = 1, rf_in_report = False, rf_changed = True,
       rf_attributes = [([97], JStr [98]), (lit ''sup_ha'', JFloat (round_double (1 / 10000))), (lit ''shape_area'', JFloat (Fin 1)),
         (lit ''shape_leng'', JFloat (Fin 4)), (lit ''editada'', JStr (lit ''wb''))],
       rf_geometry = [9], rf_sector = None, rf_species = None, rf_density = None\<rparr>]"

lemma demo_resolve: "resolve_features raster demo_inputs [(1, demo_polygon)] = Inr \<lparr>rs_features = demo_features, rs_warnings = []\<rparr>"
proof -
  let ?sources = "[(1, demo_polygon)]"
  let ?parsed = "map2 (\<lambda>item g. \<lparr>pf_item = item, pf_geometry = g, pf_overrides = []\<rparr>) demo_inputs [[7, 8], [9 :: nat]]"
  have parsed: "traverse (parse_feature raster ?sources) demo_inputs = Inr ?parsed"
    by (simp add: demo_inputs_def parse_feature_def clean_attributes_def read_geometry_def raster_def)
  have groups: "map (\<lambda>(o', ps). (o', map pf_geometry ps)) (group_by (\<lambda>p. fi_ordinal (pf_item p)) ?parsed) = [(1, [[7, 8], [9]])]"
    by (simp add: demo_inputs_def group_by_def dict_append_def)
  have checked: "fold_result (check_source raster ?sources) ([], []) [(1, [[7, 8], [9]])] = Inr ([1], [])"
    using coverage_tolerance_zero
    by (simp add: check_source_def Let_def same_shape_def to_multipolygon_def raster_def demo_polygon_def check_piece_def min_piece_area_def fl_less_def [of "Fin _" "Fin _"])
  have resolved: "traverse (resolve_feature raster ?sources [1]) (zip [1, 2] ?parsed) = Inr demo_features"
    by (simp add: demo_inputs_def demo_features_def resolve_feature_def Let_def raster_def demo_polygon_def dict_update_def fl_div_def)
  have over: "reject_overlaps raster demo_features = Inr ()"
    by (simp add: reject_overlaps_def demo_features_def Let_def raster_def squares_and_def)
  have len: "length demo_inputs = 2" "[1..<Suc (length ?parsed)] = [1, 2]" by (simp_all add: demo_inputs_def upt_rec)
  show ?thesis
    unfolding resolve_features_def Let_def parsed bind_result.simps groups checked len(2) prod.case resolved over by (simp add: len(1) max_features_def)
qed

definition demo_saved :: "nat list report_db" where
  "demo_saved = demo_created\<lparr>rb_reports := [demo_draft\<lparr>rp_revision := 2\<rparr>], rb_features := map (\<lambda>f. (1, f)) demo_features\<rparr>"

definition demo_submitted :: "nat list report_db" where
  "demo_submitted = demo_saved\<lparr>rb_reports := [demo_draft\<lparr>rp_revision := 3, rp_status := RS_enviado, rp_submitted_at := Some 10\<rparr>]\<rparr>"

definition demo_approved :: "nat list report_db" where
  "demo_approved = demo_saved\<lparr>rb_reports := [demo_draft\<lparr>rp_revision := 4, rp_status := RS_aprobado, rp_submitted_at := Some 10,
     rp_decided_at := Some 10, rp_decided_by := Some 3\<rparr>]\<rparr>"

lemma demo_ok:
  assumes "length (rb_reports db) = 1" "rp_id (hd (rb_reports db)) = 1" "rp_id r = 1" "1 \<le> rp_revision r" "rp_name r = [65]"
    and "rp_month r = rp_month demo_draft" "rp_date r = rp_date demo_draft" "rp_conaf r = None"
  shows "report_ok demo_env db r"
proof -
  obtain s where s: "rb_reports db = [s]" "rp_id s = 1" using assms(1,2) by (cases "rb_reports db") auto
  have "month_ok (rp_month demo_draft)" "rp_month demo_draft = take 7 (isoformat (Date 2026 1 5))"
    by (simp_all add: demo_draft_def month_ok_def isoformat_def digit2_def digit4_def ascii_digit_def)
  with s assms show ?thesis by (auto simp: report_ok_def name_in_use_def demo_env_def strip_by_def demo_draft_def)
qed

lemma demo_save: "\<exists>saved. save_report_features raster demo_env 1 1 demo_inputs demo_created = Inr (saved, demo_saved)"
proof -
  have sources: "load_source_polygons demo_created 4 (map fi_ordinal demo_inputs) = [(1, demo_polygon)]"
    by (simp add: load_source_polygons_def demo_created_def demo_db_def demo_inputs_def demo_polygon_def)
  have row: "lock_report demo_created 1 = Inr demo_draft" by (simp add: demo_created_def demo_draft_def get_row_def)
  have plan: "validate_planning_fields demo_inputs = Inr ()" by (simp add: validate_planning_fields_def planning_fault_def demo_inputs_def)
  have feats: "list_all feature_ok demo_features" by (simp add: demo_features_def feature_ok_def)
  have bumped: "bump demo_env 1 (demo_created\<lparr>rb_features := map (\<lambda>f. (1, f)) demo_features\<rparr>) = Inr demo_saved"
    unfolding bump_Inr by (simp add: demo_ok demo_created_def demo_saved_def demo_db_def rewrite_def bumped_def demo_draft_def)
  have none: "filter (\<lambda>(j, _). j \<noteq> 1) (rb_features demo_created) = []" by (simp add: demo_created_def demo_db_def)
  show ?thesis
    unfolding save_report_features_def row bind_result.simps plan
    using sources demo_resolve feats bumped none
    by (simp add: demo_draft_def editable_statuses_def geometry_result_def)
qed

lemma demo_submit: "transition_report demo_env 1 TA_submit 2 2 None demo_saved = Inr (RS_enviado, demo_submitted)"
  by (simp add: transition_report_def get_row_def demo_saved_def demo_created_def demo_submitted_def demo_draft_def strip_def strip_by_def
      max_note_length_def features_of_def demo_features_def update_row_def bump_def demo_ok demo_db_def)

lemma demo_approve: "transition_report demo_env 1 TA_approve 3 3 None demo_submitted = Inr (RS_aprobado, demo_approved)"
  by (simp add: transition_report_def get_row_def demo_saved_def demo_created_def demo_submitted_def demo_approved_def demo_draft_def strip_def strip_by_def
      max_note_length_def features_of_def demo_features_def update_row_def bump_def demo_ok demo_db_def)

lemma demo_reach:
  "report_reachable raster demo_env demo_db" "report_reachable raster demo_env demo_created" "report_reachable raster demo_env demo_saved"
  "report_reachable raster demo_env demo_submitted" "report_reachable raster demo_env demo_approved"
proof -
  show 0: "report_reachable raster demo_env demo_db"
    by (rule Reach_start) (simp add: report_start_def demo_db_def demo_pub_reachable)
  show 1: "report_reachable raster demo_env demo_created" using Reach_step [OF 0 S_create [OF demo_create]] .
  obtain saved where "save_report_features raster demo_env 1 1 demo_inputs demo_created = Inr (saved, demo_saved)" using demo_save by blast
  then show 2: "report_reachable raster demo_env demo_saved" using Reach_step [OF 1 S_save] by blast
  show 3: "report_reachable raster demo_env demo_submitted" using Reach_step [OF 2 S_transition [OF demo_submit]] .
  show "report_reachable raster demo_env demo_approved" using Reach_step [OF 3 S_transition [OF demo_approve]] .
qed

section \<open>Properties\<close>

text \<open>
  C11. In every reachable database two reports never share an identifier, nor two reports in use a
  name up to case; a report's month is the month of its date; a report sent or approved has a polygon
  marked for it; one approved or sent back says when and by whom; one sent back has a note that says
  why; and the features of a report are numbered from 1.
\<close>

theorem reports_invariant:
  assumes "report_reachable gs de db" "r \<in> set (rb_reports db)"
  shows "(\<forall>s \<in> set (rb_reports db). s \<noteq> r \<longrightarrow> rp_id s \<noteq> rp_id r
      \<and> (rp_status s \<noteq> RS_archivado \<and> rp_status r \<noteq> RS_archivado \<longrightarrow> de_lower de (rp_name s) \<noteq> de_lower de (rp_name r)))
    \<and> (\<forall>d. rp_date r = Some d \<longrightarrow> rp_month r = take 7 (isoformat d))
    \<and> (rp_status r \<in> {RS_enviado, RS_aprobado} \<longrightarrow> (\<exists>f \<in> set (features_of db (rp_id r)). rf_in_report f))
    \<and> (rp_status r \<in> {RS_aprobado, RS_cambios_solicitados} \<longrightarrow> rp_decided_at r \<noteq> None \<and> rp_decided_by r \<noteq> None)
    \<and> (rp_status r = RS_cambios_solicitados \<longrightarrow>
         (\<exists>n \<in> set (rb_notes db). rn_report n = rp_id r \<and> rn_kind n = RS_cambios_solicitados \<and> rn_body n \<noteq> []))
    \<and> map rf_position (features_of db (rp_id r)) = [1..<Suc (length (features_of db (rp_id r)))]"
proof -
  note inv = reachable_inv [OF assms(1)]
  have life: "review_life db r" and ok: "report_ok de db r" and ids: "distinct (map rp_id (rb_reports db))"
    using inv assms(2) by (simp_all add: report_inv_def report_ids_def)
  have id: "rp_id s \<noteq> rp_id r" if "s \<in> set (rb_reports db)" "s \<noteq> r" for s
    using ids that assms(2) by (auto simp: distinct_map dest: inj_onD)
  have name: "de_lower de (rp_name s) \<noteq> de_lower de (rp_name r)"
    if "s \<in> set (rb_reports db)" "s \<noteq> r" "rp_status s \<noteq> RS_archivado" "rp_status r \<noteq> RS_archivado" for s
  proof
    assume "de_lower de (rp_name s) = de_lower de (rp_name r)"
    with that(1,3) id [OF that(1,2)] have "name_in_use de db (rp_name r) (Some (rp_id r))"
      by (auto simp: name_in_use_def list_ex_iff)
    with ok that(4) show False by (simp add: report_ok_def)
  qed
  have "\<forall>d. rp_date r = Some d \<longrightarrow> rp_month r = take 7 (isoformat d)" using ok by (auto simp: report_ok_def)
  with id name life show ?thesis unfolding review_life_def by blast
qed

theorem reports_invariant_witness:
  "\<exists>f \<in> set (features_of demo_approved 1). rf_in_report f"
proof -
  let ?r = "hd (rb_reports demo_approved)"
  have r: "?r \<in> set (rb_reports demo_approved)" "rp_id ?r = 1" "rp_status ?r = RS_aprobado" by (simp_all add: demo_approved_def demo_draft_def)
  from reports_invariant [OF demo_reach(5) r(1)] r(2,3) show ?thesis by simp
qed

text \<open>
  C10. In every reachable database the features of a report are sound against the snapshot it is based
  on: each comes from one polygon of that snapshot and is a copy of it, or a piece of a split whose
  pieces are valid, at least one square metre each, and together the polygon up to the tolerance;
  only the editable attributes differ from the polygon's, besides the mark of the editor and the
  measures of a piece; no two pieces of one polygon overlap; there are at most 500.
\<close>

theorem stored_features_sound:
  assumes "report_reachable gs de db" "r \<in> set (rb_reports db)" "tree_complete gs"
  shows "length (features_of db (rp_id r)) \<le> max_features \<and> no_overlap gs (features_of db (rp_id r))
    \<and> (\<forall>f \<in> set (features_of db (rp_id r)). \<exists>s \<in> set (rb_sources db (rp_base r)).
          sp_ordinal s = rf_ordinal f \<and> sound_feature gs (features_of db (rp_id r)) s f)"
  using reachable_base [OF assms(1)] assms(2,3) by (simp add: base_inv_def features_sound_def)

theorem stored_features_sound_witness: "no_overlap raster demo_features"
  using stored_features_sound [OF demo_reach(5) _ raster_tree, of "hd (rb_reports demo_approved)"]
  by (simp add: demo_approved_def demo_draft_def demo_saved_def features_of_def filter_map comp_def)

text \<open>
  A revision names one version of a report: in what happens after a report was read, its revision
  never falls, and as long as it is the one that was read, the row and the features are too.
\<close>

theorem revision_names_version:
  assumes "report_reachable gs de db" "(report_step gs de)\<^sup>*\<^sup>* db db'" "get_row db i = Some r" "get_row db' i = Some r'"
  shows "rp_revision r \<le> rp_revision r' \<and> (rp_revision r' = rp_revision r \<longrightarrow> r' = r \<and> features_of db' i = features_of db i)"
  by (rule steps_version [OF assms(2) reachable_inv [OF assms(1)] assms(3,4)])

theorem revision_names_version_witness: "rp_revision (hd (rb_reports demo_saved)) \<le> rp_revision (hd (rb_reports demo_approved))"
proof -
  have "(report_step raster demo_env)\<^sup>*\<^sup>* demo_saved demo_approved"
    using rtranclp.rtrancl_into_rtrancl [OF r_into_rtranclp [of "report_step raster demo_env", OF S_transition [OF demo_submit]] S_transition [OF demo_approve]] .
  from revision_names_version [OF demo_reach(3) this, of 1] show ?thesis
    by (simp add: demo_saved_def demo_created_def demo_approved_def demo_draft_def get_row_def)
qed

text \<open>
  C9. What is approved is what the reviewer read, and it stays so: when an approval that states the
  revision a reviewer read goes through, the row and the features at that moment are the ones read;
  and whatever happens afterwards the report is still there, approved or archived, with the same
  features, name, type, month, date and base.
\<close>

theorem approval_is_of_what_was_read:
  assumes "report_reachable gs de db0" "get_row db0 i = Some r" "(report_step gs de)\<^sup>*\<^sup>* db0 db1"
    and "transition_report de i TA_approve (rp_revision r) actor note db1 = Inr (status, db2)" "(report_step gs de)\<^sup>*\<^sup>* db2 db3"
  shows "get_row db1 i = Some r \<and> features_of db1 i = features_of db0 i
    \<and> (\<exists>r3. get_row db3 i = Some r3 \<and> rp_status r3 \<in> {RS_aprobado, RS_archivado} \<and> decided_same r r3 \<and> features_of db3 i = features_of db0 i)"
proof -
  note inv0 = reachable_inv [OF assms(1)]
  have inv1: "report_inv de db1" by (rule steps_inv [OF assms(3) inv0])
  have inv2: "report_inv de db2" by (rule step_inv [OF inv1 S_transition [OF assms(4)]])
  obtain r1 where r1: "get_row db1 i = Some r1" "rp_revision r1 = rp_revision r"
    "get_row db2 i = Some (bumped (rb_now db1) (reviewed TA_approve actor (rb_now db1) r1))" "features_of db2 i = features_of db1 i"
    using transition_row [OF assms(4)] by blast
  have same: "r1 = r" "features_of db1 i = features_of db0 i"
    using steps_version [OF assms(3) inv0 assms(2) r1(1)] r1(2) by simp_all
  obtain r3 where "get_row db3 i = Some r3" "rp_status r3 \<in> {RS_aprobado, RS_archivado}" "features_of db3 i = features_of db2 i"
    "decided_same (bumped (rb_now db1) (reviewed TA_approve actor (rb_now db1) r1)) r3"
    using steps_frozen [OF assms(5) inv2 r1(3)] by auto
  with r1 same show ?thesis by (auto simp: decided_same_def)
qed

theorem approval_is_of_what_was_read_witness:
  "\<exists>r. get_row demo_approved 1 = Some r \<and> rp_status r \<in> {RS_aprobado, RS_archivado} \<and> features_of demo_approved 1 = features_of demo_submitted 1"
proof -
  have "get_row demo_submitted 1 = Some (hd (rb_reports demo_submitted))" "rp_revision (hd (rb_reports demo_submitted)) = 3"
    by (simp_all add: demo_submitted_def demo_draft_def get_row_def)
  with approval_is_of_what_was_read [OF demo_reach(4) _ rtranclp.rtrancl_refl _ rtranclp.rtrancl_refl, of 1 _ 3 None RS_aprobado demo_approved]
    demo_approve show ?thesis by auto
qed

text \<open>
  Nothing but a client's error refuses a change of a report: in every reachable database, with
  transactions one after another, creating a report, changing its header, moving it through the review
  or deleting it either succeeds or answers 404, 409 or 422; no constraint of the tables is ever what
  stops it.
\<close>

theorem report_refusals_answered:
  assumes "report_reachable gs de db" "valid_date date" "\<forall>d. date' = Some (Some d) \<longrightarrow> valid_date d"
  shows "(\<forall>e. create_report de name type date actor db = Inl e \<longrightarrow> http_error e \<in> {409, 422})
    \<and> (\<forall>e. update_report_header de i expected name' type' date' conaf db = Inl e \<longrightarrow> http_error e \<in> {404, 409, 422})
    \<and> (\<forall>e. transition_report de i action expected actor note db = Inl e \<longrightarrow> http_error e \<in> {404, 409, 422})
    \<and> (\<forall>e. delete_report i db = Inl e \<longrightarrow> http_error e \<in> {404, 409})"
proof (intro conjI allI impI)
  note inv = reachable_inv [OF assms(1)]
  fix e
  show "http_error e \<in> {409, 422}" if "create_report de name type date actor db = Inl e"
    using create_refused [OF that assms(2)] by (auto simp: http_error_def)
  show "http_error e \<in> {404, 409, 422}" if "update_report_header de i expected name' type' date' conaf db = Inl e"
    using header_refused [OF inv that assms(3)] by (auto simp: http_error_def)
  show "http_error e \<in> {404, 409, 422}" if "transition_report de i action expected actor note db = Inl e"
    using transition_refused [OF inv that] by (auto simp: http_error_def)
  show "http_error e \<in> {404, 409}" if "delete_report i db = Inl e"
    using delete_refused [OF that] by (auto simp: http_error_def)
qed

theorem report_refusals_answered_witness: "\<exists>e. delete_report 1 demo_approved = Inl e \<and> http_error e \<in> {404, 409}"
proof -
  have "lock_report demo_approved 1 = Inr (hd (rb_reports demo_approved))" "rp_status (hd (rb_reports demo_approved)) = RS_aprobado"
    by (simp_all add: get_row_def demo_approved_def demo_draft_def)
  then have "delete_report 1 demo_approved = Inl (Report_error R_cannot_delete)" by (simp add: delete_report_def lock_report_def)
  moreover have "valid_date (Date 2026 1 5)" by (simp add: valid_date_def days_in_month_def)
  ultimately show ?thesis using report_refusals_answered [OF demo_reach(5), of "Date 2026 1 5" None] by blast
qed

text \<open>
  The planning fields are the exception: a save that is in order but for a sector, a list of
  species or a density past its limit is refused with a code that has no HTTP status, and one with a
  sector that starts or ends with a space, or an empty species, breaks a check of the table; either
  way the answer is 500.
\<close>

theorem planning_limits_answer_500:
  assumes "write_guard Edit csrf pl uid = Inr ()" "1 \<le> i" "1 \<le> revision" "\<forall>f \<in> set inputs. 1 \<le> fi_ordinal f"
    and "get_row (ra_db app) i = Some r" "rp_status r \<in> set editable_statuses" "rp_revision r = revision" "item \<in> set inputs"
    and "breaks_limit item \<or> breaks_check item
      \<and> (\<exists>res. resolve_features gs inputs (load_source_polygons (ra_db app) (rp_base r) (map fi_ordinal inputs)) = Inr res)"
  shows "put_report_features gs de csrf pl uid i revision inputs app = Inl 500"
proof -
  have "\<exists>e. save_report_features gs de i revision inputs (ra_db app) = Inl e \<and> http_error e = 500"
  proof (cases "validate_planning_fields inputs")
    case (Inl e)
    have "http_error e = 500"
      using Inl traverse_Inl [of planning_fault inputs e] planning_fault_500 by (auto simp: validate_planning_fields_def Inl_neq_bind)
    with Inl assms(5-7) show ?thesis by (auto simp: save_report_features_def lock_report_def)
  next
    case (Inr u)
    then have "\<not> breaks_limit item" using validate_planning [OF assms(8)] by fastforce
    with assms(9) obtain res where check: "breaks_check item"
      and res: "resolve_features gs inputs (load_source_polygons (ra_db app) (rp_base r) (map fi_ordinal inputs)) = Inr res" by blast
    obtain k where k: "k < length inputs" "inputs ! k = item" using assms(8) by (auto simp: in_set_conv_nth)
    with resolve_features_stored [OF res] obtain s where len: "length (rs_features res) = length inputs"
      and "stored_as gs (rs_features res) item s (rs_features res ! k)"
      by (auto simp: list_all2_conv_all_nth)
    then have "\<not> feature_ok (rs_features res ! k)" using check by (intro breaks_check_feature [of item]) (simp_all add: stored_as_def)
    then have "\<not> list_all feature_ok (rs_features res)" using k len by (auto simp: list_all_length)
    with Inr res assms(5-7) show ?thesis by (simp add: save_report_features_def lock_report_def geometry_result_def http_error_def)
  qed
  moreover have "list_all (\<lambda>f. 1 \<le> fi_ordinal f) inputs" using assms(4) by (simp add: list_all_iff)
  ultimately show ?thesis using assms(1-3) by (auto simp: put_report_features_def answered_def)
qed

definition demo_platform_grants :: "role \<Rightarrow> platform" where
  "demo_platform_grants r = \<lparr>pl_users = [], pl_grants = [((2, lit ''forestry''), r)], pl_audit = [], pl_sessions = [], pl_dev = [], pl_graph = [],
     pl_next = 3, pl_now = 0\<rparr>"

theorem planning_limits_answer_500_witness:
  "put_report_features raster demo_env True (demo_platform_grants Operator) 2 1 1 [hd demo_inputs\<lparr>fi_density := Some 0\<rparr>]
     \<lparr>ra_db = demo_created, ra_audit = []\<rparr> = Inl 500"
proof (rule planning_limits_answer_500)
  show "write_guard Edit True (demo_platform_grants Operator) 2 = Inr ()"
    by (simp add: write_guard_def require_forestry_grant_def ensure_can_def Let_def can_def allowed_def
        demo_platform_grants_def get_product_role_def)
  show "get_row (ra_db \<lparr>ra_db = demo_created, ra_audit = []\<rparr>) 1 = Some demo_draft" by (simp add: demo_created_def demo_draft_def get_row_def)
  show "breaks_limit (hd demo_inputs\<lparr>fi_density := Some 0\<rparr>) \<or> breaks_check (hd demo_inputs\<lparr>fi_density := Some 0\<rparr>)
      \<and> (\<exists>res. resolve_features raster [hd demo_inputs\<lparr>fi_density := Some 0\<rparr>]
        (load_source_polygons (ra_db \<lparr>ra_db = demo_created, ra_audit = []\<rparr>) (rp_base demo_draft) (map fi_ordinal [hd demo_inputs\<lparr>fi_density := Some 0\<rparr>])) = Inr res)"
    by (simp add: breaks_limit_def)
qed (simp_all add: demo_inputs_def demo_draft_def editable_statuses_def)

section \<open>Routes\<close>

definition guarded_write :: "action \<Rightarrow> report_event \<Rightarrow> bool \<Rightarrow> platform \<Rightarrow> int \<Rightarrow> int \<Rightarrow> 'g report_app \<Rightarrow> 'g report_app \<Rightarrow> bool" where
  "guarded_write a event csrf pl uid i app app' \<longleftrightarrow> csrf \<and> can (get_product_role pl uid (lit ''forestry'')) a
     \<and> ra_audit app' = ra_audit app @ [\<lparr>ra_event = event, ra_report = i, ra_actor = uid\<rparr>]"

lemma require_grant_Inr: "require_forestry_grant pl uid a = Inr r \<longleftrightarrow> get_product_role pl uid (lit ''forestry'') = Some r \<and> can (Some r) a"
  by (auto simp: require_forestry_grant_def ensure_can_def Let_def can_def split: option.splits)

lemma write_guard_Inr: "write_guard a csrf pl uid = Inr u \<Longrightarrow> csrf \<and> can (get_product_role pl uid (lit ''forestry'')) a"
  by (auto simp: write_guard_def require_grant_Inr split: if_splits)

lemma committed_audit: "ra_audit (committed event i uid db app) = ra_audit app @ [\<lparr>ra_event = event, ra_report = i, ra_actor = uid\<rparr>]"
  by (simp add: committed_def record_report_event_def)

lemma answered_Inr [simp]: "answered x = Inr y \<longleftrightarrow> x = Inr y"
  by (auto simp: answered_def split: sum.splits)

lemma approve_admin: "can r Approve \<longleftrightarrow> r = Some Admin"
  by (cases r; cases "the r") (auto simp: can_def allowed_def)

lemma transition_route_Inr:
  assumes "transition_route de action csrf pl uid i revision note app = Inr (x, app')"
  shows "guarded_write (transition_needs action) (transition_event action) csrf pl uid i app app'
    \<and> transition_report de i action revision uid note (ra_db app) = Inr (fst x, ra_db app')"
  using assms by (auto simp: transition_route_def guarded_write_def committed_def record_report_event_def dest: write_guard_Inr split: if_splits)

text \<open>
  A change of a report that goes through had the session's token and a role on forestry that may
  edit, an administrator's for approving, sending back and archiving, and left exactly one audit event,
  of its kind, by who made it; who may not edit is shown approved reports only.
\<close>

theorem report_routes_guarded:
  "(post_report de csrf pl uid name type date app = Inr (i, app') \<longrightarrow> guarded_write Edit RA_created csrf pl uid i app app')
   \<and> (put_report_features gs de csrf pl uid i revision inputs app = Inr (saved, app') \<longrightarrow> guarded_write Edit RA_saved csrf pl uid i app app')
   \<and> (patch_report de csrf pl uid i revision name' type' date' conaf app = Inr (y, app') \<longrightarrow> guarded_write Edit RA_saved csrf pl uid i app app')
   \<and> (transition_route de action csrf pl uid i revision note app = Inr (z, app') \<longrightarrow>
        guarded_write (transition_needs action) (transition_event action) csrf pl uid i app app'
        \<and> (action \<noteq> TA_submit \<longrightarrow> get_product_role pl uid (lit ''forestry'') = Some Admin))
   \<and> (duplicate_route de csrf pl uid k app = Inr (i, app') \<longrightarrow> guarded_write Edit RA_duplicated csrf pl uid i app app')
   \<and> (delete_route csrf pl uid i app = Inr app' \<longrightarrow> guarded_write Edit RA_deleted csrf pl uid i app app')
   \<and> (get_report_detail de pl uid i app = Inr d \<longrightarrow> can (get_product_role pl uid (lit ''forestry'')) Edit
        \<or> get_product_role pl uid (lit ''forestry'') \<noteq> None \<and> rp_status (vr_report (dt_report d)) = RS_aprobado)"
proof (intro conjI impI)
  show "guarded_write Edit RA_created csrf pl uid i app app'" if "post_report de csrf pl uid name type date app = Inr (i, app')"
    using that by (auto simp: post_report_def guarded_write_def committed_audit dest: write_guard_Inr split: if_splits)
  show "guarded_write Edit RA_saved csrf pl uid i app app'" if "put_report_features gs de csrf pl uid i revision inputs app = Inr (saved, app')"
    using that by (auto simp: put_report_features_def guarded_write_def committed_audit dest: write_guard_Inr split: if_splits)
  show "guarded_write Edit RA_saved csrf pl uid i app app'" if "patch_report de csrf pl uid i revision name' type' date' conaf app = Inr (y, app')"
    using that by (auto simp: patch_report_def guarded_write_def committed_audit dest: write_guard_Inr split: if_splits option.splits)
  show "guarded_write Edit RA_duplicated csrf pl uid i app app'" if "duplicate_route de csrf pl uid k app = Inr (i, app')"
    using that by (auto simp: duplicate_route_def guarded_write_def committed_audit dest: write_guard_Inr split: if_splits)
  show "guarded_write Edit RA_deleted csrf pl uid i app app'" if "delete_route csrf pl uid i app = Inr app'"
    using that by (auto simp: delete_route_def guarded_write_def committed_audit dest: write_guard_Inr split: if_splits)
  assume t: "transition_route de action csrf pl uid i revision note app = Inr (z, app')"
  then show g: "guarded_write (transition_needs action) (transition_event action) csrf pl uid i app app'" using transition_route_Inr by blast
  show "get_product_role pl uid (lit ''forestry'') = Some Admin" if "action \<noteq> TA_submit"
    using g that by (cases action) (simp_all add: guarded_write_def approve_admin)
next
  assume d: "get_report_detail de pl uid i app = Inr d"
  then obtain r where "get_product_role pl uid (lit ''forestry'') = Some r" "visible_report de (ra_db app) r i = Inr (dt_report d)"
    by (auto simp: get_report_detail_def require_grant_Inr split: if_splits)
  then show "can (get_product_role pl uid (lit ''forestry'')) Edit
        \<or> get_product_role pl uid (lit ''forestry'') \<noteq> None \<and> rp_status (vr_report (dt_report d)) = RS_aprobado"
    by (auto simp: visible_report_def split: if_splits option.splits)
qed

theorem report_routes_guarded_witness:
  "\<exists>app'. transition_route demo_env TA_approve True (demo_platform_grants Admin) 2 1 3 None \<lparr>ra_db = demo_submitted, ra_audit = []\<rparr>
      = Inr ((RS_aprobado, 4), app')
    \<and> ra_audit app' = [\<lparr>ra_event = RA_approved, ra_report = 1, ra_actor = 2\<rparr>]"
proof -
  let ?app = "\<lparr>ra_db = demo_submitted, ra_audit = []\<rparr>"
  have guard: "write_guard Approve True (demo_platform_grants Admin) 2 = Inr ()"
    by (simp add: write_guard_def require_forestry_grant_def ensure_can_def Let_def can_def allowed_def
        demo_platform_grants_def get_product_role_def)
  obtain db where "transition_report demo_env 1 TA_approve 3 2 None demo_submitted = Inr (RS_aprobado, db)"
    by (simp add: transition_report_def get_row_def demo_saved_def demo_created_def demo_submitted_def demo_draft_def strip_def strip_by_def
        max_note_length_def features_of_def demo_features_def update_row_def bump_def demo_ok demo_db_def)
  then obtain app' where r: "transition_route demo_env TA_approve True (demo_platform_grants Admin) 2 1 3 None ?app = Inr ((RS_aprobado, 4), app')"
    by (simp add: transition_route_def guard answered_def)
  then have "guarded_write Approve RA_approved True (demo_platform_grants Admin) 2 1 ?app app'"
    using report_routes_guarded [of _ _ "demo_platform_grants Admin" 2 _ _ _ ?app 1 app' raster 3 _ _ _ _ _ _ _ TA_approve] by auto
  with r show ?thesis by (auto simp: guarded_write_def)
qed

end
