(* ===== verification/ZipUpload.thy ===== *)
theory ZipUpload
  imports PyText PyFloat
begin

text \<open>
  \<open>forestry_ingestion/upload_archive.py\<close>: which uploaded ZIP is accepted as one shapefile layer, and
  what is written of it. \<open>zipfile\<close> is read for the code: an archive is its directory and, for each
  entry, the chunks its decompression yields and whether it ends well, or nothing when it cannot be opened.
\<close>

section \<open>Archives\<close>

datatype upload_reason = Unsafe_member | Too_many_members | Encrypted | Duplicate_member | Unsupported_compression
  | Multiple_layers | Compression_ratio | Unexpected_member | Missing_members | Too_large_uncompressed | Not_zip

record zip_info =
  zi_name :: pystr
  zi_flags :: nat
  zi_system :: nat
  zi_attr :: nat
  zi_compression :: nat
  zi_csize :: nat
  zi_size :: nat

record zip_archive =
  za_infos :: "zip_info list option"
  za_read :: "zip_info \<Rightarrow> (nat list list \<times> bool) option"

record archive_member =
  am_suffix :: pystr
  am_compressed :: nat
  am_uncompressed :: nat

record extracted_family =
  ef_layer :: pystr
  ef_members :: "archive_member list"
  ef_total :: nat

definition max_archive_entries :: nat where "max_archive_entries = 16"

definition max_total_uncompressed :: nat where "max_total_uncompressed = 256 * 1024 * 1024"

definition ratio_check_min :: nat where "ratio_check_min = 1024 * 1024"

definition max_compression_ratio :: pyfloat where "max_compression_ratio = Fin 100"

definition max_layer_name :: nat where "max_layer_name = 120"

definition required_suffixes :: "pystr list" where
  "required_suffixes = [lit ''.shp'', lit ''.shx'', lit ''.dbf'', lit ''.prj'', lit ''.cpg'']"

definition optional_suffixes :: "pystr list" where
  "optional_suffixes = [lit ''.sbn'', lit ''.sbx'', lit ''.shp.xml'']"

definition accepted_suffixes :: "pystr list" where
  "accepted_suffixes = required_suffixes @ optional_suffixes"

section \<open>Names\<close>

text \<open>\<open>PurePosixPath(s).name\<close> and \<open>.suffix\<close>.\<close>

definition path_name :: "pystr \<Rightarrow> pystr" where
  "path_name s = (case filter (\<lambda>p. p \<noteq> [] \<and> p \<noteq> [46]) (split_char 47 s) of [] \<Rightarrow> [] | ps \<Rightarrow> last ps)"

definition path_suffix :: "pystr \<Rightarrow> pystr" where
  "path_suffix s =
     (let name = path_name s; tail = takeWhile (\<lambda>c. c \<noteq> 46) (rev name)
      in if 46 \<in> set name \<and> tail \<noteq> [] \<and> length name > length tail + 1 then 46 # rev tail else [])"

definition member_suffix :: "ucd \<Rightarrow> pystr \<Rightarrow> pystr" where
  "member_suffix u name =
     (let lowered = lower u name in if ends_with (lit ''.shp.xml'') lowered then lit ''.shp.xml'' else path_suffix lowered)"

definition member_stem :: "pystr \<Rightarrow> pystr \<Rightarrow> pystr" where
  "member_stem name suffix = take (length name - length suffix) name"

definition is_symlink :: "zip_info \<Rightarrow> bool" where
  "is_symlink info \<longleftrightarrow> zi_system info = 3 \<and> take_bit 4 (drop_bit 12 (drop_bit 16 (zi_attr info))) = 10"

definition is_dir :: "zip_info \<Rightarrow> bool" where
  "is_dir info \<longleftrightarrow> zi_name info \<noteq> [] \<and> last (zi_name info) = 47"

definition split_member_name :: "pystr \<Rightarrow> upload_reason + pystr option \<times> pystr" where
  "split_member_name name =
     (if name = [] \<or> 0 \<in> set name \<or> 92 \<in> set name \<or> hd name = 47 \<or> length name \<ge> 2 \<and> name ! 1 = 58 then Inl Unsafe_member
      else let parts = split_char 47 name
           in if list_ex (\<lambda>p. p \<in> {[], [46], [46, 46]}) parts \<or> length parts > 2 then Inl Unsafe_member
              else if length parts = 2 then Inr (Some (parts ! 0), parts ! 1) else Inr (None, parts ! 0))"

section \<open>The directory\<close>

record directory_state =
  ds_folders :: "pystr list"
  ds_members :: "(pystr, zip_info) pydict"
  ds_stems :: "pystr list"
  ds_unexpected :: "pystr list"
  ds_seen :: "pystr list"
  ds_total :: nat

definition ratio_exceeded :: "zip_info \<Rightarrow> bool" where
  "ratio_exceeded info \<longleftrightarrow> zi_size info \<ge> ratio_check_min
     \<and> fl_less max_compression_ratio (int_truediv (int (zi_size info)) (int (max (zi_csize info) 1)))"

definition rstrip_slash :: "pystr \<Rightarrow> pystr" where
  "rstrip_slash s = rev (dropWhile (\<lambda>c. c = 47) (rev s))"

definition directory_step :: "ucd \<Rightarrow> directory_state \<Rightarrow> zip_info \<Rightarrow> upload_reason + directory_state" where
  "directory_step u st info =
     (if odd (zi_flags info) then Inl Encrypted
      else if is_symlink info then Inl Unsafe_member
      else if is_dir info then
        bind_result (split_member_name (rstrip_slash (zi_name info))) (\<lambda>(folder, rest).
          if folder \<noteq> None \<or> rest = [] then Inl Unsafe_member else Inr (st\<lparr>ds_folders := ds_folders st @ [rest]\<rparr>))
      else bind_result (split_member_name (zi_name info)) (\<lambda>(_, filename).
        let key = lower u (zi_name info)
        in if key \<in> set (ds_seen st) then Inl Duplicate_member
           else let st = st\<lparr>ds_seen := ds_seen st @ [key]\<rparr>
           in if zi_compression info \<notin> {0, 8} then Inl Unsupported_compression
           else let suffix = member_suffix u filename
           in if suffix \<notin> set accepted_suffixes then Inr (st\<lparr>ds_unexpected := ds_unexpected st @ [suffix]\<rparr>)
           else if suffix \<in> fst ` set (ds_members st) then Inl Multiple_layers
           else if ratio_exceeded info then Inl Compression_ratio
           else Inr (st\<lparr>ds_total := ds_total st + zi_size info, ds_stems := ds_stems st @ [member_stem filename suffix],
                        ds_members := ds_members st @ [(suffix, info)]\<rparr>)))"

definition member_folder :: "zip_info \<Rightarrow> pystr option" where
  "member_folder info = (case split_member_name (zi_name info) of Inr (folder, _) \<Rightarrow> folder | Inl _ \<Rightarrow> None)"

definition check_directory :: "ucd \<Rightarrow> zip_info list \<Rightarrow> upload_reason + pystr \<times> (pystr, zip_info) pydict" where
  "check_directory u infos =
     (if length infos > max_archive_entries then Inl Too_many_members
      else bind_result (fold_result (directory_step u) \<lparr>ds_folders = [], ds_members = [], ds_stems = [], ds_unexpected = [], ds_seen = [],
          ds_total = 0\<rparr> infos) (\<lambda>st.
        if ds_unexpected st \<noteq> [] then Inl Unexpected_member
        else let folders = map (\<lambda>(_, info). member_folder info) (ds_members st)
        in if length (dedup folders) > 1 \<or> list_ex (\<lambda>f. Some f \<notin> set folders) (ds_folders st) then Inl Multiple_layers
        else if length (dedup (ds_stems st)) > 1 then Inl Multiple_layers
        else if list_ex (\<lambda>s. s \<notin> fst ` set (ds_members st)) required_suffixes then Inl Missing_members
        else if ds_total st > max_total_uncompressed then Inl Too_large_uncompressed
        else let layer = hd (ds_stems st)
        in if strip layer = [] \<or> length layer > max_layer_name then Inl Unsafe_member
        else Inr (layer, ds_members st)))"

section \<open>Extraction\<close>

text \<open>The files written beneath the destination, by suffix, also when the archive is refused.\<close>

fun copy_chunks :: "nat \<Rightarrow> nat \<Rightarrow> nat \<Rightarrow> nat list \<Rightarrow> nat list list \<Rightarrow> bool \<Rightarrow> (upload_reason + nat \<times> nat) \<times> nat list" where
  "copy_chunks declared written so_far sink [] ok = (if ok then Inr (written, so_far) else Inl Not_zip, sink)"
| "copy_chunks declared written so_far sink (chunk # chunks) ok =
     (let written = written + length chunk; so_far = so_far + length chunk
      in if written > declared \<or> so_far > max_total_uncompressed then (Inl Too_large_uncompressed, sink)
         else copy_chunks declared written so_far (sink @ chunk) chunks ok)"

fun extract_members :: "zip_archive \<Rightarrow> nat \<Rightarrow> (pystr \<times> zip_info) list \<Rightarrow> archive_member list \<Rightarrow> (pystr, nat list) pydict
    \<Rightarrow> (upload_reason + archive_member list \<times> nat) \<times> (pystr, nat list) pydict" where
  "extract_members z so_far [] members files = (Inr (members, so_far), files)"
| "extract_members z so_far ((suffix, info) # rest) members files =
     (case za_read z info of
        None \<Rightarrow> (Inl Not_zip, files)
      | Some (chunks, ok) \<Rightarrow>
          let (r, sink) = copy_chunks (zi_size info) 0 so_far [] chunks ok; files = files @ [(suffix, sink)]
          in (case r of
                Inl e \<Rightarrow> (Inl e, files)
              | Inr (written, so_far) \<Rightarrow>
                  extract_members z so_far rest
                    (members @ [\<lparr>am_suffix = suffix, am_compressed = zi_csize info, am_uncompressed = written\<rparr>]) files))"

definition extract_upload_archive :: "ucd \<Rightarrow> zip_archive \<Rightarrow> (upload_reason + extracted_family) \<times> (pystr, nat list) pydict" where
  "extract_upload_archive u z =
     (case za_infos z of
        None \<Rightarrow> (Inl Not_zip, [])
      | Some infos \<Rightarrow>
          (case check_directory u infos of
             Inl e \<Rightarrow> (Inl e, [])
           | Inr (layer, members) \<Rightarrow>
               (case extract_members z 0 (sort_key fst members) [] [] of
                  (Inl e, files) \<Rightarrow> (Inl e, files)
                | (Inr (ms, so_far), files) \<Rightarrow> (Inr \<lparr>ef_layer = layer, ef_members = ms, ef_total = so_far\<rparr>, files))))"

end
