(* ===== verification/ZipFacts.thy ===== *)
theory ZipFacts
  imports ZipUpload
begin

text \<open>
  What an accepted archive is, stated of its directory alone, and how much an extraction writes.
\<close>

section \<open>A declarative check\<close>

definition entry_file :: "zip_info \<Rightarrow> pystr" where
  "entry_file info = snd (projr (split_member_name (zi_name info)))"

definition entry_folder :: "zip_info \<Rightarrow> pystr" where
  "entry_folder info = snd (projr (split_member_name (rstrip_slash (zi_name info))))"

definition entry_suffix :: "ucd \<Rightarrow> zip_info \<Rightarrow> pystr" where
  "entry_suffix u info = member_suffix u (entry_file info)"

definition entry_stem :: "ucd \<Rightarrow> zip_info \<Rightarrow> pystr" where
  "entry_stem u info = member_stem (entry_file info) (entry_suffix u info)"

definition zip_files :: "zip_info list \<Rightarrow> zip_info list" where
  "zip_files infos = filter (\<lambda>i. \<not> is_dir i) infos"

definition zip_dirs :: "zip_info list \<Rightarrow> zip_info list" where
  "zip_dirs infos = filter is_dir infos"

definition layer_files :: "ucd \<Rightarrow> zip_info list \<Rightarrow> zip_info list" where
  "layer_files u infos = filter (\<lambda>i. entry_suffix u i \<in> set accepted_suffixes) (zip_files infos)"

definition entries_ok :: "ucd \<Rightarrow> zip_info list \<Rightarrow> bool" where
  "entries_ok u infos \<longleftrightarrow> (\<forall>i \<in> set infos. even (zi_flags i) \<and> \<not> is_symlink i)
     \<and> (\<forall>i \<in> set (zip_dirs infos). split_member_name (rstrip_slash (zi_name i)) = Inr (None, entry_folder i))
     \<and> (\<forall>i \<in> set (zip_files infos). (\<exists>x. split_member_name (zi_name i) = Inr x) \<and> zi_compression i \<in> {0, 8})
     \<and> distinct (map (\<lambda>i. lower u (zi_name i)) (zip_files infos)) \<and> distinct (map (entry_suffix u) (layer_files u infos))
     \<and> (\<forall>i \<in> set (layer_files u infos). \<not> ratio_exceeded i)"

definition directory_of :: "ucd \<Rightarrow> zip_info list \<Rightarrow> directory_state" where
  "directory_of u infos = \<lparr>ds_folders = map entry_folder (zip_dirs infos), ds_members = map (\<lambda>i. (entry_suffix u i, i)) (layer_files u infos),
     ds_stems = map (entry_stem u) (layer_files u infos),
     ds_unexpected = map (entry_suffix u) (filter (\<lambda>i. entry_suffix u i \<notin> set accepted_suffixes) (zip_files infos)),
     ds_seen = map (\<lambda>i. lower u (zi_name i)) (zip_files infos), ds_total = sum_list (map zi_size (layer_files u infos))\<rparr>"

lemma split_no_Nil:
  assumes "split_member_name name = Inr (folder, rest)"
  shows "rest \<noteq> []"
proof -
  let ?parts = "split_char 47 name"
  have p: "\<not> list_ex (\<lambda>p. p \<in> {[], [46], [46, 46]}) ?parts" "length ?parts \<le> 2"
    "(folder, rest) = (if length ?parts = 2 then (Some (?parts ! 0), ?parts ! 1) else (None, ?parts ! 0))"
    using assms by (auto simp: split_member_name_def Let_def split: if_splits)
  have "?parts \<noteq> []" by (cases name) (auto split: list.splits)
  then have "rest \<in> set ?parts" using p(2,3) by (cases "length ?parts = 2") auto
  with p(1) show ?thesis by (auto simp: list_ex_iff)
qed

lemma entries_snoc:
  "zip_files (infos @ [i]) = (if is_dir i then zip_files infos else zip_files infos @ [i])"
  "zip_dirs (infos @ [i]) = (if is_dir i then zip_dirs infos @ [i] else zip_dirs infos)"
  "layer_files u (infos @ [i]) = (if \<not> is_dir i \<and> entry_suffix u i \<in> set accepted_suffixes then layer_files u infos @ [i] else layer_files u infos)"
  by (simp_all add: zip_files_def zip_dirs_def layer_files_def)

lemma entries_ok_snoc:
  "entries_ok u (infos @ [i]) \<longleftrightarrow> entries_ok u infos \<and> even (zi_flags i) \<and> \<not> is_symlink i
     \<and> (if is_dir i then split_member_name (rstrip_slash (zi_name i)) = Inr (None, entry_folder i)
         else (\<exists>x. split_member_name (zi_name i) = Inr x) \<and> zi_compression i \<in> {0, 8}
           \<and> lower u (zi_name i) \<notin> set (map (\<lambda>i. lower u (zi_name i)) (zip_files infos))
           \<and> (entry_suffix u i \<in> set accepted_suffixes \<longrightarrow>
                entry_suffix u i \<notin> set (map (entry_suffix u) (layer_files u infos)) \<and> \<not> ratio_exceeded i))"
  unfolding entries_ok_def entries_snoc
  by (cases "is_dir i"; cases "entry_suffix u i \<in> set accepted_suffixes") (simp_all, blast+)

lemma directory_members: "fst ` set (ds_members (directory_of u infos)) = set (map (entry_suffix u) (layer_files u infos))"
  by (simp add: directory_of_def image_image)

lemma directory_of_snoc:
  "directory_of u (infos @ [i]) = (let st = directory_of u infos in
     if is_dir i then st\<lparr>ds_folders := ds_folders st @ [entry_folder i]\<rparr>
     else let st = st\<lparr>ds_seen := ds_seen st @ [lower u (zi_name i)]\<rparr>
     in if entry_suffix u i \<notin> set accepted_suffixes then st\<lparr>ds_unexpected := ds_unexpected st @ [entry_suffix u i]\<rparr>
     else st\<lparr>ds_total := ds_total st + zi_size i, ds_stems := ds_stems st @ [entry_stem u i],
             ds_members := ds_members st @ [(entry_suffix u i, i)]\<rparr>)"
  by (simp add: directory_of_def entries_snoc Let_def)

lemma directory_step_Inr:
  assumes "entries_ok u infos"
  shows "directory_step u (directory_of u infos) i = Inr st \<longleftrightarrow> entries_ok u (infos @ [i]) \<and> st = directory_of u (infos @ [i])"
proof (cases "is_dir i")
  case True
  show ?thesis
  proof (cases "split_member_name (rstrip_slash (zi_name i))")
    case (Inl e)
    with True show ?thesis by (simp add: directory_step_def entries_ok_snoc)
  next
    case (Inr x)
    obtain folder rest where x: "x = (folder, rest)" by fastforce
    have "rest \<noteq> []" using Inr split_no_Nil by (simp add: x)
    moreover have "rest = entry_folder i" by (simp add: entry_folder_def Inr x)
    ultimately show ?thesis
      using True Inr assms by (auto simp: directory_step_def entries_ok_snoc directory_of_snoc Let_def x)
  qed
next
  case False
  show ?thesis
  proof (cases "split_member_name (zi_name i)")
    case (Inl e)
    with False show ?thesis by (simp add: directory_step_def entries_ok_snoc)
  next
    case (Inr x)
    obtain folder rest where x: "x = (folder, rest)" by fastforce
    have rest: "rest = entry_file i" by (simp add: entry_file_def Inr x)
    have suffix: "member_suffix u (entry_file i) = entry_suffix u i" "member_stem (entry_file i) (entry_suffix u i) = entry_stem u i"
      by (simp_all add: entry_suffix_def entry_stem_def)
    have sel: "ds_seen (directory_of u infos) = map (\<lambda>i. lower u (zi_name i)) (zip_files infos)" by (simp add: directory_of_def)
    show ?thesis
      unfolding directory_step_def directory_members Let_def using False Inr assms
      by (simp add: x rest suffix sel directory_members entries_ok_snoc directory_of_snoc Let_def) auto
  qed
qed

lemma directory_fold:
  "fold_result (directory_step u) (directory_of u []) infos = Inr st \<longleftrightarrow> entries_ok u infos \<and> st = directory_of u infos"
proof (induction infos arbitrary: st rule: rev_induct)
  case Nil
  then show ?case by (auto simp: entries_ok_def zip_files_def zip_dirs_def layer_files_def)
next
  case (snoc i infos)
  show ?case
    by (cases "entries_ok u infos") (simp_all add: fold_result_append snoc.IH directory_step_Inr, simp add: entries_ok_snoc)
qed

definition archive_ok :: "ucd \<Rightarrow> zip_info list \<Rightarrow> pystr \<Rightarrow> bool" where
  "archive_ok u infos layer \<longleftrightarrow> length infos \<le> max_archive_entries \<and> entries_ok u infos
     \<and> (\<exists>folder. \<forall>i \<in> set (zip_files infos). member_folder i = folder \<and> (\<forall>d \<in> set (zip_dirs infos). folder = Some (entry_folder d)))
     \<and> (\<forall>i \<in> set (zip_files infos). entry_suffix u i \<in> set accepted_suffixes \<and> entry_stem u i = layer)
     \<and> set required_suffixes \<subseteq> entry_suffix u ` set (zip_files infos)
     \<and> sum_list (map zi_size (zip_files infos)) \<le> max_total_uncompressed \<and> strip layer \<noteq> [] \<and> length layer \<le> max_layer_name"

lemma dedup_single: "length (dedup xs) \<le> 1 \<longleftrightarrow> (\<forall>x \<in> set xs. \<forall>y \<in> set xs. x = y)"
  by (simp add: length_dedup card_le_Suc0_iff_eq)

lemma required_not_Nil: "lit ''.shp'' \<in> set required_suffixes"
  by (simp add: required_suffixes_def)

lemma check_directory_Inr:
  "check_directory u infos = Inr (layer, members) \<longleftrightarrow>
     archive_ok u infos layer \<and> members = map (\<lambda>i. (entry_suffix u i, i)) (zip_files infos)"
proof (cases "length infos \<le> max_archive_entries \<and> entries_ok u infos \<and> (\<forall>i \<in> set (zip_files infos). entry_suffix u i \<in> set accepted_suffixes)")
  case False
  have "directory_of u [] = \<lparr>ds_folders = [], ds_members = [], ds_stems = [], ds_unexpected = [], ds_seen = [], ds_total = 0\<rparr>"
    by (simp add: directory_of_def zip_files_def zip_dirs_def layer_files_def)
  with False show ?thesis
    by (auto simp: check_directory_def archive_ok_def directory_fold simp flip: \<open>directory_of u [] = _\<close>)
      (auto simp: directory_of_def filter_empty_conv)
next
  case True
  have start: "\<lparr>ds_folders = [], ds_members = [], ds_stems = [], ds_unexpected = [], ds_seen = [], ds_total = 0\<rparr> = directory_of u []"
    by (simp add: directory_of_def zip_files_def zip_dirs_def layer_files_def)
  have fold: "fold_result (directory_step u) (directory_of u []) infos = Inr (directory_of u infos)" using True by (simp add: directory_fold)
  have layer: "layer_files u infos = zip_files infos" using True by (simp add: layer_files_def)
  let ?fs = "zip_files infos" and ?st = "directory_of u infos"
  have sel: "ds_unexpected ?st = []" "ds_members ?st = map (\<lambda>i. (entry_suffix u i, i)) ?fs" "ds_stems ?st = map (entry_stem u) ?fs"
    "ds_folders ?st = map entry_folder (zip_dirs infos)" "ds_total ?st = sum_list (map zi_size ?fs)"
    using True by (simp_all add: directory_of_def layer filter_empty_conv)
  have keys: "fst ` set (ds_members ?st) = entry_suffix u ` set ?fs" by (simp add: sel image_image)
  have folders: "map (\<lambda>(_, info). member_folder info) (ds_members ?st) = map member_folder ?fs" by (simp add: sel)
  show ?thesis
  proof (cases "set required_suffixes \<subseteq> entry_suffix u ` set ?fs")
    case False
    then show ?thesis
      by (auto simp: check_directory_def start fold archive_ok_def Let_def keys list_ex_iff split: if_splits)
  next
    case req: True
    then obtain f where f: "f \<in> set ?fs" using required_not_Nil by blast
    have hd: "hd (ds_stems ?st) = entry_stem u (hd ?fs)" "hd ?fs \<in> set ?fs" using f by (cases ?fs; simp add: sel)+
    have none: "\<not> list_ex (\<lambda>s. s \<notin> fst ` set (ds_members ?st)) required_suffixes" using req by (auto simp: keys list_ex_iff)
    have one: "length (dedup (map g ?fs)) \<le> 1 \<longleftrightarrow> (\<exists>a. \<forall>i \<in> set ?fs. g i = a)" for g :: "zip_info \<Rightarrow> 'b"
      unfolding dedup_single using f by auto
    let ?same = "\<exists>folder. \<forall>i \<in> set ?fs. member_folder i = folder \<and> (\<forall>d \<in> set (zip_dirs infos). folder = Some (entry_folder d))"
    have folder: "length (dedup (map member_folder ?fs)) > 1 \<or> list_ex (\<lambda>f. Some f \<notin> set (map member_folder ?fs)) (ds_folders ?st) \<longleftrightarrow> \<not> ?same"
    proof (cases "\<exists>a. \<forall>i \<in> set ?fs. member_folder i = a")
      case True
      then obtain a where a: "\<forall>i \<in> set ?fs. member_folder i = a" by blast
      with f have "set (map member_folder ?fs) = {a}" by auto
      moreover have "?same \<longleftrightarrow> (\<forall>d \<in> set (zip_dirs infos). a = Some (entry_folder d))"
      proof
        assume ?same
        then obtain b where "\<forall>i \<in> set ?fs. member_folder i = b \<and> (\<forall>d \<in> set (zip_dirs infos). b = Some (entry_folder d))" by blast
        with f a show "\<forall>d \<in> set (zip_dirs infos). a = Some (entry_folder d)" by auto
      qed (use a in blast)
      moreover have "\<not> length (dedup (map member_folder ?fs)) > 1" using one [of member_folder] a by (auto simp: not_less)
      ultimately show ?thesis unfolding list_ex_iff sel(4) by auto
    next
      case False
      then have "length (dedup (map member_folder ?fs)) > 1" using one [of member_folder] by (simp add: not_le [symmetric])
      moreover have "\<not> ?same" using False by blast
      ultimately show ?thesis by simp
    qed
    have stem: "length (dedup (map (entry_stem u) ?fs)) > 1 \<longleftrightarrow> \<not> (\<forall>i \<in> set ?fs. entry_stem u i = entry_stem u (hd ?fs))"
      using one [of "entry_stem u"] hd(2) by (simp add: not_le [symmetric]) metis
    have unique: "(\<forall>i \<in> set ?fs. entry_stem u i = layer) \<longleftrightarrow> (\<forall>i \<in> set ?fs. entry_stem u i = entry_stem u (hd ?fs)) \<and> layer = entry_stem u (hd ?fs)"
      using hd(2) by auto
    define same where "same \<longleftrightarrow> ?same"
    define stems where "stems \<longleftrightarrow> (\<forall>i \<in> set ?fs. entry_stem u i = entry_stem u (hd ?fs))"
    have check: "check_directory u infos = (if \<not> same then Inl Multiple_layers
        else if \<not> stems then Inl Multiple_layers
        else if sum_list (map zi_size ?fs) > max_total_uncompressed then Inl Too_large_uncompressed
        else if strip (entry_stem u (hd ?fs)) = [] \<or> length (entry_stem u (hd ?fs)) > max_layer_name then Inl Unsafe_member
        else Inr (entry_stem u (hd ?fs), map (\<lambda>i. (entry_suffix u i, i)) ?fs))"
      using True none unfolding check_directory_def start fold bind_result.simps Let_def folders folder [folded same_def] hd(1)
      unfolding sel(1,3,5) stem [folded stems_def] by (simp add: sel(2))
    have ok: "archive_ok u infos layer \<longleftrightarrow> same \<and> (\<forall>i \<in> set ?fs. entry_stem u i = layer)
        \<and> sum_list (map zi_size ?fs) \<le> max_total_uncompressed \<and> strip layer \<noteq> [] \<and> length layer \<le> max_layer_name"
      using True req unfolding archive_ok_def same_def by blast
    show ?thesis unfolding check ok unique stems_def [symmetric] by (auto simp: not_less)
  qed
qed

section \<open>What is written\<close>

lemma copy_chunks_bounds:
  assumes "copy_chunks declared written so_far sink chunks ok = (r, out)" "length sink = written" "written \<le> declared" "so_far \<le> max_total_uncompressed"
  shows "length out \<le> declared \<and> so_far + (length out - length sink) \<le> max_total_uncompressed \<and> length sink \<le> length out
    \<and> (\<forall>w t. r = Inr (w, t) \<longrightarrow> ok \<and> out = sink @ concat chunks \<and> w = length out \<and> t = so_far + (length out - length sink))"
  using assms
proof (induction chunks arbitrary: written so_far sink)
  case Nil
  then show ?case by (auto split: if_splits)
next
  case (Cons c chunks)
  show ?case
  proof (cases "written + length c > declared \<or> so_far + length c > max_total_uncompressed")
    case True
    with Cons.prems show ?thesis by (auto simp: Let_def)
  next
    case False
    with Cons.prems(1) have rec: "copy_chunks declared (written + length c) (so_far + length c) (sink @ c) chunks ok = (r, out)"
      by (simp add: Let_def)
    show ?thesis using Cons.IH [OF rec] Cons.prems(2) False by auto
  qed
qed

definition written_bytes :: "(pystr, nat list) pydict \<Rightarrow> nat" where
  "written_bytes files = (\<Sum>(_, bytes)\<leftarrow>files. length bytes)"

text \<open>The files are a prefix of the members, the last one perhaps cut; all of them when it succeeds.\<close>

lemma extract_members_bounds:
  assumes "extract_members z so_far ms members files = (r, out)" "written_bytes files = so_far" "so_far \<le> max_total_uncompressed"
  shows "\<exists>new. out = files @ new \<and> written_bytes out \<le> max_total_uncompressed
    \<and> map fst new = map fst (take (length new) ms) \<and> length new \<le> length ms
    \<and> list_all2 (\<lambda>(_, bytes) (_, info). length bytes \<le> zi_size info) new (take (length new) ms)
    \<and> (\<forall>am t. r = Inr (am, t) \<longrightarrow> t = written_bytes out
         \<and> list_all2 (\<lambda>(_, bytes) (_, info). \<exists>chunks. za_read z info = Some (chunks, True) \<and> bytes = concat chunks) new ms)"
  using assms
proof (induction ms arbitrary: so_far members files)
  case Nil
  then show ?case by auto
next
  case (Cons m rest)
  obtain suffix info where m: "m = (suffix, info)" by fastforce
  show ?case
  proof (cases "za_read z info")
    case None
    with Cons.prems m show ?thesis by auto
  next
    case (Some x)
    obtain chunks ok where x: "x = (chunks, ok)" by fastforce
    obtain c sink where copy: "copy_chunks (zi_size info) 0 so_far [] chunks ok = (c, sink)" by fastforce
    note b = copy_chunks_bounds [OF copy, simplified, OF Cons.prems(3)]
    have total: "written_bytes (files @ [(suffix, sink)]) = so_far + length sink" using Cons.prems(2) by (simp add: written_bytes_def)
    show ?thesis
    proof (cases c)
      case (Inl e)
      with Cons.prems(1) m Some x copy have "r = Inl e" "out = files @ [(suffix, sink)]" by simp_all
      with b total m show ?thesis by auto
    next
      case (Inr wt)
      obtain w t where wt: "wt = (w, t)" by fastforce
      with Inr b have c: "ok" "sink = concat chunks" "w = length sink" "t = so_far + length sink" by auto
      have rec: "extract_members z t rest (members @ [\<lparr>am_suffix = suffix, am_compressed = zi_csize info, am_uncompressed = w\<rparr>])
          (files @ [(suffix, sink)]) = (r, out)"
        using Cons.prems(1) m Some x copy Inr wt by simp
      have t: "written_bytes (files @ [(suffix, sink)]) = t" "t \<le> max_total_uncompressed" using b c total by simp_all
      from Cons.IH [OF rec t]
      obtain new where new: "out = (files @ [(suffix, sink)]) @ new" "written_bytes out \<le> max_total_uncompressed"
        "map fst new = map fst (take (length new) rest)" "length new \<le> length rest"
        "list_all2 (\<lambda>(_, bytes) (_, info). length bytes \<le> zi_size info) new (take (length new) rest)"
        "\<forall>am t. r = Inr (am, t) \<longrightarrow> t = written_bytes out
         \<and> list_all2 (\<lambda>(_, bytes) (_, info). \<exists>chunks. za_read z info = Some (chunks, True) \<and> bytes = concat chunks) new rest" by auto
      have "out = files @ ((suffix, sink) # new)" using new(1) by simp
      then show ?thesis using new(2-6) b c Some x m by (intro exI [of _ "(suffix, sink) # new"]) auto
    qed
  qed
qed


text \<open>
  Whatever an archive holds and whether or not it is accepted, what is written of it is at most
  256 MiB in files named by accepted suffixes, no two alike, each no longer than its entry declares;
  when it is accepted the files are those of the layer with the bytes their entries hold.
\<close>

theorem zip_extraction_bounded:
  assumes "extract_upload_archive u z = (r, files)"
  shows "written_bytes files \<le> max_total_uncompressed \<and> set (map fst files) \<subseteq> set accepted_suffixes \<and> distinct (map fst files)
    \<and> (\<forall>(suffix, bytes) \<in> set files. \<exists>infos i. za_infos z = Some infos \<and> i \<in> set infos \<and> entry_suffix u i = suffix \<and> length bytes \<le> zi_size i)
    \<and> (\<forall>f. r = Inr f \<longrightarrow> ef_total f = written_bytes files \<and> (\<exists>infos. za_infos z = Some infos \<and> archive_ok u infos (ef_layer f)
        \<and> (\<forall>i \<in> set (zip_files infos). \<exists>chunks. za_read z i = Some (chunks, True) \<and> map_of files (entry_suffix u i) = Some (concat chunks))))"
proof (cases "\<exists>infos layer members. za_infos z = Some infos \<and> check_directory u infos = Inr (layer, members)")
  case False
  then have "files = [] \<and> (\<exists>e. r = Inl e)"
    using assms by (auto simp: extract_upload_archive_def split: option.splits sum.splits)
  then show ?thesis by (auto simp: written_bytes_def)
next
  case True
  then obtain infos layer members where i: "za_infos z = Some infos" "check_directory u infos = Inr (layer, members)" by blast
  then have ok: "archive_ok u infos layer" and members: "members = map (\<lambda>i. (entry_suffix u i, i)) (zip_files infos)"
    by (simp_all add: check_directory_Inr)
  let ?ms = "sort_key fst members"
  obtain r' where ex: "extract_members z 0 ?ms [] [] = (r', files)" and r: "\<forall>f. r = Inr f \<longrightarrow> (\<exists>am. r' = Inr (am, ef_total f)) \<and> ef_layer f = layer"
    using assms i by (cases "extract_members z 0 ?ms [] []") (auto simp: extract_upload_archive_def split: sum.splits)
  have b: "written_bytes files \<le> max_total_uncompressed" "map fst files = map fst (take (length files) ?ms)" "length files \<le> length ?ms"
    "list_all2 (\<lambda>(_, bytes) (_, info). length bytes \<le> zi_size info) files (take (length files) ?ms)"
    "\<forall>am t. r' = Inr (am, t) \<longrightarrow> t = written_bytes files
         \<and> list_all2 (\<lambda>(_, bytes) (_, info). \<exists>chunks. za_read z info = Some (chunks, True) \<and> bytes = concat chunks) files ?ms"
    using extract_members_bounds [OF ex] by (auto simp: written_bytes_def)
  have suffixes: "set (map fst ?ms) \<subseteq> set accepted_suffixes" using ok by (auto simp: members archive_ok_def)
  have files: "layer_files u infos = zip_files infos" using ok by (simp add: archive_ok_def layer_files_def)
  then have dist: "distinct (map fst ?ms)" using ok by (simp add: members archive_ok_def entries_ok_def comp_def distinct_map inj_on_def)
  have sub: "set (map fst files) \<subseteq> set (map fst ?ms)" unfolding b(2) set_map by (intro image_mono set_take_subset)
  have "distinct (map fst files)" using dist unfolding b(2) by (metis distinct_take take_map)
  moreover have "\<exists>i. i \<in> set infos \<and> entry_suffix u i = suffix \<and> length bytes \<le> zi_size i" if "(suffix, bytes) \<in> set files" for suffix bytes
  proof -
    note in_files = that
    obtain k where k: "k < length files" "files ! k = (suffix, bytes)" using in_files by (auto simp: in_set_conv_nth)
    then have "fst (?ms ! k) = suffix" using b(2,3) by (metis fst_conv nth_map nth_take length_take min.absorb2)
    moreover have "length bytes \<le> zi_size (snd (?ms ! k))" using b(3) list_all2_nthD [OF b(4) k(1)] k by (simp add: case_prod_beta)
    moreover have "?ms ! k \<in> set members" using k b(3) by (metis less_le_trans nth_mem set_sort)
    ultimately show ?thesis by (auto simp: members zip_files_def)
  qed
  moreover have "ef_total f = written_bytes files \<and> archive_ok u infos (ef_layer f)
      \<and> (\<forall>i \<in> set (zip_files infos). \<exists>chunks. za_read z i = Some (chunks, True) \<and> map_of files (entry_suffix u i) = Some (concat chunks))"
    if "r = Inr f" for f
  proof -
    note is_f = that
    from r is_f obtain am where "r' = Inr (am, ef_total f)" "ef_layer f = layer" by blast
    with b(5) have t: "ef_total f = written_bytes files"
      and all: "list_all2 (\<lambda>(_, bytes) (_, info). \<exists>chunks. za_read z info = Some (chunks, True) \<and> bytes = concat chunks) files ?ms" by auto
    have "\<exists>chunks. za_read z i = Some (chunks, True) \<and> map_of files (entry_suffix u i) = Some (concat chunks)" if "i \<in> set (zip_files infos)" for i
    proof -
      have "(entry_suffix u i, i) \<in> set ?ms" using that by (auto simp: members)
      then obtain k where k: "k < length ?ms" "?ms ! k = (entry_suffix u i, i)" by (metis in_set_conv_nth)
      with list_all2_nthD2 [OF all k(1)] list_all2_lengthD [OF all]
      obtain chunks where c: "za_read z i = Some (chunks, True)" "snd (files ! k) = concat chunks" "k < length files"
        by (auto simp: case_prod_beta)
      have "length files = length ?ms" using all list_all2_lengthD by blast
      then have "map fst files = map fst ?ms" using b(2) by simp
      then have "fst (files ! k) = entry_suffix u i" using k c(3) by (metis fst_conv nth_map)
      then have "(entry_suffix u i, concat chunks) \<in> set files" using c(2,3) by (metis nth_mem prod.collapse)
      then show ?thesis using \<open>distinct (map fst files)\<close> c(1) by (auto intro: map_of_is_SomeI)
    qed
    with t ok \<open>ef_layer f = layer\<close> show ?thesis by simp
  qed
  moreover have "set (map fst files) \<subseteq> set accepted_suffixes" using suffixes sub by blast
  ultimately show ?thesis using b(1) i(1) by auto
qed

definition demo_entry :: "string \<Rightarrow> zip_info" where
  "demo_entry name = \<lparr>zi_name = lit name, zi_flags = 0, zi_system = 3, zi_attr = 0, zi_compression = 8, zi_csize = 3, zi_size = 2\<rparr>"

definition demo_zip :: zip_archive where
  "demo_zip = \<lparr>za_infos = Some (map demo_entry [''d/a.shp'', ''d/a.SHX'', ''d/a.dbf'', ''d/a.prj'', ''d/a.cpg'']),
     za_read = (\<lambda>_. Some ([[1], [2]], True))\<rparr>"

lemmas demo_eval = split_member_name_def path_suffix_def path_name_def member_suffix_def member_stem_def is_symlink_def is_dir_def ends_with_def
  starts_with_def lower_def latin_ucd_def latin_lower_def accepted_suffixes_def required_suffixes_def optional_suffixes_def ratio_exceeded_def
  ratio_check_min_def max_archive_entries_def max_total_uncompressed_def max_layer_name_def strip_def strip_by_def is_space_def

lemma demo_check: "check_directory latin_ucd (map demo_entry [''d/a.shp'', ''d/a.SHX'', ''d/a.dbf'', ''d/a.prj'', ''d/a.cpg''])
  = Inr (lit ''a'', map2 (\<lambda>s n. (lit s, demo_entry n)) [''.shp'', ''.shx'', ''.dbf'', ''.prj'', ''.cpg'']
      [''d/a.shp'', ''d/a.SHX'', ''d/a.dbf'', ''d/a.prj'', ''d/a.cpg''])"
  by (simp add: check_directory_def directory_step_def demo_entry_def Let_def demo_eval member_folder_def)

lemma demo_extract: "fst (extract_upload_archive latin_ucd demo_zip)
  = Inr \<lparr>ef_layer = lit ''a'', ef_members = map (\<lambda>s. \<lparr>am_suffix = lit s, am_compressed = 3, am_uncompressed = 2\<rparr>)
        [''.cpg'', ''.dbf'', ''.prj'', ''.shp'', ''.shx''], ef_total = 10\<rparr>"
proof -
  have sorted: "sort_key fst (map2 (\<lambda>s n. (lit s, demo_entry n)) [''.shp'', ''.shx'', ''.dbf'', ''.prj'', ''.cpg'']
      [''d/a.shp'', ''d/a.SHX'', ''d/a.dbf'', ''d/a.prj'', ''d/a.cpg''])
    = map2 (\<lambda>s n. (lit s, demo_entry n)) [''.cpg'', ''.dbf'', ''.prj'', ''.shp'', ''.shx'']
      [''d/a.cpg'', ''d/a.dbf'', ''d/a.prj'', ''d/a.shp'', ''d/a.SHX'']" by simp
  have infos: "za_infos demo_zip = Some (map demo_entry [''d/a.shp'', ''d/a.SHX'', ''d/a.dbf'', ''d/a.prj'', ''d/a.cpg''])" by (simp add: demo_zip_def)
  show ?thesis
    unfolding extract_upload_archive_def infos option.case demo_check sum.case prod.case sorted
    by (simp add: demo_zip_def demo_entry_def max_total_uncompressed_def Let_def)
qed

theorem zip_extraction_bounded_witness: "\<exists>infos. za_infos demo_zip = Some infos \<and> archive_ok latin_ucd infos (lit ''a'')"
proof -
  obtain f files where f: "extract_upload_archive latin_ucd demo_zip = (Inr f, files)" "ef_layer f = lit ''a''"
    using demo_extract by (cases "extract_upload_archive latin_ucd demo_zip") auto
  from zip_extraction_bounded [OF f(1)] f(2) show ?thesis by auto
qed

end
