(* ===== verification/Bytes.thy ===== *)
theory Bytes
  imports PyValue Utf8 "HOL-Library.Word"
begin

text \<open>
  Files as lists of bytes and what the readers take from them: \<open>struct\<close> integers and doubles,
  \<open>bytes.decode\<close> with \<open>errors="replace"\<close>, the text a file opened in text mode yields, and
  \<open>int\<close> of a text. Integers are read at their width, so a length field can be negative.
\<close>

section \<open>Integers and doubles\<close>

fun le_nat :: "nat list \<Rightarrow> nat" where
  "le_nat [] = 0"
| "le_nat (b # bs) = b + 256 * le_nat bs"

definition segment :: "nat \<Rightarrow> nat \<Rightarrow> 'a list \<Rightarrow> 'a list" where
  "segment start len xs = take len (drop start xs)"

text \<open>\<open>struct.unpack_from\<close> of \<open>>i\<close>, \<open><i\<close>, \<open><I\<close> and \<open><H\<close>; every use has checked the length.\<close>

definition be_i32 :: "nat list \<Rightarrow> nat \<Rightarrow> int" where
  "be_i32 raw pos = sint (word_of_nat (le_nat (rev (segment pos 4 raw))) :: 32 word)"

definition le_i32 :: "nat list \<Rightarrow> nat \<Rightarrow> int" where
  "le_i32 raw pos = sint (word_of_nat (le_nat (segment pos 4 raw)) :: 32 word)"

definition le_u32 :: "nat list \<Rightarrow> nat \<Rightarrow> nat" where
  "le_u32 raw pos = le_nat (segment pos 4 raw)"

definition le_u16 :: "nat list \<Rightarrow> nat \<Rightarrow> nat" where
  "le_u16 raw pos = le_nat (segment pos 2 raw)"

text \<open>IEEE binary64: sign, eleven bits of exponent, fifty-two of fraction.\<close>

definition double_of_bits :: "nat \<Rightarrow> pyfloat" where
  "double_of_bits n =
     (let neg = odd (n div 2 ^ 63); e = n div 2 ^ 52 mod 2048; m = n mod 2 ^ 52
      in if e = 2047 then (if m \<noteq> 0 then NaN else if neg then NegInf else PosInf)
         else let v = (if e = 0 then of_nat m * pow2 (- 1074) else of_nat (2 ^ 52 + m) * pow2 (int e - 1075))
              in Fin (if neg then - v else v))"

definition le_double :: "nat list \<Rightarrow> nat \<Rightarrow> pyfloat" where
  "le_double raw pos = double_of_bits (le_nat (segment pos 8 raw))"

section \<open>Text\<close>

definition ascii_decode :: "nat list \<Rightarrow> pystr" where
  "ascii_decode bs = map (\<lambda>b. if b < 128 then b else replacement) bs"

text \<open>Text mode: every line end is read as a line feed.\<close>

fun universal_newlines :: "pystr \<Rightarrow> pystr" where
  "universal_newlines [] = []"
| "universal_newlines (c # cs) =
     (if c = 13 then 10 # universal_newlines (if cs \<noteq> [] \<and> hd cs = 10 then tl cs else cs)
      else c # universal_newlines cs)"

text \<open>\<open>str.upper\<close> of a text of ASCII and replacement characters.\<close>

definition ascii_upper :: "nat \<Rightarrow> nat" where
  "ascii_upper c = (if 97 \<le> c \<and> c \<le> 122 then c - 32 else c)"

text \<open>\<open>int(s)\<close>; \<open>None\<close> is its \<open>ValueError\<close>.\<close>

definition int_of_text :: "ucd \<Rightarrow> pystr \<Rightarrow> int option" where
  "int_of_text u s =
     (let t = strip_by float_space (map (float_char u) s); (neg, ds) = sign_split (filter (\<lambda>c. c \<noteq> 95) t)
      in if \<not> underscores_ok False t \<or> ds = [] \<or> \<not> list_all ascii_digit ds then None
         else Some (if neg then - digits_value 0 ds else digits_value 0 ds))"

section \<open>Writing and reading back\<close>

text \<open>The little-endian bytes of a number, as a writer lays them out.\<close>

fun le_bytes :: "nat \<Rightarrow> nat \<Rightarrow> nat list" where
  "le_bytes 0 n = []"
| "le_bytes (Suc k) n = n mod 256 # le_bytes k (n div 256)"

lemma length_le_bytes [simp]: "length (le_bytes k n) = k"
  by (induction k arbitrary: n) auto

lemma le_nat_le_bytes: "le_nat (le_bytes k n) = n mod 256 ^ k"
proof (induction k arbitrary: n)
  case (Suc k)
  have "n mod (256 * 256 ^ k) = 256 * (n div 256 mod 256 ^ k) + n mod 256"
    by (rule mod_mult2_eq)
  with Suc show ?case by simp
qed simp

lemma le_nat_bound: "\<forall>b \<in> set bs. b < 256 \<Longrightarrow> le_nat bs < 256 ^ length bs"
proof (induction bs)
  case (Cons b bs)
  then have "le_nat bs + 1 \<le> 256 ^ length bs" "b < 256" by auto
  then show ?case by simp
qed simp

lemma segment_append_at: "length pre = pos \<Longrightarrow> length mid = n \<Longrightarrow> segment pos n (pre @ mid @ post) = mid"
  by (simp add: segment_def)

lemma segment_append_left: "pos + n \<le> length xs \<Longrightarrow> segment pos n (xs @ ys) = segment pos n xs"
  by (simp add: segment_def)

lemma segment_append_right: "length xs \<le> pos \<Longrightarrow> segment pos n (xs @ ys) = segment (pos - length xs) n ys"
  by (simp add: segment_def)

lemma length_segment [simp]: "length (segment pos n xs) = min n (length xs - pos)"
  by (simp add: segment_def min.commute)

lemma segment_segment: "i + j \<le> n \<Longrightarrow> segment i j (segment pos n xs) = segment (pos + i) j xs"
  by (simp add: segment_def take_drop drop_drop add.commute min_def)

lemma sint_word_of_nat_small: "n < 2 ^ 31 \<Longrightarrow> sint (word_of_nat n :: 32 word) = int n"
  by (simp add: sint_uint unsigned_of_nat signed_take_bit_int_eq_self take_bit_nat_eq_self)

text \<open>An integer written out reads back.\<close>

lemma int_of_int_str: "int_of_text u (int_str i) = Some i"
proof -
  let ?ds = "nat_digits (nat \<bar>i\<bar>)"
  have s: "int_str i = (if i < 0 then [45] else []) @ ?ds" by (simp add: int_str_def)
  have d: "ascii_digit c" if "c \<in> set ?ds" for c using nat_digits_ascii that .
  have map: "map (float_char u) (int_str i) = int_str i"
  proof (rule map_idI)
    fix c assume "c \<in> set (int_str i)"
    then have "c < 128" unfolding s using d [of c] by (auto simp: ascii_digit_def split: if_splits)
    then show "float_char u c = c" by (simp add: float_char_def)
  qed
  have "\<not> float_space c" if "c \<in> set (int_str i)" for c
    using that d [of c] unfolding s by (auto simp: float_space_def ascii_digit_def split: if_splits)
  then have strip: "strip_by float_space (int_str i) = int_str i"
    by (intro strip_by_fixed) (auto simp: s intro!: hd_in_set last_in_set)
  have no_us: "\<forall>c \<in> set (int_str i). c \<noteq> 95" unfolding s using d [of 95] by (auto simp: ascii_digit_def)
  obtain c cs where cs: "?ds = c # cs" by (cases ?ds) simp_all
  have c: "ascii_digit c" using d cs by simp
  have split: "sign_split (int_str i) = (i < 0, ?ds)"
    unfolding s using c by (auto simp: sign_split_def cs ascii_digit_def)
  have filter: "filter (\<lambda>c. c \<noteq> 95) (int_str i) = int_str i" using no_us by (simp add: filter_id_conv)
  have all: "list_all ascii_digit ?ds" using d by (simp add: list_all_iff)
  show ?thesis
    unfolding int_of_text_def map strip Let_def filter split
    using all underscores_ok_digits [OF no_us, of False] by (simp add: digits_value_nat_digits)
qed

end
