(* ===== verification/Shapefile.thy ===== *)
theory Shapefile
  imports Bytes Json ZipUpload
begin

text \<open>
  \<open>forestry_ingestion/shapefile_contract.py\<close>: the source contract of the estate layer. The family
  is the contents of its files by suffix; a file that is not there is \<open>None\<close>. SHA-256 is an
  argument. \<open>shape_error\<close> has one constructor for each text the contract (and the geometry
  decoder, which raises the same class) refuses a layer with; \<open>Uncaught\<close> is an exception no branch
  of the reader raises on purpose.
\<close>

section \<open>The contract\<close>

type_synonym dbf_column = "pystr \<times> nat \<times> nat \<times> nat"

datatype shape_error =
    Missing_shp | Incomplete_family "pystr list" | Bad_encoding pystr | Bad_crs
  | Header_truncated pystr | Not_shapefile pystr | Length_mismatch pystr int nat
  | Layer_not_polygon int | Shx_type_mismatch int int
  | Bad_number pystr pystr | Dbf_header_truncated | Descriptors_truncated
  | Schema_mismatch "dbf_column list" "dbf_column list" | Dbf_record_truncated nat | Soft_deleted nat
  | Count_mismatch nat nat | No_features
  | Shp_header_truncated | Record_header_truncated | Not_sequential nat int | Record_truncated int
  | Content_truncated int | Null_shape int | Record_not_polygon int int | Bad_layout int
  | Record_length int int int | Bad_part_offsets int | Short_ring int | Unclosed_ring int
  | Rows_not_aligned

datatype shape_failure = Contract shape_error | Uncaught py_error

definition accepted_encodings :: "pystr list" where
  "accepted_encodings = [lit ''UTF-8'', lit ''UTF8'']"

definition expected_prj :: pystr where
  "expected_prj =
     lit ''PROJCS[\"WGS_1984_UTM_Zone_18S\",GEOGCS[\"GCS_WGS_1984\",DATUM[\"D_WGS_1984\",''
     @ lit ''SPHEROID[\"WGS_1984\",6378137.0,298.257223563]],PRIMEM[\"Greenwich\",0.0],''
     @ lit ''UNIT[\"Degree\",0.0174532925199433]],PROJECTION[\"Transverse_Mercator\"],''
     @ lit ''PARAMETER[\"False_Easting\",500000.0],PARAMETER[\"False_Northing\",10000000.0],''
     @ lit ''PARAMETER[\"Central_Meridian\",-75.0],PARAMETER[\"Scale_Factor\",0.9996],''
     @ lit ''PARAMETER[\"Latitude_Of_Origin\",0.0],UNIT[\"Meter\",1.0]]''"

definition shapefile_magic :: int where "shapefile_magic = 9994"

definition shapefile_version :: int where "shapefile_version = 1000"

definition polygon_shape_type :: int where "polygon_shape_type = 5"

text \<open>Name, type (67 \<open>C\<close>, 70 \<open>F\<close>, 78 \<open>N\<close>), width, decimals and the key of the value.\<close>

definition dbf_fields :: "(dbf_column \<times> pystr) list" where
  "dbf_fields =
     [((lit ''OBJECTID'', 78, 10, 0), lit ''objectid''),
      ((lit ''Nom_Predio'', 67, 50, 0), lit ''nom_predio''),
      ((lit ''N_Rodal'', 67, 10, 0), lit ''n_rodal''),
      ((lit ''Sup_ha'', 70, 19, 11), lit ''sup_ha''),
      ((lit ''Cod_Uso'', 67, 25, 0), lit ''cod_uso''),
      ((lit ''Editada'', 67, 2, 0), lit ''editada''),
      ((lit ''Uso2024'', 67, 50, 0), lit ''uso_2024''),
      ((lit ''DescUso'', 67, 50, 0), lit ''desc_uso''),
      ((lit ''Cod_Predia'', 67, 10, 0), lit ''cod_predial''),
      ((lit ''N_Rodal_te'', 67, 3, 0), lit ''n_rodal_te''),
      ((lit ''Uso2026'', 67, 50, 0), lit ''uso_2026''),
      ((lit ''CodUso_202'', 67, 10, 0), lit ''cod_uso_2026''),
      ((lit ''Shape_Leng'', 70, 19, 11), lit ''shape_leng''),
      ((lit ''Shape_Area'', 70, 19, 11), lit ''shape_area'')]"

definition expected_schema :: "dbf_column list" where
  "expected_schema = map fst dbf_fields"

record source_row =
  sr_number :: nat
  sr_values :: "(pystr, json) pydict"

definition row_value :: "source_row \<Rightarrow> pystr \<Rightarrow> json" where
  "row_value r k = (case map_of (sr_values r) k of Some v \<Rightarrow> v | None \<Rightarrow> JNull)"

text \<open>The properties of a row: \<open>objectid\<close> asserts an integer, the others read their type or None.\<close>

definition row_objectid :: "source_row \<Rightarrow> int option" where
  "row_objectid r = (case row_value r (lit ''objectid'') of JInt i \<Rightarrow> Some i | _ \<Rightarrow> None)"

definition json_text :: "json \<Rightarrow> pystr option" where
  "json_text v = (case v of JStr s \<Rightarrow> Some s | _ \<Rightarrow> None)"

definition row_nom_predio :: "source_row \<Rightarrow> pystr option" where
  "row_nom_predio r = json_text (row_value r (lit ''nom_predio''))"

definition row_cod_predial :: "source_row \<Rightarrow> pystr option" where
  "row_cod_predial r = json_text (row_value r (lit ''cod_predial''))"

definition row_n_rodal :: "source_row \<Rightarrow> pystr option" where
  "row_n_rodal r = json_text (row_value r (lit ''n_rodal''))"

definition row_sup_ha :: "source_row \<Rightarrow> pyfloat option" where
  "row_sup_ha r = (case row_value r (lit ''sup_ha'') of JFloat x \<Rightarrow> Some x | _ \<Rightarrow> None)"

record shape_table =
  tb_members :: "pystr list"
  tb_sha256 :: "(pystr, pystr) pydict"
  tb_fingerprint :: pystr
  tb_shape_type :: int
  tb_bbox :: "pyfloat \<times> pyfloat \<times> pyfloat \<times> pyfloat"
  tb_prj :: pystr
  tb_encoding :: pystr
  tb_rows :: "source_row list"

section \<open>Members, encoding, projection, headers\<close>

type_synonym shape_files = "pystr \<Rightarrow> nat list option"

definition resolve_members :: "shape_files \<Rightarrow> shape_failure + (pystr, nat list) pydict" where
  "resolve_members files =
     (if files (lit ''.shp'') = None then Inl (Contract Missing_shp)
      else let missing = filter (\<lambda>s. files s = None) required_suffixes
           in if missing \<noteq> [] then Inl (Contract (Incomplete_family missing))
              else Inr (List.map_filter (\<lambda>s. map_option (Pair s) (files s)) (required_suffixes @ optional_suffixes)))"

definition member :: "(pystr, nat list) pydict \<Rightarrow> string \<Rightarrow> nat list" where
  "member ms suffix = (case map_of ms (lit suffix) of Some bs \<Rightarrow> bs | None \<Rightarrow> [])"

definition validate_encoding :: "nat list \<Rightarrow> shape_failure + pystr" where
  "validate_encoding cpg =
     (let declared = strip (universal_newlines (ascii_decode cpg))
      in if map ascii_upper declared \<notin> set accepted_encodings then Inl (Contract (Bad_encoding declared))
         else Inr (lit ''UTF-8''))"

definition validate_prj :: "nat list \<Rightarrow> shape_failure + pystr" where
  "validate_prj prj =
     (let declared = strip (universal_newlines (utf8_decode prj))
      in if declared \<noteq> expected_prj then Inl (Contract Bad_crs) else Inr declared)"

definition read_main_header :: "string \<Rightarrow> nat list
    \<Rightarrow> shape_failure + int \<times> (pyfloat \<times> pyfloat \<times> pyfloat \<times> pyfloat) \<times> int" where
  "read_main_header label raw =
     (if length raw < 100 then Inl (Contract (Header_truncated (lit label)))
      else let magic = be_i32 raw 0; words = be_i32 raw 24; version = le_i32 raw 28; shape_type = le_i32 raw 32;
               bbox = (le_double raw 36, le_double raw 44, le_double raw 52, le_double raw 60)
           in if magic \<noteq> shapefile_magic \<or> version \<noteq> shapefile_version then Inl (Contract (Not_shapefile (lit label)))
              else let declared = words * 2
                   in if declared \<noteq> int (length raw) then Inl (Contract (Length_mismatch (lit label) declared (length raw)))
                      else Inr (shape_type, bbox, declared))"

definition read_shx_count :: "nat list \<Rightarrow> int \<Rightarrow> shape_failure + int" where
  "read_shx_count shx expected =
     bind_result (read_main_header ''.shx'' shx) (\<lambda>(shape_type, _, declared).
       if shape_type \<noteq> expected then Inl (Contract (Shx_type_mismatch shape_type expected))
       else Inr ((declared - 100) div 8))"

section \<open>Attribute rows\<close>

definition parse_dbf_value :: "ucd \<Rightarrow> pystr \<Rightarrow> nat \<Rightarrow> nat \<Rightarrow> pystr \<Rightarrow> shape_failure + json" where
  "parse_dbf_value u key ty decimals text =
     (let stripped = strip text
      in if stripped = [] then Inr JNull
         else if ty = 67 then Inr (JStr stripped)
         else if ty = 78 \<and> decimals = 0
           then (case int_of_text u stripped of Some i \<Rightarrow> Inr (JInt i) | None \<Rightarrow> Inl (Contract (Bad_number key stripped)))
         else (case float_of_text u stripped of Some x \<Rightarrow> Inr (JFloat x) | None \<Rightarrow> Inl (Contract (Bad_number key stripped))))"

definition dbf_column_of :: "nat list \<Rightarrow> dbf_column" where
  "dbf_column_of d = (ascii_decode (takeWhile (\<lambda>b. b \<noteq> 0) (take 11 d)), d ! 11, d ! 16, d ! 17)"

function read_schema :: "nat list \<Rightarrow> nat \<Rightarrow> nat \<Rightarrow> dbf_column list \<Rightarrow> shape_failure + dbf_column list" where
  "read_schema raw header offset schema =
     (if \<not> offset + 1 < header then Inr schema
      else if length raw \<le> offset then Inl (Uncaught IndexError)
      else if raw ! offset = 13 then Inr schema
      else let d = segment offset 32 raw
           in if length d < 32 then Inl (Contract Descriptors_truncated)
              else read_schema raw header (offset + 32) (schema @ [dbf_column_of d]))"
  by pat_completeness auto
termination
  by (relation "measure (\<lambda>(raw, header, offset, schema). header - offset)") auto

declare read_schema.simps [simp del]

fun read_values :: "ucd \<Rightarrow> nat list \<Rightarrow> nat \<Rightarrow> (dbf_column \<times> pystr) list \<Rightarrow> shape_failure + (pystr, json) pydict" where
  "read_values u rec cursor [] = Inr []"
| "read_values u rec cursor (((name, ty, width, decimals), key) # fs) =
     bind_result (parse_dbf_value u key ty decimals (utf8_decode (segment cursor width rec))) (\<lambda>v.
       bind_result (read_values u rec (cursor + width) fs) (\<lambda>vs. Inr ((key, v) # vs)))"

definition read_record :: "ucd \<Rightarrow> nat list \<Rightarrow> nat \<Rightarrow> nat \<Rightarrow> nat \<Rightarrow> shape_failure + source_row" where
  "read_record u raw header width n =
     (let rec = segment (header + (n - 1) * width) width raw
      in if length rec < width then Inl (Contract (Dbf_record_truncated n))
         else if rec = [] then Inl (Uncaught IndexError)
         else if hd rec = 42 then Inl (Contract (Soft_deleted n))
         else bind_result (read_values u rec 1 dbf_fields) (\<lambda>vs. Inr \<lparr>sr_number = n, sr_values = vs\<rparr>))"

definition read_dbf_rows :: "ucd \<Rightarrow> nat list \<Rightarrow> shape_failure + source_row list" where
  "read_dbf_rows u raw =
     (if length raw < 33 then Inl (Contract Dbf_header_truncated)
      else let count = le_u32 raw 4; header = le_u16 raw 8; width = le_u16 raw 10
           in bind_result (read_schema raw header 32 []) (\<lambda>schema.
             if schema \<noteq> expected_schema
             then Inl (Contract (Schema_mismatch (filter (\<lambda>c. c \<notin> set expected_schema) schema)
                                                 (filter (\<lambda>c. c \<notin> set schema) expected_schema)))
             else traverse (read_record u raw header width) [1..<Suc count]))"

section \<open>The family\<close>

definition fingerprint_members :: "(nat list \<Rightarrow> pystr) \<Rightarrow> (pystr, nat list) pydict \<Rightarrow> (pystr, pystr) pydict \<times> pystr" where
  "fingerprint_members sha ms =
     (let digests = map (\<lambda>(s, bs). (s, sha bs)) ms;
          line = (\<lambda>s. s @ [58] @ (case map_of digests s of Some h \<Rightarrow> h | None \<Rightarrow> []) @ [10])
      in (digests, sha (concat (map line (sort (map fst digests))))))"

definition load_shapefile :: "ucd \<Rightarrow> (nat list \<Rightarrow> pystr) \<Rightarrow> shape_files \<Rightarrow> shape_failure + shape_table" where
  "load_shapefile u sha files =
     bind_result (resolve_members files) (\<lambda>ms.
     bind_result (validate_encoding (member ms ''.cpg'')) (\<lambda>encoding.
     bind_result (validate_prj (member ms ''.prj'')) (\<lambda>prj.
     bind_result (read_main_header ''.shp'' (member ms ''.shp'')) (\<lambda>(shape_type, bbox, _).
       if shape_type \<noteq> polygon_shape_type then Inl (Contract (Layer_not_polygon shape_type))
       else
     bind_result (read_shx_count (member ms ''.shx'') shape_type) (\<lambda>shx_count.
     bind_result (read_dbf_rows u (member ms ''.dbf'')) (\<lambda>rows.
       if int (length rows) \<noteq> shx_count then Inl (Contract (Count_mismatch (length rows) (nat shx_count)))
       else if rows = [] then Inl (Contract No_features)
       else let (digests, fingerprint) = fingerprint_members sha ms
            in Inr \<lparr>tb_members = map fst ms, tb_sha256 = digests, tb_fingerprint = fingerprint, tb_shape_type = shape_type,
                    tb_bbox = bbox, tb_prj = prj, tb_encoding = encoding, tb_rows = rows\<rparr>))))))"

end
