(* ===== verification/ShapeFacts.thy ===== *)
theory ShapeFacts
  imports Shapefile
begin

text \<open>
  The attribute table as the format lays it out, and reading it back; which layers the contract lets
  through.
\<close>

section \<open>A table written and read back\<close>

text \<open>
  A writer of the format: text to the left of its column, numbers to the right, a value that is not
  there as blanks. \<open>ftext\<close> is the writer's text of a float.
\<close>

definition blanks :: "nat \<Rightarrow> nat list" where "blanks n = replicate n 32"

definition write_cell :: "(pyfloat \<Rightarrow> pystr) \<Rightarrow> nat \<Rightarrow> json \<Rightarrow> nat list" where
  "write_cell ftext width v =
     (case v of
        JStr s \<Rightarrow> utf8_encode s @ blanks (width - length (utf8_encode s))
      | JInt i \<Rightarrow> blanks (width - length (int_str i)) @ int_str i
      | JFloat x \<Rightarrow> blanks (width - length (ftext x)) @ ftext x
      | _ \<Rightarrow> blanks width)"

definition storable :: "ucd \<Rightarrow> (pyfloat \<Rightarrow> pystr) \<Rightarrow> dbf_column \<times> pystr \<Rightarrow> json \<Rightarrow> bool" where
  "storable u ftext f v =
     (case f of ((name, ty, width, decimals), key) \<Rightarrow>
        (case v of
           JNull \<Rightarrow> True
         | JStr s \<Rightarrow> ty = 67 \<and> s \<noteq> [] \<and> strip s = s \<and> list_all scalar s \<and> length (utf8_encode s) \<le> width
         | JInt i \<Rightarrow> ty = 78 \<and> decimals = 0 \<and> length (int_str i) \<le> width
         | JFloat x \<Rightarrow> ty = 70 \<and> length (ftext x) \<le> width \<and> ftext x \<noteq> [] \<and> strip (ftext x) = ftext x
             \<and> list_all (\<lambda>c. c < 128) (ftext x) \<and> float_of_text u (ftext x) = Some x
         | _ \<Rightarrow> False))"

definition write_row :: "(pyfloat \<Rightarrow> pystr) \<Rightarrow> json list \<Rightarrow> nat list" where
  "write_row ftext vs =
     32 # concat (map (\<lambda>(f, v). case f of ((name, ty, width, decimals), key) \<Rightarrow> write_cell ftext width v) (zip dbf_fields vs))"

definition dbf_descriptor :: "dbf_column \<Rightarrow> nat list" where
  "dbf_descriptor c =
     (case c of (name, ty, width, decimals) \<Rightarrow>
        name @ replicate (11 - length name) 0 @ [ty] @ replicate 4 0 @ [width, decimals] @ replicate 14 0)"

definition write_dbf :: "(pyfloat \<Rightarrow> pystr) \<Rightarrow> json list list \<Rightarrow> nat list" where
  "write_dbf ftext rows =
     ([3, 126, 1, 1] @ le_bytes 4 (length rows) @ le_bytes 2 481 @ le_bytes 2 328 @ replicate 20 0)
     @ concat (map dbf_descriptor expected_schema) @ 13 # concat (map (write_row ftext) rows) @ [26]"

lemma strip_blanks_left: "strip (blanks n @ s) = strip s"
  using strip_by_prefix [of "blanks n" is_space s] by (auto simp: strip_def blanks_def is_space_def)

lemma strip_blanks_right: "strip (s @ blanks n) = strip s"
  using strip_by_suffix [of "blanks n" is_space s] by (auto simp: strip_def blanks_def is_space_def)

lemma strip_blanks: "strip (blanks n) = []"
  by (simp add: strip_def strip_by_empty_iff blanks_def is_space_def)

lemma decode_blanks_append: "utf8_decode (blanks n @ bs) = blanks n @ utf8_decode bs"
  by (rule utf8_decode_ascii_append) (simp add: blanks_def)

lemma decode_blanks: "utf8_decode (blanks n) = blanks n"
  by (rule utf8_decode_ascii) (simp add: blanks_def)

lemma int_str_chars: "c \<in> set (int_str i) \<Longrightarrow> c < 128 \<and> \<not> is_space c"
  using nat_digits_ascii [of c "nat \<bar>i\<bar>"] by (auto simp: int_str_def ascii_digit_def is_space_def split: if_splits)

lemma int_str_not_Nil: "int_str i \<noteq> []"
  by (simp add: int_str_def)

lemma strip_int_str: "strip (int_str i) = int_str i"
  unfolding strip_def using int_str_chars [of _ i] int_str_not_Nil [of i] by (intro strip_by_fixed) (auto)

lemma cell_reads_back:
  assumes "storable u ftext ((name, ty, width, decimals), key) v"
  shows "parse_dbf_value u key ty decimals (utf8_decode (write_cell ftext width v)) = Inr v"
    and "length (write_cell ftext width v) = width"
proof -
  have "parse_dbf_value u key ty decimals (utf8_decode (write_cell ftext width v)) = Inr v
      \<and> length (write_cell ftext width v) = width"
  proof (cases v)
    case (JStr s)
    with assms show ?thesis
      by (simp add: storable_def write_cell_def utf8_decode_encode_append decode_blanks strip_blanks_right
          parse_dbf_value_def list_all_iff blanks_def [of "_ - _", THEN arg_cong [of _ _ length]])
  next
    case (JInt i)
    have "utf8_decode (int_str i) = int_str i" using int_str_chars by (intro utf8_decode_ascii) auto
    with JInt assms show ?thesis
      by (simp add: storable_def write_cell_def decode_blanks_append strip_blanks_left strip_int_str int_str_not_Nil
          parse_dbf_value_def int_of_int_str blanks_def [of "_ - _", THEN arg_cong [of _ _ length]])
  next
    case (JFloat x)
    with assms have "utf8_decode (ftext x) = ftext x" by (intro utf8_decode_ascii) (simp add: storable_def list_all_iff)
    with JFloat assms show ?thesis
      by (simp add: storable_def write_cell_def decode_blanks_append strip_blanks_left
          parse_dbf_value_def blanks_def [of "_ - _", THEN arg_cong [of _ _ length]])
  next
    case JNull
    then show ?thesis
      by (simp add: write_cell_def decode_blanks strip_blanks parse_dbf_value_def) (simp add: blanks_def)
  qed (use assms in \<open>simp_all add: storable_def\<close>)
  then show "parse_dbf_value u key ty decimals (utf8_decode (write_cell ftext width v)) = Inr v"
    and "length (write_cell ftext width v) = width" by auto
qed

lemma read_values_back:
  assumes "list_all2 (storable u ftext) fs vs"
  shows "read_values u (pre @ concat (map (\<lambda>(f, v). case f of ((name, ty, width, decimals), key) \<Rightarrow>
      write_cell ftext width v) (zip fs vs)) @ post) (length pre) fs = Inr (zip (map snd fs) vs)"
  using assms
proof (induction fs vs arbitrary: pre rule: list_all2_induct)
  case (Cons f fs v vs)
  obtain name ty width decimals key where f: "f = ((name, ty, width, decimals), key)" by (metis surj_pair)
  note cell = cell_reads_back [OF Cons.hyps(1) [unfolded f]]
  define w where "w = write_cell ftext width v"
  have "segment (length pre) width (pre @ w @ post') = w" for post'
    by (rule segment_append_at) (simp_all add: w_def cell(2))
  with Cons.IH [of "pre @ w"] cell show ?case by (simp add: f flip: w_def)
qed simp

definition descriptor_ok :: "dbf_column \<Rightarrow> bool" where
  "descriptor_ok c = (case c of (name, ty, width, decimals) \<Rightarrow>
     name \<noteq> [] \<and> length name \<le> 10 \<and> hd name \<noteq> 13 \<and> list_all (\<lambda>b. 0 < b \<and> b < 128) name)"

lemma length_descriptor: "descriptor_ok c \<Longrightarrow> length (dbf_descriptor c) = 32"
  by (auto simp: descriptor_ok_def dbf_descriptor_def)

lemma descriptor_back:
  assumes "descriptor_ok c"
  shows "dbf_column_of (dbf_descriptor c) = c" "dbf_descriptor c ! 0 \<noteq> 13"
proof -
  obtain name ty width decimals where c: "c = (name, ty, width, decimals)" by (metis surj_pair)
  with assms have n: "name \<noteq> []" "length name \<le> 10" "hd name \<noteq> 13" "\<forall>b \<in> set name. b \<noteq> 0 \<and> b < 128"
    by (auto simp: descriptor_ok_def list_all_iff)
  define k where "k = 10 - length name"
  have k: "11 - length name = Suc k" using n(2) by (simp add: k_def)
  define pre where "pre = name @ replicate (Suc k) 0"
  have pre: "length pre = 11" using n(2) by (simp add: pre_def k_def)
  have four: "replicate 4 (0::nat) = [0, 0, 0, 0]" by (simp add: numeral_eq_Suc)
  have d: "dbf_descriptor c = pre @ [ty, 0, 0, 0, 0, width, decimals] @ replicate 14 0"
    by (simp add: c dbf_descriptor_def k [simplified] pre_def four)
  have "takeWhile (\<lambda>b. b \<noteq> 0) pre = name" using n(4) by (simp add: pre_def takeWhile_append2)
  moreover have "ascii_decode name = name" using n(4) by (simp add: ascii_decode_def map_idI)
  ultimately show "dbf_column_of (dbf_descriptor c) = c"
    unfolding dbf_column_of_def d using pre by (simp add: nth_append c)
  show "dbf_descriptor c ! 0 \<noteq> 13" using n(1,3) by (cases name) (simp_all add: d pre_def)
qed

lemma read_schema_back:
  assumes "list_all descriptor_ok cols" "length pre + 32 * length cols + 1 = header"
  shows "read_schema (pre @ concat (map dbf_descriptor cols) @ post) header (length pre) acc = Inr (acc @ cols)"
  using assms
proof (induction cols arbitrary: pre acc)
  case Nil
  then show ?case by (simp add: read_schema.simps)
next
  case (Cons c cols)
  define d where "d = dbf_descriptor c"
  have c: "length d = 32" "dbf_column_of d = c" "d ! 0 \<noteq> 13"
    using Cons.prems(1) length_descriptor descriptor_back by (auto simp: d_def)
  have "segment (length pre) 32 (pre @ d @ post') = d" for post' by (rule segment_append_at) (simp_all add: c)
  moreover have "(pre @ d @ post') ! length pre \<noteq> 13" for post' using c by (simp add: nth_append)
  ultimately show ?case
    using Cons.IH [of "pre @ d" "acc @ [c]"] Cons.prems c
    by (subst read_schema.simps) (simp flip: d_def)
qed

lemma expected_schema_ok: "list_all descriptor_ok expected_schema"
  by (simp add: expected_schema_def dbf_fields_def descriptor_ok_def)

lemma segment_concat:
  "\<forall>x \<in> set xs. length x = w \<Longrightarrow> i < length xs \<Longrightarrow> segment (length pre + i * w) w (pre @ concat xs @ post) = xs ! i"
proof (induction xs arbitrary: pre i)
  case (Cons x xs)
  show ?case
  proof (cases i)
    case 0
    with Cons.prems show ?thesis by (simp add: segment_append_at)
  next
    case (Suc j)
    with Cons.IH [of j "pre @ x"] Cons.prems show ?thesis by (simp add: ac_simps)
  qed
qed simp

lemma length_write_row:
  assumes "list_all2 (storable u ftext) dbf_fields vs"
  shows "length (write_row ftext vs) = 328"
proof -
  have *: "length (concat (map (\<lambda>(f, v). case f of ((name, ty, width, decimals), key) \<Rightarrow> write_cell ftext width v) (zip fs vs)))
      = sum_list (map (\<lambda>((name, ty, width, decimals), key). width) fs)" if "list_all2 (storable u ftext) fs vs" for fs
    using that
  proof (induction fs vs rule: list_all2_induct)
    case (Cons f fs v vs)
    obtain name ty width decimals key where f: "f = ((name, ty, width, decimals), key)" by (metis surj_pair)
    from cell_reads_back(2) [OF Cons.hyps(1) [unfolded f]] Cons.IH show ?case by (simp add: f)
  qed simp
  from * [OF assms] show ?thesis by (simp add: write_row_def) (simp add: dbf_fields_def)
qed

lemma read_dbf_back:
  assumes "\<forall>vs \<in> set rows. list_all2 (storable u ftext) dbf_fields vs" "length rows < 2 ^ 32"
  shows "read_dbf_rows u (write_dbf ftext rows) =
    Inr (map (\<lambda>(n, vs). \<lparr>sr_number = n, sr_values = zip (map snd dbf_fields) vs\<rparr>) (zip [1..<Suc (length rows)] rows))"
proof -
  define raw where "raw = write_dbf ftext rows"
  define head where "head = ([3, 126, 1, 1] @ le_bytes 4 (length rows) @ le_bytes 2 481 @ le_bytes 2 328 @ replicate 20 (0::nat))"
  define top where "top = head @ concat (map dbf_descriptor expected_schema) @ [13]"
  have raw: "raw = top @ concat (map (write_row ftext) rows) @ [26]"
    by (simp add: raw_def write_dbf_def head_def top_def)
  have head: "length head = 32" by (simp add: head_def)
  have dl: "length (concat (map dbf_descriptor cols)) = 32 * length cols" if "list_all descriptor_ok cols" for cols
    using that by (induction cols) (simp_all add: length_descriptor)
  have nc: "length expected_schema = 14" by (simp add: expected_schema_def dbf_fields_def)
  have top: "length top = 481" by (simp add: top_def head dl [OF expected_schema_ok] nc)
  have s4: "segment 4 4 raw = le_bytes 4 (length rows)"
    unfolding raw top_def head_def using segment_append_at [of "[3, 126, 1, 1]" 4 "le_bytes 4 (length rows)" 4] by simp
  have s8: "segment 8 2 raw = le_bytes 2 481"
    unfolding raw top_def head_def
    using segment_append_at [of "[3, 126, 1, 1] @ le_bytes 4 (length rows)" 8 "le_bytes 2 481" 2] by simp
  have s10: "segment 10 2 raw = le_bytes 2 328"
    unfolding raw top_def head_def
    using segment_append_at [of "[3, 126, 1, 1] @ le_bytes 4 (length rows) @ le_bytes 2 481" 10 "le_bytes 2 328" 2] by simp
  have nums: "le_u32 raw 4 = length rows" "le_u16 raw 8 = 481" "le_u16 raw 10 = 328"
    using assms(2) by (simp_all only: le_u32_def le_u16_def s4 s8 s10 le_nat_le_bytes) simp_all
  have schema: "read_schema raw 481 32 [] = Inr expected_schema"
    using read_schema_back [OF expected_schema_ok, of head 481 "13 # concat (map (write_row ftext) rows) @ [26]" "[]"]
    by (simp add: raw top_def head nc)
  have rows: "read_record u raw 481 328 n = Inr \<lparr>sr_number = n, sr_values = zip (map snd dbf_fields) (rows ! (n - 1))\<rparr>"
    if n: "0 < n" "n \<le> length rows" for n
  proof -
    let ?vs = "rows ! (n - 1)"
    have vs: "list_all2 (storable u ftext) dbf_fields ?vs" using assms(1) n by simp
    have "segment (length top + (n - 1) * 328) 328 raw = map (write_row ftext) rows ! (n - 1)"
      unfolding raw by (rule segment_concat) (use assms(1) n length_write_row in auto)
    then have sl: "segment (481 + (n - 1) * 328) 328 raw = write_row ftext ?vs" using n by (simp add: top)
    have "read_values u (write_row ftext ?vs) 1 dbf_fields = Inr (zip (map snd dbf_fields) ?vs)"
      using read_values_back [OF vs, of "[32]" "[]"] by (simp add: write_row_def)
    moreover have "length (write_row ftext ?vs) = 328" by (rule length_write_row [OF vs])
    moreover have "hd (write_row ftext ?vs) = 32" "write_row ftext ?vs \<noteq> []" by (simp_all add: write_row_def)
    ultimately show ?thesis unfolding read_record_def sl Let_def by simp
  qed
  have "traverse (read_record u raw 481 328) [1..<Suc (length rows)]
      = Inr (map (\<lambda>(n, vs). \<lparr>sr_number = n, sr_values = zip (map snd dbf_fields) vs\<rparr>) (zip [1..<Suc (length rows)] rows))"
    unfolding traverse_Inr by (rule list_all2_all_nthI) (simp_all add: rows del: upt_Suc)
  then show ?thesis
    using top by (simp add: read_dbf_rows_def nums schema del: upt_Suc flip: raw_def) (simp add: raw)
qed

end
