(* ===== verification/ShapeRecords.thy ===== *)
theory ShapeRecords
  imports Shapefile
begin

text \<open>
  \<open>forestry_ingestion/shapefile_geometry.py\<close>: the polygon records of the \<open>.shp\<close> file, their
  rings, and the multipolygon of each record. Shapely is an argument: what a polygon is, whether it
  contains another (\<open>None\<close> when GEOS raises), its area, validity and bytes.
\<close>

type_synonym point = "pyfloat \<times> pyfloat"
type_synonym ring = "point list"

definition storage_srid :: int where "storage_srid = 32718"

definition null_shape_type :: int where "null_shape_type = 0"

record 'g shapely =
  sl_polygon :: "ring \<Rightarrow> ring list \<Rightarrow> 'g"
  sl_multi :: "'g list \<Rightarrow> 'g"
  sl_contains :: "'g \<Rightarrow> 'g \<Rightarrow> bool option"
  sl_area :: "'g \<Rightarrow> pyfloat"
  sl_valid :: "'g \<Rightarrow> bool"
  sl_reason :: "'g \<Rightarrow> pystr"
  sl_wkb :: "'g \<Rightarrow> nat list"

record source_geometry =
  sg_number :: int
  sg_wkb :: "nat list"
  sg_valid :: bool
  sg_reason :: "pystr option"
  sg_rings :: nat
  sg_parts :: nat
  sg_area :: pyfloat

section \<open>Rings of a record\<close>

definition point_eq :: "point \<Rightarrow> point \<Rightarrow> bool" where
  "point_eq p q \<longleftrightarrow> p = q \<and> fst p \<noteq> NaN \<and> snd p \<noteq> NaN"

definition check_ring :: "int \<Rightarrow> ring \<Rightarrow> shape_error + ring" where
  "check_ring n r =
     (if length r < 4 then Inl (Short_ring n)
      else if \<not> point_eq (hd r) (last r) then Inl (Unclosed_ring n) else Inr r)"

definition decode_record_rings :: "nat list \<Rightarrow> nat \<Rightarrow> int \<Rightarrow> int \<Rightarrow> shape_error + ring list" where
  "decode_record_rings raw start len n =
     (if len < 4 then Inl (Content_truncated n)
      else let shape_type = le_i32 raw start
      in if shape_type = null_shape_type then Inl (Null_shape n)
      else if shape_type \<noteq> polygon_shape_type then Inl (Record_not_polygon n shape_type)
      else if len < 44 then Inl (Content_truncated n)
      else let parts = le_i32 raw (start + 36); points = le_i32 raw (start + 40)
      in if parts < 1 \<or> points < parts then Inl (Bad_layout n)
      else let expected = 44 + 4 * parts + 16 * points
      in if len \<noteq> expected then Inl (Record_length n expected len)
      else let offsets = map (\<lambda>i. le_i32 raw (start + 44 + 4 * i)) [0..<nat parts];
               boundaries = offsets @ [points]; pairs = zip boundaries (tl boundaries)
      in if hd offsets \<noteq> 0 \<or> list_ex (\<lambda>(a, b). a \<ge> b) pairs then Inl (Bad_part_offsets n)
      else let points_start = start + 44 + 4 * nat parts;
               pts = map (\<lambda>i. (le_double raw (points_start + 16 * i), le_double raw (points_start + 16 * i + 8))) [0..<nat points]
      in traverse (\<lambda>(a, b). check_ring n (segment (nat a) (nat (b - a)) pts)) pairs)"

section \<open>Areas and polygons\<close>

definition fl_sgn :: "pyfloat \<Rightarrow> rat" where
  "fl_sgn x = (case x of Fin a \<Rightarrow> sgn a | PosInf \<Rightarrow> 1 | NegInf \<Rightarrow> - 1 | NaN \<Rightarrow> 0)"

definition fl_mul :: "pyfloat \<Rightarrow> pyfloat \<Rightarrow> pyfloat" where
  "fl_mul x y =
     (case (x, y) of
        (NaN, _) \<Rightarrow> NaN | (_, NaN) \<Rightarrow> NaN
      | (Fin a, Fin b) \<Rightarrow> round_double (a * b)
      | _ \<Rightarrow> (let s = fl_sgn x * fl_sgn y in if s = 0 then NaN else if s > 0 then PosInf else NegInf))"

definition signed_area :: "ring \<Rightarrow> pyfloat" where
  "signed_area r =
     fl_div (foldl (\<lambda>acc ((x1, y1), (x2, y2)). fl_add acc (fl_sub (fl_mul x1 y2) (fl_mul x2 y1))) (Fin 0) (zip r (tl r))) (Fin 2)"

definition is_hole :: "ring \<Rightarrow> bool" where
  "is_hole r = fl_less (Fin 0) (signed_area r)"

fun smallest_shell :: "'g shapely \<Rightarrow> 'g \<Rightarrow> nat \<Rightarrow> 'g list \<Rightarrow> nat option \<times> pyfloat \<Rightarrow> nat option \<times> pyfloat" where
  "smallest_shell sl hole i [] best = best"
| "smallest_shell sl hole i (shell # shells) best =
     smallest_shell sl hole (Suc i) shells
       (if sl_contains sl shell hole = Some True \<and> fl_less (sl_area sl shell) (snd best)
        then (Some i, sl_area sl shell) else best)"

definition smallest_containing_shell :: "'g shapely \<Rightarrow> 'g list \<Rightarrow> ring \<Rightarrow> nat option" where
  "smallest_containing_shell sl shells hole = fst (smallest_shell sl (sl_polygon sl hole []) 0 shells (None, PosInf))"

definition assign_hole :: "'g shapely \<Rightarrow> 'g list \<Rightarrow> ring list list \<times> ring list \<Rightarrow> ring \<Rightarrow> ring list list \<times> ring list" where
  "assign_hole sl shells st hole =
     (case smallest_containing_shell sl shells hole of
        None \<Rightarrow> (fst st, snd st @ [hole])
      | Some i \<Rightarrow> ((fst st)[i := fst st ! i @ [hole]], snd st))"

text \<open>The exterior and the holes of each polygon of the record.\<close>

definition arrange_rings :: "'g shapely \<Rightarrow> ring list \<Rightarrow> (ring \<times> ring list) list" where
  "arrange_rings sl rings =
     (let exteriors = filter (\<lambda>r. \<not> is_hole r) rings; holes = filter is_hole rings;
          shells = map (\<lambda>r. sl_polygon sl r []) exteriors;
          (assigned, promoted) = foldl (assign_hole sl shells) (replicate (length exteriors) [], []) holes
      in zip exteriors assigned @ map (\<lambda>r. (r, [])) promoted)"

definition build_feature :: "'g shapely \<Rightarrow> int \<Rightarrow> ring list \<Rightarrow> source_geometry" where
  "build_feature sl n rings =
     (let polygons = map (\<lambda>(r, holes). sl_polygon sl r holes) (arrange_rings sl rings);
          geometry = sl_multi sl polygons; valid = sl_valid sl geometry
      in \<lparr>sg_number = n, sg_wkb = sl_wkb sl geometry, sg_valid = valid,
          sg_reason = (if valid then None else Some (sl_reason sl geometry)),
          sg_rings = length rings, sg_parts = length polygons, sg_area = sl_area sl geometry\<rparr>)"

section \<open>Records\<close>

lemma decoded_length: "decode_record_rings raw start len n = Inr rings \<Longrightarrow> 44 \<le> len"
  by (simp add: decode_record_rings_def Let_def split: if_splits)

function decode_from :: "'g shapely \<Rightarrow> nat list \<Rightarrow> nat \<Rightarrow> source_geometry list \<Rightarrow> shape_error + source_geometry list" where
  "decode_from sl raw offset features =
     (if \<not> offset < length raw then Inr features
      else if offset + 8 > length raw then Inl Record_header_truncated
      else let n = be_i32 raw offset; words = be_i32 raw (offset + 4); expected = length features + 1
      in if n \<noteq> int expected then Inl (Not_sequential expected n)
      else let start = offset + 8; len = words * 2
      in if int start + len > int (length raw) then Inl (Record_truncated n)
      else (case decode_record_rings raw start len n of
              Inl e \<Rightarrow> Inl e
            | Inr rings \<Rightarrow> decode_from sl raw (nat (int start + len)) (features @ [build_feature sl n rings])))"
  by pat_completeness auto
termination
proof (relation "measure (\<lambda>(sl, raw, offset, features). length raw - offset)", goal_cases)
  case (2 sl raw offset features n words expected start len rings)
  then have "44 \<le> len" by (auto dest!: decoded_length)
  with 2 show ?case by auto
qed simp

declare decode_from.simps [simp del]

definition decode_polygon_records :: "'g shapely \<Rightarrow> nat list \<Rightarrow> shape_error + source_geometry list" where
  "decode_polygon_records sl raw =
     (if length raw < 100 then Inl Shp_header_truncated else decode_from sl raw 100 [])"

end
