(* ===== verification/RecordFacts.thy ===== *)
theory RecordFacts
  imports ShapeRecords ShapeFacts
begin

text \<open>
  What the geometry decoder promises: records in order, closed rings, every ring kept, each hole in
  the smallest exterior that contains it, and the records of a written file read back.
\<close>

section \<open>Holes and exteriors\<close>

definition all_rings :: "(ring \<times> ring list) list \<Rightarrow> ring multiset" where
  "all_rings ps = (\<Sum>(r, holes) \<in># mset ps. add_mset r (mset holes))"

lemma all_rings_simps [simp]:
  "all_rings [] = {#}" "all_rings ((r, hs) # ps) = add_mset r (mset hs) + all_rings ps"
  "all_rings (ps @ qs) = all_rings ps + all_rings qs"
  by (simp_all add: all_rings_def)

lemma all_rings_zip:
  "length rs = length hss \<Longrightarrow> all_rings (zip rs hss) = mset rs + mset (concat hss)"
  by (induction rs hss rule: list_induct2) simp_all

lemma all_rings_alone: "all_rings (map (\<lambda>r. (r, [])) rs) = mset rs"
  by (induction rs) simp_all

lemma fl_less_trans: "fl_less x y \<Longrightarrow> fl_less y z \<Longrightarrow> fl_less x z"
  by (auto simp: fl_less_def split: pyfloat.splits)

lemma fl_less_irrefl [simp]: "\<not> fl_less x x"
  by (auto simp: fl_less_def split: pyfloat.splits)

lemma smallest_shell_found:
  "smallest_shell sl hole i shells best = best \<or>
    (\<exists>j < length shells. smallest_shell sl hole i shells best = (Some (i + j), sl_area sl (shells ! j))
       \<and> sl_contains sl (shells ! j) hole = Some True)"
proof (induction shells arbitrary: i best)
  case (Cons shell shells)
  define now where "now = (if sl_contains sl shell hole = Some True \<and> fl_less (sl_area sl shell) (snd best)
        then (Some i, sl_area sl shell) else best)"
  from Cons.IH [of "Suc i" now] show ?case
  proof
    assume "smallest_shell sl hole (Suc i) shells now = now"
    then show ?thesis by (auto simp: now_def split: if_splits intro: exI [of _ 0])
  next
    assume "\<exists>j < length shells. smallest_shell sl hole (Suc i) shells now = (Some (Suc i + j), sl_area sl (shells ! j))
       \<and> sl_contains sl (shells ! j) hole = Some True"
    then obtain j where "j < length shells" "smallest_shell sl hole (Suc i) shells now = (Some (Suc i + j), sl_area sl (shells ! j))"
      "sl_contains sl (shells ! j) hole = Some True" by blast
    then have "Suc j < length (shell # shells)
      \<and> smallest_shell sl hole i (shell # shells) best = (Some (i + Suc j), sl_area sl ((shell # shells) ! Suc j))
      \<and> sl_contains sl ((shell # shells) ! Suc j) hole = Some True" by (simp add: now_def)
    then show ?thesis by blast
  qed
qed simp

text \<open>No shell that contains the hole is smaller than the one chosen.\<close>

lemma smallest_shell_least:
  "(snd (smallest_shell sl hole i shells best) = snd best \<or> fl_less (snd (smallest_shell sl hole i shells best)) (snd best))
    \<and> (\<forall>s \<in> set shells. sl_contains sl s hole = Some True
         \<longrightarrow> \<not> fl_less (sl_area sl s) (snd (smallest_shell sl hole i shells best)))"
proof (induction shells arbitrary: i best)
  case (Cons shell shells)
  define now where "now = (if sl_contains sl shell hole = Some True \<and> fl_less (sl_area sl shell) (snd best)
        then (Some i, sl_area sl shell) else best)"
  have r: "smallest_shell sl hole i (shell # shells) best = smallest_shell sl hole (Suc i) shells now" by (simp add: now_def)
  define a where "a = snd (smallest_shell sl hole (Suc i) shells now)"
  from Cons.IH [of "Suc i" now] have IH: "a = snd now \<or> fl_less a (snd now)"
    "\<forall>s \<in> set shells. sl_contains sl s hole = Some True \<longrightarrow> \<not> fl_less (sl_area sl s) a"
    by (simp_all add: a_def)
  have now: "snd now = snd best \<or> fl_less (snd now) (snd best)" by (simp add: now_def)
  have "a = snd best \<or> fl_less a (snd best)" using IH(1) now fl_less_trans by metis
  moreover have "\<not> fl_less (sl_area sl shell) a" if "sl_contains sl shell hole = Some True"
  proof (cases "fl_less (sl_area sl shell) (snd best)")
    case True
    with that have "snd now = sl_area sl shell" by (simp add: now_def)
    with IH(1) show ?thesis using fl_less_trans fl_less_irrefl by metis
  next
    case False
    with \<open>a = snd best \<or> fl_less a (snd best)\<close> show ?thesis using fl_less_trans by metis
  qed
  ultimately show ?case unfolding r a_def [symmetric] using IH(2) by simp
qed simp

lemma containing_shell_bound: "smallest_containing_shell sl shells hole = Some k \<Longrightarrow> k < length shells"
  using smallest_shell_found [of sl "sl_polygon sl hole []" 0 shells "(None, PosInf)"]
  by (auto simp: smallest_containing_shell_def)

section \<open>No ring is dropped\<close>

lemma mset_concat_update:
  "i < length xss \<Longrightarrow> mset (concat (xss[i := xss ! i @ [x]])) = add_mset x (mset (concat xss))"
  by (induction xss arbitrary: i) (auto split: nat.splits)

lemma assign_holes_keep:
  assumes "foldl (assign_hole sl shells) (assigned, promoted) holes = (assigned', promoted')"
    "length assigned = length shells"
  shows "length assigned' = length shells
    \<and> mset (concat assigned') + mset promoted' = mset (concat assigned) + mset promoted + mset holes"
  using assms
proof (induction holes arbitrary: assigned promoted)
  case (Cons hole holes)
  obtain st where st: "assign_hole sl shells (assigned, promoted) hole = st" by blast
  have "length (fst st) = length shells \<and> mset (concat (fst st)) + mset (snd st) = mset (concat assigned) + mset promoted + {#hole#}"
  proof (cases "smallest_containing_shell sl shells hole")
    case None
    with st Cons.prems(2) show ?thesis by (auto simp: assign_hole_def)
  next
    case (Some k)
    with st Cons.prems(2) containing_shell_bound [OF Some] show ?thesis
      by (auto simp: assign_hole_def mset_concat_update)
  qed
  with Cons.IH [of "fst st" "snd st"] Cons.prems(1) show ?case by (simp add: st)
qed simp

lemma arrange_keeps_rings: "all_rings (arrange_rings sl rings) = mset rings"
proof -
  let ?ex = "filter (\<lambda>r. \<not> is_hole r) rings" and ?holes = "filter is_hole rings"
  let ?shells = "map (\<lambda>r. sl_polygon sl r []) ?ex"
  obtain assigned promoted where f: "foldl (assign_hole sl ?shells) (replicate (length ?ex) [], []) ?holes = (assigned, promoted)"
    by (metis surj_pair)
  have z: "concat (replicate n []) = []" for n :: nat by (induction n) auto
  from assign_holes_keep [OF f] have k: "length assigned = length ?ex" "mset (concat assigned) + mset promoted = mset ?holes"
    by (simp_all add: z)
  from k(1) have "all_rings (arrange_rings sl rings) = mset ?ex + (mset (concat assigned) + mset promoted)"
    unfolding arrange_rings_def Let_def f by (simp add: all_rings_zip all_rings_alone del: mset_filter)
  also have "\<dots> = mset rings" unfolding k(2) using multiset_partition [of "mset rings" is_hole] by simp
  finally show ?thesis .
qed

section \<open>Records in order\<close>

lemma decode_from_step:
  assumes "decode_from sl raw offset fs = Inr gs" "offset < length raw"
  obtains off rings where "offset + 52 \<le> off" "off \<le> length raw"
    "decode_record_rings raw (offset + 8) (int off - int (offset + 8)) (int (Suc (length fs))) = Inr rings"
    "decode_from sl raw off (fs @ [build_feature sl (int (Suc (length fs))) rings]) = Inr gs"
proof -
  define n where "n = be_i32 raw offset"
  define len where "len = be_i32 raw (offset + 4) * 2"
  note d = assms(1) [unfolded decode_from.simps [of sl raw offset fs]]
  have step: "n = int (Suc (length fs))" "int (offset + 8) + len \<le> int (length raw)"
    using d assms(2) by (auto simp: Let_def n_def len_def split: if_splits)
  obtain rings where rings: "decode_record_rings raw (offset + 8) len n = Inr rings"
    and rest: "decode_from sl raw (nat (int (offset + 8) + len)) (fs @ [build_feature sl n rings]) = Inr gs"
    using d assms(2) by (auto simp: Let_def n_def len_def split: sum.splits if_splits)
  have len: "44 \<le> len" using decoded_length [OF rings] .
  define off where "off = nat (int (offset + 8) + len)"
  have off: "offset + 52 \<le> off" "off \<le> length raw" "len = int off - int (offset + 8)" using len step(2) by (simp_all add: off_def)
  show ?thesis
    using that [of off rings] off rings rest step(1) by (simp flip: off_def)
qed

lemma decode_from_done: "decode_from sl raw offset fs = Inr gs \<Longrightarrow> \<not> offset < length raw \<Longrightarrow> gs = fs"
  by (simp add: decode_from.simps [of sl raw offset fs])

lemma decoded_numbers:
  assumes "decode_from sl raw offset fs = Inr gs"
    and "map sg_number fs = map int [1..<Suc (length fs)]"
  shows "map sg_number gs = map int [1..<Suc (length gs)] \<and> length fs \<le> length gs
    \<and> 52 * (length gs - length fs) \<le> length raw - offset"
  using assms
proof (induction "length raw - offset" arbitrary: offset fs rule: less_induct)
  case less
  show ?case
  proof (cases "offset < length raw")
    case False
    with less.prems show ?thesis using decode_from_done by fastforce
  next
    case True
    obtain off rings where s: "offset + 52 \<le> off" "off \<le> length raw"
      "decode_from sl raw off (fs @ [build_feature sl (int (Suc (length fs))) rings]) = Inr gs"
      using decode_from_step [OF less.prems(1) True] by metis
    define fs' where "fs' = fs @ [build_feature sl (int (Suc (length fs))) rings]"
    have l: "length fs' = Suc (length fs)" by (simp add: fs'_def)
    have "map sg_number fs' = map int [1..<Suc (length fs')]"
      using less.prems(2) by (simp add: fs'_def build_feature_def Let_def)
    moreover have "length raw - off < length raw - offset" using s True by simp
    ultimately have "map sg_number gs = map int [1..<Suc (length gs)] \<and> length fs' \<le> length gs
        \<and> 52 * (length gs - length fs') \<le> length raw - off"
      using less.hyps [of off fs'] s(3) by (simp add: fs'_def)
    with l s True show ?thesis by auto
  qed
qed

section \<open>A file written and read back\<close>

text \<open>
  A polygon file as the format lays it out. A point is the two bit patterns of its coordinates, so
  nothing depends on how a writer rounds.
\<close>

type_synonym bit_ring = "(nat \<times> nat) list"

definition be4 :: "nat \<Rightarrow> nat list" where "be4 n = rev (le_bytes 4 n)"

fun ring_starts :: "nat \<Rightarrow> 'a list list \<Rightarrow> nat list" where
  "ring_starts k [] = []"
| "ring_starts k (r # rs) = k # ring_starts (k + length r) rs"

definition write_point :: "nat \<times> nat \<Rightarrow> nat list" where
  "write_point p = le_bytes 8 (fst p) @ le_bytes 8 (snd p)"

definition record_body :: "bit_ring list \<Rightarrow> nat list" where
  "record_body rs =
     le_bytes 4 5 @ replicate 32 0 @ le_bytes 4 (length rs) @ le_bytes 4 (length (concat rs))
     @ concat (map (le_bytes 4) (ring_starts 0 rs)) @ concat (map write_point (concat rs))"

definition write_record :: "nat \<Rightarrow> bit_ring list \<Rightarrow> nat list" where
  "write_record n rs = be4 n @ be4 (length (record_body rs) div 2) @ record_body rs"

definition write_records :: "nat \<Rightarrow> bit_ring list list \<Rightarrow> nat list" where
  "write_records n recs = concat (map (\<lambda>(n, rs). write_record n rs) (zip [n..<n + length recs] recs))"

definition decode_point :: "nat \<times> nat \<Rightarrow> point" where
  "decode_point p = (double_of_bits (fst p), double_of_bits (snd p))"

definition bit_ring_ok :: "bit_ring \<Rightarrow> bool" where
  "bit_ring_ok r \<longleftrightarrow> 4 \<le> length r \<and> list_all (\<lambda>(x, y). x < 2 ^ 64 \<and> y < 2 ^ 64) r
     \<and> point_eq (decode_point (hd r)) (decode_point (last r))"

definition record_ok :: "bit_ring list \<Rightarrow> bool" where
  "record_ok rs \<longleftrightarrow> rs \<noteq> [] \<and> list_all bit_ring_ok rs \<and> length (record_body rs) < 2 ^ 31"

lemma length_ring_starts [simp]: "length (ring_starts k rs) = length rs"
  by (induction rs arbitrary: k) auto

lemma ring_starts_bound: "s \<in> set (ring_starts k rs) \<Longrightarrow> s \<le> k + length (concat rs)"
  by (induction rs arbitrary: k) fastforce+

lemma length_write_point [simp]: "length (write_point p) = 16"
  by (simp add: write_point_def)

lemma length_concat_same: "\<forall>x \<in> set xs. length x = w \<Longrightarrow> length (concat xs) = w * length xs"
  by (induction xs) auto

lemma length_record_body: "length (record_body rs) = 44 + 4 * length rs + 16 * length (concat rs)"
  by (simp add: record_body_def length_concat_same [of _ 4] length_concat_same [of _ 16])

lemma le_i32_back:
  assumes "segment pos 4 raw = le_bytes 4 n" "n < 2 ^ 31"
  shows "le_i32 raw pos = int n"
proof -
  have "le_nat (le_bytes 4 n) = n" using assms(2) by (simp add: le_nat_le_bytes)
  then show ?thesis using assms sint_word_of_nat_small [of n] by (simp add: le_i32_def)
qed

lemma be_i32_back:
  assumes "segment pos 4 raw = be4 n" "n < 2 ^ 31"
  shows "be_i32 raw pos = int n"
proof -
  have "le_nat (le_bytes 4 n) = n" using assms(2) by (simp add: le_nat_le_bytes)
  then show ?thesis using assms sint_word_of_nat_small [of n] by (simp add: be_i32_def be4_def)
qed

lemma le_double_back: "segment pos 8 raw = le_bytes 8 n \<Longrightarrow> n < 2 ^ 64 \<Longrightarrow> le_double raw pos = double_of_bits n"
  by (simp add: le_double_def le_nat_le_bytes)

lemma rings_back:
  assumes "list_all (\<lambda>r. r \<noteq> []) rs" "length pre = k"
  shows "traverse (\<lambda>(a, b). f (segment (nat a) (nat (b - a)) (pre @ concat rs)))
      (zip (map int (ring_starts k rs) @ [int (k + length (concat rs))])
        (tl (map int (ring_starts k rs) @ [int (k + length (concat rs))]))) = traverse f rs
    \<and> \<not> list_ex (\<lambda>(a, b). a \<ge> b) (zip (map int (ring_starts k rs) @ [int (k + length (concat rs))])
        (tl (map int (ring_starts k rs) @ [int (k + length (concat rs))])))"
  using assms
proof (induction rs arbitrary: pre k)
  case (Cons r rs)
  let ?b = "map int (ring_starts (k + length r) rs) @ [int (k + length r + length (concat rs))]"
  obtain b bs where b: "?b = b # bs" "b = int (k + length r)" by (cases rs) auto
  have seg: "segment k (length r) (pre @ r @ concat rs) = r"
    by (rule segment_append_at) (simp_all add: Cons.prems)
  note IH = Cons.IH [of "pre @ r" "k + length r"]
  from Cons.prems have "r \<noteq> []" by simp
  then show ?case
    using IH Cons.prems seg b by (simp add: algebra_simps nat_diff_distrib flip: b(1))
qed simp

lemma decode_record_back:
  assumes raw: "raw = pre @ record_body rs @ post" and ok: "record_ok rs"
  shows "decode_record_rings raw (length pre) (int (length (record_body rs))) n = Inr (map (map decode_point) rs)"
proof -
  let ?p = "length rs" and ?q = "length (concat rs)" and ?start = "length pre"
  have len: "44 + 4 * ?p + 16 * ?q < 2 ^ 31" and ne: "rs \<noteq> []" and rings: "list_all bit_ring_ok rs"
    using ok by (auto simp: record_ok_def length_record_body)
  have rne: "list_all (\<lambda>r. r \<noteq> []) rs" using rings by (auto simp: list_all_iff bit_ring_ok_def)
  have pq: "?p \<le> ?q"
    using rne by (induction rs) (auto simp: Suc_le_eq neq_Nil_conv)
  define offs where "offs = concat (map (le_bytes 4) (ring_starts 0 rs))"
  define ptsb where "ptsb = concat (map write_point (concat rs))"
  have offs: "length offs = 4 * ?p" by (simp add: offs_def length_concat_same [of _ 4])
  have body: "record_body rs = le_bytes 4 5 @ replicate 32 0 @ le_bytes 4 ?p @ le_bytes 4 ?q @ offs @ ptsb"
    by (simp add: record_body_def offs_def ptsb_def)
  have t: "le_i32 raw ?start = 5"
    using le_i32_back [of ?start raw 5] by (simp add: raw body segment_append_at)
  have p: "le_i32 raw (?start + 36) = int ?p"
    using len segment_append_at [of "pre @ le_bytes 4 5 @ replicate 32 0" "?start + 36" "le_bytes 4 ?p" 4]
    by (intro le_i32_back) (simp_all add: raw body)
  have q: "le_i32 raw (?start + 40) = int ?q"
    using len segment_append_at [of "pre @ le_bytes 4 5 @ replicate 32 0 @ le_bytes 4 ?p" "?start + 40" "le_bytes 4 ?q" 4]
    by (intro le_i32_back) (simp_all add: raw body)
  define front where "front = pre @ le_bytes 4 5 @ replicate 32 0 @ le_bytes 4 ?p @ le_bytes 4 ?q"
  have front: "length front = ?start + 44" by (simp add: front_def)
  have raw1: "raw = front @ offs @ ptsb @ post" by (simp add: raw body front_def)
  have offsets: "map (\<lambda>i. le_i32 raw (?start + 44 + 4 * i)) [0..<?p] = map int (ring_starts 0 rs)"
  proof (rule nth_equalityI)
    fix i assume "i < length (map (\<lambda>i. le_i32 raw (?start + 44 + 4 * i)) [0..<?p])"
    then have i: "i < ?p" by simp
    have "segment (length front + i * 4) 4 raw = map (le_bytes 4) (ring_starts 0 rs) ! i"
      unfolding raw1 offs_def by (rule segment_concat) (use i in auto)
    moreover have "ring_starts 0 rs ! i < 2 ^ 31"
      using ring_starts_bound [of "ring_starts 0 rs ! i" 0 rs] i len by simp
    ultimately have "le_i32 raw (?start + 44 + 4 * i) = int (ring_starts 0 rs ! i)"
      using i by (intro le_i32_back) (simp_all add: front mult.commute)
    with i show "map (\<lambda>i. le_i32 raw (?start + 44 + 4 * i)) [0..<?p] ! i = map int (ring_starts 0 rs) ! i" by simp
  qed simp
  define pts where "pts = map decode_point (concat rs)"
  have points: "map (\<lambda>i. (le_double raw (?start + 44 + 4 * ?p + 16 * i), le_double raw (?start + 44 + 4 * ?p + 16 * i + 8))) [0..<?q] = pts"
  proof (rule nth_equalityI)
    fix i assume "i < length (map (\<lambda>i. (le_double raw (?start + 44 + 4 * ?p + 16 * i), le_double raw (?start + 44 + 4 * ?p + 16 * i + 8))) [0..<?q])"
    then have i: "i < ?q" by simp
    let ?pt = "concat rs ! i" and ?at = "?start + 44 + 4 * ?p + 16 * i"
    have mem: "?pt \<in> set (concat rs)" using i by (rule nth_mem)
    have "segment (length (front @ offs) + i * 16) 16 ((front @ offs) @ ptsb @ post) = map write_point (concat rs) ! i"
      unfolding ptsb_def by (rule segment_concat) (use i in auto)
    then have w: "segment ?at 16 raw = write_point ?pt"
      using i by (simp add: raw1 front offs mult.commute)
    have "segment ?at 8 raw = segment 0 8 (write_point ?pt)" "segment (?at + 8) 8 raw = segment 8 8 (write_point ?pt)"
      using segment_segment [of 0 8 16 ?at raw] segment_segment [of 8 8 16 ?at raw] w by simp_all
    then have "segment ?at 8 raw = le_bytes 8 (fst ?pt)" "segment (?at + 8) 8 raw = le_bytes 8 (snd ?pt)"
      by (simp_all add: write_point_def segment_def)
    moreover have "fst ?pt < 2 ^ 64" "snd ?pt < 2 ^ 64"
      using mem rings by (fastforce simp: list_all_iff bit_ring_ok_def)+
    ultimately show "map (\<lambda>i. (le_double raw (?start + 44 + 4 * ?p + 16 * i), le_double raw (?start + 44 + 4 * ?p + 16 * i + 8))) [0..<?q] ! i = pts ! i"
      using i by (simp add: pts_def decode_point_def le_double_back)
  qed (simp add: pts_def)
  define drs where "drs = map (map decode_point) rs"
  have pts: "pts = concat drs" "ring_starts 0 rs = ring_starts 0 drs" "?q = length (concat drs)"
  proof -
    show "pts = concat drs" by (simp add: pts_def drs_def map_concat)
    have "ring_starts k rs = ring_starts k (map (map decode_point) rs)" for k by (induction rs arbitrary: k) auto
    then show "ring_starts 0 rs = ring_starts 0 drs" by (simp add: drs_def)
    show "?q = length (concat drs)" by (simp add: drs_def length_concat o_def)
  qed
  have "list_all (\<lambda>r. r \<noteq> []) drs" using rne by (auto simp: list_all_iff drs_def)
  note rb = rings_back [OF this, of "[]" 0 "check_ring n", simplified]
  have checked: "traverse (check_ring n) drs = Inr drs"
  proof -
    have "check_ring n (map decode_point r) = Inr (map decode_point r)" if "r \<in> set rs" for r
    proof -
      from that rings have "bit_ring_ok r" by (simp add: list_all_iff)
      moreover from this have "r \<noteq> []" by (auto simp: bit_ring_ok_def)
      ultimately show ?thesis by (simp add: bit_ring_ok_def check_ring_def hd_map last_map)
    qed
    then show ?thesis unfolding traverse_Inr list_all2_same by (simp add: list_all_iff drs_def)
  qed
  have hd0: "hd (map int (ring_starts 0 rs)) = 0" using ne by (cases rs) auto
  have "decode_record_rings raw ?start (int (length (record_body rs))) n
      = traverse (\<lambda>(a, b). check_ring n (segment (nat a) (nat (b - a)) pts))
          (zip (map int (ring_starts 0 rs) @ [int ?q]) (tl (map int (ring_starts 0 rs) @ [int ?q])))"
    unfolding decode_record_rings_def t p q Let_def nat_int offsets points
    using ne pq rb hd0 by (simp add: length_record_body null_shape_type_def polygon_shape_type_def pts Suc_le_eq)
  also have "\<dots> = Inr drs" using rb checked by (simp add: pts)
  finally show ?thesis by (simp add: drs_def)
qed

lemma decode_from_back:
  assumes "list_all record_ok recs" "length fs + length recs < 2 ^ 31"
  shows "decode_from sl (pre @ write_records (Suc (length fs)) recs) (length pre) fs
    = Inr (fs @ map (\<lambda>(n, rs). build_feature sl (int n) (map (map decode_point) rs))
             (zip [Suc (length fs)..<Suc (length fs) + length recs] recs))"
  using assms
proof (induction recs arbitrary: pre fs)
  case Nil
  then show ?case by (simp add: decode_from.simps write_records_def)
next
  case (Cons rs recs)
  let ?n = "Suc (length fs)"
  define body where "body = record_body rs"
  define rest where "rest = write_records (Suc ?n) recs"
  define feature where "feature = build_feature sl (int ?n) (map (map decode_point) rs)"
  have cons: "[?n..<?n + length (rs # recs)] = ?n # [Suc ?n..<Suc ?n + length recs]"
    by (simp add: upt_rec)
  have raw: "pre @ write_records ?n (rs # recs) = pre @ be4 ?n @ be4 (length body div 2) @ body @ rest"
    unfolding write_records_def cons
    by (simp add: write_record_def [of ?n rs] body_def rest_def write_records_def del: upt_Suc)
  define raw where "raw = pre @ be4 ?n @ be4 (length body div 2) @ body @ rest"
  have lb: "length body < 2 ^ 31" "44 \<le> length body" "even (length body)"
    using Cons.prems(1) by (simp_all add: record_ok_def body_def length_record_body)
  have b4: "length (be4 k) = 4" for k by (simp add: be4_def)
  have n: "be_i32 raw (length pre) = int ?n"
    using Cons.prems(2) by (intro be_i32_back) (simp_all add: raw_def segment_append_at b4)
  have w: "be_i32 raw (length pre + 4) = int (length body div 2)"
    using lb segment_append_at [of "pre @ be4 ?n" "length pre + 4" "be4 (length body div 2)" 4]
    by (intro be_i32_back) (simp_all add: raw_def b4)
  have w2: "int (length body div 2) * 2 = int (length body)" using lb(3) by (metis dvd_div_mult_self of_nat_mult of_nat_numeral)
  have rings: "decode_record_rings raw (length pre + 8) (int (length body)) (int ?n) = Inr (map (map decode_point) rs)"
    using decode_record_back [of raw "pre @ be4 ?n @ be4 (length body div 2)" rs rest "int ?n"] Cons.prems(1)
    by (simp add: raw_def body_def b4)
  have lraw: "length raw = length pre + 8 + length body + length rest" by (simp add: raw_def b4)
  have "decode_from sl raw (length pre) fs = decode_from sl raw (length pre + 8 + length body) (fs @ [feature])"
    using lb rings
    by (subst decode_from.simps) (simp add: Let_def n w w2 lraw feature_def nat_add_distrib nat_int_add)
  also have "\<dots> = Inr ((fs @ [feature]) @ map (\<lambda>(n, rs). build_feature sl (int n) (map (map decode_point) rs))
      (zip [Suc ?n..<Suc ?n + length recs] recs))"
    using Cons.IH [of "fs @ [feature]" "pre @ be4 ?n @ be4 (length body div 2) @ body"] Cons.prems
    by (simp add: raw_def rest_def b4 add.assoc del: upt_Suc)
  finally show ?case unfolding raw cons raw_def [symmetric] by (simp add: feature_def)
qed

lemma decode_records_back:
  assumes "length header = 100" "list_all record_ok recs" "length recs < 2 ^ 31"
  shows "decode_polygon_records sl (header @ write_records 1 recs)
    = Inr (map (\<lambda>(n, rs). build_feature sl (int n) (map (map decode_point) rs)) (zip [1..<Suc (length recs)] recs))"
  using decode_from_back [of recs "[]" sl header] assms by (simp add: decode_polygon_records_def)

end
