(* ===== verification/Evidence.thy ===== *)
theory Evidence
  imports ShapeRecords
begin

text \<open>
  \<open>forestry_ingestion/snapshot_evidence.py\<close>: the quality flags of each feature of one layer, and
  what each of them says of the layer.
\<close>

definition flag_invalid_geometry :: pystr where "flag_invalid_geometry = lit ''invalid_geometry''"

definition flag_duplicate_geometry :: pystr where "flag_duplicate_geometry = lit ''duplicate_geometry''"

definition flag_blank_rodal :: pystr where "flag_blank_rodal = lit ''blank_rodal''"

definition flag_duplicate_key :: pystr where "flag_duplicate_key = lit ''duplicate_predio_rodal_key''"

definition flag_name_anomaly :: pystr where "flag_name_anomaly = lit ''predio_code_name_anomaly''"

definition flag_truncated_code :: pystr where "flag_truncated_code = lit ''truncated_use_code_2026''"

definition predio_rodal_key :: "source_row \<Rightarrow> (pystr \<times> pystr) option" where
  "predio_rodal_key r = (case (row_cod_predial r, row_n_rodal r) of (Some c, Some n) \<Rightarrow> Some (c, n) | _ \<Rightarrow> None)"

definition code_name_pair :: "source_row \<Rightarrow> (pystr \<times> pystr) option" where
  "code_name_pair r = (case (row_cod_predial r, row_nom_predio r) of (Some c, Some n) \<Rightarrow> Some (c, n) | _ \<Rightarrow> None)"

definition raise_count :: "(pystr, nat) pydict \<Rightarrow> pystr \<Rightarrow> nat \<Rightarrow> (pystr, nat) pydict" where
  "raise_count d k n = AList.update k (max (dict_count d k) n) d"

definition max_counts :: "((pystr \<times> pystr) \<times> nat) list \<Rightarrow> (pystr, nat) pydict \<times> (pystr, nat) pydict" where
  "max_counts pairs =
     foldl (\<lambda>(codes, names) ((code, name), n). (raise_count codes code n, raise_count names name n)) ([], []) pairs"

definition feature_flags :: "(nat list, nat) pydict \<Rightarrow> (pystr \<times> pystr, nat) pydict \<Rightarrow> (pystr \<times> pystr, nat) pydict
    \<Rightarrow> (pystr, nat) pydict \<Rightarrow> (pystr, nat) pydict \<Rightarrow> source_row \<Rightarrow> source_geometry \<Rightarrow> pystr list" where
  "feature_flags wkbs keys pairs codes names r g =
     (if sg_valid g then [] else [flag_invalid_geometry])
     @ (if dict_count wkbs (sg_wkb g) > 1 then [flag_duplicate_geometry] else [])
     @ (if row_n_rodal r = None then [flag_blank_rodal]
        else case predio_rodal_key r of
               Some k \<Rightarrow> (if dict_count keys k > 1 then [flag_duplicate_key] else []) | None \<Rightarrow> [])
     @ (case code_name_pair r of
          Some (code, name) \<Rightarrow>
            (let n = dict_count pairs (code, name)
             in if n < dict_count codes code \<or> n < dict_count names name then [flag_name_anomaly] else [])
        | None \<Rightarrow> [])
     @ (case row_value r (lit ''cod_uso_2026'') of
          JStr s \<Rightarrow> (if ends_with (lit ''*'') s then [flag_truncated_code] else []) | _ \<Rightarrow> [])"

definition compute_quality_flags :: "source_row list \<Rightarrow> source_geometry list \<Rightarrow> shape_error + (int, pystr list) pydict" where
  "compute_quality_flags rows geoms =
     (if map (\<lambda>r. int (sr_number r)) rows \<noteq> map sg_number geoms then Inl Rows_not_aligned
      else let wkbs = count_into [] (map sg_wkb geoms);
               keys = count_into [] (List.map_filter predio_rodal_key rows);
               pairs = count_into [] (List.map_filter code_name_pair rows);
               (codes, names) = max_counts pairs
           in Inr (foldl (\<lambda>d (r, g). AList.update (int (sr_number r)) (sort (feature_flags wkbs keys pairs codes names r g)) d)
                [] (zip rows geoms)))"

section \<open>What the flags say\<close>

lemma dict_count_update: "dict_count (AList.update k v d) k' = (if k' = k then v else dict_count d k')"
  by (simp add: dict_count_def update_conv')

lemma dict_count_Nil [simp]: "dict_count [] k = 0"
  by (simp add: dict_count_def)

lemma raise_count_less: "n < dict_count (raise_count d k m) k' \<longleftrightarrow> n < dict_count d k' \<or> k' = k \<and> n < m"
  by (auto simp: raise_count_def dict_count_update)

lemma max_counts_less:
  "n < dict_count (fst (max_counts pairs)) code \<longleftrightarrow> (\<exists>name m. ((code, name), m) \<in> set pairs \<and> n < m)"
  "n < dict_count (snd (max_counts pairs)) name \<longleftrightarrow> (\<exists>code m. ((code, name), m) \<in> set pairs \<and> n < m)"
proof -
  define f where "f = (\<lambda>(codes, names) ((code :: pystr, name :: pystr), n). (raise_count codes code n, raise_count names name n))"
  have "n < dict_count (fst (foldl f st pairs)) code \<longleftrightarrow> n < dict_count (fst st) code \<or> (\<exists>name m. ((code, name), m) \<in> set pairs \<and> n < m)"
    "n < dict_count (snd (foldl f st pairs)) name \<longleftrightarrow> n < dict_count (snd st) name \<or> (\<exists>code m. ((code, name), m) \<in> set pairs \<and> n < m)" for st
    by (induction pairs arbitrary: st) (auto simp: f_def raise_count_less split: prod.splits)
  from this [of "([], [])"]
  show "n < dict_count (fst (max_counts pairs)) code \<longleftrightarrow> (\<exists>name m. ((code, name), m) \<in> set pairs \<and> n < m)"
    "n < dict_count (snd (max_counts pairs)) name \<longleftrightarrow> (\<exists>code m. ((code, name), m) \<in> set pairs \<and> n < m)"
    by (simp_all add: max_counts_def f_def)
qed

lemma count_entries: "((k, n) \<in> set (count_into [] ks)) \<longleftrightarrow> k \<in> set ks \<and> n = count_list ks k"
proof -
  have "distinct (map fst (count_into [] ks))" by simp
  from dict_count_entry [OF this] have val: "m = count_list ks k" if "(k, m) \<in> set (count_into [] ks)" for m
    using that dict_count_into [of "[]" ks k] by simp
  have keys: "k \<in> fst ` set (count_into [] ks) \<longleftrightarrow> k \<in> set ks" by (simp add: set_keys_count_into)
  show ?thesis
  proof
    assume "(k, n) \<in> set (count_into [] ks)"
    then show "k \<in> set ks \<and> n = count_list ks k" using val keys by (simp add: image_iff) force
  next
    assume r: "k \<in> set ks \<and> n = count_list ks k"
    with keys obtain m where "(k, m) \<in> set (count_into [] ks)" by auto
    with val r show "(k, n) \<in> set (count_into [] ks)" by simp
  qed
qed

lemma count_list_map_filter: "count_list (List.map_filter f xs) k = length (filter (\<lambda>x. f x = Some k) xs)"
  by (induction xs) (auto simp: List.map_filter_simps split: option.splits)

lemma count_list_map: "count_list (map f xs) k = length (filter (\<lambda>x. f x = k) xs)"
  by (induction xs) auto

lemma more_than_one:
  assumes "i < length xs" "P (xs ! i)"
  shows "1 < length (filter P xs) \<longleftrightarrow> (\<exists>j < length xs. j \<noteq> i \<and> P (xs ! j))"
proof -
  define A where "A = {j. j < length xs \<and> P (xs ! j)}"
  have A: "finite A" "i \<in> A" using assms by (simp_all add: A_def)
  have "1 < card A \<longleftrightarrow> A \<noteq> {i}"
  proof
    assume "A \<noteq> {i}"
    with A(2) have "{i} \<subset> A" by auto
    from psubset_card_mono [OF A(1) this] show "1 < card A" by simp
  next
    assume c: "1 < card A"
    show "A \<noteq> {i}"
    proof
      assume "A = {i}"
      then have "card A = card {i}" by (rule arg_cong)
      with c show False by simp
    qed
  qed
  also have "\<dots> \<longleftrightarrow> (\<exists>j < length xs. j \<noteq> i \<and> P (xs ! j))" using A(2) by (auto simp: A_def)
  finally show ?thesis by (simp add: length_filter_conv_card A_def)
qed

definition pair_count :: "source_row list \<Rightarrow> pystr \<times> pystr \<Rightarrow> nat" where
  "pair_count rows p = length (filter (\<lambda>r. code_name_pair r = Some p) rows)"

lemma length_lit: "length (lit s) = length s"
  by (simp add: lit_def)

lemma flags_distinct:
  "distinct [flag_invalid_geometry, flag_duplicate_geometry, flag_blank_rodal, flag_duplicate_key, flag_name_anomaly, flag_truncated_code]"
  (is "distinct ?fs")
proof -
  have "distinct (map length ?fs)"
    unfolding list.map flag_invalid_geometry_def flag_duplicate_geometry_def flag_blank_rodal_def flag_duplicate_key_def
      flag_name_anomaly_def flag_truncated_code_def length_lit by simp
  then show ?thesis by (simp only: distinct_map)
qed

lemma set_feature_flags:
  "set (feature_flags wkbs keys pairs codes names r g) =
     {f. f = flag_invalid_geometry \<and> \<not> sg_valid g} \<union> {f. f = flag_duplicate_geometry \<and> 1 < dict_count wkbs (sg_wkb g)}
     \<union> {f. f = flag_blank_rodal \<and> row_n_rodal r = None}
     \<union> {f. f = flag_duplicate_key \<and> (\<exists>k. predio_rodal_key r = Some k \<and> 1 < dict_count keys k)}
     \<union> {f. f = flag_name_anomaly \<and> (\<exists>code name. code_name_pair r = Some (code, name)
           \<and> (dict_count pairs (code, name) < dict_count codes code \<or> dict_count pairs (code, name) < dict_count names name))}
     \<union> {f. f = flag_truncated_code \<and> (\<exists>s. row_value r (lit ''cod_uso_2026'') = JStr s \<and> ends_with (lit ''*'') s)}"
  unfolding feature_flags_def Let_def
  by (auto simp: predio_rodal_key_def split: option.splits json.splits if_splits)

lemma flags_of_entry:
  "map_of (foldl (\<lambda>d (r, g). AList.update (k r) (v r g) d) d ps) x
     = (case find (\<lambda>(r, g). k r = x) (rev ps) of Some (r, g) \<Rightarrow> Some (v r g) | None \<Rightarrow> map_of d x)"
proof (induction ps rule: rev_induct)
  case (snoc p ps)
  obtain r g where p: "p = (r, g)" by (metis surj_pair)
  show ?case
  proof (cases "k r = x")
    case True
    with p show ?thesis by (simp add: update_conv')
  next
    case False
    with snoc p show ?thesis by (simp add: update_conv')
  qed
qed simp

lemma find_distinct:
  assumes "distinct (map h ps)" "p \<in> set ps"
  shows "find (\<lambda>q. h q = h p) (rev ps) = Some p"
proof -
  have "find (\<lambda>q. h q = h p) ps = Some p" if "distinct (map h ps)" "p \<in> set ps" for ps
    using that
  proof (induction ps)
    case (Cons q ps)
    then show ?case by (cases "q = p") force+
  qed simp
  moreover have "distinct (map h (rev ps))" using assms(1) by (simp add: rev_map [symmetric])
  ultimately show ?thesis using assms(2) by simp
qed

text \<open>
  The quality flags say what they name, relative to the layer alone: a feature is flagged for a
  duplicate geometry exactly when another feature of the layer has the same bytes, for a duplicate
  key exactly when another has the same estate code and stand, for an anomaly exactly when some pair
  with its code or its name is more frequent than its own; blank stands, invalid geometries and
  truncated use codes are flagged each for themselves, and no other flag is ever given.
\<close>

theorem quality_flags_exact:
  assumes "compute_quality_flags rows geoms = Inr flags" "distinct (map sr_number rows)" "i < length rows"
  defines "r \<equiv> rows ! i" and "g \<equiv> geoms ! i"
  shows "\<exists>fl. map_of flags (int (sr_number r)) = Some fl \<and> sorted fl \<and>
    set fl = {f. f = flag_invalid_geometry \<and> \<not> sg_valid g}
      \<union> {f. f = flag_duplicate_geometry \<and> (\<exists>j < length rows. j \<noteq> i \<and> sg_wkb (geoms ! j) = sg_wkb g)}
      \<union> {f. f = flag_blank_rodal \<and> row_n_rodal r = None}
      \<union> {f. f = flag_duplicate_key \<and> (\<exists>k. predio_rodal_key r = Some k \<and> (\<exists>j < length rows. j \<noteq> i \<and> predio_rodal_key (rows ! j) = Some k))}
      \<union> {f. f = flag_name_anomaly \<and> (\<exists>code name. code_name_pair r = Some (code, name)
           \<and> (\<exists>q. (fst q = code \<or> snd q = name) \<and> pair_count rows (code, name) < pair_count rows q))}
      \<union> {f. f = flag_truncated_code \<and> (\<exists>s. row_value r (lit ''cod_uso_2026'') = JStr s \<and> ends_with (lit ''*'') s)}"
proof -
  define wkbs where "wkbs = count_into [] (map sg_wkb geoms)"
  define keys where "keys = count_into [] (List.map_filter predio_rodal_key rows)"
  define pairs where "pairs = count_into [] (List.map_filter code_name_pair rows)"
  define codes where "codes = fst (max_counts pairs)"
  define names where "names = snd (max_counts pairs)"
  have al: "map (\<lambda>r. int (sr_number r)) rows = map sg_number geoms"
    and flags: "flags = foldl (\<lambda>d (r, g). AList.update (int (sr_number r)) (sort (feature_flags wkbs keys pairs codes names r g)) d) [] (zip rows geoms)"
    using assms(1) by (auto simp: compute_quality_flags_def Let_def wkbs_def keys_def pairs_def codes_def names_def split: if_splits prod.splits)
  have len: "length geoms = length rows" using al by (metis length_map)
  have mem: "(r, g) \<in> set (zip rows geoms)" using assms(3) len by (auto simp: r_def g_def set_zip)
  have "map (\<lambda>(r, g). int (sr_number r)) (zip rows geoms) = map int (map sr_number (map fst (zip rows geoms)))"
    by (simp add: case_prod_beta')
  then have d: "distinct (map (\<lambda>(r, g). int (sr_number r)) (zip rows geoms))"
    using assms(2) len by (simp add: distinct_map [of int] inj_on_def del: map_map)
  have fl: "map_of flags (int (sr_number r)) = Some (sort (feature_flags wkbs keys pairs codes names r g))"
    unfolding flags flags_of_entry using find_distinct [OF d mem] by (simp add: case_prod_beta')
  have w: "1 < dict_count wkbs (sg_wkb g) \<longleftrightarrow> (\<exists>j < length rows. j \<noteq> i \<and> sg_wkb (geoms ! j) = sg_wkb g)"
    using more_than_one [of i geoms "\<lambda>x. sg_wkb x = sg_wkb g"] assms(3) len
    by (simp add: wkbs_def dict_count_into count_list_map g_def)
  have k: "1 < dict_count keys x \<longleftrightarrow> (\<exists>j < length rows. j \<noteq> i \<and> predio_rodal_key (rows ! j) = Some x)"
    if "predio_rodal_key r = Some x" for x
    using more_than_one [of i rows "\<lambda>r. predio_rodal_key r = Some x"] assms(3) that
    by (simp add: keys_def dict_count_into count_list_map_filter r_def)
  have pc: "dict_count pairs p = pair_count rows p" for p
    by (simp add: pairs_def dict_count_into count_list_map_filter pair_count_def)
  have ent: "(p, m) \<in> set pairs \<and> n < m \<longleftrightarrow> m = pair_count rows p \<and> n < m" for p m n
  proof -
    have "p \<in> set (List.map_filter code_name_pair rows) \<longleftrightarrow> 0 < pair_count rows p"
      by (auto simp: pair_count_def List.map_filter_def image_iff filter_empty_conv) 
    then show ?thesis by (auto simp: pairs_def count_entries count_list_map_filter pair_count_def)
  qed
  have an: "(dict_count pairs (code, name) < dict_count codes code \<or> dict_count pairs (code, name) < dict_count names name)
      \<longleftrightarrow> (\<exists>q. (fst q = code \<or> snd q = name) \<and> pair_count rows (code, name) < pair_count rows q)" for code name
    unfolding codes_def names_def max_counts_less pc ent by auto
  have "set (feature_flags wkbs keys pairs codes names r g) = {f. f = flag_invalid_geometry \<and> \<not> sg_valid g}
      \<union> {f. f = flag_duplicate_geometry \<and> (\<exists>j < length rows. j \<noteq> i \<and> sg_wkb (geoms ! j) = sg_wkb g)}
      \<union> {f. f = flag_blank_rodal \<and> row_n_rodal r = None}
      \<union> {f. f = flag_duplicate_key \<and> (\<exists>k. predio_rodal_key r = Some k \<and> (\<exists>j < length rows. j \<noteq> i \<and> predio_rodal_key (rows ! j) = Some k))}
      \<union> {f. f = flag_name_anomaly \<and> (\<exists>code name. code_name_pair r = Some (code, name)
           \<and> (\<exists>q. (fst q = code \<or> snd q = name) \<and> pair_count rows (code, name) < pair_count rows q))}
      \<union> {f. f = flag_truncated_code \<and> (\<exists>s. row_value r (lit ''cod_uso_2026'') = JStr s \<and> ends_with (lit ''*'') s)}"
    unfolding set_feature_flags w an using k by (simp cong: conj_cong)
  then show ?thesis using fl by simp
qed

definition demo_row :: source_row where "demo_row = \<lparr>sr_number = 1, sr_values = []\<rparr>"

definition demo_geometry :: source_geometry where
  "demo_geometry = \<lparr>sg_number = 1, sg_wkb = [7], sg_valid = False, sg_reason = None, sg_rings = 1, sg_parts = 1, sg_area = Fin 0\<rparr>"

theorem quality_flags_exact_witness:
  "\<exists>flags fl. compute_quality_flags [demo_row] [demo_geometry] = Inr flags \<and> map_of flags 1 = Some fl
    \<and> flag_blank_rodal \<in> set fl \<and> flag_invalid_geometry \<in> set fl"
proof -
  have "\<exists>flags. compute_quality_flags [demo_row] [demo_geometry] = Inr flags"
    by (simp add: compute_quality_flags_def Let_def demo_row_def demo_geometry_def split: prod.splits)
  then obtain flags where f: "compute_quality_flags [demo_row] [demo_geometry] = Inr flags" ..
  have "row_n_rodal demo_row = None" by (simp add: demo_row_def row_n_rodal_def row_value_def json_text_def)
  with quality_flags_exact [OF f, of 0] f show ?thesis
    by (auto simp: demo_row_def demo_geometry_def)
qed


end
