(* ===== verification/ShapeClaims.thy ===== *)
theory ShapeClaims
  imports ShapeFacts RecordFacts Evidence
begin

text \<open>
  The properties of the shapefile readers: tables and polygon files read back what the format holds,
  no ring is lost, and what the reader does with a damaged table.
\<close>

section \<open>The attribute table\<close>

text \<open>
  C14. A table written in the layout of the contract is read back value by value: row \<open>n\<close> is the
  \<open>n\<close>-th record, text in any script comes back from its UTF-8 bytes, integers and floats as they
  were and blanks as no value, up to the width of each column and as many records as the count field
  can hold.
\<close>

theorem dbf_rows_read_back:
  assumes "\<forall>vs \<in> set rows. list_all2 (storable u ftext) dbf_fields vs" "length rows < 2 ^ 32"
  shows "read_dbf_rows u (write_dbf ftext rows) =
    Inr (map (\<lambda>(n, vs). \<lparr>sr_number = n, sr_values = zip (map snd dbf_fields) vs\<rparr>) (zip [1..<Suc (length rows)] rows))"
  using assms by (rule read_dbf_back)

definition demo_values :: "json list" where
  "demo_values = [JInt 7, JStr [209, 97], JNull, JFloat (Fin 1), JNull, JNull, JNull, JNull, JNull, JNull, JNull, JNull, JNull, JNull]"

lemma demo_storable: "list_all2 (storable latin_ucd (\<lambda>_. [49])) dbf_fields demo_values"
proof -
  have one: "float_of_text latin_ucd [49] = Some (Fin 1)"
    using float_of_int_str [of latin_ucd 1]
    by (simp add: int_str_def nat_digits.simps round_double_def rat_exp_def ilog2.simps pow2_def round_even_def)
  have "int_str 7 = [55]" by (simp add: int_str_def nat_digits.simps)
  then show ?thesis
    by (simp add: demo_values_def dbf_fields_def storable_def one scalar_def utf8_encode_def utf8_char_def strip_def strip_by_def is_space_def)
qed

theorem dbf_rows_read_back_witness:
  "\<exists>r. read_dbf_rows latin_ucd (write_dbf (\<lambda>_. [49]) [demo_values]) = Inr [r] \<and> row_objectid r = Some 7"
  using dbf_rows_read_back [of "[demo_values]" latin_ucd "\<lambda>_. [49]"] demo_storable
  by (simp add: row_objectid_def row_value_def dbf_fields_def demo_values_def)

section \<open>Damaged tables\<close>

lemma read_schema_cut:
  assumes "list_all descriptor_ok cols" "length pre + 32 * length cols + 1 < header"
  shows "read_schema (pre @ concat (map dbf_descriptor cols)) header (length pre) acc = Inl (Uncaught IndexError)"
  using assms
proof (induction cols arbitrary: pre acc)
  case Nil
  then show ?case by (simp add: read_schema.simps)
next
  case (Cons c cols)
  define d where "d = dbf_descriptor c"
  have c: "length d = 32" "dbf_column_of d = c" "d ! 0 \<noteq> 13"
    using Cons.prems(1) length_descriptor descriptor_back by (auto simp: d_def)
  have "segment (length pre) 32 (pre @ d @ post') = d" for post' by (rule segment_append_at) (simp_all add: c)
  moreover have "(pre @ d @ post') ! length pre \<noteq> 13" for post' using c by (simp add: nth_append)
  ultimately show ?case
    using Cons.IH [of "pre @ d" "acc @ [c]"] Cons.prems c
    by (subst read_schema.simps) (simp flip: d_def)
qed

text \<open>A table cut right after one of its first thirteen column descriptors.\<close>

lemma cut_table:
  assumes "k \<le> 14"
  shows "take (32 + 32 * k) (write_dbf ftext rows) =
    ([3, 126, 1, 1] @ le_bytes 4 (length rows) @ le_bytes 2 481 @ le_bytes 2 328 @ replicate 20 0)
      @ concat (map dbf_descriptor (take k expected_schema))"
proof -
  define head where "head = [3, 126, 1, 1] @ le_bytes 4 (length rows) @ le_bytes 2 481 @ le_bytes 2 328 @ replicate 20 (0::nat)"
  have lh: "length head = 32" by (simp add: head_def)
  have dl: "length (concat (map dbf_descriptor cols)) = 32 * length cols" if "list_all descriptor_ok cols" for cols
    using that by (induction cols) (simp_all add: length_descriptor)
  define a b where "a = take k expected_schema" and "b = drop k expected_schema"
  have ab: "expected_schema = a @ b" by (simp add: a_def b_def)
  have "length expected_schema = 14" by (simp add: expected_schema_def dbf_fields_def)
  with assms have la: "length a = k" by (simp add: a_def)
  have "list_all descriptor_ok a" using expected_schema_ok by (simp add: ab)
  note da = dl [OF this, unfolded la]
  have "write_dbf ftext rows = (head @ concat (map dbf_descriptor a)) @ concat (map dbf_descriptor b)
      @ 13 # concat (map (write_row ftext) rows) @ [26]"
    unfolding write_dbf_def ab by (simp add: head_def)
  moreover have "length (head @ concat (map dbf_descriptor a)) = 32 + 32 * k" using lh da by simp
  ultimately have "take (32 + 32 * k) (write_dbf ftext rows) = head @ concat (map dbf_descriptor a)" by (simp only: take_append) simp
  then show ?thesis unfolding head_def a_def .
qed

text \<open>
  A table that is cut off exactly behind a column descriptor, of which there are thirteen places,
  is not refused as damaged: the reader indexes past its bytes and raises an \<open>IndexError\<close>, which
  no caller turns into a refusal.
\<close>

theorem cut_table_raises:
  assumes "1 \<le> k" "k \<le> 13"
  shows "read_dbf_rows u (take (32 + 32 * k) (write_dbf ftext rows)) = Inl (Uncaught IndexError)"
proof -
  define head where "head = [3, 126, 1, 1] @ le_bytes 4 (length rows) @ le_bytes 2 481 @ le_bytes 2 328 @ replicate 20 (0::nat)"
  have lh: "length head = 32" by (simp add: head_def)
  define cols where "cols = take k expected_schema"
  have nc: "length expected_schema = 14" by (simp add: expected_schema_def dbf_fields_def)
  have cols: "list_all descriptor_ok cols" "length cols = k"
    using expected_schema_ok assms nc by (auto simp: cols_def list_all_iff dest: in_set_takeD)
  define raw where "raw = head @ concat (map dbf_descriptor cols)"
  have raw: "take (32 + 32 * k) (write_dbf ftext rows) = raw"
    using cut_table [of k ftext rows] assms by (simp add: raw_def head_def cols_def)
  have "length (concat (map dbf_descriptor cs)) = 32 * length cs" if "list_all descriptor_ok cs" for cs
    using that by (induction cs) (simp_all add: length_descriptor)
  then have len: "length raw = 32 + 32 * k" using cols lh by (simp add: raw_def)
  have "segment 8 2 raw = le_bytes 2 481"
    unfolding raw_def head_def
    using segment_append_at [of "[3, 126, 1, 1] @ le_bytes 4 (length rows)" 8 "le_bytes 2 481" 2] by simp
  then have header: "le_u16 raw 8 = 481" by (simp add: le_u16_def le_nat_le_bytes)
  have "read_schema raw 481 32 [] = Inl (Uncaught IndexError)"
    using read_schema_cut [OF cols(1), of head 481 "[]"] assms cols(2) lh by (simp add: raw_def)
  then show ?thesis unfolding raw read_dbf_rows_def using len assms by (simp add: header)
qed

theorem cut_table_raises_witness:
  "read_dbf_rows latin_ucd (take 64 (write_dbf (\<lambda>_. [49]) [demo_values])) = Inl (Uncaught IndexError)"
  using cut_table_raises [of 1 latin_ucd "\<lambda>_. [49]" "[demo_values]"] by simp

text \<open>
  The width of a record is taken from the file and never held against the widths of the columns: a
  record too short for a column reads as blank there.
\<close>

lemma short_record_blank:
  "length rec \<le> cursor \<Longrightarrow> read_values u rec cursor fs = Inr (map (\<lambda>f. (snd f, JNull)) fs)"
proof (induction fs arbitrary: cursor)
  case (Cons f fs)
  obtain name ty width decimals key where f: "f = ((name, ty, width, decimals), key)" by (metis surj_pair)
  have "segment cursor width rec = []" using Cons.prems by (simp add: segment_def)
  with Cons show ?case by (simp add: f parse_dbf_value_def)
qed simp

section \<open>The polygon records\<close>

text \<open>
  A polygon file written in the layout of the format is decoded record by record: the \<open>n\<close>-th
  record gives the multipolygon of exactly its rings, in order and bit for bit, whatever stands in the
  header and the bounding boxes.
\<close>

theorem shp_records_read_back:
  assumes "length header = 100" "list_all record_ok recs" "length recs < 2 ^ 31"
  shows "decode_polygon_records sl (header @ write_records 1 recs)
    = Inr (map (\<lambda>(n, rs). build_feature sl (int n) (map (map decode_point) rs)) (zip [1..<Suc (length recs)] recs))"
  using assms by (rule decode_records_back)

definition demo_shapely :: "ring list shapely" where
  "demo_shapely = \<lparr>sl_polygon = (\<lambda>r holes. r # holes), sl_multi = concat, sl_contains = (\<lambda>p q. Some (set q \<subseteq> set p)),
     sl_area = (\<lambda>p. Fin (of_nat (length p))), sl_valid = (\<lambda>p. p \<noteq> []), sl_reason = (\<lambda>p. lit ''empty''), sl_wkb = (\<lambda>p. [length p])\<rparr>"

definition demo_ring :: bit_ring where
  "demo_ring = [(0, 0), (4607182418800017408, 0), (0, 4607182418800017408), (0, 0)]"

lemma demo_record_ok: "record_ok [demo_ring]"
  by (simp add: record_ok_def length_record_body bit_ring_ok_def demo_ring_def decode_point_def double_of_bits_def point_eq_def)

theorem shp_records_read_back_witness:
  "decode_polygon_records demo_shapely (replicate 100 0 @ write_records 1 [[demo_ring]])
    = Inr [build_feature demo_shapely 1 [map decode_point demo_ring]]"
  using shp_records_read_back [of "replicate 100 0" "[[demo_ring]]" demo_shapely] demo_record_ok by simp

text \<open>
  Decoding ends, and what it returns is numbered 1, 2, 3 and so on in the order of the file, with
  at least 52 bytes of the file to each record, so that a file of a given size holds a bounded number.
\<close>

theorem decoded_in_order:
  assumes "decode_polygon_records sl raw = Inr gs"
  shows "map sg_number gs = map int [1..<Suc (length gs)] \<and> 52 * length gs + 100 \<le> length raw"
  using assms decoded_numbers [of sl raw 100 "[]" gs] by (auto simp: decode_polygon_records_def split: if_splits)

theorem decoded_in_order_witness:
  "\<exists>gs. decode_polygon_records demo_shapely (replicate 100 0 @ write_records 1 [[demo_ring]]) = Inr gs
    \<and> map sg_number gs = map int [1..<Suc (length gs)]"
proof -
  have d: "decode_polygon_records demo_shapely (replicate 100 0 @ write_records 1 [[demo_ring]])
      = Inr [build_feature demo_shapely 1 [map decode_point demo_ring]]"
    using decode_records_back [of "replicate 100 0" "[[demo_ring]]" demo_shapely] demo_record_ok by simp
  from decoded_in_order [OF d] d show ?thesis by blast
qed

text \<open>
  No ring of a record is dropped, doubled or changed: the exteriors and holes of the polygons that
  are stored are together exactly the rings of the record, each as often as it stands there, whatever
  Shapely answers, and no polygon but those of the exteriors ever carries a hole.
\<close>

theorem rings_kept:
  "all_rings (arrange_rings sl rings) = mset rings
    \<and> sg_rings (build_feature sl n rings) = size (all_rings (arrange_rings sl rings))
    \<and> sg_parts (build_feature sl n rings) = length (arrange_rings sl rings)
    \<and> {(r, hs) \<in> set (arrange_rings sl rings). hs \<noteq> [] \<and> is_hole r} = {}"
proof -
  have "\<not> is_hole r" if "(r, hs) \<in> set (arrange_rings sl rings)" "hs \<noteq> []" for r hs
    using that by (auto simp: arrange_rings_def Let_def split: prod.splits dest: set_zip_leftD)
  then show ?thesis by (auto simp: arrange_keeps_rings build_feature_def Let_def)
qed

text \<open>
  A hole goes to the smallest exterior that contains it: the one chosen is one of the exteriors,
  contains the hole, and no exterior that contains it has a smaller area; when none is chosen, no
  exterior both contains it and has a finite area. An exterior on which Shapely fails is passed over.
\<close>

theorem hole_in_smallest_shell:
  assumes "s \<in> set shells" "sl_contains sl s (sl_polygon sl hole []) = Some True"
  shows "case smallest_containing_shell sl shells hole of
      Some k \<Rightarrow> k < length shells \<and> sl_contains sl (shells ! k) (sl_polygon sl hole []) = Some True
        \<and> \<not> fl_less (sl_area sl s) (sl_area sl (shells ! k))
    | None \<Rightarrow> \<not> fl_less (sl_area sl s) PosInf"
proof -
  define best where "best = smallest_shell sl (sl_polygon sl hole []) 0 shells (None, PosInf)"
  have l: "\<not> fl_less (sl_area sl s) (snd best)"
    using smallest_shell_least [of sl "sl_polygon sl hole []" 0 shells "(None, PosInf)"] assms by (simp add: best_def)
  from smallest_shell_found [of sl "sl_polygon sl hole []" 0 shells "(None, PosInf)"]
  show ?thesis
  proof
    assume "smallest_shell sl (sl_polygon sl hole []) 0 shells (None, PosInf) = (None, PosInf)"
    with l show ?thesis by (simp add: smallest_containing_shell_def best_def)
  next
    assume "\<exists>j < length shells. smallest_shell sl (sl_polygon sl hole []) 0 shells (None, PosInf)
        = (Some (0 + j), sl_area sl (shells ! j)) \<and> sl_contains sl (shells ! j) (sl_polygon sl hole []) = Some True"
    with l show ?thesis by (auto simp: smallest_containing_shell_def best_def)
  qed
qed

theorem hole_in_smallest_shell_witness:
  "case smallest_containing_shell demo_shapely [[[]], [map decode_point demo_ring]] (map decode_point demo_ring) of
      Some k \<Rightarrow> k < 2 | None \<Rightarrow> True"
  using hole_in_smallest_shell [of "[map decode_point demo_ring]" "[[[]], [map decode_point demo_ring]]" demo_shapely
      "map decode_point demo_ring"]
  by (simp add: demo_shapely_def split: option.splits)

end
