(* ===== verification/UploadErrors.thy ===== *)
theory UploadErrors
  imports Shapefile
begin

text \<open>
  The texts the shapefile reader raises, and \<open>describe_contract_failure\<close> of
  \<open>app/forestry_uploads.py\<close>, which reads them back to tell the user what is wrong. The files of an
  upload are called \<open>family\<close> and a suffix. \<open>printable\<close> is \<open>str.isprintable\<close> beyond ASCII.
\<close>

section \<open>repr\<close>

definition hex_digit :: "nat \<Rightarrow> nat" where
  "hex_digit n = (if n < 10 then 48 + n else 87 + n)"

definition hex_text :: "nat \<Rightarrow> nat \<Rightarrow> pystr" where
  "hex_text width n = map (\<lambda>k. hex_digit (n div 16 ^ k mod 16)) (rev [0..<width])"

definition repr_char :: "(nat \<Rightarrow> bool) \<Rightarrow> nat \<Rightarrow> nat \<Rightarrow> pystr" where
  "repr_char printable quote c =
     (if c = quote \<or> c = 92 then [92, c]
      else if c = 9 then [92, 116] else if c = 10 then [92, 110] else if c = 13 then [92, 114]
      else if c < 32 \<or> c = 127 then [92, 120] @ hex_text 2 c
      else if c < 127 \<or> printable c then [c]
      else if c < 256 then [92, 120] @ hex_text 2 c
      else if c < 65536 then [92, 117] @ hex_text 4 c
      else [92, 85] @ hex_text 8 c)"

definition py_repr :: "(nat \<Rightarrow> bool) \<Rightarrow> pystr \<Rightarrow> pystr" where
  "py_repr printable s =
     (let quote = (if 39 \<in> set s \<and> 34 \<notin> set s then 34 else 39)
      in quote # concat (map (repr_char printable quote) s) @ [quote])"

fun join_with :: "pystr \<Rightarrow> pystr list \<Rightarrow> pystr" where
  "join_with sep [] = []"
| "join_with sep [w] = w"
| "join_with sep (w # ws) = w @ sep @ join_with sep ws"

definition list_repr :: "pystr list \<Rightarrow> pystr" where
  "list_repr ws = [91] @ join_with (lit '', '') ws @ [93]"

definition column_repr :: "(nat \<Rightarrow> bool) \<Rightarrow> dbf_column \<Rightarrow> pystr" where
  "column_repr printable c =
     (case c of (name, ty, width, decimals) \<Rightarrow>
        [40] @ py_repr printable name @ lit '', '' @ py_repr printable [ty] @ lit '', '' @ nat_digits width
        @ lit '', '' @ nat_digits decimals @ [41])"

section \<open>Messages\<close>

definition family_name :: "pystr \<Rightarrow> pystr" where
  "family_name suffix = lit ''family'' @ suffix"

definition shp_record :: "int \<Rightarrow> string \<Rightarrow> pystr" where
  "shp_record n rest = lit ''.shp record '' @ int_str n @ lit rest"

definition shape_message :: "(nat \<Rightarrow> bool) \<Rightarrow> pystr \<Rightarrow> shape_error \<Rightarrow> pystr" where
  "shape_message printable path e =
     (case e of
        Missing_shp \<Rightarrow>
          lit ''Shapefile does not exist: '' @ path
      | Incomplete_family missing \<Rightarrow>
          lit ''Shapefile family is incomplete: base=family; missing='' @ list_repr (map (py_repr printable) missing)
      | Bad_encoding declared \<Rightarrow>
          lit ''Unsupported source encoding declaration: '' @ py_repr printable declared @ lit ''; expected UTF-8''
      | Bad_crs \<Rightarrow>
          lit ''Declared CRS does not match the established source contract; a changed .prj requires review, not silent ingestion''
      | Header_truncated label \<Rightarrow>
          label @ lit '' header is truncated: '' @ family_name label
      | Not_shapefile label \<Rightarrow>
          label @ lit '' is not a valid shapefile member: '' @ family_name label
      | Length_mismatch label declared actual \<Rightarrow>
          label @ lit '' declared length does not match file size: '' @ family_name label @ lit ''; declared='' @ int_str declared @ lit ''; actual='' @ int_str (int actual)
      | Layer_not_polygon t \<Rightarrow>
          lit ''Unsupported shape type '' @ int_str t @ lit ''; the contract accepts polygon (5) only''
      | Shx_type_mismatch t e \<Rightarrow>
          lit ''.shx shape type '' @ int_str t @ lit '' disagrees with .shp shape type '' @ int_str e
      | Bad_number key s \<Rightarrow>
          lit ''Unparseable numeric value in field '' @ py_repr printable key @ lit '': '' @ py_repr printable s
      | Dbf_header_truncated \<Rightarrow>
          lit ''.dbf header is truncated: family.dbf''
      | Descriptors_truncated \<Rightarrow>
          lit ''.dbf field descriptors are truncated: family.dbf''
      | Schema_mismatch unexpected missing \<Rightarrow>
          lit ''DBF schema mismatch against the established source contract: unexpected='' @ list_repr (map (column_repr printable) unexpected) @ lit ''; missing='' @ list_repr (map (column_repr printable) missing)
      | Dbf_record_truncated n \<Rightarrow>
          lit ''.dbf record '' @ int_str (int n) @ lit '' is truncated: family.dbf''
      | Soft_deleted n \<Rightarrow>
          lit ''.dbf record '' @ int_str (int n) @ lit '' is soft-deleted; deleted source records require review''
      | Count_mismatch dbf shx \<Rightarrow>
          lit ''Attribute and geometry record counts disagree: dbf='' @ int_str (int dbf) @ lit ''; shx='' @ int_str (int shx)
      | No_features \<Rightarrow>
          lit ''Shapefile contains no features''
      | Shp_header_truncated \<Rightarrow>
          lit ''.shp header is truncated''
      | Record_header_truncated \<Rightarrow>
          lit ''.shp record header is truncated''
      | Not_sequential e n \<Rightarrow>
          lit ''.shp record numbers are not sequential: expected '' @ int_str (int e) @ lit '', found '' @ int_str n
      | Record_truncated n \<Rightarrow>
          shp_record n '' is truncated''
      | Content_truncated n \<Rightarrow>
          shp_record n '' content is truncated''
      | Null_shape n \<Rightarrow>
          shp_record n '' is a null shape; empty source geometry requires review''
      | Record_not_polygon n t \<Rightarrow>
          shp_record n '' has shape type '' @ int_str t @ lit ''; the contract accepts polygon (5) only''
      | Bad_layout n \<Rightarrow>
          shp_record n '' declares an invalid part/point layout''
      | Record_length n e a \<Rightarrow>
          shp_record n '' content length disagrees with its declared parts/points: declared='' @ int_str e @ lit ''; actual='' @ int_str a
      | Bad_part_offsets n \<Rightarrow>
          shp_record n '' declares invalid ring part offsets''
      | Short_ring n \<Rightarrow>
          shp_record n '' contains a ring with fewer than 4 points''
      | Unclosed_ring n \<Rightarrow>
          shp_record n '' contains an unclosed ring''
      | Rows_not_aligned \<Rightarrow>
          lit ''Attribute rows and geometries do not describe the same records'')"

section \<open>Reading them back\<close>

definition is_decimal :: "ucd \<Rightarrow> nat \<Rightarrow> bool" where
  "is_decimal u c \<longleftrightarrow> ucd_digit u c \<noteq> None"

text \<open>\<open>re.search(r"record (\d+)", s)\<close> and \<open>re.search(r"in field '(\w+)'", s)\<close>.\<close>

fun search_record :: "ucd \<Rightarrow> pystr \<Rightarrow> pystr option" where
  "search_record u [] = None"
| "search_record u (c # cs) =
     (let ds = takeWhile (is_decimal u) (drop 7 (c # cs))
      in if starts_with (lit ''record '') (c # cs) \<and> ds \<noteq> [] then Some ds else search_record u cs)"

fun search_field_key :: "ucd \<Rightarrow> pystr \<Rightarrow> pystr option" where
  "search_field_key u [] = None"
| "search_field_key u (c # cs) =
     (let t = drop 10 (c # cs); w = takeWhile (ucd_word u) t; r = dropWhile (ucd_word u) t
      in if starts_with (lit ''in field '' @ [39]) (c # cs) \<and> w \<noteq> [] \<and> r \<noteq> [] \<and> hd r = 39 then Some w
         else search_field_key u cs)"

text \<open>\<open>re.findall(r"\('([^']*)', '\w', \d+, \d+\)", s)\<close>.\<close>

definition match_column :: "ucd \<Rightarrow> pystr \<Rightarrow> (pystr \<times> pystr) option" where
  "match_column u s =
     (let name = takeWhile (\<lambda>c. c \<noteq> 39) (drop 2 s); r = dropWhile (\<lambda>c. c \<noteq> 39) (drop 2 s); r2 = drop 4 r; r3 = drop 4 r2;
          r4 = dropWhile (is_decimal u) r3; r5 = drop 2 r4; r6 = dropWhile (is_decimal u) r5
      in if starts_with [40, 39] s \<and> starts_with ([39] @ lit '', '' @ [39]) r \<and> r2 \<noteq> [] \<and> ucd_word u (hd r2)
            \<and> starts_with ([39] @ lit '', '') (tl r2) \<and> r4 \<noteq> r3 \<and> starts_with (lit '', '') r4 \<and> r6 \<noteq> r5 \<and> starts_with [41] r6
         then Some (name, tl r6) else None)"

lemma match_column_shorter:
  assumes "match_column u (c # cs) = Some (name, rest)"
  shows "length rest \<le> length cs"
proof -
  let ?s = "drop 2 (c # cs)" and ?w = "is_decimal u"
  have dw: "length (dropWhile p xs) \<le> length xs" for p and xs :: pystr by (rule length_dropWhile_le)
  define r3 where "r3 = drop 4 (drop 4 (dropWhile (\<lambda>c. c \<noteq> 39) ?s))"
  have "rest = tl (dropWhile ?w (drop 2 (dropWhile ?w r3)))"
    using assms by (simp add: match_column_def Let_def r3_def split: if_splits)
  moreover have "length r3 \<le> length cs" using dw [of "\<lambda>c. c \<noteq> 39" ?s] by (simp add: r3_def)
  ultimately show ?thesis
    using dw [of ?w r3] dw [of ?w "drop 2 (dropWhile ?w r3)"] by simp
qed

function find_columns :: "ucd \<Rightarrow> pystr \<Rightarrow> pystr list" where
  "find_columns u [] = []"
| "find_columns u (c # cs) =
     (case match_column u (c # cs) of
        Some (name, rest) \<Rightarrow> name # find_columns u rest
      | None \<Rightarrow> find_columns u cs)"
  by pat_completeness auto
termination
  by (relation "measure (\<lambda>(u, s). length s)") (auto dest: match_column_shorter)

text \<open>\<open>s.partition(sep)\<close>: what stands before the first separator and after it.\<close>

fun partition_text :: "pystr \<Rightarrow> pystr \<Rightarrow> pystr \<times> pystr" where
  "partition_text sep [] = ([], [])"
| "partition_text sep (c # cs) =
     (if starts_with sep (c # cs) then ([], drop (length sep) (c # cs))
      else (let (a, b) = partition_text sep cs in (c # a, b)))"

datatype upload_failure = F_crs_mismatch | F_encoding | F_attribute_schema | F_null_geometry | F_geometry_type | F_deleted_record
  | F_record_mismatch | F_empty | F_attribute_value | F_damaged | F_contract_violation

definition record_suffix :: "ucd \<Rightarrow> pystr \<Rightarrow> pystr" where
  "record_suffix u message =
     (case search_record u message of Some n \<Rightarrow> lit '' (registro '' @ n @ lit '')'' | None \<Rightarrow> [])"

definition schema_suffix :: "ucd \<Rightarrow> pystr \<Rightarrow> pystr" where
  "schema_suffix u message =
     (let (unexpected, missing) = partition_text (lit ''missing='') message;
          extra = sort (dedup (find_columns u unexpected)); absent = sort (dedup (find_columns u missing));
          parts = (if absent \<noteq> [] then [lit ''faltan o cambiaron: '' @ join_with (lit '', '') absent] else [])
                  @ (if extra \<noteq> [] then [lit ''no esperadas: '' @ join_with (lit '', '') extra] else [])
      in if parts \<noteq> [] then lit '' ('' @ join_with (lit ''; '') parts @ lit '')'' else [])"

definition describe_contract_failure :: "ucd \<Rightarrow> pystr \<Rightarrow> upload_failure \<times> pystr" where
  "describe_contract_failure u message =
     (let at_record = record_suffix u message
      in if starts_with (lit ''Declared CRS does not match'') message then
           (F_crs_mismatch,
            lit ''El sistema de coordenadas del archivo .prj no es el esperado (WGS 84 / UTM zona 18S, EPSG:32718). Una capa en otro sistema necesita revisi''
            @ [243] @ lit ''n antes de poder cargarse.'')
         else if starts_with (lit ''Unsupported source encoding declaration'') message then
           (F_encoding, lit ''La codificaci'' @ [243] @ lit ''n declarada en el archivo .cpg no es UTF-8.'')
         else if starts_with (lit ''DBF schema mismatch'') message then
           (F_attribute_schema, lit ''Las columnas de atributos (.dbf) no coinciden con las esperadas'' @ schema_suffix u message @ lit ''.'')
         else if contains (lit ''null shape'') message then
           (F_null_geometry, lit ''Hay un registro sin geometr'' @ [237] @ lit ''a'' @ at_record @ lit ''.'')
         else if contains (lit ''shape type'') message then
           (F_geometry_type, lit ''La capa no es de pol'' @ [237] @ lit ''gonos'' @ at_record @ lit ''.'')
         else if contains (lit ''soft-deleted'') message then
           (F_deleted_record, lit ''El archivo .dbf contiene un registro marcado como borrado'' @ at_record @ lit ''.'')
         else if contains (lit ''disagree'') message then
           (F_record_mismatch, lit ''La cantidad de registros no coincide entre la geometr'' @ [237] @ lit ''a (.shp/.shx) y los atributos (.dbf).'')
         else if starts_with (lit ''Shapefile contains no features'') message then
           (F_empty, lit ''La capa no contiene pol'' @ [237] @ lit ''gonos.'')
         else if starts_with (lit ''Unparseable numeric value'') message then
           (F_attribute_value, lit ''Hay un valor num'' @ [233] @ lit ''rico que no se puede leer''
              @ (case search_field_key u message of Some k \<Rightarrow> lit '' en la columna '' @ k | None \<Rightarrow> []) @ lit ''.'')
         else if contains (lit ''truncated'') message \<or> contains (lit ''not a valid shapefile'') message \<or> contains (lit ''length'') message then
           (F_damaged, lit ''Un archivo de la capa est'' @ [225] @ lit '' da'' @ [241] @ lit ''ado o incompleto'' @ at_record @ lit ''.'')
         else (F_contract_violation, lit ''La capa no cumple el contrato de origen de Rodales.''))"

end
