(* ===== verification/Provenance.thy ===== *)
theory Provenance
  imports PyText
begin

text \<open>
  \<open>app/source_provenance.py\<close>: where stored content came from. Four tables, each row found or
  created by its key; identities are drawn from one counter. The checks and unique keys are those of
  migrations 0002 and 0006.
\<close>

section \<open>Tables\<close>

datatype prov_error = Path_mismatch | Size_mismatch | Size_conflict | Prov_check | Object_key_taken

record source_system =
  ss_id :: int
  ss_key :: pystr

record source_asset =
  sa_id :: int
  sa_system :: int
  sa_kind :: pystr
  sa_key :: pystr

record source_snapshot =
  sn_id :: int
  sn_asset :: int
  sn_sha :: pystr
  sn_size :: int
  sn_object :: "pystr option"

record source_observation =
  ob_id :: int
  ob_snapshot :: int
  ob_path :: pystr
  ob_filename :: pystr
  ob_at :: int
  ob_modified :: "int option"
  ob_media :: "pystr option"

record provenance =
  pv_systems :: "source_system list"
  pv_assets :: "source_asset list"
  pv_snapshots :: "source_snapshot list"
  pv_observations :: "source_observation list"
  pv_next :: int

record persisted =
  ps_system :: int
  ps_asset :: int
  ps_snapshot :: int
  ps_observation :: int

record file_observation =
  fo_path :: pystr
  fo_filename :: pystr
  fo_size :: int
  fo_at :: int
  fo_modified :: int
  fo_media :: "pystr option"

record file_fingerprint =
  ff_path :: pystr
  ff_sha :: pystr
  ff_size :: int

definition filesystem_identity_kind :: pystr where "filesystem_identity_kind = lit ''relative_path''"

definition upload_identity_kind :: pystr where "upload_identity_kind = lit ''content_sha256''"

definition upload_system_key :: pystr where "upload_system_key = lit ''campo_digital_upload''"

text \<open>\<open>btrim(x) <> ''\<close> of a text, which holds no NUL, and \<open>x ~ '^[0-9a-f]{64}$'\<close>.\<close>

definition filled :: "pystr \<Rightarrow> bool" where
  "filled s \<longleftrightarrow> (\<exists>c \<in> set s. c \<noteq> 32) \<and> 0 \<notin> set s"

definition sha_text :: "pystr \<Rightarrow> bool" where
  "sha_text s \<longleftrightarrow> length s = 64 \<and> list_all (\<lambda>c. 48 \<le> c \<and> c \<le> 57 \<or> 97 \<le> c \<and> c \<le> 102) s"

lemma sha_filled: "sha_text s \<Longrightarrow> filled s"
  by (cases s) (auto simp: sha_text_def filled_def list_all_iff)

lemma sha_no_nul: "sha_text s \<Longrightarrow> 0 \<notin> set s"
  by (auto simp: sha_text_def list_all_iff)

lemma upload_path_filled: "filled s \<Longrightarrow> filled (lit ''upload://'' @ s)"
  by (auto simp: filled_def)

section \<open>Find or create\<close>

definition resolve_source_system :: "pystr \<Rightarrow> provenance \<Rightarrow> prov_error + int \<times> provenance" where
  "resolve_source_system key pv =
     (if \<not> filled key then Inl Prov_check
      else case find (\<lambda>x. ss_key x = key) (pv_systems pv) of
        Some x \<Rightarrow> Inr (ss_id x, pv)
      | None \<Rightarrow> Inr (pv_next pv, pv\<lparr>pv_systems := pv_systems pv @ [\<lparr>ss_id = pv_next pv, ss_key = key\<rparr>], pv_next := pv_next pv + 1\<rparr>))"

definition resolve_source_asset :: "int \<Rightarrow> pystr \<Rightarrow> pystr \<Rightarrow> provenance \<Rightarrow> prov_error + int \<times> provenance" where
  "resolve_source_asset sys kind key pv =
     (if \<not> filled kind \<or> \<not> filled key then Inl Prov_check
      else case find (\<lambda>x. sa_system x = sys \<and> sa_kind x = kind \<and> sa_key x = key) (pv_assets pv) of
        Some x \<Rightarrow> Inr (sa_id x, pv)
      | None \<Rightarrow> Inr (pv_next pv, pv\<lparr>pv_assets := pv_assets pv @ [\<lparr>sa_id = pv_next pv, sa_system = sys, sa_kind = kind, sa_key = key\<rparr>],
                 pv_next := pv_next pv + 1\<rparr>))"

definition resolve_source_snapshot :: "int \<Rightarrow> pystr \<Rightarrow> int \<Rightarrow> provenance \<Rightarrow> prov_error + int \<times> provenance" where
  "resolve_source_snapshot asset sha n pv =
     (if \<not> sha_text sha \<or> n < 0 then Inl Prov_check
      else case find (\<lambda>x. sn_asset x = asset \<and> sn_sha x = sha) (pv_snapshots pv) of
        Some x \<Rightarrow> (if sn_size x \<noteq> n then Inl Size_conflict else Inr (sn_id x, pv))
      | None \<Rightarrow> Inr (pv_next pv, pv\<lparr>pv_snapshots := pv_snapshots pv @ [\<lparr>sn_id = pv_next pv, sn_asset = asset, sn_sha = sha,
                 sn_size = n, sn_object = None\<rparr>], pv_next := pv_next pv + 1\<rparr>))"

definition insert_observation :: "int \<Rightarrow> pystr \<Rightarrow> pystr \<Rightarrow> int \<Rightarrow> int option \<Rightarrow> pystr option \<Rightarrow> provenance
    \<Rightarrow> prov_error + int \<times> provenance" where
  "insert_observation snapshot path filename now modified media pv =
     (if \<not> filled path \<or> \<not> filled filename \<or> (\<exists>m. media = Some m \<and> \<not> filled m) then Inl Prov_check
      else Inr (pv_next pv, pv\<lparr>pv_observations := pv_observations pv @ [\<lparr>ob_id = pv_next pv, ob_snapshot = snapshot, ob_path = path,
          ob_filename = filename, ob_at = now, ob_modified = modified, ob_media = media\<rparr>], pv_next := pv_next pv + 1\<rparr>))"

text \<open>\<open>UPDATE ... SET object_storage_key WHERE id = :id AND object_storage_key IS NULL\<close>; the key is unique.\<close>

definition set_object_key :: "int \<Rightarrow> pystr \<Rightarrow> provenance \<Rightarrow> prov_error + provenance" where
  "set_object_key i key pv =
     (if \<not> (\<exists>x \<in> set (pv_snapshots pv). sn_id x = i \<and> sn_object x = None) then Inr pv
      else if \<not> filled key then Inl Prov_check
      else if \<exists>x \<in> set (pv_snapshots pv). sn_object x = Some key then Inl Object_key_taken
      else Inr (pv\<lparr>pv_snapshots := map (\<lambda>x. if sn_id x = i \<and> sn_object x = None then x\<lparr>sn_object := Some key\<rparr> else x) (pv_snapshots pv)\<rparr>))"

section \<open>The two entry points\<close>

definition validate_discovery_pair :: "file_observation \<Rightarrow> file_fingerprint \<Rightarrow> prov_error + unit" where
  "validate_discovery_pair ob ff =
     (if fo_path ob \<noteq> ff_path ff then Inl Path_mismatch else if fo_size ob \<noteq> ff_size ff then Inl Size_mismatch else Inr ())"

definition persist_filesystem_provenance :: "pystr \<Rightarrow> file_observation \<Rightarrow> file_fingerprint \<Rightarrow> provenance
    \<Rightarrow> prov_error + persisted \<times> provenance" where
  "persist_filesystem_provenance system_key ob ff pv =
     bind_result (validate_discovery_pair ob ff) (\<lambda>_.
     bind_result (resolve_source_system system_key pv) (\<lambda>(sys, pv).
     bind_result (resolve_source_asset sys filesystem_identity_kind (fo_path ob) pv) (\<lambda>(asset, pv).
     bind_result (resolve_source_snapshot asset (ff_sha ff) (ff_size ff) pv) (\<lambda>(snapshot, pv).
     bind_result (insert_observation snapshot (fo_path ob) (fo_filename ob) (fo_at ob) (Some (fo_modified ob)) (fo_media ob) pv) (\<lambda>(obs, pv).
       Inr (\<lparr>ps_system = sys, ps_asset = asset, ps_snapshot = snapshot, ps_observation = obs\<rparr>, pv))))))"

definition persist_uploaded_provenance :: "pystr \<Rightarrow> int \<Rightarrow> pystr \<Rightarrow> pystr \<Rightarrow> pystr option \<Rightarrow> int \<Rightarrow> provenance
    \<Rightarrow> prov_error + persisted \<times> provenance" where
  "persist_uploaded_provenance sha n object_key filename media now pv =
     bind_result (resolve_source_system upload_system_key pv) (\<lambda>(sys, pv).
     bind_result (resolve_source_asset sys upload_identity_kind sha pv) (\<lambda>(asset, pv).
     bind_result (resolve_source_snapshot asset sha n pv) (\<lambda>(snapshot, pv).
     bind_result (set_object_key snapshot object_key pv) (\<lambda>pv.
     bind_result (insert_observation snapshot (lit ''upload://'' @ filename) filename now None media pv) (\<lambda>(obs, pv).
       Inr (\<lparr>ps_system = sys, ps_asset = asset, ps_snapshot = snapshot, ps_observation = obs\<rparr>, pv))))))"

section \<open>Keys are unique and references hold\<close>

text \<open>What the tables promise: keys name one row, identities are below the counter, and no row hangs in the air.\<close>

definition provenance_ok :: "provenance \<Rightarrow> bool" where
  "provenance_ok pv \<longleftrightarrow>
     distinct (map ss_key (pv_systems pv))
     \<and> distinct (map (\<lambda>x. (sa_system x, sa_kind x, sa_key x)) (pv_assets pv))
     \<and> distinct (map (\<lambda>x. (sn_asset x, sn_sha x)) (pv_snapshots pv))
     \<and> distinct (map sn_id (pv_snapshots pv)) \<and> distinct (map ob_id (pv_observations pv))
     \<and> (\<forall>x \<in> set (pv_assets pv). sa_system x \<in> ss_id ` set (pv_systems pv))
     \<and> (\<forall>x \<in> set (pv_snapshots pv). sn_asset x \<in> sa_id ` set (pv_assets pv) \<and> sn_id x < pv_next pv \<and> sha_text (sn_sha x) \<and> 0 \<le> sn_size x)
     \<and> (\<forall>x \<in> set (pv_observations pv). ob_snapshot x \<in> sn_id ` set (pv_snapshots pv) \<and> ob_id x < pv_next pv)
     \<and> distinct (List.map_filter sn_object (pv_snapshots pv))"

definition snapshot_kept :: "source_snapshot \<Rightarrow> source_snapshot \<Rightarrow> bool" where
  "snapshot_kept x y \<longleftrightarrow> sn_id y = sn_id x \<and> sn_asset y = sn_asset x \<and> sn_sha y = sn_sha x \<and> sn_size y = sn_size x
     \<and> (sn_object x = None \<or> sn_object y = sn_object x)"

definition grows :: "provenance \<Rightarrow> provenance \<Rightarrow> bool" where
  "grows pv pv' \<longleftrightarrow> (\<exists>xs. pv_systems pv' = pv_systems pv @ xs) \<and> (\<exists>xs. pv_assets pv' = pv_assets pv @ xs)
     \<and> (\<exists>xs. pv_observations pv' = pv_observations pv @ xs)
     \<and> (\<forall>x \<in> set (pv_snapshots pv). \<exists>y \<in> set (pv_snapshots pv'). snapshot_kept x y)"

lemma snapshot_kept_refl [simp]: "snapshot_kept x x"
  by (simp add: snapshot_kept_def)

lemma kept_mem: "x \<in> set ys \<Longrightarrow> \<exists>y \<in> set ys. snapshot_kept x y"
  by (rule bexI [of _ x]) simp_all

lemma snapshot_kept_trans: "snapshot_kept x y \<Longrightarrow> snapshot_kept y z \<Longrightarrow> snapshot_kept x z"
  by (auto simp: snapshot_kept_def)

lemma grows_refl [simp]: "grows pv pv"
  by (auto simp: grows_def intro: kept_mem)

lemma grows_trans:
  assumes "grows a b" "grows b c"
  shows "grows a c"
proof -
  have "\<exists>y \<in> set (pv_snapshots c). snapshot_kept x y" if x: "x \<in> set (pv_snapshots a)" for x
  proof -
    obtain y where y: "y \<in> set (pv_snapshots b)" "snapshot_kept x y" using assms(1) x by (auto simp: grows_def)
    then obtain z where "z \<in> set (pv_snapshots c)" "snapshot_kept y z" using assms(2) by (auto simp: grows_def)
    with y show ?thesis using snapshot_kept_trans by blast
  qed
  with assms show ?thesis by (fastforce simp: grows_def)
qed

text \<open>What one step is promised: the tables stay in order and only grow.\<close>

definition prov_step :: "provenance \<Rightarrow> provenance \<Rightarrow> bool" where
  "prov_step pv pv' \<longleftrightarrow> provenance_ok pv' \<and> grows pv pv'"

lemma prov_step_trans: "prov_step a b \<Longrightarrow> prov_step b c \<Longrightarrow> prov_step a c"
  by (auto simp: prov_step_def intro: grows_trans)

lemma find_fresh: "find P xs = None \<Longrightarrow> x \<in> set xs \<Longrightarrow> \<not> P x"
  by (simp add: find_None_iff)

lemma find_there: "find P xs = Some x \<Longrightarrow> x \<in> set xs \<and> P x"
  by (auto simp: find_Some_iff)

lemma ok_less:
  assumes "provenance_ok pv"
  shows "x \<in> set (pv_snapshots pv) \<Longrightarrow> sn_id x < pv_next pv + 1" "y \<in> set (pv_observations pv) \<Longrightarrow> ob_id y < pv_next pv + 1"
    "x \<in> set (pv_snapshots pv) \<Longrightarrow> sn_id x \<noteq> pv_next pv" "y \<in> set (pv_observations pv) \<Longrightarrow> ob_id y \<noteq> pv_next pv"
  using assms by (fastforce simp: provenance_ok_def)+

lemma system_step:
  assumes r: "resolve_source_system key pv = Inr (i, pv')" and ok: "provenance_ok pv"
  shows "prov_step pv pv' \<and> (\<exists>x \<in> set (pv_systems pv'). ss_id x = i \<and> ss_key x = key)"
proof (cases "find (\<lambda>x. ss_key x = key) (pv_systems pv)")
  case None
  with r have pv': "pv' = pv\<lparr>pv_systems := pv_systems pv @ [\<lparr>ss_id = pv_next pv, ss_key = key\<rparr>], pv_next := pv_next pv + 1\<rparr>" "i = pv_next pv"
    by (auto simp: resolve_source_system_def split: if_splits)
  have "key \<notin> ss_key ` set (pv_systems pv)" using find_fresh [OF None] by auto
  then have "provenance_ok pv'" using ok ok_less [OF ok] by (auto simp: provenance_ok_def pv' simp del: zless_add1_eq)
  moreover have "grows pv pv'" by (auto simp: grows_def pv' intro: kept_mem)
  ultimately show ?thesis by (simp add: prov_step_def pv')
next
  case (Some x)
  with r find_there [OF Some] ok show ?thesis by (auto simp: resolve_source_system_def prov_step_def split: if_splits)
qed

lemma asset_step:
  assumes r: "resolve_source_asset sys kind key pv = Inr (i, pv')" and ok: "provenance_ok pv" and sys: "sys \<in> ss_id ` set (pv_systems pv)"
  shows "prov_step pv pv' \<and> (\<exists>x \<in> set (pv_assets pv'). sa_id x = i \<and> sa_system x = sys \<and> sa_kind x = kind \<and> sa_key x = key)"
proof (cases "find (\<lambda>x. sa_system x = sys \<and> sa_kind x = kind \<and> sa_key x = key) (pv_assets pv)")
  case None
  with r have pv': "pv' = pv\<lparr>pv_assets := pv_assets pv @ [\<lparr>sa_id = pv_next pv, sa_system = sys, sa_kind = kind, sa_key = key\<rparr>],
      pv_next := pv_next pv + 1\<rparr>" "i = pv_next pv"
    by (auto simp: resolve_source_asset_def split: if_splits)
  have "(sys, kind, key) \<notin> (\<lambda>x. (sa_system x, sa_kind x, sa_key x)) ` set (pv_assets pv)" using find_fresh [OF None] by auto
  then have "provenance_ok pv'" using ok ok_less [OF ok] sys by (auto simp: provenance_ok_def pv' simp del: zless_add1_eq)
  moreover have "grows pv pv'" by (auto simp: grows_def pv' intro: kept_mem)
  ultimately show ?thesis by (simp add: prov_step_def pv')
next
  case (Some x)
  with r find_there [OF Some] ok show ?thesis by (auto simp: resolve_source_asset_def prov_step_def split: if_splits)
qed

lemma snapshot_step:
  assumes r: "resolve_source_snapshot asset sha n pv = Inr (i, pv')" and ok: "provenance_ok pv" and asset: "asset \<in> sa_id ` set (pv_assets pv)"
  shows "prov_step pv pv' \<and> (\<exists>x \<in> set (pv_snapshots pv'). sn_id x = i \<and> sn_asset x = asset \<and> sn_sha x = sha \<and> sn_size x = n)"
proof (cases "find (\<lambda>x. sn_asset x = asset \<and> sn_sha x = sha) (pv_snapshots pv)")
  case None
  with r have pv': "pv' = pv\<lparr>pv_snapshots := pv_snapshots pv @ [\<lparr>sn_id = pv_next pv, sn_asset = asset, sn_sha = sha, sn_size = n, sn_object = None\<rparr>],
      pv_next := pv_next pv + 1\<rparr>" "i = pv_next pv" and chk: "sha_text sha" "0 \<le> n"
    by (auto simp: resolve_source_snapshot_def split: if_splits)
  have fresh: "(asset, sha) \<notin> (\<lambda>x. (sn_asset x, sn_sha x)) ` set (pv_snapshots pv)" using find_fresh [OF None] by auto
  have "pv_next pv \<notin> sn_id ` set (pv_snapshots pv)" using ok_less(3) [OF ok] by force
  with fresh have "provenance_ok pv'" using ok ok_less [OF ok] asset chk
    by (auto simp: provenance_ok_def pv' List.map_filter_def simp del: zless_add1_eq)
  moreover have "grows pv pv'" by (auto simp: grows_def pv' intro: kept_mem)
  ultimately show ?thesis by (simp add: prov_step_def pv')
next
  case (Some x)
  with r find_there [OF Some] ok show ?thesis by (auto simp: resolve_source_snapshot_def prov_step_def split: if_splits)
qed

lemma observation_step:
  assumes r: "insert_observation snapshot path filename now modified media pv = Inr (i, pv')" and ok: "provenance_ok pv"
    and there: "snapshot \<in> sn_id ` set (pv_snapshots pv)"
  shows "prov_step pv pv' \<and> pv_snapshots pv' = pv_snapshots pv
    \<and> (\<exists>x \<in> set (pv_observations pv'). ob_id x = i \<and> ob_snapshot x = snapshot \<and> ob_filename x = filename)
    \<and> i \<notin> ob_id ` set (pv_observations pv)"
proof -
  from r have pv': "pv' = pv\<lparr>pv_observations := pv_observations pv @ [\<lparr>ob_id = pv_next pv, ob_snapshot = snapshot, ob_path = path,
      ob_filename = filename, ob_at = now, ob_modified = modified, ob_media = media\<rparr>], pv_next := pv_next pv + 1\<rparr>" "i = pv_next pv"
    by (auto simp: insert_observation_def split: if_splits)
  have new: "pv_next pv \<notin> ob_id ` set (pv_observations pv)" using ok_less(4) [OF ok] by force
  then have "provenance_ok pv'" using ok ok_less [OF ok] there by (auto simp: provenance_ok_def pv' simp del: zless_add1_eq)
  moreover have "grows pv pv'" by (auto simp: grows_def pv' intro: kept_mem)
  ultimately show ?thesis using new by (simp add: prov_step_def pv')
qed

lemma map_filter_set_one:
  assumes "distinct (map f xs)" "distinct (List.map_filter g xs)" "\<forall>x \<in> set xs. g x \<noteq> Some k"
  shows "distinct (List.map_filter (\<lambda>x. if f x = i \<and> g x = None then Some k else g x) xs)
    \<and> set (List.map_filter (\<lambda>x. if f x = i \<and> g x = None then Some k else g x) xs) \<subseteq> insert k (set (List.map_filter g xs))
    \<and> (i \<notin> f ` set xs \<longrightarrow> List.map_filter (\<lambda>x. if f x = i \<and> g x = None then Some k else g x) xs = List.map_filter g xs)"
  using assms
proof (induction xs)
  case (Cons x xs)
  have k: "k \<notin> set (List.map_filter g xs)" using Cons.prems(3) by (auto simp: List.map_filter_def)
  from Cons.prems have IH: "distinct (List.map_filter (\<lambda>x. if f x = i \<and> g x = None then Some k else g x) xs)"
    "set (List.map_filter (\<lambda>x. if f x = i \<and> g x = None then Some k else g x) xs) \<subseteq> insert k (set (List.map_filter g xs))"
    "i \<notin> f ` set xs \<Longrightarrow> List.map_filter (\<lambda>x. if f x = i \<and> g x = None then Some k else g x) xs = List.map_filter g xs"
    using Cons.IH by (auto simp: List.map_filter_simps split: option.splits)
  show ?case
  proof (cases "f x = i \<and> g x = None")
    case True
    then have "i \<notin> f ` set xs" using Cons.prems(1) by auto
    with True IH(3) k Cons.prems show ?thesis by (auto simp: List.map_filter_simps)
  next
    case False
    with IH Cons.prems show ?thesis by (auto simp: List.map_filter_simps split: option.splits)
  qed
qed (simp add: List.map_filter_simps)

lemma object_key_step:
  assumes r: "set_object_key i key pv = Inr pv'" and ok: "provenance_ok pv"
  shows "prov_step pv pv' \<and> map sn_id (pv_snapshots pv') = map sn_id (pv_snapshots pv)
    \<and> (\<forall>x \<in> set (pv_snapshots pv'). sn_id x = i \<longrightarrow> sn_object x \<noteq> None)"
proof (cases "\<exists>x \<in> set (pv_snapshots pv). sn_id x = i \<and> sn_object x = None")
  case False
  with r have "pv' = pv" by (simp add: set_object_key_def)
  with ok False show ?thesis by (auto simp: prov_step_def)
next
  case True
  define f :: "source_snapshot \<Rightarrow> source_snapshot" where "f = (\<lambda>x. if sn_id x = i \<and> sn_object x = None then x\<lparr>sn_object := Some key\<rparr> else x)"
  from r True have pv': "pv' = pv\<lparr>pv_snapshots := map f (pv_snapshots pv)\<rparr>"
    and fresh: "\<forall>x \<in> set (pv_snapshots pv). sn_object x \<noteq> Some key"
    by (auto simp: set_object_key_def f_def split: if_splits)
  have f: "sn_id (f x) = sn_id x" "sn_asset (f x) = sn_asset x" "sn_sha (f x) = sn_sha x" "sn_size (f x) = sn_size x" for x
    by (simp_all add: f_def)
  have ids: "map sn_id (map f xs) = map sn_id xs" for xs by (simp add: f)
  have o: "sn_object (f x) = (if sn_id x = i \<and> sn_object x = None then Some key else sn_object x)" for x by (simp add: f_def)
  have mf: "List.map_filter sn_object (map f xs) = List.map_filter (\<lambda>x. if sn_id x = i \<and> sn_object x = None then Some key else sn_object x) xs" for xs
    by (induction xs) (simp_all add: List.map_filter_simps o split: option.splits)
  have "distinct (List.map_filter sn_object (map f (pv_snapshots pv)))"
    unfolding mf using map_filter_set_one [of sn_id "pv_snapshots pv" sn_object key i] ok fresh by (simp add: provenance_ok_def)
  then have "provenance_ok pv'" using ok by (auto simp: provenance_ok_def pv' f comp_def image_image)
  moreover have "snapshot_kept x (f x)" for x by (simp add: snapshot_kept_def f_def)
  then have "grows pv pv'" by (auto simp: grows_def pv')
  ultimately show ?thesis by (auto simp: prov_step_def pv' comp_def f o)
qed

section \<open>Identity\<close>

lemma find_by_key:
  assumes "distinct (map k xs)" "x \<in> set xs" "k x = v"
  shows "find (\<lambda>y. k y = v) xs = Some x"
  using assms by (induction xs) force+

lemma persist_uploaded_facts:
  assumes r: "persist_uploaded_provenance sha n object_key filename media now pv = Inr (p, pv')" and ok: "provenance_ok pv"
  shows "prov_step pv pv'
    \<and> (\<exists>x \<in> set (pv_systems pv'). ss_id x = ps_system p \<and> ss_key x = upload_system_key)
    \<and> (\<exists>x \<in> set (pv_assets pv'). sa_id x = ps_asset p \<and> sa_system x = ps_system p \<and> sa_kind x = upload_identity_kind \<and> sa_key x = sha)
    \<and> (\<exists>x \<in> set (pv_snapshots pv'). sn_id x = ps_snapshot p \<and> sn_asset x = ps_asset p \<and> sn_sha x = sha \<and> sn_size x = n \<and> sn_object x \<noteq> None)
    \<and> ps_observation p \<in> ob_id ` set (pv_observations pv') \<and> ps_observation p \<notin> ob_id ` set (pv_observations pv)"
proof -
  obtain pv1 pv2 pv3 pv4 where
    sys: "resolve_source_system upload_system_key pv = Inr (ps_system p, pv1)" and
    asset: "resolve_source_asset (ps_system p) upload_identity_kind sha pv1 = Inr (ps_asset p, pv2)" and
    snap: "resolve_source_snapshot (ps_asset p) sha n pv2 = Inr (ps_snapshot p, pv3)" and
    key: "set_object_key (ps_snapshot p) object_key pv3 = Inr pv4" and
    obs: "insert_observation (ps_snapshot p) (lit ''upload://'' @ filename) filename now None media pv4 = Inr (ps_observation p, pv')"
    using r by (auto simp: persist_uploaded_provenance_def simp del: lit_simps)
  note s1 = system_step [OF sys ok]
  then have ok1: "provenance_ok pv1" "ps_system p \<in> ss_id ` set (pv_systems pv1)" by (force simp: prov_step_def)+
  note s2 = asset_step [OF asset ok1]
  then have ok2: "provenance_ok pv2" "ps_asset p \<in> sa_id ` set (pv_assets pv2)" by (force simp: prov_step_def)+
  note s3 = snapshot_step [OF snap ok2]
  then have ok3: "provenance_ok pv3" by (simp add: prov_step_def)
  note s4 = object_key_step [OF key ok3]
  have "ps_snapshot p \<in> sn_id ` set (pv_snapshots pv3)" using s3 by force
  moreover have "sn_id ` set (pv_snapshots pv4) = sn_id ` set (pv_snapshots pv3)" using s4 by (metis list.set_map)
  ultimately have ok4: "provenance_ok pv4" "ps_snapshot p \<in> sn_id ` set (pv_snapshots pv4)" using s4 by (simp_all add: prov_step_def)
  note s5 = observation_step [OF obs ok4]
  have g: "prov_step pv3 pv'" "prov_step pv2 pv'" "prov_step pv1 pv'" "prov_step pv pv'"
  proof -
    show g3: "prov_step pv3 pv'" using s4 s5 by (auto intro: prov_step_trans)
    show g2: "prov_step pv2 pv'" using s3 g3 by (auto intro: prov_step_trans)
    show g1: "prov_step pv1 pv'" using s2 g2 by (auto intro: prov_step_trans)
    show "prov_step pv pv'" using s1 g1 by (auto intro: prov_step_trans)
  qed
  have sub: "set (pv_systems pv1) \<subseteq> set (pv_systems pv')" "set (pv_assets pv2) \<subseteq> set (pv_assets pv')"
    "set (pv_observations pv) \<subseteq> set (pv_observations pv4)"
    using g s1 s2 s3 s4 by (auto simp: prov_step_def grows_def)
  obtain x where x: "x \<in> set (pv_snapshots pv3)" "sn_id x = ps_snapshot p" "sn_asset x = ps_asset p" "sn_sha x = sha" "sn_size x = n"
    using s3 by auto
  then obtain y where y: "y \<in> set (pv_snapshots pv')" "snapshot_kept x y" using g(1) by (auto simp: prov_step_def grows_def)
  have "sn_object y \<noteq> None"
    using y x s4 s5 by (simp add: snapshot_kept_def)
  with x y have "\<exists>x \<in> set (pv_snapshots pv'). sn_id x = ps_snapshot p \<and> sn_asset x = ps_asset p \<and> sn_sha x = sha \<and> sn_size x = n \<and> sn_object x \<noteq> None"
    by (auto simp: snapshot_kept_def)
  moreover have "ps_observation p \<in> ob_id ` set (pv_observations pv')" using s5 by force
  moreover have "ps_observation p \<notin> ob_id ` set (pv_observations pv)" using s5 sub(3) by blast
  ultimately show ?thesis using g(4) s1 s2 sub by blast
qed

text \<open>Bytes that were never recorded are never refused.\<close>

lemma persist_uploaded_first:
  assumes sha: "sha_text sha" "0 \<le> n" and f: "filled key" "filled filename" "\<forall>m. media = Some m \<longrightarrow> filled m"
    and new: "\<forall>x \<in> set (pv_snapshots pv). sn_sha x \<noteq> sha \<and> sn_object x \<noteq> Some key"
  shows "\<exists>p pv'. persist_uploaded_provenance sha n key filename media now pv = Inr (p, pv')"
proof -
  have "filled upload_system_key" "filled upload_identity_kind" by (simp_all add: filled_def upload_system_key_def upload_identity_kind_def)
  moreover have "filled sha" using sha(1) by (rule sha_filled)
  ultimately have fl: "filled upload_system_key" "filled upload_identity_kind" "filled sha" by blast+
  obtain sys pv1 where s1: "resolve_source_system upload_system_key pv = Inr (sys, pv1)"
    using fl(1) by (cases "find (\<lambda>x. ss_key x = upload_system_key) (pv_systems pv)") (simp_all add: resolve_source_system_def)
  obtain asset pv2 where s2: "resolve_source_asset sys upload_identity_kind sha pv1 = Inr (asset, pv2)"
    using fl(2,3) by (cases "find (\<lambda>x. sa_system x = sys \<and> sa_kind x = upload_identity_kind \<and> sa_key x = sha) (pv_assets pv1)")
      (simp_all add: resolve_source_asset_def)
  have sn: "pv_snapshots pv2 = pv_snapshots pv"
    using s1 s2 by (auto simp: resolve_source_system_def resolve_source_asset_def split: if_splits option.splits)
  have "find (\<lambda>x. sn_asset x = asset \<and> sn_sha x = sha) (pv_snapshots pv2) = None" using new by (simp add: sn find_None_iff)
  then obtain i pv3 where s3: "resolve_source_snapshot asset sha n pv2 = Inr (i, pv3)"
    and new3: "\<forall>x \<in> set (pv_snapshots pv3). sn_object x \<noteq> Some key"
    using sha new by (simp add: resolve_source_snapshot_def sn)
  have free: "(\<exists>x \<in> set (pv_snapshots pv3). sn_object x = Some key) = False" using new3 by blast
  have "\<exists>pv4. set_object_key i key pv3 = Inr pv4" unfolding set_object_key_def free using f(1) by simp
  then obtain pv4 where s4: "set_object_key i key pv3 = Inr pv4" by blast
  have "filled (lit ''upload://'' @ filename)" using f(2) by (rule upload_path_filled)
  then obtain r where s5: "insert_observation i (lit ''upload://'' @ filename) filename now None media pv4 = Inr r"
    using f by (auto simp: insert_observation_def simp del: lit_simps)
  show ?thesis by (simp add: persist_uploaded_provenance_def s1 s2 s3 s4 s5 split_beta del: lit_simps)
qed

text \<open>The same bytes again are never refused.\<close>

lemma persist_uploaded_again:
  assumes r: "persist_uploaded_provenance sha n key filename media now pv = Inr (p, pv1)" and ok: "provenance_ok pv"
    and f: "filled filename'" "\<forall>m. media' = Some m \<longrightarrow> filled m"
  shows "\<exists>p' pv2. persist_uploaded_provenance sha n key' filename' media' now' pv1 = Inr (p', pv2)
    \<and> ps_snapshot p' = ps_snapshot p \<and> provenance_ok pv2"
proof -
  note fs = persist_uploaded_facts [OF r ok]
  then have ok1: "provenance_ok pv1" by (simp add: prov_step_def)
  have chk: "filled upload_system_key" "filled upload_identity_kind" "filled sha" "sha_text sha" "\<not> n < 0"
    using r by (auto simp: persist_uploaded_provenance_def resolve_source_system_def resolve_source_asset_def resolve_source_snapshot_def
        simp del: lit_simps split: if_splits)
  obtain x where x: "x \<in> set (pv_systems pv1)" "ss_id x = ps_system p" "ss_key x = upload_system_key" using fs by auto
  obtain y where y: "y \<in> set (pv_assets pv1)" "sa_id y = ps_asset p" "sa_system y = ps_system p" "sa_kind y = upload_identity_kind" "sa_key y = sha"
    using fs by auto
  obtain z where z: "z \<in> set (pv_snapshots pv1)" "sn_id z = ps_snapshot p" "sn_asset z = ps_asset p" "sn_sha z = sha" "sn_size z = n" "sn_object z \<noteq> None"
    using fs by auto
  have s1: "resolve_source_system upload_system_key pv1 = Inr (ps_system p, pv1)"
    using find_by_key [of ss_key "pv_systems pv1" x upload_system_key] ok1 x chk by (simp add: resolve_source_system_def provenance_ok_def)
  have s2: "resolve_source_asset (ps_system p) upload_identity_kind sha pv1 = Inr (ps_asset p, pv1)"
    using find_by_key [of "\<lambda>x. (sa_system x, sa_kind x, sa_key x)" "pv_assets pv1" y "(ps_system p, upload_identity_kind, sha)"] ok1 y chk
    by (simp add: resolve_source_asset_def provenance_ok_def)
  have s3: "resolve_source_snapshot (ps_asset p) sha n pv1 = Inr (ps_snapshot p, pv1)"
    using find_by_key [of "\<lambda>x. (sn_asset x, sn_sha x)" "pv_snapshots pv1" z "(ps_asset p, sha)"] ok1 z chk
    by (simp add: resolve_source_snapshot_def provenance_ok_def)
  have "w = z" if "w \<in> set (pv_snapshots pv1)" "sn_id w = ps_snapshot p" for w
    using that z(1,2) ok1 by (auto simp: provenance_ok_def distinct_map inj_on_def)
  then have "\<not> (\<exists>w \<in> set (pv_snapshots pv1). sn_id w = ps_snapshot p \<and> sn_object w = None)" using z(6) by auto
  then have s4: "set_object_key (ps_snapshot p) key' pv1 = Inr pv1" by (simp add: set_object_key_def)
  have "filled (lit ''upload://'' @ filename')" using f(1) by (rule upload_path_filled)
  then obtain obs pv2 where s5: "insert_observation (ps_snapshot p) (lit ''upload://'' @ filename') filename' now' None media' pv1 = Inr (obs, pv2)"
    using f by (auto simp: insert_observation_def simp del: lit_simps)
  have "provenance_ok pv2" using observation_step [OF s5 ok1] z(1,2) by (force simp: prov_step_def)
  then show ?thesis by (simp add: persist_uploaded_provenance_def s1 s2 s3 s4 s5 del: lit_simps)
qed

text \<open>
  C13. Uploaded content is its own identity: whatever was recorded in between, a later upload of the
  same bytes comes to the same system, asset and snapshot and one of other bytes to another
  snapshot; every upload leaves an observation of its own, and what was recorded stays as it was,
  with the key of the stored object.
\<close>

theorem upload_identified_by_content:
  assumes ok: "provenance_ok pv"
    and first: "persist_uploaded_provenance sha n key filename media now pv = Inr (p, pv1)"
    and between: "provenance_ok pv2" "grows pv1 pv2"
    and second: "persist_uploaded_provenance sha' n' key' filename' media' now' pv2 = Inr (p', pv3)"
  shows "provenance_ok pv3 \<and> ps_system p' = ps_system p \<and> (ps_snapshot p' = ps_snapshot p \<longleftrightarrow> sha' = sha)
    \<and> (sha' = sha \<longrightarrow> ps_asset p' = ps_asset p \<and> n' = n) \<and> ps_observation p' \<noteq> ps_observation p
    \<and> (\<exists>x \<in> set (pv_snapshots pv3). sn_id x = ps_snapshot p \<and> sn_sha x = sha \<and> sn_size x = n \<and> sn_object x \<noteq> None)"
proof -
  note f = persist_uploaded_facts [OF first ok]
  note g = persist_uploaded_facts [OF second between(1)]
  have ok3: "provenance_ok pv3" using g by (simp add: prov_step_def)
  have b: "prov_step pv1 pv3" using between g by (auto simp: prov_step_def intro: grows_trans)
  then have sub: "set (pv_systems pv1) \<subseteq> set (pv_systems pv3)" "set (pv_assets pv1) \<subseteq> set (pv_assets pv3)"
    by (auto simp: prov_step_def grows_def)
  have one: "x = y" if "distinct (map k xs)" "x \<in> set xs" "y \<in> set xs" "k x = k y" for k :: "'x \<Rightarrow> 'y" and xs x y
    using that by (auto simp: distinct_map inj_on_def)
  have sys: "ps_system p' = ps_system p"
    using f g sub(1) one [of ss_key "pv_systems pv3"] ok3 by (metis provenance_ok_def subsetD)
  obtain x where x: "x \<in> set (pv_snapshots pv1)" "sn_id x = ps_snapshot p" "sn_asset x = ps_asset p" "sn_sha x = sha" "sn_size x = n" "sn_object x \<noteq> None"
    using f by auto
  then obtain y where y: "y \<in> set (pv_snapshots pv3)" "snapshot_kept x y" using b by (auto simp: prov_step_def grows_def)
  then have yv: "sn_id y = ps_snapshot p" "sn_asset y = ps_asset p" "sn_sha y = sha" "sn_size y = n" "sn_object y \<noteq> None"
    using x by (auto simp: snapshot_kept_def)
  obtain z where z: "z \<in> set (pv_snapshots pv3)" "sn_id z = ps_snapshot p'" "sn_asset z = ps_asset p'" "sn_sha z = sha'" "sn_size z = n'"
    using g by auto
  have asset: "ps_asset p' = ps_asset p" if "sha' = sha"
  proof -
    obtain a where a: "a \<in> set (pv_assets pv1)" "sa_id a = ps_asset p" "sa_system a = ps_system p" "sa_kind a = upload_identity_kind" "sa_key a = sha"
      using f by auto
    obtain c where c: "c \<in> set (pv_assets pv3)" "sa_id c = ps_asset p'" "sa_system c = ps_system p'" "sa_kind c = upload_identity_kind" "sa_key c = sha'"
      using g by auto
    have "a = c" using one [of "\<lambda>x. (sa_system x, sa_kind x, sa_key x)" "pv_assets pv3" a c] ok3 a c sub(2) sys that
      by (auto simp: provenance_ok_def)
    with a c show ?thesis by simp
  qed
  have same: "y = z" if "sha' = sha"
    using one [of "\<lambda>x. (sn_asset x, sn_sha x)" "pv_snapshots pv3" y z] ok3 y z yv asset [OF that] that by (auto simp: provenance_ok_def)
  have id: "ps_snapshot p' = ps_snapshot p \<longleftrightarrow> sha' = sha"
  proof
    assume "ps_snapshot p' = ps_snapshot p"
    then have "y = z" using one [of sn_id "pv_snapshots pv3" y z] ok3 y z yv by (auto simp: provenance_ok_def)
    with yv z show "sha' = sha" by simp
  next
    assume "sha' = sha"
    from same [OF this] yv z show "ps_snapshot p' = ps_snapshot p" by simp
  qed
  have "ob_id ` set (pv_observations pv1) \<subseteq> ob_id ` set (pv_observations pv2)" using between(2) by (auto simp: grows_def)
  moreover have "ps_observation p \<in> ob_id ` set (pv_observations pv1)" "ps_observation p' \<notin> ob_id ` set (pv_observations pv2)"
    using f g by (simp_all only: simp_thms)
  ultimately have "ps_observation p' \<noteq> ps_observation p" by auto
  moreover have "\<exists>x \<in> set (pv_snapshots pv3). sn_id x = ps_snapshot p \<and> sn_sha x = sha \<and> sn_size x = n \<and> sn_object x \<noteq> None"
    using y(1) yv by (intro bexI [of _ y]) simp_all
  moreover have "sha' = sha \<longrightarrow> ps_asset p' = ps_asset p \<and> n' = n" using asset same yv(4) z(5) by auto
  ultimately show ?thesis using ok3 sys id by simp
qed

definition no_provenance :: provenance where
  "no_provenance = \<lparr>pv_systems = [], pv_assets = [], pv_snapshots = [], pv_observations = [], pv_next = 1\<rparr>"

lemma no_provenance_ok: "provenance_ok no_provenance"
  by (simp add: provenance_ok_def no_provenance_def List.map_filter_simps)

definition demo_sha :: pystr where "demo_sha = replicate 64 97"

theorem upload_identified_by_content_witness:
  "\<exists>p p' pv1 pv2. persist_uploaded_provenance demo_sha 5 (lit ''k'') (lit ''a'') None 0 no_provenance = Inr (p, pv1)
    \<and> persist_uploaded_provenance demo_sha 5 (lit ''k'') (lit ''b'') None 1 pv1 = Inr (p', pv2) \<and> ps_snapshot p' = ps_snapshot p"
proof -
  have f: "filled upload_system_key" "filled upload_identity_kind" "filled demo_sha" "filled (lit ''a'')" "filled (lit ''b'')" "filled (lit ''k'')"
    "filled (lit ''upload://'' @ lit ''a'')" "filled (lit ''upload://'' @ lit ''b'')" "sha_text demo_sha"
    by (simp_all add: filled_def upload_system_key_def upload_identity_kind_def demo_sha_def sha_text_def list_all_iff)
  note d = persist_uploaded_provenance_def resolve_source_system_def resolve_source_asset_def resolve_source_snapshot_def set_object_key_def
    insert_observation_def no_provenance_def
  define pv1 where "pv1 = \<lparr>pv_systems = [\<lparr>ss_id = 1, ss_key = upload_system_key\<rparr>],
    pv_assets = [\<lparr>sa_id = 2, sa_system = 1, sa_kind = upload_identity_kind, sa_key = demo_sha\<rparr>],
    pv_snapshots = [\<lparr>sn_id = 3, sn_asset = 2, sn_sha = demo_sha, sn_size = 5, sn_object = Some (lit ''k'')\<rparr>],
    pv_observations = [\<lparr>ob_id = 4, ob_snapshot = 3, ob_path = lit ''upload://'' @ lit ''a'', ob_filename = lit ''a'', ob_at = 0,
      ob_modified = None, ob_media = None\<rparr>], pv_next = 5\<rparr>"
  obtain p where r: "persist_uploaded_provenance demo_sha 5 (lit ''k'') (lit ''a'') None 0 no_provenance = Inr (p, pv1)"
    using f by (simp add: d pv1_def del: lit_simps)
  have "\<exists>p' pv2. persist_uploaded_provenance demo_sha 5 (lit ''k'') (lit ''b'') None 1 pv1 = Inr (p', pv2)"
    unfolding pv1_def using f by (simp add: d del: lit_simps)
  then obtain p' pv2 where r': "persist_uploaded_provenance demo_sha 5 (lit ''k'') (lit ''b'') None 1 pv1 = Inr (p', pv2)" by blast
  have "provenance_ok pv1" using persist_uploaded_facts [OF r no_provenance_ok] by (simp add: prov_step_def)
  from upload_identified_by_content [OF no_provenance_ok r this grows_refl r'] r r' show ?thesis by blast
qed

end
