(* ===== verification/ForestryUpload.thy ===== *)
theory ForestryUpload
  imports ShapeClaims UploadErrors Provenance Comparison ForestryPub
begin

text \<open>
  A layer on its way in: \<open>LocalObjectStore.put\<close> of \<open>app/object_store.py\<close>,
  \<open>app/forestry_persistence.py\<close> and \<open>app/forestry_uploads.py\<close>. \<open>forest_db\<close> is the tables they
  touch; an operation runs in the transaction of its caller, so an error leaves the tables as they
  were. The object store is outside the transaction and keeps what was put.
\<close>

section \<open>Object store\<close>

type_synonym object_store = "pystr \<Rightarrow> nat list option"

record stored_object =
  sj_key :: pystr
  sj_sha :: pystr
  sj_size :: int

definition sha256_to_key :: "pystr \<Rightarrow> pystr" where
  "sha256_to_key h = lit ''sha256/'' @ take 2 h @ [47] @ drop 2 h"

text \<open>\<open>None\<close> when the key holds content of another size. Content of the same size is kept as it is.\<close>

definition put_object :: "(nat list \<Rightarrow> pystr) \<Rightarrow> nat list \<Rightarrow> object_store \<Rightarrow> (stored_object \<times> object_store) option" where
  "put_object sha content store =
     (let h = sha content; key = sha256_to_key h; obj = \<lparr>sj_key = key, sj_sha = h, sj_size = int (length content)\<rparr>
      in case store key of
           Some old \<Rightarrow> (if length old \<noteq> length content then None else Some (obj, store))
         | None \<Rightarrow> Some (obj, store(key \<mapsto> content)))"

section \<open>Tables\<close>

record layer_snapshot =
  ly_id :: int
  ly_source :: int
  ly_fingerprint :: pystr
  ly_name :: pystr
  ly_sha256 :: "(pystr, pystr) pydict"
  ly_prj :: pystr
  ly_srid :: int
  ly_encoding :: pystr
  ly_shape_type :: int
  ly_bbox :: "pyfloat \<times> pyfloat \<times> pyfloat \<times> pyfloat"
  ly_count :: nat
  ly_created :: int

record layer_feature = feature +
  lf_srid :: int
  lf_reason :: "pystr option"
  lf_columns :: "(pystr, json) pydict"
  lf_flags :: "pystr list"

record upload_row =
  up_id :: int
  up_snapshot :: int
  up_source :: int
  up_user :: int
  up_filename :: pystr
  up_size :: int
  up_sha :: pystr
  up_at :: int

record forest_db =
  fb_pub :: f_pub
  fb_layers :: "layer_snapshot list"
  fb_features :: "layer_feature list"
  fb_uploads :: "upload_row list"
  fb_prov :: provenance
  fb_next :: int

text \<open>
  What PostgreSQL takes: no NUL in a text, no NaN or infinity in \<open>jsonb\<close>, an area that is not
  negative, a reason exactly when the geometry is invalid.
\<close>

fun jsonb_takes :: "json \<Rightarrow> bool" where
  "jsonb_takes (JStr s) = (0 \<notin> set s)"
| "jsonb_takes (JFloat x) = fl_finite x"
| "jsonb_takes _ = True"

definition feature_takes :: "layer_feature \<Rightarrow> bool" where
  "feature_takes f \<longleftrightarrow> 1 \<le> ft_ordinal f \<and> ft_ordinal f < 2 ^ 31 \<and> (ft_valid f \<longleftrightarrow> lf_reason f = None)
     \<and> \<not> fl_less (ft_area f) (Fin 0) \<and> list_all (\<lambda>(k, v). jsonb_takes v) (ft_attributes f)"

section \<open>Parsing\<close>

datatype parse_error = Family_contract shape_error | Family_uncaught py_error | Records_disagree | Objectid_assertion

record parsed_family =
  pf_table :: shape_table
  pf_layer :: pystr
  pf_features :: "layer_feature list"

definition require_aligned :: "source_row list \<Rightarrow> source_geometry list \<Rightarrow> parse_error + unit" where
  "require_aligned rows geoms =
     (if map (\<lambda>r. int (sr_number r)) rows \<noteq> map sg_number geoms then Inl Records_disagree else Inr ())"

definition own_columns :: "pystr list" where
  "own_columns = [lit ''cod_uso'', lit ''uso_2024'', lit ''desc_uso'', lit ''uso_2026'', lit ''cod_uso_2026'', lit ''shape_area'']"

definition feature_parameters :: "(int, pystr list) pydict \<Rightarrow> source_row \<times> source_geometry \<Rightarrow> parse_error + layer_feature" where
  "feature_parameters flags p =
     (case p of (r, g) \<Rightarrow>
        (case row_objectid r of
           None \<Rightarrow> Inl Objectid_assertion
         | Some oid \<Rightarrow>
             Inr \<lparr>ft_snapshot = 0, ft_ordinal = int (sr_number r), ft_objectid = Some oid, ft_cod = row_cod_predial r,
               ft_nom = row_nom_predio r, ft_rodal = row_n_rodal r, ft_sup = row_sup_ha r, ft_area = sg_area g,
               ft_attributes = sr_values r, ft_geometry = sg_wkb g, ft_valid = sg_valid g, lf_srid = storage_srid,
               lf_reason = sg_reason g, lf_columns = map (\<lambda>k. (k, row_value r k)) own_columns,
               lf_flags = (case map_of flags (int (sr_number r)) of Some fl \<Rightarrow> fl | None \<Rightarrow> [])\<rparr>))"

definition build_feature_parameters :: "source_row list \<Rightarrow> source_geometry list \<Rightarrow> (int, pystr list) pydict
    \<Rightarrow> parse_error + layer_feature list" where
  "build_feature_parameters rows geoms flags = traverse (feature_parameters flags) (zip rows geoms)"

fun parse_failed :: "shape_failure \<Rightarrow> parse_error" where
  "parse_failed (Contract e) = Family_contract e"
| "parse_failed (Uncaught e) = Family_uncaught e"

definition lift_error :: "('e \<Rightarrow> 'f) \<Rightarrow> 'e + 'a \<Rightarrow> 'f + 'a" where
  "lift_error f r = (case r of Inl e \<Rightarrow> Inl (f e) | Inr x \<Rightarrow> Inr x)"

definition parse_forestry_family :: "ucd \<Rightarrow> (nat list \<Rightarrow> pystr) \<Rightarrow> 'g shapely \<Rightarrow> shape_files \<Rightarrow> pystr \<Rightarrow> parse_error + parsed_family" where
  "parse_forestry_family u sha sl files layer =
     bind_result (lift_error parse_failed (load_shapefile u sha files)) (\<lambda>table.
     bind_result (lift_error Family_contract (decode_polygon_records sl (case files (lit ''.shp'') of Some raw \<Rightarrow> raw | None \<Rightarrow> []))) (\<lambda>geoms.
     bind_result (require_aligned (tb_rows table) geoms) (\<lambda>_.
     bind_result (lift_error Family_contract (compute_quality_flags (tb_rows table) geoms)) (\<lambda>flags.
     bind_result (build_feature_parameters (tb_rows table) geoms flags) (\<lambda>features.
       Inr \<lparr>pf_table = table, pf_layer = layer, pf_features = features\<rparr>)))))"

section \<open>Persisting\<close>

datatype persist_error = Layer_conflict | Db_refused

definition insert_layer :: "parsed_family \<Rightarrow> int \<Rightarrow> forest_db \<Rightarrow> persist_error + int option \<times> forest_db" where
  "insert_layer p source db =
     (let t = pf_table p
      in if \<not> sha_text (tb_fingerprint t) \<or> \<not> filled (pf_layer p) then Inl Db_refused
         else if list_ex (\<lambda>l. ly_fingerprint l = tb_fingerprint t) (fb_layers db) then Inr (None, db)
         else Inr (Some (fb_next db),
           db\<lparr>fb_layers := fb_layers db @ [\<lparr>ly_id = fb_next db, ly_source = source, ly_fingerprint = tb_fingerprint t, ly_name = pf_layer p,
                 ly_sha256 = tb_sha256 t, ly_prj = tb_prj t, ly_srid = storage_srid, ly_encoding = tb_encoding t,
                 ly_shape_type = tb_shape_type t, ly_bbox = tb_bbox t, ly_count = length (tb_rows t), ly_created = fp_now (fb_pub db)\<rparr>],
              fb_pub := (fb_pub db)\<lparr>fp_snapshots := fp_snapshots (fb_pub db) @ [fb_next db]\<rparr>, fb_next := fb_next db + 1\<rparr>))"

definition resolve_existing :: "parsed_family \<Rightarrow> forest_db \<Rightarrow> persist_error + int" where
  "resolve_existing p db =
     (case find (\<lambda>l. ly_fingerprint l = tb_fingerprint (pf_table p)) (fb_layers db) of
        None \<Rightarrow> Inl Db_refused
      | Some l \<Rightarrow> (if ly_name l \<noteq> pf_layer p \<or> ly_count l \<noteq> length (tb_rows (pf_table p)) then Inl Layer_conflict else Inr (ly_id l)))"

definition persist_parsed_family :: "parsed_family \<Rightarrow> int \<Rightarrow> forest_db \<Rightarrow> persist_error + (int \<times> bool) \<times> forest_db" where
  "persist_parsed_family p source db =
     bind_result (insert_layer p source db) (\<lambda>(inserted, db).
       case inserted of
         None \<Rightarrow> bind_result (resolve_existing p db) (\<lambda>i. Inr ((i, True), db))
       | Some i \<Rightarrow>
           let features = map (\<lambda>f. f\<lparr>ft_snapshot := i\<rparr>) (pf_features p)
           in if list_all feature_takes features then Inr ((i, False), db\<lparr>fb_features := fb_features db @ features\<rparr>)
              else Inl Db_refused)"

section \<open>Accepting an upload\<close>

datatype rejection = Rej_archive upload_reason | Rej_contract upload_failure pystr | Rej_records | Rej_layer

text \<open>\<open>Failed\<close> is any other exception.\<close>

datatype upload_fault = Rejected rejection | Failed

record accepted_upload =
  ac_already :: bool
  ac_snapshot :: int
  ac_upload :: int
  ac_source :: int
  ac_sha :: pystr
  ac_size :: int
  ac_layer :: pystr
  ac_count :: nat
  ac_status :: version_status

record 'g upload_env =
  ue_ucd :: ucd
  ue_printable :: "nat \<Rightarrow> bool"
  ue_sha :: "nat list \<Rightarrow> pystr"
  ue_shapely :: "'g shapely"

definition forestry_upload_media_type :: pystr where "forestry_upload_media_type = lit ''application/zip''"

fun rejection_of :: "'g upload_env \<Rightarrow> parse_error \<Rightarrow> upload_fault" where
  "rejection_of en (Family_contract e) =
     (let d = describe_contract_failure (ue_ucd en) (shape_message (ue_printable en) [] e) in Rejected (Rej_contract (fst d) (snd d)))"
| "rejection_of en Records_disagree = Rejected Rej_records"
| "rejection_of en _ = Failed"

definition record_upload :: "parsed_family \<Rightarrow> pystr \<Rightarrow> int \<Rightarrow> stored_object \<Rightarrow> forest_db \<Rightarrow> upload_fault + accepted_upload \<times> forest_db" where
  "record_upload p filename user obj db =
     (case persist_uploaded_provenance (sj_sha obj) (sj_size obj) (sj_key obj) filename (Some forestry_upload_media_type)
             (fp_now (fb_pub db)) (fb_prov db) of
        Inl _ \<Rightarrow> Inl Failed
      | Inr (pr, pv) \<Rightarrow>
          (case persist_parsed_family p (ps_snapshot pr) (db\<lparr>fb_prov := pv\<rparr>) of
             Inl Layer_conflict \<Rightarrow> Inl (Rejected Rej_layer)
           | Inl Db_refused \<Rightarrow> Inl Failed
           | Inr ((i, already), db) \<Rightarrow>
               (if \<not> sha_text (sj_sha obj) \<or> sj_size obj \<le> 0 \<or> \<not> filled filename then Inl Failed
                else Inr (\<lparr>ac_already = already, ac_snapshot = i, ac_upload = fb_next db, ac_source = ps_snapshot pr, ac_sha = sj_sha obj,
                      ac_size = sj_size obj, ac_layer = pf_layer p, ac_count = length (tb_rows (pf_table p)),
                      ac_status = version_status (fb_pub db) i\<rparr>,
                    db\<lparr>fb_uploads := fb_uploads db @ [\<lparr>up_id = fb_next db, up_snapshot = i, up_source = ps_snapshot pr, up_user = user,
                         up_filename = filename, up_size = sj_size obj, up_sha = sj_sha obj, up_at = fp_now (fb_pub db)\<rparr>],
                       fb_next := fb_next db + 1\<rparr>))))"

definition parse_upload :: "'g upload_env \<Rightarrow> zip_archive \<Rightarrow> upload_fault + parsed_family" where
  "parse_upload en z =
     (case extract_upload_archive (ue_ucd en) z of
        (Inl e, _) \<Rightarrow> Inl (Rejected (Rej_archive e))
      | (Inr family, files) \<Rightarrow>
          lift_error (rejection_of en)
            (parse_forestry_family (ue_ucd en) (ue_sha en) (ue_shapely en) (map_of files) (ef_layer family)))"

definition accept_forestry_upload :: "'g upload_env \<Rightarrow> zip_archive \<Rightarrow> nat list \<Rightarrow> pystr \<Rightarrow> int \<Rightarrow> forest_db \<Rightarrow> object_store
    \<Rightarrow> (upload_fault + accepted_upload \<times> forest_db) \<times> object_store" where
  "accept_forestry_upload en z content filename user db store =
     (case parse_upload en z of
        Inl e \<Rightarrow> (Inl e, store)
      | Inr p \<Rightarrow>
          (case put_object (ue_sha en) content store of
             None \<Rightarrow> (Inl Failed, store)
           | Some (obj, store) \<Rightarrow> (record_upload p filename user obj db, store)))"

section \<open>The controlled import\<close>

datatype ingest_error = Ingest_parse parse_error | Ingest_provenance prov_error | Ingest_persist persist_error

record snapshot_ingestion =
  si_provenance :: persisted
  si_snapshot :: int
  si_fingerprint :: pystr
  si_count :: nat
  si_already :: bool

text \<open>\<open>files\<close> and \<open>stem\<close> are what the archive of the source root extracts to.\<close>

definition ingest_forestry_snapshot :: "'g upload_env \<Rightarrow> pystr \<Rightarrow> file_observation \<Rightarrow> file_fingerprint \<Rightarrow> shape_files \<Rightarrow> pystr \<Rightarrow> forest_db
    \<Rightarrow> ingest_error + snapshot_ingestion \<times> forest_db" where
  "ingest_forestry_snapshot en system_key ob ff files stem db =
     bind_result (lift_error Ingest_parse (parse_forestry_family (ue_ucd en) (ue_sha en) (ue_shapely en) files stem)) (\<lambda>p.
     bind_result (lift_error Ingest_provenance (persist_filesystem_provenance system_key ob ff (fb_prov db))) (\<lambda>(pr, pv).
     bind_result (lift_error Ingest_persist (persist_parsed_family p (ps_snapshot pr) (db\<lparr>fb_prov := pv\<rparr>))) (\<lambda>((i, already), db).
       Inr (\<lparr>si_provenance = pr, si_snapshot = i, si_fingerprint = tb_fingerprint (pf_table p), si_count = length (tb_rows (pf_table p)),
             si_already = already\<rparr>, db))))"

end
