(* ===== verification/UploadFacts.thy ===== *)
theory UploadFacts
  imports ForestryUpload
begin

text \<open>
  What an upload does to the tables: it adds at most one whole layer and never touches what is
  published.
\<close>

lemma lift_error_Inr [simp]: "lift_error f r = Inr x \<longleftrightarrow> r = Inr x"
  by (cases r) (simp_all add: lift_error_def)

lemma read_record_number: "read_record u raw header width n = Inr r \<Longrightarrow> sr_number r = n"
  by (auto simp: read_record_def Let_def split: if_splits)

lemma dbf_row_numbers:
  assumes "read_dbf_rows u raw = Inr rows"
  shows "map sr_number rows = [1..<Suc (length rows)]"
proof -
  obtain header width count where t: "traverse (read_record u raw header width) [1..<Suc count] = Inr rows"
    using assms by (auto simp: read_dbf_rows_def Let_def simp del: upt_Suc split: if_splits)
  from traverse_map [OF t, of sr_number id] read_record_number have "map sr_number rows = [1..<Suc count]" by fastforce
  moreover from this have "length rows = count" by (metis length_map length_upt diff_Suc_1)
  ultimately show ?thesis by simp
qed

lemma load_table_rows:
  assumes "load_shapefile u sha files = Inr t"
  shows "tb_rows t \<noteq> [] \<and> map sr_number (tb_rows t) = [1..<Suc (length (tb_rows t))]"
proof -
  obtain ms where "read_dbf_rows u ms = Inr (tb_rows t)" "tb_rows t \<noteq> []"
    using assms by (auto simp: load_shapefile_def Let_def split: if_splits prod.splits)
  with dbf_row_numbers show ?thesis by blast
qed

lemma feature_parameters_Inr:
  "feature_parameters flags (r, g) = Inr f \<Longrightarrow> ft_ordinal f = int (sr_number r) \<and> ft_attributes f = sr_values r
    \<and> ft_geometry f = sg_wkb g \<and> ft_valid f = sg_valid g \<and> lf_reason f = sg_reason g \<and> ft_area f = sg_area g"
  by (auto simp: feature_parameters_def split: option.splits)

lemma parsed_features:
  assumes "parse_forestry_family u sha sl files layer = Inr p"
  shows "pf_layer p = layer \<and> tb_rows (pf_table p) \<noteq> []
    \<and> map ft_ordinal (pf_features p) = map int [1..<Suc (length (tb_rows (pf_table p)))]
    \<and> map ft_attributes (pf_features p) = map sr_values (tb_rows (pf_table p))"
proof -
  obtain table geoms flags features where
    t: "load_shapefile u sha files = Inr table" and
    al: "require_aligned (tb_rows table) geoms = Inr ()" and
    f: "build_feature_parameters (tb_rows table) geoms flags = Inr features" and
    p: "p = \<lparr>pf_table = table, pf_layer = layer, pf_features = features\<rparr>"
    using assms by (auto simp: parse_forestry_family_def)
  let ?rows = "tb_rows table"
  have len: "length geoms = length ?rows" using al by (auto simp: require_aligned_def split: if_splits) (metis length_map)
  have tr: "traverse (feature_parameters flags) (zip ?rows geoms) = Inr features" using f by (simp add: build_feature_parameters_def)
  have "map ft_ordinal features = map (\<lambda>(r, g). int (sr_number r)) (zip ?rows geoms)"
    by (rule traverse_map [OF tr]) (use feature_parameters_Inr in auto)
  also have "\<dots> = map int (map sr_number (map fst (zip ?rows geoms)))" by (simp add: case_prod_beta')
  also have "\<dots> = map int [1..<Suc (length ?rows)]" using load_table_rows [OF t] len by (simp del: upt_Suc)
  finally have o: "map ft_ordinal features = map int [1..<Suc (length ?rows)]" .
  have "map ft_attributes features = map (\<lambda>(r, g). sr_values r) (zip ?rows geoms)"
    by (rule traverse_map [OF tr]) (use feature_parameters_Inr in auto)
  also have "\<dots> = map sr_values (map fst (zip ?rows geoms))" by (simp add: case_prod_beta')
  finally have "map ft_attributes features = map sr_values ?rows" using len by simp
  with o load_table_rows [OF t] show ?thesis by (simp add: p del: upt_Suc)
qed

section \<open>Whole layers\<close>

definition features_of_layer :: "forest_db \<Rightarrow> int \<Rightarrow> layer_feature list" where
  "features_of_layer db i = filter (\<lambda>f. ft_snapshot f = i) (fb_features db)"

definition layer_whole :: "forest_db \<Rightarrow> layer_snapshot \<Rightarrow> bool" where
  "layer_whole db l \<longleftrightarrow> 1 \<le> ly_count l
     \<and> map ft_ordinal (features_of_layer db (ly_id l)) = map int [1..<Suc (ly_count l)]"

definition forest_ok :: "forest_db \<Rightarrow> bool" where
  "forest_ok db \<longleftrightarrow> provenance_ok (fb_prov db)
     \<and> distinct (map ly_fingerprint (fb_layers db)) \<and> distinct (map ly_id (fb_layers db))
     \<and> map ly_id (fb_layers db) = fp_snapshots (fb_pub db)
     \<and> (\<forall>e \<in> set (fp_events (fb_pub db)). fe_snapshot e \<in> ly_id ` set (fb_layers db))
     \<and> (\<forall>i. fp_published (fb_pub db) = Some i \<longrightarrow> i \<in> fe_snapshot ` set (fp_events (fb_pub db)))
     \<and> (\<forall>l \<in> set (fb_layers db). ly_id l < fb_next db \<and> layer_whole db l)
     \<and> (\<forall>f \<in> set (fb_features db). ft_snapshot f \<in> ly_id ` set (fb_layers db) \<and> feature_takes f)
     \<and> (\<forall>x \<in> set (fb_uploads db). up_snapshot x \<in> ly_id ` set (fb_layers db))"

text \<open>\<open>added db db' ls fs\<close>: the layers and features a transaction appends; nothing published changes.\<close>

definition added :: "forest_db \<Rightarrow> forest_db \<Rightarrow> layer_snapshot list \<Rightarrow> layer_feature list \<Rightarrow> bool" where
  "added db db' ls fs \<longleftrightarrow> fb_layers db' = fb_layers db @ ls \<and> fb_features db' = fb_features db @ fs
     \<and> fp_published (fb_pub db') = fp_published (fb_pub db) \<and> fp_events (fb_pub db') = fp_events (fb_pub db)
     \<and> fp_now (fb_pub db') = fp_now (fb_pub db)"

definition parsed_ok :: "parsed_family \<Rightarrow> bool" where
  "parsed_ok p \<longleftrightarrow> tb_rows (pf_table p) \<noteq> []
     \<and> map ft_ordinal (pf_features p) = map int [1..<Suc (length (tb_rows (pf_table p)))]"

lemma persist_parsed:
  assumes r: "persist_parsed_family p source db = Inr ((i, already), db')" and ok: "forest_ok db" and p: "parsed_ok p"
  shows "forest_ok db' \<and> fb_prov db' = fb_prov db \<and> fb_uploads db' = fb_uploads db \<and> i \<in> ly_id ` set (fb_layers db')
    \<and> (if already then db' = db \<and> (\<exists>l \<in> set (fb_layers db). ly_id l = i \<and> ly_fingerprint l = tb_fingerprint (pf_table p)
           \<and> ly_name l = pf_layer p \<and> ly_count l = length (tb_rows (pf_table p)))
       else i = fb_next db \<and> (\<exists>l. ly_id l = i \<and> ly_fingerprint l = tb_fingerprint (pf_table p) \<and> ly_name l = pf_layer p
           \<and> ly_count l = length (tb_rows (pf_table p)) \<and> added db db' [l] (map (\<lambda>f. f\<lparr>ft_snapshot := i\<rparr>) (pf_features p))))"
proof (cases "list_ex (\<lambda>l. ly_fingerprint l = tb_fingerprint (pf_table p)) (fb_layers db)")
  case True
  with r have e: "resolve_existing p db = Inr i" "already" "db' = db"
    by (auto simp: persist_parsed_family_def insert_layer_def Let_def split: if_splits)
  then obtain l where "find (\<lambda>l. ly_fingerprint l = tb_fingerprint (pf_table p)) (fb_layers db) = Some l"
    "ly_name l = pf_layer p" "ly_count l = length (tb_rows (pf_table p))" "i = ly_id l"
    by (auto simp: resolve_existing_def split: option.splits if_splits)
  with find_there [OF this(1)] e ok show ?thesis by auto
next
  case False
  let ?t = "pf_table p" and ?fs = "map (\<lambda>f. f\<lparr>ft_snapshot := i\<rparr>) (pf_features p)"
  define l where "l = \<lparr>ly_id = fb_next db, ly_source = source, ly_fingerprint = tb_fingerprint ?t, ly_name = pf_layer p,
                 ly_sha256 = tb_sha256 ?t, ly_prj = tb_prj ?t, ly_srid = storage_srid, ly_encoding = tb_encoding ?t,
                 ly_shape_type = tb_shape_type ?t, ly_bbox = tb_bbox ?t, ly_count = length (tb_rows ?t), ly_created = fp_now (fb_pub db)\<rparr>"
  from r False have e: "i = fb_next db" "\<not> already" "list_all feature_takes ?fs"
    "db' = db\<lparr>fb_layers := fb_layers db @ [l], fb_pub := (fb_pub db)\<lparr>fp_snapshots := fp_snapshots (fb_pub db) @ [i]\<rparr>,
       fb_next := fb_next db + 1, fb_features := fb_features db @ ?fs\<rparr>"
    by (auto simp: persist_parsed_family_def insert_layer_def Let_def l_def split: if_splits)
  have l: "ly_id l = i" "ly_fingerprint l = tb_fingerprint ?t" "ly_name l = pf_layer p" "ly_count l = length (tb_rows ?t)"
    by (simp_all add: l_def e(1))
  have fresh: "tb_fingerprint ?t \<notin> ly_fingerprint ` set (fb_layers db)" using False by (auto simp: list_ex_iff)
  have ids: "i \<notin> ly_id ` set (fb_layers db)" using ok e(1) by (fastforce simp: forest_ok_def)
  then have ids2: "i \<notin> set (fp_snapshots (fb_pub db))" using ok by (metis forest_ok_def list.set_map)
  have none: "filter (\<lambda>f. ft_snapshot f = i) (fb_features db) = []"
    using ok ids by (auto simp: forest_ok_def filter_empty_conv)
  have own: "filter (\<lambda>f. ft_snapshot f = j) ?fs = (if j = i then ?fs else [])" for j
    by (simp add: filter_empty_conv filter_id_conv)
  have "ft_ordinal \<circ> ft_snapshot_update (\<lambda>_. i) = (ft_ordinal :: layer_feature \<Rightarrow> int)" by (simp add: fun_eq_iff)
  then have new: "layer_whole db' l" using p none own [of i]
    by (simp add: layer_whole_def features_of_layer_def parsed_ok_def e(4) l Suc_le_eq del: upt_Suc)
  have old: "layer_whole db' k" if "k \<in> set (fb_layers db)" for k
  proof -
    have "ly_id k \<noteq> i" "layer_whole db k" using that ids ok by (auto simp: forest_ok_def)
    then show ?thesis using own [of "ly_id k"] by (simp add: layer_whole_def features_of_layer_def e(4) del: upt_Suc)
  qed
  have less: "ly_id k < fb_next db + 1" if "k \<in> set (fb_layers db)" for k using ok that by (fastforce simp: forest_ok_def)
  have feats: "\<forall>f \<in> set (fb_features db @ ?fs). ft_snapshot f \<in> ly_id ` set (fb_layers db @ [l]) \<and> feature_takes f"
    using ok e(3) l(1) by (auto simp: forest_ok_def list_all_iff)
  have "forest_ok db'"
    unfolding forest_ok_def
  proof (intro conjI)
    show "\<forall>k \<in> set (fb_layers db'). ly_id k < fb_next db' \<and> layer_whole db' k" using new old less l(1) by (auto simp: e)
    show "\<forall>f \<in> set (fb_features db'). ft_snapshot f \<in> ly_id ` set (fb_layers db') \<and> feature_takes f" using feats by (simp add: e(4))
    show "\<forall>x \<in> set (fb_uploads db'). up_snapshot x \<in> ly_id ` set (fb_layers db')" using ok by (auto simp: e(4) forest_ok_def)
  qed (use ok fresh ids ids2 l in \<open>auto simp: e(4) forest_ok_def\<close>)
  moreover have "added db db' [l] ?fs" by (simp add: added_def e(4))
  ultimately show ?thesis using e l by (auto intro: exI [of _ l])
qed

section \<open>A recorded upload\<close>

lemma forest_ok_prov: "forest_ok db \<Longrightarrow> provenance_ok pv \<Longrightarrow> forest_ok (db\<lparr>fb_prov := pv\<rparr>)"
  by (auto simp: forest_ok_def layer_whole_def features_of_layer_def simp del: upt_Suc)

lemma forest_ok_upload:
  "forest_ok db \<Longrightarrow> i \<in> ly_id ` set (fb_layers db) \<Longrightarrow> up_snapshot u = i
    \<Longrightarrow> forest_ok (db\<lparr>fb_uploads := fb_uploads db @ [u], fb_next := fb_next db + 1\<rparr>)"
  by (fastforce simp: forest_ok_def layer_whole_def features_of_layer_def simp del: zless_add1_eq)

lemma parse_upload_ok:
  assumes "parse_upload en z = Inr p"
  shows "parsed_ok p"
proof -
  obtain r files where x: "extract_upload_archive (ue_ucd en) z = (r, files)" by (metis surj_pair)
  then obtain family where "r = Inr family" using assms by (cases r) (auto simp: parse_upload_def)
  with x assms have "parse_forestry_family (ue_ucd en) (ue_sha en) (ue_shapely en) (map_of files) (ef_layer family) = Inr p"
    by (simp add: parse_upload_def)
  from parsed_features [OF this] show ?thesis by (simp add: parsed_ok_def)
qed

lemma record_upload_facts:
  assumes r: "record_upload p filename user obj db = Inr (a, db')" and ok: "forest_ok db" and p: "parsed_ok p"
  shows "forest_ok db' \<and> ac_snapshot a \<in> ly_id ` set (fb_layers db')
    \<and> (\<exists>pr. persist_uploaded_provenance (sj_sha obj) (sj_size obj) (sj_key obj) filename (Some forestry_upload_media_type)
             (fp_now (fb_pub db)) (fb_prov db) = Inr (pr, fb_prov db') \<and> ac_source a = ps_snapshot pr)
    \<and> (\<exists>u. fb_uploads db' = fb_uploads db @ [u] \<and> up_snapshot u = ac_snapshot a \<and> up_sha u = sj_sha obj \<and> up_user u = user)
    \<and> ac_status a = version_status (fb_pub db') (ac_snapshot a) \<and> sha_text (sj_sha obj) \<and> 0 < sj_size obj
    \<and> (if ac_already a then added db db' [] [] \<and> (\<exists>l \<in> set (fb_layers db). ly_id l = ac_snapshot a \<and> ly_fingerprint l = tb_fingerprint (pf_table p)
           \<and> ly_name l = pf_layer p \<and> ly_count l = length (tb_rows (pf_table p)))
       else ac_snapshot a = fb_next db \<and> (\<exists>l. ly_id l = ac_snapshot a \<and> ly_fingerprint l = tb_fingerprint (pf_table p) \<and> ly_name l = pf_layer p
           \<and> ly_count l = length (tb_rows (pf_table p))
           \<and> added db db' [l] (map (\<lambda>f. f\<lparr>ft_snapshot := ac_snapshot a\<rparr>) (pf_features p))))"
proof -
  obtain pr pv where prov: "persist_uploaded_provenance (sj_sha obj) (sj_size obj) (sj_key obj) filename (Some forestry_upload_media_type)
             (fp_now (fb_pub db)) (fb_prov db) = Inr (pr, pv)"
    using r by (auto simp: record_upload_def split: sum.splits)
  obtain i already db1 where per: "persist_parsed_family p (ps_snapshot pr) (db\<lparr>fb_prov := pv\<rparr>) = Inr ((i, already), db1)"
    using r prov by (auto simp: record_upload_def split: sum.splits persist_error.splits)
  define u where "u = \<lparr>up_id = fb_next db1, up_snapshot = i, up_source = ps_snapshot pr, up_user = user,
                         up_filename = filename, up_size = sj_size obj, up_sha = sj_sha obj, up_at = fp_now (fb_pub db1)\<rparr>"
  have e: "sha_text (sj_sha obj)" "0 < sj_size obj" "ac_already a = already" "ac_snapshot a = i" "ac_source a = ps_snapshot pr"
    "ac_status a = version_status (fb_pub db1) i" "db' = db1\<lparr>fb_uploads := fb_uploads db1 @ [u], fb_next := fb_next db1 + 1\<rparr>"
    using r prov per by (auto simp: record_upload_def u_def split: if_splits)
  have "provenance_ok pv" using persist_uploaded_facts [OF prov] ok by (auto simp: forest_ok_def prov_step_def)
  then have ok1: "forest_ok (db\<lparr>fb_prov := pv\<rparr>)" using ok forest_ok_prov by blast
  note f = persist_parsed [OF per ok1 p]
  have "forest_ok db'" unfolding e(7) using f by (intro forest_ok_upload [of _ i]) (auto simp: u_def)
  moreover have "fb_prov db' = pv" using f by (simp add: e(7))
  moreover have "\<exists>u. fb_uploads db' = fb_uploads db @ [u] \<and> up_snapshot u = ac_snapshot a \<and> up_sha u = sj_sha obj \<and> up_user u = user"
    using f by (intro exI [of _ u]) (simp add: e u_def)
  moreover have "ac_status a = version_status (fb_pub db') (ac_snapshot a)" by (simp add: e)
  moreover have "ac_snapshot a \<in> ly_id ` set (fb_layers db')" using f by (simp add: e)
  moreover have "if ac_already a then added db db' [] [] \<and> (\<exists>l \<in> set (fb_layers db). ly_id l = ac_snapshot a \<and> ly_fingerprint l = tb_fingerprint (pf_table p)
           \<and> ly_name l = pf_layer p \<and> ly_count l = length (tb_rows (pf_table p)))
       else ac_snapshot a = fb_next db \<and> (\<exists>l. ly_id l = ac_snapshot a \<and> ly_fingerprint l = tb_fingerprint (pf_table p) \<and> ly_name l = pf_layer p
           \<and> ly_count l = length (tb_rows (pf_table p))
           \<and> added db db' [l] (map (\<lambda>f. f\<lparr>ft_snapshot := ac_snapshot a\<rparr>) (pf_features p)))"
    using f by (cases already) (auto simp: e added_def)
  ultimately show ?thesis using prov e by blast
qed

lemma accept_Inr:
  assumes "accept_forestry_upload en z content filename user db store = (Inr (a, db'), store')"
  obtains p obj where "parse_upload en z = Inr p" "put_object (ue_sha en) content store = Some (obj, store')"
    "record_upload p filename user obj db = Inr (a, db')"
  using assms by (auto simp: accept_forestry_upload_def split: sum.splits option.splits)

end
