(* ===== verification/LayerFacts.thy ===== *)
theory LayerFacts
  imports UploadFacts
begin

text \<open>
  A whole layer written as the format and the contract say, and what becomes of it when it is read.
\<close>

section \<open>The files of a layer\<close>

definition main_header :: "nat \<Rightarrow> nat list" where
  "main_header n =
     be4 9994 @ replicate 20 0 @ be4 ((100 + n) div 2) @ le_bytes 4 1000 @ le_bytes 4 5 @ replicate 64 0"

definition write_family :: "(pyfloat \<Rightarrow> pystr) \<Rightarrow> json list list \<Rightarrow> bit_ring list list \<Rightarrow> shape_files" where
  "write_family ftext rows recs =
     [lit ''.cpg'' \<mapsto> lit ''UTF-8'', lit ''.prj'' \<mapsto> expected_prj,
      lit ''.shp'' \<mapsto> main_header (length (write_records 1 recs)) @ write_records 1 recs,
      lit ''.shx'' \<mapsto> main_header (8 * length rows) @ replicate (8 * length rows) 0,
      lit ''.dbf'' \<mapsto> write_dbf ftext rows]"

lemma length_be4 [simp]: "length (be4 n) = 4"
  by (simp add: be4_def)

lemma length_main_header [simp]: "length (main_header n) = 100"
  by (simp add: main_header_def)

lemma main_header_back:
  assumes "length body = n" "even n" "100 + n < 2 ^ 32"
  shows "\<exists>bbox. read_main_header label (main_header n @ body) = Inr (5, bbox, 100 + int n)"
proof -
  define raw where "raw = main_header n @ body"
  have len: "length raw = 100 + n" using assms(1) by (simp add: raw_def)
  have magic: "be_i32 raw 0 = 9994"
    using segment_append_at [of "[]" 0 "be4 9994" 4] be_i32_back [of 0 raw 9994] by (simp add: raw_def main_header_def)
  have words: "be_i32 raw 24 = int ((100 + n) div 2)"
    using segment_append_at [of "be4 9994 @ replicate 20 0" 24 "be4 ((100 + n) div 2)" 4] assms(3)
    by (intro be_i32_back) (simp_all add: raw_def main_header_def)
  have version: "le_i32 raw 28 = 1000"
    using segment_append_at [of "be4 9994 @ replicate 20 0 @ be4 ((100 + n) div 2)" 28 "le_bytes 4 1000" 4] le_i32_back [of 28 raw 1000]
    by (simp add: raw_def main_header_def)
  have type: "le_i32 raw 32 = 5"
    using segment_append_at [of "be4 9994 @ replicate 20 0 @ be4 ((100 + n) div 2) @ le_bytes 4 1000" 32 "le_bytes 4 5" 4]
      le_i32_back [of 32 raw 5]
    by (simp add: raw_def main_header_def)
  have "int ((100 + n) div 2) * 2 = 100 + int n" using assms(2) by (simp add: zdiv_int)
  then show ?thesis
    unfolding raw_def [symmetric] read_main_header_def Let_def using len
    by (simp add: magic words version type shapefile_magic_def shapefile_version_def)
qed

lemma no_return: "\<forall>c \<in> set s. c \<noteq> 13 \<Longrightarrow> universal_newlines s = s"
  by (induction s) auto

lemma prj_ascii: "list_all (\<lambda>c. c < 128 \<and> c \<noteq> 13) expected_prj"
  by (simp add: expected_prj_def)

lemma prj_strip: "strip expected_prj = expected_prj"
  unfolding strip_def by (rule strip_by_fixed) (simp add: expected_prj_def is_space_def)

lemma prj_valid: "validate_prj expected_prj = Inr expected_prj"
proof -
  have "utf8_decode expected_prj = expected_prj" using prj_ascii by (intro utf8_decode_ascii) (simp add: list_all_iff)
  moreover have "universal_newlines expected_prj = expected_prj" using prj_ascii by (intro no_return) (simp add: list_all_iff)
  ultimately show ?thesis by (simp add: validate_prj_def prj_strip)
qed

lemma encoding_valid: "validate_encoding (lit ''UTF-8'') = Inr (lit ''UTF-8'')"
  by (simp add: validate_encoding_def ascii_decode_def strip_def strip_by_def is_space_def accepted_encodings_def ascii_upper_def)

lemma even_write_record: "even (length (write_record n rs))"
  by (simp add: write_record_def length_record_body)

lemma even_concat: "\<forall>xs \<in> set xss. even (length xs) \<Longrightarrow> even (length (concat xss))"
  by (induction xss) simp_all

lemma even_write_records: "even (length (write_records n recs))"
  unfolding write_records_def by (rule even_concat) (auto simp: even_write_record)

lemma written_layer_loads:
  assumes rows: "\<forall>vs \<in> set rows. list_all2 (storable u ftext) dbf_fields vs" "rows \<noteq> []"
    and size: "100 + length (write_records 1 recs) < 2 ^ 32" "100 + 8 * length rows < 2 ^ 32"
  shows "\<exists>t. load_shapefile u sha (write_family ftext rows recs) = Inr t
    \<and> tb_rows t = map (\<lambda>(n, vs). \<lparr>sr_number = n, sr_values = zip (map snd dbf_fields) vs\<rparr>) (zip [1..<Suc (length rows)] rows)"
proof -
  let ?files = "write_family ftext rows recs"
  define shp where "shp = main_header (length (write_records 1 recs)) @ write_records 1 recs"
  define shx where "shx = main_header (8 * length rows) @ replicate (8 * length rows) 0"
  define dbf where "dbf = write_dbf ftext rows"
  have f: "?files (lit ''.cpg'') = Some (lit ''UTF-8'')" "?files (lit ''.prj'') = Some expected_prj" "?files (lit ''.shp'') = Some shp"
    "?files (lit ''.shx'') = Some shx" "?files (lit ''.dbf'') = Some dbf"
    "?files (lit ''.sbn'') = None" "?files (lit ''.sbx'') = None" "?files (lit ''.shp.xml'') = None"
    by (simp_all add: write_family_def shp_def shx_def dbf_def)
  define ms where "ms = [(lit ''.shp'', shp), (lit ''.shx'', shx), (lit ''.dbf'', dbf), (lit ''.prj'', expected_prj), (lit ''.cpg'', lit ''UTF-8'')]"
  have resolve: "resolve_members ?files = Inr ms"
    unfolding resolve_members_def Let_def required_suffixes_def optional_suffixes_def
    by (simp add: f List.map_filter_simps ms_def del: lit_simps)
  have m: "member ms ''.cpg'' = lit ''UTF-8''" "member ms ''.prj'' = expected_prj" "member ms ''.shp'' = shp"
    "member ms ''.shx'' = shx" "member ms ''.dbf'' = dbf"
    by (simp_all add: member_def ms_def)
  obtain bbox where h: "read_main_header ''.shp'' shp = Inr (5, bbox, 100 + int (length (write_records 1 recs)))"
    using main_header_back [of "write_records 1 recs" "length (write_records 1 recs)" "''.shp''"] size(1) even_write_records [of 1 recs]
    by (auto simp: shp_def)
  obtain bbox' where "read_main_header ''.shx'' shx = Inr (5, bbox', 100 + int (8 * length rows))"
    using main_header_back [of "replicate (8 * length rows) 0" "8 * length rows" "''.shx''"] size(2) by (auto simp: shx_def)
  then have x: "read_shx_count shx 5 = Inr (int (length rows))" by (simp add: read_shx_count_def)
  have "length rows < 2 ^ 32" using size(2) by simp
  note d = read_dbf_back [OF rows(1) this, folded dbf_def]
  obtain digests fp where fp: "fingerprint_members sha ms = (digests, fp)" by (metis surj_pair)
  show ?thesis
    unfolding load_shapefile_def resolve bind_result.simps m encoding_valid prj_valid h prod.case
    using rows(2) by (simp add: polygon_shape_type_def x d fp del: upt_Suc)
qed

lemma length_write_record: "8 \<le> length (write_record n rs)"
  by (simp add: write_record_def be4_def)

lemma length_concat_ge: "\<forall>xs \<in> set xss. k \<le> length xs \<Longrightarrow> k * length xss \<le> length (concat xss)"
  by (induction xss) auto

lemma length_write_records: "8 * length recs \<le> length (write_records n recs)"
proof -
  let ?xss = "map (\<lambda>(n, rs). write_record n rs) (zip [n..<n + length recs] recs)"
  have "8 * length ?xss \<le> length (concat ?xss)"
    by (rule length_concat_ge) (auto simp: length_write_record simp del: length_concat)
  then show ?thesis by (simp add: write_records_def del: length_concat upt_Suc)
qed

lemma flags_computed:
  "map (\<lambda>r. int (sr_number r)) rows = map sg_number geoms \<Longrightarrow> \<exists>flags. compute_quality_flags rows geoms = Inr flags"
  unfolding compute_quality_flags_def Let_def split_beta by auto

lemma objectid_first:
  assumes "list_all2 (storable u ftext) dbf_fields vs" "hd vs = JInt i"
  shows "row_objectid \<lparr>sr_number = n, sr_values = zip (map snd dbf_fields) vs\<rparr> = Some i"
proof -
  obtain v vs' where "vs = v # vs'" using assms(1) by (cases vs) (simp_all add: dbf_fields_def)
  then show ?thesis using assms(2) by (simp add: row_objectid_def row_value_def dbf_fields_def del: lit_simps)
qed

definition layer_fingerprint :: "(nat list \<Rightarrow> pystr) \<Rightarrow> shape_files \<Rightarrow> pystr" where
  "layer_fingerprint sha files = (case resolve_members files of Inl _ \<Rightarrow> [] | Inr ms \<Rightarrow> snd (fingerprint_members sha ms))"

lemma load_fingerprint:
  "load_shapefile u sha files = Inr t \<Longrightarrow> tb_fingerprint t = layer_fingerprint sha files"
  by (auto simp: load_shapefile_def layer_fingerprint_def split: if_splits prod.splits)

lemma layer_fingerprint_sha: "load_shapefile u sha files = Inr t \<Longrightarrow> \<exists>x. layer_fingerprint sha files = sha x"
  by (auto simp: load_shapefile_def layer_fingerprint_def fingerprint_members_def Let_def)

lemma feature_parameters_takes:
  assumes "feature_parameters flags (r, build_feature sl k rings) = Inr f" "1 \<le> sr_number r" "sr_number r < 2 ^ 31"
    "list_all (\<lambda>(k, v). jsonb_takes v) (sr_values r)" "\<And>g. \<not> fl_less (sl_area sl g) (Fin 0)"
  shows "feature_takes f"
  using feature_parameters_Inr [OF assms(1)] assms(2-5) by (simp add: feature_takes_def build_feature_def Let_def)

text \<open>
  A layer that follows the contract is never refused: written as the format says, with an object
  number in every row and as many rows as records, it is parsed into one feature for each row, in
  order, with the values of the row and the geometry of the record.
\<close>

lemma written_layer_parses:
  assumes rows: "\<forall>vs \<in> set rows. list_all2 (storable u ftext) dbf_fields vs \<and> (\<exists>i. hd vs = JInt i)" "rows \<noteq> []"
    and recs: "list_all record_ok recs" "length recs = length rows"
    and size: "100 + length (write_records 1 recs) < 2 ^ 32"
  shows "\<exists>p. parse_forestry_family u sha sl (write_family ftext rows recs) layer = Inr p \<and> pf_layer p = layer
    \<and> map ft_attributes (pf_features p) = map (zip (map snd dbf_fields)) rows
    \<and> map ft_geometry (pf_features p)
        = map (\<lambda>(n, rs). sg_wkb (build_feature sl (int n) (map (map decode_point) rs))) (zip [1..<Suc (length recs)] recs)
    \<and> tb_fingerprint (pf_table p) = layer_fingerprint sha (write_family ftext rows recs) \<and> length (tb_rows (pf_table p)) = length rows
    \<and> (\<exists>x. tb_fingerprint (pf_table p) = sha x)
    \<and> ((\<forall>vs \<in> set rows. list_all jsonb_takes vs) \<and> (\<forall>g. \<not> fl_less (sl_area sl g) (Fin 0)) \<longrightarrow> list_all feature_takes (pf_features p))"
proof -
  let ?n = "length rows"
  let ?files = "write_family ftext rows recs"
  define mk where "mk = (\<lambda>(n :: nat, vs). \<lparr>sr_number = n, sr_values = zip (map snd dbf_fields) vs\<rparr>)"
  define mg where "mg = (\<lambda>(n :: nat, rs). build_feature sl (int n) (map (map decode_point) rs))"
  define rws where "rws = map mk (zip [1..<Suc ?n] rows)"
  define geoms where "geoms = map mg (zip [1..<Suc ?n] recs)"
  have n: "8 * ?n \<le> length (write_records 1 recs)" using length_write_records [of recs 1] recs(2) by simp
  obtain t where t: "load_shapefile u sha ?files = Inr t" "tb_rows t = rws"
    using written_layer_loads [of rows u ftext recs sha] rows size n by (auto simp: rws_def mk_def)
  have "length recs < 2 ^ 31" using n size recs(2) by simp
  then have g: "decode_polygon_records sl (main_header (length (write_records 1 recs)) @ write_records 1 recs) = Inr geoms"
    using decode_records_back [of "main_header (length (write_records 1 recs))" recs sl] recs by (simp add: geoms_def mg_def del: upt_Suc)
  have shp: "?files (lit ''.shp'') = Some (main_header (length (write_records 1 recs)) @ write_records 1 recs)"
    by (simp add: write_family_def)
  have up: "length [1..<Suc ?n] = ?n" by (simp del: upt_Suc)
  have num: "map (\<lambda>r. int (sr_number r)) rws = map int [1..<Suc ?n]"
  proof -
    have "map (\<lambda>r. int (sr_number r)) rws = map int (map fst (zip [1..<Suc ?n] rows))"
      by (simp add: rws_def mk_def case_prod_beta' o_def del: upt_Suc map_fst_zip)
    then show ?thesis using up by (simp only: map_fst_zip)
  qed
  have "map sg_number geoms = map int (map fst (zip [1..<Suc ?n] recs))"
    by (simp add: geoms_def mg_def build_feature_def Let_def case_prod_beta' o_def del: upt_Suc map_fst_zip)
  then have "map sg_number geoms = map int [1..<Suc ?n]" using up recs(2) by (simp only: map_fst_zip)
  with num have al: "map (\<lambda>r. int (sr_number r)) rws = map sg_number geoms" by simp
  obtain flags where flags: "compute_quality_flags rws geoms = Inr flags" using flags_computed [OF al] by blast
  have len: "length rws = ?n" "length geoms = ?n" using recs(2) by (simp_all only: rws_def geoms_def up length_map length_zip min.idem)
  have "\<exists>f. feature_parameters flags q = Inr f" if q: "q \<in> set (zip rws geoms)" for q
  proof -
    obtain r g where rg: "q = (r, g)" by (metis surj_pair)
    then have "r \<in> set rws" using q by (auto dest: set_zip_leftD)
    then obtain k vs where r: "r = mk (k, vs)" "vs \<in> set rows" by (auto simp: rws_def dest: set_zip_rightD)
    with rows(1) obtain i where "list_all2 (storable u ftext) dbf_fields vs" "hd vs = JInt i" by blast
    from objectid_first [OF this] show ?thesis by (simp add: rg r mk_def feature_parameters_def)
  qed
  then obtain fs where fs: "traverse (feature_parameters flags) (zip rws geoms) = Inr fs" using traverse_total by blast
  have attrs: "map ft_attributes fs = map (\<lambda>(r, g). sr_values r) (zip rws geoms)"
    by (rule traverse_map [OF fs]) (use feature_parameters_Inr in auto)
  have geo: "map ft_geometry fs = map (\<lambda>(r, g). sg_wkb g) (zip rws geoms)"
    by (rule traverse_map [OF fs]) (use feature_parameters_Inr in auto)
  have "map (\<lambda>(r, g). sr_values r) (zip rws geoms) = map sr_values (map fst (zip rws geoms))" by (simp add: case_prod_beta')
  also have "\<dots> = map sr_values rws" using len by simp
  also have "\<dots> = map (zip (map snd dbf_fields)) (map snd (zip [1..<Suc ?n] rows))"
    by (simp add: rws_def mk_def case_prod_beta' o_def del: upt_Suc map_snd_zip)
  also have "\<dots> = map (zip (map snd dbf_fields)) rows" using up by (simp only: map_snd_zip)
  finally have attrs2: "map ft_attributes fs = map (zip (map snd dbf_fields)) rows" by (simp add: attrs)
  have "map (\<lambda>(r, g). sg_wkb g) (zip rws geoms) = map sg_wkb (map snd (zip rws geoms))" by (simp add: case_prod_beta')
  also have "\<dots> = map sg_wkb geoms" using len by simp
  finally have geo2: "map ft_geometry fs = map sg_wkb geoms" by (simp add: geo)
  have "parse_forestry_family u sha sl ?files layer = Inr \<lparr>pf_table = t, pf_layer = layer, pf_features = fs\<rparr>"
    unfolding parse_forestry_family_def t(1) shp option.case
    by (simp add: lift_error_def t(2) g require_aligned_def al flags build_feature_parameters_def fs del: One_nat_def)
  moreover have "list_all feature_takes fs" if j: "\<forall>vs \<in> set rows. list_all jsonb_takes vs" and area: "\<forall>g. \<not> fl_less (sl_area sl g) (Fin 0)"
    unfolding list_all_iff
  proof
    fix f assume "f \<in> set fs"
    then obtain r g where rg: "(r, g) \<in> set (zip rws geoms)" "feature_parameters flags (r, g) = Inr f"
      using traverse_mem [OF fs] by (metis surj_pair)
    obtain k vs where r: "r = mk (k, vs)" "(k, vs) \<in> set (zip [1..<Suc ?n] rows)"
      using set_zip_leftD [OF rg(1)] by (auto simp: rws_def simp del: upt_Suc)
    obtain k' rs where g: "g = build_feature sl (int k') (map (map decode_point) rs)"
      using set_zip_rightD [OF rg(1)] by (auto simp: geoms_def mg_def simp del: upt_Suc)
    have "k \<in> set [1..<Suc ?n]" "vs \<in> set rows" using set_zip_leftD [OF r(2)] set_zip_rightD [OF r(2)] by blast+
    moreover have "?n < 2 ^ 31" using n size by simp
    ultimately have k: "1 \<le> k" "k < 2 ^ 31" and vs: "list_all jsonb_takes vs" using j by auto
    have "list_all (\<lambda>(k, v). jsonb_takes v) (zip cs vs)" for cs :: "pystr list"
      using vs by (auto simp: list_all_iff dest: set_zip_rightD)
    with feature_parameters_takes [OF rg(2) [unfolded g]] k area show "feature_takes f" by (simp add: r(1) mk_def)
  qed
  moreover have "tb_fingerprint t = layer_fingerprint sha ?files" "\<exists>x. tb_fingerprint t = sha x"
    using load_fingerprint [OF t(1)] layer_fingerprint_sha [OF t(1)] by simp_all
  ultimately show ?thesis using attrs2 geo2 recs(2) len t(2)
    by (intro exI [of _ "\<lparr>pf_table = t, pf_layer = layer, pf_features = fs\<rparr>"])
       (simp add: geoms_def mg_def case_prod_beta' del: upt_Suc One_nat_def)
qed

end
