(* ===== verification/LayerDemo.thy ===== *)
theory LayerDemo
  imports LayerFacts ZipFacts
begin

text \<open>
  From the bytes of a layer that follows the contract to its rows in the database.
\<close>

text \<open>A layer that follows the contract, uploaded for the first time.\<close>

lemma accepted_layer:
  assumes zip: "extract_upload_archive (ue_ucd en) z = (Inr family, files)" "map_of files = write_family ftext rows recs"
      "filled (ef_layer family)"
    and rows: "\<forall>vs \<in> set rows. list_all2 (storable (ue_ucd en) ftext) dbf_fields vs \<and> (\<exists>i. hd vs = JInt i) \<and> list_all jsonb_takes vs" "rows \<noteq> []"
    and recs: "list_all record_ok recs" "length recs = length rows" "100 + length (write_records 1 recs) < 2 ^ 32"
    and lib: "\<forall>x. sha_text (ue_sha en x)" "\<forall>g. \<not> fl_less (sl_area (ue_shapely en) g) (Fin 0)"
    and db: "forest_ok db" "\<forall>l \<in> set (fb_layers db). ly_fingerprint l \<noteq> layer_fingerprint (ue_sha en) (write_family ftext rows recs)"
      "\<forall>x \<in> set (pv_snapshots (fb_prov db)). sn_sha x \<noteq> ue_sha en content \<and> sn_object x \<noteq> Some (sha256_to_key (ue_sha en content))"
    and store: "store (sha256_to_key (ue_sha en content)) = None" "content \<noteq> []" "filled filename"
  shows "\<exists>a db' store'. accept_forestry_upload en z content filename user db store = (Inr (a, db'), store')
    \<and> \<not> ac_already a \<and> ac_layer a = ef_layer family \<and> ac_count a = length rows \<and> forest_ok db'
    \<and> map ft_attributes (features_of_layer db' (ac_snapshot a)) = map (zip (map snd dbf_fields)) rows
    \<and> map ft_geometry (features_of_layer db' (ac_snapshot a))
        = map (\<lambda>(n, rs). sg_wkb (build_feature (ue_shapely en) (int n) (map (map decode_point) rs))) (zip [1..<Suc (length recs)] recs)"
proof -
  have rows': "\<forall>vs \<in> set rows. list_all2 (storable (ue_ucd en) ftext) dbf_fields vs \<and> (\<exists>i. hd vs = JInt i)" using rows(1) by blast
  obtain p where p: "parse_forestry_family (ue_ucd en) (ue_sha en) (ue_shapely en) (map_of files) (ef_layer family) = Inr p"
    and pl: "pf_layer p = ef_layer family" and pn: "length (tb_rows (pf_table p)) = length rows"
    and pa: "map ft_attributes (pf_features p) = map (zip (map snd dbf_fields)) rows"
    and pg: "map ft_geometry (pf_features p)
        = map (\<lambda>(n, rs). sg_wkb (build_feature (ue_shapely en) (int n) (map (map decode_point) rs))) (zip [1..<Suc (length recs)] recs)"
    and pf: "tb_fingerprint (pf_table p) = layer_fingerprint (ue_sha en) (write_family ftext rows recs)" "\<exists>x. tb_fingerprint (pf_table p) = ue_sha en x"
    and pt: "list_all feature_takes (pf_features p)"
    using written_layer_parses [OF rows' rows(2) recs, of "ue_sha en" "ue_shapely en" "ef_layer family"] rows(1) lib(2) unfolding zip(2) by blast
  have parse: "parse_upload en z = Inr p" using p by (simp add: parse_upload_def zip(1))
  let ?h = "ue_sha en content"
  let ?key = "sha256_to_key ?h"
  define obj where "obj = \<lparr>sj_key = ?key, sj_sha = ?h, sj_size = int (length content)\<rparr>"
  have put: "put_object (ue_sha en) content store = Some (obj, store(?key \<mapsto> content))"
    by (simp add: put_object_def Let_def store(1) obj_def)
  have "0 \<notin> set ?h" using lib(1) sha_no_nul by blast
  then have "filled ?key" by (auto simp: sha256_to_key_def filled_def dest: in_set_takeD in_set_dropD)
  moreover have "filled forestry_upload_media_type" by (simp add: filled_def forestry_upload_media_type_def)
  ultimately obtain pr pv where prov: "persist_uploaded_provenance ?h (int (length content)) ?key filename (Some forestry_upload_media_type)
      (fp_now (fb_pub db)) (fb_prov db) = Inr (pr, pv)"
    using persist_uploaded_first [of ?h "int (length content)" ?key filename "Some forestry_upload_media_type" "fb_prov db" "fp_now (fb_pub db)"]
      lib(1) store(3) db(3) by auto
  have shat: "sha_text (tb_fingerprint (pf_table p))" using pf(2) lib(1) by metis
  have fresh: "\<not> list_ex (\<lambda>l. ly_fingerprint l = tb_fingerprint (pf_table p)) (fb_layers db)" using db(2) pf(1) by (auto simp: list_ex_iff)
  have take: "list_all feature_takes (map (\<lambda>f. f\<lparr>ft_snapshot := i\<rparr>) (pf_features p))" for i
    using pt by (auto simp: list_all_iff feature_takes_def)
  obtain db1 where per: "persist_parsed_family p (ps_snapshot pr) (db\<lparr>fb_prov := pv\<rparr>) = Inr ((fb_next db, False), db1)"
    using fresh shat zip(3) pl take [of "fb_next db"] by (simp add: persist_parsed_family_def insert_layer_def Let_def)
  obtain a db' where rec: "record_upload p filename user obj db = Inr (a, db')" and a: "\<not> ac_already a" "ac_layer a = pf_layer p" "ac_count a = length rows"
    using prov per lib(1) store(2,3) pn by (simp add: record_upload_def obj_def)
  have acc: "accept_forestry_upload en z content filename user db store = (Inr (a, db'), store(?key \<mapsto> content))"
    by (simp add: accept_forestry_upload_def parse put rec)
  note f = record_upload_facts [OF rec db(1) parse_upload_ok [OF parse]]
  let ?fs = "map (\<lambda>f. f\<lparr>ft_snapshot := ac_snapshot a\<rparr>) (pf_features p)"
  have ad: "fb_features db' = fb_features db @ ?fs" "ac_snapshot a = fb_next db" using f a(1) by (auto simp: added_def)
  have "ft_snapshot g \<noteq> ac_snapshot a" if "g \<in> set (fb_features db)" for g
    using db(1) that unfolding ad(2) forest_ok_def by fastforce
  then have "features_of_layer db' (ac_snapshot a) = ?fs" by (simp add: features_of_layer_def ad(1) filter_id_conv filter_empty_conv)
  then have "map ft_attributes (features_of_layer db' (ac_snapshot a)) = map ft_attributes (pf_features p)"
    "map ft_geometry (features_of_layer db' (ac_snapshot a)) = map ft_geometry (pf_features p)" by simp_all
  then show ?thesis using acc a pl f pa pg by (intro exI [of _ a] exI [of _ db'] exI [of _ "store(?key \<mapsto> content)"]) simp
qed

section \<open>A small layer\<close>

definition demo_uploads :: "ring list upload_env" where
  "demo_uploads = \<lparr>ue_ucd = latin_ucd, ue_printable = (\<lambda>_. True), ue_sha = (\<lambda>_. demo_sha), ue_shapely = demo_shapely\<rparr>"

definition demo_layer :: shape_files where
  "demo_layer = write_family (\<lambda>_. [49]) [demo_values] [[demo_ring]]"

definition layer_entry :: "string \<Rightarrow> zip_info" where
  "layer_entry name = \<lparr>zi_name = lit name, zi_flags = 0, zi_system = 3, zi_attr = 0, zi_compression = 8, zi_csize = 5000, zi_size = 5000\<rparr>"

definition layer_zip :: zip_archive where
  "layer_zip = \<lparr>za_infos = Some (map layer_entry [''a.cpg'', ''a.dbf'', ''a.prj'', ''a.shp'', ''a.shx'']),
     za_read = (\<lambda>info. map_option (\<lambda>b. ([b], True)) (demo_layer (drop 1 (zi_name info))))\<rparr>"

definition demo_tables :: forest_db where
  "demo_tables = \<lparr>fb_pub = \<lparr>fp_now = 0, fp_published = None, fp_snapshots = [], fp_events = [], fp_next = 1\<rparr>, fb_layers = [], fb_features = [],
     fb_uploads = [], fb_prov = no_provenance, fb_next = 1\<rparr>"

lemma demo_tables_ok: "forest_ok demo_tables"
  by (simp add: forest_ok_def demo_tables_def no_provenance_ok)

lemma layer_check: "check_directory latin_ucd (map layer_entry [''a.cpg'', ''a.dbf'', ''a.prj'', ''a.shp'', ''a.shx''])
  = Inr (lit ''a'', map2 (\<lambda>s n. (lit s, layer_entry n)) [''.cpg'', ''.dbf'', ''.prj'', ''.shp'', ''.shx'']
      [''a.cpg'', ''a.dbf'', ''a.prj'', ''a.shp'', ''a.shx''])"
  by (simp add: check_directory_def directory_step_def layer_entry_def Let_def demo_eval member_folder_def)

lemma demo_sizes: "length (write_records 1 [[demo_ring]]) = 120" "length (write_dbf (\<lambda>_. [49]) [demo_values]) = 810"
proof -
  show "length (write_records 1 [[demo_ring]]) = 120"
    by (simp add: write_records_def write_record_def length_record_body demo_ring_def)
  have d: "length (concat (map dbf_descriptor cols)) = 32 * length cols" if "list_all descriptor_ok cols" for cols
    using that by (induction cols) (simp_all add: length_descriptor)
  have "length expected_schema = 14" by (simp add: expected_schema_def dbf_fields_def)
  then show "length (write_dbf (\<lambda>_. [49]) [demo_values]) = 810"
    by (simp add: write_dbf_def d [OF expected_schema_ok] length_write_row [OF demo_storable] del: length_concat)
qed

definition demo_files :: "(pystr, nat list) pydict" where
  "demo_files = map (\<lambda>s. (lit s, the (demo_layer (lit s)))) [''.cpg'', ''.dbf'', ''.prj'', ''.shp'', ''.shx'']"

lemma layer_extract: "\<exists>family. extract_upload_archive latin_ucd layer_zip = (Inr family, demo_files) \<and> ef_layer family = lit ''a''"
proof -
  define ns where "ns = [''a.cpg'', ''a.dbf'', ''a.prj'', ''a.shp'', ''a.shx'']"
  define ms where "ms = map2 (\<lambda>s n. (lit s, layer_entry n)) [''.cpg'', ''.dbf'', ''.prj'', ''.shp'', ''.shx''] ns"
  have sorted: "sort_key fst ms = ms" by (simp add: ms_def ns_def)
  have infos: "za_infos layer_zip = Some (map layer_entry ns)" by (simp add: layer_zip_def ns_def)
  have read: "za_read layer_zip (layer_entry n) = map_option (\<lambda>b. ([b], True)) (demo_layer (drop 1 (lit n)))" for n
    by (simp add: layer_zip_def layer_entry_def)
  define shp where "shp = main_header 120 @ write_records 1 [[demo_ring]]"
  define shx where "shx = main_header 8 @ replicate 8 0"
  define dbf where "dbf = write_dbf (\<lambda>_. [49]) [demo_values]"
  have f: "demo_layer (lit ''.cpg'') = Some (lit ''UTF-8'')" "demo_layer (lit ''.prj'') = Some expected_prj" "demo_layer (lit ''.shp'') = Some shp"
    "demo_layer (lit ''.shx'') = Some shx" "demo_layer (lit ''.dbf'') = Some dbf"
    by (simp_all add: demo_layer_def write_family_def shp_def shx_def dbf_def demo_sizes del: One_nat_def)
  have l: "length shp = 220" "length shx = 108" "length dbf = 810" "length expected_prj < 1000"
    by (simp_all add: shp_def shx_def dbf_def demo_sizes del: One_nat_def) (simp add: expected_prj_def)
  have check: "check_directory latin_ucd (map layer_entry ns) = Inr (lit ''a'', ms)" using layer_check by (simp only: ns_def ms_def)
  have size: "zi_size (layer_entry n) = 5000" for n by (simp add: layer_entry_def)
  show ?thesis
    unfolding extract_upload_archive_def infos option.case check sum.case prod.case sorted
    using l by (simp add: ms_def ns_def read f [simplified] size demo_files_def max_total_uncompressed_def Let_def)
qed

lemma demo_conditions:
  "extract_upload_archive (ue_ucd demo_uploads) layer_zip = extract_upload_archive latin_ucd layer_zip"
  "\<forall>vs \<in> set [demo_values]. list_all2 (storable (ue_ucd demo_uploads) (\<lambda>_. [49])) dbf_fields vs \<and> (\<exists>i. hd vs = JInt i) \<and> list_all jsonb_takes vs"
  "100 + length (write_records 1 [[demo_ring]]) < 2 ^ 32" "list_all record_ok [[demo_ring]]"
  "\<forall>x. sha_text (ue_sha demo_uploads x)" "\<forall>g. \<not> fl_less (sl_area (ue_shapely demo_uploads) g) (Fin 0)"
  "filled (lit ''a'')" "filled (lit ''a.zip'')" "\<forall>l \<in> set (fb_layers demo_tables). P l" "\<forall>x \<in> set (pv_snapshots (fb_prov demo_tables)). Q x"
  "[demo_values] \<noteq> []" "length [[demo_ring]] = length [demo_values]" "(\<lambda>_. None) k = None" "[1 :: nat] \<noteq> []"
  using demo_storable demo_record_ok
  by (simp_all add: demo_uploads_def demo_values_def demo_sizes demo_sha_def sha_text_def list_all_iff demo_shapely_def filled_def demo_tables_def no_provenance_def
      fl_finite_def fl_less_def
      del: One_nat_def)

lemma demo_files_of: "map_of demo_files = write_family (\<lambda>_. [49]) [demo_values] [[demo_ring]]"
  by (simp add: demo_files_def demo_layer_def write_family_def fun_eq_iff)

lemma demo_accepted:
  "\<exists>a db' store'. accept_forestry_upload demo_uploads layer_zip [1] (lit ''a.zip'') 1 demo_tables (\<lambda>_. None) = (Inr (a, db'), store')"
proof -
  obtain family where x: "extract_upload_archive latin_ucd layer_zip = (Inr family, demo_files)" "ef_layer family = lit ''a''"
    using layer_extract by blast
  note c = demo_conditions
  have e: "extract_upload_archive (ue_ucd demo_uploads) layer_zip = (Inr family, demo_files)" using x(1) by (simp only: demo_conditions(1))
  show ?thesis
    using accepted_layer [OF e demo_files_of c(7) [folded x(2)] c(2,11,4,12,3,5,6) demo_tables_ok c(9,10,13,14,8), of 1]
    by blast
qed

end
