(* ===== verification/UploadClaims.thy ===== *)
theory UploadClaims
  imports LayerDemo
begin

text \<open>
  The properties of an upload: a layer that follows the contract is accepted, an upload adds one
  whole layer or none, the same archive again is recognised, and which values make it fail.
\<close>



text \<open>
  C12. An upload never half-imports a layer and never publishes: when one is accepted the tables stay
  consistent (unique fingerprints, every layer with its features 1 to the count it states), exactly
  one upload record is added, and either the layer was there and nothing else changes, or one new
  layer with all its features is appended, pending; no layer, feature or activation that was there
  changes, and so neither does the status of any version. An upload that is not accepted has no tables.
\<close>

theorem upload_adds_whole_layer:
  assumes ok: "forest_ok db"
    and r: "accept_forestry_upload en z content filename user db store = (Inr (a, db'), store')"
  shows "forest_ok db' \<and> (\<exists>u. fb_uploads db' = fb_uploads db @ [u] \<and> up_snapshot u = ac_snapshot a)
    \<and> (\<exists>ls fs. added db db' ls fs \<and> (if ac_already a then ls = [] \<and> fs = [] else (\<exists>l. ls = [l] \<and> ly_id l = ac_snapshot a)
          \<and> ac_status a = V_pending \<and> (\<forall>f \<in> set fs. ft_snapshot f = ac_snapshot a)))
    \<and> (\<forall>l \<in> set (fb_layers db). version_status (fb_pub db') (ly_id l) = version_status (fb_pub db) (ly_id l))"
proof -
  obtain p obj where p: "parse_upload en z = Inr p" and rec: "record_upload p filename user obj db = Inr (a, db')"
    using accept_Inr [OF r] by metis
  note f = record_upload_facts [OF rec ok parse_upload_ok [OF p]]
  obtain ls fs where ad: "added db db' ls fs"
    and shape: "if ac_already a then ls = [] \<and> fs = [] else (\<exists>l. ls = [l] \<and> ly_id l = ac_snapshot a)
          \<and> (\<forall>f \<in> set fs. ft_snapshot f = ac_snapshot a) \<and> ac_snapshot a = fb_next db"
    using f by (cases "ac_already a") auto
  have pub: "fp_published (fb_pub db') = fp_published (fb_pub db)" "fp_events (fb_pub db') = fp_events (fb_pub db)"
    using ad by (simp_all add: added_def)
  then have st: "version_status (fb_pub db') j = version_status (fb_pub db) j" for j
    by (simp add: version_status_def read_published_snapshot_id_def ever_published_snapshot_ids_def)
  have "ac_status a = V_pending" if "\<not> ac_already a"
  proof -
    have i: "ac_snapshot a = fb_next db" using shape that by simp
    have "fb_next db \<notin> ly_id ` set (fb_layers db)" using ok by (fastforce simp: forest_ok_def)
    then have "fb_next db \<notin> fe_snapshot ` set (fp_events (fb_pub db))" using ok by (auto simp: forest_ok_def)
    moreover from this have "fp_published (fb_pub db) \<noteq> Some (fb_next db)" using ok by (auto simp: forest_ok_def)
    moreover have "ac_status a = version_status (fb_pub db) (fb_next db)" using f st i by simp
    ultimately show ?thesis
      by (simp add: version_status_def read_published_snapshot_id_def ever_published_snapshot_ids_def)
  qed
  then have "if ac_already a then ls = [] \<and> fs = [] else (\<exists>l. ls = [l] \<and> ly_id l = ac_snapshot a)
          \<and> ac_status a = V_pending \<and> (\<forall>f \<in> set fs. ft_snapshot f = ac_snapshot a)"
    using shape by (cases "ac_already a") auto
  then show ?thesis using f ad st by blast
qed

theorem upload_adds_whole_layer_witness:
  "\<exists>a db' store'. accept_forestry_upload demo_uploads layer_zip [1] (lit ''a.zip'') 1 demo_tables (\<lambda>_. None) = (Inr (a, db'), store')
    \<and> forest_ok db' \<and> length (fb_uploads db') = 1"
proof -
  obtain a db' store' where r: "accept_forestry_upload demo_uploads layer_zip [1] (lit ''a.zip'') 1 demo_tables (\<lambda>_. None) = (Inr (a, db'), store')"
    using demo_accepted by blast
  have "fb_uploads demo_tables = []" by (simp add: demo_tables_def)
  with upload_adds_whole_layer [OF demo_tables_ok r] have "forest_ok db' \<and> length (fb_uploads db') = 1" by auto
  with r show ?thesis by blast
qed

text \<open>
  The same archive uploaded again is recognised: it is accepted as already uploaded, whoever
  uploads it and whatever the file is called, for the same version and the same source; one upload
  record is added and no layer, no feature and no object in the store.
\<close>

theorem reupload_recognised:
  assumes ok: "forest_ok db"
    and first: "accept_forestry_upload en z content filename user db store = (Inr (a, db1), store1)"
    and name: "filled filename'"
  shows "\<exists>a' db2. accept_forestry_upload en z content filename' user' db1 store1 = (Inr (a', db2), store1)
    \<and> ac_already a' \<and> ac_snapshot a' = ac_snapshot a \<and> ac_source a' = ac_source a \<and> ac_sha a' = ac_sha a
    \<and> added db1 db2 [] [] \<and> length (fb_uploads db2) = Suc (length (fb_uploads db1)) \<and> forest_ok db2"
proof -
  obtain p obj where p: "parse_upload en z = Inr p" and put: "put_object (ue_sha en) content store = Some (obj, store1)"
    and rec: "record_upload p filename user obj db = Inr (a, db1)"
    using accept_Inr [OF first] by metis
  have pok: "parsed_ok p" using parse_upload_ok [OF p] .
  note f = record_upload_facts [OF rec ok pok]
  have ok1: "forest_ok db1" using f by simp
  have put2: "put_object (ue_sha en) content store1 = Some (obj, store1)"
    using put by (auto simp: put_object_def Let_def split: option.splits if_splits)
  have okp: "provenance_ok (fb_prov db)" using ok by (simp add: forest_ok_def)
  obtain pr where pr: "persist_uploaded_provenance (sj_sha obj) (sj_size obj) (sj_key obj) filename (Some forestry_upload_media_type)
             (fp_now (fb_pub db)) (fb_prov db) = Inr (pr, fb_prov db1)" "ac_source a = ps_snapshot pr" using f by auto
  have media: "\<forall>m. Some forestry_upload_media_type = Some m \<longrightarrow> filled m"
    by (simp add: filled_def forestry_upload_media_type_def)
  obtain pr' pv2 where pr': "persist_uploaded_provenance (sj_sha obj) (sj_size obj) (sj_key obj) filename' (Some forestry_upload_media_type)
             (fp_now (fb_pub db1)) (fb_prov db1) = Inr (pr', pv2)" "ps_snapshot pr' = ps_snapshot pr"
    using persist_uploaded_again [OF pr(1) okp name media] by metis
  obtain l where l: "l \<in> set (fb_layers db1)" "ly_id l = ac_snapshot a" "ly_fingerprint l = tb_fingerprint (pf_table p)"
    "ly_name l = pf_layer p" "ly_count l = length (tb_rows (pf_table p))"
  proof -
    have "\<exists>l \<in> set (fb_layers db1). ly_id l = ac_snapshot a \<and> ly_fingerprint l = tb_fingerprint (pf_table p)
        \<and> ly_name l = pf_layer p \<and> ly_count l = length (tb_rows (pf_table p))"
      using f by (cases "ac_already a") (fastforce simp: added_def)+
    then show thesis using that by blast
  qed
  have chk: "sha_text (tb_fingerprint (pf_table p))" "filled (pf_layer p)"
    using rec pr(1) by (auto simp: record_upload_def persist_parsed_family_def insert_layer_def Let_def split: sum.splits if_splits)
  have "list_ex (\<lambda>l. ly_fingerprint l = tb_fingerprint (pf_table p)) (fb_layers db1)" using l by (auto simp: list_ex_iff)
  moreover have "resolve_existing p (db1\<lparr>fb_prov := pv2\<rparr>) = Inr (ac_snapshot a)"
    using find_by_key [of ly_fingerprint "fb_layers db1" l] ok1 l by (simp add: resolve_existing_def forest_ok_def)
  ultimately have per: "persist_parsed_family p (ps_snapshot pr') (db1\<lparr>fb_prov := pv2\<rparr>) = Inr ((ac_snapshot a, True), db1\<lparr>fb_prov := pv2\<rparr>)"
    using chk by (simp add: persist_parsed_family_def insert_layer_def Let_def)
  have "\<exists>a' db2. record_upload p filename' user' obj db1 = Inr (a', db2) \<and> ac_already a' \<and> ac_snapshot a' = ac_snapshot a
      \<and> ac_source a' = ac_source a \<and> ac_sha a' = ac_sha a"
    using f name pr'(1) per pr(2) pr'(2) rec
    by (auto simp: record_upload_def split: sum.splits persist_error.splits if_splits)
  then obtain a' db2 where r2: "record_upload p filename' user' obj db1 = Inr (a', db2)" "ac_already a'" "ac_snapshot a' = ac_snapshot a"
      "ac_source a' = ac_source a" "ac_sha a' = ac_sha a" by blast
  note g = record_upload_facts [OF r2(1) ok1 pok]
  have "accept_forestry_upload en z content filename' user' db1 store1 = (Inr (a', db2), store1)"
    by (simp add: accept_forestry_upload_def p put2 r2(1))
  then show ?thesis using r2 g by auto
qed

theorem reupload_recognised_witness:
  "\<exists>a db1 store1 a' db2. accept_forestry_upload demo_uploads layer_zip [1] (lit ''a.zip'') 1 demo_tables (\<lambda>_. None) = (Inr (a, db1), store1)
    \<and> accept_forestry_upload demo_uploads layer_zip [1] (lit ''b'') 2 db1 store1 = (Inr (a', db2), store1) \<and> ac_already a'"
proof -
  obtain a db' store' where r: "accept_forestry_upload demo_uploads layer_zip [1] (lit ''a.zip'') 1 demo_tables (\<lambda>_. None) = (Inr (a, db'), store')"
    using demo_accepted by blast
  have "filled (lit ''b'')" by (simp add: filled_def)
  from reupload_recognised [OF demo_tables_ok r this, of 2] r show ?thesis by blast
qed

text \<open>
  Values that pass the contract and make an upload fail with an error no caller turns into a refusal:
  a row without an object number, and a number the source spells as not finite or a text with a NUL,
  which \<open>jsonb\<close> does not take.
\<close>

lemma blank_objectid_fails:
  assumes "load_shapefile u sha files = Inr t" "decode_polygon_records sl raw = Inr geoms" "files (lit ''.shp'') = Some raw"
    "length geoms = length (tb_rows t)" "r \<in> set (tb_rows t)" "row_objectid r = None"
  shows "parse_forestry_family u sha sl files layer = Inl Objectid_assertion" "rejection_of en Objectid_assertion = Failed"
proof -
  have "map (\<lambda>r. int (sr_number r)) (tb_rows t) = map int (map sr_number (tb_rows t))" by simp
  also have "\<dots> = map sg_number geoms"
    using load_table_rows [OF assms(1)] decoded_numbers [of sl raw 100 "[]" geoms] assms(2,4)
    by (auto simp: decode_polygon_records_def simp del: upt_Suc split: if_splits)
  finally have al: "map (\<lambda>r. int (sr_number r)) (tb_rows t) = map sg_number geoms" .
  obtain flags where flags: "compute_quality_flags (tb_rows t) geoms = Inr flags"
    using al unfolding compute_quality_flags_def Let_def split_beta by auto
  have step: "feature_parameters flags q = Inl e \<Longrightarrow> e = Objectid_assertion" for q e
    by (auto simp: feature_parameters_def split: prod.splits option.splits)
  obtain i where i: "i < length (tb_rows t)" "r = tb_rows t ! i" using assms(5) by (auto simp: in_set_conv_nth)
  define g where "g = geoms ! i"
  have "(r, g) \<in> set (zip (tb_rows t) geoms)"
    using i assms(4) nth_mem [of i "zip (tb_rows t) geoms"] by (simp add: g_def)
  moreover have "feature_parameters flags (r, g) = Inl Objectid_assertion" using assms(6) by (simp add: feature_parameters_def)
  moreover have "traverse (feature_parameters flags) xs = Inl Objectid_assertion" if "q \<in> set xs" "feature_parameters flags q = Inl Objectid_assertion" for q xs
    using that
  proof (induction xs)
    case (Cons x xs)
    then show ?case by (cases "feature_parameters flags x") (auto dest: step)
  qed simp
  ultimately have "build_feature_parameters (tb_rows t) geoms flags = Inl Objectid_assertion"
    unfolding build_feature_parameters_def by blast
  then show "parse_forestry_family u sha sl files layer = Inl Objectid_assertion"
    using assms al flags by (simp add: parse_forestry_family_def lift_error_def require_aligned_def)
qed simp

lemma untakeable_value_fails:
  assumes "parse_upload en z = Inr p" "f \<in> set (pf_features p)" "(k, v) \<in> set (ft_attributes f)" "\<not> jsonb_takes v"
    "tb_fingerprint (pf_table p) \<notin> ly_fingerprint ` set (fb_layers db)"
  shows "fst (accept_forestry_upload en z content filename user db store) = Inl Failed"
proof -
  have "\<not> feature_takes (f\<lparr>ft_snapshot := i\<rparr>)" for i using assms(3,4) by (auto simp: feature_takes_def list_all_iff)
  then have "\<not> list_all feature_takes (map (\<lambda>f. f\<lparr>ft_snapshot := i\<rparr>) (pf_features p))" for i
    using assms(2) by (auto simp: list_all_iff)
  moreover have "\<not> list_ex (\<lambda>l. ly_fingerprint l = tb_fingerprint (pf_table p)) (fb_layers db)"
    using assms(5) by (force simp: list_ex_iff)
  ultimately have "persist_parsed_family p s (db\<lparr>fb_prov := pv\<rparr>) = Inl Db_refused" for s pv
    by (simp add: persist_parsed_family_def insert_layer_def Let_def)
  then show ?thesis using assms(1)
    by (auto simp: accept_forestry_upload_def record_upload_def split: option.splits sum.splits)
qed

end
