(* ===== verification/Spec2Isabelle.thy ===== *)
theory Spec2Isabelle
  imports Prelude PyText Utf8 PyDate PyFloat PmfField Rollups Lifecycle Plazo Pending OwnerStatus Summary Aef
    FieldSpecs PyValue FieldOverrides CsvExport TextDate Headers Layout LayoutColumns LayoutRows LayoutGate
    Jobs ActivationLog TransPub ForestryPub OverrideStore OverrideEdits Json UnionFind Comparison ComparisonFacts
    Access SignIn AccessFacts AccessClaims Conaf ConafStore ConafFacts ConafClaims
    FloatSum Projection ProjectionFacts CleanTable ProjectionClaims
    ReportGeometry Reports ReportRoutes ReportFacts ReportFeatures ReportErrors ReportClaims
    ZipUpload ZipFacts Bytes Shapefile ShapeFacts ShapeRecords RecordFacts Evidence ShapeClaims UploadErrors
    Provenance ForestryUpload UploadFacts LayerFacts LayerDemo UploadClaims
begin

text \<open>
  A verification library for the Transelec dashboards and the campo-digital API.

  \<^bold>\<open>The program.\<close> Transelec's tracking planilla is an Excel workbook. The API
  (\<open>apps/api/app\<close>) queues an uploaded workbook as a job, a worker reads its \<open>Resumen\<close>
  sheet with the layout resolver (\<open>products/transelect/src/transelec_ingestion\<close>), and a clean
  import can be published. The dashboards serve the published import through pure view functions.
  Users edit single cells on the web; the edits follow their rows into later imports. A nightly run
  asks CONAF's public page for the state of every file number the planilla names. A second product
  publishes forestry snapshots with the same activation contract and compares two of them; on a
  published snapshot foresters draw up management reports, which are reviewed and approved. Users
  sign in through Google or Entra; what they may do follows from their grants.

  \<^bold>\<open>How the theories follow the code.\<close> Sources are named relative to \<open>transelec_ingestion\<close>
  or to \<open>app\<close>. A record or datatype has the fields or members of the class it models, a
  definition has the name of the function it models.

  \<^item> Language and library. \<open>Prelude\<close>: exceptions as \<open>py_error + 'a\<close>, dictionaries that keep
    insertion order, grouping, counting, deduplication. \<open>PyText\<close>: \<open>str\<close> as code points,
    strip, case folding, NFKD. \<open>Utf8\<close>: text as bytes and back. \<open>PyDate\<close>: the calendar of \<open>datetime.date\<close>, its ordinals and
    ISO texts. \<open>PyFloat\<close>: binary64 rounding and the compensated \<open>sum\<close>. \<open>PyValue\<close>:
    texts of values and back.
  \<^item> Reading a workbook (\<open>resumen_layout.py\<close>, \<open>xlsx_contract.py\<close>). \<open>FieldSpecs\<close> is the
    field registry; \<open>TextDate\<close> reads a date out of a text cell; \<open>Headers\<close> folds and recognises
    headers and finds the header row; \<open>Layout\<close> decides on every column; \<open>LayoutRows\<close> checks
    every cell and builds the report and the rows (\<open>resolve_resumen_layout\<close>).
    \<open>LayoutColumns\<close>, \<open>LayoutGate\<close> and \<open>CleanTable\<close> hold the theorems on them.
    \<open>PmfField\<close> resolves one field of one plan over its rows.
  \<^item> Importing it (\<open>xlsx_contract.load_transelec_workbook\<close>, \<open>import_projection.py\<close>).
    \<open>Projection\<close> turns the rows into columns, stores them and checks what was stored;
    \<open>FloatSum\<close> is \<open>math.fsum\<close>, the running sum of the database and \<open>math.isclose\<close>, with
    the rounding errors; \<open>ProjectionFacts\<close> and \<open>ProjectionClaims\<close> hold the theorems.
  \<^item> Views. \<open>Rollups\<close> (\<open>status_rollups.py\<close>), \<open>Lifecycle\<close> (\<open>lifecycle_view.py\<close>),
    \<open>Plazo\<close> (\<open>plazo_conaf.py\<close>), \<open>Pending\<close>, \<open>OwnerStatus\<close>, \<open>Summary\<close> and
    \<open>Aef\<close> (the view modules of those names), \<open>CsvExport\<close> (\<open>csv_export.py\<close>).
  \<^item> Web edits. \<open>FieldOverrides\<close> (\<open>field_overrides.py\<close>) parses and compares values;
    \<open>OverrideStore\<close> is the tables, the status view of migration 0012 and every operation of
    \<open>transelec_overrides.py\<close> that changes them; \<open>OverrideEdits\<close> holds their theorems.
  \<^item> Jobs and publication. \<open>Jobs\<close> (\<open>jobs.py\<close>, \<open>worker.py\<close>, \<open>execution.py\<close>, and
    \<open>retry_job\<close> of \<open>routers/ingestion.py\<close>);
    \<open>TransPub\<close> (\<open>transelec_publication.py\<close>) and \<open>ForestryPub\<close>
    (\<open>forestry_publication.py\<close>), both interpretations of the contract \<open>ActivationLog\<close>.
  \<^item> Forestry comparison. \<open>Json\<close> writes the properties of a feature as \<open>json.dumps\<close> does;
    \<open>UnionFind\<close> is the union-find of the overlap groups, \<open>Comparison\<close> the whole of
    \<open>forestry_comparison.py\<close>, \<open>ComparisonFacts\<close> its theorems.
  \<^item> Forestry reports. \<open>ReportGeometry\<close> (\<open>forestry_report_geometry.py\<close>) decides which
    features may be stored, \<open>Reports\<close> (\<open>forestry_reports.py\<close>) is the tables and every operation
    on them, \<open>ReportRoutes\<close> (\<open>routers/forestry_reports.py\<close>) the routes with their guards, HTTP
    statuses and audit events, and the steps \<open>report_step\<close>. \<open>ReportFacts\<close> says what a step does
    to each report and keeps the invariant, \<open>ReportFeatures\<close> what is stored, \<open>ReportErrors\<close> what
    a refusal can be, \<open>ReportClaims\<close> the properties.
  \<^item> Forestry layers (\<open>products/forestry/src/forestry_ingestion\<close>). \<open>ZipUpload\<close>
    (\<open>upload_archive.py\<close>) decides which ZIP is one layer and extracts it within bounds, \<open>ZipFacts\<close>
    holds its theorems. \<open>Bytes\<close> is integers, doubles and text in files; \<open>Shapefile\<close>
    (\<open>shapefile_contract.py\<close>) reads headers and attribute table, \<open>ShapeRecords\<close>
    (\<open>shapefile_geometry.py\<close>) the polygon records, \<open>Evidence\<close> (\<open>snapshot_evidence.py\<close>) the
    quality flags; \<open>ShapeFacts\<close>, \<open>RecordFacts\<close> and \<open>ShapeClaims\<close> the theorems.
    \<open>UploadErrors\<close> is the text of each refusal and what \<open>forestry_uploads.py\<close> makes of it.
  \<^item> Storing a layer. \<open>Provenance\<close> (\<open>source_provenance.py\<close>) records where content came from;
    \<open>ForestryUpload\<close> is \<open>put\<close> of the object store, \<open>forestry_persistence.py\<close> and the acceptance of
    an upload in \<open>forestry_uploads.py\<close>, over the tables \<open>forest_db\<close>. \<open>UploadFacts\<close> keeps the
    layers whole, \<open>LayerFacts\<close> writes a layer that follows the contract and parses it back,
    \<open>LayerDemo\<close> accepts such a layer and holds a small one, \<open>UploadClaims\<close> has the properties.
  \<^item> Access. \<open>Access\<close> is users, grants, invitations, sessions and the audit log
    (\<open>access.py\<close>, \<open>access_repository.py\<close>, \<open>session_store.py\<close>, \<open>audit.py\<close>);
    \<open>SignIn\<close> the CSRF token and the sign-in callbacks (\<open>csrf.py\<close>, \<open>google_auth.py\<close>,
    \<open>dev_auth.py\<close> and their routers); \<open>AccessFacts\<close> and \<open>AccessClaims\<close> the theorems.
  \<^item> CONAF. \<open>Conaf\<close> (\<open>conaf.py\<close>): file numbers, the parser of the page and the client;
    \<open>ConafStore\<close> (\<open>conaf_store.py\<close>, \<open>conaf_refresh.py\<close>): the two tables, a saved
    lookup and the run; \<open>ConafFacts\<close> and \<open>ConafClaims\<close> the theorems.

  \<^bold>\<open>State.\<close> Pure functions are functions of the rows they receive. The stateful modules are
  records of the tables they touch (\<open>queue\<close>, \<open>trans_pub\<close>, \<open>f_pub\<close>, \<open>edit_store\<close>,
  \<open>import_db\<close>, \<open>report_db\<close>, \<open>provenance\<close>, \<open>forest_db\<close>, those of \<open>Access\<close> and \<open>ConafStore\<close>); an
  operation is one transaction and returns the new tables or an error value, and a rolled-back
  transaction leaves the tables as they were. The nightly refresh is many transactions: its definition
  may be cut off before any turn, as the death of the process does, and keeps what was committed. Row locks make transactions on one row follow one
  another, so interleavings are sequences of steps (\<open>queue_step\<close>, \<open>pub_step\<close>,
  \<open>f_step\<close>, \<open>report_step\<close>); the rows \<open>FOR UPDATE SKIP LOCKED\<close> skips are an argument of the claim.

  \<^bold>\<open>What the lemmas show.\<close> Of the reader: a header is recognised exactly when it folds to a known
  name, the chosen columns lie in the table and carry the field they are bound to, every row is the
  clean cells of its columns, what is dropped is reported, a report with an error yields no row, and
  a table whose headers are clean is accepted whatever its cells hold. Of the import: every column is
  the coercion of the effective value of its field, the group key is never blank, and a readable
  workbook is imported once: the exact total of its areas and the running sum the database makes of
  them, in any order, differ by less than the tolerance of the check; a snapshot, run or user that is
  not stored is refused (\<open>missing_reference_refused\<close>).
  Of the views: the first-row-wins reduction and the partitions it feeds count each plan once; the
  figures of the summary agree with one another and with the other views; a field is a value only
  when the rows agree on it. Of the term: \<open>add_business_days\<close> returns the n-th business day, the
  count between two dates inverts it, and the light follows from both. Of the export: the bytes
  decode and parse back to the cells written, and no cell starts a formula. Of the edits: a saved value is shown,
  only its cell changes, a stale form is refused, an incorporated edit can be retired without any
  visible change. Of the queue: a claimed job is leased to one worker while its lease runs, the newest
  attempt of a running job is open and its owner's, failures are retried up to \<open>max_attempts\<close> and once
  more for each retry asked for (\<open>retry_job_exact\<close>). What it does not promise is shown too: an expired
  lease is taken up again whatever the limit (\<open>attempts_unbounded_by_expiry\<close>), and the worker that lost
  its lease can still complete the job (\<open>stale_worker_completes\<close>). Of publication: what is served is the last activation of
  the log, and only what was stored is served. Of the comparison: every feature of either snapshot is
  accounted for exactly once, and the groups are the connected components of the overlaps. Of
  reports: a revision names one version, what is approved is what the reviewer read and stays so, the
  stored features are copies or sound splits of the polygons of the base, and a refusal is a client's
  error, but for the planning fields (\<open>planning_limits_answer_500\<close>). Of layers: the archives
  accepted are characterised and what is extracted is bounded, tables and polygon files written in the
  layout of the format read back (\<open>utf8_encode\<close>, \<open>write_dbf\<close> and \<open>write_records\<close> are that
  layout), no ring is lost, a hole lies in the smallest exterior around it
  (\<open>hole_in_smallest_shell\<close>), and every quality flag is exact. Of uploads: a layer that follows the
  contract is accepted and stored value by value, an upload adds one whole pending layer or none, the
  same archive is recognised, content is identified by its hash; two kinds of value pass the contract
  and fail the upload (\<open>blank_objectid_fails\<close>, \<open>untakeable_value_fails\<close>). Of access:
  after any sequence of requests an account that never signed in as a member of the Workspace is no
  administrator and has roles only on products one of its verified emails is invited to, the
  administration route changes one grant and only for a manager, the audit log tells every role it
  records, a CSRF token is accepted only for its session, and a logout ends it. Of CONAF: only canonical
  numbers are asked for, a page written as the site writes it reads back, the store is the summary of
  the lookups, a run that ends counts every outcome and stops exactly after five unavailable answers in
  a row, at a shutdown or at the limit, one with an answer for every known number leaves none due
  (\<open>refresh_leaves_nothing_due\<close>), and no two finished runs start on one day, a killed one being taken up
  again.

  \<^bold>\<open>Interfaces.\<close> \<open>day_line\<close> (what date loops need of a calendar), \<open>ascii_tables\<close> (what
  text lemmas need of the character database), \<open>rollup_basis\<close> (one value read off each key's
  winner), \<open>activation_log\<close> (one pointer, one log), \<open>disjoint_sets\<close> (find and union on a
  partition). Each is interpreted on the model's own
  definitions in the theory that provides them.

  \<^bold>\<open>Bounds.\<close> The areas of an import are added up for at most \<open>2 ^ 20\<close> rows, as many as a
  worksheet has, and a sum below \<open>2 ^ 1000\<close>. No definition uses fuel. The loops that are not structural terminate by a measure:
  the scans by the text left, the day loops by the days left before 9999-12-31, after which Python
  raises \<open>OverflowError\<close>, here \<open>Inl OverflowError\<close>. Integers are Python's, unbounded; those in the headers of a shapefile
  are 32-bit words, read signed or unsigned as the code does.

  \<^bold>\<open>Parameters.\<close> The character database (\<open>ucd\<close>) with \<open>ascii_tables\<close> and \<open>space_tables\<close> as
  the only facts assumed of it, both shown of the Latin-1 tables; \<open>py_str\<close>, the text of
  non-integral floats and durations; \<open>formula_cells\<close>, what the scan of the workbook's XML found;
  the holidays; the inspector the worker calls; the workbook reader; the order in which the database
  scans rows; PostGIS and the hashes of the comparison; the events of \<open>HTMLParser\<close>, the socket
  and the clock of the CONAF client, GEOS and its tree of geometries, zipfile and Shapely, the case folding, collation and
  number syntax of the database, and Chile's time zone; SHA-256, HMAC, \<open>urlsplit\<close>, the token
  endpoints and the random values of sign-in.

  \<^bold>\<open>Not modelled.\<close> Message and note texts and the fixed texts of responses, which carry no
  behaviour; the XML patch of a workbook, which is calls of zipfile and ElementTree; the HTTP routers,
  but for the operations named above; the redirects to the identity providers and the wrappers of
  MSAL and Fernet; the files behind the object store, of which \<open>put\<close> is a map of keys to contents; the SQL of the read-only forestry pages and the files
  that reports are exported to; the LiDAR product, which is numerical work over numpy and PDAL; developer scripts.
\<close>

end
